(* ===== verification/Prelude.thy ===== *)
theory Prelude
  imports Main "HOL-Library.Word" "HOL-Library.List_Lexorder" "HOL-Library.Char_ord"
begin

text \<open>
  Shared vocabulary of the development: Go's machine integers and times, Go maps and the
  order in which a \<open>range\<close> loop visits them, and the generic list and map lemmas the
  component theories use.
\<close>

section \<open>Collections of rules\<close>

named_theorems go_defs \<open>small definitions that every component proof unfolds\<close>
named_theorems enum_intros \<open>rules about enumerations of the keys of a map\<close>

section \<open>Machine integers and times\<close>

type_synonym u32 = "32 word"
type_synonym u64 = "64 word"

text \<open>
  Go's \<open>int64\<close> is modelled by \<open>int\<close> together with the two's complement wrap-around
  \<open>i64\<close>, which the model applies to the result of every \<open>int64\<close> addition and subtraction.
\<close>

definition i64 :: "int \<Rightarrow> int" where
  "i64 x = (x + 2 ^ 63) mod 2 ^ 64 - 2 ^ 63"

definition is_i64 :: "int \<Rightarrow> bool" where
  "is_i64 x \<longleftrightarrow> - (2 ^ 63) \<le> x \<and> x < 2 ^ 63"

lemma i64_id [simp]: "is_i64 x \<Longrightarrow> i64 x = x"
  by (simp add: i64_def is_i64_def)

lemma is_i64_i64 [simp]: "is_i64 (i64 x)"
  by (simp add: i64_def is_i64_def)

lemma i64_cong: "i64 x = i64 y \<longleftrightarrow> x mod 2 ^ 64 = y mod 2 ^ 64"
proof -
  have "i64 x = i64 y \<longleftrightarrow> (x + 2 ^ 63) mod 2 ^ 64 = (y + 2 ^ 63) mod 2 ^ 64"
    by (simp add: i64_def)
  also have "\<dots> \<longleftrightarrow> x mod 2 ^ 64 = y mod 2 ^ 64"
    by (simp only: mod_eq_dvd_iff) simp
  finally show ?thesis .
qed

lemma i64_mod: "i64 x mod 2 ^ 64 = x mod 2 ^ 64"
  using i64_cong [of "i64 x" x] by simp

lemma i64_diff_right: "i64 (x - i64 y) = i64 (x - y)"
  unfolding i64_cong by (metis i64_mod mod_diff_right_eq)

lemma i64_diff_diff [simp]: "i64 (x - i64 (x - y)) = i64 y"
  by (simp add: i64_diff_right)

lemma i64_add_left: "i64 (i64 x + y) = i64 (x + y)"
  unfolding i64_cong by (metis i64_mod mod_add_left_eq)

text \<open>
  A \<open>time.Time\<close> is the number of nanoseconds since Go's zero time, so the zero value
  \<open>time.Time{}\<close> is 0; a \<open>time.Duration\<close> is a number of nanoseconds.
\<close>

type_synonym gotime = int

abbreviation second :: int where
  "second \<equiv> 1000000000"

definition unix_time :: "gotime \<Rightarrow> int" where
  "unix_time t = t div second - 62135596800"

section \<open>Go maps\<close>

text \<open>
  A Go map is a partial function with a finite domain. A \<open>range\<close> loop visits its keys once
  each in an order the language leaves open, so an operation that ranges over a map takes
  the order as an argument, and a theorem about it holds for every list that
  \<open>enumerates\<close> the map.
\<close>

definition enumerates :: "'k list \<Rightarrow> ('k \<rightharpoonup> 'v) \<Rightarrow> bool" where
  "enumerates ks m \<longleftrightarrow> distinct ks \<and> set ks = dom m"

definition map_len :: "('k \<rightharpoonup> 'v) \<Rightarrow> nat" where
  "map_len m = card (dom m)"

definition map_get :: "'v \<Rightarrow> ('k \<rightharpoonup> 'v) \<Rightarrow> 'k \<Rightarrow> 'v" where
  "map_get d m k = (case m k of None \<Rightarrow> d | Some v \<Rightarrow> v)"

definition map_delete :: "'k \<Rightarrow> ('k \<rightharpoonup> 'v) \<Rightarrow> ('k \<rightharpoonup> 'v)" where
  "map_delete k m = m(k := None)"

lemma enumerates_finite [enum_intros]: "enumerates ks m \<Longrightarrow> finite (dom m)"
  by (metis enumerates_def List.finite_set)

lemma enumerates_distinct: "enumerates ks m \<Longrightarrow> distinct ks"
  by (simp add: enumerates_def)

lemma enumerates_set: "enumerates ks m \<Longrightarrow> set ks = dom m"
  by (simp add: enumerates_def)

lemma enumerates_len: "enumerates ks m \<Longrightarrow> length ks = map_len m"
  by (metis enumerates_def map_len_def distinct_card)

lemma enumerates_exists: "finite (dom m) \<Longrightarrow> \<exists>ks. enumerates ks m"
  unfolding enumerates_def using finite_distinct_list by metis

lemma enumerates_empty [simp]: "enumerates [] m \<longleftrightarrow> m = Map.empty"
  by (auto simp: enumerates_def)

lemma map_delete_apply [simp]: "map_delete k m k' = (if k' = k then None else m k')"
  by (simp add: map_delete_def)

lemma map_delete_empty [simp]: "map_delete k Map.empty = Map.empty"
  by (simp add: map_delete_def fun_eq_iff)

lemma dom_map_delete [simp]: "dom (map_delete k m) = dom m - {k}"
  by (auto simp: map_delete_def)

lemma map_len_empty [simp]: "map_len Map.empty = 0"
  by (simp add: map_len_def)

lemma map_len_0_iff: "finite (dom m) \<Longrightarrow> map_len m = 0 \<longleftrightarrow> m = Map.empty"
  by (simp add: map_len_def)

lemma map_get_simps [simp]:
  "m k = Some v \<Longrightarrow> map_get d m k = v"
  "m k = None \<Longrightarrow> map_get d m k = d"
  by (simp_all add: map_get_def)

section \<open>Folds that treat every key on its own\<close>

text \<open>
  Most loops of the program update one entry of a map per iteration. When the step for key
  \<open>k\<close> changes the entry \<open>k\<close> only, and that entry alone decides the change, the loop is the
  pointwise map, whatever the order.
\<close>

lemma fold_pointwise:
  assumes "distinct ks"
    and "\<And>k m. upd k m = m(k := g k (m k))"
  shows "fold upd ks m = (\<lambda>k. if k \<in> set ks then g k (m k) else m k)"
  using assms(1)
proof (induction ks arbitrary: m)
  case Nil
  then show ?case by simp
next
  case (Cons a ks)
  then show ?case
    by (auto simp: assms(2) fun_eq_iff)
qed

lemma fold_invariant:
  assumes "P s" and "\<And>x s. x \<in> set xs \<Longrightarrow> P s \<Longrightarrow> P (f x s)"
  shows "P (fold f xs s)"
  using assms by (induction xs arbitrary: s) auto

text \<open>A loop that enters what each element asks for leaves the last entry of every key.\<close>

lemma fold_entries:
  "fold (\<lambda>u m. case f u of None \<Rightarrow> m | Some (k, v) \<Rightarrow> m(k \<mapsto> v)) us m = m ++ map_of (rev (List.map_filter f us))"
proof (induction us arbitrary: m)
  case Nil
  then show ?case by (simp add: map_filter_simps)
next
  case (Cons u us)
  show ?case
  proof (cases "f u")
    case None
    then show ?thesis by (simp add: Cons map_filter_simps)
  next
    case (Some kv)
    then show ?thesis by (cases kv) (simp add: Cons map_filter_simps del: fun_upd_apply)
  qed
qed

section \<open>Strings\<close>

text \<open>
  A Go string is its list of bytes. The comparison of the library theory on lists of
  characters is Go's bytewise order, so \<open>sort.Strings\<close> is \<open>sort\<close>.
\<close>

definition has_prefix :: "string \<Rightarrow> string \<Rightarrow> bool" where
  "has_prefix s pre \<longleftrightarrow> take (length pre) s = pre"

definition has_suffix :: "string \<Rightarrow> string \<Rightarrow> bool" where
  "has_suffix s suf \<longleftrightarrow> length suf \<le> length s \<and> drop (length s - length suf) s = suf"

fun str_contains :: "string \<Rightarrow> string \<Rightarrow> bool" where
  "str_contains [] sub = (sub = [])"
| "str_contains (c # cs) sub = (has_prefix (c # cs) sub \<or> str_contains cs sub)"

text \<open>\<open>strings.ToLower\<close> on ASCII letters; the program only compares the result with ASCII words.\<close>

definition lower_char :: "char \<Rightarrow> char" where
  "lower_char c = (if of_char c \<ge> (65::nat) \<and> of_char c \<le> (90::nat) then char_of (of_char c + (32::nat)) else c)"

definition to_lower :: "string \<Rightarrow> string" where
  "to_lower s = map lower_char s"

text \<open>White space of \<open>strings.TrimSpace\<close> and \<open>strings.Fields\<close> within ASCII.\<close>

definition is_space :: "char \<Rightarrow> bool" where
  "is_space c \<longleftrightarrow> of_char c \<in> {9::nat, 10, 11, 12, 13, 32}"

definition trim_space :: "string \<Rightarrow> string" where
  "trim_space s = rev (dropWhile is_space (rev (dropWhile is_space s)))"

fun str_join :: "string \<Rightarrow> string list \<Rightarrow> string" where
  "str_join sep [] = []"
| "str_join sep [x] = x"
| "str_join sep (x # y # xs) = x @ sep @ str_join sep (y # xs)"

text \<open>\<open>strings.Split\<close> at one character.\<close>

fun split_at_char :: "char \<Rightarrow> string \<Rightarrow> string list" where
  "split_at_char sep [] = [[]]"
| "split_at_char sep (c # cs) =
    (case split_at_char sep cs of
       [] \<Rightarrow> [[c]]
     | f # fs \<Rightarrow> if c = sep then [] # f # fs else (c # f) # fs)"

lemma split_at_char_nonempty [simp]: "split_at_char sep s \<noteq> []"
  by (cases s) (auto split: list.split)

lemma split_at_char_append: "split_at_char sep (s @ sep # t) = split_at_char sep s @ split_at_char sep t"
proof (induction s)
  case Nil
  have "split_at_char sep t \<noteq> []" by simp
  then show ?case by (auto split: list.split)
next
  case (Cons c s)
  have "split_at_char sep s \<noteq> []" by simp
  with Cons show ?case by (auto split: list.split)
qed

lemma split_at_char_plain: "sep \<notin> set s \<Longrightarrow> split_at_char sep s = [s]"
  by (induction s) auto

lemma str_contains_iff: "str_contains s p \<longleftrightarrow> (\<exists>a b. s = a @ p @ b)"
proof (induction s)
  case (Cons c s)
  have "has_prefix (c # s) p \<longleftrightarrow> (\<exists>b. c # s = p @ b)"
    unfolding has_prefix_def by (metis append_eq_conv_conj append_take_drop_id)
  with Cons show ?case by (auto simp: append_eq_Cons_conv Cons_eq_append_conv)
qed simp

lemma str_contains_trans: "str_contains s (p @ q) \<Longrightarrow> str_contains s p"
  by (auto simp: str_contains_iff)

text \<open>A pattern without a character never reaches over it.\<close>

lemma str_contains_split:
  assumes "q \<notin> set p"
  shows "str_contains (a @ q # b) p \<longleftrightarrow> str_contains a p \<or> str_contains b p"
proof
  assume "str_contains (a @ q # b) p"
  then obtain x y where e: "a @ q # b = x @ p @ y" by (auto simp: str_contains_iff)
  show "str_contains a p \<or> str_contains b p"
  proof (cases "length (x @ p) \<le> length a")
    case True
    then have "\<exists>z. a = (x @ p) @ z"
      using e by (metis append.assoc append_eq_append_conv_if append_take_drop_id)
    then show ?thesis by (auto simp: str_contains_iff)
  next
    case False
    have "length a < length x \<or> (length x \<le> length a \<and> length a < length (x @ p))" using False by auto
    then show ?thesis
    proof
      assume "length a < length x"
      then have "\<exists>z. b = z @ p @ y"
        using e by (auto simp: append_eq_append_conv2 append_eq_Cons_conv Cons_eq_append_conv)
      then show ?thesis by (auto simp: str_contains_iff)
    next
      assume l: "length x \<le> length a \<and> length a < length (x @ p)"
      have "q = (a @ q # b) ! length a" by simp
      also have "\<dots> = p ! (length a - length x)" unfolding e using l by (auto simp: nth_append)
      finally have "q \<in> set p" using l by (simp add: nth_mem less_diff_conv2)
      then show ?thesis using assms by simp
    qed
  qed
next
  assume "str_contains a p \<or> str_contains b p"
  then show "str_contains (a @ q # b) p"
    by (auto simp: str_contains_iff) (metis append.assoc, metis append.assoc append_Cons)
qed

lemma has_prefix_append [simp]: "has_prefix (pre @ s) pre"
  by (simp add: has_prefix_def)

lemma trim_space_Nil [simp]: "trim_space [] = []"
  by (simp add: trim_space_def)

lemma trim_space_blank: "trim_space l = [] \<Longrightarrow> c \<in> set l \<Longrightarrow> is_space c"
proof -
  assume t: "trim_space l = []" and c: "c \<in> set l"
  have "dropWhile is_space (rev (dropWhile is_space l)) = []" using t by (simp add: trim_space_def)
  then have "\<forall>x\<in>set (dropWhile is_space l). is_space x" by (simp add: dropWhile_eq_Nil_conv)
  then have "dropWhile is_space l = []" by (metis dropWhile_eq_Nil_conv hd_dropWhile list.set_sel(1))
  then show ?thesis using c by (simp add: dropWhile_eq_Nil_conv)
qed

section \<open>Numbers as text\<close>

definition digit_char :: "nat \<Rightarrow> char" where
  "digit_char d = (if d < 10 then char_of (48 + d) else char_of (87 + d))"

fun show_base :: "nat \<Rightarrow> nat \<Rightarrow> string" where
  "show_base b n = (if n < b \<or> b < 2 then [digit_char n] else show_base b (n div b) @ [digit_char (n mod b)])"

declare show_base.simps [simp del]

definition show_dec :: "nat \<Rightarrow> string" where
  "show_dec = show_base 10"

definition show_int :: "int \<Rightarrow> string" where
  "show_int i = (if i < 0 then CHR ''-'' # show_dec (nat (- i)) else show_dec (nat i))"

definition show_hex :: "nat \<Rightarrow> string" where
  "show_hex = show_base 16"

lemma digit_char_inj: "d < 16 \<Longrightarrow> d' < 16 \<Longrightarrow> digit_char d = digit_char d' \<Longrightarrow> d = d'"
proof -
  assume a: "d < 16" "d' < 16" and eq: "digit_char d = digit_char d'"
  define v :: "nat \<Rightarrow> nat" where "v x = (if x < 10 then 48 + x else 87 + x)" for x
  have "of_char (digit_char x) = v x" if "x < 16" for x
    using that by (simp add: digit_char_def v_def)
  with a eq have "v d = v d'" by metis
  with a show "d = d'" by (simp add: v_def split: if_splits)
qed

lemma show_base_inj:
  assumes "2 \<le> b" "b \<le> 16"
  shows "show_base b n = show_base b n' \<Longrightarrow> n = n'"
proof (induction n arbitrary: n' rule: less_induct)
  case (less n)
  have ne: "show_base b x \<noteq> []" for x
    by (subst show_base.simps) simp
  have len1: "length (show_base b x) = 1 \<longleftrightarrow> x < b" for x
    using assms ne [of "x div b"] by (subst show_base.simps) simp
  have same: "n < b \<longleftrightarrow> n' < b"
    using less.prems len1 by metis
  show ?case
  proof (cases "n < b")
    case True
    with same have "digit_char n = digit_char n'"
      using less.prems assms by (simp add: show_base.simps [of b n] show_base.simps [of b n'])
    with True same assms digit_char_inj show ?thesis by auto
  next
    case False
    with same have eq: "show_base b (n div b) = show_base b (n' div b)"
      "digit_char (n mod b) = digit_char (n' mod b)"
      using less.prems assms by (simp_all add: show_base.simps [of b n] show_base.simps [of b n'])
    have "n div b < n" using False assms by simp
    from less.IH [OF this eq(1)] have d: "n div b = n' div b" .
    have "n mod b = n' mod b"
      using eq(2) assms by (intro digit_char_inj) (auto intro: order_less_le_trans [OF mod_less_divisor])
    with d show ?thesis by (metis div_mult_mod_eq)
  qed
qed

lemma show_hex_inj [simp]: "show_hex n = show_hex n' \<longleftrightarrow> n = n'"
  using show_base_inj [of 16 n n'] by (auto simp: show_hex_def)

lemma show_dec_chars: "set (show_dec n) \<subseteq> digit_char ` {..<10}"
proof (induction n rule: less_induct)
  case (less n)
  show ?case
  proof (cases "n < 10")
    case True
    then show ?thesis by (simp add: show_dec_def show_base.simps [of 10 n])
  next
    case False
    then have "show_dec n = show_dec (n div 10) @ [digit_char (n mod 10)]"
      by (simp add: show_dec_def show_base.simps [of 10 n])
    with False less [of "n div 10"] show ?thesis by auto
  qed
qed

lemma digits_plain: "c \<in> set (show_dec n) \<Longrightarrow> 48 \<le> (of_char c :: nat) \<and> (of_char c :: nat) \<le> 57"
proof -
  assume "c \<in> set (show_dec n)"
  then obtain d :: nat where "d < 10" "c = char_of (48 + d)"
    using show_dec_chars [of n] by (auto simp: digit_char_def)
  then show ?thesis by simp
qed

lemma show_dec_nonempty: "show_dec n \<noteq> []"
  by (simp add: show_dec_def show_base.simps [of 10 n])

lemma show_dec_inj [simp]: "show_dec n = show_dec n' \<longleftrightarrow> n = n'"
  using show_base_inj [of 10 n n'] by (auto simp: show_dec_def)

text \<open>
  \<open>fmt.Sprintf("%q", s)\<close>: the string in double quotes, with quotes, backslashes and the ASCII
  control characters escaped.
\<close>

definition quote_char :: "char \<Rightarrow> string" where
  "quote_char c =
    (let n = (of_char c :: nat) in
     if n = 34 then [char_of (92::nat), char_of (34::nat)]
     else if n = 92 then [char_of (92::nat), char_of (92::nat)]
     else if n = 7 then [char_of (92::nat), CHR ''a'']
     else if n = 8 then [char_of (92::nat), CHR ''b'']
     else if n = 9 then [char_of (92::nat), CHR ''t'']
     else if n = 10 then [char_of (92::nat), CHR ''n'']
     else if n = 11 then [char_of (92::nat), CHR ''v'']
     else if n = 12 then [char_of (92::nat), CHR ''f'']
     else if n = 13 then [char_of (92::nat), CHR ''r'']
     else if n < 32 \<or> n = 127
     then [char_of (92::nat), CHR ''x'', digit_char (n div 16), digit_char (n mod 16)]
     else [c])"

definition go_quote :: "string \<Rightarrow> string" where
  "go_quote s = [char_of (34::nat)] @ concat (map quote_char s) @ [char_of (34::nat)]"

end
