(* ===== verification/Tracker.thy ===== *)
theory Tracker
  imports Prelude "HOL-Library.Multiset"
begin

text \<open>
  The traffic accounting engine shared by the tunnel backends: \<open>pkg/stats/tracker.go\<close>
  (per-key byte counters with baselines) and \<open>pkg/stats/interface_counters.go\<close>
  (interface-level deltas). The read-write mutex of the Go type makes every method atomic,
  so each method is one function on the map of entries.
\<close>

section \<open>Data\<close>

record Entry =
  en_Email :: string
  en_CurrentRx :: int
  en_CurrentTx :: int
  en_BaseRx :: int
  en_BaseTx :: int
  en_LastDeltaRx :: int
  en_LastDeltaTx :: int
  en_LastActiveTime :: gotime
  en_EndpointIP :: string
  en_IsDeleted :: bool

record Sample =
  sm_PublicKey :: string
  sm_Email :: string
  sm_Rx :: int
  sm_Tx :: int
  sm_EndpointIP :: string

record Stat =
  st_Name :: string
  st_Type :: string
  st_Link :: string
  st_Value :: int

text \<open>The \<open>Tracker\<close> struct: the map from public key to entry.\<close>

type_synonym Tracker = "string \<rightharpoonup> Entry"

definition new_Tracker :: Tracker where
  "new_Tracker = Map.empty"

section \<open>Operations\<close>

text \<open>\<open>&Entry{Email: sample.Email}\<close>: every other field has its zero value.\<close>

definition new_Entry :: "string \<Rightarrow> Entry" where
  "new_Entry email =
     \<lparr>en_Email = email, en_CurrentRx = 0, en_CurrentTx = 0, en_BaseRx = 0, en_BaseTx = 0,
      en_LastDeltaRx = 0, en_LastDeltaTx = 0, en_LastActiveTime = 0, en_EndpointIP = [],
      en_IsDeleted = False\<rparr>"

definition sample_entry :: "Entry \<Rightarrow> Sample \<Rightarrow> gotime \<Rightarrow> Entry" where
  "sample_entry e0 s activeAt =
    (let e1 = e0\<lparr>en_Email := sm_Email s, en_IsDeleted := False\<rparr>;
         readded = (en_LastDeltaRx e1 \<noteq> 0 \<or> en_LastDeltaTx e1 \<noteq> 0);
         e2 = (if readded
               then e1\<lparr>en_BaseRx := i64 (sm_Rx s - en_LastDeltaRx e1),
                       en_BaseTx := i64 (sm_Tx s - en_LastDeltaTx e1),
                       en_LastDeltaRx := 0, en_LastDeltaTx := 0\<rparr>
               else e1)
     in if en_CurrentRx e2 = sm_Rx s \<and> en_CurrentTx e2 = sm_Tx s
        then e2\<lparr>en_EndpointIP := sm_EndpointIP s\<rparr>
        else
          let e3 = (if \<not> readded \<and> (sm_Rx s < en_CurrentRx e2 \<or> sm_Tx s < en_CurrentTx e2)
                    then let pendingRx = i64 (en_CurrentRx e2 - en_BaseRx e2);
                             pendingTx = i64 (en_CurrentTx e2 - en_BaseTx e2);
                             pendingRx = (if pendingRx < 0 then 0 else pendingRx);
                             pendingTx = (if pendingTx < 0 then 0 else pendingTx)
                         in e2\<lparr>en_BaseRx := i64 (sm_Rx s - pendingRx),
                               en_BaseTx := i64 (sm_Tx s - pendingTx)\<rparr>
                    else e2);
              e4 = (if sm_Rx s > en_CurrentRx e3 \<or> sm_Tx s > en_CurrentTx e3
                    then e3\<lparr>en_LastActiveTime := activeAt\<rparr> else e3)
          in e4\<lparr>en_CurrentRx := sm_Rx s, en_CurrentTx := sm_Tx s,
                en_EndpointIP := sm_EndpointIP s\<rparr>)"

definition applySampleLocked :: "Sample \<Rightarrow> gotime \<Rightarrow> Tracker \<Rightarrow> Tracker" where
  "applySampleLocked s activeAt st =
    (let entry = (case st (sm_PublicKey s) of
                    None \<Rightarrow> new_Entry (sm_Email s) | Some e \<Rightarrow> e)
     in st(sm_PublicKey s \<mapsto> sample_entry entry s activeAt))"

definition UpdateStatsBatch :: "Sample list \<Rightarrow> gotime \<Rightarrow> Tracker \<Rightarrow> Tracker" where
  "UpdateStatsBatch samples now st =
    (if samples = [] then st
     else fold (\<lambda>s. applySampleLocked s now) samples st)"

definition buildDeltaStats :: "string \<Rightarrow> string \<Rightarrow> int \<Rightarrow> int \<Rightarrow> Stat list" where
  "buildDeltaStats name link rx tx =
    (if rx = 0 \<and> tx = 0 then []
     else (if tx > 0
           then [\<lparr>st_Name = name, st_Type = ''uplink'', st_Link = link, st_Value = tx\<rparr>]
           else [])
        @ (if rx > 0
           then [\<lparr>st_Name = name, st_Type = ''downlink'', st_Link = link, st_Value = rx\<rparr>]
           else []))"

definition pendingRx :: "Entry \<Rightarrow> int" where
  "pendingRx e = i64 (en_CurrentRx e - en_BaseRx e)"

definition pendingTx :: "Entry \<Rightarrow> int" where
  "pendingTx e = i64 (en_CurrentTx e - en_BaseTx e)"

text \<open>The loop body that \<open>GetStats\<close> and \<open>GetUsersStats\<close> share for one key.\<close>

definition collect_key :: "bool \<Rightarrow> string \<Rightarrow> Tracker \<times> Stat list \<Rightarrow> Tracker \<times> Stat list" where
  "collect_key reset key acc =
    (case acc of (st, out) \<Rightarrow>
      (case st key of
         None \<Rightarrow> (st, out)
       | Some e \<Rightarrow>
           (if reset
            then if en_IsDeleted e then map_delete key st
                 else st(key \<mapsto> e\<lparr>en_BaseRx := en_CurrentRx e, en_BaseTx := en_CurrentTx e\<rparr>)
            else st,
            out @ buildDeltaStats (en_Email e) key (pendingRx e) (pendingTx e))))"

definition Tracker_GetStats :: "string list \<Rightarrow> bool \<Rightarrow> Tracker \<Rightarrow> Tracker \<times> Stat list" where
  "Tracker_GetStats keys reset st = fold (collect_key reset) keys (st, [])"

text \<open>\<open>GetUsersStats\<close> ranges over the map: \<open>order\<close> is the order of that loop.\<close>

definition GetUsersStats :: "string list \<Rightarrow> bool \<Rightarrow> Tracker \<Rightarrow> Tracker \<times> Stat list" where
  "GetUsersStats order reset st = fold (collect_key reset) order (st, [])"

definition GetStatsEntries :: "string list \<Rightarrow> Tracker \<Rightarrow> (string \<rightharpoonup> Entry)" where
  "GetStatsEntries keys st =
    fold (\<lambda>key result. case st key of None \<Rightarrow> result | Some e \<Rightarrow> result(key \<mapsto> e)) keys Map.empty"

fun AnyActiveSince :: "string list \<Rightarrow> gotime \<Rightarrow> Tracker \<Rightarrow> bool" where
  "AnyActiveSince [] cutoff st = False"
| "AnyActiveSince (key # keys) cutoff st =
    (case st key of
       None \<Rightarrow> AnyActiveSince keys cutoff st
     | Some e \<Rightarrow> if en_LastActiveTime e > cutoff then True else AnyActiveSince keys cutoff st)"

definition endpoint_step :: "Tracker \<Rightarrow> string \<Rightarrow> (string \<rightharpoonup> int) \<Rightarrow> (string \<rightharpoonup> int)" where
  "endpoint_step st key result =
    (case st key of
       None \<Rightarrow> result
     | Some e \<Rightarrow>
         if en_EndpointIP e = [] \<or> en_LastActiveTime e = 0 then result
         else
           let ts = unix_time (en_LastActiveTime e)
           in case result (en_EndpointIP e) of
                None \<Rightarrow> result(en_EndpointIP e \<mapsto> ts)
              | Some prev \<Rightarrow> if ts > prev then result(en_EndpointIP e \<mapsto> ts) else result)"

definition EndpointActivity :: "string list \<Rightarrow> Tracker \<Rightarrow> (string \<rightharpoonup> int)" where
  "EndpointActivity keys st = fold (endpoint_step st) keys Map.empty"

definition RemoveStats :: "string \<Rightarrow> Tracker \<Rightarrow> Tracker" where
  "RemoveStats publicKey st =
    (case st publicKey of
       None \<Rightarrow> st
     | Some e \<Rightarrow> st(publicKey \<mapsto>
         e\<lparr>en_LastDeltaRx := i64 (en_CurrentRx e - en_BaseRx e),
           en_LastDeltaTx := i64 (en_CurrentTx e - en_BaseTx e),
           en_IsDeleted := True, en_LastActiveTime := 0\<rparr>))"

definition ClearAllStats :: "Tracker \<Rightarrow> Tracker" where
  "ClearAllStats st = Map.empty"

definition cleanup_key :: "string \<Rightarrow> Tracker \<Rightarrow> Tracker" where
  "cleanup_key key st =
    (case st key of
       None \<Rightarrow> st
     | Some e \<Rightarrow> if en_IsDeleted e \<and> en_CurrentRx e = en_BaseRx e \<and> en_CurrentTx e = en_BaseTx e
                 then map_delete key st else st)"

definition CleanupDeletedEntries :: "string list \<Rightarrow> Tracker \<Rightarrow> Tracker" where
  "CleanupDeletedEntries order st = fold cleanup_key order st"

section \<open>Interface counters\<close>

record InterfaceCountersTracker =
  ic_baseRx :: int
  ic_baseTx :: int
  ic_baseSet :: bool

definition NewInterfaceCountersTracker :: InterfaceCountersTracker where
  "NewInterfaceCountersTracker = \<lparr>ic_baseRx = 0, ic_baseTx = 0, ic_baseSet = False\<rparr>"

definition Delta :: "int \<Rightarrow> int \<Rightarrow> bool \<Rightarrow> InterfaceCountersTracker \<Rightarrow>
    (int \<times> int) \<times> InterfaceCountersTracker" where
  "Delta currentRx currentTx reset t0 =
    (let t1 = (if \<not> ic_baseSet t0
               then t0\<lparr>ic_baseRx := currentRx, ic_baseTx := currentTx, ic_baseSet := True\<rparr>
               else t0);
         t2 = (if currentRx < ic_baseRx t1 \<or> currentTx < ic_baseTx t1
               then t1\<lparr>ic_baseRx := currentRx, ic_baseTx := currentTx\<rparr> else t1);
         deltaRx = i64 (currentRx - ic_baseRx t2);
         deltaTx = i64 (currentTx - ic_baseTx t2);
         t3 = (if reset then t2\<lparr>ic_baseRx := currentRx, ic_baseTx := currentTx\<rparr> else t2)
     in ((deltaRx, deltaTx), t3))"

definition BuildInterfaceStats :: "string \<Rightarrow> string \<Rightarrow> int \<Rightarrow> int \<Rightarrow> Stat list" where
  "BuildInterfaceStats name link rx tx = buildDeltaStats name link rx tx"

section \<open>The accounting invariant\<close>

text \<open>
  An entry is in order when its counters are non-negative \<open>int64\<close> values, the unreported
  traffic is non-negative and fits an \<open>int64\<close>, and the saved deltas are those of a deleted
  entry and zero otherwise.
\<close>

definition dir_ok :: "int \<Rightarrow> int \<Rightarrow> bool" where
  "dir_ok cur base \<longleftrightarrow> 0 \<le> cur \<and> cur < 2 ^ 63 \<and> base \<le> cur \<and> cur - base < 2 ^ 63"

definition entry_ok :: "Entry \<Rightarrow> bool" where
  "entry_ok e \<longleftrightarrow>
     dir_ok (en_CurrentRx e) (en_BaseRx e) \<and> dir_ok (en_CurrentTx e) (en_BaseTx e) \<and>
     en_LastDeltaRx e = (if en_IsDeleted e then en_CurrentRx e - en_BaseRx e else 0) \<and>
     en_LastDeltaTx e = (if en_IsDeleted e then en_CurrentTx e - en_BaseTx e else 0)"

definition tracker_ok :: "Tracker \<Rightarrow> bool" where
  "tracker_ok st \<longleftrightarrow> (\<forall>k e. st k = Some e \<longrightarrow> entry_ok e)"

definition counter_ok :: "int \<Rightarrow> bool" where
  "counter_ok x \<longleftrightarrow> 0 \<le> x \<and> x < 2 ^ 63"

lemma dir_ok_i64: "dir_ok cur base \<Longrightarrow> i64 (cur - base) = cur - base"
  by (rule i64_id) (simp add: dir_ok_def is_i64_def)

lemma pending_eq:
  assumes "entry_ok e"
  shows "pendingRx e = en_CurrentRx e - en_BaseRx e" "pendingTx e = en_CurrentTx e - en_BaseTx e"
  using assms by (simp_all add: entry_ok_def pendingRx_def pendingTx_def dir_ok_i64)

text \<open>
  The traffic one sample adds to the account of a key: the growth of the counters, nothing
  when the kernel counters went back or when the sample re-adds a removed peer that still
  has unreported traffic.
\<close>

definition sample_credit :: "Entry \<Rightarrow> Sample \<Rightarrow> int \<times> int" where
  "sample_credit e s =
    (if en_LastDeltaRx e \<noteq> 0 \<or> en_LastDeltaTx e \<noteq> 0 then (0, 0)
     else if sm_Rx s < en_CurrentRx e \<or> sm_Tx s < en_CurrentTx e then (0, 0)
     else (sm_Rx s - en_CurrentRx e, sm_Tx s - en_CurrentTx e))"

definition sample_fits :: "Entry \<Rightarrow> Sample \<Rightarrow> bool" where
  "sample_fits e s \<longleftrightarrow> counter_ok (sm_Rx s) \<and> counter_ok (sm_Tx s) \<and>
     en_CurrentRx e - en_BaseRx e + fst (sample_credit e s) < 2 ^ 63 \<and>
     en_CurrentTx e - en_BaseTx e + snd (sample_credit e s) < 2 ^ 63"

lemma i64_diff_counter:
  "counter_ok x \<Longrightarrow> counter_ok p \<Longrightarrow> i64 (x - p) = x - p"
  by (rule i64_id) (simp add: counter_ok_def is_i64_def)

lemma entry_ok_cases:
  assumes "entry_ok e"
  obtains (live) "en_LastDeltaRx e = 0" "en_LastDeltaTx e = 0"
    | (saved) "en_LastDeltaRx e \<noteq> 0 \<or> en_LastDeltaTx e \<noteq> 0"
      "en_LastDeltaRx e = en_CurrentRx e - en_BaseRx e"
      "en_LastDeltaTx e = en_CurrentTx e - en_BaseTx e"
      "counter_ok (en_LastDeltaRx e)" "counter_ok (en_LastDeltaTx e)"
  using assms by (fastforce simp: entry_ok_def counter_ok_def dir_ok_def split: if_splits)

lemma sample_entry_live:
  assumes "entry_ok e" "sample_fits e s" "en_LastDeltaRx e = 0" "en_LastDeltaTx e = 0"
  shows "entry_ok (sample_entry e s t) \<and>
    en_CurrentRx (sample_entry e s t) - en_BaseRx (sample_entry e s t) =
      en_CurrentRx e - en_BaseRx e + fst (sample_credit e s) \<and>
    en_CurrentTx (sample_entry e s t) - en_BaseTx (sample_entry e s t) =
      en_CurrentTx e - en_BaseTx e + snd (sample_credit e s)"
proof -
  have p: "counter_ok (en_CurrentRx e - en_BaseRx e)" "counter_ok (en_CurrentTx e - en_BaseTx e)"
    using assms(1) by (auto simp: entry_ok_def dir_ok_def counter_ok_def)
  have d: "i64 (en_CurrentRx e - en_BaseRx e) = en_CurrentRx e - en_BaseRx e"
    "i64 (en_CurrentTx e - en_BaseTx e) = en_CurrentTx e - en_BaseTx e"
    using assms(1) by (simp_all add: entry_ok_def dir_ok_i64)
  have r: "i64 (sm_Rx s - (en_CurrentRx e - en_BaseRx e)) = sm_Rx s - (en_CurrentRx e - en_BaseRx e)"
    "i64 (sm_Tx s - (en_CurrentTx e - en_BaseTx e)) = sm_Tx s - (en_CurrentTx e - en_BaseTx e)"
    using p assms(2) by (auto simp: sample_fits_def intro: i64_diff_counter)
  show ?thesis
    using assms p d r
    by (auto simp: sample_entry_def Let_def entry_ok_def dir_ok_def sample_fits_def
        sample_credit_def counter_ok_def split: if_splits)
qed

lemma sample_entry_saved:
  assumes "sample_fits e s" "en_LastDeltaRx e \<noteq> 0 \<or> en_LastDeltaTx e \<noteq> 0"
    and d: "en_LastDeltaRx e = en_CurrentRx e - en_BaseRx e"
      "en_LastDeltaTx e = en_CurrentTx e - en_BaseTx e"
    and c: "counter_ok (en_LastDeltaRx e)" "counter_ok (en_LastDeltaTx e)"
  shows "entry_ok (sample_entry e s t) \<and>
    en_CurrentRx (sample_entry e s t) - en_BaseRx (sample_entry e s t) =
      en_CurrentRx e - en_BaseRx e + fst (sample_credit e s) \<and>
    en_CurrentTx (sample_entry e s t) - en_BaseTx (sample_entry e s t) =
      en_CurrentTx e - en_BaseTx e + snd (sample_credit e s)"
proof -
  have r: "i64 (sm_Rx s - en_LastDeltaRx e) = sm_Rx s - en_LastDeltaRx e"
    "i64 (sm_Tx s - en_LastDeltaTx e) = sm_Tx s - en_LastDeltaTx e"
    using assms(1) c by (auto simp: sample_fits_def intro: i64_diff_counter)
  show ?thesis
    using assms(1,2) c
    by (auto simp: sample_entry_def Let_def entry_ok_def dir_ok_def sample_fits_def
        sample_credit_def counter_ok_def r d [symmetric] split: if_splits)
qed

lemma sample_entry_account:
  assumes "entry_ok e" "sample_fits e s"
  shows "entry_ok (sample_entry e s t)"
    and "pendingRx (sample_entry e s t) = pendingRx e + fst (sample_credit e s)"
    and "pendingTx (sample_entry e s t) = pendingTx e + snd (sample_credit e s)"
proof -
  have "entry_ok (sample_entry e s t) \<and>
    en_CurrentRx (sample_entry e s t) - en_BaseRx (sample_entry e s t) =
      en_CurrentRx e - en_BaseRx e + fst (sample_credit e s) \<and>
    en_CurrentTx (sample_entry e s t) - en_BaseTx (sample_entry e s t) =
      en_CurrentTx e - en_BaseTx e + snd (sample_credit e s)"
    using assms(1)
  proof (cases rule: entry_ok_cases)
    case live
    then show ?thesis using sample_entry_live assms by blast
  next
    case saved
    then show ?thesis using sample_entry_saved assms by blast
  qed
  then show "entry_ok (sample_entry e s t)"
    and "pendingRx (sample_entry e s t) = pendingRx e + fst (sample_credit e s)"
    and "pendingTx (sample_entry e s t) = pendingTx e + snd (sample_credit e s)"
    using assms(1) by (simp_all add: pending_eq)
qed

lemma entry_ok_new [simp]: "entry_ok (new_Entry email)"
  by (simp add: entry_ok_def new_Entry_def dir_ok_def)

lemma pending_new [simp]: "pendingRx (new_Entry email) = 0" "pendingTx (new_Entry email) = 0"
  by (simp_all add: pending_eq) (simp_all add: new_Entry_def)

section \<open>Runs of the tracker, with the account of every key\<close>

text \<open>
  \<open>reported typ key out\<close> is what a response says about one key in one direction. The
  record \<open>Ledger\<close> pairs a tracker with two histories that the code does not keep: all the
  traffic credited to a key so far, and all the traffic already handed out by responses that
  reset the baseline.
\<close>

definition reported :: "string \<Rightarrow> string \<Rightarrow> Stat list \<Rightarrow> int" where
  "reported typ key out =
    sum_list (map st_Value (filter (\<lambda>x. st_Type x = typ \<and> st_Link x = key) out))"

lemma reported_simps [simp]:
  "reported typ key [] = 0"
  "reported typ key (xs @ ys) = reported typ key xs + reported typ key ys"
  by (simp_all add: reported_def)

lemma reported_buildDeltaStats:
  assumes "0 \<le> rx" "0 \<le> tx"
  shows "reported ''downlink'' key (buildDeltaStats name link rx tx) = (if key = link then rx else 0)"
    and "reported ''uplink'' key (buildDeltaStats name link rx tx) = (if key = link then tx else 0)"
  using assms by (auto simp: reported_def buildDeltaStats_def)

record Ledger =
  ac_tracker :: Tracker
  ac_creditRx :: "string \<Rightarrow> int"
  ac_creditTx :: "string \<Rightarrow> int"
  ac_reportedRx :: "string \<Rightarrow> int"
  ac_reportedTx :: "string \<Rightarrow> int"

definition key_entry :: "Tracker \<Rightarrow> Sample \<Rightarrow> Entry" where
  "key_entry st s = (case st (sm_PublicKey s) of None \<Rightarrow> new_Entry (sm_Email s) | Some e \<Rightarrow> e)"

definition account_sample :: "Sample \<Rightarrow> gotime \<Rightarrow> Ledger \<Rightarrow> Ledger" where
  "account_sample s now a =
    (let k = sm_PublicKey s; c = sample_credit (key_entry (ac_tracker a) s) s
     in a\<lparr>ac_tracker := applySampleLocked s now (ac_tracker a),
          ac_creditRx := (ac_creditRx a)(k := ac_creditRx a k + fst c),
          ac_creditTx := (ac_creditTx a)(k := ac_creditTx a k + snd c)\<rparr>)"

definition account_collect :: "string list \<Rightarrow> bool \<Rightarrow> Ledger \<Rightarrow> Ledger" where
  "account_collect keys reset a =
    (let (st, out) = Tracker_GetStats keys reset (ac_tracker a)
     in a\<lparr>ac_tracker := st,
          ac_reportedRx := (\<lambda>k. ac_reportedRx a k + (if reset then reported ''downlink'' k out else 0)),
          ac_reportedTx := (\<lambda>k. ac_reportedTx a k + (if reset then reported ''uplink'' k out else 0))\<rparr>)"

definition new_Ledger :: Ledger where
  "new_Ledger = \<lparr>ac_tracker = new_Tracker, ac_creditRx = (\<lambda>_. 0), ac_creditTx = (\<lambda>_. 0),
     ac_reportedRx = (\<lambda>_. 0), ac_reportedTx = (\<lambda>_. 0)\<rparr>"

inductive tracker_run :: "Ledger \<Rightarrow> bool" where
  run_new: "tracker_run new_Ledger"
| run_sample: "tracker_run a \<Longrightarrow> sample_fits (key_entry (ac_tracker a) s) s \<Longrightarrow>
    tracker_run (account_sample s now a)"
| run_remove: "tracker_run a \<Longrightarrow>
    tracker_run (a\<lparr>ac_tracker := RemoveStats k (ac_tracker a)\<rparr>)"
| run_collect: "tracker_run a \<Longrightarrow> tracker_run (account_collect keys reset a)"
| run_cleanup: "tracker_run a \<Longrightarrow>
    tracker_run (a\<lparr>ac_tracker := CleanupDeletedEntries order (ac_tracker a)\<rparr>)"

definition key_pendingRx :: "Tracker \<Rightarrow> string \<Rightarrow> int" where
  "key_pendingRx st k = (case st k of None \<Rightarrow> 0 | Some e \<Rightarrow> pendingRx e)"

definition key_pendingTx :: "Tracker \<Rightarrow> string \<Rightarrow> int" where
  "key_pendingTx st k = (case st k of None \<Rightarrow> 0 | Some e \<Rightarrow> pendingTx e)"

lemmas key_pending_defs = key_pendingRx_def key_pendingTx_def

definition balanced :: "Ledger \<Rightarrow> bool" where
  "balanced a \<longleftrightarrow> tracker_ok (ac_tracker a) \<and>
     (\<forall>k. ac_creditRx a k = ac_reportedRx a k + key_pendingRx (ac_tracker a) k) \<and>
     (\<forall>k. ac_creditTx a k = ac_reportedTx a k + key_pendingTx (ac_tracker a) k)"

lemma tracker_okD: "tracker_ok st \<Longrightarrow> st k = Some e \<Longrightarrow> entry_ok e"
  by (simp add: tracker_ok_def)

lemma tracker_ok_upd: "tracker_ok st \<Longrightarrow> entry_ok e \<Longrightarrow> tracker_ok (st(k \<mapsto> e))"
  by (simp add: tracker_ok_def)

lemma tracker_ok_delete: "tracker_ok st \<Longrightarrow> tracker_ok (map_delete k st)"
  by (simp add: tracker_ok_def)

lemma key_entry_ok: "tracker_ok st \<Longrightarrow> entry_ok (key_entry st s)"
  by (auto simp: key_entry_def tracker_ok_def split: option.splits)

lemma pending_nonneg: "entry_ok e \<Longrightarrow> 0 \<le> pendingRx e \<and> 0 \<le> pendingTx e"
  by (simp add: pending_eq) (simp add: entry_ok_def dir_ok_def)

lemma balanced_sample:
  assumes "balanced a" "sample_fits (key_entry (ac_tracker a) s) s"
  shows "balanced (account_sample s now a)"
proof -
  let ?e = "key_entry (ac_tracker a) s" and ?k = "sm_PublicKey s"
  have ok: "tracker_ok (ac_tracker a)" and e: "entry_ok ?e"
    using assms(1) key_entry_ok by (auto simp: balanced_def)
  note acc = sample_entry_account [OF e assms(2), of now]
  have st: "applySampleLocked s now (ac_tracker a) = (ac_tracker a)(?k \<mapsto> sample_entry ?e s now)"
    by (simp add: applySampleLocked_def key_entry_def)
  have pend: "pendingRx ?e = key_pendingRx (ac_tracker a) ?k" "pendingTx ?e = key_pendingTx (ac_tracker a) ?k"
    by (auto simp: key_entry_def key_pending_defs split: option.splits)
  show ?thesis
    using assms(1) acc pend tracker_ok_upd [OF ok acc(1), of ?k]
    by (auto simp: balanced_def account_sample_def st Let_def key_pending_defs)
qed

lemma RemoveStats_entry_ok:
  assumes "entry_ok e"
  shows "entry_ok (e\<lparr>en_LastDeltaRx := i64 (en_CurrentRx e - en_BaseRx e),
           en_LastDeltaTx := i64 (en_CurrentTx e - en_BaseTx e),
           en_IsDeleted := True, en_LastActiveTime := 0\<rparr>)"
  using assms by (simp add: entry_ok_def dir_ok_i64)

lemma RemoveStats_ok: "tracker_ok st \<Longrightarrow> tracker_ok (RemoveStats k st)"
  using RemoveStats_entry_ok
  by (auto simp: RemoveStats_def split: option.splits intro!: tracker_ok_upd dest: tracker_okD)

lemma RemoveStats_pending:
  "key_pendingRx (RemoveStats k st) k' = key_pendingRx st k'"
  "key_pendingTx (RemoveStats k st) k' = key_pendingTx st k'"
  by (auto simp: RemoveStats_def key_pending_defs pendingRx_def pendingTx_def split: option.splits)

lemma cleanup_key_ok: "tracker_ok st \<Longrightarrow> tracker_ok (cleanup_key k st)"
  by (auto simp: cleanup_key_def tracker_ok_delete split: option.splits)

lemma cleanup_key_pending:
  "key_pendingRx (cleanup_key k st) k' = key_pendingRx st k'"
  "key_pendingTx (cleanup_key k st) k' = key_pendingTx st k'"
  by (auto simp: cleanup_key_def key_pending_defs pendingRx_def pendingTx_def is_i64_def split: option.splits)

lemma CleanupDeletedEntries_ok:
  assumes "tracker_ok st"
  shows "tracker_ok (CleanupDeletedEntries order st)"
    and "key_pendingRx (CleanupDeletedEntries order st) k = key_pendingRx st k"
    and "key_pendingTx (CleanupDeletedEntries order st) k = key_pendingTx st k"
  using assms unfolding CleanupDeletedEntries_def
  by (induction order arbitrary: st) (simp_all add: cleanup_key_ok cleanup_key_pending)

text \<open>One key of a collection moves that key's pending traffic into the response.\<close>

lemma collect_key_account:
  assumes "tracker_ok st" "collect_key reset key (st, out) = (st', out')"
  shows "tracker_ok st'"
    and "key_pendingRx st k = key_pendingRx st' k +
           (if reset then reported ''downlink'' k out' - reported ''downlink'' k out else 0)"
    and "key_pendingTx st k = key_pendingTx st' k +
           (if reset then reported ''uplink'' k out' - reported ''uplink'' k out else 0)"
proof -
  have pos: "0 \<le> pendingRx e \<and> 0 \<le> pendingTx e" if "st key = Some e" for e
    using that assms(1) pending_nonneg tracker_okD by blast
  have zero: "pendingRx (e\<lparr>en_BaseRx := en_CurrentRx e, en_BaseTx := en_CurrentTx e\<rparr>) = 0"
    "pendingTx (e\<lparr>en_BaseRx := en_CurrentRx e, en_BaseTx := en_CurrentTx e\<rparr>) = 0" for e
    by (simp_all add: pendingRx_def pendingTx_def is_i64_def)
  have ok: "entry_ok (e\<lparr>en_BaseRx := en_CurrentRx e, en_BaseTx := en_CurrentTx e\<rparr>)"
    if "st key = Some e" "\<not> en_IsDeleted e" for e
    using that assms(1) by (auto simp: entry_ok_def dir_ok_def dest!: tracker_okD)
  show "tracker_ok st'"
    using assms ok by (auto simp: collect_key_def tracker_ok_upd tracker_ok_delete split: option.splits if_splits)
  show "key_pendingRx st k = key_pendingRx st' k +
      (if reset then reported ''downlink'' k out' - reported ''downlink'' k out else 0)"
    using assms(2) pos zero
    by (auto simp: collect_key_def key_pending_defs reported_buildDeltaStats split: option.splits if_splits)
  show "key_pendingTx st k = key_pendingTx st' k +
      (if reset then reported ''uplink'' k out' - reported ''uplink'' k out else 0)"
    using assms(2) pos zero
    by (auto simp: collect_key_def key_pending_defs reported_buildDeltaStats split: option.splits if_splits)
qed

lemma collect_keys_account:
  assumes "tracker_ok st" "fold (collect_key reset) keys (st, out) = (st', out')"
  shows "tracker_ok st' \<and>
    key_pendingRx st k = key_pendingRx st' k +
           (if reset then reported ''downlink'' k out' - reported ''downlink'' k out else 0) \<and>
    key_pendingTx st k = key_pendingTx st' k +
           (if reset then reported ''uplink'' k out' - reported ''uplink'' k out else 0)"
  using assms
proof (induction keys arbitrary: st out)
  case Nil
  then show ?case by simp
next
  case (Cons key keys)
  obtain st1 out1 where 1: "collect_key reset key (st, out) = (st1, out1)"
    by fastforce
  note one = collect_key_account [OF Cons.prems(1) 1]
  from Cons.IH [OF one(1)] Cons.prems(2) 1 show ?case
    using one(2,3) [of k] by auto
qed

lemma balanced_collect: "balanced a \<Longrightarrow> balanced (account_collect keys reset a)"
proof -
  assume b: "balanced a"
  obtain st out where c: "Tracker_GetStats keys reset (ac_tracker a) = (st, out)"
    by fastforce
  have "tracker_ok st \<and>
    key_pendingRx (ac_tracker a) k = key_pendingRx st k + (if reset then reported ''downlink'' k out else 0) \<and>
    key_pendingTx (ac_tracker a) k = key_pendingTx st k + (if reset then reported ''uplink'' k out else 0)" for k
    using collect_keys_account [of "ac_tracker a" reset keys "[]" st out k] b c
    by (auto simp: Tracker_GetStats_def balanced_def)
  then show ?thesis
    using b by (simp add: balanced_def account_collect_def c)
qed

lemma tracker_run_balanced: "tracker_run a \<Longrightarrow> balanced a"
proof (induction rule: tracker_run.induct)
  case run_new
  show ?case
    by (simp add: balanced_def new_Ledger_def new_Tracker_def tracker_ok_def key_pending_defs)
next
  case (run_sample a s now)
  then show ?case by (intro balanced_sample)
next
  case (run_remove a k)
  then show ?case by (simp add: balanced_def RemoveStats_ok RemoveStats_pending)
next
  case (run_collect a keys reset)
  then show ?case by (intro balanced_collect)
next
  case (run_cleanup a order)
  then show ?case by (simp add: balanced_def CleanupDeletedEntries_ok)
qed

section \<open>Collections over any order\<close>

definition collected :: "bool \<Rightarrow> Entry \<Rightarrow> Entry option" where
  "collected reset e =
    (if \<not> reset then Some e
     else if en_IsDeleted e then None
     else Some (e\<lparr>en_BaseRx := en_CurrentRx e, en_BaseTx := en_CurrentTx e\<rparr>))"

definition entry_stats :: "Tracker \<Rightarrow> string \<Rightarrow> Stat list" where
  "entry_stats st key =
    (case st key of None \<Rightarrow> []
     | Some e \<Rightarrow> buildDeltaStats (en_Email e) key (pendingRx e) (pendingTx e))"

lemma collect_key_eq:
  "collect_key reset key (st, out) =
    (st(key := Option.bind (st key) (collected reset)), out @ entry_stats st key)"
  by (auto simp: collect_key_def collected_def entry_stats_def map_delete_def fun_eq_iff
      split: option.splits)

lemma collect_keys_eq:
  assumes "distinct keys"
  shows "fold (collect_key reset) keys (st, out) =
    (\<lambda>k. if k \<in> set keys then Option.bind (st k) (collected reset) else st k,
     out @ concat (map (entry_stats st) keys))"
  using assms
proof (induction keys arbitrary: st out)
  case Nil
  then show ?case by simp
next
  case (Cons key keys)
  have "entry_stats (st(key := x)) k = entry_stats st k" if "k \<in> set keys" for k x
    using that Cons.prems by (auto simp: entry_stats_def)
  then have eq: "map (entry_stats (st(key := x))) keys = map (entry_stats st) keys" for x
    by simp
  from Cons show ?case
    by (auto simp: collect_key_eq fun_eq_iff eq)
qed

lemma mset_concat_order:
  assumes "distinct ks" "distinct ks'" "set ks = set ks'"
  shows "mset (concat (map f ks)) = mset (concat (map f ks'))"
proof -
  have "mset ks = mset ks'"
    using assms by (simp add: set_eq_iff_mset_eq_distinct)
  then show ?thesis
    by (simp add: mset_concat flip: mset_map sum_mset_sum_list) (simp only: mset_map)
qed

lemma tracker_collected_pending:
  assumes "collected True e = Some e'"
  shows "pendingRx e' = 0 \<and> pendingTx e' = 0 \<and> \<not> en_IsDeleted e'"
  using assms by (auto simp: collected_def pendingRx_def pendingTx_def is_i64_def split: if_splits)

section \<open>Activity queries\<close>

lemma AnyActiveSince_iff:
  "AnyActiveSince keys cutoff st \<longleftrightarrow>
     (\<exists>k \<in> set keys. \<exists>e. st k = Some e \<and> cutoff < en_LastActiveTime e)"
  by (induction keys) (auto split: option.splits)

definition seen_at :: "Tracker \<Rightarrow> string list \<Rightarrow> string \<Rightarrow> int set" where
  "seen_at st keys ip =
    {unix_time (en_LastActiveTime e) | e k. k \<in> set keys \<and> st k = Some e \<and>
       en_EndpointIP e = ip \<and> ip \<noteq> [] \<and> en_LastActiveTime e \<noteq> 0}"

lemma seen_at_Nil [simp]: "seen_at st [] ip = {}"
  by (simp add: seen_at_def)

lemma seen_at_snoc:
  "seen_at st (keys @ [k]) ip = seen_at st keys ip \<union> seen_at st [k] ip"
  by (auto simp: seen_at_def)

lemma seen_at_single:
  "seen_at st [k] ip =
    (case st k of None \<Rightarrow> {}
     | Some e \<Rightarrow> if en_EndpointIP e = ip \<and> ip \<noteq> [] \<and> en_LastActiveTime e \<noteq> 0
                 then {unix_time (en_LastActiveTime e)} else {})"
  by (auto simp: seen_at_def split: option.splits)

lemma finite_seen_at: "finite (seen_at st keys ip)"
  by (induction keys rule: rev_induct)
     (auto simp: seen_at_snoc seen_at_single split: option.splits)

lemma EndpointActivity_snoc:
  "EndpointActivity (keys @ [k]) st = endpoint_step st k (EndpointActivity keys st)"
  by (simp add: EndpointActivity_def)

lemma EndpointActivity_Max:
  "EndpointActivity keys st ip =
    (if seen_at st keys ip = {} then None else Some (Max (seen_at st keys ip)))"
proof (induction keys rule: rev_induct)
  case Nil
  then show ?case by (simp add: EndpointActivity_def)
next
  case (snoc k keys)
  have fin: "finite (seen_at st keys x)" for x
    by (rule finite_seen_at)
  show ?case
    using snoc fin [of ip]
    by (auto simp: EndpointActivity_snoc endpoint_step_def seen_at_snoc seen_at_single Let_def max_def
        simp del: Max_less_iff split: option.splits if_splits)
qed

section \<open>Interface deltas over a run\<close>

fun delta_run :: "(int \<times> int) list \<Rightarrow> InterfaceCountersTracker \<Rightarrow>
    (int \<times> int) list \<times> InterfaceCountersTracker" where
  "delta_run [] t = ([], t)"
| "delta_run ((rx, tx) # xs) t =
    (let (d, t') = Delta rx tx True t; (ds, t'') = delta_run xs t' in (d # ds, t''))"

lemma Delta_first:
  "Delta rx tx reset NewInterfaceCountersTracker =
    ((0, 0), \<lparr>ic_baseRx = rx, ic_baseTx = tx, ic_baseSet = True\<rparr>)"
  by (simp add: Delta_def NewInterfaceCountersTracker_def Let_def is_i64_def)

lemma Delta_step:
  assumes "counter_ok rx" "counter_ok tx" "counter_ok (ic_baseRx t)" "counter_ok (ic_baseTx t)"
    "ic_baseSet t"
  shows "Delta rx tx True t =
    ((if rx < ic_baseRx t \<or> tx < ic_baseTx t then (0, 0) else (rx - ic_baseRx t, tx - ic_baseTx t)),
     \<lparr>ic_baseRx = rx, ic_baseTx = tx, ic_baseSet = True\<rparr>)"
  using assms by (auto simp: Delta_def Let_def i64_diff_counter is_i64_def)

lemma delta_run_sum:
  assumes "\<forall>(rx, tx) \<in> set xs. counter_ok rx \<and> counter_ok tx"
    and "counter_ok b" "counter_ok c"
    and "sorted (b # map fst xs)" "sorted (c # map snd xs)"
  shows "sum_list (map fst (fst (delta_run xs \<lparr>ic_baseRx = b, ic_baseTx = c, ic_baseSet = True\<rparr>))) =
      last (b # map fst xs) - b \<and>
    sum_list (map snd (fst (delta_run xs \<lparr>ic_baseRx = b, ic_baseTx = c, ic_baseSet = True\<rparr>))) =
      last (c # map snd xs) - c"
  using assms
proof (induction xs arbitrary: b c)
  case Nil
  then show ?case by simp
next
  case (Cons x xs)
  obtain rx tx where x: "x = (rx, tx)"
    by fastforce
  from Cons.prems have c: "counter_ok rx" "counter_ok tx" and le: "b \<le> rx" "c \<le> tx"
    by (auto simp: x)
  obtain ds t where r: "delta_run xs \<lparr>ic_baseRx = rx, ic_baseTx = tx, ic_baseSet = True\<rparr> = (ds, t)"
    by fastforce
  have "Delta rx tx True \<lparr>ic_baseRx = b, ic_baseTx = c, ic_baseSet = True\<rparr> =
      ((rx - b, tx - c), \<lparr>ic_baseRx = rx, ic_baseTx = tx, ic_baseSet = True\<rparr>)"
    using Delta_step [of rx tx "\<lparr>ic_baseRx = b, ic_baseTx = c, ic_baseSet = True\<rparr>"] c le Cons.prems
    by (simp add: not_less)
  moreover have "sum_list (map fst ds) = last (rx # map fst xs) - rx \<and>
      sum_list (map snd ds) = last (tx # map snd xs) - tx"
    using Cons.IH [of rx tx] Cons.prems c r by (auto simp: x)
  ultimately show ?case
    by (simp add: x r)
qed

section \<open>Properties\<close>

text \<open>C1. In every run of the tracker (samples, removals, collections with or without reset,
  clean-ups, in any order) the traffic credited to a key is exactly the traffic already
  reported for it by resetting collections plus what is still pending: no byte is reported
  twice and none is lost by removing, re-adding or cleaning up a peer. The pending amounts
  are never negative.\<close>

theorem tracker_conservation:
  assumes "tracker_run a"
  shows "ac_creditRx a k = ac_reportedRx a k + key_pendingRx (ac_tracker a) k \<and>
    ac_creditTx a k = ac_reportedTx a k + key_pendingTx (ac_tracker a) k \<and>
    0 \<le> key_pendingRx (ac_tracker a) k \<and> 0 \<le> key_pendingTx (ac_tracker a) k"
  using tracker_run_balanced [OF assms] pending_nonneg
  by (auto simp: balanced_def key_pending_defs tracker_ok_def split: option.splits)

definition ex_sample :: "int \<Rightarrow> int \<Rightarrow> Sample" where
  "ex_sample rx tx = \<lparr>sm_PublicKey = ''k'', sm_Email = ''u'', sm_Rx = rx, sm_Tx = tx,
     sm_EndpointIP = ''10.0.0.1''\<rparr>"

lemma ex_sample_fits: "sample_fits (new_Entry e) (ex_sample 10 4)"
  by (simp add: sample_fits_def sample_credit_def ex_sample_def new_Entry_def counter_ok_def)

theorem tracker_conservation_witness:
  "ac_creditRx (account_collect [''k''] True (account_sample (ex_sample 10 4) 7 new_Ledger)) ''k'' = 10 \<and>
   ac_reportedRx (account_collect [''k''] True (account_sample (ex_sample 10 4) 7 new_Ledger)) ''k'' = 10"
proof -
  let ?a = "account_collect [''k''] True (account_sample (ex_sample 10 4) 7 new_Ledger)"
  have "tracker_run ?a"
    by (intro run_collect run_sample run_new)
       (simp add: key_entry_def new_Ledger_def new_Tracker_def ex_sample_fits)
  note balance = tracker_conservation [OF this, of "''k''"]
  have credit: "ac_creditRx ?a ''k'' = 10"
    by (simp add: account_collect_def account_sample_def Let_def split_beta new_Ledger_def
        new_Tracker_def key_entry_def sample_credit_def ex_sample_def new_Entry_def)
  have "key_pendingRx (ac_tracker ?a) ''k'' = 0"
    by (simp add: account_collect_def account_sample_def Let_def new_Ledger_def
        new_Tracker_def key_pending_defs Tracker_GetStats_def collect_key_eq collected_def
        applySampleLocked_def ex_sample_def sample_entry_def new_Entry_def pendingRx_def is_i64_def)
  with balance credit show ?thesis by simp
qed

text \<open>A collection of all users gives the same tracker and the same stats, up to their
  order, whichever way the map is ranged over; with reset it forgets exactly the deleted
  entries and leaves every other one with nothing pending.\<close>

theorem GetUsersStats_any_order:
  assumes "enumerates order st" "enumerates order' st"
  shows "fst (GetUsersStats order reset st) = fst (GetUsersStats order' reset st) \<and>
    mset (snd (GetUsersStats order reset st)) = mset (snd (GetUsersStats order' reset st)) \<and>
    (\<forall>k e. fst (GetUsersStats order True st) k = Some e \<longrightarrow>
       pendingRx e = 0 \<and> pendingTx e = 0 \<and> \<not> en_IsDeleted e) \<and>
    (\<forall>k. fst (GetUsersStats order True st) k = None \<longleftrightarrow>
       (st k = None \<or> (\<exists>e. st k = Some e \<and> en_IsDeleted e)))"
proof (intro conjI allI impI)
  have d: "distinct order" "distinct order'" and s: "set order = dom st" "set order' = dom st"
    using assms by (auto simp: enumerates_def)
  have fst_eq: "fst (GetUsersStats ord r st) = (\<lambda>k. Option.bind (st k) (collected r))"
    if "distinct ord" "set ord = dom st" for ord r
    using that by (auto simp: GetUsersStats_def collect_keys_eq fun_eq_iff domIff)
  show "fst (GetUsersStats order reset st) = fst (GetUsersStats order' reset st)"
    using fst_eq d s by simp
  show "mset (snd (GetUsersStats order reset st)) = mset (snd (GetUsersStats order' reset st))"
    using mset_concat_order [OF d] s d by (simp add: GetUsersStats_def collect_keys_eq)
  show "pendingRx e = 0" "pendingTx e = 0" "\<not> en_IsDeleted e"
    if "fst (GetUsersStats order True st) k = Some e" for k e
    using that fst_eq d s by (auto simp: bind_eq_Some_conv dest: tracker_collected_pending)
  show "fst (GetUsersStats order True st) k = None \<longleftrightarrow>
      (st k = None \<or> (\<exists>e. st k = Some e \<and> en_IsDeleted e))" for k
    using fst_eq d s by (cases "st k") (auto simp: collected_def)
qed

theorem GetUsersStats_any_order_witness:
  "fst (GetUsersStats [''a'', ''b''] True [''a'' \<mapsto> new_Entry ''u'', ''b'' \<mapsto> new_Entry ''v'']) =
   fst (GetUsersStats [''b'', ''a''] True [''a'' \<mapsto> new_Entry ''u'', ''b'' \<mapsto> new_Entry ''v''])"
  using GetUsersStats_any_order
    [of "[''a'', ''b'']" "[''a'' \<mapsto> new_Entry ''u'', ''b'' \<mapsto> new_Entry ''v'']" "[''b'', ''a'']" True]
  by (auto simp: enumerates_def)

text \<open>Removing a peer takes it offline at once: it counts as active for no cutoff and
  contributes no endpoint, while its unreported traffic stays on the account and every other
  entry is left alone.\<close>

theorem RemoveStats_offline:
  assumes "0 \<le> cutoff"
  shows "\<not> AnyActiveSince [k] cutoff (RemoveStats k st) \<and>
    EndpointActivity [k] (RemoveStats k st) = Map.empty \<and>
    key_pendingRx (RemoveStats k st) k' = key_pendingRx st k' \<and>
    key_pendingTx (RemoveStats k st) k' = key_pendingTx st k' \<and>
    (k' \<noteq> k \<longrightarrow> RemoveStats k st k' = st k')"
proof (intro conjI impI)
  show "\<not> AnyActiveSince [k] cutoff (RemoveStats k st)"
    using assms by (auto simp: RemoveStats_def split: option.splits)
  show "EndpointActivity [k] (RemoveStats k st) = Map.empty"
    by (auto simp: EndpointActivity_def endpoint_step_def RemoveStats_def split: option.splits)
  show "RemoveStats k st k' = st k'" if "k' \<noteq> k"
    using that by (auto simp: RemoveStats_def split: option.splits)
qed (simp_all add: RemoveStats_pending)

theorem RemoveStats_offline_witness:
  "\<not> AnyActiveSince [''k''] 3 (RemoveStats ''k'' [''k'' \<mapsto> (new_Entry ''u'')\<lparr>en_LastActiveTime := 9\<rparr>])"
  using RemoveStats_offline [of 3 "''k''" "[''k'' \<mapsto> (new_Entry ''u'')\<lparr>en_LastActiveTime := 9\<rparr>]" "''k''"]
  by simp

text \<open>The endpoint map of some keys holds an address iff one of the keys was last active
  from it, and then the newest of the keys' timestamps.\<close>

theorem EndpointActivity_newest:
  "EndpointActivity keys st ip = Some ts \<longleftrightarrow> seen_at st keys ip \<noteq> {} \<and> ts = Max (seen_at st keys ip)"
  by (auto simp: EndpointActivity_Max)

text \<open>Node-level traffic: polled with reset over counters that never go back, the
  interface deltas add up to the growth of the counters since the first poll, in both
  directions, whatever the polling rhythm.\<close>

theorem interface_delta_telescopes:
  assumes "\<forall>(rx, tx) \<in> set ((rx0, tx0) # xs). counter_ok rx \<and> counter_ok tx"
    and "sorted (map fst ((rx0, tx0) # xs))" "sorted (map snd ((rx0, tx0) # xs))"
  shows "sum_list (map fst (fst (delta_run ((rx0, tx0) # xs) NewInterfaceCountersTracker))) =
           last (map fst ((rx0, tx0) # xs)) - rx0 \<and>
         sum_list (map snd (fst (delta_run ((rx0, tx0) # xs) NewInterfaceCountersTracker))) =
           last (map snd ((rx0, tx0) # xs)) - tx0"
proof -
  obtain ds t where r: "delta_run xs \<lparr>ic_baseRx = rx0, ic_baseTx = tx0, ic_baseSet = True\<rparr> = (ds, t)"
    by fastforce
  have "sum_list (map fst ds) = last (rx0 # map fst xs) - rx0 \<and>
      sum_list (map snd ds) = last (tx0 # map snd xs) - tx0"
    using delta_run_sum [of xs rx0 tx0] assms r by auto
  then show ?thesis
    by (simp add: Delta_first r)
qed

theorem interface_delta_telescopes_witness:
  "sum_list (map fst (fst (delta_run [(5, 1), (8, 1), (20, 6)] NewInterfaceCountersTracker))) = 15"
  using interface_delta_telescopes [of 5 1 "[(8, 1), (20, 6)]"] by (simp add: counter_ok_def)

end
