(* ===== verification/RateLimit.thy ===== *)
theory RateLimit
  imports Prelude
begin

unbundle bit_operations_syntax

text \<open>
  The traffic shaper, package \<open>backend/ratelimit\<close>: \<open>ratelimit.go\<close> (the manager and its
  reconciliation \<open>Apply\<close>), \<open>apply.go\<close> (tc classes, filters and the allocation of marks),
  \<open>nft.go\<close> (the mark chain) and \<open>ifaces_linux.go\<close> (the interfaces to shape).
  The commands \<open>tc\<close> and \<open>nft\<close> and the kernel's interface list lie outside the program: they are
  a parameter that answers from the whole history of calls, and the manager records that
  history in \<open>rl_trace\<close>.
\<close>

section \<open>Data\<close>

datatype Direction = Download | Upload

definition Direction_String :: "Direction \<Rightarrow> string" where
  "Direction_String d = (if d = Upload then ''up'' else ''down'')"

record Client =
  cl_User :: string
  cl_Address :: string
  cl_LimitKbps :: u32

text \<open>What the manager does to the outside world, in order.\<close>

datatype RlEvent = EvRun "string list" | EvNft "string list" | EvLinks

record Manager =
  rl_egress :: string
  rl_applied :: "string \<rightharpoonup> Client"
  rl_marks :: "string \<rightharpoonup> u32"
  rl_freed :: "u32 list"
  rl_nextMark :: u32
  rl_ifaceSet :: "string set"
  rl_trace :: "RlEvent list"

text \<open>
  The outside world: the error of a tc or nft command, the network interfaces with their
  up flag (\<open>None\<close> when they cannot be listed), and the order in which a \<open>range\<close> loop visits
  a set of keys.
\<close>

record RlEnv =
  env_run :: "RlEvent list \<Rightarrow> string list \<Rightarrow> string option"
  env_nft :: "RlEvent list \<Rightarrow> string list \<Rightarrow> string option"
  env_links :: "RlEvent list \<Rightarrow> (string \<times> bool) list option"
  env_order :: "RlEvent list \<Rightarrow> string set \<Rightarrow> string list"

definition firstMark :: u32 where "firstMark = 0x00100000"

definition markMask :: u32 where "markMask = 0x00ff0000"

definition maxClients :: u32 where "maxClients = 0xfe"

definition rl_New :: "string \<Rightarrow> Manager" where
  "rl_New iface =
    \<lparr>rl_egress = iface, rl_applied = Map.empty, rl_marks = Map.empty, rl_freed = [],
     rl_nextMark = firstMark, rl_ifaceSet = {}, rl_trace = []\<rparr>"

section \<open>Commands\<close>

definition runner_run :: "RlEnv \<Rightarrow> string list \<Rightarrow> Manager \<Rightarrow> string option \<times> Manager" where
  "runner_run env cmd m = (env_run env (rl_trace m) cmd, m\<lparr>rl_trace := rl_trace m @ [EvRun cmd]\<rparr>)"

definition rl_nft :: "RlEnv \<Rightarrow> string list \<Rightarrow> Manager \<Rightarrow> string option \<times> Manager" where
  "rl_nft env args m = (env_nft env (rl_trace m) args, m\<lparr>rl_trace := rl_trace m @ [EvNft args]\<rparr>)"

definition tunnelPrefixes :: "string list" where
  "tunnelPrefixes = [''wg'', ''tun'', ''ipsec'', ''gre'']"

definition shaping_link :: "string \<times> bool \<Rightarrow> string list \<Rightarrow> string list" where
  "shaping_link l out =
    (if \<not> snd l then out
     else if fst l \<in> set out then out
     else if list_ex (has_prefix (fst l)) tunnelPrefixes then out @ [fst l]
     else out)"

definition shapingInterfaces :: "RlEnv \<Rightarrow> Manager \<Rightarrow> string list \<times> Manager" where
  "shapingInterfaces env m =
    (case env_links env (rl_trace m) of
       None \<Rightarrow> [rl_egress m]
     | Some links \<Rightarrow> fold shaping_link links [rl_egress m],
     m\<lparr>rl_trace := rl_trace m @ [EvLinks]\<rparr>)"

definition classMinor :: "u32 \<Rightarrow> Direction \<Rightarrow> u32" where
  "classMinor mark dir =
    (let minor = ((mark AND 0xffff) + 1) * 2 in if dir = Upload then minor + 1 else minor)"

definition classID :: "u32 \<Rightarrow> Direction \<Rightarrow> string" where
  "classID mark dir = ''1:'' @ show_hex (unat (classMinor mark dir))"

definition markValue :: "u32 \<Rightarrow> Direction \<Rightarrow> u32" where
  "markValue mark dir = (if dir = Upload then mark OR 0x8000 else mark)"

definition commentFor :: "string \<Rightarrow> Direction \<Rightarrow> string" where
  "commentFor addr dir = ''HPX_NODE_rl '' @ addr @ '' '' @ Direction_String dir"

definition alreadyExists :: "string option \<Rightarrow> bool" where
  "alreadyExists err =
    (case err of
       None \<Rightarrow> False
     | Some e \<Rightarrow> str_contains (to_lower e) ''file exists'' \<or> str_contains (to_lower e) ''exclusivity flag'')"

definition ensureRoot :: "RlEnv \<Rightarrow> string \<Rightarrow> Manager \<Rightarrow> string option \<times> Manager" where
  "ensureRoot env iface m =
    (case runner_run env [''tc'', ''qdisc'', ''add'', ''dev'', iface, ''root'', ''handle'', ''1:'',
                          ''htb'', ''default'', ''1''] m of
       (err, m1) \<Rightarrow>
         (case err of
            Some e \<Rightarrow>
              if \<not> alreadyExists err
              then (Some (''install shaping root on '' @ iface @ '': '' @ e), m1)
              else runner_run env [''tc'', ''class'', ''replace'', ''dev'', iface, ''parent'', ''1:'',
                     ''classid'', ''1:1'', ''htb'', ''rate'', ''1000000mbit''] m1
          | None \<Rightarrow>
              runner_run env [''tc'', ''class'', ''replace'', ''dev'', iface, ''parent'', ''1:'',
                     ''classid'', ''1:1'', ''htb'', ''rate'', ''1000000mbit''] m1))"

definition class_cmd :: "string \<Rightarrow> u32 \<Rightarrow> Direction \<Rightarrow> u32 \<Rightarrow> string list" where
  "class_cmd iface mark dir kbps =
    (let rate = show_dec (unat kbps) @ ''kbit'' in
     [''tc'', ''class'', ''replace'', ''dev'', iface, ''parent'', ''1:'', ''classid'', classID mark dir,
      ''htb'', ''rate'', rate, ''ceil'', rate])"

definition filter_cmd :: "string \<Rightarrow> u32 \<Rightarrow> Direction \<Rightarrow> string list" where
  "filter_cmd iface mark dir =
    [''tc'', ''filter'', ''replace'', ''dev'', iface, ''parent'', ''1:'', ''protocol'', ''all'',
     ''prio'', ''1'', ''handle'', show_dec (unat (markValue mark dir)), ''fw'', ''flowid'', classID mark dir]"

definition ensureClass :: "RlEnv \<Rightarrow> string \<Rightarrow> u32 \<Rightarrow> Direction \<Rightarrow> u32 \<Rightarrow> Manager \<Rightarrow>
    string option \<times> Manager" where
  "ensureClass env iface mark dir kbps m =
    (case runner_run env (class_cmd iface mark dir kbps) m of
       (Some e, m1) \<Rightarrow> (Some e, m1)
     | (None, m1) \<Rightarrow> runner_run env (filter_cmd iface mark dir) m1)"

definition delClass :: "RlEnv \<Rightarrow> string \<Rightarrow> u32 \<Rightarrow> Direction \<Rightarrow> Manager \<Rightarrow> Manager" where
  "delClass env iface mark dir m =
    (let m1 = snd (runner_run env
               [''tc'', ''filter'', ''del'', ''dev'', iface, ''parent'', ''1:'', ''protocol'', ''all'',
                ''prio'', ''1'', ''handle'', show_dec (unat (markValue mark dir)), ''fw''] m)
     in snd (runner_run env [''tc'', ''class'', ''del'', ''dev'', iface, ''classid'', classID mark dir] m1))"

definition delRoot :: "RlEnv \<Rightarrow> string \<Rightarrow> Manager \<Rightarrow> Manager" where
  "delRoot env iface m = snd (runner_run env [''tc'', ''qdisc'', ''del'', ''dev'', iface, ''root''] m)"

definition allocMark :: "string \<Rightarrow> Manager \<Rightarrow> (string + u32) \<times> Manager" where
  "allocMark addr m =
    (case rl_marks m addr of
       Some mark \<Rightarrow> (Inr mark, m)
     | None \<Rightarrow>
         if rl_freed m \<noteq> []
         then let mark = last (rl_freed m)
              in (Inr mark, m\<lparr>rl_freed := butlast (rl_freed m), rl_marks := (rl_marks m)(addr \<mapsto> mark)\<rparr>)
         else if rl_nextMark m - firstMark \<ge> maxClients
         then (Inl (''too many shaped clients (max '' @ show_dec (unat maxClients) @ '')''), m)
         else let mark = rl_nextMark m
              in (Inr mark, m\<lparr>rl_nextMark := rl_nextMark m + 1, rl_marks := (rl_marks m)(addr \<mapsto> mark)\<rparr>))"

section \<open>The mark chain\<close>

definition ensureMarkChain :: "RlEnv \<Rightarrow> Manager \<Rightarrow> string option \<times> Manager" where
  "ensureMarkChain env m =
    (case rl_nft env [''add'', ''table'', ''inet'', ''pg_shaper''] m of
       (Some e, m1) \<Rightarrow> (Some e, m1)
     | (None, m1) \<Rightarrow> rl_nft env [''add'', ''chain'', ''inet'', ''pg_shaper'', ''shape'',
          ''{ type filter hook forward priority mangle ; policy accept ; }''] m1)"

definition mark_rule :: "string \<Rightarrow> u32 \<Rightarrow> Direction \<Rightarrow> string list" where
  "mark_rule addr mark dir =
    [''add'', ''rule'', ''inet'', ''pg_shaper'', ''shape'', ''ip'',
     (if dir = Upload then ''saddr'' else ''daddr''), addr,
     ''meta'', ''mark'', ''set'', ''0x'' @ show_hex (unat (markValue mark dir)),
     ''comment'', go_quote (commentFor addr dir)]"

fun sync_rules :: "RlEnv \<Rightarrow> string list list \<Rightarrow> Manager \<Rightarrow> string option \<times> Manager" where
  "sync_rules env [] m = (None, m)"
| "sync_rules env (r # rs) m =
    (case rl_nft env r m of (Some e, m1) \<Rightarrow> (Some e, m1) | (None, m1) \<Rightarrow> sync_rules env rs m1)"

definition addr_rules :: "Manager \<Rightarrow> string \<Rightarrow> string list list" where
  "addr_rules m addr =
    (case rl_marks m addr of
       None \<Rightarrow> []
     | Some mark \<Rightarrow> map (mark_rule addr mark) [Download, Upload])"

definition syncMarks :: "RlEnv \<Rightarrow> Manager \<Rightarrow> string option \<times> Manager" where
  "syncMarks env m =
    (case ensureMarkChain env m of
       (Some e, m1) \<Rightarrow> (Some e, m1)
     | (None, m1) \<Rightarrow>
        (case rl_nft env [''flush'', ''chain'', ''inet'', ''pg_shaper'', ''shape''] m1 of
           (Some e, m2) \<Rightarrow> (Some e, m2)
         | (None, m2) \<Rightarrow>
             sync_rules env
               (concat (map (addr_rules m2) (env_order env (rl_trace m2) (dom (rl_applied m2))))) m2))"

definition teardownMarks :: "RlEnv \<Rightarrow> Manager \<Rightarrow> Manager" where
  "teardownMarks env m = snd (rl_nft env [''delete'', ''table'', ''inet'', ''pg_shaper''] m)"

section \<open>Reconciliation\<close>

definition add_seen :: "string \<Rightarrow> string list \<Rightarrow> string list" where
  "add_seen i out = (if i \<in> set out then out else out @ [i])"

definition ifaceList :: "RlEnv \<Rightarrow> Manager \<Rightarrow> string list \<times> Manager" where
  "ifaceList env m =
    (let out1 = fold add_seen (env_order env (rl_trace m) (rl_ifaceSet m)) [];
         (ifs, m1) = shapingInterfaces env m
     in (fold add_seen ifs out1, m1))"

definition teardownAll :: "RlEnv \<Rightarrow> Manager \<Rightarrow> Manager" where
  "teardownAll env m =
    (let (ifs, m1) = ifaceList env m;
         m2 = fold (delRoot env) ifs m1;
         m3 = teardownMarks env m2
     in m3\<lparr>rl_applied := Map.empty, rl_marks := Map.empty, rl_freed := [],
           rl_nextMark := firstMark, rl_ifaceSet := {}\<rparr>)"

definition rl_Close :: "RlEnv \<Rightarrow> Manager \<Rightarrow> Manager" where
  "rl_Close env m = teardownAll env m"

definition wanted_step :: "Client \<Rightarrow> (string \<rightharpoonup> Client) \<Rightarrow> (string \<rightharpoonup> Client)" where
  "wanted_step c w = (if cl_Address c = [] \<or> cl_LimitKbps c = 0 then w else w(cl_Address c \<mapsto> c))"

definition wanted_clients :: "Client list \<Rightarrow> (string \<rightharpoonup> Client)" where
  "wanted_clients clients = fold wanted_step clients Map.empty"

text \<open>The body of the loop that drops clients no longer wanted.\<close>

definition drop_departed :: "RlEnv \<Rightarrow> (string \<rightharpoonup> Client) \<Rightarrow> string \<Rightarrow> Manager \<Rightarrow> Manager" where
  "drop_departed env wanted addr m =
    (if addr \<in> dom wanted then m
     else
       let m1 = (case rl_marks m addr of
                   None \<Rightarrow> m
                 | Some mark \<Rightarrow>
                     let (ifs, ma) = ifaceList env m;
                         mb = fold (\<lambda>iface. fold (delClass env iface mark) [Download, Upload]) ifs ma
                     in mb\<lparr>rl_marks := map_delete addr (rl_marks mb), rl_freed := rl_freed mb @ [mark]\<rparr>)
       in m1\<lparr>rl_applied := map_delete addr (rl_applied m1)\<rparr>)"

definition setErr :: "string option \<Rightarrow> string option \<Rightarrow> string option" where
  "setErr firstErr e = (case firstErr of None \<Rightarrow> e | Some _ \<Rightarrow> firstErr)"

text \<open>Running a fallible action for its error, keeping the first error.\<close>

definition try_step :: "(Manager \<Rightarrow> string option \<times> Manager) \<Rightarrow>
    string option \<times> Manager \<Rightarrow> string option \<times> Manager" where
  "try_step act s = (case s of (fe, m) \<Rightarrow> case act m of (e, m') \<Rightarrow> (setErr fe e, m'))"

definition shape_client :: "RlEnv \<Rightarrow> string list \<Rightarrow> (string \<rightharpoonup> Client) \<Rightarrow> string \<Rightarrow>
    string option \<times> Manager \<Rightarrow> string option \<times> Manager" where
  "shape_client env ifaces wanted addr s =
    (case s of (fe, m) \<Rightarrow>
      (case wanted addr of
         None \<Rightarrow> s
       | Some c \<Rightarrow>
           (case allocMark addr m of
              (Inl e, m1) \<Rightarrow> (setErr fe (Some e), m1)
            | (Inr mark, m1) \<Rightarrow>
                (case fold (\<lambda>iface. fold (\<lambda>dir. try_step (ensureClass env iface mark dir (cl_LimitKbps c)))
                                        [Download, Upload]) ifaces (fe, m1) of
                   (fe2, m2) \<Rightarrow> (fe2, m2\<lparr>rl_applied := (rl_applied m2)(addr \<mapsto> c)\<rparr>)))))"

definition rl_Apply :: "RlEnv \<Rightarrow> Client list \<Rightarrow> Manager \<Rightarrow> string option \<times> Manager" where
  "rl_Apply env clients m =
    (let wanted = wanted_clients clients;
         (ifaces, m1) = shapingInterfaces env m;
         m2 = fold (drop_departed env wanted) (env_order env (rl_trace m1) (dom (rl_applied m1))) m1
     in if dom wanted = {} then (None, teardownAll env m2)
        else
          let s3 = fold (\<lambda>iface. try_step (ensureRoot env iface)) ifaces (None, m2);
              addrs = sort (env_order env (rl_trace (snd s3)) (dom wanted));
              (fe4, m4) = fold (shape_client env ifaces wanted) addrs s3;
              m5 = m4\<lparr>rl_ifaceSet := set ifaces\<rparr>;
              (e6, m6) = syncMarks env m5
          in (setErr fe4 e6, m6))"

section \<open>Marks and class identifiers\<close>

lemma unat_and_ffff: "unat ((w :: u32) AND 0xffff) = unat w mod 65536"
proof -
  have "w AND 0xffff = take_bit 16 w"
    by (simp add: take_bit_eq_mask mask_eq_exp_minus_1)
  then have "unat (w AND 0xffff) = take_bit 16 (unat w)"
    by (simp only: unsigned_take_bit_eq)
  then show ?thesis
    by (simp add: take_bit_eq_mod)
qed

lemma and_exp_0: "\<not> bit (w :: u32) n \<Longrightarrow> w AND 2 ^ n = 0"
  by (rule bit_word_eqI) (auto simp: bit_and_iff bit_exp_iff)

lemma unat_or_8000:
  assumes "even (unat (w :: u32) div 32768)" "unat w < 2 ^ 31"
  shows "unat (w OR 0x8000) = unat w + 32768"
proof -
  have "\<not> bit (unat w) 15"
    using assms(1) by (simp add: bit_iff_odd)
  then have b: "\<not> bit w 15"
    by (simp add: bit_unsigned_iff)
  from b have "w AND 2 ^ 15 = 0"
    by (rule and_exp_0)
  then have "w OR 2 ^ 15 = w + 2 ^ 15"
    by (rule disjunctive_add_eq_or [symmetric])
  then show ?thesis
    using assms(2) by (simp add: unat_word_ariths)
qed

lemma unat_mark: "i < 254 \<Longrightarrow> unat (firstMark + word_of_nat i) = 1048576 + i"
  by (simp add: firstMark_def unat_word_ariths unat_of_nat)

lemma unat_classMinor:
  assumes "i < 254"
  shows "unat (classMinor (firstMark + word_of_nat i) dir) = 2 * (i + 1) + (if dir = Upload then 1 else 0)"
proof -
  let ?w = "(firstMark + word_of_nat i) AND (0xffff :: u32)"
  have "(i + 16 * 65536) mod 65536 = i"
    using assms by (simp only: mod_mult_self1) simp
  then have i: "unat ?w = i"
    using assms by (simp add: unat_and_ffff unat_mark add.commute)
  then have w: "?w = word_of_nat i"
    by (metis of_nat_unat ucast_id)
  have "classMinor (firstMark + word_of_nat i) dir =
      word_of_nat (2 * (i + 1) + (if dir = Upload then 1 else 0))"
    by (simp add: classMinor_def w Let_def algebra_simps)
  moreover have small: "unat (word_of_nat k :: u32) = k" if "k < 1000" for k
    using that by (simp add: unat_of_nat)
  ultimately show ?thesis
    using assms by (simp only:) (rule small, simp)
qed

lemma unat_markValue:
  assumes "i < 254"
  shows "unat (markValue (firstMark + word_of_nat i) dir) = 1048576 + i + (if dir = Upload then 32768 else 0)"
proof -
  have "(i + 32 * 32768) div 32768 = 32 + i div 32768"
    by (rule div_mult_self1) simp
  then have "even ((1048576 + i) div 32768)"
    using assms by (simp add: add.commute)
  then show ?thesis
    using assms unat_or_8000 [of "firstMark + word_of_nat i"]
    by (simp add: markValue_def unat_mark)
qed

section \<open>The manager's invariant\<close>

text \<open>
  \<open>mark_range n\<close> are the marks handed out so far. The marks in use and the freed ones
  partition it, no two clients share one, and exactly the applied clients hold one.
\<close>

definition mark_range :: "nat \<Rightarrow> u32 set" where
  "mark_range n = (\<lambda>i. firstMark + word_of_nat i) ` {..<n}"

definition marks_inv :: "Manager \<Rightarrow> bool" where
  "marks_inv m \<longleftrightarrow>
     finite (dom (rl_marks m)) \<and> inj_on (rl_marks m) (dom (rl_marks m)) \<and>
     distinct (rl_freed m) \<and> ran (rl_marks m) \<inter> set (rl_freed m) = {} \<and>
     (\<exists>n \<le> 254. rl_nextMark m = firstMark + word_of_nat n \<and>
        ran (rl_marks m) \<union> set (rl_freed m) = mark_range n)"

definition manager_inv :: "Manager \<Rightarrow> bool" where
  "manager_inv m \<longleftrightarrow> marks_inv m \<and> dom (rl_applied m) = dom (rl_marks m)"

lemma mark_range_inj: "n \<le> 254 \<Longrightarrow> inj_on (\<lambda>i. firstMark + word_of_nat i) {..<n}"
  by (rule inj_onI) (metis lessThan_iff order_less_le_trans unat_mark add_left_cancel)

lemma card_mark_range: "n \<le> 254 \<Longrightarrow> card (mark_range n) = n"
  by (simp add: mark_range_def card_image mark_range_inj)

lemma mark_range_Suc: "mark_range (Suc n) = insert (firstMark + word_of_nat n) (mark_range n)"
  by (auto simp: mark_range_def lessThan_Suc)

lemma mark_fresh: "n < 254 \<Longrightarrow> firstMark + word_of_nat n \<notin> mark_range n"
proof
  assume n: "n < 254" "firstMark + word_of_nat n \<in> mark_range n"
  then obtain i where i: "i < n" "firstMark + word_of_nat n = firstMark + (word_of_nat i :: u32)"
    by (auto simp: mark_range_def)
  with n have "1048576 + n = 1048576 + i"
    using unat_mark [of n] unat_mark [of i] by auto
  with i show False by simp
qed

lemma marks_invD:
  assumes "marks_inv m" "rl_marks m a = Some mark"
  shows "\<exists>i < 254. mark = firstMark + word_of_nat i"
proof -
  from assms(1) obtain n where n: "n \<le> 254"
    "ran (rl_marks m) \<union> set (rl_freed m) = mark_range n"
    by (auto simp: marks_inv_def)
  from assms(2) have "mark \<in> ran (rl_marks m)" by (rule ranI)
  with n have "mark \<in> mark_range n" by blast
  then obtain i where "i < n" "mark = firstMark + word_of_nat i" by (auto simp: mark_range_def)
  with n(1) show ?thesis by (intro exI [of _ i]) simp
qed

lemma ran_inj_card: "finite (dom f) \<Longrightarrow> inj_on f (dom f) \<Longrightarrow> card (ran f) = card (dom f)"
proof -
  assume f: "finite (dom f)" "inj_on f (dom f)"
  have "Some ` ran f = f ` dom f"
    by (force simp: ran_def image_def dom_def)
  then have "card (Some ` ran f) = card (f ` dom f)" by simp
  with f show ?thesis by (simp add: card_image)
qed

lemma marks_count:
  assumes "marks_inv m"
  shows "\<exists>n \<le> 254. rl_nextMark m = firstMark + word_of_nat n \<and>
    card (dom (rl_marks m)) + length (rl_freed m) = n"
proof -
  from assms obtain n where n: "n \<le> 254" "rl_nextMark m = firstMark + word_of_nat n"
    "ran (rl_marks m) \<union> set (rl_freed m) = mark_range n"
    by (auto simp: marks_inv_def)
  have "finite (ran (rl_marks m))"
    using assms by (auto simp: marks_inv_def intro: finite_ran)
  then have "card (ran (rl_marks m)) + card (set (rl_freed m)) = n"
    using n assms card_mark_range by (metis card_Un_disjoint List.finite_set marks_inv_def)
  then show ?thesis
    using n assms by (metis marks_inv_def ran_inj_card distinct_card)
qed

section \<open>What each operation keeps\<close>

text \<open>Every command only extends the trace; the rest of the manager is its core.\<close>

definition core :: "Manager \<Rightarrow> Manager" where
  "core m = m\<lparr>rl_trace := []\<rparr>"

named_theorems core_simps \<open>operations that change the trace only\<close>

lemma core_fields:
  assumes "core m = core m'"
  shows "rl_marks m = rl_marks m'" "rl_freed m = rl_freed m'" "rl_nextMark m = rl_nextMark m'"
    "rl_applied m = rl_applied m'" "rl_ifaceSet m = rl_ifaceSet m'" "rl_egress m = rl_egress m'"
  using assms by (cases m; cases m'; simp add: core_def)+

lemma core_inv:
  assumes "core m = core m'"
  shows "marks_inv m = marks_inv m'" "manager_inv m = manager_inv m'"
  using core_fields [OF assms] by (simp_all add: marks_inv_def manager_inv_def)

lemma core_fold: "(\<And>x m. core (f x m) = core m) \<Longrightarrow> core (fold f xs m) = core m"
  by (induction xs arbitrary: m) auto

lemma core_fold_snd: "(\<And>x s. core (snd (f x s)) = core (snd s)) \<Longrightarrow> core (snd (fold f xs s)) = core (snd s)"
  by (induction xs arbitrary: s) auto

lemma core_run [core_simps]: "core (snd (runner_run env c m)) = core m"
  by (simp add: runner_run_def core_def)

lemma core_nft [core_simps]: "core (snd (rl_nft env c m)) = core m"
  by (simp add: rl_nft_def core_def)

lemma core_shapingInterfaces [core_simps]: "core (snd (shapingInterfaces env m)) = core m"
  by (simp add: shapingInterfaces_def core_def)

lemma core_ifaceList [core_simps]: "core (snd (ifaceList env m)) = core m"
  by (simp add: ifaceList_def split_beta Let_def core_shapingInterfaces)

lemma core_delClass [core_simps]: "core (delClass env iface mark dir m) = core m"
  by (simp add: delClass_def Let_def core_run)

lemma core_delRoot [core_simps]: "core (delRoot env iface m) = core m"
  by (simp add: delRoot_def core_run)

lemma core_ensureRoot [core_simps]: "core (snd (ensureRoot env iface m)) = core m"
  by (simp add: ensureRoot_def split_beta core_run split: option.splits)

lemma core_ensureClass [core_simps]: "core (snd (ensureClass env iface mark dir kbps m)) = core m"
  by (auto simp: ensureClass_def split_beta core_run split: option.splits prod.splits)

lemma core_try_step: "(\<And>m. core (snd (act m)) = core m) \<Longrightarrow> core (snd (try_step act s)) = core (snd s)"
  by (simp add: try_step_def split_beta)

lemma core_sync_rules [core_simps]: "core (snd (sync_rules env rs m)) = core m"
proof (induction rs arbitrary: m)
  case (Cons r rs)
  then show ?case
    using core_nft [of env r m] by (auto split: prod.splits option.splits)
qed simp

lemma core_ensureMarkChain [core_simps]: "core (snd (ensureMarkChain env m)) = core m"
  by (auto simp: ensureMarkChain_def split_beta core_nft split: prod.splits option.splits)

lemma core_syncMarks [core_simps]: "core (snd (syncMarks env m)) = core m"
proof -
  have flush: "core m2 = core m1" if "rl_nft env c m1 = (e, m2)" for c e m1 m2
    using that core_nft [of env c m1] by simp
  have chain: "core m1 = core m" if "ensureMarkChain env m = (e, m1)" for e m1
    using that core_ensureMarkChain [of env m] by simp
  show ?thesis
    by (auto simp: syncMarks_def core_sync_rules dest!: flush chain split: prod.splits option.splits)
qed

lemma core_teardownMarks [core_simps]: "core (teardownMarks env m) = core m"
  by (simp add: teardownMarks_def core_nft)

lemma core_teardownAll:
  "core (teardownAll env m) = core (rl_New (rl_egress m))"
proof -
  obtain ifs m1 where i: "ifaceList env m = (ifs, m1)"
    by fastforce
  define m2 where "m2 = teardownMarks env (fold (delRoot env) ifs m1)"
  have "core m2 = core m1"
    by (simp add: m2_def core_teardownMarks core_fold core_delRoot)
  also have "core m1 = core m"
    using core_ifaceList [of env m] i by simp
  finally have "rl_egress m2 = rl_egress m"
    by (rule core_fields)
  then show ?thesis
    by (cases m2) (simp add: teardownAll_def i m2_def [symmetric] core_def rl_New_def)
qed

lemma manager_inv_New: "manager_inv (rl_New iface)"
  by (auto simp: manager_inv_def marks_inv_def rl_New_def mark_range_def intro: exI [of _ 0])

lemma ran_map_delete_inj:
  "inj_on f (dom f) \<Longrightarrow> f a = Some v \<Longrightarrow> ran (map_delete a f) = ran f - {v}"
  by (fastforce simp: ran_def inj_on_def dom_def split: if_splits)

lemma drop_departed_keep: "addr \<in> dom wanted \<Longrightarrow> drop_departed env wanted addr m = m"
  by (simp add: drop_departed_def)

lemma drop_departed_drop:
  assumes "manager_inv m" "addr \<notin> dom wanted"
  shows "manager_inv (drop_departed env wanted addr m)"
    and "rl_marks (drop_departed env wanted addr m) = map_delete addr (rl_marks m)"
    and "rl_applied (drop_departed env wanted addr m) = map_delete addr (rl_applied m)"
proof -
  let ?d = "drop_departed env wanted addr m"
  have "manager_inv ?d \<and> rl_marks ?d = map_delete addr (rl_marks m) \<and>
      rl_applied ?d = map_delete addr (rl_applied m)"
  proof (cases "rl_marks m addr")
    case None
    then have d: "?d = m\<lparr>rl_applied := map_delete addr (rl_applied m)\<rparr>"
      using assms(2) by (simp add: drop_departed_def)
    have "map_delete addr (rl_marks m) = rl_marks m"
      using None by (simp add: fun_eq_iff)
    then show ?thesis
      using assms(1) None by (auto simp: d manager_inv_def marks_inv_def)
  next
    case (Some mark)
    obtain ifs ma where i: "ifaceList env m = (ifs, ma)" by fastforce
    define mb where "mb = fold (\<lambda>iface. fold (delClass env iface mark) [Download, Upload]) ifs ma"
    have mb': "fold (\<lambda>iface. delClass env iface mark Upload \<circ> delClass env iface mark Download) ifs ma = mb"
      by (simp add: mb_def)
    have "core mb = core ma"
      unfolding mb_def by (rule core_fold) (simp add: core_delClass)
    also have "core ma = core m"
      using core_ifaceList [of env m] i by simp
    finally have eq: "core mb = core m" .
    note f = core_fields [OF eq]
    have d: "?d = mb\<lparr>rl_marks := map_delete addr (rl_marks m), rl_freed := rl_freed m @ [mark],
        rl_applied := map_delete addr (rl_applied m)\<rparr>"
      using assms(2) Some f by (simp add: drop_departed_def i Let_def mb')
    have inv: "marks_inv m" and dom: "dom (rl_applied m) = dom (rl_marks m)"
      using assms(1) by (auto simp: manager_inv_def)
    have "mark \<in> ran (rl_marks m)"
      using Some by (rule ranI)
    then have "marks_inv ?d"
      using inv Some f(3)
      by (auto simp: d marks_inv_def ran_map_delete_inj inj_on_def split: if_splits)
    then show ?thesis
      using dom by (simp add: manager_inv_def d)
  qed
  then show "manager_inv ?d" "rl_marks ?d = map_delete addr (rl_marks m)"
    "rl_applied ?d = map_delete addr (rl_applied m)"
    by blast+
qed

lemma drop_departed_all:
  assumes "manager_inv m"
  shows "manager_inv (fold (drop_departed env wanted) order m) \<and>
    rl_marks (fold (drop_departed env wanted) order m) =
      (\<lambda>a. if a \<in> set order \<and> a \<notin> dom wanted then None else rl_marks m a) \<and>
    rl_applied (fold (drop_departed env wanted) order m) =
      (\<lambda>a. if a \<in> set order \<and> a \<notin> dom wanted then None else rl_applied m a)"
  using assms
proof (induction order arbitrary: m)
  case Nil
  then show ?case by simp
next
  case (Cons a order)
  show ?case
  proof (cases "a \<in> dom wanted")
    case True
    with Cons show ?thesis by (auto simp: drop_departed_keep fun_eq_iff)
  next
    case False
    note d = drop_departed_drop [OF Cons.prems False, of env]
    from Cons.IH [OF d(1)] show ?thesis
      using False by (auto simp: d(2,3) fun_eq_iff)
  qed
qed

lemma allocMark_Inr:
  assumes "marks_inv m" "allocMark addr m = (Inr mark, m')"
  shows "marks_inv m' \<and> rl_marks m' = (rl_marks m)(addr \<mapsto> mark) \<and> rl_applied m' = rl_applied m \<and>
    (\<forall>x. rl_marks m addr = Some x \<longrightarrow> mark = x)"
proof (cases "rl_marks m addr")
  case (Some x)
  with assms show ?thesis by (auto simp: allocMark_def)
next
  case None
  from assms(1) obtain n where n: "n \<le> 254" "rl_nextMark m = firstMark + word_of_nat n"
    and part: "ran (rl_marks m) \<union> set (rl_freed m) = mark_range n"
    by (auto simp: marks_inv_def)
  have ran: "ran ((rl_marks m)(addr \<mapsto> v)) = insert v (ran (rl_marks m))" for v
    using None by (rule ran_map_upd)
  have inj: "inj_on ((rl_marks m)(addr \<mapsto> v)) (dom ((rl_marks m)(addr \<mapsto> v)))"
    if "v \<notin> ran (rl_marks m)" for v
    using that assms(1) None by (auto simp: marks_inv_def inj_on_def ran_def)
  show ?thesis
  proof (cases "rl_freed m" rule: rev_cases)
    case Nil
    have "word_of_nat n < maxClients"
      using assms(2) None Nil n(2) by (auto simp: allocMark_def split: if_splits)
    then have lt: "n < 254"
      using n(1) by (simp add: maxClients_def word_less_nat_alt unat_of_nat)
    have m': "mark = firstMark + word_of_nat n"
      "m' = m\<lparr>rl_nextMark := firstMark + word_of_nat n + 1, rl_marks := (rl_marks m)(addr \<mapsto> mark)\<rparr>"
      using assms(2) None Nil n(2) by (auto simp: allocMark_def Let_def split: if_splits)
    have fresh: "mark \<notin> mark_range n"
      using mark_fresh [OF lt] m'(1) by simp
    have "firstMark + word_of_nat n + 1 = firstMark + (word_of_nat (Suc n) :: u32)"
      by simp
    with lt part fresh inj [of mark] Nil None assms(1) show ?thesis
      by (auto simp: m' marks_inv_def ran mark_range_Suc intro!: exI [of _ "Suc n"])
  next
    case (snoc fs v)
    have m': "mark = v" "m' = m\<lparr>rl_freed := fs, rl_marks := (rl_marks m)(addr \<mapsto> v)\<rparr>"
      using assms(2) None snoc by (auto simp: allocMark_def Let_def)
    have v: "v \<notin> ran (rl_marks m)" "v \<notin> set fs"
      using assms(1) snoc by (auto simp: marks_inv_def)
    show ?thesis
      using n part inj [OF v(1)] v snoc None assms(1)
      by (auto simp: m' marks_inv_def ran intro!: exI [of _ n])
  qed
qed

lemma allocMark_Inl:
  assumes "marks_inv m" "allocMark addr m = (Inl e, m')"
  shows "m' = m \<and> rl_marks m addr = None \<and> card (dom (rl_marks m)) = 254"
proof -
  have none: "rl_marks m addr = None" and nil: "rl_freed m = []" and m': "m' = m"
    and full: "rl_nextMark m - firstMark \<ge> maxClients"
    using assms(2) by (auto simp: allocMark_def Let_def split: option.splits if_splits)
  from marks_count [OF assms(1)] obtain n where n: "n \<le> 254" "rl_nextMark m = firstMark + word_of_nat n"
    "card (dom (rl_marks m)) = n"
    using nil by auto
  from full n(1,2) have "254 \<le> n"
    by (simp add: maxClients_def word_le_nat_alt unat_of_nat)
  with n none m' show ?thesis by simp
qed

text \<open>Shaping one wanted client either applies it with a mark, or finds all 254 marks in use.\<close>

lemma shape_client_step:
  assumes inv: "manager_inv m" and c: "wanted addr = Some c"
    and step: "shape_client env ifaces wanted addr (fe, m) = (fe', m')"
  shows "manager_inv m' \<and> rl_marks m \<subseteq>\<^sub>m rl_marks m' \<and>
    (rl_applied m' = (rl_applied m)(addr \<mapsto> c) \<or>
     m' = m \<and> addr \<notin> dom (rl_applied m) \<and> card (dom (rl_applied m)) = 254)"
proof -
  have mi: "marks_inv m" and dom: "dom (rl_applied m) = dom (rl_marks m)"
    using inv by (auto simp: manager_inv_def)
  obtain r m1 where a: "allocMark addr m = (r, m1)" by fastforce
  show ?thesis
  proof (cases r)
    case (Inl e)
    with allocMark_Inl [OF mi] a have "m1 = m \<and> rl_marks m addr = None \<and> card (dom (rl_marks m)) = 254"
      by auto
    with inv c dom step a Inl show ?thesis by (auto simp: shape_client_def domIff)
  next
    case (Inr mark)
    with allocMark_Inr [OF mi] a have m1: "marks_inv m1" "rl_marks m1 = (rl_marks m)(addr \<mapsto> mark)"
      "rl_applied m1 = rl_applied m" "\<forall>x. rl_marks m addr = Some x \<longrightarrow> mark = x"
      by auto
    let ?f = "fold (\<lambda>iface. fold (\<lambda>dir. try_step (ensureClass env iface mark dir (cl_LimitKbps c)))
        [Download, Upload]) ifaces (fe, m1)"
    have "core (snd ?f) = core (snd (fe, m1))"
      by (rule core_fold_snd) (simp add: core_try_step core_ensureClass)
    then have eq: "core (snd ?f) = core m1" by simp
    have m': "m' = (snd ?f)\<lparr>rl_applied := (rl_applied (snd ?f))(addr \<mapsto> c)\<rparr>"
      using step c a Inr by (auto simp: shape_client_def split: prod.splits)
    have "marks_inv m' = marks_inv (snd ?f)"
      by (simp add: m' marks_inv_def)
    then have "marks_inv m'"
      using core_inv(1) [OF eq] m1(1) by simp
    then show ?thesis
      using core_fields [OF eq] m1 dom
      by (auto simp: m' manager_inv_def map_le_def)
  qed
qed

lemma shape_clients_inv:
  assumes "manager_inv (snd s)" "set addrs \<subseteq> dom wanted"
  shows "manager_inv (snd (fold (shape_client env ifaces wanted) addrs s)) \<and>
    rl_marks (snd s) \<subseteq>\<^sub>m rl_marks (snd (fold (shape_client env ifaces wanted) addrs s))"
  using assms
proof (induction addrs arbitrary: s)
  case Nil
  then show ?case by simp
next
  case (Cons a addrs)
  obtain fe m where s: "s = (fe, m)" by fastforce
  obtain fe' m' where s': "shape_client env ifaces wanted a (fe, m) = (fe', m')" by fastforce
  obtain c where c: "wanted a = Some c" using Cons.prems by auto
  have one: "manager_inv m' \<and> rl_marks m \<subseteq>\<^sub>m rl_marks m'"
    using shape_client_step [where env = env and ifaces = ifaces, of m wanted a c fe fe' m']
      Cons.prems(1) c s' s by auto
  with Cons.IH [of "(fe', m')"] Cons.prems(2) show ?case
    by (auto simp: s s' intro: map_le_trans)
qed

lemma shape_clients_exact:
  assumes "manager_inv (snd s)" "set addrs \<subseteq> dom wanted"
    and "dom (rl_applied (snd s)) \<subseteq> dom wanted" "finite (dom wanted)" "card (dom wanted) \<le> 254"
  shows "rl_applied (snd (fold (shape_client env ifaces wanted) addrs s)) =
      (\<lambda>a. if a \<in> set addrs then wanted a else rl_applied (snd s) a)"
  using assms
proof (induction addrs arbitrary: s)
  case Nil
  then show ?case by simp
next
  case (Cons a addrs)
  obtain fe m where s: "s = (fe, m)" by fastforce
  obtain fe' m' where s': "shape_client env ifaces wanted a (fe, m) = (fe', m')" by fastforce
  obtain c where c: "wanted a = Some c" using Cons.prems by auto
  have one: "manager_inv m'" and alt: "rl_applied m' = (rl_applied m)(a \<mapsto> c) \<or>
      a \<notin> dom (rl_applied m) \<and> card (dom (rl_applied m)) = 254"
    using shape_client_step [where env = env and ifaces = ifaces, of m wanted a c fe fe' m']
      Cons.prems(1) c s' s by auto
  have "\<not> (a \<notin> dom (rl_applied m) \<and> card (dom (rl_applied m)) = 254)"
  proof
    assume full: "a \<notin> dom (rl_applied m) \<and> card (dom (rl_applied m)) = 254"
    have sub: "insert a (dom (rl_applied m)) \<subseteq> dom wanted"
      using Cons.prems(3) c s by auto
    then have "finite (dom (rl_applied m))"
      using Cons.prems(4) by (meson finite_subset subset_insertI subset_trans)
    with full card_mono [OF Cons.prems(4) sub] Cons.prems(5) show False by simp
  qed
  with alt have app: "rl_applied m' = (rl_applied m)(a \<mapsto> c)" by blast
  have "dom (rl_applied m') \<subseteq> dom wanted"
    using Cons.prems(3) c s app by auto
  then have "rl_applied (snd (fold (shape_client env ifaces wanted) addrs (fe', m'))) =
      (\<lambda>b. if b \<in> set addrs then wanted b else rl_applied m' b)"
    using Cons.IH [of "(fe', m')"] one Cons.prems(2,4,5) by (simp add: fun_eq_iff)
  then show ?case
    using c by (auto simp: s s' app fun_eq_iff)
qed

section \<open>Applying a set of clients\<close>

text \<open>What the language promises of a \<open>range\<close> loop: each key once.\<close>

definition env_ok :: "RlEnv \<Rightarrow> bool" where
  "env_ok env \<longleftrightarrow> (\<forall>tr S. finite S \<longrightarrow> distinct (env_order env tr S) \<and> set (env_order env tr S) = S)"

lemma env_okD: "env_ok env \<Longrightarrow> finite S \<Longrightarrow> set (env_order env tr S) = S"
  "env_ok env \<Longrightarrow> finite S \<Longrightarrow> distinct (env_order env tr S)"
  by (simp_all add: env_ok_def)

lemma wanted_finite: "finite (dom (wanted_clients cs))"
proof -
  have "finite (dom w) \<Longrightarrow> finite (dom (fold wanted_step cs w))" for w
    by (induction cs arbitrary: w) (auto simp: wanted_step_def)
  then show ?thesis by (simp add: wanted_clients_def)
qed

lemma core_ensureRoots: "core (snd (fold (\<lambda>iface. try_step (ensureRoot env iface)) ifs s)) = core (snd s)"
  by (rule core_fold_snd) (simp add: core_try_step core_ensureRoot)

text \<open>The stages of \<open>Apply\<close> when some client is wanted.\<close>

lemma rl_Apply_stages:
  assumes inv: "manager_inv m" and ok: "env_ok env" and ne: "dom (wanted_clients cs) \<noteq> {}"
  shows "\<exists>fe4 m4 ifs.
    manager_inv m4 \<and>
    (\<forall>a \<in> dom (rl_marks m) \<inter> dom (wanted_clients cs). rl_marks m4 a = rl_marks m a) \<and>
    (card (dom (wanted_clients cs)) \<le> 254 \<longrightarrow> rl_applied m4 = wanted_clients cs) \<and>
    rl_Apply env cs m = (case syncMarks env (m4\<lparr>rl_ifaceSet := set ifs\<rparr>) of (e, m6) \<Rightarrow> (setErr fe4 e, m6))"
proof -
  let ?w = "wanted_clients cs"
  obtain ifs m1 where i: "shapingInterfaces env m = (ifs, m1)" by fastforce
  have c1: "core m1 = core m" using core_shapingInterfaces [of env m] i by simp
  then have inv1: "manager_inv m1" using core_inv(2) inv by blast
  note f1 = core_fields [OF c1]
  let ?ord = "env_order env (rl_trace m1) (dom (rl_applied m1))"
  define m2 where "m2 = fold (drop_departed env ?w) ?ord m1"
  have fin: "finite (dom (rl_applied m1))"
    using inv1 by (simp add: manager_inv_def marks_inv_def)
  have ord: "set ?ord = dom (rl_applied m1)" using env_okD(1) [OF ok fin] .
  have d2: "manager_inv m2"
    "rl_marks m2 = (\<lambda>a. if a \<in> set ?ord \<and> a \<notin> dom ?w then None else rl_marks m1 a)"
    "rl_applied m2 = (\<lambda>a. if a \<in> set ?ord \<and> a \<notin> dom ?w then None else rl_applied m1 a)"
    using drop_departed_all [OF inv1, of env ?w ?ord] by (simp_all add: m2_def)
  have sub2: "dom (rl_applied m2) \<subseteq> dom ?w"
    unfolding d2(3) ord by (auto split: if_splits)
  define s3 where "s3 = fold (\<lambda>iface. try_step (ensureRoot env iface)) ifs (None, m2)"
  have c3: "core (snd s3) = core m2"
    using core_ensureRoots [of env ifs "(None, m2)"] by (simp add: s3_def)
  have inv3: "manager_inv (snd s3)" using core_inv(2) [OF c3] d2(1) by simp
  note f3 = core_fields [OF c3]
  define addrs where "addrs = sort (env_order env (rl_trace (snd s3)) (dom ?w))"
  have addrs: "set addrs = dom ?w"
    using env_okD(1) [OF ok wanted_finite] by (simp add: addrs_def)
  obtain fe4 m4 where s4: "fold (shape_client env ifs ?w) addrs s3 = (fe4, m4)" by fastforce
  have sub3: "dom (rl_applied (snd s3)) \<subseteq> dom ?w" using sub2 f3(4) by simp
  have inv4: "manager_inv m4" "rl_marks (snd s3) \<subseteq>\<^sub>m rl_marks m4"
    using shape_clients_inv [OF inv3, of addrs ?w env ifs] addrs s4 by auto
  have keep: "rl_marks m4 a = rl_marks m a" if "a \<in> dom (rl_marks m) \<inter> dom ?w" for a
  proof -
    have "rl_marks (snd s3) a = rl_marks m a" using that f1(1) f3(1) d2(2) by simp
    moreover from this that have "a \<in> dom (rl_marks (snd s3))" by (simp add: domIff)
    ultimately show ?thesis using inv4(2) by (simp add: map_le_def)
  qed
  have exact: "rl_applied m4 = ?w" if "card (dom ?w) \<le> 254"
  proof
    fix a
    have "rl_applied m4 = (\<lambda>a. if a \<in> dom ?w then ?w a else rl_applied (snd s3) a)"
      using shape_clients_exact [OF inv3 _ sub3 wanted_finite that, of addrs env ifs] addrs s4 by simp
    then show "rl_applied m4 a = ?w a"
      using sub3 by (cases "a \<in> dom ?w") auto
  qed
  have "rl_Apply env cs m = (case syncMarks env (m4\<lparr>rl_ifaceSet := set ifs\<rparr>) of (e, m6) \<Rightarrow> (setErr fe4 e, m6))"
    using ne by (simp add: rl_Apply_def Let_def i m2_def [symmetric] s3_def [symmetric]
        addrs_def [symmetric] s4)
  with inv4(1) keep exact show ?thesis by blast
qed

lemma manager_inv_ifaceSet: "manager_inv (m\<lparr>rl_ifaceSet := X\<rparr>) = manager_inv m"
  by (simp add: manager_inv_def marks_inv_def)

lemma rl_Apply_none:
  "dom (wanted_clients cs) = {} \<Longrightarrow> manager_inv (snd (rl_Apply env cs m)) \<and>
     rl_applied (snd (rl_Apply env cs m)) = Map.empty"
  using core_inv(2) [OF core_teardownAll] core_fields(4) [OF core_teardownAll] manager_inv_New
  by (simp add: rl_Apply_def split_beta Let_def rl_New_def)

lemma rl_Apply_spec:
  assumes "manager_inv m" "env_ok env"
  shows "manager_inv (snd (rl_Apply env cs m)) \<and>
    (card (dom (wanted_clients cs)) \<le> 254 \<longrightarrow> rl_applied (snd (rl_Apply env cs m)) = wanted_clients cs) \<and>
    (\<forall>a \<in> dom (rl_applied m) \<inter> dom (wanted_clients cs).
        rl_marks (snd (rl_Apply env cs m)) a = rl_marks m a)"
proof (cases "dom (wanted_clients cs) = {}")
  case True
  with rl_Apply_none [OF True, of env m] show ?thesis by simp
next
  case False
  have dom: "dom (rl_applied m) = dom (rl_marks m)" using assms(1) by (simp add: manager_inv_def)
  from rl_Apply_stages [OF assms False] obtain fe4 m4 ifs where
    s: "manager_inv m4" "\<forall>a \<in> dom (rl_marks m) \<inter> dom (wanted_clients cs). rl_marks m4 a = rl_marks m a"
      "card (dom (wanted_clients cs)) \<le> 254 \<longrightarrow> rl_applied m4 = wanted_clients cs"
    and eq: "rl_Apply env cs m =
      (case syncMarks env (m4\<lparr>rl_ifaceSet := set ifs\<rparr>) of (e, m6) \<Rightarrow> (setErr fe4 e, m6))"
    by blast
  have "core (snd (rl_Apply env cs m)) = core (m4\<lparr>rl_ifaceSet := set ifs\<rparr>)"
    by (simp add: eq split_beta core_syncMarks)
  note c = core_fields [OF this] core_inv(2) [OF this]
  show ?thesis
    using s dom by (simp add: c manager_inv_ifaceSet)
qed

section \<open>Reachable managers\<close>

inductive rl_reach :: "RlEnv \<Rightarrow> Manager \<Rightarrow> bool" for env where
  rl_reach_new: "rl_reach env (rl_New iface)"
| rl_reach_apply: "rl_reach env m \<Longrightarrow> rl_reach env (snd (rl_Apply env cs m))"
| rl_reach_close: "rl_reach env m \<Longrightarrow> rl_reach env (rl_Close env m)"

lemma rl_reach_inv: "rl_reach env m \<Longrightarrow> env_ok env \<Longrightarrow> manager_inv m"
proof (induction rule: rl_reach.induct)
  case (rl_reach_new iface)
  show ?case by (rule manager_inv_New)
next
  case (rl_reach_apply m cs)
  then show ?case using rl_Apply_spec by blast
next
  case (rl_reach_close m)
  show ?case
    using core_inv(2) [OF core_teardownAll] manager_inv_New by (simp add: rl_Close_def)
qed

lemma marks_distinct:
  assumes "marks_inv m" "rl_marks m a = Some x" "rl_marks m b = Some y" "(a, d) \<noteq> (b, e)"
  shows "classMinor x d \<noteq> classMinor y e \<and> markValue x d \<noteq> markValue y e"
proof -
  obtain i j where ij: "i < 254" "j < 254" "x = firstMark + word_of_nat i" "y = firstMark + word_of_nat j"
    using marks_invD [OF assms(1)] assms(2,3) by metis
  have "(i, d) \<noteq> (j, e)"
  proof (cases "a = b")
    case True
    with assms(4) show ?thesis by simp
  next
    case False
    then have "x \<noteq> y"
      using assms(1-3) unfolding marks_inv_def inj_on_def by (metis domI)
    with ij show ?thesis by auto
  qed
  then have "2 * (i + 1) + (if d = Upload then 1 else 0) \<noteq> 2 * (j + 1) + (if e = Upload then 1 else 0)"
    "1048576 + i + (if d = Upload then 32768 else 0) \<noteq> 1048576 + j + (if e = Upload then 32768 else 0)"
    using ij(1,2) by (cases d; cases e; simp; presburger)+
  then show ?thesis
    using unat_classMinor [OF ij(1), of d] unat_classMinor [OF ij(2), of e]
      unat_markValue [OF ij(1), of d] unat_markValue [OF ij(2), of e] ij(3,4) by metis
qed

lemma reach_finite_ifaces: "rl_reach env m \<Longrightarrow> env_ok env \<Longrightarrow> finite (rl_ifaceSet m)"
proof (induction rule: rl_reach.induct)
  case (rl_reach_new iface)
  show ?case by (simp add: rl_New_def)
next
  case (rl_reach_apply m cs)
  show ?case
  proof (cases "dom (wanted_clients cs) = {}")
    case True
    then show ?thesis
      using core_fields(5) [OF core_teardownAll] by (simp add: rl_Apply_def split_beta Let_def rl_New_def)
  next
    case False
    from rl_Apply_stages [OF rl_reach_inv [OF rl_reach_apply.hyps rl_reach_apply.prems] rl_reach_apply.prems False]
    obtain fe4 m4 ifs where eq: "rl_Apply env cs m =
      (case syncMarks env (m4\<lparr>rl_ifaceSet := set ifs\<rparr>) of (e, m6) \<Rightarrow> (setErr fe4 e, m6))"
      by blast
    have "core (snd (rl_Apply env cs m)) = core (m4\<lparr>rl_ifaceSet := set ifs\<rparr>)"
      by (simp add: eq split_beta core_syncMarks)
    from core_fields(5) [OF this] show ?thesis by simp
  qed
next
  case (rl_reach_close m)
  show ?case
    using core_fields(5) [OF core_teardownAll] by (simp add: rl_Close_def rl_New_def)
qed

section \<open>The trace of a teardown and of a rule sync\<close>

lemma delRoots_trace:
  "rl_trace (fold (delRoot env) ifs m) =
    rl_trace m @ map (\<lambda>i. EvRun [''tc'', ''qdisc'', ''del'', ''dev'', i, ''root'']) ifs"
  by (induction ifs arbitrary: m) (simp_all add: delRoot_def runner_run_def)

lemma fold_add_seen: "set (fold add_seen xs out) = set out \<union> set xs \<and>
    (distinct out \<longrightarrow> distinct (fold add_seen xs out))"
  by (induction xs arbitrary: out) (auto simp: add_seen_def)

lemma shaping_link_mono: "set out \<subseteq> set (fold shaping_link ls out)"
proof (induction ls arbitrary: out)
  case (Cons l ls)
  have "set out \<subseteq> set (shaping_link l out)" by (auto simp: shaping_link_def)
  with Cons show ?case by (simp, blast)
qed simp

lemma shapingInterfaces_egress: "rl_egress m \<in> set (fst (shapingInterfaces env m))"
  using shaping_link_mono [of "[rl_egress m]"] by (simp add: shapingInterfaces_def split: option.split)

lemma ifaceList_covers:
  assumes "env_ok env" "finite (rl_ifaceSet m)" "ifaceList env m = (ifs, m1)"
  shows "distinct ifs \<and> insert (rl_egress m) (rl_ifaceSet m) \<subseteq> set ifs \<and> rl_trace m1 = rl_trace m @ [EvLinks]"
proof -
  let ?o1 = "fold add_seen (env_order env (rl_trace m) (rl_ifaceSet m)) []"
  obtain js m2 where s: "shapingInterfaces env m = (js, m2)" by fastforce
  with assms(3) have ifs: "ifs = fold add_seen js ?o1" "m1 = m2"
    by (simp_all add: ifaceList_def)
  have o1: "distinct ?o1" "set ?o1 = rl_ifaceSet m"
    using fold_add_seen [of "env_order env (rl_trace m) (rl_ifaceSet m)" "[]"]
      env_okD(1) [OF assms(1,2)] by auto
  have "set ifs = rl_ifaceSet m \<union> set js" "distinct ifs"
    using fold_add_seen [of js ?o1] o1 ifs by auto
  moreover have "rl_egress m \<in> set js" using shapingInterfaces_egress [of m env] s by simp
  moreover have "rl_trace m2 = rl_trace m @ [EvLinks]" using s by (auto simp: shapingInterfaces_def)
  ultimately show ?thesis using ifs(2) by auto
qed

lemma teardownAll_trace:
  assumes "env_ok env" "finite (rl_ifaceSet m)"
  shows "\<exists>ifs. distinct ifs \<and> insert (rl_egress m) (rl_ifaceSet m) \<subseteq> set ifs \<and>
    rl_trace (teardownAll env m) = rl_trace m @ [EvLinks] @
      map (\<lambda>i. EvRun [''tc'', ''qdisc'', ''del'', ''dev'', i, ''root'']) ifs @
      [EvNft [''delete'', ''table'', ''inet'', ''pg_shaper'']]"
proof -
  obtain ifs m1 where i: "ifaceList env m = (ifs, m1)" by fastforce
  from ifaceList_covers [OF assms i] show ?thesis
    by (intro exI [of _ ifs])
      (simp add: teardownAll_def i teardownMarks_def rl_nft_def delRoots_trace)
qed

lemma sync_rules_trace:
  assumes "\<And>tr c. env_nft env tr c = None"
  shows "sync_rules env rs m = (None, m\<lparr>rl_trace := rl_trace m @ map EvNft rs\<rparr>)"
  by (induction rs arbitrary: m) (simp_all add: rl_nft_def assms)

lemma syncMarks_trace:
  assumes nft: "\<And>tr c. env_nft env tr c = None" and ok: "env_ok env"
    and dom: "dom (rl_applied m) \<subseteq> dom (rl_marks m)" "finite (dom (rl_marks m))"
  shows "\<exists>order pre. distinct order \<and> set order = dom (rl_applied m) \<and> fst (syncMarks env m) = None \<and>
    rl_trace (snd (syncMarks env m)) = rl_trace m @ pre @
      [EvNft [''flush'', ''chain'', ''inet'', ''pg_shaper'', ''shape'']] @
      map EvNft (concat (map (\<lambda>a. map (mark_rule a (the (rl_marks m a))) [Download, Upload]) order))"
proof -
  let ?pre = "[EvNft [''add'', ''table'', ''inet'', ''pg_shaper''],
     EvNft [''add'', ''chain'', ''inet'', ''pg_shaper'', ''shape'',
          ''{ type filter hook forward priority mangle ; policy accept ; }'']]"
  let ?fl = "EvNft [''flush'', ''chain'', ''inet'', ''pg_shaper'', ''shape'']"
  let ?order = "env_order env (rl_trace m @ [?pre ! 0, ?pre ! 1, ?fl]) (dom (rl_applied m))"
  have fin: "finite (dom (rl_applied m))" using dom finite_subset by blast
  have o: "set ?order = dom (rl_applied m)" "distinct ?order"
    using env_okD [OF ok fin] by blast+
  have "addr_rules (m\<lparr>rl_trace := t\<rparr>) a = map (mark_rule a (the (rl_marks m a))) [Download, Upload]"
    if "a \<in> set ?order" for a t
    using that o dom by (auto simp: addr_rules_def)
  then have r: "map (addr_rules (m\<lparr>rl_trace := t\<rparr>)) ?order =
      map (\<lambda>a. map (mark_rule a (the (rl_marks m a))) [Download, Upload]) ?order" for t
    by (intro map_cong) auto
  show ?thesis
    by (intro exI [of _ ?order] exI [of _ ?pre] conjI o)
      (use r in \<open>simp_all add: syncMarks_def ensureMarkChain_def rl_nft_def nft sync_rules_trace
        cong: map_cong\<close>)
qed

section \<open>Correctness of the shaper\<close>

text \<open>C2. In every reachable manager, each shaped client holds a mark, the class identifiers and
  the mark values of two clients, or of the two directions of one client, are different, and
  no client gets the root handle 1:0 or the unlimited default class 1:1.\<close>

theorem shaped_clients_disjoint:
  assumes "rl_reach env m" "env_ok env" "a \<in> dom (rl_applied m)" "b \<in> dom (rl_applied m)"
    and "(a, d) \<noteq> (b, e)"
  shows "\<exists>x y. rl_marks m a = Some x \<and> rl_marks m b = Some y \<and> classID x d \<noteq> classID y e \<and>
    markValue x d \<noteq> markValue y e \<and> classID x d \<notin> {''1:0'', ''1:1''}"
proof -
  have inv: "marks_inv m" "dom (rl_applied m) = dom (rl_marks m)"
    using rl_reach_inv [OF assms(1,2)] by (auto simp: manager_inv_def)
  then obtain x y where xy: "rl_marks m a = Some x" "rl_marks m b = Some y"
    using assms(3,4) by auto
  obtain i where i: "i < 254" "x = firstMark + word_of_nat i"
    using marks_invD [OF inv(1) xy(1)] by blast
  have low: "show_hex 0 = ''0''" "show_hex 1 = ''1''"
    by code_simp+
  have "unat (classMinor x d) \<ge> 2" using unat_classMinor [OF i(1), of d] i(2) by simp
  then have "show_hex (unat (classMinor x d)) \<noteq> show_hex 0" "show_hex (unat (classMinor x d)) \<noteq> show_hex 1"
    by (simp_all only: show_hex_inj)
  then have "classID x d \<notin> {''1:0'', ''1:1''}"
    unfolding low by (simp add: classID_def)
  moreover have "classMinor x d \<noteq> classMinor y e \<and> markValue x d \<noteq> markValue y e"
    using marks_distinct [OF inv(1) xy assms(5)] .
  ultimately show ?thesis using xy by (simp add: classID_def word_unat_eq_iff [symmetric])
qed

definition quiet_env :: RlEnv where
  "quiet_env =
    \<lparr>env_run = \<lambda>_ _. None, env_nft = \<lambda>_ _. None,
     env_links = \<lambda>_. Some [(''lo'', True), (''wg0'', True), (''tun1'', False)],
     env_order = \<lambda>_ S. sorted_list_of_set S\<rparr>"

definition two_clients :: "Client list" where
  "two_clients =
    [\<lparr>cl_User = ''u'', cl_Address = ''10.0.0.2'', cl_LimitKbps = 512\<rparr>,
     \<lparr>cl_User = ''v'', cl_Address = ''10.0.0.3'', cl_LimitKbps = 1024\<rparr>,
     \<lparr>cl_User = ''w'', cl_Address = ''10.0.0.4'', cl_LimitKbps = 0\<rparr>]"

lemma quiet_env_ok: "env_ok quiet_env"
  by (simp add: env_ok_def quiet_env_def)

lemma two_clients_wanted: "wanted_clients two_clients =
    [''10.0.0.2'' \<mapsto> hd two_clients, ''10.0.0.3'' \<mapsto> two_clients ! 1]"
  by (simp add: wanted_clients_def two_clients_def wanted_step_def)

lemma two_clients_card: "card (dom (wanted_clients two_clients)) = 2"
  by (simp add: two_clients_wanted)

lemma two_clients_reach:
  "rl_reach quiet_env (snd (rl_Apply quiet_env two_clients (rl_New ''eth0'')))"
  by (intro rl_reach_new rl_reach_apply)

theorem shaped_clients_disjoint_witness:
  "\<exists>x y. rl_marks (snd (rl_Apply quiet_env two_clients (rl_New ''eth0''))) ''10.0.0.2'' = Some x \<and>
    rl_marks (snd (rl_Apply quiet_env two_clients (rl_New ''eth0''))) ''10.0.0.3'' = Some y \<and>
    classID x Upload \<noteq> classID y Download \<and> markValue x Upload \<noteq> markValue y Download \<and>
    classID x Upload \<notin> {''1:0'', ''1:1''}"
proof (rule shaped_clients_disjoint [OF two_clients_reach quiet_env_ok])
  have "rl_applied (snd (rl_Apply quiet_env two_clients (rl_New ''eth0''))) = wanted_clients two_clients"
    using rl_Apply_spec [OF manager_inv_New quiet_env_ok, of two_clients "''eth0''"] two_clients_card by simp
  then show "''10.0.0.2'' \<in> dom (rl_applied (snd (rl_Apply quiet_env two_clients (rl_New ''eth0''))))"
    "''10.0.0.3'' \<in> dom (rl_applied (snd (rl_Apply quiet_env two_clients (rl_New ''eth0''))))"
    by (simp_all add: two_clients_wanted)
  show "(''10.0.0.2'', Upload) \<noteq> (''10.0.0.3'', Download)" by simp
qed

text \<open>Applying a client list of at most 254 distinct shaped addresses to a reachable manager
  leaves exactly the wanted clients applied, whatever the commands answer, and a client that
  was shaped before keeps its mark.\<close>

theorem rl_Apply_exact:
  assumes "rl_reach env m" "env_ok env" "card (dom (wanted_clients cs)) \<le> 254"
  shows "rl_applied (snd (rl_Apply env cs m)) = wanted_clients cs \<and>
    dom (rl_marks (snd (rl_Apply env cs m))) = dom (wanted_clients cs) \<and>
    (\<forall>a \<in> dom (rl_applied m) \<inter> dom (wanted_clients cs).
        rl_marks (snd (rl_Apply env cs m)) a = rl_marks m a)"
  using rl_Apply_spec [OF rl_reach_inv [OF assms(1,2)] assms(2), of cs] assms(3)
  unfolding manager_inv_def by metis

theorem rl_Apply_exact_witness:
  "rl_applied (snd (rl_Apply quiet_env [hd two_clients]
      (snd (rl_Apply quiet_env two_clients (rl_New ''eth0''))))) = [''10.0.0.2'' \<mapsto> hd two_clients]"
proof -
  have "wanted_clients [hd two_clients] = [''10.0.0.2'' \<mapsto> hd two_clients]"
    by (simp add: wanted_clients_def two_clients_def wanted_step_def)
  then show ?thesis
    using rl_Apply_exact [OF two_clients_reach quiet_env_ok, of "[hd two_clients]"] by simp
qed

text \<open>When no nft command fails, Apply ends by flushing the mark chain and adding exactly
  two rules per wanted client, one per direction, with the client's mark.\<close>

theorem rl_Apply_rules:
  assumes "rl_reach env m" "env_ok env" "\<forall>tr c. env_nft env tr c = None"
    and "wanted_clients cs \<noteq> Map.empty" "card (dom (wanted_clients cs)) \<le> 254"
  shows "\<exists>order pre. enumerates order (wanted_clients cs) \<and>
    rl_trace (snd (rl_Apply env cs m)) =
      pre @ [EvNft [''flush'', ''chain'', ''inet'', ''pg_shaper'', ''shape'']] @
      map EvNft (concat (map (\<lambda>a. map (mark_rule a (the (rl_marks (snd (rl_Apply env cs m)) a)))
        [Download, Upload]) order))"
proof -
  have ne: "dom (wanted_clients cs) \<noteq> {}" using assms(4) by simp
  from rl_Apply_stages [OF rl_reach_inv [OF assms(1,2)] assms(2) ne] obtain fe4 m4 ifs where
    s: "manager_inv m4" "rl_applied m4 = wanted_clients cs"
    and eq: "rl_Apply env cs m =
      (case syncMarks env (m4\<lparr>rl_ifaceSet := set ifs\<rparr>) of (e, m6) \<Rightarrow> (setErr fe4 e, m6))"
    using assms(5) by blast
  let ?m5 = "m4\<lparr>rl_ifaceSet := set ifs\<rparr>"
  have r: "snd (rl_Apply env cs m) = snd (syncMarks env ?m5)" by (simp add: eq split_beta)
  have marks: "rl_marks (snd (rl_Apply env cs m)) = rl_marks ?m5"
    unfolding r using core_fields(1) [OF core_syncMarks] .
  have nft: "env_nft env tr c = None" for tr c using assms(3) by simp
  have d: "dom (rl_applied ?m5) \<subseteq> dom (rl_marks ?m5)" "finite (dom (rl_marks ?m5))"
    using s(1) by (simp_all add: manager_inv_def marks_inv_def)
  from syncMarks_trace [OF nft assms(2) d] obtain order pre where
    "distinct order \<and> set order = dom (rl_applied ?m5)"
    "rl_trace (snd (syncMarks env ?m5)) = rl_trace ?m5 @ pre @
      [EvNft [''flush'', ''chain'', ''inet'', ''pg_shaper'', ''shape'']] @
      map EvNft (concat (map (\<lambda>a. map (mark_rule a (the (rl_marks ?m5 a))) [Download, Upload]) order))"
    by blast
  then show ?thesis
    using s(2) by (intro exI [of _ order] exI [of _ "rl_trace ?m5 @ pre"]) (simp add: enumerates_def marks, simp add: r)
qed

theorem rl_Apply_rules_witness:
  "\<exists>order pre. enumerates order (wanted_clients two_clients) \<and>
    rl_trace (snd (rl_Apply quiet_env two_clients (rl_New ''eth0''))) =
      pre @ [EvNft [''flush'', ''chain'', ''inet'', ''pg_shaper'', ''shape'']] @
      map EvNft (concat (map (\<lambda>a. map (mark_rule a
        (the (rl_marks (snd (rl_Apply quiet_env two_clients (rl_New ''eth0''))) a))) [Download, Upload]) order))"
  by (rule rl_Apply_rules [OF rl_reach_new quiet_env_ok])
    (simp_all add: quiet_env_def two_clients_card, simp add: two_clients_wanted)

text \<open>Closing a reachable manager deletes the root qdisc of its egress interface and of every
  interface it shaped, then the nft table, and leaves the state of a fresh manager.\<close>

theorem rl_Close_resets:
  assumes "rl_reach env m" "env_ok env"
  shows "core (rl_Close env m) = core (rl_New (rl_egress m)) \<and>
    (\<exists>ifs. insert (rl_egress m) (rl_ifaceSet m) \<subseteq> set ifs \<and>
      rl_trace (rl_Close env m) = rl_trace m @ [EvLinks] @
        map (\<lambda>i. EvRun [''tc'', ''qdisc'', ''del'', ''dev'', i, ''root'']) ifs @
        [EvNft [''delete'', ''table'', ''inet'', ''pg_shaper'']])"
  unfolding rl_Close_def
  using core_teardownAll teardownAll_trace [OF assms(2) reach_finite_ifaces [OF assms]] by blast

theorem rl_Close_resets_witness:
  "rl_applied (rl_Close quiet_env (snd (rl_Apply quiet_env two_clients (rl_New ''eth0'')))) = Map.empty"
  using core_fields(4) [OF rl_Close_resets [OF two_clients_reach quiet_env_ok, THEN conjunct1]]
  by (simp add: rl_New_def)

end
