(* ===== verification/Common.thy ===== *)
theory Common
  imports Prelude
begin

text \<open>
  Package \<open>common\<close>: the messages of \<open>service.pb.go\<close> that the node's logic reads (users with
  their proxy settings, statistics, requests), and the helpers of \<open>helper.go\<close>: the Shadowsocks
  key derivation on top of Go's standard base64 encoding, and the error mappings.
  A pointer to a message is an option, and a getter on a nil pointer gives the zero value,
  as the generated getters do.
\<close>

section \<open>Messages\<close>

record Vmess =
  vm_Id :: string

record Vless =
  vl_Id :: string
  vl_Flow :: string

record Trojan =
  tr_Password :: string

record Shadowsocks =
  ss_Password :: string
  ss_Method :: string

record Wireguard =
  wgp_PublicKey :: string
  wgp_PeerIps :: "string list"

record Hysteria =
  hy_Auth :: string

record Openvpn =
  ovp_Serial :: string
  ovp_Fingerprint :: string
  ovp_Username :: string
  ovp_Password :: string

record Credential =
  cr_Username :: string
  cr_Password :: string

record Ikev2 =
  ik_Username :: string
  ik_Password :: string

record AnyTLS =
  at_Password :: string

record Tuic =
  tu_Id :: string
  tu_Password :: string

record Naive =
  na_Username :: string
  na_Password :: string

record Gre =
  gr_PeerIp :: string

record Mtproto =
  mt_Secret :: string

text \<open>The proxy settings, one optional message per protocol.\<close>

record Proxy =
  px_Vmess :: "Vmess option"
  px_Vless :: "Vless option"
  px_Trojan :: "Trojan option"
  px_Shadowsocks :: "Shadowsocks option"
  px_Wireguard :: "Wireguard option"
  px_Hysteria :: "Hysteria option"
  px_Openvpn :: "Openvpn option"
  px_Ikev2 :: "Ikev2 option"
  px_Pptp :: "Credential option"
  px_Openconnect :: "Credential option"
  px_Sstp :: "Credential option"
  px_Ssh :: "Credential option"
  px_WgC :: "Wireguard option"
  px_Amneziawg :: "Wireguard option"
  px_Gre :: "Gre option"
  px_Mtproto :: "Mtproto option"
  px_Anytls :: "AnyTLS option"
  px_Tuic :: "Tuic option"
  px_Naive :: "Naive option"

record User =
  u_Email :: string
  u_Proxies :: "Proxy option"
  u_Inbounds :: "string list"
  u_IpLimit :: u32
  u_SpeedLimit :: u32

type_synonym UserPtr = "User option"

definition empty_Proxy :: Proxy where
  "empty_Proxy = \<lparr>px_Vmess = None, px_Vless = None, px_Trojan = None, px_Shadowsocks = None,
    px_Wireguard = None, px_Hysteria = None, px_Openvpn = None, px_Ikev2 = None, px_Pptp = None,
    px_Openconnect = None, px_Sstp = None, px_Ssh = None, px_WgC = None, px_Amneziawg = None,
    px_Gre = None, px_Mtproto = None, px_Anytls = None, px_Tuic = None, px_Naive = None\<rparr>"

definition GetEmail :: "UserPtr \<Rightarrow> string" where [go_defs]:
  "GetEmail x = (case x of None \<Rightarrow> [] | Some u \<Rightarrow> u_Email u)"

definition GetProxies :: "UserPtr \<Rightarrow> Proxy option" where [go_defs]:
  "GetProxies x = (case x of None \<Rightarrow> None | Some u \<Rightarrow> u_Proxies u)"

definition GetInbounds :: "UserPtr \<Rightarrow> string list" where [go_defs]:
  "GetInbounds x = (case x of None \<Rightarrow> [] | Some u \<Rightarrow> u_Inbounds u)"

definition GetIpLimit :: "UserPtr \<Rightarrow> u32" where [go_defs]:
  "GetIpLimit x = (case x of None \<Rightarrow> 0 | Some u \<Rightarrow> u_IpLimit u)"

definition GetSpeedLimit :: "UserPtr \<Rightarrow> u32" where [go_defs]:
  "GetSpeedLimit x = (case x of None \<Rightarrow> 0 | Some u \<Rightarrow> u_SpeedLimit u)"

datatype StatType = Outbounds | Outbound | Inbounds | Inbound | UsersStat | UserStat | OtherStat int

record StatRequest =
  sr_Name :: string
  sr_Reset :: bool
  sr_Type :: StatType

record OnlineStatResponse =
  on_Name :: string
  on_Value :: int

record StatsOnlineIpListResponse =
  oi_Name :: string
  oi_Ips :: "string \<rightharpoonup> int"
  oi_IpProtocol :: "string \<rightharpoonup> string"

section \<open>Base64\<close>

text \<open>
  Go's \<open>base64.StdEncoding\<close>: groups of four characters of the standard alphabet with \<open>=\<close>
  padding; the decoder skips line breaks and does not check the unused trailing bits.
\<close>

definition b64_alphabet :: string where
  "b64_alphabet = ''ABCDEFGHIJKLMNOPQRSTUVWXYZabcdefghijklmnopqrstuvwxyz0123456789+/''"

definition b64_char :: "nat \<Rightarrow> char" where
  "b64_char i = b64_alphabet ! i"

definition b64_val :: "char \<Rightarrow> nat option" where
  "b64_val c = (let i = length (takeWhile (\<lambda>x. x \<noteq> c) b64_alphabet) in if i < 64 then Some i else None)"

definition b64_group :: "nat \<Rightarrow> string" where
  "b64_group v = [b64_char (v div 262144), b64_char (v div 4096 mod 64), b64_char (v div 64 mod 64),
                  b64_char (v mod 64)]"

definition b64_bytes :: "nat \<Rightarrow> nat \<Rightarrow> nat \<Rightarrow> nat \<Rightarrow> char list" where
  "b64_bytes a b c d =
    (let v = ((a * 64 + b) * 64 + c) * 64 + d
     in [char_of (v div 65536), char_of (v div 256 mod 256), char_of (v mod 256)])"

fun EncodeToString :: "char list \<Rightarrow> string" where
  "EncodeToString [] = []"
| "EncodeToString [a] = take 2 (b64_group (of_char a * 65536)) @ ''==''"
| "EncodeToString [a, b] = take 3 (b64_group (of_char a * 65536 + of_char b * 256)) @ ''=''"
| "EncodeToString (a # b # c # bs) =
    b64_group (of_char a * 65536 + of_char b * 256 + of_char c) @ EncodeToString bs"

fun b64_decode :: "string \<Rightarrow> char list option" where
  "b64_decode [] = Some []"
| "b64_decode (a # b # c # d # r) =
    (case (b64_val a, b64_val b) of
       (Some va, Some vb) \<Rightarrow>
         (case b64_val c of
            Some vc \<Rightarrow>
              (case b64_val d of
                 Some vd \<Rightarrow> map_option ((@) (b64_bytes va vb vc vd)) (b64_decode r)
               | None \<Rightarrow> if d = CHR ''='' \<and> r = [] then Some (take 2 (b64_bytes va vb vc 0)) else None)
          | None \<Rightarrow>
              if c = CHR ''='' \<and> d = CHR ''='' \<and> r = [] then Some (take 1 (b64_bytes va vb 0 0)) else None)
     | _ \<Rightarrow> None)"
| "b64_decode _ = None"

definition DecodeString :: "string \<Rightarrow> char list option" where
  "DecodeString s = b64_decode (filter (\<lambda>c. c \<noteq> CHR 0x0A \<and> c \<noteq> CHR 0x0D) s)"

lemma b64_val_char [simp]: "i < 64 \<Longrightarrow> b64_val (b64_char i) = Some i"
proof -
  have "\<forall>i \<in> set [0..<64]. b64_val (b64_char i) = Some i" by code_simp
  then show "i < 64 \<Longrightarrow> b64_val (b64_char i) = Some i" by simp
qed

lemma b64_val_pad [simp]: "b64_val (CHR ''='') = None"
  by code_simp

lemma b64_char_plain: "i < 64 \<Longrightarrow> b64_char i \<noteq> CHR 0x0A \<and> b64_char i \<noteq> CHR 0x0D"
proof -
  have "\<forall>i \<in> set [0..<64]. b64_char i \<noteq> CHR 0x0A \<and> b64_char i \<noteq> CHR 0x0D" by code_simp
  then show "i < 64 \<Longrightarrow> b64_char i \<noteq> CHR 0x0A \<and> b64_char i \<noteq> CHR 0x0D" by simp
qed

lemma byte_bound [simp]: "(of_char (c :: char) :: nat) < 256"
  using range_nat_of_char by (metis atLeastLessThan_iff rangeI)

lemma sextets:
  fixes v :: nat
  shows "((v div 262144 * 64 + v div 4096 mod 64) * 64 + v div 64 mod 64) * 64 + v mod 64 = v"
proof -
  have "v div 262144 = v div 4096 div 64" "v div 4096 = v div 64 div 64"
    by (simp_all add: div_mult2_eq [symmetric])
  then show ?thesis by (simp only: div_mult_mod_eq)
qed

lemma bytes_of_group:
  assumes "a < 256" "b < 256" "c < (256 :: nat)"
  shows "(a * 65536 + b * 256 + c) div 65536 = a" "(a * 65536 + b * 256 + c) div 256 mod 256 = b"
    "(a * 65536 + b * 256 + c) mod 256 = c"
proof -
  have v: "a * 65536 + b * 256 + c = c + (a * 256 + b) * 256" by simp
  have d: "(a * 65536 + b * 256 + c) div 256 = a * 256 + b"
    unfolding v using assms(3) by simp
  show "(a * 65536 + b * 256 + c) mod 256 = c"
    unfolding v mod_mult_self1 using assms(3) by simp
  show "(a * 65536 + b * 256 + c) div 256 mod 256 = b"
    unfolding d using assms(2) by (metis mod_less mod_mult_self3)
  have "(a * 65536 + b * 256 + c) div 65536 = (a * 65536 + b * 256 + c) div 256 div 256"
    by (simp add: div_mult2_eq [symmetric])
  also have "\<dots> = a"
    unfolding d using assms(2) by (metis add.commute div_less div_mult_self1 add_0_right zero_neq_numeral mult.commute)
  finally show "(a * 65536 + b * 256 + c) div 65536 = a" .
qed

lemma b64_bytes_group:
  assumes "v = of_char a * 65536 + of_char b * 256 + (of_char c :: nat)"
  shows "b64_bytes (v div 262144) (v div 4096 mod 64) (v div 64 mod 64) (v mod 64) = [a, b, c]"
  unfolding b64_bytes_def Let_def sextets
  by (simp only: assms bytes_of_group byte_bound char_of_char)

lemma group_bound: "of_char a * 65536 + of_char b * 256 + (of_char c :: nat) < 16777216"
  using byte_bound [of a] byte_bound [of b] byte_bound [of c] by linarith

lemma group_high: "v < 16777216 \<Longrightarrow> v div 262144 < (64 :: nat)"
  by (simp add: less_mult_imp_div_less)

lemma b64_decode_encode: "b64_decode (EncodeToString bs) = Some bs"
proof (induction bs rule: EncodeToString.induct)
  case 1
  then show ?case by simp
next
  case (2 a)
  define v where "v = of_char a * 65536 + of_char (CHR 0x00) * 256 + (of_char (CHR 0x00) :: nat)"
  have v: "v = of_char a * 65536" "v div 64 mod 64 = 0" "v mod 64 = 0"
    by (simp_all add: v_def mod_mult_right_eq mult.commute div_mult_swap [symmetric])
  show ?case
    using b64_bytes_group [OF v_def] group_high [OF group_bound, of a "CHR 0x00" "CHR 0x00"]
    by (simp add: b64_group_def v(1) [symmetric] v(2,3) v_def [symmetric])
next
  case (3 a b)
  define v where "v = of_char a * 65536 + of_char b * 256 + (of_char (CHR 0x00) :: nat)"
  have v: "v = of_char a * 65536 + of_char b * 256" by (simp add: v_def)
  have "v = (of_char a * 1024 + of_char b * 4) * 64" by (simp add: v)
  then have m: "v mod 64 = 0" by simp
  show ?case
    using b64_bytes_group [OF v_def] group_high [OF group_bound, of a b "CHR 0x00"]
    by (simp add: b64_group_def v [symmetric] m v_def [symmetric])
next
  case (4 a b c bs)
  define v where "v = of_char a * 65536 + of_char b * 256 + (of_char c :: nat)"
  show ?case
    using b64_bytes_group [OF v_def] group_high [OF group_bound, of a b c] 4
    by (simp add: b64_group_def v_def [symmetric])
qed

lemma encode_plain: "filter (\<lambda>c. c \<noteq> CHR 0x0A \<and> c \<noteq> CHR 0x0D) (EncodeToString bs) = EncodeToString bs"
proof (induction bs rule: EncodeToString.induct)
  case (2 a)
  then show ?case
    using group_high [OF group_bound, of a "CHR 0x00" "CHR 0x00"]
    by (simp add: b64_group_def b64_char_plain)
next
  case (3 a b)
  then show ?case
    using group_high [OF group_bound, of a b "CHR 0x00"]
    by (simp add: b64_group_def b64_char_plain)
next
  case (4 a b c bs)
  then show ?case
    using group_high [OF group_bound, of a b c]
    by (simp add: b64_group_def b64_char_plain)
qed simp

lemma base64_roundtrip: "DecodeString (EncodeToString bs) = Some bs"
  by (simp add: DecodeString_def encode_plain b64_decode_encode)

section \<open>Shadowsocks keys\<close>

text \<open>\<open>sha256\<close> is the hash of \<open>crypto/sha256\<close>, of which only the digest length matters.\<close>

definition EnsureBase64Password :: "(string \<Rightarrow> char list) \<Rightarrow> string \<Rightarrow> string \<Rightarrow> string" where
  "EnsureBase64Password sha256 password method =
    (case DecodeString password of
       Some decodedBytes \<Rightarrow>
         if str_contains method ''aes-128-gcm'' \<and> length decodedBytes = 16 \<or>
            (str_contains method ''aes-256-gcm'' \<or> str_contains method ''chacha20-poly1305'') \<and>
            length decodedBytes = 32
         then password
         else EncodeToString (take (if str_contains method ''aes-128-gcm'' then 16 else 32) (sha256 password))
     | None \<Rightarrow> EncodeToString (take (if str_contains method ''aes-128-gcm'' then 16 else 32) (sha256 password)))"

lemma EnsureBase64Password_normal:
  assumes "\<forall>p. length (sha256 p) = 32"
    and "str_contains method ''aes-128-gcm'' \<and> \<not> str_contains method ''aes-256-gcm'' \<and>
           \<not> str_contains method ''chacha20-poly1305'' \<and> n = 16 \<or>
         \<not> str_contains method ''aes-128-gcm'' \<and>
           (str_contains method ''aes-256-gcm'' \<or> str_contains method ''chacha20-poly1305'') \<and> n = 32"
  shows "(\<exists>key. DecodeString (EnsureBase64Password sha256 password method) = Some key \<and> length key = n) \<and>
    EnsureBase64Password sha256 (EnsureBase64Password sha256 password method) method =
      EnsureBase64Password sha256 password method"
  using assms
  by (cases "DecodeString password") (auto simp: EnsureBase64Password_def base64_roundtrip)

text \<open>For the three Shadowsocks ciphers the password handed to the core is base64 of a key of
  the length the cipher needs (16 bytes for AES-128, 32 for the others), and normalising a
  password twice gives the same result as once.\<close>

theorem EnsureBase64Password_key:
  assumes "\<forall>p. length (sha256 p) = 32"
    and "str_contains method ''aes-128-gcm'' \<and> \<not> str_contains method ''aes-256-gcm'' \<and>
           \<not> str_contains method ''chacha20-poly1305'' \<and> n = 16 \<or>
         \<not> str_contains method ''aes-128-gcm'' \<and>
           (str_contains method ''aes-256-gcm'' \<or> str_contains method ''chacha20-poly1305'') \<and> n = 32"
  shows "(\<exists>key. DecodeString (EnsureBase64Password sha256 password method) = Some key \<and> length key = n) \<and>
    EnsureBase64Password sha256 (EnsureBase64Password sha256 password method) method =
      EnsureBase64Password sha256 password method"
  using EnsureBase64Password_normal [OF assms] .

theorem EnsureBase64Password_key_witness:
  "\<exists>key. DecodeString (EnsureBase64Password (\<lambda>p. replicate 32 (CHR ''x'')) ''hunter2''
      ''2022-blake3-aes-128-gcm'') = Some key \<and> length key = 16"
proof -
  have "str_contains ''2022-blake3-aes-128-gcm'' ''aes-128-gcm''"
    "\<not> str_contains ''2022-blake3-aes-128-gcm'' ''aes-256-gcm''"
    "\<not> str_contains ''2022-blake3-aes-128-gcm'' ''chacha20-poly1305''"
    by code_simp+
  then show ?thesis
    by (intro EnsureBase64Password_key [THEN conjunct1]) (simp_all del: str_contains.simps)
qed

section \<open>Errors\<close>

datatype Code = OK | Canceled | Unknown | InvalidArgument | DeadlineExceeded | NotFound | AlreadyExists
  | PermissionDenied | ResourceExhausted | FailedPrecondition | Aborted | OutOfRange | Unimplemented
  | Internal | Unavailable | DataLoss | Unauthenticated

definition GrpcCodeToHTTP :: "Code \<Rightarrow> nat" where
  "GrpcCodeToHTTP code =
    (case code of
       OK \<Rightarrow> 200 | Canceled \<Rightarrow> 499 | InvalidArgument \<Rightarrow> 400 | Unauthenticated \<Rightarrow> 401
     | PermissionDenied \<Rightarrow> 403 | NotFound \<Rightarrow> 404 | AlreadyExists \<Rightarrow> 409 | ResourceExhausted \<Rightarrow> 429
     | FailedPrecondition \<Rightarrow> 412 | Aborted \<Rightarrow> 409 | OutOfRange \<Rightarrow> 400 | Unimplemented \<Rightarrow> 501
     | Internal \<Rightarrow> 500 | Unavailable \<Rightarrow> 503 | DeadlineExceeded \<Rightarrow> 504
     | _ \<Rightarrow> 500)"

text \<open>A Go error: a gRPC status with its code, or any other error with its message.\<close>

datatype GoError = StatusError Code string | PlainError string

definition InterceptNotFound :: "(GoError \<Rightarrow> string) \<Rightarrow> GoError option \<Rightarrow> GoError option" where
  "InterceptNotFound error_text err =
    (case err of
       None \<Rightarrow> None
     | Some e \<Rightarrow>
         if has_suffix (error_text e) ''not found.'' then Some (StatusError NotFound (error_text e)) else Some e)"

lemma GrpcCodeToHTTP_ok_iff: "GrpcCodeToHTTP c < 400 \<longleftrightarrow> c = OK"
  by (cases c) (simp_all add: GrpcCodeToHTTP_def)

end
