(* ===== verification/PeerStore.thy ===== *)
theory PeerStore
  imports Prelude
begin

text \<open>
  The WireGuard peer store, \<open>backend/wireguard/peer_store.go\<close>, with the peer data of
  \<open>config.go\<close>. A \<open>wgtypes.Key\<close> is a byte array; its text form \<open>Key.String\<close> belongs to the
  package \<open>wgtypes\<close> and is the parameter \<open>ks\<close> of the operations.
  The interface \<open>peer_registry\<close> states the 1:1 contract between users and keys that the
  store promises to the synchronisation code, and the store is proved to provide it.
\<close>

section \<open>Data\<close>

type_synonym Key = "char list"

record IPNet =
  ipn_IP :: "8 word list"
  ipn_Mask :: "8 word list"

record PeerInfo =
  pi_Email :: string
  pi_PublicKey :: Key
  pi_AllowedIPs :: "IPNet list"

record PeerStore =
  ps_peers :: "string \<rightharpoonup> PeerInfo"
  ps_emailToKey :: "string \<rightharpoonup> string"

definition NewPeerStore :: PeerStore where
  "NewPeerStore = \<lparr>ps_peers = Map.empty, ps_emailToKey = Map.empty\<rparr>"

definition clonePeerInfo :: "PeerInfo option \<Rightarrow> PeerInfo option" where
  "clonePeerInfo peer =
    (case peer of
       None \<Rightarrow> None
     | Some p \<Rightarrow>
         Some \<lparr>pi_Email = pi_Email p, pi_PublicKey = pi_PublicKey p, pi_AllowedIPs = [] @ pi_AllowedIPs p\<rparr>)"

lemma clonePeerInfo_id [simp]: "clonePeerInfo p = p"
  by (cases p) (simp_all add: clonePeerInfo_def)

section \<open>Operations\<close>

definition put_peer :: "(Key \<Rightarrow> string) \<Rightarrow> PeerInfo option \<Rightarrow> PeerStore \<Rightarrow> PeerStore" where
  "put_peer ks peer ps =
    (case clonePeerInfo peer of
       None \<Rightarrow> ps
     | Some peerCopy \<Rightarrow>
         let keyStr = ks (pi_PublicKey peerCopy)
         in ps\<lparr>ps_peers := (ps_peers ps)(keyStr \<mapsto> peerCopy),
               ps_emailToKey := (ps_emailToKey ps)(pi_Email peerCopy \<mapsto> keyStr)\<rparr>)"

definition ps_Init :: "(Key \<Rightarrow> string) \<Rightarrow> PeerInfo option list \<Rightarrow> PeerStore \<Rightarrow> PeerStore" where
  "ps_Init ks peers ps = fold (put_peer ks) peers ps"

definition remove_step :: "string \<Rightarrow> PeerStore \<times> string list \<Rightarrow> PeerStore \<times> string list" where
  "remove_step key s =
    (case s of (ps, removed) \<Rightarrow>
       case ps_peers ps key of
         None \<Rightarrow> (ps, removed)
       | Some peer \<Rightarrow>
           (ps\<lparr>ps_emailToKey := map_delete (pi_Email peer) (ps_emailToKey ps),
               ps_peers := map_delete key (ps_peers ps)\<rparr>, removed @ [key]))"

definition upsert_step :: "(Key \<Rightarrow> string) \<Rightarrow> PeerInfo option \<Rightarrow> PeerStore \<Rightarrow> PeerStore" where
  "upsert_step ks peer ps =
    (case clonePeerInfo peer of
       None \<Rightarrow> ps
     | Some peerCopy \<Rightarrow>
         let key = ks (pi_PublicKey peerCopy);
             ps1 = (case ps_emailToKey ps (pi_Email peerCopy) of
                      None \<Rightarrow> ps
                    | Some oldKey \<Rightarrow>
                        if oldKey \<noteq> key then ps\<lparr>ps_peers := map_delete oldKey (ps_peers ps)\<rparr> else ps);
             ps2 = (case ps_peers ps1 key of
                      None \<Rightarrow> ps1
                    | Some existingPeer \<Rightarrow>
                        if pi_Email existingPeer \<noteq> pi_Email peerCopy
                        then ps1\<lparr>ps_emailToKey := map_delete (pi_Email existingPeer) (ps_emailToKey ps1)\<rparr>
                        else ps1)
         in ps2\<lparr>ps_peers := (ps_peers ps2)(key \<mapsto> peerCopy),
                ps_emailToKey := (ps_emailToKey ps2)(pi_Email peerCopy \<mapsto> key)\<rparr>)"

definition ApplyChanges :: "(Key \<Rightarrow> string) \<Rightarrow> string list \<Rightarrow> PeerInfo option list \<Rightarrow> PeerStore \<Rightarrow>
    string list \<times> PeerStore" where
  "ApplyChanges ks removeKeys upsertPeers ps =
    (case fold remove_step removeKeys (ps, []) of (ps1, removed) \<Rightarrow>
       (removed, fold (upsert_step ks) upsertPeers ps1))"

text \<open>\<open>order\<close> is the order in which the loop over the old peers visits them.\<close>

definition ReplaceAll :: "(Key \<Rightarrow> string) \<Rightarrow> string list \<Rightarrow> PeerInfo option list \<Rightarrow> PeerStore \<Rightarrow>
    string list \<times> PeerStore" where
  "ReplaceAll ks order peers ps =
    (let new = fold (put_peer ks) peers NewPeerStore
     in (filter (\<lambda>oldKey. ps_peers new oldKey = None) order, new))"

definition GetByEmail :: "PeerStore \<Rightarrow> string \<Rightarrow> PeerInfo option" where
  "GetByEmail ps email =
    (case ps_emailToKey ps email of None \<Rightarrow> None | Some key \<Rightarrow> clonePeerInfo (ps_peers ps key))"

definition GetByKey :: "PeerStore \<Rightarrow> string \<Rightarrow> PeerInfo option" where
  "GetByKey ps publicKey = clonePeerInfo (ps_peers ps publicKey)"

definition GetAll :: "string list \<Rightarrow> PeerStore \<Rightarrow> PeerInfo option list" where
  "GetAll order ps = map (\<lambda>key. clonePeerInfo (ps_peers ps key)) order"

definition GetEmailMap :: "PeerStore \<Rightarrow> (string \<rightharpoonup> string)" where
  "GetEmailMap ps = (\<lambda>key. map_option pi_Email (ps_peers ps key))"

section \<open>The 1:1 invariant\<close>

definition store_inv :: "(Key \<Rightarrow> string) \<Rightarrow> PeerStore \<Rightarrow> bool" where
  "store_inv ks ps \<longleftrightarrow>
     finite (dom (ps_peers ps)) \<and>
     (\<forall>k p. ps_peers ps k = Some p \<longrightarrow> k = ks (pi_PublicKey p) \<and> ps_emailToKey ps (pi_Email p) = Some k) \<and>
     (\<forall>e k. ps_emailToKey ps e = Some k \<longrightarrow> (\<exists>p. ps_peers ps k = Some p \<and> pi_Email p = e))"

lemma store_invI:
  assumes "finite (dom (ps_peers ps))"
    and "\<And>k p. ps_peers ps k = Some p \<Longrightarrow> k = ks (pi_PublicKey p) \<and> ps_emailToKey ps (pi_Email p) = Some k"
    and "\<And>e k. ps_emailToKey ps e = Some k \<Longrightarrow> \<exists>p. ps_peers ps k = Some p \<and> pi_Email p = e"
  shows "store_inv ks ps"
  using assms by (auto simp: store_inv_def)

lemma store_invD:
  assumes "store_inv ks ps"
  shows "finite (dom (ps_peers ps))"
    and "ps_peers ps k = Some p \<Longrightarrow> ps_emailToKey ps (pi_Email p) = Some k"
    and "ps_peers ps k = Some p \<Longrightarrow> k = ks (pi_PublicKey p)"
    and "ps_emailToKey ps e = Some k \<Longrightarrow> \<exists>p. ps_peers ps k = Some p \<and> pi_Email p = e"
  using assms by (auto simp: store_inv_def)

lemma store_inv_New [simp]: "store_inv ks NewPeerStore"
  by (simp add: store_inv_def NewPeerStore_def)

lemma store_inv_email_inj:
  "store_inv ks ps \<Longrightarrow> ps_peers ps k = Some p \<Longrightarrow> ps_peers ps k' = Some p' \<Longrightarrow> pi_Email p = pi_Email p' \<Longrightarrow> k = k'"
  by (metis option.inject store_invD(2))

lemma remove_step_inv:
  assumes "store_inv ks (fst s)"
  shows "store_inv ks (fst (remove_step key s))"
proof (cases "ps_peers (fst s) key")
  case None
  then show ?thesis using assms by (simp add: remove_step_def split_beta)
next
  case (Some p)
  note d = store_invD [OF assms]
  from Some show ?thesis
    by (intro store_invI)
      (auto simp: remove_step_def split_beta d(1) dest: d(2) d(3) store_inv_email_inj [OF assms]
        split: if_splits dest!: d(4))
qed

lemma upsert_step_Some:
  assumes "store_inv ks ps"
  shows "ps_peers (upsert_step ks (Some p) ps) =
      (\<lambda>k. if k = ks (pi_PublicKey p) then Some p
           else if ps_emailToKey ps (pi_Email p) = Some k then None else ps_peers ps k)"
    and "ps_emailToKey (upsert_step ks (Some p) ps) =
      (\<lambda>e. if e = pi_Email p then Some (ks (pi_PublicKey p))
           else if ps_emailToKey ps e = Some (ks (pi_PublicKey p)) then None else ps_emailToKey ps e)"
  using store_invD(2,4) [OF assms]
  by (fastforce simp: upsert_step_def Let_def fun_eq_iff split: option.split)+

lemma upsert_step_inv:
  assumes "store_inv ks ps"
  shows "store_inv ks (upsert_step ks peer ps)"
proof (cases peer)
  case None
  then show ?thesis using assms by (simp add: upsert_step_def)
next
  case (Some p)
  note d = store_invD [OF assms]
  have "dom (ps_peers (upsert_step ks (Some p) ps)) \<subseteq> insert (ks (pi_PublicKey p)) (dom (ps_peers ps))"
    by (auto simp: upsert_step_Some [OF assms] split: if_splits)
  then have "finite (dom (ps_peers (upsert_step ks (Some p) ps)))"
    using d(1) finite_subset by blast
  moreover have "False" if "ps_peers ps k = Some q" "ps_emailToKey ps (pi_Email p) \<noteq> Some k"
    "pi_Email q = pi_Email p" for k q
    using d(2) [OF that(1)] that(2,3) by simp
  ultimately show ?thesis
    unfolding Some
    by (intro store_invI)
      (auto simp: upsert_step_Some [OF assms] dest: d(2) d(3) store_inv_email_inj [OF assms]
        dest!: d(4) split: if_splits)
qed

section \<open>The abstract registry\<close>

text \<open>
  Seen from outside, the store is a partial map from emails to peers: removing a key drops
  whoever owns it, and inserting a peer first takes its key away from its owner.
\<close>

type_synonym registry = "string \<rightharpoonup> PeerInfo"

definition reg_remove :: "(Key \<Rightarrow> string) \<Rightarrow> string \<Rightarrow> registry \<Rightarrow> registry" where
  "reg_remove ks key r =
    (\<lambda>e. case r e of None \<Rightarrow> None | Some p \<Rightarrow> if ks (pi_PublicKey p) = key then None else Some p)"

definition reg_upsert :: "(Key \<Rightarrow> string) \<Rightarrow> PeerInfo option \<Rightarrow> registry \<Rightarrow> registry" where
  "reg_upsert ks peer r =
    (case peer of
       None \<Rightarrow> r
     | Some p \<Rightarrow> (reg_remove ks (ks (pi_PublicKey p)) r)(pi_Email p \<mapsto> p))"

definition reg_changes :: "(Key \<Rightarrow> string) \<Rightarrow> string list \<Rightarrow> PeerInfo option list \<Rightarrow> registry \<Rightarrow> registry" where
  "reg_changes ks removeKeys upsertPeers r = fold (reg_upsert ks) upsertPeers (fold (reg_remove ks) removeKeys r)"

lemma GetByEmail_iff:
  assumes "store_inv ks ps"
  shows "GetByEmail ps e = Some p \<longleftrightarrow> ps_peers ps (ks (pi_PublicKey p)) = Some p \<and> pi_Email p = e"
proof
  assume "GetByEmail ps e = Some p"
  then obtain k where k: "ps_emailToKey ps e = Some k" "ps_peers ps k = Some p"
    by (auto simp: GetByEmail_def split: option.splits)
  with store_invD(4) [OF assms k(1)] store_invD(3) [OF assms k(2)]
  show "ps_peers ps (ks (pi_PublicKey p)) = Some p \<and> pi_Email p = e" by auto
next
  assume "ps_peers ps (ks (pi_PublicKey p)) = Some p \<and> pi_Email p = e"
  then show "GetByEmail ps e = Some p"
    using store_invD(2) [OF assms] by (auto simp: GetByEmail_def)
qed

lemma reg_ext: "(\<And>e p. r e = Some p \<longleftrightarrow> r' e = Some p) \<Longrightarrow> r = (r' :: registry)"
  by (metis ext not_Some_eq)

lemma reg_upsert_iff: "reg_upsert ks (Some p) r e = Some q \<longleftrightarrow>
    (if e = pi_Email p then q = p else r e = Some q \<and> ks (pi_PublicKey q) \<noteq> ks (pi_PublicKey p))"
  by (auto simp: reg_upsert_def reg_remove_def split: option.split)

lemma GetByEmail_remove:
  assumes "store_inv ks (fst s)"
  shows "GetByEmail (fst (remove_step key s)) = reg_remove ks key (GetByEmail (fst s))"
proof (rule reg_ext)
  fix e p
  have "GetByEmail (fst (remove_step key s)) e = Some p \<longleftrightarrow>
      ps_peers (fst (remove_step key s)) (ks (pi_PublicKey p)) = Some p \<and> pi_Email p = e"
    using GetByEmail_iff [OF remove_step_inv [OF assms]] .
  also have "\<dots> \<longleftrightarrow> ks (pi_PublicKey p) \<noteq> key \<and> GetByEmail (fst s) e = Some p"
    by (auto simp: GetByEmail_iff [OF assms] remove_step_def split_beta split: option.splits)
  also have "\<dots> \<longleftrightarrow> reg_remove ks key (GetByEmail (fst s)) e = Some p"
    by (auto simp: reg_remove_def split: option.split)
  finally show "GetByEmail (fst (remove_step key s)) e = Some p \<longleftrightarrow>
      reg_remove ks key (GetByEmail (fst s)) e = Some p" .
qed

lemma GetByEmail_upsert:
  assumes "store_inv ks ps"
  shows "GetByEmail (upsert_step ks peer ps) = reg_upsert ks peer (GetByEmail ps)"
proof (cases peer)
  case None
  then show ?thesis by (simp add: upsert_step_def reg_upsert_def)
next
  case (Some p)
  show ?thesis
  proof (rule reg_ext)
    fix e q
    have "GetByEmail (upsert_step ks peer ps) e = Some q \<longleftrightarrow>
        ps_peers (upsert_step ks peer ps) (ks (pi_PublicKey q)) = Some q \<and> pi_Email q = e"
      using GetByEmail_iff [OF upsert_step_inv [OF assms]] .
    also have "\<dots> \<longleftrightarrow> (if e = pi_Email p then q = p
        else ks (pi_PublicKey q) \<noteq> ks (pi_PublicKey p) \<and> GetByEmail ps e = Some q)"
      unfolding Some upsert_step_Some [OF assms] GetByEmail_iff [OF assms]
      by (auto dest: store_invD(2) [OF assms] store_invD(4) [OF assms])
    also have "\<dots> \<longleftrightarrow> reg_upsert ks peer (GetByEmail ps) e = Some q"
      by (auto simp: Some reg_upsert_def reg_remove_def split: option.split)
    finally show "GetByEmail (upsert_step ks peer ps) e = Some q \<longleftrightarrow>
        reg_upsert ks peer (GetByEmail ps) e = Some q" .
  qed
qed

lemma remove_steps:
  assumes "store_inv ks (fst s)"
  shows "store_inv ks (fst (fold remove_step keys s)) \<and>
    GetByEmail (fst (fold remove_step keys s)) = fold (reg_remove ks) keys (GetByEmail (fst s))"
  using assms
  by (induction keys arbitrary: s) (simp_all add: remove_step_inv GetByEmail_remove)

lemma upsert_steps:
  assumes "store_inv ks ps"
  shows "store_inv ks (fold (upsert_step ks) peers ps) \<and>
    GetByEmail (fold (upsert_step ks) peers ps) = fold (reg_upsert ks) peers (GetByEmail ps)"
  using assms
  by (induction peers arbitrary: ps) (simp_all add: upsert_step_inv GetByEmail_upsert)

lemma ApplyChanges_refines:
  assumes "store_inv ks ps"
  shows "store_inv ks (snd (ApplyChanges ks removeKeys upsertPeers ps)) \<and>
    GetByEmail (snd (ApplyChanges ks removeKeys upsertPeers ps)) =
      reg_changes ks removeKeys upsertPeers (GetByEmail ps)"
  using remove_steps [of ks "(ps, [])" removeKeys] assms upsert_steps
  by (simp add: ApplyChanges_def split_beta reg_changes_def)

lemma remove_steps_removed:
  assumes "distinct acc" "\<forall>k \<in> set acc. ps_peers ps k = None"
  shows "distinct (snd (fold remove_step keys (ps, acc))) \<and>
    set (snd (fold remove_step keys (ps, acc))) = set acc \<union> set keys \<inter> dom (ps_peers ps)"
  using assms
proof (induction keys arbitrary: ps acc)
  case (Cons k keys)
  show ?case
  proof (cases "ps_peers ps k")
    case None
    with Cons show ?thesis by (auto simp: remove_step_def)
  next
    case (Some p)
    let ?ps' = "ps\<lparr>ps_emailToKey := map_delete (pi_Email p) (ps_emailToKey ps), ps_peers := map_delete k (ps_peers ps)\<rparr>"
    have "distinct (acc @ [k]) \<and> (\<forall>x \<in> set (acc @ [k]). ps_peers ?ps' x = None)"
      using Cons.prems Some by auto
    then have "distinct (snd (fold remove_step keys (?ps', acc @ [k]))) \<and>
        set (snd (fold remove_step keys (?ps', acc @ [k]))) = set (acc @ [k]) \<union> set keys \<inter> dom (ps_peers ?ps')"
      by (intro Cons.IH) blast+
    moreover have "remove_step k (ps, acc) = (?ps', acc @ [k])"
      using Some by (simp add: remove_step_def)
    moreover have "dom (ps_peers ?ps') = dom (ps_peers ps) - {k}" by simp
    ultimately show ?thesis
      using Some by auto
  qed
qed simp

section \<open>Bulk loading\<close>

lemma put_peers:
  assumes "distinct (map pi_Email l)" "distinct (map (\<lambda>p. ks (pi_PublicKey p)) l)"
  shows "(\<forall>k p. ps_peers (fold (put_peer ks) (map Some l) NewPeerStore) k = Some p \<longleftrightarrow>
       p \<in> set l \<and> k = ks (pi_PublicKey p)) \<and>
     (\<forall>e k. ps_emailToKey (fold (put_peer ks) (map Some l) NewPeerStore) e = Some k \<longleftrightarrow>
       (\<exists>p \<in> set l. pi_Email p = e \<and> k = ks (pi_PublicKey p)))"
  using assms
proof (induction l rule: rev_induct)
  case Nil
  then show ?case by (simp add: NewPeerStore_def)
next
  case (snoc p l)
  then show ?case by (auto simp: put_peer_def Let_def image_iff)
qed

lemma put_peers_inv:
  assumes "distinct (map pi_Email l)" "distinct (map (\<lambda>p. ks (pi_PublicKey p)) l)"
  shows "store_inv ks (fold (put_peer ks) (map Some l) NewPeerStore)"
proof (rule store_invI)
  let ?s = "fold (put_peer ks) (map Some l) NewPeerStore"
  note pp = put_peers [OF assms]
  have "dom (ps_peers ?s) \<subseteq> (\<lambda>p. ks (pi_PublicKey p)) ` set l" using pp by blast
  then show "finite (dom (ps_peers ?s))" using finite_subset by blast
  show "k = ks (pi_PublicKey p) \<and> ps_emailToKey ?s (pi_Email p) = Some k" if "ps_peers ?s k = Some p" for k p
    using that pp by blast
  show "\<exists>p. ps_peers ?s k = Some p \<and> pi_Email p = e" if "ps_emailToKey ?s e = Some k" for e k
    using that pp by blast
qed

section \<open>The interface of the store\<close>

locale peer_registry =
  fixes inv :: "'s \<Rightarrow> bool"
    and by_email :: "'s \<Rightarrow> string \<Rightarrow> PeerInfo option"
    and by_key :: "'s \<Rightarrow> string \<Rightarrow> PeerInfo option"
    and change :: "string list \<Rightarrow> PeerInfo option list \<Rightarrow> 's \<Rightarrow> 's"
    and key_text :: "Key \<Rightarrow> string"
  assumes by_key_iff: "inv s \<Longrightarrow>
      by_key s k = Some p \<longleftrightarrow> by_email s (pi_Email p) = Some p \<and> key_text (pi_PublicKey p) = k"
    and email_of: "inv s \<Longrightarrow> by_email s e = Some p \<Longrightarrow> pi_Email p = e"
    and change_inv: "inv s \<Longrightarrow> inv (change rems ups s)"
    and change_email: "inv s \<Longrightarrow> by_email (change rems ups s) = reg_changes key_text rems ups (by_email s)"
begin

lemma key_owner_unique:
  assumes "inv s" "by_email s e = Some p" "by_email s e' = Some p'"
    and "key_text (pi_PublicKey p) = key_text (pi_PublicKey p')"
  shows "e = e' \<and> p = p'"
proof -
  have "by_key s (key_text (pi_PublicKey p)) = Some p" "by_key s (key_text (pi_PublicKey p)) = Some p'"
    using by_key_iff [OF assms(1)] email_of [OF assms(1)] assms(2-4) by auto
  then show ?thesis using email_of [OF assms(1)] assms(2,3) by auto
qed

lemma fold_reg_remove:
  "fold (reg_remove key_text) rems r =
    (\<lambda>e. case r e of None \<Rightarrow> None | Some p \<Rightarrow> if key_text (pi_PublicKey p) \<in> set rems then None else Some p)"
  by (induction rems arbitrary: r) (auto simp: reg_remove_def fun_eq_iff split: option.split)

lemma fold_reg_upsert:
  assumes "distinct (map pi_Email l)" "distinct (map (\<lambda>p. key_text (pi_PublicKey p)) l)"
  shows "fold (reg_upsert key_text) (map Some l) r e = Some q \<longleftrightarrow>
    (q \<in> set l \<and> pi_Email q = e \<or>
     e \<notin> pi_Email ` set l \<and> r e = Some q \<and> key_text (pi_PublicKey q) \<notin> (\<lambda>p. key_text (pi_PublicKey p)) ` set l)"
  using assms
proof (induction l arbitrary: e q rule: rev_induct)
  case Nil
  then show ?case by simp
next
  case (snoc p l)
  then show ?case by (simp add: reg_upsert_iff) (auto simp: image_iff)
qed

text \<open>
  After a change whose inserted peers have different emails and different keys, the peers
  are the inserted ones, and those old ones whose email was not inserted and whose key
  was neither removed nor inserted.
\<close>

lemma change_lookup:
  assumes "inv s" "distinct (map pi_Email l)" "distinct (map (\<lambda>p. key_text (pi_PublicKey p)) l)"
  shows "by_email (change rems (map Some l) s) e = Some q \<longleftrightarrow>
    (q \<in> set l \<and> pi_Email q = e \<or>
     e \<notin> pi_Email ` set l \<and> by_email s e = Some q \<and> key_text (pi_PublicKey q) \<notin> set rems \<and>
     key_text (pi_PublicKey q) \<notin> (\<lambda>p. key_text (pi_PublicKey p)) ` set l)"
  unfolding change_email [OF assms(1)] reg_changes_def fold_reg_upsert [OF assms(2,3)] fold_reg_remove
  by (auto split: option.split)

end

interpretation store: peer_registry "store_inv ks" GetByEmail GetByKey
  "\<lambda>rems ups ps. snd (ApplyChanges ks rems ups ps)" ks for ks
proof
  show "GetByKey s k = Some p \<longleftrightarrow> GetByEmail s (pi_Email p) = Some p \<and> ks (pi_PublicKey p) = k"
    if "store_inv ks s" for s k p
    using that store_invD(3) [OF that] by (auto simp: GetByKey_def GetByEmail_iff)
  show "pi_Email p = e" if "store_inv ks s" "GetByEmail s e = Some p" for s e p
    using that by (simp add: GetByEmail_iff)
  show "store_inv ks (snd (ApplyChanges ks rems ups s))" if "store_inv ks s" for s rems ups
    using ApplyChanges_refines [OF that] by blast
  show "GetByEmail (snd (ApplyChanges ks rems ups s)) = reg_changes ks rems ups (GetByEmail s)"
    if "store_inv ks s" for s rems ups
    using ApplyChanges_refines [OF that] by blast
qed

section \<open>Correctness of the store\<close>

text \<open>C3. ApplyChanges keeps the 1:1 mapping between emails and keys for any removals and upserts
  (nil peers, repeated emails and stolen keys included), implements the abstract registry, and
  reports exactly the keys it removed.\<close>

theorem ApplyChanges_registry:
  assumes "store_inv ks ps"
  shows "store_inv ks (snd (ApplyChanges ks removeKeys upsertPeers ps)) \<and>
    GetByEmail (snd (ApplyChanges ks removeKeys upsertPeers ps)) =
      reg_changes ks removeKeys upsertPeers (GetByEmail ps) \<and>
    distinct (fst (ApplyChanges ks removeKeys upsertPeers ps)) \<and>
    set (fst (ApplyChanges ks removeKeys upsertPeers ps)) = set removeKeys \<inter> dom (ps_peers ps)"
  using ApplyChanges_refines [OF assms] remove_steps_removed [of "[]" ps removeKeys]
  by (simp add: ApplyChanges_def split_beta)

text \<open>After ApplyChanges with upserts of different emails and keys, a lookup finds the
  upserted peers, and an old peer exactly when its email was not upserted and its key was
  neither removed nor upserted.\<close>

theorem ApplyChanges_lookup:
  assumes "store_inv ks ps" "distinct (map pi_Email l)" "distinct (map (\<lambda>p. ks (pi_PublicKey p)) l)"
  shows "GetByEmail (snd (ApplyChanges ks removeKeys (map Some l) ps)) e = Some q \<longleftrightarrow>
    (q \<in> set l \<and> pi_Email q = e \<or>
     e \<notin> pi_Email ` set l \<and> GetByEmail ps e = Some q \<and> ks (pi_PublicKey q) \<notin> set removeKeys \<and>
     ks (pi_PublicKey q) \<notin> (\<lambda>p. ks (pi_PublicKey p)) ` set l)"
  using store.change_lookup [OF assms] .

text \<open>ReplaceAll with peers of different emails and keys establishes the 1:1 mapping from any
  store, holds exactly the given peers, and reports exactly the old keys that are gone.\<close>

theorem ReplaceAll_exact:
  assumes "enumerates order (ps_peers ps)"
    and "distinct (map pi_Email l)" "distinct (map (\<lambda>p. ks (pi_PublicKey p)) l)"
  shows "store_inv ks (snd (ReplaceAll ks order (map Some l) ps)) \<and>
    (\<forall>k p. GetByKey (snd (ReplaceAll ks order (map Some l) ps)) k = Some p \<longleftrightarrow> p \<in> set l \<and> k = ks (pi_PublicKey p)) \<and>
    set (fst (ReplaceAll ks order (map Some l) ps)) =
      dom (ps_peers ps) - (\<lambda>p. ks (pi_PublicKey p)) ` set l"
proof -
  note pp = put_peers [OF assms(2,3)] and inv = put_peers_inv [OF assms(2,3)]
  let ?n = "fold (put_peer ks) (map Some l) NewPeerStore"
  have "dom (ps_peers ?n) = (\<lambda>p. ks (pi_PublicKey p)) ` set l"
    by (auto simp: dom_def pp [THEN conjunct1, rule_format])
  then have "ps_peers ?n k = None \<longleftrightarrow> k \<notin> (\<lambda>p. ks (pi_PublicKey p)) ` set l" for k
    by (metis domIff)
  then have "set (fst (ReplaceAll ks order (map Some l) ps)) =
      dom (ps_peers ps) - (\<lambda>p. ks (pi_PublicKey p)) ` set l"
    using assms(1) by (auto simp: ReplaceAll_def Let_def enumerates_def)
  with pp inv show ?thesis by (simp add: ReplaceAll_def Let_def GetByKey_def)
qed

definition peer_a :: PeerInfo where
  "peer_a = \<lparr>pi_Email = ''a'', pi_PublicKey = ''K1'', pi_AllowedIPs = []\<rparr>"

definition peer_b :: PeerInfo where
  "peer_b = \<lparr>pi_Email = ''b'', pi_PublicKey = ''K2'', pi_AllowedIPs = []\<rparr>"

definition two_peers :: PeerStore where
  "two_peers = ps_Init (\<lambda>k. k) [Some peer_a, None, Some peer_b] NewPeerStore"

lemma two_peers_inv: "store_inv (\<lambda>k. k) two_peers"
  by (rule store_invI)
    (auto simp: two_peers_def ps_Init_def put_peer_def Let_def NewPeerStore_def peer_a_def peer_b_def split: if_splits)

theorem ApplyChanges_registry_witness:
  "GetByEmail (snd (ApplyChanges (\<lambda>k. k) [''K1'', ''K9'', ''K1''] [Some (peer_b\<lparr>pi_PublicKey := ''K3''\<rparr>)] two_peers)) =
    [''b'' \<mapsto> peer_b\<lparr>pi_PublicKey := ''K3''\<rparr>]"
  using ApplyChanges_registry [OF two_peers_inv]
  by (simp add: reg_changes_def reg_remove_def reg_upsert_def two_peers_def ps_Init_def put_peer_def Let_def
      NewPeerStore_def peer_a_def peer_b_def GetByEmail_def fun_eq_iff)

theorem ApplyChanges_lookup_witness:
  "GetByEmail (snd (ApplyChanges (\<lambda>k. k) [''K1''] (map Some [peer_b]) two_peers)) ''b'' = Some peer_b"
  using ApplyChanges_lookup [OF two_peers_inv, of "[peer_b]" "[''K1'']" "''b''" peer_b]
  by (simp add: peer_b_def)

theorem ReplaceAll_exact_witness:
  "set (fst (ReplaceAll (\<lambda>k. k) [''K2'', ''K1''] (map Some [peer_b]) two_peers)) = {''K1''}"
proof -
  have d: "dom (ps_peers two_peers) = {''K1'', ''K2''}"
    by (auto simp: two_peers_def ps_Init_def put_peer_def Let_def NewPeerStore_def peer_a_def peer_b_def
        split: if_splits)
  have "enumerates [''K2'', ''K1''] (ps_peers two_peers)"
    unfolding enumerates_def d by auto
  from ReplaceAll_exact [OF this, of "[peer_b]" "\<lambda>k. k"] show ?thesis
    unfolding d by (auto simp: peer_b_def)
qed

end
