(* ===== verification/WgDevice.thy ===== *)
theory WgDevice
  imports Common PeerStore
begin

text \<open>
  The WireGuard configuration and device manager: \<open>backend/wireguard/config.go\<close> and
  \<open>manager.go\<close>. The kernel is reached through the packages \<open>wgctrl\<close> and \<open>netlink\<close>, which are
  parameters: the record \<open>WgEnv\<close> has one function per call the program makes, on an unknown
  kernel state. \<open>wg_env_ok\<close> states what the program relies on: parsing the text of a key gives
  the key back, a successful \<open>ConfigureDevice\<close> adds and removes the peers it names, and a
  \<open>range\<close> loop visits every key once.
\<close>

section \<open>External code\<close>

text \<open>An error of a system call, with whether it is EPERM or EACCES, and its text.\<close>

datatype SysErr = SysErr (se_perm: bool) (se_text: string)

record PeerConfig =
  pc_PublicKey :: Key
  pc_Remove :: bool
  pc_PresharedKey :: "Key option"
  pc_Keepalive :: "int option"
  pc_ReplaceAllowedIPs :: bool
  pc_AllowedIPs :: "IPNet list"

record DeviceConfig =
  dc_PrivateKey :: "Key option"
  dc_ListenPort :: "int option"
  dc_ReplacePeers :: bool
  dc_Peers :: "PeerConfig list"

datatype LinkLookup = LinkFound | LinkNotFound | LinkError SysErr

record 'k WgEnv =
  we_ParseKey :: "string \<Rightarrow> string + Key"
  we_KeyString :: "Key \<Rightarrow> string"
  we_ParseCIDR :: "string \<Rightarrow> IPNet option"
  we_IPNetString :: "IPNet \<Rightarrow> string"
  we_IPString :: "8 word list \<Rightarrow> string"
  we_ConfigureDevice :: "string \<Rightarrow> DeviceConfig \<Rightarrow> 'k \<Rightarrow> SysErr option \<times> 'k"
  we_ClientClose :: "'k \<Rightarrow> SysErr option \<times> 'k"
  we_ParseAddr :: "string \<Rightarrow> string + string"
  we_LinkByName :: "string \<Rightarrow> 'k \<Rightarrow> LinkLookup"
  we_LinkAdd :: "string \<Rightarrow> 'k \<Rightarrow> SysErr option \<times> 'k"
  we_AddrAdd :: "string \<Rightarrow> string \<Rightarrow> 'k \<Rightarrow> SysErr option \<times> 'k"
  we_LinkSetUp :: "string \<Rightarrow> 'k \<Rightarrow> SysErr option \<times> 'k"
  we_LinkDel :: "string \<Rightarrow> 'k \<Rightarrow> SysErr option \<times> 'k"
  we_order :: "nat \<Rightarrow> 'k \<Rightarrow> string set \<Rightarrow> string list"

text \<open>The public keys on the device after one peer entry of a configuration call.\<close>

definition config_keys :: "PeerConfig \<Rightarrow> Key set \<Rightarrow> Key set" where
  "config_keys pc S = (if pc_Remove pc then S - {pc_PublicKey pc} else insert (pc_PublicKey pc) S)"

definition wg_env_ok :: "'k WgEnv \<Rightarrow> ('k \<Rightarrow> Key set) \<Rightarrow> bool" where
  "wg_env_ok env dev_keys \<longleftrightarrow>
     (\<forall>k. we_ParseKey env (we_KeyString env k) = Inr k) \<and>
     (\<forall>tag s S. finite S \<longrightarrow> distinct (we_order env tag s S) \<and> set (we_order env tag s S) = S) \<and>
     (\<forall>name c s s'. we_ConfigureDevice env name c s = (None, s') \<longrightarrow>
        dev_keys s' = fold config_keys (dc_Peers c) (if dc_ReplacePeers c then {} else dev_keys s))"

section \<open>Configuration\<close>

record LatencyConfig =
  lc_TestURL :: string
  lc_TimeoutSeconds :: int

text \<open>
  The caches of the parsed keys are options: \<open>wc_privateKeyCache\<close> is the pair of
  \<open>privateKeyValue\<close> and \<open>privateKeySet\<close>, \<open>wc_presharedKeyCache\<close> that of the pre-shared key.
\<close>

record WgConfig =
  wc_InterfaceName :: string
  wc_PrivateKey :: string
  wc_PreSharedKey :: string
  wc_ListenPort :: int
  wc_Address :: "string list"
  wc_EgressInterface :: string
  wc_Latency :: "LatencyConfig option"
  wc_ProxyField :: string
  wc_privateKeyCache :: "Key option"
  wc_presharedKeyCache :: "Key option option"

text \<open>\<open>unmarshal\<close> is the JSON decoder of the standard library applied to the configuration.\<close>

definition NewConfig :: "(string \<Rightarrow> string + WgConfig) \<Rightarrow> string \<Rightarrow> string + WgConfig" where
  "NewConfig unmarshal config =
    (case unmarshal config of
       Inl err \<Rightarrow> Inl (''failed to unmarshal config: '' @ err)
     | Inr c0 \<Rightarrow>
         let c1 = (if wc_InterfaceName c0 = [] then c0\<lparr>wc_InterfaceName := ''wg0''\<rparr> else c0);
             c2 = (if wc_ListenPort c1 \<le> 0 then c1\<lparr>wc_ListenPort := 51820\<rparr> else c1);
             l3 = (case wc_Latency c2 of None \<Rightarrow> \<lparr>lc_TestURL = [], lc_TimeoutSeconds = 0\<rparr> | Some l \<Rightarrow> l);
             l4 = (if trim_space (lc_TestURL l3) = []
                   then l3\<lparr>lc_TestURL := ''https://www.gstatic.com/generate_204''\<rparr> else l3);
             l5 = (if lc_TimeoutSeconds l4 \<le> 0 then l4\<lparr>lc_TimeoutSeconds := 5\<rparr> else l4)
         in Inr (c2\<lparr>wc_Latency := Some l5\<rparr>))"

definition InterfaceNetworks :: "'k WgEnv \<Rightarrow> WgConfig \<Rightarrow> IPNet list" where
  "InterfaceNetworks env c =
    List.map_filter (\<lambda>addr. if trim_space addr = [] then None else we_ParseCIDR env (trim_space addr)) (wc_Address c)"

definition GetPrivateKey :: "'k WgEnv \<Rightarrow> WgConfig \<Rightarrow> (string + Key) \<times> WgConfig" where
  "GetPrivateKey env c =
    (case wc_privateKeyCache c of
       Some key \<Rightarrow> (Inr key, c)
     | None \<Rightarrow>
         if wc_PrivateKey c = [] then (Inl ''private key is empty'', c)
         else (case we_ParseKey env (wc_PrivateKey c) of
                 Inl err \<Rightarrow> (Inl err, c)
               | Inr key \<Rightarrow> (Inr key, c\<lparr>wc_privateKeyCache := Some key\<rparr>)))"

definition GetPreSharedKey :: "'k WgEnv \<Rightarrow> WgConfig \<Rightarrow> (string + Key option) \<times> WgConfig" where
  "GetPreSharedKey env c =
    (case wc_presharedKeyCache c of
       Some v \<Rightarrow> (Inr v, c)
     | None \<Rightarrow>
         if wc_PreSharedKey c = [] then (Inr None, c\<lparr>wc_presharedKeyCache := Some None\<rparr>)
         else (case we_ParseKey env (wc_PreSharedKey c) of
                 Inl err \<Rightarrow> (Inl err, c)
               | Inr key \<Rightarrow> (Inr (Some key), c\<lparr>wc_presharedKeyCache := Some (Some key)\<rparr>)))"

fun PrimarySubnet_loop :: "'k WgEnv \<Rightarrow> string list \<Rightarrow> string" where
  "PrimarySubnet_loop env [] = []"
| "PrimarySubnet_loop env (addr # addrs) =
    (case we_ParseCIDR env (trim_space addr) of
       Some n \<Rightarrow> we_IPNetString env n
     | None \<Rightarrow> PrimarySubnet_loop env addrs)"

definition PrimarySubnet :: "'k WgEnv \<Rightarrow> WgConfig \<Rightarrow> string" where
  "PrimarySubnet env c = PrimarySubnet_loop env (wc_Address c)"

section \<open>The device manager\<close>

definition wrapPermissionDeniedError :: "string \<Rightarrow> SysErr option \<Rightarrow> SysErr option" where
  "wrapPermissionDeniedError action err =
    (case err of
       None \<Rightarrow> None
     | Some e \<Rightarrow>
         if se_perm e
         then Some (SysErr True (action @ '': permission denied; WireGuard requires CAP_NET_ADMIN and kernel support on the host (if running in Docker, add NET_ADMIN and ensure the wireguard kernel module is available on the host): '' @ se_text e))
         else Some e)"

text \<open>\<open>fmt.Errorf("msg: %w", err)\<close> keeps the wrapped error for \<open>errors.Is\<close>.\<close>

definition wrap_err :: "string \<Rightarrow> SysErr \<Rightarrow> SysErr" where
  "wrap_err msg e = SysErr (se_perm e) (msg @ se_text e)"

record WgMgr =
  wm_client :: bool
  wm_iFaceName :: string

definition NewManager :: "SysErr option \<Rightarrow> string \<Rightarrow> SysErr + WgMgr" where
  "NewManager wgctrl_New interfaceName =
    (case wgctrl_New of
       Some err \<Rightarrow> Inl (wrap_err ''failed to create wgctrl client: '' err)
     | None \<Rightarrow> Inr \<lparr>wm_client = True, wm_iFaceName = interfaceName\<rparr>)"

definition buildInitialWGConfig :: "Key \<Rightarrow> int \<Rightarrow> PeerConfig list \<Rightarrow> DeviceConfig" where
  "buildInitialWGConfig privateKey listenPort peers =
    (let config = \<lparr>dc_PrivateKey = Some privateKey, dc_ListenPort = Some listenPort, dc_ReplacePeers = False, dc_Peers = []\<rparr>
     in if peers \<noteq> [] then config\<lparr>dc_Peers := peers, dc_ReplacePeers := True\<rparr> else config)"

definition not_initialized :: SysErr where
  "not_initialized = SysErr False ''wgctrl client is not initialized''"

definition cleanupExistingInterface :: "'k WgEnv \<Rightarrow> WgMgr \<Rightarrow> 'k \<Rightarrow> SysErr option \<times> 'k" where
  "cleanupExistingInterface env m s =
    (case we_LinkByName env (wm_iFaceName m) s of
       LinkNotFound \<Rightarrow> (None, s)
     | LinkError e \<Rightarrow> (Some (wrap_err ''link lookup: '' e), s)
     | LinkFound \<Rightarrow>
         (case we_LinkDel env (wm_iFaceName m) s of
            (None, s1) \<Rightarrow> (None, s1)
          | (err, s1) \<Rightarrow>
              (map_option (wrap_err ''link delete: '')
                 (wrapPermissionDeniedError ''deleting wireguard interface'' err), s1)))"

fun parse_addrs :: "'k WgEnv \<Rightarrow> string list \<Rightarrow> SysErr + string list" where
  "parse_addrs env [] = Inr []"
| "parse_addrs env (ip # ips) =
    (case we_ParseAddr env ip of
       Inl e \<Rightarrow> Inl (SysErr False (''failed to parse address '' @ ip @ '': '' @ e))
     | Inr a \<Rightarrow> (case parse_addrs env ips of Inl e \<Rightarrow> Inl e | Inr as \<Rightarrow> Inr (a # as)))"

fun add_addrs :: "'k WgEnv \<Rightarrow> string \<Rightarrow> string list \<Rightarrow> 'k \<Rightarrow> SysErr option \<times> 'k" where
  "add_addrs env name [] s = (None, s)"
| "add_addrs env name (a # as) s =
    (case we_AddrAdd env name a s of
       (None, s1) \<Rightarrow> add_addrs env name as s1
     | (err, s1) \<Rightarrow>
         (map_option (wrap_err (''failed to add address '' @ a @ '': ''))
            (wrapPermissionDeniedError ''assigning wireguard interface address'' err), s1))"

text \<open>The part of \<open>InitializeWithPeers\<close> after the link exists; an error makes the deferred clean-up run.\<close>

definition bring_up :: "'k WgEnv \<Rightarrow> WgMgr \<Rightarrow> DeviceConfig \<Rightarrow> string list \<Rightarrow> 'k \<Rightarrow> SysErr option \<times> 'k" where
  "bring_up env m config addrs s =
    (case we_ConfigureDevice env (wm_iFaceName m) config s of
       (Some e, s1) \<Rightarrow>
         (map_option (wrap_err ''failed to configure device: '')
            (wrapPermissionDeniedError ''configuring wireguard device'' (Some e)), s1)
     | (None, s1) \<Rightarrow>
         (case we_LinkByName env (wm_iFaceName m) s1 of
            LinkNotFound \<Rightarrow> (Some (SysErr False ''failed to get link: Link not found''), s1)
          | LinkError e \<Rightarrow> (Some (wrap_err ''failed to get link: '' e), s1)
          | LinkFound \<Rightarrow>
              (case add_addrs env (wm_iFaceName m) addrs s1 of
                 (Some e, s2) \<Rightarrow> (Some e, s2)
               | (None, s2) \<Rightarrow>
                   (case we_LinkSetUp env (wm_iFaceName m) s2 of
                      (None, s3) \<Rightarrow> (None, s3)
                    | (err, s3) \<Rightarrow>
                        (map_option (wrap_err ''failed to bring up interface: '')
                           (wrapPermissionDeniedError ''bringing wireguard interface up'' err), s3)))))"

definition InitializeWithPeers :: "'k WgEnv \<Rightarrow> WgMgr \<Rightarrow> Key \<Rightarrow> int \<Rightarrow> string list \<Rightarrow> PeerConfig list \<Rightarrow>
    'k \<Rightarrow> SysErr option \<times> 'k" where
  "InitializeWithPeers env m privateKey listenPort serverIPs peers s =
    (if \<not> wm_client m then (Some not_initialized, s)
     else case parse_addrs env serverIPs of
       Inl e \<Rightarrow> (Some e, s)
     | Inr addrs \<Rightarrow>
        (case cleanupExistingInterface env m s of
           (Some e, s1) \<Rightarrow> (Some (wrap_err ''failed to cleanup existing interface: '' e), s1)
         | (None, s1) \<Rightarrow>
            (case we_LinkAdd env (wm_iFaceName m) s1 of
               (Some e, s2) \<Rightarrow>
                 (map_option (wrap_err ''failed to add link: '')
                    (wrapPermissionDeniedError ''creating wireguard interface'' (Some e)), s2)
             | (None, s2) \<Rightarrow>
                (case bring_up env m (buildInitialWGConfig privateKey listenPort peers) addrs s2 of
                   (None, s3) \<Rightarrow> (None, s3)
                 | (Some e, s3) \<Rightarrow> (Some e, snd (cleanupExistingInterface env m s3))))))"

definition ApplyPeers :: "'k WgEnv \<Rightarrow> WgMgr \<Rightarrow> PeerConfig list \<Rightarrow> 'k \<Rightarrow> SysErr option \<times> 'k" where
  "ApplyPeers env m peers s =
    (if peers = [] then (None, s)
     else if \<not> wm_client m then (Some not_initialized, s)
     else we_ConfigureDevice env (wm_iFaceName m)
            \<lparr>dc_PrivateKey = None, dc_ListenPort = None, dc_ReplacePeers = False, dc_Peers = peers\<rparr> s)"

definition ApplyPeersReplaceAll :: "'k WgEnv \<Rightarrow> WgMgr \<Rightarrow> PeerConfig list \<Rightarrow> 'k \<Rightarrow> SysErr option \<times> 'k" where
  "ApplyPeersReplaceAll env m peers s =
    (if \<not> wm_client m then (Some not_initialized, s)
     else we_ConfigureDevice env (wm_iFaceName m)
            \<lparr>dc_PrivateKey = None, dc_ListenPort = None, dc_ReplacePeers = True, dc_Peers = peers\<rparr> s)"

definition ApplyConfig :: "'k WgEnv \<Rightarrow> WgMgr \<Rightarrow> DeviceConfig \<Rightarrow> 'k \<Rightarrow> SysErr option \<times> 'k" where
  "ApplyConfig env m config s =
    (if \<not> wm_client m then (Some not_initialized, s)
     else we_ConfigureDevice env (wm_iFaceName m) config s)"

definition Manager_Close :: "'k WgEnv \<Rightarrow> WgMgr \<Rightarrow> 'k \<Rightarrow> SysErr list \<times> WgMgr \<times> 'k" where
  "Manager_Close env m s =
    (let m1 = m\<lparr>wm_client := False\<rparr>;
         (e1, s1) = (if wm_client m then we_ClientClose env s else (None, s));
         (e2, s2) = cleanupExistingInterface env m1 s1
     in (map (wrap_err ''client close: '') (case e1 of None \<Rightarrow> [] | Some e \<Rightarrow> [e]) @
         (case e2 of None \<Rightarrow> [] | Some e \<Rightarrow> [e]), m1, s2))"

end
