(* ===== verification/WgSync.thy ===== *)
theory WgSync
  imports WgDevice Tracker
begin

text \<open>
  The WireGuard back end's user synchronisation: \<open>backend/wireguard/user_common.go\<close>,
  \<open>user_full_sync.go\<close>, \<open>user_partial_sync.go\<close>, \<open>user.go\<close>, the limits bookkeeping of
  \<open>iplimit.go\<close> and the life cycle of \<open>wireguard.go\<close>. The theorems show that a successful
  synchronisation leaves the peer store and the kernel device with exactly the peers the
  users ask for.
\<close>

unbundle bit_operations_syntax

section \<open>Networks\<close>

definition To4 :: "8 word list \<Rightarrow> 8 word list option" where
  "To4 ip =
    (if length ip = 4 then Some ip
     else if length ip = 16 \<and> take 10 ip = replicate 10 0 \<and> ip ! 10 = 0xff \<and> ip ! 11 = 0xff
     then Some (drop 12 ip)
     else None)"

definition networkNumberAndMask :: "IPNet \<Rightarrow> (8 word list \<times> 8 word list) option" where
  "networkNumberAndMask n =
    (case (case To4 (ipn_IP n) of
             Some ip \<Rightarrow> Some ip
           | None \<Rightarrow> if length (ipn_IP n) = 16 then Some (ipn_IP n) else None) of
       None \<Rightarrow> None
     | Some ip \<Rightarrow>
         let m = ipn_Mask n in
         if length m = 4 then (if length ip \<noteq> 4 then None else Some (ip, m))
         else if length m = 16 then (if length ip = 4 then Some (ip, drop 12 m) else Some (ip, m))
         else None)"

definition IPNet_Contains :: "IPNet \<Rightarrow> 8 word list \<Rightarrow> bool" where
  "IPNet_Contains n ip =
    (let (nn, m) = (case networkNumberAndMask n of None \<Rightarrow> ([], []) | Some p \<Rightarrow> p);
         x = (case To4 ip of Some x \<Rightarrow> x | None \<Rightarrow> ip)
     in length x = length nn \<and> list_all (\<lambda>i. nn ! i AND m ! i = x ! i AND m ! i) [0..<length x])"

text \<open>The prefix length of a mask whose ones come first, 0 otherwise, as \<open>Mask.Size\<close> gives it.\<close>

definition mask_bits :: "8 word list \<Rightarrow> bool list" where
  "mask_bits m = concat (map (\<lambda>b. map (bit b) (rev [0..<8])) m)"

definition Mask_Size :: "8 word list \<Rightarrow> nat" where
  "Mask_Size m =
    (let ones = length (takeWhile id (mask_bits m))
     in if list_all Not (drop ones (mask_bits m)) then ones else 0)"

fun peerIPAllowedOnInterface_loop :: "IPNet \<Rightarrow> IPNet list \<Rightarrow> bool" where
  "peerIPAllowedOnInterface_loop peerNet [] = False"
| "peerIPAllowedOnInterface_loop peerNet (pool # pools) =
    (if length (ipn_IP peerNet) \<noteq> length (ipn_IP pool) then peerIPAllowedOnInterface_loop peerNet pools
     else if \<not> IPNet_Contains pool (ipn_IP peerNet) then peerIPAllowedOnInterface_loop peerNet pools
     else if Mask_Size (ipn_Mask peerNet) \<ge> Mask_Size (ipn_Mask pool) then True
     else peerIPAllowedOnInterface_loop peerNet pools)"

definition peerIPAllowedOnInterface :: "IPNet \<Rightarrow> IPNet list \<Rightarrow> bool" where
  "peerIPAllowedOnInterface peerNet ifaceNets =
    (if ifaceNets = [] then True else peerIPAllowedOnInterface_loop peerNet ifaceNets)"

section \<open>Peer configurations\<close>

definition buildAddConfig :: "Key \<Rightarrow> IPNet list \<Rightarrow> Key option \<Rightarrow> PeerConfig" where
  "buildAddConfig publicKey allowedIPs presharedKey =
    \<lparr>pc_PublicKey = publicKey, pc_Remove = False, pc_PresharedKey = presharedKey, pc_Keepalive = Some 0,
     pc_ReplaceAllowedIPs = False, pc_AllowedIPs = allowedIPs\<rparr>"

definition buildRemoveConfig :: "Key \<Rightarrow> PeerConfig" where
  "buildRemoveConfig publicKey =
    \<lparr>pc_PublicKey = publicKey, pc_Remove = True, pc_PresharedKey = None, pc_Keepalive = None,
     pc_ReplaceAllowedIPs = False, pc_AllowedIPs = []\<rparr>"

definition buildAddConfigFromPeerInfo :: "PeerInfo \<Rightarrow> Key option \<Rightarrow> string + PeerConfig" where
  "buildAddConfigFromPeerInfo peer presharedKey =
    (if pi_AllowedIPs peer = [] then Inl (''peer '' @ pi_Email peer @ '' has no allowed IPs'')
     else Inr (buildAddConfig (pi_PublicKey peer) (pi_AllowedIPs peer) presharedKey))"

record DesiredPeer =
  dp_Email :: string
  dp_PublicKey :: string
  dp_ParsedKey :: Key
  dp_AllowedIPNets :: "IPNet list"

record SyncDiff =
  sd_RemoveKeys :: "string list"
  sd_UpsertPeers :: "PeerInfo list"
  sd_PeerConfigs :: "PeerConfig list"
  sd_TargetPeers :: "string \<rightharpoonup> PeerInfo"
  sd_Changed :: bool

section \<open>The users asked for\<close>

definition userWireguardProxy :: "UserPtr \<Rightarrow> string \<Rightarrow> Wireguard option" where
  "userWireguardProxy user proxyField =
    (case GetProxies user of
       None \<Rightarrow> None
     | Some px \<Rightarrow>
         if proxyField = ''wg_c'' then px_WgC px
         else if proxyField = ''amneziawg'' then px_Amneziawg px
         else px_Wireguard px)"

definition shouldIncludeUserInInterface :: "UserPtr \<Rightarrow> string \<Rightarrow> bool" where
  "shouldIncludeUserInInterface user interfaceName \<longleftrightarrow> interfaceName \<in> set (GetInbounds user)"

definition usable_user :: "string \<Rightarrow> UserPtr \<Rightarrow> bool" where
  "usable_user proxyField user \<longleftrightarrow>
    user \<noteq> None \<and> GetEmail user \<noteq> [] \<and>
    (case userWireguardProxy user proxyField of
       None \<Rightarrow> False
     | Some w \<Rightarrow> wgp_PublicKey w \<noteq> [] \<and> wgp_PeerIps w \<noteq> [])"

definition last_by_email :: "string \<Rightarrow> UserPtr list \<Rightarrow> (string \<rightharpoonup> UserPtr)" where
  "last_by_email proxyField users =
    fold (\<lambda>user m. if usable_user proxyField user then m(GetEmail user \<mapsto> user) else m) users Map.empty"

text \<open>\<open>order\<close> gives the order of the loop that lists the map.\<close>

definition normalizeUsersWithProxy :: "(string set \<Rightarrow> string list) \<Rightarrow> UserPtr list \<Rightarrow> string \<Rightarrow> UserPtr list" where
  "normalizeUsersWithProxy order users proxyField =
    (let lastByEmail = last_by_email proxyField users
     in map (\<lambda>e. the (lastByEmail e)) (order (dom lastByEmail)))"

text \<open>
  The addresses of one user: an invalid one quarantines the user, one outside the
  interface's networks is skipped, and one another user already has is an error.
\<close>

fun collect_ips :: "'k WgEnv \<Rightarrow> IPNet list \<Rightarrow> string \<Rightarrow> string list \<Rightarrow> IPNet list \<Rightarrow> (string \<rightharpoonup> string) \<Rightarrow>
    string + (bool \<times> IPNet list \<times> (string \<rightharpoonup> string))" where
  "collect_ips env ifaceNets email [] nets seenIPs = Inr (False, nets, seenIPs)"
| "collect_ips env ifaceNets email (peerIp # peerIps) nets seenIPs =
    (case we_ParseCIDR env peerIp of
       None \<Rightarrow> Inr (True, nets, seenIPs)
     | Some ipNet \<Rightarrow>
         if \<not> peerIPAllowedOnInterface ipNet ifaceNets
         then collect_ips env ifaceNets email peerIps nets seenIPs
         else
           let canonicalIP = we_IPNetString env ipNet in
           case seenIPs canonicalIP of
             Some existingEmail \<Rightarrow>
               if existingEmail \<noteq> email
               then Inl (''duplicate wireguard allowed IP '' @ canonicalIP @ '' assigned to users '' @
                         existingEmail @ '' and '' @ email)
               else collect_ips env ifaceNets email peerIps (nets @ [ipNet]) (seenIPs(canonicalIP \<mapsto> email))
           | None \<Rightarrow> collect_ips env ifaceNets email peerIps (nets @ [ipNet]) (seenIPs(canonicalIP \<mapsto> email)))"

definition collect_user :: "'k WgEnv \<Rightarrow> WgConfig \<Rightarrow> UserPtr \<Rightarrow>
    (string \<rightharpoonup> DesiredPeer) \<times> (string \<rightharpoonup> string) \<Rightarrow> string + (string \<rightharpoonup> DesiredPeer) \<times> (string \<rightharpoonup> string)" where
  "collect_user env config user s =
    (case s of (desiredPeers, seenIPs) \<Rightarrow>
      if \<not> shouldIncludeUserInInterface user (wc_InterfaceName config) then Inr s
      else
        let email = GetEmail user in
        case userWireguardProxy user (wc_ProxyField config) of
          None \<Rightarrow> Inr s
        | Some wgProxy \<Rightarrow>
            let publicKey = wgp_PublicKey wgProxy in
            case we_ParseKey env publicKey of
              Inl err \<Rightarrow> Inr s
            | Inr parsedKey \<Rightarrow>
                case collect_ips env (InterfaceNetworks env config) email (wgp_PeerIps wgProxy) [] seenIPs of
                  Inl err \<Rightarrow> Inl err
                | Inr (hasInvalidIP, allowedIPNets, seenIPs') \<Rightarrow>
                    if hasInvalidIP \<or> allowedIPNets = [] then Inr (desiredPeers, seenIPs')
                    else
                      let put = desiredPeers(publicKey \<mapsto>
                            \<lparr>dp_Email = email, dp_PublicKey = publicKey, dp_ParsedKey = parsedKey,
                             dp_AllowedIPNets = allowedIPNets\<rparr>)
                      in (case desiredPeers publicKey of
                            Some existing \<Rightarrow>
                              if dp_Email existing \<noteq> email
                              then Inl (''wireguard public key '' @ publicKey @ '' is assigned to multiple users: '' @
                                        dp_Email existing @ '' and '' @ email)
                              else Inr (put, seenIPs')
                          | None \<Rightarrow> Inr (put, seenIPs')))"

fun collect_users :: "'k WgEnv \<Rightarrow> WgConfig \<Rightarrow> UserPtr list \<Rightarrow>
    (string \<rightharpoonup> DesiredPeer) \<times> (string \<rightharpoonup> string) \<Rightarrow> string + (string \<rightharpoonup> DesiredPeer) \<times> (string \<rightharpoonup> string)" where
  "collect_users env config [] s = Inr s"
| "collect_users env config (user # users) s =
    (case collect_user env config user s of
       Inl err \<Rightarrow> Inl err
     | Inr s' \<Rightarrow> collect_users env config users s')"

definition collectDesiredPeers :: "'k WgEnv \<Rightarrow> WgConfig \<Rightarrow> UserPtr list \<Rightarrow> string + (string \<rightharpoonup> DesiredPeer)" where
  "collectDesiredPeers env config users =
    (case collect_users env config users (Map.empty, Map.empty) of
       Inl err \<Rightarrow> Inl err
     | Inr s \<Rightarrow> Inr (fst s))"

section \<open>Differences\<close>

definition target_of :: "DesiredPeer \<Rightarrow> PeerInfo" where
  "target_of d = \<lparr>pi_Email = dp_Email d, pi_PublicKey = dp_ParsedKey d, pi_AllowedIPs = dp_AllowedIPNets d\<rparr>"

definition target_peers :: "(string \<rightharpoonup> DesiredPeer) \<Rightarrow> (string \<rightharpoonup> PeerInfo)" where
  "target_peers desired = (\<lambda>k. map_option target_of (desired k))"

definition ipnets_equal :: "'k WgEnv \<Rightarrow> IPNet list \<Rightarrow> IPNet list \<Rightarrow> bool" where
  "ipnets_equal env xs ys \<longleftrightarrow>
    length xs = length ys \<and> list_all2 (\<lambda>x y. we_IPNetString env x = we_IPNetString env y) xs ys"

type_synonym diff_state = "string set \<times> (string \<rightharpoonup> PeerInfo) \<times> PeerConfig list"

definition diff_existing :: "'k WgEnv \<Rightarrow> Key option \<Rightarrow> (string \<rightharpoonup> PeerInfo) \<Rightarrow> (string \<rightharpoonup> PeerInfo) \<Rightarrow>
    string \<Rightarrow> diff_state \<Rightarrow> diff_state" where
  "diff_existing env psk existingPeers targetPeers key st =
    (case st of (removeSet, upsertByKey, peerConfigs) \<Rightarrow>
      case existingPeers key of
        None \<Rightarrow> st
      | Some existing \<Rightarrow>
          (case targetPeers key of
             None \<Rightarrow> (insert key removeSet, upsertByKey, peerConfigs)
           | Some target \<Rightarrow>
               let ipnetsEqual = ipnets_equal env (pi_AllowedIPs existing) (pi_AllowedIPs target) in
               if pi_Email existing \<noteq> pi_Email target \<or> \<not> ipnetsEqual
               then if \<not> ipnetsEqual
                    then (case buildAddConfigFromPeerInfo target psk of
                            Inl err \<Rightarrow> st
                          | Inr config \<Rightarrow>
                              (removeSet, upsertByKey(key \<mapsto> target),
                               peerConfigs @ [config\<lparr>pc_ReplaceAllowedIPs := True\<rparr>]))
                    else (removeSet, upsertByKey(key \<mapsto> target), peerConfigs)
               else st))"

definition diff_target :: "Key option \<Rightarrow> (string \<rightharpoonup> PeerInfo) \<Rightarrow> (string \<rightharpoonup> PeerInfo) \<Rightarrow>
    string \<Rightarrow> diff_state \<Rightarrow> diff_state" where
  "diff_target psk existingPeers targetPeers key st =
    (case st of (removeSet, upsertByKey, peerConfigs) \<Rightarrow>
      case targetPeers key of
        None \<Rightarrow> st
      | Some target \<Rightarrow>
          if existingPeers key \<noteq> None then st
          else (case buildAddConfigFromPeerInfo target psk of
                  Inl err \<Rightarrow> st
                | Inr config \<Rightarrow> (removeSet, upsertByKey(key \<mapsto> target), peerConfigs @ [config])))"

text \<open>A list of the keys of a map in sorted order, from the order of the loop that lists them.\<close>

definition sorted_keys :: "(string set \<Rightarrow> string list) \<Rightarrow> string set \<Rightarrow> string list" where
  "sorted_keys order S = sort (order S)"

definition buildRemoveConfigsForPeers :: "'k WgEnv \<Rightarrow> (string set \<Rightarrow> string list) \<Rightarrow> string set \<Rightarrow>
    string list \<times> PeerConfig list" where
  "buildRemoveConfigsForPeers env order removeSet =
    (let valid = filter (\<lambda>key. case we_ParseKey env key of Inl _ \<Rightarrow> False | Inr _ \<Rightarrow> True) (sorted_keys order removeSet)
     in (valid, map (\<lambda>key. buildRemoveConfig (case we_ParseKey env key of Inl _ \<Rightarrow> [] | Inr k \<Rightarrow> k)) valid))"

definition buildSyncDiff :: "'k WgEnv \<Rightarrow> (nat \<Rightarrow> string set \<Rightarrow> string list) \<Rightarrow> Key option \<Rightarrow>
    (string \<rightharpoonup> PeerInfo) \<Rightarrow> (string \<rightharpoonup> DesiredPeer) \<Rightarrow> SyncDiff" where
  "buildSyncDiff env order psk existingPeers desiredPeers =
    (let targetPeers = target_peers desiredPeers;
         st1 = fold (diff_existing env psk existingPeers targetPeers) (order 1 (dom existingPeers)) ({}, Map.empty, []);
         (removeSet, upsertByKey, peerConfigs) =
           fold (diff_target psk existingPeers targetPeers) (order 2 (dom targetPeers)) st1;
         (removeKeys, removeConfigs) = buildRemoveConfigsForPeers env (order 3) removeSet;
         upsertPeers = map (\<lambda>key. the (upsertByKey key)) (sorted_keys (order 4) (dom upsertByKey))
     in \<lparr>sd_RemoveKeys = removeKeys, sd_UpsertPeers = upsertPeers,
         sd_PeerConfigs = peerConfigs @ removeConfigs, sd_TargetPeers = targetPeers,
         sd_Changed = (removeKeys \<noteq> [] \<or> upsertPeers \<noteq> [])\<rparr>)"

definition buildTargetPeerConfigs :: "(string set \<Rightarrow> string list) \<Rightarrow> (string \<rightharpoonup> PeerInfo) \<Rightarrow> Key option \<Rightarrow>
    PeerConfig list \<times> string set" where
  "buildTargetPeerConfigs order targetPeers presharedKey =
    fold (\<lambda>key (configs, appliedKeys).
            case buildAddConfigFromPeerInfo (the (targetPeers key)) presharedKey of
              Inl err \<Rightarrow> (configs, appliedKeys)
            | Inr config \<Rightarrow> (configs @ [config], insert key appliedKeys))
      (sorted_keys order (dom targetPeers)) ([], {})"

definition filterUpsertsByAppliedKeys :: "'k WgEnv \<Rightarrow> PeerInfo list \<Rightarrow> string set \<Rightarrow> PeerInfo list" where
  "filterUpsertsByAppliedKeys env upserts appliedKeys =
    (if card appliedKeys = length upserts then upserts
     else filter (\<lambda>p. we_KeyString env (pi_PublicKey p) \<in> appliedKeys) upserts)"

section \<open>The back end\<close>

datatype lifecycleState = lifecycleStopped | lifecycleStarting | lifecycleRunning

record 'k WireGuard =
  wg_config :: WgConfig
  wg_manager :: "WgMgr option"
  wg_statsTracker :: Tracker
  wg_peerStore :: PeerStore
  wg_interfaceStats :: InterfaceCountersTracker
  wg_state :: lifecycleState
  wg_version :: string
  wg_lastStatsErrAt :: gotime
  wg_userLimits :: "string \<rightharpoonup> u32"
  wg_userSpeed :: "string \<rightharpoonup> u32"
  wg_ipWindow :: "string \<rightharpoonup> (string \<rightharpoonup> gotime)"
  wg_overStrikes :: "string \<rightharpoonup> int"
  wg_kicked :: "string \<rightharpoonup> gotime"
  wg_kernel :: 'k

definition wg_order :: "'k WgEnv \<Rightarrow> 'k WireGuard \<Rightarrow> nat \<Rightarrow> string set \<Rightarrow> string list" where
  "wg_order env wg tag S = we_order env tag (wg_kernel wg) S"

definition lifecycleReadinessError :: "lifecycleState \<Rightarrow> string option" where
  "lifecycleReadinessError state =
    (case state of lifecycleRunning \<Rightarrow> None | _ \<Rightarrow> Some ''wireguard not started'')"

definition ensureRunningWithManagerLocked :: "'k WireGuard \<Rightarrow> string option" where
  "ensureRunningWithManagerLocked wg =
    (case lifecycleReadinessError (wg_state wg) of
       Some err \<Rightarrow> Some err
     | None \<Rightarrow> if wg_manager wg = None then Some ''wireguard manager not initialized'' else None)"

text \<open>\<open>psk, _ := wg.config.GetPreSharedKey()\<close>: the error is dropped, the cache may be filled.\<close>

definition wg_psk :: "'k WgEnv \<Rightarrow> 'k WireGuard \<Rightarrow> Key option \<times> 'k WireGuard" where
  "wg_psk env wg =
    (case GetPreSharedKey env (wg_config wg) of
       (r, c) \<Rightarrow> (case r of Inl _ \<Rightarrow> None | Inr k \<Rightarrow> k, wg\<lparr>wg_config := c\<rparr>))"

section \<open>Limits\<close>

definition remember_user :: "UserPtr \<Rightarrow> (string \<rightharpoonup> u32) \<times> (string \<rightharpoonup> u32) \<Rightarrow> (string \<rightharpoonup> u32) \<times> (string \<rightharpoonup> u32)" where
  "remember_user u m =
    (if GetEmail u = [] then m
     else ((fst m)(GetEmail u \<mapsto> GetIpLimit u), (snd m)(GetEmail u \<mapsto> GetSpeedLimit u)))"

definition rememberLimits :: "UserPtr list \<Rightarrow> bool \<Rightarrow> 'k WireGuard \<Rightarrow> 'k WireGuard" where
  "rememberLimits users replace wg =
    (if replace
     then let (next, nextSpeed) = fold remember_user users (Map.empty, Map.empty)
          in wg\<lparr>wg_userLimits := next, wg_userSpeed := nextSpeed\<rparr>
     else let (limits, speed) = fold remember_user users (wg_userLimits wg, wg_userSpeed wg)
          in wg\<lparr>wg_userLimits := limits, wg_userSpeed := speed,
                wg_kicked := fold (\<lambda>u k. if GetEmail u = [] then k else map_delete (GetEmail u) k) users (wg_kicked wg)\<rparr>)"

section \<open>Synchronisation\<close>

definition wg_normalizeUsers :: "'k WgEnv \<Rightarrow> 'k WireGuard \<Rightarrow> UserPtr list \<Rightarrow> UserPtr list" where
  "wg_normalizeUsers env wg users = normalizeUsersWithProxy (wg_order env wg 0) users (wc_ProxyField (wg_config wg))"

definition key_peers :: "'k WgEnv \<Rightarrow> PeerInfo option list \<Rightarrow> (string \<rightharpoonup> PeerInfo)" where
  "key_peers env peers =
    fold (\<lambda>p m. case p of None \<Rightarrow> m | Some p \<Rightarrow> m(we_KeyString env (pi_PublicKey p) \<mapsto> p)) peers Map.empty"

definition buildExistingPeersByKeySnapshot :: "'k WgEnv \<Rightarrow> 'k WireGuard \<Rightarrow> (string \<rightharpoonup> PeerInfo)" where
  "buildExistingPeersByKeySnapshot env wg =
    key_peers env (GetAll (wg_order env wg 5 (dom (ps_peers (wg_peerStore wg)))) (wg_peerStore wg))"

definition buildExistingPeersSubsetForTouched :: "'k WgEnv \<Rightarrow> 'k WireGuard \<Rightarrow> string set \<Rightarrow> (string \<rightharpoonup> PeerInfo)" where
  "buildExistingPeersSubsetForTouched env wg touchedEmails =
    key_peers env (map (GetByEmail (wg_peerStore wg)) (wg_order env wg 6 touchedEmails))"

definition remove_stats :: "string list \<Rightarrow> 'k WireGuard \<Rightarrow> 'k WireGuard" where
  "remove_stats keys wg = wg\<lparr>wg_statsTracker := fold RemoveStats keys (wg_statsTracker wg)\<rparr>"

definition apply_err :: "string \<Rightarrow> SysErr \<Rightarrow> string" where
  "apply_err msg e = msg @ se_text e"

definition syncUsersFull :: "'k WgEnv \<Rightarrow> UserPtr list \<Rightarrow> 'k WireGuard \<Rightarrow> string option \<times> 'k WireGuard" where
  "syncUsersFull env users wg =
    (let normalizedUsers = wg_normalizeUsers env wg users;
         existingByKey = buildExistingPeersByKeySnapshot env wg
     in case collectDesiredPeers env (wg_config wg) normalizedUsers of
          Inl err \<Rightarrow> (Some err, wg)
        | Inr desiredPeers \<Rightarrow>
           let (psk1, wg1) = wg_psk env wg;
               diff = buildSyncDiff env (wg_order env wg) psk1 existingByKey desiredPeers
           in if \<not> sd_Changed diff then (None, wg1)
              else
                let (psk, wg2) = wg_psk env wg1;
                    (peerConfigs, appliedKeys) = buildTargetPeerConfigs (wg_order env wg 7) (sd_TargetPeers diff) psk
                in case ensureRunningWithManagerLocked wg2 of
                     Some err \<Rightarrow> (Some err, wg2)
                   | None \<Rightarrow>
                      (case ApplyPeersReplaceAll env (the (wg_manager wg2)) peerConfigs (wg_kernel wg2) of
                         (Some e, k) \<Rightarrow> (Some (apply_err ''failed to apply full peer snapshot: '' e), wg2\<lparr>wg_kernel := k\<rparr>)
                       | (None, k) \<Rightarrow>
                          let validTargetPeers =
                                map (sd_TargetPeers diff)
                                  (filter (\<lambda>key. key \<in> appliedKeys) (wg_order env wg 8 (dom (sd_TargetPeers diff))));
                              (removedKeys, store) =
                                ReplaceAll (we_KeyString env) (wg_order env wg 9 (dom (ps_peers (wg_peerStore wg2))))
                                  validTargetPeers (wg_peerStore wg2)
                          in (None, remove_stats removedKeys (wg2\<lparr>wg_kernel := k, wg_peerStore := store\<rparr>))))"

text \<open>The keys desired by a user whose current owner is not part of the update.\<close>

fun owner_conflict :: "(string \<rightharpoonup> string) \<Rightarrow> string set \<Rightarrow> (string \<rightharpoonup> DesiredPeer) \<Rightarrow> string list \<Rightarrow> string option" where
  "owner_conflict currentOwners touched desired [] = None"
| "owner_conflict currentOwners touched desired (key # keys) =
    (case desired key of
       None \<Rightarrow> owner_conflict currentOwners touched desired keys
     | Some d \<Rightarrow>
         (case currentOwners key of
            None \<Rightarrow> owner_conflict currentOwners touched desired keys
          | Some currentOwner \<Rightarrow>
              if currentOwner = dp_Email d then owner_conflict currentOwners touched desired keys
              else if currentOwner \<notin> touched
              then Some (''wireguard public key '' @ key @ '' is already assigned to user '' @ currentOwner)
              else owner_conflict currentOwners touched desired keys))"

definition commit_partial :: "'k WgEnv \<Rightarrow> SyncDiff \<Rightarrow> 'k WireGuard \<Rightarrow> string option \<times> 'k WireGuard" where
  "commit_partial env diff wg =
    (let (removedKeys, store) =
       ApplyChanges (we_KeyString env) (sd_RemoveKeys diff) (map Some (sd_UpsertPeers diff)) (wg_peerStore wg)
     in (None, remove_stats removedKeys (wg\<lparr>wg_peerStore := store\<rparr>)))"

definition syncUsersPartialReconcile :: "'k WgEnv \<Rightarrow> UserPtr list \<Rightarrow> 'k WireGuard \<Rightarrow> string option \<times> 'k WireGuard" where
  "syncUsersPartialReconcile env users wg =
    (let normalizedUsers = wg_normalizeUsers env wg users;
         touchedEmails = GetEmail ` set normalizedUsers;
         existingSubset = buildExistingPeersSubsetForTouched env wg touchedEmails
     in case collectDesiredPeers env (wg_config wg) normalizedUsers of
          Inl err \<Rightarrow> (Some err, wg)
        | Inr desiredPeers \<Rightarrow>
          (case owner_conflict (GetEmailMap (wg_peerStore wg)) touchedEmails desiredPeers
                  (wg_order env wg 10 (dom desiredPeers)) of
             Some err \<Rightarrow> (Some err, wg)
           | None \<Rightarrow>
             let (psk, wg1) = wg_psk env wg;
                 diff = buildSyncDiff env (wg_order env wg) psk existingSubset desiredPeers
             in if sd_PeerConfigs diff = [] then commit_partial env diff wg1
                else
                  (case ensureRunningWithManagerLocked wg1 of
                     Some err \<Rightarrow> (Some err, wg1)
                   | None \<Rightarrow>
                      (case ApplyPeers env (the (wg_manager wg1)) (sd_PeerConfigs diff) (wg_kernel wg1) of
                         (Some e, k) \<Rightarrow> (Some (apply_err ''failed to apply peer changes: '' e), wg1\<lparr>wg_kernel := k\<rparr>)
                       | (None, k) \<Rightarrow> commit_partial env diff (wg1\<lparr>wg_kernel := k\<rparr>)))))"

section \<open>Restart, start and shutdown\<close>

fun restart_configs :: "PeerInfo list \<Rightarrow> Key option \<Rightarrow> string + PeerConfig list" where
  "restart_configs [] psk = Inr []"
| "restart_configs (peer # peers) psk =
    (if pi_AllowedIPs peer = [] then Inl (''peer '' @ pi_Email peer @ '' has no allowed IPs'')
     else case restart_configs peers psk of
            Inl e \<Rightarrow> Inl e
          | Inr cs \<Rightarrow> Inr (buildAddConfig (pi_PublicKey peer) (pi_AllowedIPs peer) psk # cs))"

definition buildPeerConfigsForRestart :: "'k WgEnv \<Rightarrow> PeerInfo list \<Rightarrow> Key option \<Rightarrow> string + PeerConfig list" where
  "buildPeerConfigsForRestart env peers psk =
    restart_configs (sort_key (\<lambda>p. we_KeyString env (pi_PublicKey p)) peers) psk"

definition restartLocked :: "'k WgEnv \<Rightarrow> 'k WireGuard \<Rightarrow> string option \<times> 'k WireGuard" where
  "restartLocked env wg =
    (case GetPrivateKey env (wg_config wg) of
       (Inl err, c) \<Rightarrow> (Some (''failed to get private key: '' @ err), wg\<lparr>wg_config := c\<rparr>)
     | (Inr privateKey, c) \<Rightarrow>
        let wg0 = wg\<lparr>wg_config := c\<rparr>;
            allPeers = List.map_filter id
              (GetAll (wg_order env wg 11 (dom (ps_peers (wg_peerStore wg0)))) (wg_peerStore wg0));
            (psk, wg1) = wg_psk env wg0
        in case buildPeerConfigsForRestart env allPeers psk of
             Inl err \<Rightarrow> (Some (''failed to build restart peer configs: '' @ err), wg1)
           | Inr peerConfigs \<Rightarrow>
              (case ensureRunningWithManagerLocked wg1 of
                 Some err \<Rightarrow> (Some err, wg1)
               | None \<Rightarrow>
                  (case ApplyConfig env (the (wg_manager wg1))
                          \<lparr>dc_PrivateKey = Some privateKey, dc_ListenPort = Some (wc_ListenPort c),
                           dc_ReplacePeers = True, dc_Peers = peerConfigs\<rparr> (wg_kernel wg1) of
                     (Some e, k) \<Rightarrow>
                       (Some (apply_err ''failed to reconfigure interface during restart: '' e), wg1\<lparr>wg_kernel := k\<rparr>)
                   | (None, k) \<Rightarrow> (None, wg1\<lparr>wg_kernel := k\<rparr>))))"

definition wg_Restart :: "'k WgEnv \<Rightarrow> 'k WireGuard \<Rightarrow> string option \<times> 'k WireGuard" where
  "wg_Restart env wg = restartLocked env wg"

definition wg_SyncUser :: "'k WgEnv \<Rightarrow> UserPtr \<Rightarrow> 'k WireGuard \<Rightarrow> string option \<times> 'k WireGuard" where
  "wg_SyncUser env user wg =
    (if user = None then (Some ''user is nil'', wg)
     else syncUsersPartialReconcile env [user] (rememberLimits [user] False wg))"

definition wg_SyncUsers :: "'k WgEnv \<Rightarrow> UserPtr list \<Rightarrow> 'k WireGuard \<Rightarrow> string option \<times> 'k WireGuard" where
  "wg_SyncUsers env users wg = syncUsersFull env users (rememberLimits users True wg)"

definition wg_UpdateUsers :: "'k WgEnv \<Rightarrow> UserPtr list \<Rightarrow> 'k WireGuard \<Rightarrow> string option \<times> 'k WireGuard" where
  "wg_UpdateUsers env users wg = syncUsersPartialReconcile env users (rememberLimits users False wg)"

definition wg_UpdateUsersAndRestart :: "'k WgEnv \<Rightarrow> UserPtr list \<Rightarrow> 'k WireGuard \<Rightarrow> string option \<times> 'k WireGuard" where
  "wg_UpdateUsersAndRestart env users wg =
    (case syncUsersPartialReconcile env users (rememberLimits users True wg) of
       (Some err, wg1) \<Rightarrow> (Some err, wg1)
     | (None, wg1) \<Rightarrow> restartLocked env wg1)"

text \<open>
  The constructor: \<open>version\<close> is the output of \<open>wg --version\<close> and \<open>managerFactory\<close> the
  function that opens the device. The returned kernel is the one an error leaves behind.
\<close>

definition new_WireGuard :: "WgConfig \<Rightarrow> string \<Rightarrow> 'k \<Rightarrow> 'k WireGuard" where
  "new_WireGuard cfg version s =
    \<lparr>wg_config = cfg, wg_manager = None, wg_statsTracker = new_Tracker, wg_peerStore = NewPeerStore,
     wg_interfaceStats = NewInterfaceCountersTracker, wg_state = lifecycleStarting, wg_version = version,
     wg_lastStatsErrAt = 0, wg_userLimits = Map.empty, wg_userSpeed = Map.empty, wg_ipWindow = Map.empty,
     wg_overStrikes = Map.empty, wg_kicked = Map.empty, wg_kernel = s\<rparr>"

definition newWithManagerFactory :: "'k WgEnv \<Rightarrow> (string \<Rightarrow> SysErr + WgMgr) \<Rightarrow> string \<Rightarrow> WgConfig option \<Rightarrow>
    UserPtr list \<Rightarrow> 'k \<Rightarrow> (string \<times> 'k) + 'k WireGuard" where
  "newWithManagerFactory env managerFactory version wgConfig users s =
    (case wgConfig of
       None \<Rightarrow> Inl (''wireguard config string must not be empty or nil'', s)
     | Some cfg \<Rightarrow>
       (case GetPrivateKey env cfg of
          (Inl err, c) \<Rightarrow> Inl (''invalid wireguard private key: '' @ err, s)
        | (Inr privateKey, c) \<Rightarrow>
          let wg0 = new_WireGuard c version s;
              normalizedUsers = wg_normalizeUsers env wg0 users;
              wg1 = rememberLimits normalizedUsers True wg0;
              existing = buildExistingPeersByKeySnapshot env wg1
          in case collectDesiredPeers env c normalizedUsers of
               Inl err \<Rightarrow> Inl (''failed to collect desired peers: '' @ err, s)
             | Inr desired \<Rightarrow>
               let (psk1, wg2) = wg_psk env wg1;
                   diff = buildSyncDiff env (wg_order env wg1) psk1 existing desired;
                   (psk, wg3) = wg_psk env wg2;
                   (configs, appliedKeys) = buildTargetPeerConfigs (wg_order env wg1 7) (sd_TargetPeers diff) psk
               in case managerFactory (wc_InterfaceName c) of
                    Inl e \<Rightarrow> Inl (apply_err ''failed to create manager: '' e, s)
                  | Inr mgr \<Rightarrow>
                    (case InitializeWithPeers env mgr privateKey (wc_ListenPort c) (wc_Address c) configs s of
                       (Some e, s1) \<Rightarrow>
                         Inl (apply_err ''failed to initialize interface: '' e, snd (snd (Manager_Close env mgr s1)))
                     | (None, s1) \<Rightarrow>
                       Inr (wg3\<lparr>wg_manager := Some mgr, wg_kernel := s1,
                              wg_peerStore := ps_Init (we_KeyString env)
                                (map Some (filterUpsertsByAppliedKeys env (sd_UpsertPeers diff) appliedKeys))
                                (wg_peerStore wg3),
                              wg_state := lifecycleRunning\<rparr>))))"

definition shutdownLocked :: "'k WgEnv \<Rightarrow> 'k WireGuard \<Rightarrow> 'k WireGuard" where
  "shutdownLocked env wg =
    (let wg1 = (case wg_manager wg of
                  None \<Rightarrow> wg
                | Some m \<Rightarrow> wg\<lparr>wg_kernel := snd (snd (Manager_Close env m (wg_kernel wg))), wg_manager := None\<rparr>)
     in wg1\<lparr>wg_state := lifecycleStopped, wg_version := []\<rparr>)"

end
