(* ===== verification/WgSyncCorrect.thy ===== *)
theory WgSyncCorrect
  imports WgSync
begin

text \<open>
  Correctness of the WireGuard synchronisation: what the collection of desired peers
  accepts, what a difference between the store and the desired peers contains, and that a
  successful full or partial synchronisation leaves store and device with exactly the
  desired peers.
\<close>

lemma map_le_SomeD: "m \<subseteq>\<^sub>m m' \<Longrightarrow> m k = Some v \<Longrightarrow> m' k = Some v"
  by (metis domI map_le_def)

section \<open>Normalised users\<close>

lemma wg_env_okD:
  assumes "wg_env_ok env dev_keys"
  shows "we_ParseKey env (we_KeyString env k) = Inr k"
    and "finite S \<Longrightarrow> set (wg_order env wg tag S) = S"
    and "finite S \<Longrightarrow> distinct (wg_order env wg tag S)"
    and "we_ConfigureDevice env name c s = (None, s') \<Longrightarrow>
      dev_keys s' = fold config_keys (dc_Peers c) (if dc_ReplacePeers c then {} else dev_keys s)"
  using assms by (auto simp: wg_env_ok_def wg_order_def)

lemma KeyString_inj:
  "wg_env_ok env dev_keys \<Longrightarrow> we_KeyString env k = we_KeyString env k' \<longleftrightarrow> k = k'"
  by (metis sum.inject(2) wg_env_okD(1))

lemma last_by_email_props:
  assumes "last_by_email pf users e = Some u"
  shows "GetEmail u = e \<and> usable_user pf u \<and> u \<in> set users"
proof -
  have "m e = Some u \<or> GetEmail u = e \<and> usable_user pf u \<and> u \<in> set xs"
    if "fold (\<lambda>user m. if usable_user pf user then m(GetEmail user \<mapsto> user) else m) xs m e = Some u" for xs m
    using that
  proof (induction xs arbitrary: m)
    case (Cons x xs)
    show ?case
    proof (cases "usable_user pf x")
      case True
      then have "fold (\<lambda>user m. if usable_user pf user then m(GetEmail user \<mapsto> user) else m) xs
          (m(GetEmail x \<mapsto> x)) e = Some u"
        using Cons.prems by simp
      from Cons.IH [OF this] True show ?thesis by (auto split: if_splits)
    next
      case False
      with Cons.IH [of m] Cons.prems show ?thesis by auto
    qed
  qed simp
  from this [of users Map.empty] assms show ?thesis by (simp add: last_by_email_def)
qed

lemma last_by_email_finite: "finite (dom (last_by_email pf users))"
proof -
  have "finite (dom m) \<Longrightarrow>
      finite (dom (fold (\<lambda>user m. if usable_user pf user then m(GetEmail user \<mapsto> user) else m) xs m))" for xs m
    by (induction xs arbitrary: m) auto
  then show ?thesis by (simp add: last_by_email_def)
qed

lemma normalize_props:
  assumes "wg_env_ok env dev_keys"
    and us_def: "us = wg_normalizeUsers env wg users"
  shows "distinct (map GetEmail us)"
    and "GetEmail ` set us = dom (last_by_email (wc_ProxyField (wg_config wg)) users)"
    and "u \<in> set us \<longleftrightarrow> (\<exists>e. last_by_email (wc_ProxyField (wg_config wg)) users e = Some u)"
proof -
  let ?l = "last_by_email (wc_ProxyField (wg_config wg)) users"
  let ?o = "wg_order env wg 0 (dom ?l)"
  have o: "set ?o = dom ?l" "distinct ?o"
    using wg_env_okD(2,3) [OF assms(1) last_by_email_finite] by blast+
  have us: "us = map (\<lambda>e. the (?l e)) ?o"
    by (simp add: us_def wg_normalizeUsers_def normalizeUsersWithProxy_def Let_def)
  have em: "GetEmail (the (?l e)) = e" if "e \<in> dom ?l" for e
    using that last_by_email_props by force
  have "map GetEmail us = ?o"
    unfolding us map_map using o(1) em by (intro map_idI) simp
  then show "distinct (map GetEmail us)" "GetEmail ` set us = dom ?l"
    using o by (simp_all flip: set_map)
  show "u \<in> set us \<longleftrightarrow> (\<exists>e. ?l e = Some u)"
    unfolding us using o(1) by (force simp: image_iff)
qed

section \<open>Desired peers\<close>

text \<open>What one user asks for: \<open>None\<close> when the user is not on this interface or is quarantined.\<close>

definition wanted_nets :: "'k WgEnv \<Rightarrow> IPNet list \<Rightarrow> string list \<Rightarrow> IPNet list option" where
  "wanted_nets env ifaceNets ips =
    (if \<exists>ip \<in> set ips. we_ParseCIDR env ip = None then None
     else Some (filter (\<lambda>n. peerIPAllowedOnInterface n ifaceNets) (map (\<lambda>ip. the (we_ParseCIDR env ip)) ips)))"

definition desired_of :: "'k WgEnv \<Rightarrow> WgConfig \<Rightarrow> UserPtr \<Rightarrow> DesiredPeer option" where
  "desired_of env config user =
    (if \<not> shouldIncludeUserInInterface user (wc_InterfaceName config) then None
     else case userWireguardProxy user (wc_ProxyField config) of
            None \<Rightarrow> None
          | Some w \<Rightarrow>
              (case (we_ParseKey env (wgp_PublicKey w), wanted_nets env (InterfaceNetworks env config) (wgp_PeerIps w)) of
                 (Inr k, Some nets) \<Rightarrow>
                   if nets = [] then None
                   else Some \<lparr>dp_Email = GetEmail user, dp_PublicKey = wgp_PublicKey w, dp_ParsedKey = k, dp_AllowedIPNets = nets\<rparr>
               | _ \<Rightarrow> None))"

lemma collect_ips_ok:
  assumes "collect_ips env ifn email ips nets seen = Inr (bad, nets', seen')"
  shows "(wanted_nets env ifn ips = None \<longleftrightarrow> bad) \<and>
    (\<not> bad \<longrightarrow> nets' = nets @ the (wanted_nets env ifn ips)) \<and>
    seen \<subseteq>\<^sub>m seen' \<and>
    (\<forall>n \<in> set nets' - set nets. peerIPAllowedOnInterface n ifn) \<and>
    (\<forall>n \<in> set nets' - set nets. seen' (we_IPNetString env n) = Some email)"
  using assms
proof (induction ips arbitrary: nets seen)
  case Nil
  then show ?case by (simp add: wanted_nets_def)
next
  case (Cons ip ips)
  show ?case
  proof (cases "we_ParseCIDR env ip")
    case None
    with Cons.prems show ?thesis by (auto simp: wanted_nets_def)
  next
    case (Some n)
    show ?thesis
    proof (cases "peerIPAllowedOnInterface n ifn")
      case False
      with Cons.prems Some have rec: "collect_ips env ifn email ips nets seen = Inr (bad, nets', seen')" by simp
      have "wanted_nets env ifn (ip # ips) = wanted_nets env ifn ips"
        using Some False by (simp add: wanted_nets_def)
      with Cons.IH [OF rec] show ?thesis by simp
    next
      case True
      let ?seen = "seen(we_IPNetString env n \<mapsto> email)"
      have rec: "collect_ips env ifn email ips (nets @ [n]) ?seen = Inr (bad, nets', seen')"
        and le: "seen \<subseteq>\<^sub>m ?seen"
        using Cons.prems Some True by (auto simp: Let_def map_le_def split: option.splits if_splits)
      note IH = Cons.IH [OF rec]
      have "seen' (we_IPNetString env n) = Some email"
        by (rule map_le_SomeD [of ?seen]) (use IH in blast, simp)
      moreover have "seen \<subseteq>\<^sub>m seen'"
        using IH le map_le_trans by blast
      moreover have "wanted_nets env ifn (ip # ips) = map_option ((#) n) (wanted_nets env ifn ips)"
        using Some True by (simp add: wanted_nets_def)
      ultimately show ?thesis
        using IH True by auto
    qed
  qed
qed

text \<open>The state of the collecting loop after users with the emails \<open>E\<close>.\<close>

definition collect_inv :: "'k WgEnv \<Rightarrow> WgConfig \<Rightarrow> UserPtr set \<Rightarrow>
    (string \<rightharpoonup> DesiredPeer) \<times> (string \<rightharpoonup> string) \<Rightarrow> bool" where
  "collect_inv env config us s \<longleftrightarrow>
     (\<forall>k d. fst s k = Some d \<longleftrightarrow> (\<exists>u \<in> us. desired_of env config u = Some d \<and> dp_PublicKey d = k)) \<and>
     (\<forall>k d. fst s k = Some d \<longrightarrow> (\<forall>n \<in> set (dp_AllowedIPNets d). snd s (we_IPNetString env n) = Some (dp_Email d)))"

lemma collect_invD:
  assumes "collect_inv env config us s"
  shows "fst s k = Some d \<longleftrightarrow> (\<exists>u \<in> us. desired_of env config u = Some d \<and> dp_PublicKey d = k)"
    and "fst s k = Some d \<Longrightarrow> n \<in> set (dp_AllowedIPNets d) \<Longrightarrow> snd s (we_IPNetString env n) = Some (dp_Email d)"
  using assms unfolding collect_inv_def by (blast, metis)

lemma desired_of_Some:
  assumes "desired_of env config u = Some d"
  shows "dp_Email d = GetEmail u \<and> we_ParseKey env (dp_PublicKey d) = Inr (dp_ParsedKey d) \<and>
    dp_AllowedIPNets d \<noteq> [] \<and>
    (\<forall>n \<in> set (dp_AllowedIPNets d). peerIPAllowedOnInterface n (InterfaceNetworks env config)) \<and>
    shouldIncludeUserInInterface u (wc_InterfaceName config)"
  using assms
  by (auto simp: desired_of_def wanted_nets_def split: if_splits option.splits sum.splits)

text \<open>One turn of the loop: it fails, or adds what the user asks for at a free key.\<close>

lemma collect_user_ok:
  assumes step: "collect_user env config u s = Inr s'"
    and fresh: "\<forall>k d. fst s k = Some d \<longrightarrow> dp_Email d \<noteq> GetEmail u"
  shows "snd s \<subseteq>\<^sub>m snd s' \<and>
    (case desired_of env config u of
       None \<Rightarrow> fst s' = fst s
     | Some d \<Rightarrow> fst s (dp_PublicKey d) = None \<and> fst s' = (fst s)(dp_PublicKey d \<mapsto> d) \<and>
         (\<forall>n \<in> set (dp_AllowedIPNets d). snd s' (we_IPNetString env n) = Some (dp_Email d)))"
proof -
  obtain desired seen where s: "s = (desired, seen)" by fastforce
  consider (skip) "s' = s" "desired_of env config u = None"
    | (go) w k bad nets seen' where
      "shouldIncludeUserInInterface u (wc_InterfaceName config)"
      "userWireguardProxy u (wc_ProxyField config) = Some w" "we_ParseKey env (wgp_PublicKey w) = Inr k"
      "collect_ips env (InterfaceNetworks env config) (GetEmail u) (wgp_PeerIps w) [] seen = Inr (bad, nets, seen')"
    using step by (auto simp: s collect_user_def Let_def desired_of_def split: if_splits option.splits sum.splits)
  then show ?thesis
  proof cases
    case skip
    then show ?thesis by simp
  next
    case go
    note ips = collect_ips_ok [OF go(4)]
    show ?thesis
    proof (cases "bad \<or> nets = []")
      case True
      then have "s' = (desired, seen')" "desired_of env config u = None"
        using step go ips by (auto simp: s collect_user_def Let_def desired_of_def split: option.splits)
      with ips show ?thesis by (simp add: s)
    next
      case False
      define d where "d = \<lparr>dp_Email = GetEmail u, dp_PublicKey = wgp_PublicKey w, dp_ParsedKey = k, dp_AllowedIPNets = nets\<rparr>"
      have d: "desired_of env config u = Some d"
        using go False ips by (auto simp: desired_of_def d_def)
      have free: "desired (wgp_PublicKey w) = None" and s': "s' = (desired(wgp_PublicKey w \<mapsto> d), seen')"
        using step go False fresh by (auto simp: s collect_user_def Let_def d_def split: option.splits if_splits)
      show ?thesis
        using ips False by (simp add: d s s' free d_def)
    qed
  qed
qed

lemma collect_users_ok:
  assumes "collect_users env config us s = Inr s'" "collect_inv env config U s"
    and "distinct (map GetEmail us)" "GetEmail ` U \<inter> GetEmail ` set us = {}"
  shows "collect_inv env config (U \<union> set us) s'"
  using assms
proof (induction us arbitrary: s U)
  case Nil
  then show ?case by simp
next
  case (Cons u us)
  obtain s1 where s1: "collect_user env config u s = Inr s1" "collect_users env config us s1 = Inr s'"
    using Cons.prems(1) by (auto split: sum.splits)
  have inv: "collect_inv env config U s" by (rule Cons.prems(2))
  have fresh: "\<forall>k d. fst s k = Some d \<longrightarrow> dp_Email d \<noteq> GetEmail u"
  proof (intro allI impI)
    fix k d
    assume "fst s k = Some d"
    then obtain v where v: "v \<in> U" "desired_of env config v = Some d"
      unfolding collect_invD(1) [OF inv] by blast
    have "GetEmail v \<in> GetEmail ` U" using v(1) by (rule imageI)
    with v(2) show "dp_Email d \<noteq> GetEmail u"
      using desired_of_Some [of env config v d] Cons.prems(4) by auto
  qed
  note one = collect_user_ok [OF s1(1) fresh]
  have "collect_inv env config (insert u U) s1"
  proof (cases "desired_of env config u")
    case None
    with one have o: "fst s1 = fst s" "snd s \<subseteq>\<^sub>m snd s1" by auto
    show ?thesis
      unfolding collect_inv_def o(1) using collect_invD [OF inv] map_le_SomeD [OF o(2)] None by simp
  next
    case (Some d)
    with one have o: "fst s (dp_PublicKey d) = None" "fst s1 = (fst s)(dp_PublicKey d \<mapsto> d)"
      "\<forall>n \<in> set (dp_AllowedIPNets d). snd s1 (we_IPNetString env n) = Some (dp_Email d)" "snd s \<subseteq>\<^sub>m snd s1"
      by auto
    have "fst s1 k = Some d' \<longleftrightarrow> (\<exists>v \<in> insert u U. desired_of env config v = Some d' \<and> dp_PublicKey d' = k)" for k d'
    proof -
      have "fst s1 k = Some d' \<longleftrightarrow> (if k = dp_PublicKey d then d' = d else fst s k = Some d')"
        unfolding o(2) by auto
      also have "\<dots> \<longleftrightarrow> d' = d \<and> dp_PublicKey d' = k \<or> fst s k = Some d'"
        using o(1) by auto
      also have "\<dots> \<longleftrightarrow> (\<exists>v \<in> insert u U. desired_of env config v = Some d' \<and> dp_PublicKey d' = k)"
        using Some by (auto simp: collect_invD(1) [OF inv])
      finally show ?thesis .
    qed
    moreover have "snd s1 (we_IPNetString env n) = Some (dp_Email d')"
      if "fst s1 k = Some d'" "n \<in> set (dp_AllowedIPNets d')" for k d' n
    proof (cases "d' = d")
      case True
      with o(3) that(2) show ?thesis by blast
    next
      case False
      then have "fst s k = Some d'" using that(1) o(2) by (auto split: if_splits)
      from collect_invD(2) [OF inv this that(2)] o(4) show ?thesis by (blast dest: map_le_SomeD)
    qed
    ultimately show ?thesis unfolding collect_inv_def by simp
  qed
  moreover have "distinct (map GetEmail us)" "GetEmail ` insert u U \<inter> GetEmail ` set us = {}"
    using Cons.prems(3,4) by auto
  ultimately have "collect_inv env config (insert u U \<union> set us) s'"
    using Cons.IH [OF s1(2)] by blast
  then show ?case by simp
qed

lemma collectDesiredPeers_ok:
  assumes "collectDesiredPeers env config us = Inr desired" "distinct (map GetEmail us)"
  shows "\<exists>seen. collect_inv env config (set us) (desired, seen)"
proof -
  obtain seen where c: "collect_users env config us (Map.empty, Map.empty) = Inr (desired, seen)"
    using assms(1) by (auto simp: collectDesiredPeers_def split: sum.splits)
  have "collect_inv env config {} (Map.empty, Map.empty)" by (simp add: collect_inv_def)
  from collect_users_ok [OF c this assms(2)] show ?thesis by auto
qed

text \<open>What the accepted desired peers of users with different emails look like.\<close>

lemma desired_props:
  assumes "collectDesiredPeers env config us = Inr desired" "distinct (map GetEmail us)"
  shows "desired k = Some d \<longleftrightarrow> (\<exists>u \<in> set us. desired_of env config u = Some d \<and> dp_PublicKey d = k)"
    and "desired k = Some d \<Longrightarrow> dp_AllowedIPNets d \<noteq> [] \<and> we_ParseKey env k = Inr (dp_ParsedKey d) \<and>
      dp_PublicKey d = k \<and> dp_Email d \<in> GetEmail ` set us"
    and "desired k = Some d \<Longrightarrow> desired k' = Some d' \<Longrightarrow> dp_Email d = dp_Email d' \<Longrightarrow> k = k'"
    and "desired k = Some d \<Longrightarrow> desired k' = Some d' \<Longrightarrow> n \<in> set (dp_AllowedIPNets d) \<Longrightarrow>
      n' \<in> set (dp_AllowedIPNets d') \<Longrightarrow> we_IPNetString env n = we_IPNetString env n' \<Longrightarrow> k = k'"
    and "finite (dom desired)"
proof -
  obtain seen where inv: "collect_inv env config (set us) (desired, seen)"
    using collectDesiredPeers_ok [OF assms] by blast
  show c: "desired k = Some d \<longleftrightarrow> (\<exists>u \<in> set us. desired_of env config u = Some d \<and> dp_PublicKey d = k)" for k d
    using collect_invD(1) [OF inv] by simp
  show "dp_AllowedIPNets d \<noteq> [] \<and> we_ParseKey env k = Inr (dp_ParsedKey d) \<and>
      dp_PublicKey d = k \<and> dp_Email d \<in> GetEmail ` set us" if "desired k = Some d" for k d
    using that desired_of_Some [of env config _ d] unfolding c by auto
  have one: "k = k'" if a: "desired k = Some d" "desired k' = Some d'" "dp_Email d = dp_Email d'" for k d k' d'
  proof -
    obtain u where u: "u \<in> set us" "desired_of env config u = Some d" "dp_PublicKey d = k"
      using a(1) unfolding c by blast
    obtain v where v: "v \<in> set us" "desired_of env config v = Some d'" "dp_PublicKey d' = k'"
      using a(2) unfolding c by blast
    have "GetEmail u = GetEmail v"
      using desired_of_Some [OF u(2)] desired_of_Some [OF v(2)] a(3) by simp
    then have "u = v" using assms(2) u(1) v(1) by (auto simp: distinct_map inj_on_def)
    with u v show ?thesis by simp
  qed
  then show "desired k = Some d \<Longrightarrow> desired k' = Some d' \<Longrightarrow> dp_Email d = dp_Email d' \<Longrightarrow> k = k'" .
  show "k = k'" if "desired k = Some d" "desired k' = Some d'" "n \<in> set (dp_AllowedIPNets d)"
    "n' \<in> set (dp_AllowedIPNets d')" "we_IPNetString env n = we_IPNetString env n'"
    using collect_invD(2) [OF inv] that one by (metis fst_conv option.inject snd_conv)
  have "dom desired \<subseteq> (\<lambda>u. dp_PublicKey (the (desired_of env config u))) ` set us"
    by (force simp: c)
  then show "finite (dom desired)" using finite_subset by blast
qed

section \<open>Differences\<close>

definition peer_differs :: "'k WgEnv \<Rightarrow> PeerInfo \<Rightarrow> PeerInfo \<Rightarrow> bool" where
  "peer_differs env p q \<longleftrightarrow> pi_Email p \<noteq> pi_Email q \<or> \<not> ipnets_equal env (pi_AllowedIPs p) (pi_AllowedIPs q)"

lemma diff_existing_None:
  "existing k = Some e \<Longrightarrow> target k = None \<Longrightarrow>
    diff_existing env psk existing target k (R, U, C) = (insert k R, U, C)"
  by (simp add: diff_existing_def)

lemma diff_existing_Some:
  assumes "existing k = Some e" "target k = Some t" "pi_AllowedIPs t \<noteq> []"
  shows "diff_existing env psk existing target k (R, U, C) =
    (R, if peer_differs env e t then U(k \<mapsto> t) else U,
     C @ (if ipnets_equal env (pi_AllowedIPs e) (pi_AllowedIPs t) then []
          else [(buildAddConfig (pi_PublicKey t) (pi_AllowedIPs t) psk)\<lparr>pc_ReplaceAllowedIPs := True\<rparr>]))"
  using assms
  by (simp add: diff_existing_def peer_differs_def buildAddConfigFromPeerInfo_def Let_def)

lemma diff_target_known:
  "target k = Some t \<Longrightarrow> existing k = Some e \<Longrightarrow> diff_target psk existing target k (R, U, C) = (R, U, C)"
  by (simp add: diff_target_def)

lemma diff_target_new:
  assumes "target k = Some t" "existing k = None" "pi_AllowedIPs t \<noteq> []"
  shows "diff_target psk existing target k (R, U, C) =
    (R, U(k \<mapsto> t), C @ [buildAddConfig (pi_PublicKey t) (pi_AllowedIPs t) psk])"
  using assms by (simp add: diff_target_def buildAddConfigFromPeerInfo_def)

text \<open>The two loops of the difference, when every target has an allowed address.\<close>

lemma diff_existing_fold:
  assumes "\<forall>k p. target k = Some p \<longrightarrow> pi_AllowedIPs p \<noteq> []" "distinct ks" "set ks \<subseteq> dom existing"
    and "fold (diff_existing env psk existing target) ks (R, U, C) = (R', U', C')"
  shows "R' = R \<union> {k \<in> set ks. target k = None} \<and>
    U' = (\<lambda>k. if k \<in> set ks \<and> target k \<noteq> None \<and> peer_differs env (the (existing k)) (the (target k))
              then target k else U k) \<and>
    (\<exists>C1. C' = C @ C1 \<and> (\<forall>c \<in> set C1. \<not> pc_Remove c \<and> pc_PublicKey c \<in> pi_PublicKey ` ran target))"
  using assms(2-4)
proof (induction ks arbitrary: R U C)
  case Nil
  then show ?case by simp
next
  case (Cons k ks)
  obtain e where e: "existing k = Some e" using Cons.prems(2) by auto
  show ?case
  proof (cases "target k")
    case None
    then have "fold (diff_existing env psk existing target) ks (insert k R, U, C) = (R', U', C')"
      using Cons.prems(3) e by (simp add: diff_existing_None)
    from Cons.IH [OF _ _ this] Cons.prems(1,2) obtain C1 where
      r: "R' = insert k R \<union> {k \<in> set ks. target k = None}"
      "U' = (\<lambda>k. if k \<in> set ks \<and> target k \<noteq> None \<and> peer_differs env (the (existing k)) (the (target k))
              then target k else U k)"
      "C' = C @ C1" "\<forall>c \<in> set C1. \<not> pc_Remove c \<and> pc_PublicKey c \<in> pi_PublicKey ` ran target"
      by auto
    have "U' = (\<lambda>j. if j \<in> set (k # ks) \<and> target j \<noteq> None \<and> peer_differs env (the (existing j)) (the (target j))
              then target j else U j)"
      using None by (auto simp: r(2) fun_eq_iff)
    then show ?thesis using r(1,3,4) None by auto
  next
    case (Some t)
    let ?c = "(buildAddConfig (pi_PublicKey t) (pi_AllowedIPs t) psk)\<lparr>pc_ReplaceAllowedIPs := True\<rparr>"
    let ?U = "if peer_differs env e t then U(k \<mapsto> t) else U"
    let ?C = "if ipnets_equal env (pi_AllowedIPs e) (pi_AllowedIPs t) then [] else [?c]"
    have "pi_AllowedIPs t \<noteq> []" using assms(1) Some by blast
    then have "fold (diff_existing env psk existing target) ks (R, ?U, C @ ?C) = (R', U', C')"
      using Cons.prems(3) e Some by (simp add: diff_existing_Some)
    from Cons.IH [OF _ _ this] Cons.prems(1,2) obtain C1 where
      r: "R' = R \<union> {k \<in> set ks. target k = None}"
      "U' = (\<lambda>k. if k \<in> set ks \<and> target k \<noteq> None \<and> peer_differs env (the (existing k)) (the (target k))
              then target k else ?U k)"
      "C' = (C @ ?C) @ C1" "\<forall>c \<in> set C1. \<not> pc_Remove c \<and> pc_PublicKey c \<in> pi_PublicKey ` ran target"
      by auto
    have "U' = (\<lambda>j. if j \<in> set (k # ks) \<and> target j \<noteq> None \<and> peer_differs env (the (existing j)) (the (target j))
              then target j else U j)"
      using e Some Cons.prems(1) by (auto simp: r(2) fun_eq_iff)
    moreover have "\<exists>C1. C' = C @ C1 \<and> (\<forall>c \<in> set C1. \<not> pc_Remove c \<and> pc_PublicKey c \<in> pi_PublicKey ` ran target)"
      using r(3,4) ranI [of target, OF Some] by (intro exI [of _ "?C @ C1"]) (auto simp: buildAddConfig_def)
    ultimately show ?thesis using r(1) Some by auto
  qed
qed

lemma diff_target_fold:
  assumes "\<forall>k p. target k = Some p \<longrightarrow> pi_AllowedIPs p \<noteq> []" "distinct ks" "set ks \<subseteq> dom target"
    and "fold (diff_target psk existing target) ks (R, U, C) = (R', U', C')"
  shows "R' = R \<and> U' = (\<lambda>k. if k \<in> set ks \<and> existing k = None then target k else U k) \<and>
    (\<exists>C1. C' = C @ C1 \<and> (\<forall>c \<in> set C1. \<not> pc_Remove c) \<and>
       pc_PublicKey ` set C1 = {pi_PublicKey p | k p. k \<in> set ks \<and> existing k = None \<and> target k = Some p})"
  using assms(2-4)
proof (induction ks arbitrary: U C)
  case Nil
  then show ?case by simp
next
  case (Cons k ks)
  obtain t where t: "target k = Some t" "pi_AllowedIPs t \<noteq> []" using Cons.prems(2) assms(1) by auto
  show ?case
  proof (cases "existing k")
    case (Some e)
    then have "fold (diff_target psk existing target) ks (R, U, C) = (R', U', C')"
      using Cons.prems(3) t by (simp add: diff_target_known)
    from Cons.IH [OF _ _ this] Cons.prems(1,2) have
      "R' = R \<and> U' = (\<lambda>k. if k \<in> set ks \<and> existing k = None then target k else U k) \<and>
      (\<exists>C1. C' = C @ C1 \<and> (\<forall>c \<in> set C1. \<not> pc_Remove c) \<and>
         pc_PublicKey ` set C1 = {pi_PublicKey p | k p. k \<in> set ks \<and> existing k = None \<and> target k = Some p})"
      by simp
    moreover have "(j \<in> set ks \<and> existing j = None) = (j \<in> set (k # ks) \<and> existing j = None)" for j
      using Some by auto
    ultimately show ?thesis by (simp only: conj_assoc [symmetric])
  next
    case None
    let ?c = "buildAddConfig (pi_PublicKey t) (pi_AllowedIPs t) psk"
    have "fold (diff_target psk existing target) ks (R, U(k \<mapsto> t), C @ [?c]) = (R', U', C')"
      using Cons.prems(3) t None by (simp add: diff_target_new)
    from Cons.IH [OF _ _ this] Cons.prems(1,2) obtain C1 where
      r: "R' = R" "U' = (\<lambda>j. if j \<in> set ks \<and> existing j = None then target j else (U(k \<mapsto> t)) j)"
      "C' = (C @ [?c]) @ C1" "\<forall>c \<in> set C1. \<not> pc_Remove c"
      "pc_PublicKey ` set C1 = {pi_PublicKey p | k p. k \<in> set ks \<and> existing k = None \<and> target k = Some p}"
      by auto
    have "\<exists>C1. C' = C @ C1 \<and> (\<forall>c \<in> set C1. \<not> pc_Remove c) \<and>
       pc_PublicKey ` set C1 = {pi_PublicKey p | j p. j \<in> set (k # ks) \<and> existing j = None \<and> target j = Some p}"
      using r(3-5) None t(1) by (intro exI [of _ "?c # C1"]) (auto simp: buildAddConfig_def)
    then show ?thesis using r(1,2) None t(1) by (auto simp: fun_eq_iff)
  qed
qed

lemma config_keys_add:
  "\<forall>c \<in> set cs. \<not> pc_Remove c \<Longrightarrow> fold config_keys cs S = S \<union> pc_PublicKey ` set cs"
  by (induction cs arbitrary: S) (auto simp: config_keys_def)

lemma config_keys_remove:
  "\<forall>c \<in> set cs. pc_Remove c \<Longrightarrow> fold config_keys cs S = S - pc_PublicKey ` set cs"
  by (induction cs arbitrary: S) (auto simp: config_keys_def)

lemma sorted_keys_props:
  "wg_env_ok env dev_keys \<Longrightarrow> finite S \<Longrightarrow> set (sorted_keys (wg_order env wg tag) S) = S"
  "wg_env_ok env dev_keys \<Longrightarrow> finite S \<Longrightarrow> distinct (sorted_keys (wg_order env wg tag) S)"
  using wg_env_okD(2,3) by (simp_all add: sorted_keys_def)

text \<open>\<open>keyed env m\<close>: the map is keyed by the text of its peers' keys.\<close>

definition keyed :: "'k WgEnv \<Rightarrow> (string \<rightharpoonup> PeerInfo) \<Rightarrow> bool" where
  "keyed env m \<longleftrightarrow> finite (dom m) \<and> (\<forall>k p. m k = Some p \<longrightarrow> k = we_KeyString env (pi_PublicKey p))"

lemma keyedD: "keyed env m \<Longrightarrow> m k = Some p \<Longrightarrow> k = we_KeyString env (pi_PublicKey p)" "keyed env m \<Longrightarrow> finite (dom m)"
  by (simp_all add: keyed_def)

lemma remove_configs:
  assumes "wg_env_ok env dev_keys" "finite R" "\<forall>k \<in> R. \<exists>p. k = we_KeyString env p"
    and "buildRemoveConfigsForPeers env (wg_order env wg tag) R = (keys, configs)"
  shows "set keys = R \<and> (\<forall>c \<in> set configs. pc_Remove c) \<and>
    pc_PublicKey ` set configs = {p. we_KeyString env p \<in> R}"
proof -
  let ?l = "sorted_keys (wg_order env wg tag) R"
  have l: "set ?l = R" using sorted_keys_props(1) [OF assms(1,2)] .
  have "we_ParseKey env k = Inr p" if "k = we_KeyString env p" for k p
    using that wg_env_okD(1) [OF assms(1)] by simp
  then have "filter (\<lambda>key. case we_ParseKey env key of Inl _ \<Rightarrow> False | Inr _ \<Rightarrow> True) ?l = ?l"
    using l assms(3) by (intro filter_True) fastforce
  then have kc: "keys = ?l" "configs = map (\<lambda>key. buildRemoveConfig (case we_ParseKey env key of Inl _ \<Rightarrow> [] | Inr k \<Rightarrow> k)) ?l"
    using assms(4) by (auto simp: buildRemoveConfigsForPeers_def Let_def)
  have "pc_PublicKey ` set configs = (\<lambda>key. case we_ParseKey env key of Inl _ \<Rightarrow> [] | Inr k \<Rightarrow> k) ` R"
    by (simp add: kc(2) l image_image buildRemoveConfig_def)
  also have "\<dots> = {p. we_KeyString env p \<in> R}"
  proof (intro equalityI subsetI)
    fix p
    assume "p \<in> (\<lambda>key. case we_ParseKey env key of Inl _ \<Rightarrow> [] | Inr k \<Rightarrow> k) ` R"
    then obtain q where "we_KeyString env q \<in> R" "p = (case we_ParseKey env (we_KeyString env q) of Inl _ \<Rightarrow> [] | Inr k \<Rightarrow> k)"
      using assms(3) by auto
    then show "p \<in> {p. we_KeyString env p \<in> R}" by (simp add: wg_env_okD(1) [OF assms(1)])
  next
    fix p
    assume "p \<in> {p. we_KeyString env p \<in> R}"
    then have "(case we_ParseKey env (we_KeyString env p) of Inl _ \<Rightarrow> [] | Inr k \<Rightarrow> k) \<in>
        (\<lambda>key. case we_ParseKey env key of Inl _ \<Rightarrow> [] | Inr k \<Rightarrow> k) ` R" by blast
    then show "p \<in> (\<lambda>key. case we_ParseKey env key of Inl _ \<Rightarrow> [] | Inr k \<Rightarrow> k) ` R"
      by (simp add: wg_env_okD(1) [OF assms(1)])
  qed
  finally show ?thesis by (simp add: kc l buildRemoveConfig_def)
qed

lemma buildSyncDiff_props:
  assumes ok: "wg_env_ok env dev_keys" and ex: "keyed env existing" and tg: "keyed env (target_peers desired)"
    and ips: "\<forall>k p. target_peers desired k = Some p \<longrightarrow> pi_AllowedIPs p \<noteq> []"
  defines "T \<equiv> target_peers desired"
  assumes d: "d = buildSyncDiff env (wg_order env wg) psk existing desired"
  shows "set (sd_RemoveKeys d) = dom existing - dom T"
    and "p \<in> set (sd_UpsertPeers d) \<longleftrightarrow>
      (\<exists>k. T k = Some p \<and> (existing k = None \<or> peer_differs env (the (existing k)) p))"
    and "distinct (map (\<lambda>p. we_KeyString env (pi_PublicKey p)) (sd_UpsertPeers d))"
    and "\<exists>X. {pi_PublicKey p | k p. T k = Some p \<and> existing k = None} \<subseteq> X \<and> X \<subseteq> pi_PublicKey ` ran T \<and>
      (\<forall>S. fold config_keys (sd_PeerConfigs d) S =
        (S \<union> X) - {p. we_KeyString env p \<in> dom existing - dom T})"
    and "sd_TargetPeers d = T"
    and "sd_Changed d \<longleftrightarrow> sd_RemoveKeys d \<noteq> [] \<or> sd_UpsertPeers d \<noteq> []"
proof -
  let ?o1 = "wg_order env wg 1 (dom existing)" and ?o2 = "wg_order env wg 2 (dom T)"
  have o: "set ?o1 = dom existing" "distinct ?o1" "set ?o2 = dom T" "distinct ?o2"
    using wg_env_okD(2,3) [OF ok] keyedD(2) [OF ex] keyedD(2) [OF tg] by (simp_all add: T_def)
  obtain R1 U1 C1 where f1: "fold (diff_existing env psk existing T) ?o1 ({}, Map.empty, []) = (R1, U1, C1)"
    by (metis prod_cases3)
  obtain R2 U2 C2 where f2: "fold (diff_target psk existing T) ?o2 (R1, U1, C1) = (R2, U2, C2)"
    by (metis prod_cases3)
  obtain rk rc where rm: "buildRemoveConfigsForPeers env (wg_order env wg 3) R2 = (rk, rc)" by fastforce
  let ?up = "sorted_keys (wg_order env wg 4) (dom U2)"
  have de: "d = \<lparr>sd_RemoveKeys = rk, sd_UpsertPeers = map (\<lambda>key. the (U2 key)) ?up, sd_PeerConfigs = C2 @ rc,
      sd_TargetPeers = T, sd_Changed = (rk \<noteq> [] \<or> map (\<lambda>key. the (U2 key)) ?up \<noteq> [])\<rparr>"
    using d f1 f2 rm by (simp add: buildSyncDiff_def Let_def T_def)
  have ips': "\<forall>k p. T k = Some p \<longrightarrow> pi_AllowedIPs p \<noteq> []" using ips by (simp add: T_def)
  note p1 = diff_existing_fold [OF ips' o(2) eq_refl [OF o(1)] f1]
  note p2 = diff_target_fold [OF ips' o(4) eq_refl [OF o(3)] f2]
  have R2: "R2 = dom existing - dom T" using p1 p2 o(1) by auto
  have U2e: "U2 k = (if k \<in> dom T \<and> existing k = None then T k
      else if k \<in> dom existing \<and> T k \<noteq> None \<and> peer_differs env (the (existing k)) (the (T k)) then T k else None)" for k
    using p1 p2 o(1,3) by simp
  have U2: "U2 k = Some p \<longleftrightarrow> T k = Some p \<and> (existing k = None \<or> peer_differs env (the (existing k)) p)" for k p
    unfolding U2e by (cases "T k"; cases "existing k"; auto)
  have finU: "finite (dom U2)"
    using U2 keyedD(2) [OF tg] by (auto simp: T_def intro!: finite_subset [of "dom U2" "dom T"])
  have up: "set ?up = dom U2" "distinct ?up" using sorted_keys_props [OF ok finU] by blast+
  have key: "we_KeyString env (pi_PublicKey (the (U2 k))) = k" if "k \<in> dom U2" for k
  proof -
    from that obtain p where p: "U2 k = Some p" by blast
    then have "T k = Some p" unfolding U2 by blast
    with keyedD(1) [OF tg, of k p] p show ?thesis by (simp add: T_def)
  qed
  have "\<forall>k \<in> R2. \<exists>p. k = we_KeyString env p" "finite R2"
    using keyedD [OF ex] unfolding R2 by auto
  note r = remove_configs [OF ok this(2,1) rm]
  show "set (sd_RemoveKeys d) = dom existing - dom T" using r R2 by (simp add: de)
  show "p \<in> set (sd_UpsertPeers d) \<longleftrightarrow> (\<exists>k. T k = Some p \<and> (existing k = None \<or> peer_differs env (the (existing k)) p))"
    unfolding U2 [symmetric] using up(1) by (force simp: de image_iff)
  have "map (\<lambda>p. we_KeyString env (pi_PublicKey p)) (sd_UpsertPeers d) = ?up"
    using key up(1) unfolding de by (simp add: comp_def, intro map_idI) simp
  then show "distinct (map (\<lambda>p. we_KeyString env (pi_PublicKey p)) (sd_UpsertPeers d))" using up(2) by simp
  show "sd_TargetPeers d = T" "sd_Changed d \<longleftrightarrow> sd_RemoveKeys d \<noteq> [] \<or> sd_UpsertPeers d \<noteq> []"
    by (simp_all add: de)
  obtain C3 where C2: "C2 = C1 @ C3" "\<forall>c \<in> set C3. \<not> pc_Remove c"
      "pc_PublicKey ` set C3 = {pi_PublicKey p | k p. k \<in> set ?o2 \<and> existing k = None \<and> T k = Some p}"
    using p2 by blast
  have C1: "\<forall>c \<in> set C1. \<not> pc_Remove c \<and> pc_PublicKey c \<in> pi_PublicKey ` ran T"
    using p1 by auto
  have "fold config_keys (sd_PeerConfigs d) S =
      (S \<union> pc_PublicKey ` set C2) - {p. we_KeyString env p \<in> dom existing - dom T}" for S
    using r R2 C2(1,2) C1 by (simp add: de config_keys_add config_keys_remove Un_assoc image_Un)
  moreover have "pc_PublicKey ` set C2 \<subseteq> pi_PublicKey ` ran T"
    using C1 C2(1,3) by (auto simp: image_Un ran_def)
  moreover have "{pi_PublicKey p | k p. T k = Some p \<and> existing k = None} \<subseteq> pc_PublicKey ` set C2"
    using C2(1,3) o(3) by (auto simp: image_Un)
  ultimately show "\<exists>X. {pi_PublicKey p | k p. T k = Some p \<and> existing k = None} \<subseteq> X \<and> X \<subseteq> pi_PublicKey ` ran T \<and>
      (\<forall>S. fold config_keys (sd_PeerConfigs d) S =
        (S \<union> X) - {p. we_KeyString env p \<in> dom existing - dom T})"
    by blast
qed

section \<open>Partial synchronisation\<close>

definition canonical :: "'k WgEnv \<Rightarrow> WgConfig \<Rightarrow> UserPtr list \<Rightarrow> bool" where
  "canonical env config users \<longleftrightarrow>
    (\<forall>u \<in> set users. \<forall>w k. userWireguardProxy u (wc_ProxyField config) = Some w \<longrightarrow>
       we_ParseKey env (wgp_PublicKey w) = Inr k \<longrightarrow> we_KeyString env k = wgp_PublicKey w)"

definition store_keys :: "'k WireGuard \<Rightarrow> Key set" where
  "store_keys wg = pi_PublicKey ` ran (ps_peers (wg_peerStore wg))"

lemma desired_canonical:
  "canonical env config users \<Longrightarrow> u \<in> set users \<Longrightarrow> desired_of env config u = Some d \<Longrightarrow>
    dp_PublicKey d = we_KeyString env (dp_ParsedKey d)"
  by (auto simp: desired_of_def canonical_def split: if_splits option.splits sum.splits)

lemma normalize_sub:
  "wg_env_ok env dev_keys \<Longrightarrow> set (wg_normalizeUsers env wg users) \<subseteq> set users"
  using normalize_props(3) last_by_email_props by blast

lemma target_keyed:
  assumes "wg_env_ok env dev_keys" "canonical env (wg_config wg) users"
    and "collectDesiredPeers env (wg_config wg) (wg_normalizeUsers env wg users) = Inr desired"
  shows "keyed env (target_peers desired)"
    and "\<forall>k p. target_peers desired k = Some p \<longrightarrow> pi_AllowedIPs p \<noteq> []"
    and "target_peers desired k = Some p \<Longrightarrow> target_peers desired k' = Some p' \<Longrightarrow> pi_Email p = pi_Email p' \<Longrightarrow> k = k'"
    and "target_peers desired k = Some p \<longleftrightarrow>
      (\<exists>u \<in> set (wg_normalizeUsers env wg users). \<exists>d. desired_of env (wg_config wg) u = Some d \<and> p = target_of d \<and>
         k = we_KeyString env (dp_ParsedKey d))"
proof -
  note dp = desired_props [OF assms(3) normalize_props(1) [OF assms(1) refl]]
  have can: "dp_PublicKey d = we_KeyString env (dp_ParsedKey d)"
    if "u \<in> set (wg_normalizeUsers env wg users)" "desired_of env (wg_config wg) u = Some d" for u d
    using that desired_canonical [OF assms(2)] normalize_sub [OF assms(1)] by blast
  have T: "target_peers desired k = Some p \<longleftrightarrow> (\<exists>d. desired k = Some d \<and> p = target_of d)" for k p
    by (auto simp: target_peers_def)
  have "dom (target_peers desired) = dom desired" by (auto simp: target_peers_def)
  moreover have "k = we_KeyString env (pi_PublicKey p)" if "target_peers desired k = Some p" for k p
    using that can unfolding T dp(1) by (auto simp: target_of_def)
  ultimately show "keyed env (target_peers desired)" using dp(5) by (simp add: keyed_def)
  show "\<forall>k p. target_peers desired k = Some p \<longrightarrow> pi_AllowedIPs p \<noteq> []"
    using dp(2) unfolding T by (auto simp: target_of_def)
  show "target_peers desired k = Some p \<Longrightarrow> target_peers desired k' = Some p' \<Longrightarrow> pi_Email p = pi_Email p' \<Longrightarrow> k = k'"
    using dp(3) unfolding T by (auto simp: target_of_def)
  show "target_peers desired k = Some p \<longleftrightarrow>
      (\<exists>u \<in> set (wg_normalizeUsers env wg users). \<exists>d. desired_of env (wg_config wg) u = Some d \<and> p = target_of d \<and>
         k = we_KeyString env (dp_ParsedKey d))"
    unfolding T dp(1) using can by metis
qed

lemma key_peers_lookup:
  assumes "\<And>p q. Some p \<in> set ps \<Longrightarrow> Some q \<in> set ps \<Longrightarrow>
      we_KeyString env (pi_PublicKey p) = we_KeyString env (pi_PublicKey q) \<Longrightarrow> p = q"
  shows "key_peers env ps k = Some p \<longleftrightarrow> Some p \<in> set ps \<and> k = we_KeyString env (pi_PublicKey p)"
  using assms
proof (induction ps arbitrary: k p rule: rev_induct)
  case Nil
  then show ?case by (simp add: key_peers_def)
next
  case (snoc q ps)
  have IH: "key_peers env ps k = Some p \<longleftrightarrow> Some p \<in> set ps \<and> k = we_KeyString env (pi_PublicKey p)" for k p
    using snoc by simp
  show ?case
  proof (cases q)
    case None
    then show ?thesis using IH by (simp add: key_peers_def)
  next
    case (Some q')
    have "key_peers env (ps @ [q]) k = (if k = we_KeyString env (pi_PublicKey q') then Some q' else key_peers env ps k)"
      by (simp add: key_peers_def Some)
    moreover have "p = q'" if "Some p \<in> set ps" "we_KeyString env (pi_PublicKey p) = we_KeyString env (pi_PublicKey q')"
      by (rule snoc.prems) (use that Some in auto)
    ultimately show ?thesis using IH [of k p] unfolding Some by (cases "p = q'") auto
  qed
qed

lemma existing_subset:
  assumes ok: "wg_env_ok env dev_keys" and inv: "store_inv (we_KeyString env) (wg_peerStore wg)" and fin: "finite E"
  shows "buildExistingPeersSubsetForTouched env wg E k = Some p \<longleftrightarrow>
      pi_Email p \<in> E \<and> GetByEmail (wg_peerStore wg) (pi_Email p) = Some p \<and> k = we_KeyString env (pi_PublicKey p)"
    and "keyed env (buildExistingPeersSubsetForTouched env wg E)"
proof -
  let ?ps = "map (GetByEmail (wg_peerStore wg)) (wg_order env wg 6 E)"
  have mem: "Some p \<in> set ?ps \<longleftrightarrow> pi_Email p \<in> E \<and> GetByEmail (wg_peerStore wg) (pi_Email p) = Some p" for p
  proof -
    have "Some p \<in> set ?ps \<longleftrightarrow> (\<exists>e \<in> E. GetByEmail (wg_peerStore wg) e = Some p)"
      using wg_env_okD(2) [OF ok fin, of wg 6] by (simp add: image_iff eq_commute [of "Some p"])
    then show ?thesis using store.email_of [OF inv] by blast
  qed
  have "key_peers env ?ps k = Some p \<longleftrightarrow> Some p \<in> set ?ps \<and> k = we_KeyString env (pi_PublicKey p)" for k p
    by (rule key_peers_lookup) (use mem store.key_owner_unique [OF inv] in blast)
  then show l: "buildExistingPeersSubsetForTouched env wg E k = Some p \<longleftrightarrow>
      pi_Email p \<in> E \<and> GetByEmail (wg_peerStore wg) (pi_Email p) = Some p \<and> k = we_KeyString env (pi_PublicKey p)" for k p
    unfolding buildExistingPeersSubsetForTouched_def mem by blast
  have "k \<in> (\<lambda>e. we_KeyString env (pi_PublicKey (the (GetByEmail (wg_peerStore wg) e)))) ` E"
    if "buildExistingPeersSubsetForTouched env wg E k = Some p" for k p
    using that unfolding l by (intro image_eqI [of _ _ "pi_Email p"]) auto
  then have "dom (buildExistingPeersSubsetForTouched env wg E) \<subseteq>
      (\<lambda>e. we_KeyString env (pi_PublicKey (the (GetByEmail (wg_peerStore wg) e)))) ` E" by blast
  then show "keyed env (buildExistingPeersSubsetForTouched env wg E)"
    using fin finite_subset unfolding keyed_def by (simp add: l) blast
qed

lemma owner_conflict_None:
  "owner_conflict owners touched desired keys = None \<Longrightarrow> k \<in> set keys \<Longrightarrow> desired k = Some d \<Longrightarrow>
    owners k = Some e \<Longrightarrow> e \<noteq> dp_Email d \<Longrightarrow> e \<in> touched"
  by (induction keys) (auto split: option.splits if_splits)

lemma wg_psk_frame:
  assumes "wg_psk env wg = (psk, wg')"
  shows "wg_peerStore wg' = wg_peerStore wg" "wg_kernel wg' = wg_kernel wg" "wg_manager wg' = wg_manager wg"
    "wg_state wg' = wg_state wg" "wg_kicked wg' = wg_kicked wg"
  using assms by (auto simp: wg_psk_def split: prod.splits)

lemma ApplyPeers_keys:
  assumes "wg_env_ok env dev_keys" "ApplyPeers env m cs k = (None, k')"
  shows "dev_keys k' = fold config_keys cs (dev_keys k)"
  using assms wg_env_okD(4) [OF assms(1), of "wm_iFaceName m" _ k k']
  by (auto simp: ApplyPeers_def split: if_splits)

text \<open>What a successful partial synchronisation did.\<close>

lemma partial_success:
  assumes ok: "wg_env_ok env dev_keys" and run: "syncUsersPartialReconcile env users wg = (None, wg')"
  defines "us \<equiv> wg_normalizeUsers env wg users"
  defines "existing \<equiv> buildExistingPeersSubsetForTouched env wg (GetEmail ` set us)"
  shows "\<exists>desired psk d. collectDesiredPeers env (wg_config wg) us = Inr desired \<and>
    owner_conflict (GetEmailMap (wg_peerStore wg)) (GetEmail ` set us) desired
      (wg_order env wg 10 (dom desired)) = None \<and>
    d = buildSyncDiff env (wg_order env wg) psk existing desired \<and>
    wg_peerStore wg' = snd (ApplyChanges (we_KeyString env) (sd_RemoveKeys d) (map Some (sd_UpsertPeers d)) (wg_peerStore wg)) \<and>
    dev_keys (wg_kernel wg') = fold config_keys (sd_PeerConfigs d) (dev_keys (wg_kernel wg)) \<and>
    wg_kicked wg' = wg_kicked wg"
proof -
  obtain desired where c: "collectDesiredPeers env (wg_config wg) us = Inr desired"
    using run by (auto simp: syncUsersPartialReconcile_def Let_def us_def split: sum.splits)
  have o: "owner_conflict (GetEmailMap (wg_peerStore wg)) (GetEmail ` set us) desired
      (wg_order env wg 10 (dom desired)) = None"
    using run c by (auto simp: syncUsersPartialReconcile_def Let_def us_def split: option.splits)
  obtain psk wg1 where p: "wg_psk env wg = (psk, wg1)" by fastforce
  define d where "d = buildSyncDiff env (wg_order env wg) psk existing desired"
  obtain k where wg': "(None, wg') = commit_partial env d (wg1\<lparr>wg_kernel := k\<rparr>)"
    and keys: "dev_keys k = fold config_keys (sd_PeerConfigs d) (dev_keys (wg_kernel wg))"
  proof (cases "sd_PeerConfigs d = []")
    case True
    then have "(None, wg') = commit_partial env d (wg1\<lparr>wg_kernel := wg_kernel wg1\<rparr>)"
      using run c o p by (simp add: syncUsersPartialReconcile_def Let_def us_def existing_def d_def)
    with True wg_psk_frame(2) [OF p] that show ?thesis by simp
  next
    case False
    then obtain k where k: "ApplyPeers env (the (wg_manager wg1)) (sd_PeerConfigs d) (wg_kernel wg1) = (None, k)"
      "(None, wg') = commit_partial env d (wg1\<lparr>wg_kernel := k\<rparr>)"
      using run c o p
      by (auto simp: syncUsersPartialReconcile_def Let_def us_def existing_def d_def split: option.splits prod.splits)
    with ApplyPeers_keys [OF ok k(1)] wg_psk_frame(2) [OF p] that show ?thesis by simp
  qed
  have "wg_peerStore wg' = snd (ApplyChanges (we_KeyString env) (sd_RemoveKeys d) (map Some (sd_UpsertPeers d)) (wg_peerStore wg)) \<and>
    wg_kernel wg' = k \<and> wg_kicked wg' = wg_kicked wg"
    using wg' wg_psk_frame [OF p] by (auto simp: commit_partial_def remove_stats_def split: prod.splits)
  with c o d_def keys show ?thesis by blast
qed

text \<open>
  \<open>partial_diff\<close>: removals and upserts computed from the difference between the store's peers
  of the touched emails \<open>E\<close> and the targets \<open>T\<close>, where no untouched user owns a target's key.
\<close>

definition partial_diff :: "'k WgEnv \<Rightarrow> PeerStore \<Rightarrow> string set \<Rightarrow> (string \<rightharpoonup> PeerInfo) \<Rightarrow> (string \<rightharpoonup> PeerInfo) \<Rightarrow>
    string list \<Rightarrow> PeerInfo list \<Rightarrow> bool" where
  "partial_diff env ps E existing T rems ups \<longleftrightarrow>
    store_inv (we_KeyString env) ps \<and> keyed env T \<and>
    (\<forall>k p. existing k = Some p \<longleftrightarrow> pi_Email p \<in> E \<and> GetByEmail ps (pi_Email p) = Some p \<and> k = we_KeyString env (pi_PublicKey p)) \<and>
    (\<forall>k p. T k = Some p \<longrightarrow> pi_Email p \<in> E) \<and>
    (\<forall>k p k' p'. T k = Some p \<longrightarrow> T k' = Some p' \<longrightarrow> pi_Email p = pi_Email p' \<longrightarrow> k = k') \<and>
    (\<forall>k p q. T k = Some p \<longrightarrow> GetByKey ps k = Some q \<longrightarrow> pi_Email q \<noteq> pi_Email p \<longrightarrow> pi_Email q \<in> E) \<and>
    (\<forall>p. p \<in> set ups \<longleftrightarrow> (\<exists>k. T k = Some p \<and> (existing k = None \<or> peer_differs env (the (existing k)) p))) \<and>
    distinct (map (\<lambda>p. we_KeyString env (pi_PublicKey p)) ups) \<and>
    set rems = dom existing - dom T"

lemma partial_diffD:
  assumes "partial_diff env ps E existing T rems ups"
  shows "store_inv (we_KeyString env) ps" "keyed env T"
    and "existing k = Some p \<longleftrightarrow> pi_Email p \<in> E \<and> GetByEmail ps (pi_Email p) = Some p \<and> k = we_KeyString env (pi_PublicKey p)"
    and "T k = Some p \<Longrightarrow> pi_Email p \<in> E"
    and "T k = Some p \<Longrightarrow> T k' = Some p' \<Longrightarrow> pi_Email p = pi_Email p' \<Longrightarrow> k = k'"
    and "T k = Some p \<Longrightarrow> GetByKey ps k = Some q \<Longrightarrow> pi_Email q \<noteq> pi_Email p \<Longrightarrow> pi_Email q \<in> E"
    and "p \<in> set ups \<longleftrightarrow> (\<exists>k. T k = Some p \<and> (existing k = None \<or> peer_differs env (the (existing k)) p))"
    and "distinct (map (\<lambda>p. we_KeyString env (pi_PublicKey p)) ups)"
    and "set rems = dom existing - dom T"
  using assms unfolding partial_diff_def by (blast, blast, metis, metis, metis, metis, metis, blast, blast)

lemma partial_upsert_target:
  "partial_diff env ps E existing T rems ups \<Longrightarrow> p \<in> set ups \<Longrightarrow> T (we_KeyString env (pi_PublicKey p)) = Some p"
  by (metis partial_diffD(2,7) keyedD(1))

lemma partial_change_lookup:
  assumes pd: "partial_diff env ps E existing T rems ups"
  defines "ps' \<equiv> snd (ApplyChanges (we_KeyString env) rems (map Some ups) ps)"
  shows "GetByEmail ps' e = Some q \<longleftrightarrow> (q \<in> set ups \<and> pi_Email q = e \<or>
     e \<notin> pi_Email ` set ups \<and> GetByEmail ps e = Some q \<and> we_KeyString env (pi_PublicKey q) \<notin> set rems \<and>
     we_KeyString env (pi_PublicKey q) \<notin> (\<lambda>p. we_KeyString env (pi_PublicKey p)) ` set ups)"
proof -
  have "distinct ups" using partial_diffD(8) [OF pd] by (simp add: distinct_map)
  moreover have "inj_on pi_Email (set ups)"
    by (rule inj_onI) (metis option.inject partial_diffD(5) [OF pd] partial_upsert_target [OF pd])
  ultimately have "distinct (map pi_Email ups)" by (simp add: distinct_map)
  from store.change_lookup [OF partial_diffD(1) [OF pd] this partial_diffD(8) [OF pd]]
  show ?thesis unfolding ps'_def by blast
qed

lemma partial_untouched:
  assumes pd: "partial_diff env ps E existing T rems ups" and e: "e \<notin> E"
  shows "GetByEmail (snd (ApplyChanges (we_KeyString env) rems (map Some ups) ps)) e = GetByEmail ps e"
proof (rule option.expand)
  let ?ks = "\<lambda>p. we_KeyString env (pi_PublicKey p)"
  let ?ps' = "snd (ApplyChanges (we_KeyString env) rems (map Some ups) ps)"
  note D = partial_diffD [OF pd] and upT = partial_upsert_target [OF pd]
  have noup: "e \<notin> pi_Email ` set ups" using upT D(4) e by (metis imageE)
  have "?ks q \<notin> set rems \<and> ?ks q \<notin> ?ks ` set ups" if q: "GetByEmail ps e = Some q" for q
  proof
    have "existing (?ks q) = None"
    proof (rule ccontr)
      assume "existing (?ks q) \<noteq> None"
      then obtain r where r: "pi_Email r \<in> E" "GetByEmail ps (pi_Email r) = Some r" "?ks q = ?ks r"
        using D(3) by auto
      with store.key_owner_unique [OF D(1) q r(2,3)] e show False by simp
    qed
    then show "?ks q \<notin> set rems" using D(9) by auto
    show "?ks q \<notin> ?ks ` set ups"
    proof
      assume "?ks q \<in> ?ks ` set ups"
      then obtain p where "p \<in> set ups" "?ks p = ?ks q" by auto
      then have p: "T (?ks q) = Some p" using upT by metis
      have q': "pi_Email q = e" using store.email_of [OF D(1) q] .
      then have "GetByKey ps (?ks q) = Some q" using q store.by_key_iff [OF D(1)] by metis
      moreover have "pi_Email q \<noteq> pi_Email p" using D(4) [OF p] q' e by metis
      ultimately show False using D(6) [OF p] q' e by blast
    qed
  qed
  with noup have l: "GetByEmail ?ps' e = Some q \<longleftrightarrow> GetByEmail ps e = Some q" for q
    unfolding partial_change_lookup [OF pd] by blast
  show "(GetByEmail ?ps' e = None) = (GetByEmail ps e = None)" using l by (metis not_None_eq)
  show "the (GetByEmail ?ps' e) = the (GetByEmail ps e)" if "GetByEmail ?ps' e \<noteq> None" "GetByEmail ps e \<noteq> None"
    using l that by (metis option.collapse)
qed

lemma partial_target:
  assumes ok: "wg_env_ok env dev_keys" and pd: "partial_diff env ps E existing T rems ups" and t: "T k = Some p"
  shows "\<exists>q. GetByEmail (snd (ApplyChanges (we_KeyString env) rems (map Some ups) ps)) (pi_Email p) = Some q \<and>
    pi_PublicKey q = pi_PublicKey p \<and> ipnets_equal env (pi_AllowedIPs q) (pi_AllowedIPs p)"
proof (cases "p \<in> set ups")
  case True
  moreover have "ipnets_equal env (pi_AllowedIPs p) (pi_AllowedIPs p)"
    by (simp add: ipnets_equal_def list.rel_refl)
  ultimately show ?thesis using partial_change_lookup [OF pd] by blast
next
  case False
  let ?ks = "\<lambda>p. we_KeyString env (pi_PublicKey p)"
  note D = partial_diffD [OF pd] and upT = partial_upsert_target [OF pd]
  obtain q where q: "existing k = Some q" "\<not> peer_differs env q p"
    using D(7) t False by (metis option.exhaust_sel)
  have k: "k = ?ks p" "k = ?ks q" using keyedD(1) [OF D(2) t] q(1) D(3) by blast+
  have same: "pi_Email q = pi_Email p" "ipnets_equal env (pi_AllowedIPs q) (pi_AllowedIPs p)"
    using q(2) by (auto simp: peer_differs_def)
  have "r \<notin> set ups" if "pi_Email r = pi_Email p \<or> ?ks r = k" for r
    using upT D(5) t that False k by (metis option.inject)
  then have "pi_Email p \<notin> pi_Email ` set ups" "?ks q \<notin> ?ks ` set ups" using k by force+
  moreover have "?ks q \<notin> set rems" using D(9) t k by auto
  moreover have "GetByEmail ps (pi_Email p) = Some q" using q(1) D(3) same by metis
  ultimately have "GetByEmail (snd (ApplyChanges (we_KeyString env) rems (map Some ups) ps)) (pi_Email p) = Some q"
    unfolding partial_change_lookup [OF pd] by blast
  moreover have "pi_PublicKey q = pi_PublicKey p" using k KeyString_inj [OF ok] by metis
  ultimately show ?thesis using same(2) by blast
qed

lemma partial_dropped:
  assumes pd: "partial_diff env ps E existing T rems ups" and e: "e \<in> E" "\<forall>k p. T k = Some p \<longrightarrow> pi_Email p \<noteq> e"
  shows "GetByEmail (snd (ApplyChanges (we_KeyString env) rems (map Some ups) ps)) e = None"
proof (rule ccontr)
  let ?ks = "\<lambda>p. we_KeyString env (pi_PublicKey p)"
  note D = partial_diffD [OF pd] and upT = partial_upsert_target [OF pd]
  assume "GetByEmail (snd (ApplyChanges (we_KeyString env) rems (map Some ups) ps)) e \<noteq> None"
  then obtain q where q: "GetByEmail (snd (ApplyChanges (we_KeyString env) rems (map Some ups) ps)) e = Some q" by blast
  have "\<not> (q \<in> set ups \<and> pi_Email q = e)" using upT e(2) by metis
  with q have old: "GetByEmail ps e = Some q" "?ks q \<notin> set rems" "?ks q \<notin> ?ks ` set ups"
    unfolding partial_change_lookup [OF pd] by blast+
  have em: "pi_Email q = e" using store.email_of [OF D(1) old(1)] .
  have x: "existing (?ks q) = Some q" using D(3) old(1) e(1) em by metis
  then have "?ks q \<in> dom T" using old(2) D(9) by blast
  then obtain t where t: "T (?ks q) = Some t" by blast
  have "pi_Email t \<noteq> e" using e(2) t by blast
  then have "peer_differs env q t" using em by (simp add: peer_differs_def)
  then have "t \<in> set ups" using D(7) t x by (metis option.sel)
  then show False using old(3) keyedD(1) [OF D(2) t] by force
qed

text \<open>The keys of the store after the change: the old ones without the removed, and the targets.\<close>

lemma partial_keys:
  assumes ok: "wg_env_ok env dev_keys" and pd: "partial_diff env ps E existing T rems ups"
  shows "{k. \<exists>p e. GetByEmail (snd (ApplyChanges (we_KeyString env) rems (map Some ups) ps)) e = Some p \<and> pi_PublicKey p = k} =
    ({k. \<exists>p e. GetByEmail ps e = Some p \<and> pi_PublicKey p = k} \<union> pi_PublicKey ` ran T) -
      {p. we_KeyString env p \<in> dom existing - dom T}" (is "?new = ?old")
proof (intro equalityI subsetI)
  let ?ks = "\<lambda>p. we_KeyString env (pi_PublicKey p)"
  note D = partial_diffD [OF pd] and upT = partial_upsert_target [OF pd]
  fix k assume "k \<in> ?new"
  then obtain p e where p: "GetByEmail (snd (ApplyChanges (we_KeyString env) rems (map Some ups) ps)) e = Some p"
    "pi_PublicKey p = k" by blast
  then consider "p \<in> set ups" | "GetByEmail ps e = Some p" "?ks p \<notin> set rems"
    unfolding partial_change_lookup [OF pd] by blast
  then show "k \<in> ?old"
  proof cases
    case 1
    then have "T (?ks p) = Some p" by (rule upT)
    then show ?thesis using p(2) by (auto intro: ranI)
  next
    case 2
    then show ?thesis using p(2) D(9) by auto
  qed
next
  let ?ks = "\<lambda>p. we_KeyString env (pi_PublicKey p)"
  note D = partial_diffD [OF pd]
  fix k assume k: "k \<in> ?old"
  show "k \<in> ?new"
  proof (cases "k \<in> pi_PublicKey ` ran T")
    case True
    then obtain j p where "T j = Some p" "k = pi_PublicKey p" by (auto simp: ran_def)
    with partial_target [OF ok pd] show ?thesis by fastforce
  next
    case False
    then obtain p e where p: "GetByEmail ps e = Some p" "pi_PublicKey p = k" using k by blast
    have em: "pi_Email p = e" using store.email_of [OF D(1) p(1)] .
    have nT: "T (?ks p) = None"
    proof (rule ccontr)
      assume "T (?ks p) \<noteq> None"
      then obtain t where t: "T (?ks p) = Some t" by blast
      then have "pi_PublicKey p = pi_PublicKey t"
        using keyedD(1) [OF D(2) t] KeyString_inj [OF ok] by metis
      with False p(2) ranI [of T, OF t] show False by blast
    qed
    then have "existing (?ks p) = None" using k p(2) by auto
    then have "e \<notin> E" using D(3) p(1) em by (metis option.distinct(1))
    from partial_untouched [OF pd this] p show ?thesis by auto
  qed
qed

text \<open>\<open>targets_of\<close>: the targets are the peers the users ask for, keyed by the text of their keys.\<close>

definition targets_of :: "'k WgEnv \<Rightarrow> WgConfig \<Rightarrow> UserPtr list \<Rightarrow> (string \<rightharpoonup> PeerInfo) \<Rightarrow> bool" where
  "targets_of env config us T \<longleftrightarrow>
    (\<forall>k p. T k = Some p \<longleftrightarrow> (\<exists>u \<in> set us. \<exists>d. desired_of env config u = Some d \<and> p = target_of d \<and>
         k = we_KeyString env (dp_ParsedKey d)))"

lemma targets_ofD:
  assumes "targets_of env config us T"
  shows "T k = Some p \<longleftrightarrow> (\<exists>u \<in> set us. \<exists>d. desired_of env config u = Some d \<and> p = target_of d \<and>
         k = we_KeyString env (dp_ParsedKey d))"
    and "u \<in> set us \<Longrightarrow> desired_of env config u = Some d \<Longrightarrow> T (we_KeyString env (dp_ParsedKey d)) = Some (target_of d)"
  using assms unfolding targets_of_def by simp_all blast

lemma targets_of_email:
  assumes "targets_of env config us T" "T k = Some p" "distinct (map GetEmail us)" "u \<in> set us" "pi_Email p = GetEmail u"
  shows "\<exists>d. desired_of env config u = Some d \<and> p = target_of d"
proof -
  obtain v d where v: "v \<in> set us" "desired_of env config v = Some d" "p = target_of d"
    using assms(2) unfolding targets_ofD(1) [OF assms(1)] by blast
  then have "GetEmail v = GetEmail u"
    using desired_of_Some [OF v(2)] assms(5) by (simp add: target_of_def)
  then have "v = u" using assms(3,4) v(1) by (auto simp: distinct_map inj_on_def)
  with v show ?thesis by blast
qed

definition new_keys :: "(string \<rightharpoonup> PeerInfo) \<Rightarrow> (string \<rightharpoonup> PeerInfo) \<Rightarrow> Key set" where
  "new_keys existing T = {pi_PublicKey p | k p. T k = Some p \<and> existing k = None}"

lemma partial_success_diff:
  assumes ok: "wg_env_ok env dev_keys" and inv: "store_inv (we_KeyString env) (wg_peerStore wg)"
    and can: "canonical env (wg_config wg) users" and run: "syncUsersPartialReconcile env users wg = (None, wg')"
  defines "us \<equiv> wg_normalizeUsers env wg users"
  shows "\<exists>existing T rems ups X.
    partial_diff env (wg_peerStore wg) (GetEmail ` set us) existing T rems ups \<and>
    targets_of env (wg_config wg) us T \<and>
    wg_peerStore wg' = snd (ApplyChanges (we_KeyString env) rems (map Some ups) (wg_peerStore wg)) \<and>
    new_keys existing T \<subseteq> X \<and> X \<subseteq> pi_PublicKey ` ran T \<and>
    dev_keys (wg_kernel wg') = (dev_keys (wg_kernel wg) \<union> X) - {p. we_KeyString env p \<in> dom existing - dom T}"
proof -
  let ?ex = "buildExistingPeersSubsetForTouched env wg (GetEmail ` set us)"
  from partial_success [OF ok run] obtain desired psk d where
    c: "collectDesiredPeers env (wg_config wg) us = Inr desired"
    and own: "owner_conflict (GetEmailMap (wg_peerStore wg)) (GetEmail ` set us) desired (wg_order env wg 10 (dom desired)) = None"
    and d: "d = buildSyncDiff env (wg_order env wg) psk ?ex desired"
    and st: "wg_peerStore wg' = snd (ApplyChanges (we_KeyString env) (sd_RemoveKeys d) (map Some (sd_UpsertPeers d)) (wg_peerStore wg))"
    and dev: "dev_keys (wg_kernel wg') = fold config_keys (sd_PeerConfigs d) (dev_keys (wg_kernel wg))"
    unfolding us_def by blast
  let ?T = "target_peers desired"
  note tk = target_keyed [OF ok can c [unfolded us_def], folded us_def]
  note dp = desired_props [OF c [unfolded us_def] normalize_props(1) [OF ok refl], folded us_def]
  note exs = existing_subset [OF ok inv, of "GetEmail ` set us"]
  have keyed: "keyed env ?ex" using exs(2) by simp
  note bd = buildSyncDiff_props [OF ok keyed tk(1,2) d]
  have inE: "pi_Email p \<in> GetEmail ` set us" if "?T k = Some p" for k p
    using that dp(2) by (auto simp: target_peers_def target_of_def)
  have owner: "pi_Email q \<in> GetEmail ` set us"
    if a: "?T k = Some p" "GetByKey (wg_peerStore wg) k = Some q" "pi_Email q \<noteq> pi_Email p" for k p q
  proof -
    obtain t where t: "desired k = Some t" "p = target_of t" using a(1) by (auto simp: target_peers_def)
    show ?thesis
      using owner_conflict_None [OF own _ t(1)] wg_env_okD(2) [OF ok dp(5)] a(2,3) t
      by (auto simp: GetEmailMap_def GetByKey_def target_of_def)
  qed
  have pd: "partial_diff env (wg_peerStore wg) (GetEmail ` set us) ?ex ?T (sd_RemoveKeys d) (sd_UpsertPeers d)"
    unfolding partial_diff_def using inv tk(1,3) exs(1) inE owner bd(1-3) by simp
  from bd(4) [folded new_keys_def] obtain X where "new_keys ?ex ?T \<subseteq> X \<and> X \<subseteq> pi_PublicKey ` ran ?T \<and>
    (\<forall>S. fold config_keys (sd_PeerConfigs d) S = (S \<union> X) - {p. we_KeyString env p \<in> dom ?ex - dom ?T})" ..
  then have X: "new_keys ?ex ?T \<subseteq> X" "X \<subseteq> pi_PublicKey ` ran ?T"
    "\<forall>S. fold config_keys (sd_PeerConfigs d) S = (S \<union> X) - {p. we_KeyString env p \<in> dom ?ex - dom ?T}"
    by simp_all
  have dev': "dev_keys (wg_kernel wg') = (dev_keys (wg_kernel wg) \<union> X) - {p. we_KeyString env p \<in> dom ?ex - dom ?T}"
    using dev X(3) by simp
  show ?thesis
    by (intro exI [of _ ?ex] exI [of _ ?T] exI [of _ "sd_RemoveKeys d"] exI [of _ "sd_UpsertPeers d"] exI [of _ X]
        conjI pd st X(1,2) dev') (simp add: targets_of_def tk(4))
qed

lemma store_keys_iff:
  assumes "store_inv (we_KeyString env) (wg_peerStore wg)"
  shows "store_keys wg = {k. \<exists>p e. GetByEmail (wg_peerStore wg) e = Some p \<and> pi_PublicKey p = k}"
  using GetByEmail_iff [OF assms] store_invD(3) [OF assms]
  by (auto simp: store_keys_def ran_def image_iff) metis+

text \<open>What the store should hold for an email after users were synchronised.\<close>

definition peer_as_wanted :: "'k WgEnv \<Rightarrow> WgConfig \<Rightarrow> UserPtr \<Rightarrow> PeerInfo option \<Rightarrow> bool" where
  "peer_as_wanted env config u r \<longleftrightarrow>
    (case desired_of env config u of
       None \<Rightarrow> r = None
     | Some d \<Rightarrow> (case r of
         None \<Rightarrow> False
       | Some q \<Rightarrow> pi_Email q = dp_Email d \<and> pi_PublicKey q = dp_ParsedKey d \<and>
           ipnets_equal env (pi_AllowedIPs q) (dp_AllowedIPNets d)))"


text \<open>When the device had exactly the store's peers before a successful partial
  synchronisation, it has exactly the store's peers after it.\<close>

lemma partial_sync_kernel:
  assumes "wg_env_ok env dev_keys" "store_inv (we_KeyString env) (wg_peerStore wg)"
    and "canonical env (wg_config wg) users" "syncUsersPartialReconcile env users wg = (None, wg')"
    and "dev_keys (wg_kernel wg) = store_keys wg"
  shows "store_inv (we_KeyString env) (wg_peerStore wg') \<and> dev_keys (wg_kernel wg') = store_keys wg'"
proof -
  from partial_success_diff [OF assms(1-4)] obtain existing T rems ups X where
    pd: "partial_diff env (wg_peerStore wg) (GetEmail ` set (wg_normalizeUsers env wg users)) existing T rems ups"
    and st: "wg_peerStore wg' = snd (ApplyChanges (we_KeyString env) rems (map Some ups) (wg_peerStore wg))"
    and X: "new_keys existing T \<subseteq> X" "X \<subseteq> pi_PublicKey ` ran T"
    and dev: "dev_keys (wg_kernel wg') = (dev_keys (wg_kernel wg) \<union> X) - {p. we_KeyString env p \<in> dom existing - dom T}"
    by blast
  note D = partial_diffD [OF pd]
  have inv': "store_inv (we_KeyString env) (wg_peerStore wg')"
    unfolding st using ApplyChanges_refines [OF assms(2)] by blast
  have "pi_PublicKey p \<in> store_keys wg \<union> X" if "T k = Some p" for k p
  proof (cases "existing k")
    case None
    then show ?thesis using X(1) that by (auto simp: new_keys_def)
  next
    case (Some q)
    have q: "GetByEmail (wg_peerStore wg) (pi_Email q) = Some q" "k = we_KeyString env (pi_PublicKey q)"
      using D(3) [THEN iffD1, OF Some] by blast+
    then have "pi_PublicKey q = pi_PublicKey p"
      using keyedD(1) [OF D(2) that] KeyString_inj [OF assms(1)] by metis
    with q(1) show ?thesis unfolding store_keys_iff [OF assms(2)] by auto
  qed
  then have "store_keys wg \<union> X = store_keys wg \<union> pi_PublicKey ` ran T"
    using X(2) by (auto simp: ran_def)
  then show ?thesis
    using partial_keys [OF assms(1) pd] dev assms(5) inv'
    unfolding store_keys_iff [OF inv'] store_keys_iff [OF assms(2)] st by simp
qed

section \<open>Full synchronisation\<close>

lemma existing_snapshot:
  assumes ok: "wg_env_ok env dev_keys" and inv: "store_inv (we_KeyString env) (wg_peerStore wg)"
  shows "buildExistingPeersByKeySnapshot env wg = ps_peers (wg_peerStore wg)"
    and "keyed env (ps_peers (wg_peerStore wg))"
proof -
  note d = store_invD [OF inv]
  show "keyed env (ps_peers (wg_peerStore wg))" using d(1,3) by (auto simp: keyed_def)
  let ?ps = "GetAll (wg_order env wg 5 (dom (ps_peers (wg_peerStore wg)))) (wg_peerStore wg)"
  have "Some p \<in> set ?ps \<longleftrightarrow> (\<exists>k. ps_peers (wg_peerStore wg) k = Some p)" for p
    using wg_env_okD(2) [OF ok d(1), of wg 5] by (auto simp: GetAll_def image_iff eq_commute [of "Some p"] domIff)
  then have mem: "Some p \<in> set ?ps \<longleftrightarrow> ps_peers (wg_peerStore wg) (we_KeyString env (pi_PublicKey p)) = Some p" for p
    using d(3) by metis
  have "key_peers env ?ps k = Some p \<longleftrightarrow> Some p \<in> set ?ps \<and> k = we_KeyString env (pi_PublicKey p)" for k p
    by (rule key_peers_lookup) (metis mem option.inject)
  then have "buildExistingPeersByKeySnapshot env wg k = Some p \<longleftrightarrow> ps_peers (wg_peerStore wg) k = Some p" for k p
    unfolding buildExistingPeersByKeySnapshot_def mem using d(3) by metis
  then show "buildExistingPeersByKeySnapshot env wg = ps_peers (wg_peerStore wg)"
    by (metis (no_types) ext not_Some_eq)
qed

lemma buildTargetPeerConfigs_props:
  assumes ok: "wg_env_ok env dev_keys" and T: "keyed env T" "\<forall>k p. T k = Some p \<longrightarrow> pi_AllowedIPs p \<noteq> []"
    and run: "buildTargetPeerConfigs (wg_order env wg tag) T psk = (configs, applied)"
  shows "applied = dom T \<and> fold config_keys configs S = S \<union> pi_PublicKey ` ran T"
proof -
  let ?ks = "sorted_keys (wg_order env wg tag) (dom T)"
  let ?step = "\<lambda>key (configs, appliedKeys). case buildAddConfigFromPeerInfo (the (T key)) psk of
      Inl err \<Rightarrow> (configs, appliedKeys) | Inr config \<Rightarrow> (configs @ [config], insert key appliedKeys)"
  have ks: "set ?ks = dom T" using sorted_keys_props(1) [OF ok keyedD(2) [OF T(1)]] .
  have "set xs \<subseteq> dom T \<Longrightarrow> fold ?step xs (C, A) =
      (C @ map (\<lambda>k. buildAddConfig (pi_PublicKey (the (T k))) (pi_AllowedIPs (the (T k))) psk) xs, A \<union> set xs)" for xs C A
  proof (induction xs arbitrary: C A)
    case (Cons k xs)
    then obtain p where "T k = Some p" "pi_AllowedIPs p \<noteq> []" using T(2) by auto
    with Cons show ?case by (simp add: buildAddConfigFromPeerInfo_def)
  qed simp
  from this [of ?ks "[]" "{}"] run ks have r:
    "configs = map (\<lambda>k. buildAddConfig (pi_PublicKey (the (T k))) (pi_AllowedIPs (the (T k))) psk) ?ks" "applied = dom T"
    by (auto simp: buildTargetPeerConfigs_def)
  have "pc_PublicKey ` set configs = pi_PublicKey ` ran T"
    unfolding r(1) using ks by (force simp: buildAddConfig_def image_iff ran_def)
  moreover have "\<forall>c \<in> set configs. \<not> pc_Remove c" by (auto simp: r(1) buildAddConfig_def)
  ultimately show ?thesis using r(2) by (simp add: config_keys_add)
qed

text \<open>What a successful full synchronisation did: nothing when the store already agrees, a replacement otherwise.\<close>

definition email_inj :: "(string \<rightharpoonup> PeerInfo) \<Rightarrow> bool" where
  "email_inj T \<longleftrightarrow> (\<forall>k p k' p'. T k = Some p \<longrightarrow> T k' = Some p' \<longrightarrow> pi_Email p = pi_Email p' \<longrightarrow> k = k')"

definition store_agrees :: "'k WgEnv \<Rightarrow> PeerStore \<Rightarrow> (string \<rightharpoonup> PeerInfo) \<Rightarrow> bool" where
  "store_agrees env ps T \<longleftrightarrow> dom (ps_peers ps) = dom T \<and>
    (\<forall>k q p. ps_peers ps k = Some q \<longrightarrow> T k = Some p \<longrightarrow> \<not> peer_differs env q p)"

definition store_replaced :: "'k WgEnv \<Rightarrow> PeerStore \<Rightarrow> (string \<rightharpoonup> PeerInfo) \<Rightarrow> PeerStore \<Rightarrow> bool" where
  "store_replaced env ps T ps' \<longleftrightarrow> (\<exists>ks order. set ks = dom T \<and> distinct ks \<and>
     ps' = snd (ReplaceAll (we_KeyString env) order (map T ks) ps))"

lemma unchanged_agrees:
  assumes "wg_env_ok env dev_keys" "keyed env (ps_peers ps)" "keyed env (target_peers desired)"
    and "\<forall>k p. target_peers desired k = Some p \<longrightarrow> pi_AllowedIPs p \<noteq> []"
    and "d = buildSyncDiff env (wg_order env wg) psk (ps_peers ps) desired" "\<not> sd_Changed d"
  shows "store_agrees env ps (target_peers desired)"
proof -
  let ?T = "target_peers desired"
  note bd = buildSyncDiff_props [OF assms(1-5)]
  have e: "set (sd_RemoveKeys d) = {}" "set (sd_UpsertPeers d) = {}" using assms(6) bd(6) by auto
  have u: "\<not> (?T k = Some p \<and> (ps_peers ps k = None \<or> peer_differs env (the (ps_peers ps k)) p))" for k p
    using bd(2) [of p] e(2) by auto
  have "dom (ps_peers ps) \<subseteq> dom ?T" using bd(1) e(1) by auto
  moreover have "dom ?T \<subseteq> dom (ps_peers ps)" using u by auto
  moreover have "\<not> peer_differs env q p" if "ps_peers ps k = Some q" "?T k = Some p" for k q p
    using u [of k p] that by simp
  ultimately show ?thesis by (auto simp: store_agrees_def)
qed

lemma full_success:
  assumes ok: "wg_env_ok env dev_keys" and inv: "store_inv (we_KeyString env) (wg_peerStore wg)"
    and can: "canonical env (wg_config wg) users" and run: "syncUsersFull env users wg = (None, wg')"
  defines "us \<equiv> wg_normalizeUsers env wg users"
  shows "\<exists>T. targets_of env (wg_config wg) us T \<and> keyed env T \<and> email_inj T \<and>
    (store_agrees env (wg_peerStore wg) T \<and> wg_peerStore wg' = wg_peerStore wg \<and> wg_kernel wg' = wg_kernel wg \<or>
     store_replaced env (wg_peerStore wg) T (wg_peerStore wg') \<and> dev_keys (wg_kernel wg') = pi_PublicKey ` ran T)"
proof -
  obtain desired where c: "collectDesiredPeers env (wg_config wg) us = Inr desired"
    using run by (auto simp: syncUsersFull_def Let_def us_def split: sum.splits)
  let ?T = "target_peers desired"
  note ex = existing_snapshot [OF ok inv]
  note tk = target_keyed [OF ok can c [unfolded us_def], folded us_def]
  have T: "targets_of env (wg_config wg) us ?T" "email_inj ?T"
    using tk(3) by (simp add: targets_of_def tk(4), simp add: email_inj_def)
  obtain psk wg1 where p1: "wg_psk env wg = (psk, wg1)" by fastforce
  obtain psk2 wg2 where p2: "wg_psk env wg1 = (psk2, wg2)" by fastforce
  note fr = wg_psk_frame [OF p1] wg_psk_frame [OF p2]
  define d where "d = buildSyncDiff env (wg_order env wg) psk (ps_peers (wg_peerStore wg)) desired"
  note bd = buildSyncDiff_props [OF ok ex(2) tk(1,2) d_def]
  obtain configs applied where b: "buildTargetPeerConfigs (wg_order env wg 7) ?T psk2 = (configs, applied)" by fastforce
  note bt = buildTargetPeerConfigs_props [OF ok tk(1,2) b]
  let ?ks = "filter (\<lambda>key. key \<in> applied) (wg_order env wg 8 (dom ?T))"
  have ks: "set ?ks = dom ?T" "distinct ?ks"
    using wg_env_okD(2,3) [OF ok keyedD(2) [OF tk(1)]] bt by auto
  show ?thesis
  proof (cases "sd_Changed d")
    case False
    then have "wg' = wg1" using run c p1 by (simp add: syncUsersFull_def Let_def us_def ex(1) d_def)
    with unchanged_agrees [OF ok ex(2) tk(1,2) d_def False] T tk(1) fr(1,2) show ?thesis
      by (intro exI [of _ ?T]) simp
  next
    case True
    then obtain k where k: "ApplyPeersReplaceAll env (the (wg_manager wg2)) configs (wg_kernel wg2) = (None, k)"
      "wg_kernel wg' = k"
      "wg_peerStore wg' = snd (ReplaceAll (we_KeyString env) (wg_order env wg 9 (dom (ps_peers (wg_peerStore wg2))))
         (map ?T ?ks) (wg_peerStore wg2))"
      using run c p1 p2 b bd(5)
      by (auto simp: syncUsersFull_def Let_def us_def ex(1) d_def remove_stats_def split: option.splits prod.splits)
    have "dev_keys (wg_kernel wg') = pi_PublicKey ` ran ?T"
      using k(1,2) wg_env_okD(4) [OF ok, of _ _ "wg_kernel wg2" k] bt by (auto simp: ApplyPeersReplaceAll_def split: if_splits)
    moreover have "store_replaced env (wg_peerStore wg) ?T (wg_peerStore wg')"
      unfolding store_replaced_def
      by (rule exI [of _ ?ks], rule exI [of _ "wg_order env wg 9 (dom (ps_peers (wg_peerStore wg2)))"])
        (use k(3) ks fr(1,6) in simp)
    ultimately show ?thesis using T tk(1) by blast
  qed
qed

lemma replaced_lookup:
  assumes T: "keyed env T" "email_inj T" and st: "store_replaced env ps T st"
  shows "store_inv (we_KeyString env) st" "GetByEmail st e = Some p \<longleftrightarrow> (\<exists>k. T k = Some p \<and> pi_Email p = e)"
proof -
  obtain ks order where ks: "set ks = dom T" "distinct ks"
    and st0: "st = snd (ReplaceAll (we_KeyString env) order (map T ks) ps)"
    using st by (auto simp: store_replaced_def)
  let ?l = "map (\<lambda>k. the (T k)) ks"
  have mT: "map T ks = map Some ?l" using ks(1) by auto
  have key: "we_KeyString env (pi_PublicKey (the (T k))) = k" if "k \<in> set ks" for k
    using that ks(1) keyedD(1) [OF T(1)] by (metis domD option.sel)
  have "map (\<lambda>p. we_KeyString env (pi_PublicKey p)) ?l = ks"
    unfolding map_map comp_def using key by (rule map_idI)
  then have dk: "distinct (map (\<lambda>p. we_KeyString env (pi_PublicKey p)) ?l)" using ks(2) by simp
  have "k = k'" if "k \<in> set ks" "k' \<in> set ks" "pi_Email (the (T k)) = pi_Email (the (T k'))" for k k'
    using that T(2) ks(1) unfolding email_inj_def by (metis domD option.sel)
  then have "inj_on (\<lambda>k. pi_Email (the (T k))) (set ks)" by (rule inj_onI)
  then have de: "distinct (map pi_Email ?l)" using ks(2) by (simp add: comp_def distinct_map)
  have st': "st = fold (put_peer (we_KeyString env)) (map Some ?l) NewPeerStore"
    using st0 by (simp add: ReplaceAll_def Let_def mT)
  show inv: "store_inv (we_KeyString env) st" unfolding st' by (rule put_peers_inv [OF de dk])
  have mem: "p \<in> set ?l \<longleftrightarrow> (\<exists>k. T k = Some p)"
    using ks(1) by (force simp: image_iff)
  show "GetByEmail st e = Some p \<longleftrightarrow> (\<exists>k. T k = Some p \<and> pi_Email p = e)"
    unfolding GetByEmail_iff [OF inv] unfolding st' put_peers [OF de dk, THEN conjunct1, rule_format] mem by blast
qed

text \<open>The peers of a store that agrees with the targets or was replaced by them.\<close>

lemma synced_lookup:
  assumes ok: "wg_env_ok env dev_keys" and T: "keyed env T" "email_inj T" and inv: "store_inv (we_KeyString env) ps"
    and alt: "store_agrees env ps T \<and> ps' = ps \<or> store_replaced env ps T ps'"
  shows "store_inv (we_KeyString env) ps'"
    and "GetByEmail ps' e = Some q \<Longrightarrow> \<exists>k p. T k = Some p \<and> pi_Email p = e \<and> pi_PublicKey p = pi_PublicKey q"
    and "T k = Some p \<Longrightarrow> \<exists>q. GetByEmail ps' (pi_Email p) = Some q \<and> pi_Email q = pi_Email p \<and>
       pi_PublicKey q = pi_PublicKey p \<and> ipnets_equal env (pi_AllowedIPs q) (pi_AllowedIPs p)"
proof -
  have "store_inv (we_KeyString env) ps' \<and>
    (GetByEmail ps' e = Some q \<longrightarrow> (\<exists>k p. T k = Some p \<and> pi_Email p = e \<and> pi_PublicKey p = pi_PublicKey q)) \<and>
    (T k = Some p \<longrightarrow> (\<exists>q. GetByEmail ps' (pi_Email p) = Some q \<and> pi_Email q = pi_Email p \<and>
       pi_PublicKey q = pi_PublicKey p \<and> ipnets_equal env (pi_AllowedIPs q) (pi_AllowedIPs p)))" for e q k p
    using alt
  proof
    assume "store_replaced env ps T ps'"
    from replaced_lookup [OF T this] show ?thesis by (auto simp: ipnets_equal_def list.rel_refl)
  next
    assume a: "store_agrees env ps T \<and> ps' = ps"
    then have dom: "dom (ps_peers ps) = dom T"
      and ag: "\<And>k q p. ps_peers ps k = Some q \<Longrightarrow> T k = Some p \<Longrightarrow> \<not> peer_differs env q p"
      by (auto simp: store_agrees_def)
    have pair: "\<exists>p. T k = Some p \<and> pi_Email q = pi_Email p \<and> pi_PublicKey q = pi_PublicKey p \<and>
        ipnets_equal env (pi_AllowedIPs q) (pi_AllowedIPs p)" if k: "ps_peers ps k = Some q" for k q
    proof -
      obtain p where p: "T k = Some p" using k dom by blast
      have "pi_PublicKey q = pi_PublicKey p"
        using store_invD(3) [OF inv k] keyedD(1) [OF T(1) p] KeyString_inj [OF ok] by metis
      with ag [OF k p] p show ?thesis by (auto simp: peer_differs_def)
    qed
    have "\<exists>q. GetByEmail ps (pi_Email p) = Some q \<and> pi_Email q = pi_Email p \<and>
       pi_PublicKey q = pi_PublicKey p \<and> ipnets_equal env (pi_AllowedIPs q) (pi_AllowedIPs p)" if t: "T k = Some p"
    proof -
      obtain q where q: "ps_peers ps k = Some q" using t dom by blast
      with pair [OF q] t store_invD(3) [OF inv q] show ?thesis
        by (intro exI [of _ q]) (auto simp: GetByEmail_iff [OF inv])
    qed
    moreover have "\<exists>k p. T k = Some p \<and> pi_Email p = e \<and> pi_PublicKey p = pi_PublicKey q" if g: "GetByEmail ps e = Some q"
      using pair g unfolding GetByEmail_iff [OF inv] by metis
    ultimately show ?thesis using a inv by blast
  qed
  then show "store_inv (we_KeyString env) ps'"
    "GetByEmail ps' e = Some q \<Longrightarrow> \<exists>k p. T k = Some p \<and> pi_Email p = e \<and> pi_PublicKey p = pi_PublicKey q"
    "T k = Some p \<Longrightarrow> \<exists>q. GetByEmail ps' (pi_Email p) = Some q \<and> pi_Email q = pi_Email p \<and>
       pi_PublicKey q = pi_PublicKey p \<and> ipnets_equal env (pi_AllowedIPs q) (pi_AllowedIPs p)"
    by blast+
qed

text \<open>C5. A successful full synchronisation leaves exactly the peers the listed users ask for, for
  every email, and keeps the store's 1:1 mapping. Keys are assumed to be in canonical base64.\<close>

theorem full_sync_exact:
  assumes "wg_env_ok env dev_keys" "store_inv (we_KeyString env) (wg_peerStore wg)"
    and "canonical env (wg_config wg) users" "syncUsersFull env users wg = (None, wg')"
  shows "store_inv (we_KeyString env) (wg_peerStore wg') \<and>
    (\<forall>e. case last_by_email (wc_ProxyField (wg_config wg)) users e of
       None \<Rightarrow> GetByEmail (wg_peerStore wg') e = None
     | Some u \<Rightarrow> peer_as_wanted env (wg_config wg) u (GetByEmail (wg_peerStore wg') e))"
proof -
  let ?us = "wg_normalizeUsers env wg users" and ?l = "last_by_email (wc_ProxyField (wg_config wg)) users"
  let ?st' = "wg_peerStore wg'"
  note np = normalize_props [where wg = wg and users = users, OF assms(1) refl]
  from full_success [OF assms] obtain T where T: "targets_of env (wg_config wg) ?us T" "keyed env T" "email_inj T"
    and alt: "store_agrees env (wg_peerStore wg) T \<and> ?st' = wg_peerStore wg \<or> store_replaced env (wg_peerStore wg) T ?st'"
    by blast
  note sl = synced_lookup [OF assms(1) T(2,3) assms(2) alt]
  have "GetByEmail ?st' e = None" if e: "?l e = None" for e
  proof (rule ccontr)
    assume "GetByEmail ?st' e \<noteq> None"
    then obtain k p where p: "T k = Some p" "pi_Email p = e" using sl(2) by blast
    obtain u d where u: "u \<in> set ?us" "desired_of env (wg_config wg) u = Some d" "p = target_of d"
      using p(1) unfolding targets_ofD(1) [OF T(1)] by blast
    have "GetEmail u = e"
      using p(2) u(3) desired_of_Some [OF u(2)] by (simp add: target_of_def)
    with u(1) have "e \<in> GetEmail ` set ?us" by blast
    with np(2) e show False by auto
  qed
  moreover have "peer_as_wanted env (wg_config wg) u (GetByEmail ?st' e)" if u: "?l e = Some u" for e u
  proof -
    have mem: "u \<in> set ?us" and e: "GetEmail u = e" using np(3) u last_by_email_props by blast+
    show ?thesis
    proof (cases "desired_of env (wg_config wg) u")
      case None
      have "GetByEmail ?st' e \<noteq> Some q" for q
        using sl(2) [of e q] targets_of_email [OF T(1) _ np(1) mem] e None by auto
      with None show ?thesis by (cases "GetByEmail ?st' e") (auto simp: peer_as_wanted_def)
    next
      case (Some d)
      with targets_ofD(2) [OF T(1) mem] have "T (we_KeyString env (dp_ParsedKey d)) = Some (target_of d)" by blast
      from sl(3) [OF this] Some desired_of_Some [OF Some] e show ?thesis
        by (auto simp: peer_as_wanted_def target_of_def)
    qed
  qed
  ultimately show ?thesis using sl(1) by (auto split: option.split)
qed

text \<open>When the device had exactly the store's peers before a successful full synchronisation, it
  has exactly the store's peers after it.\<close>

lemma full_sync_kernel:
  assumes "wg_env_ok env dev_keys" "store_inv (we_KeyString env) (wg_peerStore wg)"
    and "canonical env (wg_config wg) users" "syncUsersFull env users wg = (None, wg')"
    and "dev_keys (wg_kernel wg) = store_keys wg"
  shows "store_inv (we_KeyString env) (wg_peerStore wg') \<and> dev_keys (wg_kernel wg') = store_keys wg'"
proof -
  from full_success [OF assms(1-4)] obtain T where T: "keyed env T" "email_inj T"
    and alt: "store_agrees env (wg_peerStore wg) T \<and> wg_peerStore wg' = wg_peerStore wg \<and> wg_kernel wg' = wg_kernel wg \<or>
     store_replaced env (wg_peerStore wg) T (wg_peerStore wg') \<and> dev_keys (wg_kernel wg') = pi_PublicKey ` ran T"
    by blast
  from alt show ?thesis
  proof (elim disjE conjE)
    assume "wg_peerStore wg' = wg_peerStore wg" "wg_kernel wg' = wg_kernel wg"
    then show ?thesis using assms(2,5) by (simp add: store_keys_def)
  next
    assume r: "store_replaced env (wg_peerStore wg) T (wg_peerStore wg')" "dev_keys (wg_kernel wg') = pi_PublicKey ` ran T"
    note rl = replaced_lookup [OF T r(1)]
    show ?thesis
      using rl(1) unfolding r(2) store_keys_iff [OF rl(1)] rl(2) by (auto simp: ran_def)
  qed
qed

text \<open>The states that successful synchronisations reach, in any order of full and partial ones.\<close>

inductive sync_run :: "'k WgEnv \<Rightarrow> 'k WireGuard \<Rightarrow> 'k WireGuard \<Rightarrow> bool" for env where
  sync_none: "sync_run env wg wg"
| sync_partial: "sync_run env wg wg1 \<Longrightarrow> canonical env (wg_config wg1) users \<Longrightarrow>
    syncUsersPartialReconcile env users wg1 = (None, wg2) \<Longrightarrow> sync_run env wg wg2"
| sync_full: "sync_run env wg wg1 \<Longrightarrow> canonical env (wg_config wg1) users \<Longrightarrow>
    syncUsersFull env users wg1 = (None, wg2) \<Longrightarrow> sync_run env wg wg2"

text \<open>Along every sequence of successful full and partial synchronisations the store stays a 1:1
  mapping between emails and keys and the device has exactly the peers of the store.\<close>

theorem sync_run_device:
  assumes "sync_run env wg wg'" "wg_env_ok env dev_keys" "store_inv (we_KeyString env) (wg_peerStore wg)"
    and "dev_keys (wg_kernel wg) = store_keys wg"
  shows "store_inv (we_KeyString env) (wg_peerStore wg') \<and> dev_keys (wg_kernel wg') = store_keys wg'"
  using assms
proof (induction rule: sync_run.induct)
  case (sync_partial wg wg1 users wg2)
  then show ?case
    using partial_sync_kernel [of env dev_keys wg1 users wg2] by blast
next
  case (sync_full wg wg1 users wg2)
  then show ?case
    using full_sync_kernel [of env dev_keys wg1 users wg2] by blast
qed simp

text \<open>The desired peers collected from users with different emails are exactly what the users
  ask for, each with an allowed address on the interface; two different peers have different
  users and share no address.\<close>

theorem collectDesiredPeers_exact:
  assumes "collectDesiredPeers env config us = Inr desired" "distinct (map GetEmail us)"
  shows "(\<forall>k d. desired k = Some d \<longleftrightarrow> (\<exists>u \<in> set us. desired_of env config u = Some d \<and> dp_PublicKey d = k)) \<and>
    (\<forall>k d. desired k = Some d \<longrightarrow> dp_AllowedIPNets d \<noteq> [] \<and>
       (\<forall>n \<in> set (dp_AllowedIPNets d). peerIPAllowedOnInterface n (InterfaceNetworks env config))) \<and>
    (\<forall>k k' d d'. desired k = Some d \<longrightarrow> desired k' = Some d' \<longrightarrow> k \<noteq> k' \<longrightarrow>
       dp_Email d \<noteq> dp_Email d' \<and>
       we_IPNetString env ` set (dp_AllowedIPNets d) \<inter> we_IPNetString env ` set (dp_AllowedIPNets d') = {})"
proof -
  note dp = desired_props [OF assms]
  have nets: "dp_AllowedIPNets d \<noteq> [] \<and> (\<forall>n \<in> set (dp_AllowedIPNets d). peerIPAllowedOnInterface n (InterfaceNetworks env config))"
    if d: "desired k = Some d" for k d
  proof -
    obtain u where "desired_of env config u = Some d" using d unfolding dp(1) by blast
    from desired_of_Some [OF this] show ?thesis by blast
  qed
  have apart: "dp_Email d \<noteq> dp_Email d' \<and>
      we_IPNetString env ` set (dp_AllowedIPNets d) \<inter> we_IPNetString env ` set (dp_AllowedIPNets d') = {}"
    if "desired k = Some d" "desired k' = Some d'" "k \<noteq> k'" for k k' d d'
  proof (intro conjI equals0I notI)
    assume "dp_Email d = dp_Email d'"
    from dp(3) [OF that(1,2) this] that(3) show False by blast
  next
    fix x
    assume "x \<in> we_IPNetString env ` set (dp_AllowedIPNets d) \<inter> we_IPNetString env ` set (dp_AllowedIPNets d')"
    then obtain n n' where "n \<in> set (dp_AllowedIPNets d)" "n' \<in> set (dp_AllowedIPNets d')"
      "we_IPNetString env n = we_IPNetString env n'" by (elim IntE imageE) metis
    from dp(4) [OF that(1,2) this] that(3) show False by blast
  qed
  show ?thesis
    by (intro conjI allI impI dp(1)) (use nets apart in blast)+
qed

section \<open>A concrete device\<close>

definition lab_env :: "Key set WgEnv" where
  "lab_env =
    \<lparr>we_ParseKey = \<lambda>s. if take 1 s = ''k'' then Inr (drop 1 s) else Inl ''wgtypes: incorrect key size'',
     we_KeyString = \<lambda>k. CHR ''k'' # k,
     we_ParseCIDR = \<lambda>s. if s = ''10.0.0.0/8'' then Some \<lparr>ipn_IP = [10, 0, 0, 0], ipn_Mask = [255, 0, 0, 0]\<rparr>
        else if s = ''10.0.0.2/32'' then Some \<lparr>ipn_IP = [10, 0, 0, 2], ipn_Mask = [255, 255, 255, 255]\<rparr> else None,
     we_IPNetString = \<lambda>n. ''net'' @ map (\<lambda>b. char_of (unat b)) (ipn_IP n),
     we_IPString = \<lambda>ip. map (\<lambda>b. char_of (unat b)) ip,
     we_ConfigureDevice = \<lambda>name c s. (None, fold config_keys (dc_Peers c) (if dc_ReplacePeers c then {} else s)),
     we_ClientClose = \<lambda>s. (None, s), we_ParseAddr = \<lambda>a. Inr a, we_LinkByName = \<lambda>name s. LinkFound,
     we_LinkAdd = \<lambda>name s. (None, {}), we_AddrAdd = \<lambda>name a s. (None, s), we_LinkSetUp = \<lambda>name s. (None, s),
     we_LinkDel = \<lambda>name s. (None, {}), we_order = \<lambda>tag s S. sorted_list_of_set S\<rparr>"

definition lab_user :: User where
  "lab_user = \<lparr>u_Email = ''u'',
     u_Proxies = Some (empty_Proxy\<lparr>px_Wireguard := Some \<lparr>wgp_PublicKey = ''kK1'', wgp_PeerIps = [''10.0.0.2/32'']\<rparr>\<rparr>),
     u_Inbounds = [''wg0''], u_IpLimit = 1, u_SpeedLimit = 0\<rparr>"

definition lab_config :: WgConfig where
  "lab_config = \<lparr>wc_InterfaceName = ''wg0'', wc_PrivateKey = ''kPK'', wc_PreSharedKey = [], wc_ListenPort = 51820,
     wc_Address = [''10.0.0.0/8''], wc_EgressInterface = [], wc_Latency = None, wc_ProxyField = [],
     wc_privateKeyCache = None, wc_presharedKeyCache = None\<rparr>"

definition lab_wg :: "Key set WireGuard" where
  "lab_wg = (new_WireGuard lab_config ''v1'' {})\<lparr>wg_manager := Some \<lparr>wm_client = True, wm_iFaceName = ''wg0''\<rparr>,
     wg_state := lifecycleRunning\<rparr>"

lemma lab_env_ok: "wg_env_ok lab_env (\<lambda>s. s)"
  by (simp add: wg_env_ok_def lab_env_def)

lemma lab_inv: "store_inv (we_KeyString lab_env) (wg_peerStore lab_wg)"
  by (simp add: lab_wg_def new_WireGuard_def)

lemma lab_proxy: "userWireguardProxy (Some lab_user) [] = Some \<lparr>wgp_PublicKey = ''kK1'', wgp_PeerIps = [''10.0.0.2/32'']\<rparr>"
  by (simp add: userWireguardProxy_def GetProxies_def lab_user_def)

lemma lab_canonical: "canonical lab_env (wg_config lab_wg) [Some lab_user]"
  by (simp add: canonical_def lab_wg_def new_WireGuard_def lab_config_def lab_proxy) (simp add: lab_env_def)

definition lab_desired :: DesiredPeer where
  "lab_desired = \<lparr>dp_Email = ''u'', dp_PublicKey = ''kK1'', dp_ParsedKey = ''K1'',
     dp_AllowedIPNets = [\<lparr>ipn_IP = [10, 0, 0, 2], ipn_Mask = [255, 255, 255, 255]\<rparr>]\<rparr>"

lemma lab_networks: "InterfaceNetworks lab_env lab_config = [\<lparr>ipn_IP = [10, 0, 0, 0], ipn_Mask = [255, 0, 0, 0]\<rparr>]"
  by (simp add: InterfaceNetworks_def lab_config_def map_filter_def trim_space_def is_space_def) (simp add: lab_env_def)

lemma lab_allowed: "peerIPAllowedOnInterface \<lparr>ipn_IP = [10, 0, 0, 2], ipn_Mask = [255, 255, 255, 255]\<rparr>
    [\<lparr>ipn_IP = [10, 0, 0, 0], ipn_Mask = [255, 0, 0, 0]\<rparr>]"
  by code_simp

lemma lab_last: "last_by_email [] [Some lab_user] = [''u'' \<mapsto> Some lab_user]"
  by (simp add: last_by_email_def usable_user_def lab_proxy) (simp add: GetEmail_def lab_user_def)

lemma lab_normalize: "wg_normalizeUsers lab_env lab_wg [Some lab_user] = [Some lab_user]"
proof -
  have "wg_order lab_env lab_wg 0 {''u''} = [''u'']" by (simp add: wg_order_def lab_env_def)
  then show ?thesis
    by (simp add: wg_normalizeUsers_def normalizeUsersWithProxy_def lab_wg_def new_WireGuard_def lab_config_def
        lab_last [simplified])
qed

lemma lab_collect: "collectDesiredPeers lab_env lab_config [Some lab_user] = Inr [''kK1'' \<mapsto> lab_desired]"
proof -
  have c: "we_ParseCIDR lab_env ''10.0.0.2/32'' = Some \<lparr>ipn_IP = [10, 0, 0, 2], ipn_Mask = [255, 255, 255, 255]\<rparr>"
    and k: "we_ParseKey lab_env ''kK1'' = Inr ''K1''"
    by (simp_all add: lab_env_def)
  have u: "shouldIncludeUserInInterface (Some lab_user) (wc_InterfaceName lab_config)" "wc_ProxyField lab_config = []"
    "GetEmail (Some lab_user) = ''u''"
    by (simp_all add: shouldIncludeUserInInterface_def GetInbounds_def lab_user_def lab_config_def GetEmail_def)
  show ?thesis
    by (simp add: collectDesiredPeers_def collect_user_def u lab_proxy k c Let_def lab_networks lab_allowed lab_desired_def)
qed

lemma lab_desired_of: "desired_of lab_env lab_config (Some lab_user) = Some lab_desired"
proof -
  have "\<exists>u \<in> set [Some lab_user]. desired_of lab_env lab_config u = Some lab_desired \<and> dp_PublicKey lab_desired = ''kK1''"
    using desired_props(1) [OF lab_collect, of "''kK1''" lab_desired] by simp
  then show ?thesis by simp
qed

lemma lab_ApplyPeers: "\<exists>k. ApplyPeers lab_env \<lparr>wm_client = True, wm_iFaceName = ''wg0''\<rparr> cs s = (None, k)"
  by (simp add: ApplyPeers_def lab_env_def)

lemma lab_ReplaceAll: "ApplyPeersReplaceAll lab_env \<lparr>wm_client = True, wm_iFaceName = ''wg0''\<rparr> cs s = (None, fold config_keys cs {})"
  by (simp add: ApplyPeersReplaceAll_def lab_env_def)

lemma lab_fields: "wg_config lab_wg = lab_config" "wc_ProxyField lab_config = []"
  "wg_peerStore lab_wg = NewPeerStore" "wg_kernel lab_wg = {}"
  "wg_manager lab_wg = Some \<lparr>wm_client = True, wm_iFaceName = ''wg0''\<rparr>" "wg_state lab_wg = lifecycleRunning"
  by (simp_all add: lab_wg_def new_WireGuard_def lab_config_def)

lemma lab_ready:
  assumes "wg_psk lab_env wg = (psk, wg1)" "wg_manager wg = wg_manager lab_wg" "wg_state wg = wg_state lab_wg"
  shows "ensureRunningWithManagerLocked wg1 = None"
  using wg_psk_frame [OF assms(1)] assms(2,3)
  by (simp add: ensureRunningWithManagerLocked_def lifecycleReadinessError_def lab_fields)

lemma lab_partial_run: "\<exists>wg'. syncUsersPartialReconcile lab_env [Some lab_user] lab_wg = (None, wg')"
proof -
  obtain psk wg1 where p: "wg_psk lab_env lab_wg = (psk, wg1)" by fastforce
  have "owner_conflict Map.empty E d ks = None" for E d ks
    by (induction ks) (auto split: option.split)
  then have o: "owner_conflict (GetEmailMap NewPeerStore) E d ks = None" for E d ks
    by (simp add: GetEmailMap_def NewPeerStore_def)
  let ?d = "buildSyncDiff lab_env (wg_order lab_env lab_wg) psk
      (buildExistingPeersSubsetForTouched lab_env lab_wg {GetEmail (Some lab_user)}) [''kK1'' \<mapsto> lab_desired]"
  obtain k where k: "ApplyPeers lab_env \<lparr>wm_client = True, wm_iFaceName = ''wg0''\<rparr> (sd_PeerConfigs ?d) (wg_kernel wg1) = (None, k)"
    using lab_ApplyPeers by blast
  have c: "\<exists>w. commit_partial lab_env d wg = (None, w)" for d wg
    by (simp add: commit_partial_def split_beta)
  show ?thesis
    using c lab_ready [OF p] wg_psk_frame(3) [OF p]
    by (simp add: syncUsersPartialReconcile_def lab_normalize lab_fields lab_collect o p k Let_def del: fun_upd_apply)
qed

lemma lab_full_run: "\<exists>wg'. syncUsersFull lab_env [Some lab_user] lab_wg = (None, wg')"
proof -
  obtain psk wg1 where p: "wg_psk lab_env lab_wg = (psk, wg1)" by fastforce
  obtain psk2 wg2 where p2: "wg_psk lab_env wg1 = (psk2, wg2)" by fastforce
  have m: "wg_manager wg2 = Some \<lparr>wm_client = True, wm_iFaceName = ''wg0''\<rparr>"
    using wg_psk_frame [OF p] wg_psk_frame [OF p2] by (simp add: lab_fields)
  have r: "ensureRunningWithManagerLocked wg2 = None"
    using lab_ready [OF p2] wg_psk_frame [OF p] by simp
  show ?thesis
    by (cases "sd_Changed (buildSyncDiff lab_env (wg_order lab_env lab_wg) psk
        (buildExistingPeersByKeySnapshot lab_env lab_wg) [''kK1'' \<mapsto> lab_desired])")
      (simp_all add: syncUsersFull_def lab_normalize lab_fields lab_collect p p2 r m split_beta Let_def lab_ReplaceAll
        del: fun_upd_apply)
qed

theorem collectDesiredPeers_exact_witness:
  "\<exists>desired. collectDesiredPeers lab_env lab_config [Some lab_user] = Inr desired \<and> desired ''kK1'' = Some lab_desired"
  using collectDesiredPeers_exact [OF lab_collect] lab_desired_of lab_collect
  by (intro exI [of _ "[''kK1'' \<mapsto> lab_desired]"]) (simp add: lab_desired_def)


theorem full_sync_exact_witness:
  "\<exists>wg'. syncUsersFull lab_env [Some lab_user] lab_wg = (None, wg') \<and>
     map_option pi_PublicKey (GetByEmail (wg_peerStore wg') ''u'') = Some ''K1''"
proof -
  obtain wg' where w: "syncUsersFull lab_env [Some lab_user] lab_wg = (None, wg')"
    using lab_full_run by blast
  from full_sync_exact [OF lab_env_ok lab_inv lab_canonical w]
  have "peer_as_wanted lab_env lab_config (Some lab_user) (GetByEmail (wg_peerStore wg') ''u'')"
    by (auto simp: lab_fields lab_last dest: spec [of _ "''u''"])
  then show ?thesis
    using w by (auto simp: peer_as_wanted_def lab_desired_of lab_desired_def split: option.splits)
qed

theorem sync_run_device_witness:
  "\<exists>wg'. syncUsersFull lab_env [Some lab_user] lab_wg = (None, wg') \<and> sync_run lab_env lab_wg wg' \<and> wg_kernel wg' = store_keys wg'"
proof -
  obtain wg' where w: "syncUsersFull lab_env [Some lab_user] lab_wg = (None, wg')"
    using lab_full_run by blast
  then have "sync_run lab_env lab_wg wg'"
    by (rule sync_run.sync_full [OF sync_run.sync_none lab_canonical])
  with w sync_run_device [OF this lab_env_ok lab_inv] show ?thesis
    by (auto simp: store_keys_def lab_fields NewPeerStore_def)
qed

end
