(* ===== verification/WgLimit.thy ===== *)
theory WgLimit
  imports WgSyncCorrect RateLimit
begin

text \<open>
  Device limits, polling and statistics of the WireGuard back end:
  \<open>backend/wireguard/iplimit.go\<close>, \<open>jobs.go\<close> and \<open>stats.go\<close>. The current time and the state the
  kernel reports are arguments. The loops that treat every user on its own are written as
  functions of the user; the loop that changes the device runs in the order of its map.
\<close>

section \<open>Device limits\<close>

definition wgIPWindow :: int where "wgIPWindow = 120 * second"

definition wgIPLimitCooldown :: int where "wgIPLimitCooldown = 60 * second"

definition wgIPLimitStrikes :: int where "wgIPLimitStrikes = 2"

record wgLimitAction =
  la_kick :: bool
  la_readmit :: bool
  la_limit :: u32
  la_ipCount :: nat

definition fold_window :: "gotime \<Rightarrow> (string \<rightharpoonup> string set) \<Rightarrow> (string \<rightharpoonup> (string \<rightharpoonup> gotime)) \<Rightarrow>
    (string \<rightharpoonup> (string \<rightharpoonup> gotime))" where
  "fold_window now activeIPs window =
    (\<lambda>email. case activeIPs email of
       None \<Rightarrow> window email
     | Some ips \<Rightarrow>
         Some (\<lambda>ip. if ip \<in> ips then Some now else (case window email of None \<Rightarrow> None | Some w \<Rightarrow> w ip)))"

definition prune_window :: "gotime \<Rightarrow> (string \<rightharpoonup> (string \<rightharpoonup> gotime)) \<Rightarrow> (string \<rightharpoonup> (string \<rightharpoonup> gotime))" where
  "prune_window now window =
    (\<lambda>email. case window email of
       None \<Rightarrow> None
     | Some w \<Rightarrow>
         let w' = (\<lambda>ip. case w ip of
                     None \<Rightarrow> None
                   | Some seen \<Rightarrow> if now - seen > wgIPWindow then None else Some seen)
         in if dom w' = {} then None else Some w')"

definition window_count :: "(string \<rightharpoonup> (string \<rightharpoonup> gotime)) \<Rightarrow> string \<Rightarrow> nat" where
  "window_count window email = (case window email of None \<Rightarrow> 0 | Some w \<Rightarrow> map_len w)"

text \<open>Whether a known user with a limit, not currently kicked, is over that limit.\<close>

definition over_limit :: "'k WireGuard \<Rightarrow> string \<Rightarrow> bool" where
  "over_limit wg email \<longleftrightarrow>
    (case wg_userLimits wg email of
       None \<Rightarrow> False
     | Some limit \<Rightarrow> wg_kicked wg email = None \<and> limit \<noteq> 0 \<and>
         (of_nat (window_count (wg_ipWindow wg) email) :: u32) > limit)"

definition next_strikes :: "'k WireGuard \<Rightarrow> string \<Rightarrow> int option" where
  "next_strikes wg email =
    (case wg_userLimits wg email of
       None \<Rightarrow> wg_overStrikes wg email
     | Some limit \<Rightarrow>
         if wg_kicked wg email \<noteq> None \<or> limit = 0 then wg_overStrikes wg email
         else if over_limit wg email then Some (map_get 0 (wg_overStrikes wg) email + 1)
         else None)"

definition limit_action :: "gotime \<Rightarrow> 'k WireGuard \<Rightarrow> string \<Rightarrow> wgLimitAction option" where
  "limit_action now wg email =
    (case wg_userLimits wg email of
       None \<Rightarrow> None
     | Some limit \<Rightarrow>
         (case wg_kicked wg email of
            Some kickedAt \<Rightarrow>
              if now - kickedAt \<ge> wgIPLimitCooldown
              then Some \<lparr>la_kick = False, la_readmit = True, la_limit = 0, la_ipCount = 0\<rparr> else None
          | None \<Rightarrow>
              if over_limit wg email \<and> map_get 0 (wg_overStrikes wg) email + 1 \<ge> wgIPLimitStrikes
              then Some \<lparr>la_kick = True, la_readmit = False, la_limit = limit,
                         la_ipCount = window_count (wg_ipWindow wg) email\<rparr>
              else None))"

definition apply_action :: "'k WgEnv \<Rightarrow> WgMgr \<Rightarrow> gotime \<Rightarrow> (string \<rightharpoonup> wgLimitAction) \<Rightarrow> string \<Rightarrow> 'k WireGuard \<Rightarrow> 'k WireGuard" where
  "apply_action env mgr now actions email wg =
    (case (actions email, GetByEmail (wg_peerStore wg) email) of
       (Some a, Some p) \<Rightarrow>
         if la_kick a
         then (case ApplyPeers env mgr [buildRemoveConfig (pi_PublicKey p)] (wg_kernel wg) of
                 (Some e, k) \<Rightarrow> wg\<lparr>wg_kernel := k\<rparr>
               | (None, k) \<Rightarrow>
                   wg\<lparr>wg_kernel := k, wg_kicked := (wg_kicked wg)(email \<mapsto> now),
                      wg_overStrikes := map_delete email (wg_overStrikes wg),
                      wg_ipWindow := map_delete email (wg_ipWindow wg)\<rparr>)
         else if la_readmit a
         then let (psk, wg1) = wg_psk env wg in
              (case buildAddConfigFromPeerInfo p psk of
                 Inl err \<Rightarrow> wg1
               | Inr cfg \<Rightarrow>
                  (case ApplyPeers env mgr [cfg] (wg_kernel wg1) of
                     (Some e, k) \<Rightarrow> wg1\<lparr>wg_kernel := k\<rparr>
                   | (None, k) \<Rightarrow>
                       wg1\<lparr>wg_kernel := k, wg_kicked := map_delete email (wg_kicked wg1),
                          wg_ipWindow := map_delete email (wg_ipWindow wg1),
                          wg_overStrikes := map_delete email (wg_overStrikes wg1)\<rparr>))
         else wg
     | _ \<Rightarrow> wg)"

definition enforceIpLimits :: "'k WgEnv \<Rightarrow> WgMgr option \<Rightarrow> gotime \<Rightarrow> (string \<rightharpoonup> string set) \<Rightarrow> 'k WireGuard \<Rightarrow> 'k WireGuard" where
  "enforceIpLimits env mgr now activeIPs wg =
    (case mgr of
       None \<Rightarrow> wg
     | Some m \<Rightarrow>
         let wg1 = wg\<lparr>wg_ipWindow := prune_window now (fold_window now activeIPs (wg_ipWindow wg))\<rparr>;
             actions = limit_action now wg1;
             wg2 = wg1\<lparr>wg_overStrikes := next_strikes wg1\<rparr>
         in fold (apply_action env m now actions) (wg_order env wg2 12 (dom actions)) wg2)"

section \<open>Speed limits\<close>

definition peer_clients :: "'k WgEnv \<Rightarrow> (string \<rightharpoonup> u32) \<Rightarrow> PeerInfo option \<Rightarrow> Client list" where
  "peer_clients env speed peer =
    (case peer of
       None \<Rightarrow> []
     | Some p \<Rightarrow>
         let limit = map_get 0 speed (pi_Email p) in
         if limit = 0 then []
         else map (\<lambda>ipnet. \<lparr>cl_User = pi_Email p, cl_Address = we_IPString env (ipn_IP ipnet), cl_LimitKbps = limit\<rparr>)
                (pi_AllowedIPs p))"

definition wg_ShapedClients :: "'k WgEnv \<Rightarrow> 'k WireGuard \<Rightarrow> Client list" where
  "wg_ShapedClients env wg =
    concat (map (peer_clients env (wg_userSpeed wg))
      (GetAll (wg_order env wg 13 (dom (ps_peers (wg_peerStore wg)))) (wg_peerStore wg)))"

section \<open>Polling\<close>

record DevicePeer =
  dv_PublicKey :: Key
  dv_LastHandshakeTime :: gotime
  dv_Endpoint :: "8 word list option"
  dv_ReceiveBytes :: int
  dv_TransmitBytes :: int

definition onlineActivityThreshold :: int where "onlineActivityThreshold = 45 * second"

definition statsDeviceErrorLogInterval :: int where "statsDeviceErrorLogInterval = 60 * second"

definition peer_sample :: "'k WgEnv \<Rightarrow> gotime \<Rightarrow> (string \<rightharpoonup> string) \<Rightarrow> DevicePeer \<Rightarrow> Sample option" where
  "peer_sample env cutoff emailByKey peer =
    (if dv_LastHandshakeTime peer = 0 then None
     else if dv_LastHandshakeTime peer < cutoff then None
     else
       let peerKey = we_KeyString env (dv_PublicKey peer) in
       case emailByKey peerKey of
         None \<Rightarrow> None
       | Some email \<Rightarrow>
           Some \<lparr>sm_PublicKey = peerKey, sm_Email = email, sm_Rx = dv_ReceiveBytes peer, sm_Tx = dv_TransmitBytes peer,
                 sm_EndpointIP = (case dv_Endpoint peer of None \<Rightarrow> [] | Some ip \<Rightarrow> we_IPString env ip)\<rparr>)"

definition active_step :: "Sample \<Rightarrow> (string \<rightharpoonup> string set) \<Rightarrow> (string \<rightharpoonup> string set)" where
  "active_step s active =
    (if sm_EndpointIP s = [] then active
     else active(sm_Email s \<mapsto> insert (sm_EndpointIP s) (map_get {} active (sm_Email s))))"

definition logStatsDeviceReadError :: "gotime \<Rightarrow> 'k WireGuard \<Rightarrow> 'k WireGuard" where
  "logStatsDeviceReadError now wg =
    (if wg_lastStatsErrAt wg \<noteq> 0 \<and> now - wg_lastStatsErrAt wg < statsDeviceErrorLogInterval then wg
     else wg\<lparr>wg_lastStatsErrAt := now\<rparr>)"

text \<open>
  \<open>ctx_done i\<close> is the answer of the \<open>i\<close>-th check for cancellation: the one on entry and one before
  each device peer. \<open>device\<close> is what the kernel reports, \<open>now\<close> the time of the poll.
\<close>

definition updateConnectedPeers :: "'k WgEnv \<Rightarrow> (nat \<Rightarrow> bool) \<Rightarrow> (string + DevicePeer list) \<Rightarrow> gotime \<Rightarrow> 'k WireGuard \<Rightarrow> 'k WireGuard" where
  "updateConnectedPeers env ctx_done device now wg =
    (if ctx_done 0 then wg
     else case wg_manager wg of
       None \<Rightarrow> wg
     | Some mgr \<Rightarrow>
         (case (if wm_client mgr then device else Inl ''wgctrl client is not initialized'') of
            Inl err \<Rightarrow> logStatsDeviceReadError now wg
          | Inr peers \<Rightarrow>
              if list_ex (\<lambda>i. ctx_done (Suc i)) [0..<length peers] then wg
              else
                let samples = List.map_filter
                      (peer_sample env (now - onlineActivityThreshold) (GetEmailMap (wg_peerStore wg))) peers;
                    wg1 = wg\<lparr>wg_statsTracker := UpdateStatsBatch samples now (wg_statsTracker wg)\<rparr>
                in enforceIpLimits env (Some mgr) now (fold active_step samples Map.empty) wg1))"

definition cleanupOfflineUsers :: "'k WgEnv \<Rightarrow> bool \<Rightarrow> 'k WireGuard \<Rightarrow> 'k WireGuard" where
  "cleanupOfflineUsers env ctx_done wg =
    (if ctx_done then wg
     else wg\<lparr>wg_statsTracker :=
       CleanupDeletedEntries (wg_order env wg 14 (dom (wg_statsTracker wg))) (wg_statsTracker wg)\<rparr>)"

section \<open>Statistics\<close>

definition peer_keys :: "'k WgEnv \<Rightarrow> 'k WireGuard \<Rightarrow> string \<Rightarrow> string list" where
  "peer_keys env wg email =
    (case GetByEmail (wg_peerStore wg) email of None \<Rightarrow> [] | Some p \<Rightarrow> [we_KeyString env (pi_PublicKey p)])"

definition handleUserStats :: "'k WgEnv \<Rightarrow> StatRequest \<Rightarrow> 'k WireGuard \<Rightarrow> Stat list \<times> 'k WireGuard" where
  "handleUserStats env request wg =
    (if peer_keys env wg (sr_Name request) = [] then ([], wg)
     else let (st, out) = Tracker_GetStats (peer_keys env wg (sr_Name request)) (sr_Reset request) (wg_statsTracker wg)
          in (out, wg\<lparr>wg_statsTracker := st\<rparr>))"

definition handleUsersStats :: "'k WgEnv \<Rightarrow> StatRequest \<Rightarrow> 'k WireGuard \<Rightarrow> Stat list \<times> 'k WireGuard" where
  "handleUsersStats env request wg =
    (let (st, out) = GetUsersStats (wg_order env wg 15 (dom (wg_statsTracker wg))) (sr_Reset request) (wg_statsTracker wg)
     in (out, wg\<lparr>wg_statsTracker := st\<rparr>))"

text \<open>\<open>counters\<close> is what the interface reports: an error, or the received and sent bytes.\<close>

definition getInterfaceCounters :: "(string + int \<times> int) \<Rightarrow> 'k WireGuard \<Rightarrow> string + int \<times> int" where
  "getInterfaceCounters counters wg =
    (if wg_manager wg = None then Inl ''wireguard manager not initialized'' else counters)"

definition handleInterfaceOutboundStats :: "(string + int \<times> int) \<Rightarrow> string \<Rightarrow> bool \<Rightarrow> 'k WireGuard \<Rightarrow>
    (string + Stat list) \<times> 'k WireGuard" where
  "handleInterfaceOutboundStats counters name reset wg =
    (let name' = (if name = [] then wc_InterfaceName (wg_config wg) else name) in
     case getInterfaceCounters counters wg of
       Inl err \<Rightarrow> (Inl err, wg)
     | Inr (rx, tx) \<Rightarrow>
         (case Delta rx tx reset (wg_interfaceStats wg) of
            ((drx, dtx), t) \<Rightarrow>
              (Inr (BuildInterfaceStats name' ''interface'' drx dtx), wg\<lparr>wg_interfaceStats := t\<rparr>)))"

definition wg_GetStats :: "'k WgEnv \<Rightarrow> (string + int \<times> int) \<Rightarrow> StatRequest \<Rightarrow> 'k WireGuard \<Rightarrow>
    (string + Stat list) \<times> 'k WireGuard" where
  "wg_GetStats env counters request wg =
    (if wg_state wg \<noteq> lifecycleRunning then (Inl ''wireguard not started'', wg)
     else case sr_Type request of
       UserStat \<Rightarrow> (let (out, wg') = handleUserStats env request wg in (Inr out, wg'))
     | UsersStat \<Rightarrow> (let (out, wg') = handleUsersStats env request wg in (Inr out, wg'))
     | Outbound \<Rightarrow> handleInterfaceOutboundStats counters (sr_Name request) (sr_Reset request) wg
     | Outbounds \<Rightarrow> handleInterfaceOutboundStats counters (sr_Name request) (sr_Reset request) wg
     | Inbound \<Rightarrow> (Inl ''inbound stats not applicable for wireguard'', wg)
     | Inbounds \<Rightarrow> (Inl ''inbound stats not applicable for wireguard'', wg)
     | OtherStat _ \<Rightarrow> (Inl ''unsupported stat type'', wg))"

definition wg_GetUserOnlineStats :: "'k WgEnv \<Rightarrow> gotime \<Rightarrow> string \<Rightarrow> 'k WireGuard \<Rightarrow> string + OnlineStatResponse" where
  "wg_GetUserOnlineStats env now email wg =
    (if wg_state wg \<noteq> lifecycleRunning then Inl ''wireguard not started''
     else if peer_keys env wg email = [] then Inr \<lparr>on_Name = email, on_Value = 0\<rparr>
     else if AnyActiveSince (peer_keys env wg email) (now - onlineActivityThreshold) (wg_statsTracker wg)
     then Inr \<lparr>on_Name = email, on_Value = 1\<rparr>
     else Inr \<lparr>on_Name = email, on_Value = 0\<rparr>)"

definition wg_GetUserOnlineIpListStats :: "'k WgEnv \<Rightarrow> string \<Rightarrow> 'k WireGuard \<Rightarrow> string + StatsOnlineIpListResponse" where
  "wg_GetUserOnlineIpListStats env email wg =
    (if wg_state wg \<noteq> lifecycleRunning then Inl ''wireguard not started''
     else Inr \<lparr>oi_Name = email,
       oi_Ips = (if peer_keys env wg email = [] then Map.empty
                 else EndpointActivity (peer_keys env wg email) (wg_statsTracker wg)),
       oi_IpProtocol = Map.empty\<rparr>)"

section \<open>What a poll may do\<close>

text \<open>The endpoint addresses of a user that count as simultaneous.\<close>

definition recent_ips :: "gotime \<Rightarrow> (string \<rightharpoonup> string set) \<Rightarrow> (string \<rightharpoonup> (string \<rightharpoonup> gotime)) \<Rightarrow> string \<Rightarrow> string set" where
  "recent_ips now activeIPs window email =
    (case activeIPs email of None \<Rightarrow> {} | Some ips \<Rightarrow> ips) \<union>
    {ip. \<exists>w t. window email = Some w \<and> w ip = Some t \<and> now - t \<le> wgIPWindow}"

lemma window_count_recent:
  "window_count (prune_window now (fold_window now activeIPs window)) email = card (recent_ips now activeIPs window email)"
proof -
  let ?w = "fold_window now activeIPs window email"
  have ip: "(\<exists>w t. ?w = Some w \<and> w ip = Some t \<and> now - t \<le> wgIPWindow) \<longleftrightarrow> ip \<in> recent_ips now activeIPs window email" for ip
    by (auto simp: fold_window_def recent_ips_def wgIPWindow_def split: option.splits)
  have "window_count (prune_window now (fold_window now activeIPs window)) email =
      card {ip. \<exists>w t. ?w = Some w \<and> w ip = Some t \<and> now - t \<le> wgIPWindow}"
  proof (cases ?w)
    case None
    then show ?thesis by (simp add: window_count_def prune_window_def)
  next
    case (Some w)
    let ?v = "\<lambda>ip. case w ip of None \<Rightarrow> None | Some seen \<Rightarrow> if now - seen > wgIPWindow then None else Some seen"
    have "dom ?v = {ip. \<exists>t. w ip = Some t \<and> now - t \<le> wgIPWindow}"
      by (auto split: option.splits if_splits)
    moreover have "window_count (prune_window now (fold_window now activeIPs window)) email = card (dom ?v)"
      by (auto simp: window_count_def prune_window_def Some Let_def map_len_def)
    ultimately show ?thesis by (simp add: Some)
  qed
  then show ?thesis by (simp only: ip Collect_mem_eq)
qed

lemma apply_action_frame: "wg_peerStore (apply_action env m now actions email wg) = wg_peerStore wg"
  by (auto simp: apply_action_def dest: wg_psk_frame split: option.splits prod.splits sum.splits)

lemma apply_action_kicked:
  "wg_kicked (apply_action env m now actions email wg) e = wg_kicked wg e \<or>
   e = email \<and> (\<exists>a. actions e = Some a \<and>
     (la_kick a \<and> wg_kicked (apply_action env m now actions email wg) e = Some now \<or>
      \<not> la_kick a \<and> la_readmit a \<and> wg_kicked (apply_action env m now actions email wg) e = None))"
  by (auto simp: apply_action_def dest: wg_psk_frame split: option.splits prod.splits sum.splits)

lemma apply_actions_kicked:
  "wg_kicked (fold (apply_action env m now actions) es wg) e = wg_kicked wg e \<or>
   (\<exists>a. actions e = Some a \<and>
     (la_kick a \<and> wg_kicked (fold (apply_action env m now actions) es wg) e = Some now \<or>
      \<not> la_kick a \<and> la_readmit a \<and> wg_kicked (fold (apply_action env m now actions) es wg) e = None))"
proof (induction es arbitrary: wg)
  case (Cons x es)
  show ?case
    using Cons.IH [of "apply_action env m now actions x wg"] apply_action_kicked [of env m now actions x wg e]
    by auto
qed simp


text \<open>The device has exactly the peers of the store's users that are not disconnected.\<close>

definition active_keys :: "PeerStore \<Rightarrow> (string \<rightharpoonup> gotime) \<Rightarrow> Key set" where
  "active_keys ps kicked = {k. \<exists>e p. GetByEmail ps e = Some p \<and> kicked e = None \<and> pi_PublicKey p = k}"

definition device_inv :: "('k \<Rightarrow> Key set) \<Rightarrow> 'k WireGuard \<Rightarrow> bool" where
  "device_inv dev_keys wg \<longleftrightarrow> dev_keys (wg_kernel wg) = active_keys (wg_peerStore wg) (wg_kicked wg)"

lemma active_keys_kick:
  assumes "store_inv ks ps" "GetByEmail ps email = Some p"
  shows "active_keys ps (kicked(email \<mapsto> t)) = active_keys ps kicked - {pi_PublicKey p}"
proof -
  have uniq: "pi_PublicKey q \<noteq> pi_PublicKey p" if "GetByEmail ps e = Some q" "e \<noteq> email" for e q
    using store.key_owner_unique [OF assms(1) that(1) assms(2)] that(2) by auto
  show ?thesis
  proof (intro equalityI subsetI)
    fix k assume "k \<in> active_keys ps (kicked(email \<mapsto> t))"
    then obtain e q where "GetByEmail ps e = Some q" "e \<noteq> email" "kicked e = None" "pi_PublicKey q = k"
      by (auto simp: active_keys_def split: if_splits)
    then show "k \<in> active_keys ps kicked - {pi_PublicKey p}" using uniq by (auto simp: active_keys_def)
  next
    fix k assume "k \<in> active_keys ps kicked - {pi_PublicKey p}"
    then obtain e q where q: "GetByEmail ps e = Some q" "kicked e = None" "pi_PublicKey q = k" "k \<noteq> pi_PublicKey p"
      by (auto simp: active_keys_def)
    then have "e \<noteq> email" using assms(2) by auto
    with q show "k \<in> active_keys ps (kicked(email \<mapsto> t))"
      unfolding active_keys_def by (intro CollectI exI [of _ e] exI [of _ q]) auto
  qed
qed

lemma active_keys_readmit:
  assumes "GetByEmail ps email = Some p"
  shows "active_keys ps (map_delete email kicked) = insert (pi_PublicKey p) (active_keys ps kicked)"
proof (intro equalityI subsetI)
  fix k assume "k \<in> active_keys ps (map_delete email kicked)"
  then show "k \<in> insert (pi_PublicKey p) (active_keys ps kicked)"
    using assms by (auto simp: active_keys_def split: if_splits)
next
  fix k assume "k \<in> insert (pi_PublicKey p) (active_keys ps kicked)"
  then obtain e q where "GetByEmail ps e = Some q" "e = email \<or> kicked e = None" "pi_PublicKey q = k"
    using assms by (auto simp: active_keys_def)
  then show "k \<in> active_keys ps (map_delete email kicked)"
    unfolding active_keys_def by (intro CollectI exI [of _ e] exI [of _ q]) auto
qed

definition failed_config_keeps :: "'k WgEnv \<Rightarrow> ('k \<Rightarrow> Key set) \<Rightarrow> bool" where
  "failed_config_keeps env dev_keys \<longleftrightarrow>
    (\<forall>name c s e s'. we_ConfigureDevice env name c s = (Some e, s') \<longrightarrow> dev_keys s' = dev_keys s)"

lemma ApplyPeers_failed:
  "failed_config_keeps env dev_keys \<Longrightarrow> ApplyPeers env m cs s = (Some e, s') \<Longrightarrow> dev_keys s' = dev_keys s"
  by (auto simp: ApplyPeers_def failed_config_keeps_def split: if_splits)

lemma apply_action_device:
  assumes ok: "wg_env_ok env dev_keys" and fk: "failed_config_keeps env dev_keys"
    and inv: "store_inv (we_KeyString env) (wg_peerStore wg)" and dev: "device_inv dev_keys wg"
  shows "device_inv dev_keys (apply_action env m now actions email wg)"
proof (cases "actions email = None \<or> GetByEmail (wg_peerStore wg) email = None")
  case True
  then show ?thesis using dev by (auto simp: apply_action_def split: option.splits)
next
  case False
  then obtain a p where a: "actions email = Some a" and p: "GetByEmail (wg_peerStore wg) email = Some p" by auto
  have rm: "dev_keys k = dev_keys (wg_kernel wg) - {pi_PublicKey p}"
    if "ApplyPeers env m [buildRemoveConfig (pi_PublicKey p)] (wg_kernel wg) = (None, k)" for k
    using ApplyPeers_keys [OF ok that] by (simp add: config_keys_def buildRemoveConfig_def)
  have add: "dev_keys k = insert (pi_PublicKey p) (dev_keys s)"
    if "ApplyPeers env m [buildAddConfig (pi_PublicKey p) ips psk] s = (None, k)" for k s psk ips
    using ApplyPeers_keys [OF ok that] by (simp add: config_keys_def buildAddConfig_def)
  obtain psk wg1 where psk: "wg_psk env wg = (psk, wg1)" by fastforce
  note fr = wg_psk_frame [OF psk]
  consider (kick) "la_kick a" | (readmit) "\<not> la_kick a" "la_readmit a" | (none) "\<not> la_kick a" "\<not> la_readmit a" by blast
  then show ?thesis
  proof cases
    case kick
    obtain r k where r: "ApplyPeers env m [buildRemoveConfig (pi_PublicKey p)] (wg_kernel wg) = (r, k)" by fastforce
    show ?thesis
    proof (cases r)
      case None
      with rm r dev show ?thesis
        by (simp add: apply_action_def a p kick device_inv_def active_keys_kick [OF inv p] del: fun_upd_apply)
    next
      case (Some e)
      with ApplyPeers_failed [OF fk] r dev show ?thesis
        by (auto simp: apply_action_def a p kick device_inv_def)
    qed
  next
    case readmit
    obtain r k where r: "ApplyPeers env m [buildAddConfig (pi_PublicKey p) (pi_AllowedIPs p) psk] (wg_kernel wg1) = (r, k)" by fastforce
    show ?thesis
    proof (cases "pi_AllowedIPs p = []")
      case True
      with dev fr show ?thesis
        by (simp add: apply_action_def a p readmit device_inv_def psk buildAddConfigFromPeerInfo_def)
    next
      case False
      show ?thesis
      proof (cases r)
        case None
        with add [OF r [unfolded None]] r dev False fr show ?thesis
          by (simp add: apply_action_def a p readmit device_inv_def psk buildAddConfigFromPeerInfo_def
              active_keys_readmit [OF p])
      next
        case (Some e)
        with ApplyPeers_failed [OF fk] r dev False fr show ?thesis
          by (auto simp: apply_action_def a p readmit device_inv_def psk buildAddConfigFromPeerInfo_def)
      qed
    qed
  next
    case none
    then show ?thesis using dev by (simp add: apply_action_def a p)
  qed
qed

text \<open>Enforcing the device limits keeps the device at exactly the peers of the users that are not
  disconnected: a disconnected user's peer is off the device, a re-admitted one is back on it.\<close>

theorem enforceIpLimits_device:
  assumes "wg_env_ok env dev_keys" "failed_config_keeps env dev_keys"
    and "store_inv (we_KeyString env) (wg_peerStore wg)" "device_inv dev_keys wg"
  shows "device_inv dev_keys (enforceIpLimits env mgr now activeIPs wg)"
proof -
  have "store_inv (we_KeyString env) (wg_peerStore w) \<and> device_inv dev_keys w \<Longrightarrow>
      device_inv dev_keys (fold (apply_action env m now actions) es w)" for m actions es w
    by (induction es arbitrary: w) (simp_all add: apply_action_frame apply_action_device [OF assms(1,2)])
  with assms(3,4) show ?thesis
    by (auto simp: enforceIpLimits_def Let_def device_inv_def split: option.split)
qed

section \<open>A concrete run\<close>

definition lab_peer :: PeerInfo where
  "lab_peer = target_of lab_desired"

definition lab_busy :: "Key set WireGuard" where
  "lab_busy = lab_wg\<lparr>wg_peerStore := \<lparr>ps_peers = [''kK1'' \<mapsto> lab_peer], ps_emailToKey = [''u'' \<mapsto> ''kK1'']\<rparr>,
     wg_kernel := {''K1''}, wg_userLimits := [''u'' \<mapsto> 1], wg_overStrikes := [''u'' \<mapsto> 1]\<rparr>"

lemma lab_busy_inv: "store_inv (we_KeyString lab_env) (wg_peerStore lab_busy)"
  by (rule store_invI)
    (auto simp: lab_busy_def lab_peer_def target_of_def lab_desired_def lab_env_def split: if_splits)

lemma lab_busy_lookup: "GetByEmail (wg_peerStore lab_busy) e = (if e = ''u'' then Some lab_peer else None)"
  by (simp add: GetByEmail_def lab_busy_def)

lemma lab_busy_device: "device_inv (\<lambda>s. s) lab_busy"
  unfolding device_inv_def active_keys_def lab_busy_lookup
  by (auto simp: lab_busy_def lab_peer_def target_of_def lab_desired_def lab_wg_def new_WireGuard_def)

lemma lab_failed_keeps: "failed_config_keeps lab_env (\<lambda>s. s)"
  by (simp add: failed_config_keeps_def lab_env_def)

theorem enforceIpLimits_device_witness:
  "device_inv (\<lambda>s. s) (enforceIpLimits lab_env (wg_manager lab_busy) 1000
      [''u'' \<mapsto> {''1.1.1.1'', ''2.2.2.2''}] lab_busy)"
  by (rule enforceIpLimits_device [OF lab_env_ok lab_failed_keeps lab_busy_inv lab_busy_device])

lemma lab_two_ips: "recent_ips 1000 [''u'' \<mapsto> {''1.1.1.1'', ''2.2.2.2''}] (wg_ipWindow lab_busy) ''u'' = {''1.1.1.1'', ''2.2.2.2''}"
  by (simp add: recent_ips_def lab_busy_def lab_wg_def new_WireGuard_def)

lemma lab_kick: "wg_kicked (enforceIpLimits lab_env (wg_manager lab_busy) 1000
      [''u'' \<mapsto> {''1.1.1.1'', ''2.2.2.2''}] lab_busy) ''u'' = Some 1000"
proof -
  define wg1 where "wg1 = lab_busy\<lparr>wg_ipWindow := prune_window 1000 (fold_window 1000 [''u'' \<mapsto> {''1.1.1.1'', ''2.2.2.2''}] (wg_ipWindow lab_busy))\<rparr>"
  have c: "window_count (wg_ipWindow wg1) ''u'' = 2"
    by (simp add: wg1_def window_count_recent lab_two_ips del: fun_upd_apply)
  have f: "wg_userLimits wg1 = [''u'' \<mapsto> 1]" "wg_kicked wg1 = Map.empty" "wg_overStrikes wg1 = [''u'' \<mapsto> 1]"
    "wg_peerStore wg1 = wg_peerStore lab_busy"
    by (simp_all add: wg1_def lab_busy_def lab_wg_def new_WireGuard_def)
  have a: "limit_action 1000 wg1 = [''u'' \<mapsto> \<lparr>la_kick = True, la_readmit = False, la_limit = 1, la_ipCount = 2\<rparr>]"
    by (rule ext) (simp add: limit_action_def over_limit_def f c map_get_def wgIPLimitStrikes_def)
  have o: "wg_order lab_env wg2 12 {''u''} = [''u'']" for wg2
    by (simp add: wg_order_def lab_env_def)
  have m: "wg_manager lab_busy = Some \<lparr>wm_client = True, wm_iFaceName = ''wg0''\<rparr>"
    by (simp add: lab_busy_def lab_fields)
  have "GetByEmail (wg_peerStore (wg1\<lparr>wg_overStrikes := x\<rparr>)) ''u'' = Some lab_peer" for x
    using lab_busy_lookup by (simp add: f)
  moreover obtain k where "ApplyPeers lab_env \<lparr>wm_client = True, wm_iFaceName = ''wg0''\<rparr> [buildRemoveConfig (pi_PublicKey lab_peer)] (wg_kernel wg1) = (None, k)"
    using lab_ApplyPeers by blast
  ultimately show ?thesis
    by (simp add: enforceIpLimits_def m Let_def wg1_def [symmetric] a o apply_action_def)
qed


section \<open>Disconnected users and explicit updates\<close>

definition lab_kicked :: "Key set WireGuard" where
  "lab_kicked = lab_busy\<lparr>wg_kernel := {}, wg_kicked := [''u'' \<mapsto> 1000]\<rparr>"

lemma lab_kicked_device: "device_inv (\<lambda>s. s) lab_kicked"
proof -
  have "GetByEmail (wg_peerStore lab_kicked) e = (if e = ''u'' then Some lab_peer else None)" for e
    using lab_busy_lookup by (simp add: lab_kicked_def)
  then show ?thesis
    by (auto simp: device_inv_def active_keys_def lab_kicked_def)
qed

lemma lab_order: "wg_order lab_env wg tag {} = []" "wg_order lab_env wg tag {x} = [x]"
  by (simp_all add: wg_order_def lab_env_def)

lemma lab_normalize_any:
  "wg_config wg = lab_config \<Longrightarrow> wg_normalizeUsers lab_env wg [Some lab_user] = [Some lab_user]"
  by (simp add: wg_normalizeUsers_def normalizeUsersWithProxy_def lab_fields lab_last [simplified] lab_order)

lemma lab_no_diff:
  fixes wg :: "Key set WireGuard" and psk :: "Key option"
  defines "d \<equiv> buildSyncDiff lab_env (wg_order lab_env wg) psk [''kK1'' \<mapsto> lab_peer] [''kK1'' \<mapsto> lab_desired]"
  shows "sd_PeerConfigs d = [] \<and> sd_RemoveKeys d = [] \<and> sd_UpsertPeers d = []"
proof -
  let ?E = "[''kK1'' \<mapsto> lab_peer]"
  have T: "target_peers [''kK1'' \<mapsto> lab_desired] = ?E"
    by (auto simp: target_peers_def lab_peer_def)
  have ips: "pi_AllowedIPs lab_peer \<noteq> []" by (simp add: lab_peer_def target_of_def lab_desired_def)
  have nd: "\<not> peer_differs lab_env lab_peer lab_peer" "ipnets_equal lab_env (pi_AllowedIPs lab_peer) (pi_AllowedIPs lab_peer)"
    by (simp_all add: peer_differs_def ipnets_equal_def list.rel_refl)
  have "diff_existing lab_env psk ?E ?E ''kK1'' ({}, Map.empty, []) = ({}, Map.empty, [])"
    using diff_existing_Some [where existing = ?E and target = ?E and k = "''kK1''" and e = lab_peer and t = lab_peer
        and env = lab_env and psk = psk and R = "{}" and U = Map.empty and C = "[]"] ips nd by simp
  moreover have "diff_target psk ?E ?E ''kK1'' ({}, Map.empty, []) = ({}, Map.empty, [])"
    by (rule diff_target_known [of _ _ lab_peer _ lab_peer]) simp_all
  ultimately show ?thesis
    by (simp add: d_def buildSyncDiff_def T lab_order sorted_keys_def buildRemoveConfigsForPeers_def Let_def
        del: fun_upd_apply)
qed

text \<open>An explicit update of a disconnected user whose peer did not change clears its pending
  disconnection without putting the peer back on the device: afterwards the user is neither
  disconnected in the book-keeping nor on the device.\<close>

theorem update_loses_kicked_peer:
  "device_inv (\<lambda>s. s) lab_kicked \<and>
   (\<exists>wg'. wg_UpdateUsers lab_env [Some lab_user] lab_kicked = (None, wg') \<and>
      wg_kicked wg' ''u'' = None \<and> GetByEmail (wg_peerStore wg') ''u'' = Some lab_peer \<and>
      pi_PublicKey lab_peer \<notin> wg_kernel wg' \<and> \<not> device_inv (\<lambda>s. s) wg')"
proof -
  define wg0 where "wg0 = rememberLimits [Some lab_user] False lab_kicked"
  have w: "wg_config wg0 = lab_config" "wg_kicked wg0 ''u'' = None" "wg_kernel wg0 = {}"
    "wg_peerStore wg0 = wg_peerStore lab_busy"
    by (simp_all add: wg0_def rememberLimits_def remember_user_def lab_kicked_def lab_busy_def lab_fields
        GetEmail_def lab_user_def split_beta)
  obtain psk wg1 where p: "wg_psk lab_env wg0 = (psk, wg1)" by fastforce
  note fr = wg_psk_frame [OF p]
  have em: "GetEmail (Some lab_user) = ''u''" by (simp add: GetEmail_def lab_user_def)
  have "key_peers lab_env [Some lab_peer] = [''kK1'' \<mapsto> lab_peer]"
    by (simp add: key_peers_def lab_peer_def target_of_def lab_desired_def lab_env_def)
  then have ex: "buildExistingPeersSubsetForTouched lab_env wg0 {''u''} = [''kK1'' \<mapsto> lab_peer]"
    by (simp add: buildExistingPeersSubsetForTouched_def lab_order w lab_busy_lookup)
  have own: "owner_conflict (GetEmailMap (wg_peerStore lab_busy)) {''u''} [''kK1'' \<mapsto> lab_desired] [''kK1''] = None"
    by (simp add: GetEmailMap_def lab_busy_def lab_peer_def target_of_def lab_desired_def)
  define wg' where "wg' = snd (commit_partial lab_env (buildSyncDiff lab_env (wg_order lab_env wg0) psk
      [''kK1'' \<mapsto> lab_peer] [''kK1'' \<mapsto> lab_desired]) wg1)"
  have "wg_UpdateUsers lab_env [Some lab_user] lab_kicked = (None, wg')"
    using lab_no_diff [of wg0 psk]
    by (simp add: wg_UpdateUsers_def wg0_def [symmetric] syncUsersPartialReconcile_def lab_normalize_any w em
        lab_collect ex own lab_order p wg'_def commit_partial_def split_beta Let_def
        del: fun_upd_apply owner_conflict.simps)
  moreover have s: "wg_peerStore wg' = wg_peerStore lab_busy" "wg_kernel wg' = {}" "wg_kicked wg' ''u'' = None"
    using lab_no_diff [of wg0 psk] fr w
    by (simp_all add: wg'_def commit_partial_def ApplyChanges_def remove_stats_def del: fun_upd_apply)
  moreover have "\<not> device_inv (\<lambda>s. s) wg'"
    unfolding device_inv_def active_keys_def s(1,2) lab_busy_lookup using s(3) by auto
  ultimately show ?thesis using lab_kicked_device lab_busy_lookup by auto
qed

end
