(* ===== verification/CredStore.thy ===== *)
theory CredStore
  imports Common
begin

text \<open>
  The user stores of the back ends that authenticate by user name and password:
  \<open>backend/l2tp/users.go\<close>, \<open>backend/pptp/users.go\<close> and \<open>backend/ikev2/users.go\<close>. The three
  files are the same code over different credentials, so the operations are written once over
  the function \<open>creds\<close> that reads the credentials of a user, and every back end has its own
  instances. The mutex of the Go type makes every method atomic.
\<close>

section \<open>Data\<close>

record userEntry =
  ue_password :: string
  ue_ipLimit :: u32
  ue_speedLimit :: u32

record userStore =
  us_inboundTag :: string
  us_users :: "string \<rightharpoonup> userEntry"

type_synonym cred_reader = "UserPtr \<Rightarrow> (string \<times> string) option"

definition newUserStore :: "string \<Rightarrow> userStore" where
  "newUserStore tag = \<lparr>us_inboundTag = tag, us_users = Map.empty\<rparr>"

section \<open>Credentials\<close>

definition credsFor :: cred_reader where
  "credsFor u =
    (case GetProxies u of
       None \<Rightarrow> None
     | Some px \<Rightarrow>
         (case px_Ikev2 px of
            None \<Rightarrow> None
          | Some ik \<Rightarrow>
              if ik_Username ik = [] \<or> ik_Password ik = [] then None
              else Some (ik_Username ik, ik_Password ik)))"

definition pptp_credsFor :: cred_reader where
  "pptp_credsFor u =
    (case GetProxies u of
       None \<Rightarrow> None
     | Some px \<Rightarrow>
         (case px_Pptp px of
            None \<Rightarrow> None
          | Some c \<Rightarrow>
              if cr_Username c = [] \<or> cr_Password c = [] then None
              else Some (cr_Username c, cr_Password c)))"

text \<open>The test that the IKEv2 store makes at the start of its \<open>wantsInterface\<close>.\<close>

definition ikev2_creds :: cred_reader where
  "ikev2_creds u =
    (case GetProxies u of
       None \<Rightarrow> None
     | Some px \<Rightarrow>
         (case px_Ikev2 px of
            None \<Rightarrow> None
          | Some ik \<Rightarrow>
              if ik_Username ik = [] \<or> ik_Password ik = [] then None
              else Some (ik_Username ik, ik_Password ik)))"

section \<open>Operations\<close>

definition wantsInterface :: "cred_reader \<Rightarrow> userStore \<Rightarrow> UserPtr \<Rightarrow> bool" where
  "wantsInterface creds s u =
    (case creds u of
       None \<Rightarrow> False
     | Some _ \<Rightarrow> us_inboundTag s \<in> set (GetInbounds u))"

definition user_entry :: "string \<Rightarrow> UserPtr \<Rightarrow> userEntry" where
  "user_entry password u =
    \<lparr>ue_password = password, ue_ipLimit = GetIpLimit u, ue_speedLimit = GetSpeedLimit u\<rparr>"

definition next_user :: "cred_reader \<Rightarrow> userStore \<Rightarrow> UserPtr \<Rightarrow>
    (string \<rightharpoonup> userEntry) \<Rightarrow> (string \<rightharpoonup> userEntry)" where
  "next_user creds s u nxt =
    (if \<not> wantsInterface creds s u then nxt
     else case creds u of
       None \<Rightarrow> nxt
     | Some (username, password) \<Rightarrow> nxt(username \<mapsto> user_entry password u))"

text \<open>\<open>order\<close> is the order in which the loop over the old users visits them.\<close>

definition replaceAll :: "cred_reader \<Rightarrow> string list \<Rightarrow> UserPtr list \<Rightarrow> userStore \<Rightarrow>
    string list \<times> userStore" where
  "replaceAll creds order users s =
    (let nxt = fold (next_user creds s) users Map.empty
     in (filter (\<lambda>username. nxt username = None) order, s\<lparr>us_users := nxt\<rparr>))"

definition applyUser :: "cred_reader \<Rightarrow> UserPtr \<Rightarrow> userStore \<Rightarrow>
    (string \<times> bool \<times> bool) \<times> userStore" where
  "applyUser creds u s =
    (if \<not> wantsInterface creds s u
     then let username = GetEmail u in
          if username = [] then (([], False, False), s)
          else ((username, False, us_users s username \<noteq> None),
                s\<lparr>us_users := map_delete username (us_users s)\<rparr>)
     else case creds u of
       None \<Rightarrow> (([], False, False), s)
     | Some (username, password) \<Rightarrow>
         let entry = user_entry password u
         in ((username, us_users s username \<noteq> Some entry, False),
             s\<lparr>us_users := (us_users s)(username \<mapsto> entry)\<rparr>))"

definition limitFor :: "userStore \<Rightarrow> string \<Rightarrow> u32" where
  "limitFor s username = (case us_users s username of None \<Rightarrow> 0 | Some e \<Rightarrow> ue_ipLimit e)"

definition limitKnown :: "userStore \<Rightarrow> string \<Rightarrow> u32 \<times> bool" where
  "limitKnown s username =
    (case us_users s username of None \<Rightarrow> (0, False) | Some e \<Rightarrow> (ue_ipLimit e, True))"

definition speedLimitFor :: "userStore \<Rightarrow> string \<Rightarrow> u32" where
  "speedLimitFor s username = (case us_users s username of None \<Rightarrow> 0 | Some e \<Rightarrow> ue_speedLimit e)"

text \<open>\<open>snapshot\<close> copies the map entry by entry.\<close>

definition store_snapshot :: "string list \<Rightarrow> userStore \<Rightarrow> (string \<rightharpoonup> userEntry)" where
  "store_snapshot order s =
    fold (\<lambda>k out. case us_users s k of None \<Rightarrow> out | Some v \<Rightarrow> out(k \<mapsto> v)) order Map.empty"

section \<open>The instances of the PPTP and IKEv2 back ends\<close>

definition pptp_wantsInterface :: "userStore \<Rightarrow> UserPtr \<Rightarrow> bool" where
  "pptp_wantsInterface = wantsInterface pptp_credsFor"

definition pptp_replaceAll :: "string list \<Rightarrow> UserPtr list \<Rightarrow> userStore \<Rightarrow> string list \<times> userStore" where
  "pptp_replaceAll = replaceAll pptp_credsFor"

definition pptp_applyUser :: "UserPtr \<Rightarrow> userStore \<Rightarrow> (string \<times> bool \<times> bool) \<times> userStore" where
  "pptp_applyUser = applyUser pptp_credsFor"

definition ikev2_wantsInterface :: "userStore \<Rightarrow> UserPtr \<Rightarrow> bool" where
  "ikev2_wantsInterface = wantsInterface ikev2_creds"

definition ikev2_replaceAll :: "string list \<Rightarrow> UserPtr list \<Rightarrow> userStore \<Rightarrow> string list \<times> userStore" where
  "ikev2_replaceAll = replaceAll ikev2_creds"

definition ikev2_applyUser :: "UserPtr \<Rightarrow> userStore \<Rightarrow> (string \<times> bool \<times> bool) \<times> userStore" where
  "ikev2_applyUser = applyUser ikev2_creds"

text \<open>\<open>usernames\<close> of the IKEv2 store lists the keys of the map in the order of the loop.\<close>

definition ikev2_usernames :: "string list \<Rightarrow> userStore \<Rightarrow> string list" where
  "ikev2_usernames order s = filter (\<lambda>k. us_users s k \<noteq> None) order"

section \<open>What a store holds\<close>

text \<open>
  The login a user message asks for: its user name and entry when it carries credentials and
  the inbound tag.
\<close>

definition asked :: "cred_reader \<Rightarrow> string \<Rightarrow> UserPtr \<Rightarrow> (string \<times> userEntry) option" where
  "asked creds tag u =
    (case creds u of
       None \<Rightarrow> None
     | Some (n, p) \<Rightarrow> if tag \<in> set (GetInbounds u) then Some (n, user_entry p u) else None)"

text \<open>The message settles the fate of user name \<open>n\<close>.\<close>

definition touches :: "cred_reader \<Rightarrow> string \<Rightarrow> string \<Rightarrow> UserPtr \<Rightarrow> bool" where
  "touches creds tag n u =
    (case asked creds tag u of
       None \<Rightarrow> GetEmail u = n \<and> n \<noteq> []
     | Some (m, _) \<Rightarrow> m = n)"

definition store_ok :: "userStore \<Rightarrow> bool" where
  "store_ok s \<longleftrightarrow> (\<forall>n e. us_users s n = Some e \<longrightarrow> n \<noteq> [] \<and> ue_password e \<noteq> [])"

definition apply_all :: "cred_reader \<Rightarrow> UserPtr list \<Rightarrow> userStore \<Rightarrow> userStore" where
  "apply_all creds users s = fold (\<lambda>u. snd \<circ> applyUser creds u) users s"

lemma wantsInterface_asked: "wantsInterface creds s u \<longleftrightarrow> asked creds (us_inboundTag s) u \<noteq> None"
  by (simp add: wantsInterface_def asked_def split: option.split prod.split)

lemma next_user_asked:
  "next_user creds s u nxt =
    (case asked creds (us_inboundTag s) u of None \<Rightarrow> nxt | Some (n, e) \<Rightarrow> nxt(n \<mapsto> e))"
  by (simp add: next_user_def wantsInterface_def asked_def split: option.split prod.split)

lemma applyUser_store:
  "snd (applyUser creds u s) =
    s\<lparr>us_users := (case asked creds (us_inboundTag s) u of
        None \<Rightarrow> if GetEmail u = [] then us_users s else map_delete (GetEmail u) (us_users s)
      | Some (n, e) \<Rightarrow> (us_users s)(n \<mapsto> e))\<rparr>"
  by (simp add: applyUser_def wantsInterface_def asked_def Let_def split: option.split prod.split)

lemma applyUser_result:
  "fst (applyUser creds u s) =
    (case asked creds (us_inboundTag s) u of
       None \<Rightarrow> if GetEmail u = [] then ([], False, False)
               else (GetEmail u, False, us_users s (GetEmail u) \<noteq> None)
     | Some (n, e) \<Rightarrow> (n, us_users s n \<noteq> Some e, False))"
  by (simp add: applyUser_def wantsInterface_def asked_def Let_def split: option.split prod.split)

lemma applyUser_tag [simp]: "us_inboundTag (snd (applyUser creds u s)) = us_inboundTag s"
  by (simp add: applyUser_store)

lemma apply_all_tag [simp]: "us_inboundTag (apply_all creds users s) = us_inboundTag s"
  unfolding apply_all_def by (induction users arbitrary: s) simp_all

lemma fold_next_user:
  "fold (next_user creds s) users m =
    m ++ map_of (rev (List.map_filter (asked creds (us_inboundTag s)) users))"
proof -
  have "next_user creds s =
      (\<lambda>u nxt. case asked creds (us_inboundTag s) u of None \<Rightarrow> nxt | Some (n, e) \<Rightarrow> nxt(n \<mapsto> e))"
    by (rule ext, rule ext, rule next_user_asked)
  then show ?thesis by (simp only: fold_entries)
qed

lemma replaceAll_users:
  "us_users (snd (replaceAll creds order users s)) =
    map_of (rev (List.map_filter (asked creds (us_inboundTag s)) users))"
  by (simp add: replaceAll_def fold_next_user Let_def)

lemma apply_all_lookup:
  "us_users (apply_all creds users s) n =
    (case List.find (touches creds (us_inboundTag s) n) (rev users) of
       None \<Rightarrow> us_users s n
     | Some u \<Rightarrow> map_option snd (asked creds (us_inboundTag s) u))"
proof (induction users rule: rev_induct)
  case Nil
  then show ?case by (simp add: apply_all_def)
next
  case (snoc u users)
  have "apply_all creds (users @ [u]) s = snd (applyUser creds u (apply_all creds users s))"
    by (simp add: apply_all_def)
  then show ?case
    using snoc by (auto simp: applyUser_store touches_def split: option.split prod.split)
qed

section \<open>Readers of credentials\<close>

text \<open>
  What a store relies on: a credential has a user name and a password. The lemmas about the
  well-formed stores hold for every reader with this contract.
\<close>

locale credential_reader =
  fixes creds :: cred_reader
  assumes creds_filled: "creds u = Some (n, p) \<Longrightarrow> n \<noteq> [] \<and> p \<noteq> []"
begin

lemma asked_filled: "asked creds tag u = Some (n, e) \<Longrightarrow> n \<noteq> [] \<and> ue_password e \<noteq> []"
  using creds_filled by (auto simp: asked_def user_entry_def split: option.splits if_splits)

lemma creds_nonempty [simp]: "creds u \<noteq> Some ([], p)" "creds u \<noteq> Some (n, [])"
  using creds_filled by blast+

lemma asked_nonempty [simp]: "asked creds tag u \<noteq> Some ([], e)"
  using asked_filled by blast

lemma asked_password: "asked creds tag u = Some (n, e) \<Longrightarrow> ue_password e \<noteq> []"
  using asked_filled by blast

lemma replaceAll_ok: "store_ok (snd (replaceAll creds order users s))"
  unfolding store_ok_def replaceAll_users
  by (auto dest!: map_of_SomeD simp: List.map_filter_def asked_password)

lemma applyUser_ok: "store_ok s \<Longrightarrow> store_ok (snd (applyUser creds u s))"
  using asked_filled by (auto simp: store_ok_def applyUser_store split: option.splits if_splits)

lemma apply_all_ok: "store_ok s \<Longrightarrow> store_ok (apply_all creds users s)"
  unfolding apply_all_def by (rule fold_invariant) (auto intro: applyUser_ok)

lemma touches_email:
  assumes "\<And>n p. creds u = Some (n, p) \<Longrightarrow> n = GetEmail u"
  shows "touches creds tag n u \<longleftrightarrow> GetEmail u = n \<and> n \<noteq> []"
  using assms by (auto simp: touches_def asked_def split: option.splits if_splits)

text \<open>With user names equal to emails, a batch of updates and a full list agree.\<close>

lemma apply_all_replaceAll:
  assumes names: "\<And>u n p. u \<in> set users \<Longrightarrow> creds u = Some (n, p) \<Longrightarrow> n = GetEmail u"
    and dist: "distinct (map GetEmail users)"
    and known: "dom (us_users s) \<subseteq> GetEmail ` set users" and ok: "store_ok s"
  shows "us_users (apply_all creds users s) = us_users (snd (replaceAll creds order users s))"
proof (rule ext)
  fix n
  let ?ask = "asked creds (us_inboundTag s)"
  have tch: "touches creds (us_inboundTag s) n u \<longleftrightarrow> GetEmail u = n \<and> n \<noteq> []" if "u \<in> set users" for u
    using touches_email names that by blast
  have key: "fst ne = GetEmail u" if "u \<in> set users" "?ask u = Some ne" for u ne
    using names [OF that(1)] that(2) by (auto simp: asked_def split: option.splits if_splits)
  have step: "List.find (touches creds (us_inboundTag s) n) us = None \<and> map_of (List.map_filter ?ask us) n = None
      \<or> (\<exists>u. List.find (touches creds (us_inboundTag s) n) us = Some u \<and>
             map_of (List.map_filter ?ask us) n = map_option snd (?ask u))" (is "?P us")
    if "set us \<subseteq> set users" "distinct (map GetEmail us)" for us
    using that
  proof (induction us)
    case Nil
    then show ?case by (simp add: map_filter_simps)
  next
    case (Cons u us)
    have u: "u \<in> set users" using Cons.prems by simp
    have other: "map_of (List.map_filter ?ask us) (GetEmail u) = None"
    proof (rule ccontr)
      assume "map_of (List.map_filter ?ask us) (GetEmail u) \<noteq> None"
      then obtain v where "v \<in> set us" "map_option fst (?ask v) = Some (GetEmail u)"
        by (auto simp: map_of_eq_None_iff List.map_filter_def)
      moreover from this have "GetEmail v = GetEmail u"
        using key Cons.prems by auto
      ultimately show False
        using Cons.prems(2) by (metis distinct.simps(2) image_eqI list.set_map list.simps(9))
    qed
    have IH: "?P us" using Cons by simp
    show ?case
    proof (cases "?ask u")
      case None
      then show ?thesis
        using IH other tch [OF u] by (cases "touches creds (us_inboundTag s) n u") (simp_all add: map_filter_simps)
    next
      case (Some ne)
      then have k: "fst ne = GetEmail u" "GetEmail u \<noteq> []"
        using key [OF u] by (metis, metis asked_nonempty prod.collapse)
      show ?thesis
      proof (cases "GetEmail u = n")
        case True
        then show ?thesis using Some k tch [OF u] by (cases ne) (simp add: map_filter_simps)
      next
        case False
        then show ?thesis using IH Some k tch [OF u] by (cases ne) (simp add: map_filter_simps)
      qed
    qed
  qed
  have rv: "rev (List.map_filter ?ask users) = List.map_filter ?ask (rev users)"
    by (simp add: List.map_filter_def rev_map rev_filter)
  have unknown: "us_users s n = None" if "List.find (touches creds (us_inboundTag s) n) (rev users) = None"
  proof (rule ccontr)
    assume "us_users s n \<noteq> None"
    then have "n \<in> GetEmail ` set users" "n \<noteq> []"
      using known ok by (auto simp: store_ok_def)
    then show False
      using that tch by (auto simp: find_None_iff)
  qed
  show "us_users (apply_all creds users s) n = us_users (snd (replaceAll creds order users s)) n"
    using step [of "rev users"] dist unknown
    by (auto simp: apply_all_lookup replaceAll_users rv rev_map [symmetric])
qed

end

interpretation l2tp_reader: credential_reader credsFor
  by unfold_locales (auto simp: credsFor_def split: option.splits if_splits)

interpretation pptp_reader: credential_reader pptp_credsFor
  by unfold_locales (auto simp: pptp_credsFor_def split: option.splits if_splits)

interpretation ikev2_reader: credential_reader ikev2_creds
  by unfold_locales (auto simp: ikev2_creds_def split: option.splits if_splits)

text \<open>The stores that the operations reach from a new one.\<close>

inductive store_run :: "cred_reader \<Rightarrow> string \<Rightarrow> userStore \<Rightarrow> bool" for creds tag where
  start: "store_run creds tag (newUserStore tag)"
| replace: "store_run creds tag s \<Longrightarrow> store_run creds tag (snd (replaceAll creds order users s))"
| apply_user: "store_run creds tag s \<Longrightarrow> store_run creds tag (snd (applyUser creds u s))"

lemma finite_replaceAll: "finite (dom (us_users (snd (replaceAll creds order users s))))"
  unfolding replaceAll_users by (rule finite_dom_map_of)

lemma finite_applyUser:
  "finite (dom (us_users s)) \<Longrightarrow> finite (dom (us_users (snd (applyUser creds u s))))"
  by (simp add: applyUser_store split: option.split)

lemma store_run_tag: "store_run creds tag s \<Longrightarrow> us_inboundTag s = tag \<and> finite (dom (us_users s))"
  by (induction rule: store_run.induct)
    (simp_all add: newUserStore_def replaceAll_def Let_def finite_replaceAll finite_applyUser
      fold_next_user finite_dom_map_of)

context credential_reader begin

lemma store_run_ok: "store_run creds tag s \<Longrightarrow> store_ok s"
  by (induction rule: store_run.induct)
    (simp_all add: replaceAll_ok applyUser_ok, simp add: newUserStore_def store_ok_def)

end

abbreviation node_readers :: "cred_reader set" where
  "node_readers \<equiv> {credsFor, pptp_credsFor, ikev2_creds}"

section \<open>Properties\<close>

text \<open>C7. Replacing the users of a store leaves exactly the logins that the listed users ask for, the
  last message of a user name winning, and reports as removed exactly the user names, once each,
  that the store had before and has no more.\<close>

theorem replaceAll_logins:
  assumes "enumerates order (us_users s)" and "replaceAll creds order users s = (removed, s')"
  shows "us_users s' = map_of (rev (List.map_filter (asked creds (us_inboundTag s)) users)) \<and>
    distinct removed \<and> set removed = dom (us_users s) - dom (us_users s') \<and>
    us_inboundTag s' = us_inboundTag s"
proof -
  have s': "s' = snd (replaceAll creds order users s)" and r: "removed = fst (replaceAll creds order users s)"
    using assms(2) by simp_all
  have "distinct removed \<and> set removed = dom (us_users s) - dom (us_users s') \<and>
      us_inboundTag s' = us_inboundTag s"
    using enumerates_distinct [OF assms(1)] enumerates_set [OF assms(1)]
    by (auto simp: s' r replaceAll_def Let_def)
  then show ?thesis
    unfolding s' using replaceAll_users by blast
qed

definition ann :: "string \<Rightarrow> string list \<Rightarrow> UserPtr" where
  "ann email inbounds = Some \<lparr>u_Email = email,
     u_Proxies = Some (empty_Proxy\<lparr>px_Ikev2 := Some \<lparr>ik_Username = ''ann'', ik_Password = ''pw''\<rparr>,
                                  px_Pptp := Some \<lparr>cr_Username = ''ann'', cr_Password = ''pw''\<rparr>\<rparr>),
     u_Inbounds = inbounds, u_IpLimit = 2, u_SpeedLimit = 0\<rparr>"

lemma ann_asked:
  "asked credsFor tag (ann email inbounds) =
    (if tag \<in> set inbounds
     then Some (''ann'', \<lparr>ue_password = ''pw'', ue_ipLimit = 2, ue_speedLimit = 0\<rparr>) else None)"
  by (simp add: asked_def credsFor_def ann_def user_entry_def go_defs)

theorem replaceAll_logins_witness:
  "us_users (snd (replaceAll credsFor [''bob''] [ann ''5.ann'' [''l2tp'']]
      \<lparr>us_inboundTag = ''l2tp'', us_users = [''bob'' \<mapsto> user_entry ''x'' None]\<rparr>)) =
    [''ann'' \<mapsto> \<lparr>ue_password = ''pw'', ue_ipLimit = 2, ue_speedLimit = 0\<rparr>]"
  using replaceAll_logins [OF _ prod.collapse [symmetric], of "[''bob'']"
      "\<lparr>us_inboundTag = ''l2tp'', us_users = [''bob'' \<mapsto> user_entry ''x'' None]\<rparr>" credsFor
      "[ann ''5.ann'' [''l2tp'']]"]
  by (simp add: enumerates_def ann_asked map_filter_simps)



text \<open>When the user names are the emails of the users, a batch of updates that covers every stored
  login, one message per user, leaves the same logins as replacing the whole list.\<close>

theorem updates_agree_with_replace:
  assumes "creds \<in> node_readers" and "store_run creds tag s"
    and "\<And>u n p. u \<in> set users \<Longrightarrow> creds u = Some (n, p) \<Longrightarrow> n = GetEmail u"
    and "distinct (map GetEmail users)" and "dom (us_users s) \<subseteq> GetEmail ` set users"
  shows "us_users (apply_all creds users s) = us_users (snd (replaceAll creds order users s))"
  using assms(1)
proof (elim insertE emptyE)
  assume c: "creds = credsFor"
  then show ?thesis
    using l2tp_reader.apply_all_replaceAll [of users s] assms l2tp_reader.store_run_ok by blast
next
  assume c: "creds = pptp_credsFor"
  then show ?thesis
    using pptp_reader.apply_all_replaceAll [of users s] assms pptp_reader.store_run_ok by blast
next
  assume c: "creds = ikev2_creds"
  then show ?thesis
    using ikev2_reader.apply_all_replaceAll [of users s] assms ikev2_reader.store_run_ok by blast
qed

theorem updates_agree_with_replace_witness:
  "us_users (apply_all credsFor [ann ''ann'' [''l2tp'']] (newUserStore ''l2tp'')) =
    us_users (snd (replaceAll credsFor [] [ann ''ann'' [''l2tp'']] (newUserStore ''l2tp'')))"
proof (rule updates_agree_with_replace)
  show "store_run credsFor ''l2tp'' (newUserStore ''l2tp'')" by (rule store_run.start)
  show "n = GetEmail u" if "u \<in> set [ann ''ann'' [''l2tp'']]" "credsFor u = Some (n, p)" for u n p
    using that by (simp add: credsFor_def ann_def go_defs)
qed (simp_all add: newUserStore_def)

text \<open>An update that takes the inbound tag from a user whose user name is not its email leaves the
  login of that user as it was: the user can still authenticate.\<close>

theorem revoked_login_survives:
  assumes "creds u = Some (n, p)" and "us_inboundTag s \<notin> set (GetInbounds u)" and "n \<noteq> GetEmail u"
  shows "us_users (snd (applyUser creds u s)) n = us_users s n"
  using assms by (simp add: applyUser_store asked_def)

theorem revoked_login_survives_witness:
  "us_users (snd (applyUser credsFor (ann ''5.ann'' [])
      (snd (applyUser credsFor (ann ''5.ann'' [''l2tp'']) (newUserStore ''l2tp''))))) ''ann'' =
    Some \<lparr>ue_password = ''pw'', ue_ipLimit = 2, ue_speedLimit = 0\<rparr>"
  using revoked_login_survives [of credsFor "ann ''5.ann'' []" "''ann''" "''pw''"
      "snd (applyUser credsFor (ann ''5.ann'' [''l2tp'']) (newUserStore ''l2tp''))"]
  by (simp add: applyUser_store ann_asked newUserStore_def) (simp add: credsFor_def ann_def go_defs)

end
