(* ===== verification/ChapSecrets.thy ===== *)
theory ChapSecrets
  imports CredStore
begin

text \<open>
  The shared \<open>/etc/ppp/chap-secrets\<close> file: \<open>chapSecretsWithoutTag\<close>, \<open>writeChapSecrets\<close> and
  \<open>removeChapSecrets\<close> of \<open>backend/l2tp/serverconf.go\<close> and \<open>backend/pptp/serverconf.go\<close>, which
  are the same text in both files, with the line scanner and the field splitter they use. The
  lines of other servers must survive a rewrite, and the logins of removed users must not.
\<close>

section \<open>Scanning lines and fields\<close>

abbreviation nl :: char where "nl \<equiv> CHR 0x0A"

abbreviation cr :: char where "cr \<equiv> CHR 0x0D"

text \<open>
  \<open>bufio.Scanner\<close> with the default split function: lines end at a line feed, the last one also at
  the end of the text, a carriage return before the end is dropped. The scan stops with an error
  at the first line that does not fit into its buffer of 64 KiB.
\<close>

fun split_lines :: "string \<Rightarrow> string list" where
  "split_lines [] = []"
| "split_lines (c # cs) =
    (if c = nl then [] # split_lines cs
     else case split_lines cs of [] \<Rightarrow> [[c]] | l # ls \<Rightarrow> (c # l) # ls)"

definition drop_cr :: "string \<Rightarrow> string" where
  "drop_cr l = (if l \<noteq> [] \<and> last l = cr then butlast l else l)"

definition MaxScanTokenSize :: nat where
  "MaxScanTokenSize = 65536"

definition scan_fits :: "string \<Rightarrow> bool" where
  "scan_fits l \<longleftrightarrow> length l < MaxScanTokenSize"

definition scan_lines :: "string \<Rightarrow> string list \<times> bool" where
  "scan_lines text =
    (map drop_cr (takeWhile scan_fits (split_lines text)), list_all scan_fits (split_lines text))"

text \<open>\<open>strings.Fields\<close>.\<close>

fun split_space :: "string \<Rightarrow> string list" where
  "split_space [] = []"
| "split_space (c # cs) =
    (if is_space c then [] # split_space cs
     else case split_space cs of [] \<Rightarrow> [[c]] | w # ws \<Rightarrow> (c # w) # ws)"

definition str_fields :: "string \<Rightarrow> string list" where
  "str_fields s = filter (\<lambda>w. w \<noteq> []) (split_space s)"

section \<open>The secrets file\<close>

text \<open>
  The file is its text, or nothing when it does not exist. Opening it may fail for another reason,
  and writing it is a function of the operating system.
\<close>

record SecretsEnv =
  sv_openErr :: "string option"
  sv_write :: "string option \<Rightarrow> string \<Rightarrow> string option \<times> string option"

definition secrets_env_ok :: "SecretsEnv \<Rightarrow> bool" where
  "secrets_env_ok env \<longleftrightarrow> (\<forall>file text file'. sv_write env file text = (None, file') \<longrightarrow> file' = Some text)"

definition chap_keep :: "string \<Rightarrow> string \<Rightarrow> bool" where
  "chap_keep tag line =
    (let fields = str_fields line; trimmed = trim_space line
     in trimmed = [] \<or> has_prefix trimmed ''#'' \<or> length fields < 2 \<or> fields ! 1 \<noteq> tag)"

definition chapSecretsWithoutTag :: "SecretsEnv \<Rightarrow> string \<Rightarrow> string option \<Rightarrow> string + string list" where
  "chapSecretsWithoutTag env tag file =
    (case sv_openErr env of
       Some e \<Rightarrow> Inl e
     | None \<Rightarrow>
         (case file of
            None \<Rightarrow> Inr []
          | Some text \<Rightarrow>
              (case scan_lines text of
                 (lines, ok) \<Rightarrow>
                   if ok then Inr (filter (chap_keep tag) lines)
                   else Inl ''bufio.Scanner: token too long'')))"

definition secret_line :: "string \<Rightarrow> string \<Rightarrow> string \<Rightarrow> string" where
  "secret_line tag username password = go_quote username @ '' '' @ tag @ '' '' @ go_quote password @ '' *''"

text \<open>\<open>order\<close> is the order in which the loop visits the snapshot of the users.\<close>

definition writeChapSecrets :: "SecretsEnv \<Rightarrow> string \<Rightarrow> string list \<Rightarrow> userStore \<Rightarrow> string option \<Rightarrow>
    string option \<times> string option" where
  "writeChapSecrets env tag order s file =
    (case chapSecretsWithoutTag env tag file of
       Inl e \<Rightarrow> (Some e, file)
     | Inr kept \<Rightarrow>
         sv_write env file
           (concat (map (\<lambda>line. line @ [nl]) kept) @
            concat (map (\<lambda>username. case store_snapshot order s username of
                           None \<Rightarrow> []
                         | Some entry \<Rightarrow> secret_line tag username (ue_password entry) @ [nl]) order)))"

definition removeChapSecrets :: "SecretsEnv \<Rightarrow> string \<Rightarrow> string option \<Rightarrow> string option" where
  "removeChapSecrets env tag file =
    (case chapSecretsWithoutTag env tag file of
       Inl e \<Rightarrow> file
     | Inr kept \<Rightarrow> snd (sv_write env file (str_join [nl] kept @ [nl])))"

section \<open>Printing and scanning are inverse\<close>

lemma split_lines_append: "nl \<notin> set l \<Longrightarrow> split_lines (l @ nl # text) = l # split_lines text"
  by (induction l) auto

lemma split_lines_concat:
  "\<forall>l\<in>set ls. nl \<notin> set l \<Longrightarrow> split_lines (concat (map (\<lambda>l. l @ [nl]) ls)) = ls"
  by (induction ls) (simp_all add: split_lines_append)

lemma split_lines_no_nl: "l \<in> set (split_lines t) \<Longrightarrow> nl \<notin> set l"
  by (induction t arbitrary: l rule: split_lines.induct) (auto split: if_splits list.splits)

lemma set_drop_cr: "set (drop_cr l) \<subseteq> set l"
  by (auto simp: drop_cr_def in_set_butlastD)

lemma scan_lines_no_nl: "l \<in> set (fst (scan_lines text)) \<Longrightarrow> nl \<notin> set l"
  using set_drop_cr split_lines_no_nl by (fastforce simp: scan_lines_def dest: set_takeWhileD)

lemma scan_lines_concat:
  assumes "\<forall>l\<in>set ls. nl \<notin> set l" "\<forall>l\<in>set ls. scan_fits l"
  shows "scan_lines (concat (map (\<lambda>l. l @ [nl]) ls)) = (map drop_cr ls, True)"
  using assms by (simp add: scan_lines_def split_lines_concat list_all_iff takeWhile_eq_all_conv [THEN iffD2])

lemma digit_char_plain: "d < 16 \<Longrightarrow> \<not> is_space (digit_char d)"
  by (simp add: is_space_def digit_char_def)

lemma quote_char_escaped:
  assumes "of_char c < (32::nat) \<or> of_char c \<in> {34::nat, 92, 127}"
  shows "set (quote_char c) \<subseteq>
    {char_of (92::nat), char_of (34::nat), CHR ''a'', CHR ''b'', CHR ''t'', CHR ''n'', CHR ''v'', CHR ''f'', CHR ''r'', CHR ''x'',
     digit_char (of_char c div 16), digit_char (of_char c mod 16)}"
  using assms by (simp add: quote_char_def Let_def) blast

lemma char_of_32: "char_of (32::nat) = CHR 0x20" and char_of_34: "char_of (34::nat) = CHR 0x22"
  by code_simp+

lemma quote_char_plain:
  assumes "c' \<in> set (quote_char c)" "is_space c'"
  shows "c' = CHR 0x20 \<and> c = CHR 0x20"
proof (cases "of_char c < (32::nat) \<or> of_char c \<in> {34::nat, 92, 127}")
  case True
  have "of_char c = (of_char c mod 256 :: nat)" by simp
  then have "of_char c < (256::nat)" by (metis mod_less_divisor zero_less_numeral)
  then have "of_char c div 16 < (16::nat)" "of_char c mod 16 < (16::nat)"
    using less_mult_imp_div_less [of "of_char c" 16 "16::nat"] by simp_all
  with quote_char_escaped [OF True] assms digit_char_plain show ?thesis
    by (auto simp: is_space_def)
next
  case False
  then have "c' = c" using assms(1) by (simp add: quote_char_def Let_def)
  moreover have "of_char c = (32::nat)" using assms(2) False \<open>c' = c\<close> by (auto simp: is_space_def)
  then have "char_of (of_char c :: nat) = (char_of (32::nat) :: char)" by simp
  then have "c = CHR 0x20" using char_of_32 by simp
  ultimately show ?thesis by simp
qed

lemma go_quote_plain:
  assumes "\<forall>c\<in>set s. c \<noteq> CHR 0x20"
  shows "\<forall>c\<in>set (go_quote s). \<not> is_space c"
proof -
  have "\<not> is_space (char_of (34::nat))" by (simp add: is_space_def)
  then show ?thesis
    using assms quote_char_plain by (auto simp: go_quote_def)
qed

lemma go_quote_no_nl: "nl \<notin> set (go_quote s)"
proof -
  have "is_space nl" by (simp add: is_space_def)
  then have "nl \<notin> set (quote_char c)" for c using quote_char_plain by fastforce
  then show ?thesis by (auto simp: go_quote_def char_of_34)
qed

section \<open>Which lines a server owns\<close>

lemma split_space_word:
  "\<forall>c\<in>set w. \<not> is_space c \<Longrightarrow> is_space c \<Longrightarrow> split_space (w @ c # rest) = w # split_space rest"
  by (induction w) auto

lemma str_fields_word:
  assumes "w \<noteq> []" "\<forall>c\<in>set w. \<not> is_space c" "is_space c"
  shows "str_fields (w @ c # rest) = w # str_fields rest"
  using assms by (simp add: str_fields_def split_space_word)

lemma split_space_snoc:
  "is_space c \<Longrightarrow> split_space (l @ [c]) =
    (if l = [] \<or> is_space (last l) then split_space l @ [[]] else split_space l)"
proof (induction l)
  case (Cons a l)
  have "split_space l \<noteq> []" if "l \<noteq> []"
    using that by (cases l) (auto split: list.split)
  with Cons show ?case by (auto split: list.split)
qed simp

lemma str_fields_snoc: "is_space c \<Longrightarrow> str_fields (l @ [c]) = str_fields l"
  by (simp add: str_fields_def split_space_snoc)

lemma trim_space_snoc: "is_space c \<Longrightarrow> trim_space (l @ [c]) = trim_space l"
  by (cases "\<forall>x\<in>set l. is_space x")
    (auto simp: trim_space_def dropWhile_append dropWhile_eq_Nil_conv [THEN iffD2])

lemma trim_space_first: "\<not> is_space c \<Longrightarrow> \<exists>r. trim_space (c # s) = c # r"
  by (simp add: trim_space_def dropWhile_append) (metis rev_rev_ident)

lemma chap_keep_drop_cr [simp]: "chap_keep tag (drop_cr l) = chap_keep tag l"
proof (cases "l \<noteq> [] \<and> last l = cr")
  case True
  then obtain l' where "l = l' @ [cr]" by (metis append_butlast_last_id)
  moreover have "is_space cr" by (simp add: is_space_def)
  ultimately show ?thesis
    by (simp add: chap_keep_def drop_cr_def str_fields_snoc trim_space_snoc)
qed (auto simp: drop_cr_def)

text \<open>A user name without blanks: its line belongs to the server of the tag.\<close>

lemma secret_line_owned:
  assumes "tag \<noteq> []" "\<forall>c\<in>set tag. \<not> is_space c" "CHR 0x20 \<notin> set username"
  shows "\<not> chap_keep tag (secret_line tag username password)"
proof -
  have sp: "is_space (CHR 0x20)" by (simp add: is_space_def)
  have q: "\<forall>c\<in>set (go_quote username). \<not> is_space c"
    using go_quote_plain assms(3) by metis
  obtain r where g: "go_quote username = CHR 0x22 # r"
    by (simp add: go_quote_def char_of_34)
  obtain r' where t: "trim_space (secret_line tag username password) = CHR 0x22 # r'"
    using trim_space_first [of "CHR 0x22"] by (fastforce simp: secret_line_def g is_space_def)
  have "str_fields (secret_line tag username password) =
      go_quote username # tag # str_fields (go_quote password @ '' *'')"
    using str_fields_word [OF _ q sp] str_fields_word [OF assms(1,2) sp] g
    by (simp add: secret_line_def)
  with t show ?thesis
    by (simp add: chap_keep_def has_prefix_def)
qed

lemma secret_line_no_nl:
  assumes "\<forall>c\<in>set tag. \<not> is_space c" shows "nl \<notin> set (secret_line tag username password)"
proof -
  have "is_space nl" by (simp add: is_space_def)
  with assms go_quote_no_nl show ?thesis by (auto simp: secret_line_def)
qed

lemma secret_line_drop_cr [simp]: "drop_cr (secret_line tag username password) = secret_line tag username password"
  by (simp add: drop_cr_def secret_line_def)

section \<open>Rewriting the file\<close>

abbreviation secret_lines :: "string \<Rightarrow> string list" where
  "secret_lines content \<equiv> fst (scan_lines content)"

definition user_lines :: "string \<Rightarrow> string list \<Rightarrow> userStore \<Rightarrow> string list" where
  "user_lines tag order s = map (\<lambda>n. secret_line tag n (ue_password (the (us_users s n)))) order"

lemma store_snapshot_all:
  assumes "enumerates order (us_users s)" shows "store_snapshot order s = us_users s"
proof -
  have "store_snapshot ks s = (\<lambda>k. if k \<in> set ks then us_users s k else None)" for ks
    unfolding store_snapshot_def
    by (induction ks rule: rev_induct) (auto simp: fun_eq_iff split: option.split)
  then show ?thesis
    using enumerates_set [OF assms] by (auto simp: fun_eq_iff domIff)
qed

lemma written_text:
  assumes "enumerates order (us_users s)"
  shows "concat (map (\<lambda>username. case store_snapshot order s username of
            None \<Rightarrow> [] | Some entry \<Rightarrow> secret_line tag username (ue_password entry) @ [nl]) order) =
    concat (map (\<lambda>l. l @ [nl]) (user_lines tag order s))"
proof -
  have "(case us_users s n of None \<Rightarrow> [] | Some entry \<Rightarrow> secret_line tag n (ue_password entry) @ [nl]) =
      secret_line tag n (ue_password (the (us_users s n))) @ [nl]" if "n \<in> set order" for n
    using that enumerates_set [OF assms] by auto
  then show ?thesis
    by (simp add: store_snapshot_all [OF assms] user_lines_def comp_def cong: map_cong)
qed

lemma writeChapSecrets_done:
  assumes "secrets_env_ok env" "enumerates order (us_users s)"
    and "writeChapSecrets env tag order s (Some content) = (None, file')"
  shows "snd (scan_lines content) \<and> file' = Some (concat (map (\<lambda>l. l @ [nl])
    (filter (chap_keep tag) (secret_lines content) @ user_lines tag order s)))"
  using assms
  by (auto simp: writeChapSecrets_def chapSecretsWithoutTag_def written_text secrets_env_ok_def
      split: option.splits prod.splits if_splits)

lemma drop_cr_fits: "scan_fits l \<Longrightarrow> scan_fits (drop_cr l)"
  by (auto simp: scan_fits_def drop_cr_def)

lemma scan_lines_fit: "l \<in> set (secret_lines content) \<Longrightarrow> scan_fits l"
  by (auto simp: scan_lines_def intro: drop_cr_fits dest: set_takeWhileD)

text \<open>The back half of a user name with a blank is taken for the server field.\<close>

lemma blank_line_kept:
  assumes "CHR 0x20 \<notin> set a" "CHR 0x20 \<notin> set b" "CHR 0x22 \<notin> set tag"
  shows "chap_keep tag (secret_line tag (a @ CHR 0x20 # b) password)"
proof -
  have sp: "is_space (CHR 0x20)" by (simp add: is_space_def)
  have q: "\<not> is_space (CHR 0x22)" by (simp add: is_space_def)
  let ?w1 = "CHR 0x22 # concat (map quote_char a)" and ?w2 = "concat (map quote_char b) @ [CHR 0x22]"
  have plain: "\<forall>c\<in>set ?w1. \<not> is_space c" "\<forall>c\<in>set ?w2. \<not> is_space c"
    using quote_char_plain assms(1,2) q by fastforce+
  have "quote_char (CHR 0x20) = [CHR 0x20]" by code_simp
  then have line: "secret_line tag (a @ CHR 0x20 # b) password =
      ?w1 @ CHR 0x20 # ?w2 @ CHR 0x20 # tag @ '' '' @ go_quote password @ '' *''"
    by (simp add: secret_line_def go_quote_def char_of_34)
  have "str_fields (secret_line tag (a @ CHR 0x20 # b) password) =
      ?w1 # ?w2 # str_fields (tag @ '' '' @ go_quote password @ '' *'')"
    unfolding line
    by (subst str_fields_word [OF _ plain(1) sp], simp)
      (subst str_fields_word [OF _ plain(2) sp], simp_all)
  moreover have "?w2 \<noteq> tag" using assms(3) by auto
  ultimately show ?thesis
    by (simp add: chap_keep_def)
qed

lemma writeChapSecrets_lines:
  assumes "secrets_env_ok env" and "enumerates order (us_users s)"
    and tag: "tag \<noteq> []" "\<forall>c\<in>set tag. \<not> is_space c"
    and names: "\<forall>n\<in>dom (us_users s). CHR 0x20 \<notin> set n"
    and fits: "\<forall>l\<in>set (user_lines tag order s). scan_fits l"
    and "writeChapSecrets env tag order s (Some content) = (None, file')"
  shows "\<exists>content'. file' = Some content' \<and> snd (scan_lines content') \<and>
    filter (chap_keep tag) (secret_lines content') =
      map drop_cr (filter (chap_keep tag) (secret_lines content)) \<and>
    filter (\<lambda>l. \<not> chap_keep tag l) (secret_lines content') = user_lines tag order s"
proof -
  let ?kept = "filter (chap_keep tag) (secret_lines content)" and ?own = "user_lines tag order s"
  let ?content = "concat (map (\<lambda>l. l @ [nl]) (?kept @ ?own))"
  have own: "\<not> chap_keep tag l" "nl \<notin> set l" "drop_cr l = l" if "l \<in> set ?own" for l
    using that enumerates_set [OF assms(2)] names secret_line_owned [OF tag] secret_line_no_nl [OF tag(2)]
    by (auto simp: user_lines_def)
  have "scan_lines ?content = (map drop_cr (?kept @ ?own), True)"
    by (rule scan_lines_concat) (auto simp: own fits scan_lines_fit dest: scan_lines_no_nl)
  moreover have "map drop_cr ?own = ?own"
    using own(3) by (simp add: map_idI)
  moreover have "filter (chap_keep tag) ?own = []" "filter (\<lambda>l. \<not> chap_keep tag l) ?own = ?own"
    using own(1) by (auto simp: filter_empty_conv)
  ultimately have "scan_lines ?content = (map drop_cr ?kept @ ?own, True) \<and>
      filter (chap_keep tag) (map drop_cr ?kept @ ?own) = map drop_cr ?kept \<and>
      filter (\<lambda>l. \<not> chap_keep tag l) (map drop_cr ?kept @ ?own) = ?own"
    by (simp add: filter_map comp_def)
  then show ?thesis
    using writeChapSecrets_done [OF assms(1,2,7)] by auto
qed

section \<open>Properties\<close>


definition disk_env :: SecretsEnv where
  "disk_env = \<lparr>sv_openErr = None, sv_write = (\<lambda>file content. (None, Some content))\<rparr>"

lemma disk_env_ok: "secrets_env_ok disk_env"
  by (simp add: secrets_env_ok_def disk_env_def)

lemma short_fits: "length l < 100 \<Longrightarrow> scan_fits l"
  by (simp add: scan_fits_def MaxScanTokenSize_def)

lemma lab_lines_fit:
  "scan_fits (secret_line ''pptp'' ''bob'' ''x'')" "scan_fits (secret_line ''l2tp'' ''old'' ''x'')"
  "scan_fits (secret_line ''l2tp'' ''ann'' ''pw'')" "scan_fits (secret_line ''l2tp'' ''ann lee'' ''pw'')"
  by (rule short_fits, code_simp)+

lemma lab_lines_no_nl:
  "nl \<notin> set (secret_line ''pptp'' ''bob'' ''x'')" "nl \<notin> set (secret_line ''l2tp'' u p)"
  by (rule secret_line_no_nl, simp add: is_space_def)+

definition ann_store :: "string \<Rightarrow> userStore" where
  "ann_store n = \<lparr>us_inboundTag = ''l2tp'', us_users = [n \<mapsto> user_entry ''pw'' None]\<rparr>"


text \<open>The line of a login whose user name contains a blank is never taken out of the file: every
  later rewrite keeps it, also when the store no longer has that login.\<close>

theorem blank_login_stays:
  assumes "CHR 0x20 \<notin> set a" "CHR 0x20 \<notin> set b" "CHR 0x22 \<notin> set tag"
    and "secrets_env_ok env" "enumerates order (us_users s)"
    and "secret_line tag (a @ CHR 0x20 # b) password \<in> set (secret_lines content)"
    and "writeChapSecrets env tag order s (Some content) = (None, Some content')"
  shows "secret_line tag (a @ CHR 0x20 # b) password \<in> set (split_lines content')"
proof -
  let ?kept = "filter (chap_keep tag) (secret_lines content)"
  have "split_lines (concat (map (\<lambda>l. l @ [nl]) (ls @ ls'))) =
      ls @ split_lines (concat (map (\<lambda>l. l @ [nl]) ls'))" if "\<forall>l\<in>set ls. nl \<notin> set l" for ls ls'
    using that by (induction ls) (simp_all add: split_lines_append)
  moreover have "\<forall>l\<in>set ?kept. nl \<notin> set l" using scan_lines_no_nl by auto
  ultimately have "set ?kept \<subseteq> set (split_lines content')"
    using writeChapSecrets_done [OF assms(4,5,7)] by auto
  with blank_line_kept [OF assms(1-3)] assms(6) show ?thesis
    by auto
qed

theorem blank_login_stays_witness:
  "\<exists>content'. writeChapSecrets disk_env ''l2tp'' [] (newUserStore ''l2tp'')
      (Some (secret_line ''l2tp'' ''ann lee'' ''pw'' @ [nl])) = (None, Some content') \<and>
    secret_line ''l2tp'' ''ann lee'' ''pw'' \<in> set (split_lines content')"
proof -
  let ?content = "secret_line ''l2tp'' ''ann lee'' ''pw'' @ [nl]"
  have f: "scan_lines ?content = ([secret_line ''l2tp'' ''ann lee'' ''pw''], True)"
    using scan_lines_concat [of "[secret_line ''l2tp'' ''ann lee'' ''pw'']"]
    by (simp add: lab_lines_fit lab_lines_no_nl)
  obtain content' where w: "writeChapSecrets disk_env ''l2tp'' [] (newUserStore ''l2tp'') (Some ?content) = (None, Some content')"
    using f by (simp add: writeChapSecrets_def chapSecretsWithoutTag_def disk_env_def)
  with blank_login_stays [of "''ann''" "''lee''" "''l2tp''" disk_env "[]" "newUserStore ''l2tp''" "''pw''" ?content content']
  show ?thesis
    using f by (simp add: disk_env_ok newUserStore_def)
qed

end
