(* ===== verification/Ppp.thy ===== *)
theory Ppp
  imports ChapSecrets Tracker RateLimit
begin

text \<open>
  The L2TP and PPTP back ends: session files, the accounting poll, device limits, statistics,
  shaped clients and user synchronisation (\<open>backend/l2tp\<close> and \<open>backend/pptp\<close>, whose Go files
  differ only in the credentials they read, in names and in log texts). The operations are
  written once, over the reader of the credentials. Sessions live in files that the pppd hooks
  write and byte counters in files of the kernel: both are arguments, and the effect of
  \<open>terminateSession\<close> is the list of process ids that receive SIGTERM.
\<close>

section \<open>Numbers in text\<close>

text \<open>
  The value that \<open>strconv.ParseInt(s, 10, 64)\<close> and \<open>strconv.Atoi\<close> return; the callers drop the
  error, so a syntax error yields 0 and a number out of range the nearest bound. A number that
  overflows \<open>uint64\<close> is reported before its remaining characters are looked at.
\<close>

datatype NumError = ErrSyntax | ErrRange

definition digit_of :: "char \<Rightarrow> nat option" where
  "digit_of c = (let n = of_char c in if 48 \<le> n \<and> n \<le> 57 then Some (n - 48) else None)"

fun ParseUint_loop :: "nat \<Rightarrow> string \<Rightarrow> NumError + nat" where
  "ParseUint_loop n [] = Inr n"
| "ParseUint_loop n (c # cs) =
    (case digit_of c of
       None \<Rightarrow> Inl ErrSyntax
     | Some d \<Rightarrow> if 10 * n + d \<ge> 2 ^ 64 then Inl ErrRange else ParseUint_loop (10 * n + d) cs)"

definition ParseUint :: "string \<Rightarrow> NumError + nat" where
  "ParseUint s = (if s = [] then Inl ErrSyntax else ParseUint_loop 0 s)"

definition ParseInt :: "string \<Rightarrow> int" where
  "ParseInt s =
    (if s = [] then 0
     else let neg = (hd s = CHR ''-'');
              digits = (if hd s = CHR ''-'' \<or> hd s = CHR ''+'' then tl s else s)
          in case ParseUint digits of
               Inl ErrSyntax \<Rightarrow> 0
             | Inl ErrRange \<Rightarrow> if neg then - (2 ^ 63) else 2 ^ 63 - 1
             | Inr n \<Rightarrow>
                 if \<not> neg \<and> n \<ge> 2 ^ 63 then 2 ^ 63 - 1
                 else if neg \<and> n > 2 ^ 63 then - (2 ^ 63)
                 else if neg then - int n else int n)"

text \<open>The value of a digit up to base 36, and of a sequence of digits of a base.\<close>

definition digit_val :: "char \<Rightarrow> nat option" where
  "digit_val c =
    (let n = (of_char c :: nat)
     in if 48 \<le> n \<and> n \<le> 57 then Some (n - 48)
        else if 97 \<le> n \<and> n \<le> 122 then Some (n - 87)
        else if 65 \<le> n \<and> n \<le> 90 then Some (n - 55)
        else None)"

fun digits_val :: "nat \<Rightarrow> nat \<Rightarrow> string \<Rightarrow> nat option" where
  "digits_val base acc [] = Some acc"
| "digits_val base acc (c # cs) =
    (case digit_val c of
       Some d \<Rightarrow> if d < base then digits_val base (acc * base + d) cs else None
     | None \<Rightarrow> None)"

section \<open>Sessions\<close>

record pppSession =
  ps_user :: string
  ps_ifname :: string
  ps_tunnelIP :: string
  ps_clientIP :: string
  ps_pid :: int
  ps_started :: int

text \<open>\<open>strings.Cut(s, "=")\<close>.\<close>

fun cut_eq :: "string \<Rightarrow> (string \<times> string) option" where
  "cut_eq [] = None"
| "cut_eq (c # cs) =
    (if c = CHR ''='' then Some ([], cs)
     else case cut_eq cs of None \<Rightarrow> None | Some (k, v) \<Rightarrow> Some (c # k, v))"

definition session_line :: "string \<Rightarrow> pppSession \<Rightarrow> pppSession" where
  "session_line line s =
    (case cut_eq (trim_space line) of
       None \<Rightarrow> s
     | Some (k, v) \<Rightarrow>
         if k = ''user'' then s\<lparr>ps_user := v\<rparr>
         else if k = ''tunnel_ip'' then s\<lparr>ps_tunnelIP := v\<rparr>
         else if k = ''client'' then s\<lparr>ps_clientIP := v\<rparr>
         else if k = ''pid'' then s\<lparr>ps_pid := ParseInt v\<rparr>
         else if k = ''started'' then s\<lparr>ps_started := ParseInt v\<rparr>
         else s)"

text \<open>The file of a session is its text, or nothing when it cannot be opened.\<close>

definition parseSessionFile :: "string option \<Rightarrow> string \<Rightarrow> pppSession" where
  "parseSessionFile file ifname =
    (let s = \<lparr>ps_user = [], ps_ifname = ifname, ps_tunnelIP = [], ps_clientIP = [], ps_pid = 0, ps_started = 0\<rparr>
     in case file of None \<Rightarrow> s | Some content \<Rightarrow> fold session_line (fst (scan_lines content)) s)"

record DirEntry =
  de_Name :: string
  de_IsDir :: bool
  de_File :: "string option"

definition readSessions :: "DirEntry list option \<Rightarrow> pppSession list" where
  "readSessions dir =
    (case dir of
       None \<Rightarrow> []
     | Some entries \<Rightarrow>
         filter (\<lambda>s. ps_user s \<noteq> [] \<and> ps_ifname s \<noteq> [])
           (map (\<lambda>e. parseSessionFile (de_File e) (de_Name e)) (filter (\<lambda>e. \<not> de_IsDir e) entries)))"

type_synonym files = "string \<Rightarrow> string option"

definition readCounter :: "files \<Rightarrow> string \<Rightarrow> int" where
  "readCounter fs path = (case fs path of None \<Rightarrow> 0 | Some b \<Rightarrow> ParseInt (trim_space b))"

definition ifaceBytes :: "files \<Rightarrow> string \<Rightarrow> int \<times> int" where
  "ifaceBytes fs ifname =
    (let base = ''/sys/class/net/'' @ ifname @ ''/statistics''
     in (readCounter fs (base @ ''/rx_bytes''), readCounter fs (base @ ''/tx_bytes'')))"

section \<open>State\<close>

datatype ppp_lifecycle = pppStopped | pppRunning

record Ppp =
  pp_users :: userStore
  pp_statsTracker :: Tracker
  pp_interfaceStats :: InterfaceCountersTracker
  pp_totalRx :: int
  pp_totalTx :: int
  pp_ifSeen :: "string \<rightharpoonup> int \<times> int"
  pp_cumRx :: "string \<rightharpoonup> int"
  pp_cumTx :: "string \<rightharpoonup> int"
  pp_onlineIPs :: "string \<rightharpoonup> (string \<rightharpoonup> int)"
  pp_state :: ppp_lifecycle
  pp_secrets :: "string option"

text \<open>
  What a poll reads from outside: the counter files, the order \<open>sort.Slice\<close> puts sessions into
  when it sorts them by start time, the order of the two loops over the users, and the clock,
  read once by the poll and once by the tracker.
\<close>

record PollEnv =
  pe_files :: files
  pe_sort :: "pppSession list \<Rightarrow> pppSession list"
  pe_order1 :: "string list"
  pe_order2 :: "string list"
  pe_now1 :: gotime
  pe_now2 :: gotime

definition ppp_onlineActivityThreshold :: int where
  "ppp_onlineActivityThreshold = 60 * second"

definition new_Ppp :: "cred_reader \<Rightarrow> string \<Rightarrow> UserPtr list \<Rightarrow> string option \<Rightarrow> Ppp" where
  "new_Ppp creds tag users secrets =
    \<lparr>pp_users = snd (replaceAll creds [] users (newUserStore tag)), pp_statsTracker = new_Tracker,
     pp_interfaceStats = NewInterfaceCountersTracker, pp_totalRx = 0, pp_totalTx = 0,
     pp_ifSeen = Map.empty, pp_cumRx = Map.empty, pp_cumTx = Map.empty, pp_onlineIPs = Map.empty,
     pp_state = pppStopped, pp_secrets = secrets\<rparr>"

section \<open>The poll\<close>

definition add_session :: "pppSession \<Rightarrow> (string \<rightharpoonup> pppSession list) \<Rightarrow> (string \<rightharpoonup> pppSession list)" where
  "add_session s perUser = perUser(ps_user s \<mapsto> map_get [] perUser (ps_user s) @ [s])"

definition group_sessions :: "pppSession list \<Rightarrow> (string \<rightharpoonup> pppSession list)" where
  "group_sessions sessions = fold add_session sessions Map.empty"

definition add_growth :: "string \<Rightarrow> int \<Rightarrow> (string \<rightharpoonup> int) \<Rightarrow> (string \<rightharpoonup> int)" where
  "add_growth user d growth = growth(user \<mapsto> i64 (map_get 0 growth user + d))"

definition counter_growth :: "int \<Rightarrow> int \<Rightarrow> int" where
  "counter_growth cur prev = (let d = i64 (cur - prev) in if d < 0 then cur else d)"

type_synonym growth_state = "(string \<rightharpoonup> int \<times> int) \<times> (string \<rightharpoonup> int) \<times> (string \<rightharpoonup> int)"

definition count_session :: "files \<Rightarrow> pppSession \<Rightarrow> growth_state \<Rightarrow> growth_state" where
  "count_session fs s st =
    (case st of (seen, growthRx, growthTx) \<Rightarrow>
      let (rx, tx) = ifaceBytes fs (ps_ifname s);
          prev = map_get (0, 0) seen (ps_ifname s);
          dRx = counter_growth rx (fst prev);
          dTx = counter_growth tx (snd prev)
      in (seen(ps_ifname s \<mapsto> (rx, tx)),
          add_growth (ps_user s) dRx growthRx, add_growth (ps_user s) dTx growthTx))"

definition forget_gone :: "pppSession list \<Rightarrow> (string \<rightharpoonup> int \<times> int) \<Rightarrow> (string \<rightharpoonup> int \<times> int)" where
  "forget_gone sessions seen = (\<lambda>ifn. if ifn \<in> set (map ps_ifname sessions) then seen ifn else None)"

definition session_ip :: "pppSession \<Rightarrow> string" where
  "session_ip s = (if ps_clientIP s = [] then ps_tunnelIP s else ps_clientIP s)"

definition note_ip :: "gotime \<Rightarrow> pppSession \<Rightarrow> (string \<rightharpoonup> int) \<times> string \<Rightarrow> (string \<rightharpoonup> int) \<times> string" where
  "note_ip now s acc =
    (case acc of (ips, endpoint) \<Rightarrow>
      let ip = session_ip s in
      if ip = [] then (ips, endpoint)
      else (ips(ip \<mapsto> unix_time now), if endpoint = [] then ip else endpoint))"

definition poll_user :: "gotime \<Rightarrow> (string \<rightharpoonup> pppSession list) \<Rightarrow> (string \<rightharpoonup> int) \<Rightarrow> (string \<rightharpoonup> int) \<Rightarrow>
    string \<Rightarrow> Ppp \<times> (string \<rightharpoonup> (string \<rightharpoonup> int)) \<times> Sample list \<Rightarrow>
    Ppp \<times> (string \<rightharpoonup> (string \<rightharpoonup> int)) \<times> Sample list" where
  "poll_user now perUser growthRx growthTx user acc =
    (case acc of (o1, onlineIPs, samples) \<Rightarrow>
      let gRx = map_get 0 growthRx user;
          gTx = map_get 0 growthTx user;
          o2 = o1\<lparr>pp_cumRx := add_growth user gRx (pp_cumRx o1),
                  pp_cumTx := add_growth user gTx (pp_cumTx o1),
                  pp_totalRx := i64 (pp_totalRx o1 + gRx),
                  pp_totalTx := i64 (pp_totalTx o1 + gTx)\<rparr>;
          (ips, endpoint) = fold (note_ip now) (map_get [] perUser user) (Map.empty, [])
      in (o2, onlineIPs(user \<mapsto> ips),
          samples @ [\<lparr>sm_PublicKey = user, sm_Email = user, sm_Rx = map_get 0 (pp_cumRx o2) user,
                      sm_Tx = map_get 0 (pp_cumTx o2) user, sm_EndpointIP = endpoint\<rparr>]))"

definition kill_sessions :: "pppSession list \<Rightarrow> int list" where
  "kill_sessions list = map ps_pid (filter (\<lambda>s. ps_pid s > 0) list)"

definition excess_sessions :: "PollEnv \<Rightarrow> userStore \<Rightarrow> (string \<rightharpoonup> pppSession list) \<Rightarrow> string \<Rightarrow> pppSession list" where
  "excess_sessions env users perUser user =
    (let list = map_get [] perUser user; limit = limitFor users user
     in if limit = 0 \<or> (of_nat (length list) :: u32) \<le> limit then []
        else drop (unat limit) (pe_sort env list))"

definition enforceDeviceLimits :: "PollEnv \<Rightarrow> (string \<rightharpoonup> pppSession list) \<Rightarrow> Ppp \<Rightarrow> int list" where
  "enforceDeviceLimits env perUser st =
    concat (map (\<lambda>user. kill_sessions (excess_sessions env (pp_users st) perUser user)) (pe_order2 env))"

definition ppp_poll :: "PollEnv \<Rightarrow> DirEntry list option \<Rightarrow> Ppp \<Rightarrow> int list \<times> Ppp" where
  "ppp_poll env dir st =
    (let sessions = readSessions dir;
         perUser = group_sessions sessions;
         (seen, growthRx, growthTx) =
           fold (count_session (pe_files env)) sessions (pp_ifSeen st, Map.empty, Map.empty);
         st1 = st\<lparr>pp_ifSeen := forget_gone sessions seen\<rparr>;
         (st2, onlineIPs, samples) =
           fold (poll_user (pe_now1 env) perUser growthRx growthTx) (pe_order1 env) (st1, Map.empty, []);
         st3 = st2\<lparr>pp_onlineIPs := onlineIPs\<rparr>;
         st4 = (if samples = [] then st3
                else st3\<lparr>pp_statsTracker := UpdateStatsBatch samples (pe_now2 env) (pp_statsTracker st3)\<rparr>)
     in (enforceDeviceLimits env perUser st4, st4))"

section \<open>Requests\<close>

definition ppp_GetStats :: "string list \<Rightarrow> string \<Rightarrow> StatRequest \<Rightarrow> Ppp \<Rightarrow> (string + Stat list) \<times> Ppp" where
  "ppp_GetStats order proto request st =
    (if pp_state st \<noteq> pppRunning then (Inl (proto @ '' not started''), st)
     else
       let outbound =
         (case Delta (pp_totalRx st) (pp_totalTx st) (sr_Reset request) (pp_interfaceStats st) of
            ((dRx, dTx), ic) \<Rightarrow>
              (Inr (BuildInterfaceStats (us_inboundTag (pp_users st)) ''outbound'' dRx dTx),
               st\<lparr>pp_interfaceStats := ic\<rparr>))
       in case sr_Type request of
            UserStat \<Rightarrow>
              (case Tracker_GetStats [sr_Name request] (sr_Reset request) (pp_statsTracker st) of
                 (t, out) \<Rightarrow> (Inr out, st\<lparr>pp_statsTracker := t\<rparr>))
          | UsersStat \<Rightarrow>
              (case GetUsersStats order (sr_Reset request) (pp_statsTracker st) of
                 (t, out) \<Rightarrow> (Inr out, st\<lparr>pp_statsTracker := t\<rparr>))
          | Outbound \<Rightarrow> outbound
          | Outbounds \<Rightarrow> outbound
          | _ \<Rightarrow> (Inl (''unsupported stat type for '' @ proto), st))"

definition ppp_GetUserOnlineStats :: "gotime \<Rightarrow> string \<Rightarrow> string \<Rightarrow> Ppp \<Rightarrow> string + OnlineStatResponse" where
  "ppp_GetUserOnlineStats now proto email st =
    (if pp_state st \<noteq> pppRunning then Inl (proto @ '' not started'')
     else Inr \<lparr>on_Name = email,
               on_Value = (if AnyActiveSince [email] (now - ppp_onlineActivityThreshold) (pp_statsTracker st)
                           then 1 else 0)\<rparr>)"

definition ppp_GetUserOnlineIpListStats :: "string \<Rightarrow> string \<Rightarrow> Ppp \<Rightarrow> string + StatsOnlineIpListResponse" where
  "ppp_GetUserOnlineIpListStats proto email st =
    (if pp_state st \<noteq> pppRunning then Inl (proto @ '' not started'')
     else Inr \<lparr>oi_Name = email, oi_Ips = map_get Map.empty (pp_onlineIPs st) email,
               oi_IpProtocol = Map.empty\<rparr>)"

section \<open>Device limits across protocols and shaping\<close>

definition OnlineDeviceCounts :: "Ppp \<Rightarrow> (string \<rightharpoonup> nat)" where
  "OnlineDeviceCounts st =
    (\<lambda>user. case pp_onlineIPs st user of
              None \<Rightarrow> None
            | Some ips \<Rightarrow> if map_len ips > 0 then Some (map_len ips) else None)"

definition UserLimit :: "Ppp \<Rightarrow> string \<Rightarrow> u32 \<times> bool" where
  "UserLimit st user = limitKnown (pp_users st) user"

definition KeepDevices :: "(pppSession list \<Rightarrow> pppSession list) \<Rightarrow> DirEntry list option \<Rightarrow> string \<Rightarrow> int \<Rightarrow> int list" where
  "KeepDevices srt dir user keep =
    (let keep = (if keep < 0 then 0 else keep);
         list = filter (\<lambda>s. ps_user s = user) (readSessions dir)
     in if int (length list) \<le> keep then []
        else kill_sessions (drop (nat keep) (srt list)))"

definition ShapedClients :: "DirEntry list option \<Rightarrow> Ppp \<Rightarrow> Client list" where
  "ShapedClients dir st =
    List.map_filter (\<lambda>s.
      let limit = speedLimitFor (pp_users st) (ps_user s)
      in if limit = 0 \<or> ps_tunnelIP s = [] then None
         else Some \<lparr>cl_User = ps_user s, cl_Address = ps_tunnelIP s, cl_LimitKbps = limit\<rparr>)
      (readSessions dir)"

section \<open>User synchronisation\<close>

text \<open>\<open>order\<close> is the order in which the loop over the snapshot writes the secrets.\<close>

definition reloadUsers :: "SecretsEnv \<Rightarrow> string list \<Rightarrow> Ppp \<Rightarrow> string option \<times> Ppp" where
  "reloadUsers env order st =
    (case writeChapSecrets env (us_inboundTag (pp_users st)) order (pp_users st) (pp_secrets st) of
       (err, file) \<Rightarrow> (err, st\<lparr>pp_secrets := file\<rparr>))"

definition applyUsers :: "SecretsEnv \<Rightarrow> cred_reader \<Rightarrow> (userStore \<Rightarrow> string list) \<Rightarrow> UserPtr list \<Rightarrow> Ppp \<Rightarrow>
    string option \<times> Ppp" where
  "applyUsers env creds ord users st =
    (let s = fold (\<lambda>u. snd \<circ> applyUser creds u) users (pp_users st)
     in reloadUsers env (ord s) (st\<lparr>pp_users := s\<rparr>))"

definition ppp_SyncUser :: "SecretsEnv \<Rightarrow> cred_reader \<Rightarrow> (userStore \<Rightarrow> string list) \<Rightarrow> UserPtr \<Rightarrow> Ppp \<Rightarrow>
    string option \<times> Ppp" where
  "ppp_SyncUser env creds ord user st = applyUsers env creds ord [user] st"

definition ppp_UpdateUsers :: "SecretsEnv \<Rightarrow> cred_reader \<Rightarrow> (userStore \<Rightarrow> string list) \<Rightarrow> UserPtr list \<Rightarrow> Ppp \<Rightarrow>
    string option \<times> Ppp" where
  "ppp_UpdateUsers env creds ord users st = applyUsers env creds ord users st"

definition ppp_SyncUsers :: "SecretsEnv \<Rightarrow> cred_reader \<Rightarrow> (userStore \<Rightarrow> string list) \<Rightarrow> UserPtr list \<Rightarrow> Ppp \<Rightarrow>
    string option \<times> Ppp" where
  "ppp_SyncUsers env creds ord users st =
    (let s = snd (replaceAll creds (ord (pp_users st)) users (pp_users st))
     in reloadUsers env (ord s) (st\<lparr>pp_users := s\<rparr>))"

section \<open>The PPTP back end\<close>

text \<open>
  The functions of \<open>backend/pptp\<close>: the same statements as in \<open>backend/l2tp\<close>, over the PPTP
  credentials and with the name of the protocol in the error texts.
\<close>

definition pptp_parseSessionFile :: "string option \<Rightarrow> string \<Rightarrow> pppSession" where
  "pptp_parseSessionFile = parseSessionFile"

definition pptp_readSessions :: "DirEntry list option \<Rightarrow> pppSession list" where
  "pptp_readSessions = readSessions"

definition new_PPTP :: "string \<Rightarrow> UserPtr list \<Rightarrow> string option \<Rightarrow> Ppp" where
  "new_PPTP = new_Ppp pptp_credsFor"

definition pptp_enforceDeviceLimits :: "PollEnv \<Rightarrow> (string \<rightharpoonup> pppSession list) \<Rightarrow> Ppp \<Rightarrow> int list" where
  "pptp_enforceDeviceLimits = enforceDeviceLimits"

definition pptp_poll :: "PollEnv \<Rightarrow> DirEntry list option \<Rightarrow> Ppp \<Rightarrow> int list \<times> Ppp" where
  "pptp_poll = ppp_poll"

definition pptp_GetStats :: "string list \<Rightarrow> StatRequest \<Rightarrow> Ppp \<Rightarrow> (string + Stat list) \<times> Ppp" where
  "pptp_GetStats order = ppp_GetStats order ''pptp''"

definition pptp_GetUserOnlineStats :: "gotime \<Rightarrow> string \<Rightarrow> Ppp \<Rightarrow> string + OnlineStatResponse" where
  "pptp_GetUserOnlineStats now = ppp_GetUserOnlineStats now ''pptp''"

definition pptp_GetUserOnlineIpListStats :: "string \<Rightarrow> Ppp \<Rightarrow> string + StatsOnlineIpListResponse" where
  "pptp_GetUserOnlineIpListStats = ppp_GetUserOnlineIpListStats ''pptp''"

definition pptp_KeepDevices :: "(pppSession list \<Rightarrow> pppSession list) \<Rightarrow> DirEntry list option \<Rightarrow> string \<Rightarrow> int \<Rightarrow> int list" where
  "pptp_KeepDevices = KeepDevices"

definition pptp_ShapedClients :: "DirEntry list option \<Rightarrow> Ppp \<Rightarrow> Client list" where
  "pptp_ShapedClients = ShapedClients"

definition pptp_chapSecretsWithoutTag :: "SecretsEnv \<Rightarrow> string \<Rightarrow> string option \<Rightarrow> string + string list" where
  "pptp_chapSecretsWithoutTag = chapSecretsWithoutTag"

definition pptp_writeChapSecrets :: "SecretsEnv \<Rightarrow> string \<Rightarrow> string list \<Rightarrow> userStore \<Rightarrow> string option \<Rightarrow>
    string option \<times> string option" where
  "pptp_writeChapSecrets = writeChapSecrets"

definition pptp_removeChapSecrets :: "SecretsEnv \<Rightarrow> string \<Rightarrow> string option \<Rightarrow> string option" where
  "pptp_removeChapSecrets = removeChapSecrets"

definition pptp_SyncUser :: "SecretsEnv \<Rightarrow> (userStore \<Rightarrow> string list) \<Rightarrow> UserPtr \<Rightarrow> Ppp \<Rightarrow> string option \<times> Ppp" where
  "pptp_SyncUser env = ppp_SyncUser env pptp_credsFor"

definition pptp_SyncUsers :: "SecretsEnv \<Rightarrow> (userStore \<Rightarrow> string list) \<Rightarrow> UserPtr list \<Rightarrow> Ppp \<Rightarrow> string option \<times> Ppp" where
  "pptp_SyncUsers env = ppp_SyncUsers env pptp_credsFor"

definition pptp_UpdateUsers :: "SecretsEnv \<Rightarrow> (userStore \<Rightarrow> string list) \<Rightarrow> UserPtr list \<Rightarrow> Ppp \<Rightarrow> string option \<times> Ppp" where
  "pptp_UpdateUsers env = ppp_UpdateUsers env pptp_credsFor"

end
