(* ===== verification/PppCorrect.thy ===== *)
theory PppCorrect
  imports Ppp
begin

text \<open>
  The poll of the L2TP and PPTP back ends accounts every byte once, whatever the order of its
  loops; totals and per-user counters agree in every reachable state; device limits keep the
  oldest sessions; a synchronised store and the secrets file agree.
\<close>

section \<open>Sessions of a directory\<close>

definition listing_ok :: "DirEntry list option \<Rightarrow> bool" where
  "listing_ok dir = (case dir of None \<Rightarrow> True | Some es \<Rightarrow> distinct (map de_Name es))"

lemma session_line_ifname [simp]: "ps_ifname (session_line l s) = ps_ifname s"
  by (simp add: session_line_def split: option.split prod.split)

lemma parseSessionFile_ifname [simp]: "ps_ifname (parseSessionFile f n) = n"
proof -
  have "ps_ifname (fold session_line ls s) = ps_ifname s" for ls s
    by (induction ls arbitrary: s) simp_all
  then show ?thesis
    by (simp add: parseSessionFile_def Let_def split: option.split)
qed

lemma readSessions_distinct: "listing_ok dir \<Longrightarrow> distinct (map ps_ifname (readSessions dir))"
proof (cases dir)
  case (Some es)
  assume "listing_ok dir"
  then have "distinct (map de_Name (filter (\<lambda>e. \<not> de_IsDir e) es))"
    by (simp add: listing_ok_def Some distinct_map_filter)
  then have "distinct (map ps_ifname (map (\<lambda>e. parseSessionFile (de_File e) (de_Name e)) (filter (\<lambda>e. \<not> de_IsDir e) es)))"
    by (simp add: comp_def)
  then show ?thesis
    unfolding readSessions_def Some option.case by (rule distinct_map_filter)
qed (simp add: readSessions_def)

definition sessions_of :: "pppSession list \<Rightarrow> string \<Rightarrow> pppSession list" where
  "sessions_of sessions user = filter (\<lambda>s. ps_user s = user) sessions"

lemma group_sessions_eq:
  "group_sessions sessions user =
    (if sessions_of sessions user = [] then None else Some (sessions_of sessions user))"
  unfolding group_sessions_def
  by (induction sessions rule: rev_induct) (auto simp: sessions_of_def add_session_def map_get_def)

lemma dom_group_sessions: "dom (group_sessions sessions) = ps_user ` set sessions"
  by (auto simp: group_sessions_eq sessions_of_def filter_empty_conv split: if_splits)

lemma map_get_group [simp]: "map_get [] (group_sessions sessions) user = sessions_of sessions user"
  by (simp add: map_get_def group_sessions_eq)

section \<open>Growth of the counters\<close>

text \<open>
  What went through an interface between two readings: their difference, or everything since the
  interface was set up anew when the counter went backwards.
\<close>

definition traffic_since :: "int \<Rightarrow> int \<Rightarrow> int" where
  "traffic_since prev cur = (if 0 \<le> i64 (cur - prev) then i64 (cur - prev) else cur)"

lemma traffic_since_counters:
  assumes "0 \<le> prev" "prev < 2 ^ 63" "0 \<le> cur" "cur < 2 ^ 63"
  shows "traffic_since prev cur = (if prev \<le> cur then cur - prev else cur)"
proof -
  have "i64 (cur - prev) = cur - prev" using assms by (intro i64_id) (simp add: is_i64_def)
  then show ?thesis by (simp add: traffic_since_def)
qed

lemma counter_growth_traffic: "counter_growth cur prev = traffic_since prev cur"
  by (simp add: counter_growth_def traffic_since_def Let_def)

definition growthRx_of :: "files \<Rightarrow> (string \<rightharpoonup> int \<times> int) \<Rightarrow> pppSession \<Rightarrow> int" where
  "growthRx_of fs seen s =
    traffic_since (fst (map_get (0, 0) seen (ps_ifname s))) (fst (ifaceBytes fs (ps_ifname s)))"

definition growthTx_of :: "files \<Rightarrow> (string \<rightharpoonup> int \<times> int) \<Rightarrow> pppSession \<Rightarrow> int" where
  "growthTx_of fs seen s =
    traffic_since (snd (map_get (0, 0) seen (ps_ifname s))) (snd (ifaceBytes fs (ps_ifname s)))"

text \<open>Growth summed up by a key of the items, of sessions by their user.\<close>

definition growths_by :: "('a \<Rightarrow> string) \<Rightarrow> ('a \<Rightarrow> int) \<Rightarrow> 'a list \<Rightarrow> (string \<rightharpoonup> int) \<Rightarrow> (string \<rightharpoonup> int)" where
  "growths_by key g xs m = fold (\<lambda>x. add_growth (key x) (g x)) xs m"

definition add_growths :: "(pppSession \<Rightarrow> int) \<Rightarrow> pppSession list \<Rightarrow> (string \<rightharpoonup> int) \<Rightarrow> (string \<rightharpoonup> int)" where
  "add_growths g sessions m = growths_by ps_user g sessions m"

lemma growths_by_snoc: "growths_by key g (xs @ [x]) m = add_growth (key x) (g x) (growths_by key g xs m)"
  by (simp add: growths_by_def)

lemma i64_add_right: "i64 (x + i64 y) = i64 (x + y)"
  by (metis add.commute i64_add_left)

lemma i64_sum_list: "i64 (a + (\<Sum>x\<leftarrow>xs. i64 (f x))) = i64 (a + (\<Sum>x\<leftarrow>xs. f x))"
proof (induction xs arbitrary: a)
  case (Cons x xs)
  have "i64 (a + (i64 (f x) + (\<Sum>x\<leftarrow>xs. i64 (f x)))) = i64 ((a + i64 (f x)) + (\<Sum>x\<leftarrow>xs. f x))"
    using Cons [of "a + i64 (f x)"] by (simp add: add.assoc)
  also have "\<dots> = i64 ((a + (\<Sum>x\<leftarrow>xs. f x)) + i64 (f x))" by (simp add: algebra_simps)
  also have "\<dots> = i64 (a + (f x + (\<Sum>x\<leftarrow>xs. f x)))" unfolding i64_add_right by (simp add: algebra_simps)
  finally show ?case by simp
qed simp

lemma growths_by_get:
  "map_get 0 (growths_by key g xs Map.empty) k = i64 (\<Sum>x\<leftarrow>filter (\<lambda>x. key x = k) xs. g x)"
proof (induction xs rule: rev_induct)
  case Nil
  then show ?case by (simp add: growths_by_def map_get_def i64_def)
next
  case (snoc x xs)
  then show ?case
    by (auto simp: growths_by_snoc add_growth_def map_get_def i64_add_left)
qed

lemma add_growths_get:
  "map_get 0 (add_growths g sessions Map.empty) user = i64 (\<Sum>s\<leftarrow>sessions_of sessions user. g s)"
  by (simp add: add_growths_def sessions_of_def growths_by_get)

lemma count_sessions:
  assumes "distinct (map ps_ifname sessions)"
  shows "fold (count_session fs) sessions (seen, gRx, gTx) =
    (\<lambda>ifn. if ifn \<in> ps_ifname ` set sessions then Some (ifaceBytes fs ifn) else seen ifn,
     add_growths (growthRx_of fs seen) sessions gRx, add_growths (growthTx_of fs seen) sessions gTx)"
  using assms
proof (induction sessions rule: rev_induct)
  case Nil
  then show ?case by (simp add: add_growths_def growths_by_def)
next
  case (snoc s ss)
  then have "ps_ifname s \<notin> ps_ifname ` set ss" by auto
  with snoc show ?case
    by (auto simp: add_growths_def growths_by_snoc count_session_def growthRx_of_def growthTx_of_def counter_growth_traffic Let_def
        case_prod_beta map_get_def fun_eq_iff)
qed

section \<open>The loop over the users\<close>

definition user_sample :: "gotime \<Rightarrow> (string \<rightharpoonup> pppSession list) \<Rightarrow> (string \<rightharpoonup> int) \<Rightarrow> (string \<rightharpoonup> int) \<Rightarrow> string \<Rightarrow> Sample" where
  "user_sample now perUser cumRx cumTx user =
    \<lparr>sm_PublicKey = user, sm_Email = user, sm_Rx = map_get 0 cumRx user, sm_Tx = map_get 0 cumTx user,
     sm_EndpointIP = snd (fold (note_ip now) (map_get [] perUser user) (Map.empty, []))\<rparr>"

definition grown :: "string list \<Rightarrow> (string \<rightharpoonup> int) \<Rightarrow> (string \<rightharpoonup> int) \<Rightarrow> (string \<rightharpoonup> int)" where
  "grown order g m = (\<lambda>u. if u \<in> set order then Some (i64 (map_get 0 m u + map_get 0 g u)) else m u)"

lemma grown_snoc:
  "u \<notin> set us \<Longrightarrow> add_growth u (map_get 0 g u) (grown us g m) = grown (us @ [u]) g m"
  by (auto simp: grown_def add_growth_def map_get_def fun_eq_iff)

lemma poll_users:
  assumes "distinct order"
  shows "fold (poll_user now perUser gRx gTx) order (st, Map.empty, []) =
    (st\<lparr>pp_cumRx := grown order gRx (pp_cumRx st), pp_cumTx := grown order gTx (pp_cumTx st),
        pp_totalRx := (if order = [] then pp_totalRx st else i64 (pp_totalRx st + (\<Sum>u\<leftarrow>order. map_get 0 gRx u))),
        pp_totalTx := (if order = [] then pp_totalTx st else i64 (pp_totalTx st + (\<Sum>u\<leftarrow>order. map_get 0 gTx u)))\<rparr>,
     (\<lambda>u. if u \<in> set order then Some (fst (fold (note_ip now) (map_get [] perUser u) (Map.empty, []))) else None),
     map (user_sample now perUser (grown order gRx (pp_cumRx st)) (grown order gTx (pp_cumTx st))) order)"
  using assms
proof (induction order rule: rev_induct)
  case Nil
  then show ?case by (simp add: grown_def)
next
  case (snoc u us)
  then have u: "u \<notin> set us" and d: "distinct us" by simp_all
  have same: "map_get 0 (grown (us @ [u]) g m) v = map_get 0 (grown us g m) v" if "v \<in> set us" for g m v
    using that u by (auto simp: grown_def map_get_def)
  have "map (user_sample now perUser (grown us gRx a) (grown us gTx b)) us =
      map (user_sample now perUser (grown (us @ [u]) gRx a) (grown (us @ [u]) gTx b)) us" for a b
    using same by (simp add: user_sample_def)
  with snoc.IH [OF d] show ?case
    by (auto simp: poll_user_def Let_def case_prod_beta grown_snoc [OF u] user_sample_def
        i64_add_left add.assoc fun_eq_iff)
qed

lemma note_ips:
  "fst (fold (note_ip now) ss (Map.empty, [])) =
    (\<lambda>ip. if ip \<in> session_ip ` set ss \<and> ip \<noteq> [] then Some (unix_time now) else None)"
  by (induction ss rule: rev_induct) (auto simp: note_ip_def Let_def case_prod_beta fun_eq_iff)

lemma sum_by_key:
  assumes "distinct order" "key ` set xs \<subseteq> set order"
  shows "(\<Sum>u\<leftarrow>order. \<Sum>x\<leftarrow>filter (\<lambda>x. key x = u) xs. g x) = (\<Sum>x\<leftarrow>xs. (g x :: int))"
  using assms(2)
proof (induction xs)
  case Nil
  then show ?case by (simp add: sum_list_0)
next
  case (Cons x xs)
  have "(\<Sum>t\<leftarrow>filter (\<lambda>x. key x = u) (x # xs). g t) =
      (if key x = u then g x else 0) + (\<Sum>t\<leftarrow>filter (\<lambda>x. key x = u) xs. g t)" for u
    by simp
  then have "(\<Sum>u\<leftarrow>order. \<Sum>t\<leftarrow>filter (\<lambda>x. key x = u) (x # xs). g t) =
      (\<Sum>u\<leftarrow>order. if key x = u then g x else 0) + (\<Sum>u\<leftarrow>order. \<Sum>t\<leftarrow>filter (\<lambda>x. key x = u) xs. g t)"
    by (simp add: sum_list_addf)
  also have "(\<Sum>u\<leftarrow>order. if key x = u then g x else 0) = g x"
    using Cons.prems by (simp add: sum_list_distinct_conv_sum_set assms(1))
  finally show ?case using Cons by simp
qed

lemma sum_by_user:
  assumes "distinct order" "ps_user ` set ss \<subseteq> set order"
  shows "(\<Sum>u\<leftarrow>order. \<Sum>s\<leftarrow>sessions_of ss u. g s) = (\<Sum>s\<leftarrow>ss. (g s :: int))"
  using sum_by_key [OF assms] by (simp add: sessions_of_def)

section \<open>The result of a poll\<close>

definition poll_env_ok :: "PollEnv \<Rightarrow> pppSession list \<Rightarrow> bool" where
  "poll_env_ok env sessions \<longleftrightarrow>
    enumerates (pe_order1 env) (group_sessions sessions) \<and> enumerates (pe_order2 env) (group_sessions sessions) \<and>
    (\<forall>xs. mset (pe_sort env xs) = mset xs \<and> sorted (map ps_started (pe_sort env xs)))"

definition polled_growth :: "(pppSession \<Rightarrow> int) \<Rightarrow> pppSession list \<Rightarrow> (string \<rightharpoonup> int)" where
  "polled_growth g sessions = add_growths g sessions Map.empty"

lemmas poll_defs = ppp_poll_def Let_def case_prod_beta

lemma poll_result:
  fixes st :: Ppp
  assumes "listing_ok dir" "distinct (pe_order1 env)"
  defines "st' \<equiv> snd (ppp_poll env dir st)"
    and "gRx \<equiv> polled_growth (growthRx_of (pe_files env) (pp_ifSeen st)) (readSessions dir)"
    and "gTx \<equiv> polled_growth (growthTx_of (pe_files env) (pp_ifSeen st)) (readSessions dir)"
  shows "pp_cumRx st' = grown (pe_order1 env) gRx (pp_cumRx st)"
    "pp_cumTx st' = grown (pe_order1 env) gTx (pp_cumTx st)"
    "pp_totalRx st' = (if pe_order1 env = [] then pp_totalRx st
       else i64 (pp_totalRx st + (\<Sum>u\<leftarrow>pe_order1 env. map_get 0 gRx u)))"
    "pp_totalTx st' = (if pe_order1 env = [] then pp_totalTx st
       else i64 (pp_totalTx st + (\<Sum>u\<leftarrow>pe_order1 env. map_get 0 gTx u)))"
    "pp_ifSeen st' = (\<lambda>ifn. if ifn \<in> ps_ifname ` set (readSessions dir)
       then Some (ifaceBytes (pe_files env) ifn) else None)"
    "pp_onlineIPs st' = (\<lambda>u. if u \<in> set (pe_order1 env)
       then Some (\<lambda>ip. if ip \<in> session_ip ` set (sessions_of (readSessions dir) u) \<and> ip \<noteq> []
                      then Some (unix_time (pe_now1 env)) else None) else None)"
    "pp_users st' = pp_users st" "pp_secrets st' = pp_secrets st" "pp_state st' = pp_state st"
proof -
  note c = count_sessions [OF readSessions_distinct [OF assms(1)]]
  show "pp_cumRx st' = grown (pe_order1 env) gRx (pp_cumRx st)"
    "pp_cumTx st' = grown (pe_order1 env) gTx (pp_cumTx st)"
    "pp_totalRx st' = (if pe_order1 env = [] then pp_totalRx st
       else i64 (pp_totalRx st + (\<Sum>u\<leftarrow>pe_order1 env. map_get 0 gRx u)))"
    "pp_totalTx st' = (if pe_order1 env = [] then pp_totalTx st
       else i64 (pp_totalTx st + (\<Sum>u\<leftarrow>pe_order1 env. map_get 0 gTx u)))"
    "pp_users st' = pp_users st" "pp_secrets st' = pp_secrets st" "pp_state st' = pp_state st"
    unfolding st'_def gRx_def gTx_def polled_growth_def poll_defs c poll_users [OF assms(2)] by simp_all
  show "pp_ifSeen st' = (\<lambda>ifn. if ifn \<in> ps_ifname ` set (readSessions dir)
       then Some (ifaceBytes (pe_files env) ifn) else None)"
    unfolding st'_def poll_defs c poll_users [OF assms(2)] by (auto simp: forget_gone_def fun_eq_iff)
  show "pp_onlineIPs st' = (\<lambda>u. if u \<in> set (pe_order1 env)
       then Some (\<lambda>ip. if ip \<in> session_ip ` set (sessions_of (readSessions dir) u) \<and> ip \<noteq> []
                      then Some (unix_time (pe_now1 env)) else None) else None)"
    unfolding st'_def poll_defs c poll_users [OF assms(2)] by (auto simp: note_ips fun_eq_iff)
qed

lemma polled_growth_get:
  "map_get 0 (polled_growth g sessions) u = i64 (\<Sum>s\<leftarrow>sessions_of sessions u. g s)"
  unfolding polled_growth_def by (rule add_growths_get)

lemma polled_total:
  assumes "enumerates order (group_sessions sessions)"
  shows "i64 (t + (\<Sum>u\<leftarrow>order. map_get 0 (polled_growth g sessions) u)) = i64 (t + (\<Sum>s\<leftarrow>sessions. g s))"
  using assms sum_by_user [of order sessions g]
  by (simp add: polled_growth_get i64_sum_list enumerates_def dom_group_sessions)

section \<open>Totals and users\<close>

lemma i64_sum_cong:
  assumes "finite A" "\<And>u. u \<in> A \<Longrightarrow> i64 (f u) = i64 (h u)"
  shows "i64 (sum f A) = i64 (sum h A)"
  using assms
proof (induction A)
  case (insert a A)
  have "i64 (f a + sum f A) = i64 (i64 (f a) + i64 (sum f A))"
    by (simp add: i64_add_left i64_add_right)
  also have "\<dots> = i64 (i64 (h a) + i64 (sum h A))"
    using insert by simp
  finally show ?case
    using insert by (simp add: i64_add_left i64_add_right)
qed simp

definition cum_sum :: "(string \<rightharpoonup> int) \<Rightarrow> int" where
  "cum_sum m = (\<Sum>u\<in>dom m. map_get 0 m u)"

lemma dom_grown: "dom (grown order g m) = dom m \<union> set order"
  by (auto simp: grown_def split: if_splits)

lemma map_get_grown:
  "map_get 0 (grown order g m) u =
    (if u \<in> set order then i64 (map_get 0 m u + map_get 0 g u) else map_get 0 m u)"
  by (simp add: grown_def map_get_def)

lemma cum_sum_grown:
  assumes "finite (dom m)" "distinct order"
  shows "i64 (cum_sum (grown order g m)) = i64 (cum_sum m + (\<Sum>u\<leftarrow>order. map_get 0 g u))"
proof -
  let ?A = "dom m \<union> set order"
  have fin: "finite ?A" using assms by simp
  have "i64 (cum_sum (grown order g m)) =
      i64 (\<Sum>u\<in>?A. map_get 0 m u + (if u \<in> set order then map_get 0 g u else 0))"
    unfolding cum_sum_def dom_grown using fin by (intro i64_sum_cong) (simp_all add: map_get_grown)
  also have "(\<Sum>u\<in>?A. map_get 0 m u + (if u \<in> set order then map_get 0 g u else 0)) =
      (\<Sum>u\<in>?A. map_get 0 m u) + (\<Sum>u\<in>?A. if u \<in> set order then map_get 0 g u else 0)"
    by (rule sum.distrib)
  also have "(\<Sum>u\<in>?A. map_get 0 m u) = cum_sum m"
    unfolding cum_sum_def by (rule sum.mono_neutral_right [OF fin]) (auto simp: domIff)
  also have "(\<Sum>u\<in>?A. if u \<in> set order then map_get 0 g u else 0) = (\<Sum>u\<in>set order. map_get 0 g u)"
    by (rule sum.mono_neutral_cong_right [OF fin]) auto
  also have "\<dots> = (\<Sum>u\<leftarrow>order. map_get 0 g u)"
    using assms(2) by (simp add: sum_list_distinct_conv_sum_set)
  finally show ?thesis .
qed

definition totals_ok :: "Ppp \<Rightarrow> bool" where
  "totals_ok st \<longleftrightarrow> finite (dom (pp_cumRx st)) \<and> finite (dom (pp_cumTx st)) \<and>
    pp_totalRx st = i64 (cum_sum (pp_cumRx st)) \<and> pp_totalTx st = i64 (cum_sum (pp_cumTx st))"

lemma grown_Nil [simp]: "grown [] g m = m"
  by (simp add: grown_def)

lemma poll_totals_ok:
  assumes "listing_ok dir" "distinct (pe_order1 env)" "totals_ok st"
  shows "totals_ok (snd (ppp_poll env dir st))"
  using assms(3)
  by (cases "pe_order1 env = []")
    (simp_all add: totals_ok_def poll_result [OF assms(1,2)] dom_grown cum_sum_grown assms(2) i64_add_left)

lemma reloadUsers_totals [simp]: "totals_ok (snd (reloadUsers env order st)) = totals_ok st"
  by (simp add: reloadUsers_def totals_ok_def split: prod.split)

lemma GetStats_totals [simp]: "totals_ok (snd (ppp_GetStats order proto request st)) = totals_ok st"
  by (simp add: ppp_GetStats_def totals_ok_def Let_def split: StatType.split prod.split)

text \<open>
  The states a back end reaches: polls, statistics requests and user synchronisation in any
  order, started and stopped at any time.
\<close>

inductive ppp_run :: "cred_reader \<Rightarrow> Ppp \<Rightarrow> bool" for creds where
  new: "ppp_run creds (new_Ppp creds tag users secrets)"
| life: "ppp_run creds st \<Longrightarrow> ppp_run creds (st\<lparr>pp_state := l, pp_secrets := f\<rparr>)"
| poll: "ppp_run creds st \<Longrightarrow> listing_ok dir \<Longrightarrow> poll_env_ok env (readSessions dir) \<Longrightarrow>
    ppp_run creds (snd (ppp_poll env dir st))"
| stats: "ppp_run creds st \<Longrightarrow> ppp_run creds (snd (ppp_GetStats order proto request st))"
| sync_users: "ppp_run creds st \<Longrightarrow> ppp_run creds (snd (ppp_SyncUsers senv creds ord users st))"
| update_users: "ppp_run creds st \<Longrightarrow> ppp_run creds (snd (applyUsers senv creds ord users st))"

lemma ppp_run_totals: "ppp_run creds st \<Longrightarrow> totals_ok st"
proof (induction rule: ppp_run.induct)
  case (new tag users secrets)
  then show ?case
    by (simp add: new_Ppp_def totals_ok_def cum_sum_def) (simp add: i64_def)
next
  case (life st l f)
  then show ?case by (simp add: totals_ok_def)
next
  case (poll st dir env)
  then show ?case
    by (intro poll_totals_ok) (auto simp: poll_env_ok_def enumerates_def)
next
  case (sync_users st senv ord users)
  then show ?case by (simp add: ppp_SyncUsers_def Let_def) (simp add: totals_ok_def)
next
  case (update_users st senv ord users)
  then show ?case by (simp add: applyUsers_def Let_def) (simp add: totals_ok_def)
qed simp

section \<open>Keeping the oldest sessions\<close>

definition keeps_oldest :: "pppSession list \<Rightarrow> nat \<Rightarrow> pppSession list \<Rightarrow> bool" where
  "keeps_oldest list n dropped \<longleftrightarrow>
    (\<exists>kept. mset (kept @ dropped) = mset list \<and> length kept = min n (length list) \<and>
      (\<forall>a\<in>set kept. \<forall>b\<in>set dropped. ps_started a \<le> ps_started b))"

definition sorts_sessions :: "(pppSession list \<Rightarrow> pppSession list) \<Rightarrow> bool" where
  "sorts_sessions srt \<longleftrightarrow> (\<forall>xs. mset (srt xs) = mset xs \<and> sorted (map ps_started (srt xs)))"

lemma drop_keeps_oldest:
  assumes "sorts_sessions srt"
  shows "keeps_oldest list n (drop n (srt list))"
proof -
  let ?xs = "srt list"
  have ms: "mset ?xs = mset list" and so: "sorted (map ps_started ?xs)"
    using assms by (simp_all add: sorts_sessions_def)
  have "sorted (map ps_started (take n ?xs) @ map ps_started (drop n ?xs))"
    by (metis append_take_drop_id map_append so)
  then have "\<forall>a\<in>set (take n ?xs). \<forall>b\<in>set (drop n ?xs). ps_started a \<le> ps_started b"
    by (auto simp: sorted_append)
  moreover have "mset (take n ?xs @ drop n ?xs) = mset list" by (simp add: ms)
  moreover have "length (take n ?xs) = min n (length list)"
    using mset_eq_length [OF ms] by simp
  ultimately show ?thesis unfolding keeps_oldest_def by blast
qed

lemma keeps_all: "length list \<le> n \<Longrightarrow> keeps_oldest list n []"
  unfolding keeps_oldest_def by (rule exI [of _ list]) simp

lemma excess_keeps_oldest:
  assumes "sorts_sessions (pe_sort env)" "length (sessions_of sessions user) < 2 ^ 32"
  shows "keeps_oldest (sessions_of sessions user)
    (if limitFor users user = 0 then length (sessions_of sessions user) else unat (limitFor users user))
    (excess_sessions env users (group_sessions sessions) user)"
proof -
  let ?n = "length (sessions_of sessions user)" and ?l = "limitFor users user"
  have "unat (of_nat ?n :: u32) = ?n" using assms(2) by (simp add: unat_of_nat)
  then have "(of_nat ?n :: u32) \<le> ?l \<longleftrightarrow> ?n \<le> unat ?l" by (simp add: word_le_nat_alt)
  then show ?thesis
    using drop_keeps_oldest [OF assms(1)] keeps_all by (simp add: excess_sessions_def Let_def)
qed

section \<open>Properties\<close>

text \<open>C10. A poll adds to the counters of every user exactly the growth of the interfaces of its
  sessions, whatever the order of the loops: the difference to the last poll, or the whole counter
  when it went backwards. Users without sessions keep theirs, the totals grow by the growth of all
  sessions, and the last-seen counters become those of the live interfaces.\<close>

theorem ppp_poll_accounting:
  assumes "listing_ok dir" and "poll_env_ok env sessions" and "sessions = readSessions dir"
    and "st' = snd (ppp_poll env dir st)"
  shows "(\<forall>u. map_get 0 (pp_cumRx st') u = (if sessions_of sessions u = [] then map_get 0 (pp_cumRx st) u
        else i64 (map_get 0 (pp_cumRx st) u + (\<Sum>s\<leftarrow>sessions_of sessions u. growthRx_of (pe_files env) (pp_ifSeen st) s)))) \<and>
    (\<forall>u. map_get 0 (pp_cumTx st') u = (if sessions_of sessions u = [] then map_get 0 (pp_cumTx st) u
        else i64 (map_get 0 (pp_cumTx st) u + (\<Sum>s\<leftarrow>sessions_of sessions u. growthTx_of (pe_files env) (pp_ifSeen st) s)))) \<and>
    (sessions \<noteq> [] \<longrightarrow>
      pp_totalRx st' = i64 (pp_totalRx st + (\<Sum>s\<leftarrow>sessions. growthRx_of (pe_files env) (pp_ifSeen st) s)) \<and>
      pp_totalTx st' = i64 (pp_totalTx st + (\<Sum>s\<leftarrow>sessions. growthTx_of (pe_files env) (pp_ifSeen st) s))) \<and>
    pp_ifSeen st' = (\<lambda>ifn. if ifn \<in> ps_ifname ` set sessions then Some (ifaceBytes (pe_files env) ifn) else None)"
proof -
  have en: "enumerates (pe_order1 env) (group_sessions sessions)"
    using assms(2) by (simp add: poll_env_ok_def)
  note r = poll_result [OF assms(1) enumerates_distinct [OF en], of st, folded assms(4), folded assms(3)]
  have mem: "u \<in> set (pe_order1 env) \<longleftrightarrow> sessions_of sessions u \<noteq> []" for u
    using enumerates_set [OF en] by (auto simp: dom_group_sessions sessions_of_def filter_empty_conv)
  have "pe_order1 env = [] \<longleftrightarrow> sessions = []"
    using enumerates_set [OF en] by (auto simp: dom_group_sessions)
  then show ?thesis
    by (simp add: r map_get_grown mem polled_growth_get i64_add_right polled_total [OF en])
qed

definition lab_dir :: "DirEntry list option" where
  "lab_dir = Some [\<lparr>de_Name = ''ppp0'', de_IsDir = False, de_File = Some ''user=ann''\<rparr>]"

definition lab_session :: pppSession where
  "lab_session = \<lparr>ps_user = ''ann'', ps_ifname = ''ppp0'', ps_tunnelIP = [], ps_clientIP = [], ps_pid = 0, ps_started = 0\<rparr>"

definition lab_poll :: PollEnv where
  "lab_poll = \<lparr>pe_files = (\<lambda>_. Some ''70''), pe_sort = sort_key ps_started, pe_order1 = [''ann''],
    pe_order2 = [''ann''], pe_now1 = 0, pe_now2 = 0\<rparr>"

lemma lab_sessions: "readSessions lab_dir = [lab_session]"
proof -
  have sp: "split_lines ''user=ann'' = [''user=ann'']" "drop_cr ''user=ann'' = ''user=ann''" by code_simp+
  have sc: "fst (scan_lines ''user=ann'') = [''user=ann'']"
    by (simp add: scan_lines_def sp short_fits)
  have "session_line ''user=ann'' \<lparr>ps_user = [], ps_ifname = ''ppp0'', ps_tunnelIP = [], ps_clientIP = [],
      ps_pid = 0, ps_started = 0\<rparr> = lab_session" by code_simp
  then show ?thesis
    by (simp add: readSessions_def lab_dir_def parseSessionFile_def Let_def sc) (simp add: lab_session_def)
qed

lemma lab_poll_ok: "poll_env_ok lab_poll [lab_session]"
proof -
  have "group_sessions [lab_session] = [''ann'' \<mapsto> [lab_session]]"
    by (simp add: group_sessions_def add_session_def lab_session_def)
  then show ?thesis
    by (simp add: poll_env_ok_def lab_poll_def enumerates_def)
qed

theorem ppp_poll_accounting_witness:
  "map_get 0 (pp_cumRx (snd (ppp_poll lab_poll lab_dir (new_Ppp credsFor ''l2tp'' [] None)))) ''ann'' = 70"
proof -
  have c: "ParseInt (trim_space ''70'') = 70"
    by (simp add: ParseInt_def ParseUint_def digit_of_def trim_space_def is_space_def Let_def)
  have o: "sessions_of [lab_session] ''ann'' = [lab_session]"
    by (simp add: sessions_of_def lab_session_def)
  have "listing_ok lab_dir" by (simp add: listing_ok_def lab_dir_def)
  from ppp_poll_accounting [OF this lab_poll_ok _ refl, of "new_Ppp credsFor ''l2tp'' [] None"]
  show ?thesis
    by (simp add: lab_sessions o growthRx_of_def) (simp add: new_Ppp_def ifaceBytes_def readCounter_def lab_poll_def Let_def c map_get_def
        traffic_since_def i64_def)
qed

text \<open>In every reachable state the node totals of a PPP back end are the sums of the per-user
  counters, modulo the wrap-around of 64-bit integers.\<close>

theorem ppp_totals_match:
  assumes "ppp_run creds st"
  shows "finite (dom (pp_cumRx st)) \<and> finite (dom (pp_cumTx st)) \<and>
    pp_totalRx st = i64 (\<Sum>u\<in>dom (pp_cumRx st). map_get 0 (pp_cumRx st) u) \<and>
    pp_totalTx st = i64 (\<Sum>u\<in>dom (pp_cumTx st). map_get 0 (pp_cumTx st) u)"
  using ppp_run_totals [OF assms] by (simp add: totals_ok_def cum_sum_def)

theorem ppp_totals_match_witness:
  "pp_totalRx (snd (ppp_poll lab_poll lab_dir (new_Ppp credsFor ''l2tp'' [] None))) =
    i64 (\<Sum>u\<in>dom (pp_cumRx (snd (ppp_poll lab_poll lab_dir (new_Ppp credsFor ''l2tp'' [] None)))).
      map_get 0 (pp_cumRx (snd (ppp_poll lab_poll lab_dir (new_Ppp credsFor ''l2tp'' [] None)))) u)"
proof -
  have "listing_ok lab_dir" by (simp add: listing_ok_def lab_dir_def)
  with lab_poll_ok have "ppp_run credsFor (snd (ppp_poll lab_poll lab_dir (new_Ppp credsFor ''l2tp'' [] None)))"
    by (intro ppp_run.poll ppp_run.new) (simp_all add: lab_sessions)
  from ppp_totals_match [OF this] show ?thesis by blast
qed

text \<open>A poll terminates, for every user with sessions, exactly the sessions beyond its device
  limit, and each of those started no earlier than the sessions it keeps; a limit of 0 keeps all.\<close>

theorem ppp_poll_keeps_oldest:
  assumes "poll_env_ok env sessions" and "sessions = readSessions dir"
    and "\<forall>u. length (sessions_of sessions u) < 2 ^ 32" and "listing_ok dir"
  shows "\<exists>dropped. fst (ppp_poll env dir st) = concat (map (kill_sessions \<circ> dropped) (pe_order2 env)) \<and>
    set (pe_order2 env) = ps_user ` set sessions \<and>
    (\<forall>u. keeps_oldest (sessions_of sessions u)
       (if limitFor (pp_users st) u = 0 then length (sessions_of sessions u) else unat (limitFor (pp_users st) u))
       (dropped u))"
proof -
  have en: "enumerates (pe_order1 env) (group_sessions sessions)" "enumerates (pe_order2 env) (group_sessions sessions)"
    and srt: "sorts_sessions (pe_sort env)"
    using assms(1) by (simp_all add: poll_env_ok_def sorts_sessions_def)
  have "fst (ppp_poll env dir st) =
      enforceDeviceLimits env (group_sessions sessions) (snd (ppp_poll env dir st))"
    by (simp add: poll_defs assms(2))
  also have "\<dots> = concat (map (kill_sessions \<circ> excess_sessions env (pp_users st) (group_sessions sessions)) (pe_order2 env))"
    using poll_result(7) [OF assms(4) enumerates_distinct [OF en(1)]]
    by (simp add: enforceDeviceLimits_def comp_def)
  finally show ?thesis
    using excess_keeps_oldest [OF srt] assms(3) enumerates_set [OF en(2)] dom_group_sessions
    by (intro exI [of _ "excess_sessions env (pp_users st) (group_sessions sessions)"]) simp
qed

theorem ppp_poll_keeps_oldest_witness:
  "\<exists>dropped. fst (ppp_poll lab_poll lab_dir (new_Ppp credsFor ''l2tp'' [] None)) = kill_sessions (dropped ''ann'') \<and>
    keeps_oldest [lab_session] 1 (dropped ''ann'')"
proof -
  have o: "sessions_of [lab_session] ''ann'' = [lab_session]"
    by (simp add: sessions_of_def lab_session_def)
  have "length (sessions_of [lab_session] u) \<le> 1" for u
    unfolding sessions_of_def using length_filter_le [of _ "[lab_session]"] by simp
  then have l: "\<forall>u. length (sessions_of [lab_session] u) < 2 ^ 32"
    by (metis order_le_less_trans one_less_power one_less_numeral_iff semiring_norm(76) zero_less_numeral)
  have d: "listing_ok lab_dir" by (simp add: listing_ok_def lab_dir_def)
  have f: "limitFor (pp_users (new_Ppp credsFor ''l2tp'' [] None)) ''ann'' = 0"
    by (simp add: limitFor_def new_Ppp_def replaceAll_def newUserStore_def Let_def)
  have e: "pe_order2 lab_poll = [''ann'']" by (simp add: lab_poll_def)
  obtain dropped where
    "fst (ppp_poll lab_poll lab_dir (new_Ppp credsFor ''l2tp'' [] None)) = concat (map (kill_sessions \<circ> dropped) (pe_order2 lab_poll))"
    "\<forall>u. keeps_oldest (sessions_of [lab_session] u)
       (if limitFor (pp_users (new_Ppp credsFor ''l2tp'' [] None)) u = 0 then length (sessions_of [lab_session] u)
        else unat (limitFor (pp_users (new_Ppp credsFor ''l2tp'' [] None)) u)) (dropped u)"
    using ppp_poll_keeps_oldest [OF lab_poll_ok lab_sessions [symmetric] l d,
        of "new_Ppp credsFor ''l2tp'' [] None"] by blast
  then show ?thesis
    by (intro exI [of _ dropped]) (auto simp: e o f dest: spec [of _ "''ann''"])
qed

end
