(* ===== verification/Ipsec.thy ===== *)
theory Ipsec
  imports Prelude
begin

text \<open>
  The charon daemon that the IPsec back ends share (\<open>backend/ipsec/charon.go\<close>): a counter of references, the
  first one starts the process and the last one kills it. On top of it the life cycle of its two clients, the
  back ends of \<open>backend/ikev2\<close> and \<open>backend/l2tp\<close>: start, shut-down and restart with every error path. What the
  steps before and after \<open>Acquire\<close> return (certificate, configuration files, \<open>swanctl --load-all\<close>, the start of
  xl2tpd) is given by the environment of a start; log lines are left out.
\<close>

section \<open>The supervisor\<close>

text \<open>
  \<open>mr_process\<close> is the process handle, identified by its number; \<open>mr_killed\<close> lists the processes that were
  killed.
\<close>

record manager =
  mr_refs :: nat
  mr_process :: "nat option"
  mr_killed :: "nat list"

definition shared0 :: manager where
  "shared0 = \<lparr>mr_refs = 0, mr_process = None, mr_killed = []\<rparr>"

text \<open>
  What an attempt to start the daemon meets: the files that exist, the result of \<open>cmd.Start\<close>, the clock at the
  start of each round of the wait, whether the socket answers in that round and whether the process exits
  during its pause. The wait reads the clock once before its first round.
\<close>

record SpawnEnv =
  sp_exists :: "string \<Rightarrow> bool"
  sp_Start :: "string + nat"
  sp_begin :: gotime
  sp_clock :: "nat \<Rightarrow> gotime"
  sp_ready :: "nat \<Rightarrow> bool"
  sp_exited :: "nat \<Rightarrow> bool"

definition charonBinary :: string where
  "charonBinary = ''/usr/lib/ipsec/charon''"

definition swanctlBinary :: string where
  "swanctlBinary = ''/usr/sbin/swanctl''"

definition CheckDeps :: "(string \<Rightarrow> bool) \<Rightarrow> string option" where
  "CheckDeps ex =
    (case List.find (\<lambda>p. \<not> ex p) [charonBinary, swanctlBinary] of
       Some p \<Rightarrow> Some (''strongSwan is not installed on this node (missing '' @ p @ '')'')
     | None \<Rightarrow> None)"

definition msg_exited :: string where
  "msg_exited = ''charon exited before the VICI socket was ready''"

definition msg_timed_out :: string where
  "msg_timed_out = ''timed out waiting for the charon VICI socket''"

text \<open>The loop may run forever when the clock stands still: no result is then the result \<open>None\<close>.\<close>

partial_function (option) wait_rounds :: "SpawnEnv \<Rightarrow> gotime \<Rightarrow> nat \<Rightarrow> (string option) option" where
  "wait_rounds env deadline i =
    (if sp_clock env i < deadline
     then if sp_ready env i then Some None
          else if sp_exited env i then Some (Some msg_exited)
          else wait_rounds env deadline (Suc i)
     else Some (Some msg_timed_out))"

definition waitForSocket :: "SpawnEnv \<Rightarrow> int \<Rightarrow> (string option) option" where
  "waitForSocket env timeout = wait_rounds env (sp_begin env + timeout) 0"

definition startLocked :: "SpawnEnv \<Rightarrow> manager \<Rightarrow> (string option \<times> manager) option" where
  "startLocked env m =
    (case sp_Start env of
       Inl e \<Rightarrow> Some (Some (''start charon: '' @ e), m)
     | Inr pid \<Rightarrow>
         (case waitForSocket env (15 * second) of
            None \<Rightarrow> None
          | Some None \<Rightarrow> Some (None, m\<lparr>mr_process := Some pid\<rparr>)
          | Some (Some e) \<Rightarrow> Some (Some e, m\<lparr>mr_process := None, mr_killed := mr_killed m @ [pid]\<rparr>)))"

definition acquire :: "SpawnEnv \<Rightarrow> manager \<Rightarrow> (string option \<times> manager) option" where
  "acquire env m =
    (if mr_refs m > 0 then Some (None, m\<lparr>mr_refs := mr_refs m + 1\<rparr>)
     else case CheckDeps (sp_exists env) of
       Some e \<Rightarrow> Some (Some e, m)
     | None \<Rightarrow>
         (case startLocked env m of
            None \<Rightarrow> None
          | Some (Some e, m1) \<Rightarrow> Some (Some e, m1)
          | Some (None, m1) \<Rightarrow> Some (None, m1\<lparr>mr_refs := 1\<rparr>)))"

definition release :: "manager \<Rightarrow> manager" where
  "release m =
    (if mr_refs m = 0 then m
     else let m1 = m\<lparr>mr_refs := mr_refs m - 1\<rparr> in
       if mr_refs m1 > 0 then m1
       else m1\<lparr>mr_process := None,
               mr_killed := (case mr_process m1 of None \<Rightarrow> mr_killed m1 | Some pid \<Rightarrow> mr_killed m1 @ [pid])\<rparr>)"

definition Running :: "manager \<Rightarrow> bool" where
  "Running m \<longleftrightarrow> mr_refs m > 0 \<and> mr_process m \<noteq> None"

text \<open>\<open>out\<close> is what the command \<open>swanctl --load-all\<close> prints, with the error it ends with.\<close>

definition loadAll :: "string option \<times> string \<Rightarrow> string option" where
  "loadAll out =
    (case out of
       (None, _) \<Rightarrow> None
     | (Some e, output) \<Rightarrow> Some (''swanctl --load-all: '' @ e @ '': '' @ trim_space output))"

section \<open>The clients\<close>

datatype core_kind = IKEv2Core | L2TPCore

text \<open>\<open>co_once\<close> tells that \<open>shutdownOnce\<close> has run; \<open>co_daemon\<close> that xl2tpd was started and not yet killed.\<close>

record IpsecCore =
  co_kind :: core_kind
  co_running :: bool
  co_once :: bool
  co_daemon :: bool

text \<open>
  The steps of a start that may fail: the certificate (IKEv2 only), the configuration files, the daemon, the
  rewrite of the connection (\<open>reload\<close> of IKEv2 writes it again before it loads it), the load and xl2tpd (L2TP only).
\<close>

record StartEnv =
  se_cert :: "string option"
  se_config :: "string option"
  se_spawn :: SpawnEnv
  se_swanctl :: "string option"
  se_load :: "string option \<times> string"
  se_xl2tpd :: "string option"

definition ikev2_reload :: "StartEnv \<Rightarrow> string option" where
  "ikev2_reload env = (case se_swanctl env of Some e \<Rightarrow> Some e | None \<Rightarrow> loadAll (se_load env))"

definition ikev2_start :: "StartEnv \<Rightarrow> manager \<Rightarrow> IpsecCore \<Rightarrow> (string option \<times> manager \<times> IpsecCore) option" where
  "ikev2_start env m o0 =
    (case se_cert env of
       Some e \<Rightarrow> Some (Some (''ikev2 certificate: '' @ e), m, o0)
     | None \<Rightarrow>
    (case se_config env of
       Some e \<Rightarrow> Some (Some (''write ikev2 config: '' @ e), m, o0)
     | None \<Rightarrow>
    (case acquire (se_spawn env) m of
       None \<Rightarrow> None
     | Some (Some e, m1) \<Rightarrow> Some (Some (''start charon: '' @ e), m1, o0)
     | Some (None, m1) \<Rightarrow>
    (case ikev2_reload env of
       Some e \<Rightarrow> Some (Some (''swanctl load: '' @ e), release m1, o0)
     | None \<Rightarrow> Some (None, m1, o0\<lparr>co_running := True\<rparr>)))))"

definition l2tp_start :: "StartEnv \<Rightarrow> manager \<Rightarrow> IpsecCore \<Rightarrow> (string option \<times> manager \<times> IpsecCore) option" where
  "l2tp_start env m o0 =
    (case se_config env of
       Some e \<Rightarrow> Some (Some (''write l2tp config: '' @ e), m, o0)
     | None \<Rightarrow>
    (case acquire (se_spawn env) m of
       None \<Rightarrow> None
     | Some (Some e, m1) \<Rightarrow> Some (Some (''start charon: '' @ e), m1, o0)
     | Some (None, m1) \<Rightarrow>
    (case loadAll (se_load env) of
       Some e \<Rightarrow> Some (Some (''swanctl load: '' @ e), release m1, o0)
     | None \<Rightarrow>
    (case se_xl2tpd env of
       Some e \<Rightarrow> Some (Some (''start xl2tpd: '' @ e), release m1, o0)
     | None \<Rightarrow> Some (None, m1, o0\<lparr>co_running := True, co_daemon := True\<rparr>)))))"

definition ikev2_Shutdown :: "manager \<times> IpsecCore \<Rightarrow> manager \<times> IpsecCore" where
  "ikev2_Shutdown st =
    (case st of (m, o0) \<Rightarrow>
      if co_once o0 then (m, o0) else (release m, o0\<lparr>co_running := False, co_once := True\<rparr>))"

definition l2tp_Shutdown :: "manager \<times> IpsecCore \<Rightarrow> manager \<times> IpsecCore" where
  "l2tp_Shutdown st =
    (case st of (m, o0) \<Rightarrow>
      if co_once o0 then (m, o0)
      else (release m, o0\<lparr>co_running := False, co_once := True, co_daemon := False\<rparr>))"

definition ikev2_Restart :: "StartEnv \<Rightarrow> manager \<Rightarrow> IpsecCore \<Rightarrow> (string option \<times> manager \<times> IpsecCore) option" where
  "ikev2_Restart env m o0 =
    (case ikev2_Shutdown (m, o0) of (m1, o1) \<Rightarrow> ikev2_start env m1 (o1\<lparr>co_once := False\<rparr>))"

definition l2tp_Restart :: "StartEnv \<Rightarrow> manager \<Rightarrow> IpsecCore \<Rightarrow> (string option \<times> manager \<times> IpsecCore) option" where
  "l2tp_Restart env m o0 =
    (case l2tp_Shutdown (m, o0) of (m1, o1) \<Rightarrow> l2tp_start env m1 (o1\<lparr>co_once := False\<rparr>))"

definition new_core :: "core_kind \<Rightarrow> IpsecCore" where
  "new_core k = \<lparr>co_kind = k, co_running = False, co_once = False, co_daemon = False\<rparr>"

definition any_start :: "StartEnv \<Rightarrow> manager \<Rightarrow> IpsecCore \<Rightarrow> (string option \<times> manager \<times> IpsecCore) option" where
  "any_start env m o0 = (case co_kind o0 of IKEv2Core \<Rightarrow> ikev2_start env m o0 | L2TPCore \<Rightarrow> l2tp_start env m o0)"

definition any_Shutdown :: "manager \<times> IpsecCore \<Rightarrow> manager \<times> IpsecCore" where
  "any_Shutdown st = (case co_kind (snd st) of IKEv2Core \<Rightarrow> ikev2_Shutdown st | L2TPCore \<Rightarrow> l2tp_Shutdown st)"

definition any_Restart :: "StartEnv \<Rightarrow> manager \<Rightarrow> IpsecCore \<Rightarrow> (string option \<times> manager \<times> IpsecCore) option" where
  "any_Restart env m o0 = (case co_kind o0 of IKEv2Core \<Rightarrow> ikev2_Restart env m o0 | L2TPCore \<Rightarrow> l2tp_Restart env m o0)"

section \<open>Runs\<close>

text \<open>
  The cores of a node and the daemon they share. A core whose first start fails is not kept. The flag of the
  relation tells that no restart has failed so far.
\<close>

type_synonym ipsec_node = "manager \<times> IpsecCore list"

inductive ipsec_run :: "bool \<Rightarrow> ipsec_node \<Rightarrow> bool" where
  start: "ipsec_run True (shared0, [])"
| create: "ipsec_run ok (m, cs) \<Longrightarrow> any_start env m (new_core k) = Some (None, m', c) \<Longrightarrow>
    ipsec_run ok (m', cs @ [c])"
| create_fails: "ipsec_run ok (m, cs) \<Longrightarrow> any_start env m (new_core k) = Some (Some e, m', c) \<Longrightarrow>
    ipsec_run ok (m', cs)"
| shutdown: "ipsec_run ok (m, cs) \<Longrightarrow> i < length cs \<Longrightarrow> any_Shutdown (m, cs ! i) = (m', c) \<Longrightarrow>
    ipsec_run ok (m', cs[i := c])"
| restart: "ipsec_run ok (m, cs) \<Longrightarrow> i < length cs \<Longrightarrow> any_Restart env m (cs ! i) = Some (None, m', c) \<Longrightarrow>
    ipsec_run ok (m', cs[i := c])"
| restart_fails: "ipsec_run ok (m, cs) \<Longrightarrow> i < length cs \<Longrightarrow> any_Restart env m (cs ! i) = Some (Some e, m', c) \<Longrightarrow>
    ipsec_run False (m', cs[i := c])"

text \<open>The number of cores that run, and what ties the supervisor to them.\<close>

definition holders :: "IpsecCore list \<Rightarrow> nat" where
  "holders cs = length (filter co_running cs)"

definition refs_ok :: "nat \<Rightarrow> manager \<Rightarrow> bool" where
  "refs_ok n m \<longleftrightarrow> mr_refs m = n \<and> (mr_process m \<noteq> None \<longleftrightarrow> 0 < n)"

section \<open>Effect of the operations on the references\<close>

lemma acquire_refs:
  assumes "acquire env m = Some (r, m')" "refs_ok n m"
  shows "refs_ok (case r of None \<Rightarrow> Suc n | Some _ \<Rightarrow> n) m'"
  using assms
  by (auto simp: acquire_def startLocked_def refs_ok_def split: if_splits option.splits sum.splits) metis

lemma release_refs: "refs_ok n m \<Longrightarrow> refs_ok (n - 1) (release m)"
  by (auto simp: release_def refs_ok_def Let_def)

lemmas start_defs = any_start_def ikev2_start_def l2tp_start_def

lemma start_refs:
  assumes "any_start env m c = Some (r, m', c')" "refs_ok n m"
  shows "refs_ok (case r of None \<Rightarrow> Suc n | Some _ \<Rightarrow> n) m'"
  using assms acquire_refs [of "se_spawn env" m None] acquire_refs [of "se_spawn env" m "Some _"]
    release_refs [of "Suc n"]
  by (fastforce simp: start_defs split: core_kind.splits option.splits)

lemma start_core:
  assumes "any_start env m c = Some (r, m', c')"
  shows "co_kind c' = co_kind c \<and> co_once c' = co_once c \<and>
    (case r of None \<Rightarrow> co_running c' | Some _ \<Rightarrow> c' = c)"
  using assms by (auto simp: start_defs split: core_kind.splits option.splits)

lemma shutdown_result:
  assumes "any_Shutdown (m, c) = (m', c')"
  shows "m' = (if co_once c then m else release m) \<and> co_kind c' = co_kind c \<and> co_once c' \<and>
    (co_once c \<longrightarrow> c' = c) \<and> (\<not> co_once c \<longrightarrow> \<not> co_running c')"
  using assms by (auto simp: any_Shutdown_def ikev2_Shutdown_def l2tp_Shutdown_def split: core_kind.splits if_splits)

lemma restart_split:
  "any_Restart env m c =
    (case any_Shutdown (m, c) of (m1, c1) \<Rightarrow> any_start env m1 (c1\<lparr>co_once := False\<rparr>))"
  by (auto simp: any_Restart_def any_Shutdown_def any_start_def ikev2_Restart_def l2tp_Restart_def
      ikev2_Shutdown_def l2tp_Shutdown_def split: core_kind.split prod.split)

lemma holders_update:
  assumes "i < length cs"
  shows "holders (cs[i := c]) + (if co_running (cs ! i) then 1 else 0) = holders cs + (if co_running c then 1 else 0)"
  using assms
proof (induction cs arbitrary: i)
  case (Cons x cs)
  then show ?case by (cases i) (auto simp: holders_def split: if_splits)
qed simp

section \<open>The invariant of the runs\<close>

definition node_inv :: "ipsec_node \<Rightarrow> bool" where
  "node_inv nd \<longleftrightarrow> (case nd of (m, cs) \<Rightarrow> refs_ok (holders cs) m \<and> (\<forall>c\<in>set cs. co_running c \<longleftrightarrow> \<not> co_once c))"

lemma node_inv_update:
  assumes "node_inv (m, cs)" "i < length cs" "refs_ok (holders (cs[i := c])) m'" "co_running c \<longleftrightarrow> \<not> co_once c"
  shows "node_inv (m', cs[i := c])"
  using assms by (auto simp: node_inv_def dest!: set_update_subset_insert [THEN subsetD])

lemma shutdown_inv:
  assumes inv: "node_inv (m, cs)" and i: "i < length cs" and sd: "any_Shutdown (m, cs ! i) = (m', c)"
  shows "node_inv (m', cs[i := c])" and "\<not> co_running c" and "refs_ok (holders (cs[i := c])) m'"
proof -
  note r = shutdown_result [OF sd]
  have c: "co_running (cs ! i) \<longleftrightarrow> \<not> co_once (cs ! i)" using inv i by (auto simp: node_inv_def)
  show stopped: "\<not> co_running c" using r c by auto
  have h: "refs_ok (holders cs) m" using inv by (simp add: node_inv_def)
  show k: "refs_ok (holders (cs[i := c])) m'"
  proof (cases "co_once (cs ! i)")
    case True
    then show ?thesis using r h i by simp
  next
    case False
    then have "holders (cs[i := c]) = holders cs - 1"
      using holders_update [OF i, of c] c stopped by simp
    then show ?thesis using r False release_refs [OF h] by simp
  qed
  show "node_inv (m', cs[i := c])"
    using node_inv_update [OF inv i k] r stopped by simp
qed

lemma restart_inv:
  assumes inv: "node_inv (m, cs)" and i: "i < length cs" and re: "any_Restart env m (cs ! i) = Some (None, m', c)"
  shows "node_inv (m', cs[i := c])"
proof -
  obtain m1 c1 where sd: "any_Shutdown (m, cs ! i) = (m1, c1)" by (cases "any_Shutdown (m, cs ! i)")
  have st: "any_start env m1 (c1\<lparr>co_once := False\<rparr>) = Some (None, m', c)"
    using re by (simp add: restart_split sd)
  note s = shutdown_inv [OF inv i sd]
  have "refs_ok (Suc (holders (cs[i := c1]))) m'"
    using start_refs [OF st s(3)] by simp
  moreover have c: "co_running c" "\<not> co_once c" using start_core [OF st] by simp_all
  moreover have "holders (cs[i := c]) = Suc (holders (cs[i := c1]))"
    using holders_update [of i "cs[i := c1]" c] i s(2) c(1) by simp
  ultimately show ?thesis using node_inv_update [OF inv i] by simp
qed

lemma run_inv: "ipsec_run ok nd \<Longrightarrow> ok \<Longrightarrow> node_inv nd"
proof (induction rule: ipsec_run.induct)
  case start
  then show ?case by (simp add: node_inv_def refs_ok_def shared0_def holders_def)
next
  case (create ok m cs env k m' c)
  then have inv: "node_inv (m, cs)" by simp
  then have "refs_ok (holders (cs @ [c])) m'"
    using start_refs [OF create.hyps(2)] start_core [OF create.hyps(2)] by (simp add: node_inv_def holders_def)
  then show ?case
    using inv start_core [OF create.hyps(2)] by (auto simp: node_inv_def new_core_def)
next
  case (create_fails ok m cs env k e m' c)
  then show ?case using start_refs [OF create_fails.hyps(2)] by (simp add: node_inv_def)
next
  case (shutdown ok m cs i m' c)
  then show ?case using shutdown_inv(1) by simp
next
  case (restart ok m cs i env m' c)
  then show ?case using restart_inv by blast
qed simp

section \<open>The wait for the socket\<close>

text \<open>A round that ends with neither socket nor exit pauses for 200 milliseconds.\<close>

definition pause :: int where
  "pause = second div 5"

definition pauses :: "SpawnEnv \<Rightarrow> bool" where
  "pauses env \<longleftrightarrow> sp_begin env \<le> sp_clock env 0 \<and>
    (\<forall>i. \<not> sp_ready env i \<and> \<not> sp_exited env i \<longrightarrow> sp_clock env i + pause \<le> sp_clock env (Suc i))"

definition idle :: "SpawnEnv \<Rightarrow> nat \<Rightarrow> nat \<Rightarrow> bool" where
  "idle env i j \<longleftrightarrow> (\<forall>k. i \<le> k \<and> k < j \<longrightarrow> \<not> sp_ready env k \<and> \<not> sp_exited env k)"

lemma idle_clock:
  assumes "pauses env" "i \<le> j" "idle env i j"
  shows "sp_clock env i + int (j - i) * pause \<le> sp_clock env j"
  using assms(2,3)
proof (induction j rule: dec_induct)
  case (step j)
  have "idle env i j" "\<not> sp_ready env j \<and> \<not> sp_exited env j" using step by (simp_all add: idle_def)
  with step.IH assms(1) have "sp_clock env i + int (j - i) * pause + pause \<le> sp_clock env (Suc j)"
    unfolding pauses_def by fastforce
  moreover have "int (Suc j - i) = int (j - i) + 1" using step by simp
  ultimately show ?case by (simp add: distrib_right)
qed simp

lemma wait_rounds_result:
  assumes law: "pauses env"
  shows "\<exists>r. wait_rounds env d i = Some r \<and>
    (r = None \<longleftrightarrow> (\<exists>j\<ge>i. sp_clock env j < d \<and> sp_ready env j \<and> idle env i j))"
proof (induction "nat (d - sp_clock env i)" arbitrary: i rule: less_induct)
  case less
  consider (late) "d \<le> sp_clock env i" | (ready) "sp_clock env i < d" "sp_ready env i"
    | (exited) "sp_clock env i < d" "\<not> sp_ready env i" "sp_exited env i"
    | (wait) "sp_clock env i < d" "\<not> sp_ready env i" "\<not> sp_exited env i"
    by linarith
  then show ?case
  proof cases
    case late
    have "\<not> sp_clock env j < d" if "i \<le> j" "idle env i j" for j
      using idle_clock [OF law that] late by (simp add: pause_def)
    with late show ?thesis by (auto simp: wait_rounds.simps)
  next
    case ready
    then show ?thesis by (auto simp: wait_rounds.simps idle_def)
  next
    case exited
    then have "\<not> (sp_ready env j \<and> idle env i j)" if "i \<le> j" for j
      using that by (cases "i = j") (auto simp: idle_def)
    with exited show ?thesis by (auto simp: wait_rounds.simps)
  next
    case wait
    have "sp_clock env i + pause \<le> sp_clock env (Suc i)" using law wait by (simp add: pauses_def)
    then have "nat (d - sp_clock env (Suc i)) < nat (d - sp_clock env i)"
      using wait by (simp add: pause_def)
    from less [OF this] obtain r where r: "wait_rounds env d (Suc i) = Some r"
      "r = None \<longleftrightarrow> (\<exists>j\<ge>Suc i. sp_clock env j < d \<and> sp_ready env j \<and> idle env (Suc i) j)"
      by blast
    have "(\<exists>j\<ge>i. sp_clock env j < d \<and> sp_ready env j \<and> idle env i j) \<longleftrightarrow>
        (\<exists>j\<ge>Suc i. sp_clock env j < d \<and> sp_ready env j \<and> idle env (Suc i) j)"
      using wait(2,3) unfolding idle_def by (metis Suc_leD Suc_leI le_eq_less_or_eq)
    with r wait show ?thesis by (simp add: wait_rounds.simps [of env d i])
  qed
qed

section \<open>Properties\<close>

text \<open>C25. The wait for the control socket of charon always returns: when every round without socket or exit
  pauses for 200 milliseconds, the wait of 15 seconds succeeds exactly when the socket answers in one of the
  first 75 rounds, in time and before the process has exited, and ends with an error otherwise.\<close>

theorem waitForSocket_returns:
  assumes "pauses env"
  shows "\<exists>r. waitForSocket env (15 * second) = Some r \<and>
    (r = None \<longleftrightarrow> (\<exists>j<75. sp_clock env j < sp_begin env + 15 * second \<and> sp_ready env j \<and>
       (\<forall>k<j. \<not> sp_ready env k \<and> \<not> sp_exited env k)))"
proof -
  let ?d = "sp_begin env + 15 * second"
  have "j < 75" if "sp_clock env j < ?d" "idle env 0 j" for j
    using idle_clock [OF assms _ that(2)] that(1) assms by (simp add: pauses_def pause_def)
  then show ?thesis
    using wait_rounds_result [OF assms, of ?d 0] unfolding waitForSocket_def idle_def by fastforce
qed

definition lab_spawn :: SpawnEnv where
  "lab_spawn = \<lparr>sp_exists = (\<lambda>_. True), sp_Start = Inr 7, sp_begin = 0, sp_clock = (\<lambda>i. int i * second),
     sp_ready = (\<lambda>i. i = 2), sp_exited = (\<lambda>_. False)\<rparr>"

lemma lab_pauses: "pauses lab_spawn"
  by (simp add: pauses_def lab_spawn_def pause_def)

theorem waitForSocket_returns_witness: "pauses lab_spawn \<and> waitForSocket lab_spawn (15 * second) = Some None"
proof -
  obtain r where r: "waitForSocket lab_spawn (15 * second) = Some r"
    "r = None \<longleftrightarrow> (\<exists>j<75. sp_clock lab_spawn j < sp_begin lab_spawn + 15 * second \<and> sp_ready lab_spawn j \<and>
       (\<forall>k<j. \<not> sp_ready lab_spawn k \<and> \<not> sp_exited lab_spawn k))"
    using waitForSocket_returns [OF lab_pauses] by blast
  have "r = None" unfolding r(2) by (rule exI [of _ 2]) (simp add: lab_spawn_def)
  with r(1) lab_pauses show ?thesis by simp
qed

text \<open>C24. As long as no restart has failed, the shared daemon counts exactly the IKEv2 and L2TP cores that run,
  and charon is up exactly when one of them does.\<close>

theorem charon_refcount:
  assumes "ipsec_run True (m, cs)"
  shows "mr_refs m = holders cs \<and> (mr_process m \<noteq> None \<longleftrightarrow> (\<exists>c\<in>set cs. co_running c)) \<and>
    (Running m \<longleftrightarrow> (\<exists>c\<in>set cs. co_running c))"
proof -
  have "refs_ok (holders cs) m" using run_inv [OF assms] by (simp add: node_inv_def)
  moreover have "0 < holders cs \<longleftrightarrow> (\<exists>c\<in>set cs. co_running c)"
    by (auto simp: holders_def filter_empty_conv)
  ultimately show ?thesis by (auto simp: refs_ok_def Running_def)
qed

definition lab_begin :: "string option \<Rightarrow> StartEnv" where
  "lab_begin cert = \<lparr>se_cert = cert, se_config = None, se_spawn = lab_spawn, se_swanctl = None,
     se_load = (None, []), se_xl2tpd = None\<rparr>"

lemma lab_wait: "waitForSocket lab_spawn (15 * second) = Some None"
  by (simp add: waitForSocket_def wait_rounds.simps lab_spawn_def)

lemma lab_acquire: "acquire lab_spawn shared0 = Some (None, \<lparr>mr_refs = 1, mr_process = Some 7, mr_killed = []\<rparr>)"
proof -
  have "startLocked lab_spawn shared0 = Some (None, shared0\<lparr>mr_process := Some 7\<rparr>)"
    unfolding startLocked_def lab_wait by (simp add: lab_spawn_def)
  moreover have "CheckDeps (sp_exists lab_spawn) = None"
    by (simp add: CheckDeps_def lab_spawn_def)
  ultimately show ?thesis by (simp add: acquire_def shared0_def)
qed

lemma lab_begin_env [simp]:
  "se_spawn (lab_begin x) = lab_spawn" "se_cert (lab_begin x) = x" "se_config (lab_begin x) = None"
  "ikev2_reload (lab_begin x) = None" "se_load (lab_begin x) = (None, [])" "se_xl2tpd (lab_begin x) = None"
  by (simp_all add: lab_begin_def ikev2_reload_def loadAll_def)

lemma lab_first: "any_start (lab_begin None) shared0 (new_core IKEv2Core) =
    Some (None, \<lparr>mr_refs = 1, mr_process = Some 7, mr_killed = []\<rparr>, (new_core IKEv2Core)\<lparr>co_running := True\<rparr>)"
  by (simp add: start_defs new_core_def lab_acquire)

lemma lab_second: "any_start (lab_begin None) \<lparr>mr_refs = 1, mr_process = Some 7, mr_killed = []\<rparr> (new_core L2TPCore) =
    Some (None, \<lparr>mr_refs = 2, mr_process = Some 7, mr_killed = []\<rparr>,
      (new_core L2TPCore)\<lparr>co_running := True, co_daemon := True\<rparr>)"
  by (simp add: start_defs acquire_def new_core_def loadAll_def)

lemma lab_run: "ipsec_run True (\<lparr>mr_refs = 2, mr_process = Some 7, mr_killed = []\<rparr>,
    [(new_core IKEv2Core)\<lparr>co_running := True\<rparr>, (new_core L2TPCore)\<lparr>co_running := True, co_daemon := True\<rparr>])"
  using ipsec_run.create [OF ipsec_run.create [OF ipsec_run.start lab_first] lab_second] by simp

theorem charon_refcount_witness:
  "Running \<lparr>mr_refs = 2, mr_process = Some 7, mr_killed = []\<rparr> \<and>
   mr_refs \<lparr>mr_refs = 2, mr_process = Some 7, mr_killed = []\<rparr> =
     holders [(new_core IKEv2Core)\<lparr>co_running := True\<rparr>, (new_core L2TPCore)\<lparr>co_running := True, co_daemon := True\<rparr>]"
  using charon_refcount [OF lab_run] by simp

text \<open>A restart that fails arms the shut-down of its core once more although the core holds no reference.
  With two running cores, restarting one of them without success and shutting it down afterwards kills charon
  under the other core, which still runs.\<close>

theorem failed_restart_kills_charon:
  assumes "ipsec_run True (m, cs)" and "i < length cs" and "co_running (cs ! i)" and "holders cs = 2"
    and "any_Restart env m (cs ! i) = Some (Some e, m1, c1)" and "any_Shutdown (m1, c1) = (m2, c2)"
  shows "mr_process m2 = None \<and> mr_refs m2 = 0 \<and> holders (cs[i := c2]) = 1 \<and>
    mr_killed m2 = mr_killed m @ [the (mr_process m)]"
proof -
  have inv: "node_inv (m, cs)" using run_inv [OF assms(1)] by simp
  have m: "mr_refs m = 2" "mr_process m \<noteq> None" using inv assms(4) by (auto simp: node_inv_def refs_ok_def)
  obtain m0 c0 where sd: "any_Shutdown (m, cs ! i) = (m0, c0)" by (cases "any_Shutdown (m, cs ! i)")
  have st: "any_start env m0 (c0\<lparr>co_once := False\<rparr>) = Some (Some e, m1, c1)"
    using assms(5) by (simp add: restart_split sd)
  have once: "\<not> co_once (cs ! i)" using inv assms(2,3) by (auto simp: node_inv_def)
  then have m0: "m0 = m\<lparr>mr_refs := 1\<rparr>"
    using shutdown_result [OF sd] m by (simp add: release_def Let_def)
  have c1: "c1 = c0\<lparr>co_once := False\<rparr>" using start_core [OF st] by simp
  have "m1 = m0"
    using st unfolding m0
    by (auto simp: start_defs acquire_def release_def Let_def split: core_kind.splits option.splits)
  then have m2: "m2 = release (m\<lparr>mr_refs := 1\<rparr>)" and c2: "\<not> co_running c2"
    using shutdown_result [OF assms(6)] c1 m0 by simp_all
  then show ?thesis
    using m holders_update [OF assms(2), of c2] assms(3,4) by (auto simp: release_def Let_def)
qed

theorem failed_restart_kills_charon_witness:
  "mr_process (fst (any_Shutdown (\<lparr>mr_refs = 1, mr_process = Some 7, mr_killed = []\<rparr>, new_core IKEv2Core))) = None"
proof -
  let ?m = "\<lparr>mr_refs = 2, mr_process = Some 7, mr_killed = []\<rparr> :: manager"
  let ?cs = "[(new_core IKEv2Core)\<lparr>co_running := True\<rparr>, (new_core L2TPCore)\<lparr>co_running := True, co_daemon := True\<rparr>]"
  have r: "any_Restart (lab_begin (Some ''expired'')) ?m (?cs ! 0) =
      Some (Some (''ikev2 certificate: '' @ ''expired''), ?m\<lparr>mr_refs := 1\<rparr>, new_core IKEv2Core)"
    by (simp add: restart_split any_Shutdown_def ikev2_Shutdown_def start_defs new_core_def release_def Let_def)
  have "holders ?cs = 2" by (simp add: holders_def new_core_def)
  then show ?thesis
    using failed_restart_kills_charon [OF lab_run, of 0 "lab_begin (Some ''expired'')", OF _ _ _ r prod.collapse [symmetric]]
    by (simp add: new_core_def)
qed

end
