(* ===== verification/Ikev2.thy ===== *)
theory Ikev2
  imports Ppp Ipsec
begin

text \<open>
  The IKEv2 back end, \<open>backend/ikev2\<close>: the configuration (\<open>config.go\<close>), the files for swanctl (\<open>serverconf.go\<close>), the
  messages of charon's VICI interface (\<open>vici.go\<close>), the accounting poll and the statistics (\<open>stats.go\<close>), the device
  limit (\<open>devicelimit.go\<close>), the shaped clients (\<open>shaped.go\<close>) and the synchronisation of users with the revocation
  of those that are gone (\<open>ikev2.go\<close>). The store of users is in \<open>CredStore\<close>, the life cycle in \<open>Ipsec\<close>. What charon
  answers to \<open>list-sas\<close> and to \<open>swanctl --load-all\<close> is an argument; the requests that are sent to it are results.
\<close>

section \<open>Configuration\<close>

record IkConfig =
  kc_InboundTag :: string
  kc_ServerAddr :: string
  kc_Identity :: string
  kc_Pool :: string
  kc_EgressInterface :: string
  kc_DNS :: "string list"
  kc_IKEProposals :: "string list"
  kc_ESPProposals :: "string list"
  kc_CACert :: string
  kc_ServerCert :: string
  kc_ServerKey :: string

definition k2_NewConfig :: "(string \<Rightarrow> string + IkConfig) \<Rightarrow> string \<Rightarrow> string + IkConfig" where
  "k2_NewConfig decode configStr =
    (if trim_space configStr = [] then Inl ''ikev2 config string must not be empty''
     else case decode configStr of
       Inl e \<Rightarrow> Inl (''failed to parse ikev2 config: '' @ e)
     | Inr c \<Rightarrow>
         if kc_InboundTag c = [] then Inl ''inbound_tag is required''
         else if kc_ServerAddr c = [] then Inl ''server_addr is required''
         else if kc_Pool c = [] then Inl ''pool is required''
         else if kc_CACert c = [] \<or> kc_ServerCert c = [] \<or> kc_ServerKey c = []
         then Inl ''ca_cert, server_cert and server_key are required''
         else Inr (c\<lparr>kc_Identity := (if kc_Identity c = [] then kc_ServerAddr c else kc_Identity c),
                     kc_DNS := (if kc_DNS c = [] then [''1.1.1.1'', ''8.8.8.8''] else kc_DNS c),
                     kc_IKEProposals := (if kc_IKEProposals c = []
                       then [''aes256-sha256-modp2048'', ''aes128-sha256-modp2048''] else kc_IKEProposals c),
                     kc_ESPProposals := (if kc_ESPProposals c = []
                       then [''aes256-sha256'', ''aes128-sha256''] else kc_ESPProposals c)\<rparr>))"

section \<open>Messages of charon\<close>

text \<open>
  A message of the VICI library is the list of its keys with their values; a value is a string, a list of
  strings or a message.
\<close>

datatype ViciVal = ViciStr string | ViciList "string list" | ViciMsg "(string \<times> ViciVal) list"

type_synonym ViciMessage = "(string \<times> ViciVal) list"

definition vici_Keys :: "ViciMessage \<Rightarrow> string list" where
  "vici_Keys m = map fst m"

definition vici_Get :: "ViciMessage \<Rightarrow> string \<Rightarrow> ViciVal option" where
  "vici_Get m key = map_of m key"

definition msgString :: "ViciMessage \<Rightarrow> string \<Rightarrow> string" where
  "msgString m key = (case vici_Get m key of Some (ViciStr v) \<Rightarrow> v | _ \<Rightarrow> [])"

definition msgStringList :: "ViciMessage \<Rightarrow> string \<Rightarrow> string list" where
  "msgStringList m key =
    (case vici_Get m key of
       Some (ViciList v) \<Rightarrow> v
     | Some (ViciStr v) \<Rightarrow> if v = [] then [] else [v]
     | _ \<Rightarrow> [])"

text \<open>
  The integer that \<open>fmt.Sscan\<close> reads into an \<open>int64\<close>: white space is skipped, a sign and a base prefix are accepted
  (a leading zero means octal), the token ends before the first character that is no digit of the base, and
  underscores may separate digits. An error leaves the variable at zero.
\<close>

definition scan_base :: "string \<Rightarrow> nat \<times> string \<times> bool" where
  "scan_base s =
    (case s of
       z # c # cs \<Rightarrow>
         if z \<noteq> CHR ''0'' then (10, s, False)
         else if c \<in> {CHR ''b'', CHR ''B''} then (2, cs, True)
         else if c \<in> {CHR ''o'', CHR ''O''} then (8, cs, True)
         else if c \<in> {CHR ''x'', CHR ''X''} then (16, cs, True)
         else (8, c # cs, True)
     | [z] \<Rightarrow> if z = CHR ''0'' then (8, [], True) else (10, s, False)
     | [] \<Rightarrow> (10, s, False))"

definition is_digit :: "nat \<Rightarrow> char \<Rightarrow> bool" where
  "is_digit base c \<longleftrightarrow> c = CHR ''_'' \<or> (case digit_val c of None \<Rightarrow> False | Some d \<Rightarrow> d < base)"

text \<open>Underscores stand between digits; \<open>prev\<close> tells that the character before is a digit or the prefix.\<close>

fun underscores_ok :: "bool \<Rightarrow> string \<Rightarrow> bool" where
  "underscores_ok prev [] = True"
| "underscores_ok prev (c # cs) =
    (if c = CHR ''_'' then prev \<and> cs \<noteq> [] \<and> underscores_ok False cs else underscores_ok True cs)"

definition parseInt64 :: "string \<Rightarrow> int" where
  "parseInt64 str =
    (let s = dropWhile is_space str;
         neg = (s \<noteq> [] \<and> hd s = CHR ''-'');
         s1 = (if s \<noteq> [] \<and> hd s \<in> {CHR ''-'', CHR ''+''} then tl s else s)
     in case scan_base s1 of (base, s2, prefixed) \<Rightarrow>
       let tok = takeWhile (is_digit base) s2
       in if (tok = [] \<and> \<not> prefixed) \<or> \<not> underscores_ok prefixed tok then 0
          else case digits_val base 0 (filter (\<lambda>c. c \<noteq> CHR ''_'') tok) of
                 None \<Rightarrow> 0
               | Some n \<Rightarrow>
                   if neg then (if n > 2 ^ 63 then 0 else - int n)
                   else (if n \<ge> 2 ^ 63 then 0 else int n))"

section \<open>Security associations\<close>

record saInfo =
  sa_IKEID :: u32
  sa_Identity :: string
  sa_Remote :: string
  sa_VirtualIPs :: "string list"
  sa_BytesIn :: int
  sa_BytesOut :: int

definition add_child :: "ViciMessage \<Rightarrow> string \<Rightarrow> int \<times> int \<Rightarrow> int \<times> int" where
  "add_child childs ck acc =
    (case (vici_Get childs ck, acc) of
       (Some (ViciMsg cm), (bin, bout)) \<Rightarrow>
         (i64 (bin + parseInt64 (msgString cm ''bytes-in'')), i64 (bout + parseInt64 (msgString cm ''bytes-out'')))
     | _ \<Rightarrow> acc)"

definition child_bytes :: "ViciMessage \<Rightarrow> int \<times> int" where
  "child_bytes ike =
    (case vici_Get ike ''child-sas'' of
       Some (ViciMsg childs) \<Rightarrow> fold (add_child childs) (vici_Keys childs) (0, 0)
     | _ \<Rightarrow> (0, 0))"

definition sa_info :: "ViciMessage \<Rightarrow> saInfo" where
  "sa_info ike =
    (let identity = msgString ike ''remote-eap-id''
     in \<lparr>sa_IKEID = of_int (parseInt64 (msgString ike ''uniqueid'')),
         sa_Identity = (if identity = [] then msgString ike ''remote-id'' else identity),
         sa_Remote = msgString ike ''remote-host'',
         sa_VirtualIPs = msgStringList ike ''remote-vips'',
         sa_BytesIn = fst (child_bytes ike), sa_BytesOut = snd (child_bytes ike)\<rparr>)"

definition message_sas :: "ViciMessage \<Rightarrow> saInfo list" where
  "message_sas m =
    List.map_filter (\<lambda>connName.
      case vici_Get m connName of
        Some (ViciMsg ike) \<Rightarrow> (let info = sa_info ike in if sa_Identity info = [] then None else Some info)
      | _ \<Rightarrow> None) (vici_Keys m)"

definition listSAs :: "string + ViciMessage list \<Rightarrow> string + saInfo list" where
  "listSAs answer =
    (case answer of
       Inl e \<Rightarrow> Inl e
     | Inr messages \<Rightarrow> Inr (concat (map message_sas messages)))"

section \<open>The files for swanctl\<close>

definition swanctlDir :: string where
  "swanctlDir = ''/etc/swanctl''"

definition certFileName :: "IkConfig \<Rightarrow> string" where
  "certFileName c = ''pg-'' @ kc_InboundTag c @ ''.pem''"

definition confFileName :: "IkConfig \<Rightarrow> string" where
  "confFileName c = ''pg-'' @ kc_InboundTag c @ ''.conf''"

text \<open>The state of the loop over the lines: the certificates that are complete and the lines of the current one.\<close>

definition pem_line :: "string \<Rightarrow> string list \<times> string \<Rightarrow> string list \<times> string" where
  "pem_line line acc =
    (case acc of (out, cur) \<Rightarrow>
      if trim_space line = [] \<and> cur = [] then acc
      else let cur' = cur @ line @ [nl]
           in if str_contains line ''END CERTIFICATE'' then (out @ [trim_space cur'], []) else (out, cur'))"

definition splitPEMCerts :: "string \<Rightarrow> string list" where
  "splitPEMCerts pemData = fst (fold pem_line (split_at_char nl pemData) ([], []))"

definition eapSecretID :: "string \<Rightarrow> string" where
  "eapSecretID username = ''eap-'' @ username"

text \<open>One section of the secrets, and the whole text; \<open>order\<close> is the order of the loop over the users.\<close>

definition secret_section :: "string \<Rightarrow> string \<Rightarrow> string list" where
  "secret_section username password =
    [''    eap-'' @ username @ '' {'', ''        id = '' @ username, ''        secret = '' @ go_quote password, ''    }'']"

definition connection_lines :: "IkConfig \<Rightarrow> string list" where
  "connection_lines c =
    [''connections {'', ''    '' @ kc_InboundTag c @ '' {'', ''        version = 2'',
     ''        proposals = '' @ str_join '','' (kc_IKEProposals c), ''        rekey_time = 4h'', ''        encap = yes'',
     ''        dpd_delay = 30s'', ''        fragmentation = yes'', ''        pools = '' @ kc_InboundTag c @ ''-pool'',
     ''        send_cert = always'', ''        local {'', ''            auth = pubkey'',
     ''            certs = '' @ certFileName c, ''            id = '' @ kc_Identity c, ''        }'', ''        remote {'',
     ''            auth = eap-mschapv2'', ''            eap_id = %any'', ''        }'', ''        children {'',
     ''            '' @ kc_InboundTag c @ '' {'',
     ''                esp_proposals = '' @ str_join '','' (kc_ESPProposals c),
     ''                local_ts = 0.0.0.0/0,::/0'', ''                rekey_time = 1h'',
     ''                dpd_action = clear'', ''            }'', ''        }'', ''    }'', ''}'', []]"

definition pool_lines :: "IkConfig \<Rightarrow> string list" where
  "pool_lines c =
    [''pools {'', ''    '' @ kc_InboundTag c @ ''-pool {'', ''        addrs = '' @ kc_Pool c] @
    (let dns = str_join '','' (kc_DNS c) in if dns = [] then [] else [''        dns = '' @ dns]) @
    [''    }'', ''}'', []]"

definition swanctl_text :: "string list \<Rightarrow> IkConfig \<Rightarrow> userStore \<Rightarrow> string" where
  "swanctl_text order c users =
    concat (map (\<lambda>l. l @ [nl])
      (connection_lines c @ pool_lines c @ [''secrets {''] @
       concat (map (\<lambda>username. case store_snapshot order users username of
                      None \<Rightarrow> []
                    | Some entry \<Rightarrow> secret_section username (ue_password entry)) order) @ [''}'']))"

text \<open>
  The file system: the result of \<open>MkdirAll\<close>, the old certificates that the glob finds, what writing a file does
  to it, and the order of the loop over the files.
\<close>

record IkDisk =
  dk_mkdir :: "string \<Rightarrow> string option"
  dk_glob :: "string list"
  dk_write :: "string \<Rightarrow> string option \<Rightarrow> string \<Rightarrow> string option \<times> string option"
  dk_join :: "string list \<Rightarrow> string"
  dk_order :: "string list"
  dk_users :: "string list"

type_synonym disk = "string \<rightharpoonup> string"

definition write_file :: "IkDisk \<Rightarrow> string \<Rightarrow> string \<Rightarrow> disk \<Rightarrow> string option \<times> disk" where
  "write_file dk path content fs = (case dk_write dk path (fs path) content of (e, f) \<Rightarrow> (e, fs(path := f)))"

definition conf_path :: "IkDisk \<Rightarrow> IkConfig \<Rightarrow> string" where
  "conf_path dk c = dk_join dk [swanctlDir, ''conf.d'', confFileName c]"

definition writeSwanctl :: "IkDisk \<Rightarrow> IkConfig \<Rightarrow> userStore \<Rightarrow> disk \<Rightarrow> string option \<times> disk" where
  "writeSwanctl dk c users fs = write_file dk (conf_path dk c) (swanctl_text (dk_users dk) c users) fs"

definition ca_file :: "IkDisk \<Rightarrow> IkConfig \<Rightarrow> nat \<Rightarrow> string" where
  "ca_file dk c i = dk_join dk [swanctlDir, ''x509ca'', ''pg-'' @ kc_InboundTag c @ ''-ca-'' @ show_dec i @ ''.pem'']"

definition swanctl_files :: "IkDisk \<Rightarrow> IkConfig \<Rightarrow> disk" where
  "swanctl_files dk c =
    fold (\<lambda>(i, cert) m. m(ca_file dk c i \<mapsto> cert)) (enumerate 0 (splitPEMCerts (kc_CACert c)))
      [dk_join dk [swanctlDir, ''x509'', certFileName c] \<mapsto> kc_ServerCert c,
       dk_join dk [swanctlDir, ''private'', ''pg-'' @ kc_InboundTag c @ ''.key''] \<mapsto> kc_ServerKey c]"

fun write_all :: "IkDisk \<Rightarrow> disk \<Rightarrow> string list \<Rightarrow> disk \<Rightarrow> string option \<times> disk" where
  "write_all dk files [] fs = (None, fs)"
| "write_all dk files (path # paths) fs =
    (case write_file dk path (map_get [] files path) fs of
       (Some e, fs') \<Rightarrow> (Some e, fs')
     | (None, fs') \<Rightarrow> write_all dk files paths fs')"

definition k2_writeConfig :: "IkDisk \<Rightarrow> IkConfig \<Rightarrow> userStore \<Rightarrow> disk \<Rightarrow> string option \<times> disk" where
  "k2_writeConfig dk c users fs =
    (case List.find (\<lambda>d. dk_mkdir dk (dk_join dk [swanctlDir, d]) \<noteq> None) [''conf.d'', ''x509'', ''x509ca'', ''private''] of
       Some d \<Rightarrow> (dk_mkdir dk (dk_join dk [swanctlDir, d]), fs)
     | None \<Rightarrow>
         (case write_all dk (swanctl_files dk c) (dk_order dk) (fold map_delete (dk_glob dk) fs) of
            (Some e, fs1) \<Rightarrow> (Some e, fs1)
          | (None, fs1) \<Rightarrow> writeSwanctl dk c users fs1))"

section \<open>State\<close>

record IKEv2 =
  k2_config :: IkConfig
  k2_users :: userStore
  k2_statsTracker :: Tracker
  k2_interfaceStats :: InterfaceCountersTracker
  k2_totalRx :: int
  k2_totalTx :: int
  k2_saSeen :: "u32 \<rightharpoonup> int \<times> int"
  k2_cumRx :: "string \<rightharpoonup> int"
  k2_cumTx :: "string \<rightharpoonup> int"
  k2_onlineIPs :: "string \<rightharpoonup> (string \<rightharpoonup> int)"
  k2_core :: IpsecCore
  k2_files :: disk

definition new_IKEv2 :: "IkConfig \<Rightarrow> UserPtr list \<Rightarrow> disk \<Rightarrow> IKEv2" where
  "new_IKEv2 c users fs =
    \<lparr>k2_config = c, k2_users = snd (ikev2_replaceAll [] users (newUserStore (kc_InboundTag c))),
     k2_statsTracker = new_Tracker, k2_interfaceStats = NewInterfaceCountersTracker, k2_totalRx = 0, k2_totalTx = 0,
     k2_saSeen = Map.empty, k2_cumRx = Map.empty, k2_cumTx = Map.empty, k2_onlineIPs = Map.empty,
     k2_core = new_core IKEv2Core, k2_files = fs\<rparr>"

section \<open>The poll\<close>

definition add_sa :: "saInfo \<Rightarrow> (string \<rightharpoonup> saInfo list) \<Rightarrow> (string \<rightharpoonup> saInfo list)" where
  "add_sa sa m = m(sa_Identity sa \<mapsto> map_get [] m (sa_Identity sa) @ [sa])"

definition group_sas :: "saInfo list \<Rightarrow> (string \<rightharpoonup> saInfo list)" where
  "group_sas sas = fold add_sa sas Map.empty"

type_synonym sa_growth = "(u32 \<rightharpoonup> int \<times> int) \<times> (string \<rightharpoonup> int) \<times> (string \<rightharpoonup> int)"

definition count_sa :: "saInfo \<Rightarrow> sa_growth \<Rightarrow> sa_growth" where
  "count_sa sa st =
    (case st of (seen, growthRx, growthTx) \<Rightarrow>
      let prev = map_get (0, 0) seen (sa_IKEID sa);
          dRx = counter_growth (sa_BytesIn sa) (fst prev);
          dTx = counter_growth (sa_BytesOut sa) (snd prev)
      in (seen(sa_IKEID sa \<mapsto> (sa_BytesIn sa, sa_BytesOut sa)),
          add_growth (sa_Identity sa) dRx growthRx, add_growth (sa_Identity sa) dTx growthTx))"

definition forget_sas :: "saInfo list \<Rightarrow> (u32 \<rightharpoonup> int \<times> int) \<Rightarrow> (u32 \<rightharpoonup> int \<times> int)" where
  "forget_sas sas seen = (\<lambda>i. if i \<in> set (map sa_IKEID sas) then seen i else None)"

definition note_remote :: "gotime \<Rightarrow> saInfo \<Rightarrow> (string \<rightharpoonup> int) \<Rightarrow> (string \<rightharpoonup> int)" where
  "note_remote now sa ips = (if sa_Remote sa = [] then ips else ips(sa_Remote sa \<mapsto> unix_time now))"

text \<open>
  The orders of the two loops over the identities, and the clock, read once by the poll and once by the tracker.
\<close>

record IkPollEnv =
  ie_order1 :: "string list"
  ie_order2 :: "string list"
  ie_now1 :: gotime
  ie_now2 :: gotime

definition poll_identity :: "gotime \<Rightarrow> (string \<rightharpoonup> saInfo list) \<Rightarrow> (string \<rightharpoonup> int) \<Rightarrow> (string \<rightharpoonup> int) \<Rightarrow>
    string \<Rightarrow> IKEv2 \<times> (string \<rightharpoonup> (string \<rightharpoonup> int)) \<times> Sample list \<Rightarrow>
    IKEv2 \<times> (string \<rightharpoonup> (string \<rightharpoonup> int)) \<times> Sample list" where
  "poll_identity now perIdentity growthRx growthTx identity acc =
    (case acc of (o1, onlineIPs, samples) \<Rightarrow>
      let saList = map_get [] perIdentity identity;
          gRx = map_get 0 growthRx identity;
          gTx = map_get 0 growthTx identity;
          o2 = o1\<lparr>k2_cumRx := add_growth identity gRx (k2_cumRx o1),
                  k2_cumTx := add_growth identity gTx (k2_cumTx o1),
                  k2_totalRx := i64 (k2_totalRx o1 + gRx),
                  k2_totalTx := i64 (k2_totalTx o1 + gTx)\<rparr>;
          endpoint = (case saList of [] \<Rightarrow> [] | sa # _ \<Rightarrow> sa_Remote sa);
          ips = fold (note_remote now) saList Map.empty
      in (o2, onlineIPs(identity \<mapsto> ips),
          samples @ [\<lparr>sm_PublicKey = identity, sm_Email = identity, sm_Rx = map_get 0 (k2_cumRx o2) identity,
                      sm_Tx = map_get 0 (k2_cumTx o2) identity, sm_EndpointIP = endpoint\<rparr>]))"

text \<open>The client addresses of a list in the order of \<open>sort.Strings\<close>, and the associations beyond the first \<open>k\<close> of them.\<close>

definition client_ips :: "saInfo list \<Rightarrow> string list" where
  "client_ips saList = sort (remdups (map sa_Remote saList))"

definition by_ip :: "saInfo list \<Rightarrow> string \<Rightarrow> saInfo list" where
  "by_ip saList ip = filter (\<lambda>sa. sa_Remote sa = ip) saList"

definition evict_ips :: "nat \<Rightarrow> saInfo list \<Rightarrow> u32 list" where
  "evict_ips k saList = concat (map (\<lambda>ip. map sa_IKEID (by_ip saList ip)) (drop k (client_ips saList)))"

definition k2_enforce_identity :: "userStore \<Rightarrow> (string \<rightharpoonup> saInfo list) \<Rightarrow> string \<Rightarrow> u32 list" where
  "k2_enforce_identity users perIdentity identity =
    (let limit = limitFor users identity;
         saList = map_get [] perIdentity identity
     in if limit = 0 \<or> (of_nat (length (client_ips saList)) :: u32) \<le> limit then []
        else evict_ips (unat limit) saList)"

text \<open>The ids of the associations that are asked to terminate, in order.\<close>

definition k2_enforceDeviceLimits :: "string list \<Rightarrow> userStore \<Rightarrow> (string \<rightharpoonup> saInfo list) \<Rightarrow> u32 list" where
  "k2_enforceDeviceLimits order users perIdentity = concat (map (k2_enforce_identity users perIdentity) order)"

definition k2_poll :: "IkPollEnv \<Rightarrow> string + ViciMessage list \<Rightarrow> IKEv2 \<Rightarrow> u32 list \<times> IKEv2" where
  "k2_poll env answer st =
    (case listSAs answer of
       Inl _ \<Rightarrow> ([], st)
     | Inr sas \<Rightarrow>
         let perIdentity = group_sas sas;
             (seen, growthRx, growthTx) = fold count_sa sas (k2_saSeen st, Map.empty, Map.empty);
             st1 = st\<lparr>k2_saSeen := forget_sas sas seen\<rparr>;
             (st2, onlineIPs, samples) =
               fold (poll_identity (ie_now1 env) perIdentity growthRx growthTx) (ie_order1 env) (st1, Map.empty, []);
             st3 = st2\<lparr>k2_onlineIPs := onlineIPs\<rparr>;
             st4 = (if samples = [] then st3
                    else st3\<lparr>k2_statsTracker := UpdateStatsBatch samples (ie_now2 env) (k2_statsTracker st3)\<rparr>)
         in (k2_enforceDeviceLimits (ie_order2 env) (k2_users st4) perIdentity, st4))"

section \<open>Requests\<close>

definition k2_GetStats :: "string list \<Rightarrow> StatRequest \<Rightarrow> IKEv2 \<Rightarrow> (string + Stat list) \<times> IKEv2" where
  "k2_GetStats order request st =
    (if \<not> co_running (k2_core st) then (Inl ''ikev2 not started'', st)
     else
       let outbound =
         (case Delta (k2_totalRx st) (k2_totalTx st) (sr_Reset request) (k2_interfaceStats st) of
            ((dRx, dTx), ic) \<Rightarrow>
              (Inr (BuildInterfaceStats (kc_InboundTag (k2_config st)) ''outbound'' dRx dTx),
               st\<lparr>k2_interfaceStats := ic\<rparr>))
       in case sr_Type request of
            UserStat \<Rightarrow>
              (case Tracker_GetStats [sr_Name request] (sr_Reset request) (k2_statsTracker st) of
                 (t, out) \<Rightarrow> (Inr out, st\<lparr>k2_statsTracker := t\<rparr>))
          | UsersStat \<Rightarrow>
              (case GetUsersStats order (sr_Reset request) (k2_statsTracker st) of
                 (t, out) \<Rightarrow> (Inr out, st\<lparr>k2_statsTracker := t\<rparr>))
          | Outbound \<Rightarrow> outbound
          | Outbounds \<Rightarrow> outbound
          | _ \<Rightarrow> (Inl ''unsupported stat type for ikev2'', st))"

definition k2_GetUserOnlineStats :: "gotime \<Rightarrow> string \<Rightarrow> IKEv2 \<Rightarrow> string + OnlineStatResponse" where
  "k2_GetUserOnlineStats now email st =
    (if \<not> co_running (k2_core st) then Inl ''ikev2 not started''
     else Inr \<lparr>on_Name = email,
               on_Value = (if AnyActiveSince [email] (now - 60 * second) (k2_statsTracker st) then 1 else 0)\<rparr>)"

definition k2_GetUserOnlineIpListStats :: "string \<Rightarrow> IKEv2 \<Rightarrow> string + StatsOnlineIpListResponse" where
  "k2_GetUserOnlineIpListStats email st =
    (if \<not> co_running (k2_core st) then Inl ''ikev2 not started''
     else Inr \<lparr>oi_Name = email, oi_Ips = map_get Map.empty (k2_onlineIPs st) email, oi_IpProtocol = Map.empty\<rparr>)"

section \<open>Device limits across protocols and shaping\<close>

definition k2_OnlineDeviceCounts :: "IKEv2 \<Rightarrow> (string \<rightharpoonup> nat)" where
  "k2_OnlineDeviceCounts st =
    (\<lambda>user. case k2_onlineIPs st user of
              None \<Rightarrow> None
            | Some ips \<Rightarrow> if map_len ips > 0 then Some (map_len ips) else None)"

definition k2_UserLimit :: "IKEv2 \<Rightarrow> string \<Rightarrow> u32 \<times> bool" where
  "k2_UserLimit st user = limitKnown (k2_users st) user"

definition keep_sas :: "saInfo list \<Rightarrow> string \<Rightarrow> int \<Rightarrow> u32 list" where
  "keep_sas sas user keep =
    (let keep = (if keep < 0 then 0 else keep);
         saList = filter (\<lambda>sa. sa_Identity sa = user) sas
     in if int (length (client_ips saList)) \<le> keep then [] else evict_ips (nat keep) saList)"

definition k2_KeepDevices :: "string + ViciMessage list \<Rightarrow> string \<Rightarrow> int \<Rightarrow> u32 list" where
  "k2_KeepDevices answer user keep =
    (case listSAs answer of Inl _ \<Rightarrow> [] | Inr sas \<Rightarrow> keep_sas sas user keep)"

definition k2_ShapedClients :: "string + ViciMessage list \<Rightarrow> userStore \<Rightarrow> Client list" where
  "k2_ShapedClients answer users =
    (case listSAs answer of
       Inl _ \<Rightarrow> []
     | Inr sas \<Rightarrow>
         concat (map (\<lambda>sa.
           let limit = speedLimitFor users (sa_Identity sa)
           in if limit = 0 then []
              else map (\<lambda>vip. \<lparr>cl_User = sa_Identity sa, cl_Address = vip, cl_LimitKbps = limit\<rparr>)
                     (filter (\<lambda>vip. vip \<noteq> []) (sa_VirtualIPs sa))) sas))"

section \<open>User synchronisation\<close>

text \<open>Requests to charon: unloading a secret and terminating an association.\<close>

datatype ViciCall = UnloadShared string | TerminateIKE u32

text \<open>\<open>order\<close> is the order of the loop over the set of the users that are gone.\<close>

definition revokeUsers :: "string list \<Rightarrow> string list \<Rightarrow> string + ViciMessage list \<Rightarrow> ViciCall list" where
  "revokeUsers order usernames answer =
    (let gone = set (filter (\<lambda>u. u \<noteq> []) usernames)
     in if gone = {} then []
        else map (\<lambda>u. UnloadShared (eapSecretID u)) order @
             (case listSAs answer of
                Inl _ \<Rightarrow> []
              | Inr sas \<Rightarrow> map (\<lambda>sa. TerminateIKE (sa_IKEID sa)) (filter (\<lambda>sa. sa_Identity sa \<in> gone) sas)))"

text \<open>
  What a synchronisation meets: the file system, the result of \<open>swanctl --load-all\<close>, the answer of charon and the
  order of the loop over the set of the users to be revoked.
\<close>

record IkSyncEnv =
  is_disk :: IkDisk
  is_load :: "string option \<times> string"
  is_answer :: "string + ViciMessage list"
  is_gone :: "string set \<Rightarrow> string list"

definition k2_reload :: "IkSyncEnv \<Rightarrow> IKEv2 \<Rightarrow> string option \<times> IKEv2" where
  "k2_reload env st =
    (case writeSwanctl (is_disk env) (k2_config st) (k2_users st) (k2_files st) of
       (Some e, fs) \<Rightarrow> (Some e, st\<lparr>k2_files := fs\<rparr>)
     | (None, fs) \<Rightarrow> (loadAll (is_load env), st\<lparr>k2_files := fs\<rparr>))"

definition reload_and_revoke :: "IkSyncEnv \<Rightarrow> string list \<Rightarrow> IKEv2 \<Rightarrow> string option \<times> ViciCall list \<times> IKEv2" where
  "reload_and_revoke env removed st =
    (case k2_reload env st of (err, st') \<Rightarrow>
      (err, revokeUsers (is_gone env (set (filter (\<lambda>u. u \<noteq> []) removed))) removed (is_answer env), st'))"

definition apply_note :: "UserPtr \<Rightarrow> string list \<times> userStore \<Rightarrow> string list \<times> userStore" where
  "apply_note u acc =
    (case acc of (removed, s) \<Rightarrow>
      case ikev2_applyUser u s of
        ((username, _, wasRemoved), s') \<Rightarrow>
          (if wasRemoved \<and> username \<noteq> [] then removed @ [username] else removed, s'))"

definition k2_applyUsers :: "IkSyncEnv \<Rightarrow> UserPtr list \<Rightarrow> IKEv2 \<Rightarrow> string option \<times> ViciCall list \<times> IKEv2" where
  "k2_applyUsers env users st =
    (case fold apply_note users ([], k2_users st) of
       (removed, s) \<Rightarrow> reload_and_revoke env removed (st\<lparr>k2_users := s\<rparr>))"

definition k2_SyncUser :: "IkSyncEnv \<Rightarrow> UserPtr \<Rightarrow> IKEv2 \<Rightarrow> string option \<times> ViciCall list \<times> IKEv2" where
  "k2_SyncUser env user st = k2_applyUsers env [user] st"

definition k2_UpdateUsers :: "IkSyncEnv \<Rightarrow> UserPtr list \<Rightarrow> IKEv2 \<Rightarrow> string option \<times> ViciCall list \<times> IKEv2" where
  "k2_UpdateUsers env users st = k2_applyUsers env users st"

definition k2_SyncUsers :: "IkSyncEnv \<Rightarrow> string list \<Rightarrow> UserPtr list \<Rightarrow> IKEv2 \<Rightarrow> string option \<times> ViciCall list \<times> IKEv2" where
  "k2_SyncUsers env order users st =
    (case ikev2_replaceAll order users (k2_users st) of
       (removed, s) \<Rightarrow> reload_and_revoke env removed (st\<lparr>k2_users := s\<rparr>))"

section \<open>Start, shut-down and restart\<close>

text \<open>
  The life cycle of \<open>Ipsec\<close> with the files it writes. \<open>auto\<close> is the certificate set-up of \<open>autocert.go\<close>, which may
  replace the certificates of the configuration. The connection is written with the configuration and once more
  by \<open>reload\<close>, when the daemon is there.
\<close>

definition k2_start :: "(IkConfig \<Rightarrow> string + IkConfig) \<Rightarrow> IkDisk \<Rightarrow> StartEnv \<Rightarrow> manager \<Rightarrow> IKEv2 \<Rightarrow>
    (string option \<times> manager \<times> IKEv2) option" where
  "k2_start auto dk env m st =
    (case auto (k2_config st) of
       Inl e \<Rightarrow> Some (Some (''ikev2 certificate: '' @ e), m, st)
     | Inr c \<Rightarrow>
    (case k2_writeConfig dk c (k2_users st) (k2_files st) of (err1, fs1) \<Rightarrow>
    (case writeSwanctl dk c (k2_users st) fs1 of (err2, fs2) \<Rightarrow>
       let env' = env\<lparr>se_cert := None, se_config := err1, se_swanctl := err2\<rparr>;
           reached = (err1 = None \<and> (case acquire (se_spawn env) m of Some (None, _) \<Rightarrow> True | _ \<Rightarrow> False))
       in case ikev2_start env' m (k2_core st) of
            None \<Rightarrow> None
          | Some (r, m', co) \<Rightarrow>
              Some (r, m', st\<lparr>k2_config := c, k2_core := co, k2_files := (if reached then fs2 else fs1)\<rparr>))))"

definition k2_Shutdown :: "IkDisk \<Rightarrow> manager \<times> IKEv2 \<Rightarrow> manager \<times> IKEv2" where
  "k2_Shutdown dk st =
    (case st of (m, o0) \<Rightarrow>
      case ikev2_Shutdown (m, k2_core o0) of (m', co) \<Rightarrow>
        (m', o0\<lparr>k2_core := co,
                k2_files := (if co_once (k2_core o0) then k2_files o0
                             else map_delete (conf_path dk (k2_config o0)) (k2_files o0))\<rparr>))"

definition k2_Restart :: "(IkConfig \<Rightarrow> string + IkConfig) \<Rightarrow> IkDisk \<Rightarrow> StartEnv \<Rightarrow> manager \<Rightarrow> IKEv2 \<Rightarrow>
    (string option \<times> manager \<times> IKEv2) option" where
  "k2_Restart auto dk env m st =
    (case k2_Shutdown dk (m, st) of
       (m1, st1) \<Rightarrow> k2_start auto dk env m1 (st1\<lparr>k2_core := (k2_core st1)\<lparr>co_once := False\<rparr>\<rparr>))"

definition k2_UpdateUsersAndRestart :: "(IkConfig \<Rightarrow> string + IkConfig) \<Rightarrow> IkDisk \<Rightarrow> StartEnv \<Rightarrow> string list \<Rightarrow> UserPtr list \<Rightarrow>
    manager \<Rightarrow> IKEv2 \<Rightarrow> (string option \<times> manager \<times> IKEv2) option" where
  "k2_UpdateUsersAndRestart auto dk env order users m st =
    k2_Restart auto dk env m (st\<lparr>k2_users := snd (ikev2_replaceAll order users (k2_users st))\<rparr>)"

definition k2_New :: "(IkConfig \<Rightarrow> string + IkConfig) \<Rightarrow> IkDisk \<Rightarrow> StartEnv \<Rightarrow> IkConfig option \<Rightarrow> UserPtr list \<Rightarrow> disk \<Rightarrow>
    manager \<Rightarrow> (string + manager \<times> IKEv2) option" where
  "k2_New auto dk env conf users fs m =
    (case conf of
       None \<Rightarrow> Some (Inl ''ikev2 config must not be nil'')
     | Some c \<Rightarrow>
         (case k2_start auto dk env m (new_IKEv2 c users fs) of
            None \<Rightarrow> None
          | Some (Some e, _, _) \<Rightarrow> Some (Inl e)
          | Some (None, m', st) \<Rightarrow> Some (Inr (m', st))))"

end
