(* ===== verification/DeviceLimit.thy ===== *)
theory DeviceLimit
  imports PppCorrect
begin

text \<open>
  One device limit across all protocols of a node: \<open>backend/devicelimit.go\<close>. A limiter is what
  the interface \<open>DeviceLimiter\<close> reports; the result of a pass is the list of its \<open>KeepDevices\<close>
  calls. The locale \<open>device_limiter\<close> states what a back end promises about \<open>KeepDevices\<close>; it is
  interpreted on the L2TP and PPTP sessions.
\<close>

section \<open>The pass over the node\<close>

record Limiter =
  li_Protocol :: string
  li_counts :: "string \<rightharpoonup> int"
  li_limit :: "string \<Rightarrow> u32 \<times> bool"

definition deviceProtocolPriority :: "string \<rightharpoonup> int" where
  "deviceProtocolPriority =
    [''xray'' \<mapsto> 0, ''wireguard'' \<mapsto> 1, ''openvpn'' \<mapsto> 2, ''ikev2'' \<mapsto> 3, ''l2tp'' \<mapsto> 4]"

definition deviceProtoRank :: "string \<Rightarrow> int" where
  "deviceProtoRank p = (case deviceProtocolPriority p of Some r \<Rightarrow> r | None \<Rightarrow> 2 ^ 30)"

text \<open>The limit of the first back end in the order that knows the user.\<close>

fun user_limit :: "string \<Rightarrow> Limiter list \<Rightarrow> u32 option" where
  "user_limit user [] = None"
| "user_limit user (l # ls) =
    (case li_limit l user of (lim, ok) \<Rightarrow> if ok then Some lim else user_limit user ls)"

definition device_count :: "string \<Rightarrow> Limiter \<Rightarrow> int" where
  "device_count user l = map_get 0 (li_counts l) user"

text \<open>Handing out the budget: the calls for the limiters from position \<open>i\<close> on.\<close>

fun hand_out :: "nat \<Rightarrow> int \<Rightarrow> int list \<Rightarrow> (nat \<times> int) list" where
  "hand_out i remaining [] = []"
| "hand_out i remaining (c # cs) =
    (if c = 0 then hand_out (Suc i) remaining cs
     else let keep = (if c > remaining then remaining else c)
          in (if keep < c then [(i, keep)] else []) @ hand_out (Suc i) (remaining - keep) cs)"

definition enforce_user :: "Limiter list \<Rightarrow> string \<Rightarrow> (nat \<times> string \<times> int) list" where
  "enforce_user order user =
    (case user_limit user order of
       None \<Rightarrow> []
     | Some limit \<Rightarrow>
         if limit = 0 then []
         else let total = fold (\<lambda>l t. i64 (t + device_count user l)) order 0
              in if (of_int total :: u32) \<le> limit then []
                 else map (\<lambda>(i, keep). (i, user, keep)) (hand_out 0 (uint limit) (map (device_count user) order)))"

definition limiter_order :: "Limiter list \<Rightarrow> Limiter list" where
  "limiter_order limiters = sort_key (\<lambda>l. deviceProtoRank (li_Protocol l)) limiters"

definition online_users :: "Limiter list \<Rightarrow> string set" where
  "online_users order = {u. \<exists>l\<in>set order. \<exists>n>0. li_counts l u = Some n}"

text \<open>
  The result lists the calls \<open>order[i].KeepDevices(user, keep)\<close>; \<open>users\<close> is the order in which the
  loop visits the users that are online.
\<close>

definition EnforceGlobalDeviceLimits :: "string list \<Rightarrow> Limiter list \<Rightarrow> (nat \<times> string \<times> int) list" where
  "EnforceGlobalDeviceLimits users limiters =
    (if length limiters < 2 then []
     else concat (map (enforce_user (limiter_order limiters)) users))"

section \<open>Shares of the budget\<close>

text \<open>What the limiter at a position may keep when those before it are served first.\<close>

definition share :: "int \<Rightarrow> int list \<Rightarrow> nat \<Rightarrow> int" where
  "share budget cs i = min (cs ! i) (max 0 (budget - sum_list (take i cs)))"

lemma share_0: "0 \<le> budget \<Longrightarrow> share budget (c # cs) 0 = min c budget"
  by (simp add: share_def)

lemma share_Suc:
  assumes "0 \<le> c" "0 \<le> budget" "\<forall>x\<in>set cs. 0 \<le> x"
  shows "share budget (c # cs) (Suc i) = share (budget - min c budget) cs i"
proof -
  have "0 \<le> sum_list (take i cs)"
    using assms(3) by (intro sum_list_nonneg) (auto dest: in_set_takeD)
  with assms(1,2) show ?thesis by (simp add: share_def min_def max_def)
qed

definition short_shares :: "nat \<Rightarrow> int \<Rightarrow> int list \<Rightarrow> (nat \<times> int) list" where
  "short_shares k budget cs =
    map (\<lambda>i. (k + i, share budget cs i)) (filter (\<lambda>i. share budget cs i < cs ! i) [0..<length cs])"

lemma short_shares_Cons:
  assumes "0 \<le> c" "0 \<le> budget" "\<forall>x\<in>set cs. 0 \<le> x"
  shows "short_shares k budget (c # cs) =
    (if min c budget < c then [(k, min c budget)] else []) @ short_shares (Suc k) (budget - min c budget) cs"
proof -
  have "[0..<length (c # cs)] = 0 # map Suc [0..<length cs]"
    by (simp add: upt_conv_Cons map_Suc_upt del: upt_Suc)
  then show ?thesis
    by (simp add: short_shares_def share_0 share_Suc assms filter_map comp_def)
qed

lemma hand_out_shares:
  assumes "\<forall>c\<in>set cs. 0 \<le> c" "0 \<le> remaining"
  shows "hand_out k remaining cs = short_shares k remaining cs"
  using assms
proof (induction k remaining cs rule: hand_out.induct)
  case (1 i remaining)
  then show ?case by (simp add: short_shares_def)
next
  case (2 i remaining c cs)
  have m: "(if c > remaining then remaining else c) = min c remaining" by simp
  show ?case
  proof (cases "c = 0")
    case True
    then show ?thesis using 2 by (simp add: short_shares_Cons)
  next
    case False
    have "0 \<le> remaining - min c remaining" by simp
    with False 2 show ?thesis
      unfolding hand_out.simps Let_def m by (simp add: short_shares_Cons)
  qed
qed

lemma sum_shares:
  assumes "\<forall>c\<in>set cs. 0 \<le> c" "0 \<le> budget"
  shows "(\<Sum>i<length cs. share budget cs i) = min budget (sum_list cs)"
  using assms
proof (induction cs arbitrary: budget)
  case (Cons c cs)
  have "(\<Sum>i<length (c # cs). share budget (c # cs) i) =
      min c budget + (\<Sum>i<length cs. share (budget - min c budget) cs i)"
    unfolding length_Cons sum.lessThan_Suc_shift using Cons.prems by (simp add: share_0 share_Suc)
  also have "\<dots> = min c budget + min (budget - min c budget) (sum_list cs)"
    using Cons by simp
  also have "\<dots> = min budget (sum_list (c # cs))"
    using Cons.prems sum_list_nonneg [of cs] by (auto simp: min_def)
  finally show ?case .
qed simp

lemma fold_total:
  assumes "\<forall>l\<in>set ls. 0 \<le> device_count u l" "0 \<le> t" "t + (\<Sum>l\<leftarrow>ls. device_count u l) < 2 ^ 63"
  shows "fold (\<lambda>l t. i64 (t + device_count u l)) ls t = t + (\<Sum>l\<leftarrow>ls. device_count u l)"
  using assms
proof (induction ls arbitrary: t)
  case (Cons l ls)
  have "0 \<le> (\<Sum>l\<leftarrow>ls. device_count u l)"
    using Cons.prems by (intro sum_list_nonneg) auto
  with Cons.prems have "is_i64 (t + device_count u l)" by (simp add: is_i64_def)
  with Cons show ?case by simp
qed simp

definition counts_fit :: "string \<Rightarrow> Limiter list \<Rightarrow> bool" where
  "counts_fit u ls \<longleftrightarrow> (\<forall>l\<in>set ls. 0 \<le> device_count u l) \<and> (\<Sum>l\<leftarrow>ls. device_count u l) < 2 ^ 32"

lemma of_int_le_word:
  assumes "0 \<le> x" "x < 2 ^ 32"
  shows "(of_int x :: u32) \<le> y \<longleftrightarrow> x \<le> uint y"
proof -
  have "uint (of_int x :: u32) = x"
    using assms by (simp add: unsigned_of_int take_bit_int_eq_self)
  then show ?thesis by (simp add: word_le_def)
qed

lemma enforce_user_shares:
  assumes "counts_fit u order"
  defines "cs \<equiv> map (device_count u) order"
  shows "enforce_user order u =
    (case user_limit u order of
       None \<Rightarrow> []
     | Some limit \<Rightarrow> if limit = 0 \<or> sum_list cs \<le> uint limit then []
                     else map (\<lambda>(i, keep). (i, u, keep)) (short_shares 0 (uint limit) cs))"
proof -
  have nn: "\<forall>c\<in>set cs. 0 \<le> c" and lt: "sum_list cs < 2 ^ 32"
    using assms by (auto simp: counts_fit_def)
  have ge: "0 \<le> sum_list cs" using nn by (simp add: sum_list_nonneg)
  have "fold (\<lambda>l t. i64 (t + device_count u l)) order 0 = sum_list cs"
    using fold_total [of order u 0] assms by (simp add: counts_fit_def)
  then show ?thesis
    using of_int_le_word [OF ge lt] hand_out_shares [OF nn] unfolding enforce_user_def Let_def cs_def [symmetric]
    by (simp split: option.split)
qed

section \<open>What a back end promises\<close>

text \<open>
  The contract of \<open>KeepDevices\<close>: a call leaves a user with at most the asked number of devices,
  takes none away when there are no more, and leaves the other users alone.
\<close>

locale device_limiter =
  fixes wf :: "'s \<Rightarrow> bool"
    and devices :: "string \<Rightarrow> 's \<Rightarrow> nat"
    and keep :: "string \<Rightarrow> int \<Rightarrow> 's \<Rightarrow> 's"
  assumes keep_wf: "wf s \<Longrightarrow> wf (keep u k s)"
    and keep_devices: "wf s \<Longrightarrow> devices u (keep u k s) = min (devices u s) (nat k)"
    and keep_other: "wf s \<Longrightarrow> v \<noteq> u \<Longrightarrow> devices v (keep u k s) = devices v s"
begin

text \<open>Carrying out the calls of a pass on the states of the back ends.\<close>

definition run_calls :: "(nat \<times> string \<times> int) list \<Rightarrow> 's list \<Rightarrow> 's list" where
  "run_calls calls ss = fold (\<lambda>(i, u, k) ss. ss[i := keep u k (ss ! i)]) calls ss"

lemma run_calls_Nil [simp]: "run_calls [] ss = ss"
  by (simp add: run_calls_def)

lemma run_calls_append: "run_calls (cs @ ds) ss = run_calls ds (run_calls cs ss)"
  by (simp add: run_calls_def)

lemma run_calls_length [simp]: "length (run_calls calls ss) = length ss"
  unfolding run_calls_def by (induction calls arbitrary: ss) (auto split: prod.split)

definition total_devices :: "string \<Rightarrow> 's list \<Rightarrow> int" where
  "total_devices u ss = (\<Sum>s\<leftarrow>ss. int (devices u s))"

lemma run_hand_out:
  assumes "\<forall>s\<in>set suf. wf s" "0 \<le> budget" "i = length pre"
  shows "\<exists>suf'. run_calls (map (\<lambda>(i, k). (i, u, k)) (hand_out i budget (map (\<lambda>s. int (devices u s)) suf))) (pre @ suf) =
      pre @ suf' \<and> length suf' = length suf \<and> (\<forall>s\<in>set suf'. wf s) \<and>
      total_devices u suf' = min budget (total_devices u suf) \<and>
      (\<forall>v. v \<noteq> u \<longrightarrow> map (devices v) suf' = map (devices v) suf)"
  using assms
proof (induction suf arbitrary: i budget pre)
  case Nil
  then show ?case by (simp add: total_devices_def)
next
  case (Cons s suf)
  let ?c = "int (devices u s)"
  let ?k = "if ?c > budget then budget else ?c"
  let ?s = "if ?c > budget then keep u budget s else s"
  let ?calls = "\<lambda>i b. map (\<lambda>(i, k). (i, u, k)) (hand_out i b (map (\<lambda>s. int (devices u s)) suf))"
  have wfs: "wf ?s" using Cons.prems keep_wf by simp
  have dev: "int (devices u ?s) = ?k" using Cons.prems keep_devices by simp
  have oth: "devices v ?s = devices v s" if "v \<noteq> u" for v
    using Cons.prems keep_other that by simp
  have "run_calls (map (\<lambda>(i, k). (i, u, k)) (hand_out i budget (map (\<lambda>s. int (devices u s)) (s # suf)))) (pre @ s # suf) =
      run_calls (?calls (Suc i) (budget - ?k)) (pre @ ?s # suf)"
    using Cons.prems by (simp add: run_calls_append Let_def) (simp add: run_calls_def)
  moreover have prems: "\<forall>s\<in>set suf. wf s" "0 \<le> budget - ?k" "Suc i = length (pre @ [?s])"
    using Cons.prems by simp_all
  obtain suf' where suf': "run_calls (?calls (Suc i) (budget - ?k)) ((pre @ [?s]) @ suf) = (pre @ [?s]) @ suf'"
      "length suf' = length suf" "\<forall>s\<in>set suf'. wf s" "total_devices u suf' = min (budget - ?k) (total_devices u suf)"
      "\<forall>v. v \<noteq> u \<longrightarrow> map (devices v) suf' = map (devices v) suf"
    using Cons.IH [OF prems] by blast
  moreover have "0 \<le> total_devices u suf"
    unfolding total_devices_def by (intro sum_list_nonneg) auto
  ultimately show ?case
    using wfs dev oth Cons.prems(2)
    by (intro exI [of _ "?s # suf'"]) (auto simp: total_devices_def min_def)
qed

text \<open>The devices a user may keep on the node.\<close>

definition allowed_devices :: "Limiter list \<Rightarrow> string \<Rightarrow> int \<Rightarrow> int" where
  "allowed_devices order u n =
    (case user_limit u order of None \<Rightarrow> n | Some limit \<Rightarrow> if limit = 0 then n else min (uint limit) n)"

lemma total_devices_map: "map (devices v) ss = map (devices v) ss' \<Longrightarrow> total_devices v ss = total_devices v ss'"
  unfolding total_devices_def by (metis (mono_tags, lifting) list.map_comp map_eq_conv comp_def)

lemma enforce_user_run:
  assumes "\<forall>s\<in>set ss. wf s" "map (device_count u) order = map (\<lambda>s. int (devices u s)) ss" "counts_fit u order"
  defines "ss' \<equiv> run_calls (enforce_user order u) ss"
  shows "(\<forall>s\<in>set ss'. wf s) \<and> total_devices u ss' = allowed_devices order u (total_devices u ss) \<and>
    (\<forall>v. v \<noteq> u \<longrightarrow> map (devices v) ss' = map (devices v) ss)"
proof -
  have tot: "total_devices u ss = sum_list (map (device_count u) order)"
    by (simp add: total_devices_def assms(2))
  have nn: "\<forall>c\<in>set (map (device_count u) order). 0 \<le> c"
    using assms(3) by (auto simp: counts_fit_def)
  let ?calls = "\<lambda>limit. map (\<lambda>(i, k). (i, u, k)) (hand_out 0 limit (map (\<lambda>s. int (devices u s)) ss))"
  have eq: "enforce_user order u = (case user_limit u order of None \<Rightarrow> []
      | Some limit \<Rightarrow> if limit = 0 \<or> total_devices u ss \<le> uint limit then [] else ?calls (uint limit))"
    using hand_out_shares [OF nn, of _ 0] by (simp add: enforce_user_shares [OF assms(3)] tot assms(2) split: option.split)
  have "\<exists>suf'. run_calls (?calls (uint limit)) ss = suf' \<and> (\<forall>s\<in>set suf'. wf s) \<and>
      total_devices u suf' = min (uint limit) (total_devices u ss) \<and>
      (\<forall>v. v \<noteq> u \<longrightarrow> map (devices v) suf' = map (devices v) ss)" for limit :: u32
    using run_hand_out [OF assms(1), of "uint limit" 0 "[]" u] by auto
  then show ?thesis
    using assms(1) unfolding ss'_def eq
    by (auto simp: allowed_devices_def min_def split: option.split)
qed

lemma run_pass:
  assumes "distinct users" "\<forall>s\<in>set ss. wf s"
    and "\<forall>u\<in>set users. map (device_count u) order = map (\<lambda>s. int (devices u s)) ss \<and> counts_fit u order"
  defines "ss' \<equiv> run_calls (concat (map (enforce_user order) users)) ss"
  shows "(\<forall>u\<in>set users. total_devices u ss' = allowed_devices order u (total_devices u ss)) \<and>
    (\<forall>v. v \<notin> set users \<longrightarrow> map (devices v) ss' = map (devices v) ss)"
  using assms(1-3) unfolding ss'_def
proof (induction users arbitrary: ss)
  case (Cons u us)
  let ?s1 = "run_calls (enforce_user order u) ss"
  have first: "\<forall>s\<in>set ?s1. wf s" "total_devices u ?s1 = allowed_devices order u (total_devices u ss)"
      "\<And>v. v \<noteq> u \<Longrightarrow> map (devices v) ?s1 = map (devices v) ss"
    using enforce_user_run [of ss u order] Cons.prems by simp_all
  have same: "map (\<lambda>s. int (devices v s)) ?s1 = map (\<lambda>s. int (devices v s)) ss" if "v \<noteq> u" for v
    using first(3) [OF that] by (metis (mono_tags, lifting) list.map_comp map_eq_conv comp_def)
  have "distinct us" and u: "u \<notin> set us" using Cons.prems(1) by simp_all
  moreover have "\<forall>v\<in>set us. map (device_count v) order = map (\<lambda>s. int (devices v s)) ?s1 \<and> counts_fit v order"
  proof
    fix v assume "v \<in> set us"
    moreover from this u have "v \<noteq> u" by auto
    ultimately show "map (device_count v) order = map (\<lambda>s. int (devices v s)) ?s1 \<and> counts_fit v order"
      using Cons.prems(3) same [OF \<open>v \<noteq> u\<close>] by simp
  qed
  ultimately have IH: "\<forall>v\<in>set us. total_devices v (run_calls (concat (map (enforce_user order) us)) ?s1) =
        allowed_devices order v (total_devices v ?s1)"
      "\<forall>v. v \<notin> set us \<longrightarrow> map (devices v) (run_calls (concat (map (enforce_user order) us)) ?s1) = map (devices v) ?s1"
    using Cons.IH [of ?s1] first(1) by simp_all
  have tot1: "total_devices v ?s1 = total_devices v ss" if "v \<noteq> u" for v
    using total_devices_map [OF first(3) [OF that]] .
  have totu: "total_devices u (run_calls (concat (map (enforce_user order) us)) ?s1) = total_devices u ?s1"
    using IH(2) u by (intro total_devices_map) simp
  have step: "run_calls (concat (map (enforce_user order) (u # us))) ss =
      run_calls (concat (map (enforce_user order) us)) ?s1"
    by (simp add: run_calls_append)
  have "total_devices v (run_calls (concat (map (enforce_user order) us)) ?s1) =
      allowed_devices order v (total_devices v ss)" if "v \<in> set (u # us)" for v
  proof (cases "v = u")
    case True
    then show ?thesis using totu first(2) by simp
  next
    case False
    then show ?thesis using that IH(1) tot1 [OF False] by simp
  qed
  moreover have "map (devices v) (run_calls (concat (map (enforce_user order) us)) ?s1) = map (devices v) ss"
    if "v \<notin> set (u # us)" for v
    using that IH(2) first(3) [of v] by simp
  ultimately show ?case unfolding step by blast
qed simp

end

section \<open>PPP sessions as limited devices\<close>

text \<open>
  A terminated pppd takes its session file away. The state of the interpretation is the sort of
  \<open>sort.Slice\<close> with the directory of the session files.
\<close>

type_synonym ppp_live = "(pppSession list \<Rightarrow> pppSession list) \<times> DirEntry list option"

definition live_after :: "int list \<Rightarrow> DirEntry list option \<Rightarrow> DirEntry list option" where
  "live_after pids dir =
    map_option (filter (\<lambda>e. ps_pid (parseSessionFile (de_File e) (de_Name e)) \<notin> set pids)) dir"

definition ppp_wf :: "ppp_live \<Rightarrow> bool" where
  "ppp_wf s \<longleftrightarrow> sorts_sessions (fst s) \<and> distinct (map ps_pid (readSessions (snd s))) \<and>
    (\<forall>x\<in>set (readSessions (snd s)). 0 < ps_pid x)"

definition ppp_devices :: "string \<Rightarrow> ppp_live \<Rightarrow> nat" where
  "ppp_devices u s = length (sessions_of (readSessions (snd s)) u)"

definition ppp_keep :: "string \<Rightarrow> int \<Rightarrow> ppp_live \<Rightarrow> ppp_live" where
  "ppp_keep u k s = (fst s, live_after (KeepDevices (fst s) (snd s) u k) (snd s))"

lemma readSessions_after:
  "readSessions (live_after pids dir) = filter (\<lambda>x. ps_pid x \<notin> set pids) (readSessions dir)"
proof (cases dir)
  case (Some es)
  have "filter (\<lambda>e. \<not> de_IsDir e) (filter (\<lambda>e. ps_pid (parseSessionFile (de_File e) (de_Name e)) \<notin> set pids) es) =
      filter (\<lambda>e. ps_pid (parseSessionFile (de_File e) (de_Name e)) \<notin> set pids) (filter (\<lambda>e. \<not> de_IsDir e) es)"
    by (simp add: conj_commute)
  then show ?thesis
    by (simp add: Some live_after_def readSessions_def filter_map comp_def conj_ac)
qed (simp add: live_after_def readSessions_def)

lemma sessions_of_filter: "sessions_of (filter P ss) u = filter P (sessions_of ss u)"
  by (simp add: sessions_of_def conj_commute)

text \<open>The process ids that a call signals are those of the newest sessions beyond the number to keep.\<close>

lemma KeepDevices_pids:
  fixes u :: string
  assumes "ppp_wf (srt, dir)"
  defines "ss \<equiv> sessions_of (readSessions dir) u"
  shows "KeepDevices srt dir u k = (if length ss \<le> nat k then [] else map ps_pid (drop (nat k) (srt ss)))"
proof -
  have ms: "mset (srt ss) = mset ss"
    using assms(1) by (simp add: ppp_wf_def sorts_sessions_def)
  have "\<forall>x\<in>set ss. 0 < ps_pid x"
    using assms(1) by (auto simp: ppp_wf_def ss_def sessions_of_def)
  then have pos: "\<forall>x\<in>set (srt ss). 0 < ps_pid x"
    using mset_eq_setD [OF ms] by simp
  have "kill_sessions (drop n (srt ss)) = map ps_pid (drop n (srt ss))" for n
    unfolding kill_sessions_def using pos by (subst filter_True) (auto dest: in_set_dropD)
  then show ?thesis
    unfolding KeepDevices_def Let_def sessions_of_def [symmetric] ss_def [symmetric] by auto
qed

lemma kept_count:
  assumes "mset (xs @ ys) = mset zs" "distinct (map ps_pid zs)"
  shows "length (filter (\<lambda>x. ps_pid x \<notin> set (map ps_pid ys)) zs) = length xs"
proof -
  have "mset (map ps_pid (xs @ ys)) = mset (map ps_pid zs)" using assms(1) by (metis mset_map)
  then have "distinct (map ps_pid (xs @ ys))" using assms(2) by (metis mset_eq_imp_distinct_iff)
  then have dis: "ps_pid ` set xs \<inter> ps_pid ` set ys = {}" by simp
  have "size (filter_mset (\<lambda>x. ps_pid x \<notin> ps_pid ` set ys) (mset (xs @ ys))) = length xs"
  proof -
    have "filter (\<lambda>x. ps_pid x \<notin> ps_pid ` set ys) xs = xs" using dis by (auto intro!: filter_True)
    moreover have "filter (\<lambda>x. ps_pid x \<notin> ps_pid ` set ys) ys = []" by (auto intro!: filter_False)
    ultimately show ?thesis by (metis append_Nil2 filter_append mset_filter size_mset)
  qed
  then show ?thesis
    by (metis assms(1) list.set_map mset_filter size_mset)
qed

lemma ppp_keep_counts:
  assumes "ppp_wf s"
  shows "ppp_devices u (ppp_keep u k s) = min (ppp_devices u s) (nat k)"
    and "v \<noteq> u \<Longrightarrow> ppp_devices v (ppp_keep u k s) = ppp_devices v s"
proof -
  obtain srt dir where s: "s = (srt, dir)" by (cases s)
  let ?ss = "sessions_of (readSessions dir) u"
  have ms: "mset (srt ?ss) = mset ?ss" and dist: "distinct (map ps_pid (readSessions dir))"
    using assms by (simp_all add: s ppp_wf_def sorts_sessions_def)
  have dist': "distinct (map ps_pid ?ss)"
    using dist by (simp add: sessions_of_def distinct_map_filter)
  note pids = KeepDevices_pids [OF assms [unfolded s]]
  have "mset (take (nat k) (srt ?ss) @ drop (nat k) (srt ?ss)) = mset ?ss" using ms by simp
  from kept_count [OF this dist'] show "ppp_devices u (ppp_keep u k s) = min (ppp_devices u s) (nat k)"
    using mset_eq_length [OF ms]
    by (simp add: s ppp_devices_def ppp_keep_def readSessions_after sessions_of_filter pids min_def)
  assume v: "v \<noteq> u"
  have "ps_pid x \<notin> set (KeepDevices srt dir u k)" if "x \<in> set (sessions_of (readSessions dir) v)" for x
  proof
    assume "ps_pid x \<in> set (KeepDevices srt dir u k)"
    then obtain y where "y \<in> set ?ss" "ps_pid y = ps_pid x"
      using mset_eq_setD [OF ms] by (auto simp: pids split: if_splits dest!: in_set_dropD)
    moreover have "x \<in> set (readSessions dir)" "y \<in> set (readSessions dir)"
      using that calculation by (auto simp: sessions_of_def)
    ultimately have "x = y" using dist by (auto simp: distinct_map inj_on_def)
    with that \<open>y \<in> set ?ss\<close> v show False by (auto simp: sessions_of_def)
  qed
  then show "ppp_devices v (ppp_keep u k s) = ppp_devices v s"
    by (simp add: s ppp_devices_def ppp_keep_def readSessions_after sessions_of_filter)
qed

lemma ppp_keep_wf: "ppp_wf s \<Longrightarrow> ppp_wf (ppp_keep u k s)"
  by (auto simp: ppp_wf_def ppp_keep_def readSessions_after distinct_map_filter)

interpretation ppp_limiter: device_limiter ppp_wf ppp_devices ppp_keep
  by unfold_locales (rule ppp_keep_wf ppp_keep_counts; assumption)+

section \<open>Properties\<close>

lemma limiter_order_set [simp]: "set (limiter_order ls) = set ls"
  by (simp add: limiter_order_def)


definition lab_limiter :: "string \<Rightarrow> int \<Rightarrow> Limiter" where
  "lab_limiter proto n = \<lparr>li_Protocol = proto, li_counts = [''ann'' \<mapsto> n], li_limit = (\<lambda>u. (2, u = ''ann''))\<rparr>"

lemma lab_limiter_order: "limiter_order [lab_limiter ''l2tp'' 2, lab_limiter ''ikev2'' 1] = [lab_limiter ''ikev2'' 1, lab_limiter ''l2tp'' 2]"
  by (simp add: limiter_order_def lab_limiter_def deviceProtoRank_def deviceProtocolPriority_def)

lemma lab_online: "online_users [lab_limiter ''l2tp'' 2, lab_limiter ''ikev2'' 1] = {''ann''}"
  by (auto simp: online_users_def lab_limiter_def split: if_splits)

lemma lab_counts: "counts_fit ''ann'' [lab_limiter ''ikev2'' 1, lab_limiter ''l2tp'' 2]"
  by (simp add: counts_fit_def device_count_def lab_limiter_def)


text \<open>On a node whose limiters are PPP back ends and report the number of live sessions, a pass
  brings every online user down to its limit across the back ends, takes nothing from users within
  their limit, unlimited or unknown, and leaves the sessions of all other users alone.\<close>

theorem global_limit_met:
  assumes "2 \<le> length limiters" and "order = limiter_order limiters"
    and "distinct users" and "\<forall>s\<in>set ss. ppp_wf s"
    and "\<forall>u\<in>set users. map (device_count u) order = map (\<lambda>s. int (ppp_devices u s)) ss \<and> counts_fit u order"
    and "ss' = ppp_limiter.run_calls (EnforceGlobalDeviceLimits users limiters) ss"
  shows "(\<forall>u\<in>set users. ppp_limiter.total_devices u ss' =
        (case user_limit u order of
           None \<Rightarrow> ppp_limiter.total_devices u ss
         | Some limit \<Rightarrow> if limit = 0 then ppp_limiter.total_devices u ss
                         else min (uint limit) (ppp_limiter.total_devices u ss))) \<and>
    (\<forall>v. v \<notin> set users \<longrightarrow> map (ppp_devices v) ss' = map (ppp_devices v) ss)"
proof -
  have "EnforceGlobalDeviceLimits users limiters = concat (map (enforce_user order) users)"
    using assms(1,2) by (simp add: EnforceGlobalDeviceLimits_def)
  then show ?thesis
    using ppp_limiter.run_pass [OF assms(3-5)] unfolding assms(6) ppp_limiter.allowed_devices_def by simp
qed

definition lab_live :: "string \<Rightarrow> ppp_live" where
  "lab_live n = (sort_key ps_started,
     Some [\<lparr>de_Name = n, de_IsDir = False, de_File = Some (''user=ann'' @ [nl] @ ''pid=7'')\<rparr>])"

lemma lab_live_session:
  "readSessions (snd (lab_live (c # n))) =
    [\<lparr>ps_user = ''ann'', ps_ifname = c # n, ps_tunnelIP = [], ps_clientIP = [], ps_pid = 7, ps_started = 0\<rparr>]"
proof -
  have sp: "split_lines (''user=ann'' @ [nl] @ ''pid=7'') = [''user=ann'', ''pid=7'']" by code_simp
  have sc: "fst (scan_lines (''user=ann'' @ [nl] @ ''pid=7'')) = [''user=ann'', ''pid=7'']"
    unfolding scan_lines_def sp by (simp add: short_fits drop_cr_def)
  have c: "cut_eq (trim_space ''user=ann'') = Some (''user'', ''ann'')" "cut_eq (trim_space ''pid=7'') = Some (''pid'', ''7'')"
    by code_simp+
  have "ParseInt ''7'' = 7"
    by (simp add: ParseInt_def ParseUint_def digit_of_def Let_def)
  then show ?thesis
    unfolding readSessions_def lab_live_def parseSessionFile_def Let_def snd_conv option.case
    by (simp add: sc [simplified] session_line_def c)
qed

theorem global_limit_met_witness:
  "ppp_limiter.total_devices ''ann'' (ppp_limiter.run_calls
      (EnforceGlobalDeviceLimits [''ann''] [lab_limiter ''l2tp'' 1\<lparr>li_limit := (\<lambda>u. (1, True))\<rparr>, lab_limiter ''pptp'' 1])
      [lab_live ''ppp0'', lab_live ''ppp1'']) = 1"
proof -
  let ?ls = "[lab_limiter ''l2tp'' 1\<lparr>li_limit := (\<lambda>u. (1, True))\<rparr>, lab_limiter ''pptp'' 1]"
  let ?ss = "[lab_live ''ppp0'', lab_live ''ppp1'']"
  have d: "ppp_devices ''ann'' (lab_live (c # n)) = 1" for c n
    by (simp add: ppp_devices_def lab_live_session sessions_of_def)
  have "fst (lab_live n) = sort_key ps_started" for n by (simp add: lab_live_def)
  then have w: "\<forall>s\<in>set ?ss. ppp_wf s"
    by (simp add: ppp_wf_def sorts_sessions_def lab_live_session)
  have o: "limiter_order ?ls = ?ls"
    by (simp add: limiter_order_def lab_limiter_def deviceProtoRank_def deviceProtocolPriority_def)
  have c: "map (device_count ''ann'') ?ls = map (\<lambda>s. int (ppp_devices ''ann'' s)) ?ss"
      "counts_fit ''ann'' ?ls" "user_limit ''ann'' ?ls = Some 1"
    by (simp_all add: d device_count_def counts_fit_def) (simp_all add: lab_limiter_def)
  from global_limit_met [of ?ls ?ls "[''ann'']" ?ss, OF _ o [symmetric] _ w _ refl] show ?thesis
    using c by (simp add: ppp_limiter.total_devices_def d)
qed

end
