(* ===== verification/Ikev2Correct.thy ===== *)
theory Ikev2Correct
  imports Ikev2 DeviceLimit
begin

text \<open>
  Properties of the IKEv2 back end: the device limit of the poll and of \<open>KeepDevices\<close>, with the interpretation of
  the interface \<open>device_limiter\<close> on associations and, together with the PPP sessions, on mixed nodes; the accounting
  of a poll; the revocation of users; certificates.
\<close>

section \<open>Associations of an identity\<close>

definition sas_of :: "saInfo list \<Rightarrow> string \<Rightarrow> saInfo list" where
  "sas_of sas identity = filter (\<lambda>sa. sa_Identity sa = identity) sas"

lemma group_sas_eq: "group_sas sas identity = (if sas_of sas identity = [] then None else Some (sas_of sas identity))"
  unfolding group_sas_def
  by (induction sas rule: rev_induct) (auto simp: sas_of_def add_sa_def map_get_def)

lemma map_get_group_sas [simp]: "map_get [] (group_sas sas) identity = sas_of sas identity"
  by (simp add: map_get_def group_sas_eq)

lemma dom_group_sas: "dom (group_sas sas) = sa_Identity ` set sas"
  by (auto simp: group_sas_eq sas_of_def filter_empty_conv split: if_splits)

section \<open>Client addresses\<close>

lemma set_client_ips [simp]: "set (client_ips sas) = sa_Remote ` set sas"
  by (simp add: client_ips_def)

lemma client_ips_sorted: "sorted (client_ips sas)" and client_ips_distinct: "distinct (client_ips sas)"
  by (simp_all add: client_ips_def)

lemma client_ips_eqI: "sorted ips \<Longrightarrow> distinct ips \<Longrightarrow> sa_Remote ` set sas = set ips \<Longrightarrow> client_ips sas = ips"
  using sorted_distinct_set_unique [OF client_ips_sorted client_ips_distinct] by simp

lemma evict_ips_iff:
  "i \<in> set (evict_ips n sas) \<longleftrightarrow> (\<exists>sa\<in>set sas. sa_IKEID sa = i \<and> sa_Remote sa \<in> set (drop n (client_ips sas)))"
  by (auto simp: evict_ips_def by_ip_def)

text \<open>What is left of a list when the associations with some ids are gone.\<close>

definition without :: "u32 list \<Rightarrow> saInfo list \<Rightarrow> saInfo list" where
  "without ids sas = filter (\<lambda>sa. sa_IKEID sa \<notin> set ids) sas"

lemma sas_of_without: "sas_of (without ids sas) u = without ids (sas_of sas u)"
  by (simp add: sas_of_def without_def conj_commute)

lemma without_Nil [simp]: "without [] sas = sas"
  by (simp add: without_def)

lemma evicted_id:
  assumes "distinct (map sa_IKEID sas)" "sa \<in> set sas" "set sub \<subseteq> set sas" "sa_IKEID sa \<in> set (evict_ips n sub)"
  shows "sa \<in> set sub \<and> sa_Remote sa \<in> set (drop n (client_ips sub))"
proof -
  obtain t where "t \<in> set sub" "sa_IKEID t = sa_IKEID sa" "sa_Remote t \<in> set (drop n (client_ips sub))"
    using assms(4) by (auto simp: evict_ips_iff)
  moreover from this have "t = sa" using assms(1-3) by (auto simp: distinct_map inj_on_def)
  ultimately show ?thesis by simp
qed

lemma client_ips_evicted:
  assumes "distinct (map sa_IKEID sas)"
  shows "client_ips (without (evict_ips n sas) sas) = take n (client_ips sas)"
proof (rule client_ips_eqI)
  let ?ips = "client_ips sas"
  show "sorted (take n ?ips)" "distinct (take n ?ips)"
    using client_ips_sorted client_ips_distinct by (simp_all add: sorted_wrt_take)
  have split: "set ?ips = set (take n ?ips) \<union> set (drop n ?ips)" "set (take n ?ips) \<inter> set (drop n ?ips) = {}"
    using set_take_disj_set_drop_if_distinct [OF client_ips_distinct [of sas] order_refl [of n]]
      set_append [of "take n ?ips" "drop n ?ips"] by simp_all
  have "sa \<in> set (without (evict_ips n sas) sas) \<longleftrightarrow> sa \<in> set sas \<and> sa_Remote sa \<notin> set (drop n ?ips)" for sa
    using evicted_id [OF assms, of sa sas n] by (auto simp: without_def evict_ips_iff)
  then have "sa_Remote ` set (without (evict_ips n sas) sas) = set ?ips - set (drop n ?ips)" by auto
  then show "sa_Remote ` set (without (evict_ips n sas) sas) = set (take n ?ips)" using split by auto
qed

lemma sas_of_distinct: "distinct (map sa_IKEID sas) \<Longrightarrow> distinct (map sa_IKEID (sas_of sas u))"
  by (simp add: sas_of_def distinct_map_filter)

lemma evict_other:
  assumes "distinct (map sa_IKEID sas)" "v \<noteq> u" "set ids \<subseteq> set (evict_ips n (sas_of sas u))"
  shows "without ids (sas_of sas v) = sas_of sas v"
proof -
  have "sa_IKEID sa \<notin> set (evict_ips n (sas_of sas u))" if "sa \<in> set (sas_of sas v)" for sa
    using evicted_id [OF assms(1), of sa "sas_of sas u" n] that assms(2) by (auto simp: sas_of_def)
  then show ?thesis using assms(3) by (auto simp: without_def intro!: filter_True)
qed

lemma keep_sas_eq: "keep_sas sas u k = evict_ips (nat k) (sas_of sas u)"
  by (auto simp: keep_sas_def Let_def sas_of_def evict_ips_def split: if_splits)

section \<open>The interface of the global device limit\<close>

text \<open>The associations of a daemon; terminating some of them leaves the others.\<close>

definition ike_wf :: "saInfo list \<Rightarrow> bool" where
  "ike_wf sas \<longleftrightarrow> distinct (map sa_IKEID sas)"

definition ike_devices :: "string \<Rightarrow> saInfo list \<Rightarrow> nat" where
  "ike_devices u sas = length (client_ips (sas_of sas u))"

definition ike_keep :: "string \<Rightarrow> int \<Rightarrow> saInfo list \<Rightarrow> saInfo list" where
  "ike_keep u k sas = without (keep_sas sas u k) sas"

interpretation ike_limiter: device_limiter ike_wf ike_devices ike_keep
proof
  fix s u k
  assume "ike_wf s"
  then have d: "distinct (map sa_IKEID s)" by (simp add: ike_wf_def)
  show "ike_wf (ike_keep u k s)" using d by (simp add: ike_wf_def ike_keep_def without_def distinct_map_filter)
  show "ike_devices u (ike_keep u k s) = min (ike_devices u s) (nat k)"
    using client_ips_evicted [OF sas_of_distinct [OF d], of "nat k" u]
    by (simp add: ike_devices_def ike_keep_def sas_of_without keep_sas_eq min.commute)
  fix v assume "v \<noteq> u"
  then show "ike_devices v (ike_keep u k s) = ike_devices v s"
    using evict_other [OF d _ order_refl] by (simp add: ike_devices_def ike_keep_def sas_of_without keep_sas_eq)
qed

text \<open>A node with both kinds of back ends meets the contract again.\<close>

type_synonym live = "ppp_live + saInfo list"

definition live_wf :: "live \<Rightarrow> bool" where
  "live_wf = case_sum ppp_wf ike_wf"

definition live_devices :: "string \<Rightarrow> live \<Rightarrow> nat" where
  "live_devices u = case_sum (ppp_devices u) (ike_devices u)"

definition live_keep :: "string \<Rightarrow> int \<Rightarrow> live \<Rightarrow> live" where
  "live_keep u k = map_sum (ppp_keep u k) (ike_keep u k)"

lemmas live_defs = live_wf_def live_devices_def live_keep_def

interpretation node_limiter: device_limiter live_wf live_devices live_keep
proof
  fix s u k
  assume "live_wf s"
  then show "live_wf (live_keep u k s)"
    by (cases s) (simp_all add: live_defs ppp_limiter.keep_wf ike_limiter.keep_wf)
next
  fix s u k
  assume "live_wf s"
  then show "live_devices u (live_keep u k s) = min (live_devices u s) (nat k)"
    by (cases s) (simp_all add: live_defs ppp_limiter.keep_devices ike_limiter.keep_devices)
next
  fix s u k and v :: string
  assume "live_wf s" "v \<noteq> u"
  then show "live_devices v (live_keep u k s) = live_devices v s"
    by (cases s) (simp_all add: live_defs ppp_limiter.keep_other ike_limiter.keep_other)
qed

section \<open>The limit of a poll\<close>

lemma enforce_identity_eq:
  assumes "length sas < 2 ^ 32"
  shows "k2_enforce_identity users (group_sas sas) u =
    (if limitFor users u = 0 then [] else keep_sas sas u (uint (limitFor users u)))"
proof -
  let ?n = "length (client_ips (sas_of sas u))"
  have "?n \<le> length sas"
    unfolding client_ips_def sas_of_def
    by (metis length_filter_le length_map length_remdups_leq length_sort order_trans)
  then have n: "unat (of_nat ?n :: u32) = ?n" using assms by (simp add: unat_of_nat)
  have "(of_nat ?n :: u32) \<le> limitFor users u \<longleftrightarrow> ?n \<le> unat (limitFor users u)"
    by (simp add: word_le_nat_alt n)
  moreover have "?n \<le> k \<Longrightarrow> evict_ips k (sas_of sas u) = []" for k by (simp add: evict_ips_def)
  ultimately show ?thesis
    by (auto simp: k2_enforce_identity_def Let_def keep_sas_eq nat_uint_eq)
qed

lemma enforced_ids:
  assumes "distinct (map sa_IKEID sas)" "length sas < 2 ^ 32" "set order = sa_Identity ` set sas"
    and "sa \<in> set (sas_of sas u)"
  shows "sa_IKEID sa \<in> set (k2_enforceDeviceLimits order users (group_sas sas)) \<longleftrightarrow>
    limitFor users u \<noteq> 0 \<and> sa_IKEID sa \<in> set (evict_ips (unat (limitFor users u)) (sas_of sas u))"
proof -
  have sa: "sa \<in> set sas" "sa_Identity sa = u" using assms(4) by (auto simp: sas_of_def)
  have own: "v = u" if "sa_IKEID sa \<in> set (evict_ips n (sas_of sas v))" for n v
    using evicted_id [OF assms(1) sa(1) _ that] sa(2) by (auto simp: sas_of_def)
  have "u \<in> set order" using assms(3) sa by auto
  moreover have "sa_IKEID sa \<in> set (k2_enforceDeviceLimits order users (group_sas sas)) \<longleftrightarrow>
      (\<exists>v\<in>set order. limitFor users v \<noteq> 0 \<and> sa_IKEID sa \<in> set (evict_ips (unat (limitFor users v)) (sas_of sas v)))"
    by (simp add: k2_enforceDeviceLimits_def enforce_identity_eq [OF assms(2)] keep_sas_eq nat_uint_eq) blast
  ultimately show ?thesis using own by blast
qed

lemma poll_users_unchanged: "k2_users (snd (k2_poll env answer st)) = k2_users st"
proof -
  have "k2_users (fst (fold (poll_identity now per gRx gTx) ids (st1, m, ss))) = k2_users st1" for now per gRx gTx ids st1 m ss
    by (induction ids arbitrary: st1 m ss) (simp_all add: poll_identity_def Let_def)
  then show ?thesis
    by (simp add: k2_poll_def Let_def case_prod_beta split: sum.split)
qed

section \<open>The accounting of a poll\<close>

definition sa_growthRx :: "(u32 \<rightharpoonup> int \<times> int) \<Rightarrow> saInfo \<Rightarrow> int" where
  "sa_growthRx seen sa = traffic_since (fst (map_get (0, 0) seen (sa_IKEID sa))) (sa_BytesIn sa)"

definition sa_growthTx :: "(u32 \<rightharpoonup> int \<times> int) \<Rightarrow> saInfo \<Rightarrow> int" where
  "sa_growthTx seen sa = traffic_since (snd (map_get (0, 0) seen (sa_IKEID sa))) (sa_BytesOut sa)"

definition last_seen :: "saInfo list \<Rightarrow> (u32 \<rightharpoonup> int \<times> int)" where
  "last_seen sas = map_of (map (\<lambda>sa. (sa_IKEID sa, (sa_BytesIn sa, sa_BytesOut sa))) sas)"

lemma last_seen_snoc: "sa_IKEID sa \<notin> sa_IKEID ` set sas \<Longrightarrow>
    last_seen (sas @ [sa]) = (last_seen sas)(sa_IKEID sa \<mapsto> (sa_BytesIn sa, sa_BytesOut sa))"
proof -
  assume "sa_IKEID sa \<notin> sa_IKEID ` set sas"
  then have "last_seen sas (sa_IKEID sa) = None" by (auto simp: last_seen_def map_of_eq_None_iff)
  then show ?thesis by (auto simp: last_seen_def map_add_def fun_eq_iff split: option.split)
qed

lemma dom_last_seen: "dom (last_seen sas) = sa_IKEID ` set sas"
  by (auto simp: last_seen_def dom_map_of_conv_image_fst image_image)

lemma count_sas:
  assumes "distinct (map sa_IKEID sas)"
  shows "fold count_sa sas (seen, gRx, gTx) =
    (seen ++ last_seen sas, growths_by sa_Identity (sa_growthRx seen) sas gRx,
     growths_by sa_Identity (sa_growthTx seen) sas gTx)"
  using assms
proof (induction sas rule: rev_induct)
  case Nil
  then show ?case by (simp add: growths_by_def last_seen_def)
next
  case (snoc sa sas)
  then have new: "sa_IKEID sa \<notin> sa_IKEID ` set sas" by auto
  then have "last_seen sas (sa_IKEID sa) = None" using dom_last_seen [of sas] by (auto simp: domIff)
  then have "map_get (0, 0) (seen ++ last_seen sas) (sa_IKEID sa) = map_get (0, 0) seen (sa_IKEID sa)"
    by (simp add: map_get_def map_add_def)
  moreover have "seen ++ last_seen (sas @ [sa]) = (seen ++ last_seen sas)(sa_IKEID sa \<mapsto> (sa_BytesIn sa, sa_BytesOut sa))"
    unfolding last_seen_snoc [OF new] by (rule map_add_upd)
  ultimately show ?case
    using snoc
    by (simp add: count_sa_def growths_by_snoc sa_growthRx_def sa_growthTx_def counter_growth_traffic Let_def
        fun_eq_iff)
qed

definition identity_sample :: "(string \<rightharpoonup> saInfo list) \<Rightarrow> (string \<rightharpoonup> int) \<Rightarrow> (string \<rightharpoonup> int) \<Rightarrow> string \<Rightarrow> Sample" where
  "identity_sample per cumRx cumTx u =
    \<lparr>sm_PublicKey = u, sm_Email = u, sm_Rx = map_get 0 cumRx u, sm_Tx = map_get 0 cumTx u,
     sm_EndpointIP = (case map_get [] per u of [] \<Rightarrow> [] | sa # _ \<Rightarrow> sa_Remote sa)\<rparr>"

lemma poll_identities:
  assumes "distinct order"
  shows "fold (poll_identity now per gRx gTx) order (st, Map.empty, []) =
    (st\<lparr>k2_cumRx := grown order gRx (k2_cumRx st), k2_cumTx := grown order gTx (k2_cumTx st),
        k2_totalRx := (if order = [] then k2_totalRx st else i64 (k2_totalRx st + (\<Sum>u\<leftarrow>order. map_get 0 gRx u))),
        k2_totalTx := (if order = [] then k2_totalTx st else i64 (k2_totalTx st + (\<Sum>u\<leftarrow>order. map_get 0 gTx u)))\<rparr>,
     (\<lambda>u. if u \<in> set order then Some (fold (note_remote now) (map_get [] per u) Map.empty) else None),
     map (identity_sample per (grown order gRx (k2_cumRx st)) (grown order gTx (k2_cumTx st))) order)"
  using assms
proof (induction order rule: rev_induct)
  case Nil
  then show ?case by (simp add: grown_def)
next
  case (snoc u us)
  then have u: "u \<notin> set us" and d: "distinct us" by simp_all
  have same: "map_get 0 (grown (us @ [u]) g m) v = map_get 0 (grown us g m) v" if "v \<in> set us" for g m v
    using that u by (auto simp: grown_def map_get_def)
  have "map (identity_sample per (grown us gRx a) (grown us gTx b)) us =
      map (identity_sample per (grown (us @ [u]) gRx a) (grown (us @ [u]) gTx b)) us" for a b
    using same by (simp add: identity_sample_def)
  with snoc.IH [OF d] show ?case
    by (auto simp: poll_identity_def Let_def case_prod_beta grown_snoc [OF u] identity_sample_def
        i64_add_left add.assoc fun_eq_iff)
qed

lemma note_remotes:
  "fold (note_remote now) sas Map.empty =
    (\<lambda>ip. if ip \<in> sa_Remote ` set sas \<and> ip \<noteq> [] then Some (unix_time now) else None)"
  by (induction sas rule: rev_induct) (auto simp: note_remote_def fun_eq_iff)

lemma k2_poll_result:
  fixes st :: IKEv2
  assumes "listSAs answer = Inr sas" "distinct (map sa_IKEID sas)" "distinct (ie_order1 env)"
  defines "st' \<equiv> snd (k2_poll env answer st)"
    and "gRx \<equiv> growths_by sa_Identity (sa_growthRx (k2_saSeen st)) sas Map.empty"
    and "gTx \<equiv> growths_by sa_Identity (sa_growthTx (k2_saSeen st)) sas Map.empty"
  shows "k2_cumRx st' = grown (ie_order1 env) gRx (k2_cumRx st)"
    "k2_cumTx st' = grown (ie_order1 env) gTx (k2_cumTx st)"
    "k2_totalRx st' = (if ie_order1 env = [] then k2_totalRx st
       else i64 (k2_totalRx st + (\<Sum>u\<leftarrow>ie_order1 env. map_get 0 gRx u)))"
    "k2_totalTx st' = (if ie_order1 env = [] then k2_totalTx st
       else i64 (k2_totalTx st + (\<Sum>u\<leftarrow>ie_order1 env. map_get 0 gTx u)))"
    "k2_saSeen st' = last_seen sas"
    "k2_onlineIPs st' = (\<lambda>u. if u \<in> set (ie_order1 env)
       then Some (\<lambda>ip. if ip \<in> sa_Remote ` set (sas_of sas u) \<and> ip \<noteq> [] then Some (unix_time (ie_now1 env)) else None)
       else None)"
proof -
  note p = k2_poll_def assms(1) sum.case Let_def case_prod_beta count_sas [OF assms(2)] poll_identities [OF assms(3)]
  show "k2_cumRx st' = grown (ie_order1 env) gRx (k2_cumRx st)"
    "k2_cumTx st' = grown (ie_order1 env) gTx (k2_cumTx st)"
    "k2_totalRx st' = (if ie_order1 env = [] then k2_totalRx st
       else i64 (k2_totalRx st + (\<Sum>u\<leftarrow>ie_order1 env. map_get 0 gRx u)))"
    "k2_totalTx st' = (if ie_order1 env = [] then k2_totalTx st
       else i64 (k2_totalTx st + (\<Sum>u\<leftarrow>ie_order1 env. map_get 0 gTx u)))"
    unfolding st'_def gRx_def gTx_def p by simp_all
  have "forget_sas sas (seen ++ last_seen sas) = last_seen sas" for seen
    using dom_last_seen [of sas] by (auto simp: forget_sas_def map_add_def fun_eq_iff split: option.split)
  then show "k2_saSeen st' = last_seen sas"
    unfolding st'_def p by simp
  show "k2_onlineIPs st' = (\<lambda>u. if u \<in> set (ie_order1 env)
       then Some (\<lambda>ip. if ip \<in> sa_Remote ` set (sas_of sas u) \<and> ip \<noteq> [] then Some (unix_time (ie_now1 env)) else None)
       else None)"
    unfolding st'_def p by (auto simp: note_remotes fun_eq_iff)
qed

lemma growths_total:
  assumes "enumerates order (group_sas sas)"
  shows "i64 (t + (\<Sum>u\<leftarrow>order. map_get 0 (growths_by sa_Identity g sas Map.empty) u)) = i64 (t + (\<Sum>sa\<leftarrow>sas. g sa))"
  using assms sum_by_key [of order sa_Identity sas g]
  by (simp add: growths_by_get i64_sum_list enumerates_def dom_group_sas)

section \<open>Properties\<close>

text \<open>After a poll of the IKEv2 back end the associations that it did not ask charon to terminate come, for
  every identity with a device limit, from exactly the first client addresses in sorted order, as many as the
  limit allows, and identities without a limit keep all of theirs. For a limited user KeepDevices with the limit
  asks to terminate exactly the same associations of the user, in the same order.\<close>

theorem ikev2_poll_limits:
  assumes "listSAs answer = Inr sas" and "distinct (map sa_IKEID sas)" and "length sas < 2 ^ 32"
    and "enumerates (ie_order2 env) (group_sas sas)" and "k2_poll env answer st = (killed, st')"
  shows "client_ips (sas_of (without killed sas) u) =
      (if limitFor (k2_users st) u = 0 then client_ips (sas_of sas u)
       else take (unat (limitFor (k2_users st) u)) (client_ips (sas_of sas u))) \<and>
    (limitFor (k2_users st) u \<noteq> 0 \<longrightarrow>
      k2_enforce_identity (k2_users st) (group_sas sas) u =
      k2_KeepDevices answer u (uint (limitFor (k2_users st) u)))"
proof -
  let ?l = "limitFor (k2_users st) u"
  have "killed = k2_enforceDeviceLimits (ie_order2 env) (k2_users st') (group_sas sas)"
    using assms(5) by (auto simp: k2_poll_def assms(1) Let_def case_prod_beta)
  moreover have "k2_users st' = k2_users st" using poll_users_unchanged [of env answer st] assms(5) by simp
  ultimately have k: "killed = k2_enforceDeviceLimits (ie_order2 env) (k2_users st) (group_sas sas)" by simp
  have o: "set (ie_order2 env) = sa_Identity ` set sas"
    using enumerates_set [OF assms(4)] by (simp add: dom_group_sas)
  note ids = enforced_ids [OF assms(2,3) o, of _ u "k2_users st", folded k]
  have "without killed (sas_of sas u) = (if ?l = 0 then sas_of sas u else without (evict_ips (unat ?l) (sas_of sas u)) (sas_of sas u))"
    unfolding without_def using ids by (auto intro!: filter_cong filter_True)
  then show ?thesis
    using client_ips_evicted [OF sas_of_distinct [OF assms(2)], of "unat ?l" u]
    by (simp add: sas_of_without enforce_identity_eq [OF assms(3)] k2_KeepDevices_def assms(1))
qed

definition lab_sa :: "string \<Rightarrow> string \<Rightarrow> string \<Rightarrow> ViciMessage" where
  "lab_sa ident ip uid = [(''main'', ViciMsg [(''uniqueid'', ViciStr uid), (''remote-eap-id'', ViciStr ident), (''remote-host'', ViciStr ip)])]"

definition lab_k2 :: IKEv2 where
  "lab_k2 = new_IKEv2 \<lparr>kc_InboundTag = ''ike'', kc_ServerAddr = [], kc_Identity = [], kc_Pool = [], kc_EgressInterface = [],
     kc_DNS = [], kc_IKEProposals = [], kc_ESPProposals = [], kc_CACert = [], kc_ServerCert = [], kc_ServerKey = []\<rparr>
     [Some \<lparr>u_Email = ''ann'', u_Proxies = Some (empty_Proxy\<lparr>px_Ikev2 := Some \<lparr>ik_Username = ''ann'', ik_Password = ''pw''\<rparr>\<rparr>),
            u_Inbounds = [''ike''], u_IpLimit = 1, u_SpeedLimit = 0\<rparr>] Map.empty"

definition lab_sas :: "saInfo list" where
  "lab_sas = map (\<lambda>(ip, i). \<lparr>sa_IKEID = i, sa_Identity = ''ann'', sa_Remote = ip, sa_VirtualIPs = [], sa_BytesIn = 0, sa_BytesOut = 0\<rparr>)
     [(''5.5.5.5'', 7), (''1.1.1.1'', 8)]"

lemma lab_listSAs: "listSAs (Inr [lab_sa ''ann'' ''5.5.5.5'' ''7'', lab_sa ''ann'' ''1.1.1.1'' ''8'']) = Inr lab_sas"
proof -
  have d: "digit_val CHR ''7'' = Some 7" "digit_val CHR ''8'' = Some 8" by code_simp+
  have p: "parseInt64 ''7'' = 7" "parseInt64 ''8'' = 8"
    by (simp_all add: parseInt64_def scan_base_def is_digit_def is_space_def d Let_def)
  show ?thesis
    unfolding listSAs_def
    by (simp add: message_sas_def lab_sa_def vici_Keys_def vici_Get_def map_filter_simps sa_info_def msgString_def
        msgStringList_def child_bytes_def lab_sas_def p Let_def)
qed

lemma lab_limit: "limitFor (k2_users lab_k2) ''ann'' = 1"
  by (simp add: lab_k2_def new_IKEv2_def ikev2_replaceAll_def replaceAll_def next_user_def wantsInterface_def ikev2_creds_def
      newUserStore_def limitFor_def user_entry_def go_defs Let_def)

theorem ikev2_poll_limits_witness:
  "\<exists>killed st'. k2_poll \<lparr>ie_order1 = [''ann''], ie_order2 = [''ann''], ie_now1 = 0, ie_now2 = 0\<rparr>
      (Inr [lab_sa ''ann'' ''5.5.5.5'' ''7'', lab_sa ''ann'' ''1.1.1.1'' ''8'']) lab_k2 = (killed, st') \<and>
    client_ips (sas_of (without killed lab_sas) ''ann'') = [''1.1.1.1'']"
proof -
  let ?env = "\<lparr>ie_order1 = [''ann''], ie_order2 = [''ann''], ie_now1 = 0, ie_now2 = 0\<rparr>"
  let ?ans = "Inr [lab_sa ''ann'' ''5.5.5.5'' ''7'', lab_sa ''ann'' ''1.1.1.1'' ''8'']"
  obtain killed st' where k: "k2_poll ?env ?ans lab_k2 = (killed, st')" by (cases "k2_poll ?env ?ans lab_k2")
  have "enumerates (ie_order2 ?env) (group_sas lab_sas)"
    by (simp add: enumerates_def dom_group_sas) (simp add: lab_sas_def)
  moreover have "distinct (map sa_IKEID lab_sas)" "length lab_sas < 2 ^ 32" by (simp_all add: lab_sas_def)
  moreover have "client_ips (sas_of lab_sas ''ann'') = [''1.1.1.1'', ''5.5.5.5'']"
    by code_simp
  ultimately show ?thesis
    using k ikev2_poll_limits [OF lab_listSAs _ _ _ k, of "''ann''"] lab_limit by simp
qed

text \<open>A poll of the IKEv2 back end adds to the counters of every identity exactly the growth of its associations
  since the last poll, the whole counter when it went backwards, whatever the order of the loop; the totals grow
  by the growth of all associations, the last-seen counters become those of the associations that are up, and the
  identities are online from exactly the client addresses of theirs.\<close>

theorem ikev2_poll_accounting:
  assumes "listSAs answer = Inr sas" and "distinct (map sa_IKEID sas)" and "enumerates (ie_order1 env) (group_sas sas)"
    and "st' = snd (k2_poll env answer st)"
  shows "(\<forall>u. map_get 0 (k2_cumRx st') u = (if sas_of sas u = [] then map_get 0 (k2_cumRx st) u
        else i64 (map_get 0 (k2_cumRx st) u + (\<Sum>sa\<leftarrow>sas_of sas u. sa_growthRx (k2_saSeen st) sa)))) \<and>
    (\<forall>u. map_get 0 (k2_cumTx st') u = (if sas_of sas u = [] then map_get 0 (k2_cumTx st) u
        else i64 (map_get 0 (k2_cumTx st) u + (\<Sum>sa\<leftarrow>sas_of sas u. sa_growthTx (k2_saSeen st) sa)))) \<and>
    (sas \<noteq> [] \<longrightarrow> k2_totalRx st' = i64 (k2_totalRx st + (\<Sum>sa\<leftarrow>sas. sa_growthRx (k2_saSeen st) sa)) \<and>
      k2_totalTx st' = i64 (k2_totalTx st + (\<Sum>sa\<leftarrow>sas. sa_growthTx (k2_saSeen st) sa))) \<and>
    k2_saSeen st' = last_seen sas \<and>
    (\<forall>u. dom (map_get Map.empty (k2_onlineIPs st') u) = sa_Remote ` set (sas_of sas u) - {[]})"
proof -
  note r = k2_poll_result [OF assms(1,2) enumerates_distinct [OF assms(3)], of st, folded assms(4)]
  have mem: "u \<in> set (ie_order1 env) \<longleftrightarrow> sas_of sas u \<noteq> []" for u
    using enumerates_set [OF assms(3)] by (auto simp: dom_group_sas sas_of_def filter_empty_conv)
  have emp: "ie_order1 env = [] \<longleftrightarrow> sas = []"
    using enumerates_set [OF assms(3)] by (auto simp: dom_group_sas)
  have cum: "map_get 0 (growths_by sa_Identity g sas Map.empty) u = i64 (\<Sum>sa\<leftarrow>sas_of sas u. g sa)" for g u
    by (simp add: growths_by_get sas_of_def)
  have "dom (map_get Map.empty (k2_onlineIPs st') u) = sa_Remote ` set (sas_of sas u) - {[]}" for u
    by (auto simp: r mem map_get_def split: if_splits)
  then show ?thesis
    by (simp add: r map_get_grown mem emp cum i64_add_right growths_total [OF assms(3)])
qed

theorem ikev2_poll_accounting_witness:
  "k2_saSeen (snd (k2_poll \<lparr>ie_order1 = [''ann''], ie_order2 = [''ann''], ie_now1 = 0, ie_now2 = 0\<rparr>
      (Inr [lab_sa ''ann'' ''5.5.5.5'' ''7'', lab_sa ''ann'' ''1.1.1.1'' ''8'']) lab_k2)) = last_seen lab_sas"
proof -
  have "enumerates (ie_order1 \<lparr>ie_order1 = [''ann''], ie_order2 = [''ann''], ie_now1 = 0, ie_now2 = 0\<rparr>) (group_sas lab_sas)"
    by (simp add: enumerates_def dom_group_sas) (simp add: lab_sas_def)
  moreover have "distinct (map sa_IKEID lab_sas)" by (simp add: lab_sas_def)
  ultimately show ?thesis using ikev2_poll_accounting [OF lab_listSAs _ _ refl] by blast
qed



end
