(* ===== verification/Ikev2Sync.thy ===== *)
theory Ikev2Sync
  imports Ikev2Correct
begin

text \<open>
  The user synchronisation of the IKEv2 back end: which secrets are unloaded and which associations terminated, what
  the connection file holds; the split of certificate bundles; and what the shared daemon means for a poll.
\<close>

section \<open>Requests of a revocation\<close>

definition gone_ok :: "(string set \<Rightarrow> string list) \<Rightarrow> bool" where
  "gone_ok ord \<longleftrightarrow> (\<forall>S. finite S \<longrightarrow> distinct (ord S) \<and> set (ord S) = S)"

definition disk_ok :: "IkDisk \<Rightarrow> bool" where
  "disk_ok dk \<longleftrightarrow> (\<forall>path f t f'. dk_write dk path f t = (None, f') \<longrightarrow> f' = Some t)"

lemma revoke_calls:
  assumes "gone_ok ord" "listSAs answer = Inr sas" "[] \<notin> set removed"
  shows "UnloadShared i \<in> set (revokeUsers (ord (set (filter (\<lambda>u. u \<noteq> []) removed))) removed answer) \<longleftrightarrow>
      i \<in> eapSecretID ` set removed"
    and "TerminateIKE n \<in> set (revokeUsers (ord (set (filter (\<lambda>u. u \<noteq> []) removed))) removed answer) \<longleftrightarrow>
      (\<exists>sa\<in>set sas. sa_IKEID sa = n \<and> sa_Identity sa \<in> set removed)"
proof -
  have f: "filter (\<lambda>u. u \<noteq> []) removed = removed" using assms(3) by (auto intro!: filter_True)
  have o: "set (ord (set removed)) = set removed" using assms(1) by (simp add: gone_ok_def)
  show "UnloadShared i \<in> set (revokeUsers (ord (set (filter (\<lambda>u. u \<noteq> []) removed))) removed answer) \<longleftrightarrow>
      i \<in> eapSecretID ` set removed"
    "TerminateIKE n \<in> set (revokeUsers (ord (set (filter (\<lambda>u. u \<noteq> []) removed))) removed answer) \<longleftrightarrow>
      (\<exists>sa\<in>set sas. sa_IKEID sa = n \<and> sa_Identity sa \<in> set removed)"
    unfolding f revokeUsers_def Let_def by (auto simp: o assms(2))
qed

lemma reload_state:
  assumes "k2_reload env st = (err, st')"
  shows "k2_users st' = k2_users st" "k2_config st' = k2_config st"
    "disk_ok (is_disk env) \<Longrightarrow> err = None \<Longrightarrow> k2_files st' (conf_path (is_disk env) (k2_config st)) =
      Some (swanctl_text (dk_users (is_disk env)) (k2_config st) (k2_users st))"
  using assms
  by (auto simp: k2_reload_def writeSwanctl_def write_file_def disk_ok_def split: prod.splits option.splits)

section \<open>Certificate bundles\<close>

lemma unsplit: "concat (map (\<lambda>l. l @ [sep]) (split_at_char sep s)) = s @ [sep]"
proof (induction s)
  case (Cons c s)
  then show ?case by (cases "split_at_char sep s") (auto split: if_splits)
qed simp

text \<open>A certificate: no white space around it, and its last line, and no other, is the end mark.\<close>

definition pem_block :: "string \<Rightarrow> bool" where
  "pem_block c \<longleftrightarrow> trim_space c = c \<and>
    (\<forall>l\<in>set (butlast (split_at_char nl c)). \<not> str_contains l ''END CERTIFICATE'') \<and>
    str_contains (last (split_at_char nl c)) ''END CERTIFICATE''"

lemma pem_lines:
  assumes "ls \<noteq> []" "\<forall>l\<in>set (butlast ls). \<not> str_contains l ''END CERTIFICATE''"
    "str_contains (last ls) ''END CERTIFICATE''" "cur \<noteq> [] \<or> trim_space (hd ls) \<noteq> []"
  shows "fold pem_line ls (out, cur) = (out @ [trim_space (cur @ concat (map (\<lambda>l. l @ [nl]) ls))], [])"
  using assms
proof (induction ls arbitrary: cur)
  case (Cons l ls)
  show ?case
  proof (cases "ls = []")
    case True
    then show ?thesis using Cons.prems by (auto simp: pem_line_def Let_def)
  next
    case False
    then have "pem_line l (out, cur) = (out, cur @ l @ [nl])"
      using Cons.prems by (auto simp: pem_line_def Let_def)
    moreover have "fold pem_line ls (out, cur @ l @ [nl]) =
        (out @ [trim_space ((cur @ l @ [nl]) @ concat (map (\<lambda>l. l @ [nl]) ls))], [])"
      using Cons.prems False by (intro Cons.IH) auto
    ultimately show ?thesis by simp
  qed
qed simp

lemma trim_space_fix_hd: "trim_space (x # c) = x # c \<Longrightarrow> \<not> is_space x"
proof
  assume t: "trim_space (x # c) = x # c" and "is_space x"
  then have "length (trim_space (x # c)) = length (dropWhile is_space (rev (dropWhile is_space c)))"
    by (simp add: trim_space_def)
  also have "\<dots> \<le> length c" by (metis length_dropWhile_le length_rev order_trans)
  finally show False using t by simp
qed

lemma pem_block_first:
  assumes "pem_block c"
  shows "trim_space (hd (split_at_char nl c)) \<noteq> []"
proof
  assume blank: "trim_space (hd (split_at_char nl c)) = []"
  have "c \<noteq> []" using assms by (auto simp: pem_block_def)
  then obtain x xs where c: "c = x # xs" by (cases c) auto
  have "\<not> is_space x" using trim_space_fix_hd [of x xs] assms by (simp add: pem_block_def c)
  moreover have "is_space nl" by (simp add: is_space_def)
  ultimately have "x \<in> set (hd (split_at_char nl c))" by (auto simp: c split: list.split)
  with blank \<open>\<not> is_space x\<close> show False using trim_space_blank by blast
qed

lemma pem_block_fold: "pem_block c \<Longrightarrow> fold pem_line (split_at_char nl c) (out, []) = (out @ [c], [])"
proof -
  assume c: "pem_block c"
  have "is_space nl" by (simp add: is_space_def)
  then have "trim_space (concat (map (\<lambda>l. l @ [nl]) (split_at_char nl c))) = c"
    using c by (simp add: unsplit trim_space_snoc pem_block_def)
  then show ?thesis
    using pem_lines [of "split_at_char nl c" "[]" out] c pem_block_first [OF c] by (simp add: pem_block_def)
qed

lemma pem_blocks_fold:
  "\<forall>c\<in>set certs. pem_block c \<Longrightarrow>
    fold pem_line (split_at_char nl (concat (map (\<lambda>c. c @ [nl]) certs))) (out, []) = (out @ certs, [])"
proof (induction certs arbitrary: out)
  case Nil
  then show ?case by (simp add: pem_line_def)
next
  case (Cons c certs)
  then show ?case by (simp add: split_at_char_append pem_block_fold)
qed

section \<open>Connections of the shared daemon\<close>

definition rename :: "(string \<Rightarrow> string) \<Rightarrow> ViciMessage list \<Rightarrow> ViciMessage list" where
  "rename f messages = map (map (\<lambda>(k, v). (f k, v))) messages"

definition value_sa :: "ViciVal \<Rightarrow> saInfo option" where
  "value_sa v = (case v of ViciMsg ike \<Rightarrow> (if sa_Identity (sa_info ike) = [] then None else Some (sa_info ike)) | _ \<Rightarrow> None)"

lemma message_sas_values:
  assumes "distinct (map fst m)"
  shows "message_sas m = List.map_filter (\<lambda>(k, v). value_sa v) m"
proof -
  have "message_sas m = List.map_filter (\<lambda>k. case map_of m k of Some v \<Rightarrow> value_sa v | None \<Rightarrow> None) (map fst m)"
    unfolding message_sas_def vici_Get_def vici_Keys_def Let_def value_sa_def
    by (rule arg_cong [where f = "\<lambda>g. List.map_filter g (map fst m)"]) (auto split: option.split ViciVal.split)
  also have "\<dots> = List.map_filter (\<lambda>(k, v). value_sa v) m"
    unfolding List.map_filter_def using assms by (auto simp: filter_map comp_def intro!: map_cong filter_cong)
  finally show ?thesis .
qed

lemma listSAs_rename:
  assumes "\<forall>m\<in>set messages. distinct (map fst m)" "inj f"
  shows "listSAs (Inr (rename f messages)) = listSAs (Inr messages)"
proof -
  have "message_sas (map (\<lambda>(k, v). (f k, v)) m) = message_sas m" if "m \<in> set messages" for m
  proof -
    have d: "distinct (map fst m)" using that assms(1) by blast
    have "map fst (map (\<lambda>(k, v). (f k, v)) m) = map f (map fst m)" by (simp add: case_prod_beta comp_def)
    then have "distinct (map fst (map (\<lambda>(k, v). (f k, v)) m))"
      using d assms(2) by (metis distinct_map inj_on_subset subset_UNIV)
    then show ?thesis
      by (simp add: message_sas_values d List.map_filter_def filter_map comp_def case_prod_beta)
  qed
  then have "map message_sas (rename f messages) = map message_sas messages" by (simp add: rename_def)
  then show ?thesis by (simp add: listSAs_def)
qed

section \<open>Properties\<close>

text \<open>A full synchronisation of the IKEv2 back end leaves exactly the logins that the listed users ask for. It
  unloads exactly the secrets of the logins that are gone and asks charon to terminate exactly the associations of
  these users, even when writing the connection or loading it fails; when it reports no error, the connection file
  is the one of the new logins.\<close>

theorem ikev2_SyncUsers_revokes:
  assumes "enumerates order (us_users (k2_users st))" and "store_ok (k2_users st)" and "gone_ok (is_gone env)"
    and "listSAs (is_answer env) = Inr sas" and "k2_SyncUsers env order users st = (err, calls, st')"
    and "removed = dom (us_users (k2_users st)) - dom (us_users (k2_users st'))"
  shows "us_users (k2_users st') = map_of (rev (List.map_filter (asked ikev2_creds (us_inboundTag (k2_users st))) users)) \<and>
    (\<forall>i. UnloadShared i \<in> set calls \<longleftrightarrow> i \<in> eapSecretID ` removed) \<and>
    (\<forall>n. TerminateIKE n \<in> set calls \<longleftrightarrow> (\<exists>sa\<in>set sas. sa_IKEID sa = n \<and> sa_Identity sa \<in> removed)) \<and>
    (disk_ok (is_disk env) \<and> err = None \<longrightarrow> k2_files st' (conf_path (is_disk env) (k2_config st)) =
      Some (swanctl_text (dk_users (is_disk env)) (k2_config st) (k2_users st')))"
proof -
  obtain gone s where r: "ikev2_replaceAll order users (k2_users st) = (gone, s)"
    by (cases "ikev2_replaceAll order users (k2_users st)")
  then have r': "gone = fst (replaceAll ikev2_creds order users (k2_users st))"
    "s = snd (replaceAll ikev2_creds order users (k2_users st))" by (simp_all add: ikev2_replaceAll_def)
  obtain e st1 where rl: "k2_reload env (st\<lparr>k2_users := s\<rparr>) = (e, st1)" by (cases "k2_reload env (st\<lparr>k2_users := s\<rparr>)")
  have res: "err = e" "st' = st1" "calls = revokeUsers (is_gone env (set (filter (\<lambda>u. u \<noteq> []) gone))) gone (is_answer env)"
    using assms(5) by (auto simp: k2_SyncUsers_def r reload_and_revoke_def rl)
  note st1 = reload_state [OF rl]
  have u: "k2_users st' = s" using st1(1) res by simp
  have g: "set gone = removed"
    unfolding assms(6) u r' using enumerates_set [OF assms(1)] by (auto simp: replaceAll_def Let_def)
  have "[] \<notin> set gone" unfolding g using assms(2,6) by (auto simp: store_ok_def)
  note c = revoke_calls [OF assms(3,4) this, folded res(3), unfolded g]
  have l: "us_users s = map_of (rev (List.map_filter (asked ikev2_creds (us_inboundTag (k2_users st))) users))"
    unfolding r' by (rule replaceAll_users)
  show ?thesis
    using c l u st1(3) res by auto
qed

definition lab_sync :: IkSyncEnv where
  "lab_sync = \<lparr>is_disk = \<lparr>dk_mkdir = (\<lambda>_. None), dk_glob = [], dk_write = (\<lambda>p f t. (None, Some t)), dk_join = concat, dk_order = [],
       dk_users = []\<rparr>, is_load = (None, []),
     is_answer = Inr [lab_sa ''ann'' ''5.5.5.5'' ''7'', lab_sa ''ann'' ''1.1.1.1'' ''8''],
     is_gone = (\<lambda>S. sorted_list_of_set S)\<rparr>"

lemma lab_store: "us_users (k2_users lab_k2) = [''ann'' \<mapsto> \<lparr>ue_password = ''pw'', ue_ipLimit = 1, ue_speedLimit = 0\<rparr>]"
  by (simp add: lab_k2_def new_IKEv2_def ikev2_replaceAll_def replaceAll_def next_user_def wantsInterface_def ikev2_creds_def
      newUserStore_def user_entry_def go_defs Let_def)

theorem ikev2_SyncUsers_revokes_witness:
  "set (fst (snd (k2_SyncUsers lab_sync [''ann''] [] lab_k2))) \<supseteq> {UnloadShared ''eap-ann'', TerminateIKE 7, TerminateIKE 8}"
proof -
  obtain err calls st' where k: "k2_SyncUsers lab_sync [''ann''] [] lab_k2 = (err, calls, st')"
    by (cases "k2_SyncUsers lab_sync [''ann''] [] lab_k2")
  have "enumerates [''ann''] (us_users (k2_users lab_k2))" "store_ok (k2_users lab_k2)"
    by (simp_all add: enumerates_def store_ok_def lab_store)
  moreover have "gone_ok (is_gone lab_sync)" by (simp add: gone_ok_def lab_sync_def)
  moreover have "listSAs (is_answer lab_sync) = Inr lab_sas" by (simp add: lab_sync_def lab_listSAs)
  ultimately have
    "us_users (k2_users st') = map_of (rev (List.map_filter (asked ikev2_creds (us_inboundTag (k2_users lab_k2))) []))"
    "\<forall>i. UnloadShared i \<in> set calls \<longleftrightarrow> i \<in> eapSecretID ` (dom (us_users (k2_users lab_k2)) - dom (us_users (k2_users st')))"
    "\<forall>n. TerminateIKE n \<in> set calls \<longleftrightarrow> (\<exists>sa\<in>set lab_sas. sa_IKEID sa = n \<and>
        sa_Identity sa \<in> dom (us_users (k2_users lab_k2)) - dom (us_users (k2_users st')))"
    using ikev2_SyncUsers_revokes [OF _ _ _ _ k refl] by blast+
  then show ?thesis
    by (simp add: k lab_store map_filter_simps eapSecretID_def lab_sas_def)
qed

text \<open>A certificate bundle splits into the certificates it was put together from: when every certificate has no
  white space around it and ends with its only end mark, writing them one after the other, each on lines of its own,
  and splitting the text gives the same certificates in the same order.\<close>

theorem splitPEMCerts_roundtrip:
  assumes "\<forall>c\<in>set certs. pem_block c"
  shows "splitPEMCerts (concat (map (\<lambda>c. c @ [nl]) certs)) = certs"
  using pem_blocks_fold [OF assms, of "[]"] by (simp add: splitPEMCerts_def)

theorem splitPEMCerts_roundtrip_witness:
  "splitPEMCerts (concat (map (\<lambda>c. c @ [nl]) [''a'' @ [nl] @ ''END CERTIFICATE'', ''END CERTIFICATE''])) =
    [''a'' @ [nl] @ ''END CERTIFICATE'', ''END CERTIFICATE'']"
proof (rule splitPEMCerts_roundtrip)
  have "pem_block (''a'' @ [nl] @ ''END CERTIFICATE'')" "pem_block ''END CERTIFICATE''" by code_simp+
  then show "\<forall>c\<in>set [''a'' @ [nl] @ ''END CERTIFICATE'', ''END CERTIFICATE'']. pem_block c" by simp
qed

text \<open>The IKEv2 back end does not look at the connection an association belongs to: under other connection names
  a poll counts and terminates the same. The daemon is shared, so the associations of the L2TP core and of other
  IKEv2 cores are counted, limited and reported as its own.\<close>

theorem ikev2_poll_ignores_connections:
  assumes "\<forall>m\<in>set messages. distinct (map fst m)" and "inj f"
  shows "k2_poll env (Inr (rename f messages)) st = k2_poll env (Inr messages) st \<and>
    k2_KeepDevices (Inr (rename f messages)) user keep = k2_KeepDevices (Inr messages) user keep \<and>
    revokeUsers order usernames (Inr (rename f messages)) = revokeUsers order usernames (Inr messages)"
  unfolding k2_poll_def k2_KeepDevices_def revokeUsers_def listSAs_rename [OF assms] by (intro conjI refl)

theorem ikev2_poll_ignores_connections_witness:
  "k2_KeepDevices (Inr (rename (\<lambda>k. k @ ''-l2tp'') [lab_sa ''ann'' ''5.5.5.5'' ''7''])) ''ann'' 0 =
    k2_KeepDevices (Inr [lab_sa ''ann'' ''5.5.5.5'' ''7'']) ''ann'' 0"
proof -
  have "inj (\<lambda>k. k @ ''-l2tp'')" by (simp add: inj_on_def)
  moreover have "\<forall>m\<in>set [lab_sa ''ann'' ''5.5.5.5'' ''7'']. distinct (map fst m)" by (simp add: lab_sa_def)
  ultimately show ?thesis using ikev2_poll_ignores_connections by blast
qed

end
