(* ===== verification/AutoCert.thy ===== *)
theory AutoCert
  imports Ikev2
begin

text \<open>
  The certificate of a node's own host name, \<open>backend/ikev2/autocert.go\<close>: reading the stored certificate, the ACME order, the fall-back on a
  failed renewal, and the watcher that renews. The ACME client, the cryptographic packages and the system are fields of an environment; the
  state holds the files and the listeners of the HTTP challenge. The set-up is an instance of the parameter of the start of the IKEv2 core in
  \<open>Ikev2\<close>.
\<close>

section \<open>The environment\<close>

text \<open>An authorization: whether it is valid already, its challenges with type and token, and its address.\<close>

record Authz =
  az_valid :: bool
  az_Challenges :: "(string \<times> string) list"
  az_URI :: string

text \<open>A listener of the challenge: its port, the path and the answer it gives there.\<close>

type_synonym listener = "string \<times> string \<times> string"

text \<open>
  A client of ACME is an account key with the address of the directory. An error of the registration tells whether it is
  \<open>ErrAccountAlreadyExists\<close>. What the authority answers may depend on what the node serves meanwhile. \<open>ae_write\<close> is the error of a write with
  what the file holds after it.
\<close>

record ('k, 'l) AcEnv =
  ae_Getenv :: "string \<Rightarrow> string"
  ae_Join :: "string list \<Rightarrow> string"
  ae_Dir :: "string \<Rightarrow> string"
  ae_readable :: "string \<Rightarrow> bool"
  ae_MkdirAll :: "string \<Rightarrow> string option"
  ae_write :: "string \<Rightarrow> (string \<times> string option) option"
  ae_Listen :: "string \<Rightarrow> string option"
  ae_pem :: "string \<Rightarrow> string option"
  ae_encode :: "string \<Rightarrow> string \<Rightarrow> string"
  ae_ParseCertificate :: "string \<Rightarrow> 'l option"
  ae_VerifyHostname :: "'l \<Rightarrow> string \<Rightarrow> bool"
  ae_NotAfter :: "'l \<Rightarrow> gotime"
  ae_ParseKey :: "string \<Rightarrow> 'k option"
  ae_Marshal :: "'k \<Rightarrow> string"
  ae_accountKey :: "string + 'k"
  ae_certKey :: "string + 'k"
  ae_csr :: "string \<Rightarrow> 'k \<Rightarrow> string + string"
  am_Register :: "'k \<times> string \<Rightarrow> (bool \<times> string) option"
  am_AuthorizeOrder :: "'k \<times> string \<Rightarrow> string \<Rightarrow> string + string list \<times> string"
  am_GetAuthorization :: "'k \<times> string \<Rightarrow> string \<Rightarrow> string + Authz"
  am_Response :: "'k \<times> string \<Rightarrow> string \<Rightarrow> string + string"
  am_Path :: "'k \<times> string \<Rightarrow> string \<Rightarrow> string"
  am_Accept :: "'k \<times> string \<Rightarrow> listener list \<Rightarrow> string \<Rightarrow> string option"
  am_WaitAuthorization :: "'k \<times> string \<Rightarrow> listener list \<Rightarrow> string \<Rightarrow> string option"
  am_CreateOrderCert :: "'k \<times> string \<Rightarrow> string \<Rightarrow> string \<Rightarrow> string + string list"

record AcState =
  ac_files :: "string \<rightharpoonup> string"
  ac_listeners :: "listener list"

definition ac_write :: "('k, 'l) AcEnv \<Rightarrow> string \<Rightarrow> string \<Rightarrow> AcState \<Rightarrow> string option \<times> AcState" where
  "ac_write env path contents st =
    (case ae_write env path of
       None \<Rightarrow> (None, st\<lparr>ac_files := (ac_files st)(path \<mapsto> contents)\<rparr>)
     | Some (e, left) \<Rightarrow> (Some e, st\<lparr>ac_files := (ac_files st)(path := left)\<rparr>))"

definition ac_read :: "('k, 'l) AcEnv \<Rightarrow> string \<Rightarrow> AcState \<Rightarrow> string option" where
  "ac_read env path st = (if ae_readable env path then ac_files st path else None)"

section \<open>Settings\<close>

definition autoCertDir :: string where
  "autoCertDir = ''/var/lib/hpx-node/certs/ikev2''"

definition autoCertRenewBefore :: int where
  "autoCertRenewBefore = 30 * 24 * 3600 * 1000000000"

definition autoCertDomain :: "('k, 'l) AcEnv \<Rightarrow> string" where
  "autoCertDomain env = trim_space (ae_Getenv env ''HPX_NODE_IKEV2_DOMAIN'')"

definition autoCertHTTPPort :: "('k, 'l) AcEnv \<Rightarrow> string" where
  "autoCertHTTPPort env =
    (let p = trim_space (ae_Getenv env ''HPX_NODE_IKEV2_HTTP_PORT'') in if p \<noteq> [] then p else ''80'')"

definition acmeDirectoryURL :: "('k, 'l) AcEnv \<Rightarrow> string" where
  "acmeDirectoryURL env =
    (let d = trim_space (ae_Getenv env ''HPX_NODE_IKEV2_ACME_DIRECTORY'')
     in if d \<noteq> [] then d else ''https://acme-v02.api.letsencrypt.org/directory'')"

definition autoCertPaths :: "('k, 'l) AcEnv \<Rightarrow> string \<Rightarrow> string \<times> string \<times> string" where
  "autoCertPaths env domain =
    (let dir = ae_Join env [autoCertDir, domain]
     in (ae_Join env [dir, ''cert.pem''], ae_Join env [dir, ''key.pem''], ae_Join env [dir, ''chain.pem'']))"

section \<open>The stored certificate\<close>

definition usable_cert :: "('k, 'l) AcEnv \<Rightarrow> gotime \<Rightarrow> string \<Rightarrow> string \<Rightarrow> bool" where
  "usable_cert env now domain certPEM =
    (case ae_pem env certPEM of
       None \<Rightarrow> False
     | Some bytes \<Rightarrow>
         (case ae_ParseCertificate env bytes of
            None \<Rightarrow> False
          | Some leaf \<Rightarrow> ae_VerifyHostname env leaf domain \<and> \<not> ae_NotAfter env leaf - now < autoCertRenewBefore))"

definition loadStoredCert :: "('k, 'l) AcEnv \<Rightarrow> gotime \<Rightarrow> string \<times> string \<times> string \<Rightarrow> string \<Rightarrow> AcState \<Rightarrow>
    (string \<times> string \<times> string) \<times> bool" where
  "loadStoredCert env now paths domain st =
    (case paths of (certFile, keyFile, chainFile) \<Rightarrow>
       (case ac_read env certFile st of
          None \<Rightarrow> (([], [], []), False)
        | Some certPEM \<Rightarrow>
            (case ac_read env keyFile st of
               None \<Rightarrow> (([], [], []), False)
             | Some keyPEM \<Rightarrow>
                 (case ac_read env chainFile st of
                    None \<Rightarrow> (([], [], []), False)
                  | Some chainPEM \<Rightarrow> ((certPEM, keyPEM, chainPEM), usable_cert env now domain certPEM)))))"

section \<open>The order\<close>

definition loadOrCreateAccountKey :: "('k, 'l) AcEnv \<Rightarrow> AcState \<Rightarrow> (string + 'k) \<times> AcState" where
  "loadOrCreateAccountKey env st =
    (let path = ae_Join env [autoCertDir, ''account.key'']
     in case Option.bind (Option.bind (ac_read env path st) (ae_pem env)) (ae_ParseKey env) of
          Some key \<Rightarrow> (Inr key, st)
        | None \<Rightarrow>
            (case ae_MkdirAll env autoCertDir of
               Some e \<Rightarrow> (Inl e, st)
             | None \<Rightarrow>
                 (case ae_accountKey env of
                    Inl e \<Rightarrow> (Inl e, st)
                  | Inr key \<Rightarrow>
                      (case ac_write env path (ae_encode env ''RSA PRIVATE KEY'' (ae_Marshal env key)) st of
                         (Some e, st') \<Rightarrow> (Inl e, st')
                       | (None, st') \<Rightarrow> (Inr key, st')))))"

definition serveHTTPChallenge :: "('k, 'l) AcEnv \<Rightarrow> 'k \<times> string \<Rightarrow> string \<Rightarrow> AcState \<Rightarrow> string option \<times> AcState" where
  "serveHTTPChallenge env client token st =
    (case am_Response env client token of
       Inl e \<Rightarrow> (Some e, st)
     | Inr response \<Rightarrow>
         (case ae_Listen env (autoCertHTTPPort env) of
            Some e \<Rightarrow> (Some (''listen on port '' @ autoCertHTTPPort env @ '' for the http-01 challenge (is something else using it?): '' @ e), st)
          | None \<Rightarrow> (None, st\<lparr>ac_listeners := (autoCertHTTPPort env, am_Path env client token, response) # ac_listeners st\<rparr>)))"

text \<open>The function that \<open>serveHTTPChallenge\<close> returns: \<open>Shutdown\<close> closes the listener whatever its own result is.\<close>

definition challenge_stop :: "AcState \<Rightarrow> AcState" where
  "challenge_stop st = st\<lparr>ac_listeners := tl (ac_listeners st)\<rparr>"

definition authorize_one :: "('k, 'l) AcEnv \<Rightarrow> 'k \<times> string \<Rightarrow> string \<Rightarrow> string \<Rightarrow> AcState \<Rightarrow> string option \<times> AcState" where
  "authorize_one env client domain authzURL st =
    (case am_GetAuthorization env client authzURL of
       Inl e \<Rightarrow> (Some (''get authorization: '' @ e), st)
     | Inr authz \<Rightarrow>
         if az_valid authz then (None, st)
         else (case find (\<lambda>c. fst c = ''http-01'') (az_Challenges authz) of
                 None \<Rightarrow> (Some (''no http-01 challenge offered for '' @ domain), st)
               | Some (_, token) \<Rightarrow>
                   (case serveHTTPChallenge env client token st of
                      (Some e, st1) \<Rightarrow> (Some e, st1)
                    | (None, st1) \<Rightarrow>
                        let acceptErr = (case am_Accept env client (ac_listeners st1) token of
                                           Some e \<Rightarrow> Some e
                                         | None \<Rightarrow> am_WaitAuthorization env client (ac_listeners st1) (az_URI authz))
                        in (case acceptErr of
                              Some e \<Rightarrow> (Some (''http-01 challenge failed: '' @ e), challenge_stop st1)
                            | None \<Rightarrow> (None, challenge_stop st1)))))"

fun authorize_all :: "('k, 'l) AcEnv \<Rightarrow> 'k \<times> string \<Rightarrow> string \<Rightarrow> string list \<Rightarrow> AcState \<Rightarrow> string option \<times> AcState" where
  "authorize_all env client domain [] st = (None, st)"
| "authorize_all env client domain (url # urls) st =
    (case authorize_one env client domain url st of
       (Some e, st') \<Rightarrow> (Some e, st')
     | (None, st') \<Rightarrow> authorize_all env client domain urls st')"

definition register_error :: "(bool \<times> string) option \<Rightarrow> string option" where
  "register_error r =
    (case r of
       None \<Rightarrow> None
     | Some (exists, e) \<Rightarrow> if exists \<or> str_contains (to_lower e) ''already'' then None else Some (''register acme account: '' @ e))"

text \<open>The three files, one after the other.\<close>

definition install_cert :: "('k, 'l) AcEnv \<Rightarrow> string \<Rightarrow> 'k \<Rightarrow> string list \<Rightarrow> AcState \<Rightarrow> string option \<times> AcState" where
  "install_cert env domain certKey der st =
    (case autoCertPaths env domain of (certFile, keyFile, chainFile) \<Rightarrow>
       let leafPEM = concat (map (ae_encode env ''CERTIFICATE'') (take 1 der));
           chainPEM = concat (map (ae_encode env ''CERTIFICATE'') (drop 1 der));
           keyPEM = ae_encode env ''RSA PRIVATE KEY'' (ae_Marshal env certKey)
       in case ac_write env certFile leafPEM st of
            (Some e, st1) \<Rightarrow> (Some e, st1)
          | (None, st1) \<Rightarrow>
              (case ac_write env keyFile keyPEM st1 of
                 (Some e, st2) \<Rightarrow> (Some e, st2)
               | (None, st2) \<Rightarrow> ac_write env chainFile chainPEM st2))"

definition order_cert :: "('k, 'l) AcEnv \<Rightarrow> 'k \<times> string \<Rightarrow> string \<Rightarrow> string \<Rightarrow> AcState \<Rightarrow> string option \<times> AcState" where
  "order_cert env client finalizeURL domain st =
    (case ae_certKey env of
       Inl e \<Rightarrow> (Some e, st)
     | Inr certKey \<Rightarrow>
         (case ae_csr env domain certKey of
            Inl e \<Rightarrow> (Some e, st)
          | Inr csr \<Rightarrow>
              (case am_CreateOrderCert env client finalizeURL csr of
                 Inl e \<Rightarrow> (Some (''finalize order: '' @ e), st)
               | Inr der \<Rightarrow>
                   if der = [] then (Some ''acme returned an empty certificate chain'', st)
                   else install_cert env domain certKey der st)))"

definition issueAutoCert :: "('k, 'l) AcEnv \<Rightarrow> string \<Rightarrow> AcState \<Rightarrow> string option \<times> AcState" where
  "issueAutoCert env domain st =
    (case ae_MkdirAll env (ae_Dir env (fst (autoCertPaths env domain))) of
       Some e \<Rightarrow> (Some e, st)
     | None \<Rightarrow>
    (case loadOrCreateAccountKey env st of
       (Inl e, st1) \<Rightarrow> (Some (''acme account key: '' @ e), st1)
     | (Inr accountKey, st1) \<Rightarrow>
         let client = (accountKey, acmeDirectoryURL env)
         in case register_error (am_Register env client) of
              Some e \<Rightarrow> (Some e, st1)
            | None \<Rightarrow>
                (case am_AuthorizeOrder env client domain of
                   Inl e \<Rightarrow> (Some (''authorize order: '' @ e), st1)
                 | Inr (authzURLs, finalizeURL) \<Rightarrow>
                     (case authorize_all env client domain authzURLs st1 of
                        (Some e, st2) \<Rightarrow> (Some e, st2)
                      | (None, st2) \<Rightarrow> order_cert env client finalizeURL domain st2))))"

section \<open>Use and renewal\<close>

text \<open>\<open>now1\<close> is the time of the first look at the files, \<open>now2\<close> the time of the second.\<close>

definition ensureAutoCert :: "('k, 'l) AcEnv \<Rightarrow> gotime \<Rightarrow> gotime \<Rightarrow> string \<Rightarrow> AcState \<Rightarrow> (string + string \<times> string \<times> string) \<times> AcState" where
  "ensureAutoCert env now1 now2 domain st =
    (let paths = autoCertPaths env domain
     in case loadStoredCert env now1 paths domain st of
          (pems, True) \<Rightarrow> (Inr pems, st)
        | (_, False) \<Rightarrow>
            (case issueAutoCert env domain st of
               (Some e, st') \<Rightarrow>
                 (case loadStoredCert env now2 paths domain st' of
                    (pems, ok) \<Rightarrow>
                      if ok \<or> fst pems \<noteq> [] then (Inr pems, st')
                      else (Inl (''obtain certificate for '' @ domain @ '': '' @ e), st'))
             | (None, st') \<Rightarrow>
                 (case loadStoredCert env now2 paths domain st' of
                    (pems, ok) \<Rightarrow>
                      if ok then (Inr pems, st')
                      else (Inl (''certificate for '' @ domain @ '' was issued but does not verify''), st'))))"

definition applyAutoCert :: "('k, 'l) AcEnv \<Rightarrow> gotime \<Rightarrow> gotime \<Rightarrow> IkConfig \<Rightarrow> AcState \<Rightarrow> (string + IkConfig) \<times> AcState" where
  "applyAutoCert env now1 now2 c st =
    (let domain = autoCertDomain env
     in if domain = [] then (Inr c, st)
        else case ensureAutoCert env now1 now2 domain st of
               (Inl e, st') \<Rightarrow> (Inl e, st')
             | (Inr (certPEM, keyPEM, chainPEM), st') \<Rightarrow>
                 (Inr (c\<lparr>kc_Identity := domain, kc_ServerAddr := domain, kc_ServerCert := certPEM, kc_ServerKey := keyPEM, kc_CACert := chainPEM\<rparr>), st'))"

text \<open>
  The watcher: it waits, was cancelled, has returned at once, or has returned after a renewal with the result of the restart it called. A round
  is the end of the context or a tick with the environment and the time it finds.
\<close>

datatype WatchEnd = WatchOff | WatchWaiting | WatchCancelled | WatchReloaded "string option"

datatype ('k, 'l) watch_round = WatchDone | WatchTick "('k, 'l) AcEnv" gotime "string option"

fun watch_rounds :: "string \<Rightarrow> ('k, 'l) watch_round list \<Rightarrow> AcState \<Rightarrow> WatchEnd \<times> AcState" where
  "watch_rounds domain [] st = (WatchWaiting, st)"
| "watch_rounds domain (WatchDone # rs) st = (WatchCancelled, st)"
| "watch_rounds domain (WatchTick env now restart # rs) st =
    (if snd (loadStoredCert env now (autoCertPaths env domain) domain st) then watch_rounds domain rs st
     else case issueAutoCert env domain st of
            (Some _, st') \<Rightarrow> watch_rounds domain rs st'
          | (None, st') \<Rightarrow> (WatchReloaded restart, st'))"

definition watchAutoCert :: "('k, 'l) AcEnv \<Rightarrow> ('k, 'l) watch_round list \<Rightarrow> AcState \<Rightarrow> WatchEnd \<times> AcState" where
  "watchAutoCert env rounds st =
    (if autoCertDomain env = [] then (WatchOff, st) else watch_rounds (autoCertDomain env) rounds st)"

section \<open>What the set-up leaves\<close>

lemma ac_write_listeners: "ac_write env p d st = (r, st') \<Longrightarrow> ac_listeners st' = ac_listeners st"
  by (auto simp: ac_write_def split: option.splits)

lemma ac_write_file: "ac_write env p d st = (None, st') \<Longrightarrow> ac_files st' = (ac_files st)(p \<mapsto> d)"
  by (auto simp: ac_write_def split: option.splits)

lemma loadOrCreateAccountKey_listeners: "loadOrCreateAccountKey env st = (r, st') \<Longrightarrow> ac_listeners st' = ac_listeners st"
  by (auto simp: loadOrCreateAccountKey_def Let_def dest: ac_write_listeners split: option.splits sum.splits prod.splits)

lemma authorize_one_listeners: "ac_listeners (snd (authorize_one env client domain url st)) = ac_listeners st"
  by (auto simp: authorize_one_def serveHTTPChallenge_def challenge_stop_def Let_def split: option.splits sum.splits)

lemma authorize_all_listeners: "authorize_all env client domain urls st = (r, st') \<Longrightarrow> ac_listeners st' = ac_listeners st"
proof (induction urls arbitrary: st)
  case (Cons url urls)
  obtain q st1 where q: "authorize_one env client domain url st = (q, st1)" by (metis surj_pair)
  have "ac_listeners st1 = ac_listeners st" using authorize_one_listeners [of env client domain url st] q by simp
  then show ?case using Cons.prems Cons.IH [of st1] q by (auto split: option.splits)
qed simp

lemma install_cert_listeners: "install_cert env domain k der st = (r, st') \<Longrightarrow> ac_listeners st' = ac_listeners st"
  by (auto simp: install_cert_def Let_def dest!: ac_write_listeners split: prod.splits option.splits)

lemma order_cert_listeners: "order_cert env client fin domain st = (r, st') \<Longrightarrow> ac_listeners st' = ac_listeners st"
  by (auto simp: order_cert_def dest: install_cert_listeners split: sum.splits if_splits)

lemma issue_cases:
  assumes "issueAutoCert env domain st = (r, st')"
  obtains "r \<noteq> None" "ac_listeners st' = ac_listeners st"
  | client fin st2 where "order_cert env client fin domain st2 = (r, st')" "ac_listeners st2 = ac_listeners st"
proof (cases "ae_MkdirAll env (ae_Dir env (fst (autoCertPaths env domain)))")
  case None
  obtain a st1 where a: "loadOrCreateAccountKey env st = (a, st1)" by (metis surj_pair)
  note l1 = loadOrCreateAccountKey_listeners [OF a]
  show thesis
  proof (cases a)
    case (Inl e)
    then show thesis using assms None a l1 that(1) by (auto simp: issueAutoCert_def)
  next
    case (Inr key)
    let ?client = "(key, acmeDirectoryURL env)"
    show thesis
    proof (cases "register_error (am_Register env ?client) = None \<and> (\<exists>o0. am_AuthorizeOrder env ?client domain = Inr o0)")
      case False
      then have "r \<noteq> None \<and> st' = st1" using assms None a Inr by (auto simp: issueAutoCert_def Let_def split: option.splits sum.splits) (metis option.distinct(1))
      then show thesis using l1 that(1) by simp
    next
      case True
      then obtain urls fin where o0: "am_AuthorizeOrder env ?client domain = Inr (urls, fin)" by auto
      obtain q st2 where q: "authorize_all env ?client domain urls st1 = (q, st2)" by (metis surj_pair)
      note l2 = authorize_all_listeners [OF q]
      show thesis
      proof (cases q)
        case None2: None
        have "order_cert env ?client fin domain st2 = (r, st')" using assms None a Inr True o0 q None2 by (simp add: issueAutoCert_def Let_def)
        then show thesis using that(2) l1 l2 by simp
      next
        case (Some e)
        then have "r = Some e \<and> st' = st2" using assms None a Inr True o0 q by (auto simp: issueAutoCert_def Let_def)
        then show thesis using that(1) l1 l2 by simp
      qed
    qed
  qed
next
  case (Some e)
  then have "r = Some e \<and> st' = st" using assms by (auto simp: issueAutoCert_def)
  then show thesis using that(1) by simp
qed

text \<open>The listener of the challenge is closed on every path.\<close>

lemma issueAutoCert_listeners: "issueAutoCert env domain st = (r, st') \<Longrightarrow> ac_listeners st' = ac_listeners st"
  by (erule issue_cases) (auto dest: order_cert_listeners)

text \<open>The three files belong to one order: a key, a request made with it, and the certificates the authority answered with.\<close>

definition one_order :: "('k, 'l) AcEnv \<Rightarrow> string \<Rightarrow> string \<Rightarrow> string \<Rightarrow> string \<Rightarrow> bool" where
  "one_order env domain certPEM keyPEM chainPEM \<longleftrightarrow>
    (\<exists>client fin key csr leaf chain. ae_certKey env = Inr key \<and> ae_csr env domain key = Inr csr \<and>
       am_CreateOrderCert env client fin csr = Inr (leaf # chain) \<and> certPEM = ae_encode env ''CERTIFICATE'' leaf \<and>
       keyPEM = ae_encode env ''RSA PRIVATE KEY'' (ae_Marshal env key) \<and> chainPEM = concat (map (ae_encode env ''CERTIFICATE'') chain))"

lemma install_cert_files:
  assumes "install_cert env domain k (leaf # chain) st = (None, st')" and "autoCertPaths env domain = (cf, kf, hf)" and "distinct [cf, kf, hf]"
  shows "ac_files st' cf = Some (ae_encode env ''CERTIFICATE'' leaf) \<and> ac_files st' kf = Some (ae_encode env ''RSA PRIVATE KEY'' (ae_Marshal env k)) \<and>
    ac_files st' hf = Some (concat (map (ae_encode env ''CERTIFICATE'') chain))"
  using assms by (auto simp: install_cert_def Let_def dest!: ac_write_file split: prod.splits option.splits)

lemma issueAutoCert_files:
  assumes "issueAutoCert env domain st = (None, st')" and p: "autoCertPaths env domain = (cf, kf, hf)" and d: "distinct [cf, kf, hf]"
  shows "\<exists>c k h. ac_files st' cf = Some c \<and> ac_files st' kf = Some k \<and> ac_files st' hf = Some h \<and> one_order env domain c k h"
  using assms(1)
proof (cases rule: issue_cases)
  case (2 client fin st2)
  from 2(1) obtain key csr leaf chain where k: "ae_certKey env = Inr key" "ae_csr env domain key = Inr csr"
      "am_CreateOrderCert env client fin csr = Inr (leaf # chain)" "install_cert env domain key (leaf # chain) st2 = (None, st')"
    by (auto simp: order_cert_def neq_Nil_conv split: sum.splits if_splits)
  have "one_order env domain (ae_encode env ''CERTIFICATE'' leaf) (ae_encode env ''RSA PRIVATE KEY'' (ae_Marshal env key))
      (concat (map (ae_encode env ''CERTIFICATE'') chain))"
    unfolding one_order_def using k(1-3) by blast
  then show ?thesis using install_cert_files [OF k(4) p d] by blast
qed simp

lemma loadStoredCert_reads:
  assumes "loadStoredCert env now (cf, kf, hf) domain st = ((c, k, h), ok)" and "ok \<or> c \<noteq> []"
  shows "ac_files st cf = Some c \<and> ac_files st kf = Some k \<and> ac_files st hf = Some h \<and> ok = usable_cert env now domain c"
  using assms by (auto simp: loadStoredCert_def ac_read_def split: option.splits if_splits)

lemma ensureAutoCert_result:
  assumes e: "ensureAutoCert env now1 now2 domain st = (Inr (c, k, h), st')" and p: "autoCertPaths env domain = (cf, kf, hf)" and d: "distinct [cf, kf, hf]"
  shows "ac_files st' cf = Some c \<and> ac_files st' kf = Some k \<and> ac_files st' hf = Some h \<and> ac_listeners st' = ac_listeners st \<and>
    (usable_cert env now1 domain c \<and> st' = st \<or>
     issueAutoCert env domain st = (None, st') \<and> usable_cert env now2 domain c \<and> one_order env domain c k h \<or>
     fst (issueAutoCert env domain st) \<noteq> None)"
proof -
  obtain q ok where q: "loadStoredCert env now1 (cf, kf, hf) domain st = (q, ok)" by (metis surj_pair)
  show ?thesis
  proof (cases ok)
    case True
    then have qe: "loadStoredCert env now1 (cf, kf, hf) domain st = ((c, k, h), True)" and s: "st' = st"
      using e q by (auto simp: ensureAutoCert_def p Let_def)
    show ?thesis using loadStoredCert_reads [OF qe] s by auto
  next
    case False
    obtain r st1 where i: "issueAutoCert env domain st = (r, st1)" by (metis surj_pair)
    obtain q2 ok2 where q2: "loadStoredCert env now2 (cf, kf, hf) domain st1 = (q2, ok2)" by (metis surj_pair)
    have s: "st' = st1" "q2 = (c, k, h)" "ok2 \<or> c \<noteq> []" "r = None \<longrightarrow> ok2"
      using e q False i q2 by (auto simp: ensureAutoCert_def p Let_def split: option.splits if_splits)
    have rd: "ac_files st1 cf = Some c \<and> ac_files st1 kf = Some k \<and> ac_files st1 hf = Some h \<and> ok2 = usable_cert env now2 domain c"
      using q2 s(3) unfolding s(2) by (rule loadStoredCert_reads)
    note l = issueAutoCert_listeners [OF i]
    show ?thesis
    proof (cases r)
      case None
      then show ?thesis using issueAutoCert_files [OF _ p d] i rd s l by (metis option.inject)
    next
      case (Some x)
      then show ?thesis using i rd s l by simp
    qed
  qed
qed

text \<open>When the renewal fails, whatever non-empty certificate the file holds is served: an expired one, one for another name, or no certificate at all.\<close>

lemma failed_renewal_serves:
  assumes "issueAutoCert env domain st = (Some e, st')" and "autoCertPaths env domain = (cf, kf, hf)" and "\<not> snd (loadStoredCert env now1 (cf, kf, hf) domain st)"
    and "ac_read env cf st' = Some c" and "ac_read env kf st' = Some k" and "ac_read env hf st' = Some h" and "c \<noteq> []"
  shows "ensureAutoCert env now1 now2 domain st = (Inr (c, k, h), st')"
proof -
  obtain q where q: "loadStoredCert env now1 (cf, kf, hf) domain st = (q, False)" using assms(3) by (metis prod.collapse)
  have "loadStoredCert env now2 (cf, kf, hf) domain st' = ((c, k, h), usable_cert env now2 domain c)" using assms by (simp add: loadStoredCert_def)
  then show ?thesis using assms q by (simp add: ensureAutoCert_def)
qed

text \<open>The watcher ends with the first renewal, whatever the restart gives.\<close>

lemma watch_reloaded:
  "watch_rounds domain rs st = (WatchReloaded r, st') \<Longrightarrow>
   \<exists>pre env now post st1. rs = pre @ WatchTick env now r # post \<and> WatchDone \<notin> set pre \<and> issueAutoCert env domain st1 = (None, st') \<and>
     \<not> snd (loadStoredCert env now (autoCertPaths env domain) domain st1)"
proof (induction domain rs st rule: watch_rounds.induct)
  case (3 domain env now restart rs st)
  obtain q st1 where i: "issueAutoCert env domain st = (q, st1)" by (metis surj_pair)
  show ?case
  proof (cases "\<not> snd (loadStoredCert env now (autoCertPaths env domain) domain st) \<and> q = None")
    case True
    then have "r = restart" "st' = st1" using 3(3) i by auto
    then show ?thesis using True i by (intro exI [of _ "[]"] exI [of _ env] exI [of _ now] exI [of _ rs] exI [of _ st]) auto
  next
    case False
    then have "\<exists>pre e2 n2 post st2. rs = pre @ WatchTick e2 n2 r # post \<and> WatchDone \<notin> set pre \<and> issueAutoCert e2 domain st2 = (None, st') \<and>
        \<not> snd (loadStoredCert e2 n2 (autoCertPaths e2 domain) domain st2)"
    proof (cases "snd (loadStoredCert env now (autoCertPaths env domain) domain st)")
      case True
      then show ?thesis using 3(3) by (intro 3(1)) simp_all
    next
      case F2: False
      then obtain e where "q = Some e" using False by auto
      then show ?thesis using 3(3) i F2 by (intro 3(2) [of q st1 e]) simp_all
    qed
    then obtain pre e2 n2 post st2 where h: "rs = pre @ WatchTick e2 n2 r # post" "WatchDone \<notin> set pre" "issueAutoCert e2 domain st2 = (None, st')"
        "\<not> snd (loadStoredCert e2 n2 (autoCertPaths e2 domain) domain st2)"
      by blast
    show ?thesis using h by (intro exI [of _ "WatchTick env now restart # pre"] exI [of _ e2] exI [of _ n2] exI [of _ post] exI [of _ st2]) auto
  qed
qed auto

lemma k2_start_config:
  "k2_start auto dk senv m k = Some (None, m', k') \<Longrightarrow> auto (k2_config k) = Inr (k2_config k')"
  by (auto simp: k2_start_def Let_def split: sum.splits prod.splits option.splits)


text \<open>
  A node whose stored certificate ends in a day. Certificates and keys are numbers in unary, \<open>b\<close> orders succeed; \<open>w\<close> is the error of a write of the
  key file.
\<close>

definition lab_ac :: "bool \<Rightarrow> (string \<times> string option) option \<Rightarrow> (nat, nat) AcEnv" where
  "lab_ac b w = \<lparr>ae_Getenv = (\<lambda>n. if n = ''HPX_NODE_IKEV2_DOMAIN'' then '' n1 '' else []), ae_Join = str_join ''/'', ae_Dir = id, ae_readable = (\<lambda>_. True),
     ae_MkdirAll = (\<lambda>_. None), ae_write = (\<lambda>p. if has_suffix p ''key.pem'' then w else None), ae_Listen = (\<lambda>_. None), ae_pem = Some, ae_encode = (\<lambda>t x. x),
     ae_ParseCertificate = (\<lambda>x. Some (length x)), ae_VerifyHostname = (\<lambda>_ _. True), ae_NotAfter = (\<lambda>l. int l * 86400000000000),
     ae_ParseKey = (\<lambda>x. Some (length x)), ae_Marshal = (\<lambda>k. replicate k CHR ''k''), ae_accountKey = Inr 1, ae_certKey = Inr 2,
     ae_csr = (\<lambda>_ k. Inr (replicate k CHR ''r'')), am_Register = (\<lambda>_. None), am_AuthorizeOrder = (\<lambda>_ _. Inr ([''a''], ''f'')),
     am_GetAuthorization = (\<lambda>_ _. Inr \<lparr>az_valid = False, az_Challenges = [(''http-01'', ''t'')], az_URI = ''u''\<rparr>),
     am_Response = (\<lambda>_ t. Inr t), am_Path = (\<lambda>_ t. ''/'' @ t), am_Accept = (\<lambda>_ ls _. if b \<and> ls = [(''80'', ''/t'', ''t'')] then None else Some ''refused''),
     am_WaitAuthorization = (\<lambda>_ _ _. None), am_CreateOrderCert = (\<lambda>_ _ _. Inr [replicate 90 CHR ''c'', ''h''])\<rparr>"

definition lab_ac_state :: AcState where
  "lab_ac_state = \<lparr>ac_files = [''/var/lib/hpx-node/certs/ikev2/n1/cert.pem'' \<mapsto> ''o'', ''/var/lib/hpx-node/certs/ikev2/n1/key.pem'' \<mapsto> ''p'',
     ''/var/lib/hpx-node/certs/ikev2/n1/chain.pem'' \<mapsto> ''q''], ac_listeners = []\<rparr>"

definition lab_ac_k2 :: IKEv2 where
  "lab_ac_k2 = new_IKEv2 \<lparr>kc_InboundTag = ''ike'', kc_ServerAddr = [], kc_Identity = [], kc_Pool = [], kc_EgressInterface = [],
     kc_DNS = [], kc_IKEProposals = [], kc_ESPProposals = [], kc_CACert = [], kc_ServerCert = [], kc_ServerKey = []\<rparr> [] Map.empty"

definition lab_ac_dk :: IkDisk where
  "lab_ac_dk = \<lparr>dk_mkdir = (\<lambda>_. None), dk_glob = [], dk_write = (\<lambda>p f t. (None, Some t)), dk_join = concat, dk_order = [], dk_users = []\<rparr>"

definition lab_ac_start :: StartEnv where
  "lab_ac_start = \<lparr>se_cert = None, se_config = None, se_spawn = lab_spawn, se_swanctl = None, se_load = (None, []), se_xl2tpd = None\<rparr>"

definition lab_ac_manager :: manager where
  "lab_ac_manager = \<lparr>mr_refs = 1, mr_process = Some 7, mr_killed = []\<rparr>"

text \<open>An order that succeeds, one that is refused, and one whose key cannot be written: the last leaves the new certificate beside the old key, and the
  next look at the files takes the pair.\<close>

lemma lab_ac_orders:
  "fst (ensureAutoCert (lab_ac True None) 0 0 ''n1'' lab_ac_state) = Inr (replicate 90 CHR ''c'', ''kk'', ''h'')"
  "fst (ensureAutoCert (lab_ac False None) 0 0 ''n1'' lab_ac_state) = Inr (''o'', ''p'', ''q'')"
  "fst (ensureAutoCert (lab_ac False None) (9 * 86400000000000) (9 * 86400000000000) ''n1'' lab_ac_state) = Inr (''o'', ''p'', ''q'')"
  "(case issueAutoCert (lab_ac True (Some (''full'', Some ''p''))) ''n1'' lab_ac_state of
      (r, st) \<Rightarrow> (r, loadStoredCert (lab_ac True None) 0 (autoCertPaths (lab_ac True None) ''n1'') ''n1'' st)) =
   (Some ''full'', (replicate 90 CHR ''c'', ''p'', ''q''), True)"
  by code_simp+

lemma lab_ac_starts:
  "\<exists>m' k'. k2_start (\<lambda>c. fst (applyAutoCert (lab_ac True None) 0 0 c lab_ac_state)) lab_ac_dk lab_ac_start lab_ac_manager lab_ac_k2 = Some (None, m', k')"
proof -
  have "case k2_start (\<lambda>c. fst (applyAutoCert (lab_ac True None) 0 0 c lab_ac_state)) lab_ac_dk lab_ac_start lab_ac_manager lab_ac_k2 of
      Some (None, _, _) \<Rightarrow> True | _ \<Rightarrow> False"
    by code_simp
  then show ?thesis by (auto split: option.splits)
qed


end
