(* ===== verification/OvpnUsers.thy ===== *)
theory OvpnUsers
  imports Ppp
begin

text \<open>
  The users of the OpenVPN back end, \<open>backend/openvpn/users.go\<close>: the authorisation records, the live
  sessions per common name and the device limit at connect time. The set of live client ids of a
  common name is a finite set; \<open>order\<close> is the order of the loop over it.
\<close>

section \<open>Serial numbers\<close>

text \<open>\<open>big.Int.SetString\<close> for a base from 2 to 36: an optional sign and at least one digit of the base.\<close>

definition SetString :: "string \<Rightarrow> nat \<Rightarrow> int option" where
  "SetString s base =
    (let neg = (s \<noteq> [] \<and> hd s = CHR ''-'');
         digits = (if s \<noteq> [] \<and> (hd s = CHR ''-'' \<or> hd s = CHR ''+'') then tl s else s)
     in if digits = [] then None
        else map_option (\<lambda>n. if neg then - int n else int n) (digits_val base 0 digits))"

definition same_number :: "int option \<Rightarrow> int option \<Rightarrow> bool" where
  "same_number a b \<longleftrightarrow> a \<noteq> None \<and> a = b"

definition serialEqual :: "string \<Rightarrow> string \<Rightarrow> bool" where
  "serialEqual pinned presented \<longleftrightarrow>
    pinned = [] \<or> pinned = presented \<or>
    same_number (SetString pinned 10) (SetString presented 10) \<or>
    same_number (SetString pinned 16) (SetString presented 10)"

section \<open>The store\<close>

record ovEntry =
  en_serial :: string
  en_fingerprint :: string
  en_username :: string
  en_password :: string
  en_ipLimit :: u32
  en_speedLimit :: u32

record ovStore =
  ov_inboundTag :: string
  ov_users :: "string \<rightharpoonup> ovEntry"
  ov_sessions :: "string \<rightharpoonup> string set"

definition ov_newUserStore :: "string \<Rightarrow> ovStore" where
  "ov_newUserStore inboundTag = \<lparr>ov_inboundTag = inboundTag, ov_users = Map.empty, ov_sessions = Map.empty\<rparr>"

definition ov_speedLimitFor :: "ovStore \<Rightarrow> string \<Rightarrow> u32" where
  "ov_speedLimitFor s commonName = (case ov_users s commonName of None \<Rightarrow> 0 | Some e \<Rightarrow> en_speedLimit e)"

definition authorizedLocked :: "ovStore \<Rightarrow> string \<Rightarrow> string \<Rightarrow> string \<Rightarrow> string \<Rightarrow> bool" where
  "authorizedLocked s commonName serial username password =
    (case ov_users s commonName of
       None \<Rightarrow> False
     | Some entry \<Rightarrow>
         if \<not> serialEqual (en_serial entry) serial then False
         else if en_password entry \<noteq> [] \<and> (username \<noteq> en_username entry \<or> password \<noteq> en_password entry) then False
         else True)"

definition authorize :: "ovStore \<Rightarrow> string \<Rightarrow> string \<Rightarrow> bool" where
  "authorize s commonName serial = authorizedLocked s commonName serial [] []"

text \<open>The sessions of a common name; a missing entry of the map reads as the empty set.\<close>

abbreviation live :: "ovStore \<Rightarrow> string \<Rightarrow> string set" where
  "live s cn \<equiv> map_get {} (ov_sessions s) cn"

definition tryConnect :: "string \<Rightarrow> string \<Rightarrow> string \<Rightarrow> string \<Rightarrow> string \<Rightarrow> ovStore \<Rightarrow> (bool \<times> string) \<times> ovStore" where
  "tryConnect commonName serial clientID username password s =
    (if \<not> authorizedLocked s commonName serial username password then ((False, ''unauthorized''), s)
     else
       let clients = live s commonName;
           s1 = s\<lparr>ov_sessions := (ov_sessions s)(commonName \<mapsto> clients)\<rparr>;
           limit = (case ov_users s commonName of None \<Rightarrow> 0 | Some e \<Rightarrow> en_ipLimit e)
       in if clientID \<in> clients then ((True, []), s1)
          else if limit > 0 \<and> (of_nat (card clients) :: u32) \<ge> limit then ((False, ''device limit reached''), s1)
          else ((True, []), s1\<lparr>ov_sessions := (ov_sessions s1)(commonName \<mapsto> insert clientID clients)\<rparr>))"

definition excessSessions :: "(string set \<Rightarrow> string list) \<Rightarrow> string \<Rightarrow> ovStore \<Rightarrow> string list \<times> ovStore" where
  "excessSessions order commonName s =
    (case ov_users s commonName of
       None \<Rightarrow> ([], s)
     | Some entry \<Rightarrow>
         if en_ipLimit entry = 0 then ([], s)
         else
           let clients = live s commonName
           in if (of_nat (card clients) :: u32) \<le> en_ipLimit entry then ([], s)
              else
                let excess = drop (unat (en_ipLimit entry)) (order clients);
                    rest = clients - set excess
                in (excess,
                    s\<lparr>ov_sessions := (if card rest = 0 then map_delete commonName (ov_sessions s)
                                      else (ov_sessions s)(commonName \<mapsto> rest))\<rparr>))"

definition releaseSession :: "string \<Rightarrow> string \<Rightarrow> ovStore \<Rightarrow> ovStore" where
  "releaseSession commonName clientID s =
    (case ov_sessions s commonName of
       None \<Rightarrow> s
     | Some clients \<Rightarrow>
         let rest = clients - {clientID}
         in s\<lparr>ov_sessions := (if card rest = 0 then map_delete commonName (ov_sessions s)
                              else (ov_sessions s)(commonName \<mapsto> rest))\<rparr>)"

section \<open>Synchronisation\<close>

definition ov_proxy :: "UserPtr \<Rightarrow> Openvpn option" where
  "ov_proxy u = (case GetProxies u of None \<Rightarrow> None | Some p \<Rightarrow> px_Openvpn p)"

definition ov_wantsInterface :: "ovStore \<Rightarrow> UserPtr \<Rightarrow> bool" where
  "ov_wantsInterface s u \<longleftrightarrow> ov_proxy u \<noteq> None \<and> ov_inboundTag s \<in> set (GetInbounds u)"

definition ov_applyUser :: "UserPtr \<Rightarrow> ovStore \<Rightarrow> (string \<times> bool \<times> bool) \<times> ovStore" where
  "ov_applyUser u s =
    (let cn = GetEmail u
     in if cn = [] then (([], False, False), s)
        else if \<not> ov_wantsInterface s u
        then ((cn, False, ov_users s cn \<noteq> None),
              s\<lparr>ov_users := map_delete cn (ov_users s), ov_sessions := map_delete cn (ov_sessions s)\<rparr>)
        else
          (case ov_proxy u of
             None \<Rightarrow> ((cn, False, False), s)
           | Some ov \<Rightarrow>
               let entry = \<lparr>en_serial = ovp_Serial ov, en_fingerprint = ovp_Fingerprint ov, en_username = ovp_Username ov,
                            en_password = ovp_Password ov, en_ipLimit = GetIpLimit u, en_speedLimit = GetSpeedLimit u\<rparr>
               in ((cn, (case ov_users s cn of None \<Rightarrow> False | Some prev \<Rightarrow> en_serial prev \<noteq> en_serial entry), False),
                   s\<lparr>ov_users := (ov_users s)(cn \<mapsto> entry)\<rparr>)))"

text \<open>The entry of a full synchronisation: user name and password are not set.\<close>

definition next_entry :: "ovStore \<Rightarrow> UserPtr \<Rightarrow> (string \<rightharpoonup> ovEntry) \<Rightarrow> (string \<rightharpoonup> ovEntry)" where
  "next_entry s u entries =
    (if \<not> ov_wantsInterface s u \<or> GetEmail u = [] then entries
     else case ov_proxy u of
       None \<Rightarrow> entries
     | Some ov \<Rightarrow> entries(GetEmail u \<mapsto>
         \<lparr>en_serial = ovp_Serial ov, en_fingerprint = ovp_Fingerprint ov, en_username = [], en_password = [],
          en_ipLimit = GetIpLimit u, en_speedLimit = GetSpeedLimit u\<rparr>))"

text \<open>\<open>names\<close> lists the common names of the store in the order of the loop over it.\<close>

definition ov_replaceAll :: "string list \<Rightarrow> UserPtr list \<Rightarrow> ovStore \<Rightarrow> string list \<times> ovStore" where
  "ov_replaceAll names users s =
    (let entries = fold (next_entry s) users Map.empty;
         removed = filter (\<lambda>cn. entries cn = None) names
     in (removed, s\<lparr>ov_users := entries, ov_sessions := fold map_delete removed (ov_sessions s)\<rparr>))"

definition ov_has :: "ovStore \<Rightarrow> string \<Rightarrow> bool" where
  "ov_has s commonName \<longleftrightarrow> ov_users s commonName \<noteq> None"

end
