(* ===== verification/Ovpn.thy ===== *)
theory Ovpn
  imports OvpnUsers
begin

text \<open>
  The OpenVPN back end: the management interface of the daemon (\<open>backend/openvpn/mgmt.go\<close>), the
  synchronisation of users and the restart (\<open>openvpn.go\<close>), the statistics (\<open>stats.go\<close>) and the
  shaped clients (\<open>shaped.go\<close>). The daemon is what arrives as lines and what is sent to it; the
  store of users is the decider of the management client and is never nil. Lines come without their
  ends.
\<close>

section \<open>Text\<close>

text \<open>What follows the first comma of a line.\<close>

definition after_comma :: "string \<Rightarrow> string" where
  "after_comma line = tl (dropWhile (\<lambda>c. c \<noteq> CHR '','') line)"

text \<open>\<open>strings.SplitN(s, ",", 2)\<close>.\<close>

definition split2_comma :: "string \<Rightarrow> string \<times> string option" where
  "split2_comma s =
    (takeWhile (\<lambda>c. c \<noteq> CHR '','') s, if CHR '','' \<in> set s then Some (after_comma s) else None)"

section \<open>The management client\<close>

record clientStatus =
  cs_CommonName :: string
  cs_RealAddress :: string
  cs_VirtualAddr :: string
  cs_BytesReceived :: int
  cs_BytesSent :: int
  cs_ClientID :: string

text \<open>
  \<open>mg_open\<close> tells whether the connection is up: what is sent without one is lost. \<open>mg_sent\<close> are the
  commands that went over it, \<open>mg_ready\<close> the signal that a status has been published.
\<close>

record mgmtClient =
  mg_socketPath :: string
  mg_open :: bool
  mg_pendingCID :: string
  mg_pendingKID :: string
  mg_pendingEnv :: "(string \<rightharpoonup> string) option"
  mg_pendingDisconnect :: bool
  mg_statusBuf :: "clientStatus list"
  mg_lastStatus :: "clientStatus list"
  mg_ready :: bool
  mg_sent :: "string list"

definition newMgmtClient :: "string \<Rightarrow> mgmtClient" where
  "newMgmtClient socketPath = \<lparr>mg_socketPath = socketPath, mg_open = False, mg_pendingCID = [], mg_pendingKID = [], mg_pendingEnv = None,
     mg_pendingDisconnect = False, mg_statusBuf = [], mg_lastStatus = [], mg_ready = False, mg_sent = []\<rparr>"

text \<open>The result of each attempt to dial the socket; there are at most 50.\<close>

definition mgmt_connect :: "(nat \<Rightarrow> string option) \<Rightarrow> mgmtClient \<Rightarrow> string option \<times> mgmtClient" where
  "mgmt_connect dial m =
    (if list_ex (\<lambda>i. dial i = None) [0..<50] then (None, m\<lparr>mg_open := True\<rparr>)
     else (Some (''connect management socket '' @ mg_socketPath m @ '': '' @ (case dial 49 of None \<Rightarrow> [] | Some e \<Rightarrow> e)), m))"

definition mgmt_close :: "mgmtClient \<Rightarrow> mgmtClient" where
  "mgmt_close m = m\<lparr>mg_open := False\<rparr>"

definition send :: "string \<Rightarrow> mgmtClient \<Rightarrow> mgmtClient" where
  "send cmd m = (if mg_open m then m\<lparr>mg_sent := mg_sent m @ [cmd]\<rparr> else m)"

definition kill :: "string \<Rightarrow> mgmtClient \<Rightarrow> mgmtClient" where
  "kill commonName m = (if commonName = [] then m else send (''kill '' @ commonName) m)"

definition killClient :: "string \<Rightarrow> mgmtClient \<Rightarrow> mgmtClient" where
  "killClient cid m = (if cid = [] then m else send (''client-kill '' @ cid) m)"

definition parseStatusLine :: "string \<Rightarrow> clientStatus option" where
  "parseStatusLine line =
    (if \<not> has_prefix line (''CLIENT_LIST'' @ [char_of (9::nat)]) then None
     else
       let fields = split_at_char (char_of (9::nat)) line
       in if length fields < 11 then None
          else Some \<lparr>cs_CommonName = fields ! 1, cs_RealAddress = fields ! 2, cs_VirtualAddr = fields ! 3,
                     cs_BytesReceived = ParseInt (fields ! 5), cs_BytesSent = ParseInt (fields ! 6), cs_ClientID = fields ! 10\<rparr>)"

definition publishStatus :: "mgmtClient \<Rightarrow> mgmtClient" where
  "publishStatus m = m\<lparr>mg_lastStatus := mg_statusBuf m, mg_statusBuf := [], mg_ready := True\<rparr>"

definition finishConnect :: "ovStore \<times> mgmtClient \<Rightarrow> ovStore \<times> mgmtClient" where
  "finishConnect st =
    (case st of (s, m) \<Rightarrow>
      let cid = mg_pendingCID m; kid = mg_pendingKID m;
          m1 = m\<lparr>mg_pendingCID := [], mg_pendingKID := [], mg_pendingEnv := None\<rparr>
      in case mg_pendingEnv m of
           None \<Rightarrow> (s, m1)
         | Some env \<Rightarrow>
             if cid = [] then (s, m1)
             else
               (case tryConnect (map_get [] env ''common_name'') (map_get [] env ''tls_serial_0'') cid
                       (map_get [] env ''username'') (map_get [] env ''password'') s of
                  ((True, _), s') \<Rightarrow> (s', send (''client-auth-nt '' @ cid @ '' '' @ kid) m1)
                | ((False, reason), s') \<Rightarrow> (s', send (''client-deny '' @ cid @ '' '' @ kid @ '' '' @ go_quote reason) m1)))"

definition finishDisconnect :: "ovStore \<times> mgmtClient \<Rightarrow> ovStore \<times> mgmtClient" where
  "finishDisconnect st =
    (case st of (s, m) \<Rightarrow>
      let cid = mg_pendingCID m;
          m1 = m\<lparr>mg_pendingCID := [], mg_pendingKID := [], mg_pendingEnv := None, mg_pendingDisconnect := False\<rparr>
      in case mg_pendingEnv m of
           None \<Rightarrow> (s, m1)
         | Some env \<Rightarrow> if cid = [] then (s, m1) else (releaseSession (map_get [] env ''common_name'') cid s, m1))"

definition handleLine :: "string \<Rightarrow> ovStore \<times> mgmtClient \<Rightarrow> ovStore \<times> mgmtClient" where
  "handleLine line st =
    (case st of (s, m) \<Rightarrow>
      if has_prefix line ''>CLIENT:CONNECT,'' \<or> has_prefix line ''>CLIENT:REAUTH,''
      then (case split2_comma (after_comma line) of (cid, kid) \<Rightarrow>
              (s, m\<lparr>mg_pendingCID := cid, mg_pendingKID := (case kid of None \<Rightarrow> [] | Some k \<Rightarrow> k),
                    mg_pendingDisconnect := False, mg_pendingEnv := Some Map.empty\<rparr>))
      else if has_prefix line ''>CLIENT:DISCONNECT,''
      then (s, m\<lparr>mg_pendingCID := fst (split2_comma (after_comma line)), mg_pendingKID := [],
                 mg_pendingDisconnect := True, mg_pendingEnv := Some Map.empty\<rparr>)
      else if has_prefix line ''>CLIENT:ENV,''
      then let env = drop 12 line
           in if env = ''END'' then (if mg_pendingDisconnect m then finishDisconnect st else finishConnect st)
              else (case (cut_eq env, mg_pendingEnv m) of
                      (Some (k, v), Some pending) \<Rightarrow> (s, m\<lparr>mg_pendingEnv := Some (pending(k \<mapsto> v))\<rparr>)
                    | _ \<Rightarrow> st)
      else if has_prefix line (''CLIENT_LIST'' @ [char_of (9::nat)])
      then (case parseStatusLine line of
              Some cs \<Rightarrow> (s, m\<lparr>mg_statusBuf := mg_statusBuf m @ [cs]\<rparr>)
            | None \<Rightarrow> st)
      else if line = ''END'' then (s, publishStatus m)
      else st)"

text \<open>\<open>run\<close> handles the lines that arrive until the connection closes.\<close>

definition mgmt_run :: "string list \<Rightarrow> ovStore \<times> mgmtClient \<Rightarrow> ovStore \<times> mgmtClient" where
  "mgmt_run lines st = fold handleLine lines st"

definition statusSnapshot :: "mgmtClient \<Rightarrow> clientStatus list" where
  "statusSnapshot m = mg_lastStatus m"

text \<open>\<open>arrived\<close> are the lines that are handled while the request waits for the signal or the time-out.\<close>

definition requestStatus :: "string list \<Rightarrow> ovStore \<times> mgmtClient \<Rightarrow> clientStatus list \<times> ovStore \<times> mgmtClient" where
  "requestStatus arrived st =
    (case st of (s, m) \<Rightarrow>
      case mgmt_run arrived (s, send ''status 3'' (m\<lparr>mg_ready := False\<rparr>)) of
        (s', m') \<Rightarrow> (mg_lastStatus m', s', m'\<lparr>mg_ready := False\<rparr>))"

section \<open>The back end\<close>

record OpenVPN =
  vp_users :: ovStore
  vp_mgmt :: mgmtClient
  vp_statsTracker :: Tracker
  vp_interfaceStats :: InterfaceCountersTracker
  vp_totalRx :: int
  vp_totalTx :: int
  vp_sessionSeen :: "string \<rightharpoonup> clientStatus"
  vp_cnCumulative :: "string \<rightharpoonup> int \<times> int"
  vp_running :: bool

text \<open>
  The orders of the loops over the sessions of a name and over the names of the store, the result of
  starting the process and the attempts to dial its management socket.
\<close>

record OvEnv =
  oe_sessions :: "string set \<Rightarrow> string list"
  oe_names :: "(string \<rightharpoonup> ovEntry) \<Rightarrow> string list"
  oe_start :: "string option"
  oe_dial :: "nat \<Rightarrow> string option"

text \<open>\<open>files\<close> is the result of writing the configuration files.\<close>

definition ov_New :: "OvEnv \<Rightarrow> string option \<Rightarrow> string \<Rightarrow> string \<Rightarrow> UserPtr list \<Rightarrow> string + OpenVPN" where
  "ov_New env files socketPath inboundTag users =
    (let s = snd (ov_replaceAll (oe_names env Map.empty) users (ov_newUserStore inboundTag))
     in case files of
          Some e \<Rightarrow> Inl e
        | None \<Rightarrow>
            (case oe_start env of
               Some e \<Rightarrow> Inl e
             | None \<Rightarrow>
                 (case mgmt_connect (oe_dial env) (newMgmtClient socketPath) of
                    (Some e, _) \<Rightarrow> Inl e
                  | (None, m) \<Rightarrow>
                      Inr \<lparr>vp_users = s, vp_mgmt = m, vp_statsTracker = new_Tracker,
                           vp_interfaceStats = NewInterfaceCountersTracker, vp_totalRx = 0, vp_totalTx = 0,
                           vp_sessionSeen = Map.empty, vp_cnCumulative = Map.empty, vp_running = True\<rparr>)))"

text \<open>The stopped process has closed its side of the connection; the users and their sessions stay.\<close>

definition ov_Restart :: "OvEnv \<Rightarrow> OpenVPN \<Rightarrow> string option \<times> OpenVPN" where
  "ov_Restart env st =
    (case oe_start env of
       Some e \<Rightarrow> (Some e, st\<lparr>vp_mgmt := mgmt_close (vp_mgmt st)\<rparr>)
     | None \<Rightarrow>
         (case mgmt_connect (oe_dial env) (newMgmtClient (mg_socketPath (vp_mgmt st))) of
            (e, m) \<Rightarrow> (e, st\<lparr>vp_mgmt := m\<rparr>)))"

definition ov_Shutdown :: "OpenVPN \<Rightarrow> OpenVPN" where
  "ov_Shutdown st = st\<lparr>vp_mgmt := mgmt_close (vp_mgmt st), vp_running := False\<rparr>"

definition enforceDeviceLimit :: "OvEnv \<Rightarrow> string \<Rightarrow> OpenVPN \<Rightarrow> OpenVPN" where
  "enforceDeviceLimit env cn st =
    (case excessSessions (oe_sessions env) cn (vp_users st) of
       (excess, s) \<Rightarrow> st\<lparr>vp_users := s, vp_mgmt := fold killClient excess (vp_mgmt st)\<rparr>)"

definition ov_SyncUsers :: "OvEnv \<Rightarrow> UserPtr list \<Rightarrow> OpenVPN \<Rightarrow> OpenVPN" where
  "ov_SyncUsers env users st =
    (case ov_replaceAll (oe_names env (ov_users (vp_users st))) users (vp_users st) of
       (removed, s) \<Rightarrow>
         fold (\<lambda>u. enforceDeviceLimit env (GetEmail u)) users
           (st\<lparr>vp_users := s, vp_mgmt := fold kill removed (vp_mgmt st)\<rparr>))"

definition apply_user :: "OvEnv \<Rightarrow> UserPtr \<Rightarrow> OpenVPN \<Rightarrow> OpenVPN" where
  "apply_user env u st =
    (case ov_applyUser u (vp_users st) of
       ((cn, changedSerial, removed), s) \<Rightarrow>
         if cn = [] then st\<lparr>vp_users := s\<rparr>
         else if removed \<or> changedSerial then st\<lparr>vp_users := s, vp_mgmt := kill cn (vp_mgmt st)\<rparr>
         else enforceDeviceLimit env cn (st\<lparr>vp_users := s\<rparr>))"

definition ov_applyUsers :: "OvEnv \<Rightarrow> UserPtr list \<Rightarrow> OpenVPN \<Rightarrow> OpenVPN" where
  "ov_applyUsers env users st = fold (apply_user env) users st"

definition ov_SyncUser :: "OvEnv \<Rightarrow> UserPtr \<Rightarrow> OpenVPN \<Rightarrow> OpenVPN" where
  "ov_SyncUser env user st = ov_applyUsers env [user] st"

definition ov_UpdateUsers :: "OvEnv \<Rightarrow> UserPtr list \<Rightarrow> OpenVPN \<Rightarrow> OpenVPN" where
  "ov_UpdateUsers env users st = ov_applyUsers env users st"

definition ov_UpdateUsersAndRestart :: "OvEnv \<Rightarrow> UserPtr list \<Rightarrow> OpenVPN \<Rightarrow> string option \<times> OpenVPN" where
  "ov_UpdateUsersAndRestart env users st =
    ov_Restart env (st\<lparr>vp_users := snd (ov_replaceAll (oe_names env (ov_users (vp_users st))) users (vp_users st))\<rparr>)"

section \<open>Statistics\<close>

definition row_growth :: "clientStatus option \<Rightarrow> clientStatus \<Rightarrow> int \<times> int" where
  "row_growth prev row =
    (case prev of
       Some p \<Rightarrow> (counter_growth (cs_BytesReceived row) (cs_BytesReceived p), counter_growth (cs_BytesSent row) (cs_BytesSent p))
     | None \<Rightarrow> (cs_BytesReceived row, cs_BytesSent row))"

text \<open>One row of the status: the sessions seen and per name the growth and the real address.\<close>

type_synonym row_state = "(string \<rightharpoonup> clientStatus) \<times> (string \<rightharpoonup> (int \<times> int) \<times> string)"

definition count_row :: "clientStatus \<Rightarrow> row_state \<Rightarrow> row_state" where
  "count_row row acc =
    (case acc of (seen, perCN) \<Rightarrow>
      let (dRx, dTx) = row_growth (seen (cs_ClientID row)) row;
          ((rx, tx), addr) = map_get ((0, 0), cs_RealAddress row) perCN (cs_CommonName row)
      in (seen(cs_ClientID row \<mapsto> row),
          perCN(cs_CommonName row \<mapsto>
            ((i64 (rx + dRx), i64 (tx + dTx)), if cs_RealAddress row \<noteq> [] then cs_RealAddress row else addr))))"

definition ov_extractIP :: "string \<Rightarrow> string" where
  "ov_extractIP realAddress =
    (if realAddress = [] then []
     else if hd realAddress = CHR ''[''
     then if CHR '']'' \<in> set realAddress then takeWhile (\<lambda>c. c \<noteq> CHR '']'') (tl realAddress) else realAddress
     else
       let rest = dropWhile (\<lambda>c. c \<noteq> CHR '':'') (rev realAddress)
       in if length rest > 1 then rev (tl rest) else realAddress)"

definition fold_name :: "(string \<rightharpoonup> (int \<times> int) \<times> string) \<Rightarrow> string \<Rightarrow> OpenVPN \<times> Sample list \<Rightarrow> OpenVPN \<times> Sample list" where
  "fold_name perCN cn acc =
    (case acc of (st, samples) \<Rightarrow>
      let ((gRx, gTx), addr) = map_get ((0, 0), []) perCN cn;
          (cRx, cTx) = map_get (0, 0) (vp_cnCumulative st) cn;
          rx = i64 (cRx + gRx); tx = i64 (cTx + gTx)
      in (st\<lparr>vp_cnCumulative := (vp_cnCumulative st)(cn \<mapsto> (rx, tx)),
             vp_totalRx := i64 (vp_totalRx st + gRx), vp_totalTx := i64 (vp_totalTx st + gTx)\<rparr>,
          samples @ [\<lparr>sm_PublicKey = cn, sm_Email = cn, sm_Rx = rx, sm_Tx = tx, sm_EndpointIP = ov_extractIP addr\<rparr>]))"

text \<open>\<open>names\<close> lists the names of the rows in the order of the second loop.\<close>

definition collectStats :: "string list \<Rightarrow> ((string \<rightharpoonup> (int \<times> int) \<times> string) \<Rightarrow> string list) \<Rightarrow> gotime \<Rightarrow> OpenVPN \<Rightarrow> OpenVPN" where
  "collectStats arrived names now st =
    (case requestStatus arrived (vp_users st, vp_mgmt st) of (rows, s, m) \<Rightarrow>
       case fold count_row rows (vp_sessionSeen st, Map.empty) of (seen, perCN) \<Rightarrow>
         let st1 = st\<lparr>vp_users := s, vp_mgmt := m, vp_sessionSeen := seen |` set (map cs_ClientID rows)\<rparr>
         in case fold (fold_name perCN) (names perCN) (st1, []) of (st2, samples) \<Rightarrow>
              if samples = [] then st2
              else st2\<lparr>vp_statsTracker := UpdateStatsBatch samples now (vp_statsTracker st2)\<rparr>)"

definition ov_GetStats :: "string list \<Rightarrow> StatRequest \<Rightarrow> OpenVPN \<Rightarrow> (string + Stat list) \<times> OpenVPN" where
  "ov_GetStats order request st =
    (if \<not> vp_running st then (Inl ''openvpn not started'', st)
     else
       let outbound =
         (case Delta (vp_totalRx st) (vp_totalTx st) (sr_Reset request) (vp_interfaceStats st) of
            ((dRx, dTx), ic) \<Rightarrow>
              (Inr (BuildInterfaceStats (ov_inboundTag (vp_users st)) ''outbound'' dRx dTx), st\<lparr>vp_interfaceStats := ic\<rparr>))
       in case sr_Type request of
            UserStat \<Rightarrow>
              (case Tracker_GetStats [sr_Name request] (sr_Reset request) (vp_statsTracker st) of
                 (t, out) \<Rightarrow> (Inr out, st\<lparr>vp_statsTracker := t\<rparr>))
          | UsersStat \<Rightarrow>
              (case GetUsersStats order (sr_Reset request) (vp_statsTracker st) of
                 (t, out) \<Rightarrow> (Inr out, st\<lparr>vp_statsTracker := t\<rparr>))
          | Outbound \<Rightarrow> outbound
          | Outbounds \<Rightarrow> outbound
          | _ \<Rightarrow> (Inl ''unsupported stat type for openvpn'', st))"

definition ov_GetUserOnlineStats :: "gotime \<Rightarrow> string \<Rightarrow> OpenVPN \<Rightarrow> string + OnlineStatResponse" where
  "ov_GetUserOnlineStats now email st =
    (if \<not> vp_running st then Inl ''openvpn not started''
     else Inr \<lparr>on_Name = email, on_Value = (if AnyActiveSince [email] (now - 60 * second) (vp_statsTracker st) then 1 else 0)\<rparr>)"

definition ov_GetUserOnlineIpListStats :: "string \<Rightarrow> OpenVPN \<Rightarrow> string + StatsOnlineIpListResponse" where
  "ov_GetUserOnlineIpListStats email st =
    (if \<not> vp_running st then Inl ''openvpn not started''
     else Inr \<lparr>oi_Name = email, oi_Ips = EndpointActivity [email] (vp_statsTracker st), oi_IpProtocol = Map.empty\<rparr>)"

definition ov_ShapedClients :: "OpenVPN \<Rightarrow> Client list" where
  "ov_ShapedClients st =
    List.map_filter (\<lambda>cs.
      let limit = ov_speedLimitFor (vp_users st) (cs_CommonName cs)
      in if cs_VirtualAddr cs = [] \<or> limit = 0 then None
         else Some \<lparr>cl_User = cs_CommonName cs, cl_Address = cs_VirtualAddr cs, cl_LimitKbps = limit\<rparr>)
      (statusSnapshot (vp_mgmt st))"

end
