(* ===== verification/OvpnCorrect.thy ===== *)
theory OvpnCorrect
  imports Ovpn
begin

text \<open>
  What the OpenVPN back end guarantees: who is admitted, the device limit in every reachable state,
  and what a restart and a full synchronisation forget.
\<close>

section \<open>One connection on the management interface\<close>

definition env_line :: "string \<times> string \<Rightarrow> string" where
  "env_line kv = ''>CLIENT:ENV,'' @ fst kv @ ''='' @ snd kv"

text \<open>The lines that the daemon sends for a connecting client.\<close>

definition connect_block :: "string \<Rightarrow> string \<Rightarrow> (string \<times> string) list \<Rightarrow> string list" where
  "connect_block cid kid env =
    (''>CLIENT:CONNECT,'' @ cid @ '','' @ kid) # map env_line env @ [''>CLIENT:ENV,END'']"

definition put_env :: "string \<times> string \<Rightarrow> (string \<rightharpoonup> string) \<Rightarrow> (string \<rightharpoonup> string)" where
  "put_env kv m = m(fst kv \<mapsto> snd kv)"

definition block_env :: "(string \<times> string) list \<Rightarrow> (string \<rightharpoonup> string)" where
  "block_env env = fold put_env env Map.empty"

lemma cut_eq_key: "CHR ''='' \<notin> set k \<Longrightarrow> cut_eq (k @ CHR ''='' # v) = Some (k, v)"
  by (induction k) auto

lemma takeWhile_key: "x \<notin> set k \<Longrightarrow> takeWhile (\<lambda>c. c \<noteq> x) (k @ x # v) = k"
  by (induction k) auto

lemma dropWhile_key: "x \<notin> set k \<Longrightarrow> dropWhile (\<lambda>c. c \<noteq> x) (k @ x # v) = x # v"
  by (induction k) auto

lemma handle_connect:
  assumes "CHR '','' \<notin> set cid"
  shows "handleLine (''>CLIENT:CONNECT,'' @ cid @ '','' @ kid) (s, m) =
    (s, m\<lparr>mg_pendingCID := cid, mg_pendingKID := kid, mg_pendingDisconnect := False, mg_pendingEnv := Some Map.empty\<rparr>)"
proof -
  have "after_comma (''>CLIENT:CONNECT,'' @ cid @ '','' @ kid) = cid @ CHR '','' # kid"
    by (simp add: after_comma_def)
  moreover have "split2_comma (cid @ CHR '','' # kid) = (cid, Some kid)"
    using assms by (simp add: split2_comma_def after_comma_def takeWhile_key dropWhile_key)
  moreover have "has_prefix (''>CLIENT:CONNECT,'' @ cid @ '','' @ kid) ''>CLIENT:CONNECT,''"
    by (rule has_prefix_append)
  ultimately show ?thesis
    unfolding handleLine_def by (simp only: prod.case if_True option.case simp_thms)
qed

lemma env_line_prefixes:
  "\<not> has_prefix (''>CLIENT:ENV,'' @ x) ''>CLIENT:CONNECT,''" "\<not> has_prefix (''>CLIENT:ENV,'' @ x) ''>CLIENT:REAUTH,''"
  "\<not> has_prefix (''>CLIENT:ENV,'' @ x) ''>CLIENT:DISCONNECT,''" "has_prefix (''>CLIENT:ENV,'' @ x) ''>CLIENT:ENV,''"
  by (simp_all add: has_prefix_def)

lemma handle_env:
  assumes "CHR ''='' \<notin> set (fst kv)" "mg_pendingEnv m = Some pending"
  shows "handleLine (env_line kv) (s, m) = (s, m\<lparr>mg_pendingEnv := Some (put_env kv pending)\<rparr>)"
proof -
  have "drop 12 (env_line kv) = fst kv @ CHR ''='' # snd kv"
    by (simp add: env_line_def)
  moreover have "fst kv @ CHR ''='' # snd kv \<noteq> ''END''"
  proof
    assume "fst kv @ CHR ''='' # snd kv = ''END''"
    then have "CHR ''='' \<in> set ''END''" by (metis in_set_conv_decomp)
    then show False by simp
  qed
  ultimately show ?thesis
    using assms cut_eq_key [OF assms(1), of "snd kv"] env_line_prefixes [of "fst kv @ ''='' @ snd kv", folded env_line_def]
    by (cases kv) (simp add: handleLine_def put_env_def)
qed

lemma handle_end:
  "handleLine ''>CLIENT:ENV,END'' st = (if mg_pendingDisconnect (snd st) then finishDisconnect st else finishConnect st)"
  using env_line_prefixes [of "''END''"] by (cases st) (simp add: handleLine_def)

lemma run_connect_block:
  assumes "CHR '','' \<notin> set cid" "\<forall>kv \<in> set env. CHR ''='' \<notin> set (fst kv)"
  shows "mgmt_run (connect_block cid kid env) (s, m) =
    finishConnect (s, m\<lparr>mg_pendingCID := cid, mg_pendingKID := kid, mg_pendingDisconnect := False,
      mg_pendingEnv := Some (block_env env)\<rparr>)"
proof -
  have "fold handleLine (map env_line env) (s, m\<lparr>mg_pendingEnv := Some p\<rparr>) =
      (s, m\<lparr>mg_pendingEnv := Some (fold put_env env p)\<rparr>)" for p m
    using assms(2)
  proof (induction env arbitrary: p)
    case (Cons kv env)
    then show ?case
      using handle_env [of kv "m\<lparr>mg_pendingEnv := Some p\<rparr>" p s] by simp
  qed simp
  from this [of Map.empty "m\<lparr>mg_pendingCID := cid, mg_pendingKID := kid, mg_pendingDisconnect := False\<rparr>"]
  show ?thesis
    using handle_connect [OF assms(1), of kid s m]
    by (simp add: mgmt_run_def connect_block_def block_env_def handle_end del: append.simps)
qed

section \<open>Admission\<close>

text \<open>Who may connect: a known name with the pinned serial and password, and a free device.\<close>

definition known_client :: "ovStore \<Rightarrow> (string \<rightharpoonup> string) \<Rightarrow> ovEntry \<Rightarrow> bool" where
  "known_client s env e \<longleftrightarrow>
    ov_users s (map_get [] env ''common_name'') = Some e \<and> serialEqual (en_serial e) (map_get [] env ''tls_serial_0'') \<and>
    (en_password e = [] \<or> map_get [] env ''username'' = en_username e \<and> map_get [] env ''password'' = en_password e)"

definition free_device :: "ovStore \<Rightarrow> string \<Rightarrow> string \<Rightarrow> ovEntry \<Rightarrow> bool" where
  "free_device s cn cid e \<longleftrightarrow> cid \<in> live s cn \<or> en_ipLimit e = 0 \<or> card (live s cn) < unat (en_ipLimit e)"

lemma card_u32: "n < 2 ^ 32 \<Longrightarrow> (of_nat n :: u32) \<le> l \<longleftrightarrow> n \<le> unat l" "n < 2 ^ 32 \<Longrightarrow> l \<le> (of_nat n :: u32) \<longleftrightarrow> unat l \<le> n"
  by (simp_all add: word_le_nat_alt unat_of_nat take_bit_eq_mod)

lemma authorizedLocked_known:
  "authorizedLocked s (map_get [] env ''common_name'') (map_get [] env ''tls_serial_0'') (map_get [] env ''username'')
     (map_get [] env ''password'') \<longleftrightarrow> (\<exists>e. known_client s env e)"
  by (auto simp: authorizedLocked_def known_client_def split: option.splits)

lemma tryConnect_known:
  assumes "known_client s env e" "cn = map_get [] env ''common_name''" "card (live s cn) < 2 ^ 32"
  shows "tryConnect cn (map_get [] env ''tls_serial_0'') cid (map_get [] env ''username'') (map_get [] env ''password'') s =
    (if free_device s cn cid e
     then ((True, []), s\<lparr>ov_sessions := (ov_sessions s)(cn \<mapsto> insert cid (live s cn))\<rparr>)
     else ((False, ''device limit reached''), s\<lparr>ov_sessions := (ov_sessions s)(cn \<mapsto> live s cn)\<rparr>))"
proof -
  have auth: "authorizedLocked s cn (map_get [] env ''tls_serial_0'') (map_get [] env ''username'') (map_get [] env ''password'')"
    using authorizedLocked_known [of s env] assms(1,2) by blast
  have "ov_users s cn = Some e"
    using assms(1,2) by (simp add: known_client_def)
  with auth assms(3) show ?thesis
    by (auto simp: tryConnect_def free_device_def Let_def card_u32 insert_absorb word_gt_0)
qed

lemma finishConnect_result:
  assumes "mg_pendingEnv m = Some env" "mg_pendingCID m \<noteq> []"
    and "tryConnect (map_get [] env ''common_name'') (map_get [] env ''tls_serial_0'') (mg_pendingCID m)
      (map_get [] env ''username'') (map_get [] env ''password'') s = ((ok, reason), s1)"
  shows "finishConnect (s, m) = (s1, send (if ok then ''client-auth-nt '' @ mg_pendingCID m @ '' '' @ mg_pendingKID m
      else ''client-deny '' @ mg_pendingCID m @ '' '' @ mg_pendingKID m @ '' '' @ go_quote reason)
    (m\<lparr>mg_pendingCID := [], mg_pendingKID := [], mg_pendingEnv := None\<rparr>))"
  using assms by (cases ok) (simp_all add: finishConnect_def Let_def)

lemma connect_block_result:
  assumes "cid \<noteq> []" "CHR '','' \<notin> set cid" "\<forall>kv \<in> set env. CHR ''='' \<notin> set (fst kv)" "mg_open m"
    and "cn = map_get [] (block_env env) ''common_name''" "card (live s cn) < 2 ^ 32"
    and "mgmt_run (connect_block cid kid env) (s, m) = (s', m')"
  shows "(\<forall>e. known_client s (block_env env) e \<and> free_device s cn cid e \<longrightarrow>
      mg_sent m' = mg_sent m @ [''client-auth-nt '' @ cid @ '' '' @ kid] \<and> live s' cn = insert cid (live s cn)) \<and>
    (\<forall>e. known_client s (block_env env) e \<and> \<not> free_device s cn cid e \<longrightarrow>
      mg_sent m' = mg_sent m @ [''client-deny '' @ cid @ '' '' @ kid @ '' '' @ go_quote ''device limit reached''] \<and>
      live s' cn = live s cn) \<and>
    ((\<nexists>e. known_client s (block_env env) e) \<longrightarrow>
      mg_sent m' = mg_sent m @ [''client-deny '' @ cid @ '' '' @ kid @ '' '' @ go_quote ''unauthorized''] \<and> live s' cn = live s cn) \<and>
    (\<forall>cn'. cn' \<noteq> cn \<longrightarrow> live s' cn' = live s cn') \<and> ov_users s' = ov_users s \<and> mg_pendingEnv m' = None"
proof -
  let ?env = "block_env env"
  let ?m = "m\<lparr>mg_pendingDisconnect := False, mg_pendingCID := [], mg_pendingKID := [], mg_pendingEnv := None\<rparr>"
  let ?attempt = "tryConnect cn (map_get [] ?env ''tls_serial_0'') cid (map_get [] ?env ''username'') (map_get [] ?env ''password'') s"
  obtain ok reason s1 where tried: "?attempt = ((ok, reason), s1)"
    by (metis surj_pair)
  then have run: "s' = s1" "m' = send (if ok then ''client-auth-nt '' @ cid @ '' '' @ kid
      else ''client-deny '' @ cid @ '' '' @ kid @ '' '' @ go_quote reason) ?m"
    using finishConnect_result [of "m\<lparr>mg_pendingCID := cid, mg_pendingKID := kid, mg_pendingDisconnect := False,
        mg_pendingEnv := Some ?env\<rparr>" ?env s ok reason s1] assms(1,5,7)
    unfolding run_connect_block [OF assms(2,3)] by (cases ok; simp del: append.simps)+
  show ?thesis
  proof (cases "\<exists>e. known_client s ?env e")
    case False
    then have "?attempt = ((False, ''unauthorized''), s)"
      using authorizedLocked_known [of s ?env] assms(5) by (simp add: tryConnect_def)
    with tried run False assms(4) show ?thesis
      by (simp add: send_def del: append.simps)
  next
    case True
    then obtain e where e: "known_client s ?env e" by blast
    have unique: "e' = e" if "known_client s ?env e'" for e'
      using that e by (simp add: known_client_def)
    show ?thesis
    proof (cases "free_device s cn cid e")
      case True
      with tryConnect_known [OF e assms(5,6), of cid] tried
      have "ok" "s1 = s\<lparr>ov_sessions := (ov_sessions s)(cn \<mapsto> insert cid (live s cn))\<rparr>"
        by auto
      then have "mg_sent m' = mg_sent m @ [''client-auth-nt '' @ cid @ '' '' @ kid]" "live s' cn = insert cid (live s cn)"
        "\<forall>cn'. cn' \<noteq> cn \<longrightarrow> live s' cn' = live s cn'" "ov_users s' = ov_users s" "mg_pendingEnv m' = None"
        using run assms(4) by (simp_all add: send_def map_get_def del: append.simps)
      with True e unique show ?thesis
        by blast
    next
      case False
      with tryConnect_known [OF e assms(5,6), of cid] tried
      have "\<not> ok" "reason = ''device limit reached''" "s1 = s\<lparr>ov_sessions := (ov_sessions s)(cn \<mapsto> live s cn)\<rparr>"
        by auto
      then have "mg_sent m' = mg_sent m @ [''client-deny '' @ cid @ '' '' @ kid @ '' '' @ go_quote ''device limit reached'']"
        "live s' cn = live s cn" "\<forall>cn'. cn' \<noteq> cn \<longrightarrow> live s' cn' = live s cn'" "ov_users s' = ov_users s" "mg_pendingEnv m' = None"
        using run assms(4) by (simp_all add: send_def map_get_def del: append.simps)
      with False e unique show ?thesis
        by blast
    qed
  qed
qed

text \<open>C21. On the lines that the daemon sends for a connecting client the back end answers with exactly one
  command. It admits the client when its common name is known, its serial and, where one is set, its
  user name and password match and a device is free, and it then counts the client once; else it denies
  it with the reason and counts nothing. No other name and no entry of the store changes.\<close>

theorem ovpn_admission:
  assumes "cid \<noteq> []" "CHR '','' \<notin> set cid" "\<forall>kv \<in> set env. CHR ''='' \<notin> set (fst kv)" "mg_open m"
    and "cn = map_get [] (block_env env) ''common_name''" "card (live s cn) < 2 ^ 32"
    and "mgmt_run (connect_block cid kid env) (s, m) = (s', m')"
  shows "(\<forall>e. known_client s (block_env env) e \<and> free_device s cn cid e \<longrightarrow>
      mg_sent m' = mg_sent m @ [''client-auth-nt '' @ cid @ '' '' @ kid] \<and> live s' cn = insert cid (live s cn)) \<and>
    (\<forall>e. known_client s (block_env env) e \<and> \<not> free_device s cn cid e \<longrightarrow>
      mg_sent m' = mg_sent m @ [''client-deny '' @ cid @ '' '' @ kid @ '' '' @ go_quote ''device limit reached''] \<and>
      live s' cn = live s cn) \<and>
    ((\<nexists>e. known_client s (block_env env) e) \<longrightarrow>
      mg_sent m' = mg_sent m @ [''client-deny '' @ cid @ '' '' @ kid @ '' '' @ go_quote ''unauthorized''] \<and> live s' cn = live s cn) \<and>
    (\<forall>cn'. cn' \<noteq> cn \<longrightarrow> live s' cn' = live s cn') \<and> ov_users s' = ov_users s \<and> mg_pendingEnv m' = None"
  using assms by (rule connect_block_result)

section \<open>The device limit\<close>

definition within :: "ovStore \<Rightarrow> string \<Rightarrow> bool" where
  "within s cn \<longleftrightarrow> (\<forall>e. ov_users s cn = Some e \<and> en_ipLimit e \<noteq> 0 \<longrightarrow> card (live s cn) \<le> unat (en_ipLimit e))"

definition few_sessions :: "ovStore \<Rightarrow> bool" where
  "few_sessions s \<longleftrightarrow> (\<forall>cn. card (live s cn) < 2 ^ 32)"

text \<open>A change of the store that keeps every limit, and a change of the client that forgets no command.\<close>

definition tame :: "ovStore \<Rightarrow> ovStore \<Rightarrow> bool" where
  "tame s s' \<longleftrightarrow> ov_users s' = ov_users s \<and>
    (\<forall>cn. (finite (live s cn) \<longrightarrow> finite (live s' cn)) \<and> (finite (live s cn) \<and> within s cn \<longrightarrow> within s' cn))"

definition grows :: "mgmtClient \<Rightarrow> mgmtClient \<Rightarrow> bool" where
  "grows m m' \<longleftrightarrow> mg_open m' = mg_open m \<and> set (mg_sent m) \<subseteq> set (mg_sent m')"

lemma tame_refl [simp]: "tame s s"
  by (simp add: tame_def)

lemma grows_refl [simp]: "grows m m"
  by (simp add: grows_def)

lemma grows_trans: "grows m m' \<Longrightarrow> grows m' m'' \<Longrightarrow> grows m m''"
  by (auto simp: grows_def)

lemma grows_send [simp]: "grows m (send cmd m)" "grows m (kill cn m)" "grows m (killClient cid m)"
  by (auto simp: grows_def send_def kill_def killClient_def)

lemma grows_killClients: "grows m (fold killClient cids m)"
  by (induction cids arbitrary: m) (auto intro: grows_trans [OF grows_send(3)])

lemma grows_kills: "grows m (fold kill cns m)"
  by (induction cns arbitrary: m) (auto intro: grows_trans [OF grows_send(2)])

lemma map_get_update [simp]:
  "map_get d (m(k \<mapsto> v)) k' = (if k' = k then v else map_get d m k')"
  "map_get d (map_delete k m) k' = (if k' = k then d else map_get d m k')"
  by (simp_all add: map_get_def)

lemma tryConnect_tame:
  assumes "few_sessions s" "tryConnect cn serial cid username password s = (r, s')"
  shows "tame s s'"
proof (cases "authorizedLocked s cn serial username password")
  case False
  with assms(2) show ?thesis by (simp add: tryConnect_def)
next
  case True
  then obtain e where e: "ov_users s cn = Some e"
    by (auto simp: authorizedLocked_def split: option.splits)
  have small: "card (live s cn) < 2 ^ 32"
    using assms(1) by (simp add: few_sessions_def)
  consider "s' = s\<lparr>ov_sessions := (ov_sessions s)(cn \<mapsto> live s cn)\<rparr>"
    | "s' = s\<lparr>ov_sessions := (ov_sessions s)(cn \<mapsto> insert cid (live s cn))\<rparr>"
      "en_ipLimit e = 0 \<or> card (live s cn) < unat (en_ipLimit e)"
    using assms(2) True e small by (auto simp: tryConnect_def Let_def card_u32 word_gt_0 split: if_splits)
  then show ?thesis
  proof cases
    case 1
    then show ?thesis by (simp add: tame_def within_def)
  next
    case 2
    then show ?thesis
      using e card_insert_le_m1 by (auto simp: tame_def within_def card_insert_if)
  qed
qed

lemma shrink_tame:
  assumes "S \<subseteq> live s cn"
    and "s' = s\<lparr>ov_sessions := (if card S = 0 then map_delete cn (ov_sessions s) else (ov_sessions s)(cn \<mapsto> S))\<rparr>"
  shows "tame s s'"
proof -
  have "card (live s' cn) \<le> card (live s cn)" "finite (live s' cn)" if "finite (live s cn)"
    using assms that by (auto simp: card_mono finite_subset)
  moreover have "live s' cn' = live s cn'" if "cn' \<noteq> cn" for cn'
    using assms(2) that by simp
  moreover have "ov_users s' = ov_users s"
    using assms(2) by simp
  ultimately have one: "finite (live s' cn')" "within s' cn'" if "finite (live s cn')" "within s cn'" for cn'
    using that by (cases "cn' = cn"; force simp: within_def)+
  have "finite (live s' cn')" if "finite (live s cn')" for cn'
    using that assms by (auto simp: finite_subset)
  with one \<open>ov_users s' = ov_users s\<close> show ?thesis
    by (simp add: tame_def)
qed

lemma releaseSession_tame: "tame s (releaseSession cn cid s)"
proof (cases "ov_sessions s cn")
  case None
  then show ?thesis by (simp add: releaseSession_def)
next
  case (Some clients)
  then show ?thesis
    by (intro shrink_tame [of "clients - {cid}" s cn]) (auto simp: releaseSession_def Let_def map_get_def)
qed

lemma handleLine_tame:
  assumes "few_sessions s" "handleLine line (s, m) = (s', m')"
  shows "tame s s' \<and> grows m m'"
proof -
  have connect: "tame s s1 \<and> grows m m1" if "finishConnect (s, m) = (s1, m1)" for s1 m1
  proof (cases "mg_pendingEnv m = None \<or> mg_pendingCID m = []")
    case True
    with that show ?thesis by (auto simp: finishConnect_def Let_def grows_def split: option.splits)
  next
    case False
    then obtain env where env: "mg_pendingEnv m = Some env" "mg_pendingCID m \<noteq> []" by auto
    obtain ok reason s2 where t: "tryConnect (map_get [] env ''common_name'') (map_get [] env ''tls_serial_0'') (mg_pendingCID m)
        (map_get [] env ''username'') (map_get [] env ''password'') s = ((ok, reason), s2)"
      by (metis surj_pair)
    from tryConnect_tame [OF assms(1) t] that finishConnect_result [OF env t] show ?thesis
      by (auto simp: grows_def send_def split: if_splits)
  qed
  have disconnect: "tame s s1 \<and> grows m m1" if "finishDisconnect (s, m) = (s1, m1)" for s1 m1
    using that releaseSession_tame by (auto simp: finishDisconnect_def Let_def grows_def split: option.splits if_splits)
  show ?thesis
    using assms(2) connect disconnect
    by (auto simp: handleLine_def Let_def grows_def publishStatus_def split: if_splits option.splits prod.splits)
qed

definition sessions_order :: "OvEnv \<Rightarrow> bool" where
  "sessions_order env \<longleftrightarrow> (\<forall>S. finite S \<longrightarrow> distinct (oe_sessions env S) \<and> set (oe_sessions env S) = S)"

lemma set_minus_drop: "distinct xs \<Longrightarrow> set xs - set (drop n xs) = set (take n xs)"
proof -
  assume "distinct xs"
  then have "set (take n xs) \<inter> set (drop n xs) = {}"
    by (simp add: set_take_disj_set_drop_if_distinct)
  moreover have "set xs = set (take n xs) \<union> set (drop n xs)"
    by (metis append_take_drop_id set_append)
  ultimately show ?thesis
    by blast
qed

lemma excessSessions_within:
  assumes "sessions_order env" "finite (live s cn)" "card (live s cn) < 2 ^ 32"
    and "excessSessions (oe_sessions env) cn s = (excess, s')"
  shows "tame s s' \<and> within s' cn \<and> (\<forall>cn'. live s' cn' \<subseteq> live s cn')"
proof (cases "within s cn")
  case True
  then have "s' = s"
    using assms(3,4) by (auto simp: excessSessions_def within_def Let_def card_u32 split: option.splits if_splits)
  with True show ?thesis
    by simp
next
  case False
  then obtain e where e: "ov_users s cn = Some e" "en_ipLimit e \<noteq> 0" "\<not> card (live s cn) \<le> unat (en_ipLimit e)"
    by (auto simp: within_def)
  then have over: "excess = drop (unat (en_ipLimit e)) (oe_sessions env (live s cn))"
      "s' = s\<lparr>ov_sessions := (if card (live s cn - set excess) = 0 then map_delete cn (ov_sessions s)
                              else (ov_sessions s)(cn \<mapsto> live s cn - set excess))\<rparr>"
    using assms(3,4) by (auto simp: excessSessions_def Let_def card_u32)
  let ?order = "oe_sessions env (live s cn)"
  have order: "distinct ?order" "set ?order = live s cn"
    using assms(1,2) by (auto simp: sessions_order_def)
  have "live s cn - set excess = set (take (unat (en_ipLimit e)) ?order)"
    using set_minus_drop [OF order(1)] order(2) unfolding over(1) by simp
  then have "card (live s cn - set excess) \<le> unat (en_ipLimit e)"
    by (metis card_length length_take min.bounded_iff order.trans min.cobounded2)
  then have "within s' cn"
    using e(1) unfolding over(2) by (auto simp: within_def)
  moreover have "tame s s'"
    using shrink_tame [OF Diff_subset over(2)] .
  moreover have "\<forall>cn'. live s' cn' \<subseteq> live s cn'"
    unfolding over(2) by auto
  ultimately show ?thesis by blast
qed

definition limits_kept :: "OpenVPN \<Rightarrow> bool" where
  "limits_kept st \<longleftrightarrow> mg_open (vp_mgmt st) \<and> (\<forall>cn. finite (live (vp_users st) cn)) \<and>
    (\<forall>cn. within (vp_users st) cn \<or> (''kill '' @ cn) \<in> set (mg_sent (vp_mgmt st)))"

lemma limits_kept_step:
  assumes "limits_kept st" "tame (vp_users st) s" "grows (vp_mgmt st) m"
  shows "limits_kept (st\<lparr>vp_users := s, vp_mgmt := m\<rparr>)"
  using assms by (auto simp: limits_kept_def tame_def grows_def)

lemma enforceDeviceLimit_kept:
  assumes "sessions_order env" "finite (live (vp_users st) cn)" "card (live (vp_users st) cn) < 2 ^ 32"
  shows "tame (vp_users st) (vp_users (enforceDeviceLimit env cn st)) \<and> within (vp_users (enforceDeviceLimit env cn st)) cn \<and>
    (\<forall>cn'. live (vp_users (enforceDeviceLimit env cn st)) cn' \<subseteq> live (vp_users st) cn') \<and>
    grows (vp_mgmt st) (vp_mgmt (enforceDeviceLimit env cn st))"
proof -
  obtain excess s' where x: "excessSessions (oe_sessions env) cn (vp_users st) = (excess, s')"
    by (metis surj_pair)
  from excessSessions_within [OF assms x] x show ?thesis
    by (simp add: enforceDeviceLimit_def grows_killClients)
qed

lemma applyUser_name: "fst (fst (ov_applyUser u s)) = GetEmail u"
  by (simp add: ov_applyUser_def Let_def split: option.split)

lemma apply_user_kept:
  assumes "sessions_order env" "limits_kept st" "few_sessions (vp_users st)"
  shows "limits_kept (apply_user env u st) \<and> few_sessions (vp_users (apply_user env u st))"
proof -
  let ?s = "vp_users st" and ?cn = "GetEmail u"
  have fin: "finite (live ?s cn)" and small: "card (live ?s cn) < 2 ^ 32" for cn
    using assms by (auto simp: limits_kept_def few_sessions_def)
  obtain changed removed s where a: "ov_applyUser u ?s = ((?cn, changed, removed), s)"
    by (metis applyUser_name prod.collapse)
  have others: "ov_users s cn = ov_users ?s cn" "live s cn = live ?s cn" if "cn \<noteq> ?cn" for cn
    using a that by (auto simp: ov_applyUser_def Let_def split: option.splits if_splits)
  have sub: "live s ?cn \<subseteq> live ?s ?cn"
    using a by (auto simp: ov_applyUser_def Let_def split: option.splits if_splits)
  have fin': "finite (live s cn)" and small': "card (live s cn) < 2 ^ 32" for cn
    using others sub fin [of cn] small [of cn] card_mono [OF fin [of ?cn] sub]
    by (cases "cn = ?cn"; auto intro: finite_subset)+
  have kept: "within s cn \<or> (''kill '' @ cn) \<in> set (mg_sent (vp_mgmt st))" if "cn \<noteq> ?cn" for cn
    using assms(2) others [OF that] by (simp add: limits_kept_def within_def)
  consider "?cn = []" "s = ?s" | "?cn \<noteq> []" "removed \<or> changed" | "?cn \<noteq> []" "\<not> removed" "\<not> changed"
    using a by (auto simp: ov_applyUser_def Let_def split: if_splits)
  then show ?thesis
  proof cases
    case 1
    with a assms show ?thesis by (simp add: apply_user_def)
  next
    case 2
    with a have "apply_user env u st = st\<lparr>vp_users := s, vp_mgmt := send (''kill '' @ ?cn) (vp_mgmt st)\<rparr>"
      by (simp add: apply_user_def kill_def)
    with kept fin' small' assms(2) show ?thesis
      by (auto simp: limits_kept_def few_sessions_def send_def)
  next
    case 3
    let ?st = "st\<lparr>vp_users := s\<rparr>"
    have eq: "apply_user env u st = enforceDeviceLimit env ?cn ?st"
      using a 3 by (simp add: apply_user_def)
    from enforceDeviceLimit_kept [OF assms(1), of ?st ?cn] fin' small'
    have e: "tame s (vp_users (enforceDeviceLimit env ?cn ?st))" "within (vp_users (enforceDeviceLimit env ?cn ?st)) ?cn"
      "\<forall>cn'. live (vp_users (enforceDeviceLimit env ?cn ?st)) cn' \<subseteq> live s cn'"
      "grows (vp_mgmt st) (vp_mgmt (enforceDeviceLimit env ?cn ?st))"
      by auto
    have "card (live (vp_users (enforceDeviceLimit env ?cn ?st)) cn) < 2 ^ 32" for cn
      using card_mono [OF fin' e(3) [rule_format]] small' by (rule le_less_trans)
    moreover have "within (vp_users (enforceDeviceLimit env ?cn ?st)) cn \<or>
        (''kill '' @ cn) \<in> set (mg_sent (vp_mgmt (enforceDeviceLimit env ?cn ?st)))" for cn
    proof (cases "cn = ?cn")
      case False
      with kept [of cn] e(1,4) fin' show ?thesis
        unfolding tame_def grows_def by blast
    qed (use e(2) in simp)
    moreover have "finite (live (vp_users (enforceDeviceLimit env ?cn ?st)) cn)" for cn
      using e(3) [rule_format] fin' by (rule finite_subset)
    moreover have "mg_open (vp_mgmt (enforceDeviceLimit env ?cn ?st))"
      using e(4) assms(2) by (simp add: grows_def limits_kept_def)
    ultimately show ?thesis
      unfolding eq limits_kept_def few_sessions_def by blast
  qed
qed

lemma applyUsers_kept:
  assumes "sessions_order env" "limits_kept st" "few_sessions (vp_users st)"
  shows "limits_kept (ov_applyUsers env users st)"
  using fold_invariant [of "\<lambda>st. limits_kept st \<and> few_sessions (vp_users st)" st users "apply_user env"]
    assms apply_user_kept by (simp add: ov_applyUsers_def)

lemma enforce_all_kept:
  assumes "sessions_order env" "\<forall>cn. finite (live (vp_users st) cn)" "few_sessions (vp_users st)"
    and "st' = fold (\<lambda>u. enforceDeviceLimit env (GetEmail u)) users st"
  shows "tame (vp_users st) (vp_users st') \<and> (\<forall>u \<in> set users. within (vp_users st') (GetEmail u)) \<and> grows (vp_mgmt st) (vp_mgmt st')"
  using assms(2-4)
proof (induction users arbitrary: st)
  case (Cons u users)
  let ?st = "enforceDeviceLimit env (GetEmail u) st"
  have e: "tame (vp_users st) (vp_users ?st)" "within (vp_users ?st) (GetEmail u)"
      "\<forall>cn. live (vp_users ?st) cn \<subseteq> live (vp_users st) cn" "grows (vp_mgmt st) (vp_mgmt ?st)"
    using enforceDeviceLimit_kept [OF assms(1), of st "GetEmail u"] Cons.prems by (auto simp: few_sessions_def)
  have fin: "\<forall>cn. finite (live (vp_users ?st) cn)"
    using e(1) Cons.prems(1) by (simp add: tame_def)
  have "few_sessions (vp_users ?st)"
    using e(3) Cons.prems(1,2) unfolding few_sessions_def by (meson card_mono le_less_trans)
  from Cons.IH [OF fin this] Cons.prems(3) have rest: "tame (vp_users ?st) (vp_users st')"
      "\<forall>u \<in> set users. within (vp_users st') (GetEmail u)" "grows (vp_mgmt ?st) (vp_mgmt st')"
    by simp_all
  then have "within (vp_users st') (GetEmail u)"
    using e(2) fin by (simp add: tame_def)
  moreover have "tame (vp_users st) (vp_users st')"
    using e(1) rest(1) unfolding tame_def by metis
  ultimately show ?case
    using rest e(4) grows_trans by auto
qed simp

lemma next_entry_other: "cn \<noteq> GetEmail u \<Longrightarrow> next_entry s u m cn = m cn"
  by (simp add: next_entry_def split: option.split)

lemma next_entries_listed: "cn \<notin> GetEmail ` set users \<Longrightarrow> fold (next_entry s) users m cn = m cn"
  by (induction users arbitrary: m) (simp_all add: next_entry_other)

lemma fold_delete_live: "map_get d (fold map_delete ks m) cn = (if cn \<in> set ks then d else map_get d m cn)"
  by (induction ks arbitrary: m) simp_all

lemma SyncUsers_kept:
  assumes "sessions_order env" "limits_kept st" "few_sessions (vp_users st)"
  shows "limits_kept (ov_SyncUsers env users st)"
proof -
  let ?s = "vp_users st"
  obtain removed s where r: "ov_replaceAll (oe_names env (ov_users ?s)) users ?s = (removed, s)"
    by (metis surj_pair)
  let ?st = "st\<lparr>vp_users := s, vp_mgmt := fold kill removed (vp_mgmt st)\<rparr>"
  let ?st' = "ov_SyncUsers env users st"
  have sub: "live s cn \<subseteq> live ?s cn" for cn
    using r by (auto simp: ov_replaceAll_def Let_def fold_delete_live split: if_splits)
  have fin: "finite (live s cn)" for cn
    using assms(2) finite_subset [OF sub [of cn]] by (simp add: limits_kept_def)
  have "card (live s cn) < 2 ^ 32" for cn
    using assms(2,3) card_mono [OF _ sub [of cn]] unfolding limits_kept_def few_sessions_def by (meson le_less_trans)
  then have e: "tame s (vp_users ?st')" "\<forall>u \<in> set users. within (vp_users ?st') (GetEmail u)"
      "grows (fold kill removed (vp_mgmt st)) (vp_mgmt ?st')"
    using enforce_all_kept [OF assms(1), of ?st ?st' users] fin r by (simp_all add: ov_SyncUsers_def few_sessions_def)
  have "ov_users s cn = None" if "cn \<notin> GetEmail ` set users" for cn
    using r next_entries_listed [OF that, of ?s Map.empty] by (auto simp: ov_replaceAll_def Let_def)
  then have "within (vp_users ?st') cn" for cn
    using e(1,2) by (cases "cn \<in> GetEmail ` set users") (auto simp: within_def tame_def)
  moreover have "mg_open (vp_mgmt ?st')"
    using e(3) grows_kills [of "vp_mgmt st" removed] assms(2) by (simp add: grows_def limits_kept_def)
  ultimately show ?thesis
    using e(1) fin by (simp add: limits_kept_def tame_def)
qed

text \<open>
  The states that the lines of the daemon and the requests of the panel reach. No user has 2 to the
  power of 32 sessions, which is where the counter of the code would wrap around.
\<close>

inductive ov_reach :: "OvEnv \<Rightarrow> OpenVPN \<Rightarrow> OpenVPN \<Rightarrow> bool" for env st0 where
  reach_start: "ov_reach env st0 st0"
| reach_line: "ov_reach env st0 st \<Longrightarrow> few_sessions (vp_users st) \<Longrightarrow> handleLine line (vp_users st, vp_mgmt st) = (s, m) \<Longrightarrow>
    ov_reach env st0 (st\<lparr>vp_users := s, vp_mgmt := m\<rparr>)"
| reach_sync: "ov_reach env st0 st \<Longrightarrow> few_sessions (vp_users st) \<Longrightarrow> ov_reach env st0 (ov_SyncUsers env users st)"
| reach_update: "ov_reach env st0 st \<Longrightarrow> few_sessions (vp_users st) \<Longrightarrow> ov_reach env st0 (ov_UpdateUsers env users st)"

lemma reach_kept:
  assumes "ov_reach env st0 st" "sessions_order env" "limits_kept st0"
  shows "limits_kept st"
  using assms(1)
proof (induction rule: ov_reach.induct)
  case (reach_line st line s m)
  from handleLine_tame [OF reach_line.hyps(2,3)] reach_line.IH show ?case
    by (intro limits_kept_step) auto
next
  case (reach_sync st users)
  with assms(2) show ?case by (intro SyncUsers_kept)
next
  case (reach_update st users)
  with assms(2) show ?case by (simp add: ov_UpdateUsers_def applyUsers_kept)
qed (rule assms(3))

lemma New_kept:
  assumes "ov_New env files socketPath tag users = Inr st0"
  shows "limits_kept st0"
proof -
  have "vp_users st0 = snd (ov_replaceAll (oe_names env Map.empty) users (ov_newUserStore tag))" "mg_open (vp_mgmt st0)"
    using assms by (auto simp: ov_New_def Let_def mgmt_connect_def split: option.splits if_splits)
  moreover have "live (snd (ov_replaceAll (oe_names env Map.empty) users (ov_newUserStore tag))) cn = {}" for cn
    by (simp add: ov_replaceAll_def Let_def fold_delete_live ov_newUserStore_def)
  ultimately show ?thesis
    by (simp add: limits_kept_def within_def)
qed


section \<open>What a restart and a full synchronisation forget\<close>

text \<open>A restart of the daemon ends every connection but keeps the counted sessions: a user who had all
  its devices connected is denied the first new connection afterwards, although none of its devices
  is connected any more.\<close>

theorem ovpn_restart_locks_out:
  assumes "ov_Restart env st = (None, st')" "known_client (vp_users st) (block_env vars) e"
    and "cn = map_get [] (block_env vars) ''common_name''" "en_ipLimit e \<noteq> 0" "card (live (vp_users st) cn) = unat (en_ipLimit e)"
    and "cid \<noteq> []" "CHR '','' \<notin> set cid" "\<forall>kv \<in> set vars. CHR ''='' \<notin> set (fst kv)" "cid \<notin> live (vp_users st) cn"
  shows "mg_sent (vp_mgmt st') = [] \<and>
    mg_sent (snd (mgmt_run (connect_block cid kid vars) (vp_users st', vp_mgmt st'))) =
      [''client-deny '' @ cid @ '' '' @ kid @ '' '' @ go_quote ''device limit reached'']"
proof -
  have st': "vp_users st' = vp_users st" "mg_open (vp_mgmt st')" "mg_sent (vp_mgmt st') = []"
    using assms(1) by (auto simp: ov_Restart_def mgmt_connect_def newMgmtClient_def split: option.splits if_splits)
  have "card (live (vp_users st') cn) < 2 ^ 32"
    using unsigned_less [of "en_ipLimit e"] unfolding st'(1) assms(5) by simp
  moreover have "\<not> free_device (vp_users st') cn cid e"
    using assms(4,5,9) st'(1) by (simp add: free_device_def)
  moreover obtain s1 m1 where run: "mgmt_run (connect_block cid kid vars) (vp_users st', vp_mgmt st') = (s1, m1)"
    by (metis surj_pair)
  ultimately have "mg_sent m1 = mg_sent (vp_mgmt st') @ [''client-deny '' @ cid @ '' '' @ kid @ '' '' @ go_quote ''device limit reached'']"
    using connect_block_result [OF assms(6-8) st'(2) assms(3) _ run] assms(2) st'(1) by metis
  with run st'(3) show ?thesis
    by (simp only: snd_conv append_Nil simp_thms)
qed

lemma enforceDeviceLimit_users [simp]: "ov_users (vp_users (enforceDeviceLimit env cn st)) = ov_users (vp_users st)"
  by (simp add: enforceDeviceLimit_def excessSessions_def Let_def split: option.split prod.split)

lemma enforce_all_users: "ov_users (vp_users (fold (\<lambda>u. enforceDeviceLimit env (GetEmail u)) users st)) = ov_users (vp_users st)"
  by (induction users arbitrary: st) simp_all

lemma next_entries_password:
  "(\<forall>cn e. m cn = Some e \<longrightarrow> en_password e = []) \<Longrightarrow> fold (next_entry s) users m cn = Some e \<Longrightarrow> en_password e = []"
proof (induction users arbitrary: m)
  case (Cons u users)
  have "\<forall>cn e. next_entry s u m cn = Some e \<longrightarrow> en_password e = []"
    using Cons.prems(1) by (auto simp: next_entry_def split: option.splits if_splits)
  then show ?case
    using Cons.IH Cons.prems(2) by simp
qed simp

text \<open>A user whose record has a password is admitted after an update only with its user name and
  password, but a full synchronisation drops the password of every user: with the certificate alone
  any user name and password are accepted.\<close>

theorem ovpn_full_sync_drops_passwords:
  assumes "ov_proxy u = Some ov" "ov_inboundTag (vp_users st) \<in> set (GetInbounds u)" "GetEmail u \<noteq> []" "ovp_Password ov \<noteq> []"
  shows "(authorizedLocked (vp_users (ov_SyncUser env u st)) (GetEmail u) (ovp_Serial ov) username password \<longleftrightarrow>
      username = ovp_Username ov \<and> password = ovp_Password ov) \<and>
    (\<forall>users cn e. ov_users (vp_users (ov_SyncUsers env users st)) cn = Some e \<longrightarrow>
      authorizedLocked (vp_users (ov_SyncUsers env users st)) cn (en_serial e) username password)"
proof -
  let ?e = "\<lparr>en_serial = ovp_Serial ov, en_fingerprint = ovp_Fingerprint ov, en_username = ovp_Username ov,
    en_password = ovp_Password ov, en_ipLimit = GetIpLimit u, en_speedLimit = GetSpeedLimit u\<rparr>"
  have wants: "ov_wantsInterface (vp_users st) u"
    using assms(1,2) by (simp add: ov_wantsInterface_def)
  have "snd (ov_applyUser u (vp_users st)) = vp_users st\<lparr>ov_users := (ov_users (vp_users st))(GetEmail u \<mapsto> ?e)\<rparr>"
    using assms(1,3) wants by (simp add: ov_applyUser_def Let_def)
  then have "ov_users (vp_users (ov_SyncUser env u st)) (GetEmail u) = Some ?e"
    using applyUser_name [of u "vp_users st"]
    by (auto simp: ov_SyncUser_def ov_applyUsers_def apply_user_def split: prod.split)
  moreover have "serialEqual x x" for x
    by (simp add: serialEqual_def)
  moreover have "en_password e = []" if "ov_users (vp_users (ov_SyncUsers env users st)) cn = Some e" for users cn e
    using that next_entries_password [of Map.empty "vp_users st" users cn e]
    by (simp add: ov_SyncUsers_def ov_replaceAll_def enforce_all_users Let_def)
  ultimately show ?thesis
    using assms(4) by (auto simp: authorizedLocked_def)
qed

section \<open>Concrete runs\<close>

definition lab_ov_env :: OvEnv where
  "lab_ov_env = \<lparr>oe_sessions = sorted_list_of_set, oe_names = (\<lambda>_. []), oe_start = None, oe_dial = (\<lambda>_. None)\<rparr>"

definition lab_ov_user :: UserPtr where
  "lab_ov_user = Some \<lparr>u_Email = ''7'', u_Proxies = Some (empty_Proxy\<lparr>px_Openvpn := Some
     \<lparr>ovp_Serial = ''42'', ovp_Fingerprint = [], ovp_Username = ''bob'', ovp_Password = ''pw''\<rparr>\<rparr>),
     u_Inbounds = [''ovpn''], u_IpLimit = 1, u_SpeedLimit = 0\<rparr>"

definition lab_ov_vars :: "(string \<times> string) list" where
  "lab_ov_vars = [(''common_name'', ''7''), (''tls_serial_0'', ''42''), (''username'', ''bob''), (''password'', ''pw'')]"

definition lab_ov_entry :: ovEntry where
  "lab_ov_entry = \<lparr>en_serial = ''42'', en_fingerprint = [], en_username = ''bob'', en_password = ''pw'', en_ipLimit = 1, en_speedLimit = 0\<rparr>"

definition lab_ov :: "(string \<rightharpoonup> string set) \<Rightarrow> OpenVPN" where
  "lab_ov sessions = \<lparr>vp_users = \<lparr>ov_inboundTag = ''ovpn'', ov_users = [''7'' \<mapsto> lab_ov_entry], ov_sessions = sessions\<rparr>,
     vp_mgmt = (newMgmtClient ''/run/mgmt.sock'')\<lparr>mg_open := True\<rparr>, vp_statsTracker = new_Tracker,
     vp_interfaceStats = NewInterfaceCountersTracker, vp_totalRx = 0, vp_totalTx = 0, vp_sessionSeen = Map.empty,
     vp_cnCumulative = Map.empty, vp_running = True\<rparr>"

lemma lab_block_env:
  "map_get [] (block_env lab_ov_vars) ''common_name'' = ''7''" "map_get [] (block_env lab_ov_vars) ''tls_serial_0'' = ''42''"
  "map_get [] (block_env lab_ov_vars) ''username'' = ''bob''" "map_get [] (block_env lab_ov_vars) ''password'' = ''pw''"
  by (simp_all add: block_env_def lab_ov_vars_def put_env_def)

lemma lab_known: "known_client (vp_users (lab_ov sessions)) (block_env lab_ov_vars) lab_ov_entry"
  by (simp add: known_client_def lab_block_env lab_ov_def) (simp add: lab_ov_entry_def serialEqual_def)

lemma lab_vars_ok: "\<forall>kv \<in> set lab_ov_vars. CHR ''='' \<notin> set (fst kv)" "CHR '','' \<notin> set ''3''" "''3'' \<noteq> []"
  by (simp_all add: lab_ov_vars_def)

theorem ovpn_admission_witness:
  "\<exists>s' m'. mgmt_run (connect_block ''3'' ''1'' lab_ov_vars) (vp_users (lab_ov Map.empty), vp_mgmt (lab_ov Map.empty)) = (s', m') \<and>
    mg_sent m' = [''client-auth-nt '' @ ''3'' @ '' '' @ ''1''] \<and> live s' ''7'' = {''3''}"
proof -
  let ?s = "vp_users (lab_ov Map.empty)" and ?m = "vp_mgmt (lab_ov Map.empty)"
  obtain s' m' where run: "mgmt_run (connect_block ''3'' ''1'' lab_ov_vars) (?s, ?m) = (s', m')"
    by (metis surj_pair)
  have hyps: "mg_open ?m" "''7'' = map_get [] (block_env lab_ov_vars) ''common_name''" "card (live ?s ''7'') < 2 ^ 32"
    "free_device ?s ''7'' ''3'' lab_ov_entry" "live ?s ''7'' = {}" "mg_sent ?m = []"
    by (simp_all add: lab_ov_def lab_block_env free_device_def newMgmtClient_def) (simp add: lab_ov_entry_def)
  from conjunct1 [OF ovpn_admission [OF lab_vars_ok(3,2,1) hyps(1-3) run], rule_format, OF conjI [OF lab_known hyps(4)]]
  have "mg_sent m' = [''client-auth-nt '' @ ''3'' @ '' '' @ ''1'']" "live s' ''7'' = {''3''}"
    by (simp_all add: hyps(5,6))
  with run show ?thesis
    by iprover
qed

lemma lab_dials [simp]: "list_ex (\<lambda>i. True) [0..<50]"
  by (simp add: list_ex_iff) (rule exI [of _ 0], simp)


theorem ovpn_restart_locks_out_witness:
  "\<exists>st'. ov_Restart lab_ov_env (lab_ov [''7'' \<mapsto> {''9''}]) = (None, st') \<and>
    mg_sent (snd (mgmt_run (connect_block ''3'' ''1'' lab_ov_vars) (vp_users st', vp_mgmt st'))) =
      [''client-deny '' @ ''3'' @ '' '' @ ''1'' @ '' '' @ go_quote ''device limit reached'']"
proof -
  let ?st = "lab_ov [''7'' \<mapsto> {''9''}]"
  obtain st' where st': "ov_Restart lab_ov_env ?st = (None, st')"
    by (simp add: ov_Restart_def lab_ov_env_def mgmt_connect_def)
  have hyps: "''7'' = map_get [] (block_env lab_ov_vars) ''common_name''" "en_ipLimit lab_ov_entry \<noteq> 0"
    "card (live (vp_users ?st) ''7'') = unat (en_ipLimit lab_ov_entry)" "''3'' \<notin> live (vp_users ?st) ''7''"
    by (simp_all add: lab_block_env lab_ov_entry_def lab_ov_def)
  from ovpn_restart_locks_out [OF st' lab_known hyps(1-3) lab_vars_ok(3,2,1) hyps(4)] st' show ?thesis
    by blast
qed

theorem ovpn_full_sync_drops_passwords_witness:
  "\<not> authorizedLocked (vp_users (ov_SyncUser lab_ov_env lab_ov_user (lab_ov Map.empty))) ''7'' ''42'' ''eve'' ''guess'' \<and>
   authorizedLocked (vp_users (ov_SyncUsers lab_ov_env [lab_ov_user] (lab_ov Map.empty))) ''7'' ''42'' ''eve'' ''guess''"
proof -
  let ?ov = "\<lparr>ovp_Serial = ''42'', ovp_Fingerprint = [], ovp_Username = ''bob'', ovp_Password = ''pw''\<rparr>"
  have hyps: "ov_proxy lab_ov_user = Some ?ov" "ov_inboundTag (vp_users (lab_ov Map.empty)) \<in> set (GetInbounds lab_ov_user)"
    "GetEmail lab_ov_user \<noteq> []" "ovp_Password ?ov \<noteq> []"
    by (simp_all add: ov_proxy_def lab_ov_user_def lab_ov_def go_defs)
  have email: "GetEmail lab_ov_user = ''7''"
    by (simp add: lab_ov_user_def go_defs)
  obtain e where e: "ov_users (vp_users (ov_SyncUsers lab_ov_env [lab_ov_user] (lab_ov Map.empty))) ''7'' = Some e" "en_serial e = ''42''"
    using hyps(1,2) email
    by (simp add: ov_SyncUsers_def ov_replaceAll_def next_entry_def ov_wantsInterface_def Let_def)
  note drops = ovpn_full_sync_drops_passwords [OF hyps, of lab_ov_env "''eve''" "''guess''"]
  from conjunct2 [OF drops, rule_format, OF e(1)] conjunct1 [OF drops] show ?thesis
    by (simp add: e(2) email)
qed

end
