(* ===== verification/OvpnConfig.thy ===== *)
theory OvpnConfig
  imports OvpnUsers
begin

text \<open>
  The configuration of the OpenVPN back end: defaults and checks (\<open>backend/openvpn/config.go\<close>), the
  split of one core into several listeners (\<open>listeners.go\<close>, \<open>group.go\<close>) and the files of the daemon
  (\<open>serverconf.go\<close>). The JSON decoder, the parsers of prefixes and \<open>filepath.Join\<close> are parameters; an
  IPv4 address is its 32-bit word.
\<close>

unbundle bit_operations_syntax

section \<open>Configuration\<close>

record Listener =
  li_Port :: int
  li_Proto :: string

record OvConfig =
  oc_InboundTag :: string
  oc_Port :: int
  oc_Proto :: string
  oc_Device :: string
  oc_ServerSubnet :: string
  oc_EgressInterface :: string
  oc_DNS :: "string list"
  oc_Cipher :: string
  oc_DataCiphers :: "string list"
  oc_Auth :: string
  oc_Keepalive :: string
  oc_MaxClients :: int
  oc_DuplicateCN :: bool
  oc_Push :: "string list"
  oc_ExtraServerDirectives :: "string list"
  oc_CACert :: string
  oc_ServerCert :: string
  oc_ServerKey :: string
  oc_TLSCryptKey :: string
  oc_Listeners :: "Listener list"
  oc_workDir :: string

definition listener_key :: "Listener \<Rightarrow> string" where
  "listener_key l = li_Proto l @ ''/'' @ show_int (li_Port l)"

definition listener_protos :: "string set" where
  "listener_protos = {''udp'', ''tcp'', ''udp4'', ''udp6'', ''tcp4'', ''tcp6''}"

definition listener_defaults :: "OvConfig \<Rightarrow> Listener \<Rightarrow> Listener" where
  "listener_defaults c l =
    (let proto = to_lower (trim_space (li_Proto l))
     in \<lparr>li_Port = (if li_Port l = 0 then oc_Port c else li_Port l), li_Proto = (if proto = [] then oc_Proto c else proto)\<rparr>)"

fun listeners_loop :: "OvConfig \<Rightarrow> string set \<Rightarrow> Listener list \<Rightarrow> string + Listener list" where
  "listeners_loop c seen [] = Inr []"
| "listeners_loop c seen (l # ls) =
    (let l' = listener_defaults c l
     in if li_Port l' \<le> 0 \<or> li_Port l' > 65535
        then Inl (''listener port must be between 1 and 65535, got '' @ show_int (li_Port l'))
        else if li_Proto l' \<notin> listener_protos then Inl (''listener proto must be udp or tcp, got '' @ go_quote (li_Proto l'))
        else if listener_key l' \<in> seen then Inl (''duplicate listener '' @ listener_key l')
        else (case listeners_loop c (insert (listener_key l') seen) ls of Inl e \<Rightarrow> Inl e | Inr rest \<Rightarrow> Inr (l' # rest)))"

definition normalizeListeners :: "OvConfig \<Rightarrow> string + OvConfig" where
  "normalizeListeners c =
    (if oc_Listeners c = [] then Inr (c\<lparr>oc_Listeners := [\<lparr>li_Port = oc_Port c, li_Proto = oc_Proto c\<rparr>]\<rparr>)
     else (case listeners_loop c {} (oc_Listeners c) of
             Inl e \<Rightarrow> Inl e
           | Inr ls \<Rightarrow> Inr (c\<lparr>oc_Listeners := ls, oc_Port := li_Port (hd ls), oc_Proto := li_Proto (hd ls)\<rparr>)))"

definition or_default :: "string \<Rightarrow> string \<Rightarrow> string" where
  "or_default s d = (if s = [] then d else s)"

definition ov_NewConfig :: "(string \<Rightarrow> string + OvConfig) \<Rightarrow> string \<Rightarrow> string + OvConfig" where
  "ov_NewConfig decode configStr =
    (if trim_space configStr = [] then Inl ''openvpn config string must not be empty''
     else case decode configStr of
       Inl e \<Rightarrow> Inl (''failed to parse openvpn config: '' @ e)
     | Inr c \<Rightarrow>
         if oc_InboundTag c = [] then Inl ''inbound_tag is required''
         else if oc_Port c \<le> 0 \<or> oc_Port c > 65535 then Inl ''port must be between 1 and 65535''
         else if oc_ServerSubnet c = [] then Inl ''server_subnet is required''
         else if oc_CACert c = [] \<or> oc_ServerCert c = [] \<or> oc_ServerKey c = []
         then Inl ''ca_cert, server_cert and server_key are required''
         else normalizeListeners
           (c\<lparr>oc_Proto := or_default (oc_Proto c) ''udp'', oc_Device := or_default (oc_Device c) ''tun'',
              oc_Cipher := or_default (oc_Cipher c) ''AES-256-GCM'', oc_Auth := or_default (oc_Auth c) ''SHA256'',
              oc_Keepalive := or_default (oc_Keepalive c) ''10 60'',
              oc_MaxClients := (if oc_MaxClients c \<le> 0 then 1024 else oc_MaxClients c)\<rparr>))"

section \<open>Several listeners\<close>

record Prefix4 =
  pf_Is4 :: bool
  pf_Addr :: u32
  pf_Bits :: nat

text \<open>\<open>bits.Len\<close>, the prefix without its host bits, and the text of a prefix.\<close>

fun bits_Len :: "nat \<Rightarrow> nat" where
  "bits_Len n = (if n = 0 then 0 else Suc (bits_Len (n div 2)))"

declare bits_Len.simps [simp del]

definition bitsNeeded :: "nat \<Rightarrow> nat" where
  "bitsNeeded n = (if n \<le> 1 then 0 else bits_Len (n - 1))"

definition masked :: "u32 \<Rightarrow> nat \<Rightarrow> u32" where
  "masked a n = push_bit (32 - n) (drop_bit (32 - n) a)"

definition show_prefix :: "u32 \<Rightarrow> nat \<Rightarrow> string" where
  "show_prefix a n =
    show_dec (unat (drop_bit 24 a)) @ ''.'' @ show_dec (unat (drop_bit 16 a AND 255)) @ ''.'' @
    show_dec (unat (drop_bit 8 a AND 255)) @ ''.'' @ show_dec (unat (a AND 255)) @ ''/'' @ show_dec n"

text \<open>The address of a block.\<close>

definition block_start :: "Prefix4 \<Rightarrow> nat \<Rightarrow> nat \<Rightarrow> u32" where
  "block_start p newBits index = masked (pf_Addr p) (pf_Bits p) + push_bit (32 - newBits) 1 * of_nat index"

definition splitSubnet :: "(string \<Rightarrow> string + Prefix4) \<Rightarrow> string \<Rightarrow> nat \<Rightarrow> nat \<Rightarrow> string + string" where
  "splitSubnet parse cidr index cnt =
    (if cnt \<le> 1 then Inr cidr
     else case parse cidr of
       Inl e \<Rightarrow> Inl (''server_subnet '' @ go_quote cidr @ '' is not a valid CIDR: '' @ e)
     | Inr p \<Rightarrow>
         if \<not> pf_Is4 p then Inl (''server_subnet '' @ go_quote cidr @ '' must be IPv4 to be split across listeners'')
         else
           let newBits = pf_Bits p + bitsNeeded cnt
           in if newBits > 24
              then Inl (''server_subnet '' @ cidr @ '' is too small to split across '' @ show_dec cnt @
                        '' listeners (would need a /'' @ show_dec newBits @ '' per listener)'')
              else Inr (show_prefix (block_start p newBits index) newBits))"

definition derive :: "(string \<Rightarrow> string + Prefix4) \<Rightarrow> (string list \<Rightarrow> string) \<Rightarrow> string \<Rightarrow> Listener \<Rightarrow> nat \<Rightarrow> nat \<Rightarrow>
    OvConfig \<Rightarrow> string + OvConfig" where
  "derive parse join generatedPath l index cnt c =
    (case splitSubnet parse (oc_ServerSubnet c) index cnt of
       Inl e \<Rightarrow> Inl e
     | Inr sub \<Rightarrow>
         Inr (c\<lparr>oc_Port := li_Port l, oc_Proto := li_Proto l, oc_ServerSubnet := sub, oc_Listeners := [l],
                oc_workDir := (if cnt > 1
                  then join [generatedPath, ''openvpn'', oc_InboundTag c, li_Proto l @ show_int (li_Port l)]
                  else oc_workDir c)\<rparr>))"

text \<open>
  The start of all listeners: \<open>start\<close> starts one server, and a failure returns the servers that have
  been started so far to be shut down.
\<close>

fun start_listeners :: "(OvConfig \<Rightarrow> string + 'b) \<Rightarrow> (Listener \<Rightarrow> nat \<Rightarrow> string + OvConfig) \<Rightarrow> 'b list \<Rightarrow> nat \<Rightarrow> Listener list \<Rightarrow>
    (string \<times> 'b list) + 'b list" where
  "start_listeners start derived started i [] = Inr started"
| "start_listeners start derived started i (l # ls) =
    (case derived l i of
       Inl e \<Rightarrow> Inl (e, started)
     | Inr c \<Rightarrow>
         (case start c of
            Inl e \<Rightarrow> Inl (''start openvpn listener '' @ li_Proto l @ ''/'' @ show_int (li_Port l) @ '': '' @ e, started)
          | Inr b \<Rightarrow> start_listeners start derived (started @ [b]) (Suc i) ls))"

definition ov_NewBackend :: "(OvConfig \<Rightarrow> string + 'b) \<Rightarrow> (string \<Rightarrow> string + Prefix4) \<Rightarrow> (string list \<Rightarrow> string) \<Rightarrow> string \<Rightarrow>
    OvConfig option \<Rightarrow> (string \<times> 'b list) + 'b list" where
  "ov_NewBackend start parse join generatedPath conf =
    (case conf of
       None \<Rightarrow> Inl (''openvpn config must not be nil'', [])
     | Some c \<Rightarrow>
         let cnt = length (oc_Listeners c)
         in if cnt \<le> 1
            then (case start c of Inl e \<Rightarrow> Inl (e, []) | Inr b \<Rightarrow> Inr [b])
            else start_listeners start (\<lambda>l i. derive parse join generatedPath l i cnt c) [] 0 (oc_Listeners c))"

section \<open>The files of the daemon\<close>

text \<open>\<open>net.ParseCIDR\<close> gives the network address and the bytes of the mask.\<close>

definition ov_parseCIDR :: "(string \<Rightarrow> string + string \<times> nat list) \<Rightarrow> string \<Rightarrow> string + string \<times> string" where
  "ov_parseCIDR ParseCIDR cidr =
    (case ParseCIDR (trim_space cidr) of
       Inl e \<Rightarrow> Inl (''invalid server_subnet '' @ go_quote cidr @ '': '' @ e)
     | Inr (ip, bytes) \<Rightarrow>
         if length bytes \<noteq> 4 then Inl (''server_subnet '' @ go_quote cidr @ '' must be IPv4'')
         else Inr (ip, str_join ''.'' (map show_dec bytes)))"

definition line :: "string \<Rightarrow> string" where
  "line s = s @ [char_of (10::nat)]"

definition renderServerConf :: "(string \<Rightarrow> string + string \<times> nat list) \<Rightarrow> (string list \<Rightarrow> string) \<Rightarrow> OvConfig \<Rightarrow> string + string" where
  "renderServerConf ParseCIDR join c =
    (case ov_parseCIDR ParseCIDR (oc_ServerSubnet c) of
       Inl e \<Rightarrow> Inl e
     | Inr (netAddr, dotted) \<Rightarrow>
         Inr (concat (map line (
           [''port '' @ show_int (oc_Port c), ''proto '' @ oc_Proto c, ''dev '' @ oc_Device c, ''topology subnet'',
            ''server '' @ netAddr @ '' '' @ dotted, ''ca ca.crt'', ''cert server.crt'', ''key server.key'', ''dh none'',
            ''ecdh-curve prime256v1''] @
           (if trim_space (oc_TLSCryptKey c) \<noteq> [] then [''tls-crypt tc.key''] else []) @
           [''cipher '' @ oc_Cipher c] @
           (if oc_DataCiphers c \<noteq> [] then [''data-ciphers '' @ str_join '':'' (oc_DataCiphers c)] else []) @
           [''auth '' @ oc_Auth c, ''keepalive '' @ oc_Keepalive c, ''max-clients '' @ show_int (oc_MaxClients c)] @
           (if oc_DuplicateCN c then [''duplicate-cn''] else []) @
           map (\<lambda>dns. ''push '' @ [char_of (34::nat)] @ ''dhcp-option DNS '' @ dns @ [char_of (34::nat)]) (oc_DNS c) @
           map (\<lambda>l. ''push '' @ go_quote l) (oc_Push c) @
           filter (\<lambda>l. l \<noteq> []) (map trim_space (oc_ExtraServerDirectives c)) @
           [''management '' @ join [oc_workDir c, ''mgmt.sock''] @ '' unix'', ''management-client-auth'', ''auth-user-pass-optional'',
            ''verify-client-cert require'', ''status-version 3'', ''status '' @ join [oc_workDir c, ''status.log''] @ '' 5'',
            ''persist-key'', ''persist-tun'', ''verb 3'']))))"

text \<open>
  The files in the order in which they are written; \<open>order\<close> is the order of the loop over the key
  material, and \<open>write\<close> the result of writing a file.
\<close>

definition key_files :: "OvConfig \<Rightarrow> (string \<rightharpoonup> string)" where
  "key_files c =
    (let files = [''ca.crt'' \<mapsto> oc_CACert c, ''server.crt'' \<mapsto> oc_ServerCert c, ''server.key'' \<mapsto> oc_ServerKey c]
     in if trim_space (oc_TLSCryptKey c) \<noteq> [] then files(''tc.key'' \<mapsto> oc_TLSCryptKey c) else files)"

fun write_keys :: "(string \<Rightarrow> string \<Rightarrow> string option) \<Rightarrow> (string list \<Rightarrow> string) \<Rightarrow> string \<Rightarrow> (string \<rightharpoonup> string) \<Rightarrow> string list \<Rightarrow> string option" where
  "write_keys write join dir files [] = None"
| "write_keys write join dir files (name # names) =
    (case write (join [dir, name]) (map_get [] files name) of
       Some e \<Rightarrow> Some (''write '' @ name @ '': '' @ e)
     | None \<Rightarrow> write_keys write join dir files names)"

definition writeFiles :: "string option \<Rightarrow> (string \<Rightarrow> string \<Rightarrow> string option) \<Rightarrow> (string list \<Rightarrow> string) \<Rightarrow>
    (string \<Rightarrow> string + string \<times> nat list) \<Rightarrow> string list \<Rightarrow> OvConfig \<Rightarrow> string + string" where
  "writeFiles mkdir write join ParseCIDR order c =
    (case mkdir of
       Some e \<Rightarrow> Inl (''create work dir: '' @ e)
     | None \<Rightarrow>
         (case write_keys write join (oc_workDir c) (key_files c) order of
            Some e \<Rightarrow> Inl e
          | None \<Rightarrow>
              (case renderServerConf ParseCIDR join c of
                 Inl e \<Rightarrow> Inl e
               | Inr conf \<Rightarrow>
                   (case write (join [oc_workDir c, ''server.conf'']) conf of
                      Some e \<Rightarrow> Inl (''write server.conf: '' @ e)
                    | None \<Rightarrow> Inr (join [oc_workDir c, ''server.conf''])))))"

section \<open>The blocks of a split subnet\<close>

text \<open>The addresses of a prefix.\<close>

definition prefix_addrs :: "u32 \<Rightarrow> nat \<Rightarrow> u32 set" where
  "prefix_addrs a n = {x. drop_bit (32 - n) x = drop_bit (32 - n) a}"

lemma bits_Len_bound: "n < 2 ^ bits_Len n"
proof (induction n rule: bits_Len.induct)
  case (1 n)
  show ?case
  proof (cases "n = 0")
    case False
    with 1 have "n div 2 < 2 ^ bits_Len (n div 2)"
      by simp
    then have "n < 2 * 2 ^ bits_Len (n div 2)"
      by linarith
    with False show ?thesis
      by (simp add: bits_Len.simps [of n])
  qed (simp add: bits_Len.simps)
qed

lemma bitsNeeded_bound: "i < n \<Longrightarrow> i < 2 ^ bitsNeeded n"
  using bits_Len_bound [of "n - 1"] by (cases "n \<le> 1") (auto simp: bitsNeeded_def)

lemma unat_u32: "unat (a::u32) < 2 ^ 32"
  by (rule less_le_trans [OF unsigned_less]) simp

lemma unat_masked: "n \<le> 32 \<Longrightarrow> unat (masked a n) = unat a div 2 ^ (32 - n) * 2 ^ (32 - n)"
proof -
  have "unat a div 2 ^ (32 - n) * 2 ^ (32 - n) < 2 ^ 32"
    by (rule le_less_trans [OF _ unat_u32 [of a]]) (simp add: div_times_less_eq_dividend)
  then show ?thesis
    unfolding masked_def unsigned_push_bit_eq unsigned_drop_bit_eq using unat_u32 [of a]
    by (simp add: drop_bit_eq_div push_bit_eq_mult take_bit_eq_mod)
qed

text \<open>No wrap-around: the start of a block is the sum of the numbers.\<close>

lemma unat_block_start:
  assumes "pf_Bits p + k \<le> 24" "i < 2 ^ k" "0 < k"
  shows "unat (block_start p (pf_Bits p + k) i) =
    unat (pf_Addr p) div 2 ^ (32 - pf_Bits p) * 2 ^ (32 - pf_Bits p) + 2 ^ (32 - (pf_Bits p + k)) * i"
proof -
  let ?b = "pf_Bits p" and ?s = "32 - (pf_Bits p + k)"
  let ?q = "unat (pf_Addr p) div 2 ^ (32 - ?b)"
  have pow: "2 ^ (32 - ?b) = (2::nat) ^ ?s * 2 ^ k"
    using assms(1) by (simp flip: power_add)
  have "2 ^ ?s * i < (2::nat) ^ (32 - ?b)"
    using assms(2) by (simp add: pow)
  moreover have "?q < 2 ^ ?b"
    using unat_u32 [of "pf_Addr p"] assms(1) by (intro less_mult_imp_div_less) (simp flip: power_add)
  then have "(?q + 1) * 2 ^ (32 - ?b) \<le> (2::nat) ^ ?b * 2 ^ (32 - ?b)"
    by (intro mult_le_mono1) simp
  ultimately have fits: "?q * 2 ^ (32 - ?b) + 2 ^ ?s * i < 2 ^ 32"
    using assms(1) by (simp add: algebra_simps flip: power_add)
  have "(2::nat) ^ ?s < 2 ^ 32"
    using assms(3) by (intro power_strict_increasing) auto
  then have one: "unat (push_bit ?s (1::u32)) = 2 ^ ?s"
    unfolding unsigned_push_bit_eq by (simp add: push_bit_eq_mult take_bit_eq_mod)
  have "i < 2 ^ 24"
    using assms(1,2) by (meson add_leD2 less_le_trans one_le_numeral power_increasing)
  then have "unat (of_nat i :: u32) = i"
    by (simp add: unat_of_nat)
  with one fits have "unat (push_bit ?s (1::u32) * of_nat i) = 2 ^ ?s * i"
    using unat_mult_lem [of "push_bit ?s (1::u32)" "of_nat i"] by simp
  with fits show ?thesis
    using unat_masked [of ?b "pf_Addr p"] assms(1)
      unat_add_lem [of "masked (pf_Addr p) ?b" "push_bit ?s 1 * of_nat i"] by (simp add: block_start_def)
qed

lemma prefix_addrs_nat: "x \<in> prefix_addrs a n \<longleftrightarrow> unat x div 2 ^ (32 - n) = unat a div 2 ^ (32 - n)"
proof -
  have "unat (drop_bit (32 - n) y) = unat y div 2 ^ (32 - n)" for y :: u32
    unfolding unsigned_drop_bit_eq using unat_u32 [of y] by (simp add: drop_bit_eq_div take_bit_eq_mod)
  then show ?thesis
    unfolding prefix_addrs_def mem_Collect_eq by (metis word_unat_eq_iff)
qed

lemma block_index:
  assumes "pf_Bits p + k \<le> 24" "i < 2 ^ k" "0 < k"
  shows "unat (block_start p (pf_Bits p + k) i) div 2 ^ (32 - (pf_Bits p + k)) = unat (pf_Addr p) div 2 ^ (32 - pf_Bits p) * 2 ^ k + i"
proof -
  have "2 ^ (32 - pf_Bits p) = (2::nat) ^ (32 - (pf_Bits p + k)) * 2 ^ k"
    using assms(1) by (simp flip: power_add)
  then have "unat (block_start p (pf_Bits p + k) i) =
      2 ^ (32 - (pf_Bits p + k)) * (unat (pf_Addr p) div 2 ^ (32 - pf_Bits p) * 2 ^ k + i)"
    using unat_block_start [OF assms] by (simp add: algebra_simps)
  then show ?thesis
    by simp
qed

lemma block_inside:
  assumes "pf_Bits p + k \<le> 24" "i < 2 ^ k" "0 < k"
  shows "prefix_addrs (block_start p (pf_Bits p + k) i) (pf_Bits p + k) \<subseteq> prefix_addrs (pf_Addr p) (pf_Bits p)"
proof
  fix x assume "x \<in> prefix_addrs (block_start p (pf_Bits p + k) i) (pf_Bits p + k)"
  then have "unat x div 2 ^ (32 - (pf_Bits p + k)) = unat (pf_Addr p) div 2 ^ (32 - pf_Bits p) * 2 ^ k + i"
    using block_index [OF assms] by (simp add: prefix_addrs_nat)
  moreover have "2 ^ (32 - pf_Bits p) = (2::nat) ^ (32 - (pf_Bits p + k)) * 2 ^ k"
    using assms(1) by (simp flip: power_add)
  ultimately have "unat x div 2 ^ (32 - pf_Bits p) = (unat (pf_Addr p) div 2 ^ (32 - pf_Bits p) * 2 ^ k + i) div 2 ^ k"
    by (metis div_mult2_eq)
  then show "x \<in> prefix_addrs (pf_Addr p) (pf_Bits p)"
    using assms(2) by (simp add: prefix_addrs_nat)
qed

lemma blocks_disjoint:
  assumes "pf_Bits p + k \<le> 24" "i < 2 ^ k" "j < 2 ^ k" "0 < k" "i \<noteq> j"
  shows "prefix_addrs (block_start p (pf_Bits p + k) i) (pf_Bits p + k) \<inter> prefix_addrs (block_start p (pf_Bits p + k) j) (pf_Bits p + k) = {}"
  using block_index [OF assms(1,2,4)] block_index [OF assms(1,3,4)] assms(5) by (auto simp: prefix_addrs_nat)

lemma bitsNeeded_pos: "1 < n \<Longrightarrow> 0 < bitsNeeded n"
  by (simp add: bitsNeeded_def bits_Len.simps [of "n - Suc 0"])

text \<open>C23. Splitting an IPv4 subnet that is large enough gives every listener a block of its own: all blocks
  have the same length, lie inside the subnet without wrapping around 32 bits, and no two of them
  share an address.\<close>

theorem splitSubnet_blocks:
  assumes "1 < cnt" "parse cidr = Inr p" "pf_Is4 p" "pf_Bits p + bitsNeeded cnt \<le> 24"
  shows "\<exists>a n. n \<le> 24 \<and> (\<forall>i < cnt. splitSubnet parse cidr i cnt = Inr (show_prefix (a i) n) \<and>
      prefix_addrs (a i) n \<subseteq> prefix_addrs (pf_Addr p) (pf_Bits p)) \<and>
    (\<forall>i < cnt. \<forall>j < cnt. i \<noteq> j \<longrightarrow> prefix_addrs (a i) n \<inter> prefix_addrs (a j) n = {})"
proof (intro exI conjI allI impI)
  let ?k = "bitsNeeded cnt"
  let ?n = "pf_Bits p + ?k"
  fix i assume i: "i < cnt"
  show "splitSubnet parse cidr i cnt = Inr (show_prefix (block_start p ?n i) ?n)"
    using assms by (simp add: splitSubnet_def Let_def)
  show "prefix_addrs (block_start p ?n i) ?n \<subseteq> prefix_addrs (pf_Addr p) (pf_Bits p)"
    using assms(4) bitsNeeded_bound [OF i] bitsNeeded_pos [OF assms(1)] by (rule block_inside)
  fix j assume "j < cnt" "i \<noteq> j"
  then show "prefix_addrs (block_start p ?n i) ?n \<inter> prefix_addrs (block_start p ?n j) ?n = {}"
    using assms(4) bitsNeeded_bound i bitsNeeded_pos [OF assms(1)] by (intro blocks_disjoint) auto
qed (rule assms(4))

section \<open>Listeners\<close>

lemma append_sep_inj:
  assumes "a @ c # x = b @ c # y" "c \<notin> set x" "c \<notin> set y"
  shows "a = b \<and> x = y"
  using assms by (induction a arbitrary: b) (auto simp: Cons_eq_append_conv append_eq_Cons_conv)

lemma show_dec_no_slash: "CHR ''/'' \<notin> set (show_dec n)"
proof
  assume "CHR ''/'' \<in> set (show_dec n)"
  then obtain d where "d < 10" "CHR ''/'' = digit_char d"
    using show_dec_chars [of n] by auto
  then have "of_char CHR ''/'' = (48 + d :: nat)"
    by (simp add: digit_char_def)
  then show False by simp
qed

text \<open>Valid listeners are told apart by their keys.\<close>

definition valid_listener :: "Listener \<Rightarrow> bool" where
  "valid_listener l \<longleftrightarrow> 0 < li_Port l \<and> li_Port l \<le> 65535 \<and> li_Proto l \<in> listener_protos"

lemma listener_key_inj: "0 < li_Port l \<Longrightarrow> 0 < li_Port l' \<Longrightarrow> listener_key l = listener_key l' \<Longrightarrow> l = l'"
  using append_sep_inj [of "li_Proto l" "CHR ''/''" "show_dec (nat (li_Port l))" "li_Proto l'" "show_dec (nat (li_Port l'))"]
  by (cases l; cases l') (simp add: listener_key_def show_int_def show_dec_no_slash)

lemma listeners_loop_valid:
  "listeners_loop c seen ls = Inr ls' \<Longrightarrow>
    length ls' = length ls \<and> (\<forall>l \<in> set ls'. valid_listener l \<and> listener_key l \<notin> seen) \<and> distinct ls'"
proof (induction ls arbitrary: seen ls')
  case (Cons l ls)
  let ?l = "listener_defaults c l"
  obtain rest where rest: "listeners_loop c (insert (listener_key ?l) seen) ls = Inr rest" "ls' = ?l # rest"
    and l: "valid_listener ?l" "listener_key ?l \<notin> seen"
    using Cons.prems by (auto simp: Let_def valid_listener_def split: if_splits sum.splits)
  from Cons.IH [OF rest(1)] l show ?case
    by (auto simp: rest(2))
qed simp

lemma NewConfig_cases:
  assumes "ov_NewConfig decode str = Inr c"
  obtains d where "normalizeListeners d = Inr c" "0 < oc_Port d" "oc_Port d \<le> 65535"
  using assms by (auto simp: ov_NewConfig_def split: if_splits sum.splits)

text \<open>A configuration that is accepted has at least one listener; all listeners have a port between 1
  and 65535, no two are equal, the listed ones have one of the six protocols, and the port and the
  protocol of the configuration are those of the first.\<close>

theorem ovpn_listeners_valid:
  assumes "ov_NewConfig decode str = Inr c"
  shows "oc_Listeners c \<noteq> [] \<and> distinct (oc_Listeners c) \<and>
    (\<forall>l \<in> set (oc_Listeners c). 0 < li_Port l \<and> li_Port l \<le> 65535) \<and>
    (1 < length (oc_Listeners c) \<longrightarrow> (\<forall>l \<in> set (oc_Listeners c). li_Proto l \<in> listener_protos)) \<and>
    oc_Port c = li_Port (hd (oc_Listeners c)) \<and> oc_Proto c = li_Proto (hd (oc_Listeners c))"
proof -
  obtain d where d: "normalizeListeners d = Inr c" "0 < oc_Port d" "oc_Port d \<le> 65535"
    using assms by (rule NewConfig_cases)
  show ?thesis
  proof (cases "oc_Listeners d = []")
    case True
    with d show ?thesis by (auto simp: normalizeListeners_def)
  next
    case False
    then obtain ls where ls: "listeners_loop d {} (oc_Listeners d) = Inr ls"
      "c = d\<lparr>oc_Listeners := ls, oc_Port := li_Port (hd ls), oc_Proto := li_Proto (hd ls)\<rparr>"
      using d(1) by (auto simp: normalizeListeners_def split: sum.splits)
    from listeners_loop_valid [OF ls(1)] False show ?thesis
      by (auto simp: ls(2) valid_listener_def)
  qed
qed

text \<open>Two different listeners can share the directory of their server: the listeners udp on port 41194
  and udp4 on port 1194 are both accepted and get the same directory, hence the same management
  socket and configuration file.\<close>

theorem ovpn_workdirs_collide:
  assumes "derive parse join generatedPath \<lparr>li_Port = 41194, li_Proto = ''udp''\<rparr> 0 2 c = Inr c1"
    and "derive parse join generatedPath \<lparr>li_Port = 1194, li_Proto = ''udp4''\<rparr> 1 2 c = Inr c2"
  shows "listeners_loop c {} [\<lparr>li_Port = 41194, li_Proto = ''udp''\<rparr>, \<lparr>li_Port = 1194, li_Proto = ''udp4''\<rparr>] =
      Inr [\<lparr>li_Port = 41194, li_Proto = ''udp''\<rparr>, \<lparr>li_Port = 1194, li_Proto = ''udp4''\<rparr>] \<and>
    oc_workDir c1 = oc_workDir c2 \<and> (oc_Proto c1, oc_Port c1) \<noteq> (oc_Proto c2, oc_Port c2)"
proof -
  let ?l1 = "\<lparr>li_Port = 41194, li_Proto = ''udp''\<rparr>" and ?l2 = "\<lparr>li_Port = 1194, li_Proto = ''udp4''\<rparr>"
  have digits: "digit_char 1 = CHR ''1''" "digit_char 9 = CHR ''9''" "digit_char 4 = CHR ''4''" "digit_char (Suc 0) = CHR ''1''"
    by code_simp+
  have ports: "show_int 41194 = ''41194''" "show_int 1194 = ''1194''"
    by (simp_all add: show_int_def show_dec_def show_base.simps digits)
  have trims: "to_lower (trim_space ''udp'') = ''udp''" "to_lower (trim_space ''udp4'') = ''udp4''"
    by (simp_all add: trim_space_def is_space_def to_lower_def lower_char_def)
  have "listener_defaults c ?l1 = ?l1" "listener_defaults c ?l2 = ?l2"
    by (simp_all add: listener_defaults_def trims)
  moreover have "listener_key ?l2 \<noteq> listener_key ?l1"
    by (simp add: listener_key_def ports)
  ultimately have "listeners_loop c {} [?l1, ?l2] = Inr [?l1, ?l2]"
    by (simp add: Let_def listener_protos_def)
  moreover have "oc_workDir c1 = oc_workDir c2" "oc_Proto c1 = ''udp''" "oc_Proto c2 = ''udp4''"
    using assms by (auto simp: derive_def ports split: sum.splits)
  ultimately show ?thesis
    by simp
qed

section \<open>Concrete configurations\<close>

definition lab_oc :: OvConfig where
  "lab_oc = \<lparr>oc_InboundTag = ''ovpn'', oc_Port = 1194, oc_Proto = [], oc_Device = [], oc_ServerSubnet = ''10.8.0.0/16'',
     oc_EgressInterface = [], oc_DNS = [], oc_Cipher = [], oc_DataCiphers = [], oc_Auth = [], oc_Keepalive = [], oc_MaxClients = 0,
     oc_DuplicateCN = False, oc_Push = [], oc_ExtraServerDirectives = [], oc_CACert = ''ca'', oc_ServerCert = ''crt'', oc_ServerKey = ''key'',
     oc_TLSCryptKey = [], oc_Listeners = [], oc_workDir = []\<rparr>"

definition lab_prefix :: Prefix4 where
  "lab_prefix = \<lparr>pf_Is4 = True, pf_Addr = 0x0A080000, pf_Bits = 16\<rparr>"

lemma lab_bits: "bitsNeeded 2 = 1"
  by (simp add: bitsNeeded_def bits_Len.simps)

theorem splitSubnet_blocks_witness:
  "\<exists>a n. n \<le> 24 \<and> (\<forall>i < 2. splitSubnet (\<lambda>_. Inr lab_prefix) ''10.8.0.0/16'' i 2 = Inr (show_prefix (a i) n)) \<and>
     prefix_addrs (a (0::nat)) n \<inter> prefix_addrs (a 1) n = {}"
proof -
  have hyps: "(1::nat) < 2" "(\<lambda>_. Inr lab_prefix) ''10.8.0.0/16'' = Inr lab_prefix" "pf_Is4 lab_prefix"
    "pf_Bits lab_prefix + bitsNeeded 2 \<le> 24"
    by (simp_all add: lab_prefix_def lab_bits)
  obtain a n where an: "n \<le> 24" "\<forall>i < 2. splitSubnet (\<lambda>_. Inr lab_prefix) ''10.8.0.0/16'' i 2 = Inr (show_prefix (a i) n) \<and>
      prefix_addrs (a i) n \<subseteq> prefix_addrs (pf_Addr lab_prefix) (pf_Bits lab_prefix)"
    "\<forall>i < 2. \<forall>j < 2. i \<noteq> j \<longrightarrow> prefix_addrs (a i) n \<inter> prefix_addrs (a j) n = {}"
    using splitSubnet_blocks [OF hyps] by metis
  from an(3) [rule_format, of 0 1] an(1,2) show ?thesis
    by auto
qed

theorem ovpn_listeners_valid_witness:
  "\<exists>c. ov_NewConfig (\<lambda>_. Inr lab_oc) ''{}'' = Inr c \<and> oc_Listeners c \<noteq> [] \<and> oc_Proto c = li_Proto (hd (oc_Listeners c))"
proof -
  have "\<exists>c. ov_NewConfig (\<lambda>_. Inr lab_oc) ''{}'' = Inr c"
    by (simp add: ov_NewConfig_def lab_oc_def normalizeListeners_def trim_space_def is_space_def)
  then show ?thesis
    using ovpn_listeners_valid [of "\<lambda>_. Inr lab_oc" "''{}''"] by blast
qed

theorem ovpn_workdirs_collide_witness:
  "\<exists>c1 c2. derive (\<lambda>_. Inr lab_prefix) concat ''/etc/hpx/'' \<lparr>li_Port = 41194, li_Proto = ''udp''\<rparr> 0 2 lab_oc = Inr c1 \<and>
     derive (\<lambda>_. Inr lab_prefix) concat ''/etc/hpx/'' \<lparr>li_Port = 1194, li_Proto = ''udp4''\<rparr> 1 2 lab_oc = Inr c2 \<and>
     oc_workDir c1 = oc_workDir c2"
proof -
  let ?derive = "\<lambda>l i. derive (\<lambda>_. Inr lab_prefix) concat ''/etc/hpx/'' l i 2 lab_oc"
  have "\<exists>c'. ?derive l i = Inr c'" for l i
    by (simp add: derive_def splitSubnet_def lab_prefix_def lab_bits Let_def)
  then obtain c1 c2 where c: "?derive \<lparr>li_Port = 41194, li_Proto = ''udp''\<rparr> 0 = Inr c1"
    "?derive \<lparr>li_Port = 1194, li_Proto = ''udp4''\<rparr> 1 = Inr c2"
    by metis
  from ovpn_workdirs_collide [OF c] c show ?thesis
    by blast
qed

end
