(* ===== verification/Daemon.thy ===== *)
theory Daemon
  imports ChapSecrets
begin

text \<open>
  What the back ends that supervise one daemon have in common: the host they run on (files, commands, programs)
  and the life cycle of the supervised process. \<open>backend/sstp\<close>, \<open>backend/openconnect\<close>, \<open>backend/sshvpn\<close>,
  \<open>backend/mtproto\<close>, \<open>backend/pptp\<close> and \<open>backend/l2tp\<close> repeat the same code: \<open>start\<close> runs the daemon and leaves a
  goroutine that waits for its end and closes \<open>waitDone\<close>, \<open>Shutdown\<close> kills the process once and waits at most five
  seconds for that channel, \<open>Restart\<close> does both with a new channel. The lines of \<open>sstp.go\<close> are the ones translated.
\<close>

section \<open>The host\<close>

text \<open>
  What the operating system answers: the error of \<open>os.MkdirAll\<close>; for \<open>os.WriteFile\<close> nothing, or the error
  and what the file is left with; whether a path exists; \<open>exec.LookPath\<close>; the start of a process, which gives its
  number; the error of a command run with its arguments and its input; its output; \<open>filepath.Join\<close>; the order
  in which a loop visits a map of strings.
\<close>

record HostEnv =
  he_MkdirAll :: "string \<Rightarrow> string option"
  he_WriteFile :: "string \<Rightarrow> string \<Rightarrow> (string \<times> string option) option"
  he_exists :: "string \<Rightarrow> bool"
  he_LookPath :: "string \<Rightarrow> string option"
  he_Start :: "string list \<Rightarrow> string + nat"
  he_Run :: "string list \<Rightarrow> string \<Rightarrow> string option"
  he_Output :: "string list \<Rightarrow> string option \<times> string"
  he_Join :: "string list \<Rightarrow> string"
  he_order :: "(string \<rightharpoonup> string) \<Rightarrow> string list"

text \<open>The files of the host and the commands that were run, with their inputs.\<close>

record Host =
  ho_files :: "string \<rightharpoonup> string"
  ho_cmds :: "(string list \<times> string) list"

definition os_WriteFile :: "HostEnv \<Rightarrow> string \<Rightarrow> string \<Rightarrow> Host \<Rightarrow> string option \<times> Host" where
  "os_WriteFile env path content h =
    (case he_WriteFile env path content of
       None \<Rightarrow> (None, h\<lparr>ho_files := (ho_files h)(path \<mapsto> content)\<rparr>)
     | Some (e, left) \<Rightarrow> (Some e, h\<lparr>ho_files := (ho_files h)(path := left)\<rparr>))"

definition os_Run :: "HostEnv \<Rightarrow> string list \<Rightarrow> string \<Rightarrow> Host \<Rightarrow> string option \<times> Host" where
  "os_Run env argv stdin h = (he_Run env argv stdin, h\<lparr>ho_cmds := ho_cmds h @ [(argv, stdin)]\<rparr>)"

text \<open>The first of some paths that exists, else what \<open>exec.LookPath\<close> finds.\<close>

definition find_program :: "HostEnv \<Rightarrow> string list \<Rightarrow> string \<Rightarrow> string option" where
  "find_program env paths name =
    (case List.find (he_exists env) paths of
       Some p \<Rightarrow> Some p
     | None \<Rightarrow> he_LookPath env name)"

lemma os_WriteFile_ok:
  "os_WriteFile env path content h = (None, h') \<Longrightarrow> ho_files h' = (ho_files h)(path \<mapsto> content) \<and> ho_cmds h' = ho_cmds h"
  by (auto simp: os_WriteFile_def split: option.splits)

lemma os_WriteFile_cmds [simp]: "ho_cmds (snd (os_WriteFile env path content h)) = ho_cmds h"
  by (auto simp: os_WriteFile_def split: option.split)

lemma os_Run_files [simp]: "ho_files (snd (os_Run env argv stdin h)) = ho_files h"
  by (simp add: os_Run_def)

section \<open>The supervised process\<close>

text \<open>
  \<open>sv_once\<close> tells that \<open>shutdownOnce\<close> has run. A channel is a number: \<open>sv_waitDone\<close> is the one in the field,
  \<open>sv_chans\<close> how many were made, \<open>sv_closed\<close> the closed ones. \<open>sv_waiting\<close> are the processes whose goroutine is
  still in \<open>cmd.Wait\<close>; the goroutine closes the channel that is in the field when \<open>Wait\<close> returns, and closing a closed
  channel panics, which ends the node.
\<close>

record Supervised =
  sv_running :: bool
  sv_once :: bool
  sv_process :: "nat option"
  sv_waitDone :: nat
  sv_chans :: nat
  sv_closed :: "nat list"
  sv_waiting :: "nat list"
  sv_panic :: bool

definition sv_new :: Supervised where
  "sv_new = \<lparr>sv_running = False, sv_once = False, sv_process = None, sv_waitDone = 0, sv_chans = 1, sv_closed = [],
     sv_waiting = [], sv_panic = False\<rparr>"

definition sv_started :: "nat \<Rightarrow> Supervised \<Rightarrow> Supervised" where
  "sv_started pid s = s\<lparr>sv_process := Some pid, sv_waiting := sv_waiting s @ [pid], sv_running := True\<rparr>"

definition sv_wait_returns :: "nat \<Rightarrow> Supervised \<Rightarrow> Supervised" where
  "sv_wait_returns pid s =
    (if pid \<notin> set (sv_waiting s) then s
     else let s1 = s\<lparr>sv_waiting := remove1 pid (sv_waiting s)\<rparr> in
          if sv_waitDone s1 \<in> set (sv_closed s1) then s1\<lparr>sv_panic := True\<rparr>
          else s1\<lparr>sv_closed := sv_closed s1 @ [sv_waitDone s1]\<rparr>)"

text \<open>
  \<open>reaped\<close> are the processes whose \<open>Wait\<close> returns before \<open>Shutdown\<close> does: the killed process, unless it takes longer
  than five seconds to end.
\<close>

definition sv_Shutdown :: "nat list \<Rightarrow> Supervised \<Rightarrow> Supervised" where
  "sv_Shutdown reaped s =
    (if sv_once s then s else fold sv_wait_returns reaped (s\<lparr>sv_once := True, sv_running := False\<rparr>))"

definition sv_renew :: "Supervised \<Rightarrow> Supervised" where
  "sv_renew s = s\<lparr>sv_waitDone := sv_chans s, sv_chans := sv_chans s + 1, sv_once := False\<rparr>"

definition sv_Started :: "Supervised \<Rightarrow> bool" where
  "sv_Started s = sv_running s"

text \<open>\<open>sv_launch\<close> is the end of \<open>start\<close>: the result of \<open>cmd.Start\<close> and what follows it.\<close>

definition sv_launch :: "string \<Rightarrow> string + nat \<Rightarrow> Supervised \<Rightarrow> string option \<times> Supervised" where
  "sv_launch what r s =
    (case r of
       Inl e \<Rightarrow> (Some (what @ e), s)
     | Inr pid \<Rightarrow> (None, sv_started pid s))"

text \<open>Every goroutine that still waits returns before the shut-down does.\<close>

definition timely :: "nat list \<Rightarrow> Supervised \<Rightarrow> bool" where
  "timely reaped s \<longleftrightarrow> sv_once s \<or> set (sv_waiting s) \<subseteq> set reaped"

text \<open>
  The life of a back end whose shut-downs are timely: \<open>New\<close> starts the daemon, which may end by itself at any time;
  a restart may fail before or at the start of the process.
\<close>

inductive sup_run :: "Supervised \<Rightarrow> bool" where
  made: "sup_run (sv_started pid sv_new)"
| ended: "sup_run s \<Longrightarrow> sup_run (sv_wait_returns pid s)"
| stopped: "sup_run s \<Longrightarrow> timely reaped s \<Longrightarrow> sup_run (sv_Shutdown reaped s)"
| restarted: "sup_run s \<Longrightarrow> timely reaped s \<Longrightarrow> sup_run (sv_started pid (sv_renew (sv_Shutdown reaped s)))"
| failed: "sup_run s \<Longrightarrow> timely reaped s \<Longrightarrow> sup_run (sv_renew (sv_Shutdown reaped s))"

definition sup_ok :: "Supervised \<Rightarrow> bool" where
  "sup_ok s \<longleftrightarrow> \<not> sv_panic s \<and> (\<forall>c \<in> set (sv_closed s). c < sv_chans s) \<and> sv_waitDone s < sv_chans s \<and>
    (sv_waiting s = [] \<or> (\<exists>pid. sv_waiting s = [pid] \<and> sv_process s = Some pid \<and> \<not> sv_once s \<and>
       sv_running s \<and> sv_waitDone s \<notin> set (sv_closed s))) \<and>
    (sv_once s \<longrightarrow> \<not> sv_running s)"

lemma sup_ok_started: "sup_ok s \<Longrightarrow> sv_waiting s = [] \<Longrightarrow> \<not> sv_once s \<Longrightarrow> sv_waitDone s \<notin> set (sv_closed s) \<Longrightarrow>
    sup_ok (sv_started pid s)"
  by (simp add: sup_ok_def sv_started_def)

lemma sup_ok_wait_returns: "sup_ok s \<Longrightarrow> sup_ok (sv_wait_returns pid s)"
  by (auto simp: sup_ok_def sv_wait_returns_def Let_def)

lemma waiting_nothing: "sv_waiting s = [] \<Longrightarrow> fold sv_wait_returns rs s = s"
  by (induction rs) (simp_all add: sv_wait_returns_def)

lemma wait_returns_waiting: "sv_waiting s = [p] \<Longrightarrow> p \<in> set rs \<Longrightarrow> sv_waiting (fold sv_wait_returns rs s) = []"
proof (induction rs arbitrary: s)
  case (Cons r rs)
  show ?case
  proof (cases "r = p")
    case True
    then have "sv_waiting (sv_wait_returns r s) = []" using Cons.prems(1) by (simp add: sv_wait_returns_def Let_def)
    then show ?thesis by (simp add: waiting_nothing)
  next
    case False
    then have "sv_wait_returns r s = s" using Cons.prems(1) by (simp add: sv_wait_returns_def)
    with False Cons show ?thesis by simp
  qed
qed simp

text \<open>The invariant with the shut-down begun: the goroutines that return meet an open channel.\<close>

definition closing_ok :: "Supervised \<Rightarrow> bool" where
  "closing_ok s \<longleftrightarrow> \<not> sv_panic s \<and> (\<forall>c \<in> set (sv_closed s). c < sv_chans s) \<and> sv_waitDone s < sv_chans s \<and>
    (sv_waiting s = [] \<or> (\<exists>pid. sv_waiting s = [pid] \<and> sv_waitDone s \<notin> set (sv_closed s)))"

lemma closing_ok_wait_returns: "closing_ok s \<Longrightarrow> closing_ok (sv_wait_returns pid s)"
  by (auto simp: closing_ok_def sv_wait_returns_def Let_def)

lemma wait_returns_fixes [simp]:
  "sv_once (fold sv_wait_returns rs s) = sv_once s" "sv_running (fold sv_wait_returns rs s) = sv_running s"
proof (induction rs arbitrary: s)
  case (Cons r rs)
  { case 1 show ?case by (simp add: Cons) (simp add: sv_wait_returns_def Let_def) }
  { case 2 show ?case by (simp add: Cons) (simp add: sv_wait_returns_def Let_def) }
qed simp_all

lemma sup_ok_Shutdown:
  assumes "sup_ok s" "timely reaped s"
  shows "sup_ok (sv_Shutdown reaped s) \<and> sv_waiting (sv_Shutdown reaped s) = [] \<and> \<not> sv_Started (sv_Shutdown reaped s)"
proof (cases "sv_once s")
  case True
  with assms(1) show ?thesis by (auto simp: sv_Shutdown_def sup_ok_def sv_Started_def)
next
  case False
  define s1 where "s1 = s\<lparr>sv_once := True, sv_running := False\<rparr>"
  have c: "closing_ok s1" using assms(1) by (auto simp: sup_ok_def closing_ok_def s1_def)
  have "closing_ok (fold sv_wait_returns reaped s1)"
    using c by (rule fold_invariant) (rule closing_ok_wait_returns)
  moreover have "sv_waiting (fold sv_wait_returns reaped s1) = []"
  proof (cases "sv_waiting s1")
    case Nil
    then show ?thesis by (simp add: waiting_nothing)
  next
    case (Cons p ps)
    then have w: "sv_waiting s1 = [p]" using c by (auto simp: closing_ok_def)
    then show ?thesis
      using assms(2) False wait_returns_waiting [of s1 p reaped] by (simp add: timely_def s1_def)
  qed
  ultimately show ?thesis
    using False by (simp add: sv_Shutdown_def sup_ok_def closing_ok_def sv_Started_def s1_def [symmetric])
      (simp add: s1_def)
qed

lemma sup_ok_renew:
  assumes "sup_ok s" "sv_waiting s = []"
  shows "sup_ok (sv_renew s)" and "sv_waitDone (sv_renew s) \<notin> set (sv_closed (sv_renew s))"
    and "sv_waiting (sv_renew s) = []" and "\<not> sv_once (sv_renew s)"
  using assms by (auto simp: sup_ok_def sv_renew_def less_Suc_eq)

lemma sup_run_ok: "sup_run s \<Longrightarrow> sup_ok s"
proof (induction rule: sup_run.induct)
  case (made pid)
  then show ?case by (simp add: sup_ok_def sv_started_def sv_new_def)
next
  case (restarted s reaped pid)
  then show ?case
    using sup_ok_Shutdown sup_ok_renew by (intro sup_ok_started) blast+
qed (use sup_ok_wait_returns sup_ok_Shutdown sup_ok_renew in blast)+

section \<open>Properties\<close>

text \<open>As long as every shut-down sees the killed daemon end within its five seconds, no run of starts, ends,
  shut-downs and restarts closes a channel twice (which would end the node), at most one daemon is waited for,
  it is the process that the next shut-down kills, and after a shut-down no daemon is left.\<close>

theorem one_supervised_daemon:
  assumes "sup_run s"
  shows "\<not> sv_panic s \<and> (sv_waiting s = [] \<or> sv_waiting s = [the (sv_process s)] \<and> sv_Started s) \<and>
    (\<forall>reaped. timely reaped s \<longrightarrow> sv_waiting (sv_Shutdown reaped s) = [] \<and> \<not> sv_Started (sv_Shutdown reaped s))"
  using sup_run_ok [OF assms] sup_ok_Shutdown by (auto simp: sup_ok_def sv_Started_def)

theorem one_supervised_daemon_witness:
  "\<not> sv_panic (sv_started 8 (sv_renew (sv_Shutdown [7] (sv_started 7 sv_new)))) \<and>
   sv_waiting (sv_Shutdown [8] (sv_started 8 (sv_renew (sv_Shutdown [7] (sv_started 7 sv_new))))) = []"
proof -
  have r: "sup_run (sv_started 8 (sv_renew (sv_Shutdown [7] (sv_started 7 sv_new))))"
    by (intro sup_run.intros) (simp add: timely_def sv_started_def sv_new_def)
  show ?thesis
    using one_supervised_daemon [OF r]
    by (auto simp: timely_def sv_started_def sv_renew_def sv_Shutdown_def sv_wait_returns_def sv_new_def)
qed

text \<open>When a killed daemon takes longer than the five seconds of a restart, its goroutine closes the channel of
  the new daemon: the end of the new daemon then closes the channel again, and the node panics.\<close>

theorem late_daemon_ends_node:
  assumes "pid1 \<noteq> pid2"
  shows "sv_panic (sv_wait_returns pid2 (sv_wait_returns pid1
    (sv_started pid2 (sv_renew (sv_Shutdown [] (sv_started pid1 sv_new))))))"
  using assms by (simp add: sv_wait_returns_def sv_started_def sv_renew_def sv_Shutdown_def sv_new_def)

theorem late_daemon_ends_node_witness:
  "sv_panic (sv_wait_returns 8 (sv_wait_returns 7
    (sv_started 8 (sv_renew (sv_Shutdown [] (sv_started 7 sv_new))))))"
  using late_daemon_ends_node [of 7 8] by simp

end
