(* ===== verification/HostRoute.thy ===== *)
theory HostRoute
  imports ChapSecrets
begin

text \<open>
  The firewall and the routes of the host that let the clients of a tunnel reach the internet: accept rules tagged
  with an owner (\<open>backend/hostroute\<close>), policy routing of a subnet (\<open>backend/egress\<close>), and the set-up and clean-up of
  the back ends (\<open>nat_linux.go\<close> of \<open>l2tp\<close>, \<open>pptp\<close>, \<open>ikev2\<close> and \<open>openvpn\<close>, \<open>host_routing_linux.go\<close> of \<open>wireguard\<close>). The host
  is a state of any type, and a command is a function on it: the name, the arguments and the state give the error
  and the output of the command and the next state. The decoder of nft's JSON output is a parameter as well.
\<close>

unbundle bit_operations_syntax

section \<open>Commands\<close>

type_synonym 'k shell = "string \<Rightarrow> string list \<Rightarrow> 'k \<Rightarrow> (string option \<times> string) \<times> 'k"

text \<open>Running a command for its effect: the error carries the command and its output.\<close>

definition run_cmd :: "'k shell \<Rightarrow> string \<Rightarrow> string list \<Rightarrow> 'k \<Rightarrow> string option \<times> 'k" where
  "run_cmd ex name args k =
    (case ex name args k of
       ((None, _), k') \<Rightarrow> (None, k')
     | ((Some e, out), k') \<Rightarrow> (Some (name @ '' '' @ str_join '' '' args @ '': '' @ e @ '': '' @ trim_space out), k'))"

definition runNFT :: "'k shell \<Rightarrow> string list \<Rightarrow> 'k \<Rightarrow> string option \<times> 'k" where
  "runNFT ex args k = run_cmd ex ''nft'' args k"

definition runIptables :: "'k shell \<Rightarrow> string list \<Rightarrow> 'k \<Rightarrow> string option \<times> 'k" where
  "runIptables ex args k = run_cmd ex ''iptables'' args k"

text \<open>\<open>strings.Cut\<close>.\<close>

fun str_cut :: "string \<Rightarrow> string \<Rightarrow> (string \<times> string) option" where
  "str_cut [] sep = (if sep = [] then Some ([], []) else None)"
| "str_cut (c # cs) sep =
    (if has_prefix (c # cs) sep then Some ([], drop (length sep) (c # cs))
     else case str_cut cs sep of None \<Rightarrow> None | Some (a, b) \<Rightarrow> Some (c # a, b))"

section \<open>Accept rules with an owner\<close>

record baseChain =
  bc_family :: string
  bc_table :: string
  bc_name :: string

record listChain =
  lc_Family :: string
  lc_Table :: string
  lc_Name :: string
  lc_Hook :: string

text \<open>
  The entries of the decoded ruleset: what an entry holds under the key \<open>chain\<close>, if anything, which may fail to
  decode.
\<close>

type_synonym nft_decoder = "string \<Rightarrow> string + (string + listChain) option list"

fun collect_chains :: "(string + listChain) option list \<Rightarrow> string + baseChain list" where
  "collect_chains [] = Inr []"
| "collect_chains (None # items) = collect_chains items"
| "collect_chains (Some (Inl e) # items) = Inl (''parse nft chain: '' @ e)"
| "collect_chains (Some (Inr c) # items) =
    (case collect_chains items of
       Inl e \<Rightarrow> Inl e
     | Inr bcs \<Rightarrow>
         if lc_Hook c \<noteq> ''forward'' \<or> (lc_Family c \<noteq> ''ip'' \<and> lc_Family c \<noteq> ''inet'') then Inr bcs
         else Inr (\<lparr>bc_family = lc_Family c, bc_table = lc_Table c, bc_name = lc_Name c\<rparr> # bcs))"

definition parseForwardBaseChains :: "nft_decoder \<Rightarrow> string \<Rightarrow> string + baseChain list" where
  "parseForwardBaseChains dec data =
    (case dec data of Inl e \<Rightarrow> Inl (''parse nft ruleset: '' @ e) | Inr items \<Rightarrow> collect_chains items)"

definition forwardBaseChains :: "'k shell \<Rightarrow> nft_decoder \<Rightarrow> 'k \<Rightarrow> (string + baseChain list) \<times> 'k" where
  "forwardBaseChains ex dec k =
    (case ex ''nft'' [''-j'', ''list'', ''ruleset''] k of
       ((Some e, out), k') \<Rightarrow> (Inl (''nft -j list ruleset: '' @ e @ '': '' @ trim_space out), k')
     | ((None, out), k') \<Rightarrow> (parseForwardBaseChains dec out, k'))"

definition commentPrefix :: string where
  "commentPrefix = ''HPX_NODE_fwd ''"

definition ownerComment :: "string \<Rightarrow> string" where
  "ownerComment ownerID = commentPrefix @ ''owner='' @ ownerID @ '' ''"

definition direction :: "bool \<Rightarrow> string" where
  "direction outbound = (if outbound then ''outbound'' else ''return'')"

definition ruleComment :: "string \<Rightarrow> string \<Rightarrow> bool \<Rightarrow> string" where
  "ruleComment ownerID subnet outbound =
    commentPrefix @ ''owner='' @ ownerID @ '' type=forward subnet='' @ subnet @ '' direction='' @ direction outbound"

definition line_handle :: "string \<Rightarrow> string \<Rightarrow> string option" where
  "line_handle prefix line =
    (if \<not> str_contains line prefix then None
     else case str_cut line ''# handle '' of
       None \<Rightarrow> None
     | Some (before, handle) \<Rightarrow>
         if trim_space before = [] then None
         else case str_fields handle of [] \<Rightarrow> None | h # _ \<Rightarrow> Some h)"

definition ruleHandlesWithComment :: "string \<Rightarrow> string \<Rightarrow> string list" where
  "ruleHandlesWithComment data prefix = List.map_filter (line_handle prefix) (split_at_char nl data)"

definition chain_args :: "baseChain \<Rightarrow> string list" where
  "chain_args c = [bc_family c, bc_table c, bc_name c]"

fun delete_handles :: "'k shell \<Rightarrow> baseChain \<Rightarrow> string list \<Rightarrow> 'k \<Rightarrow> string option \<times> 'k" where
  "delete_handles ex chain [] k = (None, k)"
| "delete_handles ex chain (h # hs) k =
    (case runNFT ex ([''delete'', ''rule''] @ chain_args chain @ [''handle'', h]) k of
       (Some e, k') \<Rightarrow> (Some e, k')
     | (None, k') \<Rightarrow> delete_handles ex chain hs k')"

definition removeRulesWithComment :: "'k shell \<Rightarrow> baseChain \<Rightarrow> string \<Rightarrow> 'k \<Rightarrow> string option \<times> 'k" where
  "removeRulesWithComment ex chain prefix k =
    (case ex ''nft'' ([''-a'', ''list'', ''chain''] @ chain_args chain) k of
       ((Some e, out), k') \<Rightarrow>
         (Some (''nft -a list chain '' @ str_join '' '' (chain_args chain) @ '': '' @ e @ '': '' @ trim_space out), k')
     | ((None, out), k') \<Rightarrow> delete_handles ex chain (ruleHandlesWithComment out prefix) k')"

definition accept_args :: "string \<Rightarrow> bool \<Rightarrow> string list" where
  "accept_args subnet outbound =
    (if outbound then [''ip'', ''saddr'', subnet, ''accept'']
     else [''ip'', ''daddr'', subnet, ''ct'', ''state'', ''established,related'', ''accept''])"

definition insertAcceptRule :: "'k shell \<Rightarrow> baseChain \<Rightarrow> string \<Rightarrow> string \<Rightarrow> bool \<Rightarrow> 'k \<Rightarrow> string option \<times> 'k" where
  "insertAcceptRule ex chain subnet ownerID outbound k =
    runNFT ex ([''insert'', ''rule''] @ chain_args chain @ accept_args subnet outbound @
      [''comment'', go_quote (ruleComment ownerID subnet outbound)]) k"

definition installed_entry :: "baseChain \<Rightarrow> bool \<Rightarrow> string" where
  "installed_entry chain outbound =
    bc_family chain @ ''/'' @ bc_table chain @ ''/'' @ bc_name chain @ '' '' @ direction outbound"

fun ensure_chains :: "'k shell \<Rightarrow> string \<Rightarrow> string \<Rightarrow> baseChain list \<Rightarrow> 'k \<Rightarrow> (string + string list) \<times> 'k" where
  "ensure_chains ex subnet ownerID [] k = (Inr [], k)"
| "ensure_chains ex subnet ownerID (chain # bcs) k =
    (case removeRulesWithComment ex chain (ownerComment ownerID) k of
       (Some e, k1) \<Rightarrow> (Inl e, k1)
     | (None, k1) \<Rightarrow>
    (case insertAcceptRule ex chain subnet ownerID False k1 of
       (Some e, k2) \<Rightarrow> (Inl e, k2)
     | (None, k2) \<Rightarrow>
    (case insertAcceptRule ex chain subnet ownerID True k2 of
       (Some e, k3) \<Rightarrow> (Inl e, k3)
     | (None, k3) \<Rightarrow>
    (case ensure_chains ex subnet ownerID bcs k3 of
       (Inl e, k4) \<Rightarrow> (Inl e, k4)
     | (Inr rest, k4) \<Rightarrow> (Inr ([installed_entry chain False, installed_entry chain True] @ rest), k4)))))"

definition EnsureForwardAcceptForSubnet :: "'k shell \<Rightarrow> nft_decoder \<Rightarrow> string \<Rightarrow> string \<Rightarrow> 'k \<Rightarrow> (string + string list) \<times> 'k" where
  "EnsureForwardAcceptForSubnet ex dec subnet0 ownerID k =
    (let subnet = trim_space subnet0
     in if subnet = [] then (Inl ''empty subnet'', k)
        else case forwardBaseChains ex dec k of
          (Inl e, k') \<Rightarrow> (Inl e, k')
        | (Inr bcs, k') \<Rightarrow> ensure_chains ex subnet ownerID bcs k')"

fun remove_chains :: "'k shell \<Rightarrow> string \<Rightarrow> baseChain list \<Rightarrow> 'k \<Rightarrow> string option \<times> 'k" where
  "remove_chains ex prefix [] k = (None, k)"
| "remove_chains ex prefix (chain # bcs) k =
    (case removeRulesWithComment ex chain prefix k of
       (Some e, k') \<Rightarrow> (Some e, k')
     | (None, k') \<Rightarrow> remove_chains ex prefix bcs k')"

definition RemoveForwardRules :: "'k shell \<Rightarrow> nft_decoder \<Rightarrow> string \<Rightarrow> 'k \<Rightarrow> string option \<times> 'k" where
  "RemoveForwardRules ex dec ownerID k =
    (case forwardBaseChains ex dec k of
       (Inl e, k') \<Rightarrow> (Some e, k')
     | (Inr bcs, k') \<Rightarrow> remove_chains ex (ownerComment ownerID) bcs k')"

section \<open>Policy routing of a subnet\<close>

text \<open>The FNV-1a hash of 32 bits of \<open>hash/fnv\<close>.\<close>

definition fnv1a :: "string \<Rightarrow> u32" where
  "fnv1a s = fold (\<lambda>c h. (h XOR of_nat (of_char c)) * 16777619) s 2166136261"

definition tableBase :: nat where "tableBase = 100"

definition tableSpan :: u32 where "tableSpan = 900"

definition tableFor :: "string \<Rightarrow> nat" where
  "tableFor subnet = tableBase + unat (fnv1a subnet mod tableSpan)"

text \<open>The clean-up that \<open>Apply\<close> returns: nothing to do, or the subnet and its table.\<close>

type_synonym egress_cleanup = "(string \<times> string) option"

definition egress_Apply :: "'k shell \<Rightarrow> string \<Rightarrow> string \<Rightarrow> 'k \<Rightarrow> (egress_cleanup \<times> string option) \<times> 'k" where
  "egress_Apply ex subnet0 iface0 k =
    (let subnet = trim_space subnet0; iface = trim_space iface0
     in if subnet = [] \<or> iface = [] then ((None, None), k)
        else let table = show_dec (tableFor subnet)
        in case run_cmd ex ''ip'' [''route'', ''replace'', ''default'', ''dev'', iface, ''table'', table] k of
             (Some e, k1) \<Rightarrow> ((None, Some (''egress route for '' @ subnet @ '' via '' @ iface @ '': '' @ e)), k1)
           | (None, k1) \<Rightarrow>
               let k2 = snd (run_cmd ex ''ip'' [''rule'', ''del'', ''from'', subnet, ''lookup'', table] k1)
               in case run_cmd ex ''ip'' [''rule'', ''add'', ''from'', subnet, ''lookup'', table] k2 of
                    (Some e, k3) \<Rightarrow>
                      ((None, Some (''egress rule for '' @ subnet @ '': '' @ e)),
                       snd (run_cmd ex ''ip'' [''route'', ''flush'', ''table'', table] k3))
                  | (None, k3) \<Rightarrow> ((Some (subnet, table), None), k3))"

definition egress_clean :: "'k shell \<Rightarrow> egress_cleanup \<Rightarrow> 'k \<Rightarrow> 'k" where
  "egress_clean ex cl k =
    (case cl of
       None \<Rightarrow> k
     | Some (subnet, table) \<Rightarrow>
         snd (run_cmd ex ''ip'' [''route'', ''flush'', ''table'', table]
           (snd (run_cmd ex ''ip'' [''rule'', ''del'', ''from'', subnet, ''lookup'', table] k))))"

section \<open>Set-up and clean-up of the back ends\<close>

text \<open>
  The environment variables of the process, and the access to \<open>/proc/sys/net/ipv4/ip_forward\<close>: what reading it gives and
  what writing it does to the host.
\<close>

record 'k NatEnv =
  ne_env :: "string \<Rightarrow> string"
  ne_read :: "'k \<Rightarrow> string + string"
  ne_write :: "string \<Rightarrow> 'k \<Rightarrow> string option \<times> 'k"

definition ipv4ForwardPath :: string where
  "ipv4ForwardPath = ''/proc/sys/net/ipv4/ip_forward''"

definition ensureIPv4Forwarding :: "'k NatEnv \<Rightarrow> 'k \<Rightarrow> string option \<times> 'k" where
  "ensureIPv4Forwarding env k =
    (case ne_read env k of
       Inl e \<Rightarrow> (Some (''read '' @ ipv4ForwardPath @ '': '' @ e), k)
     | Inr out \<Rightarrow>
         if trim_space out = ''1'' then (None, k)
         else (case ne_write env (''1'' @ [nl]) k of
                 (Some e, k') \<Rightarrow> (Some (''write '' @ ipv4ForwardPath @ '': '' @ e), k')
               | (None, k') \<Rightarrow> (None, k')))"

definition switched_off :: "string \<Rightarrow> bool" where
  "switched_off v0 \<longleftrightarrow> (let v = trim_space v0 in v = ''0'' \<or> to_lower v = ''false'')"

text \<open>The names that differ between the back ends, and the owner of their rules.\<close>

record NatNames =
  nn_switch :: string
  nn_interface :: string
  nn_owner :: "string \<Rightarrow> string"

definition owner_char :: "char \<Rightarrow> char" where
  "owner_char c = (if c \<in> {CHR ''/'', CHR ''.'', CHR '':''} then CHR ''_'' else c)"

definition forwardOwnerID :: "string \<Rightarrow> string \<Rightarrow> string" where
  "forwardOwnerID prefix pool = prefix @ map owner_char pool"

definition l2tp_names :: NatNames where
  "l2tp_names = \<lparr>nn_switch = ''HPX_NODE_L2TP_HOST_ROUTING'', nn_interface = ''HPX_NODE_L2TP_NAT_OUTPUT_INTERFACE'',
     nn_owner = forwardOwnerID ''l2tp_''\<rparr>"

definition ikev2_names :: NatNames where
  "ikev2_names = \<lparr>nn_switch = ''HPX_NODE_IKEV2_HOST_ROUTING'', nn_interface = ''HPX_NODE_IKEV2_NAT_OUTPUT_INTERFACE'',
     nn_owner = forwardOwnerID ''ikev2_''\<rparr>"

definition openvpn_names :: NatNames where
  "openvpn_names = \<lparr>nn_switch = ''HPX_NODE_OPENVPN_HOST_ROUTING'', nn_interface = ''HPX_NODE_OPENVPN_NAT_OUTPUT_INTERFACE'',
     nn_owner = forwardOwnerID ''openvpn_''\<rparr>"

definition pptp_names :: NatNames where
  "pptp_names = \<lparr>nn_switch = ''HPX_NODE_PPTP_HOST_ROUTING'', nn_interface = ''HPX_NODE_PPTP_NAT_OUTPUT_INTERFACE'',
     nn_owner = (\<lambda>pool. ''pptp:'' @ pool)\<rparr>"

definition masq_args :: "string \<Rightarrow> string \<Rightarrow> string \<Rightarrow> string list" where
  "masq_args outIf pool action =
    [''-t'', ''nat'', action, ''POSTROUTING'', ''-s'', pool] @ (if outIf = [] then [] else [''-o'', outIf]) @ [''-j'', ''MASQUERADE'']"

definition ensure_masq :: "'k shell \<Rightarrow> string \<Rightarrow> string \<Rightarrow> 'k \<Rightarrow> 'k" where
  "ensure_masq ex outIf pool k =
    (case runIptables ex (masq_args outIf pool ''-C'') k of
       (None, k1) \<Rightarrow> k1
     | (Some _, k1) \<Rightarrow> snd (runIptables ex (masq_args outIf pool ''-A'') k1))"

text \<open>What the clean-up closure remembers.\<close>

record NatCleanup =
  nc_egress :: egress_cleanup
  nc_outIf :: string
  nc_pool :: string
  nc_owner :: string

definition applyHostRouting :: "NatNames \<Rightarrow> 'k NatEnv \<Rightarrow> 'k shell \<Rightarrow> nft_decoder \<Rightarrow> string \<Rightarrow> string \<Rightarrow> 'k \<Rightarrow>
    NatCleanup option \<times> 'k" where
  "applyHostRouting names env ex dec pool egressIface k =
    (if switched_off (ne_env env (nn_switch names)) then (None, k)
     else if trim_space pool = [] then (None, k)
     else
       let k1 = snd (ensureIPv4Forwarding env k);
           outIf0 = trim_space egressIface;
           outIf = (if outIf0 = [] then trim_space (ne_env env (nn_interface names)) else outIf0);
           ((cl, _), k2) = egress_Apply ex pool egressIface k1;
           k3 = ensure_masq ex outIf pool k2;
           k4 = snd (EnsureForwardAcceptForSubnet ex dec pool (nn_owner names pool) k3)
       in (Some \<lparr>nc_egress = cl, nc_outIf = outIf, nc_pool = pool, nc_owner = nn_owner names pool\<rparr>, k4))"

definition cleanHostRouting :: "'k shell \<Rightarrow> nft_decoder \<Rightarrow> NatCleanup \<Rightarrow> 'k \<Rightarrow> 'k" where
  "cleanHostRouting ex dec cl k =
    snd (RemoveForwardRules ex dec (nc_owner cl)
      (snd (runIptables ex (masq_args (nc_outIf cl) (nc_pool cl) ''-D'') (egress_clean ex (nc_egress cl) k))))"

text \<open>The instances of the back ends. That of PPTP writes the forwarding switch without looking at it first.\<close>

definition l2tp_applyHostRouting :: "'k NatEnv \<Rightarrow> 'k shell \<Rightarrow> nft_decoder \<Rightarrow> string \<Rightarrow> string \<Rightarrow> 'k \<Rightarrow> NatCleanup option \<times> 'k" where
  "l2tp_applyHostRouting = applyHostRouting l2tp_names"

definition ikev2_applyHostRouting :: "'k NatEnv \<Rightarrow> 'k shell \<Rightarrow> nft_decoder \<Rightarrow> string \<Rightarrow> string \<Rightarrow> 'k \<Rightarrow> NatCleanup option \<times> 'k" where
  "ikev2_applyHostRouting = applyHostRouting ikev2_names"

definition openvpn_applyHostRouting :: "'k NatEnv \<Rightarrow> 'k shell \<Rightarrow> nft_decoder \<Rightarrow> string \<Rightarrow> string \<Rightarrow> 'k \<Rightarrow> NatCleanup option \<times> 'k" where
  "openvpn_applyHostRouting = applyHostRouting openvpn_names"

definition pptp_applyHostRouting :: "'k NatEnv \<Rightarrow> 'k shell \<Rightarrow> nft_decoder \<Rightarrow> string \<Rightarrow> string \<Rightarrow> 'k \<Rightarrow> NatCleanup option \<times> 'k" where
  "pptp_applyHostRouting env = applyHostRouting pptp_names (env\<lparr>ne_read := (\<lambda>_. Inr [])\<rparr>)"

end
