(* ===== verification/PppConfig.thy ===== *)
theory PppConfig
  imports Daemon Ppp HostRoute
begin

unbundle bit_operations_syntax

text \<open>
  The configuration of the L2TP and PPTP back ends (\<open>backend/l2tp/config.go\<close> and \<open>serverconf.go\<close>, \<open>backend/pptp/config.go\<close> and
  \<open>serverconf.go\<close>): defaults, the address range handed to clients, the files of the daemons and the hooks of pppd,
  the version probes; and the life cycle of the PPTP back end (\<open>pptp.go\<close>), which the L2TP one shares up to charon.
\<close>

section \<open>Addresses\<close>

type_synonym u8 = "8 word"

text \<open>
  A \<open>net.IP\<close> of four bytes. The loops of \<open>inc\<close> and \<open>dec\<close> run from the last byte to the first: they are written on
  the reversed list.
\<close>

fun inc_rev :: "u8 list \<Rightarrow> u8 list" where
  "inc_rev [] = []"
| "inc_rev (b # bs) = (if b + 1 \<noteq> 0 then (b + 1) # bs else 0 # inc_rev bs)"

fun dec_rev :: "u8 list \<Rightarrow> u8 list" where
  "dec_rev [] = []"
| "dec_rev (b # bs) = (if b \<noteq> 0 then (b - 1) # bs else 255 # dec_rev bs)"

definition inc :: "u8 list \<Rightarrow> u8 list" where
  "inc ip = rev (inc_rev (rev ip))"

definition dec :: "u8 list \<Rightarrow> u8 list" where
  "dec ip = rev (dec_rev (rev ip))"

fun bytesCompare :: "u8 list \<Rightarrow> u8 list \<Rightarrow> int" where
  "bytesCompare (a # as) (b # bs) = (if a \<noteq> b then if a < b then -1 else 1 else bytesCompare as bs)"
| "bytesCompare _ _ = 0"

definition ip_String :: "u8 list \<Rightarrow> string" where
  "ip_String ip = str_join ''.'' (map (\<lambda>b. show_dec (unat b)) ip)"

text \<open>
  \<open>net.ParseCIDR\<close> fails, or gives the network with its address as \<open>To4\<close> sees it, nothing for IPv6, and its mask.
\<close>

type_synonym cidr_parser = "string \<Rightarrow> (u8 list option \<times> u8 list) option"

definition poolRange :: "cidr_parser \<Rightarrow> string \<Rightarrow> string \<Rightarrow> string \<times> string" where
  "poolRange ParseCIDR pool localIP =
    (case ParseCIDR (trim_space pool) of
       None \<Rightarrow> (localIP, localIP)
     | Some (None, _) \<Rightarrow> (localIP, localIP)
     | Some (Some ip4, ms) \<Rightarrow>
         let network = map2 (AND) ip4 ms;
             bcast = map2 (\<lambda>n m. n OR NOT m) network ms;
             start = inc (inc network);
             end' = dec bcast
         in if bytesCompare start end' > 0 then (localIP, localIP) else (ip_String start, ip_String end'))"

definition pptp_poolRange :: "cidr_parser \<Rightarrow> string \<Rightarrow> string \<Rightarrow> string \<times> string" where
  "pptp_poolRange = poolRange"

definition firstHost :: "string \<Rightarrow> string" where
  "firstHost pool =
    (let cidr = takeWhile (\<lambda>c. c \<noteq> CHR ''/'') (trim_space pool);
         parts = split_at_char (CHR ''.'') cidr
     in if length parts \<noteq> 4 then cidr else str_join ''.'' (parts[3 := ''1'']))"

definition pptp_firstHost :: "string \<Rightarrow> string" where
  "pptp_firstHost = firstHost"

section \<open>L2TP\<close>

record L2Config =
  l2_InboundTag :: string
  l2_ServerAddr :: string
  l2_PSK :: string
  l2_Pool :: string
  l2_LocalIP :: string
  l2_EgressInterface :: string
  l2_DNS :: "string list"
  l2_IKEProposals :: "string list"
  l2_ESPProposals :: "string list"
  l2_workDir :: string

definition list_default :: "string list \<Rightarrow> string list \<Rightarrow> string list" where
  "list_default xs d = (if xs = [] then d else xs)"

definition l2tp_NewConfig :: "(string \<Rightarrow> string + L2Config) \<Rightarrow> string \<Rightarrow> string + L2Config" where
  "l2tp_NewConfig decode configStr =
    (if trim_space configStr = [] then Inl ''l2tp config string must not be empty''
     else case decode configStr of
       Inl e \<Rightarrow> Inl (''failed to parse l2tp config: '' @ e)
     | Inr c \<Rightarrow>
         if l2_InboundTag c = [] then Inl ''inbound_tag is required''
         else if l2_PSK c = [] then Inl ''psk is required''
         else if l2_Pool c = [] then Inl ''pool is required''
         else Inr (c\<lparr>l2_LocalIP := (if l2_LocalIP c = [] then firstHost (l2_Pool c) else l2_LocalIP c),
                     l2_DNS := list_default (l2_DNS c) [''1.1.1.1'', ''8.8.8.8''],
                     l2_IKEProposals := list_default (l2_IKEProposals c) [''aes256-sha1-modp2048'', ''aes128-sha1-modp1024'', ''3des-sha1-modp1024''],
                     l2_ESPProposals := list_default (l2_ESPProposals c) [''aes256-sha1'', ''aes128-sha1'', ''3des-sha1'']\<rparr>))"

text \<open>The first match of the regular expression for three numbers with dots between them.\<close>

definition ascii_digit :: "char \<Rightarrow> bool" where
  "ascii_digit c \<longleftrightarrow> 48 \<le> (of_char c :: nat) \<and> (of_char c :: nat) \<le> 57"

fun numbers_at :: "nat \<Rightarrow> string \<Rightarrow> string option" where
  "numbers_at n s =
    (let d = takeWhile ascii_digit s; r = dropWhile ascii_digit s
     in if d = [] then None
        else case n of
          0 \<Rightarrow> Some d
        | Suc k \<Rightarrow>
            (case r of
               c # cs \<Rightarrow> if c = CHR ''.'' then map_option (\<lambda>v. d @ ''.'' @ v) (numbers_at k cs) else None
             | [] \<Rightarrow> None))"

fun find_version :: "string \<Rightarrow> string option" where
  "find_version [] = None"
| "find_version (c # cs) = (case numbers_at 2 (c # cs) of Some v \<Rightarrow> Some v | None \<Rightarrow> find_version cs)"

definition probe_version :: "string option \<times> string \<Rightarrow> string" where
  "probe_version r =
    (case r of (err, out) \<Rightarrow>
       if err \<noteq> None \<and> out = [] then ''unknown''
       else case find_version out of Some v \<Rightarrow> v | None \<Rightarrow> ''unknown'')"

definition l2tp_DetectVersion :: "HostEnv \<Rightarrow> string" where
  "l2tp_DetectVersion env = probe_version (he_Output env [''/usr/sbin/xl2tpd'', ''-v''])"

definition l2tp_CheckDeps :: "string option \<Rightarrow> HostEnv \<Rightarrow> string option" where
  "l2tp_CheckDeps ipsec env =
    (case ipsec of
       Some e \<Rightarrow> Some e
     | None \<Rightarrow>
         (case List.find (\<lambda>p. \<not> he_exists env p) [''/usr/sbin/xl2tpd'', ''/usr/sbin/pppd''] of
            Some p \<Rightarrow> Some (''xl2tpd/ppp is not installed on this node (missing '' @ p @ '')'')
          | None \<Rightarrow> None))"

abbreviation ends :: string where
  "ends \<equiv> [CHR 0x0A]"

abbreviation dq :: string where
  "dq \<equiv> [CHR 0x22]"

abbreviation ind :: "nat \<Rightarrow> string \<Rightarrow> string" where
  "ind n s \<equiv> replicate n (CHR '' '') @ s @ ends"

definition confFileName :: "L2Config \<Rightarrow> string" where
  "confFileName c = ''pg-l2tp-'' @ l2_InboundTag c @ ''.conf''"

definition l2tp_swanctl :: "L2Config \<Rightarrow> string" where
  "l2tp_swanctl c =
    (let tag = l2_InboundTag c in
     ind 0 ''connections {'' @ ind 4 (tag @ ''-l2tp {'') @ ind 8 ''version = 1'' @ ind 8 (''proposals = '' @ str_join '','' (l2_IKEProposals c)) @
     ind 8 ''encap = yes'' @ ind 8 ''rekey_time = 0'' @ ind 8 ''fragmentation = yes'' @
     ind 8 ''local {'' @ ind 12 ''auth = psk'' @ ind 8 ''}'' @ ind 8 ''remote {'' @ ind 12 ''auth = psk'' @ ind 8 ''}'' @
     ind 8 ''children {'' @ ind 12 (tag @ ''-l2tp {'') @ ind 16 (''esp_proposals = '' @ str_join '','' (l2_ESPProposals c)) @
     ind 16 ''local_ts = dynamic[udp/l2tp]'' @ ind 16 ''remote_ts = dynamic[udp]'' @ ind 16 ''mode = transport'' @
     ind 16 ''rekey_time = 0'' @ ind 16 ''dpd_action = clear'' @ ind 12 ''}'' @ ind 8 ''}'' @ ind 4 ''}'' @ ind 0 ''}'' @ ends @
     ind 0 ''secrets {'' @ ind 4 (''ike-'' @ tag @ ''-l2tp {'') @ ind 8 (''secret = '' @ go_quote (l2_PSK c)) @ ind 4 ''}'' @ ind 0 ''}'')"

definition l2tp_writeSwanctl :: "HostEnv \<Rightarrow> L2Config \<Rightarrow> Host \<Rightarrow> string option \<times> Host" where
  "l2tp_writeSwanctl env c h = os_WriteFile env (he_Join env [''/etc/swanctl'', ''conf.d'', confFileName c]) (l2tp_swanctl c) h"

definition l2tp_pppOptionsPath :: "HostEnv \<Rightarrow> L2Config \<Rightarrow> string" where
  "l2tp_pppOptionsPath env c = he_Join env [l2_workDir c, ''ppp-options'']"

definition xl2tpd_conf :: "HostEnv \<Rightarrow> cidr_parser \<Rightarrow> L2Config \<Rightarrow> string" where
  "xl2tpd_conf env ParseCIDR c =
    (case poolRange ParseCIDR (l2_Pool c) (l2_LocalIP c) of (start, end') \<Rightarrow>
       ind 0 ''[global]'' @ ind 0 ''port = 1701'' @ ind 0 ''access control = no'' @ ends @
       ind 0 ''[lns default]'' @ ind 0 (''ip range = '' @ start @ ''-'' @ end') @ ind 0 (''local ip = '' @ l2_LocalIP c) @
       ind 0 ''require chap = yes'' @ ind 0 ''refuse pap = yes'' @ ind 0 ''require authentication = yes'' @
       ind 0 (''name = '' @ l2_InboundTag c) @ ind 0 (''pppoptfile = '' @ l2tp_pppOptionsPath env c) @ ind 0 ''length bit = yes'')"

definition writeXl2tpdConf :: "HostEnv \<Rightarrow> cidr_parser \<Rightarrow> L2Config \<Rightarrow> Host \<Rightarrow> string option \<times> Host" where
  "writeXl2tpdConf env ParseCIDR c h = os_WriteFile env (he_Join env [l2_workDir c, ''xl2tpd.conf'']) (xl2tpd_conf env ParseCIDR c) h"

definition l2tp_ppp_options :: "L2Config \<Rightarrow> string" where
  "l2tp_ppp_options c =
    ind 0 ''require-mschap-v2'' @ concat (map (\<lambda>d. ind 0 (''ms-dns '' @ d)) (l2_DNS c)) @
    ind 0 ''asyncmap 0'' @ ind 0 ''auth'' @ ind 0 ''hide-password'' @ ind 0 (''name '' @ l2_InboundTag c) @ ind 0 ''proxyarp'' @
    ind 0 ''lcp-echo-interval 30'' @ ind 0 ''lcp-echo-failure 4'' @ ind 0 ''nodefaultroute'' @ ind 0 ''mtu 1400'' @ ind 0 ''mru 1400'' @
    ind 0 ''noccp'' @ ind 0 ''noipv6'' @ ind 0 ''novj'' @ ind 0 ''novjccomp'' @ ind 0 ''connect-delay 5000''"

definition l2tp_writePPPOptions :: "HostEnv \<Rightarrow> L2Config \<Rightarrow> Host \<Rightarrow> string option \<times> Host" where
  "l2tp_writePPPOptions env c h = os_WriteFile env (l2tp_pppOptionsPath env c) (l2tp_ppp_options c) h"

text \<open>The hooks of pppd, for the name of the protocol and the directory of its session files.\<close>

definition hook_up :: "string \<Rightarrow> string \<Rightarrow> string" where
  "hook_up proto dir =
    ind 0 ''#!/bin/sh'' @ ind 0 (''# HPXPANEL '' @ proto @ '' session accounting hook (managed; do not edit).'') @
    ind 0 (''IF='' @ dq @ ''${IFNAME:-$PPP_IFACE}'' @ dq) @ ind 0 (''REMOTE='' @ dq @ ''${IPREMOTE:-$PPP_REMOTE}'' @ dq) @
    ind 0 (''[ -n '' @ dq @ ''$PEERNAME'' @ dq @ '' ] || exit 0'') @ ind 0 (''[ -n '' @ dq @ ''$IF'' @ dq @ '' ] || exit 0'') @
    ind 0 (''d='' @ dir) @ ind 0 (''mkdir -p '' @ dq @ ''$d'' @ dq @ ''; umask 077'') @ ind 0 ''{'' @
    ind 2 (''echo '' @ dq @ ''user=$PEERNAME'' @ dq) @ ind 2 (''echo '' @ dq @ ''tunnel_ip=$REMOTE'' @ dq) @
    ind 2 (''echo '' @ dq @ ''pid=${PPPD_PID:-0}'' @ dq) @ ind 2 (''echo '' @ dq @ ''started=$(date +%s)'' @ dq) @
    ind 0 (''} > '' @ dq @ ''$d/$IF'' @ dq)"

definition hook_down :: "string \<Rightarrow> string \<Rightarrow> string" where
  "hook_down proto dir =
    ind 0 ''#!/bin/sh'' @ ind 0 (''# HPXPANEL '' @ proto @ '' session accounting hook (managed; do not edit).'') @
    ind 0 (''IF='' @ dq @ ''${IFNAME:-$PPP_IFACE}'' @ dq) @
    ind 0 (''[ -n '' @ dq @ ''$IF'' @ dq @ '' ] && rm -f '' @ dir @ ''/'' @ dq @ ''$IF'' @ dq) @ ind 0 ''exit 0''"

text \<open>The scripts to write, with their directories; the loop visits the map in some order.\<close>

fun write_scripts :: "HostEnv \<Rightarrow> (string \<times> string \<times> string) list \<Rightarrow> Host \<Rightarrow> string option \<times> Host" where
  "write_scripts env [] h = (None, h)"
| "write_scripts env ((dir, path, content) # rest) h =
    (case he_MkdirAll env dir of
       Some e \<Rightarrow> (Some e, h)
     | None \<Rightarrow>
         (case os_WriteFile env path content h of
            (Some e, h1) \<Rightarrow> (Some e, h1)
          | (None, h1) \<Rightarrow> write_scripts env rest h1))"

definition write_hooks :: "string \<Rightarrow> string \<Rightarrow> string \<Rightarrow> HostEnv \<Rightarrow> bool \<Rightarrow> Host \<Rightarrow> string option \<times> Host" where
  "write_hooks proto name dir env upFirst h =
    (let up = (''/etc/ppp/ip-up.d'', ''/etc/ppp/ip-up.d/'' @ name, hook_up proto dir);
         down = (''/etc/ppp/ip-down.d'', ''/etc/ppp/ip-down.d/'' @ name, hook_down proto dir)
     in case write_scripts env (if upFirst then [up, down] else [down, up]) h of
          (Some e, h1) \<Rightarrow> (Some e, h1)
        | (None, h1) \<Rightarrow> (he_MkdirAll env dir, h1))"

definition l2tp_writeIPScripts :: "HostEnv \<Rightarrow> bool \<Rightarrow> Host \<Rightarrow> string option \<times> Host" where
  "l2tp_writeIPScripts = write_hooks ''L2TP'' ''pg-l2tp'' ''/run/pg-l2tp/sessions''"

text \<open>A chain of steps that stops at the first error.\<close>

fun run_steps :: "('s \<Rightarrow> string option \<times> 's) list \<Rightarrow> 's \<Rightarrow> string option \<times> 's" where
  "run_steps [] s = (None, s)"
| "run_steps (f # fs) s = (case f s of (Some e, s1) \<Rightarrow> (Some e, s1) | (None, s1) \<Rightarrow> run_steps fs s1)"

text \<open>\<open>chap\<close> is \<open>writeChapSecrets\<close>, whose file is kept with the users.\<close>

definition l2tp_writeConfig :: "HostEnv \<Rightarrow> cidr_parser \<Rightarrow> bool \<Rightarrow> (Host \<Rightarrow> string option \<times> Host) \<Rightarrow> L2Config \<Rightarrow> Host \<Rightarrow> string option \<times> Host" where
  "l2tp_writeConfig env ParseCIDR upFirst chap c h =
    run_steps [\<lambda>h. (he_MkdirAll env (l2_workDir c), h), \<lambda>h. (he_MkdirAll env (he_Join env [''/etc/swanctl'', ''conf.d'']), h),
      l2tp_writeSwanctl env c, writeXl2tpdConf env ParseCIDR c, l2tp_writePPPOptions env c, l2tp_writeIPScripts env upFirst, chap] h"

section \<open>PPTP\<close>

record PtConfig =
  pt_InboundTag :: string
  pt_Port :: int
  pt_Pool :: string
  pt_LocalIP :: string
  pt_ServerAddr :: string
  pt_EgressInterface :: string
  pt_DNS :: "string list"
  pt_workDir :: string

definition pptp_NewConfig :: "(string \<Rightarrow> string + PtConfig) \<Rightarrow> string \<Rightarrow> string + PtConfig" where
  "pptp_NewConfig decode configStr =
    (if trim_space configStr = [] then Inl ''pptp config string must not be empty''
     else case decode configStr of
       Inl e \<Rightarrow> Inl (''failed to parse pptp config: '' @ e)
     | Inr c \<Rightarrow>
         if pt_InboundTag c = [] then Inl ''inbound_tag is required''
         else if pt_Pool c = [] then Inl ''pool is required''
         else Inr (c\<lparr>pt_Port := (if pt_Port c \<le> 0 then 1723 else pt_Port c),
                     pt_LocalIP := (if pt_LocalIP c = [] then pptp_firstHost (pt_Pool c) else pt_LocalIP c),
                     pt_DNS := list_default (pt_DNS c) [''1.1.1.1'', ''8.8.8.8'']\<rparr>))"

definition pptp_DetectVersion :: "HostEnv \<Rightarrow> string" where
  "pptp_DetectVersion env = probe_version (he_Output env [''/usr/sbin/pptpd'', ''--version''])"

definition pptp_CheckDeps :: "HostEnv \<Rightarrow> string option" where
  "pptp_CheckDeps env =
    (case List.find (\<lambda>p. \<not> he_exists env p) [''/usr/sbin/pptpd'', ''/usr/sbin/pppd''] of
       Some p \<Rightarrow> Some (''pptp is not installed on this node (missing '' @ p @ '')'')
     | None \<Rightarrow> None)"

definition pptp_pppOptionsPath :: "HostEnv \<Rightarrow> PtConfig \<Rightarrow> string" where
  "pptp_pppOptionsPath env c = he_Join env [pt_workDir c, ''options.pptpd'']"

definition pptp_confPath :: "HostEnv \<Rightarrow> PtConfig \<Rightarrow> string" where
  "pptp_confPath env c = he_Join env [pt_workDir c, ''pptpd.conf'']"

definition pptp_pidPath :: "HostEnv \<Rightarrow> PtConfig \<Rightarrow> string" where
  "pptp_pidPath env c = he_Join env [pt_workDir c, ''pptpd.pid'']"

text \<open>\<open>split\<close> is \<open>net.SplitHostPort\<close>: the host, unless it fails.\<close>

definition listenAddr :: "(string \<Rightarrow> string option) \<Rightarrow> string \<Rightarrow> string" where
  "listenAddr split serverAddr =
    (let s = trim_space serverAddr
     in if s = [] then ''0.0.0.0'' else case split s of Some host \<Rightarrow> host | None \<Rightarrow> s)"

definition pptpd_conf :: "HostEnv \<Rightarrow> cidr_parser \<Rightarrow> (string \<Rightarrow> string option) \<Rightarrow> PtConfig \<Rightarrow> string" where
  "pptpd_conf env ParseCIDR split c =
    (case pptp_poolRange ParseCIDR (pt_Pool c) (pt_LocalIP c) of (start, end') \<Rightarrow>
       ind 0 (''option '' @ pptp_pppOptionsPath env c) @ ind 0 (''localip '' @ pt_LocalIP c) @
       ind 0 (''remoteip '' @ start @ ''-'' @ end') @ ind 0 (''listen '' @ listenAddr split (pt_ServerAddr c)) @
       ind 0 (''port '' @ show_int (pt_Port c)) @ ind 0 (''pidfile '' @ pptp_pidPath env c))"

definition writePptpdConf :: "HostEnv \<Rightarrow> cidr_parser \<Rightarrow> (string \<Rightarrow> string option) \<Rightarrow> PtConfig \<Rightarrow> Host \<Rightarrow> string option \<times> Host" where
  "writePptpdConf env ParseCIDR split c h = os_WriteFile env (pptp_confPath env c) (pptpd_conf env ParseCIDR split c) h"

definition pptp_ppp_options :: "PtConfig \<Rightarrow> string" where
  "pptp_ppp_options c =
    ind 0 (''name '' @ pt_InboundTag c) @ ind 0 ''refuse-pap'' @ ind 0 ''refuse-chap'' @ ind 0 ''refuse-mschap'' @
    ind 0 ''require-mschap-v2'' @ ind 0 ''require-mppe-128'' @ concat (map (\<lambda>d. ind 0 (''ms-dns '' @ d)) (pt_DNS c)) @
    ind 0 ''proxyarp'' @ ind 0 ''nodefaultroute'' @ ind 0 ''lock'' @ ind 0 ''nobsdcomp'' @ ind 0 ''novj'' @ ind 0 ''novjccomp'' @ ind 0 ''nologfd''"

definition pptp_writePPPOptions :: "HostEnv \<Rightarrow> PtConfig \<Rightarrow> Host \<Rightarrow> string option \<times> Host" where
  "pptp_writePPPOptions env c h = os_WriteFile env (pptp_pppOptionsPath env c) (pptp_ppp_options c) h"

definition pptp_writeIPScripts :: "HostEnv \<Rightarrow> bool \<Rightarrow> Host \<Rightarrow> string option \<times> Host" where
  "pptp_writeIPScripts = write_hooks ''PPTP'' ''pg-pptp'' ''/run/pg-pptp/sessions''"

section \<open>The life of a PPTP core\<close>

text \<open>
  What a start meets: the host, the operating system under the secrets file, the parsers, the order of the map of
  scripts and of the users, and the host routing of \<open>HostRoute\<close> with its kernel \<open>'k\<close>.
\<close>

record 'k PptpEnv =
  pv_host :: HostEnv
  pv_secrets :: SecretsEnv
  pv_ParseCIDR :: cidr_parser
  pv_split :: "string \<Rightarrow> string option"
  pv_upFirst :: bool
  pv_order :: "userStore \<Rightarrow> string list"
  pv_nat :: "'k NatEnv"
  pv_shell :: "'k shell"
  pv_dec :: nft_decoder

record PptpCore =
  pk_config :: PtConfig
  pk_ppp :: Ppp
  pk_sup :: Supervised
  pk_routing :: "NatCleanup option"

record 'k PptpWorld =
  pw_core :: PptpCore
  pw_host :: Host
  pw_kernel :: 'k

definition on_host :: "(Host \<Rightarrow> string option \<times> Host) \<Rightarrow> 'k PptpWorld \<Rightarrow> string option \<times> 'k PptpWorld" where
  "on_host f w = (case f (pw_host w) of (r, h) \<Rightarrow> (r, w\<lparr>pw_host := h\<rparr>))"

definition on_ppp :: "(Ppp \<Rightarrow> string option \<times> Ppp) \<Rightarrow> 'k PptpWorld \<Rightarrow> string option \<times> 'k PptpWorld" where
  "on_ppp f w = (case f (pk_ppp (pw_core w)) of (r, p) \<Rightarrow> (r, w\<lparr>pw_core := (pw_core w)\<lparr>pk_ppp := p\<rparr>\<rparr>))"

definition pptp_writeConfig :: "'k PptpEnv \<Rightarrow> 'k PptpWorld \<Rightarrow> string option \<times> 'k PptpWorld" where
  "pptp_writeConfig env w =
    (let c = pk_config (pw_core w)
     in run_steps
          [on_host (\<lambda>h. (he_MkdirAll (pv_host env) (pt_workDir c), h)),
           on_host (writePptpdConf (pv_host env) (pv_ParseCIDR env) (pv_split env) c),
           on_host (pptp_writePPPOptions (pv_host env) c),
           on_host (pptp_writeIPScripts (pv_host env) (pv_upFirst env)),
           on_ppp (\<lambda>p. reloadUsers (pv_secrets env) (pv_order env (pp_users p)) p)] w)"

definition pptp_setupNAT :: "'k PptpEnv \<Rightarrow> 'k PptpWorld \<Rightarrow> 'k PptpWorld" where
  "pptp_setupNAT env w =
    (let c = pk_config (pw_core w)
     in case pptp_applyHostRouting (pv_nat env) (pv_shell env) (pv_dec env) (pt_Pool c) (pt_EgressInterface c) (pw_kernel w) of
          (cl, k) \<Rightarrow> w\<lparr>pw_core := (pw_core w)\<lparr>pk_routing := cl\<rparr>, pw_kernel := k\<rparr>)"

definition pptp_start :: "'k PptpEnv \<Rightarrow> 'k PptpWorld \<Rightarrow> string option \<times> 'k PptpWorld" where
  "pptp_start env w =
    (case pptp_writeConfig env w of
       (Some e, w1) \<Rightarrow> (Some (''write pptp config: '' @ e), w1)
     | (None, w1) \<Rightarrow>
         let w2 = pptp_setupNAT env w1; c = pw_core w2
         in case sv_launch ''start pptpd: '' (he_Start (pv_host env)
                   [''/usr/sbin/pptpd'', ''-f'', ''-c'', pptp_confPath (pv_host env) (pk_config c), ''-p'', pptp_pidPath (pv_host env) (pk_config c)])
                   (pk_sup c) of
              (Some e, _) \<Rightarrow> (Some e, w2)
            | (None, s1) \<Rightarrow>
                (None, w2\<lparr>pw_core := c\<lparr>pk_ppp := (pk_ppp c)\<lparr>pp_state := pppRunning\<rparr>, pk_sup := s1\<rparr>\<rparr>))"

text \<open>\<open>New\<close> keeps the object to itself when the start fails; what happened to the world stays.\<close>

definition pptp_New :: "'k PptpEnv \<Rightarrow> string \<Rightarrow> PtConfig option \<Rightarrow> UserPtr list \<Rightarrow> string option \<Rightarrow> Host \<Rightarrow> 'k \<Rightarrow>
    (string + unit) \<times> 'k PptpWorld option" where
  "pptp_New env generated cfg users secrets h k =
    (case cfg of
       None \<Rightarrow> (Inl ''pptp config must not be nil'', None)
     | Some c0 \<Rightarrow>
         let c = c0\<lparr>pt_workDir := he_Join (pv_host env) [generated, ''pptp'', pt_InboundTag c0]\<rparr>;
             core0 = \<lparr>pk_config = c, pk_ppp = new_PPTP (pt_InboundTag c) users secrets, pk_sup = sv_new, pk_routing = None\<rparr>
         in case pptp_start env \<lparr>pw_core = core0, pw_host = h, pw_kernel = k\<rparr> of
              (Some e, w1) \<Rightarrow> (Inl e, Some w1)
            | (None, w1) \<Rightarrow> (Inr (), Some w1))"

definition pptp_Shutdown :: "'k PptpEnv \<Rightarrow> nat list \<Rightarrow> 'k PptpWorld \<Rightarrow> 'k PptpWorld" where
  "pptp_Shutdown env reaped w =
    (let c = pw_core w in
     if sv_once (pk_sup c) then w
     else
       let p1 = (pk_ppp c)\<lparr>pp_state := pppStopped,
                  pp_secrets := pptp_removeChapSecrets (pv_secrets env) (pt_InboundTag (pk_config c)) (pp_secrets (pk_ppp c))\<rparr>
       in w\<lparr>pw_core := c\<lparr>pk_ppp := p1, pk_sup := sv_Shutdown reaped (pk_sup c)\<rparr>,
            pw_kernel := (case pk_routing c of None \<Rightarrow> pw_kernel w | Some cl \<Rightarrow> cleanHostRouting (pv_shell env) (pv_dec env) cl (pw_kernel w))\<rparr>)"

definition pptp_Restart :: "'k PptpEnv \<Rightarrow> nat list \<Rightarrow> 'k PptpWorld \<Rightarrow> string option \<times> 'k PptpWorld" where
  "pptp_Restart env reaped w =
    (let w1 = pptp_Shutdown env reaped w
     in pptp_start env (w1\<lparr>pw_core := (pw_core w1)\<lparr>pk_sup := sv_renew (pk_sup (pw_core w1))\<rparr>\<rparr>))"

definition pptp_UpdateUsersAndRestart :: "'k PptpEnv \<Rightarrow> nat list \<Rightarrow> UserPtr list \<Rightarrow> 'k PptpWorld \<Rightarrow> string option \<times> 'k PptpWorld" where
  "pptp_UpdateUsersAndRestart env reaped users w =
    (let c = pw_core w; p = pk_ppp c;
         p1 = p\<lparr>pp_users := snd (pptp_replaceAll (pv_order env (pp_users p)) users (pp_users p))\<rparr>
     in pptp_Restart env reaped (w\<lparr>pw_core := c\<lparr>pk_ppp := p1\<rparr>\<rparr>))"

end
