(* ===== verification/LogChannel.thy ===== *)
theory LogChannel
  imports Daemon PppConfig
begin

text \<open>
  The log channel of a back end: a buffered channel in a field that a shut-down closes and clears. \<open>emitLog\<close> of \<open>backend/wireguard/log.go\<close> sends while it
  holds the lock, \<open>emitLog\<close> of \<open>backend/openvpn/log.go\<close> reads the field under the lock and sends after it was released. The OpenVPN process of
  \<open>backend/openvpn/openvpn.go\<close>, whose output goes to this channel, is here too.
\<close>

section \<open>The channel\<close>

text \<open>\<open>ch_field\<close> tells that the field is not nil. Sending on a closed channel panics, which ends the node; a full channel drops the line.\<close>

record LogChan =
  ch_field :: bool
  ch_closed :: bool
  ch_cap :: nat
  ch_lines :: "string list"
  ch_panic :: bool

definition make_chan :: "nat \<Rightarrow> LogChan" where
  "make_chan n = \<lparr>ch_field = True, ch_closed = False, ch_cap = n, ch_lines = [], ch_panic = False\<rparr>"

definition chan_send :: "string \<Rightarrow> LogChan \<Rightarrow> LogChan" where
  "chan_send l c =
    (if ch_closed c then c\<lparr>ch_panic := True\<rparr>
     else if length (ch_lines c) < ch_cap c then c\<lparr>ch_lines := ch_lines c @ [l]\<rparr>
     else c)"

definition chan_recv :: "LogChan \<Rightarrow> LogChan" where
  "chan_recv c = c\<lparr>ch_lines := tl (ch_lines c)\<rparr>"

definition close_log :: "LogChan \<Rightarrow> LogChan" where
  "close_log c = (if ch_field c then c\<lparr>ch_closed := True, ch_field := False\<rparr> else c)"

text \<open>\<open>now\<close> is the formatted time.\<close>

definition formatWireGuardLogLine :: "string \<Rightarrow> string \<Rightarrow> string \<Rightarrow> string" where
  "formatWireGuardLogLine now severity message = now @ '' ['' @ severity @ ''] '' @ message"

definition emitLogLocked :: "string \<Rightarrow> string \<Rightarrow> string \<Rightarrow> LogChan \<Rightarrow> LogChan" where
  "emitLogLocked now severity message c =
    (if \<not> ch_field c then c else chan_send (formatWireGuardLogLine now severity message) c)"

text \<open>The two halves of \<open>emitLog\<close> of OpenVPN: what the goroutine holds after the lock, and the send.\<close>

definition emit_take :: "LogChan \<Rightarrow> bool" where
  "emit_take c = ch_field c"

definition emit_put :: "string \<Rightarrow> string \<Rightarrow> string \<Rightarrow> LogChan \<Rightarrow> LogChan" where
  "emit_put now severity message c = chan_send (now @ '' ['' @ severity @ ''] '' @ message) c"

definition ov_emitLog :: "string \<Rightarrow> string \<Rightarrow> string \<Rightarrow> LogChan \<Rightarrow> LogChan" where
  "ov_emitLog now severity message c = (if emit_take c then emit_put now severity message c else c)"

section \<open>Emitting without interruption\<close>

definition chan_ok :: "LogChan \<Rightarrow> bool" where
  "chan_ok c \<longleftrightarrow> \<not> ch_panic c \<and> (ch_field c \<longleftrightarrow> \<not> ch_closed c) \<and> length (ch_lines c) \<le> ch_cap c"

lemma make_chan_ok: "chan_ok (make_chan n)"
  by (simp add: chan_ok_def make_chan_def)

lemma chan_recv_ok: "chan_ok c \<Longrightarrow> chan_ok (chan_recv c)"
  by (auto simp: chan_ok_def chan_recv_def)

lemma close_log_ok: "chan_ok c \<Longrightarrow> chan_ok (close_log c)"
  by (simp add: chan_ok_def close_log_def)

lemma chan_send_ok: "chan_ok c \<Longrightarrow> ch_field c \<Longrightarrow> chan_ok (chan_send l c)"
  by (auto simp: chan_ok_def chan_send_def)

text \<open>What every emitter that runs as one step promises, and what follows for any sequence of lines, reads and closings.\<close>

datatype chan_op = Emit string string string | Receive | CloseLog

definition chan_step :: "(string \<Rightarrow> string \<Rightarrow> string \<Rightarrow> LogChan \<Rightarrow> LogChan) \<Rightarrow> chan_op \<Rightarrow> LogChan \<Rightarrow> LogChan" where
  "chan_step emit o0 c = (case o0 of Emit now sev msg \<Rightarrow> emit now sev msg c | Receive \<Rightarrow> chan_recv c | CloseLog \<Rightarrow> close_log c)"

locale log_emitter =
  fixes emit :: "string \<Rightarrow> string \<Rightarrow> string \<Rightarrow> LogChan \<Rightarrow> LogChan"
  assumes emit_ok: "chan_ok c \<Longrightarrow> chan_ok (emit now sev msg c)"
    and emit_closed: "\<not> ch_field c \<Longrightarrow> emit now sev msg c = c"
begin

lemma steps_ok: "chan_ok c \<Longrightarrow> chan_ok (fold (chan_step emit) ops c)"
proof (induction ops arbitrary: c)
  case (Cons o0 ops)
  have "chan_ok (chan_step emit o0 c)"
    using Cons.prems by (cases o0) (simp_all add: chan_step_def emit_ok chan_recv_ok close_log_ok)
  then show ?case using Cons.IH by simp
qed simp

lemma nothing_after_close:
  assumes "\<not> ch_field c" and "Receive \<notin> set ops"
  shows "fold (chan_step emit) ops c = c"
  using assms
proof (induction ops)
  case (Cons o0 ops)
  then have "chan_step emit o0 c = c" by (cases o0) (simp_all add: chan_step_def emit_closed close_log_def)
  then show ?case using Cons by simp
qed simp

end

interpretation wglog: log_emitter emitLogLocked
  by unfold_locales (simp_all add: emitLogLocked_def chan_send_ok)

interpretation ovlog: log_emitter ov_emitLog
  by unfold_locales (simp_all add: ov_emitLog_def emit_take_def emit_put_def chan_send_ok)

section \<open>Interleaved emitters\<close>

text \<open>
  The channel with the lines whose goroutine has read the field and not yet sent; \<open>quiet\<close> tells that every shut-down so far found no such goroutine.
\<close>

inductive emit_run :: "bool \<Rightarrow> LogChan \<Rightarrow> (string \<times> string \<times> string) list \<Rightarrow> bool" where
  made: "emit_run True (make_chan n) []"
| take: "emit_run q c ls \<Longrightarrow> emit_take c \<Longrightarrow> emit_run q c (l # ls)"
| put: "emit_run q c (ls1 @ (now, sev, msg) # ls2) \<Longrightarrow> emit_run q (emit_put now sev msg c) (ls1 @ ls2)"
| recv: "emit_run q c ls \<Longrightarrow> emit_run q (chan_recv c) ls"
| close: "emit_run q c ls \<Longrightarrow> emit_run (q \<and> ls = []) (close_log c) ls"

lemma emit_run_quiet: "emit_run q c ls \<Longrightarrow> q \<Longrightarrow> chan_ok c \<and> (ls \<noteq> [] \<longrightarrow> ch_field c)"
proof (induction rule: emit_run.induct)
  case (put q c ls1 now sev msg ls2)
  then show ?case by (auto simp: emit_put_def chan_send_ok) (auto simp: chan_send_def chan_ok_def)+
qed (auto simp: make_chan_ok emit_take_def chan_recv_ok close_log_ok, simp_all add: chan_recv_def close_log_def)

text \<open>C40. The log of WireGuard, which is written under the lock, never sends on a closed channel, whatever lines, reads and shut-downs follow one another, and
  never holds more lines than its buffer. The log of OpenVPN, which reads the channel under the lock and sends after it, does not either as long as every
  shut-down finds no goroutine between the two; otherwise there is a run in which the send meets the closed channel and the node panics.\<close>

theorem emit_race:
  "chan_ok (fold (chan_step emitLogLocked) ops (make_chan n)) \<and> (emit_run True c ls \<longrightarrow> \<not> ch_panic c) \<and> (\<exists>c. emit_run False c [] \<and> ch_panic c)"
proof (intro conjI impI)
  show "chan_ok (fold (chan_step emitLogLocked) ops (make_chan n))" by (rule wglog.steps_ok [OF make_chan_ok])
next
  assume "emit_run True c ls"
  then show "\<not> ch_panic c" using emit_run_quiet by (auto simp: chan_ok_def)
next
  have t: "emit_run True (make_chan 1) [([], [], [])]" by (intro emit_run.intros) (simp add: emit_take_def make_chan_def)
  have c: "emit_run False (close_log (make_chan 1)) ([] @ ([], [], []) # [])" using emit_run.close [OF t] by simp
  have "emit_run False (emit_put [] [] [] (close_log (make_chan 1))) []" using emit_run.put [OF c] by simp
  moreover have "ch_panic (emit_put [] [] [] (close_log (make_chan 1)))" by (simp add: emit_put_def chan_send_def close_log_def make_chan_def)
  ultimately show "\<exists>c. emit_run False c [] \<and> ch_panic c" by blast
qed

theorem emit_race_witness:
  "emit_run True (close_log (make_chan 1)) [] \<and> \<not> ch_panic (close_log (make_chan 1)) \<and>
   chan_ok (fold (chan_step emitLogLocked) [Emit ''t'' ''Info'' ''up'', CloseLog, Emit ''t'' ''Info'' ''late''] (make_chan 1))"
proof -
  have r: "emit_run True (close_log (make_chan 1)) []" using emit_run.close [OF emit_run.made [of 1]] by simp
  show ?thesis using r emit_race [of "[Emit ''t'' ''Info'' ''up'', CloseLog, Emit ''t'' ''Info'' ''late'']" 1 "close_log (make_chan 1)" "[]"] by blast
qed

section \<open>The OpenVPN process\<close>

definition ov_CheckDeps :: "HostEnv \<Rightarrow> string option" where
  "ov_CheckDeps env = (case he_LookPath env ''openvpn'' of None \<Rightarrow> Some ''openvpn is not installed on this node'' | Some _ \<Rightarrow> None)"

text \<open>\<open>OpenVPN\s+(\d+\.\d+\.\d+)\<close>, searched from the left; the blanks of \<open>\s\<close>.\<close>

definition re_blank :: "char \<Rightarrow> bool" where
  "re_blank c \<longleftrightarrow> (of_char c :: nat) \<in> {9, 10, 12, 13, 32}"

definition ov_version_at :: "string \<Rightarrow> string option" where
  "ov_version_at s =
    (if has_prefix s ''OpenVPN'' \<and> takeWhile re_blank (drop 7 s) \<noteq> [] then numbers_at 2 (dropWhile re_blank (drop 7 s)) else None)"

fun ov_find_version :: "string \<Rightarrow> string option" where
  "ov_find_version [] = None"
| "ov_find_version (c # cs) = (case ov_version_at (c # cs) of Some v \<Rightarrow> Some v | None \<Rightarrow> ov_find_version cs)"

definition ov_detectVersion :: "HostEnv \<Rightarrow> string" where
  "ov_detectVersion env =
    (case he_Output env [''openvpn'', ''--version''] of (err, out) \<Rightarrow>
       if err \<noteq> None \<and> out = [] then ''unknown''
       else case ov_find_version out of Some v \<Rightarrow> v | None \<Rightarrow> ''unknown'')"

text \<open>The process with the signals that were sent to it; \<open>supervised\<close> is the state of \<open>Daemon\<close>.\<close>

datatype ov_signal = Terminate nat | KillNow nat

record OvProc =
  op_sup :: Supervised
  op_version :: string
  op_signals :: "ov_signal list"
  op_log :: LogChan

definition startProcess :: "HostEnv \<Rightarrow> string option \<Rightarrow> string \<Rightarrow> OvProc \<Rightarrow> string option \<times> OvProc" where
  "startProcess env pipe confPath p =
    (let p1 = p\<lparr>op_version := ov_detectVersion env\<rparr>
     in case pipe of
          Some e \<Rightarrow> (Some (''openvpn stdout pipe: '' @ e), p1)
        | None \<Rightarrow>
            (case he_Start env [''openvpn'', ''--config'', confPath] of
               Inl e \<Rightarrow> (Some (''start openvpn: '' @ e), p1)
             | Inr pid \<Rightarrow> (None, p1\<lparr>op_sup := (op_sup p)\<lparr>sv_process := Some pid, sv_waiting := sv_waiting (op_sup p) @ [pid]\<rparr>\<rparr>)))"

text \<open>\<open>lines\<close> are the lines of the output with their times.\<close>

definition pipeLogs :: "(string \<times> string) list \<Rightarrow> OvProc \<Rightarrow> OvProc" where
  "pipeLogs lines p = p\<lparr>op_log := fold (\<lambda>(now, l). ov_emitLog now ''Info'' l) lines (op_log p)\<rparr>"

text \<open>\<open>reaped\<close> are the processes whose \<open>Wait\<close> returns within the five seconds.\<close>

definition stopProcess :: "nat list \<Rightarrow> OvProc \<Rightarrow> OvProc" where
  "stopProcess reaped p =
    (case sv_process (op_sup p) of
       None \<Rightarrow> p
     | Some pid \<Rightarrow>
         let s = fold sv_wait_returns reaped (op_sup p);
             p1 = p\<lparr>op_signals := op_signals p @ [Terminate pid], op_sup := s\<rparr>
         in if sv_waitDone s \<in> set (sv_closed s) then p1 else p1\<lparr>op_signals := op_signals p1 @ [KillNow pid]\<rparr>)"

text \<open>The process in \<open>Restart\<close> and in \<open>Shutdown\<close>.\<close>

definition ovp_Restart :: "HostEnv \<Rightarrow> string option \<Rightarrow> string \<Rightarrow> nat list \<Rightarrow> OvProc \<Rightarrow> string option \<times> OvProc" where
  "ovp_Restart env pipe confPath reaped p =
    (let p1 = stopProcess reaped p;
         s = op_sup p1
     in startProcess env pipe confPath (p1\<lparr>op_sup := s\<lparr>sv_waitDone := sv_chans s, sv_chans := sv_chans s + 1\<rparr>\<rparr>))"

definition ovp_Shutdown :: "nat list \<Rightarrow> OvProc \<Rightarrow> OvProc" where
  "ovp_Shutdown reaped p =
    (if sv_once (op_sup p) then p
     else let p1 = stopProcess reaped p
          in p1\<lparr>op_sup := (op_sup p1)\<lparr>sv_once := True, sv_running := False\<rparr>, op_version := [], op_log := close_log (op_log p1)\<rparr>)"

definition ovp_new :: "nat \<Rightarrow> OvProc" where
  "ovp_new n = \<lparr>op_sup = sv_new, op_version = [], op_signals = [], op_log = make_chan n\<rparr>"

text \<open>Runs in which every stop sees the daemon end in time.\<close>

inductive ovp_run :: "OvProc \<Rightarrow> bool" where
  made: "startProcess env pipe conf (ovp_new n) = (None, p) \<Longrightarrow> ovp_run p"
| ended: "ovp_run p \<Longrightarrow> ovp_run (p\<lparr>op_sup := sv_wait_returns pid (op_sup p)\<rparr>)"
| logged: "ovp_run p \<Longrightarrow> ovp_run (pipeLogs lines p)"
| restarted: "ovp_run p \<Longrightarrow> set (sv_waiting (op_sup p)) \<subseteq> set reaped \<Longrightarrow> ovp_Restart env pipe conf reaped p = (r, p') \<Longrightarrow> ovp_run p'"
| stopped: "ovp_run p \<Longrightarrow> set (sv_waiting (op_sup p)) \<subseteq> set reaped \<Longrightarrow> ovp_run (ovp_Shutdown reaped p)"

lemma closing_ok_fold:
  assumes "closing_ok s" and "set (sv_waiting s) \<subseteq> set reaped"
  shows "closing_ok (fold sv_wait_returns reaped s) \<and> sv_waiting (fold sv_wait_returns reaped s) = []"
proof
  show "closing_ok (fold sv_wait_returns reaped s)"
    using assms(1) by (rule fold_invariant) (rule closing_ok_wait_returns)
  show "sv_waiting (fold sv_wait_returns reaped s) = []"
  proof (cases "sv_waiting s")
    case Nil
    then show ?thesis by (simp add: waiting_nothing)
  next
    case (Cons p ps)
    then have "sv_waiting s = [p]" using assms(1) by (auto simp: closing_ok_def)
    then show ?thesis using assms(2) by (intro wait_returns_waiting) auto
  qed
qed

text \<open>A process that is waited for is the one in the field.\<close>

definition ovp_ok :: "OvProc \<Rightarrow> bool" where
  "ovp_ok p \<longleftrightarrow> closing_ok (op_sup p) \<and> (sv_waiting (op_sup p) \<noteq> [] \<longrightarrow> sv_process (op_sup p) = Some (hd (sv_waiting (op_sup p)))) \<and> chan_ok (op_log p)"

lemma startProcess_ok:
  assumes "startProcess env pipe conf p = (r, p')" and "closing_ok (op_sup p)" and "sv_waiting (op_sup p) = []"
    and "sv_waitDone (op_sup p) \<notin> set (sv_closed (op_sup p))" and "chan_ok (op_log p)"
  shows "ovp_ok p'"
  using assms by (auto simp: startProcess_def ovp_ok_def closing_ok_def Let_def split: option.splits sum.splits)

lemma stopProcess_ok:
  assumes "ovp_ok p" and "set (sv_waiting (op_sup p)) \<subseteq> set reaped"
  shows "closing_ok (op_sup (stopProcess reaped p)) \<and> sv_waiting (op_sup (stopProcess reaped p)) = [] \<and> op_log (stopProcess reaped p) = op_log p"
  using closing_ok_fold [of "op_sup p" reaped] assms
  by (auto simp: stopProcess_def ovp_ok_def Let_def split: option.splits)

lemma closing_ok_renew:
  "closing_ok s \<Longrightarrow> sv_waiting s = [] \<Longrightarrow> closing_ok (s\<lparr>sv_waitDone := sv_chans s, sv_chans := sv_chans s + 1\<rparr>) \<and> sv_chans s \<notin> set (sv_closed s)"
  by (auto simp: closing_ok_def less_Suc_eq)

lemma ovp_Restart_ok:
  assumes "ovp_ok p" and "set (sv_waiting (op_sup p)) \<subseteq> set reaped" and "ovp_Restart env pipe conf reaped p = (r, p')"
  shows "ovp_ok p'"
proof -
  note s = stopProcess_ok [OF assms(1,2)]
  define q where "q = op_sup (stopProcess reaped p)"
  have e: "startProcess env pipe conf ((stopProcess reaped p)\<lparr>op_sup := q\<lparr>sv_waitDone := sv_chans q, sv_chans := sv_chans q + 1\<rparr>\<rparr>) = (r, p')"
    using assms(3) by (simp add: ovp_Restart_def Let_def q_def)
  have "chan_ok (op_log p)" using assms(1) by (simp add: ovp_ok_def)
  then show ?thesis
    using s closing_ok_renew [of q] by (intro startProcess_ok [OF e]) (auto simp: q_def)
qed

lemma ovp_run_ok: "ovp_run p \<Longrightarrow> ovp_ok p"
proof (induction rule: ovp_run.induct)
  case (made env pipe conf n p)
  then show ?case by (rule startProcess_ok) (simp_all add: ovp_new_def sv_new_def closing_ok_def make_chan_ok)
next
  case (ended p pid)
  then show ?case
    using closing_ok_wait_returns [of "op_sup p" pid]
    by (auto simp: ovp_ok_def) (auto simp: sv_wait_returns_def closing_ok_def Let_def split: if_splits)
next
  case (logged p lines)
  have "chan_ok (fold (\<lambda>(now, l). ov_emitLog now ''Info'' l) lines c)" if "chan_ok c" for c
    using that by (induction lines arbitrary: c) (auto simp: ovlog.emit_ok)
  then show ?case using logged by (simp add: ovp_ok_def pipeLogs_def)
next
  case (restarted p reaped env pipe conf r p')
  then show ?case by (metis ovp_Restart_ok)
next
  case (stopped p reaped)
  note s = stopProcess_ok [OF stopped.IH stopped.hyps(2)]
  show ?case
  proof (cases "sv_once (op_sup p)")
    case True
    then show ?thesis using stopped.IH by (simp add: ovp_Shutdown_def)
  next
    case False
    then show ?thesis using s stopped.IH close_log_ok [of "op_log p"]
      by (simp add: ovp_Shutdown_def Let_def ovp_ok_def) (simp add: closing_ok_def)
  qed
qed

text \<open>When every stop sees the daemon end in time, no channel of the OpenVPN process is closed twice and nothing is sent on the closed log
  channel; the one daemon that is waited for is the one the next stop signals, and a shut-down leaves none.\<close>

theorem ovpn_process_run:
  assumes "ovp_run p" and "set (sv_waiting (op_sup p)) \<subseteq> set reaped"
  shows "\<not> sv_panic (op_sup p) \<and> \<not> ch_panic (op_log p) \<and> length (sv_waiting (op_sup p)) \<le> 1 \<and> (\<forall>pid\<in>set (sv_waiting (op_sup p)). sv_process (op_sup p) = Some pid) \<and>
    sv_waiting (op_sup (stopProcess reaped p)) = []"
  using ovp_run_ok [OF assms(1)] stopProcess_ok [OF _ assms(2)]
  by (auto simp: ovp_ok_def chan_ok_def closing_ok_def)

text \<open>A daemon that does not end within the five seconds is killed, but not waited for: its goroutine closes the channel of its successor, the next stop
  does not wait at all, and the end of the successor closes the channel once more and ends the node.\<close>

theorem late_openvpn_ends_node:
  assumes "startProcess env None conf (ovp_new n) = (None, p0)" and "sv_process (op_sup p0) = Some a"
    and "ovp_Restart env' None conf [] p0 = (None, p1)" and "sv_process (op_sup p1) = Some b" and "a \<noteq> b"
  shows "op_signals p1 = [Terminate a, KillNow a] \<and> sv_panic (sv_wait_returns b (sv_wait_returns a (op_sup p1)))"
  using assms
  by (auto simp: startProcess_def ovp_Restart_def stopProcess_def ovp_new_def sv_new_def sv_wait_returns_def Let_def split: sum.splits)

end
