(* ===== verification/Composite.thy ===== *)
theory Composite
  imports DeviceLimit
begin

text \<open>
  Several cores behind one interface: \<open>backend/backend.go\<close> and \<open>backend/composite.go\<close>. The
  interface \<open>Backend\<close> is a record of operations over the type of the cores, with the optional
  interfaces (\<open>ShapedClients\<close>, \<open>DeviceLimiter\<close>) as option-valued fields; errors are their texts.
\<close>

section \<open>The interface\<close>

record BackendStats =
  bs_NumGoroutine :: u32
  bs_NumGc :: u32
  bs_Alloc :: u64
  bs_TotalAlloc :: u64
  bs_Sys :: u64
  bs_Mallocs :: u64
  bs_Frees :: u64
  bs_LiveObjects :: u64
  bs_PauseTotalNs :: u64
  bs_Uptime :: u32

definition zero_BackendStats :: BackendStats where
  "zero_BackendStats = \<lparr>bs_NumGoroutine = 0, bs_NumGc = 0, bs_Alloc = 0, bs_TotalAlloc = 0, bs_Sys = 0,
     bs_Mallocs = 0, bs_Frees = 0, bs_LiveObjects = 0, bs_PauseTotalNs = 0, bs_Uptime = 0\<rparr>"

record Latency =
  la_Name :: string
  la_Alive :: bool
  la_Delay :: int
  la_Link :: string
  la_LastSeenTime :: int
  la_LastTryTime :: int
  la_Source :: string

record 'b Backend =
  be_Started :: "'b \<Rightarrow> bool"
  be_Version :: "'b \<Rightarrow> string"
  be_Restart :: "'b \<Rightarrow> string option \<times> 'b"
  be_Shutdown :: "'b \<Rightarrow> 'b"
  be_SyncUser :: "UserPtr \<Rightarrow> 'b \<Rightarrow> string option \<times> 'b"
  be_SyncUsers :: "UserPtr list \<Rightarrow> 'b \<Rightarrow> string option \<times> 'b"
  be_UpdateUsers :: "UserPtr list \<Rightarrow> 'b \<Rightarrow> string option \<times> 'b"
  be_UpdateUsersAndRestart :: "UserPtr list \<Rightarrow> 'b \<Rightarrow> string option \<times> 'b"
  be_GetSysStats :: "'b \<Rightarrow> string + BackendStats"
  be_GetStats :: "StatRequest \<Rightarrow> 'b \<Rightarrow> (string + Stat list option) \<times> 'b"
  be_GetOutboundsLatency :: "string \<Rightarrow> 'b \<Rightarrow> string + Latency list option"
  be_GetUserOnlineStats :: "string \<Rightarrow> 'b \<Rightarrow> string + OnlineStatResponse option"
  be_GetUserOnlineIpListStats :: "string \<Rightarrow> 'b \<Rightarrow> string + StatsOnlineIpListResponse option"
  be_ShapedClients :: "'b \<Rightarrow> Client list option"
  be_Limiter :: "'b \<Rightarrow> Limiter option"

section \<open>The composite\<close>

text \<open>A composite is the non-empty list of its cores.\<close>

definition NewComposite :: "'b list \<Rightarrow> 'b list option" where
  "NewComposite backends = (if length backends = 0 then None else Some backends)"

definition comp_ShapedClients :: "'b Backend \<Rightarrow> 'b list \<Rightarrow> Client list" where
  "comp_ShapedClients be bs =
    fold (\<lambda>b out. case be_ShapedClients be b of None \<Rightarrow> out | Some cs \<Rightarrow> out @ cs) bs []"

fun comp_Started :: "'b Backend \<Rightarrow> 'b list \<Rightarrow> bool" where
  "comp_Started be [] = False"
| "comp_Started be (b # bs) = (if be_Started be b then True else comp_Started be bs)"

definition comp_Version :: "'b Backend \<Rightarrow> 'b list \<Rightarrow> string" where
  "comp_Version be bs = str_join '', '' (filter (\<lambda>v. v \<noteq> []) (map (be_Version be) bs))"

definition first_err :: "string option \<Rightarrow> string option \<Rightarrow> string option" where
  "first_err firstErr err = (case err of None \<Rightarrow> firstErr | Some e \<Rightarrow> (case firstErr of None \<Rightarrow> Some e | Some f \<Rightarrow> Some f))"

text \<open>
  The loop that \<open>Restart\<close>, \<open>SyncUser\<close>, \<open>SyncUsers\<close>, \<open>UpdateUsers\<close> and \<open>UpdateUsersAndRestart\<close>
  share: call every core, remember the first error.
\<close>

fun fan_out :: "('b \<Rightarrow> string option \<times> 'b) \<Rightarrow> string option \<Rightarrow> 'b list \<Rightarrow> string option \<times> 'b list" where
  "fan_out op firstErr [] = (firstErr, [])"
| "fan_out op firstErr (b # bs) =
    (case op b of (err, b') \<Rightarrow>
       case fan_out op (first_err firstErr err) bs of (e, bs') \<Rightarrow> (e, b' # bs'))"

definition comp_Restart :: "'b Backend \<Rightarrow> 'b list \<Rightarrow> string option \<times> 'b list" where
  "comp_Restart be bs = fan_out (be_Restart be) None bs"

definition comp_Shutdown :: "'b Backend \<Rightarrow> 'b list \<Rightarrow> 'b list" where
  "comp_Shutdown be bs = map (be_Shutdown be) bs"

definition comp_SyncUser :: "'b Backend \<Rightarrow> UserPtr \<Rightarrow> 'b list \<Rightarrow> string option \<times> 'b list" where
  "comp_SyncUser be user bs = fan_out (be_SyncUser be user) None bs"

definition comp_SyncUsers :: "'b Backend \<Rightarrow> UserPtr list \<Rightarrow> 'b list \<Rightarrow> string option \<times> 'b list" where
  "comp_SyncUsers be users bs = fan_out (be_SyncUsers be users) None bs"

definition comp_UpdateUsers :: "'b Backend \<Rightarrow> UserPtr list \<Rightarrow> 'b list \<Rightarrow> string option \<times> 'b list" where
  "comp_UpdateUsers be users bs = fan_out (be_UpdateUsers be users) None bs"

definition comp_UpdateUsersAndRestart :: "'b Backend \<Rightarrow> UserPtr list \<Rightarrow> 'b list \<Rightarrow> string option \<times> 'b list" where
  "comp_UpdateUsersAndRestart be users bs = fan_out (be_UpdateUsersAndRestart be users) None bs"

definition sys_stats_step :: "(string + BackendStats) \<Rightarrow> BackendStats option \<times> string option \<Rightarrow>
    BackendStats option \<times> string option" where
  "sys_stats_step r acc =
    (case acc of (best, firstErr) \<Rightarrow>
      (case r of
         Inl e \<Rightarrow> (best, first_err firstErr (Some e))
       | Inr s \<Rightarrow> ((case best of
                      None \<Rightarrow> Some s
                    | Some x \<Rightarrow> if bs_Uptime s > bs_Uptime x then Some s else Some x), firstErr)))"

definition comp_GetSysStats :: "'b Backend \<Rightarrow> 'b list \<Rightarrow> BackendStats \<times> string option" where
  "comp_GetSysStats be bs =
    (case fold (\<lambda>b. sys_stats_step (be_GetSysStats be b)) bs (None, None) of
       (None, firstErr) \<Rightarrow> (zero_BackendStats, firstErr)
     | (Some s, _) \<Rightarrow> (s, None))"

definition merge_step :: "(string + 'r list option) \<Rightarrow> 'r list \<times> string option \<Rightarrow> 'r list \<times> string option" where
  "merge_step r acc =
    (case acc of (merged, firstErr) \<Rightarrow>
      (case r of
         Inl e \<Rightarrow> (merged, first_err firstErr (Some e))
       | Inr None \<Rightarrow> (merged, firstErr)
       | Inr (Some xs) \<Rightarrow> (merged @ xs, firstErr)))"

definition merge_result :: "'r list \<times> string option \<Rightarrow> string + 'r list" where
  "merge_result acc =
    (case acc of (merged, firstErr) \<Rightarrow>
      (case firstErr of
         Some e \<Rightarrow> if merged = [] then Inl e else Inr merged
       | None \<Rightarrow> Inr merged))"

fun stats_loop :: "'b Backend \<Rightarrow> StatRequest \<Rightarrow> 'b list \<Rightarrow> Stat list \<times> string option \<Rightarrow>
    (Stat list \<times> string option) \<times> 'b list" where
  "stats_loop be request [] acc = (acc, [])"
| "stats_loop be request (b # bs) acc =
    (case be_GetStats be request b of (r, b') \<Rightarrow>
       case stats_loop be request bs (merge_step r acc) of (acc', bs') \<Rightarrow> (acc', b' # bs'))"

definition comp_GetStats :: "'b Backend \<Rightarrow> StatRequest \<Rightarrow> 'b list \<Rightarrow> (string + Stat list) \<times> 'b list" where
  "comp_GetStats be request bs =
    (case stats_loop be request bs ([], None) of (acc, bs') \<Rightarrow> (merge_result acc, bs'))"

definition comp_GetOutboundsLatency :: "'b Backend \<Rightarrow> string \<Rightarrow> 'b list \<Rightarrow> string + Latency list" where
  "comp_GetOutboundsLatency be name bs =
    merge_result (fold (\<lambda>b. merge_step (be_GetOutboundsLatency be name b)) bs ([], None))"

definition online_step :: "(string + OnlineStatResponse option) \<Rightarrow> int \<times> bool \<times> string option \<Rightarrow>
    int \<times> bool \<times> string option" where
  "online_step r acc =
    (case acc of (tot, found, firstErr) \<Rightarrow>
      (case r of
         Inl e \<Rightarrow> (tot, found, first_err firstErr (Some e))
       | Inr None \<Rightarrow> (tot, found, firstErr)
       | Inr (Some s) \<Rightarrow> (i64 (tot + on_Value s), True, firstErr)))"

definition comp_GetUserOnlineStats :: "'b Backend \<Rightarrow> string \<Rightarrow> 'b list \<Rightarrow> string + OnlineStatResponse" where
  "comp_GetUserOnlineStats be name bs =
    (case fold (\<lambda>b. online_step (be_GetUserOnlineStats be name b)) bs (0, False, None) of
       (tot, found, firstErr) \<Rightarrow>
         (case firstErr of
            Some e \<Rightarrow> if found then Inr \<lparr>on_Name = name, on_Value = tot\<rparr> else Inl e
          | None \<Rightarrow> Inr \<lparr>on_Name = name, on_Value = tot\<rparr>))"

text \<open>\<open>for ip, v := range s.GetIps() { merged[ip] += v }\<close>: every address is added once.\<close>

definition add_ips :: "(string \<rightharpoonup> int) \<Rightarrow> (string \<rightharpoonup> int) \<Rightarrow> (string \<rightharpoonup> int)" where
  "add_ips ips merged =
    (\<lambda>ip. case ips ip of None \<Rightarrow> merged ip | Some v \<Rightarrow> Some (i64 (map_get 0 merged ip + v)))"

definition ip_list_step :: "(string + StatsOnlineIpListResponse option) \<Rightarrow>
    (string \<rightharpoonup> int) \<times> bool \<times> string option \<Rightarrow> (string \<rightharpoonup> int) \<times> bool \<times> string option" where
  "ip_list_step r acc =
    (case acc of (merged, found, firstErr) \<Rightarrow>
      (case r of
         Inl e \<Rightarrow> (merged, found, first_err firstErr (Some e))
       | Inr None \<Rightarrow> (merged, found, firstErr)
       | Inr (Some s) \<Rightarrow> (add_ips (oi_Ips s) merged, True, firstErr)))"

definition comp_GetUserOnlineIpListStats :: "'b Backend \<Rightarrow> string \<Rightarrow> 'b list \<Rightarrow> string + StatsOnlineIpListResponse" where
  "comp_GetUserOnlineIpListStats be name bs =
    (case fold (\<lambda>b. ip_list_step (be_GetUserOnlineIpListStats be name b)) bs (Map.empty, False, None) of
       (merged, found, firstErr) \<Rightarrow>
         (let resp = \<lparr>oi_Name = name, oi_Ips = merged, oi_IpProtocol = Map.empty\<rparr> in
          case firstErr of
            Some e \<Rightarrow> if found then Inr resp else Inl e
          | None \<Rightarrow> Inr resp))"

section \<open>What the loops compute\<close>

text \<open>The first error of a list of results.\<close>

definition head_error :: "string option list \<Rightarrow> string option" where
  "head_error errs = (case filter (\<lambda>e. e \<noteq> None) errs of [] \<Rightarrow> None | e # _ \<Rightarrow> e)"

lemma head_error_simps [simp]:
  "head_error [] = None"
  "head_error (e # es) = (case e of None \<Rightarrow> head_error es | Some x \<Rightarrow> Some x)"
  by (simp_all add: head_error_def split: option.split)

lemma first_err_simps [simp]:
  "first_err None err = err" "first_err (Some e) err = Some e" "first_err fe None = fe"
  by (simp_all add: first_err_def split: option.split)

lemma fan_out_eq:
  "fan_out op fe bs = (first_err fe (head_error (map (fst \<circ> op) bs)), map (snd \<circ> op) bs)"
proof (induction op fe bs rule: fan_out.induct)
  case (2 op fe b bs)
  then show ?case
    by (cases "op b"; cases fe; cases "fst (op b)") (auto simp: split: option.split)
qed simp

definition answers :: "(string + 'r option) list \<Rightarrow> 'r list" where
  "answers rs = List.map_filter (\<lambda>r. case r of Inl _ \<Rightarrow> None | Inr x \<Rightarrow> x) rs"

definition failures :: "(string + 'r) list \<Rightarrow> string option list" where
  "failures rs = map (\<lambda>r. case r of Inl e \<Rightarrow> Some e | Inr _ \<Rightarrow> None) rs"

lemma answers_simps [simp]:
  "answers [] = []" "answers (Inl e # rs) = answers rs" "answers (Inr None # rs) = answers rs"
  "answers (Inr (Some x) # rs) = x # answers rs"
  by (simp_all add: answers_def map_filter_simps)

lemma failures_simps [simp]:
  "failures [] = []" "failures (Inl e # rs) = Some e # failures rs" "failures (Inr x # rs) = None # failures rs"
  by (simp_all add: failures_def)

text \<open>Case analysis over the three kinds of results of a query.\<close>

lemma result_cases [case_names error nil answer]:
  obtains e where "r = Inl e" | "r = Inr None" | x where "r = Inr (Some x)"
  by (cases r) (auto intro: option.exhaust)

lemma merge_fold:
  "fold merge_step rs (m, fe) = (m @ concat (answers rs), first_err fe (head_error (failures rs)))"
proof (induction rs arbitrary: m fe)
  case (Cons r rs)
  then show ?case
    by (cases r rule: result_cases; cases fe) (simp_all add: merge_step_def)
qed simp

lemma stats_loop_eq:
  "stats_loop be request bs acc =
    (fold merge_step (map (fst \<circ> be_GetStats be request) bs) acc, map (snd \<circ> be_GetStats be request) bs)"
  by (induction bs arbitrary: acc) (simp_all add: case_prod_beta)

lemma online_fold:
  "fold online_step rs (t, f, fe) =
    (if answers rs = [] then t else i64 (t + (\<Sum>s\<leftarrow>answers rs. on_Value s)),
     f \<or> answers rs \<noteq> [], first_err fe (head_error (failures rs)))"
proof (induction rs arbitrary: t f fe)
  case (Cons r rs)
  then show ?case
    by (cases r rule: result_cases; cases fe) (simp_all add: online_step_def i64_add_left add.assoc)
qed simp

lemma ip_list_fold:
  "fold ip_list_step rs (m, f, fe) =
    (fold add_ips (map oi_Ips (answers rs)) m, f \<or> answers rs \<noteq> [], first_err fe (head_error (failures rs)))"
proof (induction rs arbitrary: m f fe)
  case (Cons r rs)
  then show ?case
    by (cases r rule: result_cases; cases fe) (simp_all add: ip_list_step_def)
qed simp

lemma fold_map_op: "fold (\<lambda>b. step (g b)) bs acc = fold step (map g bs) acc"
  by (simp add: fold_map comp_def)

lemma add_ips_fold:
  "fold add_ips ms m ip =
    (if \<forall>x\<in>set ms. x ip = None then m ip
     else Some (i64 (map_get 0 m ip + (\<Sum>x\<leftarrow>ms. map_get 0 x ip))))"
proof (induction ms arbitrary: m)
  case (Cons x ms)
  have "(\<Sum>x\<leftarrow>ms. map_get 0 x ip) = 0" if "\<forall>x\<in>set ms. x ip = None"
    using that by (induction ms) (simp_all add: map_get_def)
  moreover have "map_get 0 (add_ips x m) ip = (case x ip of None \<Rightarrow> map_get 0 m ip | Some v \<Rightarrow> i64 (map_get 0 m ip + v))"
    by (simp add: add_ips_def map_get_def split: option.split)
  ultimately show ?case
    using Cons [of "add_ips x m"]
    by (cases "x ip") (auto simp: add_ips_def map_get_def i64_add_left add.assoc)
qed simp

section \<open>PPP cores behind the interface\<close>

text \<open>
  The user operations of an L2TP or PPTP core, with the reader of its credentials, take the place
  of the corresponding fields; \<open>ord\<close> is the order of the loops over the stored users.
\<close>

type_synonym ppp_core = "cred_reader \<times> Ppp"

definition on_core :: "(cred_reader \<Rightarrow> Ppp \<Rightarrow> string option \<times> Ppp) \<Rightarrow> ppp_core \<Rightarrow> string option \<times> ppp_core" where
  "on_core f c = (case f (fst c) (snd c) of (err, st) \<Rightarrow> (err, (fst c, st)))"

definition ppp_backend :: "SecretsEnv \<Rightarrow> (userStore \<Rightarrow> string list) \<Rightarrow> ppp_core Backend \<Rightarrow> ppp_core Backend" where
  "ppp_backend env ord be = be\<lparr>
     be_SyncUser := (\<lambda>u. on_core (\<lambda>creds. ppp_SyncUser env creds ord u)),
     be_SyncUsers := (\<lambda>us. on_core (\<lambda>creds. ppp_SyncUsers env creds ord us)),
     be_UpdateUsers := (\<lambda>us. on_core (\<lambda>creds. ppp_UpdateUsers env creds ord us))\<rparr>"

definition core_logins :: "ppp_core \<Rightarrow> (string \<rightharpoonup> userEntry)" where
  "core_logins c = us_users (pp_users (snd c))"

definition core_tag :: "ppp_core \<Rightarrow> string" where
  "core_tag c = us_inboundTag (pp_users (snd c))"

lemma reloadUsers_users [simp]: "pp_users (snd (reloadUsers env order st)) = pp_users st"
  by (simp add: reloadUsers_def split: prod.split)

lemma SyncUsers_logins:
  "core_logins (snd (on_core (\<lambda>creds. ppp_SyncUsers env creds ord us) c)) =
    map_of (rev (List.map_filter (asked (fst c) (core_tag c)) us))"
  by (simp add: core_logins_def core_tag_def on_core_def case_prod_beta ppp_SyncUsers_def Let_def replaceAll_users)

lemma UpdateUsers_logins:
  "core_logins (snd (on_core (\<lambda>creds. ppp_UpdateUsers env creds ord us) c)) n =
    (case List.find (touches (fst c) (core_tag c) n) (rev us) of
       None \<Rightarrow> core_logins c n
     | Some u \<Rightarrow> map_option snd (asked (fst c) (core_tag c) u))"
  using apply_all_lookup [of "fst c" us "pp_users (snd c)" n] unfolding core_logins_def core_tag_def
  by (simp add: on_core_def case_prod_beta ppp_UpdateUsers_def applyUsers_def Let_def apply_all_def)

section \<open>Properties\<close>

text \<open>Every user operation and restart of a composite reaches every core exactly once, also after a
  core has failed, and reports the first error in the order of the cores.\<close>

theorem composite_reaches_all:
  "comp_Restart be bs = (head_error (map (fst \<circ> be_Restart be) bs), map (snd \<circ> be_Restart be) bs) \<and>
   comp_SyncUser be u bs = (head_error (map (fst \<circ> be_SyncUser be u) bs), map (snd \<circ> be_SyncUser be u) bs) \<and>
   comp_SyncUsers be us bs = (head_error (map (fst \<circ> be_SyncUsers be us) bs), map (snd \<circ> be_SyncUsers be us) bs) \<and>
   comp_UpdateUsers be us bs = (head_error (map (fst \<circ> be_UpdateUsers be us) bs), map (snd \<circ> be_UpdateUsers be us) bs) \<and>
   comp_UpdateUsersAndRestart be us bs =
     (head_error (map (fst \<circ> be_UpdateUsersAndRestart be us) bs), map (snd \<circ> be_UpdateUsersAndRestart be us) bs)"
  by (simp add: comp_Restart_def comp_SyncUser_def comp_SyncUsers_def comp_UpdateUsers_def
      comp_UpdateUsersAndRestart_def fan_out_eq)

text \<open>The statistics of a composite are the statistics of all cores that answer, in order, and the
  online value of a user is the 64-bit sum of their values; an error, the first one, is returned
  only when some core failed and none contributed.\<close>

theorem composite_merges:
  "comp_GetStats be request bs =
     ((let rs = map (fst \<circ> be_GetStats be request) bs; merged = concat (answers rs)
       in case head_error (failures rs) of
            Some e \<Rightarrow> if merged = [] then Inl e else Inr merged | None \<Rightarrow> Inr merged),
      map (snd \<circ> be_GetStats be request) bs) \<and>
   comp_GetUserOnlineStats be name bs =
     (let rs = map (be_GetUserOnlineStats be name) bs;
          resp = \<lparr>on_Name = name, on_Value = (if answers rs = [] then 0 else i64 (\<Sum>s\<leftarrow>answers rs. on_Value s))\<rparr>
      in case head_error (failures rs) of
           Some e \<Rightarrow> if answers rs = [] then Inl e else Inr resp | None \<Rightarrow> Inr resp)"
  by (simp add: comp_GetStats_def stats_loop_eq merge_fold merge_result_def Let_def
      comp_GetUserOnlineStats_def fold_map_op online_fold split: option.split)

text \<open>The address list of a composite gives an address the sum of the values the cores report for
  it: an address that two cores saw at two times is listed with their sum, which is the time of
  neither.\<close>

theorem composite_ip_times_add_up:
  assumes "be_GetUserOnlineIpListStats be name b1 = Inr (Some r1)" and "oi_Ips r1 ip = Some t1"
    and "be_GetUserOnlineIpListStats be name b2 = Inr (Some r2)" and "oi_Ips r2 ip = Some t2"
  shows "\<exists>r. comp_GetUserOnlineIpListStats be name [b1, b2] = Inr r \<and> oi_Ips r ip = Some (i64 (t1 + t2))"
  using assms
  by (simp add: comp_GetUserOnlineIpListStats_def fold_map_op ip_list_fold ip_list_step_def Let_def
      add_ips_def map_get_def i64_add_left)

definition lab_backend :: "int Backend" where
  "lab_backend = \<lparr>be_Started = (\<lambda>_. True), be_Version = (\<lambda>_. []), be_Restart = (\<lambda>b. (None, b)),
     be_Shutdown = (\<lambda>b. b), be_SyncUser = (\<lambda>_ b. (None, b)), be_SyncUsers = (\<lambda>_ b. (None, b)),
     be_UpdateUsers = (\<lambda>_ b. (None, b)), be_UpdateUsersAndRestart = (\<lambda>_ b. (None, b)),
     be_GetSysStats = (\<lambda>_. Inr zero_BackendStats), be_GetStats = (\<lambda>_ b. (Inr None, b)),
     be_GetOutboundsLatency = (\<lambda>_ _. Inr None), be_GetUserOnlineStats = (\<lambda>_ _. Inr None),
     be_GetUserOnlineIpListStats = (\<lambda>n b. Inr (Some \<lparr>oi_Name = n, oi_Ips = [''1.2.3.4'' \<mapsto> b],
        oi_IpProtocol = Map.empty\<rparr>)),
     be_ShapedClients = (\<lambda>_. None), be_Limiter = (\<lambda>_. None)\<rparr>"

theorem composite_ip_times_add_up_witness:
  "\<exists>r. comp_GetUserOnlineIpListStats lab_backend ''ann'' [1700000000, 1700000005] = Inr r \<and>
    oi_Ips r ''1.2.3.4'' = Some 3400000005"
proof -
  have q: "be_GetUserOnlineIpListStats lab_backend ''ann'' b =
      Inr (Some \<lparr>oi_Name = ''ann'', oi_Ips = [''1.2.3.4'' \<mapsto> b], oi_IpProtocol = Map.empty\<rparr>)" for b
    by (simp add: lab_backend_def)
  have "\<exists>r. comp_GetUserOnlineIpListStats lab_backend ''ann'' [1700000000, 1700000005] = Inr r \<and>
      oi_Ips r ''1.2.3.4'' = Some (i64 (1700000000 + 1700000005))"
    by (rule composite_ip_times_add_up [OF q _ q]) simp_all
  then show ?thesis by (simp add: is_i64_def)
qed

text \<open>When the panel synchronises the users of a node with L2TP and PPTP cores, every core ends up
  with exactly the logins its inbound tag and its kind of credentials ask for, also when the secrets
  file of some core cannot be written; an update changes, on every core, exactly the logins that
  its messages touch.\<close>

theorem node_user_sync:
  fixes be :: "ppp_core Backend"
  shows "map core_logins (snd (comp_SyncUsers (ppp_backend env ord be) us cores)) =
      map (\<lambda>c. map_of (rev (List.map_filter (asked (fst c) (core_tag c)) us))) cores \<and>
    map core_logins (snd (comp_UpdateUsers (ppp_backend env ord be) us cores)) =
      map (\<lambda>c n. case List.find (touches (fst c) (core_tag c) n) (rev us) of
                   None \<Rightarrow> core_logins c n
                 | Some u \<Rightarrow> map_option snd (asked (fst c) (core_tag c) u)) cores"
proof -
  have "core_logins (snd (on_core (\<lambda>creds. ppp_UpdateUsers env creds ord us) c)) =
      (\<lambda>n. case List.find (touches (fst c) (core_tag c) n) (rev us) of
         None \<Rightarrow> core_logins c n
       | Some u \<Rightarrow> map_option snd (asked (fst c) (core_tag c) u))" for c
    by (rule ext) (rule UpdateUsers_logins)
  then show ?thesis
    by (simp add: comp_SyncUsers_def comp_UpdateUsers_def fan_out_eq ppp_backend_def SyncUsers_logins comp_def)
qed

end
