(* ===== verification/WgLatency.thy ===== *)
theory WgLatency
  imports WgSync Composite
begin

text \<open>
  The latency probe of the WireGuard back end, \<open>backend/wireguard/latency.go\<close>: one request over the interface of the node. The environment variable,
  the making of the request and the request itself are parameters.
\<close>

record ProbeEnv =
  pe_Getenv :: "string \<Rightarrow> string"
  pe_NewRequest :: "string \<Rightarrow> string option"
  pe_Do :: "string \<Rightarrow> int \<Rightarrow> string \<Rightarrow> string option"
  pe_delay :: int
  pe_now :: int

definition latencyProbeInterface :: "ProbeEnv \<Rightarrow> 'k WireGuard \<Rightarrow> string" where
  "latencyProbeInterface env wg =
    (let iface = trim_space (pe_Getenv env ''HPX_NODE_WG_NAT_OUTPUT_INTERFACE'')
     in if iface \<noteq> [] then iface else trim_space (wc_InterfaceName (wg_config wg)))"

definition wg_GetOutboundsLatency :: "ProbeEnv \<Rightarrow> string \<Rightarrow> 'k WireGuard \<Rightarrow> string + Latency list" where
  "wg_GetOutboundsLatency env request wg =
    (let (testURL, timeoutSeconds) = (case wc_Latency (wg_config wg) of None \<Rightarrow> ([], 0) | Some l \<Rightarrow> (lc_TestURL l, lc_TimeoutSeconds l))
     in if wg_state wg \<noteq> lifecycleRunning then Inl ''wireguard not started''
        else let iface = latencyProbeInterface env wg;
                 name = (if iface = [] then ''wireguard'' else iface);
                 requestName = trim_space request
             in if requestName \<noteq> [] \<and> requestName \<noteq> name then Inr []
                else case pe_NewRequest env testURL of
                       Some e \<Rightarrow> Inl e
                     | None \<Rightarrow>
                         let alive = (pe_Do env iface timeoutSeconds testURL = None)
                         in Inr [\<lparr>la_Name = name, la_Alive = alive, la_Delay = pe_delay env, la_Link = testURL,
                                  la_LastSeenTime = (if alive then pe_now env else 0), la_LastTryTime = pe_now env, la_Source = ''wireguard-probe''\<rparr>])"

text \<open>
  A stopped back end answers with an error; a running one with at most one entry, which carries the name that was asked for, and was seen at the time of
  the try exactly when the request came back.
\<close>

lemma wg_latency_entry:
  assumes "wg_GetOutboundsLatency env request wg = Inr ls" and "l \<in> set ls"
  shows "wg_state wg = lifecycleRunning \<and> ls = [l] \<and> la_Name l \<noteq> [] \<and> (trim_space request \<noteq> [] \<longrightarrow> la_Name l = trim_space request) \<and>
    la_LastSeenTime l = (if la_Alive l then la_LastTryTime l else 0)"
  using assms by (auto simp: wg_GetOutboundsLatency_def Let_def split: option.splits if_splits prod.splits)

lemma wg_latency_stopped: "wg_state wg \<noteq> lifecycleRunning \<Longrightarrow> wg_GetOutboundsLatency env request wg = Inl ''wireguard not started''"
  by (simp add: wg_GetOutboundsLatency_def split: prod.split)

end
