(* ===== verification/XrayAccount.thy ===== *)
theory XrayAccount
  imports Common
begin

text \<open>
  Accounts of the Xray core: \<open>backend/xray/api/account.go\<close>, the account part of
  \<open>backend/xray/user.go\<close> and the inbounds of \<open>backend/xray/config.go\<close> with the accounts they
  serve. A UUID is its canonical text and \<open>uuid.Parse\<close> a parameter; the embedding of
  \<open>BaseAccount\<close> is a record extension, and the interface \<open>Account\<close> a datatype with one
  constructor per implementation.
\<close>

section \<open>Accounts\<close>

type_synonym UUID = string

record BaseAccount =
  ba_Email :: string
  ba_Level :: u32

record VmessAccount = BaseAccount +
  vma_ID :: UUID

record VlessAccount = BaseAccount +
  vla_ID :: UUID
  vla_Flow :: string

record TrojanAccount = BaseAccount +
  tra_Password :: string

record ShadowsocksAccount = BaseAccount +
  ssa_Password :: string

record ShadowsocksTcpAccount = ShadowsocksAccount +
  sst_Method :: string

record HysteriaAccount = BaseAccount +
  hya_Auth :: string

record AnyTLSAccount = BaseAccount +
  ata_Password :: string

record TuicAccount = BaseAccount +
  tua_ID :: UUID
  tua_Password :: string

record NaiveAccount = BaseAccount +
  naa_Username :: string
  naa_Password :: string

datatype Account = AVmess VmessAccount | AVless VlessAccount | ATrojan TrojanAccount
  | AShadowsocks ShadowsocksAccount | AShadowsocksTcp ShadowsocksTcpAccount | AHysteria HysteriaAccount
  | AAnyTLS AnyTLSAccount | ATuic TuicAccount | ANaive NaiveAccount

fun account_Email :: "Account \<Rightarrow> string" where
  "account_Email (AVmess a) = ba_Email a"
| "account_Email (AVless a) = ba_Email a"
| "account_Email (ATrojan a) = ba_Email a"
| "account_Email (AShadowsocks a) = ba_Email a"
| "account_Email (AShadowsocksTcp a) = ba_Email a"
| "account_Email (AHysteria a) = ba_Email a"
| "account_Email (AAnyTLS a) = ba_Email a"
| "account_Email (ATuic a) = ba_Email a"
| "account_Email (ANaive a) = ba_Email a"

record ProxySettings =
  set_Vmess :: "VmessAccount option"
  set_Vless :: "VlessAccount option"
  set_Trojan :: "TrojanAccount option"
  set_Shadowsocks :: "ShadowsocksTcpAccount option"
  set_Shadowsocks2022 :: "ShadowsocksAccount option"
  set_Hysteria :: "HysteriaAccount option"
  set_AnyTLS :: "AnyTLSAccount option"
  set_Tuic :: "TuicAccount option"
  set_Naive :: "NaiveAccount option"

text \<open>A field of the proxy settings of a user, through the getters that accept nil pointers.\<close>

definition proxy_field :: "(Proxy \<Rightarrow> 'a option) \<Rightarrow> UserPtr \<Rightarrow> 'a option" where
  "proxy_field get user = (case GetProxies user of None \<Rightarrow> None | Some p \<Rightarrow> get p)"

definition proxy_text :: "(Proxy \<Rightarrow> 'a option) \<Rightarrow> ('a \<Rightarrow> string) \<Rightarrow> UserPtr \<Rightarrow> string" where
  "proxy_text get f user = (case proxy_field get user of None \<Rightarrow> [] | Some x \<Rightarrow> f x)"

definition NewVmessAccount :: "(string \<Rightarrow> UUID option) \<Rightarrow> UserPtr \<Rightarrow> VmessAccount option" where
  "NewVmessAccount uuid user =
    (case uuid (proxy_text px_Vmess vm_Id user) of
       None \<Rightarrow> None
     | Some i \<Rightarrow> Some \<lparr>ba_Email = GetEmail user, ba_Level = 0, vma_ID = i\<rparr>)"

definition NewVlessAccount :: "(string \<Rightarrow> UUID option) \<Rightarrow> UserPtr \<Rightarrow> VlessAccount option" where
  "NewVlessAccount uuid user =
    (case uuid (proxy_text px_Vless vl_Id user) of
       None \<Rightarrow> None
     | Some i \<Rightarrow> Some \<lparr>ba_Email = GetEmail user, ba_Level = 0, vla_ID = i, vla_Flow = proxy_text px_Vless vl_Flow user\<rparr>)"

definition NewTrojanAccount :: "UserPtr \<Rightarrow> TrojanAccount" where
  "NewTrojanAccount user =
    \<lparr>ba_Email = GetEmail user, ba_Level = 0, tra_Password = proxy_text px_Trojan tr_Password user\<rparr>"

definition CipherType_value :: "string \<rightharpoonup> int" where
  "CipherType_value = [''aes-128-gcm'' \<mapsto> 5, ''aes-256-gcm'' \<mapsto> 6, ''chacha20-poly1305'' \<mapsto> 7,
     ''chacha20-ietf-poly1305'' \<mapsto> 7, ''xchacha20-poly1305'' \<mapsto> 8, ''xchacha20-ietf-poly1305'' \<mapsto> 8,
     ''none'' \<mapsto> 9]"

definition NewShadowsocksAccount :: "UserPtr \<Rightarrow> ShadowsocksAccount" where
  "NewShadowsocksAccount user =
    \<lparr>ba_Email = GetEmail user, ba_Level = 0, ssa_Password = proxy_text px_Shadowsocks ss_Password user\<rparr>"

definition NewShadowsocksTcpAccount :: "UserPtr \<Rightarrow> ShadowsocksTcpAccount" where
  "NewShadowsocksTcpAccount user =
    (let method = proxy_text px_Shadowsocks ss_Method user
     in \<lparr>ba_Email = GetEmail user, ba_Level = 0, ssa_Password = proxy_text px_Shadowsocks ss_Password user,
         sst_Method = (if CipherType_value method = None then ''none'' else method)\<rparr>)"

definition NewHysteriaAccount :: "UserPtr \<Rightarrow> HysteriaAccount" where
  "NewHysteriaAccount user =
    \<lparr>ba_Email = GetEmail user, ba_Level = 0, hya_Auth = proxy_text px_Hysteria hy_Auth user\<rparr>"

definition NewAnyTLSAccount :: "UserPtr \<Rightarrow> AnyTLSAccount" where
  "NewAnyTLSAccount user =
    \<lparr>ba_Email = GetEmail user, ba_Level = 0, ata_Password = proxy_text px_Anytls at_Password user\<rparr>"

definition NewTuicAccount :: "(string \<Rightarrow> UUID option) \<Rightarrow> UserPtr \<Rightarrow> TuicAccount option" where
  "NewTuicAccount uuid user =
    (case uuid (proxy_text px_Tuic tu_Id user) of
       None \<Rightarrow> None
     | Some i \<Rightarrow> Some \<lparr>ba_Email = GetEmail user, ba_Level = 0, tua_ID = i,
                       tua_Password = proxy_text px_Tuic tu_Password user\<rparr>)"

definition NewNaiveAccount :: "UserPtr \<Rightarrow> NaiveAccount" where
  "NewNaiveAccount user =
    \<lparr>ba_Email = GetEmail user, ba_Level = 0, naa_Username = proxy_text px_Naive na_Username user,
     naa_Password = proxy_text px_Naive na_Password user\<rparr>"

text \<open>The error that \<open>setupUserAccount\<close> returns beside the settings is always nil.\<close>

definition setupUserAccount :: "(string \<Rightarrow> UUID option) \<Rightarrow> UserPtr \<Rightarrow> ProxySettings" where
  "setupUserAccount uuid user =
    \<lparr>set_Vmess = (if proxy_field px_Vmess user \<noteq> None then NewVmessAccount uuid user else None),
     set_Vless = (if proxy_field px_Vless user \<noteq> None then NewVlessAccount uuid user else None),
     set_Trojan = (if proxy_field px_Trojan user \<noteq> None then Some (NewTrojanAccount user) else None),
     set_Shadowsocks = (if proxy_field px_Shadowsocks user \<noteq> None then Some (NewShadowsocksTcpAccount user) else None),
     set_Shadowsocks2022 = (if proxy_field px_Shadowsocks user \<noteq> None then Some (NewShadowsocksAccount user) else None),
     set_Hysteria = (if proxy_field px_Hysteria user \<noteq> None then Some (NewHysteriaAccount user) else None),
     set_AnyTLS = (if proxy_field px_Anytls user \<noteq> None then Some (NewAnyTLSAccount user) else None),
     set_Tuic = (if proxy_field px_Tuic user \<noteq> None then NewTuicAccount uuid user else None),
     set_Naive = (if proxy_field px_Naive user \<noteq> None then Some (NewNaiveAccount user) else None)\<rparr>"

section \<open>Inbounds\<close>

text \<open>A decoded JSON value; numbers are kept as their text.\<close>

datatype json = JNull | JBool bool | JNum string | JStr string | JArr "json list" | JObj "string \<rightharpoonup> json"

text \<open>
  An inbound. A nil map reads as an empty one. \<open>in_ClientsOut\<close> is the entry \<open>clients\<close> of the
  settings as \<open>ToBytes\<close> writes it, \<open>None\<close> while it is the one of the configuration; the fields that
  are only passed on to the core (stream settings, sniffing, allocation) are left out.
\<close>

record XInbound =
  in_Tag :: string
  in_Listen :: string
  in_Port :: json
  in_Protocol :: string
  in_Settings :: "string \<rightharpoonup> json"
  in_exclude :: bool
  in_clients :: "string \<rightharpoonup> Account"
  in_ClientsOut :: "Account list option"

text \<open>A member of the settings asserted to be a string.\<close>

definition setting_text :: "string \<Rightarrow> XInbound \<Rightarrow> string option" where
  "setting_text name i = (case in_Settings i name of Some (JStr s) \<Rightarrow> Some s | _ \<Rightarrow> None)"

definition inboundFlow :: "XInbound \<Rightarrow> string" where
  "inboundFlow i = (case setting_text ''flow'' i of None \<Rightarrow> [] | Some flow \<Rightarrow> flow)"

definition accountForAPI :: "XInbound \<Rightarrow> Account \<Rightarrow> Account" where
  "accountForAPI i account =
    (case account of
       AVless a \<Rightarrow> if inboundFlow i = [] then account else AVless (a\<lparr>vla_Flow := inboundFlow i\<rparr>)
     | _ \<Rightarrow> account)"

definition checkShadowsocks2022 :: "(string \<Rightarrow> char list) \<Rightarrow> string \<Rightarrow> ShadowsocksAccount \<Rightarrow> ShadowsocksAccount" where
  "checkShadowsocks2022 sha256 method account =
    account\<lparr>ssa_Password := EnsureBase64Password sha256 (ssa_Password account) method\<rparr>"

definition method_2022 :: "XInbound \<Rightarrow> string option" where
  "method_2022 i =
    (case setting_text ''method'' i of
       Some method \<Rightarrow> if has_prefix method ''2022-blake3'' then Some method else None
     | None \<Rightarrow> None)"

definition isActiveInbound :: "(string \<Rightarrow> char list) \<Rightarrow> XInbound \<Rightarrow> string list \<Rightarrow> ProxySettings \<Rightarrow> Account option" where
  "isActiveInbound sha256 i inbounds settings =
    (if in_Tag i \<in> set inbounds
     then if in_Protocol i = ''vless'' then map_option AVless (set_Vless settings)
          else if in_Protocol i = ''vmess'' then map_option AVmess (set_Vmess settings)
          else if in_Protocol i = ''trojan'' then map_option ATrojan (set_Trojan settings)
          else if in_Protocol i = ''shadowsocks''
          then (case method_2022 i of
                  Some method \<Rightarrow> map_option (AShadowsocks \<circ> checkShadowsocks2022 sha256 method) (set_Shadowsocks2022 settings)
                | None \<Rightarrow> map_option AShadowsocksTcp (set_Shadowsocks settings))
          else if in_Protocol i = ''hysteria'' then map_option AHysteria (set_Hysteria settings)
          else if in_Protocol i = ''anytls'' then map_option AAnyTLS (set_AnyTLS settings)
          else if in_Protocol i = ''tuic'' then map_option ATuic (set_Tuic settings)
          else if in_Protocol i = ''naive'' then map_option ANaive (set_Naive settings)
          else None
     else None)"

end
