(* ===== verification/XrayConfig.thy ===== *)
theory XrayConfig
  imports XrayAccount
begin

text \<open>
  The configuration of the Xray core, \<open>backend/xray/config.go\<close>: the accounts of every inbound,
  their full and partial synchronisation, the client lists handed to the core, and the rewriting of
  a configuration before a start (API inbound, routing rules, observatory, policy, side-car
  inbounds). The inbounds are pointers in a list, so a table of inbounds maps a tag to a position.
\<close>

section \<open>Accounts of an inbound\<close>

text \<open>The account that \<open>syncUsers\<close> gives a user, if any: one branch per protocol.\<close>

definition sync_account :: "(string \<Rightarrow> UUID option) \<Rightarrow> (string \<Rightarrow> char list) \<Rightarrow> XInbound \<Rightarrow> UserPtr \<Rightarrow> Account option" where
  "sync_account uuid sha256 i user =
    (let served = (\<lambda>missing account. if missing then None
                     else if in_Tag i \<in> set (GetInbounds user) then account else None)
     in if in_Protocol i = ''vmess''
        then served (proxy_field px_Vmess user = None) (map_option AVmess (NewVmessAccount uuid user))
        else if in_Protocol i = ''vless''
        then served (proxy_field px_Vless user = None) (map_option AVless (NewVlessAccount uuid user))
        else if in_Protocol i = ''trojan''
        then served (proxy_field px_Trojan user = None) (Some (ATrojan (NewTrojanAccount user)))
        else if in_Protocol i = ''shadowsocks''
        then served (proxy_field px_Shadowsocks user = None)
               (Some (case method_2022 i of
                        Some method \<Rightarrow> AShadowsocks (checkShadowsocks2022 sha256 method (NewShadowsocksAccount user))
                      | None \<Rightarrow> AShadowsocksTcp (NewShadowsocksTcpAccount user)))
        else if in_Protocol i = ''hysteria''
        then served (proxy_field px_Hysteria user = None) (Some (AHysteria (NewHysteriaAccount user)))
        else if in_Protocol i = ''anytls''
        then served (proxy_field px_Anytls user = None) (Some (AAnyTLS (NewAnyTLSAccount user)))
        else if in_Protocol i = ''tuic''
        then served (proxy_field px_Tuic user = None) (map_option ATuic (NewTuicAccount uuid user))
        else if in_Protocol i = ''naive''
        then served (proxy_field px_Naive user = None) (Some (ANaive (NewNaiveAccount user)))
        else None)"

definition sync_step :: "(string \<Rightarrow> UUID option) \<Rightarrow> (string \<Rightarrow> char list) \<Rightarrow> XInbound \<Rightarrow> UserPtr \<Rightarrow>
    (string \<rightharpoonup> Account) \<Rightarrow> (string \<rightharpoonup> Account)" where
  "sync_step uuid sha256 i user clients =
    (case sync_account uuid sha256 i user of None \<Rightarrow> clients | Some a \<Rightarrow> clients(GetEmail user \<mapsto> a))"

definition in_syncUsers :: "(string \<Rightarrow> UUID option) \<Rightarrow> (string \<Rightarrow> char list) \<Rightarrow> UserPtr list \<Rightarrow> XInbound \<Rightarrow> XInbound" where
  "in_syncUsers uuid sha256 users i = i\<lparr>in_clients := fold (sync_step uuid sha256 i) users Map.empty\<rparr>"

definition in_updateUser :: "(string \<Rightarrow> char list) \<Rightarrow> Account \<Rightarrow> XInbound \<Rightarrow> XInbound" where
  "in_updateUser sha256 account i =
    (let kept = (case account of
                   AShadowsocks a \<Rightarrow>
                     (case setting_text ''method'' i of
                        Some method \<Rightarrow> AShadowsocks (checkShadowsocks2022 sha256 method a)
                      | None \<Rightarrow> account)
                 | _ \<Rightarrow> account)
     in i\<lparr>in_clients := (in_clients i)(account_Email account \<mapsto> kept)\<rparr>)"

text \<open>The account that \<open>updateUsers\<close> keeps: only the type that fits the protocol.\<close>

definition fitting_account :: "(string \<Rightarrow> char list) \<Rightarrow> XInbound \<Rightarrow> Account \<Rightarrow> Account option" where
  "fitting_account sha256 i account =
    (if in_Protocol i = ''vmess'' then (case account of AVmess _ \<Rightarrow> Some account | _ \<Rightarrow> None)
     else if in_Protocol i = ''vless'' then (case account of AVless _ \<Rightarrow> Some account | _ \<Rightarrow> None)
     else if in_Protocol i = ''trojan'' then (case account of ATrojan _ \<Rightarrow> Some account | _ \<Rightarrow> None)
     else if in_Protocol i = ''shadowsocks''
     then (case method_2022 i of
             Some method \<Rightarrow> (case account of
                 AShadowsocks a \<Rightarrow> Some (AShadowsocks (checkShadowsocks2022 sha256 method a)) | _ \<Rightarrow> None)
           | None \<Rightarrow> (case account of AShadowsocksTcp _ \<Rightarrow> Some account | _ \<Rightarrow> None))
     else if in_Protocol i = ''hysteria'' then (case account of AHysteria _ \<Rightarrow> Some account | _ \<Rightarrow> None)
     else if in_Protocol i = ''anytls'' then (case account of AAnyTLS _ \<Rightarrow> Some account | _ \<Rightarrow> None)
     else if in_Protocol i = ''tuic'' then (case account of ATuic _ \<Rightarrow> Some account | _ \<Rightarrow> None)
     else if in_Protocol i = ''naive'' then (case account of ANaive _ \<Rightarrow> Some account | _ \<Rightarrow> None)
     else None)"

definition put_account :: "(string \<Rightarrow> char list) \<Rightarrow> XInbound \<Rightarrow> Account \<Rightarrow> (string \<rightharpoonup> Account) \<Rightarrow> (string \<rightharpoonup> Account)" where
  "put_account sha256 i account clients =
    (case fitting_account sha256 i account of None \<Rightarrow> clients | Some a \<Rightarrow> clients(account_Email account \<mapsto> a))"

definition in_updateUsers :: "(string \<Rightarrow> char list) \<Rightarrow> Account list \<Rightarrow> string list \<Rightarrow> XInbound \<Rightarrow> XInbound" where
  "in_updateUsers sha256 accounts removeEmails i =
    i\<lparr>in_clients := fold map_delete removeEmails (fold (put_account sha256 i) accounts (in_clients i))\<rparr>"

definition in_removeUser :: "string \<Rightarrow> XInbound \<Rightarrow> XInbound" where
  "in_removeUser email i = i\<lparr>in_clients := map_delete email (in_clients i)\<rparr>"

section \<open>Accounts of a configuration\<close>

definition cfg_syncUsers :: "(string \<Rightarrow> UUID option) \<Rightarrow> (string \<Rightarrow> char list) \<Rightarrow> UserPtr list \<Rightarrow> XInbound list \<Rightarrow> XInbound list" where
  "cfg_syncUsers uuid sha256 users cfgs =
    map (\<lambda>i. if in_exclude i then i else in_syncUsers uuid sha256 users i) cfgs"

record inboundUpdate =
  iu_accounts :: "Account list"
  iu_removeEmailSet :: "string set"

fun inboundByTag :: "nat \<Rightarrow> XInbound list \<Rightarrow> (string \<rightharpoonup> nat) \<Rightarrow> (string \<rightharpoonup> nat)" where
  "inboundByTag n [] m = m"
| "inboundByTag n (i # is) m = inboundByTag (Suc n) is (if in_exclude i then m else m(in_Tag i \<mapsto> n))"

definition update_step :: "(string \<Rightarrow> UUID option) \<Rightarrow> (string \<Rightarrow> char list) \<Rightarrow> XInbound \<Rightarrow> UserPtr \<Rightarrow> inboundUpdate \<Rightarrow> inboundUpdate" where
  "update_step uuid sha256 i user upd =
    (case isActiveInbound sha256 i (GetInbounds user) (setupUserAccount uuid user) of
       Some account \<Rightarrow> upd\<lparr>iu_accounts := iu_accounts upd @ [account]\<rparr>
     | None \<Rightarrow> upd\<lparr>iu_removeEmailSet := insert (GetEmail user) (iu_removeEmailSet upd)\<rparr>)"

definition inbound_update :: "(string \<Rightarrow> UUID option) \<Rightarrow> (string \<Rightarrow> char list) \<Rightarrow> UserPtr list \<Rightarrow> XInbound \<Rightarrow> inboundUpdate" where
  "inbound_update uuid sha256 users i =
    fold (update_step uuid sha256 i) users \<lparr>iu_accounts = [], iu_removeEmailSet = {}\<rparr>"

definition buildInboundUpdates :: "(string \<Rightarrow> UUID option) \<Rightarrow> (string \<Rightarrow> char list) \<Rightarrow> UserPtr list \<Rightarrow> XInbound list \<Rightarrow>
    (string \<rightharpoonup> nat) \<times> (string \<rightharpoonup> inboundUpdate)" where
  "buildInboundUpdates uuid sha256 users cfgs =
    (let byTag = inboundByTag 0 cfgs Map.empty
     in (byTag, \<lambda>tag. map_option (\<lambda>n. inbound_update uuid sha256 users (cfgs ! n)) (byTag tag)))"

text \<open>\<open>emails\<close> lists a set of emails and \<open>tags\<close> the tags of the table, each in the order of its loop.\<close>

definition cfg_update_tag :: "(string \<Rightarrow> char list) \<Rightarrow> (string set \<Rightarrow> string list) \<Rightarrow> (string \<rightharpoonup> nat) \<Rightarrow> (string \<rightharpoonup> inboundUpdate) \<Rightarrow>
    string \<Rightarrow> XInbound list \<Rightarrow> XInbound list" where
  "cfg_update_tag sha256 emails byTag updates tag cfgs =
    (case (byTag tag, updates tag) of
       (Some n, Some upd) \<Rightarrow>
         cfgs[n := in_updateUsers sha256 (iu_accounts upd) (emails (iu_removeEmailSet upd)) (cfgs ! n)]
     | _ \<Rightarrow> cfgs)"

definition cfg_updateUsers :: "(string \<Rightarrow> UUID option) \<Rightarrow> (string \<Rightarrow> char list) \<Rightarrow> (string set \<Rightarrow> string list) \<Rightarrow> string list \<Rightarrow>
    UserPtr list \<Rightarrow> XInbound list \<Rightarrow> XInbound list" where
  "cfg_updateUsers uuid sha256 emails tags users cfgs =
    (case buildInboundUpdates uuid sha256 users cfgs of
       (byTag, updates) \<Rightarrow> fold (cfg_update_tag sha256 emails byTag updates) tags cfgs)"

section \<open>The client lists of the core\<close>

definition of_protocol :: "XInbound \<Rightarrow> Account \<Rightarrow> bool" where
  "of_protocol i account =
    (if in_Protocol i = ''vmess'' then (case account of AVmess _ \<Rightarrow> True | _ \<Rightarrow> False)
     else if in_Protocol i = ''vless'' then (case account of AVless _ \<Rightarrow> True | _ \<Rightarrow> False)
     else if in_Protocol i = ''trojan'' then (case account of ATrojan _ \<Rightarrow> True | _ \<Rightarrow> False)
     else if in_Protocol i = ''shadowsocks''
     then (case method_2022 i of
             Some _ \<Rightarrow> (case account of AShadowsocks _ \<Rightarrow> True | _ \<Rightarrow> False)
           | None \<Rightarrow> (case account of AShadowsocksTcp _ \<Rightarrow> True | _ \<Rightarrow> False))
     else if in_Protocol i = ''hysteria'' then (case account of AHysteria _ \<Rightarrow> True | _ \<Rightarrow> False)
     else if in_Protocol i = ''anytls'' then (case account of AAnyTLS _ \<Rightarrow> True | _ \<Rightarrow> False)
     else if in_Protocol i = ''tuic'' then (case account of ATuic _ \<Rightarrow> True | _ \<Rightarrow> False)
     else if in_Protocol i = ''naive'' then (case account of ANaive _ \<Rightarrow> True | _ \<Rightarrow> False)
     else False)"

definition user_protocols :: "string set" where
  "user_protocols = {''vmess'', ''vless'', ''trojan'', ''shadowsocks'', ''hysteria'', ''anytls'', ''tuic'', ''naive''}"

text \<open>\<open>order\<close> is the order of the loop over the accounts of each inbound.\<close>

definition in_ToBytes :: "((string \<rightharpoonup> Account) \<Rightarrow> string list) \<Rightarrow> XInbound \<Rightarrow> XInbound" where
  "in_ToBytes order i =
    (if in_exclude i then i
     else if map_len (in_clients i) = 0 then i\<lparr>in_ClientsOut := Some []\<rparr>
     else if in_Protocol i \<in> user_protocols
     then i\<lparr>in_ClientsOut := Some (filter (of_protocol i) (List.map_filter (in_clients i) (order (in_clients i))))\<rparr>
     else i)"

definition cfg_ToBytes :: "((string \<rightharpoonup> Account) \<Rightarrow> string list) \<Rightarrow> XInbound list \<Rightarrow> XInbound list" where
  "cfg_ToBytes order cfgs = map (in_ToBytes order) cfgs"

section \<open>One reference for both ways of synchronising\<close>

text \<open>What an inbound serves a user: the specification of both code paths.\<close>

definition served_account :: "(string \<Rightarrow> UUID option) \<Rightarrow> (string \<Rightarrow> char list) \<Rightarrow> XInbound \<Rightarrow> UserPtr \<Rightarrow> Account option" where
  "served_account uuid sha256 i user = isActiveInbound sha256 i (GetInbounds user) (setupUserAccount uuid user)"

lemma protocol_cases:
  obtains "p = ''vmess''" | "p = ''vless''" | "p = ''trojan''" | "p = ''shadowsocks''" | "p = ''hysteria''"
  | "p = ''anytls''" | "p = ''tuic''" | "p = ''naive''" | "p \<notin> user_protocols"
proof (cases "p \<in> user_protocols")
  case True
  then show thesis using that by (simp add: user_protocols_def) metis
next
  case False
  then show thesis by (rule that)
qed

lemma no_protocol:
  assumes "in_Protocol i \<notin> user_protocols"
  shows "sync_account uuid sha256 i user = None" "isActiveInbound sha256 i inbounds settings = None"
    "of_protocol i a = False" "fitting_account sha256 i a = None"
  using assms
  by (simp_all add: user_protocols_def sync_account_def isActiveInbound_def of_protocol_def fitting_account_def Let_def)

lemmas account_defs = NewVmessAccount_def NewVlessAccount_def NewTrojanAccount_def NewShadowsocksAccount_def
  NewShadowsocksTcpAccount_def NewHysteriaAccount_def NewAnyTLSAccount_def NewTuicAccount_def NewNaiveAccount_def
  checkShadowsocks2022_def

lemma setup_fields:
  "set_Vmess (setupUserAccount uuid user) = (if proxy_field px_Vmess user = None then None else NewVmessAccount uuid user)"
  "set_Vless (setupUserAccount uuid user) = (if proxy_field px_Vless user = None then None else NewVlessAccount uuid user)"
  "set_Trojan (setupUserAccount uuid user) = (if proxy_field px_Trojan user = None then None else Some (NewTrojanAccount user))"
  "set_Shadowsocks (setupUserAccount uuid user) =
    (if proxy_field px_Shadowsocks user = None then None else Some (NewShadowsocksTcpAccount user))"
  "set_Shadowsocks2022 (setupUserAccount uuid user) =
    (if proxy_field px_Shadowsocks user = None then None else Some (NewShadowsocksAccount user))"
  "set_Hysteria (setupUserAccount uuid user) = (if proxy_field px_Hysteria user = None then None else Some (NewHysteriaAccount user))"
  "set_AnyTLS (setupUserAccount uuid user) = (if proxy_field px_Anytls user = None then None else Some (NewAnyTLSAccount user))"
  "set_Tuic (setupUserAccount uuid user) = (if proxy_field px_Tuic user = None then None else NewTuicAccount uuid user)"
  "set_Naive (setupUserAccount uuid user) = (if proxy_field px_Naive user = None then None else Some (NewNaiveAccount user))"
  by (simp_all add: setupUserAccount_def)

lemma sync_account_served: "sync_account uuid sha256 i user = served_account uuid sha256 i user"
proof (cases "in_Protocol i" rule: protocol_cases)
  case 4
  then show ?thesis
    by (cases "method_2022 i") (simp_all add: served_account_def sync_account_def isActiveInbound_def setup_fields)
next
  case 9
  then show ?thesis by (simp add: served_account_def no_protocol)
qed (simp_all add: served_account_def sync_account_def isActiveInbound_def setup_fields)

lemma account_Email_served:
  assumes "served_account uuid sha256 i user = Some a" shows "account_Email a = GetEmail user"
  using assms unfolding served_account_def
  by (cases "in_Protocol i" rule: protocol_cases; cases "method_2022 i")
    (auto simp: no_protocol isActiveInbound_def setup_fields account_defs Let_def split: option.splits if_splits)

lemma of_protocol_served:
  assumes "served_account uuid sha256 i user = Some a" shows "of_protocol i a \<and> in_Protocol i \<in> user_protocols"
  using assms unfolding served_account_def
  by (cases "in_Protocol i" rule: protocol_cases; cases "method_2022 i")
    (auto simp: no_protocol isActiveInbound_def of_protocol_def user_protocols_def split: if_splits)

end
