(* ===== verification/XrayUsers.thy ===== *)
theory XrayUsers
  imports XrayConfig
begin

text \<open>
  The users of the Xray core, \<open>backend/xray/user.go\<close>, \<open>iplimit.go\<close> and \<open>xray.go\<close>, with the sing-box
  side-car of \<open>backend/singbox/singbox.go\<close>. The running process is a state \<open>'w\<close> that the handler API
  and the start of a process act on; both are parameters. The side-car process is left out: a
  synchronisation only restarts it. \<open>SyncUser\<close> reads a field of the user directly; its callers never
  pass nil.
\<close>

section \<open>The side-car\<close>

record SbInbound =
  sb_Tag :: string
  sb_Protocol :: string
  sb_Listen :: string
  sb_Port :: int
  sb_Users :: "UserPtr list"

definition IsSidecarProtocol :: "string \<Rightarrow> bool" where
  "IsSidecarProtocol protocol \<longleftrightarrow> to_lower (trim_space protocol) \<in> {''anytls'', ''tuic'', ''naive''}"

text \<open>An entry of the user list of a side-car inbound.\<close>

datatype SbUser = SbAnyTLS string string | SbTuic string string string | SbNaive string string

definition sb_user :: "SbInbound \<Rightarrow> UserPtr \<Rightarrow> SbUser option" where
  "sb_user i u =
    (if u = None \<or> sb_Tag i \<notin> set (GetInbounds u) then None
     else if to_lower (sb_Protocol i) = ''anytls''
     then (case proxy_field px_Anytls u of
             None \<Rightarrow> None
           | Some p \<Rightarrow> if at_Password p \<noteq> [] then Some (SbAnyTLS (GetEmail u) (at_Password p)) else None)
     else if to_lower (sb_Protocol i) = ''tuic''
     then map_option (\<lambda>p. SbTuic (GetEmail u) (tu_Id p) (tu_Password p)) (proxy_field px_Tuic u)
     else if to_lower (sb_Protocol i) = ''naive''
     then map_option (\<lambda>p. SbNaive (na_Username p) (na_Password p)) (proxy_field px_Naive u)
     else None)"

record SbEntry =
  se_type :: string
  se_tag :: string
  se_listen :: string
  se_port :: int
  se_users :: "SbUser list"

definition buildConfig :: "SbInbound list \<Rightarrow> SbEntry list" where
  "buildConfig inbounds =
    map (\<lambda>i. \<lparr>se_type = to_lower (sb_Protocol i), se_tag = sb_Tag i,
              se_listen = (if sb_Listen i = [] then ''0.0.0.0'' else sb_Listen i),
              se_port = (if sb_Port i \<le> 0 then 443 else sb_Port i),
              se_users = List.map_filter (sb_user i) (sb_Users i)\<rparr>) inbounds"

text \<open>The side-car after a synchronisation; it restarts on the configuration built from it.\<close>

definition sb_SyncUsers :: "UserPtr list \<Rightarrow> SbInbound list \<Rightarrow> SbInbound list" where
  "sb_SyncUsers users inbounds = map (\<lambda>i. i\<lparr>sb_Users := users\<rparr>) inbounds"

section \<open>State\<close>

record Xray =
  xr_inbounds :: "XInbound list"
  xr_singbox :: "SbInbound list option"
  xr_userLimits :: "string \<rightharpoonup> u32"
  xr_userByEmail :: "string \<rightharpoonup> UserPtr"
  xr_kicked :: "string \<rightharpoonup> gotime"

text \<open>
  What the code calls: the parser of UUIDs and the hash, the handler API of the process (adding
  reports an error, the result of removing is never looked at), start and stop of the process, the
  check that it has come up, the addresses of a user, and the orders of the loops over maps.
\<close>

record 'w XrayEnv =
  xe_uuid :: "string \<Rightarrow> UUID option"
  xe_sha256 :: "string \<Rightarrow> char list"
  xe_Add :: "string \<Rightarrow> Account \<Rightarrow> 'w \<Rightarrow> string option \<times> 'w"
  xe_Remove :: "string \<Rightarrow> string \<Rightarrow> 'w \<Rightarrow> 'w"
  xe_Start :: "XInbound list \<Rightarrow> 'w \<Rightarrow> string option \<times> 'w"
  xe_Stop :: "'w \<Rightarrow> 'w"
  xe_Status :: "'w \<Rightarrow> string option"
  xe_OnlineIps :: "string \<Rightarrow> 'w \<Rightarrow> string + (string \<rightharpoonup> int) option"
  xe_accounts :: "(string \<rightharpoonup> Account) \<Rightarrow> string list"
  xe_emails :: "string set \<Rightarrow> string list"
  xe_tags :: "(string \<rightharpoonup> inboundUpdate) \<Rightarrow> string list"
  xe_users :: "(string \<rightharpoonup> UserPtr) \<Rightarrow> string list"

definition remember_step :: "UserPtr \<Rightarrow> Xray \<Rightarrow> Xray" where
  "remember_step u x =
    (let email = GetEmail u
     in if email = [] then x
        else x\<lparr>xr_userLimits := (xr_userLimits x)(email \<mapsto> GetIpLimit u),
               xr_userByEmail := (xr_userByEmail x)(email \<mapsto> u),
               xr_kicked := map_delete email (xr_kicked x)\<rparr>)"

definition rememberUsers :: "UserPtr list \<Rightarrow> bool \<Rightarrow> Xray \<Rightarrow> Xray" where
  "rememberUsers users replace x =
    fold remember_step users
      (if replace then x\<lparr>xr_userLimits := Map.empty, xr_userByEmail := Map.empty, xr_kicked := Map.empty\<rparr> else x)"

definition syncSingboxUsers :: "'w XrayEnv \<Rightarrow> UserPtr list \<Rightarrow> bool \<Rightarrow> Xray \<Rightarrow> Xray" where
  "syncSingboxUsers env users replaceAll x =
    (case xr_singbox x of
       None \<Rightarrow> x
     | Some sb \<Rightarrow>
         if replaceAll then x\<lparr>xr_singbox := Some (sb_SyncUsers users sb)\<rparr>
         else let known = List.map_filter (xr_userByEmail x) (xe_users env (xr_userByEmail x))
              in x\<lparr>xr_singbox := Some (sb_SyncUsers (if known = [] then users else known) sb)\<rparr>)"

section \<open>Restart\<close>

definition core_Restart :: "'w XrayEnv \<Rightarrow> XInbound list \<Rightarrow> 'w \<Rightarrow> string option \<times> XInbound list \<times> 'w" where
  "core_Restart env cfgs w =
    (let cfgs' = cfg_ToBytes (xe_accounts env) cfgs
     in case xe_Start env cfgs' (xe_Stop env w) of (e, w') \<Rightarrow> (e, cfgs', w'))"

definition xr_Restart :: "'w XrayEnv \<Rightarrow> Xray \<Rightarrow> 'w \<Rightarrow> string option \<times> Xray \<times> 'w" where
  "xr_Restart env x w =
    (case core_Restart env (xr_inbounds x) w of (e, cfgs, w') \<Rightarrow> (e, x\<lparr>xr_inbounds := cfgs\<rparr>, w'))"

section \<open>Synchronisation\<close>

definition sync_inbound :: "'w XrayEnv \<Rightarrow> UserPtr \<Rightarrow> XInbound \<Rightarrow> string \<times> 'w \<Rightarrow> XInbound \<times> string \<times> 'w" where
  "sync_inbound env user i acc =
    (case acc of (msg, w) \<Rightarrow>
      if in_exclude i then (i, msg, w)
      else
        let w1 = xe_Remove env (in_Tag i) (GetEmail user) w
        in case isActiveInbound (xe_sha256 env) i (GetInbounds user) (setupUserAccount (xe_uuid env) user) of
             Some account \<Rightarrow>
               (let i' = in_updateUser (xe_sha256 env) account i
                in case xe_Add env (in_Tag i) (accountForAPI i' account) w1 of
                     (None, w2) \<Rightarrow> (i', msg, w2)
                   | (Some e, w2) \<Rightarrow> (i', msg @ [char_of (10::nat)] @ e, w2))
           | None \<Rightarrow> (in_removeUser (GetEmail user) i, msg, w1))"

fun sync_inbounds :: "'w XrayEnv \<Rightarrow> UserPtr \<Rightarrow> XInbound list \<Rightarrow> string \<times> 'w \<Rightarrow> XInbound list \<times> string \<times> 'w" where
  "sync_inbounds env user [] acc = ([], acc)"
| "sync_inbounds env user (i # is) acc =
    (case sync_inbound env user i acc of (i', acc1) \<Rightarrow>
       case sync_inbounds env user is acc1 of (is', acc2) \<Rightarrow> (i' # is', acc2))"

definition xr_SyncUser :: "'w XrayEnv \<Rightarrow> UserPtr \<Rightarrow> Xray \<Rightarrow> 'w \<Rightarrow> string option \<times> Xray \<times> 'w" where
  "xr_SyncUser env user x w =
    (case sync_inbounds env user (xr_inbounds x) ([], w) of (cfgs, msg, w') \<Rightarrow>
       let x1 = x\<lparr>xr_inbounds := cfgs\<rparr>
       in if msg \<noteq> [] then (Some (''failed to add user:'' @ msg), x1, w')
          else (None, syncSingboxUsers env [user] False (rememberUsers [user] False x1), w'))"

definition restart_with :: "'w XrayEnv \<Rightarrow> UserPtr list \<Rightarrow> Xray \<Rightarrow> 'w \<Rightarrow> string option \<times> Xray \<times> 'w" where
  "restart_with env users x w =
    (case xr_Restart env x w of
       (Some e, x1, w1) \<Rightarrow> (Some e, x1, w1)
     | (None, x1, w1) \<Rightarrow>
         (case xe_Status env w1 of
            Some e \<Rightarrow> (Some e, x1, w1)
          | None \<Rightarrow> (None, syncSingboxUsers env users True (rememberUsers users True x1), w1)))"

definition xr_SyncUsers :: "'w XrayEnv \<Rightarrow> UserPtr list \<Rightarrow> Xray \<Rightarrow> 'w \<Rightarrow> string option \<times> Xray \<times> 'w" where
  "xr_SyncUsers env users x w =
    restart_with env users
      (x\<lparr>xr_inbounds := cfg_syncUsers (xe_uuid env) (xe_sha256 env) users (xr_inbounds x)\<rparr>) w"

definition xr_UpdateUsersAndRestart :: "'w XrayEnv \<Rightarrow> UserPtr list \<Rightarrow> Xray \<Rightarrow> 'w \<Rightarrow> string option \<times> Xray \<times> 'w" where
  "xr_UpdateUsersAndRestart env users x w =
    (let tags = xe_tags env (snd (buildInboundUpdates (xe_uuid env) (xe_sha256 env) users (xr_inbounds x)))
     in restart_with env users
          (x\<lparr>xr_inbounds := cfg_updateUsers (xe_uuid env) (xe_sha256 env) (xe_emails env) tags users (xr_inbounds x)\<rparr>) w)"

definition add_account :: "'w XrayEnv \<Rightarrow> XInbound \<Rightarrow> string \<Rightarrow> Account \<Rightarrow> string \<times> 'w \<Rightarrow> string \<times> 'w" where
  "add_account env i tag account acc =
    (case acc of (msg, w) \<Rightarrow>
      case xe_Add env tag (accountForAPI i account) (xe_Remove env tag (account_Email account) w) of
        (None, w') \<Rightarrow> (msg, w')
      | (Some e, w') \<Rightarrow> (msg @ [char_of (10::nat)] @ e, w'))"

definition update_tag :: "'w XrayEnv \<Rightarrow> (string \<rightharpoonup> nat) \<Rightarrow> (string \<rightharpoonup> inboundUpdate) \<Rightarrow> string \<Rightarrow>
    XInbound list \<times> string \<times> 'w \<Rightarrow> XInbound list \<times> string \<times> 'w" where
  "update_tag env byTag updates tag st =
    (case st of (cfgs, msg, w) \<Rightarrow>
      case (byTag tag, updates tag) of
        (Some n, Some upd) \<Rightarrow>
          (let removeEmails = xe_emails env (iu_removeEmailSet upd);
               i = in_updateUsers (xe_sha256 env) (iu_accounts upd) removeEmails (cfgs ! n);
               w1 = fold (xe_Remove env tag) removeEmails w
           in (cfgs[n := i], fold (add_account env i tag) (iu_accounts upd) (msg, w1)))
      | _ \<Rightarrow> st)"

definition xr_UpdateUsers :: "'w XrayEnv \<Rightarrow> UserPtr list \<Rightarrow> Xray \<Rightarrow> 'w \<Rightarrow> string option \<times> Xray \<times> 'w" where
  "xr_UpdateUsers env users x w =
    (case buildInboundUpdates (xe_uuid env) (xe_sha256 env) users (xr_inbounds x) of (byTag, updates) \<Rightarrow>
       case fold (update_tag env byTag updates) (xe_tags env updates) (xr_inbounds x, [], w) of (cfgs, msg, w') \<Rightarrow>
         let x1 = x\<lparr>xr_inbounds := cfgs\<rparr>
         in if msg \<noteq> [] then (Some (''failed to update users:'' @ msg), x1, w')
            else (None, syncSingboxUsers env users False (rememberUsers users False x1), w'))"

section \<open>Device limits\<close>

abbreviation ipLimitCooldown :: int where
  "ipLimitCooldown \<equiv> 60 * second"

definition disconnectUser :: "'w XrayEnv \<Rightarrow> string \<Rightarrow> Xray \<Rightarrow> 'w \<Rightarrow> 'w" where
  "disconnectUser env email x w =
    fold (\<lambda>i w. if in_exclude i then w else xe_Remove env (in_Tag i) email w) (xr_inbounds x) w"

text \<open>One user of a pass, with the snapshots of the limits, the users and the kicks.\<close>

definition limit_user :: "'w XrayEnv \<Rightarrow> gotime \<Rightarrow> (string \<rightharpoonup> u32) \<Rightarrow> (string \<rightharpoonup> UserPtr) \<Rightarrow> (string \<rightharpoonup> gotime) \<Rightarrow>
    string \<Rightarrow> Xray \<times> 'w \<Rightarrow> Xray \<times> 'w" where
  "limit_user env now limits users kicked email st =
    (case st of (x, w) \<Rightarrow>
      (case kicked email of
         Some kickedAt \<Rightarrow>
           if now - kickedAt < ipLimitCooldown then st
           else (case users email of
                   Some (Some u) \<Rightarrow>
                     (case xr_SyncUser env (Some u) x w of
                        (Some e, x1, w1) \<Rightarrow> (x1, w1)
                      | (None, x1, w1) \<Rightarrow> (x1\<lparr>xr_kicked := map_delete email (xr_kicked x1)\<rparr>, w1))
                 | _ \<Rightarrow> (x\<lparr>xr_kicked := map_delete email (xr_kicked x)\<rparr>, w))
       | None \<Rightarrow>
           if map_get 0 limits email = 0 then st
           else (case xe_OnlineIps env email w of
                   Inr (Some ips) \<Rightarrow>
                     if (of_nat (map_len ips) :: u32) \<le> map_get 0 limits email then st
                     else (x\<lparr>xr_kicked := (xr_kicked x)(email \<mapsto> now)\<rparr>, disconnectUser env email x w)
                 | _ \<Rightarrow> st)))"

definition enforceIpLimitsOnce :: "'w XrayEnv \<Rightarrow> string list \<Rightarrow> gotime \<Rightarrow> Xray \<Rightarrow> 'w \<Rightarrow> Xray \<times> 'w" where
  "enforceIpLimitsOnce env order now x w =
    fold (limit_user env now (xr_userLimits x) (xr_userByEmail x) (xr_kicked x)) order (x, w)"

end
