(* ===== verification/XrayCorrect.thy ===== *)
theory XrayCorrect
  imports XrayUsers
begin

text \<open>
  Correctness of the user operations of the Xray back end: the stored accounts and those of the
  running process after synchronisations, updates, disconnections and restarts.
\<close>

section \<open>The accounts that the code stores\<close>

definition known_methods :: "string set" where
  "known_methods = {''2022-blake3-aes-128-gcm'', ''2022-blake3-aes-256-gcm'', ''2022-blake3-chacha20-poly1305''}"

definition inbound_ok :: "XInbound \<Rightarrow> bool" where
  "inbound_ok i \<longleftrightarrow> (\<forall>m. method_2022 i = Some m \<longrightarrow> m \<in> known_methods)"

lemma check_idem:
  assumes "\<forall>p. length (sha256 p) = 32" "m \<in> known_methods"
  shows "checkShadowsocks2022 sha256 m (checkShadowsocks2022 sha256 m a) = checkShadowsocks2022 sha256 m a"
proof -
  have c: "str_contains ''2022-blake3-aes-128-gcm'' ''aes-128-gcm''" "\<not> str_contains ''2022-blake3-aes-128-gcm'' ''aes-256-gcm''"
    "\<not> str_contains ''2022-blake3-aes-128-gcm'' ''chacha20-poly1305''" "str_contains ''2022-blake3-aes-256-gcm'' ''aes-256-gcm''"
    "\<not> str_contains ''2022-blake3-aes-256-gcm'' ''aes-128-gcm''" "str_contains ''2022-blake3-chacha20-poly1305'' ''chacha20-poly1305''"
    "\<not> str_contains ''2022-blake3-chacha20-poly1305'' ''aes-128-gcm''" by code_simp+
  have "str_contains m ''aes-128-gcm'' \<and> \<not> str_contains m ''aes-256-gcm'' \<and> \<not> str_contains m ''chacha20-poly1305'' \<and> n = 16 \<or>
      \<not> str_contains m ''aes-128-gcm'' \<and> (str_contains m ''aes-256-gcm'' \<or> str_contains m ''chacha20-poly1305'') \<and> n = 32"
    if "n = (if m = ''2022-blake3-aes-128-gcm'' then 16 else 32)" for n :: nat
    using assms(2) c that unfolding known_methods_def by (elim insertE emptyE) (simp_all del: str_contains.simps)
  from EnsureBase64Password_normal [OF assms(1) this [OF refl]] show ?thesis
    by (simp add: checkShadowsocks2022_def)
qed

lemma served_shadowsocks:
  assumes "served_account uuid sha256 i user = Some (AShadowsocks a)"
  shows "\<exists>m a0. method_2022 i = Some m \<and> setting_text ''method'' i = Some m \<and> a = checkShadowsocks2022 sha256 m a0"
proof -
  have m: "method_2022 i = Some m \<Longrightarrow> setting_text ''method'' i = Some m" for m
    by (auto simp: method_2022_def split: option.splits if_splits)
  have "of_protocol i (AShadowsocks a)" using of_protocol_served [OF assms] by simp
  then have "in_Protocol i = ''shadowsocks'' \<and> method_2022 i \<noteq> None"
    by (auto simp: of_protocol_def split: if_splits option.splits)
  with assms m show ?thesis
    by (auto simp: served_account_def isActiveInbound_def split: if_splits)
qed

lemma updateUser_served:
  assumes "\<forall>p. length (sha256 p) = 32" "inbound_ok i" "served_account uuid sha256 i user = Some a"
  shows "in_updateUser sha256 a i = i\<lparr>in_clients := (in_clients i)(GetEmail user \<mapsto> a)\<rparr>"
proof (cases a)
  case (AShadowsocks b)
  then obtain m a0 where "method_2022 i = Some m" "setting_text ''method'' i = Some m" "b = checkShadowsocks2022 sha256 m a0"
    using served_shadowsocks assms(3) by blast
  then show ?thesis
    using AShadowsocks assms check_idem [OF assms(1)] account_Email_served [OF assms(3)]
    by (simp add: in_updateUser_def inbound_ok_def)
qed (use account_Email_served [OF assms(3)] in \<open>simp_all add: in_updateUser_def\<close>)

lemma fitting_served:
  assumes "\<forall>p. length (sha256 p) = 32" "inbound_ok i" "served_account uuid sha256 i user = Some a"
  shows "fitting_account sha256 i a = Some a"
proof -
  have o: "of_protocol i a" using of_protocol_served [OF assms(3)] by simp
  show ?thesis
  proof (cases a)
    case (AShadowsocks b)
    then obtain m a0 where "method_2022 i = Some m" "b = checkShadowsocks2022 sha256 m a0"
      using served_shadowsocks assms(3) by blast
    then show ?thesis
      using AShadowsocks o assms(2) check_idem [OF assms(1)]
      by (auto simp: fitting_account_def of_protocol_def inbound_ok_def split: if_splits)
  qed (use o in \<open>auto simp: fitting_account_def of_protocol_def split: if_splits option.splits\<close>)
qed

section \<open>The running process\<close>

text \<open>
  What the process promises: \<open>running w tag\<close> are the accounts it serves on an inbound. Removing takes
  an account away, adding puts one or fails and changes nothing, and a process that starts on a
  configuration with distinct tags serves the client lists that were written for it.
\<close>

definition process_ok :: "'w XrayEnv \<Rightarrow> ('w \<Rightarrow> string \<Rightarrow> string \<rightharpoonup> Account) \<Rightarrow> bool" where
  "process_ok env running \<longleftrightarrow>
    (\<forall>tag email w. running (xe_Remove env tag email w) = (running w)(tag := map_delete email (running w tag))) \<and>
    (\<forall>tag a w w'. xe_Add env tag a w = (None, w') \<longrightarrow>
       running w' = (running w)(tag := (running w tag)(account_Email a \<mapsto> a))) \<and>
    (\<forall>tag a w e w'. xe_Add env tag a w = (Some e, w') \<longrightarrow> running w' = running w) \<and>
    (\<forall>cfgs w w' i cs. xe_Start env cfgs w = (None, w') \<longrightarrow> distinct (map in_Tag cfgs) \<longrightarrow> i \<in> set cfgs \<longrightarrow>
       in_ClientsOut i = Some cs \<longrightarrow> running w' (in_Tag i) = map_of (map (\<lambda>a. (account_Email a, a)) cs))"

lemma process_okD:
  assumes "process_ok env running"
  shows process_remove: "running (xe_Remove env tag email w) = (running w)(tag := map_delete email (running w tag))"
    and process_add: "xe_Add env tag a w = (None, w') \<Longrightarrow>
      running w' = (running w)(tag := (running w tag)(account_Email a \<mapsto> a))"
    and process_start: "xe_Start env cfgs w = (None, w') \<Longrightarrow> distinct (map in_Tag cfgs) \<Longrightarrow> i \<in> set cfgs \<Longrightarrow>
      in_ClientsOut i = Some cs \<Longrightarrow> running w' (in_Tag i) = map_of (map (\<lambda>a. (account_Email a, a)) cs)"
proof -
  note ok = assms [unfolded process_ok_def]
  show "running (xe_Remove env tag email w) = (running w)(tag := map_delete email (running w tag))"
    using conjunct1 [OF ok] by iprover
  show "xe_Add env tag a w = (None, w') \<Longrightarrow> running w' = (running w)(tag := (running w tag)(account_Email a \<mapsto> a))"
    using conjunct1 [OF conjunct2 [OF ok]] by iprover
  show "xe_Start env cfgs w = (None, w') \<Longrightarrow> distinct (map in_Tag cfgs) \<Longrightarrow> i \<in> set cfgs \<Longrightarrow>
      in_ClientsOut i = Some cs \<Longrightarrow> running w' (in_Tag i) = map_of (map (\<lambda>a. (account_Email a, a)) cs)"
    using conjunct2 [OF conjunct2 [OF conjunct2 [OF ok]]] by iprover
qed

lemma account_Email_API [simp]: "account_Email (accountForAPI i a) = account_Email a"
  by (simp add: accountForAPI_def split: Account.split)

lemma accountForAPI_clients [simp]: "accountForAPI (i\<lparr>in_clients := m\<rparr>) a = accountForAPI i a"
  by (simp add: accountForAPI_def inboundFlow_def setting_text_def split: Account.split)

lemma served_clients [simp]:
  "served_account uuid sha256 (i\<lparr>in_clients := m\<rparr>) u = served_account uuid sha256 i u"
  by (simp add: served_account_def isActiveInbound_def method_2022_def setting_text_def)

section \<open>One user\<close>

text \<open>The accounts of an inbound after the messages of \<open>users\<close>, whose emails are distinct.\<close>

definition user_of :: "UserPtr list \<Rightarrow> string \<Rightarrow> UserPtr option" where
  "user_of users = map_of (map (\<lambda>u. (GetEmail u, u)) users)"

definition stored_after :: "'w XrayEnv \<Rightarrow> UserPtr list \<Rightarrow> XInbound \<Rightarrow> (string \<rightharpoonup> Account)" where
  "stored_after env users i = (\<lambda>e. case user_of users e of
       Some u \<Rightarrow> served_account (xe_uuid env) (xe_sha256 env) i u | None \<Rightarrow> in_clients i e)"

definition running_after :: "'w XrayEnv \<Rightarrow> UserPtr list \<Rightarrow> XInbound \<Rightarrow> (string \<rightharpoonup> Account) \<Rightarrow> (string \<rightharpoonup> Account)" where
  "running_after env users i m = (\<lambda>e. case user_of users e of
       Some u \<Rightarrow> map_option (accountForAPI i) (served_account (xe_uuid env) (xe_sha256 env) i u) | None \<Rightarrow> m e)"

text \<open>Both the stored configuration and the process reflect exactly the messages.\<close>

definition users_applied :: "'w XrayEnv \<Rightarrow> ('w \<Rightarrow> string \<Rightarrow> string \<rightharpoonup> Account) \<Rightarrow> UserPtr list \<Rightarrow> Xray \<Rightarrow> 'w \<Rightarrow> Xray \<Rightarrow> 'w \<Rightarrow> bool" where
  "users_applied env running users x w x' w' \<longleftrightarrow>
    xr_inbounds x' = map (\<lambda>i. if in_exclude i then i else i\<lparr>in_clients := stored_after env users i\<rparr>) (xr_inbounds x) \<and>
    (\<forall>i \<in> set (xr_inbounds x). running w' (in_Tag i) =
       (if in_exclude i then running w (in_Tag i) else running_after env users i (running w (in_Tag i))))"

lemma after_single:
  "stored_after env [u] i = (in_clients i)(GetEmail u := served_account (xe_uuid env) (xe_sha256 env) i u)"
  "running_after env [u] i m = m(GetEmail u := map_option (accountForAPI i) (served_account (xe_uuid env) (xe_sha256 env) i u))"
  by (auto simp: stored_after_def running_after_def user_of_def fun_eq_iff)

definition env_hash_ok :: "'w XrayEnv \<Rightarrow> bool" where
  "env_hash_ok env \<longleftrightarrow> (\<forall>p. length (xe_sha256 env p) = 32)"

definition xray_wf :: "Xray \<Rightarrow> bool" where
  "xray_wf x \<longleftrightarrow> distinct (map in_Tag (xr_inbounds x)) \<and> (\<forall>i \<in> set (xr_inbounds x). inbound_ok i)"

lemma sync_inbound_spec:
  assumes ok: "process_ok env running" "env_hash_ok env" "inbound_ok i"
    and res: "sync_inbound env user i (msg, w) = (i', msg', w')"
  shows "msg' = [] \<Longrightarrow> msg = []"
    and "msg' = [] \<Longrightarrow> i' = (if in_exclude i then i else i\<lparr>in_clients := stored_after env [user] i\<rparr>)"
    and "msg' = [] \<Longrightarrow> running w' = (if in_exclude i then running w
        else (running w)(in_Tag i := running_after env [user] i (running w (in_Tag i))))"
proof -
  let ?sv = "served_account (xe_uuid env) (xe_sha256 env) i user"
  note sha = ok(2) [unfolded env_hash_ok_def]
  have all: "msg' = [] \<longrightarrow> msg = [] \<and> i' = (if in_exclude i then i else i\<lparr>in_clients := stored_after env [user] i\<rparr>) \<and>
      running w' = (if in_exclude i then running w
        else (running w)(in_Tag i := running_after env [user] i (running w (in_Tag i))))"
  proof (cases "in_exclude i")
    case True
    with res show ?thesis by (simp add: sync_inbound_def)
  next
    case False
    let ?w1 = "xe_Remove env (in_Tag i) (GetEmail user) w"
    have r1: "running ?w1 = (running w)(in_Tag i := map_delete (GetEmail user) (running w (in_Tag i)))"
      by (rule process_remove [OF ok(1)])
    show ?thesis
    proof (cases ?sv)
      case None
      then have "i' = in_removeUser (GetEmail user) i" "msg' = msg" "w' = ?w1"
        using res False by (simp_all add: sync_inbound_def served_account_def [symmetric] Let_def)
      then show ?thesis
        using False None r1 by (simp add: after_single in_removeUser_def map_delete_def)
    next
      case (Some a)
      have e: "account_Email a = GetEmail user" by (rule account_Email_served [OF Some])
      obtain er w2 where add: "xe_Add env (in_Tag i) (accountForAPI i a) ?w1 = (er, w2)" by fastforce
      have u: "in_updateUser (xe_sha256 env) a i = i\<lparr>in_clients := (in_clients i)(GetEmail user \<mapsto> a)\<rparr>"
        by (rule updateUser_served [OF sha ok(3) Some])
      show ?thesis
      proof (cases er)
        case None
        then have "i' = i\<lparr>in_clients := (in_clients i)(GetEmail user \<mapsto> a)\<rparr>" "msg' = msg" "w' = w2"
          using res False Some add u by (simp_all add: sync_inbound_def served_account_def [symmetric] Let_def)
        moreover have "running w2 = (running w)(in_Tag i := (running w (in_Tag i))(GetEmail user \<mapsto> accountForAPI i a))"
          using process_add [OF ok(1) add [unfolded None]] r1 e by (simp add: map_delete_def)
        ultimately show ?thesis using False Some by (simp add: after_single)
      next
        case (Some er')
        then have "msg' \<noteq> []"
          using res False \<open>?sv = Some a\<close> add u by (auto simp: sync_inbound_def served_account_def [symmetric] Let_def)
        then show ?thesis by simp
      qed
    qed
  qed
  then show "msg' = [] \<Longrightarrow> msg = []"
    "msg' = [] \<Longrightarrow> i' = (if in_exclude i then i else i\<lparr>in_clients := stored_after env [user] i\<rparr>)"
    "msg' = [] \<Longrightarrow> running w' = (if in_exclude i then running w
        else (running w)(in_Tag i := running_after env [user] i (running w (in_Tag i))))"
    by simp_all
qed

definition tag_after :: "'w XrayEnv \<Rightarrow> UserPtr list \<Rightarrow> XInbound \<Rightarrow> (string \<rightharpoonup> Account) \<Rightarrow> (string \<rightharpoonup> Account)" where
  "tag_after env users i m = (if in_exclude i then m else running_after env users i m)"

lemma sync_inbounds_spec:
  assumes ok: "process_ok env running" "env_hash_ok env"
    and "\<forall>i \<in> set is. inbound_ok i" "distinct (map in_Tag is)"
    and "sync_inbounds env user is (msg, w) = (is', msg', w')" "msg' = []"
  shows "msg = [] \<and> is' = map (\<lambda>i. if in_exclude i then i else i\<lparr>in_clients := stored_after env [user] i\<rparr>) is \<and>
    (\<forall>i \<in> set is. running w' (in_Tag i) = tag_after env [user] i (running w (in_Tag i))) \<and>
    (\<forall>tag. tag \<notin> in_Tag ` set is \<longrightarrow> running w' tag = running w tag)"
  using assms(3-)
proof (induction "is" arbitrary: msg w is')
  case Nil
  then show ?case by simp
next
  case (Cons i "is")
  obtain i1 msg1 w1 where s1: "sync_inbound env user i (msg, w) = (i1, msg1, w1)" by (metis prod_cases3)
  obtain is1 where s2: "sync_inbounds env user is (msg1, w1) = (is1, msg', w')" and is': "is' = i1 # is1"
    using Cons.prems(3) s1 by (auto split: prod.splits)
  have prems: "\<forall>i \<in> set is. inbound_ok i" "distinct (map in_Tag is)" using Cons.prems by simp_all
  from Cons.IH [OF prems s2 Cons.prems(4)]
  have IH: "msg1 = []" "is1 = map (\<lambda>i. if in_exclude i then i else i\<lparr>in_clients := stored_after env [user] i\<rparr>) is"
    "\<And>i. i \<in> set is \<Longrightarrow> running w' (in_Tag i) = tag_after env [user] i (running w1 (in_Tag i))"
    "\<And>tag. tag \<notin> in_Tag ` set is \<Longrightarrow> running w' tag = running w1 tag" by simp_all
  have iok: "inbound_ok i" using Cons.prems(1) by simp
  have fresh: "in_Tag i \<notin> in_Tag ` set is" using Cons.prems(2) by simp
  note s = sync_inbound_spec [OF ok iok s1, OF IH(1)]
  have r1: "running w1 = (running w)(in_Tag i := tag_after env [user] i (running w (in_Tag i)))"
    using s(3) by (auto simp: tag_after_def)
  have "running w' (in_Tag i) = tag_after env [user] i (running w (in_Tag i))"
    using IH(4) [OF fresh] r1 by simp
  moreover have "running w' (in_Tag j) = tag_after env [user] j (running w (in_Tag j))" if "j \<in> set is" for j
  proof -
    have "in_Tag j \<noteq> in_Tag i" using that fresh by (metis image_eqI)
    then show ?thesis using IH(3) [OF that] r1 by simp
  qed
  moreover have "running w' tag = running w tag" if "tag \<notin> in_Tag ` set (i # is)" for tag
    using IH(4) [of tag] that r1 by auto
  ultimately show ?case using s(1,2) IH(2) is' by simp
qed

lemma remember_inbounds [simp]: "xr_inbounds (rememberUsers users replace x) = xr_inbounds x"
proof -
  have "xr_inbounds (fold remember_step users y) = xr_inbounds y" for y
    by (induction users arbitrary: y) (simp_all add: remember_step_def Let_def)
  then show ?thesis by (simp add: rememberUsers_def)
qed

lemma singbox_inbounds [simp]: "xr_inbounds (syncSingboxUsers env users all x) = xr_inbounds x"
  by (simp add: syncSingboxUsers_def Let_def split: option.split)

lemma SyncUser_applied:
  assumes ok: "process_ok env running" "env_hash_ok env" and wf: "xray_wf x"
    and res: "xr_SyncUser env user x w = (None, x', w')"
  shows "users_applied env running [user] x w x' w'"
proof -
  obtain cfgs msg w1 where s: "sync_inbounds env user (xr_inbounds x) ([], w) = (cfgs, msg, w1)" by (metis prod_cases3)
  then have m: "msg = []" "w' = w1" "xr_inbounds x' = cfgs"
    using res by (auto simp: xr_SyncUser_def Let_def split: if_splits)
  have w: "\<forall>i \<in> set (xr_inbounds x). inbound_ok i" "distinct (map in_Tag (xr_inbounds x))"
    using wf by (simp_all add: xray_wf_def)
  show ?thesis
    using sync_inbounds_spec [OF ok w s m(1)] m by (simp add: users_applied_def tag_after_def)
qed

section \<open>Many users\<close>

lemma inbound_update_fields:
  "iu_accounts (fold (update_step uuid sha256 i) users upd) =
    iu_accounts upd @ List.map_filter (served_account uuid sha256 i) users"
  "iu_removeEmailSet (fold (update_step uuid sha256 i) users upd) =
    iu_removeEmailSet upd \<union> {GetEmail u | u. u \<in> set users \<and> served_account uuid sha256 i u = None}"
  by (induction users arbitrary: upd)
    (auto simp: update_step_def served_account_def [symmetric] map_filter_simps split: option.splits)

lemma user_of_Some:
  "distinct (map GetEmail users) \<Longrightarrow> user_of users e = Some u \<longleftrightarrow> u \<in> set users \<and> GetEmail u = e"
  unfolding user_of_def by (subst map_of_eq_Some_iff) (auto simp: comp_def)

lemma user_of_None: "user_of users e = None \<longleftrightarrow> e \<notin> GetEmail ` set users"
  by (simp add: user_of_def map_of_eq_None_iff image_image)

text \<open>Entering accounts of distinct emails one after the other.\<close>

lemma fold_put:
  assumes "distinct (map GetEmail users)" and "\<And>u a. f u = Some a \<Longrightarrow> account_Email a = GetEmail u"
    and "\<And>u a m. u \<in> set users \<Longrightarrow> f u = Some a \<Longrightarrow> put a m = m(GetEmail u \<mapsto> g a)"
  shows "fold put (List.map_filter f users) m =
    (\<lambda>e. case user_of users e of
       Some u \<Rightarrow> (case f u of Some a \<Rightarrow> Some (g a) | None \<Rightarrow> m e) | None \<Rightarrow> m e)"
  using assms(1,3)
proof (induction users arbitrary: m)
  case Nil
  then show ?case by (simp add: user_of_def map_filter_simps)
next
  case (Cons u users)
  have new: "user_of users (GetEmail u) = None" using Cons.prems(1) by (simp add: user_of_None)
  have IH: "fold put (List.map_filter f users) m' =
      (\<lambda>e. case user_of users e of Some u \<Rightarrow> (case f u of Some a \<Rightarrow> Some (g a) | None \<Rightarrow> m' e) | None \<Rightarrow> m' e)" for m'
    using Cons.IH Cons.prems by simp
  have u: "user_of (u # users) e = (if e = GetEmail u then Some u else user_of users e)" for e
    by (simp add: user_of_def)
  show ?case
  proof (cases "f u")
    case None
    then show ?thesis using new by (auto simp: map_filter_simps IH u fun_eq_iff)
  next
    case (Some a)
    then have "put a m = m(GetEmail u \<mapsto> g a)" by (intro Cons.prems(2)) simp_all
    then have f: "fold put (List.map_filter f (u # users)) m = fold put (List.map_filter f users) (m(GetEmail u \<mapsto> g a))"
      using Some by (simp add: map_filter_simps)
    show ?thesis
    proof (rule ext)
      fix e
      show "fold put (List.map_filter f (u # users)) m e = (case user_of (u # users) e of
          Some u \<Rightarrow> (case f u of Some a \<Rightarrow> Some (g a) | None \<Rightarrow> m e) | None \<Rightarrow> m e)"
        unfolding f IH using new Some by (cases "e = GetEmail u") (simp_all add: u split: option.split)
    qed
  qed
qed

lemma fold_map_delete: "fold map_delete es m = (\<lambda>e. if e \<in> set es then None else m e)"
  by (induction es arbitrary: m) (auto simp: fun_eq_iff)

lemma updateUsers_stored:
  assumes "env_hash_ok env" "inbound_ok i" "distinct (map GetEmail users)"
    and "\<forall>S. finite S \<longrightarrow> set (xe_emails env S) = S"
    and "upd = inbound_update (xe_uuid env) (xe_sha256 env) users i"
  shows "in_updateUsers (xe_sha256 env) (iu_accounts upd) (xe_emails env (iu_removeEmailSet upd)) i =
    i\<lparr>in_clients := stored_after env users i\<rparr>"
proof -
  let ?f = "served_account (xe_uuid env) (xe_sha256 env) i"
  have acc: "iu_accounts upd = List.map_filter ?f users"
    and rem: "iu_removeEmailSet upd = {GetEmail u | u. u \<in> set users \<and> ?f u = None}"
    by (simp_all add: assms(5) inbound_update_def inbound_update_fields)
  have "finite (iu_removeEmailSet upd)" unfolding rem by simp
  then have es: "set (xe_emails env (iu_removeEmailSet upd)) = iu_removeEmailSet upd" using assms(4) by simp
  have put: "fold (put_account (xe_sha256 env) i) (List.map_filter ?f users) (in_clients i) =
      (\<lambda>e. case user_of users e of
         Some u \<Rightarrow> (case ?f u of Some a \<Rightarrow> Some a | None \<Rightarrow> in_clients i e) | None \<Rightarrow> in_clients i e)"
  proof (rule fold_put [OF assms(3) account_Email_served, where g = "\<lambda>a. a"])
    fix u a m assume "?f u = Some a"
    then show "put_account (xe_sha256 env) i a m = m(GetEmail u \<mapsto> a)"
      using fitting_served assms(1,2) account_Email_served by (simp add: put_account_def env_hash_ok_def)
  qed
  have "fold map_delete (xe_emails env (iu_removeEmailSet upd))
      (fold (put_account (xe_sha256 env) i) (iu_accounts upd) (in_clients i)) = stored_after env users i"
  proof (rule ext)
    fix e
    have "e \<in> iu_removeEmailSet upd \<longleftrightarrow> (\<exists>u. user_of users e = Some u \<and> ?f u = None)"
      unfolding rem using user_of_Some [OF assms(3)] by auto
    then show "fold map_delete (xe_emails env (iu_removeEmailSet upd))
        (fold (put_account (xe_sha256 env) i) (iu_accounts upd) (in_clients i)) e = stored_after env users i e"
      unfolding fold_map_delete acc put es stored_after_def by (auto split: option.split)
  qed
  then show ?thesis by (simp add: in_updateUsers_def)
qed

text \<open>Adding the accounts of an inbound through the handler.\<close>

lemma add_account_msg: "fst (add_account env i tag a (msg, w)) = [] \<Longrightarrow> msg = []"
  by (auto simp: add_account_def split: prod.splits option.splits)

lemma add_accounts_msg: "fst (fold (add_account env i tag) as (msg, w)) = [] \<Longrightarrow> msg = []"
proof (induction as arbitrary: msg w)
  case (Cons a as)
  obtain m1 w1 where 1: "add_account env i tag a (msg, w) = (m1, w1)" by fastforce
  then have "m1 = []" using Cons.IH [of m1 w1] Cons.prems by simp
  with 1 show ?case using add_account_msg [of env i tag a msg w] by simp
qed simp

definition put_running :: "XInbound \<Rightarrow> Account \<Rightarrow> (string \<rightharpoonup> Account) \<Rightarrow> (string \<rightharpoonup> Account)" where
  "put_running i a m = m(account_Email a \<mapsto> accountForAPI i a)"

lemma add_accounts_run:
  assumes "process_ok env running" "fst (fold (add_account env i tag) as (msg, w)) = []"
  shows "running (snd (fold (add_account env i tag) as (msg, w))) =
    (running w)(tag := fold (put_running i) as (running w tag))"
  using assms(2)
proof (induction as arbitrary: msg w)
  case (Cons a as)
  obtain m1 w1 where 1: "add_account env i tag a (msg, w) = (m1, w1)" by fastforce
  then have m1: "m1 = []" using add_accounts_msg [of env i tag as m1 w1] Cons.prems by simp
  let ?w0 = "xe_Remove env tag (account_Email a) w"
  obtain er w2 where add: "xe_Add env tag (accountForAPI i a) ?w0 = (er, w2)" by fastforce
  with 1 m1 have "er = None" "w1 = w2" by (auto simp: add_account_def split: option.splits)
  then have "running w1 = (running w)(tag := put_running i a (running w tag))"
    using process_add [OF assms(1), of tag "accountForAPI i a" ?w0 w1] add process_remove [OF assms(1)]
    by (simp add: map_delete_def put_running_def)
  then show ?case using Cons.IH [of m1 w1] Cons.prems 1 by (simp del: fun_upd_apply add: fun_upd_same)
qed simp

lemma remove_run:
  assumes "process_ok env running"
  shows "running (fold (xe_Remove env tag) es w) = (running w)(tag := fold map_delete es (running w tag))"
proof (induction es arbitrary: w)
  case (Cons e es)
  then show ?case using process_remove [OF assms, of tag e w] by (simp del: fun_upd_apply map_delete_apply add: fun_upd_same)
qed simp

lemma updateUsers_running:
  assumes "distinct (map GetEmail users)" and "\<forall>S. finite S \<longrightarrow> set (xe_emails env S) = S"
    and "upd = inbound_update (xe_uuid env) (xe_sha256 env) users i"
  shows "fold (put_running i) (iu_accounts upd) (fold map_delete (xe_emails env (iu_removeEmailSet upd)) m) =
    running_after env users i m"
proof -
  let ?f = "served_account (xe_uuid env) (xe_sha256 env) i"
  let ?m = "fold map_delete (xe_emails env (iu_removeEmailSet upd)) m"
  have acc: "iu_accounts upd = List.map_filter ?f users"
    and rem: "iu_removeEmailSet upd = {GetEmail u | u. u \<in> set users \<and> ?f u = None}"
    by (simp_all add: assms(3) inbound_update_def inbound_update_fields)
  have "finite (iu_removeEmailSet upd)" unfolding rem by simp
  then have es: "set (xe_emails env (iu_removeEmailSet upd)) = iu_removeEmailSet upd" using assms(2) by simp
  have put: "fold (put_running i) (List.map_filter ?f users) ?m =
      (\<lambda>e. case user_of users e of
         Some u \<Rightarrow> (case ?f u of Some a \<Rightarrow> Some (accountForAPI i a) | None \<Rightarrow> ?m e) | None \<Rightarrow> ?m e)"
  proof (rule fold_put [OF assms(1) account_Email_served])
    fix u a m assume "?f u = Some a"
    then show "put_running i a m = m(GetEmail u \<mapsto> accountForAPI i a)"
      using account_Email_served by (simp add: put_running_def)
  qed
  show ?thesis
  proof (rule ext)
    fix e
    have "e \<in> iu_removeEmailSet upd \<longleftrightarrow> (\<exists>u. user_of users e = Some u \<and> ?f u = None)"
      unfolding rem using user_of_Some [OF assms(1)] by auto
    then show "fold (put_running i) (iu_accounts upd) ?m e = running_after env users i m e"
      unfolding acc put unfolding fold_map_delete es running_after_def by (auto split: option.split)
  qed
qed

lemma inboundByTag_iff:
  assumes "distinct (map in_Tag is)"
  shows "inboundByTag k is m tag = Some n \<longleftrightarrow>
    (\<exists>j<length is. n = k + j \<and> in_Tag (is ! j) = tag \<and> \<not> in_exclude (is ! j)) \<or>
    (m tag = Some n \<and> (\<forall>j<length is. in_Tag (is ! j) = tag \<longrightarrow> in_exclude (is ! j)))"
  using assms
proof (induction "is" arbitrary: k m)
  case Nil
  then show ?case by simp
next
  case (Cons i "is")
  have other: "in_Tag (is ! j) \<noteq> in_Tag i" if "j < length is" for j
    using Cons.prems that by (metis distinct.simps(2) length_map list.simps(9) nth_map nth_mem)
  have IH: "inboundByTag (Suc k) is m' tag = Some n \<longleftrightarrow>
    (\<exists>j<length is. n = Suc k + j \<and> in_Tag (is ! j) = tag \<and> \<not> in_exclude (is ! j)) \<or>
    (m' tag = Some n \<and> (\<forall>j<length is. in_Tag (is ! j) = tag \<longrightarrow> in_exclude (is ! j)))" for m'
    using Cons.IH [of "Suc k" m'] Cons.prems by simp
  show ?case
    using other by (auto simp: IH All_less_Suc2 Ex_less_Suc2)
qed

lemma byTag_iff:
  assumes "distinct (map in_Tag cfgs)"
  shows "inboundByTag 0 cfgs Map.empty tag = Some n \<longleftrightarrow>
    n < length cfgs \<and> in_Tag (cfgs ! n) = tag \<and> \<not> in_exclude (cfgs ! n)"
  using inboundByTag_iff [OF assms, of 0 Map.empty tag n] by auto

definition orders_ok :: "'w XrayEnv \<Rightarrow> bool" where
  "orders_ok env \<longleftrightarrow> (\<forall>m. finite (dom m) \<longrightarrow> enumerates (xe_accounts env m) m) \<and>
    (\<forall>S. finite S \<longrightarrow> set (xe_emails env S) = S) \<and> (\<forall>m. finite (dom m) \<longrightarrow> enumerates (xe_tags env m) m)"

text \<open>What an update stores in an inbound and what it leaves running, for any list of users.\<close>

definition upd_stored :: "'w XrayEnv \<Rightarrow> UserPtr list \<Rightarrow> XInbound \<Rightarrow> (string \<rightharpoonup> Account)" where
  "upd_stored env users i =
    (let upd = inbound_update (xe_uuid env) (xe_sha256 env) users i
     in in_clients (in_updateUsers (xe_sha256 env) (iu_accounts upd) (xe_emails env (iu_removeEmailSet upd)) i))"

definition upd_running :: "'w XrayEnv \<Rightarrow> UserPtr list \<Rightarrow> XInbound \<Rightarrow> (string \<rightharpoonup> Account) \<Rightarrow> (string \<rightharpoonup> Account)" where
  "upd_running env users i m =
    (let upd = inbound_update (xe_uuid env) (xe_sha256 env) users i
     in fold (put_running i) (iu_accounts upd) (fold map_delete (xe_emails env (iu_removeEmailSet upd)) m))"

lemma in_updateUsers_upd:
  assumes "upd = inbound_update (xe_uuid env) (xe_sha256 env) users i"
  shows "in_updateUsers (xe_sha256 env) (iu_accounts upd) (xe_emails env (iu_removeEmailSet upd)) i =
    i\<lparr>in_clients := upd_stored env users i\<rparr>"
  by (simp add: upd_stored_def in_updateUsers_def assms Let_def)

definition tag_done :: "'w XrayEnv \<Rightarrow> UserPtr list \<Rightarrow> string set \<Rightarrow> XInbound \<Rightarrow> XInbound" where
  "tag_done env users ts i =
    (if \<not> in_exclude i \<and> in_Tag i \<in> ts then i\<lparr>in_clients := upd_stored env users i\<rparr> else i)"

lemma update_tag_step:
  assumes ok: "process_ok env running" and cfgs: "distinct (map in_Tag cfgs)"
    and t: "t \<notin> set ts" "inboundByTag 0 cfgs Map.empty t = Some n"
    and upd: "updates t = Some (inbound_update (xe_uuid env) (xe_sha256 env) users (cfgs ! n))"
    and st: "update_tag env (inboundByTag 0 cfgs Map.empty) updates t (map (tag_done env users (set ts)) cfgs, msg, w) =
      (cfgs', msg', w')" and fin: "msg' = []"
  shows "msg = [] \<and> cfgs' = map (tag_done env users (set (ts @ [t]))) cfgs \<and>
    running w' = (running w)(t := upd_running env users (cfgs ! n) (running w t))"
proof -
  let ?i = "cfgs ! n" and ?cs = "map (tag_done env users (set ts)) cfgs"
  let ?upd = "inbound_update (xe_uuid env) (xe_sha256 env) users ?i"
  let ?es = "xe_emails env (iu_removeEmailSet ?upd)"
  have n: "n < length cfgs" "in_Tag ?i = t" "\<not> in_exclude ?i" using t(2) byTag_iff [OF cfgs] by auto
  have cur: "?cs ! n = ?i" using n t(1) by (simp add: tag_done_def)
  have stored: "in_updateUsers (xe_sha256 env) (iu_accounts ?upd) ?es ?i = ?i\<lparr>in_clients := upd_stored env users ?i\<rparr>"
    by (rule in_updateUsers_upd [OF refl])
  let ?i' = "?i\<lparr>in_clients := upd_stored env users ?i\<rparr>" and ?w1 = "fold (xe_Remove env t) ?es w"
  have r: "cfgs' = ?cs[n := ?i']" "(msg', w') = fold (add_account env ?i' t) (iu_accounts ?upd) (msg, ?w1)"
    using st t(2) upd cur stored by (auto simp: update_tag_def Let_def split: prod.splits)
  have m: "fst (fold (add_account env ?i' t) (iu_accounts ?upd) (msg, ?w1)) = []" using r(2) fin by (metis fst_conv)
  have "running w' = (running ?w1)(t := fold (put_running ?i') (iu_accounts ?upd) (running ?w1 t))"
    using add_accounts_run [OF ok m] r(2) by (metis snd_conv)
  moreover have "put_running ?i' = put_running ?i" by (simp add: put_running_def fun_eq_iff)
  ultimately have "running w' = (running w)(t := fold (put_running ?i) (iu_accounts ?upd) (fold map_delete ?es (running w t)))"
    using remove_run [OF ok, of t ?es w] by (simp del: fun_upd_apply add: fun_upd_same)
  then have run: "running w' = (running w)(t := upd_running env users ?i (running w t))"
    by (simp add: upd_running_def Let_def)
  have "?cs[n := ?i'] = map (tag_done env users (set (ts @ [t]))) cfgs"
  proof (rule nth_equalityI)
    fix j assume "j < length (?cs[n := ?i'])"
    then have j: "j < length cfgs" by simp
    show "?cs[n := ?i'] ! j = map (tag_done env users (set (ts @ [t]))) cfgs ! j"
    proof (cases "j = n")
      case True
      then show ?thesis using n by (simp add: tag_done_def)
    next
      case False
      then have "in_Tag (cfgs ! j) \<noteq> t"
        using nth_eq_iff_index_eq [OF cfgs, of j n] j n by simp
      then show ?thesis using False j by (simp add: tag_done_def)
    qed
  qed simp
  then show ?thesis using run r(1) add_accounts_msg [OF m] by simp
qed

lemma update_tag_msg:
  assumes "update_tag env byTag updates t (cs, m, w) = (cs', m', w')" "m' = []" shows "m = []"
proof (cases "byTag t = None \<or> updates t = None")
  case True
  with assms show ?thesis by (auto simp: update_tag_def split: option.splits)
next
  case False
  then obtain n upd where nu: "byTag t = Some n" "updates t = Some upd" by auto
  let ?es = "xe_emails env (iu_removeEmailSet upd)"
  let ?i = "in_updateUsers (xe_sha256 env) (iu_accounts upd) ?es (cs ! n)"
  have "fold (add_account env ?i t) (iu_accounts upd) (m, fold (xe_Remove env t) ?es w) = (m', w')"
    using assms(1) nu by (simp add: update_tag_def Let_def)
  then show ?thesis
    using add_accounts_msg [of env ?i t "iu_accounts upd" m "fold (xe_Remove env t) ?es w"] assms(2) by simp
qed

lemma update_tags_spec:
  assumes ok: "process_ok env running" and cfgs: "distinct (map in_Tag cfgs)"
    and b: "buildInboundUpdates (xe_uuid env) (xe_sha256 env) users cfgs = (byTag, updates)"
    and "distinct ts" "set ts \<subseteq> dom updates"
    and "fold (update_tag env byTag updates) ts (cfgs, [], w) = (cfgs', msg', w')" "msg' = []"
  shows "cfgs' = map (tag_done env users (set ts)) cfgs \<and>
    (\<forall>i \<in> set cfgs. running w' (in_Tag i) =
      (if \<not> in_exclude i \<and> in_Tag i \<in> set ts then upd_running env users i (running w (in_Tag i)) else running w (in_Tag i)))"
  using assms(4-)
proof (induction ts arbitrary: cfgs' msg' w' rule: rev_induct)
  case Nil
  then show ?case by (simp add: tag_done_def)
next
  case (snoc t ts)
  have bt: "byTag = inboundByTag 0 cfgs Map.empty"
      "updates = (\<lambda>tag. map_option (\<lambda>n. inbound_update (xe_uuid env) (xe_sha256 env) users (cfgs ! n)) (byTag tag))"
    using b by (auto simp: buildInboundUpdates_def Let_def)
  obtain n where n: "inboundByTag 0 cfgs Map.empty t = Some n" using snoc.prems(2) by (auto simp: bt)
  have upd: "updates t = Some (inbound_update (xe_uuid env) (xe_sha256 env) users (cfgs ! n))" using n by (simp add: bt)
  obtain cs m1 w1 where f: "fold (update_tag env byTag updates) ts (cfgs, [], w) = (cs, m1, w1)" by (metis prod_cases3)
  have st: "update_tag env byTag updates t (cs, m1, w1) = (cfgs', msg', w')" using snoc.prems(3) f by simp
  have t: "t \<notin> set ts" "distinct ts" "set ts \<subseteq> dom updates" using snoc.prems(1,2) by auto
  have m1: "m1 = []" by (rule update_tag_msg [OF st snoc.prems(4)])
  note IH = snoc.IH [OF t(2,3) f m1]
  note step = update_tag_step [where updates = updates and t = t and n = n, OF ok cfgs t(1) n upd, folded bt(1),
      of m1 w1 cfgs' msg' w', OF _ snoc.prems(4)]
  have s: "cfgs' = map (tag_done env users (set (ts @ [t]))) cfgs"
      "running w' = (running w1)(t := upd_running env users (cfgs ! n) (running w1 t))"
    using step st IH by simp_all
  have nt: "n < length cfgs" "in_Tag (cfgs ! n) = t" "\<not> in_exclude (cfgs ! n)" using n byTag_iff [OF cfgs] by auto
  have "running w' (in_Tag i) = (if \<not> in_exclude i \<and> in_Tag i \<in> set (ts @ [t])
      then upd_running env users i (running w (in_Tag i)) else running w (in_Tag i))" if i: "i \<in> set cfgs" for i
  proof (cases "in_Tag i = t")
    case True
    obtain j where j: "j < length cfgs" "i = cfgs ! j" using i by (metis in_set_conv_nth)
    have "j = n" using nth_eq_iff_index_eq [OF cfgs, of j n] j True nt by simp
    moreover have "running w1 t = running w t" using IH i True t(1) by auto
    ultimately show ?thesis using s(2) True nt j by simp
  next
    case False
    then show ?thesis using s(2) IH i by simp
  qed
  with s(1) show ?case by blast
qed

lemma UpdateUsers_general:
  assumes ok: "process_ok env running" "orders_ok env" and w: "distinct (map in_Tag (xr_inbounds x))"
    and res: "xr_UpdateUsers env users x w = (None, x', w')"
  shows "xr_inbounds x' = map (\<lambda>i. if in_exclude i then i else i\<lparr>in_clients := upd_stored env users i\<rparr>) (xr_inbounds x) \<and>
    (\<forall>i \<in> set (xr_inbounds x). running w' (in_Tag i) =
       (if in_exclude i then running w (in_Tag i) else upd_running env users i (running w (in_Tag i))))"
proof -
  let ?cfgs = "xr_inbounds x"
  obtain byTag updates where b: "buildInboundUpdates (xe_uuid env) (xe_sha256 env) users ?cfgs = (byTag, updates)" by fastforce
  obtain cs msg w1 where f: "fold (update_tag env byTag updates) (xe_tags env updates) (?cfgs, [], w) = (cs, msg, w1)"
    by (metis prod_cases3)
  have m: "msg = []" "w' = w1" "xr_inbounds x' = cs"
    using res b f by (auto simp: xr_UpdateUsers_def Let_def split: if_splits)
  have bt: "byTag = inboundByTag 0 ?cfgs Map.empty"
      "updates = (\<lambda>tag. map_option (\<lambda>n. inbound_update (xe_uuid env) (xe_sha256 env) users (?cfgs ! n)) (byTag tag))"
    using b by (auto simp: buildInboundUpdates_def Let_def)
  have dom: "tag \<in> dom updates \<longleftrightarrow> (\<exists>i \<in> set ?cfgs. \<not> in_exclude i \<and> in_Tag i = tag)" for tag
  proof -
    have "tag \<in> dom updates \<longleftrightarrow> (\<exists>n. inboundByTag 0 ?cfgs Map.empty tag = Some n)" by (auto simp: bt)
    then show ?thesis unfolding byTag_iff [OF w] by (metis in_set_conv_nth)
  qed
  then have "dom updates \<subseteq> in_Tag ` set ?cfgs" by (metis image_eqI subsetI)
  then have "finite (dom updates)" by (rule finite_subset) simp
  then have ts: "distinct (xe_tags env updates)" "set (xe_tags env updates) = dom updates"
    using ok(2) by (simp_all add: orders_ok_def enumerates_def)
  note spec = update_tags_spec [OF ok(1) w b ts(1) _ f m(1)]
  have "cs = map (\<lambda>i. if in_exclude i then i else i\<lparr>in_clients := upd_stored env users i\<rparr>) ?cfgs"
    using spec dom ts(2) by (auto simp: tag_done_def)
  moreover have "running w1 (in_Tag i) = (if in_exclude i then running w (in_Tag i)
      else upd_running env users i (running w (in_Tag i)))" if "i \<in> set ?cfgs" for i
    using spec dom ts(2) that by auto
  ultimately show ?thesis using m by simp
qed

lemma UpdateUsers_applied:
  assumes ok: "process_ok env running" "env_hash_ok env" "orders_ok env" and wf: "xray_wf x"
    and us: "distinct (map GetEmail users)" and res: "xr_UpdateUsers env users x w = (None, x', w')"
  shows "users_applied env running users x w x' w'"
proof -
  have es: "\<forall>S. finite S \<longrightarrow> set (xe_emails env S) = S" using ok(3) by (simp add: orders_ok_def)
  have "upd_stored env users i = stored_after env users i" if "i \<in> set (xr_inbounds x)" for i
    using updateUsers_stored [OF ok(2) _ us es refl, of i] that wf by (simp add: upd_stored_def xray_wf_def Let_def)
  moreover have "upd_running env users i m = running_after env users i m" for i m
    using updateUsers_running [OF us es refl] by (simp add: upd_running_def Let_def)
  ultimately show ?thesis
    using UpdateUsers_general [OF ok(1,3) _ res] wf by (simp add: users_applied_def xray_wf_def)
qed

section \<open>One by one or in one batch\<close>

lemma users_applied_append:
  assumes a: "users_applied env running us x w x1 w1" and b: "users_applied env running [u] x1 w1 x2 w2"
    and new: "GetEmail u \<notin> GetEmail ` set us"
  shows "users_applied env running (us @ [u]) x w x2 w2"
proof -
  have uo: "user_of (us @ [u]) e = (if e = GetEmail u then Some u else user_of us e)" for e
    using new user_of_None [of us "GetEmail u"]
    by (auto simp: user_of_def map_add_def split: option.splits)
  have st: "(stored_after env us i)(GetEmail u := served_account (xe_uuid env) (xe_sha256 env) i u) = stored_after env (us @ [u]) i"
    for i by (auto simp: stored_after_def uo fun_eq_iff)
  have run: "(running_after env us i m)(GetEmail u := map_option (accountForAPI i) (served_account (xe_uuid env) (xe_sha256 env) i u)) =
      running_after env (us @ [u]) i m" for i m by (auto simp: running_after_def uo fun_eq_iff)
  have x1: "xr_inbounds x1 = map (\<lambda>i. if in_exclude i then i else i\<lparr>in_clients := stored_after env us i\<rparr>) (xr_inbounds x)"
    and x2: "xr_inbounds x2 = map (\<lambda>i. if in_exclude i then i else i\<lparr>in_clients := stored_after env [u] i\<rparr>) (xr_inbounds x1)"
    using a b by (simp_all add: users_applied_def)
  have "running w2 (in_Tag i) = (if in_exclude i then running w (in_Tag i)
      else running_after env (us @ [u]) i (running w (in_Tag i)))" if i: "i \<in> set (xr_inbounds x)" for i
  proof -
    let ?i1 = "if in_exclude i then i else i\<lparr>in_clients := stored_after env us i\<rparr>"
    have "?i1 \<in> set (xr_inbounds x1)" using i by (simp add: x1)
    then have "running w2 (in_Tag ?i1) =
        (if in_exclude ?i1 then running w1 (in_Tag ?i1) else running_after env [u] ?i1 (running w1 (in_Tag ?i1)))"
      using b by (simp add: users_applied_def)
    moreover have "running w1 (in_Tag i) = (if in_exclude i then running w (in_Tag i)
        else running_after env us i (running w (in_Tag i)))" using a i by (simp add: users_applied_def)
    moreover have "map_option (accountForAPI (i\<lparr>in_clients := m\<rparr>)) z = map_option (accountForAPI i) z" for m z
      by (cases z) simp_all
    ultimately show ?thesis by (cases "in_exclude i") (simp_all add: after_single(2) run [symmetric] del: fun_upd_apply)
  qed
  moreover have "xr_inbounds x2 = map (\<lambda>i. if in_exclude i then i else i\<lparr>in_clients := stored_after env (us @ [u]) i\<rparr>) (xr_inbounds x)"
    unfolding x2 x1 by (simp add: after_single(1) st [symmetric])
  ultimately show ?thesis by (simp add: users_applied_def)
qed

text \<open>Synchronising users one by one, each call successful.\<close>

fun sync_each :: "'w XrayEnv \<Rightarrow> UserPtr list \<Rightarrow> Xray \<Rightarrow> 'w \<Rightarrow> (Xray \<times> 'w) option" where
  "sync_each env [] x w = Some (x, w)"
| "sync_each env (u # us) x w =
    (case xr_SyncUser env u x w of (None, x', w') \<Rightarrow> sync_each env us x' w' | (Some e, _, _) \<Rightarrow> None)"

lemma sync_each_snoc:
  "sync_each env (us @ [u]) x w = (case sync_each env us x w of
     Some (x1, w1) \<Rightarrow> (case xr_SyncUser env u x1 w1 of (None, x2, w2) \<Rightarrow> Some (x2, w2) | (Some e, _, _) \<Rightarrow> None)
   | None \<Rightarrow> None)"
  by (induction us arbitrary: x w) (auto split: prod.splits option.splits)

lemma users_applied_wf:
  assumes "users_applied env running users x w x' w'" "xray_wf x" shows "xray_wf x'"
proof -
  let ?f = "\<lambda>i. if in_exclude i then i else i\<lparr>in_clients := stored_after env users i\<rparr>"
  have f: "in_Tag (?f i) = in_Tag i" "inbound_ok (?f i) = inbound_ok i" for i
    by (simp_all add: inbound_ok_def method_2022_def setting_text_def)
  have x': "xr_inbounds x' = map ?f (xr_inbounds x)" using assms(1) by (simp add: users_applied_def)
  have "map in_Tag (xr_inbounds x') = map in_Tag (xr_inbounds x)" unfolding x' by (simp add: f(1))
  moreover have "inbound_ok j" if j: "j \<in> set (xr_inbounds x')" for j
  proof -
    obtain i where "i \<in> set (xr_inbounds x)" "j = ?f i" using j unfolding x' set_map by blast
    then show ?thesis using f(2) [of i] assms(2) by (simp add: xray_wf_def)
  qed
  ultimately show ?thesis using assms(2) by (simp add: xray_wf_def)
qed

lemma sync_each_applied:
  assumes ok: "process_ok env running" "env_hash_ok env" and wf: "xray_wf x"
    and "distinct (map GetEmail users)" "sync_each env users x w = Some (x', w')"
  shows "users_applied env running users x w x' w'"
  using assms(4-)
proof (induction users arbitrary: x' w' rule: rev_induct)
  case Nil
  then show ?case
    by (auto simp: users_applied_def user_of_def stored_after_def running_after_def intro!: map_idI [symmetric])
next
  case (snoc u us)
  obtain x1 w1 where 1: "sync_each env us x w = Some (x1, w1)" "xr_SyncUser env u x1 w1 = (None, x', w')"
    using snoc.prems(2) by (auto simp: sync_each_snoc split: option.splits prod.splits)
  have a: "users_applied env running us x w x1 w1" using snoc.IH [OF _ 1(1)] snoc.prems(1) by simp
  have b: "users_applied env running [u] x1 w1 x' w'"
    by (rule SyncUser_applied [OF ok users_applied_wf [OF a wf] 1(2)])
  show ?case using users_applied_append [OF a b] snoc.prems(1) by simp
qed

section \<open>Restarts\<close>

definition inbound_stored :: "XInbound \<Rightarrow> bool" where
  "inbound_stored i \<longleftrightarrow> finite (dom (in_clients i)) \<and>
    (\<forall>e a. in_clients i e = Some a \<longrightarrow> account_Email a = e \<and> of_protocol i a \<and> in_Protocol i \<in> user_protocols)"

lemma map_of_keyed: "map_of (map (\<lambda>k. (k, f k)) ks) e = (if e \<in> set ks then Some (f e) else None)"
  by (induction ks) auto

lemma ToBytes_clients:
  assumes "inbound_stored i" "\<not> in_exclude i" "enumerates (order (in_clients i)) (in_clients i)"
  shows "\<exists>cs. in_ClientsOut (in_ToBytes order i) = Some cs \<and> map_of (map (\<lambda>a. (account_Email a, a)) cs) = in_clients i"
proof (cases "map_len (in_clients i) = 0")
  case True
  then have "in_clients i = Map.empty" using assms(1) map_len_0_iff by (auto simp: inbound_stored_def)
  with True assms(2) show ?thesis by (simp add: in_ToBytes_def)
next
  case False
  let ?ks = "order (in_clients i)" and ?m = "in_clients i"
  have ks: "set ?ks = dom ?m" using assms(3) by (rule enumerates_set)
  have ne: "\<exists>e a. ?m e = Some a"
  proof (rule ccontr)
    assume "\<nexists>e a. ?m e = Some a"
    then have "?m = Map.empty" by (auto simp: fun_eq_iff)
    with False show False by simp
  qed
  have at: "account_Email (the (?m k)) = k \<and> of_protocol i (the (?m k)) \<and> ?m k \<noteq> None" if "k \<in> set ?ks" for k
    using that ks assms(1) by (auto simp: inbound_stored_def)
  have mf: "List.map_filter ?m ks' = map (\<lambda>k. the (?m k)) ks'" if "set ks' \<subseteq> set ?ks" for ks'
    using that
  proof (induction ks')
    case (Cons k ks')
    then obtain a where "?m k = Some a" using at by auto
    with Cons show ?case by (simp add: map_filter_simps)
  qed (simp add: map_filter_simps)
  have "filter (of_protocol i) (List.map_filter ?m ?ks) = map (\<lambda>k. the (?m k)) ?ks"
    unfolding mf [OF subset_refl] using at by (auto simp: filter_id_conv)
  moreover have "in_Protocol i \<in> user_protocols" using assms(1) ne by (auto simp: inbound_stored_def)
  ultimately have out: "in_ClientsOut (in_ToBytes order i) = Some (map (\<lambda>k. the (?m k)) ?ks)"
    using False assms(2) by (simp add: in_ToBytes_def)
  have "map (\<lambda>a. (account_Email a, a)) (map (\<lambda>k. the (?m k)) ?ks) = map (\<lambda>k. (k, the (?m k))) ?ks"
    using at by simp
  moreover have "map_of (map (\<lambda>k. (k, the (?m k))) ?ks) = ?m"
    using ks by (auto simp: map_of_keyed fun_eq_iff)
  ultimately have "map_of (map (\<lambda>a. (account_Email a, a)) (map (\<lambda>k. the (?m k)) ?ks)) = ?m" by (simp only:)
  with out show ?thesis by blast
qed

lemma ToBytes_fields [simp]:
  "in_Tag (in_ToBytes order i) = in_Tag i" "in_clients (in_ToBytes order i) = in_clients i"
  "in_exclude (in_ToBytes order i) = in_exclude i"
  by (simp_all add: in_ToBytes_def)

lemma Restart_running:
  assumes ok: "process_ok env running" "orders_ok env" and d: "distinct (map in_Tag (xr_inbounds x))"
    and i: "i \<in> set (xr_inbounds x)" "\<not> in_exclude i" "inbound_stored i"
    and res: "xr_Restart env x w = (None, x', w')"
  shows "running w' (in_Tag i) = in_clients i" and "xr_inbounds x' = cfg_ToBytes (xe_accounts env) (xr_inbounds x)"
    and "xr_kicked x' = xr_kicked x"
proof -
  let ?cs = "cfg_ToBytes (xe_accounts env) (xr_inbounds x)"
  have st: "xe_Start env ?cs (xe_Stop env w) = (None, w')"
    and x': "xr_inbounds x' = ?cs" "xr_kicked x' = xr_kicked x"
    using res by (auto simp: xr_Restart_def core_Restart_def Let_def split: prod.splits)
  have en: "enumerates (xe_accounts env (in_clients i)) (in_clients i)"
    using ok(2) i(3) by (simp add: orders_ok_def inbound_stored_def)
  obtain cs where cs: "in_ClientsOut (in_ToBytes (xe_accounts env) i) = Some cs"
      "map_of (map (\<lambda>a. (account_Email a, a)) cs) = in_clients i"
    using ToBytes_clients [OF i(3,2), of "xe_accounts env", OF en] by blast
  have "distinct (map in_Tag ?cs)" using d by (simp add: cfg_ToBytes_def comp_def)
  moreover have "in_ToBytes (xe_accounts env) i \<in> set ?cs" using i(1) by (simp add: cfg_ToBytes_def)
  ultimately show "running w' (in_Tag i) = in_clients i"
    using process_start [OF ok(1) st _ _ cs(1)] cs(2) by simp
  show "xr_inbounds x' = ?cs" "xr_kicked x' = xr_kicked x" by (rule x')+
qed

lemma sync_fold_stored:
  "finite (dom (fold (sync_step uuid sha256 i) users m)) = finite (dom m)"
proof (induction users arbitrary: m)
  case (Cons u users)
  have "finite (dom (sync_step uuid sha256 i u m)) = finite (dom m)"
    by (simp add: sync_step_def split: option.split)
  with Cons show ?case by simp
qed simp

text \<open>The account of an email after a full synchronisation: that of its last served message.\<close>

definition latest_account :: "'w XrayEnv \<Rightarrow> UserPtr list \<Rightarrow> XInbound \<Rightarrow> (string \<rightharpoonup> Account)" where
  "latest_account env users i e =
    (let us = filter (\<lambda>u. GetEmail u = e \<and> served_account (xe_uuid env) (xe_sha256 env) i u \<noteq> None) users
     in if us = [] then None else served_account (xe_uuid env) (xe_sha256 env) i (last us))"

lemma latest_snoc:
  "latest_account env (users @ [u]) i = (case served_account (xe_uuid env) (xe_sha256 env) i u of
     None \<Rightarrow> latest_account env users i | Some a \<Rightarrow> (latest_account env users i)(GetEmail u \<mapsto> a))"
  by (cases "served_account (xe_uuid env) (xe_sha256 env) i u") (auto simp: latest_account_def Let_def fun_eq_iff)

lemma sync_fold_latest:
  "fold (sync_step (xe_uuid env) (xe_sha256 env) i) users Map.empty = latest_account env users i"
proof (induction users rule: rev_induct)
  case Nil
  then show ?case by (simp add: latest_account_def fun_eq_iff)
next
  case (snoc u users)
  have "fold (sync_step (xe_uuid env) (xe_sha256 env) i) (users @ [u]) Map.empty =
      sync_step (xe_uuid env) (xe_sha256 env) i u (latest_account env users i)"
    using snoc by simp
  also have "\<dots> = latest_account env (users @ [u]) i" by (simp add: sync_step_def sync_account_served latest_snoc)
  finally show ?case .
qed

lemma latest_stored:
  assumes "latest_account env users i e = Some a"
  shows "account_Email a = e \<and> of_protocol i a \<and> in_Protocol i \<in> user_protocols"
proof -
  let ?us = "filter (\<lambda>u. GetEmail u = e \<and> served_account (xe_uuid env) (xe_sha256 env) i u \<noteq> None) users"
  have us: "?us \<noteq> []" "served_account (xe_uuid env) (xe_sha256 env) i (last ?us) = Some a"
    using assms by (auto simp: latest_account_def Let_def split: if_splits)
  have "last ?us \<in> set ?us" using us(1) by (rule last_in_set)
  then have "GetEmail (last ?us) = e" by simp
  then show ?thesis using account_Email_served [OF us(2)] of_protocol_served [OF us(2)] by simp
qed

lemma SyncUsers_exact:
  assumes ok: "process_ok env running" "orders_ok env" and d: "distinct (map in_Tag (xr_inbounds x))"
    and i: "i \<in> set (xr_inbounds x)" "\<not> in_exclude i"
    and res: "xr_SyncUsers env users x w = (None, x', w')"
  shows "running w' (in_Tag i) = latest_account env users i \<and>
    (\<exists>i' \<in> set (xr_inbounds x'). in_Tag i' = in_Tag i \<and> in_clients i' = latest_account env users i)"
proof -
  let ?x1 = "x\<lparr>xr_inbounds := cfg_syncUsers (xe_uuid env) (xe_sha256 env) users (xr_inbounds x)\<rparr>"
  let ?i1 = "in_syncUsers (xe_uuid env) (xe_sha256 env) users i"
  obtain x1 w1 where r: "xr_Restart env ?x1 w = (None, x1, w1)" and x': "xr_inbounds x' = xr_inbounds x1" "w' = w1"
    using res by (auto simp: xr_SyncUsers_def restart_with_def split: prod.splits option.splits)
  have c: "in_clients ?i1 = latest_account env users i" by (simp add: in_syncUsers_def sync_fold_latest)
  have "of_protocol ?i1 a = of_protocol i a" for a
    by (simp add: in_syncUsers_def of_protocol_def method_2022_def setting_text_def)
  moreover have "finite (dom (in_clients ?i1))" by (simp add: in_syncUsers_def sync_fold_stored)
  moreover have "in_Protocol ?i1 = in_Protocol i" by (simp add: in_syncUsers_def)
  moreover have "\<forall>e a. latest_account env users i e = Some a \<longrightarrow>
      account_Email a = e \<and> of_protocol i a \<and> in_Protocol i \<in> user_protocols"
    using latest_stored by blast
  ultimately have st: "inbound_stored ?i1" using c by (simp add: inbound_stored_def)
  have i1: "?i1 \<in> set (xr_inbounds ?x1)" "\<not> in_exclude ?i1" "in_Tag ?i1 = in_Tag i"
    using i by (auto simp: cfg_syncUsers_def in_syncUsers_def image_iff)
  have tags: "map in_Tag (xr_inbounds ?x1) = map in_Tag (xr_inbounds x)"
    by (simp add: cfg_syncUsers_def in_syncUsers_def)
  have d1: "distinct (map in_Tag (xr_inbounds ?x1))" using d unfolding tags .
  note R = Restart_running [OF ok d1 i1(1,2) st r]
  have "in_ToBytes (xe_accounts env) ?i1 \<in> set (xr_inbounds x')"
    using R(2) i1(1) x'(1) by (simp add: cfg_ToBytes_def)
  then show ?thesis using R(1) x'(2) i1(3) c by (metis ToBytes_fields(1,2))
qed

lemma disconnected_off:
  fixes "is" :: "XInbound list"
  assumes "process_ok env running" "j \<in> set is \<and> \<not> in_exclude j \<or> running v (in_Tag j) email = None"
  shows "running (fold (\<lambda>i w. if in_exclude i then w else xe_Remove env (in_Tag i) email w) is v) (in_Tag j) email = None"
  using assms(2)
proof (induction "is" arbitrary: v)
  case (Cons k "is")
  let ?v = "if in_exclude k then v else xe_Remove env (in_Tag k) email v"
  have "j \<in> set is \<and> \<not> in_exclude j \<or> running ?v (in_Tag j) email = None"
    using Cons.prems process_remove [OF assms(1), of "in_Tag k" email v] by auto
  from Cons.IH [OF this] show ?case by simp
qed simp

section \<open>Properties\<close>


text \<open>A process that takes every order, an inbound and a user.\<close>

definition lab_xray :: "(string \<Rightarrow> string \<rightharpoonup> Account) XrayEnv" where
  "lab_xray = \<lparr>xe_uuid = Some, xe_sha256 = (\<lambda>_. replicate 32 (CHR ''x'')),
     xe_Add = (\<lambda>tag a w. (None, w(tag := (w tag)(account_Email a \<mapsto> a)))),
     xe_Remove = (\<lambda>tag e w. w(tag := map_delete e (w tag))),
     xe_Start = (\<lambda>cfgs w. (None, \<lambda>tag. case find (\<lambda>i. in_Tag i = tag) cfgs of
        Some i \<Rightarrow> map_of (map (\<lambda>a. (account_Email a, a)) (case in_ClientsOut i of None \<Rightarrow> [] | Some cs \<Rightarrow> cs)) | None \<Rightarrow> Map.empty)),
     xe_Stop = (\<lambda>w. w), xe_Status = (\<lambda>_. None), xe_OnlineIps = (\<lambda>_ _. Inr None),
     xe_accounts = (\<lambda>m. sorted_list_of_set (dom m)), xe_emails = sorted_list_of_set,
     xe_tags = (\<lambda>m. sorted_list_of_set (dom m)), xe_users = (\<lambda>m. sorted_list_of_set (dom m))\<rparr>"

definition lab_inbound :: XInbound where
  "lab_inbound = \<lparr>in_Tag = ''in'', in_Listen = [], in_Port = JNull, in_Protocol = ''vless'',
     in_Settings = [''flow'' \<mapsto> JStr ''vision''], in_exclude = False, in_clients = Map.empty, in_ClientsOut = None\<rparr>"

definition lab_x :: Xray where
  "lab_x = \<lparr>xr_inbounds = [lab_inbound], xr_singbox = None, xr_userLimits = Map.empty, xr_userByEmail = Map.empty,
     xr_kicked = Map.empty\<rparr>"

definition lab_user :: "string list \<Rightarrow> UserPtr" where
  "lab_user inbounds = Some \<lparr>u_Email = ''ann'', u_Proxies = Some (empty_Proxy\<lparr>px_Vless := Some \<lparr>vl_Id = ''id1'', vl_Flow = []\<rparr>\<rparr>),
     u_Inbounds = inbounds, u_IpLimit = 1, u_SpeedLimit = 0\<rparr>"

lemma find_tag: "distinct (map in_Tag cfgs) \<Longrightarrow> i \<in> set cfgs \<Longrightarrow> find (\<lambda>j. in_Tag j = in_Tag i) cfgs = Some i"
  by (induction cfgs) force+

lemma lab_xray_ok: "process_ok lab_xray (\<lambda>w. w)" "env_hash_ok lab_xray" "orders_ok lab_xray" "xray_wf lab_x"
proof -
  show "process_ok lab_xray (\<lambda>w. w)"
    unfolding process_ok_def by (auto simp: lab_xray_def find_tag)
  show "env_hash_ok lab_xray" by (simp add: env_hash_ok_def lab_xray_def)
  show "orders_ok lab_xray" by (simp add: orders_ok_def lab_xray_def enumerates_def)
  show "xray_wf lab_x"
    by (simp add: xray_wf_def lab_x_def lab_inbound_def inbound_ok_def method_2022_def setting_text_def)
qed

lemma lab_add_account: "fst (add_account lab_xray i tag a (msg, w)) = msg"
  by (simp add: add_account_def lab_xray_def)

lemma lab_add_accounts: "fst (fold (add_account lab_xray i tag) as (msg, w)) = msg"
proof (induction as arbitrary: w)
  case (Cons a as)
  obtain w1 where "add_account lab_xray i tag a (msg, w) = (msg, w1)"
    using lab_add_account [of i tag a msg w] by (metis prod.collapse)
  with Cons show ?case by simp
qed simp

lemma lab_update_tags: "fst (snd (fold (update_tag lab_xray byTag updates) ts (cfgs, msg, w))) = msg"
proof (induction ts arbitrary: cfgs w)
  case (Cons t ts)
  have "fst (snd (update_tag lab_xray byTag updates t (cfgs, msg, w))) = msg"
    by (simp add: update_tag_def Let_def lab_add_accounts split: option.split)
  then obtain cs w1 where "update_tag lab_xray byTag updates t (cfgs, msg, w) = (cs, msg, w1)" by (metis prod.collapse)
  with Cons show ?case by simp
qed simp

lemma lab_UpdateUsers: "\<exists>x' w'. xr_UpdateUsers lab_xray users x w = (None, x', w')"
  using lab_update_tags [of _ _ _ "xr_inbounds x" "[]" w]
  by (auto simp: xr_UpdateUsers_def Let_def case_prod_beta)

definition ann_account :: "string \<Rightarrow> Account" where
  "ann_account flow = AVless \<lparr>ba_Email = ''ann'', ba_Level = 0, vla_ID = ''id1'', vla_Flow = flow\<rparr>"

lemma lab_served:
  "served_account (xe_uuid lab_xray) (xe_sha256 lab_xray) lab_inbound (lab_user [''in'']) = Some (ann_account [])"
  "served_account (xe_uuid lab_xray) (xe_sha256 lab_xray) lab_inbound (lab_user []) = None"
  "accountForAPI lab_inbound (ann_account []) = ann_account ''vision''"
  "GetEmail (lab_user is) = ''ann''"
  by (simp_all add: served_account_def isActiveInbound_def setup_fields lab_user_def lab_inbound_def lab_xray_def ann_account_def
      NewVlessAccount_def proxy_text_def proxy_field_def go_defs accountForAPI_def inboundFlow_def setting_text_def empty_Proxy_def)



lemma lab_sync_inbound: "fst (snd (sync_inbound lab_xray u i (msg, w))) = msg"
  by (simp add: sync_inbound_def Let_def split: option.split) (simp add: lab_xray_def)

lemma lab_sync_inbounds: "fst (snd (sync_inbounds lab_xray u is (msg, w))) = msg"
proof (induction "is" arbitrary: w)
  case (Cons i "is")
  obtain i' w1 where "sync_inbound lab_xray u i (msg, w) = (i', msg, w1)"
    using lab_sync_inbound [of u i msg w] by (metis prod.collapse)
  with Cons [of w1] show ?case by (simp add: case_prod_beta)
qed simp

lemma lab_SyncUser: "\<exists>x' w'. xr_SyncUser lab_xray u x w = (None, x', w')"
  using lab_sync_inbounds [of u "xr_inbounds x" "[]" w] by (auto simp: xr_SyncUser_def Let_def case_prod_beta)


text \<open>C19. After a successful full synchronisation every inbound that is not excluded stores exactly the
  accounts of the listed users, the last message of an email winning, and the restarted process
  serves exactly these.\<close>

theorem xray_SyncUsers_exact:
  assumes "process_ok env running" and "orders_ok env" and "xray_wf x"
    and "i \<in> set (xr_inbounds x)" and "\<not> in_exclude i" and "xr_SyncUsers env users x w = (None, x', w')"
  shows "running w' (in_Tag i) = latest_account env users i \<and>
    (\<exists>i' \<in> set (xr_inbounds x'). in_Tag i' = in_Tag i \<and> in_clients i' = latest_account env users i)"
  using SyncUsers_exact [OF assms(1,2) _ assms(4-6)] assms(3) by (simp add: xray_wf_def)

theorem xray_SyncUsers_exact_witness:
  "\<exists>x' w'. xr_SyncUsers lab_xray [lab_user [], lab_user [''in'']] lab_x (\<lambda>_. Map.empty) = (None, x', w') \<and>
    w' ''in'' = [''ann'' \<mapsto> ann_account []]"
proof -
  obtain x' w' where r: "xr_SyncUsers lab_xray [lab_user [], lab_user [''in'']] lab_x (\<lambda>_. Map.empty) = (None, x', w')"
    by (simp add: xr_SyncUsers_def restart_with_def xr_Restart_def core_Restart_def Let_def) (simp add: lab_xray_def)
  have x: "lab_inbound \<in> set (xr_inbounds lab_x)" "in_Tag lab_inbound = ''in''" "\<not> in_exclude lab_inbound"
    by (simp_all add: lab_x_def lab_inbound_def)
  have "latest_account lab_xray [lab_user [], lab_user [''in'']] lab_inbound = [''ann'' \<mapsto> ann_account []]"
    by (auto simp: latest_account_def lab_served Let_def fun_eq_iff)
  then show ?thesis
    using xray_SyncUsers_exact [OF lab_xray_ok(1,3,4) x(1,3) r] r by (simp add: x(2))
qed

text \<open>Disconnecting a user for too many devices takes it off every inbound of the process but not
  out of the stored accounts, so that a restart of the process serves it again at once, although
  it still counts as disconnected and is not checked until its cooldown ends.\<close>

theorem xray_restart_readmits:
  assumes "process_ok env running" and "orders_ok env" and "xray_wf x"
    and "i \<in> set (xr_inbounds x)" and "\<not> in_exclude i" and "inbound_stored i" and "in_clients i email = Some a"
    and "w1 = disconnectUser env email x w" and "xr_Restart env (x\<lparr>xr_kicked := (xr_kicked x)(email \<mapsto> now)\<rparr>) w1 = (None, x', w')"
  shows "running w1 (in_Tag i) email = None \<and> running w' (in_Tag i) email = Some a \<and> xr_kicked x' email = Some now"
proof -
  have "running w1 (in_Tag i) email = None"
    using disconnected_off [OF assms(1)] assms(4,5,8) by (simp add: disconnectUser_def)
  moreover have d: "distinct (map in_Tag (xr_inbounds (x\<lparr>xr_kicked := (xr_kicked x)(email \<mapsto> now)\<rparr>)))"
    using assms(3) by (simp add: xray_wf_def)
  moreover have i: "i \<in> set (xr_inbounds (x\<lparr>xr_kicked := (xr_kicked x)(email \<mapsto> now)\<rparr>))" using assms(4) by simp
  note R = Restart_running [OF assms(1,2) d i assms(5,6,9)]
  ultimately show ?thesis using R(1,3) assms(7) by simp
qed

theorem xray_restart_readmits_witness:
  "\<exists>x' w'. xr_Restart lab_xray (lab_x\<lparr>xr_inbounds := [lab_inbound\<lparr>in_clients := [''ann'' \<mapsto> ann_account []]\<rparr>],
      xr_kicked := [''ann'' \<mapsto> 5]\<rparr>) (\<lambda>_. Map.empty) = (None, x', w') \<and>
    w' ''in'' ''ann'' = Some (ann_account []) \<and> xr_kicked x' ''ann'' = Some 5"
proof -
  let ?i = "lab_inbound\<lparr>in_clients := [''ann'' \<mapsto> ann_account []]\<rparr>"
  let ?x = "lab_x\<lparr>xr_inbounds := [?i]\<rparr>"
  have e: "?x\<lparr>xr_kicked := (xr_kicked ?x)(''ann'' \<mapsto> 5)\<rparr> = lab_x\<lparr>xr_inbounds := [?i], xr_kicked := [''ann'' \<mapsto> 5]\<rparr>"
    by (simp add: lab_x_def)
  have w: "disconnectUser lab_xray ''ann'' ?x (\<lambda>_. Map.empty) = (\<lambda>_. Map.empty)"
    by (auto simp: disconnectUser_def lab_xray_def lab_inbound_def fun_eq_iff)
  obtain x' w' where r: "xr_Restart lab_xray (?x\<lparr>xr_kicked := (xr_kicked ?x)(''ann'' \<mapsto> 5)\<rparr>) (\<lambda>_. Map.empty) = (None, x', w')"
    by (simp add: xr_Restart_def core_Restart_def Let_def) (simp add: lab_xray_def)
  have wf: "xray_wf ?x"
    by (simp add: xray_wf_def lab_inbound_def inbound_ok_def method_2022_def setting_text_def)
  have i: "?i \<in> set (xr_inbounds ?x)" "\<not> in_exclude ?i" "in_Tag ?i = ''in''" by (simp_all add: lab_inbound_def)
  have st: "inbound_stored ?i"
    by (simp add: inbound_stored_def ann_account_def of_protocol_def user_protocols_def lab_inbound_def)
  have "w' ''in'' ''ann'' = Some (ann_account []) \<and> xr_kicked x' ''ann'' = Some 5"
    using xray_restart_readmits [OF lab_xray_ok(1,3) wf i(1,2) st _ w [symmetric] r] i(3) by simp
  with r show ?thesis unfolding e by blast
qed

text \<open>A list that names a user twice, first without and then with access to an inbound, leaves the
  process serving the user while the stored accounts do not have it: the removals of a batch are
  applied before its additions to the process and after them to the stored accounts.\<close>

theorem xray_duplicate_diverges:
  assumes "process_ok env running" and "orders_ok env" and "xray_wf x"
    and "i \<in> set (xr_inbounds x)" and "\<not> in_exclude i" and "GetEmail u1 = GetEmail u2"
    and "served_account (xe_uuid env) (xe_sha256 env) i u1 = None"
    and "served_account (xe_uuid env) (xe_sha256 env) i u2 = Some a"
    and "xr_UpdateUsers env [u1, u2] x w = (None, x', w')"
  shows "running w' (in_Tag i) (GetEmail u2) = Some (accountForAPI i a) \<and>
    (\<exists>i' \<in> set (xr_inbounds x'). in_Tag i' = in_Tag i \<and> in_clients i' (GetEmail u2) = None)"
proof -
  let ?upd = "inbound_update (xe_uuid env) (xe_sha256 env) [u1, u2] i"
  have u: "iu_accounts ?upd = [a]" "iu_removeEmailSet ?upd = {GetEmail u2}"
    using assms(6-8) by (simp_all add: inbound_update_def update_step_def served_account_def [symmetric])
  have es: "set (xe_emails env {GetEmail u2}) = {GetEmail u2}" using assms(2) by (simp add: orders_ok_def)
  have e: "account_Email a = GetEmail u2" by (rule account_Email_served [OF assms(8)])
  have "upd_stored env [u1, u2] i (GetEmail u2) = None"
    by (simp add: upd_stored_def Let_def u in_updateUsers_def fold_map_delete es)
  moreover have "upd_running env [u1, u2] i m (GetEmail u2) = Some (accountForAPI i a)" for m
    using e by (simp add: upd_running_def Let_def u put_running_def)
  moreover have "i\<lparr>in_clients := upd_stored env [u1, u2] i\<rparr> \<in> set (xr_inbounds x')"
    using UpdateUsers_general [OF assms(1,2) _ assms(9)] assms(3-5) by (auto simp: xray_wf_def)
  ultimately show ?thesis
    using UpdateUsers_general [OF assms(1,2) _ assms(9)] assms(3-5)
    by (auto simp: xray_wf_def intro!: bexI [of _ "i\<lparr>in_clients := upd_stored env [u1, u2] i\<rparr>"])
qed

theorem xray_duplicate_diverges_witness:
  "\<exists>x' w'. xr_UpdateUsers lab_xray [lab_user [], lab_user [''in'']] lab_x (\<lambda>_. Map.empty) = (None, x', w') \<and>
    w' ''in'' ''ann'' = Some (ann_account ''vision'') \<and> (\<exists>i' \<in> set (xr_inbounds x'). in_clients i' ''ann'' = None)"
proof -
  obtain x' w' where r: "xr_UpdateUsers lab_xray [lab_user [], lab_user [''in'']] lab_x (\<lambda>_. Map.empty) = (None, x', w')"
    using lab_UpdateUsers by blast
  have x: "lab_inbound \<in> set (xr_inbounds lab_x)" "\<not> in_exclude lab_inbound" "in_Tag lab_inbound = ''in''"
    by (simp_all add: lab_x_def lab_inbound_def)
  show ?thesis
    using xray_duplicate_diverges [OF lab_xray_ok(1,3,4) x(1,2) _ lab_served(2,1) r] r by (auto simp: lab_served x(3))
qed

text \<open>
  An update with a restart takes the listed users for all users: it forgets the device limit of every
  other user and takes it off the inbounds of the side-car.
\<close>

lemma remember_step_other: "GetEmail u \<noteq> e \<Longrightarrow> xr_userLimits (remember_step u x) e = xr_userLimits x e"
  by (simp add: remember_step_def Let_def)

lemma rememberUsers_forgets:
  assumes "e \<notin> GetEmail ` set users"
  shows "xr_userLimits (rememberUsers users True x) e = None"
proof -
  have "xr_userLimits (fold remember_step users y) e = xr_userLimits y e" for y
    using assms by (induction users arbitrary: y) (auto simp: remember_step_other)
  then show ?thesis
    by (simp add: rememberUsers_def)
qed

lemma remember_singbox [simp]: "xr_singbox (rememberUsers users replace x) = xr_singbox x"
proof -
  have "xr_singbox (fold remember_step users y) = xr_singbox y" for y
    by (induction users arbitrary: y) (simp_all add: remember_step_def Let_def)
  then show ?thesis
    by (simp add: rememberUsers_def)
qed

theorem xray_update_restart_forgets:
  assumes "xr_UpdateUsersAndRestart env users x w = (None, x', w')" "e \<notin> GetEmail ` set users"
  shows "xr_userLimits x' e = None"
    and "\<forall>sb. xr_singbox x' = Some sb \<longrightarrow> (\<forall>i \<in> set sb. sb_Users i = users)"
proof -
  let ?x = "x\<lparr>xr_inbounds := cfg_updateUsers (xe_uuid env) (xe_sha256 env) (xe_emails env)
    (xe_tags env (snd (buildInboundUpdates (xe_uuid env) (xe_sha256 env) users (xr_inbounds x)))) users (xr_inbounds x)\<rparr>"
  have "restart_with env users ?x w = (None, x', w')"
    using assms(1) by (simp add: xr_UpdateUsersAndRestart_def Let_def)
  then obtain x1 where "x' = syncSingboxUsers env users True (rememberUsers users True x1)"
    by (auto simp: restart_with_def split: prod.splits option.splits)
  then show "xr_userLimits x' e = None" "\<forall>sb. xr_singbox x' = Some sb \<longrightarrow> (\<forall>i \<in> set sb. sb_Users i = users)"
    using rememberUsers_forgets [OF assms(2)] by (auto simp: syncSingboxUsers_def sb_SyncUsers_def split: option.splits)
qed

end
