(* ===== verification/XrayRules.thy ===== *)
theory XrayRules
  imports XrayUsers
begin

text \<open>
  The rewriting of an Xray configuration before a start, \<open>backend/xray/config.go\<close>: the API inbound and
  its routing rule, the rules that are normalised or dropped, the observatory selectors, the policy,
  and the split into inbounds of Xray and of the side-car. Decoding and encoding of JSON are
  parameters; \<open>strings.EqualFold\<close> is modelled on ASCII letters.
\<close>

section \<open>Routing rules\<close>

record JsonEnv =
  je_Unmarshal :: "string \<Rightarrow> string + (string \<rightharpoonup> json)"
  je_Marshal :: "(string \<rightharpoonup> json) \<Rightarrow> string + string"

definition malformedDomainGuardRuleTag :: string where
  "malformedDomainGuardRuleTag = ''HPX_NODE_MALFORMED_DOMAIN_GUARD''"

fun filterRules :: "JsonEnv \<Rightarrow> string \<Rightarrow> string list \<Rightarrow> string + string list" where
  "filterRules je apiTag [] = Inr []"
| "filterRules je apiTag (raw # rules) =
    (case je_Unmarshal je raw of
       Inl e \<Rightarrow> Inl (''invalid JSON in rule: '' @ e)
     | Inr obj \<Rightarrow>
         if obj ''outboundTag'' = Some (JStr apiTag) \<or> obj ''ruleTag'' = Some (JStr malformedDomainGuardRuleTag)
         then filterRules je apiTag rules
         else (case filterRules je apiTag rules of Inl e \<Rightarrow> Inl e | Inr filtered \<Rightarrow> Inr (raw # filtered)))"

definition privateCIDRs :: "string list" where
  "privateCIDRs = [''0.0.0.0/8'', ''10.0.0.0/8'', ''100.64.0.0/10'', ''127.0.0.0/8'', ''169.254.0.0/16'', ''172.16.0.0/12'',
     ''192.0.0.0/24'', ''192.168.0.0/16'', ''198.18.0.0/15'', ''224.0.0.0/4'', ''240.0.0.0/4'', ''::/128'', ''::1/128'',
     ''fc00::/7'', ''fe80::/10'']"

definition is_geoip_private :: "json \<Rightarrow> bool" where
  "is_geoip_private entry \<longleftrightarrow> (case entry of JStr s \<Rightarrow> to_lower s = ''geoip:private'' | _ \<Rightarrow> False)"

definition replaceGeoIPPrivate :: "json \<Rightarrow> json \<times> bool" where
  "replaceGeoIPPrivate values =
    (case values of
       JArr entries \<Rightarrow>
         let updated = concat (map (\<lambda>e. if is_geoip_private e then map JStr privateCIDRs else [e]) entries)
         in if list_ex is_geoip_private entries then (JArr updated, True) else (values, False)
     | _ \<Rightarrow> (values, False))"

text \<open>One member of a rule; the flag tells whether anything has changed.\<close>

definition replace_member :: "string \<Rightarrow> (string \<rightharpoonup> json) \<times> bool \<Rightarrow> (string \<rightharpoonup> json) \<times> bool" where
  "replace_member name acc =
    (case acc of (obj, changed) \<Rightarrow>
      (case obj name of
         None \<Rightarrow> acc
       | Some v \<Rightarrow> (case replaceGeoIPPrivate v of
             (v', True) \<Rightarrow> (obj(name \<mapsto> v'), True) | (_, False) \<Rightarrow> acc)))"

fun normalizeGeoIPPrivateRules :: "JsonEnv \<Rightarrow> string list \<Rightarrow> string + string list" where
  "normalizeGeoIPPrivateRules je [] = Inr []"
| "normalizeGeoIPPrivateRules je (raw # rules) =
    (case je_Unmarshal je raw of
       Inl e \<Rightarrow> Inl (''invalid JSON in rule: '' @ e)
     | Inr obj \<Rightarrow>
         (case replace_member ''source'' (replace_member ''ip'' (obj, False)) of
            (_, False) \<Rightarrow>
              (case normalizeGeoIPPrivateRules je rules of Inl e \<Rightarrow> Inl e | Inr normalized \<Rightarrow> Inr (raw # normalized))
          | (obj', True) \<Rightarrow>
              (case je_Marshal je obj' of
                 Inl e \<Rightarrow> Inl (''failed to marshal normalized rule: '' @ e)
               | Inr raw' \<Rightarrow>
                   (case normalizeGeoIPPrivateRules je rules of Inl e \<Rightarrow> Inl e | Inr normalized \<Rightarrow> Inr (raw' # normalized)))))"

text \<open>
  The interfaces of the host: \<open>None\<close> when they cannot be listed, else for each one whether it is up
  and its addresses, if they can be read; an address is \<open>None\<close> when it is no usable IP address.
\<close>

definition apiRuleSources :: "(bool \<times> string option list option) list option \<Rightarrow> string list" where
  "apiRuleSources ifaces =
    (case ifaces of
       None \<Rightarrow> [''127.0.0.1'', ''::1'']
     | Some is \<Rightarrow>
         sort (remdups ([''127.0.0.1'', ''::1''] @
           concat (map (\<lambda>(up, addrs). if \<not> up then [] else case addrs of None \<Rightarrow> [] | Some l \<Rightarrow> List.map_filter (\<lambda>a. a) l) is))))"

definition loopbackListenAddress :: "int \<Rightarrow> string" where
  "loopbackListenAddress port = ''127.0.0.1:'' @ show_dec (nat (port mod 65536))"

section \<open>Outbounds\<close>

definition text_member :: "string \<Rightarrow> (string \<rightharpoonup> json) \<Rightarrow> string" where
  "text_member name obj = (case obj name of Some (JStr s) \<Rightarrow> trim_space s | _ \<Rightarrow> [])"

definition outbound_step :: "json \<Rightarrow> (string \<rightharpoonup> string) \<Rightarrow> (string \<rightharpoonup> string)" where
  "outbound_step outbound out =
    (case outbound of
       JObj obj \<Rightarrow>
         let tag = text_member ''tag'' obj; protocol = text_member ''protocol'' obj
         in if tag = [] \<or> protocol = [] then out else out(tag \<mapsto> protocol)
     | _ \<Rightarrow> out)"

definition outboundProtocolByTag :: "json \<Rightarrow> (string \<rightharpoonup> string)" where
  "outboundProtocolByTag outbounds =
    (case outbounds of JArr os \<Rightarrow> fold outbound_step os Map.empty | _ \<Rightarrow> Map.empty)"

definition blackholeOutboundTag :: "json \<Rightarrow> string" where
  "blackholeOutboundTag outbounds =
    (let protocolByTag = outboundProtocolByTag outbounds
     in case find (\<lambda>tag. to_lower (map_get [] protocolByTag tag) = ''blackhole'') (sorted_list_of_set (dom protocolByTag)) of
          Some tag \<Rightarrow> tag
        | None \<Rightarrow> [])"

definition malformedDomainGuardRule :: "string \<Rightarrow> (string \<rightharpoonup> json)" where
  "malformedDomainGuardRule outboundTag =
    [''domain'' \<mapsto> JArr [JStr ''regexp:^.{254,}$'', JStr (''regexp:(^|'' @ [char_of (92::nat)] @ ''.)[^.]{64,}('' @ [char_of (92::nat)] @ ''.|$)'')],
     ''outboundTag'' \<mapsto> JStr outboundTag, ''ruleTag'' \<mapsto> JStr malformedDomainGuardRuleTag, ''type'' \<mapsto> JStr ''field'']"

definition observatoryExcludedProtocols :: "string set" where
  "observatoryExcludedProtocols = {''blackhole'', ''dns'', ''loopback''}"

definition keep_selector :: "(string \<rightharpoonup> string) \<Rightarrow> json \<Rightarrow> bool" where
  "keep_selector protocolByTag value =
    (case value of
       JStr tag \<Rightarrow> (case protocolByTag (trim_space tag) of
           Some protocol \<Rightarrow> protocol \<notin> observatoryExcludedProtocols | None \<Rightarrow> True)
     | _ \<Rightarrow> False)"

definition sanitize_section :: "(string \<rightharpoonup> string) \<Rightarrow> (string \<rightharpoonup> json) option \<Rightarrow> (string \<rightharpoonup> json) option" where
  "sanitize_section protocolByTag sec =
    (case sec of
       None \<Rightarrow> None
     | Some m \<Rightarrow>
         (case m ''subjectSelector'' of
            Some (JArr values) \<Rightarrow> Some (m(''subjectSelector'' \<mapsto> JArr (filter (keep_selector protocolByTag) values)))
          | _ \<Rightarrow> Some m))"

section \<open>Policy and log\<close>

text \<open>A policy level and the system policy; the members that the code never touches are one value.\<close>

record XPolicyLevel =
  pl_StatsUserUplink :: bool
  pl_StatsUserDownlink :: bool
  pl_StatsUserOnline :: bool
  pl_rest :: json

record XSystemPolicy =
  sp_StatsInboundDownlink :: bool
  sp_StatsInboundUplink :: bool
  sp_StatsOutboundDownlink :: bool
  sp_StatsOutboundUplink :: bool

record XPolicy =
  po_Levels :: "nat \<rightharpoonup> XPolicyLevel"
  po_System :: "XSystemPolicy option"

definition checkPolicy :: "XPolicy option \<Rightarrow> XPolicy" where
  "checkPolicy policy =
    (let fresh = \<lparr>pl_StatsUserUplink = True, pl_StatsUserDownlink = True, pl_StatsUserOnline = True, pl_rest = JNull\<rparr>;
         p = (case policy of
                None \<Rightarrow> \<lparr>po_Levels = [0 \<mapsto> fresh], po_System = None\<rparr>
              | Some p \<Rightarrow>
                  p\<lparr>po_Levels := (po_Levels p)(0 \<mapsto> (case po_Levels p 0 of
                       None \<Rightarrow> fresh
                     | Some zero \<Rightarrow> zero\<lparr>pl_StatsUserDownlink := True, pl_StatsUserUplink := True, pl_StatsUserOnline := True\<rparr>))\<rparr>)
     in p\<lparr>po_System := Some (case po_System p of
            None \<Rightarrow> \<lparr>sp_StatsInboundDownlink = False, sp_StatsInboundUplink = False,
                     sp_StatsOutboundDownlink = True, sp_StatsOutboundUplink = True\<rparr>
          | Some s \<Rightarrow> s\<lparr>sp_StatsOutboundDownlink := True, sp_StatsOutboundUplink := True\<rparr>)\<rparr>)"

record LogConfig =
  lc_AccessLog :: string
  lc_ErrorLog :: string
  lc_LogLevel :: string

section \<open>The configuration\<close>

record XConfig =
  xc_LogConfig :: "LogConfig option"
  xc_Rules :: "string list option"
  xc_Inbounds :: "XInbound list"
  xc_Outbounds :: json
  xc_Policy :: "XPolicy option"
  xc_API :: "(string list \<times> string) option"
  xc_Metrics :: "string \<rightharpoonup> json"
  xc_Observatory :: "(string \<rightharpoonup> json) option"
  xc_BurstObservatory :: "(string \<rightharpoonup> json) option"
  xc_sidecarInbounds :: "SbInbound list"

definition GetLogFiles :: "XConfig \<Rightarrow> (string \<times> string) \<times> XConfig" where
  "GetLogFiles c =
    (let lc = (case xc_LogConfig c of
                 None \<Rightarrow> \<lparr>lc_AccessLog = [], lc_ErrorLog = [], lc_LogLevel = ''info''\<rparr> | Some lc \<Rightarrow> lc)
     in ((lc_AccessLog lc, lc_ErrorLog lc), c\<lparr>xc_LogConfig := Some lc\<rparr>))"

definition sanitizeObservatorySelectors :: "XConfig \<Rightarrow> XConfig" where
  "sanitizeObservatorySelectors c =
    (let protocolByTag = outboundProtocolByTag (xc_Outbounds c)
     in if map_len protocolByTag = 0 then c
        else c\<lparr>xc_Observatory := sanitize_section protocolByTag (xc_Observatory c),
               xc_BurstObservatory := sanitize_section protocolByTag (xc_BurstObservatory c)\<rparr>)"

text \<open>
  The removal of the API inbound edits the slice while the loop runs over the original one: \<open>arr\<close> is
  the shared array, \<open>len\<close> the current length of the slice, \<open>i\<close> the index of the loop and \<open>n\<close> the number of
  iterations left. \<open>None\<close> is the panic of a slice bound out of range.
\<close>

fun drop_api_loop :: "nat \<Rightarrow> nat \<Rightarrow> XInbound list \<Rightarrow> nat \<Rightarrow> (XInbound list \<times> nat) option" where
  "drop_api_loop 0 i arr len = Some (arr, len)"
| "drop_api_loop (Suc n) i arr len =
    (if in_Tag (arr ! i) = ''API_INBOUND''
     then if i + 1 \<le> len
          then drop_api_loop n (Suc i) (take i arr @ drop (i + 1) (take len arr) @ drop (len - 1) arr) (len - 1)
          else None
     else drop_api_loop n (Suc i) arr len)"

definition drop_api :: "XInbound list \<Rightarrow> XInbound list option" where
  "drop_api inbounds =
    (case drop_api_loop (length inbounds) 0 inbounds (length inbounds) of
       None \<Rightarrow> None | Some (arr, len) \<Rightarrow> Some (take len arr))"

definition api_inbound :: "int \<Rightarrow> XInbound" where
  "api_inbound apiPort =
    \<lparr>in_Tag = ''API_INBOUND'', in_Listen = ''127.0.0.1'', in_Port = JNum (show_dec (nat apiPort)), in_Protocol = ''dokodemo-door'',
     in_Settings = [''address'' \<mapsto> JStr ''127.0.0.1''], in_exclude = False, in_clients = Map.empty, in_ClientsOut = None\<rparr>"

definition api_rule :: "string list \<Rightarrow> (string \<rightharpoonup> json)" where
  "api_rule sources =
    [''inboundTag'' \<mapsto> JArr [JStr ''API_INBOUND''], ''source'' \<mapsto> JArr (map JStr sources),
     ''outboundTag'' \<mapsto> JStr ''API'', ''type'' \<mapsto> JStr ''field'']"

text \<open>The rules put before those of the panel.\<close>

definition prepend_rules :: "JsonEnv \<Rightarrow> string list \<Rightarrow> json \<Rightarrow> string + string list" where
  "prepend_rules je sources outbounds =
    (case je_Marshal je (api_rule sources) of
       Inl e \<Rightarrow> Inl e
     | Inr newRaw \<Rightarrow>
         let blockTag = blackholeOutboundTag outbounds
         in if blockTag = [] then Inr [newRaw]
            else (case je_Marshal je (malformedDomainGuardRule blockTag) of
                    Inl e \<Rightarrow> Inl e | Inr guardRaw \<Rightarrow> Inr [newRaw, guardRaw]))"

text \<open>\<open>None\<close> is a panic; an error leaves a configuration that the caller drops.\<close>

definition ApplyAPI :: "JsonEnv \<Rightarrow> (bool \<times> string option list option) list option \<Rightarrow> int \<Rightarrow> int \<Rightarrow> XConfig \<Rightarrow>
    (string + XConfig) option" where
  "ApplyAPI je ifaces apiPort metricPort c =
    (case drop_api (xc_Inbounds c) of
       None \<Rightarrow> None
     | Some inbounds \<Rightarrow>
         let c1 = c\<lparr>xc_Inbounds := inbounds, xc_API := Some ([''HandlerService'', ''LoggerService'', ''StatsService''], ''API''),
                    xc_Metrics := [''tag'' \<mapsto> JStr ''metric'', ''listen'' \<mapsto> JStr (loopbackListenAddress metricPort)]\<rparr>;
             c2 = sanitizeObservatorySelectors c1;
             rules = (case xc_Rules c2 of None \<Rightarrow> [] | Some rs \<Rightarrow> rs)
         in Some (case normalizeGeoIPPrivateRules je rules of
              Inl e \<Rightarrow> Inl e
            | Inr normalized \<Rightarrow>
                (case filterRules je ''API'' normalized of
                   Inl e \<Rightarrow> Inl e
                 | Inr filtered \<Rightarrow>
                     (case prepend_rules je (apiRuleSources ifaces) (xc_Outbounds c2) of
                        Inl e \<Rightarrow> Inl e
                      | Inr pre \<Rightarrow>
                          Inr (c2\<lparr>xc_Rules := Some (pre @ filtered), xc_Policy := Some (checkPolicy (xc_Policy c2)),
                                 xc_Inbounds := api_inbound apiPort # xc_Inbounds c2\<rparr>)))))"

text \<open>The port of a side-car inbound: \<open>num\<close> truncates a JSON number, \<open>scan\<close> reads a decimal number.\<close>

definition PortFromAny :: "(string \<Rightarrow> int) \<Rightarrow> (string \<Rightarrow> int) \<Rightarrow> json \<Rightarrow> int" where
  "PortFromAny num scan port = (case port of JNum s \<Rightarrow> num s | JStr s \<Rightarrow> scan s | _ \<Rightarrow> 0)"

definition split_inbound :: "(string \<Rightarrow> int) \<Rightarrow> (string \<Rightarrow> int) \<Rightarrow> string list \<Rightarrow> XInbound \<Rightarrow>
    XInbound list \<times> SbInbound list \<Rightarrow> XInbound list \<times> SbInbound list" where
  "split_inbound num scan exclude i acc =
    (case acc of (kept, sidecar) \<Rightarrow>
      let i' = (if in_Tag i \<in> set exclude then i\<lparr>in_exclude := True\<rparr> else i)
      in if IsSidecarProtocol (in_Protocol i')
         then (kept, sidecar @ [\<lparr>sb_Tag = in_Tag i', sb_Protocol = in_Protocol i', sb_Listen = in_Listen i',
                                 sb_Port = PortFromAny num scan (in_Port i'), sb_Users = []\<rparr>])
         else (kept @ [i'], sidecar))"

text \<open>\<open>decode\<close> is \<open>json.Unmarshal\<close> into a configuration, whose inbounds have no clients and are not excluded.\<close>

definition xray_NewConfig :: "(string \<Rightarrow> string + XConfig) \<Rightarrow> (string \<Rightarrow> int) \<Rightarrow> (string \<Rightarrow> int) \<Rightarrow> string \<Rightarrow> string list \<Rightarrow>
    string + XConfig" where
  "xray_NewConfig decode num scan config exclude =
    (case decode config of
       Inl e \<Rightarrow> Inl e
     | Inr c \<Rightarrow>
         (case fold (split_inbound num scan exclude) (xc_Inbounds c) ([], []) of (kept, sidecar) \<Rightarrow>
            Inr (c\<lparr>xc_Inbounds := kept, xc_sidecarInbounds := sidecar\<rparr>)))"

section \<open>What a rewritten configuration holds\<close>

text \<open>The intended meaning: a rule with \<open>geoip:private\<close> spelt out, and the rules that are not the node's own.\<close>

definition expand_private :: "json \<Rightarrow> json" where
  "expand_private v =
    (case v of JArr es \<Rightarrow> JArr (concat (map (\<lambda>e. if is_geoip_private e then map JStr privateCIDRs else [e]) es)) | _ \<Rightarrow> v)"

definition normal_rule :: "(string \<rightharpoonup> json) \<Rightarrow> (string \<rightharpoonup> json)" where
  "normal_rule obj = (\<lambda>k. if k = ''ip'' \<or> k = ''source'' then map_option expand_private (obj k) else obj k)"

definition foreign_rule :: "(string \<rightharpoonup> json) \<Rightarrow> bool" where
  "foreign_rule obj \<longleftrightarrow>
    obj ''outboundTag'' \<noteq> Some (JStr ''API'') \<and> obj ''ruleTag'' \<noteq> Some (JStr malformedDomainGuardRuleTag)"

definition own_rules :: "string list \<Rightarrow> json \<Rightarrow> (string \<rightharpoonup> json) list" where
  "own_rules sources outbounds =
    api_rule sources #
    (if blackholeOutboundTag outbounds = [] then [] else [malformedDomainGuardRule (blackholeOutboundTag outbounds)])"

text \<open>The law of the JSON library, on the objects that are written.\<close>

definition json_reads_back :: "JsonEnv \<Rightarrow> (string \<rightharpoonup> json) \<Rightarrow> bool" where
  "json_reads_back je obj \<longleftrightarrow> (\<exists>raw. je_Marshal je obj = Inr raw \<and> je_Unmarshal je raw = Inr obj)"

lemma geoip_private_cidrs [simp]: "\<not> list_ex is_geoip_private (map JStr privateCIDRs)"
  by (simp add: privateCIDRs_def is_geoip_private_def) (simp add: to_lower_def)

lemma replaceGeoIPPrivate_expand: "replaceGeoIPPrivate v = (v', b) \<Longrightarrow> v' = expand_private v \<and> (\<not> b \<longrightarrow> expand_private v = v)"
proof (cases v)
  case (JArr es)
  have "concat (map (\<lambda>e. if is_geoip_private e then map JStr privateCIDRs else [e]) es) = es"
    if "\<not> list_ex is_geoip_private es"
    using that by (induction es) auto
  then show "replaceGeoIPPrivate v = (v', b) \<Longrightarrow> v' = expand_private v \<and> (\<not> b \<longrightarrow> expand_private v = v)"
    using JArr by (auto simp: replaceGeoIPPrivate_def expand_private_def split: if_splits)
qed (auto simp: replaceGeoIPPrivate_def expand_private_def)

lemma expand_private_settled: "replaceGeoIPPrivate (expand_private v) = (expand_private v, False)"
proof (cases v)
  case (JArr es)
  have "\<not> list_ex is_geoip_private (concat (map (\<lambda>e. if is_geoip_private e then map JStr privateCIDRs else [e]) es))"
    using geoip_private_cidrs by (induction es) auto
  with JArr show ?thesis
    by (simp add: replaceGeoIPPrivate_def expand_private_def)
qed (auto simp: replaceGeoIPPrivate_def expand_private_def)

lemma replace_member_expand:
  assumes "replace_member k (obj, b) = (obj', b')"
  shows "obj' = obj(k := map_option expand_private (obj k)) \<and> (\<not> b' \<longrightarrow> \<not> b \<and> obj' = obj)"
proof (cases "obj k")
  case None
  with assms show ?thesis
    by (auto simp: replace_member_def fun_upd_idem)
next
  case (Some v)
  obtain v' c where r: "replaceGeoIPPrivate v = (v', c)"
    by (cases "replaceGeoIPPrivate v")
  show ?thesis
  proof (cases c)
    case True
    with Some r assms replaceGeoIPPrivate_expand [OF r] show ?thesis
      by (simp add: replace_member_def)
  next
    case False
    with Some r assms replaceGeoIPPrivate_expand [OF r] show ?thesis
      by (auto simp: replace_member_def fun_upd_idem)
  qed
qed

lemma normal_rule_by_members:
  assumes "replace_member ''source'' (replace_member ''ip'' (obj, False)) = (obj', b)"
  shows "obj' = normal_rule obj \<and> (\<not> b \<longrightarrow> normal_rule obj = obj)"
proof -
  obtain obj1 b1 where one: "replace_member ''ip'' (obj, False) = (obj1, b1)"
    by (cases "replace_member ''ip'' (obj, False)")
  have "normal_rule obj = (obj(''ip'' := map_option expand_private (obj ''ip'')))(''source'' := map_option expand_private (obj ''source''))"
    by (rule ext) (simp add: normal_rule_def)
  with replace_member_expand [OF one] replace_member_expand [of "''source''" obj1 b1 obj' b] assms one show ?thesis
    by auto
qed

lemma normal_rule_settled:
  "replace_member ''source'' (replace_member ''ip'' (normal_rule obj, False)) = (normal_rule obj, False)"
  by (simp add: replace_member_def normal_rule_def expand_private_settled split: option.split)

lemma foreign_normal_rule [simp]: "foreign_rule (normal_rule obj) = foreign_rule obj"
  by (simp add: foreign_rule_def normal_rule_def)

lemma normalize_total:
  assumes "map (je_Unmarshal je) rules = map Inr objs"
    and "\<forall>obj \<in> set objs. json_reads_back je (normal_rule obj)"
  shows "\<exists>ns. normalizeGeoIPPrivateRules je rules = Inr ns \<and> map (je_Unmarshal je) ns = map Inr (map normal_rule objs)"
  using assms
proof (induction rules arbitrary: objs)
  case (Cons raw rules)
  then obtain obj objs' where objs: "objs = obj # objs'" and raw: "je_Unmarshal je raw = Inr obj"
    and rest: "map (je_Unmarshal je) rules = map Inr objs'"
    by (cases objs) auto
  obtain ns where ns: "normalizeGeoIPPrivateRules je rules = Inr ns"
    "map (je_Unmarshal je) ns = map Inr (map normal_rule objs')"
    using Cons.IH [OF rest] Cons.prems(2) objs by auto
  obtain raw' where raw': "je_Marshal je (normal_rule obj) = Inr raw'" "je_Unmarshal je raw' = Inr (normal_rule obj)"
    using Cons.prems(2) objs by (auto simp: json_reads_back_def)
  obtain obj' b where m: "replace_member ''source'' (replace_member ''ip'' (obj, False)) = (obj', b)"
    by (cases "replace_member ''source'' (replace_member ''ip'' (obj, False))")
  show ?case
    using normal_rule_by_members [OF m] raw raw' ns m objs by (cases b) auto
qed simp

lemma normalize_settled:
  assumes "\<forall>raw \<in> set rules. \<exists>obj. je_Unmarshal je raw = Inr (normal_rule obj)"
  shows "normalizeGeoIPPrivateRules je rules = Inr rules"
  using assms
proof (induction rules)
  case (Cons raw rules)
  obtain obj where "je_Unmarshal je raw = Inr (normal_rule obj)"
    using Cons.prems by auto
  with Cons show ?case
    by (simp add: normal_rule_settled)
qed simp

lemma filterRules_total:
  assumes "map (je_Unmarshal je) rules = map Inr objs"
  shows "\<exists>fs. filterRules je ''API'' rules = Inr fs \<and> map (je_Unmarshal je) fs = map Inr (filter foreign_rule objs)"
  using assms
proof (induction rules arbitrary: objs)
  case (Cons raw rules)
  then obtain obj objs' where "objs = obj # objs'" "je_Unmarshal je raw = Inr obj" "map (je_Unmarshal je) rules = map Inr objs'"
    by (cases objs) auto
  with Cons.IH [of objs'] show ?case
    by (auto simp: foreign_rule_def)
qed simp

lemma filterRules_own:
  assumes "\<forall>raw \<in> set own. \<exists>obj. je_Unmarshal je raw = Inr obj \<and> \<not> foreign_rule obj"
    and "\<forall>raw \<in> set rules. \<exists>obj. je_Unmarshal je raw = Inr obj \<and> foreign_rule obj"
  shows "filterRules je ''API'' (own @ rules) = Inr rules"
proof -
  have "filterRules je ''API'' rules = Inr rules"
    using assms(2) by (induction rules) (auto simp: foreign_rule_def)
  with assms(1) show ?thesis
    by (induction own) (auto simp: foreign_rule_def)
qed

lemma prepend_rules_total:
  assumes "\<forall>obj \<in> set (own_rules sources outbounds). json_reads_back je obj"
  shows "\<exists>pre. prepend_rules je sources outbounds = Inr pre \<and>
    map (je_Unmarshal je) pre = map Inr (own_rules sources outbounds)"
  using assms by (fastforce simp: own_rules_def prepend_rules_def json_reads_back_def Let_def split: if_splits)

subsection \<open>The removal of the API inbound\<close>

abbreviation is_api :: "XInbound \<Rightarrow> bool" where
  "is_api i \<equiv> in_Tag i = ''API_INBOUND''"

lemma drop_api_loop_skip:
  "\<forall>j < k. \<not> is_api (arr ! (i + j)) \<Longrightarrow> drop_api_loop (k + n) i arr len = drop_api_loop n (i + k) arr len"
proof (induction k arbitrary: i)
  case (Suc k)
  have "\<not> is_api (arr ! i)" "\<forall>j < k. \<not> is_api (arr ! (Suc i + j))"
    using Suc.prems by (metis Nat.add_0_right zero_less_Suc, metis add_Suc_shift Suc_less_eq)
  with Suc.IH [of "Suc i"] show ?case
    by simp
qed simp

lemma drop_api_none:
  assumes "filter is_api inbounds = []"
  shows "drop_api inbounds = Some inbounds"
  using assms drop_api_loop_skip [of "length inbounds" inbounds 0 0 "length inbounds"]
  by (simp add: drop_api_def filter_empty_conv)

lemma drop_api_one:
  assumes "filter is_api ys = []" "filter is_api zs = []" "is_api a"
  shows "drop_api (ys @ a # zs) = Some (ys @ zs)"
proof -
  let ?xs = "ys @ a # zs"
  let ?arr = "ys @ zs @ drop (length ys + length zs) ?xs"
  have "drop_api_loop (length ?xs) 0 ?xs (length ?xs) = drop_api_loop (Suc (length zs)) (length ys) ?xs (length ?xs)"
    using assms drop_api_loop_skip [of "length ys" ?xs 0 "Suc (length zs)" "length ?xs"]
    by (simp add: filter_empty_conv nth_append)
  also have "\<dots> = drop_api_loop (length zs) (Suc (length ys)) ?arr (length ys + length zs)"
    using assms by simp
  also have "\<dots> = drop_api_loop 0 (Suc (length ys) + length zs) ?arr (length ys + length zs)"
  proof -
    have "\<not> is_api (?arr ! (Suc (length ys) + j))" if "j < length zs" for j
    proof (cases "Suc j < length zs")
      case True
      with assms(2) show ?thesis
        by (simp add: nth_append filter_empty_conv)
    next
      case False
      with that have j: "Suc j = length zs"
        by simp
      then have "?arr ! (Suc (length ys) + j) = ?xs ! (length ys + length zs)"
        using that by (simp add: nth_append)
      also have "\<dots> = zs ! j"
        using j by (simp add: nth_append flip: j)
      finally show ?thesis
        using assms(2) that by (simp add: filter_empty_conv)
    qed
    then show ?thesis
      using drop_api_loop_skip [of "length zs" ?arr "Suc (length ys)" 0] by simp
  qed
  finally show ?thesis
    by (simp add: drop_api_def)
qed

lemma drop_api_filter:
  assumes "length (filter is_api inbounds) \<le> 1"
  shows "drop_api inbounds = Some (filter (\<lambda>i. \<not> is_api i) inbounds)"
proof (cases "filter is_api inbounds")
  case Nil
  then show ?thesis
    by (simp add: drop_api_none filter_empty_conv)
next
  case (Cons a as)
  with assms have one: "filter is_api inbounds = [a]"
    by simp
  then obtain ys zs where split: "inbounds = ys @ a # zs" "filter is_api ys = []" "filter is_api zs = []" "is_api a"
    by (auto simp: filter_eq_Cons_iff filter_empty_conv empty_filter_conv)
  then have "filter (\<lambda>i. \<not> is_api i) inbounds = ys @ zs"
    by (simp add: filter_empty_conv)
  with drop_api_one [OF split(2-4)] split(1) show ?thesis
    by simp
qed

lemma own_not_foreign: "obj \<in> set (own_rules sources outbounds) \<Longrightarrow> \<not> foreign_rule obj"
  by (auto simp: own_rules_def foreign_rule_def api_rule_def malformedDomainGuardRule_def split: if_splits)

lemma normal_rule_same:
  assumes "map_option expand_private (obj ''ip'') = obj ''ip''" "map_option expand_private (obj ''source'') = obj ''source''"
  shows "normal_rule obj = obj"
proof (rule ext)
  show "normal_rule obj k = obj k" for k
    using assms by (cases "k = ''ip'' \<or> k = ''source''") (auto simp: normal_rule_def simp del: map_option_eq_Some)
qed

lemma own_rules_settled:
  assumes "\<forall>s \<in> set sources. to_lower s \<noteq> ''geoip:private''" "obj \<in> set (own_rules sources outbounds)"
  shows "normal_rule obj = obj"
proof -
  have "expand_private (JArr (map JStr sources)) = JArr (map JStr sources)"
    using assms(1) by (induction sources) (auto simp: expand_private_def is_geoip_private_def)
  with assms(2) show ?thesis
    by (intro normal_rule_same) (auto simp: own_rules_def api_rule_def malformedDomainGuardRule_def split: if_splits)
qed

lemma checkPolicy_again [simp]: "checkPolicy (Some (checkPolicy p)) = checkPolicy p"
  by (auto simp: checkPolicy_def Let_def split: option.split)

lemma sanitize_section_again [simp]: "sanitize_section m (sanitize_section m s) = sanitize_section m s"
  by (auto simp: sanitize_section_def split: option.split json.split)

lemma sanitize_fields [simp]:
  "xc_Outbounds (sanitizeObservatorySelectors c) = xc_Outbounds c" "xc_Rules (sanitizeObservatorySelectors c) = xc_Rules c"
  "xc_Policy (sanitizeObservatorySelectors c) = xc_Policy c" "xc_Inbounds (sanitizeObservatorySelectors c) = xc_Inbounds c"
  "xc_API (sanitizeObservatorySelectors c) = xc_API c" "xc_Metrics (sanitizeObservatorySelectors c) = xc_Metrics c"
  by (simp_all add: sanitizeObservatorySelectors_def Let_def)

text \<open>The whole rewriting once its parts have succeeded.\<close>

lemma ApplyAPI_parts:
  assumes "drop_api (xc_Inbounds c) = Some inbounds"
    and "normalizeGeoIPPrivateRules je (case xc_Rules c of None \<Rightarrow> [] | Some rs \<Rightarrow> rs) = Inr normalized"
    and "filterRules je ''API'' normalized = Inr filtered"
    and "prepend_rules je (apiRuleSources ifaces) (xc_Outbounds c) = Inr pre"
  shows "ApplyAPI je ifaces apiPort metricPort c =
    Some (Inr ((sanitizeObservatorySelectors c)\<lparr>
      xc_API := Some ([''HandlerService'', ''LoggerService'', ''StatsService''], ''API''),
      xc_Metrics := [''tag'' \<mapsto> JStr ''metric'', ''listen'' \<mapsto> JStr (loopbackListenAddress metricPort)],
      xc_Rules := Some (pre @ filtered), xc_Policy := Some (checkPolicy (xc_Policy c)),
      xc_Inbounds := api_inbound apiPort # inbounds\<rparr>))"
  using assms by (simp add: ApplyAPI_def Let_def) (simp add: sanitizeObservatorySelectors_def Let_def)

text \<open>C20. Rewriting a configuration for the API succeeds whenever the rules of the panel are JSON objects and
  at most one inbound is already the API inbound, and the result is exact: the API inbound comes first
  and the other inbounds keep their order, and the routing rules read back as the API rule, the guard
  against malformed domain names when some outbound is a black hole, and then the rules of the panel
  that are not such rules themselves, in their order, with geoip:private spelt out.
\<close>

theorem ApplyAPI_exact:
  assumes rules: "map (je_Unmarshal je) (case xc_Rules c of None \<Rightarrow> [] | Some rs \<Rightarrow> rs) = map Inr objs"
    and reads: "\<forall>obj \<in> set (own_rules (apiRuleSources ifaces) (xc_Outbounds c)) \<union> normal_rule ` set objs. json_reads_back je obj"
    and one: "length (filter (\<lambda>i. in_Tag i = ''API_INBOUND'') (xc_Inbounds c)) \<le> 1"
  shows "\<exists>c' rs. ApplyAPI je ifaces apiPort metricPort c = Some (Inr c') \<and>
    xc_Inbounds c' = api_inbound apiPort # filter (\<lambda>i. in_Tag i \<noteq> ''API_INBOUND'') (xc_Inbounds c) \<and>
    xc_Rules c' = Some rs \<and>
    map (je_Unmarshal je) rs =
      map Inr (own_rules (apiRuleSources ifaces) (xc_Outbounds c) @ map normal_rule (filter foreign_rule objs))"
proof -
  obtain ns where ns: "normalizeGeoIPPrivateRules je (case xc_Rules c of None \<Rightarrow> [] | Some rs \<Rightarrow> rs) = Inr ns"
    "map (je_Unmarshal je) ns = map Inr (map normal_rule objs)"
    using normalize_total [OF rules] reads by blast
  obtain fs where fs: "filterRules je ''API'' ns = Inr fs"
    "map (je_Unmarshal je) fs = map Inr (map normal_rule (filter foreign_rule objs))"
    using filterRules_total [OF ns(2)] by (auto simp: filter_map o_def)
  obtain pre where pre: "prepend_rules je (apiRuleSources ifaces) (xc_Outbounds c) = Inr pre"
    "map (je_Unmarshal je) pre = map Inr (own_rules (apiRuleSources ifaces) (xc_Outbounds c))"
    using prepend_rules_total [of "apiRuleSources ifaces" "xc_Outbounds c" je] reads by blast
  show ?thesis
    unfolding ApplyAPI_parts [OF drop_api_filter [OF one] ns(1) fs(1) pre(1)] using fs(2) pre(2) by simp
qed

text \<open>Rewriting a configuration a second time changes nothing: the rules, the inbounds, the policy and
  the observatory of a rewritten configuration are a fixed point of the rewriting, as long as no
  address of the host is spelt geoip:private.
\<close>

theorem ApplyAPI_idempotent:
  assumes rules: "map (je_Unmarshal je) (case xc_Rules c of None \<Rightarrow> [] | Some rs \<Rightarrow> rs) = map Inr objs"
    and reads: "\<forall>obj \<in> set (own_rules (apiRuleSources ifaces) (xc_Outbounds c)) \<union> normal_rule ` set objs. json_reads_back je obj"
    and one: "length (filter (\<lambda>i. in_Tag i = ''API_INBOUND'') (xc_Inbounds c)) \<le> 1"
    and sources: "\<forall>s \<in> set (apiRuleSources ifaces). to_lower s \<noteq> ''geoip:private''"
    and result: "ApplyAPI je ifaces apiPort metricPort c = Some (Inr c')"
  shows "ApplyAPI je ifaces apiPort metricPort c' = Some (Inr c')"
proof -
  let ?own = "own_rules (apiRuleSources ifaces) (xc_Outbounds c)"
  obtain ns where ns: "normalizeGeoIPPrivateRules je (case xc_Rules c of None \<Rightarrow> [] | Some rs \<Rightarrow> rs) = Inr ns"
    "map (je_Unmarshal je) ns = map Inr (map normal_rule objs)"
    using normalize_total [OF rules] reads by blast
  obtain fs where fs: "filterRules je ''API'' ns = Inr fs"
    "map (je_Unmarshal je) fs = map Inr (map normal_rule (filter foreign_rule objs))"
    using filterRules_total [OF ns(2)] by (auto simp: filter_map o_def)
  obtain pre where pre: "prepend_rules je (apiRuleSources ifaces) (xc_Outbounds c) = Inr pre"
    "map (je_Unmarshal je) pre = map Inr ?own"
    using prepend_rules_total [of "apiRuleSources ifaces" "xc_Outbounds c" je] reads by blast
  have pre_in: "\<exists>obj \<in> set ?own. je_Unmarshal je raw = Inr obj" if "raw \<in> set pre" for raw
    using arg_cong [OF pre(2), of set] that by auto
  have fs_in: "\<exists>obj \<in> set objs. foreign_rule obj \<and> je_Unmarshal je raw = Inr (normal_rule obj)" if "raw \<in> set fs" for raw
    using arg_cong [OF fs(2), of set] that by auto
  have "normalizeGeoIPPrivateRules je (pre @ fs) = Inr (pre @ fs)"
    using pre_in fs_in own_rules_settled [OF sources] by (intro normalize_settled) (metis Un_iff set_append)
  moreover have "filterRules je ''API'' (pre @ fs) = Inr fs"
    using pre_in fs_in own_not_foreign foreign_normal_rule by (intro filterRules_own) blast+
  moreover have "drop_api (api_inbound apiPort # filter (\<lambda>i. \<not> is_api i) (xc_Inbounds c)) = Some (filter (\<lambda>i. \<not> is_api i) (xc_Inbounds c))"
    by (subst drop_api_filter) (simp_all add: api_inbound_def)
  ultimately show ?thesis
    using result pre(1) unfolding ApplyAPI_parts [OF drop_api_filter [OF one] ns(1) fs(1) pre(1)]
    by (subst ApplyAPI_parts) (auto simp: sanitizeObservatorySelectors_def Let_def)
qed

text \<open>The split in closed form: what becomes of an inbound of Xray and of one of the side-car.\<close>

definition mark_excluded :: "string list \<Rightarrow> XInbound \<Rightarrow> XInbound" where
  "mark_excluded exclude i = (if in_Tag i \<in> set exclude then i\<lparr>in_exclude := True\<rparr> else i)"

definition sidecar_of :: "(string \<Rightarrow> int) \<Rightarrow> (string \<Rightarrow> int) \<Rightarrow> XInbound \<Rightarrow> SbInbound" where
  "sidecar_of num scan i = \<lparr>sb_Tag = in_Tag i, sb_Protocol = in_Protocol i, sb_Listen = in_Listen i,
     sb_Port = PortFromAny num scan (in_Port i), sb_Users = []\<rparr>"

lemma mark_excluded_fields [simp]:
  "in_Tag (mark_excluded exclude i) = in_Tag i" "in_Protocol (mark_excluded exclude i) = in_Protocol i"
  "in_Listen (mark_excluded exclude i) = in_Listen i" "in_Port (mark_excluded exclude i) = in_Port i"
  "in_exclude (mark_excluded exclude i) \<longleftrightarrow> in_exclude i \<or> in_Tag i \<in> set exclude"
  by (simp_all add: mark_excluded_def)

lemma split_inbound_mark:
  "split_inbound num scan exclude i (kept, sidecar) =
    (if IsSidecarProtocol (in_Protocol i) then (kept, sidecar @ [sidecar_of num scan i]) else (kept @ [mark_excluded exclude i], sidecar))"
  unfolding split_inbound_def mark_excluded_def [symmetric] by (simp add: sidecar_of_def Let_def)

lemma split_inbounds:
  "fold (split_inbound num scan exclude) is (kept, sidecar) =
    (kept @ map (mark_excluded exclude) (filter (\<lambda>i. \<not> IsSidecarProtocol (in_Protocol i)) is),
     sidecar @ map (sidecar_of num scan) (filter (\<lambda>i. IsSidecarProtocol (in_Protocol i)) is))"
  by (induction "is" arbitrary: kept sidecar) (simp_all add: split_inbound_mark)

text \<open>
  A decoded configuration is split without loss: Xray keeps the inbounds of its own protocols and the
  side-car gets the others, each in their order with tag, address and protocol kept, and an inbound of
  Xray is excluded from the synchronisation of users exactly when its tag is listed. The side-car has
  no such exclusion: a listed side-car inbound is in its configuration like any other.
\<close>

theorem NewConfig_splits:
  assumes "decode config = Inr c" "\<forall>i \<in> set (xc_Inbounds c). \<not> in_exclude i"
  shows "\<exists>c'. xray_NewConfig decode num scan config exclude = Inr c' \<and>
    map (\<lambda>i. i\<lparr>in_exclude := False\<rparr>) (xc_Inbounds c') = filter (\<lambda>i. \<not> IsSidecarProtocol (in_Protocol i)) (xc_Inbounds c) \<and>
    (\<forall>i \<in> set (xc_Inbounds c'). in_exclude i \<longleftrightarrow> in_Tag i \<in> set exclude) \<and>
    map (\<lambda>i. (sb_Tag i, sb_Protocol i, sb_Listen i)) (xc_sidecarInbounds c') =
      map (\<lambda>i. (in_Tag i, in_Protocol i, in_Listen i)) (filter (\<lambda>i. IsSidecarProtocol (in_Protocol i)) (xc_Inbounds c)) \<and>
    length (xc_Inbounds c') + length (xc_sidecarInbounds c') = length (xc_Inbounds c)"
proof -
  have "map (\<lambda>i. i\<lparr>in_exclude := False\<rparr>) (map (mark_excluded exclude) is) = is" if "\<forall>i \<in> set is. \<not> in_exclude i" for "is"
    using that by (induction "is") (auto simp: mark_excluded_def)
  from this [of "filter (\<lambda>i. \<not> IsSidecarProtocol (in_Protocol i)) (xc_Inbounds c)"] assms show ?thesis
    by (simp add: xray_NewConfig_def split_inbounds sidecar_of_def sum_length_filter_compl add.commute)
qed

text \<open>Two inbounds with the tag of the API at the end of the list stop the program.\<close>

lemma drop_api_panics: "is_api a \<Longrightarrow> drop_api [a, a] = None"
  by (simp add: drop_api_def numeral_2_eq_2)

section \<open>Concrete runs\<close>

definition lab_outbounds :: json where
  "lab_outbounds = JArr [JObj [''tag'' \<mapsto> JStr ''block'', ''protocol'' \<mapsto> JStr ''blackhole'']]"

definition lab_geo :: "string \<rightharpoonup> json" where
  "lab_geo = [''ip'' \<mapsto> JArr [JStr ''geoip:private'']]"

definition lab_json :: JsonEnv where
  "lab_json =
    (let api = api_rule [''127.0.0.1'', ''::1'']; guard = malformedDomainGuardRule ''block''
     in \<lparr>je_Unmarshal = (\<lambda>raw. if raw = ''A'' then Inr api else if raw = ''B'' then Inr guard else if raw = ''G'' then Inr lab_geo
                        else if raw = ''N'' then Inr (normal_rule lab_geo) else Inl ''unexpected end of JSON input''),
         je_Marshal = (\<lambda>obj. if obj = api then Inr ''A'' else if obj = guard then Inr ''B''
                        else if obj = normal_rule lab_geo then Inr ''N'' else Inl ''unsupported value'')\<rparr>)"

definition lab_inbound :: XInbound where
  "lab_inbound = \<lparr>in_Tag = ''vless-in'', in_Listen = ''0.0.0.0'', in_Port = JNum ''443'', in_Protocol = ''vless'',
     in_Settings = Map.empty, in_exclude = False, in_clients = Map.empty, in_ClientsOut = None\<rparr>"

definition lab_xconfig :: XConfig where
  "lab_xconfig = \<lparr>xc_LogConfig = None, xc_Rules = Some [''G'', ''A''], xc_Inbounds = [api_inbound 9, lab_inbound],
     xc_Outbounds = lab_outbounds, xc_Policy = None, xc_API = None, xc_Metrics = Map.empty, xc_Observatory = None,
     xc_BurstObservatory = None, xc_sidecarInbounds = []\<rparr>"

lemma lab_blackhole: "blackholeOutboundTag lab_outbounds = ''block''"
  by (simp add: blackholeOutboundTag_def lab_outbounds_def outboundProtocolByTag_def outbound_step_def text_member_def Let_def
      map_get_def trim_space_def is_space_def) (simp add: to_lower_def lower_char_def)

lemma lab_rule_keys:
  "api_rule s ''ruleTag'' = None" "malformedDomainGuardRule t ''ruleTag'' = Some (JStr malformedDomainGuardRuleTag)"
  "normal_rule lab_geo ''outboundTag'' = None" "api_rule s ''outboundTag'' = Some (JStr ''API'')"
  "malformedDomainGuardRule t ''outboundTag'' = Some (JStr t)"
  by (simp_all add: api_rule_def malformedDomainGuardRule_def normal_rule_def lab_geo_def)

lemma lab_reads_back:
  "\<forall>obj \<in> set (own_rules (apiRuleSources None) lab_outbounds) \<union> normal_rule ` set [lab_geo, api_rule (apiRuleSources None)].
     json_reads_back lab_json obj"
proof -
  have "malformedDomainGuardRule t \<noteq> api_rule s" "normal_rule lab_geo \<noteq> api_rule s" "normal_rule lab_geo \<noteq> malformedDomainGuardRule t" for s t
    using lab_rule_keys by (metis option.distinct(1))+
  moreover have "normal_rule (api_rule [''127.0.0.1'', ''::1'']) = api_rule [''127.0.0.1'', ''::1'']"
    by (rule own_rules_settled [of "[''127.0.0.1'', ''::1'']" _ lab_outbounds]) (simp_all add: own_rules_def to_lower_def)
  ultimately show ?thesis
    by (simp add: own_rules_def lab_blackhole apiRuleSources_def json_reads_back_def lab_json_def Let_def)
qed

lemma lab_rules_decode:
  "map (je_Unmarshal lab_json) (case xc_Rules lab_xconfig of None \<Rightarrow> [] | Some rs \<Rightarrow> rs) = map Inr [lab_geo, api_rule (apiRuleSources None)]"
  by (simp add: lab_xconfig_def lab_json_def apiRuleSources_def Let_def)

lemma lab_one_api: "length (filter (\<lambda>i. in_Tag i = ''API_INBOUND'') (xc_Inbounds lab_xconfig)) \<le> 1"
  by (simp add: lab_xconfig_def api_inbound_def lab_inbound_def)

theorem ApplyAPI_exact_witness:
  "\<exists>c' rs. ApplyAPI lab_json None 10085 10086 lab_xconfig = Some (Inr c') \<and>
    map in_Tag (xc_Inbounds c') = [''API_INBOUND'', ''vless-in''] \<and> xc_Rules c' = Some rs \<and>
    map (je_Unmarshal lab_json) rs =
      map Inr [api_rule [''127.0.0.1'', ''::1''], malformedDomainGuardRule ''block'', normal_rule lab_geo]"
proof -
  have own: "own_rules (apiRuleSources None) (xc_Outbounds lab_xconfig) =
      [api_rule [''127.0.0.1'', ''::1''], malformedDomainGuardRule ''block'']"
    by (simp add: own_rules_def lab_xconfig_def lab_blackhole apiRuleSources_def)
  have foreign: "filter foreign_rule [lab_geo, api_rule (apiRuleSources None)] = [lab_geo]"
    by (simp add: foreign_rule_def lab_rule_keys) (simp add: lab_geo_def)
  have out: "xc_Outbounds lab_xconfig = lab_outbounds"
    by (simp add: lab_xconfig_def)
  obtain c' rs where "ApplyAPI lab_json None 10085 10086 lab_xconfig = Some (Inr c')"
    "xc_Inbounds c' = api_inbound 10085 # filter (\<lambda>i. in_Tag i \<noteq> ''API_INBOUND'') (xc_Inbounds lab_xconfig)" "xc_Rules c' = Some rs"
    "map (je_Unmarshal lab_json) rs = map Inr (own_rules (apiRuleSources None) (xc_Outbounds lab_xconfig) @
       map normal_rule (filter foreign_rule [lab_geo, api_rule (apiRuleSources None)]))"
    using ApplyAPI_exact [OF lab_rules_decode, of None 10085 10086] lab_reads_back lab_one_api unfolding out by blast
  then show ?thesis
    unfolding own foreign by (intro exI conjI) (auto simp: lab_xconfig_def api_inbound_def lab_inbound_def)
qed

theorem ApplyAPI_idempotent_witness:
  "\<exists>c'. ApplyAPI lab_json None 10085 10086 lab_xconfig = Some (Inr c') \<and>
    ApplyAPI lab_json None 10085 10086 c' = Some (Inr c')"
proof -
  have out: "xc_Outbounds lab_xconfig = lab_outbounds"
    by (simp add: lab_xconfig_def)
  have sources: "\<forall>s \<in> set (apiRuleSources None). to_lower s \<noteq> ''geoip:private''"
    by (simp add: apiRuleSources_def to_lower_def)
  have reads: "\<forall>obj \<in> set (own_rules (apiRuleSources None) (xc_Outbounds lab_xconfig)) \<union>
      normal_rule ` set [lab_geo, api_rule (apiRuleSources None)]. json_reads_back lab_json obj"
    unfolding out by (rule lab_reads_back)
  obtain ns where ns: "normalizeGeoIPPrivateRules lab_json (case xc_Rules lab_xconfig of None \<Rightarrow> [] | Some rs \<Rightarrow> rs) = Inr ns"
    "map (je_Unmarshal lab_json) ns = map Inr (map normal_rule [lab_geo, api_rule (apiRuleSources None)])"
    using normalize_total [OF lab_rules_decode] reads by blast
  obtain fs pre where "filterRules lab_json ''API'' ns = Inr fs"
    "prepend_rules lab_json (apiRuleSources None) (xc_Outbounds lab_xconfig) = Inr pre"
    using filterRules_total [OF ns(2)] prepend_rules_total [of "apiRuleSources None" "xc_Outbounds lab_xconfig" lab_json] reads by blast
  then have "\<exists>c'. ApplyAPI lab_json None 10085 10086 lab_xconfig = Some (Inr c')"
    using ApplyAPI_parts [OF drop_api_filter [OF lab_one_api] ns(1)] by blast
  then show ?thesis
    using ApplyAPI_idempotent [OF lab_rules_decode reads lab_one_api sources] by blast
qed

theorem NewConfig_splits_witness:
  "\<exists>c'. xray_NewConfig (\<lambda>_. Inr (lab_xconfig\<lparr>xc_Inbounds := [lab_inbound, lab_inbound\<lparr>in_Tag := ''tuic-in'', in_Protocol := ''TUIC''\<rparr>]\<rparr>))
      (\<lambda>_. 443) (\<lambda>_. 0) ''{}'' [''vless-in'', ''tuic-in''] = Inr c' \<and>
    map in_Tag (xc_Inbounds c') = [''vless-in''] \<and> (\<forall>i \<in> set (xc_Inbounds c'). in_exclude i) \<and>
    map sb_Tag (xc_sidecarInbounds c') = [''tuic-in'']"
proof -
  let ?c = "lab_xconfig\<lparr>xc_Inbounds := [lab_inbound, lab_inbound\<lparr>in_Tag := ''tuic-in'', in_Protocol := ''TUIC''\<rparr>]\<rparr>"
  have protocols: "\<not> IsSidecarProtocol ''vless''" "IsSidecarProtocol ''TUIC''"
    by code_simp+
  obtain c' where c': "xray_NewConfig (\<lambda>_. Inr ?c) (\<lambda>_. 443) (\<lambda>_. 0) ''{}'' [''vless-in'', ''tuic-in''] = Inr c'"
    "map (\<lambda>i. i\<lparr>in_exclude := False\<rparr>) (xc_Inbounds c') = filter (\<lambda>i. \<not> IsSidecarProtocol (in_Protocol i)) (xc_Inbounds ?c)"
    "\<forall>i \<in> set (xc_Inbounds c'). in_exclude i \<longleftrightarrow> in_Tag i \<in> set [''vless-in'', ''tuic-in'']"
    "map (\<lambda>i. (sb_Tag i, sb_Protocol i, sb_Listen i)) (xc_sidecarInbounds c') =
       map (\<lambda>i. (in_Tag i, in_Protocol i, in_Listen i)) (filter (\<lambda>i. IsSidecarProtocol (in_Protocol i)) (xc_Inbounds ?c))"
    using NewConfig_splits [of "\<lambda>_. Inr ?c" "''{}''" ?c "\<lambda>_. 443" "\<lambda>_. 0" "[''vless-in'', ''tuic-in'']"]
    by (auto simp: lab_inbound_def)
  from arg_cong [OF c'(2), of "map in_Tag"] have tags: "map in_Tag (xc_Inbounds c') = [''vless-in'']"
    using protocols by (simp add: lab_inbound_def o_def)
  have "in_Tag i = ''vless-in''" if "i \<in> set (xc_Inbounds c')" for i
    using arg_cong [OF tags, of set] that by auto
  moreover from arg_cong [OF c'(4), of "map fst"] have "map sb_Tag (xc_sidecarInbounds c') = [''tuic-in'']"
    using protocols by (simp add: lab_inbound_def o_def)
  ultimately show ?thesis
    using c'(1,3) tags by (intro exI [of _ c']) auto
qed

end
