(* ===== verification/XrayLog.thy ===== *)
theory XrayLog
  imports ChapSecrets
begin

text \<open>
  The logs of the Xray process: the ring of recent lines and the start-up diagnostics of
  \<open>backend/xray/startup_diagnostics.go\<close>, the capture of the output in \<open>backend/xray/log.go\<close>, the files of
  \<open>logger/logger.go\<close>, and the struct \<open>Core\<close> of \<open>backend/xray/core.go\<close> that holds them. The ring refines the plain
  list of the last lines, which is stated once for every bounded log as a locale.
\<close>

section \<open>The ring of recent lines\<close>

record startupLogRing =
  rg_lines :: "string list"
  rg_next :: nat
  rg_full :: bool

definition newStartupLogRing :: "int \<Rightarrow> startupLogRing" where
  "newStartupLogRing sz =
    (let sz' = (if sz \<le> 0 then 1 else sz)
     in \<lparr>rg_lines = replicate (nat sz') [], rg_next = 0, rg_full = False\<rparr>)"

definition ring_reset :: "startupLogRing \<Rightarrow> startupLogRing" where
  "ring_reset r = r\<lparr>rg_next := 0, rg_full := False, rg_lines := map (\<lambda>_. []) (rg_lines r)\<rparr>"

definition ring_add :: "string \<Rightarrow> startupLogRing \<Rightarrow> startupLogRing" where
  "ring_add l r =
    (if length (rg_lines r) = 0 then r
     else let r1 = r\<lparr>rg_lines := (rg_lines r)[rg_next r := l], rg_next := (rg_next r + 1) mod length (rg_lines r)\<rparr>
          in if rg_next r1 = 0 then r1\<lparr>rg_full := True\<rparr> else r1)"

definition ring_tail :: "int \<Rightarrow> startupLogRing \<Rightarrow> string list" where
  "ring_tail n r =
    (let count = (if rg_full r then length (rg_lines r) else rg_next r)
     in if count = 0 then []
        else let m = (if n \<le> 0 \<or> n > int count then count else nat n);
                 oldest = (if rg_full r then rg_next r else 0);
                 start = count - m
             in map (\<lambda>i. rg_lines r ! ((oldest + start + i) mod length (rg_lines r))) [0..<m])"

text \<open>The last \<open>n\<close> elements of a list, and what a caller of \<open>tail\<close> asks for: all of them when \<open>n\<close> is not positive.\<close>

definition last_n :: "nat \<Rightarrow> 'a list \<Rightarrow> 'a list" where
  "last_n n xs = drop (length xs - n) xs"

definition recent :: "int \<Rightarrow> 'a list \<Rightarrow> 'a list" where
  "recent n xs = (if n \<le> 0 then xs else last_n (nat n) xs)"

lemma last_n_all [simp]: "length xs \<le> n \<Longrightarrow> last_n n xs = xs"
  by (simp add: last_n_def)

lemma last_n_Nil [simp]: "last_n n [] = []"
  by (simp add: last_n_def)

lemma length_last_n [simp]: "length (last_n n xs) = min n (length xs)"
  by (simp add: last_n_def)

lemma nth_last_n: "i < min n (length xs) \<Longrightarrow> last_n n xs ! i = xs ! (length xs - n + i)"
  by (simp add: last_n_def add.commute)

lemma last_n_snoc: "last_n n (last_n n xs @ [x]) = last_n n (xs @ [x])"
  by (cases "n \<le> length xs") (auto simp: last_n_def Suc_diff_le)

lemma recent_all [simp]: "int (length xs) \<le> n \<Longrightarrow> recent n xs = xs"
  by (auto simp: recent_def)

subsection \<open>What a bounded log promises\<close>

text \<open>
  A log with room for \<open>cap\<close> lines: a reset empties it, a line that does not fit pushes the oldest one out, and
  \<open>tail\<close> gives the newest lines in the order they came.
\<close>

locale bounded_log =
  fixes cap :: "'r \<Rightarrow> nat" and ok :: "'r \<Rightarrow> bool" and content :: "'r \<Rightarrow> 'a list"
    and reset :: "'r \<Rightarrow> 'r" and add :: "'a \<Rightarrow> 'r \<Rightarrow> 'r" and tail :: "int \<Rightarrow> 'r \<Rightarrow> 'a list"
  assumes ok_reset: "ok r \<Longrightarrow> ok (reset r)" and ok_add: "ok r \<Longrightarrow> ok (add x r)"
    and cap_reset: "ok r \<Longrightarrow> cap (reset r) = cap r" and cap_add: "ok r \<Longrightarrow> cap (add x r) = cap r"
    and content_reset: "ok r \<Longrightarrow> content (reset r) = []"
    and content_add: "ok r \<Longrightarrow> content (add x r) = last_n (cap r) (content r @ [x])"
    and tail_content: "ok r \<Longrightarrow> tail n r = recent n (content r)"
begin

lemma log_run_laws: "ok r \<Longrightarrow> ok (fold add xs r) \<and> cap (fold add xs r) = cap r"
  by (induction xs arbitrary: r) (auto simp: ok_add cap_add)

lemma content_run:
  assumes "ok r" and "content r = last_n (cap r) ys"
  shows "content (fold add xs r) = last_n (cap r) (ys @ xs)"
  using assms
proof (induction xs arbitrary: r ys)
  case (Cons x xs)
  have "content (add x r) = last_n (cap (add x r)) (ys @ [x])"
    using Cons.prems by (simp add: content_add cap_add last_n_snoc)
  from Cons.IH [OF ok_add [OF Cons.prems(1)] this] show ?case
    using Cons.prems by (simp add: cap_add)
qed simp

lemma tail_run:
  assumes "ok r" shows "tail n (fold add xs (reset r)) = recent n (last_n (cap r) xs)"
proof -
  have o: "ok (reset r)" by (rule ok_reset [OF assms])
  have "content (fold add xs (reset r)) = last_n (cap r) xs"
    using content_run [OF o, of "[]" xs] assms by (simp add: content_reset cap_reset)
  then show ?thesis
    using tail_content [of "fold add xs (reset r)"] log_run_laws [OF o] by simp
qed

lemma tail_bounded:
  assumes "ok r" shows "length (tail n (fold add xs (reset r))) \<le> cap r"
  unfolding tail_run [OF assms] by (auto simp: recent_def)

end

subsection \<open>The ring keeps the promise\<close>

definition ring_ok :: "startupLogRing \<Rightarrow> bool" where
  "ring_ok r \<longleftrightarrow> rg_next r < length (rg_lines r)"

definition ring_cap :: "startupLogRing \<Rightarrow> nat" where
  "ring_cap r = length (rg_lines r)"

definition ring_content :: "startupLogRing \<Rightarrow> string list" where
  "ring_content r = (if rg_full r then drop (rg_next r) (rg_lines r) @ take (rg_next r) (rg_lines r) else take (rg_next r) (rg_lines r))"

lemma ring_new [simp]: "ring_ok (newStartupLogRing n)" "ring_content (newStartupLogRing n) = []"
  "ring_cap (newStartupLogRing n) = (if n \<le> 0 then 1 else nat n)" "ring_reset (newStartupLogRing n) = newStartupLogRing n"
  by (auto simp: ring_ok_def newStartupLogRing_def ring_content_def ring_cap_def ring_reset_def map_replicate_const)

lemma ring_content_add:
  assumes "ring_ok r" shows "ring_content (ring_add l r) = last_n (ring_cap r) (ring_content r @ [l])"
proof (cases "Suc (rg_next r) = length (rg_lines r)")
  case True
  then have nx: "rg_next (ring_add l r) = 0" "rg_full (ring_add l r)"
    and ls: "rg_lines (ring_add l r) = (rg_lines r)[rg_next r := l]"
    by (auto simp: ring_add_def Let_def)
  have e: "(rg_lines r)[rg_next r := l] = take (rg_next r) (rg_lines r) @ [l]"
    using True by (simp add: upd_conv_take_nth_drop)
  have d: "drop (rg_next r) (rg_lines r) = [rg_lines r ! rg_next r]"
    using True by (metis Cons_nth_drop_Suc drop_all lessI order_refl)
  show ?thesis
    using True nx ls e d by (auto simp: ring_content_def ring_cap_def last_n_def)
next
  case False
  then have lt: "Suc (rg_next r) < length (rg_lines r)" using assms by (simp add: ring_ok_def)
  then have nx: "rg_next (ring_add l r) = Suc (rg_next r)" "rg_full (ring_add l r) = rg_full r"
    and ls: "rg_lines (ring_add l r) = (rg_lines r)[rg_next r := l]"
    by (auto simp: ring_add_def Let_def)
  have t: "take (Suc (rg_next r)) ((rg_lines r)[rg_next r := l]) = take (rg_next r) (rg_lines r) @ [l]"
    using lt by (simp add: take_Suc_conv_app_nth)
  have d: "drop (Suc (rg_next r)) ((rg_lines r)[rg_next r := l]) = drop (Suc (rg_next r)) (rg_lines r)"
    by simp
  show ?thesis
    using lt nx ls t d by (auto simp: ring_content_def ring_cap_def last_n_def min_def)
qed

lemma ring_content_nth:
  assumes "ring_ok r" and "i < length (ring_content r)"
  shows "rg_lines r ! (((if rg_full r then rg_next r else 0) + i) mod length (rg_lines r)) = ring_content r ! i"
proof (cases "rg_full r")
  case True
  show ?thesis
  proof (cases "rg_next r + i < length (rg_lines r)")
    case True
    then show ?thesis using \<open>rg_full r\<close> by (auto simp: ring_content_def nth_append)
  next
    case False
    have "(rg_next r + i) mod length (rg_lines r) = rg_next r + i - length (rg_lines r)"
      using False assms \<open>rg_full r\<close> by (simp add: ring_content_def ring_ok_def mod_if)
    then show ?thesis
      using False \<open>rg_full r\<close> assms by (auto simp: ring_content_def ring_ok_def nth_append add.commute [of i])
  qed
next
  case False
  then show ?thesis using assms by (simp add: ring_content_def ring_ok_def)
qed

lemma ring_tail_content:
  assumes "ring_ok r" shows "ring_tail n r = recent n (ring_content r)"
proof -
  let ?c = "length (ring_content r)" and ?o = "if rg_full r then rg_next r else 0"
  let ?m = "if n \<le> 0 \<or> n > int ?c then ?c else nat n"
  have c: "(if rg_full r then length (rg_lines r) else rg_next r) = ?c"
    using assms by (auto simp: ring_content_def ring_ok_def)
  have "map (\<lambda>i. rg_lines r ! ((?o + (?c - ?m) + i) mod length (rg_lines r))) [0..<?m] = last_n ?m (ring_content r)"
  proof (rule nth_equalityI)
    fix i assume "i < length (map (\<lambda>i. rg_lines r ! ((?o + (?c - ?m) + i) mod length (rg_lines r))) [0..<?m])"
    then have i: "i < ?m" by simp
    have m: "?m \<le> ?c" by auto
    have "rg_lines r ! ((?o + ((?c - ?m) + i)) mod length (rg_lines r)) = ring_content r ! ((?c - ?m) + i)"
      by (rule ring_content_nth [OF assms]) (use i m in linarith)
    also have "\<dots> = last_n ?m (ring_content r) ! i" using i m by (simp add: nth_last_n)
    finally show "map (\<lambda>i. rg_lines r ! ((?o + (?c - ?m) + i) mod length (rg_lines r))) [0..<?m] ! i = last_n ?m (ring_content r) ! i"
      using i by (simp only: length_map length_upt nth_map nth_upt add.assoc minus_nat.diff_0 add_0)
  qed auto
  then show ?thesis
    unfolding ring_tail_def c Let_def by (auto simp: recent_def)
qed

interpretation rg: bounded_log ring_cap ring_ok ring_content ring_reset ring_add ring_tail
proof unfold_locales
  fix r :: startupLogRing and x :: string and n :: int
  show "ring_ok r \<Longrightarrow> ring_content (ring_add x r) = last_n (ring_cap r) (ring_content r @ [x])" by (rule ring_content_add)
  show "ring_ok r \<Longrightarrow> ring_tail n r = recent n (ring_content r)" by (rule ring_tail_content)
qed (auto simp: ring_ok_def ring_reset_def ring_add_def ring_cap_def ring_content_def Let_def)

section \<open>The log files\<close>

text \<open>
  \<open>logger/logger.go\<close>. A file is its path and whether it is still open; \<open>lg_written\<close> are the lines each path got. \<open>log.Logger\<close>
  ignores the error of writing to a closed file. \<open>openable\<close> tells the error of creating the directory or opening the file.
\<close>

datatype LogLevel = LogDebug | LogInfo | LogWarning | LogError | LogCritical

record Logger =
  lg_outputLogs :: bool
  lg_access :: "string option"
  lg_error :: "string option"
  lg_open :: "string list"
  lg_written :: "(string \<times> string) list"
  lg_printed :: "string list"

definition logger_New :: "bool \<Rightarrow> Logger" where
  "logger_New out = \<lparr>lg_outputLogs = out, lg_access = None, lg_error = None, lg_open = [], lg_written = [], lg_printed = []\<rparr>"

definition openLogFile :: "(string \<Rightarrow> string option) \<Rightarrow> string \<Rightarrow> string + string option" where
  "openLogFile openable path =
    (if path = [] then Inr None else case openable path of Some e \<Rightarrow> Inl e | None \<Rightarrow> Inr (Some path))"

definition SetLogFile :: "(string \<Rightarrow> string option) \<Rightarrow> string \<Rightarrow> string \<Rightarrow> Logger \<Rightarrow> string option \<times> Logger" where
  "SetLogFile openable accessPath errorPath l =
    (case openLogFile openable accessPath of
       Inl e \<Rightarrow> (Some (''failed to open access log: '' @ e), l)
     | Inr a \<Rightarrow>
         let l1 = (case a of None \<Rightarrow> l | Some p \<Rightarrow> l\<lparr>lg_access := Some p, lg_open := lg_open l @ [p]\<rparr>)
         in case openLogFile openable errorPath of
              Inl e \<Rightarrow> (Some (''failed to open error log: '' @ e), l1)
            | Inr b \<Rightarrow> (None, case b of None \<Rightarrow> l1 | Some p \<Rightarrow> l1\<lparr>lg_error := Some p, lg_open := lg_open l1 @ [p]\<rparr>))"

definition log_to :: "string option \<Rightarrow> string \<Rightarrow> Logger \<Rightarrow> Logger" where
  "log_to f message l =
    (case f of None \<Rightarrow> l | Some p \<Rightarrow> if p \<in> set (lg_open l) then l\<lparr>lg_written := lg_written l @ [(p, message)]\<rparr> else l)"

definition logger_Log :: "LogLevel \<Rightarrow> string \<Rightarrow> Logger \<Rightarrow> Logger" where
  "logger_Log level message l =
    (let l1 = (if level = LogError \<or> level = LogCritical then log_to (lg_error l) message l else log_to (lg_access l) message l)
     in if lg_outputLogs l1 then l1\<lparr>lg_printed := lg_printed l1 @ [message]\<rparr> else l1)"

definition logger_Close :: "Logger \<Rightarrow> Logger" where
  "logger_Close l = l\<lparr>lg_open := []\<rparr>"

section \<open>The core\<close>

text \<open>
  The struct \<open>Core\<close>. A process is a \<open>Cmd\<close> with a number of its own, because the code compares pointers, and \<open>cm_exited\<close> tells that its
  \<open>ProcessState\<close> is set. Channels and contexts are numbers, and \<open>xk_logsChan\<close> holds the lines not yet received from the log channel,
  whose capacity is \<open>xk_logsCap\<close>. \<open>xk_closed\<close> and \<open>xk_cancelled\<close> are the closed channels and the cancelled contexts.
\<close>

record Cmd =
  cm_id :: nat
  cm_pid :: int
  cm_exited :: bool

datatype LogPhase = LogPhaseRuntime | LogPhaseStartup

record Core =
  xk_executablePath :: string
  xk_assetsPath :: string
  xk_configPath :: string
  xk_version :: string
  xk_process :: "Cmd option"
  xk_processPID :: int
  xk_restarting :: bool
  xk_stopping :: bool
  xk_waitDone :: "nat option"
  xk_logsCap :: nat
  xk_logsChan :: "string list"
  xk_logPhase :: LogPhase
  xk_startupLogs :: "startupLogRing option"
  xk_startupLogSize :: int
  xk_startupFailure :: string
  xk_startupDiagnosticsEnabled :: bool
  xk_runtimeLogs :: startupLogRing
  xk_unixSocketPaths :: "string list"
  xk_logger :: "Logger option"
  xk_cancelFunc :: "nat option"
  xk_started :: nat
  xk_closed :: "nat list"
  xk_cancelled :: "nat list"

text \<open>The literal of \<open>NewXRayCore\<close>. A negative capacity of the channel would panic; the configuration never gives one.\<close>

definition new_xray_core :: "string \<Rightarrow> string \<Rightarrow> string \<Rightarrow> nat \<Rightarrow> int \<Rightarrow> Core" where
  "new_xray_core executablePath assetsPath configPath logBufferSize startupLogTailSize =
    \<lparr>xk_executablePath = executablePath, xk_assetsPath = assetsPath, xk_configPath = configPath, xk_version = [],
     xk_process = None, xk_processPID = 0, xk_restarting = False, xk_stopping = False, xk_waitDone = None,
     xk_logsCap = logBufferSize, xk_logsChan = [], xk_logPhase = LogPhaseRuntime, xk_startupLogs = None,
     xk_startupLogSize = (if startupLogTailSize \<le> 0 then 200 else startupLogTailSize), xk_startupFailure = [],
     xk_startupDiagnosticsEnabled = False, xk_runtimeLogs = newStartupLogRing 10, xk_unixSocketPaths = [], xk_logger = None,
     xk_cancelFunc = None, xk_started = 0, xk_closed = [], xk_cancelled = []\<rparr>"

section \<open>Start-up diagnostics\<close>

definition ClearStartupDiagnostics :: "Core \<Rightarrow> Core" where
  "ClearStartupDiagnostics c = c\<lparr>xk_startupFailure := [], xk_startupLogs := map_option ring_reset (xk_startupLogs c)\<rparr>"

definition EnableStartupDiagnostics :: "int \<Rightarrow> Core \<Rightarrow> Core" where
  "EnableStartupDiagnostics tailSize c =
    (let t1 = (if tailSize \<le> 0 then xk_startupLogSize c else tailSize);
         t2 = (if t1 \<le> 0 then 200 else t1);
         r = (case xk_startupLogs c of
                None \<Rightarrow> newStartupLogRing t2
              | Some r0 \<Rightarrow> if int (length (rg_lines r0)) \<noteq> t2 then newStartupLogRing t2 else ring_reset r0)
     in c\<lparr>xk_startupLogSize := t2, xk_startupLogs := Some r, xk_startupFailure := [], xk_startupDiagnosticsEnabled := True\<rparr>)"

definition DisableStartupDiagnostics :: "Core \<Rightarrow> Core" where
  "DisableStartupDiagnostics c = c\<lparr>xk_startupDiagnosticsEnabled := False, xk_startupFailure := [], xk_startupLogs := None\<rparr>"

definition setStartupLogPhase :: "Core \<Rightarrow> Core" where
  "setStartupLogPhase c = c\<lparr>xk_logPhase := LogPhaseStartup\<rparr>"

definition SwitchToRuntimeLogPhase :: "Core \<Rightarrow> Core" where
  "SwitchToRuntimeLogPhase c = DisableStartupDiagnostics (c\<lparr>xk_logPhase := LogPhaseRuntime\<rparr>)"

definition isStartupLogPhase :: "Core \<Rightarrow> bool" where
  "isStartupLogPhase c \<longleftrightarrow> xk_logPhase c = LogPhaseStartup"

definition startup_keywords :: "string list" where
  "startup_keywords =
    [''failed to start'', ''panic'', ''fatal'', ''permission denied'', ''no such file or directory'', ''cannot find'',
     ''failed to open'', ''failed to load'', ''failed to listen'']"

definition isStartupFailureLog :: "string \<Rightarrow> bool" where
  "isStartupFailureLog l =
    (let lower = to_lower l
     in if str_contains lower ''invalid request user id'' \<or> str_contains lower ''rejected proxy/'' then False
        else list_ex (str_contains lower) startup_keywords)"

definition RecordStartupLog :: "string \<Rightarrow> Core \<Rightarrow> Core" where
  "RecordStartupLog l c =
    (if \<not> xk_startupDiagnosticsEnabled c then c
     else let c1 = c\<lparr>xk_startupLogs := map_option (ring_add l) (xk_startupLogs c)\<rparr>
          in if isStartupFailureLog l then c1\<lparr>xk_startupFailure := l\<rparr> else c1)"

definition LatestStartupFailure :: "Core \<Rightarrow> string" where
  "LatestStartupFailure c = (if \<not> xk_startupDiagnosticsEnabled c then [] else xk_startupFailure c)"

definition StartupLogTail :: "int \<Rightarrow> Core \<Rightarrow> string list" where
  "StartupLogTail n c =
    (if \<not> xk_startupDiagnosticsEnabled c then []
     else case xk_startupLogs c of None \<Rightarrow> [] | Some r \<Rightarrow> ring_tail n r)"

definition RecordRuntimeLog :: "string \<Rightarrow> Core \<Rightarrow> Core" where
  "RecordRuntimeLog l c = c\<lparr>xk_runtimeLogs := ring_add l (xk_runtimeLogs c)\<rparr>"

definition RuntimeLogTail :: "int \<Rightarrow> Core \<Rightarrow> string list" where
  "RuntimeLogTail n c = ring_tail n (xk_runtimeLogs c)"

section \<open>Capturing the output\<close>

text \<open>
  The pattern of access lines as a sequence of parts: a fixed text, one of several texts, or one or more characters of
  a kind (\<open>.+\<close> does not run over a line break). \<open>part_rests\<close> are the rests of the string after each way to match a part.
\<close>

datatype part = Lit string | OneOf "string list" | Some_char | Some_digits

fun run_rests :: "(char \<Rightarrow> bool) \<Rightarrow> string \<Rightarrow> string list" where
  "run_rests P [] = []"
| "run_rests P (c # cs) = (if P c then cs # run_rests P cs else [])"

fun part_rests :: "part \<Rightarrow> string \<Rightarrow> string list" where
  "part_rests (Lit l) s = (if has_prefix s l then [drop (length l) s] else [])"
| "part_rests (OneOf ls) s = map (\<lambda>l. drop (length l) s) (filter (has_prefix s) ls)"
| "part_rests Some_char s = run_rests (\<lambda>c. c \<noteq> nl) s"
| "part_rests Some_digits s = run_rests (\<lambda>c. 48 \<le> (of_char c :: nat) \<and> (of_char c :: nat) \<le> 57) s"

fun parts_match :: "part list \<Rightarrow> string \<Rightarrow> bool" where
  "parts_match [] s = True"
| "parts_match (p # ps) s = list_ex (parts_match ps) (part_rests p s)"

fun MatchString :: "part list \<Rightarrow> string \<Rightarrow> bool" where
  "MatchString ps [] = parts_match ps []"
| "MatchString ps (c # cs) = (parts_match ps (c # cs) \<or> MatchString ps cs)"

definition accessLogPattern :: "part list" where
  "accessLogPattern =
    [Lit ''from '', Some_char, Lit '':'', Some_digits, Lit '' accepted '', OneOf [''tcp'', ''udp''], Lit '':'', Some_char, Lit '':'',
     Some_digits, Lit '' ['', Some_char, Lit ''] email: '', Some_char]"

definition detectLogType :: "string \<Rightarrow> Core \<Rightarrow> Core" where
  "detectLogType l c =
    (case xk_logger c of
       None \<Rightarrow> c
     | Some lg \<Rightarrow> c\<lparr>xk_logger := Some (logger_Log (if MatchString accessLogPattern l then LogInfo else LogError) l lg)\<rparr>)"

definition send_log :: "string \<Rightarrow> Core \<Rightarrow> Core" where
  "send_log l c = (if length (xk_logsChan c) < xk_logsCap c then c\<lparr>xk_logsChan := xk_logsChan c @ [l]\<rparr> else c)"

definition captureStartupLogLine :: "string \<Rightarrow> Core \<Rightarrow> Core" where
  "captureStartupLogLine l c = detectLogType l (send_log l (RecordStartupLog l c))"

definition captureRuntimeLogLine :: "string \<Rightarrow> Core \<Rightarrow> Core" where
  "captureRuntimeLogLine l c = detectLogType l (send_log l (RecordRuntimeLog l c))"

definition recordProcessLog :: "string \<Rightarrow> Core \<Rightarrow> Core" where
  "recordProcessLog l c = (if isStartupLogPhase c then captureStartupLogLine l c else captureRuntimeLogLine l c)"

text \<open>
  The goroutine that reads the output of the process started with the context \<open>ctx\<close>. The lines are the ones the scanner splits the output
  into; its buffer holds a mebibyte, line break included: a longer line ends the scan. \<open>None\<close> is the end of the goroutine, \<open>Some\<close> the core after a line when it goes on.
\<close>

definition scan_limit :: nat where
  "scan_limit = 1024 * 1024"

definition capture_line :: "nat \<Rightarrow> string \<Rightarrow> Core \<Rightarrow> Core option" where
  "capture_line ctx l c =
    (if scan_limit \<le> length l then None
     else if ctx \<in> set (xk_cancelled c) then None
     else Some (if isStartupLogPhase c then captureStartupLogLine l c else captureRuntimeLogLine l c))"

fun captureProcessLogs :: "nat \<Rightarrow> string list \<Rightarrow> Core \<Rightarrow> Core" where
  "captureProcessLogs ctx [] c = c"
| "captureProcessLogs ctx (l # ls) c = (case capture_line ctx l c of None \<Rightarrow> c | Some c' \<Rightarrow> captureProcessLogs ctx ls c')"

section \<open>What the diagnostics hold\<close>

text \<open>Which fields the steps of the capture leave alone.\<close>

lemma detectLogType_fields [simp]:
  "xk_startupLogs (detectLogType l c) = xk_startupLogs c" "xk_startupFailure (detectLogType l c) = xk_startupFailure c"
  "xk_startupDiagnosticsEnabled (detectLogType l c) = xk_startupDiagnosticsEnabled c"
  "xk_logPhase (detectLogType l c) = xk_logPhase c" "xk_cancelled (detectLogType l c) = xk_cancelled c"
  "xk_runtimeLogs (detectLogType l c) = xk_runtimeLogs c" "xk_logsChan (detectLogType l c) = xk_logsChan c"
  "xk_logsCap (detectLogType l c) = xk_logsCap c" "xk_process (detectLogType l c) = xk_process c"
  "xk_stopping (detectLogType l c) = xk_stopping c"
  by (auto simp: detectLogType_def split: option.split)

lemma send_log_fields [simp]:
  "xk_startupLogs (send_log l c) = xk_startupLogs c" "xk_startupFailure (send_log l c) = xk_startupFailure c"
  "xk_startupDiagnosticsEnabled (send_log l c) = xk_startupDiagnosticsEnabled c"
  "xk_logPhase (send_log l c) = xk_logPhase c" "xk_cancelled (send_log l c) = xk_cancelled c"
  "xk_runtimeLogs (send_log l c) = xk_runtimeLogs c" "xk_logsCap (send_log l c) = xk_logsCap c"
  "xk_logger (send_log l c) = xk_logger c" "xk_process (send_log l c) = xk_process c" "xk_stopping (send_log l c) = xk_stopping c"
  by (auto simp: send_log_def)

lemma RecordStartupLog_fields [simp]:
  "xk_startupDiagnosticsEnabled (RecordStartupLog l c) = xk_startupDiagnosticsEnabled c"
  "xk_logPhase (RecordStartupLog l c) = xk_logPhase c" "xk_cancelled (RecordStartupLog l c) = xk_cancelled c"
  "xk_runtimeLogs (RecordStartupLog l c) = xk_runtimeLogs c" "xk_logsCap (RecordStartupLog l c) = xk_logsCap c"
  "xk_logsChan (RecordStartupLog l c) = xk_logsChan c" "xk_logger (RecordStartupLog l c) = xk_logger c"
  "xk_process (RecordStartupLog l c) = xk_process c" "xk_stopping (RecordStartupLog l c) = xk_stopping c"
  by (auto simp: RecordStartupLog_def Let_def)

lemma RecordRuntimeLog_fields [simp]:
  "xk_startupLogs (RecordRuntimeLog l c) = xk_startupLogs c" "xk_startupFailure (RecordRuntimeLog l c) = xk_startupFailure c"
  "xk_startupDiagnosticsEnabled (RecordRuntimeLog l c) = xk_startupDiagnosticsEnabled c"
  "xk_logPhase (RecordRuntimeLog l c) = xk_logPhase c" "xk_cancelled (RecordRuntimeLog l c) = xk_cancelled c"
  "xk_logsCap (RecordRuntimeLog l c) = xk_logsCap c" "xk_logsChan (RecordRuntimeLog l c) = xk_logsChan c"
  "xk_logger (RecordRuntimeLog l c) = xk_logger c"
  by (auto simp: RecordRuntimeLog_def)

lemma captureStartup_fields [simp]:
  "xk_startupDiagnosticsEnabled (captureStartupLogLine l c) = xk_startupDiagnosticsEnabled c"
  "xk_logPhase (captureStartupLogLine l c) = xk_logPhase c" "xk_cancelled (captureStartupLogLine l c) = xk_cancelled c"
  "xk_runtimeLogs (captureStartupLogLine l c) = xk_runtimeLogs c" "xk_logsCap (captureStartupLogLine l c) = xk_logsCap c"
  "xk_process (captureStartupLogLine l c) = xk_process c" "xk_stopping (captureStartupLogLine l c) = xk_stopping c"
  by (simp_all add: captureStartupLogLine_def)

lemma captureRuntime_fields [simp]:
  "xk_startupLogs (captureRuntimeLogLine l c) = xk_startupLogs c" "xk_startupFailure (captureRuntimeLogLine l c) = xk_startupFailure c"
  "xk_logPhase (captureRuntimeLogLine l c) = xk_logPhase c" "xk_cancelled (captureRuntimeLogLine l c) = xk_cancelled c"
  "xk_runtimeLogs (captureRuntimeLogLine l c) = ring_add l (xk_runtimeLogs c)"
  "xk_logsCap (captureRuntimeLogLine l c) = xk_logsCap c"
  by (simp_all add: captureRuntimeLogLine_def RecordRuntimeLog_def)

lemma capture_logsChan:
  assumes "length (xk_logsChan c) \<le> xk_logsCap c"
  shows "xk_logsChan (captureStartupLogLine l c) = take (xk_logsCap c) (xk_logsChan c @ [l])"
    and "xk_logsChan (captureRuntimeLogLine l c) = take (xk_logsCap c) (xk_logsChan c @ [l])"
  using assms by (auto simp: captureStartupLogLine_def captureRuntimeLogLine_def send_log_def)

text \<open>A goroutine that is not cancelled, on lines that fit, is a fold.\<close>

lemma captureProcessLogs_startup:
  assumes "ctx \<notin> set (xk_cancelled c)" and "isStartupLogPhase c" and "\<forall>l\<in>set ls. length l < scan_limit"
  shows "captureProcessLogs ctx ls c = fold captureStartupLogLine ls c"
  using assms by (induction ls arbitrary: c) (auto simp: capture_line_def isStartupLogPhase_def)

lemma captureProcessLogs_runtime:
  assumes "ctx \<notin> set (xk_cancelled c)" and "\<not> isStartupLogPhase c" and "\<forall>l\<in>set ls. length l < scan_limit"
  shows "captureProcessLogs ctx ls c = fold captureRuntimeLogLine ls c"
  using assms by (induction ls arbitrary: c) (auto simp: capture_line_def isStartupLogPhase_def)

lemma fold_captureStartup:
  assumes "xk_startupDiagnosticsEnabled c"
  shows "xk_startupLogs (fold captureStartupLogLine ls c) = map_option (fold ring_add ls) (xk_startupLogs c)"
    and "xk_startupFailure (fold captureStartupLogLine ls c) = fold (\<lambda>l f. if isStartupFailureLog l then l else f) ls (xk_startupFailure c)"
    and "xk_startupDiagnosticsEnabled (fold captureStartupLogLine ls c)"
    and "xk_runtimeLogs (fold captureStartupLogLine ls c) = xk_runtimeLogs c"
    and "xk_logPhase (fold captureStartupLogLine ls c) = xk_logPhase c"
proof -
  have "xk_startupLogs (fold captureStartupLogLine ls c) = map_option (fold ring_add ls) (xk_startupLogs c) \<and>
    xk_startupFailure (fold captureStartupLogLine ls c) = fold (\<lambda>l f. if isStartupFailureLog l then l else f) ls (xk_startupFailure c) \<and>
    xk_startupDiagnosticsEnabled (fold captureStartupLogLine ls c) \<and>
    xk_runtimeLogs (fold captureStartupLogLine ls c) = xk_runtimeLogs c \<and>
    xk_logPhase (fold captureStartupLogLine ls c) = xk_logPhase c" (is "?P ls c")
    using assms
  proof (induction ls arbitrary: c)
    case (Cons l ls)
    have s: "xk_startupLogs (captureStartupLogLine l c) = map_option (ring_add l) (xk_startupLogs c)"
      "xk_startupFailure (captureStartupLogLine l c) = (if isStartupFailureLog l then l else xk_startupFailure c)"
      using Cons.prems by (auto simp: captureStartupLogLine_def RecordStartupLog_def Let_def)
    have "?P ls (captureStartupLogLine l c)" by (rule Cons.IH) (simp add: Cons.prems)
    then show ?case by (simp add: s option.map_comp comp_def)
  qed (auto simp: option.map_id0 map_option_idI)
  then show "xk_startupLogs (fold captureStartupLogLine ls c) = map_option (fold ring_add ls) (xk_startupLogs c)"
    "xk_startupFailure (fold captureStartupLogLine ls c) = fold (\<lambda>l f. if isStartupFailureLog l then l else f) ls (xk_startupFailure c)"
    "xk_startupDiagnosticsEnabled (fold captureStartupLogLine ls c)"
    "xk_runtimeLogs (fold captureStartupLogLine ls c) = xk_runtimeLogs c"
    "xk_logPhase (fold captureStartupLogLine ls c) = xk_logPhase c" by blast+
qed

lemma fold_captureRuntime:
  "xk_runtimeLogs (fold captureRuntimeLogLine ls c) = fold ring_add ls (xk_runtimeLogs c)"
  "xk_logPhase (fold captureRuntimeLogLine ls c) = xk_logPhase c"
  by (induction ls arbitrary: c) auto

lemma fold_logsChan:
  assumes "length (xk_logsChan c) \<le> xk_logsCap c"
    and "\<And>l d. xk_logsCap (f l d) = xk_logsCap d"
    and "\<And>l d. length (xk_logsChan d) \<le> xk_logsCap d \<Longrightarrow> xk_logsChan (f l d) = take (xk_logsCap d) (xk_logsChan d @ [l])"
  shows "xk_logsChan (fold f ls c) = take (xk_logsCap c) (xk_logsChan c @ ls)"
  using assms(1)
proof (induction ls arbitrary: c)
  case (Cons l ls)
  have "xk_logsChan (fold f ls (f l c)) = take (xk_logsCap (f l c)) (xk_logsChan (f l c) @ ls)"
    using Cons.prems by (intro Cons.IH) (auto simp: assms(2,3))
  then show ?case using Cons.prems by (auto simp: assms(2,3) min_def take_Cons')
qed simp

text \<open>The last line that reports a failure, or nothing.\<close>

lemma last_failure:
  "fold (\<lambda>l f. if isStartupFailureLog l then l else f) ls f0 =
     (if filter isStartupFailureLog ls = [] then f0 else last (filter isStartupFailureLog ls))"
  by (induction ls arbitrary: f0) auto

lemma EnableStartupDiagnostics_ring:
  "\<exists>r. xk_startupLogs (EnableStartupDiagnostics t c) = Some r \<and> ring_ok r \<and>
     ring_cap r = nat (xk_startupLogSize (EnableStartupDiagnostics t c)) \<and> r = ring_reset r"
proof -
  define t2 where "t2 = (if t \<le> 0 then if xk_startupLogSize c \<le> 0 then 200 else xk_startupLogSize c else t)"
  have p: "0 < t2" "xk_startupLogSize (EnableStartupDiagnostics t c) = t2"
    by (auto simp: t2_def EnableStartupDiagnostics_def Let_def)
  have r: "ring_ok (ring_reset r) \<and> ring_cap (ring_reset r) = nat t2 \<and> ring_reset r = ring_reset (ring_reset r)"
    if "int (length (rg_lines r)) = t2" for r
    using that p(1) by (auto simp: ring_reset_def ring_ok_def ring_cap_def comp_def)
  have e: "xk_startupLogs (EnableStartupDiagnostics t c) =
      Some (case xk_startupLogs c of None \<Rightarrow> newStartupLogRing t2
            | Some r0 \<Rightarrow> if int (length (rg_lines r0)) \<noteq> t2 then newStartupLogRing t2 else ring_reset r0)"
    by (auto simp: EnableStartupDiagnostics_def Let_def t2_def split: option.split)
  show ?thesis
    unfolding e p(2) using p(1) r by (auto split: option.split)
qed

section \<open>Properties\<close>

text \<open>C30. The ring of recent lines refines the list of the lines written since the last reset: whatever was written before, tail n gives
  exactly the newest n of the last size lines in the order they were written, and all of them for n not positive; a ring made with a size
  that is not positive holds one line.\<close>

theorem log_ring_exact:
  "ring_tail n (fold ring_add ls (ring_reset (fold ring_add old (newStartupLogRing k)))) =
     recent n (last_n (if k \<le> 0 then 1 else nat k) ls)"
proof -
  let ?r = "fold ring_add old (newStartupLogRing k)"
  have "ring_ok ?r" "ring_cap ?r = (if k \<le> 0 then 1 else nat k)"
    using rg.log_run_laws [OF ring_new(1)] by auto
  then show ?thesis using rg.tail_run [of ?r n ls] by simp
qed

text \<open>The start-up diagnostics of a process: when they were enabled for \<open>t\<close> lines and the output is captured in the start-up phase, the tail is
  the newest lines of the output, the reported failure is its last line with a failure in it, the log channel gets the lines that fit and drops the
  rest without blocking, and the runtime log does not change.\<close>

theorem startup_capture_exact:
  assumes "0 < t" and "ctx \<notin> set (xk_cancelled c)" and "\<forall>l\<in>set ls. length l < scan_limit"
    and "length (xk_logsChan c) \<le> xk_logsCap c"
    and "c' = captureProcessLogs ctx ls (setStartupLogPhase (EnableStartupDiagnostics t c))"
  shows "StartupLogTail n c' = recent n (last_n (nat t) ls) \<and>
    LatestStartupFailure c' = (if filter isStartupFailureLog ls = [] then [] else last (filter isStartupFailureLog ls)) \<and>
    xk_logsChan c' = take (xk_logsCap c) (xk_logsChan c @ ls) \<and> xk_runtimeLogs c' = xk_runtimeLogs c"
proof -
  let ?c = "setStartupLogPhase (EnableStartupDiagnostics t c)"
  have f: "xk_startupDiagnosticsEnabled ?c" "isStartupLogPhase ?c" "ctx \<notin> set (xk_cancelled ?c)" "xk_startupFailure ?c = []"
    "xk_logsChan ?c = xk_logsChan c" "xk_logsCap ?c = xk_logsCap c" "xk_runtimeLogs ?c = xk_runtimeLogs c"
    "xk_startupLogs ?c = xk_startupLogs (EnableStartupDiagnostics t c)"
    using assms(2) by (auto simp: EnableStartupDiagnostics_def setStartupLogPhase_def isStartupLogPhase_def Let_def)
  have e: "c' = fold captureStartupLogLine ls ?c"
    unfolding assms(5) by (rule captureProcessLogs_startup [OF f(3,2) assms(3)])
  obtain r where r: "xk_startupLogs ?c = Some r" "ring_ok r" "ring_cap r = nat t" "r = ring_reset r"
    using EnableStartupDiagnostics_ring [of t c] assms(1) f(8) by (auto simp: EnableStartupDiagnostics_def Let_def)
  have t: "ring_tail n (fold ring_add ls r) = recent n (last_n (nat t) ls)"
    using rg.tail_run [OF r(2), of n ls] r(3,4) by simp
  have "xk_logsChan c' = take (xk_logsCap ?c) (xk_logsChan ?c @ ls)"
    unfolding e by (rule fold_logsChan) (simp_all add: f(5,6) assms(4) capture_logsChan)
  then show ?thesis
    using fold_captureStartup [OF f(1), of ls] r(1) t f
    by (simp add: e StartupLogTail_def LatestStartupFailure_def last_failure)
qed

theorem startup_capture_exact_witness:
  "let c = new_xray_core ''/x'' ''/a'' ''/c'' 2 0;
       ls = [''one'', ''Failed to listen TCP'', ''three''];
       c' = captureProcessLogs 0 ls (setStartupLogPhase (EnableStartupDiagnostics 2 c))
   in StartupLogTail 0 c' = [''Failed to listen TCP'', ''three''] \<and> LatestStartupFailure c' = ''Failed to listen TCP'' \<and>
      xk_logsChan c' = [''one'', ''Failed to listen TCP'']"
proof -
  let ?c = "new_xray_core ''/x'' ''/a'' ''/c'' 2 0" and ?ls = "[''one'', ''Failed to listen TCP'', ''three'']"
  have f: "filter isStartupFailureLog ?ls = [''Failed to listen TCP'']" by code_simp
  have h: "(0::int) < 2" "0 \<notin> set (xk_cancelled ?c)" "\<forall>l\<in>set ?ls. length l < scan_limit" "length (xk_logsChan ?c) \<le> xk_logsCap ?c"
    by (simp_all add: new_xray_core_def scan_limit_def)
  show ?thesis
    using startup_capture_exact [OF h refl, of 0] f by (simp add: Let_def recent_def last_n_def new_xray_core_def)
qed

end
