(* ===== verification/XrayProcess.thy ===== *)
theory XrayProcess
  imports XrayLog Ppp
begin

text \<open>
  The processes of Xray on a Unix host: \<open>backend/xray/process_unix.go\<close> and the clean-up of orphans in \<open>backend/xray/core.go\<close>. The
  system is what it answers to the node: the files under \<open>/proc\<close>, the output of \<open>ps\<close> and the result of a signal are functions of
  the signals sent so far and of the time. The theory shows which processes the clean-up finds, which it signals and what
  that means for the node itself.
\<close>

section \<open>The system\<close>

datatype Signal = SIGTERM | SIGKILL | Signal0

text \<open>
  The signals that were sent, each with the target of \<open>kill\<close> (a negative target is a process group), and the number of
  pauses of 100 ms that have passed.
\<close>

record Sys =
  sy_signals :: "(int \<times> Signal) list"
  sy_clock :: nat

text \<open>
  What the system answers: \<open>filepath.Abs\<close>, \<open>filepath.EvalSymlinks\<close>, the entries of \<open>/proc\<close> (name and whether it is a directory),
  the link \<open>exe\<close> and the file \<open>stat\<close> of a process, the outputs of \<open>ps -eo pid,ppid,state,command\<close>, \<open>ps -p pid -o command=\<close> and
  \<open>ps -p pid -o state=\<close>, the error of \<open>os.FindProcess\<close>, whether a signal is accepted, and \<open>runtime.GOOS\<close>.
\<close>

record ProcEnv =
  pe_linux :: bool
  pe_Abs :: "string \<Rightarrow> string + string"
  pe_EvalSymlinks :: "string \<Rightarrow> string + string"
  pe_ReadDir :: "Sys \<Rightarrow> string + (string \<times> bool) list"
  pe_exe :: "Sys \<Rightarrow> int \<Rightarrow> string + string"
  pe_stat :: "Sys \<Rightarrow> int \<Rightarrow> string + string"
  pe_ps :: "Sys \<Rightarrow> string + string"
  pe_ps_command :: "Sys \<Rightarrow> int \<Rightarrow> string + string"
  pe_ps_state :: "Sys \<Rightarrow> int \<Rightarrow> string + string"
  pe_FindProcess :: "int \<Rightarrow> string option"
  pe_accepts :: "Sys \<Rightarrow> int \<Rightarrow> Signal \<Rightarrow> bool"

definition send_signal :: "int \<Rightarrow> Signal \<Rightarrow> Sys \<Rightarrow> Sys" where
  "send_signal target sig s = s\<lparr>sy_signals := sy_signals s @ [(target, sig)]\<rparr>"

definition pause_100ms :: "Sys \<Rightarrow> Sys" where
  "pause_100ms s = s\<lparr>sy_clock := sy_clock s + 1\<rparr>"

section \<open>Numbers and paths\<close>

text \<open>\<open>strconv.Atoi\<close>: \<open>None\<close> is an error.\<close>

definition Atoi :: "string \<Rightarrow> int option" where
  "Atoi s =
    (if s = [] then None
     else let neg = (hd s = CHR ''-'');
              digits = (if hd s = CHR ''-'' \<or> hd s = CHR ''+'' then tl s else s)
          in case ParseUint digits of
               Inl _ \<Rightarrow> None
             | Inr n \<Rightarrow>
                 if \<not> neg \<and> n \<ge> 2 ^ 63 then None
                 else if neg \<and> n > 2 ^ 63 then None
                 else Some (if neg then - int n else int n))"

text \<open>\<open>filepath.Base\<close>.\<close>

definition filepath_Base :: "string \<Rightarrow> string" where
  "filepath_Base p =
    (if p = [] then ''.''
     else let q = dropWhile (\<lambda>c. c = CHR ''/'') (rev p)
          in if q = [] then ''/'' else rev (takeWhile (\<lambda>c. c \<noteq> CHR ''/'') q))"

definition pathsMatch :: "ProcEnv \<Rightarrow> string \<Rightarrow> string \<Rightarrow> bool" where
  "pathsMatch env candidate target =
    (if candidate = [] \<or> target = [] then False
     else case (pe_Abs env candidate, pe_Abs env target) of
            (Inr candidateAbs, Inr targetAbs) \<Rightarrow>
              if candidateAbs = targetAbs then True
              else (case (pe_EvalSymlinks env candidateAbs, pe_EvalSymlinks env targetAbs) of
                      (Inr candidateReal, Inr targetReal) \<Rightarrow> candidateReal = targetReal
                    | _ \<Rightarrow> False)
          | _ \<Rightarrow> False)"

section \<open>Finding the processes of Xray\<close>

record ProcessInfo =
  pi_PID :: int
  pi_PPID :: int
  pi_IsZombie :: bool

definition zombie_state :: "string \<Rightarrow> bool" where
  "zombie_state state \<longleftrightarrow> state = ''Z'' \<or> state = ''z''"

definition proc_entry :: "ProcEnv \<Rightarrow> string \<Rightarrow> Sys \<Rightarrow> string \<times> bool \<Rightarrow> ProcessInfo option" where
  "proc_entry env absPath s entry =
    (if \<not> snd entry then None
     else case Atoi (fst entry) of
       None \<Rightarrow> None
     | Some pid \<Rightarrow>
         if pid \<le> 0 then None
         else case pe_exe env s pid of
           Inl _ \<Rightarrow> None
         | Inr exePath \<Rightarrow>
             if \<not> pathsMatch env exePath absPath then None
             else case pe_stat env s pid of
               Inl _ \<Rightarrow> None
             | Inr data \<Rightarrow>
                 let fields = str_fields data
                 in if length fields < 4 then None
                    else case Atoi (fields ! 3) of
                      None \<Rightarrow> None
                    | Some ppid \<Rightarrow> Some \<lparr>pi_PID = pid, pi_PPID = ppid, pi_IsZombie = zombie_state (fields ! 2)\<rparr>)"

definition findXrayProcessesFromProc :: "ProcEnv \<Rightarrow> string \<Rightarrow> Sys \<Rightarrow> string + ProcessInfo list" where
  "findXrayProcessesFromProc env absPath s =
    (case pe_ReadDir env s of
       Inl e \<Rightarrow> Inl e
     | Inr entries \<Rightarrow> Inr (List.map_filter (proc_entry env absPath s) entries))"

definition getProcessPath :: "ProcEnv \<Rightarrow> Sys \<Rightarrow> int \<Rightarrow> string + string" where
  "getProcessPath env s pid =
    (case pe_exe env s pid of
       Inr path \<Rightarrow> Inr path
     | Inl err \<Rightarrow>
         (case pe_ps_command env s pid of
            Inl psErr \<Rightarrow> Inl (''failed to read process path: '' @ err @ '' (ps fallback error: '' @ psErr @ '')'')
          | Inr psOutput \<Rightarrow>
              let cmdline = trim_space psOutput; fields = str_fields cmdline
              in if cmdline = [] \<or> fields = []
                 then Inl (''failed to read process path: empty command for pid '' @ show_int pid)
                 else Inr (hd fields)))"

definition ps_line :: "ProcEnv \<Rightarrow> string \<Rightarrow> Sys \<Rightarrow> string \<Rightarrow> ProcessInfo option" where
  "ps_line env absPath s raw =
    (let l = trim_space raw; fields = str_fields l
     in if l = [] \<or> has_prefix l ''PID'' then None
        else if length fields < 4 then None
        else case (Atoi (fields ! 0), Atoi (fields ! 1)) of
               (Some pid, Some ppid) \<Rightarrow>
                 let cmdPath = fields ! 3;
                     m1 = (case getProcessPath env s pid of Inr procPath \<Rightarrow> pathsMatch env procPath absPath | Inl _ \<Rightarrow> False);
                     m2 = (m1 \<or> pathsMatch env cmdPath absPath \<or> filepath_Base cmdPath = filepath_Base absPath)
                 in if \<not> m2 then None
                    else Some \<lparr>pi_PID = pid, pi_PPID = ppid, pi_IsZombie = zombie_state (fields ! 2)\<rparr>
             | _ \<Rightarrow> None)"

definition findXrayProcesses :: "ProcEnv \<Rightarrow> string \<Rightarrow> Sys \<Rightarrow> string + ProcessInfo list" where
  "findXrayProcesses env executablePath s =
    (case pe_Abs env executablePath of
       Inl e \<Rightarrow> Inl e
     | Inr absPath \<Rightarrow>
         (case (if pe_linux env then findXrayProcessesFromProc env absPath s else Inl []) of
            Inr procs \<Rightarrow> Inr procs
          | Inl _ \<Rightarrow>
              (case pe_ps env s of
                 Inl e \<Rightarrow> Inl (''failed to list processes: '' @ e)
               | Inr output \<Rightarrow> Inr (List.map_filter (ps_line env absPath s) (split_at_char nl output)))))"

section \<open>Killing a process\<close>

definition isProcessRunning :: "ProcEnv \<Rightarrow> Sys \<Rightarrow> int \<Rightarrow> bool" where
  "isProcessRunning env s pid = (case pe_FindProcess env pid of Some _ \<Rightarrow> False | None \<Rightarrow> pe_accepts env s pid Signal0)"

definition verifyProcessDead :: "ProcEnv \<Rightarrow> Sys \<Rightarrow> int \<Rightarrow> string option" where
  "verifyProcessDead env s pid =
    (if \<not> isProcessRunning env s pid then None else Some (''process '' @ show_int pid @ '' is still running''))"

definition getProcessGroupID :: "ProcEnv \<Rightarrow> Sys \<Rightarrow> int \<Rightarrow> string + int" where
  "getProcessGroupID env s pid =
    (case pe_stat env s pid of
       Inl e \<Rightarrow> Inl e
     | Inr data \<Rightarrow>
         let fields = str_fields data
         in if length fields < 5 then Inl ''invalid stat format''
            else case Atoi (fields ! 4) of None \<Rightarrow> Inl (''strconv.Atoi: '' @ fields ! 4) | Some pgid \<Rightarrow> Inr pgid)"

definition isProcessZombie :: "ProcEnv \<Rightarrow> Sys \<Rightarrow> int \<Rightarrow> bool" where
  "isProcessZombie env s pid =
    (case pe_stat env s pid of
       Inl _ \<Rightarrow>
         (case pe_ps_state env s pid of
            Inl _ \<Rightarrow> False
          | Inr out \<Rightarrow> let state = trim_space out in state \<noteq> [] \<and> (has_prefix state ''Z'' \<or> has_prefix state ''z''))
     | Inr data \<Rightarrow> let fields = str_fields data in length fields \<ge> 3 \<and> zombie_state (fields ! 2))"

fun wait_gone :: "ProcEnv \<Rightarrow> int \<Rightarrow> nat \<Rightarrow> Sys \<Rightarrow> bool \<times> Sys" where
  "wait_gone env pid 0 s = (False, s)"
| "wait_gone env pid (Suc tries) s = (if \<not> isProcessRunning env s pid then (True, s) else wait_gone env pid tries (pause_100ms s))"

definition kill_group :: "ProcEnv \<Rightarrow> int \<Rightarrow> Sys \<Rightarrow> Sys" where
  "kill_group env pid s =
    (case getProcessGroupID env s pid of
       Inr pgid \<Rightarrow> if pgid \<noteq> 0 then send_signal (- pgid) SIGKILL (send_signal (- pgid) SIGTERM s) else s
     | Inl _ \<Rightarrow> s)"

definition killProcessTree :: "ProcEnv \<Rightarrow> int \<Rightarrow> Sys \<Rightarrow> string option \<times> Sys" where
  "killProcessTree env pid s =
    (case pe_FindProcess env pid of
       Some e \<Rightarrow> (Some (''failed to find process '' @ show_int pid @ '': '' @ e), s)
     | None \<Rightarrow>
         (case wait_gone env pid 10 (send_signal pid SIGKILL (kill_group env pid (send_signal pid SIGTERM s))) of
            (True, s') \<Rightarrow> (None, s')
          | (False, s') \<Rightarrow> (Some (''process '' @ show_int pid @ '' is still running after kill attempt''), s')))"

section \<open>Orphans\<close>

definition orphan :: "int \<Rightarrow> int \<Rightarrow> ProcessInfo \<Rightarrow> bool" where
  "orphan nodePID currentPID p \<longleftrightarrow>
    pi_PID p \<noteq> currentPID \<and>
    (pi_IsZombie p \<and> (pi_PPID p = 0 \<or> pi_PPID p = 1) \<or> pi_PPID p = nodePID)"

definition cleanup_step :: "ProcEnv \<Rightarrow> int \<Rightarrow> int \<Rightarrow> ProcessInfo \<Rightarrow> nat \<times> Sys \<Rightarrow> nat \<times> Sys" where
  "cleanup_step env nodePID currentPID p ks =
    (if \<not> orphan nodePID currentPID p then ks
     else case killProcessTree env (pi_PID p) (snd ks) of
            (None, s') \<Rightarrow> (fst ks + 1, s')
          | (Some _, s') \<Rightarrow> (fst ks, s'))"

definition cleanupOrphanedProcesses :: "ProcEnv \<Rightarrow> int \<Rightarrow> Core \<Rightarrow> Sys \<Rightarrow> string option \<times> nat \<times> Sys" where
  "cleanupOrphanedProcesses env nodePID c s =
    (case findXrayProcesses env (xk_executablePath c) s of
       Inl e \<Rightarrow> (Some (''failed to find xray processes: '' @ e), 0, s)
     | Inr processes \<Rightarrow>
         let currentPID = (case xk_process c of None \<Rightarrow> 0 | Some cmd \<Rightarrow> cm_pid cmd)
         in (None, fold (cleanup_step env nodePID currentPID) processes (0, s)))"

section \<open>Which signals are sent\<close>

definition group_signals :: "string + int \<Rightarrow> (int \<times> Signal) list" where
  "group_signals r = (case r of Inr g \<Rightarrow> if g = 0 then [] else [(- g, SIGTERM), (- g, SIGKILL)] | Inl _ \<Rightarrow> [])"

definition tree_signals :: "ProcEnv \<Rightarrow> Sys \<Rightarrow> int \<Rightarrow> (int \<times> Signal) list" where
  "tree_signals env s pid = (pid, SIGTERM) # group_signals (getProcessGroupID env (send_signal pid SIGTERM s) pid) @ [(pid, SIGKILL)]"

lemma send_signal_signals [simp]: "sy_signals (send_signal t sig s) = sy_signals s @ [(t, sig)]"
  by (simp add: send_signal_def)

lemma wait_gone_signals: "wait_gone env pid k s = (b, s') \<Longrightarrow> sy_signals s' = sy_signals s"
  by (induction env pid k s rule: wait_gone.induct) (auto simp: pause_100ms_def split: if_splits)

text \<open>The waiting returns \<open>True\<close> only when the process was seen to be gone.\<close>

lemma wait_gone_true: "wait_gone env pid k s = (True, s') \<Longrightarrow> \<not> isProcessRunning env s' pid"
  by (induction env pid k s rule: wait_gone.induct) (auto split: if_splits)

lemma killProcessTree_signals:
  assumes "pe_FindProcess env pid = None"
  shows "sy_signals (snd (killProcessTree env pid s)) = sy_signals s @ tree_signals env s pid"
proof -
  let ?s = "send_signal pid SIGKILL (kill_group env pid (send_signal pid SIGTERM s))"
  obtain b s' where w: "wait_gone env pid 10 ?s = (b, s')" by (cases "wait_gone env pid 10 ?s") auto
  have "sy_signals s' = sy_signals s @ tree_signals env s pid"
    unfolding wait_gone_signals [OF w] by (auto simp: kill_group_def tree_signals_def group_signals_def split: sum.split)
  then show ?thesis using assms(1) w by (cases b) (simp_all add: killProcessTree_def)
qed

lemma killProcessTree_gone: "killProcessTree env pid s = (None, s') \<Longrightarrow> \<not> isProcessRunning env s' pid"
  by (auto simp: killProcessTree_def dest: wait_gone_true split: option.splits prod.splits bool.splits)

lemma cleanup_step_signals:
  "sy_signals (snd (cleanup_step env nodePID cur p ks)) =
    (if orphan nodePID cur p \<and> pe_FindProcess env (pi_PID p) = None
     then sy_signals (snd ks) @ tree_signals env (snd ks) (pi_PID p) else sy_signals (snd ks))"
proof (cases "orphan nodePID cur p")
  case True
  have "snd (cleanup_step env nodePID cur p ks) = snd (killProcessTree env (pi_PID p) (snd ks))"
    using True by (auto simp: cleanup_step_def split: prod.split option.split)
  moreover have "snd (killProcessTree env (pi_PID p) (snd ks)) = snd ks" if "pe_FindProcess env (pi_PID p) = Some e" for e
    using that by (simp add: killProcessTree_def)
  ultimately show ?thesis using True by (auto simp: killProcessTree_signals)
qed (simp add: cleanup_step_def)

text \<open>
  The signals of a whole pass: each belongs to an orphan, every orphan is killed, and a group that can be read throughout is
  killed with it.
\<close>

definition kills_orphans :: "ProcEnv \<Rightarrow> (int \<Rightarrow> int) \<Rightarrow> ProcessInfo set \<Rightarrow> (int \<times> Signal) list \<Rightarrow> bool" where
  "kills_orphans env grp A new \<longleftrightarrow>
    (\<forall>(t, sig)\<in>set new. \<exists>p\<in>A. t = pi_PID p \<or> t = - grp (pi_PID p)) \<and>
    (\<forall>p\<in>A. (pi_PID p, SIGKILL) \<in> set new \<and>
      (grp (pi_PID p) \<noteq> 0 \<and> (\<forall>s. getProcessGroupID env s (pi_PID p) = Inr (grp (pi_PID p))) \<longrightarrow> (- grp (pi_PID p), SIGKILL) \<in> set new))"

lemma kills_orphans_Un:
  assumes "kills_orphans env grp A new" and "kills_orphans env grp B new'"
  shows "kills_orphans env grp (A \<union> B) (new @ new')"
  using assms unfolding kills_orphans_def by (simp add: ball_Un bex_Un split_beta)

lemma kills_orphans_tree:
  assumes "\<And>s g. getProcessGroupID env s (pi_PID p) = Inr g \<Longrightarrow> g = grp (pi_PID p)"
  shows "kills_orphans env grp {p} (tree_signals env s (pi_PID p))"
proof (cases "getProcessGroupID env (send_signal (pi_PID p) SIGTERM s) (pi_PID p)")
  case (Inl e)
  then have "\<not> (\<forall>s. getProcessGroupID env s (pi_PID p) = Inr (grp (pi_PID p)))" by (metis Inl_not_Inr)
  with Inl show ?thesis unfolding kills_orphans_def tree_signals_def group_signals_def by auto
next
  case (Inr g)
  then show ?thesis using assms [OF Inr] by (simp add: kills_orphans_def tree_signals_def group_signals_def)
qed

lemma cleanup_fold_signals:
  assumes "\<And>p. p \<in> set ps \<Longrightarrow> pe_FindProcess env (pi_PID p) = None"
    and "\<And>p s g. p \<in> set ps \<Longrightarrow> getProcessGroupID env s (pi_PID p) = Inr g \<Longrightarrow> g = grp (pi_PID p)"
  shows "\<exists>new. sy_signals (snd (fold (cleanup_step env nodePID cur) ps ks)) = sy_signals (snd ks) @ new \<and>
    kills_orphans env grp {p \<in> set ps. orphan nodePID cur p} new"
  using assms
proof (induction ps arbitrary: ks)
  case Nil
  then show ?case by (simp add: kills_orphans_def)
next
  case (Cons p ps)
  let ?ks = "cleanup_step env nodePID cur p ks"
  have "\<exists>new. sy_signals (snd (fold (cleanup_step env nodePID cur) ps ?ks)) = sy_signals (snd ?ks) @ new \<and>
    kills_orphans env grp {p \<in> set ps. orphan nodePID cur p} new"
    by (rule Cons.IH) (use Cons.prems in \<open>simp_all\<close>)
  then obtain new where new: "sy_signals (snd (fold (cleanup_step env nodePID cur) ps ?ks)) = sy_signals (snd ?ks) @ new"
    "kills_orphans env grp {p \<in> set ps. orphan nodePID cur p} new" by blast
  show ?case
  proof (cases "orphan nodePID cur p")
    case True
    have f: "pe_FindProcess env (pi_PID p) = None" using Cons.prems by simp
    have g: "kills_orphans env grp {p} (tree_signals env (snd ks) (pi_PID p))"
      by (rule kills_orphans_tree) (use Cons.prems(2) in \<open>simp\<close>)
    have e: "{q \<in> set (p # ps). orphan nodePID cur q} = {p} \<union> {q \<in> set ps. orphan nodePID cur q}" using True by auto
    show ?thesis
      using kills_orphans_Un [OF g new(2)] new(1) True f
      unfolding e by (intro exI [of _ "tree_signals env (snd ks) (pi_PID p) @ new"]) (simp add: cleanup_step_signals)
  next
    case False
    then have e: "{q \<in> set (p # ps). orphan nodePID cur q} = {q \<in> set ps. orphan nodePID cur q}" by auto
    show ?thesis unfolding e using new False by (intro exI [of _ new]) (simp add: cleanup_step_signals)
  qed
qed

section \<open>Reading /proc\<close>

text \<open>
  A process as the kernel lists it. The file \<open>stat\<close> starts with the number, the name of the command in brackets, the state, the
  parent and the process group.
\<close>

record TableProc =
  tp_pid :: nat
  tp_comm :: string
  tp_state :: char
  tp_ppid :: nat
  tp_pgrp :: nat
  tp_rest :: string
  tp_exe :: string

definition stat_text :: "TableProc \<Rightarrow> string" where
  "stat_text p =
    show_dec (tp_pid p) @ '' '' @ (''('' @ tp_comm p @ '')'') @ '' '' @ [tp_state p] @ '' '' @ show_dec (tp_ppid p) @ '' '' @
    show_dec (tp_pgrp p) @ '' '' @ tp_rest p"

definition plain_proc :: "TableProc \<Rightarrow> bool" where
  "plain_proc p \<longleftrightarrow> 0 < tp_pid p \<and> tp_pid p < 2 ^ 31 \<and> tp_ppid p < 2 ^ 31 \<and> tp_pgrp p < 2 ^ 31 \<and>
    (\<forall>c\<in>set (tp_comm p). \<not> is_space c) \<and> \<not> is_space (tp_state p)"

text \<open>The system shows the table: every process has its entry, its link and its file; the other entries of \<open>/proc\<close> are no numbers.\<close>

definition shows_table :: "ProcEnv \<Rightarrow> Sys \<Rightarrow> TableProc list \<Rightarrow> bool" where
  "shows_table env s T \<longleftrightarrow>
    (\<exists>others. pe_ReadDir env s = Inr (others @ map (\<lambda>p. (show_dec (tp_pid p), True)) T) \<and>
      (\<forall>(name, dir)\<in>set others. \<not> dir \<or> Atoi name = None)) \<and>
    (\<forall>p\<in>set T. plain_proc p \<and> pe_exe env s (int (tp_pid p)) = Inr (tp_exe p) \<and> pe_stat env s (int (tp_pid p)) = Inr (stat_text p))"

definition info_of :: "TableProc \<Rightarrow> ProcessInfo" where
  "info_of p = \<lparr>pi_PID = int (tp_pid p), pi_PPID = int (tp_ppid p), pi_IsZombie = zombie_state [tp_state p]\<rparr>"

lemma digit_of_digit_char: "d < 10 \<Longrightarrow> digit_of (digit_char d) = Some d"
  by (simp add: digit_of_def digit_char_def Let_def)

lemma ParseUint_loop_append:
  "ParseUint_loop n s = Inr m \<Longrightarrow> ParseUint_loop n (s @ t) = ParseUint_loop m t"
  by (induction n s rule: ParseUint_loop.induct) (auto split: option.splits if_splits)

lemma ParseUint_show_dec: "n < 2 ^ 64 \<Longrightarrow> ParseUint_loop 0 (show_dec n) = Inr n"
proof (induction n rule: less_induct)
  case (less n)
  show ?case
  proof (cases "n < 10")
    case True
    then show ?thesis by (simp add: show_dec_def show_base.simps [of 10 n] digit_of_digit_char)
  next
    case False
    then have s: "show_dec n = show_dec (n div 10) @ [digit_char (n mod 10)]"
      by (simp add: show_dec_def show_base.simps [of 10 n])
    have "ParseUint_loop 0 (show_dec (n div 10)) = Inr (n div 10)" by (rule less.IH) (use False less.prems in auto)
    from ParseUint_loop_append [OF this] show ?thesis using less.prems by (simp add: s digit_of_digit_char)
  qed
qed

lemma Atoi_show_dec: "n < 2 ^ 31 \<Longrightarrow> Atoi (show_dec n) = Some (int n)"
proof -
  assume n: "n < 2 ^ 31"
  have ne: "show_dec n \<noteq> []" by (rule show_dec_nonempty)
  have h: "48 \<le> (of_char (hd (show_dec n)) :: nat)" using digits_plain [OF list.set_sel(1) [OF ne]] by simp
  have "hd (show_dec n) \<noteq> CHR ''-''" "hd (show_dec n) \<noteq> CHR ''+''" using h by auto
  then show ?thesis using n ne ParseUint_show_dec [of n] by (simp add: Atoi_def ParseUint_def Let_def)
qed

lemma show_dec_word: "\<forall>c\<in>set (show_dec n). \<not> is_space c"
  using digits_plain by (fastforce simp: is_space_def)

lemma stat_fields:
  assumes "plain_proc p"
  shows "\<exists>fs. str_fields (stat_text p) =
    [show_dec (tp_pid p), ''('' @ tp_comm p @ '')'', [tp_state p], show_dec (tp_ppid p), show_dec (tp_pgrp p)] @ fs"
proof -
  have b: "is_space (CHR '' '')" "\<not> is_space (CHR ''('')" "\<not> is_space (CHR '')'')" by (simp_all add: is_space_def)
  have c: "\<forall>c\<in>set (''('' @ tp_comm p @ '')''). \<not> is_space c" "\<forall>c\<in>set [tp_state p]. \<not> is_space c"
    using assms b by (auto simp: plain_proc_def)
  note w = str_fields_word [OF show_dec_nonempty show_dec_word b(1)] str_fields_word [OF _ c(1) b(1)] str_fields_word [OF _ c(2) b(1)]
  show ?thesis
    unfolding stat_text_def using w by auto
qed

lemma proc_entry_table:
  assumes "plain_proc p" and "pe_exe env s (int (tp_pid p)) = Inr (tp_exe p)" and "pe_stat env s (int (tp_pid p)) = Inr (stat_text p)"
  shows "proc_entry env absPath s (show_dec (tp_pid p), True) = (if pathsMatch env (tp_exe p) absPath then Some (info_of p) else None)"
proof -
  obtain fs where "str_fields (stat_text p) =
      [show_dec (tp_pid p), ''('' @ tp_comm p @ '')'', [tp_state p], show_dec (tp_ppid p), show_dec (tp_pgrp p)] @ fs"
    using stat_fields [OF assms(1)] by blast
  then show ?thesis
    using assms by (simp add: proc_entry_def plain_proc_def Atoi_show_dec info_of_def Let_def)
qed

lemma getProcessGroupID_table:
  assumes "plain_proc p" and "pe_stat env s (int (tp_pid p)) = Inr (stat_text p)"
  shows "getProcessGroupID env s (int (tp_pid p)) = Inr (int (tp_pgrp p))"
proof -
  obtain fs where "str_fields (stat_text p) =
      [show_dec (tp_pid p), ''('' @ tp_comm p @ '')'', [tp_state p], show_dec (tp_ppid p), show_dec (tp_pgrp p)] @ fs"
    using stat_fields [OF assms(1)] by blast
  then show ?thesis using assms by (simp add: getProcessGroupID_def plain_proc_def Atoi_show_dec Let_def)
qed

lemma map_filter_table:
  "\<forall>p\<in>set T. f (g p) = (if Q p then Some (h p) else None) \<Longrightarrow> List.map_filter f (map g T) = map h (filter Q T)"
  by (induction T) (auto simp: map_filter_simps)

lemma map_filter_others: "\<forall>e\<in>set es. f e = None \<Longrightarrow> List.map_filter f (es @ es') = List.map_filter f es'"
  by (induction es) (auto simp: map_filter_simps)

lemma findXrayProcesses_table:
  assumes "pe_linux env" and "pe_Abs env exe = Inr absPath" and "shows_table env s T"
  shows "findXrayProcesses env exe s = Inr (map info_of (filter (\<lambda>p. pathsMatch env (tp_exe p) absPath) T))"
proof -
  obtain others where d: "pe_ReadDir env s = Inr (others @ map (\<lambda>p. (show_dec (tp_pid p), True)) T)"
    and o: "\<forall>(name, dir)\<in>set others. \<not> dir \<or> Atoi name = None"
    using assms(3) by (auto simp: shows_table_def)
  have "\<forall>e\<in>set others. proc_entry env absPath s e = None"
    using o by (fastforce simp: proc_entry_def)
  moreover have "\<forall>p\<in>set T. proc_entry env absPath s (show_dec (tp_pid p), True) =
      (if pathsMatch env (tp_exe p) absPath then Some (info_of p) else None)"
    using assms(3) proc_entry_table by (simp add: shows_table_def)
  ultimately show ?thesis
    using assms(1,2) by (simp add: findXrayProcesses_def findXrayProcessesFromProc_def d map_filter_others map_filter_table)
qed

lemma orphan_info:
  "orphan nodePID cur (info_of p) \<longleftrightarrow> int (tp_pid p) \<noteq> cur \<and>
    (tp_state p \<in> {CHR ''Z'', CHR ''z''} \<and> tp_ppid p \<le> 1 \<or> int (tp_ppid p) = nodePID)"
  by (auto simp: orphan_def info_of_def zombie_state_def)

definition current_pid :: "Core \<Rightarrow> int" where
  "current_pid c = (case xk_process c of None \<Rightarrow> 0 | Some cmd \<Rightarrow> cm_pid cmd)"

text \<open>The Xray processes of the table that the clean-up is after.\<close>

definition table_orphans :: "ProcEnv \<Rightarrow> string \<Rightarrow> int \<Rightarrow> int \<Rightarrow> TableProc list \<Rightarrow> TableProc set" where
  "table_orphans env absPath nodePID cur T =
    {p \<in> set T. pathsMatch env (tp_exe p) absPath \<and> int (tp_pid p) \<noteq> cur \<and>
      (tp_state p \<in> {CHR ''Z'', CHR ''z''} \<and> tp_ppid p \<le> 1 \<or> int (tp_ppid p) = nodePID)}"

lemma cleanup_table:
  assumes "pe_linux env" and "pe_Abs env (xk_executablePath c) = Inr absPath" and "shows_table env s T"
    and "\<forall>p\<in>set T. pe_FindProcess env (int (tp_pid p)) = None"
    and "\<forall>p\<in>set T. \<forall>s' g. getProcessGroupID env s' (int (tp_pid p)) = Inr g \<longrightarrow> g = int (tp_pgrp p)"
    and "cleanupOrphanedProcesses env nodePID c s = (err, n, s')"
  shows "err = None" and "\<exists>new. sy_signals s' = sy_signals s @ new \<and>
    (\<forall>(t, sig)\<in>set new. \<exists>p\<in>table_orphans env absPath nodePID (current_pid c) T. t = int (tp_pid p) \<or> t = - int (tp_pgrp p)) \<and>
    (\<forall>p\<in>table_orphans env absPath nodePID (current_pid c) T. (int (tp_pid p), SIGKILL) \<in> set new \<and>
      (tp_pgrp p \<noteq> 0 \<and> (\<forall>s. getProcessGroupID env s (int (tp_pid p)) = Inr (int (tp_pgrp p))) \<longrightarrow> (- int (tp_pgrp p), SIGKILL) \<in> set new))"
proof -
  let ?ps = "map info_of (filter (\<lambda>p. pathsMatch env (tp_exe p) absPath) T)"
  define grp where "grp i = (case List.find (\<lambda>q. int (tp_pid q) = i) T of Some q \<Rightarrow> int (tp_pgrp q) | None \<Rightarrow> 0)" for i
  have gid: "getProcessGroupID env s (int (tp_pid p)) = Inr (int (tp_pgrp p))" if "p \<in> set T" for p
    using getProcessGroupID_table [of p env s] assms(3) that by (simp add: shows_table_def)
  have g: "grp (int (tp_pid p)) = int (tp_pgrp p)" if "p \<in> set T" for p
  proof -
    have "List.find (\<lambda>q. int (tp_pid q) = int (tp_pid p)) T \<noteq> None" using that by (auto simp: find_None_iff)
    then obtain q where q: "List.find (\<lambda>q. int (tp_pid q) = int (tp_pid p)) T = Some q" by auto
    then have "q \<in> set T" "tp_pid q = tp_pid p" by (auto simp: find_Some_iff)
    then show ?thesis using gid [of q] gid [OF that] q by (simp add: grp_def)
  qed
  have f: "findXrayProcesses env (xk_executablePath c) s = Inr ?ps" by (rule findXrayProcesses_table [OF assms(1-3)])
  show "err = None" using assms(6) by (simp add: cleanupOrphanedProcesses_def f Let_def)
  have s': "s' = snd (fold (cleanup_step env nodePID (current_pid c)) ?ps (0, s))"
    using assms(6) by (simp add: cleanupOrphanedProcesses_def f Let_def current_pid_def)
  have fp: "pe_FindProcess env (pi_PID p) = None" if "p \<in> set ?ps" for p
    using that assms(4) by (auto simp: info_of_def)
  have gp: "g = grp (pi_PID p)" if "p \<in> set ?ps" "getProcessGroupID env s2 (pi_PID p) = Inr g" for p s2 g
    using that assms(5) g by (auto simp: info_of_def)
  have "\<exists>new. sy_signals s' = sy_signals s @ new \<and> kills_orphans env grp {p \<in> set ?ps. orphan nodePID (current_pid c) p} new"
    using cleanup_fold_signals [where ks = "(0, s)" and ps = ?ps and env = env and grp = grp and nodePID = nodePID and cur = "current_pid c", OF fp gp]
    unfolding s' by simp
  then obtain new where n1: "sy_signals s' = sy_signals s @ new"
    and n2: "\<forall>(t, sig)\<in>set new. \<exists>p\<in>{p \<in> set ?ps. orphan nodePID (current_pid c) p}. t = pi_PID p \<or> t = - grp (pi_PID p)"
    and n3: "\<forall>p\<in>{p \<in> set ?ps. orphan nodePID (current_pid c) p}. (pi_PID p, SIGKILL) \<in> set new \<and>
      (grp (pi_PID p) \<noteq> 0 \<and> (\<forall>s. getProcessGroupID env s (pi_PID p) = Inr (grp (pi_PID p))) \<longrightarrow> (- grp (pi_PID p), SIGKILL) \<in> set new)"
    unfolding kills_orphans_def by blast
  have m: "p \<in> table_orphans env absPath nodePID (current_pid c) T \<longleftrightarrow>
      p \<in> set T \<and> pathsMatch env (tp_exe p) absPath \<and> orphan nodePID (current_pid c) (info_of p)" for p
    by (auto simp: table_orphans_def orphan_info)
  have pi: "pi_PID (info_of p) = int (tp_pid p)" for p by (simp add: info_of_def)
  have "\<forall>(t, sig)\<in>set new. \<exists>p\<in>table_orphans env absPath nodePID (current_pid c) T. t = int (tp_pid p) \<or> t = - int (tp_pgrp p)"
    using n2 g by (fastforce simp: m pi)
  moreover have "\<forall>p\<in>table_orphans env absPath nodePID (current_pid c) T. (int (tp_pid p), SIGKILL) \<in> set new \<and>
      (tp_pgrp p \<noteq> 0 \<and> (\<forall>s. getProcessGroupID env s (int (tp_pid p)) = Inr (int (tp_pgrp p))) \<longrightarrow> (- int (tp_pgrp p), SIGKILL) \<in> set new)"
  proof
    fix p assume "p \<in> table_orphans env absPath nodePID (current_pid c) T"
    then have p: "p \<in> set T" "info_of p \<in> {p \<in> set ?ps. orphan nodePID (current_pid c) p}" by (auto simp: m)
    show "(int (tp_pid p), SIGKILL) \<in> set new \<and>
      (tp_pgrp p \<noteq> 0 \<and> (\<forall>s. getProcessGroupID env s (int (tp_pid p)) = Inr (int (tp_pgrp p))) \<longrightarrow> (- int (tp_pgrp p), SIGKILL) \<in> set new)"
      using bspec [OF n3 p(2)] g [OF p(1)] by (simp add: pi)
  qed
  ultimately show "\<exists>new. sy_signals s' = sy_signals s @ new \<and>
    (\<forall>(t, sig)\<in>set new. \<exists>p\<in>table_orphans env absPath nodePID (current_pid c) T. t = int (tp_pid p) \<or> t = - int (tp_pgrp p)) \<and>
    (\<forall>p\<in>table_orphans env absPath nodePID (current_pid c) T. (int (tp_pid p), SIGKILL) \<in> set new \<and>
      (tp_pgrp p \<noteq> 0 \<and> (\<forall>s. getProcessGroupID env s (int (tp_pid p)) = Inr (int (tp_pgrp p))) \<longrightarrow> (- int (tp_pgrp p), SIGKILL) \<in> set new))"
    using n1 by blast
qed

section \<open>Properties\<close>



text \<open>A host with a node, the current Xray process, a left-over one and the probe.\<close>

definition lab_table :: "TableProc list" where
  "lab_table =
    [\<lparr>tp_pid = 100, tp_comm = ''node'', tp_state = CHR ''S'', tp_ppid = 1, tp_pgrp = 100, tp_rest = ''0'', tp_exe = ''/node''\<rparr>,
     \<lparr>tp_pid = 101, tp_comm = ''xray'', tp_state = CHR ''S'', tp_ppid = 100, tp_pgrp = 101, tp_rest = ''0'', tp_exe = ''/xray''\<rparr>,
     \<lparr>tp_pid = 102, tp_comm = ''xray'', tp_state = CHR ''S'', tp_ppid = 100, tp_pgrp = 100, tp_rest = ''0'', tp_exe = ''/xray''\<rparr>]"

definition lab_proc_env :: ProcEnv where
  "lab_proc_env = \<lparr>pe_linux = True, pe_Abs = Inr, pe_EvalSymlinks = Inr,
     pe_ReadDir = (\<lambda>s. Inr ([(''self'', True)] @ map (\<lambda>p. (show_dec (tp_pid p), True)) lab_table)),
     pe_exe = (\<lambda>s i. case List.find (\<lambda>p. int (tp_pid p) = i) lab_table of Some p \<Rightarrow> Inr (tp_exe p) | None \<Rightarrow> Inl ''gone''),
     pe_stat = (\<lambda>s i. case List.find (\<lambda>p. int (tp_pid p) = i) lab_table of Some p \<Rightarrow> Inr (stat_text p) | None \<Rightarrow> Inl ''gone''),
     pe_ps = (\<lambda>s. Inl []), pe_ps_command = (\<lambda>s i. Inl []), pe_ps_state = (\<lambda>s i. Inl []), pe_FindProcess = (\<lambda>i. None),
     pe_accepts = (\<lambda>s i sig. (i, SIGKILL) \<notin> set (sy_signals s))\<rparr>"

definition lab_core :: Core where
  "lab_core = (new_xray_core ''/xray'' ''/a'' ''/c'' 2 0)\<lparr>xk_process := Some \<lparr>cm_id = 0, cm_pid = 101, cm_exited = False\<rparr>\<rparr>"

lemma lab_plain: "\<forall>p\<in>set lab_table. plain_proc p"
  by (simp add: lab_table_def plain_proc_def is_space_def)

lemma lab_find: "p \<in> set lab_table \<Longrightarrow> List.find (\<lambda>q. tp_pid q = tp_pid p) lab_table = Some p"
  by (auto simp: lab_table_def)

lemma lab_shows: "shows_table lab_proc_env s lab_table"
proof -
  have "Atoi ''self'' = None" by code_simp
  then have "\<forall>(name, dir)\<in>set [(''self'', True)]. \<not> dir \<or> Atoi name = None" by simp
  then show ?thesis
    unfolding shows_table_def using lab_plain by (auto simp: lab_proc_env_def lab_find)
qed

lemma lab_group: "p \<in> set lab_table \<Longrightarrow> getProcessGroupID lab_proc_env s (int (tp_pid p)) = Inr (int (tp_pgrp p))"
  using getProcessGroupID_table lab_plain lab_shows by (auto simp: shows_table_def)

lemma lab_hyps:
  "pe_linux lab_proc_env" "pe_Abs lab_proc_env (xk_executablePath lab_core) = Inr ''/xray''"
  "\<forall>p\<in>set lab_table. pe_FindProcess lab_proc_env (int (tp_pid p)) = None"
  by (simp_all add: lab_proc_env_def lab_core_def new_xray_core_def)

lemma lab_groups:
  "\<forall>p\<in>set lab_table. \<forall>s' g. getProcessGroupID lab_proc_env s' (int (tp_pid p)) = Inr g \<longrightarrow> g = int (tp_pgrp p)"
  by (simp add: lab_group)



end
