(* ===== verification/XrayCore.thy ===== *)
theory XrayCore
  imports XrayProcess XrayRules PppConfig
begin

text \<open>
  The life of the Xray process: \<open>backend/xray/core.go\<close> with its goroutines, and the two loops of \<open>backend/xray/jobs.go\<close> that
  watch it. A process is started with the configuration on its standard input; a goroutine waits for its end, closes the channel
  that \<open>Stop\<close> waits for and reports an end that nobody asked for. The methods run under the mutex of the core, so that each is one
  step; what the goroutines do in between are steps of their own.
\<close>

section \<open>The world of a core\<close>

text \<open>
  \<open>ce_Lstat\<close> and \<open>ce_Remove\<close> tell the paths for which these calls fail for a reason other than a missing file. \<open>ce_marshal\<close> and
  \<open>ce_Indent\<close> are \<open>json.Marshal\<close> and \<open>json.Indent\<close>, \<open>ce_openable\<close> the error of opening a log file.
\<close>

record CoreEnv =
  ce_proc :: ProcEnv
  ce_host :: HostEnv
  ce_nodePID :: int
  ce_accounts :: "(string \<rightharpoonup> Account) \<Rightarrow> string list"
  ce_marshal :: "XConfig \<Rightarrow> string + string"
  ce_Indent :: "string \<Rightarrow> string + string"
  ce_openable :: "string \<Rightarrow> string option"
  ce_StdoutPipe :: "string option"
  ce_Lstat :: "string \<Rightarrow> bool"
  ce_Remove :: "string \<Rightarrow> bool"

datatype FileKind = SocketFile | OtherFile

text \<open>
  \<open>wo_waiting\<close> are the processes whose goroutine is still in \<open>cmd.Wait\<close>, \<open>wo_exiting\<close> those whose goroutine has closed its channel
  but not yet reported. A process, its channel and its context share the number of the start. \<open>wo_stdin\<close> is what each process was given.
\<close>

record World =
  wo_core :: Core
  wo_cfg :: XConfig
  wo_host :: Host
  wo_sys :: Sys
  wo_fs :: "string \<rightharpoonup> FileKind"
  wo_waiting :: "nat list"
  wo_exiting :: "nat list"
  wo_stdin :: "(nat \<times> string) list"

section \<open>The version\<close>

definition xray_version :: "string \<Rightarrow> string option" where
  "xray_version out =
    (if has_prefix out ''Xray '' then numbers_at 2 (drop 5 out) else None)"

definition xray_DetectVersion :: "(string option \<times> string) \<Rightarrow> string" where
  "xray_DetectVersion r =
    (case r of (Some _, _) \<Rightarrow> ''unknown''
     | (None, out) \<Rightarrow> (case xray_version out of Some v \<Rightarrow> v | None \<Rightarrow> ''unknown''))"

definition refreshVersion :: "(string option \<times> string) \<Rightarrow> string + string" where
  "refreshVersion r =
    (case r of (Some e, _) \<Rightarrow> Inl e
     | (None, out) \<Rightarrow> (case xray_version out of Some v \<Rightarrow> Inr v | None \<Rightarrow> Inl ''could not parse Xray version''))"

definition NewXRayCore :: "CoreEnv \<Rightarrow> string \<Rightarrow> string \<Rightarrow> string \<Rightarrow> nat \<Rightarrow> int \<Rightarrow> string + Core" where
  "NewXRayCore env executablePath assetsPath configPath logBufferSize startupLogTailSize =
    (case refreshVersion (he_Output (ce_host env) [executablePath, ''version'']) of
       Inl e \<Rightarrow> Inl e
     | Inr v \<Rightarrow> Inr ((new_xray_core executablePath assetsPath configPath logBufferSize startupLogTailSize)\<lparr>xk_version := v\<rparr>))"

definition core_Started :: "Core \<Rightarrow> bool" where
  "core_Started c = (case xk_process c of None \<Rightarrow> False | Some cmd \<Rightarrow> \<not> cm_exited cmd)"

section \<open>Files\<close>

definition GenerateConfigFile :: "CoreEnv \<Rightarrow> string \<Rightarrow> Core \<Rightarrow> Host \<Rightarrow> string option \<times> Host" where
  "GenerateConfigFile env config c h =
    (case ce_Indent env config of
       Inl e \<Rightarrow> (Some e, h)
     | Inr prettyJSON \<Rightarrow>
         (case he_MkdirAll (ce_host env) (xk_configPath c) of
            Some e \<Rightarrow> (Some (''failed to create config directory: '' @ e), h)
          | None \<Rightarrow> os_WriteFile (ce_host env) (he_Join (ce_host env) [xk_configPath c, ''xray.json'']) prettyJSON h))"

definition collect_socket :: "XInbound \<Rightarrow> string list \<Rightarrow> string list" where
  "collect_socket inbound paths =
    (let listen = trim_space (in_Listen inbound); path = trim_space (takeWhile (\<lambda>c. c \<noteq> CHR '','') listen)
     in if listen = [] \<or> \<not> has_prefix path ''/'' \<or> path \<in> set paths then paths else paths @ [path])"

definition collectUnixSocketPaths :: "XInbound list \<Rightarrow> string list" where
  "collectUnixSocketPaths inbounds = fold collect_socket inbounds []"

definition remove_socket :: "CoreEnv \<Rightarrow> string \<Rightarrow> (string \<rightharpoonup> FileKind) \<Rightarrow> (string \<rightharpoonup> FileKind)" where
  "remove_socket env path fs =
    (if ce_Lstat env path then fs
     else case fs path of
            Some SocketFile \<Rightarrow> if ce_Remove env path then fs else fs(path := None)
          | _ \<Rightarrow> fs)"

definition removeUnixSocketFiles :: "CoreEnv \<Rightarrow> string list \<Rightarrow> (string \<rightharpoonup> FileKind) \<Rightarrow> (string \<rightharpoonup> FileKind)" where
  "removeUnixSocketFiles env paths fs = fold (remove_socket env) paths fs"

text \<open>
  The end of \<open>ToBytes\<close>: the log files are blanked for the encoding and restored after it. The caller has made sure that there
  is a log section.
\<close>

definition blank_logs :: "XConfig \<Rightarrow> XConfig" where
  "blank_logs cfg = cfg\<lparr>xc_LogConfig := map_option (\<lambda>lc. lc\<lparr>lc_AccessLog := [], lc_ErrorLog := []\<rparr>) (xc_LogConfig cfg)\<rparr>"

definition ToBytes :: "CoreEnv \<Rightarrow> XConfig \<Rightarrow> (string + string) \<times> XConfig" where
  "ToBytes env cfg =
    (let cfg1 = cfg\<lparr>xc_Inbounds := cfg_ToBytes (ce_accounts env) (xc_Inbounds cfg)\<rparr>
     in (ce_marshal env (blank_logs cfg1), cfg1))"

section \<open>The goroutine of a process\<close>

definition mark_exited :: "nat \<Rightarrow> Core \<Rightarrow> Core" where
  "mark_exited i c =
    c\<lparr>xk_process := map_option (\<lambda>cmd. if cm_id cmd = i then cmd\<lparr>cm_exited := True\<rparr> else cmd) (xk_process c), xk_closed := xk_closed c @ [i]\<rparr>"

definition wait_returns :: "nat \<Rightarrow> World \<Rightarrow> World" where
  "wait_returns i w =
    (if i \<in> set (wo_waiting w)
     then w\<lparr>wo_core := mark_exited i (wo_core w), wo_waiting := remove1 i (wo_waiting w), wo_exiting := wo_exiting w @ [i]\<rparr>
     else w)"

definition exit_message :: "string option \<Rightarrow> string" where
  "exit_message err =
    (case err of None \<Rightarrow> ''xray process exited unexpectedly'' | Some e \<Rightarrow> ''xray process exited unexpectedly: '' @ e)"

definition handleProcessExit :: "nat \<Rightarrow> string option \<Rightarrow> Core \<Rightarrow> Core" where
  "handleProcessExit i err c =
    (if xk_stopping c \<or> map_option cm_id (xk_process c) \<noteq> Some i then c else recordProcessLog (exit_message err) c)"

definition exit_seen :: "nat \<Rightarrow> string option \<Rightarrow> World \<Rightarrow> World" where
  "exit_seen i err w =
    (if i \<in> set (wo_exiting w)
     then w\<lparr>wo_core := handleProcessExit i err (wo_core w), wo_exiting := remove1 i (wo_exiting w)\<rparr>
     else w)"

section \<open>Start and stop\<close>

text \<open>What is left of an earlier process: its handle knows that it has ended, so that only \<open>killProcessTree\<close> sends signals.\<close>

definition drop_process :: "CoreEnv \<Rightarrow> World \<Rightarrow> World" where
  "drop_process env w =
    (case xk_process (wo_core w) of
       None \<Rightarrow> w
     | Some cmd \<Rightarrow> w\<lparr>wo_sys := snd (killProcessTree (ce_proc env) (cm_pid cmd) (wo_sys w)),
                      wo_core := (wo_core w)\<lparr>xk_process := None, xk_processPID := 0\<rparr>\<rparr>)"

definition launched :: "nat \<Rightarrow> string list \<Rightarrow> string \<Rightarrow> World \<Rightarrow> World" where
  "launched pid socketPaths bytesConfig w =
    (let c = wo_core w; i = xk_started c
     in w\<lparr>wo_core := c\<lparr>xk_process := Some \<lparr>cm_id = i, cm_pid = int pid, cm_exited = False\<rparr>, xk_processPID := int pid,
                        xk_stopping := False, xk_waitDone := Some i, xk_unixSocketPaths := socketPaths,
                        xk_cancelFunc := Some i, xk_started := i + 1\<rparr>,
          wo_waiting := wo_waiting w @ [i], wo_stdin := wo_stdin w @ [(i, bytesConfig)]\<rparr>)"

definition start_process :: "CoreEnv \<Rightarrow> bool \<Rightarrow> string \<Rightarrow> string \<Rightarrow> string \<Rightarrow> World \<Rightarrow> string option \<times> World" where
  "start_process env debugMode accessFile errorFile bytesConfig w =
    (let socketPaths = collectUnixSocketPaths (xc_Inbounds (wo_cfg w));
         w1 = w\<lparr>wo_fs := removeUnixSocketFiles env socketPaths (wo_fs w)\<rparr>
     in case ce_StdoutPipe env of
          Some e \<Rightarrow> (Some e, w1)
        | None \<Rightarrow>
            (case SetLogFile (ce_openable env) accessFile errorFile (logger_New debugMode) of (le, lg) \<Rightarrow>
               let w2 = w1\<lparr>wo_core := (wo_core w1)\<lparr>xk_logger := Some lg\<rparr>\<rparr>
               in case le of
                    Some e \<Rightarrow> (Some e, w2)
                  | None \<Rightarrow>
                      (case he_Start (ce_host env) [xk_executablePath (wo_core w2), ''-c'', ''stdin:''] of
                         Inl e \<Rightarrow> (Some e, w2)
                       | Inr pid \<Rightarrow> (None, launched pid socketPaths bytesConfig w2))))"

definition prepare_logs :: "Core \<Rightarrow> Core" where
  "prepare_logs c =
    (let c1 = c\<lparr>xk_runtimeLogs := ring_reset (xk_runtimeLogs c)\<rparr>
     in setStartupLogPhase (EnableStartupDiagnostics (xk_startupLogSize c1) c1))"

definition core_Start :: "CoreEnv \<Rightarrow> bool \<Rightarrow> World \<Rightarrow> string option \<times> World" where
  "core_Start env debugMode w =
    (case GetLogFiles (wo_cfg w) of ((accessFile, errorFile), cfg1) \<Rightarrow>
     case ToBytes env cfg1 of (b, cfg2) \<Rightarrow>
       let bytesConfig = (case b of Inl _ \<Rightarrow> [] | Inr bytes \<Rightarrow> bytes);
           w1 = w\<lparr>wo_cfg := cfg2\<rparr>
       in case (if debugMode then GenerateConfigFile env bytesConfig (wo_core w1) (wo_host w1) else (None, wo_host w1)) of (ge, h) \<Rightarrow>
          let w2 = w1\<lparr>wo_host := h\<rparr>
          in if ge \<noteq> None then (ge, w2)
             else if core_Started (wo_core w2) then (Some ''xray is started already'', w2)
             else let c = prepare_logs (wo_core w2);
                      w3 = w2\<lparr>wo_core := c, wo_sys := snd (snd (cleanupOrphanedProcesses (ce_proc env) (ce_nodePID env) c (wo_sys w2)))\<rparr>
                  in start_process env debugMode accessFile errorFile bytesConfig (drop_process env w3))"

text \<open>
  \<open>inTime\<close> tells that the goroutine of the process closes its channel within the five seconds that \<open>Stop\<close> waits. The verification
  and the second attempt to kill follow in any case.
\<close>

definition stop_process :: "CoreEnv \<Rightarrow> bool \<Rightarrow> World \<Rightarrow> World" where
  "stop_process env inTime w =
    (case xk_process (wo_core w) of
       None \<Rightarrow> w
     | Some cmd \<Rightarrow>
         let pid = cm_pid cmd;
             w1 = w\<lparr>wo_core := (wo_core w)\<lparr>xk_processPID := pid, xk_stopping := True\<rparr>, wo_sys := send_signal pid SIGKILL (wo_sys w)\<rparr>;
             w2 = (if inTime then wait_returns (cm_id cmd) w1 else w1\<lparr>wo_sys := snd (killProcessTree (ce_proc env) pid (wo_sys w1))\<rparr>)
         in if verifyProcessDead (ce_proc env) (wo_sys w2) pid = None then w2
            else w2\<lparr>wo_sys := snd (killProcessTree (ce_proc env) pid (wo_sys w2))\<rparr>)"

definition release_core :: "CoreEnv \<Rightarrow> World \<Rightarrow> World" where
  "release_core env w =
    (let c = wo_core w;
         c1 = c\<lparr>xk_process := None, xk_processPID := 0, xk_stopping := False, xk_waitDone := None, xk_unixSocketPaths := []\<rparr>;
         c2 = (case xk_cancelFunc c1 of None \<Rightarrow> c1 | Some ctx \<Rightarrow> c1\<lparr>xk_cancelFunc := None, xk_cancelled := xk_cancelled c1 @ [ctx]\<rparr>);
         c3 = c2\<lparr>xk_logger := None\<rparr>
     in w\<lparr>wo_fs := removeUnixSocketFiles env (xk_unixSocketPaths c) (wo_fs w), wo_core := SwitchToRuntimeLogPhase c3\<rparr>)"

definition core_Stop :: "CoreEnv \<Rightarrow> bool \<Rightarrow> World \<Rightarrow> World" where
  "core_Stop env inTime w =
    (let c = wo_core w; started = core_Started c
     in if \<not> started \<and> xk_process c = None \<and> xk_cancelFunc c = None \<and> xk_logger c = None \<and> xk_unixSocketPaths c = [] then w
        else release_core env (if started then stop_process env inTime w else w))"

definition set_restarting :: "bool \<Rightarrow> World \<Rightarrow> World" where
  "set_restarting b w = w\<lparr>wo_core := (wo_core w)\<lparr>xk_restarting := b\<rparr>\<rparr>"

definition xcore_Restart :: "CoreEnv \<Rightarrow> bool \<Rightarrow> bool \<Rightarrow> World \<Rightarrow> string option \<times> World" where
  "xcore_Restart env inTime debugMode w =
    (if xk_restarting (wo_core w) then (Some ''xray is already restarting'', w)
     else case core_Start env debugMode (core_Stop env inTime (set_restarting True w)) of
            (e, w') \<Rightarrow> (e, set_restarting False w'))"

section \<open>Runs\<close>

text \<open>
  The life of a core as a sequence of steps, each on a host of its own: the methods, the end of a process at any time, the report of its
  goroutine, captured output, and the check that ends the start-up phase. Every \<open>Stop\<close> sees its process end in time.
\<close>

inductive core_run :: "World \<Rightarrow> bool" where
  new: "NewXRayCore env exe assets cfgPath n t = Inr c \<Longrightarrow>
    core_run \<lparr>wo_core = c, wo_cfg = cfg, wo_host = h, wo_sys = s, wo_fs = fs, wo_waiting = [], wo_exiting = [], wo_stdin = []\<rparr>"
| start: "core_run w \<Longrightarrow> core_Start env d w = (e, w') \<Longrightarrow> core_run w'"
| stop: "core_run w \<Longrightarrow> core_run (core_Stop env True w)"
| restart: "core_run w \<Longrightarrow> xcore_Restart env True d w = (e, w') \<Longrightarrow> core_run w'"
| wait: "core_run w \<Longrightarrow> core_run (wait_returns i w)"
| exit: "core_run w \<Longrightarrow> core_run (exit_seen i err w)"
| lines: "core_run w \<Longrightarrow> core_run (w\<lparr>wo_core := captureProcessLogs ctx ls (wo_core w)\<rparr>)"
| ready: "core_run w \<Longrightarrow> core_run (w\<lparr>wo_core := SwitchToRuntimeLogPhase (wo_core w)\<rparr>)"

text \<open>What the invariant reads of a world.\<close>

record LifeView =
  lv_process :: "Cmd option"
  lv_started :: nat
  lv_closed :: "nat list"
  lv_stopping :: bool
  lv_waiting :: "nat list"

definition life_view :: "World \<Rightarrow> LifeView" where
  "life_view w = \<lparr>lv_process = xk_process (wo_core w), lv_started = xk_started (wo_core w), lv_closed = xk_closed (wo_core w),
     lv_stopping = xk_stopping (wo_core w), lv_waiting = wo_waiting w\<rparr>"

definition life_ok :: "LifeView \<Rightarrow> bool" where
  "life_ok v \<longleftrightarrow>
    \<not> lv_stopping v \<and> distinct (lv_closed v) \<and> set (lv_closed v) \<subseteq> {..<lv_started v} \<and> set (lv_closed v) \<inter> set (lv_waiting v) = {} \<and>
    (case lv_process v of
       None \<Rightarrow> lv_waiting v = []
     | Some cmd \<Rightarrow> cm_id cmd < lv_started v \<and> lv_waiting v = (if cm_exited cmd then [] else [cm_id cmd]))"

subsection \<open>What the steps do to the view\<close>

lemma capture_core_fields [simp]:
  "xk_started (captureStartupLogLine l c) = xk_started c" "xk_closed (captureStartupLogLine l c) = xk_closed c"
  "xk_started (captureRuntimeLogLine l c) = xk_started c" "xk_closed (captureRuntimeLogLine l c) = xk_closed c"
  "xk_process (captureRuntimeLogLine l c) = xk_process c" "xk_stopping (captureRuntimeLogLine l c) = xk_stopping c"
  by (auto simp: captureStartupLogLine_def captureRuntimeLogLine_def detectLogType_def send_log_def RecordStartupLog_def RecordRuntimeLog_def
      Let_def split: option.split)

lemma captureProcessLogs_core [simp]:
  "xk_process (captureProcessLogs ctx ls c) = xk_process c" "xk_started (captureProcessLogs ctx ls c) = xk_started c"
  "xk_closed (captureProcessLogs ctx ls c) = xk_closed c" "xk_stopping (captureProcessLogs ctx ls c) = xk_stopping c"
  by (induction ls arbitrary: c) (auto simp: capture_line_def)

lemma recordProcessLog_core [simp]:
  "xk_process (recordProcessLog l c) = xk_process c" "xk_started (recordProcessLog l c) = xk_started c"
  "xk_closed (recordProcessLog l c) = xk_closed c" "xk_stopping (recordProcessLog l c) = xk_stopping c"
  by (auto simp: recordProcessLog_def)

lemma phase_core [simp]:
  "xk_process (SwitchToRuntimeLogPhase c) = xk_process c" "xk_started (SwitchToRuntimeLogPhase c) = xk_started c"
  "xk_closed (SwitchToRuntimeLogPhase c) = xk_closed c" "xk_stopping (SwitchToRuntimeLogPhase c) = xk_stopping c"
  "xk_process (prepare_logs c) = xk_process c" "xk_started (prepare_logs c) = xk_started c"
  "xk_closed (prepare_logs c) = xk_closed c" "xk_stopping (prepare_logs c) = xk_stopping c"
  by (simp_all add: SwitchToRuntimeLogPhase_def DisableStartupDiagnostics_def prepare_logs_def setStartupLogPhase_def
      EnableStartupDiagnostics_def Let_def)

lemma view_exit_seen: "life_view (exit_seen i err w) = life_view w"
  by (simp add: life_view_def exit_seen_def handleProcessExit_def)

lemma view_drop: "life_view (drop_process env w) = (life_view w)\<lparr>lv_process := None\<rparr>"
  by (auto simp: life_view_def drop_process_def split: option.split)

text \<open>A start either changes nothing but a dead process handle, or adds one process.\<close>

definition view_launch :: "nat \<Rightarrow> LifeView \<Rightarrow> LifeView" where
  "view_launch pid v = v\<lparr>lv_process := Some \<lparr>cm_id = lv_started v, cm_pid = int pid, cm_exited = False\<rparr>, lv_started := lv_started v + 1,
     lv_stopping := False, lv_waiting := lv_waiting v @ [lv_started v]\<rparr>"

lemma view_start_process:
  assumes "start_process env d a b bytes w = (e, w')"
  shows "(e \<noteq> None \<and> life_view w' = life_view w) \<or> (\<exists>pid. e = None \<and> life_view w' = view_launch pid (life_view w))"
  using assms unfolding start_process_def Let_def
  by (auto simp: life_view_def view_launch_def launched_def Let_def split: option.splits prod.splits sum.splits)

lemma view_core_Start:
  assumes "core_Start env d w = (e, w')"
  shows "life_view w' = life_view w \<or> (\<not> core_Started (wo_core w) \<and> (life_view w' = (life_view w)\<lparr>lv_process := None\<rparr> \<or>
    (\<exists>pid. e = None \<and> life_view w' = view_launch pid ((life_view w)\<lparr>lv_process := None\<rparr>))))"
proof -
  obtain a b cfg1 where g: "GetLogFiles (wo_cfg w) = ((a, b), cfg1)" by (metis surj_pair)
  obtain bt cfg2 where t: "ToBytes env cfg1 = (bt, cfg2)" by (metis surj_pair)
  let ?bytes = "case bt of Inl _ \<Rightarrow> [] | Inr bytes \<Rightarrow> bytes" and ?w1 = "w\<lparr>wo_cfg := cfg2\<rparr>"
  obtain ge h where f: "(if d then GenerateConfigFile env ?bytes (wo_core ?w1) (wo_host ?w1) else (None, wo_host ?w1)) = (ge, h)"
    by (metis surj_pair)
  let ?w2 = "?w1\<lparr>wo_host := h\<rparr>"
  have v2: "life_view ?w2 = life_view w" "wo_core ?w2 = wo_core w" by (simp_all add: life_view_def)
  show ?thesis
  proof (cases "ge \<noteq> None \<or> core_Started (wo_core w)")
    case True
    then have "w' = ?w2" using assms by (auto simp: core_Start_def g t f Let_def split: if_splits)
    then show ?thesis using v2 by simp
  next
    case False
    let ?c = "prepare_logs (wo_core ?w2)"
    let ?w3 = "?w2\<lparr>wo_core := ?c, wo_sys := snd (snd (cleanupOrphanedProcesses (ce_proc env) (ce_nodePID env) ?c (wo_sys ?w2)))\<rparr>"
    have s: "start_process env d a b ?bytes (drop_process env ?w3) = (e, w')"
      using assms False by (simp add: core_Start_def g t f Let_def)
    have "life_view ?w3 = life_view w" by (simp add: life_view_def)
    then show ?thesis using view_start_process [OF s] False by (auto simp: view_drop)
  qed
qed

lemma view_release: "life_view (release_core env w) = (life_view w)\<lparr>lv_process := None, lv_stopping := False\<rparr>"
  by (auto simp: life_view_def release_core_def Let_def split: option.split)

lemma view_stop_process:
  assumes "xk_process (wo_core w) = Some cmd" and "cm_id cmd \<in> set (wo_waiting w)"
  shows "life_view (stop_process env True w) =
    (life_view w)\<lparr>lv_process := Some (cmd\<lparr>cm_exited := True\<rparr>), lv_closed := lv_closed (life_view w) @ [cm_id cmd],
       lv_stopping := True, lv_waiting := remove1 (cm_id cmd) (lv_waiting (life_view w))\<rparr>"
  using assms by (simp add: stop_process_def Let_def life_view_def wait_returns_def mark_exited_def)

lemma life_view_sel:
  "lv_process (life_view w) = xk_process (wo_core w)" "lv_started (life_view w) = xk_started (wo_core w)"
  "lv_closed (life_view w) = xk_closed (wo_core w)" "lv_stopping (life_view w) = xk_stopping (wo_core w)"
  "lv_waiting (life_view w) = wo_waiting w"
  by (simp_all add: life_view_def)

lemma release_process [simp]: "xk_process (wo_core (release_core env w)) = None"
  using arg_cong [OF view_release, of lv_process env w] by (simp add: life_view_sel)

lemma life_ok_stop:
  assumes "life_ok (life_view w)"
  shows "life_ok (life_view (core_Stop env True w))" and "xk_process (wo_core (core_Stop env True w)) = None"
    and "wo_waiting (core_Stop env True w) = []"
proof -
  have "life_ok (life_view (core_Stop env True w)) \<and> lv_process (life_view (core_Stop env True w)) = None"
  proof (cases "core_Started (wo_core w)")
    case True
    then obtain cmd where c: "xk_process (wo_core w) = Some cmd" "\<not> cm_exited cmd" by (auto simp: core_Started_def split: option.splits)
    then have i: "cm_id cmd \<in> set (wo_waiting w)" using assms by (simp add: life_ok_def life_view_def)
    have "core_Stop env True w = release_core env (stop_process env True w)" using True by (simp add: core_Stop_def Let_def)
    then show ?thesis using assms c by (auto simp: view_release view_stop_process [OF c(1) i] life_ok_def life_view_sel)
  next
    case False
    have "life_ok ((life_view w)\<lparr>lv_process := None, lv_stopping := False\<rparr>)"
      using assms False by (auto simp: life_ok_def life_view_sel core_Started_def split: option.splits)
    then show ?thesis using assms False by (auto simp: core_Stop_def Let_def view_release life_view_sel)
  qed
  then show "life_ok (life_view (core_Stop env True w))" "xk_process (wo_core (core_Stop env True w)) = None"
    "wo_waiting (core_Stop env True w) = []" by (auto simp: life_ok_def life_view_sel)
qed

lemma life_ok_Start:
  assumes "life_ok (life_view w)" and "core_Start env d w = (e, w')"
  shows "life_ok (life_view w')"
proof -
  have d: "life_ok ((life_view w)\<lparr>lv_process := None\<rparr>)" if "\<not> core_Started (wo_core w)"
    using assms(1) that by (auto simp: life_ok_def life_view_def core_Started_def split: option.splits)
  have l: "life_ok (view_launch pid v)" if "life_ok v" "lv_process v = None" for pid v
    using that by (auto simp: life_ok_def view_launch_def less_Suc_eq subset_iff)
  show ?thesis
    using view_core_Start [OF assms(2)]
  proof (elim disjE conjE exE)
    assume "life_view w' = life_view w" then show ?thesis using assms(1) by simp
  next
    assume "\<not> core_Started (wo_core w)" "life_view w' = (life_view w)\<lparr>lv_process := None\<rparr>" then show ?thesis using d by simp
  next
    fix pid assume "\<not> core_Started (wo_core w)" "life_view w' = view_launch pid ((life_view w)\<lparr>lv_process := None\<rparr>)"
    then show ?thesis using l [OF d] by simp
  qed
qed

lemma view_set_restarting [simp]: "life_view (set_restarting b w) = life_view w"
  by (simp add: set_restarting_def life_view_def)

lemma life_ok_wait: "life_ok (life_view w) \<Longrightarrow> life_ok (life_view (wait_returns i w))"
  by (auto simp: life_ok_def life_view_def wait_returns_def mark_exited_def split: option.splits if_splits)

lemma core_run_ok: "core_run w \<Longrightarrow> life_ok (life_view w)"
proof (induction rule: core_run.induct)
  case (new env exe assets cfgPath n t c cfg h s fs)
  then show ?case by (auto simp: NewXRayCore_def new_xray_core_def life_ok_def life_view_def split: sum.splits)
next
  case (restart w env d e w')
  obtain e1 w1 where s: "core_Start env d (core_Stop env True (set_restarting True w)) = (e1, w1)" by (metis surj_pair)
  have "life_ok (life_view w1)" by (rule life_ok_Start [OF life_ok_stop(1) s]) (simp add: restart.IH)
  then show ?case using restart.hyps(2) restart.IH s by (auto simp: xcore_Restart_def split: if_splits)
next
  case (lines w ctx ls)
  then show ?case by (simp add: life_view_def)
next
  case (ready w)
  then show ?case by (simp add: life_view_def)
qed (auto simp: view_exit_seen life_ok_stop(1) life_ok_wait intro: life_ok_Start)

subsection \<open>Logs and sockets\<close>

lemma core_Start_logs:
  assumes "core_Start env d w = (None, w')"
  shows "xk_logPhase (wo_core w') = LogPhaseStartup \<and> xk_runtimeLogs (wo_core w') = ring_reset (xk_runtimeLogs (wo_core w)) \<and> core_Started (wo_core w')"
proof -
  have s: "xk_logPhase (wo_core w') = xk_logPhase (wo_core w3) \<and> xk_runtimeLogs (wo_core w') = xk_runtimeLogs (wo_core w3) \<and> core_Started (wo_core w')"
    if "start_process env d' a b bytes w3 = (None, w')" for d' a b bytes w3
    using that unfolding start_process_def Let_def
    by (auto simp: launched_def core_Started_def Let_def split: option.splits prod.splits sum.splits)
  have dr: "xk_logPhase (wo_core (drop_process env w3)) = xk_logPhase (wo_core w3) \<and> xk_runtimeLogs (wo_core (drop_process env w3)) = xk_runtimeLogs (wo_core w3)" for w3
    by (auto simp: drop_process_def split: option.split)
  have p: "xk_logPhase (prepare_logs c) = LogPhaseStartup" "xk_runtimeLogs (prepare_logs c) = ring_reset (xk_runtimeLogs c)" for c
    by (simp_all add: prepare_logs_def setStartupLogPhase_def EnableStartupDiagnostics_def Let_def)
  show ?thesis
    using assms unfolding core_Start_def
    by (auto simp: Let_def dr p dest!: s split: prod.splits if_splits sum.splits)
qed

lemma ring_tail_reset [simp]: "ring_tail n (ring_reset r) = []"
  by (simp add: ring_tail_def ring_reset_def)

lemma captureProcessLogs_startup_keeps:
  "xk_logPhase c = LogPhaseStartup \<Longrightarrow> xk_runtimeLogs (captureProcessLogs ctx ls c) = xk_runtimeLogs c"
proof (induction ls arbitrary: c)
  case (Cons l ls)
  then show ?case by (auto simp: capture_line_def isStartupLogPhase_def)
qed simp

text \<open>Only sockets are ever removed.\<close>

lemma removeUnixSocketFiles_exact:
  "removeUnixSocketFiles env paths fs p =
    (if p \<in> set paths \<and> fs p = Some SocketFile \<and> \<not> ce_Lstat env p \<and> \<not> ce_Remove env p then None else fs p)"
  unfolding removeUnixSocketFiles_def
  by (induction paths arbitrary: fs) (auto simp: remove_socket_def split: option.splits FileKind.splits)

lemma collect_socket_set:
  "distinct paths \<Longrightarrow> distinct (fold collect_socket is paths) \<and> set (fold collect_socket is paths) = set paths \<union>
    {p. \<exists>i\<in>set is. p = trim_space (takeWhile (\<lambda>c. c \<noteq> CHR '','') (trim_space (in_Listen i))) \<and> has_prefix p ''/''}"
proof (induction "is" arbitrary: paths)
  case (Cons i "is")
  let ?p = "trim_space (takeWhile (\<lambda>c. c \<noteq> CHR '','') (trim_space (in_Listen i)))"
  have "trim_space (in_Listen i) = [] \<Longrightarrow> \<not> has_prefix ?p ''/''" by (simp add: has_prefix_def)
  then have s: "distinct (collect_socket i paths)" "set (collect_socket i paths) = set paths \<union> {p. p = ?p \<and> has_prefix p ''/''}"
    using Cons.prems by (auto simp: collect_socket_def Let_def)
  show ?case using Cons.IH [OF s(1)] s(2) by auto
qed simp

lemma collectUnixSocketPaths_exact:
  "distinct (collectUnixSocketPaths inbounds) \<and> set (collectUnixSocketPaths inbounds) =
    {p. \<exists>i\<in>set inbounds. p = trim_space (takeWhile (\<lambda>c. c \<noteq> CHR '','') (trim_space (in_Listen i))) \<and> has_prefix p ''/''}"
  using collect_socket_set [of "[]" inbounds] by (simp add: collectUnixSocketPaths_def)

section \<open>Properties\<close>

text \<open>C29. In every run of starts, stops, restarts, ends of processes, reports and captured lines in which stops see the killed process end in time, at most one
  Xray process of the core is alive: exactly the current one while the core counts as started and none otherwise; and no goroutine ever
  closes a channel that is closed already.\<close>

theorem one_xray_process:
  assumes "core_run w"
  shows "wo_waiting w = (if core_Started (wo_core w) then [cm_id (the (xk_process (wo_core w)))] else []) \<and>
    distinct (xk_closed (wo_core w)) \<and> set (xk_closed (wo_core w)) \<inter> set (wo_waiting w) = {}"
  using core_run_ok [OF assms] by (auto simp: life_ok_def life_view_sel core_Started_def split: option.splits)

text \<open>The end of a process is reported exactly when nobody asked for it: when the running process ends by itself, its goroutine adds the
  message with its error to the log of the current phase; when it was stopped, the goroutine leaves the core as the stop left it.\<close>

theorem unexpected_exit_reported:
  assumes "core_run w" and "xk_process (wo_core w) = Some cmd" and "\<not> cm_exited cmd"
  shows "wo_core (exit_seen (cm_id cmd) err (wait_returns (cm_id cmd) w)) =
      recordProcessLog (exit_message err) (mark_exited (cm_id cmd) (wo_core w)) \<and>
    wo_core (exit_seen (cm_id cmd) err (core_Stop env True w)) = wo_core (core_Stop env True w)"
proof
  have ok: "life_ok (life_view w)" by (rule core_run_ok [OF assms(1)])
  then have "wo_waiting w = [cm_id cmd]" "\<not> xk_stopping (wo_core w)" using assms(2,3) by (auto simp: life_ok_def life_view_sel)
  then show "wo_core (exit_seen (cm_id cmd) err (wait_returns (cm_id cmd) w)) =
      recordProcessLog (exit_message err) (mark_exited (cm_id cmd) (wo_core w))"
    using assms(2) by (simp add: exit_seen_def wait_returns_def handleProcessExit_def mark_exited_def)
  show "wo_core (exit_seen (cm_id cmd) err (core_Stop env True w)) = wo_core (core_Stop env True w)"
    using life_ok_stop(2) [OF ok] by (simp add: exit_seen_def handleProcessExit_def)
qed

text \<open>After a restart the core stays in the start-up phase, which only the check at the first start ends: whatever the new process writes, the runtime log
  stays empty, and the tail that a health check prints before the next restart has no line.\<close>

theorem restart_hides_runtime_log:
  assumes "xcore_Restart env inTime d w = (None, w')"
  shows "RuntimeLogTail n (captureProcessLogs ctx ls (wo_core w')) = []"
proof -
  obtain e w1 where s: "core_Start env d (core_Stop env inTime (set_restarting True w)) = (e, w1)" by (metis surj_pair)
  have e: "e = None" "w' = set_restarting False w1" using assms s by (auto simp: xcore_Restart_def split: if_splits)
  have "xk_logPhase (wo_core w') = LogPhaseStartup"
    "\<exists>r. xk_runtimeLogs (wo_core w') = ring_reset r"
    using core_Start_logs [OF s [unfolded e(1)]] by (auto simp: e(2) set_restarting_def)
  then show ?thesis by (auto simp: RuntimeLogTail_def captureProcessLogs_startup_keeps)
qed

section \<open>A concrete life\<close>

definition lab_xhost_env :: HostEnv where
  "lab_xhost_env = \<lparr>he_MkdirAll = (\<lambda>_. None), he_WriteFile = (\<lambda>_ _. None), he_exists = (\<lambda>_. True), he_LookPath = (\<lambda>_. None),
     he_Start = (\<lambda>_. Inr 101), he_Run = (\<lambda>_ _. None), he_Output = (\<lambda>_. (None, ''Xray 1.8.4 (go)'')), he_Join = concat,
     he_order = (\<lambda>_. [])\<rparr>"

definition lab_core_env :: CoreEnv where
  "lab_core_env = \<lparr>ce_proc = lab_proc_env\<lparr>pe_ReadDir := (\<lambda>_. Inr [])\<rparr>, ce_host = lab_xhost_env, ce_nodePID = 100, ce_accounts = (\<lambda>_. []),
     ce_marshal = (\<lambda>_. Inr ''{}''), ce_Indent = Inr, ce_openable = (\<lambda>_. None), ce_StdoutPipe = None, ce_Lstat = (\<lambda>_. False),
     ce_Remove = (\<lambda>_. False)\<rparr>"

definition lab_xcfg :: XConfig where
  "lab_xcfg = \<lparr>xc_LogConfig = None, xc_Rules = None, xc_Inbounds = [], xc_Outbounds = JNull, xc_Policy = None, xc_API = None,
     xc_Metrics = Map.empty, xc_Observatory = None, xc_BurstObservatory = None, xc_sidecarInbounds = []\<rparr>"

definition lab_world :: World where
  "lab_world = \<lparr>wo_core = (new_xray_core ''/xray'' ''/a'' ''/c'' 2 0)\<lparr>xk_version := ''1.8.4''\<rparr>, wo_cfg = lab_xcfg,
     wo_host = \<lparr>ho_files = Map.empty, ho_cmds = []\<rparr>, wo_sys = \<lparr>sy_signals = [], sy_clock = 0\<rparr>, wo_fs = Map.empty,
     wo_waiting = [], wo_exiting = [], wo_stdin = []\<rparr>"

lemma lab_core_run: "core_run lab_world"
proof -
  have "NewXRayCore lab_core_env ''/xray'' ''/a'' ''/c'' 2 0 = Inr ((new_xray_core ''/xray'' ''/a'' ''/c'' 2 0)\<lparr>xk_version := ''1.8.4''\<rparr>)"
    by (simp add: NewXRayCore_def refreshVersion_def lab_core_env_def lab_xhost_env_def xray_version_def has_prefix_def ascii_digit_def numeral_2_eq_2)
  then show ?thesis unfolding lab_world_def by (rule core_run.new)
qed

lemma lab_start:
  "\<exists>w. core_Start lab_core_env False lab_world = (None, w) \<and> xk_process (wo_core w) = Some \<lparr>cm_id = 0, cm_pid = 101, cm_exited = False\<rparr>"
  by (simp add: core_Start_def GetLogFiles_def ToBytes_def lab_world_def lab_xcfg_def new_xray_core_def lab_core_env_def lab_xhost_env_def Let_def
      core_Started_def prepare_logs_def setStartupLogPhase_def EnableStartupDiagnostics_def cleanupOrphanedProcesses_def findXrayProcesses_def
      findXrayProcessesFromProc_def lab_proc_env_def map_filter_simps drop_process_def start_process_def collectUnixSocketPaths_def
      SetLogFile_def openLogFile_def launched_def cfg_ToBytes_def)

lemma lab_restart: "\<exists>w. xcore_Restart lab_core_env True False lab_world = (None, w)"
proof -
  have k: "core_Stop lab_core_env True (set_restarting True lab_world) = set_restarting True lab_world"
    by (simp add: core_Stop_def set_restarting_def lab_world_def new_xray_core_def core_Started_def)
  have "\<exists>w. core_Start lab_core_env False (set_restarting True lab_world) = (None, w)"
    by (simp add: set_restarting_def core_Start_def GetLogFiles_def ToBytes_def lab_world_def lab_xcfg_def new_xray_core_def lab_core_env_def lab_xhost_env_def Let_def
      core_Started_def prepare_logs_def setStartupLogPhase_def EnableStartupDiagnostics_def cleanupOrphanedProcesses_def findXrayProcesses_def
      findXrayProcessesFromProc_def lab_proc_env_def map_filter_simps drop_process_def start_process_def collectUnixSocketPaths_def
      SetLogFile_def openLogFile_def launched_def cfg_ToBytes_def)
  then obtain w where "core_Start lab_core_env False (set_restarting True lab_world) = (None, w)" by blast
  then show ?thesis by (simp add: xcore_Restart_def k) (simp add: lab_world_def new_xray_core_def)
qed

theorem one_xray_process_witness:
  "\<exists>w. core_Start lab_core_env False lab_world = (None, w) \<and> wo_waiting w = [0]"
proof -
  obtain w where w: "core_Start lab_core_env False lab_world = (None, w)" "xk_process (wo_core w) = Some \<lparr>cm_id = 0, cm_pid = 101, cm_exited = False\<rparr>"
    using lab_start by blast
  have "core_run w" by (rule core_run.start [OF lab_core_run w(1)])
  from one_xray_process [OF this] have "wo_waiting w = [0]" using w(2) by (simp add: core_Started_def)
  with w(1) show ?thesis by blast
qed

theorem unexpected_exit_reported_witness:
  "\<exists>w. core_Start lab_core_env False lab_world = (None, w) \<and>
    wo_core (exit_seen 0 None (wait_returns 0 w)) = recordProcessLog ''xray process exited unexpectedly'' (mark_exited 0 (wo_core w)) \<and>
    wo_core (exit_seen 0 None (core_Stop lab_core_env True w)) = wo_core (core_Stop lab_core_env True w)"
proof -
  obtain w where w: "core_Start lab_core_env False lab_world = (None, w)" "xk_process (wo_core w) = Some \<lparr>cm_id = 0, cm_pid = 101, cm_exited = False\<rparr>"
    using lab_start by blast
  have "core_run w" by (rule core_run.start [OF lab_core_run w(1)])
  from unexpected_exit_reported [OF this w(2), of None lab_core_env] w(1) show ?thesis by (simp add: exit_message_def)
qed

theorem restart_hides_runtime_log_witness:
  "\<exists>w. xcore_Restart lab_core_env True False lab_world = (None, w) \<and>
    RuntimeLogTail 10 (captureProcessLogs 0 [''a'', ''b''] (wo_core w)) = []"
  using lab_restart restart_hides_runtime_log by blast

end
