(* ===== verification/XrayJobs.thy ===== *)
theory XrayJobs
  imports XrayCore
begin

text \<open>
  What runs beside the Xray process: the process of the sing-box side-car (\<open>backend/singbox/singbox.go\<close>), the wait for the API after
  a start and the health check (\<open>backend/xray/jobs.go\<close>), and the life of the whole back end, \<open>New\<close> and \<open>Shutdown\<close> of
  \<open>backend/xray/xray.go\<close>.
\<close>

section \<open>The side-car process\<close>

text \<open>
  Processes and channels are numbers. \<open>si_waiting\<close> are the processes whose goroutine is in \<open>cmd.Wait\<close>, \<open>si_leaving\<close> those whose goroutine
  has closed the channel and waits for the mutex to clear \<open>running\<close>. The goroutine closes the channel that is in the field
  when \<open>Wait\<close> returns; closing it twice panics.
\<close>

record Sidecar =
  si_bin :: string
  si_workDir :: string
  si_inbounds :: "SbInbound list"
  si_process :: "nat option"
  si_started :: nat
  si_waitDone :: nat
  si_chans :: nat
  si_closed :: "nat list"
  si_waiting :: "nat list"
  si_leaving :: "nat list"
  si_logCap :: nat
  si_logChan :: "string list"
  si_running :: bool
  si_panic :: bool

definition FindBinary :: "HostEnv \<Rightarrow> string \<Rightarrow> string" where
  "FindBinary env var =
    (let p = trim_space var
     in if p \<noteq> [] \<and> he_exists env p then p
        else if he_exists env ''/usr/local/bin/sing-box'' then ''/usr/local/bin/sing-box''
        else case he_LookPath env ''sing-box'' of Some q \<Rightarrow> q | None \<Rightarrow> [])"

definition sb_CheckDeps :: "HostEnv \<Rightarrow> string \<Rightarrow> string option" where
  "sb_CheckDeps env var = (if FindBinary env var = [] then Some ''sing-box is not installed on this node'' else None)"

definition sb_configPath :: "HostEnv \<Rightarrow> Sidecar \<Rightarrow> string" where
  "sb_configPath env s = he_Join env [si_workDir s, ''config.json'']"

definition sb_writeConfig :: "HostEnv \<Rightarrow> (SbEntry list \<Rightarrow> string + string) \<Rightarrow> Sidecar \<Rightarrow> Host \<Rightarrow> string option \<times> Host" where
  "sb_writeConfig env marshal s h =
    (case marshal (buildConfig (si_inbounds s)) of
       Inl e \<Rightarrow> (Some e, h)
     | Inr b \<Rightarrow> os_WriteFile env (sb_configPath env s) b h)"

definition sb_start :: "HostEnv \<Rightarrow> (SbEntry list \<Rightarrow> string + string) \<Rightarrow> Sidecar \<Rightarrow> Host \<Rightarrow> string option \<times> Sidecar \<times> Host" where
  "sb_start env marshal s h =
    (case sb_writeConfig env marshal s h of
       (Some e, h') \<Rightarrow> (Some e, s, h')
     | (None, h') \<Rightarrow>
         (case he_Start env [si_bin s, ''run'', ''-c'', sb_configPath env s] of
            Inl e \<Rightarrow> (Some (''start sing-box: '' @ e), s, h')
          | Inr pid \<Rightarrow> (None, s\<lparr>si_process := Some (si_started s), si_started := si_started s + 1, si_running := True,
                              si_waiting := si_waiting s @ [si_started s]\<rparr>, h')))"

definition sb_New :: "HostEnv \<Rightarrow> string \<Rightarrow> (SbEntry list \<Rightarrow> string + string) \<Rightarrow> string \<Rightarrow> SbInbound list \<Rightarrow> nat \<Rightarrow> Host \<Rightarrow> (string + Sidecar) \<times> Host" where
  "sb_New env var marshal workDir inbounds logBuf h =
    (let bin = FindBinary env var
     in if bin = [] then (Inl ''sing-box binary not found (set SINGBOX_EXECUTABLE_PATH)'', h)
        else case he_MkdirAll env workDir of
          Some e \<Rightarrow> (Inl e, h)
        | None \<Rightarrow>
            (case sb_start env marshal \<lparr>si_bin = bin, si_workDir = workDir, si_inbounds = inbounds, si_process = None, si_started = 0,
                    si_waitDone = 0, si_chans = 1, si_closed = [], si_waiting = [], si_leaving = [], si_logCap = logBuf, si_logChan = [],
                    si_running = False, si_panic = False\<rparr> h of
               (Some e, _, h') \<Rightarrow> (Inl e, h')
             | (None, s, h') \<Rightarrow> (Inr s, h')))"

definition pump_chunk :: "string \<Rightarrow> Sidecar \<Rightarrow> Sidecar" where
  "pump_chunk b s = (if b \<noteq> [] \<and> length (si_logChan s) < si_logCap s then s\<lparr>si_logChan := si_logChan s @ [b]\<rparr> else s)"

definition sb_wait_returns :: "nat \<Rightarrow> Sidecar \<Rightarrow> Sidecar" where
  "sb_wait_returns i s =
    (if i \<notin> set (si_waiting s) then s
     else let s1 = s\<lparr>si_waiting := remove1 i (si_waiting s)\<rparr>
          in if si_waitDone s1 \<in> set (si_closed s1) then s1\<lparr>si_panic := True\<rparr>
             else s1\<lparr>si_closed := si_closed s1 @ [si_waitDone s1], si_leaving := si_leaving s1 @ [i]\<rparr>)"

definition sb_leave :: "nat \<Rightarrow> Sidecar \<Rightarrow> Sidecar" where
  "sb_leave i s = (if i \<in> set (si_leaving s) then s\<lparr>si_leaving := remove1 i (si_leaving s), si_running := False\<rparr> else s)"

text \<open>\<open>inTime\<close>: the killed process is reaped within the five seconds of the wait.\<close>

definition sb_Shutdown :: "bool \<Rightarrow> Sidecar \<Rightarrow> Sidecar" where
  "sb_Shutdown inTime s =
    (let s1 = (case si_process s of Some i \<Rightarrow> if inTime then sb_wait_returns i s else s | None \<Rightarrow> s)
     in s1\<lparr>si_running := False\<rparr>)"

definition sb_Restart :: "HostEnv \<Rightarrow> (SbEntry list \<Rightarrow> string + string) \<Rightarrow> bool \<Rightarrow> Sidecar \<Rightarrow> Host \<Rightarrow> string option \<times> Sidecar \<times> Host" where
  "sb_Restart env marshal inTime s h =
    (let s1 = sb_Shutdown inTime s
     in sb_start env marshal (s1\<lparr>si_waitDone := si_chans s1, si_chans := si_chans s1 + 1\<rparr>) h)"

definition sidecar_SyncUsers :: "HostEnv \<Rightarrow> (SbEntry list \<Rightarrow> string + string) \<Rightarrow> bool \<Rightarrow> UserPtr list \<Rightarrow> Sidecar \<Rightarrow> Host \<Rightarrow>
    string option \<times> Sidecar \<times> Host" where
  "sidecar_SyncUsers env marshal inTime users s h =
    sb_Restart env marshal inTime (s\<lparr>si_inbounds := sb_SyncUsers users (si_inbounds s)\<rparr>) h"

section \<open>Waiting for the API\<close>

text \<open>
  What happens while \<open>checkXrayStatus\<close> waits: the context ends, one of its tickers fires (with the answer of the API), the process writes
  a line, or it ends and its goroutine reports that.
\<close>

datatype StatusEvent = Ctx_Done | Error_Tick | Api_Tick bool | Log_Line string | Proc_Exit "string option"

definition startupLogTailSize :: "int \<Rightarrow> int" where
  "startupLogTailSize cfgSize = (if cfgSize > 0 then cfgSize else 200)"

definition extractStartupError :: "Core \<Rightarrow> string option" where
  "extractStartupError c =
    (let failure = LatestStartupFailure c in if failure = [] then None else Some (''failed to start xray: '' @ failure))"

definition startupErrorWithTail :: "Core \<Rightarrow> int \<Rightarrow> string \<Rightarrow> string" where
  "startupErrorWithTail c tailSize reason =
    (let failure = LatestStartupFailure c; tail = StartupLogTail tailSize c
     in if failure \<noteq> [] then ''failed to start xray: '' @ failure
        else if tail = [] then reason
        else reason @ ''; recent xray logs:'' @ [nl] @ str_join [nl] tail)"

text \<open>The end of the current process and the report of its goroutine.\<close>

definition process_ends :: "string option \<Rightarrow> World \<Rightarrow> World" where
  "process_ends err w =
    (case xk_process (wo_core w) of None \<Rightarrow> w | Some cmd \<Rightarrow> exit_seen (cm_id cmd) err (wait_returns (cm_id cmd) w))"

text \<open>One turn of the loop: the result of the function, if it returns, and the world.\<close>

definition status_step :: "int \<Rightarrow> StatusEvent \<Rightarrow> World \<Rightarrow> string option option \<times> World" where
  "status_step tailSize ev w =
    (case ev of
       Ctx_Done \<Rightarrow> (Some (Some ''context cancelled''), w)
     | Error_Tick \<Rightarrow> (case extractStartupError (wo_core w) of Some e \<Rightarrow> (Some (Some e), w) | None \<Rightarrow> (None, w))
     | Api_Tick ready \<Rightarrow>
         if ready then (Some None, w\<lparr>wo_core := SwitchToRuntimeLogPhase (wo_core w)\<rparr>)
         else (case extractStartupError (wo_core w) of
                 Some e \<Rightarrow> (Some (Some e), w)
               | None \<Rightarrow>
                   if \<not> core_Started (wo_core w)
                   then (Some (Some (startupErrorWithTail (wo_core w) tailSize ''xray process stopped before API became ready'')), w)
                   else (None, w))
     | Log_Line l \<Rightarrow> (None, w\<lparr>wo_core := recordProcessLog l (wo_core w)\<rparr>)
     | Proc_Exit err \<Rightarrow> (None, process_ends err w))"

text \<open>The loop on what happens; \<open>None\<close> means that it still waits.\<close>

fun checkXrayStatus :: "int \<Rightarrow> StatusEvent list \<Rightarrow> World \<Rightarrow> string option option \<times> World" where
  "checkXrayStatus tailSize [] w = (None, w)"
| "checkXrayStatus tailSize (ev # evs) w =
    (case status_step tailSize ev w of
       (Some r, w') \<Rightarrow> (Some r, w')
     | (None, w') \<Rightarrow> checkXrayStatus tailSize evs w')"

section \<open>The health check\<close>

datatype ApiAnswer = Api_Ok | Api_Canceled | Api_Failed

text \<open>A round: the context is done, a restart is under way, the answer of the API, whether the process runs, whether a restart succeeds.\<close>

record HealthRound =
  hr_done :: bool
  hr_restarting :: bool
  hr_api :: ApiAnswer
  hr_started :: bool
  hr_restart_ok :: bool

definition maxFailures :: nat where
  "maxFailures = 10"

text \<open>\<open>None\<close> is the end of the loop; otherwise the counter of failures in a row and whether the round restarts the process.\<close>

definition health_round :: "HealthRound \<Rightarrow> nat \<Rightarrow> (nat \<times> bool) option" where
  "health_round r consecutiveFailures =
    (if hr_done r then None
     else if hr_restarting r then Some (0, False)
     else case hr_api r of
            Api_Ok \<Rightarrow> Some (0, False)
          | Api_Canceled \<Rightarrow> None
          | Api_Failed \<Rightarrow>
              let n = consecutiveFailures + 1
              in if \<not> hr_started r \<or> n \<ge> maxFailures then Some (if hr_restart_ok r then 0 else n, True) else Some (n, False))"

fun checkXrayHealth :: "HealthRound list \<Rightarrow> nat \<Rightarrow> bool list" where
  "checkXrayHealth [] n = []"
| "checkXrayHealth (r # rs) n =
    (case health_round r n of None \<Rightarrow> [] | Some (n', restart) \<Rightarrow> restart # checkXrayHealth rs n')"

section \<open>The back end\<close>

record XrayNode =
  xn_world :: World
  xn_core :: bool
  xn_sidecar :: "Sidecar option"
  xn_limits :: Xray
  xn_cancelled :: bool
  xn_handler :: bool

text \<open>A side-car is told to stop and forgotten.\<close>

definition xray_Shutdown :: "CoreEnv \<Rightarrow> bool \<Rightarrow> XrayNode \<Rightarrow> XrayNode" where
  "xray_Shutdown env inTime x =
    x\<lparr>xn_cancelled := True,
      xn_world := (if xn_core x then core_Stop env inTime (xn_world x) else xn_world x),
      xn_sidecar := None, xn_handler := False\<rparr>"

text \<open>
  What \<open>New\<close> calls: the three absolute paths, the JSON codec and the network interfaces of \<open>ApplyAPI\<close>, the parser of UUIDs and the hash, the
  environment variable and the encoder of the side-car, the client of the API, and what happens while it waits for the API.
\<close>

record NewEnv =
  ne_core :: CoreEnv
  ne_json :: JsonEnv
  ne_ifaces :: "(bool \<times> string option list option) list option"
  ne_uuid :: "string \<Rightarrow> UUID option"
  ne_sha256 :: "string \<Rightarrow> char list"
  ne_singbox_var :: string
  ne_sb_marshal :: "SbEntry list \<Rightarrow> string + string"
  ne_NewXrayAPI :: "string option"
  ne_status :: "StatusEvent list"

record NodeConfig =
  nc_XrayExecutablePath :: string
  nc_XrayAssetsPath :: string
  nc_GeneratedConfigPath :: string
  nc_LogBufferSize :: nat
  nc_StartupLogTailSize :: int
  nc_Debug :: bool

text \<open>The start of the side-car, whose failure is only logged.\<close>

definition new_sidecar :: "NewEnv \<Rightarrow> NodeConfig \<Rightarrow> string \<Rightarrow> UserPtr list \<Rightarrow> XrayNode \<Rightarrow> XrayNode" where
  "new_sidecar env cfg configAbsolutePath users x =
    (let w = xn_world x; host = ce_host (ne_core env)
     in if xc_sidecarInbounds (wo_cfg w) = [] then x
        else let sidecar = sb_SyncUsers users (xc_sidecarInbounds (wo_cfg w));
                 w1 = w\<lparr>wo_cfg := (wo_cfg w)\<lparr>xc_sidecarInbounds := sidecar\<rparr>\<rparr>
             in case sb_New host (ne_singbox_var env) (ne_sb_marshal env) (he_Join host [configAbsolutePath, ''singbox'']) sidecar
                       (nc_LogBufferSize cfg) (wo_host w1) of
                  (Inl _, h) \<Rightarrow> x\<lparr>xn_world := w1\<lparr>wo_host := h\<rparr>\<rparr>
                | (Inr sb, h) \<Rightarrow> x\<lparr>xn_world := w1\<lparr>wo_host := h\<rparr>, xn_sidecar := Some sb\<rparr>)"

text \<open>From the client of the API on; a failure shuts everything down.\<close>

definition new_finish :: "NewEnv \<Rightarrow> NodeConfig \<Rightarrow> bool \<Rightarrow> XrayNode \<Rightarrow> string option option \<times> XrayNode" where
  "new_finish env cfg inTime x =
    (case ne_NewXrayAPI env of
       Some e \<Rightarrow> (Some (Some e), xray_Shutdown (ne_core env) inTime x)
     | None \<Rightarrow>
         (case checkXrayStatus (startupLogTailSize (nc_StartupLogTailSize cfg)) (ne_status env) (xn_world x) of (r, w) \<Rightarrow>
            let x1 = x\<lparr>xn_handler := True, xn_world := w\<rparr>
            in case r of
                 Some (Some e) \<Rightarrow> (Some (Some e), xray_Shutdown (ne_core env) inTime x1)
               | _ \<Rightarrow> (r, x1)))"

text \<open>The users that are there at the start: their accounts go into the configuration and they are remembered.\<close>

definition new_users :: "NewEnv \<Rightarrow> UserPtr list \<Rightarrow> XConfig \<Rightarrow> Xray \<Rightarrow> XConfig \<times> Xray" where
  "new_users env users c x =
    (if users = [] then (c, x)
     else (c\<lparr>xc_Inbounds := cfg_syncUsers (ne_uuid env) (ne_sha256 env) users (xc_Inbounds c)\<rparr>, rememberUsers users True x))"

definition empty_Xray :: Xray where
  "empty_Xray = \<lparr>xr_inbounds = [], xr_singbox = None, xr_userLimits = Map.empty, xr_userByEmail = Map.empty, xr_kicked = Map.empty\<rparr>"

definition fresh_world :: "Core \<Rightarrow> XConfig \<Rightarrow> World \<Rightarrow> World" where
  "fresh_world k c w =
    \<lparr>wo_core = k, wo_cfg = c, wo_host = wo_host w, wo_sys = wo_sys w, wo_fs = wo_fs w, wo_waiting = [], wo_exiting = [], wo_stdin = []\<rparr>"

text \<open>
  The outer \<open>None\<close> is the panic of \<open>ApplyAPI\<close>, the inner one that \<open>New\<close> still waits for the API. \<open>w\<close> gives the host; the core of the result is
  new. An error without a node returns nothing to shut down.
\<close>

definition xray_New :: "NewEnv \<Rightarrow> NodeConfig \<Rightarrow> int \<Rightarrow> int \<Rightarrow> bool \<Rightarrow> UserPtr list \<Rightarrow> World \<Rightarrow> (string option option \<times> XrayNode option) option" where
  "xray_New env cfg apiPort metricPort inTime users w =
    (let abs = pe_Abs (ce_proc (ne_core env))
     in case (abs (nc_XrayExecutablePath cfg), abs (nc_XrayAssetsPath cfg), abs (nc_GeneratedConfigPath cfg)) of
          (Inl e, _, _) \<Rightarrow> Some (Some (Some e), None)
        | (Inr _, Inl e, _) \<Rightarrow> Some (Some (Some e), None)
        | (Inr _, Inr _, Inl e) \<Rightarrow> Some (Some (Some e), None)
        | (Inr exe, Inr assets, Inr conf) \<Rightarrow>
            (case ApplyAPI (ne_json env) (ne_ifaces env) apiPort metricPort (wo_cfg w) of
               None \<Rightarrow> None
             | Some (Inl e) \<Rightarrow> Some (Some (Some e), None)
             | Some (Inr c1) \<Rightarrow>
                 (case new_users env users c1 empty_Xray of (c2, limits) \<Rightarrow>
                  case NewXRayCore (ne_core env) exe assets conf (nc_LogBufferSize cfg) (nc_StartupLogTailSize cfg) of
                    Inl e \<Rightarrow> Some (Some (Some e), None)
                  | Inr k \<Rightarrow>
                      (case core_Start (ne_core env) (nc_Debug cfg) (fresh_world k c2 w) of
                         (Some e, w1) \<Rightarrow> Some (Some (Some e), Some \<lparr>xn_world = w1, xn_core = False, xn_sidecar = None, xn_limits = limits,
                                            xn_cancelled = False, xn_handler = False\<rparr>)
                       | (None, w1) \<Rightarrow>
                           (case new_finish env cfg inTime
                                  (new_sidecar env cfg conf users \<lparr>xn_world = w1, xn_core = True, xn_sidecar = None, xn_limits = limits,
                                     xn_cancelled = False, xn_handler = False\<rparr>) of
                              (r, x) \<Rightarrow> Some (r, Some x))))))"

section \<open>The wait returns\<close>

lemma life_view_core_keep: "life_view (w\<lparr>wo_core := recordProcessLog l (wo_core w)\<rparr>) = life_view w"
  by (simp add: life_view_def)

lemma process_ends_ok:
  assumes "life_ok (life_view w)"
  shows "life_ok (life_view (process_ends err w))" and "\<not> core_Started (wo_core (process_ends err w))"
proof -
  show "life_ok (life_view (process_ends err w))"
    using assms life_ok_wait by (auto simp: process_ends_def view_exit_seen split: option.split)
  show "\<not> core_Started (wo_core (process_ends err w))"
    using assms
    by (auto simp: process_ends_def core_Started_def exit_seen_def wait_returns_def handleProcessExit_def mark_exited_def life_ok_def life_view_sel
        split: option.splits if_splits)
qed

lemma status_step_ok:
  assumes "life_ok (life_view w)" and "status_step t ev w = (None, w')"
  shows "life_ok (life_view w') \<and> (\<not> core_Started (wo_core w) \<longrightarrow> \<not> core_Started (wo_core w'))"
proof (cases ev)
  case (Proc_Exit err)
  then show ?thesis using assms process_ends_ok [OF assms(1)] by (auto simp: status_step_def)
next
  case (Log_Line l)
  then have "w' = w\<lparr>wo_core := recordProcessLog l (wo_core w)\<rparr>" using assms(2) by (simp add: status_step_def)
  then show ?thesis using assms(1) life_view_core_keep by (simp add: core_Started_def)
qed (use assms in \<open>auto simp: status_step_def split: option.splits if_splits\<close>)

lemma status_decides:
  "fst (checkXrayStatus t evs w) \<noteq> None" if "Ctx_Done \<in> set evs \<or> Api_Tick True \<in> set evs"
  using that by (induction evs arbitrary: w) (auto simp: status_step_def split: prod.split option.split)

lemma status_dead_decides:
  "life_ok (life_view w) \<Longrightarrow> \<not> core_Started (wo_core w) \<Longrightarrow> Api_Tick b \<in> set evs \<Longrightarrow> fst (checkXrayStatus t evs w) \<noteq> None"
proof (induction evs arbitrary: w)
  case (Cons ev evs)
  obtain r w' where s: "status_step t ev w = (r, w')" by (metis surj_pair)
  show ?case
  proof (cases r)
    case None
    have "ev \<noteq> Api_Tick b" using s None Cons.prems(2) by (cases b) (auto simp: status_step_def split: option.splits)
    moreover have "life_ok (life_view w') \<and> \<not> core_Started (wo_core w')" using status_step_ok [OF Cons.prems(1) s [unfolded None]] Cons.prems(2) by blast
    ultimately show ?thesis using Cons s None by simp
  qed (simp add: s)
qed simp

lemma status_exit_decides:
  "life_ok (life_view w) \<Longrightarrow> Api_Tick b \<in> set post \<Longrightarrow> fst (checkXrayStatus t (pre @ Proc_Exit err # post) w) \<noteq> None"
proof (induction pre arbitrary: w)
  case Nil
  then show ?case using status_dead_decides process_ends_ok by (simp add: status_step_def)
next
  case (Cons ev pre)
  obtain r w' where s: "status_step t ev w = (r, w')" by (metis surj_pair)
  show ?case using Cons status_step_ok [OF Cons.prems(1), of t ev w'] s by (cases r) auto
qed

section \<open>The error of a failed start\<close>

text \<open>The core right after a start: fresh diagnostics in the start-up phase.\<close>

definition fresh_diagnostics :: "Core \<Rightarrow> bool" where
  "fresh_diagnostics c \<longleftrightarrow> xk_logPhase c = LogPhaseStartup \<and> xk_startupDiagnosticsEnabled c \<and> xk_startupFailure c = [] \<and>
    (\<exists>r. xk_startupLogs c = Some r \<and> ring_ok r \<and> ring_cap r = nat (xk_startupLogSize c) \<and> r = ring_reset r)"

lemma core_Start_fresh:
  assumes "core_Start env d w = (None, w')" shows "fresh_diagnostics (wo_core w')"
proof -
  have s: "fresh_diagnostics (wo_core w')" if "start_process env d' a b bytes w3 = (None, w')" "fresh_diagnostics (wo_core w3)" for d' a b bytes w3
    using that unfolding start_process_def Let_def fresh_diagnostics_def
    by (auto simp: launched_def Let_def split: option.splits prod.splits sum.splits)
  have dr: "fresh_diagnostics (wo_core (drop_process env w3)) = fresh_diagnostics (wo_core w3)" for w3
    by (auto simp: drop_process_def fresh_diagnostics_def split: option.split)
  have "xk_logPhase (prepare_logs c) = LogPhaseStartup \<and> xk_startupDiagnosticsEnabled (prepare_logs c) \<and> xk_startupFailure (prepare_logs c) = []" for c
    by (simp add: prepare_logs_def setStartupLogPhase_def EnableStartupDiagnostics_def Let_def)
  moreover have "\<exists>r. xk_startupLogs (prepare_logs c) = Some r \<and> ring_ok r \<and> ring_cap r = nat (xk_startupLogSize (prepare_logs c)) \<and> r = ring_reset r" for c
    unfolding prepare_logs_def Let_def setStartupLogPhase_def
    using EnableStartupDiagnostics_ring [of "xk_startupLogSize c" "c\<lparr>xk_runtimeLogs := ring_reset (xk_runtimeLogs c)\<rparr>"] by simp
  ultimately have p: "fresh_diagnostics (prepare_logs c)" for c unfolding fresh_diagnostics_def by blast
  show ?thesis
    using assms unfolding core_Start_def
    by (auto simp: Let_def dr p elim!: s split: prod.splits if_splits sum.splits)
qed

lemma status_lines:
  "checkXrayStatus t (map Log_Line ls @ evs) w = checkXrayStatus t evs (w\<lparr>wo_core := fold recordProcessLog ls (wo_core w)\<rparr>)"
  by (induction ls arbitrary: w) (simp_all add: status_step_def)

lemma recordProcessLog_startup:
  "xk_logPhase c = LogPhaseStartup \<Longrightarrow> fold recordProcessLog ls c = fold captureStartupLogLine ls c"
  by (induction ls arbitrary: c) (simp_all add: recordProcessLog_def isStartupLogPhase_def)

lemma recordProcessLog_fold_process [simp]: "xk_process (fold recordProcessLog ls c) = xk_process c" "xk_stopping (fold recordProcessLog ls c) = xk_stopping c"
  by (induction ls arbitrary: c) simp_all

lemma not_failure_Nil: "isStartupFailureLog l \<Longrightarrow> l \<noteq> []"
  by (auto simp: isStartupFailureLog_def to_lower_def startup_keywords_def Let_def)

lemma failure_not_Nil:
  assumes "filter isStartupFailureLog ls \<noteq> []" shows "last (filter isStartupFailureLog ls) \<noteq> []"
  using last_in_set [OF assms] not_failure_Nil by auto

lemma ended_core:
  fixes i :: nat
  assumes "fresh_diagnostics c" and "ls' = ls @ [m]"
  defines "c2 \<equiv> recordProcessLog m (mark_exited i (fold recordProcessLog ls c))"
  shows "LatestStartupFailure c2 = (if filter isStartupFailureLog ls' = [] then [] else last (filter isStartupFailureLog ls'))"
    and "StartupLogTail t c2 = recent t (last_n (nat (xk_startupLogSize c)) ls')"
proof -
  obtain r where f: "xk_logPhase c = LogPhaseStartup" "xk_startupDiagnosticsEnabled c" "xk_startupFailure c = []" "xk_startupLogs c = Some r"
    "ring_ok r" "ring_cap r = nat (xk_startupLogSize c)" "r = ring_reset r"
    using assms(1) unfolding fresh_diagnostics_def by blast
  let ?c1 = "mark_exited i (fold captureStartupLogLine ls c)"
  note fc = fold_captureStartup [OF f(2), of ls]
  have m: "xk_startupDiagnosticsEnabled ?c1" "xk_logPhase ?c1 = LogPhaseStartup" "xk_startupLogs ?c1 = Some (fold ring_add ls r)"
    "xk_startupFailure ?c1 = fold (\<lambda>l f. if isStartupFailureLog l then l else f) ls []"
    using fc f by (simp_all add: mark_exited_def)
  have e: "c2 = fold captureStartupLogLine [m] ?c1"
    using m(2) by (simp add: c2_def recordProcessLog_startup [OF f(1)] recordProcessLog_def isStartupLogPhase_def)
  note g = fold_captureStartup [OF m(1), of "[m]"]
  have "xk_startupLogs c2 = Some (fold ring_add ls' r)" "xk_startupDiagnosticsEnabled c2"
    "xk_startupFailure c2 = fold (\<lambda>l f. if isStartupFailureLog l then l else f) ls' []"
    unfolding e using g m assms(2) by simp_all
  then show "LatestStartupFailure c2 = (if filter isStartupFailureLog ls' = [] then [] else last (filter isStartupFailureLog ls'))"
    and "StartupLogTail t c2 = recent t (last_n (nat (xk_startupLogSize c)) ls')"
    using rg.tail_run [OF f(5), of t ls'] f(6,7) by (simp_all add: LatestStartupFailure_def StartupLogTail_def last_failure)
qed

section \<open>The health check in numbers\<close>

definition failed_round :: "HealthRound \<Rightarrow> bool" where
  "failed_round r \<longleftrightarrow> hr_api r = Api_Failed"

text \<open>How many rounds in a row have failed after each round, with \<open>m\<close> failures before the first.\<close>

fun streaks :: "nat \<Rightarrow> HealthRound list \<Rightarrow> nat list" where
  "streaks m [] = []"
| "streaks m (r # rs) = (let m' = (if failed_round r then m + 1 else 0) in m' # streaks m' rs)"

lemma health_streaks:
  assumes "\<forall>r\<in>set rs. \<not> hr_done r \<and> \<not> hr_restarting r \<and> hr_api r \<noteq> Api_Canceled \<and> hr_started r \<and> hr_restart_ok r"
  shows "checkXrayHealth rs (m mod maxFailures) = map (\<lambda>k. 0 < k \<and> k mod maxFailures = 0) (streaks m rs)"
  using assms
proof (induction rs arbitrary: m)
  case (Cons r rs)
  have h: "\<not> hr_done r" "\<not> hr_restarting r" "hr_api r \<noteq> Api_Canceled" "hr_started r" "hr_restart_ok r" using Cons.prems by auto
  have IH: "checkXrayHealth rs (m mod maxFailures) = map (\<lambda>k. 0 < k \<and> k mod maxFailures = 0) (streaks m rs)" for m
    by (rule Cons.IH) (use Cons.prems in auto)
  show ?case
  proof (cases "hr_api r")
    case Api_Ok
    then have "health_round r (m mod maxFailures) = Some (0, False)" using h by (simp add: health_round_def)
    then show ?thesis using IH [of 0] Api_Ok by (simp add: failed_round_def)
  next
    case Api_Failed
    have a: "Suc m mod maxFailures = (if Suc (m mod maxFailures) = maxFailures then 0 else Suc (m mod maxFailures))" by (rule mod_Suc)
    have b: "m mod maxFailures < maxFailures" by (simp add: maxFailures_def)
    have "health_round r (m mod maxFailures) = (if Suc (m mod maxFailures) \<ge> maxFailures then Some (0, True) else Some (Suc (m mod maxFailures), False))"
      using Api_Failed h by (simp add: health_round_def Let_def)
    with a b have "health_round r (m mod maxFailures) = Some (Suc m mod maxFailures, Suc m mod maxFailures = 0)" by auto
    then show ?thesis using IH [of "Suc m"] Api_Failed by (simp add: failed_round_def)
  qed (use h in simp)
qed simp

section \<open>Shutting down\<close>

lemma status_step_view:
  assumes "life_ok (life_view w)" and "status_step t ev w = (r, w')"
  shows "life_ok (life_view w')"
proof (cases r)
  case None
  then show ?thesis using status_step_ok [OF assms(1)] assms(2) by simp
next
  case (Some x)
  have "life_view w' = life_view w"
    using assms(2) Some by (cases ev) (auto simp: status_step_def life_view_def split: option.splits if_splits)
  then show ?thesis using assms(1) by simp
qed

lemma status_view: "life_ok (life_view w) \<Longrightarrow> checkXrayStatus t evs w = (r, w') \<Longrightarrow> life_ok (life_view w')"
proof (induction evs arbitrary: w)
  case (Cons ev evs)
  obtain r1 w1 where s: "status_step t ev w = (r1, w1)" by (metis surj_pair)
  have "life_ok (life_view w1)" by (rule status_step_view [OF Cons.prems(1) s])
  then show ?case using Cons s by (cases r1) auto
qed simp

lemma new_sidecar_view: "life_view (xn_world (new_sidecar env cfg conf users x)) = life_view (xn_world x)"
  "xn_core (new_sidecar env cfg conf users x) = xn_core x"
  by (auto simp: new_sidecar_def Let_def life_view_def split: prod.splits sum.splits)

lemma xray_Shutdown_stops:
  assumes "life_ok (life_view (xn_world x))" and "xn_core x"
  shows "wo_waiting (xn_world (xray_Shutdown env True x)) = [] \<and> xk_process (wo_core (xn_world (xray_Shutdown env True x))) = None"
  using life_ok_stop [OF assms(1), of env] assms(2) by (simp add: xray_Shutdown_def)

lemma new_finish_stops:
  assumes "life_ok (life_view (xn_world x))" and "xn_core x" and "new_finish env cfg True x = (Some (Some e), x')"
  shows "wo_waiting (xn_world x') = [] \<and> xk_process (wo_core (xn_world x')) = None \<and> xn_sidecar x' = None \<and> xn_cancelled x'"
proof -
  obtain r w where c: "checkXrayStatus (startupLogTailSize (nc_StartupLogTailSize cfg)) (ne_status env) (xn_world x) = (r, w)" by (metis surj_pair)
  have ok: "life_ok (life_view w)" by (rule status_view [OF assms(1) c])
  have sd: "xn_sidecar (xray_Shutdown k b y) = None \<and> xn_cancelled (xray_Shutdown k b y)" for k b y by (simp add: xray_Shutdown_def)
  show ?thesis
    using assms(3) xray_Shutdown_stops [OF assms(1,2)] xray_Shutdown_stops [of "x\<lparr>xn_handler := True, xn_world := w\<rparr>"] ok assms(2) sd
    by (auto simp: new_finish_def c Let_def split: option.splits)
qed

lemma fresh_core_ok:
  assumes "NewXRayCore env exe assets conf n t = Inr k"
  shows "life_ok (life_view (fresh_world k c w))" "xk_process k = None"
  using core_run_ok [OF core_run.new [OF assms]] assms by (auto simp: fresh_world_def NewXRayCore_def new_xray_core_def split: sum.splits)

section \<open>Properties\<close>

text \<open>The wait for the API after a start never hangs on a process that is gone: it returns once its context ends, once the API answers, and at the next
  API tick after the process has ended.\<close>

theorem status_check_returns:
  assumes "core_run w"
    and "Ctx_Done \<in> set evs \<or> Api_Tick True \<in> set evs \<or> (\<exists>pre err post b. evs = pre @ Proc_Exit err # post \<and> Api_Tick b \<in> set post)"
  shows "\<exists>r w'. checkXrayStatus t evs w = (Some r, w')"
proof -
  have "fst (checkXrayStatus t evs w) \<noteq> None"
    using assms(2) status_decides status_exit_decides [OF core_run_ok [OF assms(1)]] by blast
  then show ?thesis by (cases "checkXrayStatus t evs w") auto
qed

text \<open>The error of a start whose process writes some lines and ends before the API is ready: it is the last line with a failure in it, or, when there is none,
  the reason with the newest lines, the report of the end included.\<close>

theorem failed_start_error:
  assumes "core_run w" and "core_Start env d w = (None, w')" and "lines = ls @ [exit_message err]"
  shows "fst (checkXrayStatus t (map Log_Line ls @ [Proc_Exit err, Api_Tick False]) w') = Some (Some
    (if filter isStartupFailureLog lines \<noteq> [] then ''failed to start xray: '' @ last (filter isStartupFailureLog lines)
     else let recent_lines = recent t (last_n (nat (xk_startupLogSize (wo_core w'))) lines)
          in if recent_lines = [] then ''xray process stopped before API became ready''
             else ''xray process stopped before API became ready; recent xray logs:'' @ [nl] @ str_join [nl] recent_lines))"
proof -
  have ok: "life_ok (life_view w')" by (rule core_run_ok [OF core_run.start [OF assms(1,2)]])
  obtain cmd where c: "xk_process (wo_core w') = Some cmd" "\<not> cm_exited cmd"
    using core_Start_logs [OF assms(2)] by (auto simp: core_Started_def split: option.splits)
  then have wt: "wo_waiting w' = [cm_id cmd]" "\<not> xk_stopping (wo_core w')" using ok by (auto simp: life_ok_def life_view_sel)
  let ?w1 = "w'\<lparr>wo_core := fold recordProcessLog ls (wo_core w')\<rparr>"
  let ?c2 = "recordProcessLog (exit_message err) (mark_exited (cm_id cmd) (fold recordProcessLog ls (wo_core w')))"
  have e: "wo_core (process_ends err ?w1) = ?c2"
    using c wt by (simp add: process_ends_def exit_seen_def wait_returns_def handleProcessExit_def mark_exited_def)
  have ns: "\<not> core_Started ?c2" using c by (simp add: core_Started_def mark_exited_def)
  note d = ended_core [where i = "cm_id cmd", OF core_Start_fresh [OF assms(2)] assms(3)]
  have "fst (checkXrayStatus t (map Log_Line ls @ [Proc_Exit err, Api_Tick False]) w') =
      Some (Some (startupErrorWithTail ?c2 t ''xray process stopped before API became ready''))"
    using ns by (auto simp: status_lines status_step_def e extractStartupError_def startupErrorWithTail_def Let_def split: option.split)
  also have "\<dots> = Some (Some
    (if filter isStartupFailureLog lines \<noteq> [] then ''failed to start xray: '' @ last (filter isStartupFailureLog lines)
     else let recent_lines = recent t (last_n (nat (xk_startupLogSize (wo_core w'))) lines)
          in if recent_lines = [] then ''xray process stopped before API became ready''
             else ''xray process stopped before API became ready; recent xray logs:'' @ [nl] @ str_join [nl] recent_lines))"
    using failure_not_Nil [of lines] by (simp add: startupErrorWithTail_def d Let_def)
  finally show ?thesis .
qed

text \<open>C34. While the Xray process runs, the health check restarts it exactly in every tenth of the rounds in a row in which the API fails; a success starts the count
  anew, and a process that does not run is restarted in the first failing round.\<close>

theorem health_check_restarts:
  assumes "\<forall>r\<in>set rs. \<not> hr_done r \<and> \<not> hr_restarting r \<and> hr_api r \<noteq> Api_Canceled \<and> hr_started r \<and> hr_restart_ok r"
    and "\<not> hr_done dead \<and> \<not> hr_restarting dead \<and> hr_api dead = Api_Failed \<and> \<not> hr_started dead \<and> hr_restart_ok dead"
  shows "checkXrayHealth rs 0 = map (\<lambda>k. 0 < k \<and> k mod 10 = 0) (streaks 0 rs) \<and> checkXrayHealth [dead] n = [True]"
  using health_streaks [OF assms(1), of 0] assms(2) by (simp add: maxFailures_def health_round_def Let_def)

text \<open>C33. When the start of the Xray back end fails at any point, the API or the status check included, no Xray process of it is left running and the core
  holds none, provided the killed process ends in time; a side-car that was started is shut down as well.\<close>

theorem failed_New_leaves_no_process:
  assumes "xray_New env cfg apiPort metricPort True users w = Some (Some (Some e), Some x)"
  shows "wo_waiting (xn_world x) = [] \<and> xk_process (wo_core (xn_world x)) = None \<and> xn_sidecar x = None"
proof -
  obtain exe assets conf c1 c2 limits k where
    a: "NewXRayCore (ne_core env) exe assets conf (nc_LogBufferSize cfg) (nc_StartupLogTailSize cfg) = Inr k"
    and m: "(case core_Start (ne_core env) (nc_Debug cfg) (fresh_world k c2 w) of
        (Some e, w1) \<Rightarrow> Some (Some (Some e), Some \<lparr>xn_world = w1, xn_core = False, xn_sidecar = None, xn_limits = limits, xn_cancelled = False, xn_handler = False\<rparr>)
      | (None, w1) \<Rightarrow>
          (case new_finish env cfg True (new_sidecar env cfg conf users \<lparr>xn_world = w1, xn_core = True, xn_sidecar = None, xn_limits = limits,
             xn_cancelled = False, xn_handler = False\<rparr>) of (r, x) \<Rightarrow> Some (r, Some x))) = Some (Some (Some e), Some x)"
    using assms unfolding xray_New_def Let_def by (auto split: sum.splits option.splits prod.splits)
  obtain e1 w1 where s: "core_Start (ne_core env) (nc_Debug cfg) (fresh_world k c2 w) = (e1, w1)" by (metis surj_pair)
  have ok: "life_ok (life_view w1)" by (rule life_ok_Start [OF fresh_core_ok(1) [OF a] s])
  show ?thesis
  proof (cases e1)
    case None
    let ?x = "new_sidecar env cfg conf users \<lparr>xn_world = w1, xn_core = True, xn_sidecar = None, xn_limits = limits, xn_cancelled = False, xn_handler = False\<rparr>"
    have "new_finish env cfg True ?x = (Some (Some e), x)" using m s None by (auto split: prod.splits)
    then show ?thesis using new_finish_stops [of ?x] ok by (simp add: new_sidecar_view)
  next
    case (Some e2)
    have f: "lv_process (life_view (fresh_world k c2 w)) = None" using fresh_core_ok(2) [OF a] by (simp add: life_view_sel fresh_world_def)
    have "lv_process (life_view w1) = None" using view_core_Start [OF s] Some f by auto
    then show ?thesis using m s Some ok by (auto simp: life_ok_def life_view_sel)
  qed
qed

section \<open>Concrete runs\<close>

theorem status_check_returns_witness:
  "\<exists>r w'. checkXrayStatus 5 [Error_Tick, Proc_Exit None, Api_Tick False] lab_world = (Some r, w')"
  by (rule status_check_returns [OF lab_core_run]) (metis append_Cons append_Nil list.set_intros(1))

theorem failed_start_error_witness:
  "\<exists>w. core_Start lab_core_env False lab_world = (None, w) \<and>
    fst (checkXrayStatus 5 (map Log_Line [''ok'', ''permission denied''] @ [Proc_Exit None, Api_Tick False]) w) =
      Some (Some ''failed to start xray: permission denied'')"
proof -
  obtain w where w: "core_Start lab_core_env False lab_world = (None, w)" using lab_start by blast
  have f: "filter isStartupFailureLog ([''ok'', ''permission denied''] @ [exit_message None]) = [''permission denied'']" by code_simp
  show ?thesis using failed_start_error [OF lab_core_run w refl, of 5 "[''ok'', ''permission denied'']" None] w unfolding f by simp
qed

definition lab_round :: "ApiAnswer \<Rightarrow> bool \<Rightarrow> HealthRound" where
  "lab_round a b = \<lparr>hr_done = False, hr_restarting = False, hr_api = a, hr_started = b, hr_restart_ok = True\<rparr>"

theorem health_check_restarts_witness:
  "checkXrayHealth (lab_round Api_Failed True # lab_round Api_Ok True # replicate 10 (lab_round Api_Failed True)) 0 =
     replicate 11 False @ [True] \<and> checkXrayHealth [lab_round Api_Failed False] 3 = [True]"
proof -
  let ?rs = "lab_round Api_Failed True # lab_round Api_Ok True # replicate 10 (lab_round Api_Failed True)"
  have h: "\<forall>r\<in>set ?rs. \<not> hr_done r \<and> \<not> hr_restarting r \<and> hr_api r \<noteq> Api_Canceled \<and> hr_started r \<and> hr_restart_ok r"
    "\<not> hr_done (lab_round Api_Failed False) \<and> \<not> hr_restarting (lab_round Api_Failed False) \<and> hr_api (lab_round Api_Failed False) = Api_Failed \<and>
      \<not> hr_started (lab_round Api_Failed False) \<and> hr_restart_ok (lab_round Api_Failed False)"
    by (simp_all add: lab_round_def)
  have "map (\<lambda>k. 0 < k \<and> k mod 10 = 0) (streaks 0 ?rs) = replicate 11 False @ [True]" by code_simp
  with health_check_restarts [OF h, of 3] show ?thesis by metis
qed

definition lab_new_env :: NewEnv where
  "lab_new_env = \<lparr>ne_core = lab_core_env, ne_json = \<lparr>je_Unmarshal = (\<lambda>_. Inl ''bad''), je_Marshal = (\<lambda>_. Inr ''{}'')\<rparr>, ne_ifaces = None,
     ne_uuid = (\<lambda>_. None), ne_sha256 = (\<lambda>s. s), ne_singbox_var = [], ne_sb_marshal = (\<lambda>_. Inr ''{}''), ne_NewXrayAPI = Some ''no api'', ne_status = []\<rparr>"

definition lab_node_config :: NodeConfig where
  "lab_node_config = \<lparr>nc_XrayExecutablePath = ''/xray'', nc_XrayAssetsPath = ''/a'', nc_GeneratedConfigPath = ''/c'', nc_LogBufferSize = 2,
     nc_StartupLogTailSize = 0, nc_Debug = False\<rparr>"

lemma lab_ApplyAPI: "\<exists>c. ApplyAPI (ne_json lab_new_env) (ne_ifaces lab_new_env) 1 2 lab_xcfg = Some (Inr c) \<and> xc_LogConfig c = None \<and> xc_sidecarInbounds c = []"
  by (simp add: ApplyAPI_def lab_new_env_def lab_xcfg_def drop_api_def Let_def sanitizeObservatorySelectors_def
      outboundProtocolByTag_def prepend_rules_def)

lemma lab_start_any:
  assumes "xk_process k = None"
  shows "\<exists>w1. core_Start lab_core_env False (fresh_world k c w) = (None, w1) \<and> xc_sidecarInbounds (wo_cfg w1) = xc_sidecarInbounds c"
proof -
  obtain a b c1 where g: "GetLogFiles c = ((a, b), c1)" by (metis surj_pair)
  have c1: "xc_sidecarInbounds c1 = xc_sidecarInbounds c" using g by (auto simp: GetLogFiles_def Let_def)
  have "fst (SetLogFile (ce_openable lab_core_env) a b (logger_New False)) = None"
    by (cases "a = []"; cases "b = []") (simp_all add: SetLogFile_def openLogFile_def lab_core_env_def Let_def)
  then obtain lg where l: "SetLogFile (ce_openable lab_core_env) a b (logger_New False) = (None, lg)" by (metis prod.collapse)
  have h: "ce_StdoutPipe lab_core_env = None" "he_Start (ce_host lab_core_env) argv = Inr 101" for argv
    by (simp_all add: lab_core_env_def lab_xhost_env_def)
  show ?thesis
    using assms c1
    by (simp add: core_Start_def fresh_world_def g ToBytes_def Let_def core_Started_def drop_process_def start_process_def l h launched_def)
qed

theorem failed_New_leaves_no_process_witness:
  "\<exists>e x. xray_New lab_new_env lab_node_config 1 2 True [] lab_world = Some (Some (Some e), Some x) \<and> wo_waiting (xn_world x) = []"
proof -
  obtain c where c: "ApplyAPI (ne_json lab_new_env) (ne_ifaces lab_new_env) 1 2 lab_xcfg = Some (Inr c)" using lab_ApplyAPI by blast
  have n: "NewXRayCore lab_core_env ''/xray'' ''/a'' ''/c'' 2 0 = Inr ((new_xray_core ''/xray'' ''/a'' ''/c'' 2 0)\<lparr>xk_version := ''1.8.4''\<rparr>)"
    by (simp add: NewXRayCore_def refreshVersion_def lab_core_env_def lab_xhost_env_def xray_version_def has_prefix_def ascii_digit_def numeral_2_eq_2)
  obtain w1 where w1: "core_Start lab_core_env False (fresh_world ((new_xray_core ''/xray'' ''/a'' ''/c'' 2 0)\<lparr>xk_version := ''1.8.4''\<rparr>) c lab_world) = (None, w1)"
    using lab_start_any [of "(new_xray_core ''/xray'' ''/a'' ''/c'' 2 0)\<lparr>xk_version := ''1.8.4''\<rparr>" c lab_world] by (auto simp: new_xray_core_def)
  have a: "pe_Abs (ce_proc lab_core_env) = Inr" "ne_core lab_new_env = lab_core_env" "wo_cfg lab_world = lab_xcfg" "ne_NewXrayAPI lab_new_env = Some ''no api''"
    by (simp_all add: lab_core_env_def lab_proc_env_def lab_new_env_def lab_world_def)
  have "\<exists>x. xray_New lab_new_env lab_node_config 1 2 True [] lab_world = Some (Some (Some ''no api''), Some x)"
    by (simp add: xray_New_def a c lab_node_config_def n new_users_def w1 new_finish_def)
  then show ?thesis using failed_New_leaves_no_process by blast
qed

section \<open>The side-car after a restart\<close>

text \<open>
  The goroutine of the process that a restart has replaced still waits for the mutex. When it gets it, the side-car counts as stopped
  while the new process runs.
\<close>

lemma sidecar_counts_as_stopped:
  assumes "sb_Restart env marshal True s h = (None, s', h')" and "si_process s = Some i" and "i \<in> set (si_waiting s)"
    and "si_waitDone s \<notin> set (si_closed s)"
  shows "si_running s'" and "\<not> si_running (sb_leave i s')"
    and "\<exists>j. si_process (sb_leave i s') = Some j \<and> j \<in> set (si_waiting (sb_leave i s')) \<and> j = si_started s"
  using assms by (auto simp: sb_Restart_def sb_start_def sb_Shutdown_def sb_wait_returns_def sb_leave_def Let_def split: prod.splits option.splits sum.splits)

text \<open>The file a side-car is started on holds the users of the last synchronisation.\<close>

lemma sidecar_SyncUsers_writes:
  assumes "sidecar_SyncUsers env marshal inTime users s h = (None, s', h')"
  shows "\<exists>b. marshal (buildConfig (sb_SyncUsers users (si_inbounds s))) = Inr b \<and> ho_files h' = (ho_files h)(sb_configPath env s \<mapsto> b)"
proof -
  let ?s = "s\<lparr>si_inbounds := sb_SyncUsers users (si_inbounds s)\<rparr>"
  define s2 where "s2 = (let s1 = sb_Shutdown inTime ?s in s1\<lparr>si_waitDone := si_chans s1, si_chans := si_chans s1 + 1\<rparr>)"
  have k: "si_inbounds s2 = sb_SyncUsers users (si_inbounds s)" "si_workDir s2 = si_workDir s"
    by (auto simp: s2_def sb_Shutdown_def sb_wait_returns_def Let_def split: option.split)
  have "sb_start env marshal s2 h = (None, s', h')" using assms by (simp add: sidecar_SyncUsers_def sb_Restart_def s2_def Let_def)
  then obtain b where b: "marshal (buildConfig (si_inbounds s2)) = Inr b" "os_WriteFile env (sb_configPath env s2) b h = (None, h')"
    by (auto simp: sb_start_def sb_writeConfig_def split: prod.splits option.splits sum.splits)
  then show ?thesis using os_WriteFile_ok [OF b(2)] k by (simp add: sb_configPath_def)
qed

end
