(* ===== verification/XrayStats.thy ===== *)
theory XrayStats
  imports XrayJobs HostRoute Composite
begin

text \<open>
  The statistics of Xray: \<open>backend/xray/api/stats.go\<close>, \<open>backend/xray/stats.go\<close> and \<open>backend/xray/latency.go\<close>. The counters live in the
  process of Xray and are asked for by a pattern; their names are built from a kind, a name, a link and a direction. The
  theory shows which counters a request reports, and what the health check makes of the errors of the API.
\<close>

section \<open>The names of counters\<close>

definition sep3 :: string where
  "sep3 = ''>>>''"

lemma str_cut_length: "str_cut s sep = Some (a, b) \<Longrightarrow> length b + length sep \<le> length s"
proof (induction s arbitrary: a b)
  case (Cons c cs)
  show ?case
  proof (cases "has_prefix (c # cs) sep")
    case True
    have "length sep \<le> length (c # cs)" using True unfolding has_prefix_def by (metis length_take min.cobounded1)
    then show ?thesis using True Cons.prems by auto
  next
    case False
    then obtain a' where "str_cut cs sep = Some (a', b)" using Cons.prems by (auto split: option.splits)
    from Cons.IH [OF this] show ?thesis by simp
  qed
qed (auto split: if_splits)

text \<open>\<open>strings.Split\<close> at \<open>>>>\<close>.\<close>

function split_sep3 :: "string \<Rightarrow> string list" where
  "split_sep3 s = (case str_cut s sep3 of None \<Rightarrow> [s] | Some (a, b) \<Rightarrow> a # split_sep3 b)"
  by pat_completeness auto
termination
proof (relation "measure length")
  fix s :: string and x :: "string \<times> string" and a b assume "str_cut s sep3 = Some x" "(a, b) = x"
  then have "length b + length sep3 \<le> length s" using str_cut_length by metis
  then show "(b, s) \<in> measure length" by (simp add: sep3_def)
qed simp

declare split_sep3.simps [simp del]

definition parseStatName :: "string \<Rightarrow> (string \<times> string \<times> string) option" where
  "parseStatName raw =
    (let parts = split_sep3 raw
     in if length parts < 4 then None
        else if parts ! 1 = [] \<or> parts ! 2 = [] \<or> parts ! 3 = [] then None
        else Some (parts ! 1, parts ! 2, parts ! 3))"

definition build_stat :: "string \<times> int \<Rightarrow> Stat option" where
  "build_stat stat =
    map_option (\<lambda>(name, link, statType). \<lparr>st_Name = name, st_Type = statType, st_Link = link, st_Value = snd stat\<rparr>) (parseStatName (fst stat))"

definition buildStatResponse :: "(string \<times> int) list \<Rightarrow> Stat list" where
  "buildStatResponse queryStats = List.map_filter build_stat queryStats"

section \<open>The requests\<close>

text \<open>
  The services of the process: \<open>QueryStats\<close> with a pattern and whether to reset, \<open>GetStatsOnline\<close> and \<open>GetStatsOnlineIpList\<close> with a name. The
  state \<open>'w\<close> is the process.
\<close>

record 'w StatsEnv =
  sa_QueryStats :: "string \<Rightarrow> bool \<Rightarrow> 'w \<Rightarrow> (string + (string \<times> int) list) \<times> 'w"
  sa_GetStatsOnline :: "string \<Rightarrow> 'w \<Rightarrow> string + int"
  sa_GetStatsOnlineIpList :: "string \<Rightarrow> 'w \<Rightarrow> string + (string \<rightharpoonup> int)"

definition query_response :: "'w StatsEnv \<Rightarrow> string \<Rightarrow> bool \<Rightarrow> 'w \<Rightarrow> (string + Stat list) \<times> 'w" where
  "query_response env pattern reset w =
    (case sa_QueryStats env pattern reset w of
       (Inl e, w') \<Rightarrow> (Inl e, w')
     | (Inr stats, w') \<Rightarrow> (Inr (buildStatResponse stats), w'))"

definition GetUserOnlineStats :: "'w StatsEnv \<Rightarrow> string \<Rightarrow> 'w \<Rightarrow> string + OnlineStatResponse" where
  "GetUserOnlineStats env email w =
    (if email = [] then Inl ''email required''
     else case sa_GetStatsOnline env (''user>>>'' @ email @ ''>>>online'') w of
            Inl e \<Rightarrow> Inl e
          | Inr v \<Rightarrow> Inr \<lparr>on_Name = email, on_Value = v\<rparr>)"

definition GetUserOnlineIpListStats :: "'w StatsEnv \<Rightarrow> string \<Rightarrow> 'w \<Rightarrow> string + StatsOnlineIpListResponse" where
  "GetUserOnlineIpListStats env email w =
    (if email = [] then Inl ''email required''
     else case sa_GetStatsOnlineIpList env (''user>>>'' @ email @ ''>>>online'') w of
            Inl e \<Rightarrow> Inl e
          | Inr ips \<Rightarrow> Inr \<lparr>oi_Name = email, oi_Ips = ips, oi_IpProtocol = Map.empty\<rparr>)"

definition xapi_GetUsersStats :: "'w StatsEnv \<Rightarrow> bool \<Rightarrow> 'w \<Rightarrow> (string + Stat list) \<times> 'w" where
  "xapi_GetUsersStats env reset w = query_response env ''user>>>'' reset w"

definition GetInboundsStats :: "'w StatsEnv \<Rightarrow> bool \<Rightarrow> 'w \<Rightarrow> (string + Stat list) \<times> 'w" where
  "GetInboundsStats env reset w = query_response env ''inbound>>>'' reset w"

definition GetOutboundsStats :: "'w StatsEnv \<Rightarrow> bool \<Rightarrow> 'w \<Rightarrow> (string + Stat list) \<times> 'w" where
  "GetOutboundsStats env reset w = query_response env ''outbound>>>'' reset w"

definition GetUserStats :: "'w StatsEnv \<Rightarrow> string \<Rightarrow> bool \<Rightarrow> 'w \<Rightarrow> (string + Stat list) \<times> 'w" where
  "GetUserStats env email reset w =
    (if email = [] then (Inl ''email required'', w) else query_response env (''user>>>'' @ email @ ''>>>'') reset w)"

definition GetInboundStats :: "'w StatsEnv \<Rightarrow> string \<Rightarrow> bool \<Rightarrow> 'w \<Rightarrow> (string + Stat list) \<times> 'w" where
  "GetInboundStats env tag reset w =
    (if tag = [] then (Inl ''tag required'', w) else query_response env (''inbound>>>'' @ tag @ ''>>>'') reset w)"

definition GetOutboundStats :: "'w StatsEnv \<Rightarrow> string \<Rightarrow> bool \<Rightarrow> 'w \<Rightarrow> (string + Stat list) \<times> 'w" where
  "GetOutboundStats env tag reset w =
    (if tag = [] then (Inl ''tag required'', w) else query_response env (''outbound>>>'' @ tag @ ''>>>'') reset w)"

definition xray_GetStats :: "'w StatsEnv \<Rightarrow> StatRequest \<Rightarrow> 'w \<Rightarrow> (string + Stat list) \<times> 'w" where
  "xray_GetStats env request w =
    (case sr_Type request of
       Outbounds \<Rightarrow> GetOutboundsStats env (sr_Reset request) w
     | Outbound \<Rightarrow> GetOutboundStats env (sr_Name request) (sr_Reset request) w
     | Inbounds \<Rightarrow> GetInboundsStats env (sr_Reset request) w
     | Inbound \<Rightarrow> GetInboundStats env (sr_Name request) (sr_Reset request) w
     | UsersStat \<Rightarrow> xapi_GetUsersStats env (sr_Reset request) w
     | UserStat \<Rightarrow> GetUserStats env (sr_Name request) (sr_Reset request) w
     | OtherStat _ \<Rightarrow> (Inl ''not implemented stat type'', w))"

section \<open>Latencies\<close>

record observatoryEntry =
  ob_Alive :: bool
  ob_Delay :: int
  ob_OutboundTag :: string
  ob_LastSeenTime :: int
  ob_LastTryTime :: int

definition shouldIncludeObservatoryOutbound :: "(string \<rightharpoonup> string) \<Rightarrow> string \<Rightarrow> bool" where
  "shouldIncludeObservatoryOutbound protocolByTag tag =
    (case protocolByTag tag of None \<Rightarrow> True | Some protocol \<Rightarrow> protocol \<notin> observatoryExcludedProtocols)"

definition latency_entry :: "(string \<rightharpoonup> observatoryEntry) \<Rightarrow> string \<Rightarrow> Latency" where
  "latency_entry vars key =
    (let entry = map_get \<lparr>ob_Alive = False, ob_Delay = 0, ob_OutboundTag = [], ob_LastSeenTime = 0, ob_LastTryTime = 0\<rparr> vars key
     in \<lparr>la_Name = key, la_Alive = ob_Alive entry, la_Delay = ob_Delay entry,
         la_Link = (if ob_OutboundTag entry = [] then key else ob_OutboundTag entry), la_LastSeenTime = ob_LastSeenTime entry,
         la_LastTryTime = ob_LastTryTime entry, la_Source = ''xray-observatory''\<rparr>)"

text \<open>
  \<open>http\<close> is the answer of the metrics port: an error of the request, or the status and the decoded body. \<open>order\<close> is the order of the loop
  over the map.
\<close>

definition xray_GetOutboundsLatency :: "(string + nat \<times> (string + (string \<rightharpoonup> observatoryEntry))) \<Rightarrow> string list \<Rightarrow> Core option \<Rightarrow> json option \<Rightarrow>
    string \<Rightarrow> string + Latency list" where
  "xray_GetOutboundsLatency http order core_opt outbounds name =
    (let protocolByTag = (case outbounds of None \<Rightarrow> Map.empty | Some os \<Rightarrow> outboundProtocolByTag os)
     in if \<not> (case core_opt of None \<Rightarrow> False | Some c \<Rightarrow> core_Started c) then Inl ''xray not started''
        else case http of
          Inl e \<Rightarrow> Inl (''read xray observatory metrics: '' @ e)
        | Inr (status, body) \<Rightarrow>
            if status \<noteq> 200 then Inl (''read xray observatory metrics: unexpected status '' @ show_dec status)
            else (case body of
                    Inl e \<Rightarrow> Inl (''decode xray observatory metrics: '' @ e)
                  | Inr vars \<Rightarrow>
                      if map_len vars = 0 then Inl ''xray outbound latency is not available''
                      else Inr (map (latency_entry vars)
                             (sort (filter (\<lambda>key. (name = [] \<or> key = name) \<and> shouldIncludeObservatoryOutbound protocolByTag key) order)))))"

section \<open>The API and the health check\<close>

text \<open>The statistics of the process; every error comes back as a status.\<close>

definition api_GetSysStats :: "(GoError \<Rightarrow> string) \<Rightarrow> GoError + BackendStats \<Rightarrow> GoError + BackendStats" where
  "api_GetSysStats error_text r =
    (case r of
       Inr stats \<Rightarrow> Inr stats
     | Inl e \<Rightarrow> Inl (StatusError (case e of StatusError c _ \<Rightarrow> c | PlainError _ \<Rightarrow> Unknown) (''failed to get sys stats: '' @ error_text e)))"

text \<open>\<open>errors.Is(err, context.Canceled)\<close>: a status wraps nothing.\<close>

definition is_context_canceled :: "GoError \<Rightarrow> bool" where
  "is_context_canceled e \<longleftrightarrow> e = PlainError ''context canceled''"

definition health_answer :: "GoError + BackendStats \<Rightarrow> ApiAnswer" where
  "health_answer r = (case r of Inr _ \<Rightarrow> Api_Ok | Inl e \<Rightarrow> if is_context_canceled e then Api_Canceled else Api_Failed)"

lemma health_answer_never_canceled: "health_answer (api_GetSysStats txt (Inl e)) = Api_Failed"
  by (simp add: health_answer_def api_GetSysStats_def is_context_canceled_def)

section \<open>Patterns in names\<close>

definition stat_name :: "string \<Rightarrow> string \<Rightarrow> string \<Rightarrow> string \<Rightarrow> string" where
  "stat_name kind name link dir = kind @ sep3 @ name @ sep3 @ link @ sep3 @ dir"

definition word3 :: "string \<Rightarrow> bool" where
  "word3 s \<longleftrightarrow> s \<noteq> [] \<and> CHR ''>'' \<notin> set s"

lemma sep3_cut_plain: "CHR ''>'' \<notin> set s \<Longrightarrow> str_cut s sep3 = None"
  by (induction s) (auto simp: sep3_def has_prefix_def)

lemma str_cut_sep3: "CHR ''>'' \<notin> set p \<Longrightarrow> str_cut (p @ sep3 @ r) sep3 = Some (p, r)"
  by (induction p) (auto simp: sep3_def has_prefix_def)

lemma split_sep3_plain: "CHR ''>'' \<notin> set s \<Longrightarrow> split_sep3 s = [s]"
  by (simp add: split_sep3.simps [of s] sep3_cut_plain)

lemma split_sep3_step: "CHR ''>'' \<notin> set p \<Longrightarrow> split_sep3 (p @ sep3 @ r) = p # split_sep3 r"
  by (simp add: split_sep3.simps [of "p @ sep3 @ r"] str_cut_sep3)

lemma parse_stat_name:
  assumes "CHR ''>'' \<notin> set kind" "word3 name" "word3 link" "word3 dir"
  shows "parseStatName (stat_name kind name link dir) = Some (name, link, dir)"
  using assms by (simp add: parseStatName_def stat_name_def word3_def split_sep3_step split_sep3_plain)

lemma word3_append_eq:
  assumes "CHR ''>'' \<notin> set p" "CHR ''>'' \<notin> set q" "p @ CHR ''>'' # x = q @ CHR ''>'' # y"
  shows "p = q \<and> x = y"
  using assms by (induction p arbitrary: q) (auto simp: Cons_eq_append_conv append_eq_Cons_conv)

text \<open>A pattern \<open>u>>>v\<close> meets a name \<open>p>>>r\<close> at its first separator, or further on.\<close>

lemma contains_sep3:
  assumes "CHR ''>'' \<notin> set p" "word3 u"
  shows "str_contains (p @ sep3 @ r) (u @ sep3 @ v) \<longleftrightarrow> (has_suffix p u \<and> has_prefix r v) \<or> str_contains r (u @ sep3 @ v)"
proof
  assume "str_contains (p @ sep3 @ r) (u @ sep3 @ v)"
  then obtain a b where e: "p @ sep3 @ r = a @ u @ sep3 @ v @ b" by (auto simp: str_contains_iff)
  have u: "u \<noteq> []" "CHR ''>'' \<notin> set u" using assms(2) by (auto simp: word3_def)
  show "(has_suffix p u \<and> has_prefix r v) \<or> str_contains r (u @ sep3 @ v)"
  proof (cases "CHR ''>'' \<in> set a")
    case False
    then have "CHR ''>'' \<notin> set (a @ u)" using u by simp
    with word3_append_eq [OF assms(1) this, of "''>>'' @ r" "''>>'' @ v @ b"] e have "p = a @ u" "r = v @ b"
      by (auto simp: sep3_def)
    then show ?thesis by (simp add: has_suffix_def)
  next
    case True
    then obtain a1 a2 where a: "a = a1 @ CHR ''>'' # a2" "CHR ''>'' \<notin> set a1" by (meson split_list_first)
    have "p = a1 \<and> ''>>'' @ r = a2 @ u @ sep3 @ v @ b"
      using word3_append_eq [OF assms(1) a(2), of "''>>'' @ r" "a2 @ u @ sep3 @ v @ b"] e a(1) by (simp add: sep3_def)
    then have r: "CHR ''>'' # CHR ''>'' # r = a2 @ u @ sep3 @ v @ b" by simp
    obtain u1 us where us: "u = u1 # us" "u1 \<noteq> CHR ''>''" using u by (cases u) auto
    obtain a3 where "a2 = CHR ''>'' # CHR ''>'' # a3" using r us by (cases a2; cases "tl a2") auto
    then have "r = a3 @ (u @ sep3 @ v) @ b" using r by simp
    then show ?thesis unfolding str_contains_iff by blast
  qed
next
  assume "(has_suffix p u \<and> has_prefix r v) \<or> str_contains r (u @ sep3 @ v)"
  then show "str_contains (p @ sep3 @ r) (u @ sep3 @ v)"
  proof
    assume h: "has_suffix p u \<and> has_prefix r v"
    obtain a where "p = a @ u" using h unfolding has_suffix_def by (metis append_take_drop_id)
    moreover obtain b where "r = v @ b" using h unfolding has_prefix_def by (metis append_take_drop_id)
    ultimately show ?thesis unfolding str_contains_iff by (intro exI [of _ a] exI [of _ b]) simp
  next
    assume "str_contains r (u @ sep3 @ v)"
    then obtain a b where "r = a @ (u @ sep3 @ v) @ b" by (auto simp: str_contains_iff)
    then show ?thesis unfolding str_contains_iff by (intro exI [of _ "p @ sep3 @ a"] exI [of _ b]) simp
  qed
qed

lemma contains_last: "CHR ''>'' \<notin> set p \<Longrightarrow> \<not> str_contains p (u @ sep3 @ v)"
  by (auto simp: str_contains_iff sep3_def)

lemma contains_name:
  assumes "word3 kind" "word3 name" "word3 link" "word3 dir" "word3 u"
  shows "str_contains (stat_name kind name link dir) (u @ sep3 @ v) \<longleftrightarrow>
    (has_suffix kind u \<and> has_prefix (name @ sep3 @ link @ sep3 @ dir) v) \<or>
    (has_suffix name u \<and> has_prefix (link @ sep3 @ dir) v) \<or> (has_suffix link u \<and> has_prefix dir v)"
  using assms by (simp add: stat_name_def word3_def [of kind] word3_def [of name] word3_def [of link] word3_def [of dir] contains_sep3 contains_last)

lemma prefix_word: "word3 p \<Longrightarrow> word3 q \<Longrightarrow> has_prefix (p @ sep3 @ r) (q @ sep3) \<longleftrightarrow> p = q"
proof
  assume w: "word3 p" "word3 q" "has_prefix (p @ sep3 @ r) (q @ sep3)"
  then obtain b where "p @ sep3 @ r = (q @ sep3) @ b" unfolding has_prefix_def by (metis append_take_drop_id)
  then show "p = q" using word3_append_eq [of p q "''>>'' @ r" "''>>'' @ b"] w by (simp add: word3_def sep3_def)
next
  assume "p = q"
  then have "p @ sep3 @ r = (q @ sep3) @ r" by simp
  then show "has_prefix (p @ sep3 @ r) (q @ sep3)" by (simp only: has_prefix_append)
qed

lemma prefix_plain: "word3 p \<Longrightarrow> \<not> has_prefix p (q @ sep3)"
proof
  assume w: "word3 p" "has_prefix p (q @ sep3)"
  then obtain b where "p = (q @ sep3) @ b" unfolding has_prefix_def by (metis append_take_drop_id)
  then show False using w by (simp add: word3_def sep3_def)
qed

section \<open>What a request reports\<close>

text \<open>The traffic counters of a process: the kind, the name, the direction and the value.\<close>

type_synonym counter = "string \<times> string \<times> string \<times> int"

definition counter_entry :: "counter \<Rightarrow> string \<times> int" where
  "counter_entry c = (case c of (kind, name, dir, v) \<Rightarrow> (stat_name kind name ''traffic'' dir, v))"

definition traffic_counter :: "counter \<Rightarrow> bool" where
  "traffic_counter c = (case c of (kind, name, dir, v) \<Rightarrow> kind \<in> {''user'', ''inbound'', ''outbound''} \<and> word3 name \<and> dir \<in> {''uplink'', ''downlink''})"

definition counter_stat :: "counter \<Rightarrow> Stat" where
  "counter_stat c = (case c of (kind, name, dir, v) \<Rightarrow> \<lparr>st_Name = name, st_Type = dir, st_Link = ''traffic'', st_Value = v\<rparr>)"

text \<open>The documented answer of \<open>QueryStats\<close>: the counters whose name contains the pattern.\<close>

definition answers_by_pattern :: "'w StatsEnv \<Rightarrow> counter list \<Rightarrow> 'w \<Rightarrow> bool" where
  "answers_by_pattern env C w \<longleftrightarrow>
    (\<forall>pattern reset. fst (sa_QueryStats env pattern reset w) = Inr (filter (\<lambda>e. str_contains (fst e) pattern) (map counter_entry C)))"

lemma counter_words: "traffic_counter (kind, name, dir, v) \<Longrightarrow> word3 kind \<and> word3 name \<and> word3 ''traffic'' \<and> word3 dir"
  by (auto simp: traffic_counter_def word3_def)

lemma build_counter: "traffic_counter c \<Longrightarrow> build_stat (counter_entry c) = Some (counter_stat c)"
  by (cases c) (auto simp: build_stat_def counter_entry_def counter_stat_def word3_def dest!: counter_words intro!: parse_stat_name)

lemma query_counters:
  assumes "answers_by_pattern env C w" and "\<forall>c\<in>set C. traffic_counter c"
  shows "fst (query_response env pattern reset w) = Inr (map counter_stat (filter (\<lambda>c. str_contains (fst (counter_entry c)) pattern) C))"
proof -
  have q: "fst (sa_QueryStats env pattern reset w) = Inr (map counter_entry (filter (\<lambda>c. str_contains (fst (counter_entry c)) pattern) C))"
    using assms(1) by (simp add: answers_by_pattern_def filter_map comp_def)
  have "List.map_filter build_stat (map counter_entry D) = map counter_stat D" if "set D \<subseteq> set C" for D
    using that assms(2) by (induction D) (auto simp: map_filter_simps build_counter)
  then show ?thesis
    using q by (cases "sa_QueryStats env pattern reset w") (simp add: query_response_def buildStatResponse_def)
qed

lemma pattern_user:
  assumes "traffic_counter (kind, name, dir, v)"
  shows "str_contains (fst (counter_entry (kind, name, dir, v))) ''user>>>'' \<longleftrightarrow> kind = ''user'' \<or> has_suffix name ''user''"
proof -
  have u: "word3 ''user''" by (simp add: word3_def)
  have k: "has_suffix kind ''user'' \<longleftrightarrow> kind = ''user''" using assms by (auto simp: traffic_counter_def has_suffix_def)
  have "\<not> has_suffix ''traffic'' ''user''" by (simp add: has_suffix_def)
  then show ?thesis
    using contains_name [of kind name "''traffic''" dir "''user''" "[]"] counter_words [OF assms] u k
    by (simp add: counter_entry_def sep3_def has_prefix_def)
qed

lemma pattern_one_user:
  assumes "traffic_counter (kind, name, dir, v)" and "word3 email" and "email \<noteq> ''traffic''"
  shows "str_contains (fst (counter_entry (kind, name, dir, v))) (''user>>>'' @ email @ ''>>>'') \<longleftrightarrow> kind = ''user'' \<and> name = email"
proof -
  have u: "word3 ''user''" by (simp add: word3_def)
  have k: "has_suffix kind ''user'' \<longleftrightarrow> kind = ''user''" using assms by (auto simp: traffic_counter_def has_suffix_def)
  have "\<not> has_suffix ''traffic'' ''user''" by (simp add: has_suffix_def)
  moreover have "has_prefix (''traffic'' @ sep3 @ dir) (email @ sep3) \<longleftrightarrow> ''traffic'' = email"
    by (rule prefix_word) (use counter_words [OF assms(1)] assms(2) in auto)
  moreover have "has_prefix (name @ sep3 @ ''traffic'' @ sep3 @ dir) (email @ sep3) \<longleftrightarrow> name = email"
    by (rule prefix_word) (use counter_words [OF assms(1)] assms(2) in auto)
  moreover have "''user>>>'' @ email @ ''>>>'' = ''user'' @ sep3 @ (email @ sep3)" by (simp add: sep3_def)
  ultimately show ?thesis
    using contains_name [of kind name "''traffic''" dir "''user''" "email @ sep3"] counter_words [OF assms(1)] u k assms(3)
    by (auto simp: counter_entry_def)
qed

section \<open>Properties\<close>

text \<open>C36. When the process answers a pattern with the counters whose names contain it, and no name contains the separator, the statistics of one user are exactly
  that user's counters. The statistics of all users are the counters of the users and, besides, those of every inbound and outbound whose tag ends in
  user, reported under the tag as if it were an email.\<close>

theorem user_stats_exact:
  assumes "answers_by_pattern env C w" and "\<forall>c\<in>set C. traffic_counter c" and "word3 email" and "email \<noteq> ''traffic''"
  shows "fst (GetUserStats env email reset w) = Inr (map counter_stat (filter (\<lambda>(kind, name, dir, v). kind = ''user'' \<and> name = email) C)) \<and>
    fst (xapi_GetUsersStats env reset w) = Inr (map counter_stat (filter (\<lambda>(kind, name, dir, v). kind = ''user'' \<or> has_suffix name ''user'') C))"
proof -
  have a: "filter (\<lambda>c. str_contains (fst (counter_entry c)) (''user>>>'' @ email @ ''>>>'')) C = filter (\<lambda>(kind, name, dir, v). kind = ''user'' \<and> name = email) C"
    by (rule filter_cong [OF refl]) (use assms(2-4) pattern_one_user in fastforce)
  have b: "filter (\<lambda>c. str_contains (fst (counter_entry c)) ''user>>>'') C = filter (\<lambda>(kind, name, dir, v). kind = ''user'' \<or> has_suffix name ''user'') C"
    by (rule filter_cong [OF refl]) (use assms(2) pattern_user in fastforce)
  have "email \<noteq> []" using assms(3) by (simp add: word3_def)
  then show ?thesis
    using query_counters [OF assms(1,2)] a b by (simp add: GetUserStats_def xapi_GetUsersStats_def)
qed

text \<open>C35. A shutdown can be undone: a health check whose request is cut off by the shutdown gets a status, which never counts as a cancelled context, and takes the
  stopped process for a dead one; its restart then brings Xray up again behind the back of the node.\<close>

theorem shutdown_undone_by_health_check:
  assumes "life_ok (life_view (xn_world x))" and "xn_core x" and "x' = xray_Shutdown env True x"
    and "\<not> hr_done r" and "\<not> hr_restarting r" and "hr_api r = health_answer (api_GetSysStats txt (Inl e))" and "hr_started r = core_Started (wo_core (xn_world x'))"
    and "xcore_Restart env' True d (xn_world x') = (None, w')"
  shows "(\<exists>k. health_round r n = Some (k, True)) \<and> core_Started (wo_core w')"
proof
  have "\<not> core_Started (wo_core (xn_world x'))"
    using xray_Shutdown_stops [OF assms(1,2)] assms(3) by (simp add: core_Started_def)
  then show "\<exists>k. health_round r n = Some (k, True)"
    using assms(4-7) by (simp add: health_round_def health_answer_never_canceled Let_def)
  obtain e1 w1 where s: "core_Start env' d (core_Stop env' True (set_restarting True (xn_world x'))) = (e1, w1)" by (metis surj_pair)
  have e1: "e1 = None" "w' = set_restarting False w1" using assms(8) s by (auto simp: xcore_Restart_def split: if_splits)
  show "core_Started (wo_core w')"
    using core_Start_logs [OF s [unfolded e1(1)]] by (simp add: e1(2) set_restarting_def core_Started_def)
qed

text \<open>Counters of a user, and of an inbound whose tag ends in \<open>user\<close>.\<close>

definition lab_counters :: "counter list" where
  "lab_counters = [(''user'', ''ann'', ''uplink'', 5), (''inbound'', ''ws-user'', ''downlink'', 7), (''outbound'', ''direct'', ''uplink'', 9)]"

definition lab_stats_env :: "unit StatsEnv" where
  "lab_stats_env = \<lparr>sa_QueryStats = (\<lambda>pattern reset w. (Inr (filter (\<lambda>e. str_contains (fst e) pattern) (map counter_entry lab_counters)), w)),
     sa_GetStatsOnline = (\<lambda>_ _. Inr 0), sa_GetStatsOnlineIpList = (\<lambda>_ _. Inr Map.empty)\<rparr>"

theorem user_stats_exact_witness:
  "fst (GetUserStats lab_stats_env ''ann'' True ()) = Inr [counter_stat (''user'', ''ann'', ''uplink'', 5)] \<and>
   fst (xapi_GetUsersStats lab_stats_env True ()) =
     Inr [counter_stat (''user'', ''ann'', ''uplink'', 5), counter_stat (''inbound'', ''ws-user'', ''downlink'', 7)]"
proof -
  have "answers_by_pattern lab_stats_env lab_counters ()" by (simp add: answers_by_pattern_def lab_stats_env_def)
  moreover have "\<forall>c\<in>set lab_counters. traffic_counter c" by (simp add: lab_counters_def traffic_counter_def word3_def)
  moreover have "word3 ''ann''" by (simp add: word3_def)
  ultimately show ?thesis
    using user_stats_exact [of lab_stats_env lab_counters "()" "''ann''" True] by (simp add: lab_counters_def has_suffix_def)
qed

theorem shutdown_undone_by_health_check_witness:
  "\<exists>w' k. xcore_Restart lab_core_env True False lab_world = (None, w') \<and> core_Started (wo_core w') \<and>
    health_round (lab_round (health_answer (api_GetSysStats (\<lambda>_. ''c'') (Inl (StatusError Canceled ''c'')))) False) 0 = Some (k, True)"
proof -
  let ?x = "\<lparr>xn_world = lab_world, xn_core = True, xn_sidecar = None, xn_limits = empty_Xray, xn_cancelled = False, xn_handler = True\<rparr>"
  let ?r = "lab_round (health_answer (api_GetSysStats (\<lambda>_. ''c'') (Inl (StatusError Canceled ''c'')))) False"
  have k: "core_Stop lab_core_env True lab_world = lab_world"
    by (simp add: core_Stop_def lab_world_def new_xray_core_def core_Started_def)
  have w: "xn_world (xray_Shutdown lab_core_env True ?x) = lab_world" by (simp add: xray_Shutdown_def k)
  have ns: "\<not> core_Started (wo_core lab_world)" by (simp add: lab_world_def new_xray_core_def core_Started_def)
  obtain w' where r: "xcore_Restart lab_core_env True False lab_world = (None, w')" using lab_restart by blast
  have "(\<exists>k. health_round ?r 0 = Some (k, True)) \<and> core_Started (wo_core w')"
    by (rule shutdown_undone_by_health_check [where x = ?x and env = lab_core_env, OF _ _ refl])
      (use core_run_ok [OF lab_core_run] r w ns in \<open>simp_all add: lab_round_def\<close>)
  then show ?thesis using r by blast
qed

end
