(* ===== verification/HostRouteCorrect.thy ===== *)
theory HostRouteCorrect
  imports HostRoute
begin

text \<open>
  What the host routing leaves behind. The rules of a chain are seen through a view of the host, and the laws of
  nft that the results need are stated on it: listing prints the rules with their handles, deleting removes a rule,
  inserting puts one in front. The lemmas take the mark that opens the comments as a parameter, since the WireGuard
  back end has one of its own.
\<close>

section \<open>Rules and their print\<close>

text \<open>The text of a rule before its comment, with the indentation; the comment is printed in double quotes.\<close>

record nftRule =
  nr_handle :: nat
  nr_head :: string
  nr_comment :: "string option"

abbreviation dq :: char where "dq \<equiv> CHR 0x22"

definition print_rule :: "nftRule \<Rightarrow> string" where
  "print_rule r =
    nr_head r @ (case nr_comment r of None \<Rightarrow> [] | Some c \<Rightarrow> dq # c @ [dq]) @ '' # handle '' @ show_dec (nr_handle r)"

text \<open>The rules of an owner, by the beginning of its comments.\<close>

definition owned :: "string \<Rightarrow> nftRule \<Rightarrow> bool" where
  "owned p r \<longleftrightarrow> (case nr_comment r of None \<Rightarrow> False | Some c \<Rightarrow> str_contains c p)"

text \<open>The mark stands in comments only, and the texts of rules that carry it have no number sign.\<close>

definition rule_ok :: "string \<Rightarrow> nftRule \<Rightarrow> bool" where
  "rule_ok mark r \<longleftrightarrow> \<not> str_contains (nr_head r @ '' '') mark \<and>
    (owned mark r \<longrightarrow> CHR ''#'' \<notin> set (nr_head r) \<and> CHR ''#'' \<notin> set (the (nr_comment r)))"

definition mark_ok :: "string \<Rightarrow> bool" where
  "mark_ok mark \<longleftrightarrow> dq \<notin> set mark \<and> CHR ''#'' \<notin> set mark \<and> CHR ''='' \<in> set mark"

text \<open>Names of owners and subnets: printable characters that need no quoting, without blank and number sign.\<close>

definition plain :: "string \<Rightarrow> bool" where
  "plain s \<longleftrightarrow> (\<forall>c\<in>set s. 33 \<le> (of_char c :: nat) \<and> (of_char c :: nat) \<le> 126 \<and> c \<notin> {dq, CHR ''#'', CHR 0x5C})"

lemma contains_chars: "str_contains s p \<Longrightarrow> set p \<subseteq> set s"
  by (auto simp: str_contains_iff)

lemma fields_show_dec: "str_fields (show_dec n) = [show_dec n]"
proof -
  have "\<not> is_space c" if "c \<in> set (show_dec n)" for c
    using digits_plain [OF that] by (auto simp: is_space_def)
  then have "split_space w = [w]" if "w \<noteq> []" "set w \<subseteq> set (show_dec n)" for w
    using that
  proof (induction w)
    case (Cons a w)
    then show ?case by (cases "w = []") auto
  qed simp
  then show ?thesis using show_dec_nonempty by (simp add: str_fields_def)
qed

lemma handle_part: "CHR ''='' \<in> set p \<Longrightarrow> \<not> str_contains ('' # handle '' @ show_dec n) p"
proof
  assume "CHR ''='' \<in> set p" "str_contains ('' # handle '' @ show_dec n) p"
  then have "CHR ''='' \<in> set (show_dec n)" using contains_chars by fastforce
  then show False using digits_plain by fastforce
qed

lemma str_cut_plain: "CHR ''#'' \<notin> set a \<Longrightarrow> str_cut (a @ ''# handle '' @ b) ''# handle '' = Some (a, b)"
  by (induction a) (auto simp: has_prefix_def)

lemma contains_print:
  assumes "rule_ok mark r" "mark_ok mark" "p = mark @ q" "dq \<notin> set p" "CHR ''#'' \<notin> set p"
  shows "str_contains (print_rule r) p \<longleftrightarrow> owned p r"
proof (cases "nr_comment r")
  case None
  have eq: "CHR ''='' \<in> set p" using assms(2,3) by (simp add: mark_ok_def)
  have "print_rule r = (nr_head r @ '' '') @ CHR ''#'' # ('' handle '' @ show_dec (nr_handle r))"
    by (simp add: print_rule_def None)
  moreover have "\<not> str_contains ('' handle '' @ show_dec (nr_handle r)) p"
    using handle_part [OF eq, of "nr_handle r"] str_contains_split [OF assms(5), of "'' ''"] by simp
  moreover have "\<not> str_contains (nr_head r @ '' '') p"
    using assms(1,3) str_contains_trans by (auto simp: rule_ok_def)
  ultimately show ?thesis
    using str_contains_split [OF assms(5), of "nr_head r @ '' ''"] by (simp add: owned_def None)
next
  case (Some c)
  have eq: "CHR ''='' \<in> set p" using assms(2,3) by (simp add: mark_ok_def)
  have "print_rule r = nr_head r @ dq # (c @ dq # ('' # handle '' @ show_dec (nr_handle r)))"
    by (simp add: print_rule_def Some)
  moreover have "\<not> str_contains (nr_head r) p"
  proof
    assume "str_contains (nr_head r) p"
    then have "str_contains (nr_head r @ '' '') p" by (auto simp: str_contains_iff) (metis append.assoc)
    then show False using assms(1,3) str_contains_trans by (auto simp: rule_ok_def)
  qed
  ultimately show ?thesis
    unfolding owned_def Some option.case
    by (simp only: str_contains_split [OF assms(4)] handle_part [OF eq] simp_thms)
qed

lemma line_handle_print:
  assumes "rule_ok mark r" "mark_ok mark" "p = mark @ q" "dq \<notin> set p" "CHR ''#'' \<notin> set p"
  shows "line_handle p (print_rule r) = (if owned p r then Some (show_dec (nr_handle r)) else None)"
proof (cases "owned p r")
  case False
  then show ?thesis using contains_print [OF assms] by (simp add: line_handle_def)
next
  case True
  then obtain c where c: "nr_comment r = Some c" by (auto simp: owned_def split: option.splits)
  have "owned mark r" using True assms(3) str_contains_trans by (auto simp: owned_def split: option.splits)
  then have h: "CHR ''#'' \<notin> set (nr_head r)" "CHR ''#'' \<notin> set c" using assms(1) c by (auto simp: rule_ok_def)
  let ?a = "nr_head r @ dq # c @ dq # '' ''"
  have "print_rule r = ?a @ ''# handle '' @ show_dec (nr_handle r)" by (simp add: print_rule_def c)
  moreover have "str_cut (?a @ ''# handle '' @ show_dec (nr_handle r)) ''# handle '' = Some (?a, show_dec (nr_handle r))"
    using h by (intro str_cut_plain) auto
  moreover have "trim_space ?a \<noteq> []"
  proof
    assume "trim_space ?a = []"
    then have "is_space dq" by (rule trim_space_blank) simp
    then show False by (simp add: is_space_def)
  qed
  ultimately show ?thesis
    using contains_print [OF assms] True by (simp add: line_handle_def fields_show_dec)
qed

section \<open>The laws of nft\<close>

text \<open>
  \<open>rules\<close> is the view of the chains. A listing prints the rules of a chain between lines without the mark; the
  effects are those of commands that succeed. An inserted rule gets a fresh handle, keeps its comment, and the mark
  stands nowhere else in it.
\<close>

definition nft_lists :: "string \<Rightarrow> 'k shell \<Rightarrow> ('k \<Rightarrow> baseChain \<Rightarrow> nftRule list) \<Rightarrow> bool" where
  "nft_lists mark ex rules \<longleftrightarrow> (\<forall>c k out k'.
    ex ''nft'' ([''-a'', ''list'', ''chain''] @ chain_args c) k = ((None, out), k') \<longrightarrow> k' = k \<and>
      (\<exists>pre post. split_at_char nl out = pre @ map print_rule (rules k c) @ post \<and>
        (\<forall>l\<in>set (pre @ post). \<not> str_contains l mark)))"

definition nft_deletes :: "'k shell \<Rightarrow> ('k \<Rightarrow> baseChain \<Rightarrow> nftRule list) \<Rightarrow> bool" where
  "nft_deletes ex rules \<longleftrightarrow> (\<forall>c h k out k'.
    ex ''nft'' ([''delete'', ''rule''] @ chain_args c @ [''handle'', show_dec h]) k = ((None, out), k') \<longrightarrow>
      rules k' = (rules k)(c := filter (\<lambda>r. nr_handle r \<noteq> h) (rules k c)))"

definition nft_inserts :: "string \<Rightarrow> 'k shell \<Rightarrow> ('k \<Rightarrow> baseChain \<Rightarrow> nftRule list) \<Rightarrow> bool" where
  "nft_inserts mark ex rules \<longleftrightarrow> (\<forall>c spec cm k out k'.
    ex ''nft'' ([''insert'', ''rule''] @ chain_args c @ spec @ [''comment'', dq # cm @ [dq]]) k = ((None, out), k') \<longrightarrow>
      (\<exists>r. rules k' = (rules k)(c := r # rules k c) \<and> nr_comment r = Some cm \<and>
        (\<forall>s\<in>set (rules k c). nr_handle s \<noteq> nr_handle r) \<and>
        \<not> str_contains (nr_head r @ '' '') mark \<and> CHR ''#'' \<notin> set (nr_head r)))"

definition nft_laws :: "string \<Rightarrow> 'k shell \<Rightarrow> ('k \<Rightarrow> baseChain \<Rightarrow> nftRule list) \<Rightarrow> bool" where
  "nft_laws mark ex rules \<longleftrightarrow> nft_lists mark ex rules \<and> nft_deletes ex rules \<and> nft_inserts mark ex rules"

definition chain_ok :: "string \<Rightarrow> nftRule list \<Rightarrow> bool" where
  "chain_ok mark rs \<longleftrightarrow> distinct (map nr_handle rs) \<and> (\<forall>r\<in>set rs. rule_ok mark r)"

lemma handles_listed:
  assumes "nft_lists mark ex rules" "chain_ok mark (rules k c)" "mark_ok mark" "p = mark @ q" "dq \<notin> set p" "CHR ''#'' \<notin> set p"
    and "ex ''nft'' ([''-a'', ''list'', ''chain''] @ chain_args c) k = ((None, out), k')"
  shows "k' = k \<and> ruleHandlesWithComment out p = map (show_dec \<circ> nr_handle) (filter (owned p) (rules k c))"
proof -
  obtain pre post where l: "k' = k" "split_at_char nl out = pre @ map print_rule (rules k c) @ post"
    "\<forall>l\<in>set (pre @ post). \<not> str_contains l mark"
    using assms(1,7) unfolding nft_lists_def by blast
  have none: "List.map_filter (line_handle p) ls = []" if "\<forall>l\<in>set ls. \<not> str_contains l mark" for ls
    using that assms(4) str_contains_trans by (induction ls) (auto simp: map_filter_simps line_handle_def)
  have "List.map_filter (line_handle p) (map print_rule rs) = map (show_dec \<circ> nr_handle) (filter (owned p) rs)"
    if "\<forall>r\<in>set rs. rule_ok mark r" for rs
    using that line_handle_print [OF _ assms(3-6)] by (induction rs) (auto simp: map_filter_simps)
  then have "ruleHandlesWithComment out p = map (show_dec \<circ> nr_handle) (filter (owned p) (rules k c))"
    using none [of pre] none [of post] l(3) assms(2)
    by (simp add: ruleHandlesWithComment_def l(2) List.map_filter_def chain_ok_def)
  with l(1) show ?thesis by simp
qed

lemma delete_handles_rules:
  assumes "nft_deletes ex rules" "delete_handles ex c (map show_dec hs) k = (None, k')"
  shows "rules k' = (rules k)(c := filter (\<lambda>r. nr_handle r \<notin> set hs) (rules k c))"
  using assms(2)
proof (induction hs arbitrary: k)
  case Nil
  then show ?case by (simp add: filter_True fun_eq_iff)
next
  case (Cons h hs)
  obtain out k1 where k1: "ex ''nft'' ([''delete'', ''rule''] @ chain_args c @ [''handle'', show_dec h]) k = ((None, out), k1)"
    "delete_handles ex c (map show_dec hs) k1 = (None, k')"
    using Cons.prems by (auto simp: runNFT_def run_cmd_def split: prod.splits option.splits)
  have "rules k1 = (rules k)(c := filter (\<lambda>r. nr_handle r \<noteq> h) (rules k c))"
    using assms(1) k1(1) unfolding nft_deletes_def by blast
  with Cons.IH [OF k1(2)] show ?case by (auto simp: fun_eq_iff)
qed

lemma remove_rules:
  assumes laws: "nft_laws mark ex rules" and ok: "chain_ok mark (rules k c)"
    and p: "mark_ok mark" "p = mark @ q" "dq \<notin> set p" "CHR ''#'' \<notin> set p"
    and rm: "removeRulesWithComment ex c p k = (None, k')"
  shows "rules k' = (rules k)(c := filter (\<lambda>r. \<not> owned p r) (rules k c))"
proof -
  obtain out k1 where o: "ex ''nft'' ([''-a'', ''list'', ''chain''] @ chain_args c) k = ((None, out), k1)"
    "delete_handles ex c (ruleHandlesWithComment out p) k1 = (None, k')"
    using rm by (auto simp: removeRulesWithComment_def split: prod.splits option.splits)
  have lists: "nft_lists mark ex rules" using laws by (simp add: nft_laws_def)
  have h: "k1 = k" "ruleHandlesWithComment out p = map show_dec (map nr_handle (filter (owned p) (rules k c)))"
    using handles_listed [OF lists ok p o(1)] by simp_all
  have "rules k' = (rules k)(c := filter (\<lambda>r. nr_handle r \<notin> set (map nr_handle (filter (owned p) (rules k c)))) (rules k c))"
    using delete_handles_rules [of ex rules c _ k k'] laws o(2) unfolding h nft_laws_def by blast
  moreover have "nr_handle r \<in> set (map nr_handle (filter (owned p) (rules k c))) \<longleftrightarrow> owned p r" if "r \<in> set (rules k c)" for r
    using that ok by (auto simp: chain_ok_def distinct_map inj_on_def)
  ultimately show ?thesis by (simp cong: filter_cong)
qed

section \<open>Comments\<close>

definition fwd_mark :: string where
  "fwd_mark = ''HPX_NODE_fwd owner=''"

lemma fwd_mark_ok: "mark_ok fwd_mark"
  by (simp add: mark_ok_def fwd_mark_def)

lemma ownerComment_mark: "ownerComment o1 = fwd_mark @ o1 @ '' ''"
  by (simp add: ownerComment_def commentPrefix_def fwd_mark_def)

lemma ruleComment_mark:
  "ruleComment o1 subnet d = ownerComment o1 @ ''type=forward subnet='' @ subnet @ '' direction='' @ direction d"
  by (simp add: ruleComment_def ownerComment_def)

lemma plain_chars: "plain s \<Longrightarrow> dq \<notin> set s" "plain s \<Longrightarrow> CHR ''#'' \<notin> set s" "plain s \<Longrightarrow> CHR '' '' \<notin> set s"
proof -
  assume p: "plain s"
  show "dq \<notin> set s" "CHR ''#'' \<notin> set s" using p unfolding plain_def by blast+
  show "CHR '' '' \<notin> set s"
  proof
    assume "CHR '' '' \<in> set s"
    from conjunct1 [OF bspec [OF p [unfolded plain_def] this]] have "33 \<le> (of_char (CHR '' '') :: nat)" .
    then show False by simp
  qed
qed

lemma ownerComment_plain: "plain o1 \<Longrightarrow> dq \<notin> set (ownerComment o1)" "plain o1 \<Longrightarrow> CHR ''#'' \<notin> set (ownerComment o1)"
  by (simp_all add: ownerComment_mark fwd_mark_def plain_chars)

lemma char_of_92: "char_of (92::nat) = CHR 0x5C"
  by code_simp

lemma quote_plain:
  assumes "\<forall>c\<in>set s. 32 \<le> (of_char c :: nat) \<and> (of_char c :: nat) \<le> 126 \<and> c \<notin> {dq, CHR 0x5C}"
  shows "go_quote s = dq # s @ [dq]"
proof -
  have "quote_char c = [c]" if "c \<in> set s" for c
  proof -
    have "c = char_of (of_char c :: nat)" by simp
    then have "of_char c \<noteq> (34::nat)" "of_char c \<noteq> (92::nat)"
      using that assms char_of_34 char_of_92 by (metis insertCI)+
    moreover have "32 \<le> (of_char c :: nat)" "(of_char c :: nat) \<le> 126" using that assms by blast+
    ultimately show ?thesis by (simp add: quote_char_def Let_def)
  qed
  then have "concat (map quote_char s) = s" by (induction s) auto
  then show ?thesis by (simp add: go_quote_def char_of_34)
qed

lemma word_after_first: "xs @ [w] @ ys = v # ws \<Longrightarrow> xs \<noteq> [] \<Longrightarrow> w \<in> set ws"
  by (cases xs) auto

lemma split_words:
  assumes "sep \<notin> set w1" "sep \<notin> set w2" "sep \<notin> set w3" "sep \<notin> set w4" "sep \<notin> set w5"
  shows "split_at_char sep (w1 @ sep # (w2 @ sep # (w3 @ sep # (w4 @ sep # w5)))) = [w1, w2, w3, w4, w5]"
  using assms by (simp add: split_at_char_append split_at_char_plain)

text \<open>The comment of a rule belongs to one owner only.\<close>

lemma comment_owner:
  assumes "plain o1" "plain o2" "plain subnet"
  shows "str_contains (ruleComment o2 subnet d) (ownerComment o1) \<longleftrightarrow> o1 = o2"
proof
  assume "str_contains (ruleComment o2 subnet d) (ownerComment o1)"
  then obtain a b where "ruleComment o2 subnet d = a @ ownerComment o1 @ b" by (auto simp: str_contains_iff)
  then have e: "ruleComment o2 subnet d = (a @ ''HPX_NODE_fwd'') @ CHR '' '' # ((''owner='' @ o1) @ CHR '' '' # b)"
    by (simp add: ownerComment_def commentPrefix_def)
  let ?sp = "split_at_char (CHR '' '')"
  have nb: "CHR '' '' \<notin> set (''owner='' @ x)" "CHR '' '' \<notin> set (''subnet='' @ x)" if "plain x" for x
    using plain_chars(3) [OF that] by simp_all
  have c: "ruleComment o2 subnet d = ''HPX_NODE_fwd'' @ CHR '' '' # ((''owner='' @ o2) @ CHR '' '' # (''type=forward'' @ CHR '' '' #
      ((''subnet='' @ subnet) @ CHR '' '' # (''direction='' @ direction d))))"
    by (simp add: ruleComment_def commentPrefix_def)
  have r: "?sp (ruleComment o2 subnet d) =
      [''HPX_NODE_fwd'', ''owner='' @ o2, ''type=forward'', ''subnet='' @ subnet, ''direction='' @ direction d]"
    unfolding c by (rule split_words) (use nb assms in \<open>simp_all add: direction_def\<close>)
  have l: "?sp (ruleComment o2 subnet d) = ?sp (a @ ''HPX_NODE_fwd'') @ [''owner='' @ o1] @ ?sp b"
    unfolding e split_at_char_append split_at_char_plain [OF nb(1) [OF assms(1)]] ..
  have "''owner='' @ o1 \<in> set [''owner='' @ o2, ''type=forward'', ''subnet='' @ subnet, ''direction='' @ direction d]"
    by (rule word_after_first [OF trans [OF l [symmetric] r] split_at_char_nonempty])
  then show "o1 = o2" by auto
next
  assume "o1 = o2"
  then show "str_contains (ruleComment o2 subnet d) (ownerComment o1)"
    unfolding ruleComment_mark by (auto simp: str_contains_iff)
qed

lemma comment_quoted:
  assumes "plain o1" "plain subnet"
  shows "go_quote (ruleComment o1 subnet d) = dq # ruleComment o1 subnet d @ [dq]" "CHR ''#'' \<notin> set (ruleComment o1 subnet d)"
proof -
  have ok: "\<forall>c\<in>set s. 32 \<le> (of_char c :: nat) \<and> (of_char c :: nat) \<le> 126 \<and> c \<notin> {dq, CHR 0x5C}" if "plain s" for s
    using that by (fastforce simp: plain_def)
  have lit: "\<forall>c\<in>set (''HPX_NODE_fwd owner='' @ '' type=forward subnet='' @ '' direction='' @ direction d).
      32 \<le> (of_char c :: nat) \<and> (of_char c :: nat) \<le> 126 \<and> c \<notin> {dq, CHR 0x5C}"
    by (cases d) (simp_all add: direction_def)
  have sub: "set (ruleComment o1 subnet d) =
      set (''HPX_NODE_fwd owner='' @ '' type=forward subnet='' @ '' direction='' @ direction d) \<union> set o1 \<union> set subnet"
    by (auto simp: ruleComment_def commentPrefix_def)
  show "go_quote (ruleComment o1 subnet d) = dq # ruleComment o1 subnet d @ [dq]"
    using ok [OF assms(1)] ok [OF assms(2)] lit by (intro quote_plain) (simp only: sub ball_Un)
  have "CHR ''#'' \<notin> set (''HPX_NODE_fwd owner='' @ '' type=forward subnet='' @ '' direction='' @ direction d)"
    by (simp add: direction_def)
  then show "CHR ''#'' \<notin> set (ruleComment o1 subnet d)"
    using plain_chars(2) [OF assms(1)] plain_chars(2) [OF assms(2)] by (simp only: sub Un_iff simp_thms)
qed

section \<open>Setting up and cleaning up a chain\<close>

lemma insert_rule:
  assumes "nft_laws fwd_mark ex rules" "plain o1" "plain subnet" "insertAcceptRule ex c subnet o1 d k = (None, k')"
    and "chain_ok fwd_mark (rules k c)"
  shows "\<exists>r. rules k' = (rules k)(c := r # rules k c) \<and> nr_comment r = Some (ruleComment o1 subnet d) \<and>
    chain_ok fwd_mark (r # rules k c)"
proof -
  obtain out where "ex ''nft'' ([''insert'', ''rule''] @ chain_args c @ accept_args subnet d @
      [''comment'', dq # ruleComment o1 subnet d @ [dq]]) k = ((None, out), k')"
    using assms(4) comment_quoted(1) [OF assms(2,3)]
    by (auto simp: insertAcceptRule_def runNFT_def run_cmd_def split: prod.splits option.splits)
  then obtain r where r: "rules k' = (rules k)(c := r # rules k c)" "nr_comment r = Some (ruleComment o1 subnet d)"
    "\<forall>s\<in>set (rules k c). nr_handle s \<noteq> nr_handle r" "\<not> str_contains (nr_head r @ '' '') fwd_mark" "CHR ''#'' \<notin> set (nr_head r)"
    using assms(1) unfolding nft_laws_def nft_inserts_def by blast
  have "rule_ok fwd_mark r" using r comment_quoted(2) [OF assms(2,3)] by (simp add: rule_ok_def)
  then have "chain_ok fwd_mark (r # rules k c)" using r(3) assms(5) by (auto simp: chain_ok_def)
  with r show ?thesis by blast
qed

definition accepts :: "string \<Rightarrow> string \<Rightarrow> nftRule list \<Rightarrow> bool" where
  "accepts o1 subnet rs \<longleftrightarrow> map nr_comment rs = [Some (ruleComment o1 subnet True), Some (ruleComment o1 subnet False)]"

lemma chain_ok_filter: "chain_ok mark rs \<Longrightarrow> chain_ok mark (filter P rs)"
  by (simp add: chain_ok_def distinct_map_filter)

lemma ensure_chains_rules:
  assumes laws: "nft_laws fwd_mark ex rules" and pl: "plain o1" "plain subnet"
    and "distinct bcs" "\<forall>c\<in>set bcs. chain_ok fwd_mark (rules k c)" "ensure_chains ex subnet o1 bcs k = (Inr inst, k')"
  shows "(\<forall>c\<in>set bcs. \<exists>rs. rules k' c = rs @ filter (\<lambda>r. \<not> owned (ownerComment o1) r) (rules k c) \<and> accepts o1 subnet rs \<and>
      chain_ok fwd_mark (rules k' c)) \<and> (\<forall>c. c \<notin> set bcs \<longrightarrow> rules k' c = rules k c)"
  using assms(4-6)
proof (induction bcs arbitrary: k inst)
  case (Cons c bcs)
  obtain k1 k2 k3 rest where s: "removeRulesWithComment ex c (ownerComment o1) k = (None, k1)"
    "insertAcceptRule ex c subnet o1 False k1 = (None, k2)" "insertAcceptRule ex c subnet o1 True k2 = (None, k3)"
    "ensure_chains ex subnet o1 bcs k3 = (Inr rest, k')"
    using Cons.prems(3) by (auto split: prod.splits option.splits sum.splits)
  let ?keep = "filter (\<lambda>r. \<not> owned (ownerComment o1) r) (rules k c)"
  have "rules k1 = (rules k)(c := ?keep)"
    using Cons.prems(2) by (intro remove_rules [OF laws _ fwd_mark_ok ownerComment_mark ownerComment_plain [OF pl(1)] s(1)]) simp
  moreover from this have "chain_ok fwd_mark (rules k1 c)" using Cons.prems(2) by (simp add: chain_ok_filter)
  ultimately obtain r1 where r1: "rules k2 = (rules k)(c := r1 # ?keep)" "nr_comment r1 = Some (ruleComment o1 subnet False)"
    "chain_ok fwd_mark (r1 # ?keep)"
    using insert_rule [OF laws pl s(2)] by auto
  then obtain r2 where r2: "rules k3 = (rules k)(c := r2 # r1 # ?keep)" "nr_comment r2 = Some (ruleComment o1 subnet True)"
    "chain_ok fwd_mark (r2 # r1 # ?keep)"
    using insert_rule [OF laws pl s(3)] by auto
  have "\<forall>d\<in>set bcs. chain_ok fwd_mark (rules k3 d)" using Cons.prems r2 by auto
  with Cons.IH [OF _ _ s(4)] Cons.prems(1)
  have IH: "\<forall>d\<in>set bcs. \<exists>rs. rules k' d = rs @ filter (\<lambda>r. \<not> owned (ownerComment o1) r) (rules k3 d) \<and> accepts o1 subnet rs \<and>
      chain_ok fwd_mark (rules k' d)" "\<forall>d. d \<notin> set bcs \<longrightarrow> rules k' d = rules k3 d"
    by auto
  have c: "rules k' c = [r2, r1] @ ?keep" "accepts o1 subnet [r2, r1]" "chain_ok fwd_mark (rules k' c)"
    using IH(2) Cons.prems(1) r1 r2 by (simp_all add: accepts_def)
  have same: "rules k3 d = rules k d" if "d \<noteq> c" for d using r2(1) that by simp
  show ?case
    using c IH same Cons.prems(1) by (metis (no_types, lifting) distinct.simps(2) list.set_intros(1,2) set_ConsD)
qed simp

lemma remove_chains_rules:
  assumes laws: "nft_laws fwd_mark ex rules" and pl: "plain o1"
    and "distinct bcs" "\<forall>c\<in>set bcs. chain_ok fwd_mark (rules k c)" "remove_chains ex (ownerComment o1) bcs k = (None, k')"
  shows "(\<forall>c\<in>set bcs. rules k' c = filter (\<lambda>r. \<not> owned (ownerComment o1) r) (rules k c)) \<and>
    (\<forall>c. c \<notin> set bcs \<longrightarrow> rules k' c = rules k c)"
  using assms(3-5)
proof (induction bcs arbitrary: k)
  case (Cons c bcs)
  obtain k1 where s: "removeRulesWithComment ex c (ownerComment o1) k = (None, k1)" "remove_chains ex (ownerComment o1) bcs k1 = (None, k')"
    using Cons.prems(3) by (auto split: prod.splits option.splits)
  have k1: "rules k1 = (rules k)(c := filter (\<lambda>r. \<not> owned (ownerComment o1) r) (rules k c))"
    using Cons.prems(2) by (intro remove_rules [OF laws _ fwd_mark_ok ownerComment_mark ownerComment_plain [OF pl] s(1)]) simp
  then have "\<forall>d\<in>set bcs. chain_ok fwd_mark (rules k1 d)" using Cons.prems(1,2) by auto
  with Cons.IH [OF _ _ s(2)] Cons.prems(1) k1 show ?case by auto
qed simp

section \<open>The laws of ip\<close>

text \<open>
  The default routes of the tables and the policy rules, as pairs of subnet and table. Deleting a rule that is not
  there fails and changes nothing.
\<close>

definition ip_routes :: "'k shell \<Rightarrow> ('k \<Rightarrow> string \<rightharpoonup> string) \<Rightarrow> ('k \<Rightarrow> (string \<times> string) list) \<Rightarrow> bool" where
  "ip_routes ex routes pol \<longleftrightarrow> (\<forall>dev t k out k'.
    (ex ''ip'' [''route'', ''replace'', ''default'', ''dev'', dev, ''table'', t] k = ((None, out), k') \<longrightarrow>
      routes k' = (routes k)(t \<mapsto> dev) \<and> pol k' = pol k) \<and>
    (ex ''ip'' [''route'', ''flush'', ''table'', t] k = ((None, out), k') \<longrightarrow>
      routes k' = (routes k)(t := None) \<and> pol k' = pol k))"

definition ip_rules :: "'k shell \<Rightarrow> ('k \<Rightarrow> string \<rightharpoonup> string) \<Rightarrow> ('k \<Rightarrow> (string \<times> string) list) \<Rightarrow> bool" where
  "ip_rules ex routes pol \<longleftrightarrow> (\<forall>s t k e out k'.
    (ex ''ip'' [''rule'', ''del'', ''from'', s, ''lookup'', t] k = ((e, out), k') \<longrightarrow>
      routes k' = routes k \<and> pol k' = remove1 (s, t) (pol k)) \<and>
    (ex ''ip'' [''rule'', ''add'', ''from'', s, ''lookup'', t] k = ((None, out), k') \<longrightarrow>
      routes k' = routes k \<and> pol k' = pol k @ [(s, t)]))"

definition flushes :: "'k shell \<Rightarrow> bool" where
  "flushes ex \<longleftrightarrow> (\<forall>t k. fst (fst (ex ''ip'' [''route'', ''flush'', ''table'', t] k)) = None)"

lemma run_cmd_None: "run_cmd ex name args k = (None, k') \<Longrightarrow> \<exists>out. ex name args k = ((None, out), k')"
  by (auto simp: run_cmd_def split: prod.splits option.splits)

lemma run_cmd_any: "\<exists>e out. ex name args k = ((e, out), snd (run_cmd ex name args k))"
  by (auto simp: run_cmd_def split: prod.splits option.splits)

lemma egress_Apply_state:
  assumes laws: "ip_routes ex routes pol" "ip_rules ex routes pol"
    and ap: "egress_Apply ex s i k = ((Some (s', t), None), k')"
  shows "s' = trim_space s \<and> t = show_dec (tableFor s') \<and> routes k' = (routes k)(t \<mapsto> trim_space i) \<and>
    pol k' = remove1 (s', t) (pol k) @ [(s', t)]"
proof -
  let ?s = "trim_space s" and ?t = "show_dec (tableFor (trim_space s))"
  obtain k1 where k1: "run_cmd ex ''ip'' [''route'', ''replace'', ''default'', ''dev'', trim_space i, ''table'', ?t] k = (None, k1)"
    and k3: "run_cmd ex ''ip'' [''rule'', ''add'', ''from'', ?s, ''lookup'', ?t]
      (snd (run_cmd ex ''ip'' [''rule'', ''del'', ''from'', ?s, ''lookup'', ?t] k1)) = (None, k')"
    and st: "s' = ?s" "t = ?t"
    using ap by (auto simp: egress_Apply_def Let_def split: if_splits prod.splits option.splits)
  let ?k2 = "snd (run_cmd ex ''ip'' [''rule'', ''del'', ''from'', ?s, ''lookup'', ?t] k1)"
  have "routes k1 = (routes k)(?t \<mapsto> trim_space i) \<and> pol k1 = pol k"
    using run_cmd_None [OF k1] laws(1) unfolding ip_routes_def by blast
  moreover have "routes ?k2 = routes k1 \<and> pol ?k2 = remove1 (?s, ?t) (pol k1)"
    using run_cmd_any [of ex "''ip''" "[''rule'', ''del'', ''from'', ?s, ''lookup'', ?t]" k1] laws(2) unfolding ip_rules_def by blast
  moreover have "routes k' = routes ?k2 \<and> pol k' = pol ?k2 @ [(?s, ?t)]"
    using run_cmd_None [OF k3] laws(2) unfolding ip_rules_def by blast
  ultimately show ?thesis using st by simp
qed

lemma egress_clean_state:
  assumes laws: "ip_routes ex routes pol" "ip_rules ex routes pol" "flushes ex"
  shows "routes (egress_clean ex (Some (s, t)) k) = (routes k)(t := None) \<and>
    pol (egress_clean ex (Some (s, t)) k) = remove1 (s, t) (pol k)"
proof -
  let ?del = "[''rule'', ''del'', ''from'', s, ''lookup'', t]" and ?fl = "[''route'', ''flush'', ''table'', t]"
  let ?k1 = "snd (run_cmd ex ''ip'' ?del k)"
  have 1: "routes ?k1 = routes k \<and> pol ?k1 = remove1 (s, t) (pol k)"
    using run_cmd_any [of ex "''ip''" ?del k] laws(2) unfolding ip_rules_def by blast
  obtain e out where x: "ex ''ip'' ?fl ?k1 = ((e, out), snd (run_cmd ex ''ip'' ?fl ?k1))"
    using run_cmd_any [of ex "''ip''" ?fl ?k1] by blast
  have "e = None" using laws(3) [unfolded flushes_def, rule_format, of t ?k1] x by simp
  with x have "routes (snd (run_cmd ex ''ip'' ?fl ?k1)) = (routes ?k1)(t := None) \<and> pol (snd (run_cmd ex ''ip'' ?fl ?k1)) = pol ?k1"
    using laws(1) unfolding ip_routes_def by blast
  then show ?thesis using 1 by (simp add: egress_clean_def)
qed

lemma tableFor_range: "100 \<le> tableFor s \<and> tableFor s < 1000"
proof -
  have "unat (fnv1a s mod tableSpan) < unat tableSpan"
    by (simp add: tableSpan_def unat_mod)
  then show ?thesis by (simp add: tableFor_def tableBase_def tableSpan_def)
qed

section \<open>Properties\<close>


text \<open>A host with one forward chain, given by its rules.\<close>

definition lab_chain :: baseChain where
  "lab_chain = \<lparr>bc_family = ''ip'', bc_table = ''filter'', bc_name = ''FORWARD''\<rparr>"

definition lab_nft_rules :: "nftRule list \<Rightarrow> baseChain \<Rightarrow> nftRule list" where
  "lab_nft_rules rs c = (if c = lab_chain then rs else [])"

definition lab_list :: "nftRule list \<Rightarrow> string" where
  "lab_list rs = concat (map (\<lambda>r. print_rule r @ [nl]) rs)"

definition lab_nft :: "nftRule list shell" where
  "lab_nft name args rs =
    (if args = [''-j'', ''list'', ''ruleset''] then ((None, []), rs)
     else if args = [''-a'', ''list'', ''chain'', ''ip'', ''filter'', ''FORWARD''] \<and> list_all (\<lambda>r. nl \<notin> set (print_rule r)) rs
     then ((None, lab_list rs), rs)
     else if take 6 args = [''delete'', ''rule'', ''ip'', ''filter'', ''FORWARD'', ''handle''] \<and> length args = 7
     then ((None, []), filter (\<lambda>r. show_dec (nr_handle r) \<noteq> last args) rs)
     else if take 5 args = [''insert'', ''rule'', ''ip'', ''filter'', ''FORWARD'']
     then ((None, []), \<lparr>nr_handle = Suc (sum_list (map nr_handle rs)), nr_head = ''accept comment '', nr_comment = Some (tl (butlast (last args)))\<rparr> # rs)
     else ((Some ''failed'', []), rs))"

definition lab_dec :: nft_decoder where
  "lab_dec out = Inr [None, Some (Inr \<lparr>lc_Family = ''ip'', lc_Table = ''filter'', lc_Name = ''FORWARD'', lc_Hook = ''forward''\<rparr>)]"

lemma chain_args_lab: "chain_args c = [''ip'', ''filter'', ''FORWARD''] \<longleftrightarrow> c = lab_chain"
  by (auto simp: chain_args_def lab_chain_def)

lemma lab_lists: "nft_lists mark lab_nft lab_nft_rules" if "mark \<noteq> []"
  unfolding nft_lists_def
proof (intro allI impI)
  fix c k out k'
  assume a: "lab_nft ''nft'' ([''-a'', ''list'', ''chain''] @ chain_args c) k = ((None, out), k')"
  have d: "chain_args c = [''ip'', ''filter'', ''FORWARD'']" "list_all (\<lambda>r. nl \<notin> set (print_rule r)) k" "out = lab_list k" "k' = k"
    using a by (auto simp: lab_nft_def split: if_splits)
  have "split_at_char nl (lab_list rs) = map print_rule rs @ [[]]" if "list_all (\<lambda>r. nl \<notin> set (print_rule r)) rs" for rs
    using that by (induction rs) (simp_all add: lab_list_def split_at_char_append split_at_char_plain)
  with d show "k' = k \<and> (\<exists>pre post. split_at_char nl out = pre @ map print_rule (lab_nft_rules k c) @ post \<and>
      (\<forall>l\<in>set (pre @ post). \<not> str_contains l mark))"
    using that by (intro conjI exI [of _ "[]"] exI [of _ "[[]]"]) (auto simp: lab_nft_rules_def chain_args_lab)
qed

lemma lab_deletes: "nft_deletes lab_nft lab_nft_rules"
  unfolding nft_deletes_def
proof (intro allI impI)
  fix c h k out k'
  assume a: "lab_nft ''nft'' ([''delete'', ''rule''] @ chain_args c @ [''handle'', show_dec h]) k = ((None, out), k')"
  have "chain_args c = [''ip'', ''filter'', ''FORWARD''] \<and> k' = filter (\<lambda>r. nr_handle r \<noteq> h) k"
    using a by (auto simp: lab_nft_def chain_args_def split: if_splits)
  then show "lab_nft_rules k' = (lab_nft_rules k)(c := filter (\<lambda>r. nr_handle r \<noteq> h) (lab_nft_rules k c))"
    by (auto simp: lab_nft_rules_def chain_args_lab fun_eq_iff)
qed

lemma lab_inserts: "nft_inserts fwd_mark lab_nft lab_nft_rules"
  unfolding nft_inserts_def
proof (intro allI impI)
  fix c spec cm k out k'
  assume a: "lab_nft ''nft'' ([''insert'', ''rule''] @ chain_args c @ spec @ [''comment'', dq # cm @ [dq]]) k = ((None, out), k')"
  let ?r = "\<lparr>nr_handle = Suc (sum_list (map nr_handle k)), nr_head = ''accept comment '', nr_comment = Some cm\<rparr>"
  have "chain_args c = [''ip'', ''filter'', ''FORWARD''] \<and> k' = ?r # k"
    using a by (auto simp: lab_nft_def chain_args_def split: if_splits)
  moreover have "nr_handle s \<noteq> nr_handle ?r" if "s \<in> set k" for s
    using member_le_sum_list [of "nr_handle s" "map nr_handle k"] that by auto
  moreover have "\<not> str_contains (nr_head ?r @ '' '') fwd_mark" by (simp add: fwd_mark_def has_prefix_def)
  ultimately show "\<exists>r. lab_nft_rules k' = (lab_nft_rules k)(c := r # lab_nft_rules k c) \<and> nr_comment r = Some cm \<and>
      (\<forall>s\<in>set (lab_nft_rules k c). nr_handle s \<noteq> nr_handle r) \<and> \<not> str_contains (nr_head r @ '' '') fwd_mark \<and> CHR ''#'' \<notin> set (nr_head r)"
    by (intro exI [of _ ?r]) (auto simp: lab_nft_rules_def chain_args_lab fun_eq_iff)
qed


text \<open>Every subnet gets a routing table with a number from 100 to 999, and two subnets may get the same one. When they
  do, setting up the second subnet sends the traffic of the first one out of the interface of the second, and
  cleaning up the first one takes the route away from the second, whose rule still points to the table.\<close>

theorem egress_tables_shared:
  assumes "ip_routes ex routes pol" and "ip_rules ex routes pol" and "flushes ex"
    and "tableFor (trim_space s1) = tableFor (trim_space s2)" and "trim_space s1 \<noteq> trim_space s2"
    and "egress_Apply ex s1 i1 k = ((Some cl1, None), k1)" and "egress_Apply ex s2 i2 k1 = ((Some cl2, None), k2)"
  shows "snd cl1 = snd cl2 \<and> snd cl1 \<in> show_dec ` {100..<1000} \<and> routes k2 (snd cl1) = Some (trim_space i2) \<and>
    routes (egress_clean ex (Some cl1) k2) (snd cl2) = None \<and> cl2 \<in> set (pol (egress_clean ex (Some cl1) k2))"
proof -
  obtain t1 t2 where cl: "cl1 = (trim_space s1, t1)" "cl2 = (trim_space s2, t2)"
    using egress_Apply_state [OF assms(1,2), of s1 i1 k "fst cl1" "snd cl1"] egress_Apply_state [OF assms(1,2), of s2 i2 k1 "fst cl2" "snd cl2"] assms(6,7)
    by (metis prod.collapse)
  note a1 = egress_Apply_state [OF assms(1,2) assms(6) [unfolded cl]] and a2 = egress_Apply_state [OF assms(1,2) assms(7) [unfolded cl]]
  have t: "t1 = t2" "t1 = show_dec (tableFor (trim_space s1))" using a1 a2 assms(4) by simp_all
  have "t1 \<in> show_dec ` {100..<1000}" unfolding t(2) using tableFor_range [of "trim_space s1"] by auto
  then show ?thesis
    using a1 a2 t assms(5) egress_clean_state [OF assms(1-3), of "trim_space s1" t1 k2] by (simp add: cl)
qed

definition lab_ip :: "((string \<rightharpoonup> string) \<times> (string \<times> string) list) shell" where
  "lab_ip name args k =
    (if take 4 args = [''route'', ''replace'', ''default'', ''dev''] then ((None, []), ((fst k)(args ! 6 \<mapsto> args ! 4), snd k))
     else if take 3 args = [''route'', ''flush'', ''table''] then ((None, []), ((fst k)(args ! 3 := None), snd k))
     else if take 3 args = [''rule'', ''del'', ''from''] then ((None, []), (fst k, remove1 (args ! 3, args ! 5) (snd k)))
     else if take 3 args = [''rule'', ''add'', ''from''] then ((None, []), (fst k, snd k @ [(args ! 3, args ! 5)]))
     else ((Some ''failed'', []), k))"

lemma lab_ip_laws: "ip_routes lab_ip fst snd" "ip_rules lab_ip fst snd" "flushes lab_ip"
  by (auto simp: ip_routes_def ip_rules_def flushes_def lab_ip_def)

lemma lab_tables: "tableFor ''10.7.0.0/16'' = tableFor ''10.43.0.0/16''"
  by (simp add: tableFor_def fnv1a_def tableSpan_def)

theorem egress_tables_shared_witness:
  "\<exists>cl1 k1 cl2 k2. egress_Apply lab_ip ''10.7.0.0/16'' ''wg-de'' (Map.empty, []) = ((Some cl1, None), k1) \<and>
    egress_Apply lab_ip ''10.43.0.0/16'' ''wg-us'' k1 = ((Some cl2, None), k2) \<and>
    fst (egress_clean lab_ip (Some cl1) k2) (snd cl2) = None"
proof -
  have t: "trim_space ''10.7.0.0/16'' = ''10.7.0.0/16''" "trim_space ''10.43.0.0/16'' = ''10.43.0.0/16''"
    "trim_space ''wg-de'' = ''wg-de''" "trim_space ''wg-us'' = ''wg-us''" by code_simp+
  have run: "\<exists>cl k'. egress_Apply lab_ip s i k = ((Some cl, None), k')"
    if "trim_space s = s" "trim_space i = i" "s \<noteq> []" "i \<noteq> []" for s i k
    using that by (simp add: egress_Apply_def Let_def run_cmd_def lab_ip_def)
  obtain cl1 k1 where a1: "egress_Apply lab_ip ''10.7.0.0/16'' ''wg-de'' (Map.empty, []) = ((Some cl1, None), k1)"
    using run [OF t(1,3)] by blast
  obtain cl2 k2 where a2: "egress_Apply lab_ip ''10.43.0.0/16'' ''wg-us'' k1 = ((Some cl2, None), k2)"
    using run [OF t(2,4)] by blast
  have "fst (egress_clean lab_ip (Some cl1) k2) (snd cl2) = None"
    using egress_tables_shared [OF lab_ip_laws _ _ a1 a2] by (simp add: t lab_tables)
  with a1 a2 show ?thesis by blast
qed

end
