(* ===== verification/WgRoute.thy ===== *)
theory WgRoute
  imports HostRouteCorrect
begin

text \<open>
  The host routing of the WireGuard back end (\<open>backend/wireguard/host_routing_linux.go\<close> and \<open>defaultroute_linux.go\<close>): a
  masquerade rule in a chain of its own, accept rules in the forward chains and the policy routing of the subnet,
  and their clean-up by the owner of the rules. The functions that handle rules by their comments are those of
  \<open>backend/hostroute\<close> again, statement by statement; they are reused under the names they have here.
\<close>

section \<open>The interface of the default route\<close>

definition default_route_line :: "string \<Rightarrow> string option" where
  "default_route_line line =
    (case str_fields line of
       iface # dst # _ \<Rightarrow> if iface = ''Iface'' then None else if dst = ''00000000'' then Some iface else None
     | _ \<Rightarrow> None)"

definition parseDefaultIfaceFromProcNetRoute :: "string \<Rightarrow> string option" where
  "parseDefaultIfaceFromProcNetRoute data =
    (case List.map_filter default_route_line (split_at_char nl data) of [] \<Rightarrow> None | iface # _ \<Rightarrow> Some iface)"

text \<open>\<open>dec\<close> decodes the output of \<open>ip -j route\<close> to the devices of the routes, \<open>proc\<close> is the file \<open>/proc/net/route\<close>.\<close>

definition linuxDefaultRouteInterfaceIPv4 :: "'k shell \<Rightarrow> (string \<Rightarrow> string list option) \<Rightarrow> ('k \<Rightarrow> string option) \<Rightarrow> 'k \<Rightarrow>
    string option \<times> 'k" where
  "linuxDefaultRouteInterfaceIPv4 ex dec proc k =
    (case ex ''ip'' [''-4'', ''-j'', ''route'', ''show'', ''default''] k of ((err, out), k') \<Rightarrow>
      let dev = (case (err, dec (trim_space out)) of (None, Some (d # _)) \<Rightarrow> trim_space d | _ \<Rightarrow> [])
      in if dev \<noteq> [] then (Some dev, k')
         else (case proc k' of None \<Rightarrow> (None, k') | Some data \<Rightarrow> (parseDefaultIfaceFromProcNetRoute data, k')))"

section \<open>Owners and comments\<close>

definition wgCommentPrefix :: string where
  "wgCommentPrefix = ''HPX_NODE_wg ''"

definition nftString :: "string \<Rightarrow> string" where
  "nftString s = go_quote s"

definition nftOwnerCommentPrefix :: "string \<Rightarrow> string" where
  "nftOwnerCommentPrefix ownerID = wgCommentPrefix @ ''owner='' @ ownerID @ '' ''"

definition nftNATRuleComment :: "string \<Rightarrow> string \<Rightarrow> string \<Rightarrow> bool \<Rightarrow> string" where
  "nftNATRuleComment ownerID wgIface outputIface egressOnly =
    wgCommentPrefix @ ''owner='' @ ownerID @ '' type=nat iface='' @ wgIface @ '' out='' @ outputIface @ '' scope='' @
      (if egressOnly then ''egress'' else ''interface'')"

definition nftForwardRuleComment :: "string \<Rightarrow> string \<Rightarrow> string \<Rightarrow> bool \<Rightarrow> string" where
  "nftForwardRuleComment ownerID wgIface outputIface outbound =
    wgCommentPrefix @ ''owner='' @ ownerID @ '' type=forward iface='' @ wgIface @ '' out='' @ outputIface @ '' direction='' @
      direction outbound"

definition sanitize_char :: "char \<Rightarrow> char" where
  "sanitize_char c =
    (let n = (of_char c :: nat)
     in if 97 \<le> n \<and> n \<le> 122 \<or> 65 \<le> n \<and> n \<le> 90 \<or> 48 \<le> n \<and> n \<le> 57 \<or> c \<in> {CHR ''_'', CHR ''-'', CHR ''.''} then c else CHR ''_'')"

definition sanitizeNFTOwnerPart :: "string \<Rightarrow> string" where
  "sanitizeNFTOwnerPart s0 = (let s = trim_space s0 in if s = [] then ''wg'' else map sanitize_char s)"

definition hex_byte :: "nat \<Rightarrow> string" where
  "hex_byte b = [digit_char (b div 16), digit_char (b mod 16)]"

text \<open>The random bytes, if they could be read, the number of the process and the clock in nanoseconds.\<close>

definition newHostRoutingOwnerID :: "nat list option \<Rightarrow> nat \<Rightarrow> nat \<Rightarrow> string \<Rightarrow> string" where
  "newHostRoutingOwnerID rnd pid nanos wgIface =
    sanitizeNFTOwnerPart wgIface @ ''_'' @ show_dec pid @ ''_'' @
      (case rnd of None \<Rightarrow> show_dec nanos | Some bytes \<Rightarrow> concat (map hex_byte bytes))"

section \<open>Rules\<close>

definition removeNFTRulesWithCommentPrefix :: "'k shell \<Rightarrow> baseChain \<Rightarrow> string \<Rightarrow> 'k \<Rightarrow> string option \<times> 'k" where
  "removeNFTRulesWithCommentPrefix = removeRulesWithComment"

definition nftRuleHandlesWithComment :: "string \<Rightarrow> string \<Rightarrow> string list" where
  "nftRuleHandlesWithComment = ruleHandlesWithComment"

definition nftForwardBaseChains :: "'k shell \<Rightarrow> nft_decoder \<Rightarrow> 'k \<Rightarrow> (string + baseChain list) \<times> 'k" where
  "nftForwardBaseChains = forwardBaseChains"

definition parseNFTForwardBaseChains :: "nft_decoder \<Rightarrow> string \<Rightarrow> string + baseChain list" where
  "parseNFTForwardBaseChains = parseForwardBaseChains"

definition nftAlreadyExists :: "string \<Rightarrow> bool" where
  "nftAlreadyExists err = str_contains err ''File exists''"

definition nat_chain :: baseChain where
  "nat_chain = \<lparr>bc_family = ''ip'', bc_table = ''HPX_NODE_wg_nat'', bc_name = ''postrouting''\<rparr>"

definition nftMasqueradeRuleArgs :: "string \<Rightarrow> string \<Rightarrow> bool \<Rightarrow> string list" where
  "nftMasqueradeRuleArgs wgIface outputIface egressOnly =
    (if egressOnly then [''oifname'', nftString outputIface, ''masquerade'']
     else [''iifname'', nftString wgIface, ''oifname'', nftString outputIface, ''masquerade''])"

text \<open>A command whose failure because the object exists counts as success.\<close>

definition add_object :: "'k shell \<Rightarrow> string list \<Rightarrow> 'k \<Rightarrow> string option \<times> 'k" where
  "add_object ex args k =
    (case runNFT ex args k of
       (Some e, k') \<Rightarrow> (if nftAlreadyExists e then None else Some e, k')
     | (None, k') \<Rightarrow> (None, k'))"

definition ensureNFTMasquerade :: "'k shell \<Rightarrow> string \<Rightarrow> string \<Rightarrow> bool \<Rightarrow> string \<Rightarrow> 'k \<Rightarrow> string option \<times> 'k" where
  "ensureNFTMasquerade ex wgIface outputIface egressOnly ownerID k =
    (case add_object ex [''add'', ''table'', ''ip'', ''HPX_NODE_wg_nat''] k of
       (Some e, k1) \<Rightarrow> (Some e, k1)
     | (None, k1) \<Rightarrow>
    (case add_object ex ([''add'', ''chain''] @ chain_args nat_chain @
            [''{'', ''type'', ''nat'', ''hook'', ''postrouting'', ''priority'', ''100'', '';'', ''policy'', ''accept'', '';'', ''}'']) k1 of
       (Some e, k2) \<Rightarrow> (Some e, k2)
     | (None, k2) \<Rightarrow>
    (case removeNFTRulesWithCommentPrefix ex nat_chain (nftOwnerCommentPrefix ownerID) k2 of
       (Some e, k3) \<Rightarrow> (Some e, k3)
     | (None, k3) \<Rightarrow>
         runNFT ex ([''add'', ''rule''] @ chain_args nat_chain @ nftMasqueradeRuleArgs wgIface outputIface egressOnly @
           [''comment'', nftString (nftNATRuleComment ownerID wgIface outputIface egressOnly)]) k3)))"

definition insertNFTForwardRule :: "'k shell \<Rightarrow> baseChain \<Rightarrow> string \<Rightarrow> string \<Rightarrow> string \<Rightarrow> bool \<Rightarrow> 'k \<Rightarrow> string option \<times> 'k" where
  "insertNFTForwardRule ex chain wgIface outputIface ownerID outbound k =
    runNFT ex ([''insert'', ''rule''] @ chain_args chain @
      (if outbound then [''iifname'', nftString wgIface, ''oifname'', nftString outputIface, ''accept'']
       else [''iifname'', nftString outputIface, ''oifname'', nftString wgIface, ''ct'', ''state'', ''established,related'', ''accept'']) @
      [''comment'', nftString (nftForwardRuleComment ownerID wgIface outputIface outbound)]) k"

fun forward_chains :: "'k shell \<Rightarrow> string \<Rightarrow> string \<Rightarrow> string \<Rightarrow> baseChain list \<Rightarrow> 'k \<Rightarrow> string option \<times> 'k" where
  "forward_chains ex wgIface outputIface ownerID [] k = (None, k)"
| "forward_chains ex wgIface outputIface ownerID (chain # bcs) k =
    (case removeNFTRulesWithCommentPrefix ex chain (nftOwnerCommentPrefix ownerID) k of
       (Some e, k1) \<Rightarrow> (Some e, k1)
     | (None, k1) \<Rightarrow>
    (case insertNFTForwardRule ex chain wgIface outputIface ownerID False k1 of
       (Some e, k2) \<Rightarrow> (Some e, k2)
     | (None, k2) \<Rightarrow>
    (case insertNFTForwardRule ex chain wgIface outputIface ownerID True k2 of
       (Some e, k3) \<Rightarrow> (Some e, k3)
     | (None, k3) \<Rightarrow> forward_chains ex wgIface outputIface ownerID bcs k3)))"

definition ensureNFTForwarding :: "'k shell \<Rightarrow> nft_decoder \<Rightarrow> string \<Rightarrow> string \<Rightarrow> string \<Rightarrow> 'k \<Rightarrow> string option \<times> 'k" where
  "ensureNFTForwarding ex dec wgIface outputIface ownerID k =
    (case nftForwardBaseChains ex dec k of
       (Inl e, k') \<Rightarrow> (Some e, k')
     | (Inr bcs, k') \<Rightarrow> forward_chains ex wgIface outputIface ownerID bcs k')"

section \<open>Set-up and clean-up\<close>

definition envTruthy :: "string \<Rightarrow> bool" where
  "envTruthy s \<longleftrightarrow> (let v = trim_space s in v = ''1'' \<or> to_lower v = ''true'' \<or> to_lower v = ''yes'')"

definition applyLinuxHostRouting :: "'k NatEnv \<Rightarrow> 'k shell \<Rightarrow> nft_decoder \<Rightarrow> (string \<Rightarrow> string list option) \<Rightarrow> ('k \<Rightarrow> string option) \<Rightarrow>
    (string \<Rightarrow> string) \<Rightarrow> string \<Rightarrow> string \<Rightarrow> string \<Rightarrow> 'k \<Rightarrow> (egress_cleanup \<times> string) option \<times> 'k" where
  "applyLinuxHostRouting env ex dec routes proc newOwner wgInterfaceName egressIface subnet k =
    (if switched_off (ne_env env ''HPX_NODE_WG_HOST_ROUTING'') then (None, k)
     else
       let wgIf0 = trim_space wgInterfaceName;
           wgIf = (if wgIf0 = [] then ''wg0'' else wgIf0);
           outIf0 = trim_space egressIface;
           outIf1 = (if outIf0 = [] then trim_space (ne_env env ''HPX_NODE_WG_NAT_OUTPUT_INTERFACE'') else outIf0);
           (outIf, k1) = (if outIf1 \<noteq> [] then (outIf1, k)
              else case linuxDefaultRouteInterfaceIPv4 ex routes proc k of (i, k1) \<Rightarrow> (case i of Some d \<Rightarrow> d | None \<Rightarrow> ''eth0'', k1));
           only = ne_env env ''HPX_NODE_WG_NAT_EGRESS_ONLY'';
           egressOnly = (if only = [] then True else envTruthy only);
           ownerID = newOwner wgIf;
           k2 = snd (ensureIPv4Forwarding env k1);
           k3 = snd (ensureNFTMasquerade ex wgIf outIf egressOnly ownerID k2);
           k4 = snd (ensureNFTForwarding ex dec wgIf outIf ownerID k3);
           ((cl, _), k5) = egress_Apply ex subnet egressIface k4
       in (Some (cl, ownerID), k5))"

text \<open>The errors of all steps, in order; a failing chain does not keep the others from being cleaned.\<close>

fun clean_chains :: "'k shell \<Rightarrow> string \<Rightarrow> baseChain list \<Rightarrow> 'k \<Rightarrow> string list \<times> 'k" where
  "clean_chains ex prefix [] k = ([], k)"
| "clean_chains ex prefix (chain # bcs) k =
    (case removeNFTRulesWithCommentPrefix ex chain prefix k of (e, k1) \<Rightarrow>
      case clean_chains ex prefix bcs k1 of (errs, k2) \<Rightarrow> ((case e of None \<Rightarrow> [] | Some x \<Rightarrow> [x]) @ errs, k2))"

definition cleanupLinuxHostRouting :: "'k shell \<Rightarrow> nft_decoder \<Rightarrow> string \<Rightarrow> 'k \<Rightarrow> string list \<times> 'k" where
  "cleanupLinuxHostRouting ex dec ownerID k =
    (case removeNFTRulesWithCommentPrefix ex nat_chain (nftOwnerCommentPrefix ownerID) k of (e, k1) \<Rightarrow>
      let errs = (case e of None \<Rightarrow> [] | Some x \<Rightarrow> [x])
      in case nftForwardBaseChains ex dec k1 of
           (Inl x, k2) \<Rightarrow> (errs @ [x], k2)
         | (Inr bcs, k2) \<Rightarrow> (case clean_chains ex (nftOwnerCommentPrefix ownerID) bcs k2 of (errs2, k3) \<Rightarrow> (errs @ errs2, k3)))"

definition wg_clean :: "'k shell \<Rightarrow> nft_decoder \<Rightarrow> egress_cleanup \<times> string \<Rightarrow> 'k \<Rightarrow> 'k" where
  "wg_clean ex dec cl k =
    (case cl of (egressCleanup, ownerID) \<Rightarrow> snd (cleanupLinuxHostRouting ex dec ownerID (egress_clean ex egressCleanup k)))"

section \<open>What the clean-up leaves\<close>

definition wg_mark :: string where
  "wg_mark = ''HPX_NODE_wg owner=''"

lemma wg_mark_ok: "mark_ok wg_mark"
  by (simp add: mark_ok_def wg_mark_def)

lemma wg_prefix: "nftOwnerCommentPrefix o1 = wg_mark @ o1 @ '' ''"
  by (simp add: nftOwnerCommentPrefix_def wgCommentPrefix_def wg_mark_def)

lemma wg_prefix_plain: "plain o1 \<Longrightarrow> dq \<notin> set (nftOwnerCommentPrefix o1)" "plain o1 \<Longrightarrow> CHR ''#'' \<notin> set (nftOwnerCommentPrefix o1)"
  by (simp_all add: wg_prefix wg_mark_def plain_chars)

lemma wg_remove_rules:
  assumes "nft_laws wg_mark ex rules" "chain_ok wg_mark (rules k c)" "plain o1"
    and "removeNFTRulesWithCommentPrefix ex c (nftOwnerCommentPrefix o1) k = (None, k')"
  shows "rules k' = (rules k)(c := filter (\<lambda>r. \<not> owned (nftOwnerCommentPrefix o1) r) (rules k c))"
  using remove_rules [OF assms(1,2) wg_mark_ok wg_prefix wg_prefix_plain [OF assms(3)]] assms(4)
  by (simp add: removeNFTRulesWithCommentPrefix_def)

lemma clean_chains_rules:
  assumes "nft_laws wg_mark ex rules" "plain o1" "distinct bcs" "\<forall>c\<in>set bcs. chain_ok wg_mark (rules k c)"
    and "clean_chains ex (nftOwnerCommentPrefix o1) bcs k = ([], k')"
  shows "rules k' = (\<lambda>c. if c \<in> set bcs then filter (\<lambda>r. \<not> owned (nftOwnerCommentPrefix o1) r) (rules k c) else rules k c)"
  using assms(3-5)
proof (induction bcs arbitrary: k)
  case (Cons c bcs)
  obtain k1 where s: "removeNFTRulesWithCommentPrefix ex c (nftOwnerCommentPrefix o1) k = (None, k1)"
    "clean_chains ex (nftOwnerCommentPrefix o1) bcs k1 = ([], k')"
    using Cons.prems(3) by (auto split: prod.splits option.splits)
  have k1: "rules k1 = (rules k)(c := filter (\<lambda>r. \<not> owned (nftOwnerCommentPrefix o1) r) (rules k c))"
    using Cons.prems(2) by (intro wg_remove_rules [OF assms(1) _ assms(2) s(1)]) simp
  then have "\<forall>d\<in>set bcs. chain_ok wg_mark (rules k1 d)" using Cons.prems(1,2) by auto
  with Cons.IH [OF _ _ s(2)] Cons.prems(1) k1 show ?case by (auto simp: fun_eq_iff)
qed simp

text \<open>A clean-up without errors takes exactly the rules of the owner out of the masquerade chain and of every forward
  chain, in whatever state the set-up or a crash has left them, and leaves all other rules in place.\<close>

theorem wg_cleanup_exact:
  assumes "nft_laws wg_mark ex rules" and "\<forall>k. nftForwardBaseChains ex dec k = (Inr bcs, k)" and "distinct bcs"
    and "nat_chain \<notin> set bcs" and "\<forall>c\<in>insert nat_chain (set bcs). chain_ok wg_mark (rules k c)" and "plain owner"
    and "cleanupLinuxHostRouting ex dec owner k = ([], k')"
  shows "rules k' = (\<lambda>c. if c = nat_chain \<or> c \<in> set bcs
     then filter (\<lambda>r. \<not> owned (nftOwnerCommentPrefix owner) r) (rules k c) else rules k c)"
proof -
  obtain k1 where s: "removeNFTRulesWithCommentPrefix ex nat_chain (nftOwnerCommentPrefix owner) k = (None, k1)"
    "clean_chains ex (nftOwnerCommentPrefix owner) bcs k1 = ([], k')"
    using assms(2,7) by (auto simp: cleanupLinuxHostRouting_def Let_def split: prod.splits option.splits)
  have k1: "rules k1 = (rules k)(nat_chain := filter (\<lambda>r. \<not> owned (nftOwnerCommentPrefix owner) r) (rules k nat_chain))"
    using assms(5) by (intro wg_remove_rules [OF assms(1) _ assms(6) s(1)]) simp
  then have "\<forall>c\<in>set bcs. chain_ok wg_mark (rules k1 c)" using assms(4,5) by auto
  from clean_chains_rules [OF assms(1,6,3) this s(2)] k1 assms(4) show ?thesis by (auto simp: fun_eq_iff)
qed

end
