(* ===== verification/PassCores.thy ===== *)
theory PassCores
  imports Daemon Tracker
begin

text \<open>
  The back ends that hand a list of logins to one daemon: SSTP with accel-ppp (\<open>backend/sstp/sstp.go\<close>), OpenConnect
  with ocserv (\<open>backend/openconnect/openconnect.go\<close> and \<open>config.go\<close>) and SSH with sshd (\<open>backend/sshvpn/sshvpn.go\<close>).
  Their stores are the same code over different credentials and are written once over the reader of the
  credentials; configuration, files, synchronisation and life cycle are written per back end on the host and the
  supervised process of \<open>Daemon\<close>. Log lines are left out.
\<close>

section \<open>Stores\<close>

text \<open>The entry of the OpenConnect store is a struct with the password as its only field.\<close>

record passStore =
  pw_tag :: string
  pw_users :: "string \<rightharpoonup> string"

definition pw_newUserStore :: "string \<Rightarrow> passStore" where
  "pw_newUserStore tag = \<lparr>pw_tag = tag, pw_users = Map.empty\<rparr>"

text \<open>SSTP and SSH only ask for a user name.\<close>

definition named_credential :: "Credential option \<Rightarrow> (string \<times> string) option" where
  "named_credential c =
    (case c of
       None \<Rightarrow> None
     | Some c \<Rightarrow> if cr_Username c = [] then None else Some (cr_Username c, cr_Password c))"

definition sstp_creds :: cred_reader where
  "sstp_creds u = named_credential (case GetProxies u of None \<Rightarrow> None | Some px \<Rightarrow> px_Sstp px)"

definition ssh_creds :: cred_reader where
  "ssh_creds u = named_credential (case GetProxies u of None \<Rightarrow> None | Some px \<Rightarrow> px_Ssh px)"

definition oc_credsFor :: cred_reader where
  "oc_credsFor u =
    (case GetProxies u of
       None \<Rightarrow> None
     | Some px \<Rightarrow>
         (case px_Openconnect px of
            None \<Rightarrow> None
          | Some c \<Rightarrow>
              if cr_Username c = [] \<or> cr_Password c = [] then None
              else Some (cr_Username c, cr_Password c)))"

definition pw_wants :: "cred_reader \<Rightarrow> passStore \<Rightarrow> UserPtr \<Rightarrow> bool" where
  "pw_wants creds s u = (case creds u of None \<Rightarrow> False | Some _ \<Rightarrow> pw_tag s \<in> set (GetInbounds u))"

definition pw_next :: "cred_reader \<Rightarrow> passStore \<Rightarrow> UserPtr \<Rightarrow> (string \<rightharpoonup> string) \<Rightarrow> (string \<rightharpoonup> string)" where
  "pw_next creds s u nxt =
    (if \<not> pw_wants creds s u then nxt
     else case creds u of None \<Rightarrow> nxt | Some (user, pass) \<Rightarrow> nxt(user \<mapsto> pass))"

definition pw_replaceAll :: "cred_reader \<Rightarrow> UserPtr list \<Rightarrow> passStore \<Rightarrow> passStore" where
  "pw_replaceAll creds users s = s\<lparr>pw_users := fold (pw_next creds s) users Map.empty\<rparr>"

text \<open>A user without a login of this core is deleted under its email.\<close>

definition pw_apply :: "cred_reader \<Rightarrow> UserPtr \<Rightarrow> passStore \<Rightarrow> passStore" where
  "pw_apply creds u s =
    (if \<not> pw_wants creds s u
     then if GetEmail u \<noteq> [] then s\<lparr>pw_users := map_delete (GetEmail u) (pw_users s)\<rparr> else s
     else case creds u of None \<Rightarrow> s | Some (user, pass) \<Rightarrow> s\<lparr>pw_users := (pw_users s)(user \<mapsto> pass)\<rparr>)"

text \<open>The instances of the three back ends.\<close>

definition sstp_replaceAll :: "UserPtr list \<Rightarrow> passStore \<Rightarrow> passStore" where [simp]:
  "sstp_replaceAll = pw_replaceAll sstp_creds"

definition sstp_apply :: "UserPtr \<Rightarrow> passStore \<Rightarrow> passStore" where [simp]:
  "sstp_apply = pw_apply sstp_creds"

definition ssh_replaceAll :: "UserPtr list \<Rightarrow> passStore \<Rightarrow> passStore" where [simp]:
  "ssh_replaceAll = pw_replaceAll ssh_creds"

definition ssh_apply :: "UserPtr \<Rightarrow> passStore \<Rightarrow> passStore" where [simp]:
  "ssh_apply = pw_apply ssh_creds"

definition oc_wants :: "passStore \<Rightarrow> UserPtr \<Rightarrow> bool" where [simp]:
  "oc_wants = pw_wants oc_credsFor"

definition oc_replaceAll :: "UserPtr list \<Rightarrow> passStore \<Rightarrow> passStore" where [simp]:
  "oc_replaceAll = pw_replaceAll oc_credsFor"

definition oc_applyUser :: "UserPtr \<Rightarrow> passStore \<Rightarrow> passStore" where
  "oc_applyUser u s =
    (if \<not> oc_wants s u then s\<lparr>pw_users := map_delete (GetEmail u) (pw_users s)\<rparr>
     else case oc_credsFor u of None \<Rightarrow> s | Some (user, pass) \<Rightarrow> s\<lparr>pw_users := (pw_users s)(user \<mapsto> pass)\<rparr>)"

text \<open>\<open>snapshot\<close> copies the map entry by entry.\<close>

definition pw_snapshot :: "string list \<Rightarrow> passStore \<Rightarrow> (string \<rightharpoonup> string)" where
  "pw_snapshot order s = fold (\<lambda>k out. case pw_users s k of None \<Rightarrow> out | Some v \<Rightarrow> out(k \<mapsto> v)) order Map.empty"

text \<open>The text that a loop over a snapshot prints, one line per login.\<close>

definition login_lines :: "(string \<Rightarrow> string \<Rightarrow> string) \<Rightarrow> string list \<Rightarrow> (string \<rightharpoonup> string) \<Rightarrow> string" where
  "login_lines line order m =
    concat (map (\<lambda>u. case m u of None \<Rightarrow> [] | Some p \<Rightarrow> line u p) order)"

abbreviation eol :: string where
  "eol \<equiv> [CHR 0x0A]"

definition chap_line :: "string \<Rightarrow> string \<Rightarrow> string" where
  "chap_line u p = u @ '' * '' @ p @ '' *'' @ eol"

definition colon_line :: "string \<Rightarrow> string \<Rightarrow> string" where
  "colon_line u p = u @ '':'' @ p @ eol"

section \<open>Cores\<close>

text \<open>The fields the three types share; \<open>'c\<close> is the configuration.\<close>

record 'c PassCore =
  pc_config :: 'c
  pc_users :: passStore
  pc_tracker :: Tracker
  pc_sup :: Supervised

type_synonym 'c core_op = "'c PassCore \<Rightarrow> Host \<Rightarrow> string option \<times> 'c PassCore \<times> Host"

text \<open>
  \<open>Restart\<close> around the \<open>start\<close> of a back end, and the two ways of replacing the users. \<open>reaped\<close> are the processes that
  end while \<open>Shutdown\<close> waits.
\<close>

definition pc_Restart :: "'c core_op \<Rightarrow> nat list \<Rightarrow> 'c core_op" where
  "pc_Restart start reaped o0 h = start (o0\<lparr>pc_sup := sv_renew (sv_Shutdown reaped (pc_sup o0))\<rparr>) h"

definition pc_UpdateUsersAndRestart :: "cred_reader \<Rightarrow> 'c core_op \<Rightarrow> nat list \<Rightarrow> UserPtr list \<Rightarrow> 'c core_op" where
  "pc_UpdateUsersAndRestart creds start reaped users o0 h =
    pc_Restart start reaped (o0\<lparr>pc_users := pw_replaceAll creds users (pc_users o0)\<rparr>) h"

definition pc_New :: "cred_reader \<Rightarrow> 'c core_op \<Rightarrow> string \<Rightarrow> UserPtr list \<Rightarrow> 'c \<Rightarrow> Host \<Rightarrow> (string + 'c PassCore) \<times> Host" where
  "pc_New creds start tag users c h =
    (let o0 = \<lparr>pc_config = c, pc_users = pw_replaceAll creds users (pw_newUserStore tag), pc_tracker = new_Tracker,
               pc_sup = sv_new\<rparr>
     in case start o0 h of
          (Some e, _, h1) \<Rightarrow> (Inl e, h1)
        | (None, o1, h1) \<Rightarrow> (Inr o1, h1))"

text \<open>\<open>pc_launch\<close> is the end of a \<open>start\<close>: the command and the goroutines.\<close>

definition pc_launch :: "HostEnv \<Rightarrow> string \<Rightarrow> string list \<Rightarrow> 'c core_op" where
  "pc_launch env what argv o0 h =
    (case sv_launch what (he_Start env argv) (pc_sup o0) of (r, s1) \<Rightarrow> (r, o0\<lparr>pc_sup := s1\<rparr>, h))"

section \<open>SSTP\<close>

record SstpConfig =
  sc_InboundTag :: string
  sc_Port :: int
  sc_Pool :: string
  sc_DNS :: "string list"
  sc_workDir :: string

definition sstp_NewConfig :: "(string \<Rightarrow> string + SstpConfig) \<Rightarrow> string \<Rightarrow> string + SstpConfig" where
  "sstp_NewConfig decode configStr =
    (if trim_space configStr = [] then Inl ''sstp config string must not be empty''
     else case decode configStr of
       Inl e \<Rightarrow> Inl (''failed to parse sstp config: '' @ e)
     | Inr c \<Rightarrow>
         if sc_InboundTag c = [] then Inl ''inbound_tag is required''
         else let c1 = (if sc_Port c \<le> 0 then c\<lparr>sc_Port := 443\<rparr> else c)
              in Inr (if sc_DNS c1 = [] then c1\<lparr>sc_DNS := [''1.1.1.1'', ''8.8.8.8'']\<rparr> else c1))"

definition sstp_findBinary :: "HostEnv \<Rightarrow> string" where
  "sstp_findBinary env =
    (case find_program env [''/usr/sbin/accel-pppd'', ''/usr/bin/accel-pppd'', ''/usr/local/bin/accel-pppd''] ''accel-pppd'' of
       Some p \<Rightarrow> p
     | None \<Rightarrow>
         (case List.find (he_exists env) [''/usr/bin/vpnserver'', ''/usr/local/bin/vpnserver''] of
            Some p \<Rightarrow> p
          | None \<Rightarrow> []))"

definition sstp_CheckDeps :: "HostEnv \<Rightarrow> string option" where
  "sstp_CheckDeps env =
    (if sstp_findBinary env = [] then Some ''sstp is not installed on this node (need accel-pppd)'' else None)"

definition last_field :: "string \<Rightarrow> string" where
  "last_field out = (let fields = str_fields out in if fields \<noteq> [] then last fields else ''unknown'')"

definition sstp_DetectVersion :: "HostEnv \<Rightarrow> string" where
  "sstp_DetectVersion env =
    (let bin = sstp_findBinary env
     in if bin = [] then ''unknown'' else last_field (snd (he_Output env [bin, ''-V''])))"

definition sstp_usersPath :: "HostEnv \<Rightarrow> SstpConfig \<Rightarrow> string" where
  "sstp_usersPath env c = he_Join env [sc_workDir c, ''chap-secrets'']"

definition sstp_confPath :: "HostEnv \<Rightarrow> SstpConfig \<Rightarrow> string" where
  "sstp_confPath env c = he_Join env [sc_workDir c, ''accel-pppd.conf'']"

text \<open>\<open>he_order\<close> gives the order of the loop over the copied map.\<close>

definition sstp_writeUsers :: "HostEnv \<Rightarrow> SstpConfig PassCore \<Rightarrow> Host \<Rightarrow> string option \<times> Host" where
  "sstp_writeUsers env o0 h =
    (case he_MkdirAll env (sc_workDir (pc_config o0)) of
       Some e \<Rightarrow> (Some e, h)
     | None \<Rightarrow>
         let snap = pw_snapshot (he_order env (pw_users (pc_users o0))) (pc_users o0)
         in os_WriteFile env (sstp_usersPath env (pc_config o0)) (login_lines chap_line (he_order env snap) snap) h)"

definition sstp_firstHost :: "string \<Rightarrow> string" where
  "sstp_firstHost pool =
    (let cidr = takeWhile (\<lambda>c. c \<noteq> CHR ''/'') (trim_space pool);
         parts = split_at_char (CHR ''.'') cidr
     in if length parts = 4 then str_join ''.'' (parts[3 := ''1'']) else cidr)"

definition sstp_conf :: "HostEnv \<Rightarrow> SstpConfig \<Rightarrow> string" where
  "sstp_conf env c =
    (let pool = (if sc_Pool c = [] then ''10.34.0.0/24'' else sc_Pool c)
     in ''[modules]'' @ eol @ ''log_file'' @ eol @ ''chap-secrets'' @ eol @ ''ippool'' @ eol @ ''pppd_compat'' @ eol @ ''sstp'' @ eol @ eol @
        ''[core]'' @ eol @ ''log-error=/dev/stderr'' @ eol @ eol @
        ''[sstp]'' @ eol @ ''bind=0.0.0.0:'' @ show_int (sc_Port c) @ eol @ eol @
        ''[ip-pool]'' @ eol @ ''gw-ip-address='' @ sstp_firstHost pool @ eol @ eol @
        ''[chap-secrets]'' @ eol @ ''chap-secrets='' @ sstp_usersPath env c @ eol)"

definition sstp_writeConf :: "HostEnv \<Rightarrow> SstpConfig PassCore \<Rightarrow> Host \<Rightarrow> string option \<times> Host" where
  "sstp_writeConf env o0 h = os_WriteFile env (sstp_confPath env (pc_config o0)) (sstp_conf env (pc_config o0)) h"

definition sstp_start :: "HostEnv \<Rightarrow> SstpConfig core_op" where
  "sstp_start env o0 h =
    (case sstp_writeUsers env o0 h of
       (Some e, h1) \<Rightarrow> (Some e, o0, h1)
     | (None, h1) \<Rightarrow>
    (case sstp_writeConf env o0 h1 of
       (Some e, h2) \<Rightarrow> (Some e, o0, h2)
     | (None, h2) \<Rightarrow>
         let bin = sstp_findBinary env
         in if bin = [] then (Some ''sstp binary not found'', o0, h2)
            else pc_launch env ''start sstp: '' [bin, ''-c'', sstp_confPath env (pc_config o0)] o0 h2))"

text \<open>\<open>New\<close>: a nil configuration is refused.\<close>

definition sstp_New :: "HostEnv \<Rightarrow> string \<Rightarrow> SstpConfig option \<Rightarrow> UserPtr list \<Rightarrow> Host \<Rightarrow> (string + SstpConfig PassCore) \<times> Host" where
  "sstp_New env generated cfg users h =
    (case cfg of
       None \<Rightarrow> (Inl ''sstp config must not be nil'', h)
     | Some c0 \<Rightarrow>
         let c = c0\<lparr>sc_workDir := he_Join env [generated, ''sstp'', sc_InboundTag c0]\<rparr>
         in pc_New sstp_creds (sstp_start env) (sc_InboundTag c) users c h)"

definition sstp_Shutdown :: "nat list \<Rightarrow> SstpConfig PassCore \<Rightarrow> SstpConfig PassCore" where
  "sstp_Shutdown reaped o0 = o0\<lparr>pc_sup := sv_Shutdown reaped (pc_sup o0)\<rparr>"

definition sstp_Restart :: "HostEnv \<Rightarrow> nat list \<Rightarrow> SstpConfig core_op" where
  "sstp_Restart env = pc_Restart (sstp_start env)"

definition sstp_SyncUser :: "HostEnv \<Rightarrow> UserPtr \<Rightarrow> SstpConfig core_op" where
  "sstp_SyncUser env u o0 h =
    (let o1 = o0\<lparr>pc_users := sstp_apply u (pc_users o0)\<rparr>
     in case sstp_writeUsers env o1 h of (r, h1) \<Rightarrow> (r, o1, h1))"

definition sstp_SyncUsers :: "HostEnv \<Rightarrow> UserPtr list \<Rightarrow> SstpConfig core_op" where
  "sstp_SyncUsers env users o0 h =
    (let o1 = o0\<lparr>pc_users := sstp_replaceAll users (pc_users o0)\<rparr>
     in case sstp_writeUsers env o1 h of (r, h1) \<Rightarrow> (r, o1, h1))"

definition sstp_UpdateUsers :: "HostEnv \<Rightarrow> UserPtr list \<Rightarrow> SstpConfig core_op" where
  "sstp_UpdateUsers env users o0 h = sstp_SyncUsers env users o0 h"

definition sstp_UpdateUsersAndRestart :: "HostEnv \<Rightarrow> nat list \<Rightarrow> UserPtr list \<Rightarrow> SstpConfig core_op" where
  "sstp_UpdateUsersAndRestart env reaped = pc_UpdateUsersAndRestart sstp_creds (sstp_start env) reaped"

text \<open>The statistics answer with the tracker, which nothing of this package feeds.\<close>

definition sstp_GetStats :: "string list \<Rightarrow> StatRequest \<Rightarrow> SstpConfig PassCore \<Rightarrow> (string + Stat list) \<times> SstpConfig PassCore" where
  "sstp_GetStats order req o0 =
    (if \<not> sv_Started (pc_sup o0) then (Inl ''sstp not started'', o0)
     else if sr_Type req = UsersStat
          then case GetUsersStats order (sr_Reset req) (pc_tracker o0) of (t, stats) \<Rightarrow> (Inr stats, o0\<lparr>pc_tracker := t\<rparr>)
          else (Inr [], o0))"

definition sstp_GetUserOnlineStats :: "string \<Rightarrow> OnlineStatResponse" where
  "sstp_GetUserOnlineStats email = \<lparr>on_Name = email, on_Value = 0\<rparr>"

definition sstp_GetUserOnlineIpListStats :: "string \<Rightarrow> StatsOnlineIpListResponse" where
  "sstp_GetUserOnlineIpListStats email = \<lparr>oi_Name = email, oi_Ips = Map.empty, oi_IpProtocol = Map.empty\<rparr>"

section \<open>OpenConnect\<close>

record OcConfig =
  ow_InboundTag :: string
  ow_Port :: int
  ow_Pool :: string
  ow_ServerAddr :: string
  ow_DNS :: "string list"
  ow_workDir :: string

definition oc_NewConfig :: "(string \<Rightarrow> string + OcConfig) \<Rightarrow> string \<Rightarrow> string + OcConfig" where
  "oc_NewConfig decode configStr =
    (if trim_space configStr = [] then Inl ''openconnect config string must not be empty''
     else case decode configStr of
       Inl e \<Rightarrow> Inl (''failed to parse openconnect config: '' @ e)
     | Inr c \<Rightarrow>
         if ow_InboundTag c = [] then Inl ''inbound_tag is required''
         else if ow_Pool c = [] then Inl ''pool is required''
         else let c1 = (if ow_Port c \<le> 0 then c\<lparr>ow_Port := 443\<rparr> else c)
              in Inr (if ow_DNS c1 = [] then c1\<lparr>ow_DNS := [''1.1.1.1'', ''8.8.8.8'']\<rparr> else c1))"

definition ocservBinary :: string where
  "ocservBinary = ''/usr/sbin/ocserv''"

definition oc_CheckDeps :: "HostEnv \<Rightarrow> string option" where
  "oc_CheckDeps env =
    (if \<not> he_exists env ocservBinary \<and> he_LookPath env ''ocserv'' = None
     then Some ''ocserv is not installed on this node'' else None)"

definition oc_DetectVersion :: "HostEnv \<Rightarrow> string" where
  "oc_DetectVersion env =
    (case find_program env [ocservBinary] ''ocserv'' of
       None \<Rightarrow> ''unknown''
     | Some path \<Rightarrow>
         (case he_Output env [path, ''--version''] of (err, out) \<Rightarrow>
            if err \<noteq> None \<and> out = [] then ''unknown''
            else let fields = str_fields out in if length fields \<ge> 2 then last fields else ''unknown''))"

definition oc_confPath :: "HostEnv \<Rightarrow> OcConfig \<Rightarrow> string" where
  "oc_confPath env c = he_Join env [ow_workDir c, ''ocserv.conf'']"

definition oc_passwdPath :: "HostEnv \<Rightarrow> OcConfig \<Rightarrow> string" where
  "oc_passwdPath env c = he_Join env [ow_workDir c, ''ocpasswd'']"

definition oc_binary :: "HostEnv \<Rightarrow> string" where
  "oc_binary env = (case find_program env [ocservBinary] ''ocserv'' of Some p \<Rightarrow> p | None \<Rightarrow> ocservBinary)"

definition oc_writePasswd :: "HostEnv \<Rightarrow> OcConfig PassCore \<Rightarrow> Host \<Rightarrow> string option \<times> Host" where
  "oc_writePasswd env o0 h =
    (let snap = pw_snapshot (he_order env (pw_users (pc_users o0))) (pc_users o0)
     in os_WriteFile env (oc_passwdPath env (pc_config o0)) (login_lines colon_line (he_order env snap) snap) h)"

definition oc_conf :: "HostEnv \<Rightarrow> OcConfig \<Rightarrow> string" where
  "oc_conf env c =
    ''auth = '' @ [CHR 0x22] @ ''plain['' @ oc_passwdPath env c @ '']'' @ [CHR 0x22] @ eol @
    ''tcp-port = '' @ show_int (ow_Port c) @ eol @ ''udp-port = '' @ show_int (ow_Port c) @ eol @
    ''run-as-user = nobody'' @ eol @ ''run-as-group = daemon'' @ eol @
    ''socket-file = '' @ he_Join env [ow_workDir c, ''ocserv.sock''] @ eol @
    ''server-cert = /etc/ssl/certs/ssl-cert-snakeoil.pem'' @ eol @ ''server-key = /etc/ssl/private/ssl-cert-snakeoil.key'' @ eol @
    ''ipv4-network = '' @ ow_Pool c @ eol @ ''tunnel-all-dns = true'' @ eol @
    concat (map (\<lambda>d. ''dns = '' @ d @ eol) (ow_DNS c)) @
    ''device = vpns'' @ eol @ ''ping-leases = true'' @ eol"

definition oc_writeConfig :: "HostEnv \<Rightarrow> OcConfig PassCore \<Rightarrow> Host \<Rightarrow> string option \<times> Host" where
  "oc_writeConfig env o0 h =
    (case he_MkdirAll env (ow_workDir (pc_config o0)) of
       Some e \<Rightarrow> (Some e, h)
     | None \<Rightarrow>
    (case oc_writePasswd env o0 h of
       (Some e, h1) \<Rightarrow> (Some e, h1)
     | (None, h1) \<Rightarrow> os_WriteFile env (oc_confPath env (pc_config o0)) (oc_conf env (pc_config o0)) h1))"

definition oc_start :: "HostEnv \<Rightarrow> OcConfig core_op" where
  "oc_start env o0 h =
    (case oc_writeConfig env o0 h of
       (Some e, h1) \<Rightarrow> (Some (''write openconnect config: '' @ e), o0, h1)
     | (None, h1) \<Rightarrow> pc_launch env ''start ocserv: '' [oc_binary env, ''-f'', ''-c'', oc_confPath env (pc_config o0)] o0 h1)"

definition oc_New :: "HostEnv \<Rightarrow> string \<Rightarrow> OcConfig option \<Rightarrow> UserPtr list \<Rightarrow> Host \<Rightarrow> (string + OcConfig PassCore) \<times> Host" where
  "oc_New env generated cfg users h =
    (case cfg of
       None \<Rightarrow> (Inl ''openconnect config must not be nil'', h)
     | Some c0 \<Rightarrow>
         let c = c0\<lparr>ow_workDir := he_Join env [generated, ''openconnect'', ow_InboundTag c0]\<rparr>
         in pc_New oc_credsFor (oc_start env) (ow_InboundTag c) users c h)"

definition oc_Shutdown :: "nat list \<Rightarrow> OcConfig PassCore \<Rightarrow> OcConfig PassCore" where
  "oc_Shutdown reaped o0 = o0\<lparr>pc_sup := sv_Shutdown reaped (pc_sup o0)\<rparr>"

definition oc_Restart :: "HostEnv \<Rightarrow> nat list \<Rightarrow> OcConfig core_op" where
  "oc_Restart env = pc_Restart (oc_start env)"

definition oc_SyncUser :: "HostEnv \<Rightarrow> UserPtr \<Rightarrow> OcConfig core_op" where
  "oc_SyncUser env u o0 h =
    (let o1 = o0\<lparr>pc_users := oc_applyUser u (pc_users o0)\<rparr>
     in case oc_writePasswd env o1 h of (r, h1) \<Rightarrow> (r, o1, h1))"

definition oc_SyncUsers :: "HostEnv \<Rightarrow> UserPtr list \<Rightarrow> OcConfig core_op" where
  "oc_SyncUsers env users o0 h =
    (let o1 = o0\<lparr>pc_users := oc_replaceAll users (pc_users o0)\<rparr>
     in case oc_writePasswd env o1 h of (r, h1) \<Rightarrow> (r, o1, h1))"

definition oc_UpdateUsers :: "HostEnv \<Rightarrow> UserPtr list \<Rightarrow> OcConfig core_op" where
  "oc_UpdateUsers env users o0 h = oc_SyncUsers env users o0 h"

definition oc_UpdateUsersAndRestart :: "HostEnv \<Rightarrow> nat list \<Rightarrow> UserPtr list \<Rightarrow> OcConfig core_op" where
  "oc_UpdateUsersAndRestart env reaped = pc_UpdateUsersAndRestart oc_credsFor (oc_start env) reaped"

definition oc_GetStats :: "string list \<Rightarrow> StatRequest \<Rightarrow> OcConfig PassCore \<Rightarrow> (string + Stat list) \<times> OcConfig PassCore" where
  "oc_GetStats order req o0 =
    (if \<not> sv_Started (pc_sup o0) then (Inl ''openconnect not started'', o0)
     else case sr_Type req of
       UserStat \<Rightarrow>
         (case Tracker_GetStats [sr_Name req] (sr_Reset req) (pc_tracker o0) of (t, stats) \<Rightarrow> (Inr stats, o0\<lparr>pc_tracker := t\<rparr>))
     | UsersStat \<Rightarrow>
         (case GetUsersStats order (sr_Reset req) (pc_tracker o0) of (t, stats) \<Rightarrow> (Inr stats, o0\<lparr>pc_tracker := t\<rparr>))
     | _ \<Rightarrow> (Inr [], o0))"

definition oc_GetUserOnlineStats :: "string \<Rightarrow> OcConfig PassCore \<Rightarrow> string + OnlineStatResponse" where
  "oc_GetUserOnlineStats email o0 =
    (if \<not> sv_Started (pc_sup o0) then Inl ''openconnect not started'' else Inr \<lparr>on_Name = email, on_Value = 0\<rparr>)"

definition oc_GetUserOnlineIpListStats :: "string \<Rightarrow> OcConfig PassCore \<Rightarrow> string + StatsOnlineIpListResponse" where
  "oc_GetUserOnlineIpListStats email o0 =
    (if \<not> sv_Started (pc_sup o0) then Inl ''openconnect not started''
     else Inr \<lparr>oi_Name = email, oi_Ips = Map.empty, oi_IpProtocol = Map.empty\<rparr>)"

section \<open>SSH\<close>

record SshConfig =
  sh_InboundTag :: string
  sh_Port :: int
  sh_Pool :: string
  sh_workDir :: string

definition sshGroup :: string where
  "sshGroup = ''hpx-ssh''"

definition ssh_NewConfig :: "(string \<Rightarrow> string + SshConfig) \<Rightarrow> string \<Rightarrow> string + SshConfig" where
  "ssh_NewConfig decode configStr =
    (if trim_space configStr = [] then Inl ''ssh config string must not be empty''
     else case decode configStr of
       Inl e \<Rightarrow> Inl (''failed to parse ssh config: '' @ e)
     | Inr c \<Rightarrow>
         if sh_InboundTag c = [] then Inl ''inbound_tag is required''
         else Inr (if sh_Port c \<le> 0 then c\<lparr>sh_Port := 2222\<rparr> else c))"

definition findSSHD :: "HostEnv \<Rightarrow> string" where
  "findSSHD env = (case find_program env [''/usr/sbin/sshd'', ''/sbin/sshd''] ''sshd'' of Some p \<Rightarrow> p | None \<Rightarrow> [])"

definition ssh_CheckDeps :: "HostEnv \<Rightarrow> string option" where
  "ssh_CheckDeps env = (if findSSHD env = [] then Some ''sshd is not installed on this node'' else None)"

definition ssh_DetectVersion :: "HostEnv \<Rightarrow> string" where
  "ssh_DetectVersion env =
    (let bin = findSSHD env
     in if bin = [] then ''unknown''
        else let line = trim_space (snd (he_Output env [bin, ''-V'']))
             in if line = [] then ''unknown'' else hd (str_fields line))"

definition ssh_path :: "HostEnv \<Rightarrow> SshConfig \<Rightarrow> string \<Rightarrow> string" where
  "ssh_path env c name = he_Join env [sh_workDir c, name]"

definition sshdConfigPath :: "HostEnv \<Rightarrow> SshConfig \<Rightarrow> string" where
  "sshdConfigPath env c = ssh_path env c ''sshd_config''"

definition hostKeyPath :: "HostEnv \<Rightarrow> SshConfig \<Rightarrow> string" where
  "hostKeyPath env c = ssh_path env c ''ssh_host_ed25519_key''"

definition usersFile :: "HostEnv \<Rightarrow> SshConfig \<Rightarrow> string" where
  "usersFile env c = ssh_path env c ''users.txt''"

definition ssh_writeUsers :: "HostEnv \<Rightarrow> SshConfig PassCore \<Rightarrow> Host \<Rightarrow> string option \<times> Host" where
  "ssh_writeUsers env o0 h =
    (case he_MkdirAll env (sh_workDir (pc_config o0)) of
       Some e \<Rightarrow> (Some e, h)
     | None \<Rightarrow>
         let snap = pw_snapshot (he_order env (pw_users (pc_users o0))) (pc_users o0)
         in os_WriteFile env (usersFile env (pc_config o0)) (login_lines colon_line (he_order env snap) snap) h)"

definition ensureHostKey :: "HostEnv \<Rightarrow> SshConfig \<Rightarrow> Host \<Rightarrow> string option \<times> Host" where
  "ensureHostKey env c h =
    (if he_exists env (hostKeyPath env c) then (None, h)
     else let keygen = (case he_LookPath env ''ssh-keygen'' of Some p \<Rightarrow> p | None \<Rightarrow> ''ssh-keygen'')
          in os_Run env [keygen, ''-t'', ''ed25519'', ''-f'', hostKeyPath env c, ''-N'', [], ''-q''] [] h)"

definition sshd_conf :: "HostEnv \<Rightarrow> SshConfig \<Rightarrow> string" where
  "sshd_conf env c =
    ''Port '' @ show_int (sh_Port c) @ eol @ ''ListenAddress 0.0.0.0'' @ eol @ ''HostKey '' @ hostKeyPath env c @ eol @
    ''PermitRootLogin no'' @ eol @ ''PasswordAuthentication yes'' @ eol @ ''PubkeyAuthentication no'' @ eol @
    ''ChallengeResponseAuthentication no'' @ eol @ ''UsePAM no'' @ eol @ ''AllowTcpForwarding yes'' @ eol @ ''PermitTunnel yes'' @ eol @
    ''AllowGroups '' @ sshGroup @ eol @ ''PidFile '' @ ssh_path env c ''sshd.pid'' @ eol @ ''ForceCommand /bin/true'' @ eol"

definition writeSSHDConfig :: "HostEnv \<Rightarrow> SshConfig \<Rightarrow> Host \<Rightarrow> string option \<times> Host" where
  "writeSSHDConfig env c h = os_WriteFile env (sshdConfigPath env c) (sshd_conf env c) h"

definition ssh_account :: "HostEnv \<Rightarrow> (string \<rightharpoonup> string) \<Rightarrow> string \<Rightarrow> Host \<Rightarrow> Host" where
  "ssh_account env snap user h =
    (case snap user of
       None \<Rightarrow> h
     | Some pass \<Rightarrow>
         let h1 = snd (os_Run env [''useradd'', ''-M'', ''-s'', ''/usr/sbin/nologin'', ''-G'', sshGroup, user] [] h)
         in snd (os_Run env [''chpasswd''] (user @ '':'' @ pass @ eol) h1))"

definition syncSystemUsers :: "HostEnv \<Rightarrow> SshConfig PassCore \<Rightarrow> Host \<Rightarrow> Host" where
  "syncSystemUsers env o0 h =
    (let h1 = snd (os_Run env [''groupadd'', ''-f'', sshGroup] [] h);
         snap = pw_snapshot (he_order env (pw_users (pc_users o0))) (pc_users o0)
     in fold (ssh_account env snap) (he_order env snap) h1)"

definition ssh_start :: "HostEnv \<Rightarrow> SshConfig core_op" where
  "ssh_start env o0 h =
    (case ssh_writeUsers env o0 h of
       (Some e, h1) \<Rightarrow> (Some e, o0, h1)
     | (None, h1) \<Rightarrow>
    (case ensureHostKey env (pc_config o0) h1 of
       (Some e, h2) \<Rightarrow> (Some (''ssh host key: '' @ e), o0, h2)
     | (None, h2) \<Rightarrow>
    (case writeSSHDConfig env (pc_config o0) h2 of
       (Some e, h3) \<Rightarrow> (Some e, o0, h3)
     | (None, h3) \<Rightarrow>
         let h4 = syncSystemUsers env o0 h3; bin = findSSHD env
         in if bin = [] then (Some ''sshd not found'', o0, h4)
            else pc_launch env ''start sshd: '' [bin, ''-D'', ''-e'', ''-f'', sshdConfigPath env (pc_config o0)] o0 h4)))"

definition ssh_New :: "HostEnv \<Rightarrow> string \<Rightarrow> SshConfig option \<Rightarrow> UserPtr list \<Rightarrow> Host \<Rightarrow> (string + SshConfig PassCore) \<times> Host" where
  "ssh_New env generated cfg users h =
    (case cfg of
       None \<Rightarrow> (Inl ''ssh config must not be nil'', h)
     | Some c0 \<Rightarrow>
         let c = c0\<lparr>sh_workDir := he_Join env [generated, ''ssh'', sh_InboundTag c0]\<rparr>
         in pc_New ssh_creds (ssh_start env) (sh_InboundTag c) users c h)"

definition ssh_Shutdown :: "nat list \<Rightarrow> SshConfig PassCore \<Rightarrow> SshConfig PassCore" where
  "ssh_Shutdown reaped o0 = o0\<lparr>pc_sup := sv_Shutdown reaped (pc_sup o0)\<rparr>"

definition ssh_Restart :: "HostEnv \<Rightarrow> nat list \<Rightarrow> SshConfig core_op" where
  "ssh_Restart env = pc_Restart (ssh_start env)"

definition ssh_written :: "HostEnv \<Rightarrow> SshConfig core_op" where
  "ssh_written env o1 h =
    (case ssh_writeUsers env o1 h of
       (Some e, h1) \<Rightarrow> (Some e, o1, h1)
     | (None, h1) \<Rightarrow> (None, o1, syncSystemUsers env o1 h1))"

definition ssh_SyncUser :: "HostEnv \<Rightarrow> UserPtr \<Rightarrow> SshConfig core_op" where
  "ssh_SyncUser env u o0 h = ssh_written env (o0\<lparr>pc_users := ssh_apply u (pc_users o0)\<rparr>) h"

definition ssh_SyncUsers :: "HostEnv \<Rightarrow> UserPtr list \<Rightarrow> SshConfig core_op" where
  "ssh_SyncUsers env users o0 h = ssh_written env (o0\<lparr>pc_users := ssh_replaceAll users (pc_users o0)\<rparr>) h"

definition ssh_UpdateUsers :: "HostEnv \<Rightarrow> UserPtr list \<Rightarrow> SshConfig core_op" where
  "ssh_UpdateUsers env users o0 h = ssh_SyncUsers env users o0 h"

definition ssh_UpdateUsersAndRestart :: "HostEnv \<Rightarrow> nat list \<Rightarrow> UserPtr list \<Rightarrow> SshConfig core_op" where
  "ssh_UpdateUsersAndRestart env reaped = pc_UpdateUsersAndRestart ssh_creds (ssh_start env) reaped"

definition ssh_GetStats :: "SshConfig PassCore \<Rightarrow> string + Stat list" where
  "ssh_GetStats o0 = (if \<not> sv_Started (pc_sup o0) then Inl ''ssh not started'' else Inr [])"

definition ssh_GetUserOnlineStats :: "string \<Rightarrow> OnlineStatResponse" where
  "ssh_GetUserOnlineStats email = \<lparr>on_Name = email, on_Value = 0\<rparr>"

definition ssh_GetUserOnlineIpListStats :: "string \<Rightarrow> StatsOnlineIpListResponse" where
  "ssh_GetUserOnlineIpListStats email = \<lparr>oi_Name = email, oi_Ips = Map.empty, oi_IpProtocol = Map.empty\<rparr>"

end
