(* ===== verification/PassCoresCorrect.thy ===== *)
theory PassCoresCorrect
  imports PassCores
begin

text \<open>
  What the SSTP, OpenConnect and SSH back ends promise: the file that the daemon reads holds exactly the logins of
  the store, for every text format with the contract of \<open>login_format\<close>; what an update of some users does to the
  others; what happens to the system accounts of SSH users.
\<close>

section \<open>Stores\<close>

definition pw_asked :: "cred_reader \<Rightarrow> string \<Rightarrow> UserPtr \<Rightarrow> (string \<times> string) option" where
  "pw_asked creds tag u = (if tag \<in> set (GetInbounds u) then creds u else None)"

lemma pw_next_asked:
  "pw_next creds s = (\<lambda>u nxt. case pw_asked creds (pw_tag s) u of None \<Rightarrow> nxt | Some (n, p) \<Rightarrow> nxt(n \<mapsto> p))"
  by (auto simp: fun_eq_iff pw_next_def pw_wants_def pw_asked_def split: option.split)

lemma pw_replaceAll_users:
  "pw_users (pw_replaceAll creds users s) = map_of (rev (List.map_filter (pw_asked creds (pw_tag s)) users))"
  by (simp add: pw_replaceAll_def pw_next_asked fold_entries)

lemma finite_pw_replaceAll [simp]: "finite (dom (pw_users (pw_replaceAll creds users s)))"
  by (simp add: pw_replaceAll_users finite_dom_map_of)

lemma pw_replaceAll_None:
  "pw_users (pw_replaceAll creds users s) n = None \<longleftrightarrow>
    (\<forall>u \<in> set users. \<forall>p. pw_asked creds (pw_tag s) u \<noteq> Some (n, p))"
  unfolding pw_replaceAll_users map_of_eq_None_iff by (force simp: List.map_filter_def)

lemma pw_snapshot_eq:
  assumes "enumerates order (pw_users s)"
  shows "pw_snapshot order s = pw_users s"
proof -
  have "fold (\<lambda>k out. case pw_users s k of None \<Rightarrow> out | Some v \<Rightarrow> out(k \<mapsto> v)) order m =
      m ++ (pw_users s |` set order)" for m
  proof (induction order arbitrary: m)
    case (Cons k ks)
    then show ?case
      by (auto simp: fun_eq_iff map_add_def restrict_map_def split: option.split)
  qed simp
  then show ?thesis
    using enumerates_set [OF assms] by (auto simp: pw_snapshot_def fun_eq_iff restrict_map_def dom_def)
qed

section \<open>Formats\<close>

text \<open>What a reader makes of a file whose lines are read by \<open>entry\<close>; the first entry of a name counts.\<close>

definition read_logins :: "(string \<Rightarrow> (string \<times> string) option) \<Rightarrow> string \<Rightarrow> (string \<rightharpoonup> string)" where
  "read_logins entry file = map_of (List.map_filter entry (split_at_char (CHR 0x0A) file))"

locale login_format =
  fixes line :: "string \<Rightarrow> string \<Rightarrow> string" and entry :: "string \<Rightarrow> (string \<times> string) option"
    and printable :: "string \<Rightarrow> string \<Rightarrow> bool"
  assumes line_read: "printable u p \<Longrightarrow> \<exists>l. line u p = l @ eol \<and> CHR 0x0A \<notin> set l \<and> entry l = Some (u, p)"
    and nothing_read: "entry [] = None"
begin

lemma lines_read:
  assumes "\<forall>u \<in> set order. \<forall>p. m u = Some p \<longrightarrow> printable u p"
  shows "List.map_filter entry (split_at_char (CHR 0x0A) (login_lines line order m)) =
    List.map_filter (\<lambda>u. map_option (Pair u) (m u)) order"
  using assms
proof (induction order)
  case Nil
  then show ?case by (simp add: login_lines_def map_filter_simps nothing_read)
next
  case (Cons u us)
  show ?case
  proof (cases "m u")
    case None
    then show ?thesis using Cons by (simp add: login_lines_def map_filter_simps)
  next
    case (Some p)
    then obtain l where l: "line u p = l @ eol" "CHR 0x0A \<notin> set l" "entry l = Some (u, p)"
      using line_read Cons.prems by fastforce
    have "login_lines line (u # us) m = l @ CHR 0x0A # login_lines line us m"
      using Some l(1) by (simp add: login_lines_def)
    then show ?thesis
      using Some l Cons by (simp add: split_at_char_append split_at_char_plain map_filter_simps)
  qed
qed

lemma file_roundtrip:
  assumes "enumerates order m" and "\<And>u p. m u = Some p \<Longrightarrow> printable u p"
  shows "read_logins entry (login_lines line order m) = m"
proof -
  have "map_of (List.map_filter (\<lambda>u. map_option (Pair u) (m u)) us) n = (if n \<in> set us then m n else None)" for us n
    by (induction us) (auto simp: map_filter_simps split: option.split)
  then show ?thesis
    using assms enumerates_set [OF assms(1)] by (auto simp: read_logins_def lines_read fun_eq_iff dom_def)
qed

end

definition colon_entry :: "string \<Rightarrow> (string \<times> string) option" where
  "colon_entry l =
    (if CHR '':'' \<in> set l then Some (takeWhile (\<lambda>c. c \<noteq> CHR '':'') l, tl (dropWhile (\<lambda>c. c \<noteq> CHR '':'') l)) else None)"

definition colon_ok :: "string \<Rightarrow> string \<Rightarrow> bool" where
  "colon_ok u p \<longleftrightarrow> CHR '':'' \<notin> set u \<and> CHR 0x0A \<notin> set u \<and> CHR 0x0A \<notin> set p"

definition chap_entry :: "string \<Rightarrow> (string \<times> string) option" where
  "chap_entry l = (case str_fields l of [u, _, p, _] \<Rightarrow> Some (u, p) | _ \<Rightarrow> None)"

definition chap_ok :: "string \<Rightarrow> string \<Rightarrow> bool" where
  "chap_ok u p \<longleftrightarrow> u \<noteq> [] \<and> p \<noteq> [] \<and> list_all (\<lambda>c. \<not> is_space c) u \<and> list_all (\<lambda>c. \<not> is_space c) p"

lemma colon_entry_line: "CHR '':'' \<notin> set u \<Longrightarrow> colon_entry (u @ CHR '':'' # p) = Some (u, p)"
proof -
  assume u: "CHR '':'' \<notin> set u"
  have "takeWhile (\<lambda>c. c \<noteq> CHR '':'') (u @ CHR '':'' # p) = u" "dropWhile (\<lambda>c. c \<noteq> CHR '':'') (u @ CHR '':'' # p) = CHR '':'' # p"
    using u by (auto simp: takeWhile_tail takeWhile_append dropWhile_append)
  then show ?thesis by (simp add: colon_entry_def)
qed

interpretation colon_file: login_format colon_line colon_entry colon_ok
proof unfold_locales
  fix u p
  assume a: "colon_ok u p"
  have "colon_line u p = (u @ CHR '':'' # p) @ eol" by (simp add: colon_line_def)
  moreover have "CHR 0x0A \<notin> set (u @ CHR '':'' # p)" using a by (simp add: colon_ok_def)
  moreover have "colon_entry (u @ CHR '':'' # p) = Some (u, p)" using a colon_entry_line by (simp add: colon_ok_def)
  ultimately show "\<exists>l. colon_line u p = l @ eol \<and> CHR 0x0A \<notin> set l \<and> colon_entry l = Some (u, p)" by blast
qed (simp add: colon_entry_def)

lemma chap_fields:
  assumes "chap_ok u p"
  shows "str_fields (u @ '' * '' @ p @ '' *'') = [u, ''*'', p, ''*'']"
proof -
  have sp: "is_space (CHR '' '')" and star: "\<forall>c \<in> set ''*''. \<not> is_space c" by (simp_all add: is_space_def)
  have u: "u \<noteq> []" "\<forall>c \<in> set u. \<not> is_space c" and p: "p \<noteq> []" "\<forall>c \<in> set p. \<not> is_space c"
    using assms by (simp_all add: chap_ok_def list_all_iff)
  have "str_fields (p @ CHR '' '' # ''*'') = [p, ''*'']"
    using str_fields_word [OF p sp] star by (simp add: str_fields_def)
  then have "str_fields (''*'' @ CHR '' '' # p @ CHR '' '' # ''*'') = [''*'', p, ''*'']"
    using str_fields_word [OF _ star sp] by simp
  then have "str_fields (u @ CHR '' '' # ''*'' @ CHR '' '' # p @ CHR '' '' # ''*'') = [u, ''*'', p, ''*'']"
    using str_fields_word [OF u sp] by simp
  then show ?thesis by simp
qed

interpretation chap_file: login_format chap_line chap_entry chap_ok
proof unfold_locales
  fix u p
  assume a: "chap_ok u p"
  have nsp: "CHR 0x0A \<notin> set w" if "list_all (\<lambda>c. \<not> is_space c) w" for w
    using that by (auto simp: list_all_iff is_space_def)
  have "chap_line u p = (u @ '' * '' @ p @ '' *'') @ eol" by (simp add: chap_line_def)
  moreover have "CHR 0x0A \<notin> set (u @ '' * '' @ p @ '' *'')" using a nsp by (simp add: chap_ok_def)
  moreover have "chap_entry (u @ '' * '' @ p @ '' *'') = Some (u, p)" using chap_fields [OF a] by (simp add: chap_entry_def)
  ultimately show "\<exists>l. chap_line u p = l @ eol \<and> CHR 0x0A \<notin> set l \<and> chap_entry l = Some (u, p)" by blast
qed (simp add: chap_entry_def str_fields_def)

section \<open>What the daemons read\<close>

definition file_logins :: "(string \<Rightarrow> (string \<times> string) option) \<Rightarrow> string \<Rightarrow> Host \<Rightarrow> (string \<rightharpoonup> string) option" where
  "file_logins entry path h = map_option (read_logins entry) (ho_files h path)"

definition printable_store :: "(string \<Rightarrow> string \<Rightarrow> bool) \<Rightarrow> passStore \<Rightarrow> bool" where
  "printable_store printable s \<longleftrightarrow> finite (dom (pw_users s)) \<and> (\<forall>u p. pw_users s u = Some p \<longrightarrow> printable u p)"

definition any_order :: "HostEnv \<Rightarrow> bool" where
  "any_order env \<longleftrightarrow> (\<forall>m. finite (dom m) \<longrightarrow> enumerates (he_order env m) m)"

lemma snapshot_any_order: "any_order env \<Longrightarrow> finite (dom (pw_users s)) \<Longrightarrow>
    pw_snapshot (he_order env (pw_users s)) s = pw_users s \<and> enumerates (he_order env (pw_users s)) (pw_users s)"
  using pw_snapshot_eq by (auto simp: any_order_def)

context login_format begin

lemma written_logins:
  assumes "any_order env" and "printable_store printable s"
    and "os_WriteFile env path (login_lines line (he_order env (pw_users s)) (pw_users s)) h = (None, h1)"
  shows "file_logins entry path h1 = Some (pw_users s)"
proof -
  have "ho_files h1 path = Some (login_lines line (he_order env (pw_users s)) (pw_users s))"
    using os_WriteFile_ok [OF assms(3)] by simp
  moreover have "read_logins entry (login_lines line (he_order env (pw_users s)) (pw_users s)) = pw_users s"
    using assms(1,2) by (intro file_roundtrip) (auto simp: any_order_def printable_store_def)
  ultimately show ?thesis by (simp add: file_logins_def)
qed

end

section \<open>Properties\<close>


text \<open>A concrete host: files can be written, every program is found under \<open>/bin\<close>, maps are visited in sorted order.\<close>

definition lab_host_env :: HostEnv where
  "lab_host_env = \<lparr>he_MkdirAll = (\<lambda>_. None), he_WriteFile = (\<lambda>_ _. None), he_exists = (\<lambda>_. False),
     he_LookPath = (\<lambda>name. Some (''/bin/'' @ name)), he_Start = (\<lambda>_. Inr 7), he_Run = (\<lambda>_ _. None),
     he_Output = (\<lambda>_. (None, [])), he_Join = (\<lambda>ps. str_join ''/'' ps), he_order = (\<lambda>m. sorted_list_of_set (dom m))\<rparr>"

definition lab_host :: Host where
  "lab_host = \<lparr>ho_files = Map.empty, ho_cmds = []\<rparr>"

lemma lab_any_order: "any_order lab_host_env"
  by (simp add: any_order_def lab_host_env_def enumerates_def)

definition lab_oc :: "OcConfig PassCore" where
  "lab_oc = \<lparr>pc_config = \<lparr>ow_InboundTag = ''oc'', ow_Port = 443, ow_Pool = ''10.9.0.0/24'', ow_ServerAddr = [], ow_DNS = [],
       ow_workDir = ''w''\<rparr>,
     pc_users = \<lparr>pw_tag = ''oc'', pw_users = [''ann'' \<mapsto> ''pw'', ''bob'' \<mapsto> ''a:b'']\<rparr>, pc_tracker = new_Tracker, pc_sup = sv_new\<rparr>"


text \<open>A password with a line break is read back as the login of somebody else.\<close>

theorem colon_line_injects:
  "read_logins colon_entry (colon_line ''ann'' (''x'' @ eol @ ''root:y'')) = [''ann'' \<mapsto> ''x'', ''root'' \<mapsto> ''y'']"
  by (simp add: read_logins_def colon_line_def colon_entry_def map_filter_simps fun_eq_iff)

text \<open>An update that names some users takes the login of every other user from the store of an SSTP, OpenConnect
  or SSH core, although nothing was said about them: the update is executed as a replacement of the whole list.\<close>

theorem partial_update_drops_logins:
  assumes "\<forall>u \<in> set users. \<forall>p. creds u \<noteq> Some (n, p)"
  shows "(creds = sstp_creds \<longrightarrow> pw_users (pc_users (fst (snd (sstp_UpdateUsers env users c1 h)))) n = None) \<and>
    (creds = oc_credsFor \<longrightarrow> pw_users (pc_users (fst (snd (oc_UpdateUsers env users c2 h)))) n = None) \<and>
    (creds = ssh_creds \<longrightarrow> pw_users (pc_users (fst (snd (ssh_UpdateUsers env users c3 h)))) n = None)"
proof -
  have none: "pw_users (pw_replaceAll creds users s) n = None" for s
    using assms by (simp add: pw_replaceAll_None pw_asked_def)
  show ?thesis
    using none by (auto simp: sstp_UpdateUsers_def sstp_SyncUsers_def oc_UpdateUsers_def oc_SyncUsers_def
        ssh_UpdateUsers_def ssh_SyncUsers_def ssh_written_def Let_def split: prod.split option.split)
qed

theorem partial_update_drops_logins_witness:
  "pw_users (pc_users lab_oc) ''bob'' = Some ''a:b'' \<and>
   pw_users (pc_users (fst (snd (oc_UpdateUsers lab_host_env
     [Some \<lparr>u_Email = ''1.ann'', u_Proxies = Some (empty_Proxy\<lparr>px_Openconnect := Some \<lparr>cr_Username = ''ann'', cr_Password = ''new''\<rparr>\<rparr>),
            u_Inbounds = [''oc''], u_IpLimit = 0, u_SpeedLimit = 0\<rparr>] lab_oc lab_host)))) ''bob'' = None"
  using partial_update_drops_logins [of _ oc_credsFor "''bob''"]
  by (simp add: oc_credsFor_def go_defs lab_oc_def)

section \<open>System accounts\<close>

text \<open>
  The commands that \<open>syncSystemUsers\<close> runs are \<open>groupadd\<close>, and \<open>useradd\<close> and \<open>chpasswd\<close> once for every login of the
  store.
\<close>

definition account_cmds :: "(string \<rightharpoonup> string) \<Rightarrow> string \<Rightarrow> (string list \<times> string) list" where
  "account_cmds m user =
    (case m user of
       None \<Rightarrow> []
     | Some pass \<Rightarrow> [([''useradd'', ''-M'', ''-s'', ''/usr/sbin/nologin'', ''-G'', sshGroup, user], []), ([''chpasswd''], colon_line user pass)])"

lemma ssh_accounts_cmds: "ho_cmds (fold (ssh_account env m) us h) = ho_cmds h @ concat (map (account_cmds m) us)"
  by (induction us arbitrary: h)
    (simp_all add: ssh_account_def account_cmds_def os_Run_def colon_line_def Let_def split: option.split)

lemma syncSystemUsers_cmds:
  assumes "any_order env" "finite (dom (pw_users (pc_users c)))"
  shows "ho_cmds (syncSystemUsers env c h) = ho_cmds h @ ([''groupadd'', ''-f'', sshGroup], []) #
    concat (map (account_cmds (pw_users (pc_users c))) (he_order env (pw_users (pc_users c))))"
  using snapshot_any_order [OF assms] by (simp add: syncSystemUsers_def ssh_accounts_cmds Let_def) (simp add: os_Run_def)

lemma ssh_writeUsers_cmds: "ho_cmds (snd (ssh_writeUsers env c h)) = ho_cmds h"
  by (simp add: ssh_writeUsers_def Let_def split: option.split)

text \<open>What the commands do to the accounts of the system: \<open>effect\<close> gives the password of every account after a command.\<close>

type_synonym account_effect = "string list \<times> string \<Rightarrow> (string \<rightharpoonup> string) \<Rightarrow> (string \<rightharpoonup> string)"

definition tools_effect :: "account_effect \<Rightarrow> bool" where
  "tools_effect effect \<longleftrightarrow>
    (\<forall>a. effect ([''groupadd'', ''-f'', sshGroup], []) a = a) \<and>
    (\<forall>m n a. m \<noteq> n \<longrightarrow> effect ([''useradd'', ''-M'', ''-s'', ''/usr/sbin/nologin'', ''-G'', sshGroup, m], []) a n = a n) \<and>
    (\<forall>m n p a. m \<noteq> n \<and> colon_ok m p \<longrightarrow> effect ([''chpasswd''], colon_line m p) a n = a n)"

lemma account_cmds_other:
  assumes "tools_effect effect" "m n = None" "\<And>u p. m u = Some p \<Longrightarrow> colon_ok u p"
  shows "fold effect (concat (map (account_cmds m) us)) a n = a n"
proof (induction us arbitrary: a)
  case (Cons u us)
  have "fold effect (account_cmds m u) a n = a n" for a
    using assms by (cases "m u"; cases "u = n") (auto simp: account_cmds_def tools_effect_def)
  with Cons show ?case by simp
qed simp

text \<open>Revoking an SSH user does not close the account: the commands of a synchronisation that no longer lists
  the user leave the account of that name on the system with its password, so the user can go on logging in.\<close>

theorem ssh_revoked_account_stays:
  assumes "tools_effect effect" and "any_order env"
    and "ssh_SyncUsers env users c h = (r, c1, h1)" and "\<forall>u \<in> set users. \<forall>p. ssh_creds u \<noteq> Some (n, p)"
    and "printable_store colon_ok (pc_users c1)"
  shows "pw_users (pc_users c1) n = None \<and> fold effect (drop (length (ho_cmds h)) (ho_cmds h1)) a n = a n"
proof -
  let ?c = "c\<lparr>pc_users := pw_replaceAll ssh_creds users (pc_users c)\<rparr>"
  have c1: "c1 = ?c" using assms(3) by (auto simp: ssh_SyncUsers_def ssh_written_def split: prod.splits option.splits)
  have n: "pw_users (pc_users c1) n = None"
    using assms(4) by (simp add: c1 pw_replaceAll_None pw_asked_def)
  have "ho_cmds h1 = ho_cmds h \<or> ho_cmds h1 = ho_cmds h @ ([''groupadd'', ''-f'', sshGroup], []) #
      concat (map (account_cmds (pw_users (pc_users c1))) (he_order env (pw_users (pc_users c1))))"
    using assms(3) ssh_writeUsers_cmds [of env ?c h] syncSystemUsers_cmds [OF assms(2), of ?c]
    by (auto simp: ssh_SyncUsers_def ssh_written_def split: prod.splits option.splits)
  moreover have "fold effect (concat (map (account_cmds (pw_users (pc_users c1))) us)) a n = a n" for us
    using account_cmds_other [OF assms(1), of "pw_users (pc_users c1)"] n assms(5) by (simp add: printable_store_def)
  ultimately show ?thesis using n assms(1) by (auto simp: tools_effect_def)
qed

definition lab_effect :: account_effect where
  "lab_effect cmd a =
    (case cmd of (argv, stdin) \<Rightarrow>
       if argv = [''chpasswd'']
       then (case colon_entry (butlast stdin) of None \<Rightarrow> a | Some (u, p) \<Rightarrow> a(u \<mapsto> p))
       else if hd argv = ''useradd'' \<and> a (last argv) = None then a(last argv \<mapsto> [])
       else a)"

lemma lab_tools_effect: "tools_effect lab_effect"
  unfolding tools_effect_def
proof (intro conjI allI impI)
  fix m n p :: string and a :: "string \<rightharpoonup> string"
  assume a: "m \<noteq> n \<and> colon_ok m p"
  have "butlast (colon_line m p) = m @ CHR '':'' # p"
    by (simp add: colon_line_def butlast_append)
  then have "colon_entry (butlast (colon_line m p)) = Some (m, p)"
    using a colon_entry_line by (simp add: colon_ok_def)
  then show "lab_effect ([''chpasswd''], colon_line m p) a n = a n"
    using a by (auto simp: lab_effect_def)
qed (simp_all add: lab_effect_def)

definition lab_ssh :: "SshConfig PassCore" where
  "lab_ssh = \<lparr>pc_config = \<lparr>sh_InboundTag = ''ssh'', sh_Port = 22, sh_Pool = [], sh_workDir = ''w''\<rparr>,
     pc_users = \<lparr>pw_tag = ''ssh'', pw_users = [''ann'' \<mapsto> ''pw'']\<rparr>, pc_tracker = new_Tracker, pc_sup = sv_new\<rparr>"

theorem ssh_revoked_account_stays_witness:
  "\<exists>r c1 h1. ssh_SyncUsers lab_host_env [] lab_ssh lab_host = (r, c1, h1) \<and> pw_users (pc_users c1) ''ann'' = None \<and>
    fold lab_effect (ho_cmds h1) [''ann'' \<mapsto> ''pw''] ''ann'' = Some ''pw''"
proof -
  obtain r c1 h1 where e: "ssh_SyncUsers lab_host_env [] lab_ssh lab_host = (r, c1, h1)" by (metis prod_cases3)
  have "pw_users (pc_users c1) = Map.empty"
    using e by (auto simp: ssh_SyncUsers_def ssh_written_def pw_replaceAll_def lab_ssh_def split: prod.splits option.splits)
  then have "printable_store colon_ok (pc_users c1)" by (simp add: printable_store_def)
  with e ssh_revoked_account_stays [OF lab_tools_effect lab_any_order e, of "''ann''" "[''ann'' \<mapsto> ''pw'']"]
  show ?thesis by (auto simp: lab_host_def)
qed

end
