(* ===== verification/Tunnels.thy ===== *)
theory Tunnels
  imports Daemon Tracker
begin

text \<open>
  The GRE tunnel (\<open>backend/gre/gre.go\<close>) and the MTProto proxy (\<open>backend/mtproto/mtproto.go\<close>). GRE keeps the users
  only for the record and drives one kernel interface with \<open>ip\<close>; MTProto runs one daemon with one secret. Log lines are
  left out.
\<close>

section \<open>GRE\<close>

record GreConfig =
  gc_InboundTag :: string
  gc_Local :: string
  gc_Peer :: string
  gc_Remote :: string
  gc_Fou :: bool
  gc_IPsec :: bool
  gc_workDir :: string

definition gre_NewConfig :: "(string \<Rightarrow> string + GreConfig) \<Rightarrow> string \<Rightarrow> string + GreConfig" where
  "gre_NewConfig decode configStr =
    (if trim_space configStr = [] then Inl ''gre config string must not be empty''
     else case decode configStr of
       Inl e \<Rightarrow> Inl (''failed to parse gre config: '' @ e)
     | Inr c \<Rightarrow>
         if gc_InboundTag c = [] then Inl ''inbound_tag is required''
         else let c1 = (if gc_Peer c = [] then c\<lparr>gc_Peer := gc_Remote c\<rparr> else c)
              in if gc_Local c1 = [] \<or> gc_Peer c1 = [] then Inl ''local and peer (or remote) are required''
                 else Inr c1)"

definition gre_CheckDeps :: "HostEnv \<Rightarrow> string option" where
  "gre_CheckDeps env = (if he_LookPath env ''ip'' = None then Some ''ip command is not installed on this node'' else None)"

text \<open>
  A \<open>range\<close> loop over a string decodes UTF-8: the number of bytes of the first rune, where a byte that starts no
  valid sequence is a rune of its own.
\<close>

definition byte_of :: "char \<Rightarrow> nat" where
  "byte_of c = of_char c"

definition cont :: "nat \<Rightarrow> nat \<Rightarrow> char \<Rightarrow> bool" where
  "cont lo hi c \<longleftrightarrow> lo \<le> byte_of c \<and> byte_of c \<le> hi"

definition rune_width :: "string \<Rightarrow> nat" where
  "rune_width s =
    (case s of
       c0 # c1 # rest \<Rightarrow>
         let b = byte_of c0 in
         if 0xC2 \<le> b \<and> b \<le> 0xDF then (if cont 0x80 0xBF c1 then 2 else 1)
         else if 0xE0 \<le> b \<and> b \<le> 0xEF
         then (let lo = (if b = 0xE0 then 0xA0 else 0x80); hi = (if b = 0xED then 0x9F else 0xBF)
               in case rest of c2 # _ \<Rightarrow> if cont lo hi c1 \<and> cont 0x80 0xBF c2 then 3 else 1 | [] \<Rightarrow> 1)
         else if 0xF0 \<le> b \<and> b \<le> 0xF4
         then (let lo = (if b = 0xF0 then 0x90 else 0x80); hi = (if b = 0xF4 then 0x8F else 0xBF)
               in case rest of c2 # c3 # _ \<Rightarrow> if cont lo hi c1 \<and> cont 0x80 0xBF c2 \<and> cont 0x80 0xBF c3 then 4 else 1 | _ \<Rightarrow> 1)
         else 1
     | _ \<Rightarrow> 1)"

lemma rune_width_pos [simp]: "0 < rune_width s"
  by (simp add: rune_width_def Let_def split: list.split)

function runes :: "string \<Rightarrow> string list" where
  "runes [] = []"
| "runes (c # cs) = take (rune_width (c # cs)) (c # cs) # runes (drop (rune_width (c # cs)) (c # cs))"
  by pat_completeness auto
termination
proof (relation "measure length")
  fix c :: char and cs
  show "(drop (rune_width (c # cs)) (c # cs), c # cs) \<in> measure length"
    using rune_width_pos [of "c # cs"] by simp
qed simp

definition is_alnum :: "char \<Rightarrow> bool" where
  "is_alnum c \<longleftrightarrow> 97 \<le> byte_of c \<and> byte_of c \<le> 122 \<or> 65 \<le> byte_of c \<and> byte_of c \<le> 90 \<or> 48 \<le> byte_of c \<and> byte_of c \<le> 57"

definition sanitize_rune :: "string \<Rightarrow> char" where
  "sanitize_rune r = (case r of [c] \<Rightarrow> if is_alnum c then c else CHR ''-'' | _ \<Rightarrow> CHR ''-'')"

definition sanitize :: "string \<Rightarrow> string" where
  "sanitize s =
    (let out = map sanitize_rune (runes s);
         out1 = (if length out > 12 then take 12 out else out)
     in if out1 = [] then ''tun'' else out1)"

text \<open>\<open>g_state\<close> is 1 while the tunnel is up, \<open>g_once\<close> tells that \<open>shutdownOnce\<close> has run.\<close>

record GRE =
  g_config :: GreConfig
  g_users :: "string \<rightharpoonup> string"
  g_state :: nat
  g_once :: bool
  g_iface :: string

definition gre_wants :: "GRE \<Rightarrow> UserPtr \<Rightarrow> Gre option" where
  "gre_wants o0 u =
    (case GetProxies u of
       None \<Rightarrow> None
     | Some px \<Rightarrow> if gc_InboundTag (g_config o0) \<in> set (GetInbounds u) then px_Gre px else None)"

definition gre_next :: "GRE \<Rightarrow> UserPtr \<Rightarrow> (string \<rightharpoonup> string) \<Rightarrow> (string \<rightharpoonup> string)" where
  "gre_next o0 u nxt = (case gre_wants o0 u of None \<Rightarrow> nxt | Some g \<Rightarrow> nxt(GetEmail u \<mapsto> gr_PeerIp g))"

definition replaceUsers :: "UserPtr list \<Rightarrow> GRE \<Rightarrow> GRE" where
  "replaceUsers users o0 = o0\<lparr>g_users := fold (gre_next o0) users Map.empty\<rparr>"

definition gre_start :: "HostEnv \<Rightarrow> GRE \<Rightarrow> Host \<Rightarrow> string option \<times> GRE \<times> Host" where
  "gre_start env o0 h =
    (let h1 = snd (os_Run env [''ip'', ''link'', ''del'', g_iface o0] [] h)
     in case os_Run env [''ip'', ''tunnel'', ''add'', g_iface o0, ''mode'', ''gre'', ''remote'', gc_Peer (g_config o0), ''local'', gc_Local (g_config o0)] [] h1 of
          (Some e, h2) \<Rightarrow> (Some (''ip tunnel add: '' @ e), o0, h2)
        | (None, h2) \<Rightarrow>
            (case os_Run env [''ip'', ''link'', ''set'', g_iface o0, ''up''] [] h2 of
               (Some e, h3) \<Rightarrow> (Some (''ip link set up: '' @ e), o0, h3)
             | (None, h3) \<Rightarrow> (None, o0\<lparr>g_state := 1\<rparr>, h3)))"

definition gre_New :: "HostEnv \<Rightarrow> string \<Rightarrow> GreConfig option \<Rightarrow> UserPtr list \<Rightarrow> Host \<Rightarrow> (string + GRE) \<times> Host" where
  "gre_New env generated cfg users h =
    (case cfg of
       None \<Rightarrow> (Inl ''gre config must not be nil'', h)
     | Some c0 \<Rightarrow>
         let c = c0\<lparr>gc_workDir := he_Join env [generated, ''gre'', gc_InboundTag c0]\<rparr>;
             o0 = \<lparr>g_config = c, g_users = Map.empty, g_state = 0, g_once = False, g_iface = ''gre-'' @ sanitize (gc_InboundTag c)\<rparr>
         in case gre_start env (replaceUsers users o0) h of
              (Some e, _, h1) \<Rightarrow> (Inl e, h1)
            | (None, o1, h1) \<Rightarrow> (Inr o1, h1))"

definition gre_Started :: "GRE \<Rightarrow> bool" where
  "gre_Started o0 \<longleftrightarrow> g_state o0 = 1"

definition gre_Shutdown :: "HostEnv \<Rightarrow> GRE \<Rightarrow> Host \<Rightarrow> GRE \<times> Host" where
  "gre_Shutdown env o0 h =
    (if g_once o0 then (o0, h)
     else (o0\<lparr>g_state := 0, g_once := True\<rparr>, snd (os_Run env [''ip'', ''link'', ''del'', g_iface o0] [] h)))"

definition gre_Restart :: "HostEnv \<Rightarrow> GRE \<Rightarrow> Host \<Rightarrow> string option \<times> GRE \<times> Host" where
  "gre_Restart env o0 h =
    (case gre_Shutdown env o0 h of (o1, h1) \<Rightarrow> gre_start env (o1\<lparr>g_once := False\<rparr>) h1)"

definition gre_SyncUser :: "UserPtr \<Rightarrow> GRE \<Rightarrow> GRE" where
  "gre_SyncUser u o0 =
    (case gre_wants o0 u of
       None \<Rightarrow> o0\<lparr>g_users := map_delete (GetEmail u) (g_users o0)\<rparr>
     | Some g \<Rightarrow> o0\<lparr>g_users := (g_users o0)(GetEmail u \<mapsto> gr_PeerIp g)\<rparr>)"

definition gre_SyncUsers :: "UserPtr list \<Rightarrow> GRE \<Rightarrow> GRE" where
  "gre_SyncUsers users o0 = replaceUsers users o0"

definition gre_UpdateUsers :: "UserPtr list \<Rightarrow> GRE \<Rightarrow> GRE" where
  "gre_UpdateUsers users o0 = gre_SyncUsers users o0"

definition gre_UpdateUsersAndRestart :: "HostEnv \<Rightarrow> UserPtr list \<Rightarrow> GRE \<Rightarrow> Host \<Rightarrow> string option \<times> GRE \<times> Host" where
  "gre_UpdateUsersAndRestart env users o0 h = gre_Restart env (replaceUsers users o0) h"

definition gre_GetStats :: "GRE \<Rightarrow> string + Stat list" where
  "gre_GetStats o0 = (if \<not> gre_Started o0 then Inl ''gre not started'' else Inr [])"

definition gre_GetUserOnlineStats :: "string \<Rightarrow> OnlineStatResponse" where
  "gre_GetUserOnlineStats email = \<lparr>on_Name = email, on_Value = 0\<rparr>"

definition gre_GetUserOnlineIpListStats :: "string \<Rightarrow> StatsOnlineIpListResponse" where
  "gre_GetUserOnlineIpListStats email = \<lparr>oi_Name = email, oi_Ips = Map.empty, oi_IpProtocol = Map.empty\<rparr>"

section \<open>MTProto\<close>

record MtConfig =
  mc_InboundTag :: string
  mc_Port :: int
  mc_Secret :: string
  mc_workDir :: string

definition mt_NewConfig :: "(string \<Rightarrow> string + MtConfig) \<Rightarrow> string \<Rightarrow> string + MtConfig" where
  "mt_NewConfig decode configStr =
    (if trim_space configStr = [] then Inl ''mtproto config string must not be empty''
     else case decode configStr of
       Inl e \<Rightarrow> Inl (''failed to parse mtproto config: '' @ e)
     | Inr c \<Rightarrow>
         if mc_InboundTag c = [] then Inl ''inbound_tag is required''
         else Inr (if mc_Port c \<le> 0 then c\<lparr>mc_Port := 443\<rparr> else c))"

text \<open>\<open>getenv\<close> is the value of \<open>MTG_EXECUTABLE_PATH\<close>.\<close>

definition findMTG :: "HostEnv \<Rightarrow> string \<Rightarrow> string" where
  "findMTG env getenv =
    (let p = trim_space getenv
     in if p \<noteq> [] \<and> he_exists env p then p
        else case find_program env [''/usr/local/bin/mtg'', ''/usr/bin/mtg''] ''mtg'' of Some q \<Rightarrow> q | None \<Rightarrow> [])"

definition mt_CheckDeps :: "HostEnv \<Rightarrow> string \<Rightarrow> string option" where
  "mt_CheckDeps env getenv = (if findMTG env getenv = [] then Some ''mtg binary is not installed on this node'' else None)"

definition mt_DetectVersion :: "HostEnv \<Rightarrow> string \<Rightarrow> string" where
  "mt_DetectVersion env getenv =
    (let bin = findMTG env getenv
     in if bin = [] then ''unknown''
        else let fields = str_fields (snd (he_Output env [bin, ''--version'']))
             in if fields \<noteq> [] then last fields else ''unknown'')"

record MTProto =
  mp_config :: MtConfig
  mp_secret :: string
  mp_sup :: Supervised

text \<open>The secret a user asks for, if any.\<close>

definition mt_wants :: "MtConfig \<Rightarrow> UserPtr \<Rightarrow> string option" where
  "mt_wants c u =
    (case GetProxies u of
       None \<Rightarrow> None
     | Some px \<Rightarrow>
         (case px_Mtproto px of
            None \<Rightarrow> None
          | Some m \<Rightarrow> if mt_Secret m = [] \<or> mc_InboundTag c \<notin> set (GetInbounds u) then None else Some (mt_Secret m)))"

fun first_secret :: "MtConfig \<Rightarrow> UserPtr list \<Rightarrow> string" where
  "first_secret c [] = []"
| "first_secret c (u # us) = (case mt_wants c u of None \<Rightarrow> first_secret c us | Some s \<Rightarrow> s)"

definition pickSecret :: "MtConfig \<Rightarrow> UserPtr list \<Rightarrow> string" where
  "pickSecret c users = (if trim_space (mc_Secret c) \<noteq> [] then trim_space (mc_Secret c) else first_secret c users)"

definition mt_start :: "HostEnv \<Rightarrow> string \<Rightarrow> MTProto \<Rightarrow> string option \<times> MTProto" where
  "mt_start env getenv o0 =
    (let bin = findMTG env getenv
     in if bin = [] then (Some ''mtg binary not found'', o0)
        else if mp_secret o0 = [] then (Some ''mtproto secret is required'', o0)
        else let bind = ''0.0.0.0:'' @ show_int (mc_Port (mp_config o0))
             in case sv_launch ''start mtg: '' (he_Start env [bin, ''run'', mp_secret o0, ''-b'', bind]) (mp_sup o0) of
                  (r, s1) \<Rightarrow> (r, o0\<lparr>mp_sup := s1\<rparr>))"

definition mt_New :: "HostEnv \<Rightarrow> string \<Rightarrow> string \<Rightarrow> MtConfig option \<Rightarrow> UserPtr list \<Rightarrow> string + MTProto" where
  "mt_New env getenv generated cfg users =
    (case cfg of
       None \<Rightarrow> Inl ''mtproto config must not be nil''
     | Some c0 \<Rightarrow>
         let c = c0\<lparr>mc_workDir := he_Join env [generated, ''mtproto'', mc_InboundTag c0]\<rparr>
         in case mt_start env getenv \<lparr>mp_config = c, mp_secret = pickSecret c users, mp_sup = sv_new\<rparr> of
              (Some e, _) \<Rightarrow> Inl e
            | (None, o1) \<Rightarrow> Inr o1)"

definition mt_Shutdown :: "nat list \<Rightarrow> MTProto \<Rightarrow> MTProto" where
  "mt_Shutdown reaped o0 = o0\<lparr>mp_sup := sv_Shutdown reaped (mp_sup o0)\<rparr>"

definition mt_Restart :: "HostEnv \<Rightarrow> string \<Rightarrow> nat list \<Rightarrow> MTProto \<Rightarrow> string option \<times> MTProto" where
  "mt_Restart env getenv reaped o0 =
    mt_start env getenv (o0\<lparr>mp_sup := sv_renew (sv_Shutdown reaped (mp_sup o0))\<rparr>)"

definition mt_SyncUser :: "HostEnv \<Rightarrow> string \<Rightarrow> nat list \<Rightarrow> UserPtr \<Rightarrow> MTProto \<Rightarrow> string option \<times> MTProto" where
  "mt_SyncUser env getenv reaped u o0 =
    (case mt_wants (mp_config o0) u of
       None \<Rightarrow> (None, o0)
     | Some s \<Rightarrow> if mp_secret o0 \<noteq> s then mt_Restart env getenv reaped (o0\<lparr>mp_secret := s\<rparr>) else (None, o0))"

definition mt_SyncUsers :: "HostEnv \<Rightarrow> string \<Rightarrow> nat list \<Rightarrow> UserPtr list \<Rightarrow> MTProto \<Rightarrow> string option \<times> MTProto" where
  "mt_SyncUsers env getenv reaped users o0 =
    (let sec = pickSecret (mp_config o0) users
     in if sec \<noteq> [] \<and> sec \<noteq> mp_secret o0 then mt_Restart env getenv reaped (o0\<lparr>mp_secret := sec\<rparr>) else (None, o0))"

definition mt_UpdateUsers :: "HostEnv \<Rightarrow> string \<Rightarrow> nat list \<Rightarrow> UserPtr list \<Rightarrow> MTProto \<Rightarrow> string option \<times> MTProto" where
  "mt_UpdateUsers env getenv reaped users o0 = mt_SyncUsers env getenv reaped users o0"

definition mt_UpdateUsersAndRestart :: "HostEnv \<Rightarrow> string \<Rightarrow> nat list \<Rightarrow> UserPtr list \<Rightarrow> MTProto \<Rightarrow> string option \<times> MTProto" where
  "mt_UpdateUsersAndRestart env getenv reaped users o0 =
    mt_Restart env getenv reaped (o0\<lparr>mp_secret := pickSecret (mp_config o0) users\<rparr>)"

definition mt_GetStats :: "MTProto \<Rightarrow> string + Stat list" where
  "mt_GetStats o0 = (if \<not> sv_Started (mp_sup o0) then Inl ''mtproto not started'' else Inr [])"

definition mt_GetUserOnlineStats :: "string \<Rightarrow> OnlineStatResponse" where
  "mt_GetUserOnlineStats email = \<lparr>on_Name = email, on_Value = 0\<rparr>"

definition mt_GetUserOnlineIpListStats :: "string \<Rightarrow> StatsOnlineIpListResponse" where
  "mt_GetUserOnlineIpListStats email = \<lparr>oi_Name = email, oi_Ips = Map.empty, oi_IpProtocol = Map.empty\<rparr>"

section \<open>The name of the tunnel\<close>

lemma runes_concat: "concat (runes s) = s"
  by (induction s rule: runes.induct) simp_all

lemma sanitize_rune_ok: "is_alnum (sanitize_rune r) \<or> sanitize_rune r = CHR ''-''"
  by (auto simp: sanitize_rune_def split: list.split)

lemma rune_width_ascii: "byte_of c < 128 \<Longrightarrow> rune_width (c # cs) = 1"
  by (simp add: rune_width_def Let_def split: list.split)

lemma runes_ascii: "\<forall>c \<in> set s. byte_of c < 128 \<Longrightarrow> runes s = map (\<lambda>c. [c]) s"
  by (induction s) (simp_all add: rune_width_ascii)

lemma alnum_ascii: "is_alnum c \<Longrightarrow> byte_of c < 128"
  by (auto simp: is_alnum_def)

lemma runes_empty: "runes s = [] \<longleftrightarrow> s = []"
  by (cases s) simp_all

lemma sanitize_alt: "sanitize s = (if s = [] then ''tun'' else map sanitize_rune (take 12 (runes s)))"
  by (simp add: sanitize_def Let_def runes_empty take_map)

text \<open>Tags of ASCII letters and digits are kept up to their twelfth character.\<close>

lemma sanitize_plain: "\<forall>c \<in> set s. is_alnum c \<Longrightarrow> s \<noteq> [] \<Longrightarrow> sanitize s = take 12 s"
  using runes_ascii [of s] alnum_ascii by (auto simp: sanitize_def sanitize_rune_def Let_def map_idI comp_def)

section \<open>Properties\<close>

text \<open>The name of a GRE interface has between five and sixteen characters, all of them letters, digits and dashes.\<close>

theorem gre_iface_chars:
  "sanitize tag \<noteq> [] \<and> length (''gre-'' @ sanitize tag) \<le> 16 \<and> (\<forall>c \<in> set (''gre-'' @ sanitize tag). is_alnum c \<or> c = CHR ''-'')"
proof -
  have ok: "\<forall>c \<in> set (map sanitize_rune rs). is_alnum c \<or> c = CHR ''-''" for rs
    using sanitize_rune_ok by auto
  have "\<forall>c \<in> set ''gre-tun''. is_alnum c \<or> c = CHR ''-''" by (simp add: is_alnum_def byte_of_def)
  then have "\<forall>c \<in> set (sanitize tag). is_alnum c \<or> c = CHR ''-''" "\<forall>c \<in> set ''gre-''. is_alnum c \<or> c = CHR ''-''"
    using ok by (simp_all add: sanitize_alt)
  then have "\<forall>c \<in> set (''gre-'' @ sanitize tag). is_alnum c \<or> c = CHR ''-''" by (simp only: set_append ball_Un simp_thms)
  moreover have "sanitize tag \<noteq> []" "length (sanitize tag) \<le> 12" using runes_empty [of tag] by (auto simp: sanitize_alt)
  ultimately show ?thesis by (simp only: length_append list.size) simp
qed

text \<open>Two GRE cores whose tags agree in their first twelve letters and digits use the same interface name, and
  that name has sixteen characters, one more than the kernel accepts for an interface.\<close>

theorem gre_iface_clash:
  assumes "\<forall>c \<in> set (t @ a @ b). is_alnum c" and "length t = 12"
  shows "sanitize (t @ a) = sanitize (t @ b) \<and> length (''gre-'' @ sanitize (t @ a)) = 16"
proof -
  have "\<forall>c \<in> set (t @ a). is_alnum c" "\<forall>c \<in> set (t @ b). is_alnum c" "t \<noteq> []" using assms by auto
  then show ?thesis using assms(2) sanitize_plain [of "t @ a"] sanitize_plain [of "t @ b"] by simp
qed

theorem gre_iface_clash_witness:
  "sanitize ''frankfurtgre1'' = sanitize ''frankfurtgre2'' \<and> length (''gre-'' @ sanitize ''frankfurtgre1'') = 16"
proof -
  have "\<forall>c \<in> set (''frankfurtgre'' @ ''1'' @ ''2''). is_alnum c" by (simp add: is_alnum_def byte_of_def)
  from gre_iface_clash [OF this] show ?thesis by auto
qed

text \<open>The secret in the configuration of an MTProto core decides at every start and full synchronisation, but the
  update of one user with another secret restarts the daemon with the secret of that user; and a full
  synchronisation without any user never takes the secret of a user back.\<close>

theorem mt_secret_follows:
  assumes "mt_wants (mp_config o0) u = Some s"
  shows "(trim_space (mc_Secret (mp_config o0)) \<noteq> [] \<longrightarrow> pickSecret (mp_config o0) users = trim_space (mc_Secret (mp_config o0))) \<and>
    mp_secret (snd (mt_SyncUser env getenv reaped u o0)) = s \<and>
    (trim_space (mc_Secret (mp_config o0)) = [] \<longrightarrow> mt_SyncUsers env getenv reaped2 [] o0 = (None, o0))"
proof -
  have keep: "mp_secret (snd (mt_Restart env getenv r x)) = mp_secret x" for r x
    by (simp add: mt_Restart_def mt_start_def Let_def split: prod.split)
  then show ?thesis
    using assms by (simp add: pickSecret_def mt_SyncUser_def mt_SyncUsers_def Let_def)
qed

theorem mt_secret_follows_witness:
  "mp_secret (snd (mt_SyncUser
     \<lparr>he_MkdirAll = (\<lambda>_. None), he_WriteFile = (\<lambda>_ _. None), he_exists = (\<lambda>_. False), he_LookPath = (\<lambda>_. Some ''/bin/mtg''),
      he_Start = (\<lambda>_. Inr 8), he_Run = (\<lambda>_ _. None), he_Output = (\<lambda>_. (None, [])), he_Join = concat, he_order = (\<lambda>_. [])\<rparr> [] [7]
     (Some \<lparr>u_Email = ''1.ann'', u_Proxies = Some (empty_Proxy\<lparr>px_Mtproto := Some \<lparr>mt_Secret = ''ee02''\<rparr>\<rparr>), u_Inbounds = [''mt''],
            u_IpLimit = 0, u_SpeedLimit = 0\<rparr>)
     \<lparr>mp_config = \<lparr>mc_InboundTag = ''mt'', mc_Port = 443, mc_Secret = ''ee01'', mc_workDir = []\<rparr>, mp_secret = ''ee01'',
      mp_sup = sv_started 7 sv_new\<rparr>)) = ''ee02''"
  by (rule mt_secret_follows [THEN conjunct2, THEN conjunct1]) (simp add: mt_wants_def go_defs)

end
