(* ===== verification/PppConfigCorrect.thy ===== *)
theory PppConfigCorrect
  imports PppConfig
begin

unbundle bit_operations_syntax

text \<open>
  The address range of the L2TP and PPTP back ends: which addresses \<open>poolRange\<close> hands out for a pool, when the
  default address of the server is one of them, and what the start and restart of a PPTP core leave in the shared
  secrets file.
\<close>

section \<open>Addresses as numbers\<close>

definition ip_bytes :: "u32 \<Rightarrow> u8 list" where
  "ip_bytes x = [ucast (drop_bit 24 x), ucast (drop_bit 16 x), ucast (drop_bit 8 x), ucast x]"

fun val_rev :: "u8 list \<Rightarrow> nat" where
  "val_rev [] = 0"
| "val_rev (b # bs) = unat b + 256 * val_rev bs"

lemma unat_u8: "unat (b :: u8) < 256"
  using unsigned_less [of b] by simp

lemma unat_u32_bound: "unat (x :: u32) < 4294967296"
  using unsigned_less [of x] by simp

lemma val_rev_bound: "val_rev bs < 256 ^ length bs"
proof (induction bs)
  case (Cons b bs)
  have "unat b + 256 * val_rev bs < 256 * (val_rev bs + 1)" using unat_u8 [of b] by simp
  also have "\<dots> \<le> 256 * 256 ^ length bs" using Cons by simp
  finally show ?case by simp
qed simp

lemma unat_inc8: "(b :: u8) + 1 \<noteq> 0 \<Longrightarrow> unat (b + 1) = unat b + 1"
  by (metis Suc_eq_plus1 unatSuc add.commute)

lemma inc8_wrap: "(b :: u8) + 1 = 0 \<Longrightarrow> unat b = 255"
proof -
  assume "b + 1 = 0"
  then have "b = - 1" by (simp add: eq_neg_iff_add_eq_0)
  then show ?thesis by (simp add: unsigned_minus_1_eq_mask mask_eq_exp_minus_1)
qed

lemma val_rev_inc: "val_rev (inc_rev bs) = (val_rev bs + 1) mod 256 ^ length bs"
proof (induction bs)
  case (Cons b bs)
  show ?case
  proof (cases "b + 1 \<noteq> 0")
    case True
    have "val_rev (inc_rev (b # bs)) = val_rev (b # bs) + 1" using True by (simp add: unat_inc8)
    moreover have "\<dots> < 256 ^ length (b # bs)"
      using val_rev_bound [of "(b + 1) # bs"] True by (simp add: unat_inc8)
    ultimately show ?thesis by simp
  next
    case False
    then have "unat b = 255" by (simp add: inc8_wrap)
    then have "val_rev (b # bs) + 1 = 256 * (val_rev bs + 1)" by simp
    moreover have "val_rev (inc_rev (b # bs)) = 256 * ((val_rev bs + 1) mod 256 ^ length bs)" using False Cons by simp
    ultimately show ?thesis by (simp add: mult_mod_right)
  qed
qed simp

lemma val_rev_dec: "val_rev (dec_rev bs) = (val_rev bs + 256 ^ length bs - 1) mod 256 ^ length bs"
proof (induction bs)
  case (Cons b bs)
  let ?n = "256 ^ length bs :: nat"
  have pos: "0 < ?n" by simp
  show ?case
  proof (cases "b = 0")
    case False
    have u: "unat (b - 1) = unat b - 1" "0 < unat b"
      using False by (simp_all add: unat_minus_one unat_gt_0)
    then have "val_rev (dec_rev (b # bs)) = val_rev (b # bs) - 1" using False by simp
    moreover have "val_rev (b # bs) + 256 * ?n - 1 = (val_rev (b # bs) - 1) + 256 * ?n" using u by simp
    moreover have "val_rev (b # bs) - 1 < 256 * ?n" using val_rev_bound [of "b # bs"] by simp
    then have "((val_rev (b # bs) - 1) + 256 * ?n) mod (256 * ?n) = val_rev (b # bs) - 1"
      by (simp only: mod_add_self2 mod_less)
    ultimately show ?thesis by (simp only: list.size power_Suc add_Suc_right plus_nat.add_0 add_0_right)
  next
    case True
    have "val_rev (dec_rev (b # bs)) = 255 + 256 * ((val_rev bs + ?n - 1) mod ?n)" using True Cons by simp
    also have "\<dots> = (255 + 256 * (val_rev bs + ?n - 1)) mod (256 * ?n)"
    proof -
      have m: "(val_rev bs + ?n - 1) mod ?n < ?n" by simp
      have "(255 + 256 * (val_rev bs + ?n - 1)) mod (256 * ?n) = (255 + 256 * ((val_rev bs + ?n - 1) mod ?n)) mod (256 * ?n)"
        by (metis mod_add_right_eq mult_mod_right)
      also have "\<dots> = 255 + 256 * ((val_rev bs + ?n - 1) mod ?n)" using m by (intro mod_less) linarith
      finally show ?thesis by simp
    qed
    also have "255 + 256 * (val_rev bs + ?n - 1) = val_rev (b # bs) + 256 ^ length (b # bs) - 1"
    proof -
      have "255 + 256 * (v + N - 1) = 256 * v + 256 * N - 1" if "0 < N" for v N :: nat
        using that by arith
      from this [OF pos] True show ?thesis by simp
    qed
    finally show ?thesis by simp
  qed
qed simp

lemma inc_rev_length [simp]: "length (inc_rev bs) = length bs"
  by (induction bs rule: inc_rev.induct) auto

lemma dec_rev_length [simp]: "length (dec_rev bs) = length bs"
  by (induction bs rule: dec_rev.induct) auto

lemma val_rev_inj: "length bs = length cs \<Longrightarrow> val_rev bs = val_rev cs \<Longrightarrow> bs = cs"
proof (induction bs cs rule: list_induct2)
  case (Cons b bs c cs)
  have "unat b = val_rev (b # bs) mod 256" "unat c = val_rev (c # cs) mod 256"
    using unat_u8 [of b] unat_u8 [of c] by simp_all
  then have "b = c" using Cons.prems by (metis word_unat_eq_iff)
  with Cons show ?case by simp
qed simp

lemma unat_byte: "unat (ucast (drop_bit n (x :: u32)) :: u8) = unat x div 2 ^ n mod 256"
proof -
  have "take_bit 32 (unat x) = unat x" using unat_u32_bound [of x] by (simp add: take_bit_nat_eq_self)
  then have "unat (drop_bit n x) = unat x div 2 ^ n"
    by (simp only: unsigned_drop_bit_eq drop_bit_nat_def len_num1 len_bit0 len_bit1 num_double mult_1_right) simp
  then show ?thesis by (simp only: unsigned_ucast_eq take_bit_eq_mod) simp
qed

lemma val_ip_bytes: "val_rev (rev (ip_bytes x)) = unat x"
proof -
  define n where "n = unat x"
  have n: "n < 4294967296" unfolding n_def by (rule unat_u32_bound)
  define q1 q2 q3 where "q1 = n div 256" and "q2 = q1 div 256" and "q3 = q2 div 256"
  have q: "n div 2 ^ 8 = q1" "n div 2 ^ 16 = q2" "n div 2 ^ 24 = q3"
    by (simp_all add: q1_def q2_def q3_def div_mult2_eq [symmetric])
  have "q3 < 256" using n by (simp add: q1_def q2_def q3_def div_mult2_eq [symmetric] less_mult_imp_div_less)
  then have "n mod 256 + 256 * (q1 mod 256 + 256 * (q2 mod 256 + 256 * (q3 mod 256))) = n"
    using mod_mult_div_eq [of n 256] mod_mult_div_eq [of q1 256] mod_mult_div_eq [of q2 256] mod_less [of q3 256]
    unfolding q1_def [symmetric] q2_def [symmetric] q3_def [symmetric] by simp
  then have "unat x mod 256 + 256 * (unat x div 2 ^ 8 mod 256 + 256 * (unat x div 2 ^ 16 mod 256 + 256 * (unat x div 2 ^ 24 mod 256))) = unat x"
    unfolding n_def [symmetric] q .
  moreover have "unat (ucast x :: u8) = unat x mod 256" using unat_byte [of 0 x] by simp
  ultimately show ?thesis
    by (simp only: ip_bytes_def rev.simps append.simps val_rev.simps unat_byte mult_0_right add_0_right)
qed

lemma ip_bytes_length [simp]: "length (ip_bytes x) = 4"
  by (simp add: ip_bytes_def)

lemma ip_bytes_eqI: "length bs = 4 \<Longrightarrow> val_rev (rev bs) = unat x \<Longrightarrow> bs = ip_bytes x"
  using val_rev_inj [of "rev bs" "rev (ip_bytes x)"] by (simp add: val_ip_bytes)

lemma inc_ip: "inc (ip_bytes x) = ip_bytes (x + 1)"
proof (rule ip_bytes_eqI)
  have "val_rev (rev (inc (ip_bytes x))) = (unat x + 1) mod 4294967296"
    by (simp add: inc_def val_rev_inc val_ip_bytes)
  also have "\<dots> = unat (x + 1)" by (simp add: unat_word_ariths)
  finally show "val_rev (rev (inc (ip_bytes x))) = unat (x + 1)" .
qed (simp add: inc_def)

lemma dec_ip: "dec (ip_bytes x) = ip_bytes (x - 1)"
proof (rule ip_bytes_eqI)
  have "val_rev (rev (dec (ip_bytes x))) = (unat x + 4294967296 - 1) mod 4294967296"
    by (simp add: dec_def val_rev_dec val_ip_bytes)
  also have "\<dots> = unat (x - 1)"
  proof (cases "x = 0")
    case False
    then have "0 < unat x" by (simp add: unat_gt_0)
    then have "unat x + 4294967296 - 1 = (unat x - 1) + 4294967296" by simp
    moreover have "unat x - 1 < 4294967296" using unat_u32_bound [of x] by simp
    ultimately have "(unat x + 4294967296 - 1) mod 4294967296 = unat x - 1" by (simp only: mod_add_self2 mod_less)
    then show ?thesis using False by (simp only: unat_minus_one not_False_eq_True)
  qed (simp add: unsigned_minus_1_eq_mask mask_eq_exp_minus_1)
  finally show "val_rev (rev (dec (ip_bytes x))) = unat (x - 1)" .
qed (simp add: dec_def)

lemma val_rev_snoc: "val_rev (xs @ [b]) = val_rev xs + 256 ^ length xs * unat b"
  by (induction xs) simp_all

lemma bytesCompare_val:
  "length as = length bs \<Longrightarrow> bytesCompare as bs > 0 \<longleftrightarrow> val_rev (rev bs) < val_rev (rev as)"
proof (induction as bs rule: list_induct2)
  case (Cons a as b bs)
  let ?n = "256 ^ length as :: nat"
  have bound: "val_rev (rev as) < ?n" "val_rev (rev bs) < ?n"
    using val_rev_bound [of "rev as"] val_rev_bound [of "rev bs"] Cons by simp_all
  have ord: "x + ?n * m < y + ?n * m'" if "m < m'" "x < ?n" for x y m m' :: nat
  proof -
    have "x + ?n * m < ?n * Suc m" using that(2) by simp
    also have "\<dots> \<le> ?n * m'" using that(1) by (intro mult_le_mono2) simp
    finally show ?thesis by simp
  qed
  show ?case
  proof (cases "a = b")
    case True
    then show ?thesis using Cons by (simp add: val_rev_snoc)
  next
    case False
    show ?thesis
    proof (cases "a < b")
      case True
      then have "unat a < unat b" by (simp add: word_less_nat_alt)
      from ord [OF this bound(1), of "val_rev (rev bs)"] True False Cons show ?thesis by (simp add: val_rev_snoc)
    next
      case f: False
      with False have "unat b < unat a" by (simp add: word_less_nat_alt word_unat_eq_iff)
      from ord [OF this bound(2), of "val_rev (rev as)"] f False Cons show ?thesis by (simp add: val_rev_snoc)
    qed
  qed
qed simp

lemma bytesCompare_ip: "bytesCompare (ip_bytes x) (ip_bytes y) > 0 \<longleftrightarrow> y < x"
  by (simp add: bytesCompare_val val_ip_bytes word_less_nat_alt)

lemma and_ip: "map2 (AND) (ip_bytes x) (ip_bytes y) = ip_bytes (x AND y)"
  unfolding ip_bytes_def by (simp, intro conjI; rule bit_word_eqI; simp add: bit_simps)

lemma or_not_ip: "map2 (\<lambda>n m. n OR NOT m) (ip_bytes x) (ip_bytes y) = ip_bytes (x OR NOT y)"
  unfolding ip_bytes_def by (simp, intro conjI; rule bit_word_eqI; auto simp add: bit_simps)

section \<open>Pools\<close>

text \<open>The network and the broadcast address of a pool with \<open>k\<close> host bits.\<close>

definition pool_net :: "u32 \<Rightarrow> nat \<Rightarrow> u32" where
  "pool_net a k = a AND NOT (mask k)"

definition pool_bcast :: "u32 \<Rightarrow> nat \<Rightarrow> u32" where
  "pool_bcast a k = pool_net a k OR mask k"

lemma pool_net_push: "pool_net a k = push_bit k (drop_bit k a)"
  unfolding pool_net_def by (rule bit_word_eqI) (auto simp: bit_simps)

lemma unat_pool_net:
  assumes "k \<le> 32"
  shows "unat (pool_net a k) = unat a div 2 ^ k * 2 ^ k"
proof -
  have "pool_net a k + take_bit k a = a" unfolding pool_net_push by (rule bits_ident)
  then have e: "pool_net a k = a - take_bit k a" by (metis add_diff_cancel_right')
  have "unat (take_bit k a) = take_bit k (unat a)" by (rule unsigned_take_bit_eq)
  then have t: "unat (take_bit k a) = unat a mod 2 ^ k" by (simp add: take_bit_nat_def)
  have "take_bit k a \<le> a" by (simp add: word_le_nat_alt t)
  then have "unat (pool_net a k) = unat a - unat a mod 2 ^ k" by (simp add: e unat_sub t)
  then show ?thesis by (simp add: minus_mod_eq_div_mult)
qed

lemma pool_net_room:
  assumes "k \<le> 32"
  shows "unat (pool_net a k) + 2 ^ k \<le> 2 ^ 32"
proof -
  have "unat a div 2 ^ k < 2 ^ (32 - k)"
    using unat_u32_bound [of a] assms by (simp add: less_mult_imp_div_less power_add [symmetric])
  then have "(unat a div 2 ^ k + 1) * 2 ^ k \<le> 2 ^ (32 - k) * 2 ^ k" by (intro mult_le_mono1) simp
  also have "\<dots> = 2 ^ 32" using assms by (simp add: power_add [symmetric])
  finally show ?thesis by (simp add: unat_pool_net [OF assms])
qed

lemma unat_pool_bcast:
  assumes "k \<le> 32"
  shows "unat (pool_bcast a k) = unat (pool_net a k) + (2 ^ k - 1)"
proof -
  have "pool_bcast a k = pool_net a k + mask k"
    unfolding pool_bcast_def pool_net_def by (rule disjunctive_add [symmetric]) (auto simp: bit_simps)
  moreover have "unat (mask k :: u32) = 2 ^ k - 1"
  proof -
    have "(mask k :: u32) = of_nat (mask k)" by (simp add: of_nat_mask_eq)
    then have "unat (mask k :: u32) = take_bit 32 (mask k)" by (simp only: unsigned_of_nat) simp
    also have "\<dots> = mask k" using assms by (simp add: min_absorb2)
    also have "\<dots> = 2 ^ k - 1" by (rule mask_eq_exp_minus_1)
    finally show ?thesis .
  qed
  moreover have "unat (pool_net a k) + (2 ^ k - 1) < 2 ^ 32"
  proof -
    have "0 < (2 :: nat) ^ k" by simp
    then show ?thesis using pool_net_room [OF assms, of a] by linarith
  qed
  ultimately show ?thesis by (simp add: unat_add_lem [THEN iffD1])
qed

lemma poolRange_ip:
  assumes "ParseCIDR (trim_space pool) = Some (Some (ip_bytes a), ip_bytes (NOT (mask k)))"
  shows "poolRange ParseCIDR pool localIP =
    (if pool_bcast a k - 1 < pool_net a k + 2 then (localIP, localIP)
     else (ip_String (ip_bytes (pool_net a k + 2)), ip_String (ip_bytes (pool_bcast a k - 1))))"
proof -
  have "x + 1 + 1 = x + (2 :: u32)" for x by (simp add: add.assoc)
  then show ?thesis
    using assms by (simp add: poolRange_def and_ip or_not_ip inc_ip dec_ip bytesCompare_ip Let_def
        pool_net_def [symmetric] pool_bcast_def [symmetric] add.commute)
qed

lemma pool_bounds:
  assumes "2 \<le> k" "k \<le> 32"
  shows "unat (pool_net a k + 2) = unat (pool_net a k) + 2"
    and "unat (pool_bcast a k - 1) = unat (pool_net a k) + 2 ^ k - 2"
    and "unat (pool_net a k) + 4 \<le> unat (pool_net a k) + 2 ^ k"
proof -
  have four: "4 \<le> (2 :: nat) ^ k" using power_increasing [of 2 k "2 :: nat"] assms by simp
  have room: "unat (pool_net a k) + 2 ^ k \<le> 4294967296" using pool_net_room [OF assms(2), of a] by simp
  show "unat (pool_net a k + 2) = unat (pool_net a k) + 2"
    using four room by (simp add: unat_word_ariths)
  have b: "unat (pool_bcast a k) = unat (pool_net a k) + (2 ^ k - 1)" by (rule unat_pool_bcast [OF assms(2)])
  then have "pool_bcast a k \<noteq> 0" using four by (auto simp: word_unat_eq_iff)
  then show "unat (pool_bcast a k - 1) = unat (pool_net a k) + 2 ^ k - 2" using b four by (simp add: unat_minus_one)
  show "unat (pool_net a k) + 4 \<le> unat (pool_net a k) + 2 ^ k" using four by simp
qed

lemma poolRange_room:
  assumes "ParseCIDR (trim_space pool) = Some (Some (ip_bytes a), ip_bytes (NOT (mask k)))" and "2 \<le> k" and "k \<le> 32"
  shows "poolRange ParseCIDR pool localIP =
    (ip_String (ip_bytes (pool_net a k + 2)), ip_String (ip_bytes (pool_bcast a k - 1)))"
proof -
  have "\<not> pool_bcast a k - 1 < pool_net a k + 2" using pool_bounds [OF assms(2,3), of a] by (simp add: word_less_nat_alt)
  then show ?thesis using poolRange_ip [of ParseCIDR pool a k, OF assms(1)] by simp
qed

section \<open>The default address of the server\<close>

lemma digit_not: "c \<in> set (show_dec n) \<Longrightarrow> c \<noteq> CHR ''.'' \<and> c \<noteq> CHR ''/'' \<and> \<not> is_space c"
proof -
  assume "c \<in> set (show_dec n)"
  then obtain d where d: "c = digit_char d" "d < 10" using show_dec_chars by fastforce
  then have "of_char c = 48 + d" by (simp add: digit_char_def)
  then have "of_char c \<noteq> (46 :: nat)" "of_char c \<noteq> (47 :: nat)" "(of_char c :: nat) > 32" by simp_all
  then show ?thesis by (auto simp: is_space_def)
qed

text \<open>The text of an address and of a pool, as a panel writes them.\<close>

definition ip_text :: "u32 \<Rightarrow> string" where
  "ip_text a = ip_String (ip_bytes a)"

lemma ip_text_split: "split_at_char (CHR ''.'') (ip_text a) = map (\<lambda>b. show_dec (unat b)) (ip_bytes a)"
proof -
  have "CHR ''.'' \<notin> set (show_dec n)" for n using digit_not by blast
  then show ?thesis
    by (simp add: ip_text_def ip_String_def ip_bytes_def split_at_char_append split_at_char_plain)
qed

lemma ip_text_chars: "c \<in> set (ip_text a) \<Longrightarrow> c \<noteq> CHR ''/'' \<and> \<not> is_space c"
proof -
  have "\<not> is_space (CHR ''.'')" by (simp add: is_space_def)
  moreover assume "c \<in> set (ip_text a)"
  ultimately show ?thesis
    using digit_not by (auto simp: ip_text_def ip_String_def ip_bytes_def)
qed

lemma trim_space_plain: "\<forall>c \<in> set s. \<not> is_space c \<Longrightarrow> trim_space s = s"
proof -
  have d: "dropWhile is_space t = t" if "\<forall>c \<in> set t. \<not> is_space c" for t
    using that by (cases t) auto
  assume "\<forall>c \<in> set s. \<not> is_space c"
  then show ?thesis using d [of s] d [of "rev s"] by (simp add: trim_space_def)
qed

lemma firstHost_text: "firstHost (ip_text a @ ''/'' @ show_dec n) = ip_text (pool_net a 8 OR 1)"
proof -
  have "\<not> is_space (CHR ''/'')" by (simp add: is_space_def)
  then have "trim_space (ip_text a @ ''/'' @ show_dec n) = ip_text a @ ''/'' @ show_dec n"
    using ip_text_chars digit_not by (intro trim_space_plain) auto
  moreover have "takeWhile (\<lambda>c. c \<noteq> CHR ''/'') (ip_text a @ ''/'' @ show_dec n) = ip_text a"
    using ip_text_chars by (simp add: takeWhile_append takeWhile_eq_all_conv [THEN iffD2])
  moreover have "ip_bytes (pool_net a 8 OR 1) = (ip_bytes a)[3 := 1]"
    unfolding ip_bytes_def pool_net_def by (simp, intro conjI; rule bit_word_eqI; auto simp add: bit_simps)
  moreover have "show_dec 1 = ''1''" by code_simp
  moreover have "ip_text (pool_net a 8 OR 1) = str_join ''.'' ((map (\<lambda>b. show_dec (unat b)) (ip_bytes a))[3 := ''1''])"
    using calculation(3,4) by (simp add: ip_text_def ip_String_def map_update)
  ultimately show ?thesis
    by (simp only: firstHost_def Let_def ip_text_split length_map ip_bytes_length) simp
qed

lemma pool_net_eq_iff:
  assumes "k \<le> 32"
  shows "pool_net x k = pool_net a k \<longleftrightarrow> unat (pool_net a k) \<le> unat x \<and> unat x < unat (pool_net a k) + 2 ^ k"
proof -
  define q r where "q = unat a div 2 ^ k" and "r = unat x div 2 ^ k"
  have pos: "0 < (2 :: nat) ^ k" by simp
  have x: "unat x = r * 2 ^ k + unat x mod 2 ^ k" "unat x mod 2 ^ k < 2 ^ k"
    using pos by (simp_all only: r_def div_mult_mod_eq mod_less_divisor)
  have "pool_net x k = pool_net a k \<longleftrightarrow> r = q"
    using pos by (simp add: word_unat_eq_iff unat_pool_net [OF assms] q_def r_def)
  also have "\<dots> \<longleftrightarrow> q * 2 ^ k \<le> unat x \<and> unat x < q * 2 ^ k + 2 ^ k"
  proof
    assume "q * 2 ^ k \<le> unat x \<and> unat x < q * 2 ^ k + 2 ^ k"
    then have "q \<le> r" "r < q + 1"
      unfolding r_def using pos by (simp_all add: less_eq_div_iff_mult_less_eq div_less_iff_less_mult)
    then show "r = q" by simp
  next
    assume "r = q"
    with x show "q * 2 ^ k \<le> unat x \<and> unat x < q * 2 ^ k + 2 ^ k" by (metis le_add1 nat_add_left_cancel_less)
  qed
  finally show ?thesis by (simp add: unat_pool_net [OF assms] q_def)
qed

lemma range_minus:
  "n + 4 \<le> n + (p :: nat) \<Longrightarrow> n + 2 \<le> y \<and> y \<le> n + p - 2 \<longleftrightarrow>
    (n \<le> y \<and> y < n + p) \<and> y \<noteq> n \<and> y \<noteq> n + 1 \<and> y \<noteq> n + (p - 1)"
  by arith

section \<open>Properties\<close>

text \<open>For an IPv4 pool with at least two host bits the range given to xl2tpd and pptpd consists of exactly the
  addresses of the pool other than the network address, the one after it and the broadcast address.\<close>

theorem poolRange_exact:
  assumes "ParseCIDR (trim_space pool) = Some (Some (ip_bytes a), ip_bytes (NOT (mask k)))" and "2 \<le> k" and "k \<le> 32"
  shows "poolRange ParseCIDR pool localIP = (ip_text (pool_net a k + 2), ip_text (pool_bcast a k - 1)) \<and>
    (\<forall>x. pool_net a k + 2 \<le> x \<and> x \<le> pool_bcast a k - 1 \<longleftrightarrow>
      pool_net x k = pool_net a k \<and> x \<noteq> pool_net a k \<and> x \<noteq> pool_net a k + 1 \<and> x \<noteq> pool_bcast a k)"
proof (intro conjI allI)
  note b = pool_bounds [OF assms(2,3), of a] and bc = unat_pool_bcast [OF assms(3), of a]
  show "poolRange ParseCIDR pool localIP = (ip_text (pool_net a k + 2), ip_text (pool_bcast a k - 1))"
    using poolRange_room [of ParseCIDR pool a k, OF assms] by (simp add: ip_text_def)
  have one: "unat (pool_net a k + 1) = unat (pool_net a k) + 1"
    using b(3) pool_net_room [OF assms(3), of a] by (simp add: unat_word_ariths)
  fix x
  show "pool_net a k + 2 \<le> x \<and> x \<le> pool_bcast a k - 1 \<longleftrightarrow>
      pool_net x k = pool_net a k \<and> x \<noteq> pool_net a k \<and> x \<noteq> pool_net a k + 1 \<and> x \<noteq> pool_bcast a k"
    using range_minus [OF b(3)] by (simp add: pool_net_eq_iff [OF assms(3)] word_le_nat_alt word_unat_eq_iff [of x] b(1,2) bc one)
qed

theorem poolRange_exact_witness:
  "poolRange (\<lambda>_. Some (Some (ip_bytes 0x0A1F0000), ip_bytes (NOT (mask 8)))) ''10.31.0.0/24'' [] =
    (ip_text 0x0A1F0002, ip_text 0x0A1F00FE)"
proof -
  have "pool_net 0x0A1F0000 8 + 2 = 0x0A1F0002" "pool_bcast 0x0A1F0000 8 - 1 = 0x0A1F00FE"
    by (simp_all add: pool_net_def pool_bcast_def mask_eq_exp_minus_1)
  then show ?thesis
    using poolRange_exact [of "\<lambda>_. Some (Some (ip_bytes 0x0A1F0000), ip_bytes (NOT (mask 8)))" "''10.31.0.0/24''" "0x0A1F0000" 8 "[]"]
    by simp
qed

text \<open>The address the server takes by default is handed to clients too, exactly when the pool is not written with
  its own network address in the first three bytes: 10.31.7.0/16 gives the server 10.31.7.1 and the clients
  10.31.0.2 to 10.31.255.254, although the range is said to exclude the server.\<close>

theorem default_server_address:
  assumes "ParseCIDR (trim_space (l2_Pool c0)) = Some (Some (ip_bytes (pool_net a k)), ip_bytes (NOT (mask k)))"
    and "l2_Pool c0 = ip_text a @ ''/'' @ show_dec (32 - k)" and "8 \<le> k" and "k \<le> 32"
    and "decode configStr = Inr c0" and "l2_LocalIP c0 = []" and "l2tp_NewConfig decode configStr = Inr c"
  shows "\<exists>start server end'. poolRange ParseCIDR (l2_Pool c) (l2_LocalIP c) = (ip_text start, ip_text end') \<and>
    l2_LocalIP c = ip_text server \<and> (start \<le> server \<and> server \<le> end' \<longleftrightarrow> pool_net a 8 \<noteq> pool_net a k)"
proof -
  define l where "l = pool_net a 8 OR 1"
  have c: "l2_Pool c = l2_Pool c0" "l2_LocalIP c = firstHost (l2_Pool c0)"
    using assms(5-7) by (auto simp: l2tp_NewConfig_def split: if_splits)
  have loc: "l2_LocalIP c = ip_text l" by (simp only: c(2) assms(2) firstHost_text l_def)
  have l: "unat l = unat (pool_net a 8) + 1"
  proof -
    have "pool_net a 8 + 1 = l" unfolding l_def
      by (rule disjunctive_add) (auto simp: pool_net_def bit_simps)
    moreover have "unat (pool_net a 8 + 1) = unat (pool_net a 8) + 1"
      using pool_net_room [of 8 a] by (simp add: unat_word_ariths)
    ultimately show ?thesis by simp
  qed
  have idem: "pool_net (pool_net a k) k = pool_net a k"
    unfolding pool_net_def by (simp add: and.assoc)
  note b = pool_bounds [of k a] and four = assms(3,4)
  have p: "poolRange ParseCIDR (l2_Pool c) (l2_LocalIP c) = (ip_text (pool_net a k + 2), ip_text (pool_bcast a k - 1))"
  proof -
    have "pool_bcast (pool_net a k) k = pool_bcast a k" by (simp add: pool_bcast_def idem)
    then show ?thesis
      using poolRange_room [of ParseCIDR "l2_Pool c0" "pool_net a k" k, OF assms(1)] four by (simp add: c(1) idem ip_text_def)
  qed
  have nest: "unat (pool_net a k) \<le> unat (pool_net a 8)" "unat (pool_net a 8) + 256 \<le> unat (pool_net a k) + 2 ^ k"
  proof -
    define m where "m = unat a div 256"
    have j: "(2 :: nat) ^ k = 256 * 2 ^ (k - 8)"
      using power_add [of "2 :: nat" 8 "k - 8"] four by simp
    have n: "unat (pool_net a k) = m div 2 ^ (k - 8) * 2 ^ (k - 8) * 256" "unat (pool_net a 8) = m * 256"
      using unat_pool_net [of k a] unat_pool_net [of 8 a] four by (simp_all add: j div_mult2_eq m_def)
    have "m div 2 ^ (k - 8) * 2 ^ (k - 8) \<le> m" by simp
    then show "unat (pool_net a k) \<le> unat (pool_net a 8)" unfolding n by (rule mult_le_mono1)
    have "m < m div 2 ^ (k - 8) * 2 ^ (k - 8) + 2 ^ (k - 8)"
    proof -
      have "m mod 2 ^ (k - 8) < 2 ^ (k - 8)" by (rule mod_less_divisor) simp
      then show ?thesis by (metis div_mult_mod_eq nat_add_left_cancel_less)
    qed
    then have "(m + 1) * 256 \<le> (m div 2 ^ (k - 8) * 2 ^ (k - 8) + 2 ^ (k - 8)) * 256" by (intro mult_le_mono1) simp
    then show "unat (pool_net a 8) + 256 \<le> unat (pool_net a k) + 2 ^ k" unfolding n j by (simp add: algebra_simps)
  qed
  have "pool_net a 8 \<noteq> pool_net a k \<longleftrightarrow> unat (pool_net a k) + 1 < unat l"
    using nest(1) l by (auto simp: word_unat_eq_iff)
  then show ?thesis
    using p loc b four nest l by (intro exI [of _ "pool_net a k + 2"] exI [of _ l] exI [of _ "pool_bcast a k - 1"])
      (auto simp: word_le_nat_alt)
qed

definition lab_l2 :: L2Config where
  "lab_l2 = \<lparr>l2_InboundTag = ''l2tp'', l2_ServerAddr = [], l2_PSK = ''k'', l2_Pool = ip_text 0x0A1F0700 @ ''/'' @ show_dec 16, l2_LocalIP = [],
     l2_EgressInterface = [], l2_DNS = [], l2_IKEProposals = [], l2_ESPProposals = [], l2_workDir = []\<rparr>"

theorem default_server_address_witness:
  "\<exists>c start server end'. l2tp_NewConfig (\<lambda>_. Inr lab_l2) ''{}'' = Inr c \<and>
    poolRange (\<lambda>_. Some (Some (ip_bytes (pool_net 0x0A1F0700 16)), ip_bytes (NOT (mask 16)))) (l2_Pool c) (l2_LocalIP c) =
      (ip_text start, ip_text end') \<and> l2_LocalIP c = ip_text server \<and> start \<le> server \<and> server \<le> end'"
proof -
  let ?parse = "\<lambda>_. Some (Some (ip_bytes (pool_net 0x0A1F0700 16)), ip_bytes (NOT (mask 16)))"
  have ne: "l2_InboundTag lab_l2 \<noteq> []" "l2_PSK lab_l2 \<noteq> []" "l2_Pool lab_l2 \<noteq> []" "l2_LocalIP lab_l2 = []"
    by (simp_all add: lab_l2_def)
  have pool: "l2_Pool lab_l2 = ip_text 0x0A1F0700 @ ''/'' @ show_dec (32 - 16)" by (simp add: lab_l2_def)
  have "trim_space ''{}'' \<noteq> []" by (simp add: trim_space_def is_space_def)
  then obtain c where c: "l2tp_NewConfig (\<lambda>_. Inr lab_l2) ''{}'' = Inr c"
    using ne by (simp add: l2tp_NewConfig_def)
  have "pool_net 0x0A1F0700 8 \<noteq> pool_net 0x0A1F0700 16"
    by (simp add: pool_net_def mask_eq_exp_minus_1)
  with default_server_address [of ?parse lab_l2 "0x0A1F0700" 16 "\<lambda>_. Inr lab_l2" "''{}''" c, OF refl pool _ _ refl ne(4) c] c
  show ?thesis by auto
qed

section \<open>A PPTP core that does not start\<close>

lemma write_scripts_ok:
  assumes "he_MkdirAll env = (\<lambda>_. None)" "he_WriteFile env = (\<lambda>_ _. None)"
  shows "fst (write_scripts env scripts h) = None"
  using assms by (induction env scripts h rule: write_scripts.induct) (simp_all add: os_WriteFile_def)

lemma write_hooks_ok:
  assumes "he_MkdirAll env = (\<lambda>_. None)" "he_WriteFile env = (\<lambda>_ _. None)"
  shows "fst (write_hooks proto name dir env upFirst h) = None"
proof -
  have "\<exists>h1. write_scripts env scripts h = (None, h1)" for scripts
    using write_scripts_ok [OF assms, of scripts h] by (cases "write_scripts env scripts h") auto
  then obtain g where "\<And>scripts. write_scripts env scripts h = (None, g scripts)" by metis
  then show ?thesis using assms(1) by (simp only: write_hooks_def Let_def prod.case option.case fst_conv)
qed

lemma on_host_ok:
  assumes "fst (f (pw_host w)) = None"
  shows "\<exists>h. on_host f w = (None, w\<lparr>pw_host := h\<rparr>)"
  using assms by (cases "f (pw_host w)") (auto simp: on_host_def)

lemma pptp_writeConfig_ok:
  assumes "he_MkdirAll (pv_host env) = (\<lambda>_. None)" "he_WriteFile (pv_host env) = (\<lambda>_ _. None)"
  shows "\<exists>h. pptp_writeConfig env w =
    on_ppp (\<lambda>p. reloadUsers (pv_secrets env) (pv_order env (pp_users p)) p) (w\<lparr>pw_host := h\<rparr>)"
proof -
  let ?c = "pk_config (pw_core w)"
  let ?f1 = "on_host (\<lambda>h. (he_MkdirAll (pv_host env) (pt_workDir ?c), h)) :: _ PptpWorld \<Rightarrow> _"
    and ?f2 = "on_host (writePptpdConf (pv_host env) (pv_ParseCIDR env) (pv_split env) ?c) :: _ PptpWorld \<Rightarrow> _"
    and ?f3 = "on_host (pptp_writePPPOptions (pv_host env) ?c) :: _ PptpWorld \<Rightarrow> _"
    and ?f4 = "on_host (pptp_writeIPScripts (pv_host env) (pv_upFirst env)) :: _ PptpWorld \<Rightarrow> _"
  have wrote: "fst (os_WriteFile (pv_host env) path content h) = None" for path content h
    using assms(2) by (simp add: os_WriteFile_def)
  obtain h1 where 1: "?f1 w = (None, w\<lparr>pw_host := h1\<rparr>)" using on_host_ok assms(1) by (metis fst_conv)
  obtain h2 where 2: "?f2 (w\<lparr>pw_host := h1\<rparr>) = (None, w\<lparr>pw_host := h2\<rparr>)"
    using on_host_ok [of "writePptpdConf (pv_host env) (pv_ParseCIDR env) (pv_split env) ?c" "w\<lparr>pw_host := h1\<rparr>"] wrote
    by (auto simp: writePptpdConf_def)
  obtain h3 where 3: "?f3 (w\<lparr>pw_host := h2\<rparr>) = (None, w\<lparr>pw_host := h3\<rparr>)"
    using on_host_ok [of "pptp_writePPPOptions (pv_host env) ?c" "w\<lparr>pw_host := h2\<rparr>"] wrote
    by (auto simp: pptp_writePPPOptions_def)
  obtain h4 where 4: "?f4 (w\<lparr>pw_host := h3\<rparr>) = (None, w\<lparr>pw_host := h4\<rparr>)"
    using on_host_ok [of "pptp_writeIPScripts (pv_host env) (pv_upFirst env)" "w\<lparr>pw_host := h3\<rparr>"] write_hooks_ok [OF assms]
    by (auto simp: pptp_writeIPScripts_def)
  show ?thesis
    by (rule exI [of _ h4]) (simp add: pptp_writeConfig_def Let_def 1 2 3 4 split: prod.split option.split)
qed

text \<open>When pptpd cannot be started, the constructor returns its error without undoing what it has done: the logins of the core
  stay in the shared secrets file and the host routing of its pool stays installed, and no object is left whose
  shut-down would remove them.\<close>

theorem pptp_failed_start_leaves_logins:
  assumes "he_MkdirAll (pv_host env) = (\<lambda>_. None)" and "he_WriteFile (pv_host env) = (\<lambda>_ _. None)"
    and "he_Start (pv_host env) = (\<lambda>_. Inl err)" and "users = snd (pptp_replaceAll [] us (newUserStore (pt_InboundTag c0)))"
    and "pptp_writeChapSecrets (pv_secrets env) (pt_InboundTag c0) (pv_order env users) users secrets = (None, file)"
  shows "\<exists>w. pptp_New env generated (Some c0) us secrets h k = (Inl (''start pptpd: '' @ err), Some w) \<and>
    pp_secrets (pk_ppp (pw_core w)) = file \<and>
    (pk_routing (pw_core w), pw_kernel w) =
      pptp_applyHostRouting (pv_nat env) (pv_shell env) (pv_dec env) (pt_Pool c0) (pt_EgressInterface c0) k"
proof -
  define c where "c = c0\<lparr>pt_workDir := he_Join (pv_host env) [generated, ''pptp'', pt_InboundTag c0]\<rparr>"
  define w0 where "w0 = \<lparr>pw_core = \<lparr>pk_config = c, pk_ppp = new_PPTP (pt_InboundTag c) us secrets, pk_sup = sv_new, pk_routing = None\<rparr>,
    pw_host = h, pw_kernel = k\<rparr>"
  have c: "pt_InboundTag c = pt_InboundTag c0" "pt_Pool c = pt_Pool c0" "pt_EgressInterface c = pt_EgressInterface c0" by (simp_all add: c_def)
  have new: "pptp_New env generated (Some c0) us secrets h k =
      (case pptp_start env w0 of (Some e, w1) \<Rightarrow> (Inl e, Some w1) | (None, w1) \<Rightarrow> (Inr (), Some w1))"
    by (simp add: pptp_New_def Let_def w0_def c_def)
  obtain h1 where "pptp_writeConfig env w0 =
      on_ppp (\<lambda>p. reloadUsers (pv_secrets env) (pv_order env (pp_users p)) p) (w0\<lparr>pw_host := h1\<rparr>)"
    using pptp_writeConfig_ok [OF assms(1,2)] by blast
  moreover have "pp_users (new_PPTP (pt_InboundTag c) us secrets) = users" "us_inboundTag users = pt_InboundTag c0"
    by (simp_all add: new_PPTP_def new_Ppp_def assms(4) c pptp_replaceAll_def replaceAll_def newUserStore_def Let_def)
  ultimately have "\<exists>w1. pptp_writeConfig env w0 = (None, w1) \<and> pk_config (pw_core w1) = c \<and> pw_kernel w1 = k \<and>
      pp_secrets (pk_ppp (pw_core w1)) = file"
    using assms(5) by (simp add: on_ppp_def reloadUsers_def pptp_writeChapSecrets_def w0_def new_PPTP_def new_Ppp_def)
  then obtain w1 where w1: "pptp_writeConfig env w0 = (None, w1)" "pk_config (pw_core w1) = c" "pw_kernel w1 = k"
      "pp_secrets (pk_ppp (pw_core w1)) = file"
    by blast
  obtain cl k1 where nat: "pptp_applyHostRouting (pv_nat env) (pv_shell env) (pv_dec env) (pt_Pool c0) (pt_EgressInterface c0) k = (cl, k1)"
    by fastforce
  then have "pptp_start env w0 = (Some (''start pptpd: '' @ err), w1\<lparr>pw_core := (pw_core w1)\<lparr>pk_routing := cl\<rparr>, pw_kernel := k1\<rparr>)"
    using w1 assms(3) by (simp add: pptp_start_def pptp_setupNAT_def sv_launch_def c Let_def)
  then show ?thesis using w1 nat new by simp
qed

definition lab_pptp_env :: "unit PptpEnv" where
  "lab_pptp_env = \<lparr>pv_host = \<lparr>he_MkdirAll = (\<lambda>_. None), he_WriteFile = (\<lambda>_ _. None), he_exists = (\<lambda>_. False), he_LookPath = (\<lambda>_. None),
       he_Start = (\<lambda>_. Inl ''no such file''), he_Run = (\<lambda>_ _. None), he_Output = (\<lambda>_. (None, [])), he_Join = concat, he_order = (\<lambda>_. [])\<rparr>,
     pv_secrets = disk_env, pv_ParseCIDR = (\<lambda>_. None), pv_split = (\<lambda>_. None), pv_upFirst = True,
     pv_order = (\<lambda>s. if us_users s ''ann'' = None then [] else [''ann'']),
     pv_nat = \<lparr>ne_env = (\<lambda>_. ''0''), ne_read = (\<lambda>_. Inr []), ne_write = (\<lambda>_ k. (None, k))\<rparr>, pv_shell = (\<lambda>_ _ k. ((None, []), k)), pv_dec = (\<lambda>_. Inr [])\<rparr>"

definition lab_pt :: PtConfig where
  "lab_pt = \<lparr>pt_InboundTag = ''pptp'', pt_Port = 1723, pt_Pool = ''10.9.0.0/24'', pt_LocalIP = ''10.9.0.1'', pt_ServerAddr = [], pt_EgressInterface = [],
     pt_DNS = [], pt_workDir = []\<rparr>"

theorem pptp_failed_start_leaves_logins_witness:
  "\<exists>w. pptp_New lab_pptp_env [] (Some lab_pt) [ann ''5.ann'' [''pptp'']] None \<lparr>ho_files = Map.empty, ho_cmds = []\<rparr> () =
      (Inl (''start pptpd: '' @ ''no such file''), Some w) \<and>
    pp_secrets (pk_ppp (pw_core w)) = Some (secret_line ''pptp'' ''ann'' ''pw'' @ [nl])"
proof -
  let ?s = "snd (pptp_replaceAll [] [ann ''5.ann'' [''pptp'']] (newUserStore (pt_InboundTag lab_pt)))"
  have u: "us_users ?s ''ann'' = Some \<lparr>ue_password = ''pw'', ue_ipLimit = 2, ue_speedLimit = 0\<rparr>"
    by (simp add: pptp_replaceAll_def replaceAll_def next_user_def wantsInterface_def pptp_credsFor_def ann_def newUserStore_def
        user_entry_def lab_pt_def go_defs Let_def)
  then have "pptp_writeChapSecrets (pv_secrets lab_pptp_env) (pt_InboundTag lab_pt) (pv_order lab_pptp_env ?s) ?s None =
      (None, Some (secret_line ''pptp'' ''ann'' ''pw'' @ [nl]))"
    by (simp add: pptp_writeChapSecrets_def writeChapSecrets_def chapSecretsWithoutTag_def store_snapshot_def lab_pptp_env_def disk_env_def)
      (simp add: lab_pt_def)
  from pptp_failed_start_leaves_logins [OF _ _ _ refl this, of "''no such file''" "[]"]
  show ?thesis by (auto simp: lab_pptp_env_def)
qed

end
