(* ===== verification/WgVariants.thy ===== *)
theory WgVariants
  imports WgSync Daemon
begin

text \<open>
  The variants of the WireGuard back end: \<open>backend/amneziawg/amneziawg.go\<close> and \<open>backend/wg_c/wg_c.go\<close> parse their own
  configuration and run the back end of \<open>backend/wireguard\<close> on another field of the users. Also the probes for
  WireGuard on the host at the start of \<open>wireguard.go\<close>.
\<close>

section \<open>Probes\<close>

definition wg_CheckDeps :: "HostEnv \<Rightarrow> string option" where
  "wg_CheckDeps env =
    (if he_exists env ''/sys/module/wireguard'' then None
     else if he_LookPath env ''wg'' \<noteq> None then None
     else Some ''wireguard is not installed on this node'')"

definition getWireGuardVersion :: "HostEnv \<Rightarrow> string" where
  "getWireGuardVersion env =
    (case he_Output env [''wg'', ''--version''] of
       (Some _, _) \<Rightarrow> ''unknown''
     | (None, out) \<Rightarrow>
         let parts = str_fields (trim_space (hd (split_at_char (CHR 0x0A) out)))
         in if length parts \<ge> 2 then parts ! 1 else ''unknown'')"

text \<open>\<open>modver\<close> is the content of the version file of the kernel module, if it can be read.\<close>

definition wg_DetectVersion :: "HostEnv \<Rightarrow> string option \<Rightarrow> string" where
  "wg_DetectVersion env modver =
    (case modver of
       Some data \<Rightarrow> if trim_space data \<noteq> [] then trim_space data else getWireGuardVersion env
     | None \<Rightarrow> getWireGuardVersion env)"

section \<open>WG-C\<close>

definition wgc_NewConfig :: "(string \<Rightarrow> string + WgConfig) \<Rightarrow> string \<Rightarrow> string + WgConfig" where
  "wgc_NewConfig unmarshal configStr =
    (case NewConfig unmarshal configStr of
       Inl e \<Rightarrow> Inl e
     | Inr c \<Rightarrow> Inr (c\<lparr>wc_ProxyField := ''wg_c''\<rparr>))"

definition wgc_New :: "'k WgEnv \<Rightarrow> (string \<Rightarrow> SysErr + WgMgr) \<Rightarrow> string \<Rightarrow> WgConfig option \<Rightarrow> UserPtr list \<Rightarrow> 'k \<Rightarrow>
    (string \<times> 'k) + 'k WireGuard" where
  "wgc_New env factory version cfg users s =
    newWithManagerFactory env factory version (map_option (\<lambda>c. c\<lparr>wc_ProxyField := ''wg_c''\<rparr>) cfg) users s"

section \<open>AmneziaWG\<close>

record AmConfig =
  am_Config :: WgConfig
  am_JC :: int
  am_JMin :: int
  am_JMax :: int
  am_S1 :: int
  am_S2 :: int
  am_H1 :: int
  am_H2 :: int
  am_H3 :: int
  am_H4 :: int

text \<open>The string is decoded twice: with the parameters of AmneziaWG and by the constructor of WireGuard.\<close>

definition awg_NewConfig :: "(string \<Rightarrow> string + AmConfig) \<Rightarrow> (string \<Rightarrow> string + WgConfig) \<Rightarrow> string \<Rightarrow> string + AmConfig" where
  "awg_NewConfig decode unmarshal configStr =
    (if trim_space configStr = [] then Inl ''amneziawg config string must not be empty''
     else case decode configStr of
       Inl e \<Rightarrow> Inl (''failed to parse amneziawg config: '' @ e)
     | Inr c \<Rightarrow>
         (case NewConfig unmarshal configStr of
            Inl e \<Rightarrow> Inl e
          | Inr wgCfg \<Rightarrow> Inr (c\<lparr>am_Config := wgCfg\<lparr>wc_ProxyField := ''amneziawg''\<rparr>\<rparr>)))"

definition hasAWG :: "HostEnv \<Rightarrow> bool" where
  "hasAWG env \<longleftrightarrow> he_LookPath env ''awg'' \<noteq> None \<or> he_LookPath env ''awg-quick'' \<noteq> None"

definition awg_CheckDeps :: "HostEnv \<Rightarrow> string option" where
  "awg_CheckDeps env =
    (if he_LookPath env ''awg'' \<noteq> None then None
     else if he_LookPath env ''awg-quick'' \<noteq> None then None
     else wg_CheckDeps env)"

definition awg_DetectVersion :: "HostEnv \<Rightarrow> string option \<Rightarrow> string" where
  "awg_DetectVersion env modver =
    (case he_Output env [''awg'', ''version''] of
       (None, out) \<Rightarrow>
         let fields = str_fields out in if fields \<noteq> [] then last fields else wg_DetectVersion env modver
     | (Some _, _) \<Rightarrow> wg_DetectVersion env modver)"

definition awg_param :: "string \<Rightarrow> int \<Rightarrow> string" where
  "awg_param name v = (if v > 0 then name @ '' = '' @ show_int v @ [CHR 0x0A] else [])"

definition awg_conf :: "AmConfig \<Rightarrow> string" where
  "awg_conf a =
    ''[Interface]'' @ [CHR 0x0A] @ ''PrivateKey = '' @ wc_PrivateKey (am_Config a) @ [CHR 0x0A] @
    ''ListenPort = '' @ show_int (wc_ListenPort (am_Config a)) @ [CHR 0x0A] @
    concat (map (\<lambda>addr. ''Address = '' @ addr @ [CHR 0x0A]) (wc_Address (am_Config a))) @
    awg_param ''Jc'' (am_JC a) @ awg_param ''Jmin'' (am_JMin a) @ awg_param ''Jmax'' (am_JMax a) @
    awg_param ''S1'' (am_S1 a) @ awg_param ''S2'' (am_S2 a) @
    awg_param ''H1'' (am_H1 a) @ awg_param ''H2'' (am_H2 a) @ awg_param ''H3'' (am_H3 a) @ awg_param ''H4'' (am_H4 a)"

definition writeAmneziaConf :: "HostEnv \<Rightarrow> string \<Rightarrow> AmConfig \<Rightarrow> Host \<Rightarrow> string option \<times> Host" where
  "writeAmneziaConf env generated a h =
    (let dir = he_Join env [generated, ''amneziawg'']
     in case he_MkdirAll env dir of
          Some e \<Rightarrow> (Some e, h)
        | None \<Rightarrow> os_WriteFile env (he_Join env [dir, wc_InterfaceName (am_Config a) @ ''.conf'']) (awg_conf a) h)"

definition awg_New :: "HostEnv \<Rightarrow> string \<Rightarrow> 'k WgEnv \<Rightarrow> (string \<Rightarrow> SysErr + WgMgr) \<Rightarrow> string \<Rightarrow> AmConfig option \<Rightarrow> UserPtr list \<Rightarrow>
    Host \<Rightarrow> 'k \<Rightarrow> ((string \<times> 'k) + 'k WireGuard) \<times> Host" where
  "awg_New henv generated env factory version cfg users h s =
    (case cfg of
       None \<Rightarrow> (Inl (''amneziawg config must not be nil'', s), h)
     | Some a0 \<Rightarrow>
         let a = a0\<lparr>am_Config := (am_Config a0)\<lparr>wc_ProxyField := ''amneziawg''\<rparr>\<rparr>
         in if hasAWG henv
            then (case writeAmneziaConf henv generated a h of
                    (Some e, h1) \<Rightarrow> (Inl (e, s), h1)
                  | (None, h1) \<Rightarrow> (newWithManagerFactory env factory version (Some (am_Config a)) users s, h1))
            else (newWithManagerFactory env factory version (Some (am_Config a)) users s, h))"

section \<open>Properties\<close>

text \<open>The obfuscation parameters of an AmneziaWG core never reach the device: two configurations that differ only
  in them give the same back end and the same kernel, that of plain WireGuard; at most the file written beside
  it differs.\<close>

theorem awg_obfuscation_unused:
  assumes "am_Config a = am_Config b"
    and "fst (writeAmneziaConf henv generated (a\<lparr>am_Config := (am_Config a)\<lparr>wc_ProxyField := ''amneziawg''\<rparr>\<rparr>) h) = None"
    and "fst (writeAmneziaConf henv generated (b\<lparr>am_Config := (am_Config b)\<lparr>wc_ProxyField := ''amneziawg''\<rparr>\<rparr>) h) = None"
  shows "fst (awg_New henv generated env factory version (Some a) users h s) =
      fst (awg_New henv generated env factory version (Some b) users h s) \<and>
    fst (awg_New henv generated env factory version (Some a) users h s) =
      newWithManagerFactory env factory version (Some ((am_Config a)\<lparr>wc_ProxyField := ''amneziawg''\<rparr>)) users s"
proof -
  have "fst (awg_New henv generated env factory version (Some x) users h s) =
      newWithManagerFactory env factory version (Some ((am_Config x)\<lparr>wc_ProxyField := ''amneziawg''\<rparr>)) users s"
    if "fst (writeAmneziaConf henv generated (x\<lparr>am_Config := (am_Config x)\<lparr>wc_ProxyField := ''amneziawg''\<rparr>\<rparr>) h) = None" for x
    using that by (cases "writeAmneziaConf henv generated (x\<lparr>am_Config := (am_Config x)\<lparr>wc_ProxyField := ''amneziawg''\<rparr>\<rparr>) h")
      (simp add: awg_New_def Let_def)
  from this [OF assms(2)] this [OF assms(3)] assms(1) show ?thesis by simp
qed

definition lab_awg :: WgConfig where
  "lab_awg = \<lparr>wc_InterfaceName = ''awg0'', wc_PrivateKey = ''k'', wc_PreSharedKey = [], wc_ListenPort = 51820, wc_Address = [], wc_EgressInterface = [],
     wc_Latency = None, wc_ProxyField = [], wc_privateKeyCache = None, wc_presharedKeyCache = None\<rparr>"

theorem awg_obfuscation_unused_witness:
  "\<forall>env factory version users s.
    fst (awg_New \<lparr>he_MkdirAll = (\<lambda>_. None), he_WriteFile = (\<lambda>_ _. None), he_exists = (\<lambda>_. False), he_LookPath = (\<lambda>_. Some ''/bin/awg''),
        he_Start = (\<lambda>_. Inr 1), he_Run = (\<lambda>_ _. None), he_Output = (\<lambda>_. (None, [])), he_Join = concat, he_order = (\<lambda>_. [])\<rparr> [] env factory version
      (Some \<lparr>am_Config = lab_awg, am_JC = 4, am_JMin = 40, am_JMax = 70, am_S1 = 1, am_S2 = 2, am_H1 = 1, am_H2 = 2, am_H3 = 3, am_H4 = 4\<rparr>)
      users \<lparr>ho_files = Map.empty, ho_cmds = []\<rparr> s) =
    newWithManagerFactory env factory version (Some (lab_awg\<lparr>wc_ProxyField := ''amneziawg''\<rparr>)) users s"
proof (intro allI)
  fix env :: "'k WgEnv" and factory version users s
  let ?henv = "\<lparr>he_MkdirAll = (\<lambda>_. None), he_WriteFile = (\<lambda>_ _. None), he_exists = (\<lambda>_. False), he_LookPath = (\<lambda>_. Some ''/bin/awg''),
      he_Start = (\<lambda>_. Inr 1), he_Run = (\<lambda>_ _. None), he_Output = (\<lambda>_. (None, [])), he_Join = concat, he_order = (\<lambda>_. [])\<rparr>"
    and ?a = "\<lparr>am_Config = lab_awg, am_JC = 4, am_JMin = 40, am_JMax = 70, am_S1 = 1, am_S2 = 2, am_H1 = 1, am_H2 = 2, am_H3 = 3, am_H4 = 4\<rparr>"
    and ?h = "\<lparr>ho_files = Map.empty, ho_cmds = []\<rparr>"
  have "fst (writeAmneziaConf ?henv [] x ?h) = None" for x by (simp add: writeAmneziaConf_def os_WriteFile_def Let_def)
  then show "fst (awg_New ?henv [] env factory version (Some ?a) users ?h s) =
      newWithManagerFactory env factory version (Some (lab_awg\<lparr>wc_ProxyField := ''amneziawg''\<rparr>)) users s"
    using awg_obfuscation_unused [of ?a ?a ?henv "[]" ?h env factory version users s] by simp
qed

end
