(* ===== verification/UserChunks.thy ===== *)
theory UserChunks
  imports Common
begin

text \<open>
  Reassembly of a user list that the panel streams in chunks:
  \<open>controller/users_chunk.go\<close>. The loop counts in \<open>uint64\<close>, so with the largest last index its
  condition never fails; the model is a partial function, where not returning is \<open>None\<close>.
\<close>

definition missing_chunk :: "u64 \<Rightarrow> string" where
  "missing_chunk i = ''missing chunk index '' @ show_dec (unat i)"

partial_function (option) chunk_loop :: "(u64 \<rightharpoonup> UserPtr list) \<Rightarrow> u64 \<Rightarrow> u64 \<Rightarrow> UserPtr list \<Rightarrow>
    (string + UserPtr list) option" where
  "chunk_loop chunks lastIndex i users =
    (if i \<le> lastIndex
     then case chunks i of
            None \<Rightarrow> Some (Inl (missing_chunk i))
          | Some chunkUsers \<Rightarrow> chunk_loop chunks lastIndex (i + 1) (users @ chunkUsers)
     else Some (Inr users))"

definition BuildUsersFromChunks :: "(u64 \<rightharpoonup> UserPtr list) \<Rightarrow> u64 \<Rightarrow> bool \<Rightarrow> (string + UserPtr list) option" where
  "BuildUsersFromChunks chunks lastIndex sawLast =
    (if \<not> sawLast then Some (Inl ''missing final chunk indicator'')
     else case chunk_loop chunks lastIndex 0 [] of
            None \<Rightarrow> None
          | Some (Inl e) \<Rightarrow> Some (Inl e)
          | Some (Inr users) \<Rightarrow> if users = [] then Some (Inl ''no users received'') else Some (Inr users))"

declare chunk_loop.simps [code]

section \<open>Runs of the loop\<close>

lemma unat_suc:
  assumes "i \<noteq> (- 1 :: u64)" shows "unat (i + 1) = Suc (unat i)"
proof -
  have "1 + i \<noteq> 0" using assms by (metis add.commute add_eq_0_iff)
  then show ?thesis using unatSuc [of i] by (simp add: add.commute)
qed

lemma chunk_loop_step:
  "i \<le> l \<Longrightarrow> chunks i = Some us \<Longrightarrow> chunk_loop chunks l i users = chunk_loop chunks l (i + 1) (users @ us)"
  by (subst chunk_loop.simps) simp

lemma chunk_loop_missing:
  assumes "i \<le> n" "n \<le> l" "chunks n = None" "\<forall>j. i \<le> j \<longrightarrow> j < n \<longrightarrow> chunks j \<noteq> None"
  shows "chunk_loop chunks l i users = Some (Inl (missing_chunk n))"
  using assms
proof (induction "unat n - unat i" arbitrary: i users)
  case 0
  then have "unat i = unat n" by (simp add: word_le_nat_alt)
  then have "i = n" by (rule unsigned_word_eqI)
  with 0 show ?case by (subst chunk_loop.simps) simp
next
  case (Suc k)
  then have "i \<noteq> n" by auto
  with Suc.prems have i: "i < n" by simp
  then obtain us where us: "chunks i = Some us" using Suc.prems(4) by auto
  have "i \<noteq> - 1" using i by (metis word_n1_ge leD)
  then have s: "unat (i + 1) = Suc (unat i)" by (rule unat_suc)
  with i have le: "i + 1 \<le> n" by (simp add: word_le_nat_alt word_less_nat_alt)
  have "chunk_loop chunks l (i + 1) (users @ us) = Some (Inl (missing_chunk n))"
    using Suc.hyps(2) Suc.prems s le
    by (intro Suc.hyps(1)) (auto simp: word_le_nat_alt word_less_nat_alt)
  with us i Suc.prems show ?case by (simp add: chunk_loop_step)
qed

lemma chunk_loop_all:
  assumes "i \<le> l" "l \<noteq> - 1" "\<forall>j. i \<le> j \<longrightarrow> j \<le> l \<longrightarrow> chunks j \<noteq> None"
  shows "chunk_loop chunks l i users =
    Some (Inr (users @ concat (map (\<lambda>n. the (chunks (of_nat n))) [unat i..<Suc (unat l)])))"
  using assms
proof (induction "unat l - unat i" arbitrary: i users)
  case 0
  then have "unat i = unat l" by (simp add: word_le_nat_alt)
  then have i: "i = l" by (rule unsigned_word_eqI)
  then obtain us where us: "chunks l = Some us" using 0 by auto
  have "\<not> l + 1 \<le> l" using unat_suc [OF 0(3)] by (simp add: word_le_nat_alt)
  then have "chunk_loop chunks l (l + 1) (users @ us) = Some (Inr (users @ us))"
    by (subst chunk_loop.simps) simp
  with us i show ?case by (simp add: chunk_loop_step)
next
  case (Suc k)
  then have "i \<noteq> l" by auto
  with Suc.prems have i: "i < l" by simp
  then obtain us where us: "chunks i = Some us" using Suc.prems(3) by auto
  have "i \<noteq> - 1" using i by (metis word_n1_ge leD)
  then have s: "unat (i + 1) = Suc (unat i)" by (rule unat_suc)
  with i have le: "i + 1 \<le> l" by (simp add: word_le_nat_alt word_less_nat_alt)
  have "chunk_loop chunks l (i + 1) (users @ us) =
      Some (Inr ((users @ us) @ concat (map (\<lambda>n. the (chunks (of_nat n))) [unat (i + 1)..<Suc (unat l)])))"
    using Suc.hyps(2) Suc.prems s le
    by (intro Suc.hyps(1)) (auto simp: word_le_nat_alt word_less_nat_alt)
  moreover have "[unat i..<Suc (unat l)] = unat i # [unat (i + 1)..<Suc (unat l)]"
    using i s by (simp add: upt_conv_Cons word_less_nat_alt del: upt_Suc)
  ultimately show ?case
    using us i by (simp add: chunk_loop_step del: upt_Suc)
qed

text \<open>With the largest last index and no missing chunk the loop does not return.\<close>

lemma chunk_loop_returns:
  assumes "chunk_loop chunks l i users = Some r"
  shows "l \<noteq> - 1 \<or> (\<exists>j. chunks j = None)"
proof (rule chunk_loop.raw_induct [OF _ assms, where P = "\<lambda>chunks l i users r. l \<noteq> - 1 \<or> (\<exists>j. chunks j = None)"])
  fix f chunks l i users r
  assume "\<And>chunks l i users r. f chunks l i users = Some r \<Longrightarrow> l \<noteq> - 1 \<or> (\<exists>j. chunks j = None)"
    and "(if i \<le> l then case chunks i of None \<Rightarrow> Some (Inl (missing_chunk i))
          | Some chunkUsers \<Rightarrow> f chunks l (i + 1) (users @ chunkUsers) else Some (Inr users)) = Some r"
  then show "l \<noteq> - 1 \<or> (\<exists>j. chunks j = None)"
    by (auto split: if_splits option.splits)
qed

lemma chunk_loop_forever:
  assumes "\<forall>i. chunks i \<noteq> None" shows "chunk_loop chunks (- 1) i users = None"
  using assms chunk_loop_returns [of chunks "- 1" i users] by (metis not_Some_eq)

lemma Build_complete:
  assumes "lastIndex \<noteq> - 1" "\<forall>i\<le>lastIndex. chunks i \<noteq> None"
    and "users = concat (map (\<lambda>n. the (chunks (of_nat n))) [0..<Suc (unat lastIndex)])" "users \<noteq> []"
  shows "BuildUsersFromChunks chunks lastIndex True = Some (Inr users)"
  using chunk_loop_all [of 0 lastIndex chunks "[]"] assms
  unfolding BuildUsersFromChunks_def by (simp del: upt_Suc)

section \<open>Properties\<close>

text \<open>C12. A stream without its final chunk is refused. Otherwise the first missing index, if there is
  one, is reported; with all chunks present the users are their concatenation in index order, and
  an empty list is refused. Only when the last index is the largest 64-bit number and every index
  has a chunk does the function not return.\<close>

theorem BuildUsersFromChunks_exact:
  "BuildUsersFromChunks chunks lastIndex sawLast =
    (if \<not> sawLast then Some (Inl ''missing final chunk indicator'')
     else if \<exists>i\<le>lastIndex. chunks i = None
     then Some (Inl (missing_chunk (LEAST i. chunks i = None)))
     else if lastIndex = - 1 then None
     else let users = concat (map (\<lambda>n. the (chunks (of_nat n))) [0..<Suc (unat lastIndex)])
          in Some (if users = [] then Inl ''no users received'' else Inr users))"
proof (cases "\<exists>i\<le>lastIndex. chunks i = None")
  case True
  then obtain i where i: "i \<le> lastIndex" "chunks i = None" by blast
  let ?n = "LEAST i. chunks i = None"
  have "chunks ?n = None" using LeastI [of "\<lambda>i. chunks i = None"] i(2) by blast
  moreover have "?n \<le> lastIndex" using Least_le [of "\<lambda>i. chunks i = None" i] i by auto
  moreover have "\<forall>j. 0 \<le> j \<longrightarrow> j < ?n \<longrightarrow> chunks j \<noteq> None" using not_less_Least by blast
  ultimately have "chunk_loop chunks lastIndex 0 [] = Some (Inl (missing_chunk ?n))"
    by (intro chunk_loop_missing) simp_all
  with True show ?thesis by (simp add: BuildUsersFromChunks_def)
next
  case False
  show ?thesis
  proof (cases "lastIndex = - 1")
    case True
    then have "\<forall>i. chunks i \<noteq> None" using False by (metis word_n1_ge)
    then have "chunk_loop chunks lastIndex 0 [] = None"
      unfolding True by (rule chunk_loop_forever)
    with True show ?thesis
      unfolding if_not_P [OF False] by (simp add: BuildUsersFromChunks_def)
  next
    case l: False
    then have "chunk_loop chunks lastIndex 0 [] =
        Some (Inr (concat (map (\<lambda>n. the (chunks (of_nat n))) [0..<Suc (unat lastIndex)])))"
      using chunk_loop_all [of 0 lastIndex chunks "[]"] False by (auto simp del: upt_Suc)
    with l show ?thesis
      unfolding if_not_P [OF False] BuildUsersFromChunks_def Let_def by (simp del: upt_Suc)
  qed
qed

end
