(* ===== verification/Controller.thy ===== *)
theory Controller
  imports Composite
begin

text \<open>
  The node controller, \<open>controller/controller.go\<close> and \<open>controller/shaper.go\<close>: the table of running
  cores, start and replacement of a core, connection and disconnection of a client, the periodic
  jobs, and the answers merged over the cores. The constructors and the shutdown of the cores act
  on the state \<open>'w\<close> of the operating system. Every method takes the mutex of the controller for
  its accesses; the periodic goroutines appear as one operation per tick.
\<close>

section \<open>Data\<close>

datatype BackendType = XRAY | WIREGUARD | OPENVPN | IKEV2 | L2TP | PPTP | OPENCONNECT | SSTP | WG_C
  | AMNEZIAWG | GRE | SSH | MTPROTO | OtherBackend int

record BackendMsg =
  bm_Type :: BackendType
  bm_Config :: string
  bm_Users :: "UserPtr list"
  bm_KeepAlive :: u64
  bm_ExcludeInbounds :: "string list"

record backendKey =
  bk_typ :: BackendType
  bk_instance :: string

text \<open>The \<open>float64\<close> of the processor load is kept as its bits.\<close>

record SystemStats =
  sy_MemTotal :: u64
  sy_MemUsed :: u64
  sy_CpuCores :: u64
  sy_CpuUsage :: u64
  sy_IncomingBandwidthSpeed :: u64
  sy_OutgoingBandwidthSpeed :: u64
  sy_Uptime :: u64

text \<open>
  The background jobs of a connection are identified by their keep-alive time, \<open>None\<close> without a
  tracker. \<open>co_jobs\<close> are those that \<open>cancelFunc\<close> can stop, \<open>co_lost\<close> those that run on after a later
  \<open>Connect\<close> has replaced \<open>cancelFunc\<close>.
\<close>

record 'b Controller =
  co_backends :: "backendKey \<rightharpoonup> 'b"
  co_apiPort :: int
  co_metricPort :: int
  co_clientIP :: string
  co_lastRequest :: gotime
  co_stats :: "SystemStats option"
  co_jobs :: "int option option"
  co_lost :: "int option list"
  co_shaper :: "Manager option"
  co_caps :: "(BackendType list \<times> (string \<rightharpoonup> string)) option"

text \<open>
  What the controller calls: environment variables, the string members of a JSON object, the name
  of an unknown type, dependency checks, configuration parsers, constructors and versions of the
  cores, their shutdown, free ports, the interface of the default route, the version of the node
  and the commands of the traffic shaper.
\<close>

record ('b, 'c, 'w) NodeEnv =
  ne_Getenv :: "string \<Rightarrow> string"
  ne_Unmarshal :: "string \<Rightarrow> (string \<rightharpoonup> string) option"
  ne_TypeString :: "int \<Rightarrow> string"
  ne_CheckDeps :: "BackendType \<Rightarrow> string option"
  ne_NewConfig :: "BackendType \<Rightarrow> string \<Rightarrow> string list \<Rightarrow> string + 'c"
  ne_New :: "BackendType \<Rightarrow> 'c \<Rightarrow> UserPtr list \<Rightarrow> int \<Rightarrow> int \<Rightarrow> 'w \<Rightarrow> (string + 'b) \<times> 'w"
  ne_DetectVersion :: "BackendType \<Rightarrow> string"
  ne_Shutdown :: "'b \<Rightarrow> 'w \<Rightarrow> 'w"
  ne_FindFreePort :: "'w \<Rightarrow> int \<times> 'w"
  ne_defaultRouteInterface :: string
  ne_NodeVersion :: string
  ne_shaping :: RlEnv

section \<open>Names\<close>

definition disable_names :: "BackendType \<Rightarrow> string list" where
  "disable_names t =
    (case t of
       XRAY \<Rightarrow> [''HPX_NODE_DISABLE_XRAY'']
     | OPENVPN \<Rightarrow> [''HPX_NODE_DISABLE_OPENVPN'']
     | WIREGUARD \<Rightarrow> [''HPX_NODE_DISABLE_WIREGUARD'', ''HPX_NODE_DISABLE_WG'']
     | IKEV2 \<Rightarrow> [''HPX_NODE_DISABLE_IKEV2'']
     | L2TP \<Rightarrow> [''HPX_NODE_DISABLE_L2TP'']
     | PPTP \<Rightarrow> [''HPX_NODE_DISABLE_PPTP'']
     | OPENCONNECT \<Rightarrow> [''HPX_NODE_DISABLE_OPENCONNECT'']
     | SSTP \<Rightarrow> [''HPX_NODE_DISABLE_SSTP'']
     | WG_C \<Rightarrow> [''HPX_NODE_DISABLE_WG_C'', ''HPX_NODE_DISABLE_WGC'']
     | AMNEZIAWG \<Rightarrow> [''HPX_NODE_DISABLE_AMNEZIAWG'']
     | GRE \<Rightarrow> [''HPX_NODE_DISABLE_GRE'']
     | SSH \<Rightarrow> [''HPX_NODE_DISABLE_SSH'']
     | MTPROTO \<Rightarrow> [''HPX_NODE_DISABLE_MTPROTO'']
     | OtherBackend _ \<Rightarrow> [])"

definition backendDisabled :: "('b, 'c, 'w) NodeEnv \<Rightarrow> BackendType \<Rightarrow> bool" where
  "backendDisabled env t =
    list_ex (\<lambda>n. to_lower (trim_space (ne_Getenv env n)) \<in> {''1'', ''true'', ''yes'', ''on''}) (disable_names t)"

definition backendTypeKey :: "('b, 'c, 'w) NodeEnv \<Rightarrow> BackendType \<Rightarrow> string" where
  "backendTypeKey env t =
    (case t of
       XRAY \<Rightarrow> ''xray'' | OPENVPN \<Rightarrow> ''openvpn'' | WIREGUARD \<Rightarrow> ''wg'' | IKEV2 \<Rightarrow> ''ikev2''
     | L2TP \<Rightarrow> ''l2tp'' | PPTP \<Rightarrow> ''pptp'' | OPENCONNECT \<Rightarrow> ''openconnect'' | SSTP \<Rightarrow> ''sstp''
     | WG_C \<Rightarrow> ''wg_c'' | AMNEZIAWG \<Rightarrow> ''amneziawg'' | GRE \<Rightarrow> ''gre'' | SSH \<Rightarrow> ''ssh''
     | MTPROTO \<Rightarrow> ''mtproto'' | OtherBackend n \<Rightarrow> ne_TypeString env n)"

definition instance_field :: "BackendType \<Rightarrow> string option" where
  "instance_field t =
    (case t of
       OPENVPN \<Rightarrow> Some ''inbound_tag'' | IKEV2 \<Rightarrow> Some ''inbound_tag'' | L2TP \<Rightarrow> Some ''inbound_tag''
     | PPTP \<Rightarrow> Some ''inbound_tag'' | OPENCONNECT \<Rightarrow> Some ''inbound_tag'' | SSTP \<Rightarrow> Some ''inbound_tag''
     | GRE \<Rightarrow> Some ''inbound_tag'' | SSH \<Rightarrow> Some ''inbound_tag'' | MTPROTO \<Rightarrow> Some ''inbound_tag''
     | WIREGUARD \<Rightarrow> Some ''interface_name'' | WG_C \<Rightarrow> Some ''interface_name''
     | AMNEZIAWG \<Rightarrow> Some ''interface_name''
     | XRAY \<Rightarrow> None | OtherBackend _ \<Rightarrow> None)"

definition backendInstanceID :: "('b, 'c, 'w) NodeEnv \<Rightarrow> BackendType \<Rightarrow> string \<Rightarrow> string" where
  "backendInstanceID env t configStr =
    (case instance_field t of
       None \<Rightarrow> []
     | Some field \<Rightarrow>
         (case ne_Unmarshal env configStr of
            None \<Rightarrow> []
          | Some parsed \<Rightarrow> (case parsed field of None \<Rightarrow> [] | Some v \<Rightarrow> trim_space v)))"

definition msg_key :: "('b, 'c, 'w) NodeEnv \<Rightarrow> BackendMsg \<Rightarrow> backendKey" where
  "msg_key env msg = \<lparr>bk_typ = bm_Type msg, bk_instance = backendInstanceID env (bm_Type msg) (bm_Config msg)\<rparr>"

section \<open>Life cycle\<close>

definition new_Controller :: "('b, 'c, 'w) NodeEnv \<Rightarrow> 'w \<Rightarrow> 'b Controller \<times> 'w" where
  "new_Controller env w =
    (case ne_FindFreePort env w of (p1, w1) \<Rightarrow>
       case ne_FindFreePort env w1 of (p2, w2) \<Rightarrow>
         (\<lparr>co_backends = Map.empty, co_apiPort = p1, co_metricPort = p2, co_clientIP = [], co_lastRequest = 0,
           co_stats = None, co_jobs = None, co_lost = [], co_shaper = None, co_caps = None\<rparr>, w2))"

definition co_NewRequest :: "gotime \<Rightarrow> 'b Controller \<Rightarrow> 'b Controller" where
  "co_NewRequest now c = c\<lparr>co_lastRequest := now\<rparr>"

definition co_Connect :: "gotime \<Rightarrow> string \<Rightarrow> u64 \<Rightarrow> 'b Controller \<Rightarrow> 'b Controller" where
  "co_Connect now ip keepAlive c =
    (let duration = i64 (i64 (uint keepAlive) * second)
     in c\<lparr>co_lastRequest := now, co_clientIP := ip,
          co_lost := co_lost c @ (case co_jobs c of None \<Rightarrow> [] | Some j \<Rightarrow> [j]),
          co_jobs := Some (if keepAlive > 0 then Some duration else None)\<rparr>)"

text \<open>The result is the state in which \<open>Close\<close> leaves the shaper, which is then dropped.\<close>

definition closeShaping :: "('b, 'c, 'w) NodeEnv \<Rightarrow> 'b Controller \<Rightarrow> Manager option \<times> 'b Controller" where
  "closeShaping env c =
    (map_option (rl_Close (ne_shaping env)) (co_shaper c), c\<lparr>co_shaper := None\<rparr>)"

definition listed :: "backendKey list \<Rightarrow> 'b Controller \<Rightarrow> 'b list" where
  "listed order c = List.map_filter (co_backends c) order"

text \<open>\<open>order\<close> is the order in which a loop visits the table of cores.\<close>

definition Disconnect :: "('b, 'c, 'w) NodeEnv \<Rightarrow> backendKey list \<Rightarrow> 'b Controller \<Rightarrow> 'w \<Rightarrow> 'b Controller \<times> 'w" where
  "Disconnect env order c w =
    (let c1 = c\<lparr>co_jobs := None\<rparr>;
         w1 = fold (ne_Shutdown env) (listed order c1) w;
         c2 = snd (closeShaping env c1);
         (p1, w2) = ne_FindFreePort env w1;
         (p2, w3) = ne_FindFreePort env w2
     in (c2\<lparr>co_backends := Map.empty, co_apiPort := p1, co_metricPort := p2, co_clientIP := []\<rparr>, w3))"

definition launch :: "('b, 'c, 'w) NodeEnv \<Rightarrow> 'b Controller \<Rightarrow> BackendMsg \<Rightarrow> 'w \<Rightarrow> (string + 'b) \<times> 'w" where
  "launch env c msg w =
    (let build = (\<lambda>exclude. case ne_NewConfig env (bm_Type msg) (bm_Config msg) exclude of
                    Inl e \<Rightarrow> (Inl e, w)
                  | Inr config \<Rightarrow> ne_New env (bm_Type msg) config (bm_Users msg) (co_apiPort c) (co_metricPort c) w)
     in case bm_Type msg of
          XRAY \<Rightarrow> build (bm_ExcludeInbounds msg)
        | OtherBackend _ \<Rightarrow> (Inl ''invalid backend type'', w)
        | t \<Rightarrow> (case ne_CheckDeps env t of Some e \<Rightarrow> (Inl e, w) | None \<Rightarrow> build []))"

definition StartBackend :: "('b, 'c, 'w) NodeEnv \<Rightarrow> BackendMsg \<Rightarrow> 'b Controller \<Rightarrow> 'w \<Rightarrow>
    string option \<times> 'b Controller \<times> 'w" where
  "StartBackend env msg c w =
    (if backendDisabled env (bm_Type msg)
     then (Some (''backend '' @ go_quote (backendTypeKey env (bm_Type msg)) @
                 '' is disabled on this node (HPX_NODE_DISABLE_*)''), c, w)
     else
       let key = msg_key env msg;
           old = co_backends c key;
           c1 = c\<lparr>co_backends := map_delete key (co_backends c)\<rparr>;
           w1 = (case old of None \<Rightarrow> w | Some b \<Rightarrow> ne_Shutdown env b w)
       in case launch env c1 msg w1 of
            (Inl e, w2) \<Rightarrow> (Some e, c1, w2)
          | (Inr b, w2) \<Rightarrow> (None, c1\<lparr>co_backends := (co_backends c1)(key \<mapsto> b)\<rparr>, w2))"

definition co_Backend :: "backendKey list \<Rightarrow> 'b Controller \<Rightarrow> 'b list option" where
  "co_Backend order c =
    (if map_len (co_backends c) = 0 then None else NewComposite (listed order c))"

section \<open>Periodic jobs\<close>

definition keepAlive_tick :: "('b, 'c, 'w) NodeEnv \<Rightarrow> backendKey list \<Rightarrow> gotime \<Rightarrow> int \<Rightarrow> 'b Controller \<Rightarrow> 'w \<Rightarrow>
    'b Controller \<times> 'w" where
  "keepAlive_tick env order now keepAlive c w =
    (if now - co_lastRequest c \<ge> keepAlive then Disconnect env order c w else (c, w))"

definition limits_tick :: "'b Backend \<Rightarrow> backendKey list \<Rightarrow> (Limiter list \<Rightarrow> string list) \<Rightarrow> 'b Controller \<Rightarrow>
    (nat \<times> string \<times> int) list" where
  "limits_tick be order users c =
    (let limiters = List.map_filter (be_Limiter be) (listed order c)
     in EnforceGlobalDeviceLimits (users limiters) limiters)"

definition egressInterface :: "('b, 'c, 'w) NodeEnv \<Rightarrow> string" where
  "egressInterface env =
    (let v1 = trim_space (ne_Getenv env ''HPX_NODE_WG_NAT_OUTPUT_INTERFACE'');
         v2 = trim_space (ne_Getenv env ''HPX_NODE_SHAPING_INTERFACE'')
     in if v1 \<noteq> [] then v1
        else if v2 \<noteq> [] then v2
        else if ne_defaultRouteInterface env \<noteq> [] then ne_defaultRouteInterface env
        else ''eth0'')"

definition shaped_list :: "'b Backend \<Rightarrow> 'b list \<Rightarrow> Client list" where
  "shaped_list be bs = fold (\<lambda>b cs. case be_ShapedClients be b of None \<Rightarrow> cs | Some xs \<Rightarrow> cs @ xs) bs []"

definition refreshShaping :: "('b, 'c, 'w) NodeEnv \<Rightarrow> 'b Backend \<Rightarrow> backendKey list \<Rightarrow> 'b Controller \<Rightarrow> 'b Controller" where
  "refreshShaping env be order c =
    (let clients = shaped_list be (listed order c);
         apply_to = (\<lambda>shaper. c\<lparr>co_shaper := Some (snd (rl_Apply (ne_shaping env) clients shaper))\<rparr>)
     in case co_shaper c of
          None \<Rightarrow>
            if clients = [] then c
            else let iface = egressInterface env in
                 if iface = [] then c else apply_to (rl_New iface)
        | Some shaper \<Rightarrow> apply_to shaper)"

definition recordSystemStats_tick :: "('b, 'c, 'w) NodeEnv \<Rightarrow> 'b Backend \<Rightarrow> backendKey list \<Rightarrow> SystemStats option \<Rightarrow>
    'b Controller \<Rightarrow> 'b Controller" where
  "recordSystemStats_tick env be order stats c =
    refreshShaping env be order (case stats of None \<Rightarrow> c | Some s \<Rightarrow> c\<lparr>co_stats := Some s\<rparr>)"

section \<open>Answers\<close>

definition zero_SystemStats :: SystemStats where
  "zero_SystemStats = \<lparr>sy_MemTotal = 0, sy_MemUsed = 0, sy_CpuCores = 0, sy_CpuUsage = 0,
     sy_IncomingBandwidthSpeed = 0, sy_OutgoingBandwidthSpeed = 0, sy_Uptime = 0\<rparr>"

definition co_SystemStats :: "'b Backend \<Rightarrow> backendKey list \<Rightarrow> 'b Controller \<Rightarrow> SystemStats" where
  "co_SystemStats be order c =
    (let response = (case co_stats c of None \<Rightarrow> zero_SystemStats | Some s \<Rightarrow> s)
     in case co_Backend order c of
          None \<Rightarrow> response
        | Some bs \<Rightarrow>
            (case comp_GetSysStats be bs of
               (_, Some err) \<Rightarrow> response
             | (s, None) \<Rightarrow> response\<lparr>sy_Uptime := ucast (bs_Uptime s)\<rparr>))"

text \<open>One address of the answer of a core: a newer or equal time takes over, with the protocol.\<close>

definition note_online :: "string \<Rightarrow> (string \<rightharpoonup> int) \<Rightarrow> (string \<rightharpoonup> int) \<times> (string \<rightharpoonup> string) \<Rightarrow>
    (string \<rightharpoonup> int) \<times> (string \<rightharpoonup> string)" where
  "note_online proto ips acc =
    (case acc of (ts, protos) \<Rightarrow>
      (\<lambda>ip. case ips ip of Some t \<Rightarrow> if t \<ge> map_get 0 ts ip then Some t else ts ip | None \<Rightarrow> ts ip,
       \<lambda>ip. case ips ip of Some t \<Rightarrow> if t \<ge> map_get 0 ts ip then Some proto else protos ip | None \<Rightarrow> protos ip))"

definition online_core :: "('b, 'c, 'w) NodeEnv \<Rightarrow> 'b Backend \<Rightarrow> string \<Rightarrow> 'b Controller \<Rightarrow> backendKey \<Rightarrow>
    (string \<rightharpoonup> int) \<times> (string \<rightharpoonup> string) \<Rightarrow> (string \<rightharpoonup> int) \<times> (string \<rightharpoonup> string)" where
  "online_core env be email c k acc =
    (case co_backends c k of
       None \<Rightarrow> acc
     | Some b \<Rightarrow>
         (case be_GetUserOnlineIpListStats be email b of
            Inr (Some s) \<Rightarrow> note_online (backendTypeKey env (bk_typ k)) (oi_Ips s) acc
          | _ \<Rightarrow> acc))"

definition UserOnlineIpList :: "('b, 'c, 'w) NodeEnv \<Rightarrow> 'b Backend \<Rightarrow> backendKey list \<Rightarrow> string \<Rightarrow> 'b Controller \<Rightarrow>
    StatsOnlineIpListResponse" where
  "UserOnlineIpList env be order email c =
    (case fold (online_core env be email c) order (Map.empty, Map.empty) of
       (ts, protos) \<Rightarrow> \<lparr>oi_Name = email, oi_Ips = ts, oi_IpProtocol = protos\<rparr>)"

text \<open>The cores in the order in which \<open>capabilities\<close> probes them; only Xray needs no probe.\<close>

definition probed_types :: "BackendType list" where
  "probed_types = [XRAY, OPENVPN, WIREGUARD, IKEV2, L2TP, PPTP, OPENCONNECT, SSTP, WG_C, AMNEZIAWG, GRE, SSH, MTPROTO]"

definition capabilities :: "('b, 'c, 'w) NodeEnv \<Rightarrow> 'b Controller \<Rightarrow>
    (BackendType list \<times> (string \<rightharpoonup> string)) \<times> 'b Controller" where
  "capabilities env c =
    (case co_caps c of
       Some caps \<Rightarrow> (caps, c)
     | None \<Rightarrow>
         let avail = filter (\<lambda>t. \<not> backendDisabled env t \<and> (t = XRAY \<or> ne_CheckDeps env t = None)) probed_types;
             versions = map_of (map (\<lambda>t. (backendTypeKey env t, ne_DetectVersion env t)) avail)
         in ((avail, versions), c\<lparr>co_caps := Some (avail, versions)\<rparr>))"

record BaseInfo =
  bi_Started :: bool
  bi_CoreVersion :: string
  bi_NodeVersion :: string
  bi_AvailableBackends :: "BackendType list"
  bi_BackendVersions :: "string \<rightharpoonup> string"

definition BaseInfoResponse :: "('b, 'c, 'w) NodeEnv \<Rightarrow> 'b Backend \<Rightarrow> backendKey list \<Rightarrow> 'b Controller \<Rightarrow>
    BaseInfo \<times> 'b Controller" where
  "BaseInfoResponse env be order c =
    (case capabilities env c of
       ((avail, versions), c1) \<Rightarrow>
         (case co_Backend order c of
            None \<Rightarrow> \<lparr>bi_Started = False, bi_CoreVersion = [], bi_NodeVersion = ne_NodeVersion env,
                     bi_AvailableBackends = avail, bi_BackendVersions = versions\<rparr>
          | Some bs \<Rightarrow> \<lparr>bi_Started = comp_Started be bs, bi_CoreVersion = comp_Version be bs, bi_NodeVersion = ne_NodeVersion env,
                       bi_AvailableBackends = avail, bi_BackendVersions = versions\<rparr>, c1))"

definition co_OutboundsLatency :: "'b Backend \<Rightarrow> backendKey list \<Rightarrow> string \<Rightarrow> 'b Controller \<Rightarrow> string + Latency list" where
  "co_OutboundsLatency be order name c =
    (case co_Backend order c of None \<Rightarrow> Inr [] | Some bs \<Rightarrow> comp_GetOutboundsLatency be name bs)"

section \<open>Tables and loops\<close>

lemma launch_cases:
  obtains e where "launch env c msg w = (Inl e, w)"
  | cf us where "launch env c msg w = ne_New env (bm_Type msg) cf us (co_apiPort c) (co_metricPort c) w"
proof -
  let ?build = "\<lambda>exclude. case ne_NewConfig env (bm_Type msg) (bm_Config msg) exclude of
      Inl e \<Rightarrow> (Inl e, w)
    | Inr config \<Rightarrow> ne_New env (bm_Type msg) config (bm_Users msg) (co_apiPort c) (co_metricPort c) w"
  have build: "(\<exists>e. ?build x = (Inl e, w)) \<or>
      (\<exists>cf us. ?build x = ne_New env (bm_Type msg) cf us (co_apiPort c) (co_metricPort c) w)" for x
    by (cases "ne_NewConfig env (bm_Type msg) (bm_Config msg) x") auto
  have "launch env c msg w = ?build (bm_ExcludeInbounds msg) \<or> launch env c msg w = ?build [] \<or>
      (\<exists>e. launch env c msg w = (Inl e, w))"
    by (cases "bm_Type msg") (auto simp: launch_def Let_def split: option.split)
  then show thesis using build that by metis
qed

lemma set_map_filter: "set (List.map_filter f xs) = {y. \<exists>x\<in>set xs. f x = Some y}"
  by (induction xs) (auto simp: map_filter_simps split: option.split)

lemma listed_set:
  assumes "enumerates order (co_backends c)" shows "set (listed order c) = ran (co_backends c)"
proof -
  have "(\<exists>k\<in>set order. co_backends c k = Some b) \<longleftrightarrow> (\<exists>k. co_backends c k = Some b)" for b
    using enumerates_set [OF assms] by blast
  then show ?thesis by (simp add: listed_def set_map_filter ran_def)
qed

lemma ran_empty_iff: "ran m = {} \<longleftrightarrow> m = Map.empty"
  by (auto simp: ran_def fun_eq_iff) (metis not_Some_eq)

lemma co_Backend_None:
  assumes "finite (dom (co_backends c))" "enumerates order (co_backends c)"
  shows "co_Backend order c = None \<longleftrightarrow> co_backends c = Map.empty"
proof -
  have "listed order c = [] \<longleftrightarrow> co_backends c = Map.empty"
    using listed_set [OF assms(2)] ran_empty_iff by (metis set_empty)
  then show ?thesis
    using map_len_0_iff [OF assms(1)] by (simp add: co_Backend_def NewComposite_def)
qed

section \<open>Merging online addresses\<close>

text \<open>The times that the cores of a list of keys report for an address, with the protocol.\<close>

definition reported_times :: "('b, 'c, 'w) NodeEnv \<Rightarrow> 'b Backend \<Rightarrow> string \<Rightarrow> 'b Controller \<Rightarrow> backendKey list \<Rightarrow> string \<Rightarrow>
    (int \<times> string) set" where
  "reported_times env be email c ks ip =
    {(t, backendTypeKey env (bk_typ k)) | t k b s. k \<in> set ks \<and> co_backends c k = Some b \<and>
       be_GetUserOnlineIpListStats be email b = Inr (Some s) \<and> oi_Ips s ip = Some t}"

definition core_time :: "'b Backend \<Rightarrow> string \<Rightarrow> 'b Controller \<Rightarrow> backendKey \<Rightarrow> string \<Rightarrow> int option" where
  "core_time be email c k ip =
    (case co_backends c k of
       None \<Rightarrow> None
     | Some b \<Rightarrow> (case be_GetUserOnlineIpListStats be email b of Inr (Some s) \<Rightarrow> oi_Ips s ip | _ \<Rightarrow> None))"

lemma core_time_Some:
  "core_time be email c k ip = Some t \<longleftrightarrow>
    (\<exists>b s. co_backends c k = Some b \<and> be_GetUserOnlineIpListStats be email b = Inr (Some s) \<and> oi_Ips s ip = Some t)"
  by (auto simp: core_time_def split: option.splits sum.splits)

lemma reported_times_core:
  "reported_times env be email c ks ip =
    {(t, backendTypeKey env (bk_typ k)) | t k. k \<in> set ks \<and> core_time be email c k ip = Some t}"
  unfolding reported_times_def core_time_Some by blast

lemma online_core_time:
  "online_core env be email c k (ts, ps) =
    (\<lambda>ip. case core_time be email c k ip of Some t \<Rightarrow> if t \<ge> map_get 0 ts ip then Some t else ts ip | None \<Rightarrow> ts ip,
     \<lambda>ip. case core_time be email c k ip of
            Some t \<Rightarrow> if t \<ge> map_get 0 ts ip then Some (backendTypeKey env (bk_typ k)) else ps ip | None \<Rightarrow> ps ip)"
  by (simp add: online_core_def core_time_def note_online_def split: option.split sum.split)

lemma online_fold_newest:
  assumes "\<And>k t. k \<in> set ks \<Longrightarrow> core_time be email c k ip = Some t \<Longrightarrow> 0 \<le> t"
    and "fold (online_core env be email c) ks (Map.empty, Map.empty) = (ts, ps)"
  shows "(reported_times env be email c ks ip = {} \<longrightarrow> ts ip = None \<and> ps ip = None) \<and>
    (reported_times env be email c ks ip \<noteq> {} \<longrightarrow>
      (\<exists>t p. ts ip = Some t \<and> ps ip = Some p \<and> (t, p) \<in> reported_times env be email c ks ip \<and>
        (\<forall>(t', p') \<in> reported_times env be email c ks ip. t' \<le> t)))"
  using assms
proof (induction ks arbitrary: ts ps rule: rev_induct)
  case Nil
  then show ?case by (auto simp: reported_times_core)
next
  case (snoc k ks)
  obtain ts1 ps1 where f: "fold (online_core env be email c) ks (Map.empty, Map.empty) = (ts1, ps1)"
    by fastforce
  note IH = snoc.IH [OF _ f]
  have step: "online_core env be email c k (ts1, ps1) = (ts, ps)"
    using snoc.prems(2) f by simp
  have R: "reported_times env be email c (ks @ [k]) ip = reported_times env be email c ks ip \<union>
      (case core_time be email c k ip of None \<Rightarrow> {} | Some t \<Rightarrow> {(t, backendTypeKey env (bk_typ k))})"
    by (auto simp: reported_times_core split: option.splits)
  show ?case
  proof (cases "core_time be email c k ip")
    case None
    then have "ts ip = ts1 ip" "ps ip = ps1 ip" using step by (auto simp: online_core_time)
    with IH snoc.prems(1) show ?thesis unfolding R None by auto
  next
    case (Some t)
    then have t0: "0 \<le> t" using snoc.prems(1) [of k] by simp
    have now: "ts ip = (if t \<ge> map_get 0 ts1 ip then Some t else ts1 ip)"
        "ps ip = (if t \<ge> map_get 0 ts1 ip then Some (backendTypeKey env (bk_typ k)) else ps1 ip)"
      using step Some by (auto simp: online_core_time)
    show ?thesis
    proof (cases "reported_times env be email c ks ip = {}")
      case True
      then have "ts1 ip = None" using IH snoc.prems(1) by auto
      then show ?thesis unfolding R Some using now t0 True by (simp add: map_get_def)
    next
      case False
      then obtain t1 p1 where "ts1 ip = Some t1" "ps1 ip = Some p1" "(t1, p1) \<in> reported_times env be email c ks ip"
          "\<forall>(t', p') \<in> reported_times env be email c ks ip. t' \<le> t1"
        using IH snoc.prems(1) by auto
      then show ?thesis unfolding R Some using now by (cases "t1 \<le> t") (auto simp: map_get_def)
    qed
  qed
qed

section \<open>Properties\<close>

text \<open>The address list of the controller gives every address that some core reports the newest of
  the reported times, with the protocol of a core that reported that time, for every order in which
  the cores are visited; other addresses are not listed.\<close>

theorem UserOnlineIpList_newest:
  assumes "enumerates order (co_backends c)"
    and "\<forall>ip. \<forall>(t, p) \<in> reported_times env be email c order ip. 0 \<le> t"
    and "r = UserOnlineIpList env be order email c"
  shows "(reported_times env be email c order ip = {} \<longrightarrow> oi_Ips r ip = None \<and> oi_IpProtocol r ip = None) \<and>
    (reported_times env be email c order ip \<noteq> {} \<longrightarrow>
      (\<exists>t p. oi_Ips r ip = Some t \<and> oi_IpProtocol r ip = Some p \<and> (t, p) \<in> reported_times env be email c order ip \<and>
        (\<forall>(t', p') \<in> reported_times env be email c order ip. t' \<le> t)))"
proof -
  obtain ts ps where f: "fold (online_core env be email c) order (Map.empty, Map.empty) = (ts, ps)"
    by fastforce
  have "0 \<le> t" if "k \<in> set order" "core_time be email c k ip = Some t" for k t
    using assms(2) that by (fastforce simp: reported_times_core)
  from online_fold_newest [OF this f] show ?thesis
    by (simp add: assms(3) UserOnlineIpList_def f)
qed

definition lab_node :: "(int, unit, int set) NodeEnv" where
  "lab_node = \<lparr>ne_Getenv = (\<lambda>_. []), ne_Unmarshal = (\<lambda>_. Some [''inbound_tag'' \<mapsto> ''main'']), ne_TypeString = (\<lambda>_. []),
     ne_CheckDeps = (\<lambda>_. None),
     ne_NewConfig = (\<lambda>_ s _. if s = ''bad'' then Inl ''failed to parse config'' else Inr ()),
     ne_New = (\<lambda>_ _ us _ _ w. if 100 \<in> w then (Inl ''busy'', w) else (Inr 100, insert 100 w)),
     ne_DetectVersion = (\<lambda>_. []), ne_Shutdown = (\<lambda>b w. w - {b}), ne_FindFreePort = (\<lambda>w. (9000, w)),
     ne_defaultRouteInterface = ''eth1'', ne_NodeVersion = ''1.0'', ne_shaping = quiet_env\<rparr>"

definition lab_key :: "BackendType \<Rightarrow> string \<Rightarrow> backendKey" where
  "lab_key t n = \<lparr>bk_typ = t, bk_instance = n\<rparr>"

definition lab_controller :: "int Controller" where
  "lab_controller = (fst (new_Controller lab_node {}))\<lparr>co_backends := [lab_key L2TP ''a'' \<mapsto> 1700000000, lab_key PPTP ''b'' \<mapsto> 1700000005]\<rparr>"

lemma lab_controller_backends:
  "co_backends lab_controller = [lab_key L2TP ''a'' \<mapsto> 1700000000, lab_key PPTP ''b'' \<mapsto> 1700000005]"
  by (simp add: lab_controller_def)

theorem UserOnlineIpList_newest_witness:
  "oi_Ips (UserOnlineIpList lab_node lab_backend [lab_key PPTP ''b'', lab_key L2TP ''a''] ''ann'' lab_controller) ''1.2.3.4''
    = Some 1700000005"
proof -
  let ?order = "[lab_key PPTP ''b'', lab_key L2TP ''a'']"
  have ne: "lab_key PPTP ''b'' \<noteq> lab_key L2TP ''a''" by (simp add: lab_key_def)
  have ct: "core_time lab_backend ''ann'' lab_controller k ip =
      (if ip = ''1.2.3.4'' then co_backends lab_controller k else None)" for k ip
    by (simp add: core_time_def lab_backend_def split: option.split)
  have k: "bk_typ (lab_key t n) = t" for t n by (simp add: lab_key_def)
  have R: "reported_times lab_node lab_backend ''ann'' lab_controller ?order ip =
      (if ip = ''1.2.3.4'' then {(1700000005, ''pptp''), (1700000000, ''l2tp'')} else {})" for ip
    using ne by (auto simp: reported_times_core ct lab_controller_backends k backendTypeKey_def)
  have "enumerates ?order (co_backends lab_controller)"
    using ne by (auto simp: enumerates_def lab_controller_backends)
  moreover have "\<forall>ip. \<forall>(t, p) \<in> reported_times lab_node lab_backend ''ann'' lab_controller ?order ip. 0 \<le> t"
    by (simp add: R)
  ultimately show ?thesis
    using UserOnlineIpList_newest [of ?order lab_controller lab_node lab_backend "''ann''" _ "''1.2.3.4''", OF _ _ refl]
    by (auto simp: R)
qed



end
