(* ===== verification/Service.thy ===== *)
theory Service
  imports Controller UserChunks
begin

text \<open>
  The gRPC and REST front ends, \<open>controller/rpc\<close> and \<open>controller/rest\<close>: the interceptors that
  guard every call, start and stop of the node by a client, the user handlers and the statistics
  handlers. A client is its address; \<open>uuid.Parse\<close> is a parameter.
\<close>

section \<open>Guards\<close>

text \<open>\<open>metadata\<close> is \<open>None\<close> without metadata in the context, otherwise the values of the key header, if any.\<close>

definition rpc_validateApiKey :: "(string \<Rightarrow> 'u option) \<Rightarrow> 'u \<Rightarrow> string list option option \<Rightarrow> GoError option" where
  "rpc_validateApiKey uuid apiKey metadata =
    (case metadata of
       None \<Rightarrow> Some (StatusError Unauthenticated ''missing metadata'')
     | Some hdr \<Rightarrow>
         (case hdr of
            None \<Rightarrow> Some (StatusError Unauthenticated ''missing x-api-key header'')
          | Some [] \<Rightarrow> Some (StatusError Unauthenticated ''missing x-api-key header'')
          | Some (h # _) \<Rightarrow>
              (case uuid h of
                 None \<Rightarrow> Some (StatusError InvalidArgument ''invalid api key format: must be a valid UUID'')
               | Some key \<Rightarrow>
                   if key \<noteq> apiKey then Some (StatusError PermissionDenied ''api key mismatch'') else None)))"

definition checkBackendStatus :: "'b Backend \<Rightarrow> backendKey list \<Rightarrow> 'b Controller \<Rightarrow> GoError option" where
  "checkBackendStatus be order c =
    (case co_Backend order c of
       None \<Rightarrow> Some (StatusError Unavailable ''backend not initialized'')
     | Some bs \<Rightarrow> if \<not> comp_Started be bs then Some (StatusError Unavailable ''core is not started yet'') else None)"

definition backendMethods :: "string set" where
  "backendMethods = {''/service.NodeService/GetStats'', ''/service.NodeService/GetUserOnlineStats'',
     ''/service.NodeService/GetUserOnlineIpListStats'', ''/service.NodeService/GetBackendStats'',
     ''/service.NodeService/GetSystemStats'', ''/service.NodeService/Stop'', ''/service.NodeService/SyncUser'',
     ''/service.NodeService/SyncUsers'', ''/service.NodeService/SyncUsersChunked'', ''/service.NodeService/GetLogs''}"

text \<open>
  The chain of interceptors around a handler: logging outermost, which counts a successful call as
  a sign of life, then the key, then the state of the cores for the methods that need one. A
  handler takes the controller and the system and returns an error or a response.
\<close>

type_synonym ('b, 'w, 'r) handler = "'b Controller \<Rightarrow> 'w \<Rightarrow> (GoError + 'r) \<times> 'b Controller \<times> 'w"

definition LoggingInterceptor :: "gotime \<Rightarrow> ('b, 'w, 'r) handler \<Rightarrow> ('b, 'w, 'r) handler" where
  "LoggingInterceptor now handler c w =
    (case handler c w of
       (Inl e, c1, w1) \<Rightarrow> (Inl e, c1, w1)
     | (Inr r, c1, w1) \<Rightarrow> (Inr r, co_NewRequest now c1, w1))"

definition validateApiKeyMiddleware :: "(string \<Rightarrow> 'u option) \<Rightarrow> 'u \<Rightarrow> string list option option \<Rightarrow>
    ('b, 'w, 'r) handler \<Rightarrow> ('b, 'w, 'r) handler" where
  "validateApiKeyMiddleware uuid apiKey metadata handler c w =
    (case rpc_validateApiKey uuid apiKey metadata of Some e \<Rightarrow> (Inl e, c, w) | None \<Rightarrow> handler c w)"

definition CheckBackendMiddleware :: "'b Backend \<Rightarrow> ('b Controller \<Rightarrow> backendKey list) \<Rightarrow>
    ('b, 'w, 'r) handler \<Rightarrow> ('b, 'w, 'r) handler" where
  "CheckBackendMiddleware be ord handler c w =
    (case checkBackendStatus be (ord c) c of Some e \<Rightarrow> (Inl e, c, w) | None \<Rightarrow> handler c w)"

definition ConditionalMiddleware :: "'b Backend \<Rightarrow> ('b Controller \<Rightarrow> backendKey list) \<Rightarrow> (string \<Rightarrow> 'u option) \<Rightarrow> 'u \<Rightarrow>
    gotime \<Rightarrow> string \<Rightarrow> string list option option \<Rightarrow> ('b, 'w, 'r) handler \<Rightarrow> ('b, 'w, 'r) handler" where
  "ConditionalMiddleware be ord uuid apiKey now fullMethod metadata handler =
    LoggingInterceptor now (validateApiKeyMiddleware uuid apiKey metadata
      (if fullMethod \<in> backendMethods then CheckBackendMiddleware be ord handler else handler))"

text \<open>The same chain around the handler of a stream, which has no response but its error.\<close>

type_synonym ('b, 'w) stream_handler = "'b Controller \<Rightarrow> 'w \<Rightarrow> GoError option \<times> 'b Controller \<times> 'w"

definition LoggingStreamInterceptor :: "gotime \<Rightarrow> ('b, 'w) stream_handler \<Rightarrow> ('b, 'w) stream_handler" where
  "LoggingStreamInterceptor now handler c w =
    (case handler c w of
       (Some e, c1, w1) \<Rightarrow> (Some e, c1, w1)
     | (None, c1, w1) \<Rightarrow> (None, co_NewRequest now c1, w1))"

definition validateApiKeyStreamMiddleware :: "(string \<Rightarrow> 'u option) \<Rightarrow> 'u \<Rightarrow> string list option option \<Rightarrow>
    ('b, 'w) stream_handler \<Rightarrow> ('b, 'w) stream_handler" where
  "validateApiKeyStreamMiddleware uuid apiKey metadata handler c w =
    (case rpc_validateApiKey uuid apiKey metadata of Some e \<Rightarrow> (Some e, c, w) | None \<Rightarrow> handler c w)"

definition CheckBackendStreamMiddleware :: "'b Backend \<Rightarrow> ('b Controller \<Rightarrow> backendKey list) \<Rightarrow>
    ('b, 'w) stream_handler \<Rightarrow> ('b, 'w) stream_handler" where
  "CheckBackendStreamMiddleware be ord handler c w =
    (case checkBackendStatus be (ord c) c of Some e \<Rightarrow> (Some e, c, w) | None \<Rightarrow> handler c w)"

definition ConditionalStreamMiddleware :: "'b Backend \<Rightarrow> ('b Controller \<Rightarrow> backendKey list) \<Rightarrow> (string \<Rightarrow> 'u option) \<Rightarrow> 'u \<Rightarrow>
    gotime \<Rightarrow> string \<Rightarrow> string list option option \<Rightarrow> ('b, 'w) stream_handler \<Rightarrow> ('b, 'w) stream_handler" where
  "ConditionalStreamMiddleware be ord uuid apiKey now fullMethod metadata handler =
    LoggingStreamInterceptor now (validateApiKeyStreamMiddleware uuid apiKey metadata
      (if fullMethod \<in> backendMethods then CheckBackendStreamMiddleware be ord handler else handler))"

text \<open>A stream passes exactly the checks of a call whose response is the unit.\<close>

definition as_call :: "('b, 'w) stream_handler \<Rightarrow> ('b, 'w, unit) handler" where
  "as_call handler c w = (case handler c w of (r, cw) \<Rightarrow> (case r of Some e \<Rightarrow> Inl e | None \<Rightarrow> Inr (), cw))"

lemma stream_chain_is_call_chain:
  "as_call (ConditionalStreamMiddleware be ord uuid apiKey now method metadata handler) =
   ConditionalMiddleware be ord uuid apiKey now method metadata (as_call handler)"
proof (intro ext)
  fix c w
  show "as_call (ConditionalStreamMiddleware be ord uuid apiKey now method metadata handler) c w =
      ConditionalMiddleware be ord uuid apiKey now method metadata (as_call handler) c w"
    by (cases "rpc_validateApiKey uuid apiKey metadata"; cases "checkBackendStatus be (ord c) c"; cases "handler c w"; cases "fst (handler c w)")
      (simp_all add: ConditionalStreamMiddleware_def ConditionalMiddleware_def LoggingStreamInterceptor_def LoggingInterceptor_def as_call_def
        validateApiKeyStreamMiddleware_def validateApiKeyMiddleware_def CheckBackendStreamMiddleware_def CheckBackendMiddleware_def)
qed

section \<open>Start and stop\<close>

definition rpc_Start :: "('b, 'c, 'w) NodeEnv \<Rightarrow> 'b Backend \<Rightarrow> ('b Controller \<Rightarrow> backendKey list) \<Rightarrow> gotime \<Rightarrow>
    string \<Rightarrow> BackendMsg \<Rightarrow> 'b Controller \<Rightarrow> 'w \<Rightarrow> (string + BaseInfo) \<times> 'b Controller \<times> 'w" where
  "rpc_Start env be ord now clientIP msg c w =
    (let existing = (co_Backend (ord c) c \<noteq> None);
         sameClient = (existing \<and> co_clientIP c = clientIP);
         (c1, w1) = (if existing \<and> \<not> sameClient then Disconnect env (ord c) c w else (c, w))
     in case StartBackend env msg c1 w1 of
          (Some e, c2, w2) \<Rightarrow> (Inl e, c2, w2)
        | (None, c2, w2) \<Rightarrow>
            let c3 = (if sameClient then co_NewRequest now c2
                      else co_Connect now clientIP (bm_KeepAlive msg) c2)
            in (case BaseInfoResponse env be (ord c3) c3 of (info, c4) \<Rightarrow> (Inr info, c4, w2)))"

definition rpc_Stop :: "('b, 'c, 'w) NodeEnv \<Rightarrow> ('b Controller \<Rightarrow> backendKey list) \<Rightarrow> 'b Controller \<Rightarrow> 'w \<Rightarrow>
    'b Controller \<times> 'w" where
  "rpc_Stop env ord c w = Disconnect env (ord c) c w"

text \<open>
  The REST handlers answer with a status code. \<open>body\<close> is the decoded request or the error of reading
  it, \<open>remote\<close> the host part of the remote address, if it can be split.
\<close>

datatype 'r http = HttpOK 'r | HttpError nat string

definition rest_Start :: "('b, 'c, 'w) NodeEnv \<Rightarrow> 'b Backend \<Rightarrow> ('b Controller \<Rightarrow> backendKey list) \<Rightarrow> gotime \<Rightarrow>
    string option \<Rightarrow> (string + BackendMsg) \<Rightarrow> 'b Controller \<Rightarrow> 'w \<Rightarrow> BaseInfo http \<times> 'b Controller \<times> 'w" where
  "rest_Start env be ord now remote body c w =
    (case body of
       Inl e \<Rightarrow> (HttpError 400 e, c, w)
     | Inr msg \<Rightarrow>
         (case remote of
            None \<Rightarrow> (HttpError 503 ''unknown ip'', c, w)
          | Some ip \<Rightarrow>
              let existing = (co_Backend (ord c) c \<noteq> None);
                  sameClient = (existing \<and> co_clientIP c = ip);
                  (c1, w1) = (if existing \<and> \<not> sameClient then Disconnect env (ord c) c w else (c, w))
              in case StartBackend env msg c1 w1 of
                   (Some e, c2, w2) \<Rightarrow> (HttpError 503 e, c2, w2)
                 | (None, c2, w2) \<Rightarrow>
                     let c3 = (if sameClient then co_NewRequest now c2
                               else co_Connect now ip (bm_KeepAlive msg) c2)
                     in (case BaseInfoResponse env be (ord c3) c3 of (info, c4) \<Rightarrow> (HttpOK info, c4, w2))))"

definition rest_validateApiKey :: "(string \<Rightarrow> 'u option) \<Rightarrow> 'u \<Rightarrow> string \<Rightarrow> (nat \<times> string) option" where
  "rest_validateApiKey uuid apiKey header =
    (if header = [] then Some (401, ''missing x-api-key header'')
     else case uuid header of
       None \<Rightarrow> Some (422, ''invalid api key format: must be a valid UUID'')
     | Some key \<Rightarrow> if key \<noteq> apiKey then Some (403, ''api key mismatch'') else None)"

definition rest_checkBackend :: "'b Backend \<Rightarrow> backendKey list \<Rightarrow> 'b Controller \<Rightarrow> (nat \<times> string) option" where
  "rest_checkBackend be order c =
    (case co_Backend order c of
       None \<Rightarrow> Some (500, ''backend not initialized'')
     | Some bs \<Rightarrow> if \<not> comp_Started be bs then Some (503, ''core is not started yet'') else None)"

definition rest_Stop :: "('b, 'c, 'w) NodeEnv \<Rightarrow> ('b Controller \<Rightarrow> backendKey list) \<Rightarrow> 'b Controller \<Rightarrow> 'w \<Rightarrow>
    unit http \<times> 'b Controller \<times> 'w" where
  "rest_Stop env ord c w = (HttpOK (), Disconnect env (ord c) c w)"

fun http_status :: "'r http \<Rightarrow> nat" where
  "http_status (HttpOK _) = 200"
| "http_status (HttpError status _) = status"

definition rest_track :: "gotime \<Rightarrow> nat \<Rightarrow> 'b Controller \<Rightarrow> 'b Controller" where
  "rest_track now status c = (if status \<ge> 200 \<and> status < 300 then co_NewRequest now c else c)"

text \<open>
  The chain of the router around a handler: the key, then the sign of life for a successful
  answer, then, on the private routes, the state of the cores.
\<close>

definition rest_route :: "'b Backend \<Rightarrow> ('b Controller \<Rightarrow> backendKey list) \<Rightarrow> (string \<Rightarrow> 'u option) \<Rightarrow> 'u \<Rightarrow>
    gotime \<Rightarrow> bool \<Rightarrow> string \<Rightarrow> ('b Controller \<Rightarrow> 'w \<Rightarrow> 'r http \<times> 'b Controller \<times> 'w) \<Rightarrow>
    'b Controller \<Rightarrow> 'w \<Rightarrow> 'r http \<times> 'b Controller \<times> 'w" where
  "rest_route be ord uuid apiKey now private header handler c w =
    (case rest_validateApiKey uuid apiKey header of
       Some (status, msg) \<Rightarrow> (HttpError status msg, c, w)
     | None \<Rightarrow>
         (case (case (if private then rest_checkBackend be (ord c) c else None) of
                  Some (status, msg) \<Rightarrow> (HttpError status msg, c, w)
                | None \<Rightarrow> handler c w) of
            (h, c1, w1) \<Rightarrow> (h, rest_track now (http_status h) c1, w1)))"

section \<open>Users\<close>

text \<open>
  The handlers call the composite over the running cores: \<open>node\<close> is the composite, and its cores
  change in place. A received message of a stream is \<open>None\<close> at its end or on an error.
\<close>

fun rpc_SyncUser :: "'b Backend \<Rightarrow> UserPtr option list \<Rightarrow> 'b list \<Rightarrow> GoError option \<times> 'b list" where
  "rpc_SyncUser be [] node = (None, node)"
| "rpc_SyncUser be (None # rest) node = (None, node)"
| "rpc_SyncUser be (Some user # rest) node =
    (if GetEmail user = [] then (Some (PlainError ''email is required''), node)
     else case comp_SyncUser be user node of
       (Some e, node') \<Rightarrow> (Some (StatusError Internal (''failed to update user: '' @ e)), node')
     | (None, node') \<Rightarrow> rpc_SyncUser be rest node')"

definition rpc_SyncUsers :: "'b Backend \<Rightarrow> UserPtr list \<Rightarrow> 'b list \<Rightarrow> GoError option \<times> 'b list" where
  "rpc_SyncUsers be users node =
    (case comp_SyncUsers be users node of (e, node') \<Rightarrow> (map_option PlainError e, node'))"

record UsersChunk =
  uc_Index :: u64
  uc_Users :: "UserPtr list"
  uc_Last :: bool

definition add_chunk :: "UsersChunk \<Rightarrow> (u64 \<rightharpoonup> UserPtr list) \<Rightarrow> (u64 \<rightharpoonup> UserPtr list)" where
  "add_chunk ch chunks = chunks(uc_Index ch \<mapsto> map_get [] chunks (uc_Index ch) @ uc_Users ch)"

text \<open>Receiving: the end of the stream is the end of the list, a broken stream an error text.\<close>

fun receive_chunks :: "(string + UsersChunk) list \<Rightarrow> (u64 \<rightharpoonup> UserPtr list) \<Rightarrow>
    string + (u64 \<rightharpoonup> UserPtr list) \<times> u64 \<times> bool" where
  "receive_chunks [] chunks = Inr (chunks, 0, False)"
| "receive_chunks (Inl e # rest) chunks = Inl e"
| "receive_chunks (Inr ch # rest) chunks =
    (if uc_Last ch then Inr (add_chunk ch chunks, uc_Index ch, True)
     else receive_chunks rest (add_chunk ch chunks))"

definition apply_chunked :: "'b Backend \<Rightarrow> UserPtr list \<Rightarrow> 'b list \<Rightarrow> string option \<times> 'b list" where
  "apply_chunked be users node =
    (if length users > 100 then comp_UpdateUsersAndRestart be users node else comp_UpdateUsers be users node)"

text \<open>The result is \<open>None\<close> when the reassembly does not return.\<close>

definition rpc_SyncUsersChunked :: "'b Backend \<Rightarrow> (string + UsersChunk) list \<Rightarrow> 'b list \<Rightarrow> (GoError option \<times> 'b list) option" where
  "rpc_SyncUsersChunked be stream node =
    (case receive_chunks stream Map.empty of
       Inl e \<Rightarrow> Some (Some (StatusError Internal (''failed to receive chunk: '' @ e)), node)
     | Inr (chunks, lastIndex, sawLast) \<Rightarrow>
         (case BuildUsersFromChunks chunks lastIndex sawLast of
            None \<Rightarrow> None
          | Some (Inl e) \<Rightarrow> Some (Some (StatusError InvalidArgument e), node)
          | Some (Inr users) \<Rightarrow>
              (case apply_chunked be users node of
                 (Some e, node') \<Rightarrow> Some (Some (StatusError Internal (''failed to update users: '' @ e)), node')
               | (None, node') \<Rightarrow> Some (None, node'))))"

definition rest_SyncUser :: "'b Backend \<Rightarrow> (string + UserPtr) \<Rightarrow> 'b list \<Rightarrow> unit http \<times> 'b list" where
  "rest_SyncUser be body node =
    (case body of
       Inl e \<Rightarrow> (HttpError 400 e, node)
     | Inr user \<Rightarrow>
         if GetEmail user = [] then (HttpError 400 ''email is required'', node)
         else case comp_SyncUser be user node of
           (Some e, node') \<Rightarrow> (HttpError 500 e, node')
         | (None, node') \<Rightarrow> (HttpOK (), node'))"

definition rest_SyncUsers :: "'b Backend \<Rightarrow> (string + UserPtr list) \<Rightarrow> 'b list \<Rightarrow> unit http \<times> 'b list" where
  "rest_SyncUsers be body node =
    (case body of
       Inl e \<Rightarrow> (HttpError 400 e, node)
     | Inr users \<Rightarrow>
         (case comp_SyncUsers be users node of
            (Some e, node') \<Rightarrow> (HttpError 500 e, node')
          | (None, node') \<Rightarrow> (HttpOK (), node')))"

text \<open>The frames of the REST stream: \<open>None\<close> is an empty frame, which is skipped.\<close>

fun rest_receive :: "(string + UsersChunk) option list \<Rightarrow> (string + UsersChunk) list" where
  "rest_receive [] = []"
| "rest_receive (None # rest) = rest_receive rest"
| "rest_receive (Some r # rest) = r # rest_receive rest"

definition rest_SyncUsersChunked :: "'b Backend \<Rightarrow> (string + UsersChunk) option list \<Rightarrow> 'b list \<Rightarrow>
    (unit http \<times> 'b list) option" where
  "rest_SyncUsersChunked be frames node =
    (case receive_chunks (rest_receive frames) Map.empty of
       Inl e \<Rightarrow> Some (HttpError 400 e, node)
     | Inr (chunks, lastIndex, sawLast) \<Rightarrow>
         (case BuildUsersFromChunks chunks lastIndex sawLast of
            None \<Rightarrow> None
          | Some (Inl e) \<Rightarrow> Some (HttpError 400 e, node)
          | Some (Inr users) \<Rightarrow>
              (case apply_chunked be users node of
                 (Some e, node') \<Rightarrow> Some (HttpError 500 e, node')
               | (None, node') \<Rightarrow> Some (HttpOK (), node'))))"

section \<open>Statistics\<close>

text \<open>The errors of the cores carry a gRPC status or are plain; \<open>classify\<close> tells which.\<close>

definition rpc_GetStats :: "(string \<Rightarrow> GoError) \<Rightarrow> (GoError \<Rightarrow> string) \<Rightarrow> 'b Backend \<Rightarrow> StatRequest \<Rightarrow> 'b list \<Rightarrow>
    (GoError option + Stat list) \<times> 'b list" where
  "rpc_GetStats classify err_text be request node =
    (case comp_GetStats be request node of
       (Inl e, node') \<Rightarrow> (Inl (InterceptNotFound err_text (Some (classify e))), node')
     | (Inr stats, node') \<Rightarrow> (Inr stats, node'))"

definition rpc_GetUserOnlineStats :: "(string \<Rightarrow> GoError) \<Rightarrow> (GoError \<Rightarrow> string) \<Rightarrow> 'b Backend \<Rightarrow> StatRequest \<Rightarrow> 'b list \<Rightarrow>
    GoError option + OnlineStatResponse" where
  "rpc_GetUserOnlineStats classify err_text be request node =
    (case comp_GetUserOnlineStats be (sr_Name request) node of
       Inl e \<Rightarrow> Inl (InterceptNotFound err_text (Some (classify e)))
     | Inr s \<Rightarrow> Inr s)"

definition rpc_GetUserOnlineIpListStats :: "('b, 'c, 'w) NodeEnv \<Rightarrow> 'b Backend \<Rightarrow> backendKey list \<Rightarrow> StatRequest \<Rightarrow>
    'b Controller \<Rightarrow> StatsOnlineIpListResponse" where
  "rpc_GetUserOnlineIpListStats env be order request c = UserOnlineIpList env be order (sr_Name request) c"

definition rpc_GetOutboundsLatency :: "'b Backend \<Rightarrow> backendKey list \<Rightarrow> string \<Rightarrow> 'b Controller \<Rightarrow> string + Latency list" where
  "rpc_GetOutboundsLatency be order name c = co_OutboundsLatency be order name c"

text \<open>A failed statistics request over REST: the code of the status, or that of an unknown error.\<close>

definition error_code :: "GoError option \<Rightarrow> Code" where
  "error_code err = (case err of None \<Rightarrow> OK | Some (StatusError code _) \<Rightarrow> code | Some (PlainError _) \<Rightarrow> Unknown)"

definition rest_error :: "(GoError \<Rightarrow> string) \<Rightarrow> GoError \<Rightarrow> 'r http" where
  "rest_error err_text e =
    (let err = InterceptNotFound err_text (Some e)
     in HttpError (GrpcCodeToHTTP (error_code err)) (case err of None \<Rightarrow> [] | Some e' \<Rightarrow> err_text e'))"

definition rest_GetStats :: "(string \<Rightarrow> GoError) \<Rightarrow> (GoError \<Rightarrow> string) \<Rightarrow> 'b Backend \<Rightarrow> (string + StatRequest) \<Rightarrow>
    'b list \<Rightarrow> Stat list http \<times> 'b list" where
  "rest_GetStats classify err_text be body node =
    (case body of
       Inl e \<Rightarrow> (HttpError 400 e, node)
     | Inr request \<Rightarrow>
         (case comp_GetStats be request node of
            (Inl e, node') \<Rightarrow> (rest_error err_text (classify e), node')
          | (Inr stats, node') \<Rightarrow> (HttpOK stats, node')))"

definition rest_GetUserOnlineStat :: "(string \<Rightarrow> GoError) \<Rightarrow> (GoError \<Rightarrow> string) \<Rightarrow> 'b Backend \<Rightarrow> (string + StatRequest) \<Rightarrow>
    'b list \<Rightarrow> OnlineStatResponse http" where
  "rest_GetUserOnlineStat classify err_text be body node =
    (case body of
       Inl e \<Rightarrow> HttpError 400 e
     | Inr request \<Rightarrow>
         (case comp_GetUserOnlineStats be (sr_Name request) node of
            Inl e \<Rightarrow> rest_error err_text (classify e) | Inr s \<Rightarrow> HttpOK s))"

definition rest_GetUserOnlineIpListStats :: "(string \<Rightarrow> GoError) \<Rightarrow> (GoError \<Rightarrow> string) \<Rightarrow> 'b Backend \<Rightarrow>
    (string + StatRequest) \<Rightarrow> 'b list \<Rightarrow> StatsOnlineIpListResponse http" where
  "rest_GetUserOnlineIpListStats classify err_text be body node =
    (case body of
       Inl e \<Rightarrow> HttpError 400 e
     | Inr request \<Rightarrow>
         (case comp_GetUserOnlineIpListStats be (sr_Name request) node of
            Inl e \<Rightarrow> rest_error err_text (classify e) | Inr s \<Rightarrow> HttpOK s))"

definition rest_GetOutboundsLatency :: "'b Backend \<Rightarrow> backendKey list \<Rightarrow> (string + string) \<Rightarrow> 'b Controller \<Rightarrow> Latency list http" where
  "rest_GetOutboundsLatency be order body c =
    (case body of
       Inl e \<Rightarrow> HttpError 400 e
     | Inr name \<Rightarrow> (case co_OutboundsLatency be order name c of Inl e \<Rightarrow> HttpError 502 e | Inr l \<Rightarrow> HttpOK l))"

section \<open>The cores that run\<close>

text \<open>
  What the operating system promises: \<open>live\<close> is the set of running cores. A constructor that succeeds
  starts one new core, one that fails leaves none behind, and a shutdown stops its core.
\<close>

definition node_env_ok :: "('b, 'c, 'w) NodeEnv \<Rightarrow> ('w \<Rightarrow> 'b set) \<Rightarrow> bool" where
  "node_env_ok env live \<longleftrightarrow>
    (\<forall>t cf us p q w b w'. ne_New env t cf us p q w = (Inr b, w') \<longrightarrow> b \<notin> live w \<and> live w' = insert b (live w)) \<and>
    (\<forall>t cf us p q w e w'. ne_New env t cf us p q w = (Inl e, w') \<longrightarrow> live w' = live w) \<and>
    (\<forall>b w. live (ne_Shutdown env b w) = live w - {b}) \<and>
    (\<forall>w. live (snd (ne_FindFreePort env w)) = live w)"

definition table_ok :: "('w \<Rightarrow> 'b set) \<Rightarrow> 'b Controller \<Rightarrow> 'w \<Rightarrow> bool" where
  "table_ok live c w \<longleftrightarrow> finite (dom (co_backends c)) \<and> inj_on (co_backends c) (dom (co_backends c)) \<and>
    live w = ran (co_backends c)"

lemma node_env_okD:
  assumes "node_env_ok env live"
  shows "ne_New env t cf us p q w = (Inr b, w') \<Longrightarrow> b \<notin> live w \<and> live w' = insert b (live w)"
    and "ne_New env t cf us p q w = (Inl e, w') \<Longrightarrow> live w' = live w"
    and "live (ne_Shutdown env b w) = live w - {b}"
    and "live (snd (ne_FindFreePort env w)) = live w"
proof -
  note ok = assms [unfolded node_env_ok_def]
  show "ne_New env t cf us p q w = (Inr b, w') \<Longrightarrow> b \<notin> live w \<and> live w' = insert b (live w)"
    using conjunct1 [OF ok] by iprover
  show "ne_New env t cf us p q w = (Inl e, w') \<Longrightarrow> live w' = live w"
    using conjunct1 [OF conjunct2 [OF ok]] by iprover
  show "live (ne_Shutdown env b w) = live w - {b}" "live (snd (ne_FindFreePort env w)) = live w"
    using conjunct2 [OF conjunct2 [OF ok]] by iprover+
qed

lemma launch_ok_live:
  assumes "node_env_ok env live" "launch env c msg w = (Inr b, w')"
  shows "b \<notin> live w \<and> live w' = insert b (live w)"
proof (cases env c msg w rule: launch_cases)
  case (1 e)
  with assms(2) show ?thesis by simp
next
  case (2 cf us)
  with assms(2) show ?thesis by (intro node_env_okD(1) [OF assms(1)]) simp
qed

lemma launch_failed_live:
  assumes "node_env_ok env live" "launch env c msg w = (Inl e, w')"
  shows "live w' = live w"
proof (cases env c msg w rule: launch_cases)
  case (1 e)
  with assms(2) show ?thesis by simp
next
  case (2 cf us)
  with assms(2) show ?thesis by (intro node_env_okD(2) [OF assms(1)]) simp
qed

lemma ran_delete:
  assumes "inj_on m (dom m)" "m k = Some b" shows "ran (map_delete k m) = ran m - {b}"
proof -
  have "k' = k" if "m k' = Some b" for k'
    using inj_onD [OF assms(1), of k' k] assms(2) that by (simp add: domI)
  have "map_delete k m k' = Some y \<longleftrightarrow> m k' = Some y \<and> y \<noteq> b" for k' y
    using assms(2) by (cases "k' = k") (auto dest: \<open>\<And>k'. m k' = Some b \<Longrightarrow> k' = k\<close>)
  then show ?thesis unfolding ran_def by blast
qed

lemma inj_delete: "inj_on m (dom m) \<Longrightarrow> inj_on (map_delete k m) (dom (map_delete k m))"
  by (auto simp: inj_on_def map_delete_def)

lemma inj_upd: "inj_on m (dom m) \<Longrightarrow> b \<notin> ran m \<Longrightarrow> inj_on (m(k \<mapsto> b)) (dom (m(k \<mapsto> b)))"
  by (auto simp: inj_on_def ran_def)

lemma StartBackend_table:
  assumes ok: "node_env_ok env live" and tab: "table_ok live c w" and res: "StartBackend env msg c w = (err, c', w')"
  shows "table_ok live c' w'"
proof (cases "backendDisabled env (bm_Type msg)")
  case True
  with tab res show ?thesis by (simp add: StartBackend_def)
next
  case False
  let ?k = "msg_key env msg" and ?m = "map_delete (msg_key env msg) (co_backends c)"
  let ?c1 = "c\<lparr>co_backends := ?m\<rparr>"
  let ?w1 = "case co_backends c ?k of None \<Rightarrow> w | Some b \<Rightarrow> ne_Shutdown env b w"
  have inj: "inj_on (co_backends c) (dom (co_backends c))" and fin: "finite (dom (co_backends c))"
    and lv: "live w = ran (co_backends c)" using tab by (simp_all add: table_ok_def)
  have live1: "live ?w1 = ran ?m"
  proof (cases "co_backends c ?k")
    case None
    then have "?m = co_backends c" by (auto simp: map_delete_def fun_eq_iff)
    with None lv show ?thesis by simp
  next
    case (Some b)
    then show ?thesis using ran_delete [OF inj Some] ok lv by (simp add: node_env_ok_def)
  qed
  have m: "inj_on ?m (dom ?m)" "finite (dom ?m)" using inj_delete [OF inj] fin by simp_all
  obtain r w2 where l: "launch env ?c1 msg ?w1 = (r, w2)" by fastforce
  show ?thesis
  proof (cases r)
    case (Inl e)
    then have "c' = ?c1" "w' = w2" using res l False by (simp_all add: StartBackend_def Let_def)
    moreover have "live w2 = ran ?m" using launch_failed_live [OF ok l [unfolded Inl]] live1 by simp
    ultimately show ?thesis using m by (simp add: table_ok_def)
  next
    case (Inr b)
    then have c': "c' = ?c1\<lparr>co_backends := ?m(?k \<mapsto> b)\<rparr>" "w' = w2"
      using res l False by (simp_all add: StartBackend_def Let_def)
    have new: "b \<notin> ran ?m" "live w2 = insert b (ran ?m)"
      using launch_ok_live [OF ok l [unfolded Inr]] live1 by simp_all
    have "inj_on (?m(?k \<mapsto> b)) (dom (?m(?k \<mapsto> b)))" using inj_upd [OF m(1) new(1)] .
    moreover have "ran (?m(?k \<mapsto> b)) = insert b (ran ?m)" by (rule ran_map_upd) (simp add: map_delete_def)
    ultimately show ?thesis using m new by (simp add: c' table_ok_def)
  qed
qed

lemma shutdown_all:
  assumes "node_env_ok env live" shows "live (fold (ne_Shutdown env) bs w) = live w - set bs"
proof (induction bs arbitrary: w)
  case (Cons b bs)
  have "live (ne_Shutdown env b w) = live w - {b}" using assms by (simp add: node_env_ok_def)
  with Cons show ?case by auto
qed simp

lemma Disconnect_table:
  assumes ok: "node_env_ok env live" and tab: "table_ok live c w" and en: "enumerates order (co_backends c)"
    and res: "Disconnect env order c w = (c', w')"
  shows "table_ok live c' w' \<and> co_backends c' = Map.empty \<and> co_clientIP c' = [] \<and> co_shaper c' = None \<and>
    co_jobs c' = None \<and> co_lost c' = co_lost c \<and> live w' = {}"
proof -
  let ?w1 = "fold (ne_Shutdown env) (listed order (c\<lparr>co_jobs := None\<rparr>)) w"
  have "set (listed order (c\<lparr>co_jobs := None\<rparr>)) = ran (co_backends c)"
    using listed_set [of order "c\<lparr>co_jobs := None\<rparr>"] en by simp
  then have "live ?w1 = {}" using shutdown_all [OF ok] tab by (simp add: table_ok_def)
  then have "live (snd (ne_FindFreePort env ?w1)) = {}"
      "live (snd (ne_FindFreePort env (snd (ne_FindFreePort env ?w1)))) = {}"
    using ok by (simp_all add: node_env_ok_def)
  then show ?thesis
    using res by (auto simp: Disconnect_def Let_def case_prod_beta closeShaping_def table_ok_def)
qed

lemma table_ok_cong: "co_backends c' = co_backends c \<Longrightarrow> table_ok live c' w = table_ok live c w"
  by (simp add: table_ok_def)

lemma capabilities_backends [simp]: "co_backends (snd (capabilities env c)) = co_backends c"
  by (simp add: capabilities_def Let_def split: option.split)

lemma BaseInfo_fields [simp]:
  "co_backends (snd (BaseInfoResponse env be order c)) = co_backends c"
  "co_clientIP (snd (BaseInfoResponse env be order c)) = co_clientIP c"
  "co_lost (snd (BaseInfoResponse env be order c)) = co_lost c"
  "co_jobs (snd (BaseInfoResponse env be order c)) = co_jobs c"
  by (simp_all add: BaseInfoResponse_def capabilities_def Let_def split: option.split prod.split)

lemma Connect_fields [simp]:
  "co_backends (co_Connect now ip ka c) = co_backends c" "co_clientIP (co_Connect now ip ka c) = ip"
  "co_backends (co_NewRequest now c) = co_backends c" "co_clientIP (co_NewRequest now c) = co_clientIP c"
  by (simp_all add: co_Connect_def co_NewRequest_def Let_def)

text \<open>
  A history of the service: requests of clients and the ticks of the background jobs, in any order.
  \<open>ord\<close> is the order in which a loop visits the table, which may differ from step to step.
\<close>

inductive service_run :: "('b, 'c, 'w) NodeEnv \<Rightarrow> 'b Backend \<Rightarrow> 'w \<Rightarrow> 'b Controller \<Rightarrow> 'w \<Rightarrow> bool" for env be w0 where
  run_new: "new_Controller env w0 = (c, w) \<Longrightarrow> service_run env be w0 c w"
| run_rpc_Start: "service_run env be w0 c w \<Longrightarrow> enumerates (ord c) (co_backends c) \<Longrightarrow>
    rpc_Start env be ord now ip msg c w = (r, c', w') \<Longrightarrow> service_run env be w0 c' w'"
| run_rest_Start: "service_run env be w0 c w \<Longrightarrow> enumerates (ord c) (co_backends c) \<Longrightarrow>
    rest_Start env be ord now remote body c w = (h, c', w') \<Longrightarrow> service_run env be w0 c' w'"
| run_Stop: "service_run env be w0 c w \<Longrightarrow> enumerates (ord c) (co_backends c) \<Longrightarrow>
    rpc_Stop env ord c w = (c', w') \<Longrightarrow> service_run env be w0 c' w'"
| run_NewRequest: "service_run env be w0 c w \<Longrightarrow> service_run env be w0 (co_NewRequest now c) w"
| run_keepAlive: "service_run env be w0 c w \<Longrightarrow> enumerates (ord c) (co_backends c) \<Longrightarrow>
    keepAlive_tick env (ord c) now ka c w = (c', w') \<Longrightarrow> service_run env be w0 c' w'"
| run_record: "service_run env be w0 c w \<Longrightarrow> enumerates (ord c) (co_backends c) \<Longrightarrow>
    service_run env be w0 (recordSystemStats_tick env be (ord c) stats c) w"

text \<open>The steps of a start: the possible takeover, the core, then the connection and the answer.\<close>

definition same_client :: "('b Controller \<Rightarrow> backendKey list) \<Rightarrow> string \<Rightarrow> 'b Controller \<Rightarrow> bool" where
  "same_client ord ip c \<longleftrightarrow> co_Backend (ord c) c \<noteq> None \<and> co_clientIP c = ip"

definition takeover :: "('b, 'c, 'w) NodeEnv \<Rightarrow> ('b Controller \<Rightarrow> backendKey list) \<Rightarrow> string \<Rightarrow> 'b Controller \<Rightarrow> 'w \<Rightarrow>
    'b Controller \<times> 'w" where
  "takeover env ord ip c w =
    (if co_Backend (ord c) c \<noteq> None \<and> \<not> same_client ord ip c then Disconnect env (ord c) c w else (c, w))"

definition connected :: "gotime \<Rightarrow> string \<Rightarrow> BackendMsg \<Rightarrow> bool \<Rightarrow> 'b Controller \<Rightarrow> 'b Controller" where
  "connected now ip msg same c = (if same then co_NewRequest now c else co_Connect now ip (bm_KeepAlive msg) c)"

lemma rpc_Start_failed:
  assumes "takeover env ord ip c w = (c1, w1)" "StartBackend env msg c1 w1 = (Some e, c2, w2)"
  shows "rpc_Start env be ord now ip msg c w = (Inl e, c2, w2)"
  using assms unfolding rpc_Start_def Let_def takeover_def same_client_def by simp

lemma rpc_Start_done:
  assumes "takeover env ord ip c w = (c1, w1)" "StartBackend env msg c1 w1 = (None, c2, w2)"
    and "c3 = connected now ip msg (same_client ord ip c) c2"
  shows "rpc_Start env be ord now ip msg c w =
    (Inr (fst (BaseInfoResponse env be (ord c3) c3)), snd (BaseInfoResponse env be (ord c3) c3), w2)"
  using assms unfolding rpc_Start_def Let_def takeover_def same_client_def connected_def
  by (simp add: case_prod_beta)

lemma rest_Start_failed:
  assumes "takeover env ord ip c w = (c1, w1)" "StartBackend env msg c1 w1 = (Some e, c2, w2)"
  shows "rest_Start env be ord now (Some ip) (Inr msg) c w = (HttpError 503 e, c2, w2)"
  using assms unfolding rest_Start_def Let_def takeover_def same_client_def by simp

lemma rest_Start_done:
  assumes "takeover env ord ip c w = (c1, w1)" "StartBackend env msg c1 w1 = (None, c2, w2)"
    and "c3 = connected now ip msg (same_client ord ip c) c2"
  shows "rest_Start env be ord now (Some ip) (Inr msg) c w =
    (HttpOK (fst (BaseInfoResponse env be (ord c3) c3)), snd (BaseInfoResponse env be (ord c3) c3), w2)"
  using assms unfolding rest_Start_def Let_def takeover_def same_client_def connected_def
  by (simp add: case_prod_beta)

lemma Start_cases:
  obtains (failed) c1 w1 e c2 w2 where "takeover env ord ip c w = (c1, w1)" "StartBackend env msg c1 w1 = (Some e, c2, w2)"
  | (success) c1 w1 c2 w2 where "takeover env ord ip c w = (c1, w1)" "StartBackend env msg c1 w1 = (None, c2, w2)"
  by (metis not_Some_eq prod_cases3 surj_pair)

text \<open>The REST handler answers with what the gRPC handler answers and does the same.\<close>

lemma rest_Start_rpc:
  "rest_Start env be ord now (Some ip) (Inr msg) c w =
    (case rpc_Start env be ord now ip msg c w of
       (Inl e, c', w') \<Rightarrow> (HttpError 503 e, c', w') | (Inr info, c', w') \<Rightarrow> (HttpOK info, c', w'))"
proof (cases rule: Start_cases [where env = env and ord = ord and ip = ip and c = c and w = w and msg = msg])
  case failed
  then show ?thesis by (simp add: rest_Start_failed rpc_Start_failed)
next
  case success
  then show ?thesis by (simp add: rest_Start_done [OF success refl] rpc_Start_done [OF success refl])
qed

lemma takeover_table:
  assumes "node_env_ok env live" "enumerates (ord c) (co_backends c)" "table_ok live c w"
    and "takeover env ord ip c w = (c1, w1)"
  shows "table_ok live c1 w1"
  using assms Disconnect_table [OF assms(1,3,2)] by (auto simp: takeover_def split: if_splits)

text \<open>A client that is not the one in control starts from an empty table.\<close>

lemma takeover_empty:
  assumes "node_env_ok env live" "enumerates (ord c) (co_backends c)" "table_ok live c w"
    and "takeover env ord ip c w = (c1, w1)" "\<not> same_client ord ip c"
  shows "co_backends c1 = Map.empty"
proof (cases "co_Backend (ord c) c = None")
  case True
  then have "co_backends c = Map.empty"
    using co_Backend_None [OF _ assms(2)] assms(3) by (simp add: table_ok_def)
  with True assms(4) show ?thesis by (simp add: takeover_def)
next
  case False
  then show ?thesis using Disconnect_table [OF assms(1,3,2)] assms(4,5) by (simp add: takeover_def)
qed

lemma connected_fields [simp]:
  "co_backends (connected now ip msg same c) = co_backends c"
  "co_clientIP (connected now ip msg same c) = (if same then co_clientIP c else ip)"
  by (simp_all add: connected_def)

lemma rpc_Start_table:
  assumes ok: "node_env_ok env live" and o: "enumerates (ord c) (co_backends c)" and tab: "table_ok live c w"
    and res: "rpc_Start env be ord now ip msg c w = (r, c', w')"
  shows "table_ok live c' w'"
proof (cases rule: Start_cases [where env = env and ord = ord and ip = ip and c = c and w = w and msg = msg])
  case (failed c1 w1 e c2 w2)
  then show ?thesis
    using StartBackend_table [OF ok takeover_table [OF ok o tab failed(1)] failed(2)] res
    by (simp add: rpc_Start_failed)
next
  case (success c1 w1 c2 w2)
  then have "table_ok live c2 w2"
    using StartBackend_table [OF ok takeover_table [OF ok o tab success(1)] success(2)] by simp
  then show ?thesis using rpc_Start_done [OF success refl] res by (auto simp: table_ok_def)
qed

lemma refreshShaping_backends [simp]: "co_backends (refreshShaping env be order c) = co_backends c"
  by (simp add: refreshShaping_def Let_def split: option.split)

lemma record_backends [simp]: "co_backends (recordSystemStats_tick env be order stats c) = co_backends c"
  by (simp add: recordSystemStats_tick_def split: option.split)

lemma service_table:
  assumes "service_run env be w0 c w" and "node_env_ok env live" and "live w0 = {}"
  shows "table_ok live c w"
  using assms(1)
proof (induction rule: service_run.induct)
  case (run_new c w)
  then show ?case using node_env_okD(4) [OF assms(2)] assms(3)
    by (auto simp: new_Controller_def table_ok_def case_prod_beta)
next
  case (run_rpc_Start c w ord now ip msg r c' w')
  then show ?case using rpc_Start_table [OF assms(2)] by blast
next
  case (run_rest_Start c w ord now remote body h c' w')
  show ?case
  proof (cases "\<exists>msg ip. body = Inr msg \<and> remote = Some ip")
    case True
    then obtain msg ip where b: "body = Inr msg" "remote = Some ip" by blast
    obtain r c1 w1 where r: "rpc_Start env be ord now ip msg c w = (r, c1, w1)" by (metis prod_cases3)
    then have "c' = c1" "w' = w1"
      using run_rest_Start.hyps(3) by (cases r; simp add: b rest_Start_rpc)+
    then show ?thesis using rpc_Start_table [OF assms(2) run_rest_Start.hyps(2) run_rest_Start.IH r] by simp
  next
    case False
    then have "c' = c" "w' = w"
      using run_rest_Start.hyps(3) by (auto simp: rest_Start_def split: sum.splits option.splits)
    then show ?thesis using run_rest_Start.IH by simp
  qed
next
  case (run_Stop c w ord c' w')
  then show ?case
    using Disconnect_table [OF assms(2) run_Stop.IH run_Stop.hyps(2)] by (simp add: rpc_Stop_def)
next
  case (run_NewRequest c w now)
  then show ?case by (simp add: table_ok_def)
next
  case (run_keepAlive c w ord now ka c' w')
  then show ?case
    using Disconnect_table [OF assms(2) run_keepAlive.IH run_keepAlive.hyps(2)]
    by (auto simp: keepAlive_tick_def split: if_splits)
next
  case (run_record c w ord stats)
  then show ?case by (simp add: table_ok_def)
qed

lemma StartBackend_result:
  assumes "StartBackend env msg c w = (err, c', w')"
  shows "co_clientIP c' = co_clientIP c" "co_jobs c' = co_jobs c" "co_lost c' = co_lost c"
    and "err = None \<Longrightarrow> \<exists>b. co_backends c' = (map_delete (msg_key env msg) (co_backends c))(msg_key env msg \<mapsto> b)"
    and "err \<noteq> None \<Longrightarrow> co_backends c' \<in> {co_backends c, map_delete (msg_key env msg) (co_backends c)}"
  using assms by (auto simp: StartBackend_def Let_def split: if_splits prod.splits sum.splits)

lemma comp_Started_iff: "comp_Started be bs \<longleftrightarrow> (\<exists>b \<in> set bs. be_Started be b)"
  by (induction bs) auto

section \<open>Streams of chunks\<close>

text \<open>How a client cuts a list of users: numbered parts, the last one flagged.\<close>

definition split_chunks :: "UserPtr list list \<Rightarrow> UsersChunk list" where
  "split_chunks parts = map (\<lambda>i. \<lparr>uc_Index = of_nat i, uc_Users = parts ! i, uc_Last = (Suc i = length parts)\<rparr>) [0..<length parts]"

lemma receive_chunks_last:
  assumes "\<forall>ch \<in> set pre. \<not> uc_Last ch" "uc_Last l"
  shows "receive_chunks (map Inr (pre @ [l]) @ rest) m = Inr (fold add_chunk (pre @ [l]) m, uc_Index l, True)"
  using assms by (induction pre arbitrary: m) auto

lemma add_chunk_apply:
  "add_chunk ch m i = (if i = uc_Index ch then Some (map_get [] m i @ uc_Users ch) else m i)"
  by (simp add: add_chunk_def)

lemma add_chunks_other:
  "i \<notin> uc_Index ` set chs \<Longrightarrow> fold add_chunk chs m i = m i"
proof (induction chs arbitrary: m)
  case (Cons x chs)
  then have "fold add_chunk chs (add_chunk x m) i = add_chunk x m i" by simp
  with Cons.prems show ?case by (simp add: add_chunk_apply [of x m i])
qed simp

lemma add_chunks_distinct:
  assumes "distinct (map uc_Index chs)" "ch \<in> set chs" "m (uc_Index ch) = None"
  shows "fold add_chunk chs m (uc_Index ch) = Some (uc_Users ch)"
  using assms
proof (induction chs arbitrary: m)
  case (Cons x chs)
  show ?case
  proof (cases "x = ch")
    case True
    then have "uc_Index ch \<notin> uc_Index ` set chs" using Cons.prems(1) by simp
    from add_chunks_other [OF this, of "add_chunk x m"] show ?thesis
      using True Cons.prems(3) add_chunk_apply [of x m "uc_Index ch"] by (simp add: map_get_def)
  next
    case False
    then have "ch \<in> set chs" "uc_Index x \<noteq> uc_Index ch" using Cons.prems(1,2) by auto
    moreover from this(2) have "add_chunk x m (uc_Index ch) = None"
      using Cons.prems(3) add_chunk_apply [of x m "uc_Index ch"] by simp
    ultimately show ?thesis using Cons.IH [of "add_chunk x m"] Cons.prems(1) by simp
  qed
qed simp

lemma unat_small: "n < 2 ^ 64 \<Longrightarrow> unat (of_nat n :: u64) = n"
  by (simp add: unat_of_nat take_bit_nat_eq_self)

lemma split_chunks_index:
  assumes "length parts < 2 ^ 64"
  shows "distinct (map uc_Index (split_chunks parts))"
proof -
  have "inj_on (of_nat :: nat \<Rightarrow> u64) {0..<length parts}"
    by (rule inj_on_inverseI [of _ unat]) (use assms in \<open>auto intro: unat_small\<close>)
  then show ?thesis by (simp add: split_chunks_def distinct_map comp_def)
qed

lemma split_chunks_snoc:
  assumes "parts \<noteq> []"
  shows "split_chunks parts = butlast (split_chunks parts) @ [last (split_chunks parts)]"
    and "\<forall>ch \<in> set (butlast (split_chunks parts)). \<not> uc_Last ch"
    and "uc_Last (last (split_chunks parts))" "uc_Index (last (split_chunks parts)) = of_nat (length parts - 1)"
proof -
  obtain n where n: "length parts = Suc n" using assms by (cases parts) auto
  then have s: "split_chunks parts =
      map (\<lambda>i. \<lparr>uc_Index = of_nat i, uc_Users = parts ! i, uc_Last = (i = n)\<rparr>) [0..<n] @
      [\<lparr>uc_Index = of_nat n, uc_Users = parts ! n, uc_Last = True\<rparr>]"
    by (simp add: split_chunks_def)
  show "split_chunks parts = butlast (split_chunks parts) @ [last (split_chunks parts)]"
    by (simp add: s)
  show "\<forall>ch \<in> set (butlast (split_chunks parts)). \<not> uc_Last ch" by (simp add: s butlast_append)
  show "uc_Last (last (split_chunks parts))" "uc_Index (last (split_chunks parts)) = of_nat (length parts - 1)"
    by (simp_all add: s n)
qed

lemma receive_split:
  assumes "parts \<noteq> []" "length parts < 2 ^ 64" "concat parts \<noteq> []"
    and "mset pre = mset (butlast (split_chunks parts))"
  shows "\<exists>chunks. receive_chunks (map Inr (pre @ [last (split_chunks parts)]) @ rest) Map.empty =
      Inr (chunks, of_nat (length parts - 1), True) \<and>
    BuildUsersFromChunks chunks (of_nat (length parts - 1)) True = Some (Inr (concat parts))"
proof -
  let ?l = "last (split_chunks parts)" and ?n = "of_nat (length parts - 1) :: u64"
  let ?chunks = "fold add_chunk (pre @ [?l]) Map.empty"
  have ms: "mset (pre @ [?l]) = mset (split_chunks parts)"
    using assms(4) by (subst split_chunks_snoc(1) [OF assms(1)]) simp
  then have "mset (map uc_Index (pre @ [?l])) = mset (map uc_Index (split_chunks parts))"
    by (metis mset_map)
  then have dist: "distinct (map uc_Index (pre @ [?l]))"
    using split_chunks_index [OF assms(2)] mset_eq_imp_distinct_iff by blast
  have "set pre = set (butlast (split_chunks parts))" using assms(4) by (rule mset_eq_setD)
  then have rc: "receive_chunks (map Inr (pre @ [?l]) @ rest) Map.empty = Inr (?chunks, ?n, True)"
    using receive_chunks_last [of pre ?l] split_chunks_snoc [OF assms(1)] by metis
  have un: "unat ?n = length parts - 1" using assms(2) by (intro unat_small) simp
  have at: "?chunks (of_nat i) = Some (parts ! i)" if "i < length parts" for i
  proof -
    let ?ch = "\<lparr>uc_Index = of_nat i, uc_Users = parts ! i, uc_Last = (Suc i = length parts)\<rparr>"
    have "?ch \<in> set (pre @ [?l])"
      using that mset_eq_setD [OF ms] by (simp add: split_chunks_def)
    from add_chunks_distinct [OF dist this, of Map.empty] show ?thesis by simp
  qed
  have "BuildUsersFromChunks ?chunks ?n True = Some (Inr (concat parts))"
  proof (rule Build_complete)
    have "?n + 1 = of_nat (length parts)" using assms(1) by (cases parts) simp_all
    then show "?n \<noteq> - 1" using unat_small [OF assms(2)] assms(1) by auto
    show "\<forall>i\<le>?n. ?chunks i \<noteq> None"
    proof (intro allI impI)
      fix i assume "i \<le> ?n"
      then have "unat i < length parts" using un assms(1) by (simp add: word_le_nat_alt Suc_le_eq flip: length_greater_0_conv)
      from at [OF this] show "?chunks i \<noteq> None" by simp
    qed
    have "map (\<lambda>n. the (?chunks (of_nat n))) [0..<length parts] = parts"
      by (rule nth_equalityI) (use at in \<open>simp_all del: fold_append fold.simps\<close>)
    moreover have "Suc (unat ?n) = length parts" using un assms(1) by simp
    ultimately show "concat parts = concat (map (\<lambda>n. the (?chunks (of_nat n))) [0..<Suc (unat ?n)])"
      by metis
    show "concat parts \<noteq> []" by (rule assms(3))
  qed
  with rc show ?thesis by blast
qed

section \<open>Properties\<close>


definition lab_msg :: "string \<Rightarrow> BackendMsg" where
  "lab_msg s = \<lparr>bm_Type = L2TP, bm_Config = s, bm_Users = [], bm_KeepAlive = 60, bm_ExcludeInbounds = []\<rparr>"

lemma lab_node_ok: "node_env_ok lab_node id"
  by (auto simp: node_env_ok_def lab_node_def split: if_splits)

lemma lab_msg_key: "msg_key lab_node (lab_msg s) = lab_key L2TP ''main''"
  by (simp add: msg_key_def lab_msg_def backendInstanceID_def instance_field_def lab_node_def lab_key_def trim_space_def
      is_space_def)

lemma lab_enabled: "\<not> backendDisabled lab_node (bm_Type (lab_msg s))"
  by (simp add: backendDisabled_def disable_names_def lab_node_def lab_msg_def trim_space_def to_lower_def)

lemma lab_launch:
  "launch lab_node c (lab_msg s) w =
    (if s = ''bad'' then (Inl ''failed to parse config'', w)
     else if 100 \<in> w then (Inl ''busy'', w) else (Inr 100, insert 100 w))"
  by (simp add: launch_def lab_msg_def lab_node_def)

lemma lab_StartBackend:
  "StartBackend lab_node (lab_msg s) c w =
    (let k = lab_key L2TP ''main''; c1 = c\<lparr>co_backends := map_delete k (co_backends c)\<rparr>;
         w1 = (case co_backends c k of None \<Rightarrow> w | Some b \<Rightarrow> w - {b})
     in if s = ''bad'' then (Some ''failed to parse config'', c1, w1)
        else if 100 \<in> w1 then (Some ''busy'', c1, w1)
        else (None, c1\<lparr>co_backends := (co_backends c1)(k \<mapsto> 100)\<rparr>, insert 100 w1))"
proof -
  have "ne_Shutdown lab_node b w = w - {b}" for b by (simp add: lab_node_def)
  then show ?thesis
    by (auto simp: StartBackend_def lab_enabled lab_msg_key lab_launch Let_def split: option.split)
qed

text \<open>The first start on a fresh node, its replacement by a broken configuration, and a third start.\<close>

definition lab_new :: "int Controller" where
  "lab_new = fst (new_Controller lab_node {})"

lemma lab_new_fields [simp]:
  "co_backends lab_new = Map.empty" "co_jobs lab_new = None" "co_lost lab_new = []" "co_clientIP lab_new = []"
  "new_Controller lab_node {} = (lab_new, {})"
  by (simp_all add: lab_new_def new_Controller_def lab_node_def)

definition lab_keys :: "int Controller \<Rightarrow> backendKey list" where
  "lab_keys c = (if co_backends c = Map.empty then [] else [lab_key L2TP ''main''])"

definition lab_start :: "string \<Rightarrow> string \<Rightarrow> int Controller \<times> int set \<Rightarrow> int Controller \<times> int set" where
  "lab_start ip s st = (case st of (c, w) \<Rightarrow> snd (rpc_Start lab_node lab_backend lab_keys 0 ip (lab_msg s) c w))"

lemma lab_keys_one: "co_backends c = [lab_key L2TP ''main'' \<mapsto> b] \<Longrightarrow> lab_keys c = [lab_key L2TP ''main'']"
  by (simp add: lab_keys_def)

lemma lab_keys_enum:
  "co_backends c = [lab_key L2TP ''main'' \<mapsto> b] \<Longrightarrow> enumerates (lab_keys c) (co_backends c)"
  "co_backends c = Map.empty \<Longrightarrow> enumerates (lab_keys c) (co_backends c)"
  by (auto simp: lab_keys_def enumerates_def)

lemma lab_start_fresh:
  assumes "co_backends c = Map.empty" "s \<noteq> ''bad''" "lab_start ip s (c, {}) = (c', w')"
  shows "w' = {100}" "co_backends c' = [lab_key L2TP ''main'' \<mapsto> 100]" "co_clientIP c' = ip"
    "co_jobs c' = Some (Some 60000000000)" "co_lost c' = co_lost c @ (case co_jobs c of None \<Rightarrow> [] | Some j \<Rightarrow> [j])"
    "\<exists>info. rpc_Start lab_node lab_backend lab_keys 0 ip (lab_msg s) c {} = (Inr info, c', w')"
proof -
  let ?k = "lab_key L2TP ''main''"
  have e: "co_Backend (lab_keys c) c = None" using assms(1) by (simp add: co_Backend_def map_len_def)
  have t: "takeover lab_node lab_keys ip c {} = (c, {})" by (simp add: takeover_def e)
  have st: "StartBackend lab_node (lab_msg s) c {} = (None, c\<lparr>co_backends := [?k \<mapsto> 100]\<rparr>, {100})"
    using assms(1,2) by (simp add: lab_StartBackend Let_def)
  have "i64 60000000000 = 60000000000" by (simp add: is_i64_def)
  moreover have "i64 60 = 60" by (simp add: is_i64_def)
  moreover note rpc_Start_done [OF t st refl, of lab_backend 0]
  ultimately show "w' = {100}" "co_backends c' = [?k \<mapsto> 100]" "co_clientIP c' = ip"
    "co_jobs c' = Some (Some 60000000000)" "co_lost c' = co_lost c @ (case co_jobs c of None \<Rightarrow> [] | Some j \<Rightarrow> [j])"
    "\<exists>info. rpc_Start lab_node lab_backend lab_keys 0 ip (lab_msg s) c {} = (Inr info, c', w')"
    using assms(3)
    by (auto simp: lab_start_def connected_def same_client_def e co_Connect_def lab_msg_def)
qed

lemma lab_start_bad:
  assumes "co_backends c = [lab_key L2TP ''main'' \<mapsto> 100]" "lab_start (co_clientIP c) ''bad'' (c, {100}) = (c', w')"
  shows "w' = {}" "co_backends c' = Map.empty" "co_jobs c' = co_jobs c" "co_lost c' = co_lost c"
    "\<exists>e. rpc_Start lab_node lab_backend lab_keys 0 (co_clientIP c) (lab_msg ''bad'') c {100} = (Inl e, c', w')"
proof -
  let ?k = "lab_key L2TP ''main''"
  have t: "takeover lab_node lab_keys (co_clientIP c) c {100} = (c, {100})"
    by (auto simp: takeover_def same_client_def)
  have st: "StartBackend lab_node (lab_msg ''bad'') c {100} =
      (Some ''failed to parse config'', c\<lparr>co_backends := Map.empty\<rparr>, {})"
    using assms(1) by (simp add: lab_StartBackend Let_def map_delete_def)
  show "w' = {}" "co_backends c' = Map.empty" "co_jobs c' = co_jobs c" "co_lost c' = co_lost c"
    "\<exists>e. rpc_Start lab_node lab_backend lab_keys 0 (co_clientIP c) (lab_msg ''bad'') c {100} = (Inl e, c', w')"
    using assms(2) rpc_Start_failed [OF t st, of lab_backend 0] by (auto simp: lab_start_def)
qed

definition lab_one :: "int Controller" where
  "lab_one = fst (lab_start ''192.0.2.1'' ''a'' (lab_new, {}))"

definition lab_gap :: "int Controller" where
  "lab_gap = fst (lab_start ''192.0.2.1'' ''bad'' (lab_one, {100}))"

lemma lab_one:
  "lab_start ''192.0.2.1'' ''a'' (lab_new, {}) = (lab_one, {100})" "co_backends lab_one = [lab_key L2TP ''main'' \<mapsto> 100]"
  "co_clientIP lab_one = ''192.0.2.1''" "co_jobs lab_one = Some (Some 60000000000)" "co_lost lab_one = []"
  "service_run lab_node lab_backend {} lab_one {100}"
proof -
  obtain w where w: "lab_start ''192.0.2.1'' ''a'' (lab_new, {}) = (lab_one, w)"
    by (metis lab_one_def prod.collapse)
  note f = lab_start_fresh [OF _ _ w, simplified]
  show "lab_start ''192.0.2.1'' ''a'' (lab_new, {}) = (lab_one, {100})" "co_backends lab_one = [lab_key L2TP ''main'' \<mapsto> 100]"
    "co_clientIP lab_one = ''192.0.2.1''" "co_jobs lab_one = Some (Some 60000000000)" "co_lost lab_one = []"
    using w f by simp_all
  show "service_run lab_node lab_backend {} lab_one {100}"
    using f(1,6) run_rpc_Start [OF run_new [OF lab_new_fields(5)], of lab_keys] lab_keys_enum(2) [of lab_new] by auto
qed

lemma lab_gap:
  "co_backends lab_gap = Map.empty" "co_jobs lab_gap = Some (Some 60000000000)" "co_lost lab_gap = []"
  "service_run lab_node lab_backend {} lab_gap {}"
proof -
  obtain w where w: "lab_start (co_clientIP lab_one) ''bad'' (lab_one, {100}) = (lab_gap, w)"
    by (metis lab_gap_def lab_one(3) prod.collapse)
  note f = lab_start_bad [OF lab_one(2) w]
  show "co_backends lab_gap = Map.empty" "co_jobs lab_gap = Some (Some 60000000000)" "co_lost lab_gap = []"
    using f lab_one(4,5) by simp_all
  show "service_run lab_node lab_backend {} lab_gap {}"
    using f(1,5) run_rpc_Start [OF lab_one(6), of lab_keys] lab_keys_enum(1) [OF lab_one(2)] by auto
qed




text \<open>A start by the client in control never touches the cores under other keys, keeps the client
  and the background jobs, and ends with a core under the key of the request when it succeeds;
  when it fails that key keeps its core or is empty.\<close>

theorem Start_keeps_other_cores:
  assumes "same_client ord ip c" and "rpc_Start env be ord now ip msg c w = (r, c', w')"
  shows "(\<forall>k. k \<noteq> msg_key env msg \<longrightarrow> co_backends c' k = co_backends c k) \<and>
    co_clientIP c' = ip \<and> co_jobs c' = co_jobs c \<and> co_lost c' = co_lost c \<and>
    (case r of Inl e \<Rightarrow> co_backends c' (msg_key env msg) \<in> {None, co_backends c (msg_key env msg)}
     | Inr info \<Rightarrow> co_backends c' (msg_key env msg) \<noteq> None)"
proof (cases rule: Start_cases [where env = env and ord = ord and ip = ip and c = c and w = w and msg = msg])
  case (failed c1 w1 e c2 w2)
  then have "c1 = c" using assms(1) by (simp add: takeover_def)
  then show ?thesis
    using StartBackend_result [OF failed(2)] rpc_Start_failed [OF failed] assms by (auto simp: same_client_def)
next
  case (success c1 w1 c2 w2)
  then have "c1 = c" using assms(1) by (simp add: takeover_def)
  moreover have "co_jobs c' = co_jobs c2 \<and> co_lost c' = co_lost c2 \<and> co_clientIP c' = co_clientIP c2 \<and>
      co_backends c' = co_backends c2 \<and> (\<exists>info. r = Inr info)"
    using rpc_Start_done [OF success refl] assms by (auto simp: connected_def co_NewRequest_def)
  ultimately show ?thesis
    using StartBackend_result [OF success(2)] assms(1) by (auto simp: same_client_def)
qed

theorem Start_keeps_other_cores_witness:
  "co_clientIP (fst (snd (rpc_Start lab_node lab_backend lab_keys 0 ''192.0.2.1'' (lab_msg ''bad'') lab_one {100})))
    = ''192.0.2.1''"
proof -
  obtain r c' w' where res: "rpc_Start lab_node lab_backend lab_keys 0 ''192.0.2.1'' (lab_msg ''bad'') lab_one {100} = (r, c', w')"
    by (metis prod_cases3)
  have "co_Backend (lab_keys lab_one) lab_one \<noteq> None"
    using co_Backend_None [OF _ lab_keys_enum(1) [OF lab_one(2)]] lab_one(2) by simp
  then have "same_client lab_keys ''192.0.2.1'' lab_one" by (simp add: same_client_def lab_one(3))
  from Start_keeps_other_cores [OF this res] res show ?thesis by simp
qed

text \<open>Connecting replaces the cancel function of the running jobs without calling it. When a
  replacement of the only core fails, the jobs stay and the table is empty, so that the next
  successful start connects again: the earlier jobs then run on, and stopping the node does not
  end them.\<close>

theorem reconnect_loses_jobs:
  assumes "co_backends c = Map.empty" and "co_jobs c = Some j"
    and "rpc_Start env be ord now ip msg c w = (Inr info, c', w')"
  shows "j \<in> set (co_lost c') \<and> j \<in> set (co_lost (fst (rpc_Stop env ord' c' w')))"
proof -
  have e: "co_Backend (ord c) c = None" using assms(1) by (simp add: co_Backend_def map_len_def)
  then have t: "takeover env ord ip c w = (c, w)" by (simp add: takeover_def)
  have "\<exists>c2 w2. StartBackend env msg c w = (None, c2, w2)"
    using rpc_Start_failed [OF t, of msg] assms(3) by (metis Inl_Inr_False not_Some_eq prod.inject prod_cases3)
  then obtain c2 w2 where st: "StartBackend env msg c w = (None, c2, w2)" by blast
  have "j \<in> set (co_lost c')"
    using rpc_Start_done [OF t st refl, of be now] assms(2,3) StartBackend_result(2) [OF st]
    by (auto simp: connected_def same_client_def e co_Connect_def Let_def)
  then show ?thesis
    by (simp add: rpc_Stop_def Disconnect_def Let_def closeShaping_def case_prod_beta)
qed

theorem reconnect_loses_jobs_witness:
  "service_run lab_node lab_backend {} lab_gap {} \<and>
    Some 60000000000 \<in> set (co_lost (fst (lab_start ''192.0.2.1'' ''a'' (lab_gap, {}))))"
proof -
  obtain c' w' where st: "lab_start ''192.0.2.1'' ''a'' (lab_gap, {}) = (c', w')" by fastforce
  then obtain info where "rpc_Start lab_node lab_backend lab_keys 0 ''192.0.2.1'' (lab_msg ''a'') lab_gap {} = (Inr info, c', w')"
    using lab_start_fresh(6) [OF lab_gap(1) _ st] by auto
  from reconnect_loses_jobs [OF lab_gap(1,2) this] show ?thesis using st lab_gap(4) by simp
qed

text \<open>A gRPC call that changes anything, or that is answered, carries the API key of the node as the
  first value of its key header; and for a method that works on the cores at least one core of the
  node is started. Conversely such a call is answered by its handler, and counts as a sign of life
  when the handler succeeds.\<close>

theorem rpc_calls_are_guarded:
  assumes "enumerates (ord c) (co_backends c)" and "finite (dom (co_backends c))"
    and "ready \<longleftrightarrow> (method \<in> backendMethods \<longrightarrow> (\<exists>b \<in> ran (co_backends c). be_Started be b))"
    and "key_ok \<longleftrightarrow> (\<exists>h rest. metadata = Some (Some (h # rest)) \<and> uuid h = Some apiKey)"
    and "ConditionalMiddleware be ord uuid apiKey now method metadata handler c w = (r, c', w')"
    and "handler c w = (rh, ch, wh)"
  shows "if key_ok \<and> ready then r = rh \<and> w' = wh \<and> c' = (if isl rh then ch else co_NewRequest now ch)
    else isl r \<and> c' = c \<and> w' = w"
proof -
  have key: "rpc_validateApiKey uuid apiKey metadata = None \<longleftrightarrow> key_ok"
    using assms(4) by (auto simp: rpc_validateApiKey_def split: option.splits list.splits)
  have st: "checkBackendStatus be (ord c) c = None \<longleftrightarrow> (\<exists>b \<in> ran (co_backends c). be_Started be b)"
  proof (cases "co_Backend (ord c) c")
    case None
    then show ?thesis using co_Backend_None [OF assms(2,1)] by (simp add: checkBackendStatus_def)
  next
    case (Some bs)
    then have "bs = listed (ord c) c" by (auto simp: co_Backend_def NewComposite_def split: if_splits)
    then show ?thesis
      using Some comp_Started_iff [of be bs] listed_set [OF assms(1)] by (simp add: checkBackendStatus_def)
  qed
  show ?thesis
  proof (cases key_ok)
    case False
    then obtain e where "rpc_validateApiKey uuid apiKey metadata = Some e" using key by auto
    then show ?thesis using False assms(5)
      by (auto simp: ConditionalMiddleware_def LoggingInterceptor_def validateApiKeyMiddleware_def)
  next
    case True
    then have k: "rpc_validateApiKey uuid apiKey metadata = None" using key by simp
    show ?thesis
    proof (cases ready)
      case False
      then obtain e where "method \<in> backendMethods" "checkBackendStatus be (ord c) c = Some e"
        using st assms(3) by auto
      then show ?thesis using False k assms(5)
        by (auto simp: ConditionalMiddleware_def LoggingInterceptor_def validateApiKeyMiddleware_def CheckBackendMiddleware_def)
    next
      case ready: True
      then have "method \<in> backendMethods \<Longrightarrow> checkBackendStatus be (ord c) c = None" using st assms(3) by simp
      with k have "ConditionalMiddleware be ord uuid apiKey now method metadata handler c w = LoggingInterceptor now handler c w"
        by (auto simp: ConditionalMiddleware_def LoggingInterceptor_def validateApiKeyMiddleware_def CheckBackendMiddleware_def)
      then show ?thesis using ready True assms(5,6) by (auto simp: LoggingInterceptor_def split: sum.splits)
    qed
  qed
qed

theorem rpc_calls_are_guarded_witness:
  "ConditionalMiddleware lab_backend (\<lambda>_. []) Some ''k'' 0 ''/service.NodeService/Stop'' (Some (Some [''k'']))
      (\<lambda>c w. (Inr (), c, insert (7 :: int) w)) lab_new {} = (Inl (StatusError Unavailable ''backend not initialized''), lab_new, {})"
proof -
  obtain r c' w' where m: "ConditionalMiddleware lab_backend (\<lambda>_. []) Some ''k'' 0 ''/service.NodeService/Stop'' (Some (Some [''k'']))
      (\<lambda>c w. (Inr (), c, insert (7::int) w)) lab_new {} = (r, c', w')" by (metis prod_cases3)
  have "enumerates [] (co_backends lab_new)" by (simp add: enumerates_def)
  from rpc_calls_are_guarded [OF this _ refl refl m refl] have "isl r \<and> c' = lab_new \<and> w' = {}"
    by (auto simp: backendMethods_def)
  moreover have "r = Inl (StatusError Unavailable ''backend not initialized'')"
    using m by (simp add: ConditionalMiddleware_def LoggingInterceptor_def validateApiKeyMiddleware_def
        rpc_validateApiKey_def backendMethods_def CheckBackendMiddleware_def checkBackendStatus_def co_Backend_def map_len_def)
  ultimately show ?thesis using m by simp
qed

text \<open>C16. A list of users that a client cuts into numbered parts is applied to the cores of the node
  exactly as the whole list, in the original order, in whatever order the parts before the final
  one arrive; more than a hundred users restart the cores.\<close>

theorem SyncUsersChunked_reassembles:
  assumes "parts \<noteq> []" and "length parts < 2 ^ 64" and "concat parts \<noteq> []"
    and "mset pre = mset (butlast (split_chunks parts))"
  shows "rpc_SyncUsersChunked be (map Inr (pre @ [last (split_chunks parts)]) @ rest) node =
    (let (e, node') = (if length (concat parts) > 100 then comp_UpdateUsersAndRestart be (concat parts) node
                       else comp_UpdateUsers be (concat parts) node)
     in Some (map_option (\<lambda>e. StatusError Internal (''failed to update users: '' @ e)) e, node'))"
  using receive_split [OF assms, of rest]
  by (auto simp: rpc_SyncUsersChunked_def apply_chunked_def split: prod.split option.split)

theorem SyncUsersChunked_reassembles_witness:
  "rpc_SyncUsersChunked (lab_backend\<lparr>be_UpdateUsers := (\<lambda>us _. (None, int (length us)))\<rparr>)
      (map Inr (rev (butlast (split_chunks [[None], [None, None], [None]])) @ [last (split_chunks [[None], [None, None], [None]])])) [0, 9] =
    Some (None, [4, 4])"
  using SyncUsersChunked_reassembles [of "[[None], [None, None], [None]]" "rev (butlast (split_chunks [[None], [None, None], [None]]))"
      "lab_backend\<lparr>be_UpdateUsers := (\<lambda>us _. (None, int (length us)))\<rparr>" "[]" "[0, 9]"]
  by (simp add: comp_UpdateUsers_def)

end
