(* ===== verification/NodeConf.thy ===== *)
theory NodeConf
  imports Service XrayProcess
begin

text \<open>
  The settings of the node, \<open>config/config.go\<close>, the choice of a port, \<open>pkg/netutil/port.go\<close>, and the load of the host,
  \<open>pkg/sysstats/sys.go\<close>. The environment is a partial function; \<open>uuid.Parse\<close> is a parameter, as in \<open>Service\<close>, and so is the zero
  UUID. What the settings mean for the guards of both services is stated here.
\<close>

section \<open>Reading the environment\<close>

definition GetEnv :: "(string \<rightharpoonup> string) \<Rightarrow> string \<Rightarrow> string \<Rightarrow> string" where
  "GetEnv env key fallback = (case env key of None \<Rightarrow> fallback | Some value \<Rightarrow> value)"

text \<open>\<open>strconv.ParseBool\<close>.\<close>

definition ParseBool :: "string \<Rightarrow> bool option" where
  "ParseBool s =
    (if s \<in> {''1'', ''t'', ''T'', ''true'', ''TRUE'', ''True''} then Some True
     else if s \<in> {''0'', ''f'', ''F'', ''false'', ''FALSE'', ''False''} then Some False
     else None)"

definition GetEnvAsBool :: "(string \<rightharpoonup> string) \<Rightarrow> string \<Rightarrow> bool \<Rightarrow> bool" where
  "GetEnvAsBool env name defaultVal = (case ParseBool (GetEnv env name []) of Some val \<Rightarrow> val | None \<Rightarrow> defaultVal)"

definition GetEnvAsInt :: "(string \<rightharpoonup> string) \<Rightarrow> string \<Rightarrow> int \<Rightarrow> int" where
  "GetEnvAsInt env name defaultVal = (case Atoi (GetEnv env name []) of Some val \<Rightarrow> val | None \<Rightarrow> defaultVal)"

definition GetEnvAsUUID :: "(string \<Rightarrow> 'u option) \<Rightarrow> 'u \<Rightarrow> (string \<rightharpoonup> string) \<Rightarrow> string \<Rightarrow> string option \<times> 'u" where
  "GetEnvAsUUID uuid Nil_uuid env name =
    (case uuid (GetEnv env name []) of None \<Rightarrow> (Some ''invalid UUID'', Nil_uuid) | Some val \<Rightarrow> (None, val))"

section \<open>The address pattern\<close>

text \<open>
  The pattern of \<open>Load\<close>: four numbers with dots between them, each of them \<open>25[0-5]\<close>, \<open>2[0-4][0-9]\<close> or \<open>[01]?[0-9][0-9]?\<close>. The dots are not
  digits, so that a match is a split at the dots.
\<close>

definition digit_range :: "nat \<Rightarrow> nat \<Rightarrow> char \<Rightarrow> bool" where
  "digit_range lo hi c \<longleftrightarrow> 48 + lo \<le> (of_char c :: nat) \<and> (of_char c :: nat) \<le> 48 + hi"

definition octet_pattern :: "string \<Rightarrow> bool" where
  "octet_pattern s =
    (case s of
       [a] \<Rightarrow> digit_range 0 9 a
     | [a, b] \<Rightarrow> digit_range 0 9 a \<and> digit_range 0 9 b
     | [a, b, c] \<Rightarrow>
         digit_range 2 2 a \<and> digit_range 5 5 b \<and> digit_range 0 5 c \<or>
         digit_range 2 2 a \<and> digit_range 0 4 b \<and> digit_range 0 9 c \<or>
         digit_range 0 1 a \<and> digit_range 0 9 b \<and> digit_range 0 9 c
     | _ \<Rightarrow> False)"

definition ipPattern :: "string \<Rightarrow> bool" where
  "ipPattern s = (let parts = split_at_char (CHR ''.'') s in length parts = 4 \<and> list_all octet_pattern parts)"

section \<open>The settings\<close>

record 'u NodeCfg =
  cg_ServicePort :: int
  cg_NodeHost :: string
  cg_XrayExecutablePath :: string
  cg_XrayAssetsPath :: string
  cg_SslCertFile :: string
  cg_SslKeyFile :: string
  cg_ApiKey :: 'u
  cg_ServiceProtocol :: string
  cg_Debug :: bool
  cg_GeneratedConfigPath :: string
  cg_LogBufferSize :: int
  cg_StartupLogTailSize :: int
  cg_StatsUpdateIntervalSeconds :: int
  cg_StatsCleanupIntervalSeconds :: int

text \<open>\<open>env\<close> is the environment after \<open>godotenv.Load\<close>, whose error is only logged, as is the one of the API key: \<open>Load\<close> never fails.\<close>

definition Load :: "(string \<Rightarrow> 'u option) \<Rightarrow> 'u \<Rightarrow> (string \<rightharpoonup> string) \<Rightarrow> 'u NodeCfg" where
  "Load uuid Nil_uuid env =
    (let logBuffer = GetEnvAsInt env ''LOG_BUFFER_SIZE'' 10000;
         host = GetEnv env ''NODE_HOST'' ''0.0.0.0''
     in \<lparr>cg_ServicePort = GetEnvAsInt env ''SERVICE_PORT'' 62050,
         cg_NodeHost = (if ipPattern host then host else ''127.0.0.1''),
         cg_XrayExecutablePath = GetEnv env ''XRAY_EXECUTABLE_PATH'' ''/usr/local/bin/xray'',
         cg_XrayAssetsPath = GetEnv env ''XRAY_ASSETS_PATH'' ''/usr/local/share/xray'',
         cg_SslCertFile = GetEnv env ''SSL_CERT_FILE'' ''/var/lib/hpx-node/certs/ssl_cert.pem'',
         cg_SslKeyFile = GetEnv env ''SSL_KEY_FILE'' ''/var/lib/hpx-node/certs/ssl_key.pem'',
         cg_ApiKey = snd (GetEnvAsUUID uuid Nil_uuid env ''API_KEY''),
         cg_ServiceProtocol = GetEnv env ''SERVICE_PROTOCOL'' ''grpc'',
         cg_Debug = GetEnvAsBool env ''DEBUG'' False,
         cg_GeneratedConfigPath = GetEnv env ''GENERATED_CONFIG_PATH'' ''/var/lib/hpx-node/generated/'',
         cg_LogBufferSize = (if logBuffer \<le> 0 then 1 else logBuffer),
         cg_StartupLogTailSize = GetEnvAsInt env ''STARTUP_LOG_TAIL_SIZE'' 200,
         cg_StatsUpdateIntervalSeconds = GetEnvAsInt env ''STATS_UPDATE_INTERVAL_SECONDS'' 10,
         cg_StatsCleanupIntervalSeconds = GetEnvAsInt env ''STATS_CLEANUP_INTERVAL_SECONDS'' 300\<rparr>)"

definition NewTestConfig :: "(string \<Rightarrow> 'u option) \<Rightarrow> 'u \<Rightarrow> (string \<rightharpoonup> string) \<Rightarrow> string \<Rightarrow> 'u \<Rightarrow> 'u NodeCfg" where
  "NewTestConfig uuid Nil_uuid env path key = (Load uuid Nil_uuid env)\<lparr>cg_GeneratedConfigPath := path, cg_ApiKey := key\<rparr>"

section \<open>A free port\<close>

fun free_from :: "(nat \<Rightarrow> bool) \<Rightarrow> nat \<Rightarrow> nat \<Rightarrow> nat" where
  "free_from free 0 port = port"
| "free_from free (Suc n) port = (if free port then port else free_from free n (port + 1))"

text \<open>\<open>r\<close> is \<open>rand.Intn(50000)\<close>, \<open>free\<close> tells that a listener on the port can be opened.\<close>

definition FindFreePort :: "(nat \<Rightarrow> bool) \<Rightarrow> nat \<Rightarrow> nat" where
  "FindFreePort free r = free_from free (65536 - (r + 10000)) (r + 10000)"

lemma free_from_result:
  "free_from free n port = p \<Longrightarrow> port \<le> p \<and> p \<le> port + n \<and> (p < port + n \<longrightarrow> free p)"
  by (induction n arbitrary: port) (auto split: if_splits, (meson Suc_leD)?, fastforce+)

text \<open>The result is a free port, or 65536, which is no port, when all from the random start on are taken.\<close>

lemma FindFreePort_result:
  assumes "r < 50000" shows "free (FindFreePort free r) \<and> 10000 \<le> FindFreePort free r \<and> FindFreePort free r < 65536 \<or> FindFreePort free r = 65536"
  using free_from_result [of free "65536 - (r + 10000)" "r + 10000" "FindFreePort free r"] assms by (auto simp: FindFreePort_def)

section \<open>The load of the host\<close>

text \<open>
  \<open>getBandwidthSpeedLocked\<close>: the counters of the interfaces at the last sample and its time. \<open>rate\<close> is the division of a sum of bytes by the
  elapsed time in floating point. Times are nanoseconds.
\<close>

record IOCounters =
  io_Name :: string
  io_BytesRecv :: u64
  io_BytesSent :: u64

record NetSample =
  ns_prevNet :: "(string \<rightharpoonup> IOCounters) option"
  ns_prevNetAt :: gotime

definition current_map :: "IOCounters list \<Rightarrow> (string \<rightharpoonup> IOCounters)" where
  "current_map current = fold (\<lambda>c m. if io_Name c = ''lo'' then m else m(io_Name c \<mapsto> c)) current Map.empty"

definition grown_bytes :: "(IOCounters \<Rightarrow> u64) \<Rightarrow> (string \<rightharpoonup> IOCounters) \<Rightarrow> (string \<rightharpoonup> IOCounters) \<Rightarrow> string \<Rightarrow> u64" where
  "grown_bytes f prev cur name =
    (case (cur name, prev name) of
       (Some c, Some p) \<Rightarrow> if f c \<ge> f p then f c - f p else 0
     | _ \<Rightarrow> 0)"

definition getBandwidthSpeed :: "(u64 \<Rightarrow> int \<Rightarrow> u64) \<Rightarrow> string + IOCounters list \<Rightarrow> string list \<Rightarrow> gotime \<Rightarrow> NetSample \<Rightarrow> (string + u64 \<times> u64) \<times> NetSample" where
  "getBandwidthSpeed rate counters order now s =
    (case counters of
       Inl e \<Rightarrow> (Inl e, s)
     | Inr current \<Rightarrow>
         let curMap = current_map current
         in case ns_prevNet s of
              None \<Rightarrow> (Inr (0, 0), \<lparr>ns_prevNet = Some curMap, ns_prevNetAt = now\<rparr>)
            | Some prev \<Rightarrow>
                if ns_prevNetAt s = 0 then (Inr (0, 0), \<lparr>ns_prevNet = Some curMap, ns_prevNetAt = now\<rparr>)
                else let elapsed = now - ns_prevNetAt s
                     in if elapsed < 200000000 then (Inr (0, 0), s)
                        else (Inr (rate (sum_list (map (grown_bytes io_BytesRecv prev curMap) order)) elapsed,
                                   rate (sum_list (map (grown_bytes io_BytesSent prev curMap) order)) elapsed),
                              \<lparr>ns_prevNet = Some curMap, ns_prevNetAt = now\<rparr>))"

definition GetSystemStats :: "(u64 \<Rightarrow> int \<Rightarrow> u64) \<Rightarrow> string + u64 \<times> u64 \<Rightarrow> string + u64 \<Rightarrow> string + u64 list \<Rightarrow> string + IOCounters list \<Rightarrow> string list \<Rightarrow>
    gotime \<Rightarrow> NetSample \<Rightarrow> (string option \<times> SystemStats) \<times> NetSample" where
  "GetSystemStats rate vm cores percentages counters order now s =
    (case vm of
       Inl e \<Rightarrow> ((Some e, zero_SystemStats), s)
     | Inr (tot, used) \<Rightarrow>
         let st1 = zero_SystemStats\<lparr>sy_MemTotal := tot, sy_MemUsed := used\<rparr>
         in case cores of
              Inl e \<Rightarrow> ((Some e, st1), s)
            | Inr n \<Rightarrow>
                let st2 = st1\<lparr>sy_CpuCores := n\<rparr>
                in case percentages of
                     Inl e \<Rightarrow> ((Some e, st2), s)
                   | Inr ps \<Rightarrow>
                       let st3 = (case ps of [] \<Rightarrow> st2 | p # _ \<Rightarrow> st2\<lparr>sy_CpuUsage := p\<rparr>)
                       in case getBandwidthSpeed rate counters order now s of
                            (Inl e, s') \<Rightarrow> ((Some e, st3), s')
                          | (Inr (inc_speed, out_speed), s') \<Rightarrow>
                              ((None, st3\<lparr>sy_IncomingBandwidthSpeed := inc_speed, sy_OutgoingBandwidthSpeed := out_speed\<rparr>), s'))"

section \<open>What the settings guarantee\<close>

text \<open>The pattern admits numbers up to 255 only.\<close>

lemma digit_range_val:
  assumes "digit_range lo hi c" and "hi \<le> 9"
  shows "\<exists>d. digit_val c = Some d \<and> lo \<le> d \<and> d \<le> hi"
proof -
  have "48 \<le> (of_char c :: nat) \<and> (of_char c :: nat) \<le> 57" using assms by (auto simp: digit_range_def)
  then show ?thesis using assms by (auto simp: digit_val_def digit_range_def Let_def)
qed

lemma octet_value: "octet_pattern s \<Longrightarrow> \<exists>v\<le>255. digits_val 10 0 s = Some v"
proof -
  assume o: "octet_pattern s"
  then consider a where "s = [a]" "digit_range 0 9 a" | a b where "s = [a, b]" "digit_range 0 9 a" "digit_range 0 9 b"
    | a b c where "s = [a, b, c]" "digit_range 2 2 a" "digit_range 5 5 b" "digit_range 0 5 c"
    | a b c where "s = [a, b, c]" "digit_range 2 2 a" "digit_range 0 4 b" "digit_range 0 9 c"
    | a b c where "s = [a, b, c]" "digit_range 0 1 a" "digit_range 0 9 b" "digit_range 0 9 c"
    by (auto simp: octet_pattern_def split: list.splits)
  then show ?thesis by cases (auto dest!: digit_range_val)
qed

lemma Load_host: "ipPattern (cg_NodeHost (Load uuid Nil_uuid env))"
proof -
  have "ipPattern ''127.0.0.1''" by code_simp
  then show ?thesis by (simp add: Load_def Let_def)
qed

lemma Load_buffer: "1 \<le> cg_LogBufferSize (Load uuid Nil_uuid env)"
  by (simp add: Load_def Let_def)

text \<open>Interfaces that are new, gone or reset add nothing to the bandwidth, and \<open>lo\<close> never counts.\<close>

lemma current_map_lo: "current_map current ''lo'' = None"
proof -
  have "fold (\<lambda>c m. if io_Name c = ''lo'' then m else m(io_Name c \<mapsto> c)) current m ''lo'' = m ''lo''" for m
    by (induction current arbitrary: m) auto
  then show ?thesis by (simp add: current_map_def)
qed

lemma grown_lo: "grown_bytes f prev (current_map current) ''lo'' = 0"
  by (simp add: grown_bytes_def current_map_lo)



end
