(* ===== verification/Serviced.thy ===== *)
theory Serviced
  imports XrayLog
begin

text \<open>
  The maintenance service beside the node, \<open>cmd/serviced\<close>: its settings, the commands of the node's command line tool that it runs, and
  the handlers of its HTTP server. A handler is a function of the request and of the state, which holds the cache of the probes and the
  commands run so far. The theory shows that nothing runs without the key, and which commands can run at all.
\<close>

section \<open>The settings\<close>

record SvConfig =
  vc_AppName :: string
  vc_APIPort :: string
  vc_APIKey :: string
  vc_SSLCert :: string
  vc_SSLKey :: string
  vc_EnvFile :: string

text \<open>
  What the system answers: the environment before and after the file is loaded, the directory of the executable, whether a file exists, and
  \<open>filepath.Join\<close>.
\<close>

record SvHost =
  vh_env :: "string \<Rightarrow> string"
  vh_exeDir :: "string option"
  vh_stat :: "string \<Rightarrow> bool"
  vh_notExist :: "string \<Rightarrow> bool"
  vh_Join :: "string \<Rightarrow> string \<Rightarrow> string"
  vh_loadEnv :: "string \<Rightarrow> string + (string \<Rightarrow> string)"

definition determineEnvFile :: "SvHost \<Rightarrow> string \<times> bool" where
  "determineEnvFile h =
    (if vh_env h ''ENV_FILE'' \<noteq> [] then (vh_env h ''ENV_FILE'', False)
     else let envFile = ''/opt/hpx-node/.env''
          in case vh_exeDir h of
               None \<Rightarrow> (envFile, True)
             | Some scriptDir \<Rightarrow>
                 let localEnv = vh_Join h scriptDir ''.env''
                 in (if vh_notExist h envFile \<and> vh_stat h localEnv then localEnv else envFile, True))"

definition sv_settings :: "SvHost \<Rightarrow> (string \<Rightarrow> string) \<Rightarrow> string \<Rightarrow> string option \<times> SvConfig" where
  "sv_settings h env envFile =
    (let cfg = \<lparr>vc_AppName = (if env ''APP_NAME'' \<noteq> [] then env ''APP_NAME'' else ''hpx-node''),
                vc_APIPort = (if env ''API_PORT'' \<noteq> [] then env ''API_PORT'' else ''62051''),
                vc_APIKey = env ''API_KEY'', vc_SSLCert = env ''SSL_CERT_FILE'', vc_SSLKey = env ''SSL_KEY_FILE'', vc_EnvFile = envFile\<rparr>
     in (if vc_APIKey cfg = [] then Some ''API_KEY must be set in the env file''
         else if vc_SSLCert cfg = [] \<or> vc_SSLKey cfg = [] then Some ''TLS required: set SSL_CERT_FILE and SSL_KEY_FILE in the env file''
         else if \<not> vh_stat h (vc_SSLCert cfg) then Some (''cannot read SSL_CERT_FILE: '' @ vc_SSLCert cfg)
         else if \<not> vh_stat h (vc_SSLKey cfg) then Some (''cannot read SSL_KEY_FILE: '' @ vc_SSLKey cfg)
         else None, cfg))"

definition loadConfig :: "SvHost \<Rightarrow> string option \<times> SvConfig" where
  "loadConfig h =
    (case determineEnvFile h of (envFile, _) \<Rightarrow>
       if vh_stat h envFile
       then (case vh_loadEnv h envFile of
               Inl e \<Rightarrow> (Some (''load env file '' @ envFile @ '': '' @ e),
                         \<lparr>vc_AppName = ''hpx-node'', vc_APIPort = ''62051'', vc_APIKey = [], vc_SSLCert = [], vc_SSLKey = [], vc_EnvFile = envFile\<rparr>)
             | Inr env \<Rightarrow> sv_settings h env envFile)
       else sv_settings h (vh_env h) envFile)"

section \<open>Commands\<close>

text \<open>
  The result of a command run for its effect: the error with the standard error output and the exit code, or nothing. \<open>ve_probe\<close> is the combined
  output of the tool with some arguments, \<open>ve_installed\<close> whether it is found at all, \<open>ve_decode\<close> the JSON decoder on the member of a body.
\<close>

record SvEnv =
  ve_run :: "string list \<Rightarrow> (string \<times> int \<times> string) option"
  ve_installed :: "string \<Rightarrow> bool"
  ve_probe :: "string list \<Rightarrow> string"
  ve_decode :: "string \<Rightarrow> string \<Rightarrow> string option"

record SvState =
  vs_cache :: "string \<times> string \<rightharpoonup> bool"
  vs_ran :: "string list list"

definition sv_runCommand :: "SvEnv \<Rightarrow> string list \<Rightarrow> SvState \<Rightarrow> (string \<times> int \<times> string) option \<times> SvState" where
  "sv_runCommand env argv st = (ve_run env argv, st\<lparr>vs_ran := vs_ran st @ [argv]\<rparr>)"

definition probeCLISubcommand :: "SvEnv \<Rightarrow> string \<Rightarrow> string \<Rightarrow> bool" where
  "probeCLISubcommand env app sub =
    (ve_installed env app \<and>
     list_ex (\<lambda>args. str_contains (to_lower (ve_probe env (app # args))) (to_lower sub)) [[''-h''], [''--help''], []])"

definition cliSupports :: "SvEnv \<Rightarrow> string \<Rightarrow> string \<Rightarrow> SvState \<Rightarrow> bool \<times> SvState" where
  "cliSupports env app sub st =
    (case vs_cache st (app, sub) of
       Some v \<Rightarrow> (v, st)
     | None \<Rightarrow> let supported = probeCLISubcommand env app sub in (supported, st\<lparr>vs_cache := (vs_cache st)((app, sub) \<mapsto> supported)\<rparr>))"

text \<open>\<open>cleanANSI\<close>: the colour sequences, escape, bracket, digits and semicolons, m, are removed.\<close>

definition ansi_param :: "char \<Rightarrow> bool" where
  "ansi_param c \<longleftrightarrow> 48 \<le> (of_char c :: nat) \<and> (of_char c :: nat) \<le> 57 \<or> c = CHR '';''"

definition ansi_rest :: "string \<Rightarrow> string option" where
  "ansi_rest s =
    (case s of
       e # b # cs \<Rightarrow>
         if e = CHR 0x1B \<and> b = CHR ''['' then
           (case dropWhile ansi_param cs of m # r \<Rightarrow> if m = CHR ''m'' then Some r else None | [] \<Rightarrow> None)
         else None
     | _ \<Rightarrow> None)"

lemma ansi_rest_shorter: "ansi_rest s = Some r \<Longrightarrow> length r < length s"
  by (auto simp: ansi_rest_def split: list.splits if_splits) (metis length_Cons length_dropWhile_le less_SucI less_Suc_eq_le Suc_le_eq)

function cleanANSI :: "string \<Rightarrow> string" where
  "cleanANSI [] = []"
| "cleanANSI (c # cs) = (case ansi_rest (c # cs) of Some r \<Rightarrow> cleanANSI r | None \<Rightarrow> c # cleanANSI cs)"
  by pat_completeness auto
termination
  by (relation "measure length") (auto dest: ansi_rest_shorter)

section \<open>Requests\<close>

record SvRequest =
  rq_Method :: string
  rq_Path :: string
  rq_Key :: string
  rq_Body :: string

text \<open>A response: the status, and the one member of the body.\<close>

type_synonym sv_response = "nat \<times> string \<times> string"

definition all_digits :: "string \<Rightarrow> bool" where
  "all_digits s \<longleftrightarrow> s \<noteq> [] \<and> list_all (\<lambda>c. 48 \<le> (of_char c :: nat) \<and> (of_char c :: nat) \<le> 57) s"

text \<open>\<open>^v[0-9]+\.[0-9]+\.[0-9]+$\<close>\<close>

definition coreVersionRegexp :: "string \<Rightarrow> bool" where
  "coreVersionRegexp s =
    (has_prefix s ''v'' \<and> (let parts = split_at_char (CHR ''.'') (drop 1 s) in length parts = 3 \<and> list_all all_digits parts))"

definition geofileRegionRegexp :: "string \<Rightarrow> bool" where
  "geofileRegionRegexp s \<longleftrightarrow> s \<in> {''iran'', ''russia'', ''china''}"

definition validate_core :: "string \<Rightarrow> string option" where
  "validate_core version =
    (if version = [] then Some ''core_version is required''
     else if \<not> coreVersionRegexp version then Some ''core_version must match pattern vX.X.X''
     else None)"

definition validate_geofiles :: "string \<Rightarrow> string + string" where
  "validate_geofiles region =
    (if region = [] then Inl ''region is required (iran, russia, china)''
     else if \<not> geofileRegionRegexp (to_lower region) then Inl (''Unsupported region '' @ region)
     else Inr (to_lower region))"

definition authenticate :: "SvConfig \<Rightarrow> SvRequest \<Rightarrow> sv_response option" where
  "authenticate cfg rq =
    (if rq_Key rq = [] then Some (401, ''detail'', ''missing api key'')
     else if rq_Key rq \<noteq> vc_APIKey cfg then Some (401, ''detail'', ''invalid api key'')
     else None)"

definition requireCLISubcommand :: "SvEnv \<Rightarrow> SvConfig \<Rightarrow> string \<Rightarrow> SvState \<Rightarrow> sv_response option \<times> SvState" where
  "requireCLISubcommand env cfg sub st =
    (case cliSupports env (vc_AppName cfg) sub st of
       (True, st') \<Rightarrow> (None, st')
     | (False, st') \<Rightarrow>
         (Some (501, ''detail'', vc_AppName cfg @ '' does not support the '' @ go_quote sub @ '' subcommand on this host''), st'))"

text \<open>What every handler but the root does first.\<close>

definition guarded :: "SvEnv \<Rightarrow> SvConfig \<Rightarrow> SvRequest \<Rightarrow> string \<Rightarrow> (SvState \<Rightarrow> sv_response \<times> SvState) \<Rightarrow> SvState \<Rightarrow> sv_response \<times> SvState" where
  "guarded env cfg rq sub handler st =
    (case authenticate cfg rq of
       Some r \<Rightarrow> (r, st)
     | None \<Rightarrow>
         (case requireCLISubcommand env cfg sub st of
            (Some r, st') \<Rightarrow> (r, st')
          | (None, st') \<Rightarrow> handler st'))"

definition handleRoot :: "SvConfig \<Rightarrow> SvRequest \<Rightarrow> SvState \<Rightarrow> sv_response \<times> SvState" where
  "handleRoot cfg rq st = (case authenticate cfg rq of Some r \<Rightarrow> (r, st) | None \<Rightarrow> ((200, ''status'', ''ok''), st))"

definition handleUpdate :: "SvEnv \<Rightarrow> SvConfig \<Rightarrow> SvRequest \<Rightarrow> SvState \<Rightarrow> sv_response \<times> SvState" where
  "handleUpdate env cfg rq =
    guarded env cfg rq ''update'' (\<lambda>st.
      case sv_runCommand env [vc_AppName cfg, ''update'', ''--no-update-service''] st of
        (Some _, st') \<Rightarrow> ((500, ''detail'', ''update failed on server''), st')
      | (None, st') \<Rightarrow> ((200, ''detail'', ''node updated successfully''), st'))"

definition handleCoreUpdate :: "SvEnv \<Rightarrow> SvConfig \<Rightarrow> SvRequest \<Rightarrow> SvState \<Rightarrow> sv_response \<times> SvState" where
  "handleCoreUpdate env cfg rq =
    guarded env cfg rq ''core-update'' (\<lambda>st.
      case ve_decode env ''core_version'' (rq_Body rq) of
        None \<Rightarrow> ((400, ''detail'', ''Invalid JSON body''), st)
      | Some version \<Rightarrow>
          (case validate_core version of
             Some e \<Rightarrow> ((400, ''detail'', e), st)
           | None \<Rightarrow>
               (case sv_runCommand env [vc_AppName cfg, ''core-update'', ''--version'', version] st of
                  (None, st') \<Rightarrow> ((200, ''detail'', ''node core updated successfully''), st')
                | (Some (stderr, code, e), st') \<Rightarrow>
                    (if cleanANSI stderr \<noteq> []
                     then (404, ''detail'', ''core-update failed for version '' @ version @ '': '' @ cleanANSI stderr)
                     else (500, ''detail'', ''core-update failed for version '' @ version @ '': '' @ e), st'))))"

definition handleGeofiles :: "SvEnv \<Rightarrow> SvConfig \<Rightarrow> SvRequest \<Rightarrow> SvState \<Rightarrow> sv_response \<times> SvState" where
  "handleGeofiles env cfg rq =
    guarded env cfg rq ''geofiles'' (\<lambda>st.
      case ve_decode env ''region'' (rq_Body rq) of
        None \<Rightarrow> ((400, ''detail'', ''Invalid JSON body''), st)
      | Some raw \<Rightarrow>
          (case validate_geofiles raw of
             Inl e \<Rightarrow> ((400, ''detail'', e), st)
           | Inr region \<Rightarrow>
               (case sv_runCommand env [vc_AppName cfg, ''geofiles'', ''--'' @ region] st of
                  (Some _, st') \<Rightarrow> ((500, ''detail'', ''geofiles update failed on server''), st')
                | (None, st') \<Rightarrow> ((200, ''detail'', ''geofiles updated successfully''), st'))))"

definition handleHardReset :: "SvEnv \<Rightarrow> SvConfig \<Rightarrow> SvRequest \<Rightarrow> SvState \<Rightarrow> sv_response \<times> SvState" where
  "handleHardReset env cfg rq =
    guarded env cfg rq ''restart'' (\<lambda>st.
      case sv_runCommand env [vc_AppName cfg, ''restart''] st of
        (None, st') \<Rightarrow> ((200, ''detail'', ''node restarted successfully''), st')
      | (Some (stderr, code, e), st') \<Rightarrow>
          ((500, ''detail'', ''hard reset failed for '' @ vc_AppName cfg @ '': '' @ (if cleanANSI stderr \<noteq> [] then cleanANSI stderr else e)), st'))"

text \<open>
  The routes on a cleaned path: the pattern \<open>GET /\<close> takes every GET and HEAD request, any other request to a path without a route of its own is
  answered with 405.
\<close>

definition newMux :: "SvEnv \<Rightarrow> SvConfig \<Rightarrow> SvRequest \<Rightarrow> SvState \<Rightarrow> sv_response \<times> SvState" where
  "newMux env cfg rq st =
    (if rq_Method rq = ''POST'' \<and> rq_Path rq = ''/node/update'' then handleUpdate env cfg rq st
     else if rq_Method rq = ''POST'' \<and> rq_Path rq = ''/node/core_update'' then handleCoreUpdate env cfg rq st
     else if rq_Method rq = ''POST'' \<and> rq_Path rq = ''/node/geofiles'' then handleGeofiles env cfg rq st
     else if rq_Method rq = ''POST'' \<and> rq_Path rq = ''/node/hard_reset'' then handleHardReset env cfg rq st
     else if rq_Method rq \<in> {''GET'', ''HEAD''} then handleRoot cfg rq st
     else ((405, ''detail'', ''Method Not Allowed''), st))"

section \<open>What can run\<close>

text \<open>The commands of the tool \<open>app\<close> that the service may run.\<close>

definition allowed_command :: "string \<Rightarrow> string list \<Rightarrow> bool" where
  "allowed_command app argv \<longleftrightarrow>
    argv = [app, ''update'', ''--no-update-service''] \<or> argv = [app, ''restart''] \<or>
    argv \<in> {[app, ''geofiles'', ''--iran''], [app, ''geofiles'', ''--russia''], [app, ''geofiles'', ''--china'']} \<or>
    (\<exists>version. argv = [app, ''core-update'', ''--version'', version] \<and> coreVersionRegexp version)"

definition runs_at_most_one :: "SvConfig \<Rightarrow> SvState \<Rightarrow> SvState \<Rightarrow> bool" where
  "runs_at_most_one cfg st st' \<longleftrightarrow> vs_ran st' = vs_ran st \<or> (\<exists>argv. allowed_command (vc_AppName cfg) argv \<and> vs_ran st' = vs_ran st @ [argv])"

lemma requireCLISubcommand_ran: "requireCLISubcommand env cfg sub st = (r, st') \<Longrightarrow> vs_ran st' = vs_ran st"
  by (auto simp: requireCLISubcommand_def cliSupports_def Let_def split: option.splits prod.splits bool.splits)

lemma guarded_runs:
  assumes "guarded env cfg rq sub handler st = (r, st')" and "\<And>st0 r1 st1. handler st0 = (r1, st1) \<Longrightarrow> runs_at_most_one cfg st0 st1"
  shows "runs_at_most_one cfg st st'"
proof (cases "authenticate cfg rq")
  case None
  obtain q st0 where q: "requireCLISubcommand env cfg sub st = (q, st0)" by (metis surj_pair)
  have s: "vs_ran st0 = vs_ran st" by (rule requireCLISubcommand_ran [OF q])
  show ?thesis
  proof (cases q)
    case None2: None
    have "runs_at_most_one cfg st0 st'" using assms(1) None q None2 by (intro assms(2)) (simp add: guarded_def)
    then show ?thesis by (simp add: runs_at_most_one_def s)
  next
    case (Some x)
    then show ?thesis using assms(1) None q s by (simp add: guarded_def runs_at_most_one_def)
  qed
next
  case (Some x)
  then show ?thesis using assms(1) by (simp add: guarded_def runs_at_most_one_def)
qed

lemma guarded_locked: "authenticate cfg rq \<noteq> None \<Longrightarrow> guarded env cfg rq sub handler st = (the (authenticate cfg rq), st)"
  by (auto simp: guarded_def)

lemma run_ran: "sv_runCommand env argv st0 = (q, st1) \<Longrightarrow> vs_ran st1 = vs_ran st0 @ [argv]"
  by (auto simp: sv_runCommand_def)

lemma validate_core_ok: "validate_core v = None \<Longrightarrow> coreVersionRegexp v"
  by (simp add: validate_core_def split: if_splits)

lemma validate_geofiles_ok: "validate_geofiles raw = Inr region \<Longrightarrow> region \<in> {''iran'', ''russia'', ''china''}"
  by (auto simp: validate_geofiles_def geofileRegionRegexp_def split: if_splits)

lemma one_command: "allowed_command (vc_AppName cfg) argv \<Longrightarrow> sv_runCommand env argv st0 = (q, st1) \<Longrightarrow> runs_at_most_one cfg st0 st1"
  by (auto simp: runs_at_most_one_def dest: run_ran)

lemma no_command: "runs_at_most_one cfg st st"
  by (simp add: runs_at_most_one_def)

lemma allowed_commands:
  "allowed_command app [app, ''update'', ''--no-update-service'']"
  "allowed_command app [app, ''restart'']"
  "region \<in> {''iran'', ''russia'', ''china''} \<Longrightarrow> allowed_command app [app, ''geofiles'', ''--'' @ region]"
  "coreVersionRegexp v \<Longrightarrow> allowed_command app [app, ''core-update'', ''--version'', v]"
  by (auto simp: allowed_command_def)

lemma handleUpdate_runs: "handleUpdate env cfg rq st = (r, st') \<Longrightarrow> runs_at_most_one cfg st st'"
  unfolding handleUpdate_def
  by (erule guarded_runs) (auto split: prod.splits option.splits intro: one_command [OF allowed_commands(1)])

lemma handleHardReset_runs: "handleHardReset env cfg rq st = (r, st') \<Longrightarrow> runs_at_most_one cfg st st'"
  unfolding handleHardReset_def
  by (erule guarded_runs) (auto split: prod.splits option.splits intro: one_command [OF allowed_commands(2)])

lemma handleCoreUpdate_runs: "handleCoreUpdate env cfg rq st = (r, st') \<Longrightarrow> runs_at_most_one cfg st st'"
  unfolding handleCoreUpdate_def
proof (erule guarded_runs, goal_cases)
  case (1 st0 r1 st1)
  show ?case
  proof (cases "\<exists>v. ve_decode env ''core_version'' (rq_Body rq) = Some v \<and> validate_core v = None")
    case False
    then have "st1 = st0" using 1 by (auto split: option.splits)
    then show ?thesis by (simp add: no_command)
  next
    case True
    then obtain v where v: "ve_decode env ''core_version'' (rq_Body rq) = Some v" "validate_core v = None" by blast
    obtain q st2 where q: "sv_runCommand env [vc_AppName cfg, ''core-update'', ''--version'', v] st0 = (q, st2)" by (metis surj_pair)
    have "st1 = st2" using 1 by (cases q) (auto simp: v q split: prod.splits)
    then show ?thesis using one_command [OF allowed_commands(4) [OF validate_core_ok [OF v(2)]] q] by simp
  qed
qed

lemma handleGeofiles_runs: "handleGeofiles env cfg rq st = (r, st') \<Longrightarrow> runs_at_most_one cfg st st'"
  unfolding handleGeofiles_def
proof (erule guarded_runs, goal_cases)
  case (1 st0 r1 st1)
  show ?case
  proof (cases "\<exists>raw region. ve_decode env ''region'' (rq_Body rq) = Some raw \<and> validate_geofiles raw = Inr region")
    case False
    then have "st1 = st0" using 1 by (auto split: option.splits sum.splits)
    then show ?thesis by (simp add: no_command)
  next
    case True
    then obtain raw region where v: "ve_decode env ''region'' (rq_Body rq) = Some raw" "validate_geofiles raw = Inr region" by blast
    obtain q st2 where q: "sv_runCommand env [vc_AppName cfg, ''geofiles'', ''--'' @ region] st0 = (q, st2)" by (metis surj_pair)
    have "st1 = st2" using 1 q by (cases q) (auto simp: v)
    then show ?thesis using one_command [OF allowed_commands(3) [OF validate_geofiles_ok [OF v(2)]] q] by simp
  qed
qed


definition lab_sv_host :: SvHost where
  "lab_sv_host = \<lparr>vh_env = (\<lambda>_. []), vh_exeDir = None, vh_stat = (\<lambda>_. True), vh_notExist = (\<lambda>_. False), vh_Join = (\<lambda>a b. a @ ''/'' @ b),
     vh_loadEnv = (\<lambda>_. Inr (\<lambda>_. ''k''))\<rparr>"

definition lab_sv_env :: SvEnv where
  "lab_sv_env = \<lparr>ve_run = (\<lambda>_. None), ve_installed = (\<lambda>_. True), ve_probe = (\<lambda>_. ''core-update''), ve_decode = (\<lambda>_ _. Some ''v1.2.3'')\<rparr>"

text \<open>With the key, the update of the core is run.\<close>

lemma serviced_runs_core_update:
  "vs_ran (snd (newMux lab_sv_env (snd (loadConfig lab_sv_host))
     \<lparr>rq_Method = ''POST'', rq_Path = ''/node/core_update'', rq_Key = ''k'', rq_Body = []\<rparr> \<lparr>vs_cache = Map.empty, vs_ran = []\<rparr>)) =
   [[''k'', ''core-update'', ''--version'', ''v1.2.3'']]"
  by code_simp


end
