(* ===== verification/Spec2Isabelle.thy ===== *)
theory Spec2Isabelle
  imports Prelude Tracker RateLimit Common PeerStore WgDevice WgSync WgSyncCorrect WgLimit
    CredStore ChapSecrets Ppp PppCorrect
    Ipsec Ikev2 Ikev2Correct Ikev2Sync AutoCert
    OvpnUsers Ovpn OvpnCorrect OvpnConfig LogChannel WgLatency
    XrayAccount XrayConfig XrayUsers XrayCorrect XrayRules
    XrayLog XrayProcess XrayCore XrayJobs XrayStats
    HostRoute HostRouteCorrect WgRoute
    Daemon PassCores PassCoresCorrect Tunnels PppConfig PppConfigCorrect WgVariants
    DeviceLimit UserChunks Composite Controller Service NodeConf Serviced
begin

text \<open>
  A verification development for HPXNODE, the edge node of a VPN panel, written in Go.

  \<^bold>\<open>The program.\<close> The panel talks to the node over gRPC (\<open>controller/rpc\<close>) or REST (\<open>controller/rest\<close>).
  Both services share one controller (\<open>controller\<close>), which owns a table of cores: back ends for Xray,
  WireGuard, OpenVPN, L2TP, PPTP, IKEv2 and more, all behind the interface \<open>backend.Backend\<close>. The panel
  sends every core the users it serves; a core keeps them in a store of its own, brings its daemon or
  kernel device in line with the store, counts the traffic of each user with the shared tracker of
  \<open>pkg/stats\<close> and disconnects users with too many devices. Jobs of the controller enforce the device limit
  across cores, refresh the traffic shaper (\<open>backend/ratelimit\<close>) and stop the node when the panel is gone.

  \<^bold>\<open>Theories and the code they model.\<close>
  \<^item> \<open>Prelude\<close>: 64-bit wrap-around, Go maps as partial functions with an explicit iteration order, strings
    as lists of bytes, and the lemmas on folds that most loops need.
  \<^item> \<open>Tracker\<close>: \<open>pkg/stats\<close>, the traffic counters per user and per interface. The traffic credited to a
    key is always what was reported plus what is pending.
  \<^item> \<open>RateLimit\<close>: \<open>backend/ratelimit\<close>, the shaper over \<open>tc\<close> and \<open>nft\<close>. Classes and marks of two clients never
    meet, and applying a list of clients leaves exactly these.
  \<^item> \<open>Common\<close>: the messages of \<open>common/service.pb.go\<close> that the model reads, and \<open>common/helper.go\<close> with the
    Shadowsocks key derivation on a model of base64.
  \<^item> \<open>PeerStore\<close>, \<open>WgDevice\<close>, \<open>WgSync\<close>, \<open>WgSyncCorrect\<close>, \<open>WgLimit\<close>: \<open>backend/wireguard\<close>. The store is a 1:1 mapping
    between emails and keys that refines an abstract registry (a locale, interpreted on the store); full
    and partial synchronisations give exactly the peers asked for and keep the kernel device equal to the
    store; the device limit decides on two consecutive polls.
  \<^item> \<open>CredStore\<close>, \<open>ChapSecrets\<close>, \<open>Ppp\<close>, \<open>PppCorrect\<close>: the stores of \<open>backend/l2tp\<close>, \<open>backend/pptp\<close> and \<open>backend/ikev2\<close>,
    the shared secrets file and the L2TP and PPTP back ends, written once over the reader of the
    credentials: what the stores and the file hold, and that a poll counts exactly the growth of the
    interfaces and terminates exactly the sessions beyond the limit.
  \<^item> \<open>PppConfig\<close>, \<open>PppConfigCorrect\<close>: the configuration of L2TP and PPTP (\<open>config.go\<close>, \<open>serverconf.go\<close>) and the life of a PPTP core:
    which addresses a pool hands out, when the server's own address is one of them, what a failed start leaves.
  \<^item> \<open>Ipsec\<close>: \<open>backend/ipsec\<close>, the charon daemon that IKEv2 and L2TP share, with the start, stop and restart of both: the
    references equal the running cores, and the wait for the socket returns.
  \<^item> \<open>Ikev2\<close>, \<open>Ikev2Correct\<close>, \<open>Ikev2Sync\<close>: \<open>backend/ikev2\<close>. VICI messages, configuration fragments, accounting and limits of the
    associations, also of a user with PPP and IKEv2 sessions at once; what a synchronisation revokes.
  \<^item> \<open>AutoCert\<close>: \<open>backend/ikev2/autocert.go\<close>, the certificate of a node's own host name as the set-up of the IKEv2 start: which certificate a
    core runs with, that the port of the challenge is closed again, what a failed order or a failed write leaves.
  \<^item> \<open>Daemon\<close>, \<open>PassCores\<close>, \<open>PassCoresCorrect\<close>, \<open>Tunnels\<close>: the supervision of one daemon that six back ends repeat, and
    \<open>backend/sstp\<close>, \<open>backend/openconnect\<close>, \<open>backend/sshvpn\<close>, \<open>backend/gre\<close> and \<open>backend/mtproto\<close>: at most one daemon per core, the files
    the daemons read are the stores, what happens to users that are not named.
  \<^item> \<open>HostRoute\<close>, \<open>HostRouteCorrect\<close>, \<open>WgRoute\<close>: \<open>backend/hostroute\<close>, \<open>backend/egress\<close>, the \<open>nat_linux.go\<close> files and the host routing of
    WireGuard: set-up and clean-up of the firewall touch exactly the rules of their owner.
  \<^item> \<open>WgVariants\<close>: \<open>backend/amneziawg\<close> and \<open>backend/wg_c\<close>, configurations on top of the WireGuard back end.
  \<^item> \<open>OvpnUsers\<close>, \<open>Ovpn\<close>, \<open>OvpnCorrect\<close>, \<open>OvpnConfig\<close>: \<open>backend/openvpn\<close>. Which clients the management interface
    admits, the device limit in every reachable state, the split of a subnet into disjoint blocks.
  \<^item> \<open>LogChannel\<close>, \<open>WgLatency\<close>: the log channel of a back end (\<open>wireguard/log.go\<close>, \<open>openvpn/log.go\<close>) with interleaved writers, the OpenVPN
    process of \<open>openvpn.go\<close>, and the latency probe of WireGuard: when a send or a close meets a closed channel.
  \<^item> \<open>XrayAccount\<close>, \<open>XrayConfig\<close>, \<open>XrayUsers\<close>, \<open>XrayCorrect\<close>, \<open>XrayRules\<close>: \<open>backend/xray\<close> and \<open>backend/singbox\<close>. Stored and
    running accounts are exactly what the users ask for, batches equal single synchronisations, and the
    rewriting of the configuration is exact and idempotent.
  \<^item> \<open>XrayLog\<close>, \<open>XrayProcess\<close>, \<open>XrayCore\<close>, \<open>XrayJobs\<close>, \<open>XrayStats\<close>: the process of Xray. The ring of log lines refines a list, the clean-up
    kills exactly the orphans (\<open>process_unix.go\<close>), at most one process runs (\<open>core.go\<close>), a failed start leaves none and the health check
    restarts every tenth failure (\<open>jobs.go\<close>), and the statistics of the API (\<open>api/stats.go\<close>, \<open>latency.go\<close>).
  \<^item> \<open>DeviceLimit\<close>, \<open>UserChunks\<close>, \<open>Composite\<close>, \<open>Controller\<close>, \<open>Service\<close>: \<open>controller\<close> and \<open>backend/composite.go\<close>. The
    distribution of device shares over cores, the reassembly of user lists, the fan-out to several cores
    and the two services, up to the invariant that the running cores are those of the table.
  \<^item> \<open>NodeConf\<close>, \<open>Serviced\<close>: \<open>config\<close>, \<open>pkg/netutil\<close>, \<open>pkg/sysstats\<close> and the maintenance service of \<open>cmd/serviced\<close>: which key opens the node, and
    which commands a request can run.

  \<^bold>\<open>How code becomes definitions.\<close> A struct is a record, an interface with several implementations a
  datatype or a record of functions, a pointer that may be nil an option. Methods take the state and
  return it updated; an error is a value (\<open>string option\<close>, or the left of a sum), a panic is \<open>None\<close>. Sized
  integers are words or integers with the wrap-around written out (\<open>i64\<close>, \<open>of_nat\<close> into \<open>32 word\<close>). A loop over a Go
  map takes the order of its keys as an argument, and a property holds for every order that enumerates
  the map. A mutex makes its method one step; the interleaving of methods is the order of the steps in the
  run relations (\<open>tracker_run\<close>, \<open>sync_run\<close>, \<open>ov_reach\<close>, \<open>core_run\<close>, \<open>emit_run\<close>, \<open>ovp_run\<close>, the runs of \<open>Service\<close>). What the program calls outside its
  source is a parameter: kernel, daemons, commands, files, clock, JSON and the libraries of Xray and
  WireGuard; the laws that a property needs are its named hypotheses, and its witness instantiates them.
  No definition needs fuel: the loops of the modelled code run over a list or a bounded counter, but for the
  wait for the charon socket, a \<open>partial_function\<close> that is proved to return while the clock advances.

  \<^bold>\<open>Interfaces.\<close> What one part relies on is a locale, interpreted on the definitions of the model: \<open>peer_registry\<close>
  on the WireGuard store, \<open>credential_reader\<close> on the readers of L2TP, PPTP and IKEv2, \<open>device_limiter\<close> on PPP sessions, IKEv2
  associations and a node with both, \<open>login_format\<close> on the two formats of login files, \<open>bounded_log\<close> on the ring of log lines,
  \<open>log_emitter\<close> on the writers of WireGuard and OpenVPN.

  \<^bold>\<open>Not modelled.\<close> The set-up of listeners, TLS, signals and files in \<open>cmd\<close> and \<open>pkg\<close>, the client of the Xray API, the process control of
  Windows and the stubs of other systems, the forwarding of log channels between goroutines, the statistics of the Go runtime, and the generated
  protobuf and gRPC code: they are input and output around the state that is modelled.
\<close>

end
